(* ===== verification/FOS_Prelude.thy ===== *)
theory FOS_Prelude
  imports "HOL-Library.Word" "HOL-Library.Monad_Syntax"
begin

unbundle bit_operations_syntax

text \<open>
  Vocabulary shared by every component of the FOS kernel model: the machine types of
  \<^verbatim>\<open>inc/types.h\<close>, the rounding macros, the page constants of \<^verbatim>\<open>inc/mmu.h\<close>, and the
  word arithmetic the component proofs use.

  A kernel routine that can \<^verbatim>\<open>panic\<close> (which never returns) is a function into an
  \<open>option\<close>: \<open>None\<close> is the panic, or an assertion failure, and \<open>Some\<close> the ordinary
  return with the new state. Error \<^emph>\<open>codes\<close> and null pointers the code returns are
  ordinary values.
\<close>

section \<open>Machine types\<close>

type_synonym u8 = "8 word"
type_synonym u32 = "32 word"

text \<open>Pointers and virtual addresses are 32-bit values; address 0 is \<^verbatim>\<open>NULL\<close>.\<close>

type_synonym ptr = "32 word"

abbreviation NULL :: ptr where
  "NULL \<equiv> 0"

section \<open>Routines that may panic\<close>

text \<open>\<open>returns r P\<close>: the routine does not panic, and its result satisfies \<open>P\<close>.\<close>

definition returns :: "'a option \<Rightarrow> ('a \<Rightarrow> bool) \<Rightarrow> bool" where
  "returns r P = (case r of None \<Rightarrow> False | Some x \<Rightarrow> P x)"

lemma returns_None [simp]: "returns None P \<longleftrightarrow> False"
  by (simp add: returns_def)

lemma returns_Some [simp]: "returns (Some x) P \<longleftrightarrow> P x"
  by (simp add: returns_def)

lemma returns_bind: "returns (Option.bind r f) P \<longleftrightarrow> returns r (\<lambda>x. returns (f x) P)"
  by (cases r) auto

lemma returnsE:
  assumes "returns r P"
  obtains x where "r = Some x" and "P x"
  using assms by (cases r) auto

lemma returns_mono: "returns r P \<Longrightarrow> (\<And>x. P x \<Longrightarrow> Q x) \<Longrightarrow> returns r Q"
  by (cases r) auto

lemma returns_iff: "returns r P \<longleftrightarrow> (\<exists>x. r = Some x \<and> P x)"
  by (cases r) auto

section \<open>Rounding macros\<close>

text \<open>\<^verbatim>\<open>ROUNDDOWN\<close> and \<^verbatim>\<open>ROUNDUP\<close> of \<^verbatim>\<open>inc/types.h\<close>, on \<^verbatim>\<open>uint32\<close>.\<close>

definition ROUNDDOWN :: "u32 \<Rightarrow> u32 \<Rightarrow> u32" where
  "ROUNDDOWN a n = a - a mod n"

definition ROUNDUP :: "u32 \<Rightarrow> u32 \<Rightarrow> u32" where
  "ROUNDUP a n = ROUNDDOWN (a + n - 1) n"

abbreviation PAGE_SIZE :: u32 where
  "PAGE_SIZE \<equiv> 4096"

section \<open>Named collections\<close>

named_theorems word_nat "moving word terms to natural numbers"

section \<open>Words and natural numbers\<close>

lemma unat_of_nat_u32 [word_nat]:
  "n < 4294967296 \<Longrightarrow> unat (of_nat n :: u32) = n"
  by (simp add: unsigned_of_nat take_bit_eq_mod)

lemma of_nat_u32_eq_iff [word_nat]:
  "m < 4294967296 \<Longrightarrow> n < 4294967296 \<Longrightarrow> (of_nat m :: u32) = of_nat n \<longleftrightarrow> m = n"
  by (metis unat_of_nat_u32)

lemma of_nat_u32_le_iff [word_nat]:
  "m < 4294967296 \<Longrightarrow> n < 4294967296 \<Longrightarrow> (of_nat m :: u32) \<le> of_nat n \<longleftrightarrow> m \<le> n"
  by (simp add: word_le_nat_alt unat_of_nat_u32)

lemma of_nat_u32_less_iff [word_nat]:
  "m < 4294967296 \<Longrightarrow> n < 4294967296 \<Longrightarrow> (of_nat m :: u32) < of_nat n \<longleftrightarrow> m < n"
  by (simp add: word_less_nat_alt unat_of_nat_u32)

lemma of_nat_u32_sub [word_nat]:
  "n \<le> m \<Longrightarrow> (of_nat m :: u32) - of_nat n = of_nat (m - n)"
  by (simp add: of_nat_diff)

lemma of_nat_u32_zero_iff [word_nat]:
  "n < 4294967296 \<Longrightarrow> (of_nat n :: u32) = 0 \<longleftrightarrow> n = 0"
  using of_nat_u32_eq_iff [of n 0] by simp

lemma of_nat_u32_mod [word_nat]:
  "m < 4294967296 \<Longrightarrow> n < 4294967296 \<Longrightarrow> (of_nat m :: u32) mod of_nat n = of_nat (m mod n)"
  by (simp add: word_unat_eq_iff unat_mod unat_of_nat_u32
      order.strict_trans1 [OF mod_less_eq_dividend])

lemma of_nat_u32_div [word_nat]:
  "m < 4294967296 \<Longrightarrow> n < 4294967296 \<Longrightarrow> (of_nat m :: u32) div of_nat n = of_nat (m div n)"
  by (simp add: word_unat_eq_iff unat_div unat_of_nat_u32
      order.strict_trans1 [OF div_le_dividend])

lemma unat_u32_bound: "unat (w :: u32) < 4294967296"
  using unsigned_less [of w] by simp

lemma u32_eq_of_nat: "\<exists>n < 4294967296. (w :: u32) = of_nat n"
  by (rule exI [of _ "unat w"]) (simp add: unat_u32_bound)

text \<open>Parity of a word is the parity of the number it stands for, and the low bit is free in an even one.\<close>

lemma u32_mod_2: "(w :: u32) mod 2 = (if even (unat w) then 0 else 1)"
proof -
  have "unat (w mod 2) = unat w mod 2" by (simp add: unat_mod)
  then show ?thesis by (auto simp: word_unat_eq_iff odd_iff_mod_2_eq_one)
qed

lemma even_unat_iff: "even (unat (w :: u32)) \<longleftrightarrow> even w"
  by (simp add: even_iff_mod_2_eq_zero u32_mod_2)

lemma u32_or_1_even: "even (unat (w :: u32)) \<Longrightarrow> w OR 1 = w + 1"
  by (simp add: or_one_eq even_unat_iff)

section \<open>Rounding\<close>

lemma unat_ROUNDDOWN: "unat (ROUNDDOWN a n) = unat a - unat a mod unat n"
proof -
  have "a mod n \<le> a" by (simp add: word_le_nat_alt unat_mod)
  then show ?thesis by (simp add: ROUNDDOWN_def unat_sub unat_mod)
qed

lemma ROUNDDOWN_le: "ROUNDDOWN a n \<le> a"
  by (simp add: word_le_nat_alt unat_ROUNDDOWN)

lemma ROUNDDOWN_aligned: "unat n dvd unat (ROUNDDOWN a n)"
  by (simp add: unat_ROUNDDOWN minus_mod_eq_mult_div)

lemma unat_ROUNDUP:
  assumes "0 < unat n" and "unat a + unat n - 1 < 4294967296"
  shows "unat (ROUNDUP a n) = (unat a + unat n - 1) div unat n * unat n"
proof -
  have "unat (a + n - 1) = unat a + unat n - 1"
  proof -
    have "a + n - 1 = of_nat (unat a + unat n - 1)"
      using assms(1) by (simp add: of_nat_diff)
    then show ?thesis using assms(2) by (simp add: unat_of_nat_u32)
  qed
  then show ?thesis
    by (simp add: ROUNDUP_def unat_ROUNDDOWN minus_mod_eq_div_mult)
qed

end
