(* ===== verification/FOS_Queue.thy ===== *)
theory FOS_Queue
  imports FOS_Prelude
begin

text \<open>
  The intrusive doubly linked lists of \<^verbatim>\<open>inc/queue.h\<close>, on which every list of the kernel
  is built (free blocks, process queues, working sets, frames, shares).

  The macros are modelled as they are written, as pointer operations on a store: an
  element is a pointer, its two links are read and written through a
  \<open>link_ops\<close> record (the C code gets that polymorphism from the preprocessor), and
  the list head is the \<^verbatim>\<open>struct\<close> that \<^verbatim>\<open>LIST_HEAD\<close> declares. The relation
  \<open>dll ops s h xs\<close> says that head \<open>h\<close> in store \<open>s\<close> represents the HOL list
  \<open>xs\<close>; in the locale \<open>link_store\<close> every macro is shown to refine the list operation
  it stands for and to leave the rest of the store alone.
\<close>

section \<open>Data\<close>

record 's link_ops =
  le_next :: "'s \<Rightarrow> ptr \<Rightarrow> ptr"
  set_le_next :: "ptr \<Rightarrow> ptr \<Rightarrow> 's \<Rightarrow> 's"
  le_prev :: "'s \<Rightarrow> ptr \<Rightarrow> ptr"
  set_le_prev :: "ptr \<Rightarrow> ptr \<Rightarrow> 's \<Rightarrow> 's"

record list_head =
  lh_first :: ptr
  lh_last :: ptr
  lh_size :: u32

section \<open>The macros\<close>

definition LIST_INIT :: "list_head \<Rightarrow> list_head" where
  "LIST_INIT h = h\<lparr>lh_first := NULL, lh_last := NULL, lh_size := 0\<rparr>"

definition LIST_EMPTY :: "list_head \<Rightarrow> bool" where
  "LIST_EMPTY h = (lh_first h = NULL)"

definition LIST_INSERT_AFTER ::
  "'s link_ops \<Rightarrow> ptr \<Rightarrow> ptr \<Rightarrow> list_head \<Rightarrow> 's \<Rightarrow> (list_head \<times> 's) option" where
  "LIST_INSERT_AFTER ops listelm elm h s =
    (if listelm = NULL \<or> elm = NULL then None
     else
       let nxt = le_next ops s listelm;
           s1 = set_le_next ops elm nxt s;
           s2 = (if nxt \<noteq> NULL then set_le_prev ops (le_next ops s1 listelm) elm s1 else s1);
           s3 = set_le_next ops listelm elm s2;
           s4 = set_le_prev ops elm listelm s3;
           h1 = (if le_next ops s4 elm = NULL then h\<lparr>lh_last := elm\<rparr> else h)
       in Some (h1\<lparr>lh_size := lh_size h1 + 1\<rparr>, s4))"

definition LIST_INSERT_BEFORE ::
  "'s link_ops \<Rightarrow> ptr \<Rightarrow> ptr \<Rightarrow> list_head \<Rightarrow> 's \<Rightarrow> (list_head \<times> 's) option" where
  "LIST_INSERT_BEFORE ops listelm elm h s =
    (if listelm = NULL \<or> elm = NULL then None
     else
       let s1 = set_le_prev ops elm (le_prev ops s listelm) s;
           s2 = set_le_next ops elm listelm s1;
           (h1, s3) =
             (if le_prev ops s2 listelm \<noteq> NULL
              then (h, set_le_next ops (le_prev ops s2 listelm) elm s2)
              else (h\<lparr>lh_first := elm\<rparr>, s2));
           s4 = set_le_prev ops listelm elm s3
       in Some (h1\<lparr>lh_size := lh_size h1 + 1\<rparr>, s4))"

definition LIST_INSERT_HEAD ::
  "'s link_ops \<Rightarrow> ptr \<Rightarrow> list_head \<Rightarrow> 's \<Rightarrow> (list_head \<times> 's) option" where
  "LIST_INSERT_HEAD ops elm h s =
    (if elm = NULL then None
     else
       let s1 = set_le_next ops elm (lh_first h) s;
           (h1, s2) =
             (if lh_first h \<noteq> NULL then (h, set_le_prev ops (lh_first h) elm s1)
              else (h\<lparr>lh_last := elm\<rparr>, s1));
           h2 = h1\<lparr>lh_first := elm\<rparr>;
           s3 = set_le_prev ops elm NULL s2
       in Some (h2\<lparr>lh_size := lh_size h2 + 1\<rparr>, s3))"

definition LIST_INSERT_TAIL ::
  "'s link_ops \<Rightarrow> ptr \<Rightarrow> list_head \<Rightarrow> 's \<Rightarrow> (list_head \<times> 's) option" where
  "LIST_INSERT_TAIL ops elm h s =
    (if elm = NULL then None
     else
       let s1 = set_le_prev ops elm (lh_last h) s;
           (h1, s2) =
             (if lh_last h \<noteq> NULL then (h, set_le_next ops (lh_last h) elm s1)
              else (h\<lparr>lh_first := elm\<rparr>, s1));
           h2 = h1\<lparr>lh_last := elm\<rparr>;
           s3 = set_le_next ops elm NULL s2
       in Some (h2\<lparr>lh_size := lh_size h2 + 1\<rparr>, s3))"

definition LIST_REMOVE ::
  "'s link_ops \<Rightarrow> ptr \<Rightarrow> list_head \<Rightarrow> 's \<Rightarrow> (list_head \<times> 's) option" where
  "LIST_REMOVE ops elm h s =
    (if elm = NULL then None
     else
       let (h1, s1) =
             (if le_next ops s elm \<noteq> NULL
              then (h, set_le_prev ops (le_next ops s elm) (le_prev ops s elm) s)
              else (h\<lparr>lh_last := le_prev ops s elm\<rparr>, s));
           (h2, s2) =
             (if le_prev ops s1 elm \<noteq> NULL
              then (h1, set_le_next ops (le_prev ops s1 elm) (le_next ops s1 elm) s1)
              else (h1\<lparr>lh_first := le_next ops s1 elm\<rparr>, s1));
           s3 = set_le_next ops elm NULL s2;
           s4 = set_le_prev ops elm NULL s3
       in Some (h2\<lparr>lh_size := lh_size h2 - 1\<rparr>, s4))"

text \<open>
  \<^verbatim>\<open>LIST_FOREACH\<close> saves the successor of the current element in the head before it runs
  the body, so the body may remove the element. The body returns whether it leaves the loop by
  \<^verbatim>\<open>break\<close>; the result is the loop variable (\<^verbatim>\<open>NULL\<close> at a normal end) and the state.
\<close>

partial_function (option) LIST_FOREACH ::
  "('s \<Rightarrow> ptr \<Rightarrow> ptr) \<Rightarrow> (ptr \<Rightarrow> 's \<Rightarrow> (bool \<times> 's) option) \<Rightarrow> ptr \<Rightarrow> 's \<Rightarrow> (ptr \<times> 's) option"
where
  "LIST_FOREACH nxt body var s =
    (if var = NULL then Some (NULL, s)
     else do {
       let ptr_next = nxt s var;
       (brk, s') \<leftarrow> body var s;
       if brk then Some (var, s') else LIST_FOREACH nxt body ptr_next s'
     })"

section \<open>The lists a store represents\<close>

primrec first_or :: "ptr \<Rightarrow> ptr list \<Rightarrow> ptr" where
  "first_or q [] = q"
| "first_or q (x # xs) = x"

definition last_or :: "ptr \<Rightarrow> ptr list \<Rightarrow> ptr" where
  "last_or p xs = (if xs = [] then p else last xs)"

lemma last_or_simps [simp]:
  "last_or p [] = p" "last_or p (xs @ [x]) = x" "last_or p (x # xs) = last_or x xs"
  by (simp_all add: last_or_def)

lemma first_or_append [simp]: "first_or q (xs @ ys) = first_or (first_or q ys) xs"
  by (cases xs) auto

lemma last_or_append [simp]: "last_or p (xs @ ys) = last_or (last_or p xs) ys"
  by (auto simp: last_or_def)

text \<open>\<open>dseg ops s p xs q\<close>: the elements \<open>xs\<close> are linked both ways, between \<open>p\<close> and \<open>q\<close>.\<close>

primrec dseg :: "'s link_ops \<Rightarrow> 's \<Rightarrow> ptr \<Rightarrow> ptr list \<Rightarrow> ptr \<Rightarrow> bool" where
  "dseg ops s p [] q = True"
| "dseg ops s p (x # xs) q =
     (le_prev ops s x = p \<and> le_next ops s x = first_or q xs \<and> dseg ops s x xs q)"

lemma dseg_append [simp]:
  "dseg ops s p (xs @ ys) q \<longleftrightarrow> dseg ops s p xs (first_or q ys) \<and> dseg ops s (last_or p xs) ys q"
  by (induction xs arbitrary: p) auto

lemma dseg_cong:
  assumes "\<And>x. x \<in> set xs \<Longrightarrow> le_next ops s' x = le_next ops s x \<and> le_prev ops s' x = le_prev ops s x"
  shows "dseg ops s' p xs q = dseg ops s p xs q"
  using assms by (induction xs arbitrary: p) auto

definition dll :: "'s link_ops \<Rightarrow> 's \<Rightarrow> list_head \<Rightarrow> ptr list \<Rightarrow> bool" where
  "dll ops s h xs \<longleftrightarrow>
     lh_first h = first_or NULL xs \<and> lh_last h = last_or NULL xs \<and>
     lh_size h = of_nat (length xs) \<and> dseg ops s NULL xs NULL \<and> NULL \<notin> set xs \<and> distinct xs"

lemma dll_cong:
  assumes "\<And>x. x \<in> set xs \<Longrightarrow> le_next ops s' x = le_next ops s x \<and> le_prev ops s' x = le_prev ops s x"
  shows "dll ops s' h xs = dll ops s h xs"
  using dseg_cong [OF assms] by (simp add: dll_def)

lemma first_or_NULL_iff: "NULL \<notin> set xs \<Longrightarrow> first_or NULL xs = NULL \<longleftrightarrow> xs = []"
  by (cases xs) auto

lemma last_or_NULL_iff: "NULL \<notin> set xs \<Longrightarrow> last_or NULL xs = NULL \<longleftrightarrow> xs = []"
  by (cases xs rule: rev_cases) auto

lemma dll_init: "dll ops s (LIST_INIT h) []"
  by (simp add: dll_def LIST_INIT_def)

lemma dll_empty_iff: "dll ops s h xs \<Longrightarrow> LIST_EMPTY h \<longleftrightarrow> xs = []"
  by (auto simp: dll_def LIST_EMPTY_def first_or_NULL_iff)

lemma dll_unique: "dll ops s h xs \<Longrightarrow> dll ops s h ys \<Longrightarrow> xs = ys"
proof -
  have "dseg ops s p xs NULL \<Longrightarrow> dseg ops s p ys NULL \<Longrightarrow> first_or NULL xs = first_or NULL ys \<Longrightarrow>
      NULL \<notin> set xs \<Longrightarrow> NULL \<notin> set ys \<Longrightarrow> xs = ys" for p
  proof (induction xs arbitrary: ys p)
    case Nil
    then show ?case by (cases ys) auto
  next
    case (Cons x xs)
    then show ?case by (cases ys) auto
  qed
  then show "dll ops s h xs \<Longrightarrow> dll ops s h ys \<Longrightarrow> xs = ys"
    unfolding dll_def by metis
qed

text \<open>
  A \<^verbatim>\<open>LIST_FOREACH\<close> that looks for an element: the body leaves the state alone on
  the elements before the first hit. The loop state \<open>st\<close> may hold more than the store
  \<open>s\<close> of the links, so the successor function is a parameter.
\<close>

lemma foreach_none:
  assumes "dseg ops s p xs NULL" and "NULL \<notin> set xs"
    and "\<And>x. x \<in> set xs \<Longrightarrow> nxt st x = le_next ops s x \<and> body x st = Some (False, st)"
  shows "LIST_FOREACH nxt body (first_or NULL xs) st = Some (NULL, st)"
  using assms
proof (induction xs arbitrary: p)
  case Nil
  then show ?case by (simp add: LIST_FOREACH.simps)
next
  case (Cons x xs)
  then have "LIST_FOREACH nxt body (first_or NULL xs) st = Some (NULL, st)" by auto
  with Cons.prems show ?case by (subst LIST_FOREACH.simps) auto
qed

lemma foreach_hit:
  assumes "dseg ops s p (xs @ x # ys) q" and "NULL \<notin> set (xs @ [x])"
    and "\<And>z. z \<in> set xs \<Longrightarrow> nxt st z = le_next ops s z \<and> body z st = Some (False, st)"
    and "body x st = Some (True, st')"
  shows "LIST_FOREACH nxt body (first_or q (xs @ x # ys)) st = Some (x, st')"
  using assms
proof (induction xs arbitrary: p)
  case Nil
  then show ?case by (simp add: LIST_FOREACH.simps)
next
  case (Cons z zs)
  then have "LIST_FOREACH nxt body (first_or q (zs @ x # ys)) st = Some (x, st')" by auto
  with Cons.prems show ?case by (subst LIST_FOREACH.simps) auto
qed

section \<open>Stores with links\<close>

text \<open>
  What a store must promise for the macros to work on it: the links of \<^emph>\<open>separate\<close>
  elements do not interfere, and writing a link of \<open>x\<close> changes nothing an observer sees
  outside the cells that \<open>x\<close> owns. Two stores of the kernel provide this: the table of
  process descriptors, where elements are separate when they differ, and the heap memory,
  where the links of free blocks are eight bytes inside the blocks themselves.
\<close>

locale link_store =
  fixes ops :: "'s link_ops"
    and sep :: "ptr \<Rightarrow> ptr \<Rightarrow> bool"
    and obs :: "'s \<Rightarrow> 'o \<Rightarrow> 'v"
    and owned :: "ptr \<Rightarrow> 'o set"
  assumes sep_sym: "sep x y \<Longrightarrow> sep y x"
    and next_set_next [simp]: "le_next ops (set_le_next ops x v s) x = v"
    and next_set_next_sep [simp]: "sep x y \<Longrightarrow> le_next ops (set_le_next ops y v s) x = le_next ops s x"
    and next_set_prev [simp]: "le_next ops (set_le_prev ops x v s) x = le_next ops s x"
    and next_set_prev_sep [simp]: "sep x y \<Longrightarrow> le_next ops (set_le_prev ops y v s) x = le_next ops s x"
    and prev_set_prev [simp]: "le_prev ops (set_le_prev ops x v s) x = v"
    and prev_set_prev_sep [simp]: "sep x y \<Longrightarrow> le_prev ops (set_le_prev ops y v s) x = le_prev ops s x"
    and prev_set_next [simp]: "le_prev ops (set_le_next ops x v s) x = le_prev ops s x"
    and prev_set_next_sep [simp]: "sep x y \<Longrightarrow> le_prev ops (set_le_next ops y v s) x = le_prev ops s x"
    and obs_set_next [simp]: "c \<notin> owned x \<Longrightarrow> obs (set_le_next ops x v s) c = obs s c"
    and obs_set_prev [simp]: "c \<notin> owned x \<Longrightarrow> obs (set_le_prev ops x v s) c = obs s c"
begin

lemma dseg_set_next_sep:
  "\<forall>x \<in> set xs. sep x y \<Longrightarrow> dseg ops (set_le_next ops y v s) p xs q = dseg ops s p xs q"
  by (rule dseg_cong) auto

lemma dseg_set_prev_sep:
  "\<forall>x \<in> set xs. sep x y \<Longrightarrow> dseg ops (set_le_prev ops y v s) p xs q = dseg ops s p xs q"
  by (rule dseg_cong) auto

lemmas dseg_set_sep = dseg_set_next_sep dseg_set_prev_sep

lemma insert_head:
  assumes "dll ops s h xs" and "elm \<noteq> NULL" and "elm \<notin> set xs"
    and "pairwise sep (set (elm # xs))"
  shows "returns (LIST_INSERT_HEAD ops elm h s) (\<lambda>(h', s'). dll ops s' h' (elm # xs) \<and>
      (\<forall>c. c \<notin> \<Union> (owned ` set (elm # xs)) \<longrightarrow> obs s' c = obs s c) \<and>
      (\<forall>z. (\<forall>y \<in> set (elm # xs). sep z y) \<longrightarrow>
          le_next ops s' z = le_next ops s z \<and> le_prev ops s' z = le_prev ops s z))"
proof (cases xs)
  case Nil
  with assms show ?thesis
    by (auto simp: LIST_INSERT_HEAD_def Let_def dll_def)
next
  case (Cons x ys)
  with assms have sep: "sep elm x" "sep x elm" "\<forall>y \<in> set ys. sep y x \<and> sep y elm"
    by (auto simp: pairwise_def dll_def)
  with assms Cons show ?thesis
    by (auto simp: LIST_INSERT_HEAD_def Let_def dll_def dseg_set_sep)
qed

lemma insert_tail:
  assumes "dll ops s h xs" and "elm \<noteq> NULL" and "elm \<notin> set xs"
    and "pairwise sep (set (elm # xs))"
  shows "returns (LIST_INSERT_TAIL ops elm h s) (\<lambda>(h', s'). dll ops s' h' (xs @ [elm]) \<and>
      (\<forall>c. c \<notin> \<Union> (owned ` set (elm # xs)) \<longrightarrow> obs s' c = obs s c) \<and>
      (\<forall>z. (\<forall>y \<in> set (elm # xs). sep z y) \<longrightarrow>
          le_next ops s' z = le_next ops s z \<and> le_prev ops s' z = le_prev ops s z))"
proof (cases xs rule: rev_cases)
  case Nil
  with assms show ?thesis
    by (auto simp: LIST_INSERT_TAIL_def Let_def dll_def)
next
  case (snoc ys x)
  with assms have sep: "sep elm x" "sep x elm" "\<forall>y \<in> set ys. sep y x \<and> sep y elm"
    by (auto simp: pairwise_def dll_def)
  with assms snoc show ?thesis
    by (auto simp: LIST_INSERT_TAIL_def Let_def dll_def dseg_set_sep)
qed

lemma insert_after:
  assumes "dll ops s h (xs @ x # ys)" and "elm \<noteq> NULL" and "elm \<notin> set (xs @ x # ys)"
    and "pairwise sep (set (elm # xs @ x # ys))"
  shows "returns (LIST_INSERT_AFTER ops x elm h s) (\<lambda>(h', s'). dll ops s' h' (xs @ x # elm # ys) \<and>
      (\<forall>c. c \<notin> \<Union> (owned ` set (elm # xs @ x # ys)) \<longrightarrow> obs s' c = obs s c) \<and>
      (\<forall>z. (\<forall>y \<in> set (elm # xs @ x # ys). sep z y) \<longrightarrow>
          le_next ops s' z = le_next ops s z \<and> le_prev ops s' z = le_prev ops s z))"
proof (cases ys)
  case Nil
  with assms have sep: "sep elm x" "sep x elm" "\<forall>y \<in> set xs. sep y x \<and> sep y elm"
    by (auto simp: pairwise_def dll_def)
  moreover have "x \<noteq> elm" using assms by auto
  ultimately show ?thesis using Nil assms
    by (simp add: LIST_INSERT_AFTER_def Let_def dll_def dseg_set_sep)
next
  case (Cons z zs)
  with assms have sep: "sep elm x" "sep x elm" "\<forall>y \<in> set xs. sep y x \<and> sep y elm \<and> sep y z"
    "sep elm z" "sep z elm" "sep x z" "sep z x" "\<forall>y \<in> set zs. sep y x \<and> sep y elm \<and> sep y z"
    "z \<noteq> NULL" "x \<noteq> NULL"
    by (auto simp: pairwise_def dll_def)
  moreover have "x \<noteq> elm" using assms by auto
  ultimately show ?thesis using Cons assms
    by (simp add: LIST_INSERT_AFTER_def Let_def dll_def dseg_set_sep)
qed

lemma insert_before:
  assumes "dll ops s h (xs @ x # ys)" and "elm \<noteq> NULL" and "elm \<notin> set (xs @ x # ys)"
    and "pairwise sep (set (elm # xs @ x # ys))"
  shows "returns (LIST_INSERT_BEFORE ops x elm h s) (\<lambda>(h', s'). dll ops s' h' (xs @ elm # x # ys) \<and>
      (\<forall>c. c \<notin> \<Union> (owned ` set (elm # xs @ x # ys)) \<longrightarrow> obs s' c = obs s c) \<and>
      (\<forall>z. (\<forall>y \<in> set (elm # xs @ x # ys). sep z y) \<longrightarrow>
          le_next ops s' z = le_next ops s z \<and> le_prev ops s' z = le_prev ops s z))"
proof (cases xs rule: rev_cases)
  case Nil
  with assms have sep: "sep elm x" "sep x elm" "\<forall>y \<in> set ys. sep y x \<and> sep y elm"
    by (auto simp: pairwise_def dll_def)
  with Nil assms show ?thesis
    by (simp add: LIST_INSERT_BEFORE_def Let_def dll_def dseg_set_sep)
next
  case (snoc zs z)
  with assms have sep: "sep elm x" "sep x elm" "\<forall>y \<in> set ys. sep y x \<and> sep y elm \<and> sep y z"
    "sep elm z" "sep z elm" "sep x z" "sep z x" "\<forall>y \<in> set zs. sep y x \<and> sep y elm \<and> sep y z"
    "z \<noteq> NULL" "x \<noteq> NULL"
    by (auto simp: pairwise_def dll_def)
  moreover have "z \<noteq> elm" using snoc assms by auto
  ultimately show ?thesis using snoc assms
    by (simp add: LIST_INSERT_BEFORE_def Let_def dll_def dseg_set_sep)
qed

lemma remove:
  assumes "dll ops s h (xs @ x # ys)" and "pairwise sep (set (xs @ x # ys))"
  shows "returns (LIST_REMOVE ops x h s) (\<lambda>(h', s'). dll ops s' h' (xs @ ys) \<and>
      (\<forall>c. c \<notin> \<Union> (owned ` set (xs @ x # ys)) \<longrightarrow> obs s' c = obs s c) \<and>
      (\<forall>z. (\<forall>y \<in> set (xs @ x # ys). sep z y) \<longrightarrow>
          le_next ops s' z = le_next ops s z \<and> le_prev ops s' z = le_prev ops s z))"
proof (cases xs rule: rev_cases)
  case Nil
  note xs = Nil
  show ?thesis
  proof (cases ys)
    case Nil
    with xs assms show ?thesis
      by (auto simp: LIST_REMOVE_def Let_def dll_def)
  next
    case (Cons z zs)
    with xs assms have "sep z x" "sep x z" "\<forall>y \<in> set zs. sep y x \<and> sep y z" "z \<noteq> NULL"
      by (auto simp: pairwise_def dll_def)
    with xs Cons assms show ?thesis
      by (simp add: LIST_REMOVE_def Let_def dll_def dseg_set_sep)
  qed
next
  case (snoc us u)
  note xs = snoc
  with assms have u: "sep u x" "sep x u" "\<forall>y \<in> set us. sep y x \<and> sep y u" "u \<noteq> NULL"
    by (auto simp: pairwise_def dll_def)
  show ?thesis
  proof (cases ys)
    case Nil
    with u xs assms show ?thesis
      by (simp add: LIST_REMOVE_def Let_def dll_def dseg_set_sep)
  next
    case (Cons z zs)
    with xs assms have "sep z x" "sep x z" "sep u z" "sep z u" "z \<noteq> NULL"
      "\<forall>y \<in> set zs. sep y x \<and> sep y z \<and> sep y u" "\<forall>y \<in> set us. sep y z"
      by (auto simp: pairwise_def dll_def)
    with u xs Cons assms show ?thesis
      by (simp add: LIST_REMOVE_def Let_def dll_def dseg_set_sep)
  qed
qed

end

end
