(* ===== verification/FOS_Mem.thy ===== *)
theory FOS_Mem
  imports FOS_Queue
begin

text \<open>
  Byte-addressed memory: the address space a kernel or user routine works in, with 32-bit
  little-endian loads and stores (the code reads and writes block headers, footers and list
  links through \<^verbatim>\<open>uint32 *\<close> pointers that need not be aligned), and the links of a
  \<^verbatim>\<open>struct BlockElement\<close> (\<^verbatim>\<open>inc/dynamic_allocator.h\<close>) that live in that memory.
\<close>

section \<open>Loads and stores\<close>

type_synonym memory = "u32 \<Rightarrow> u8"

definition load32 :: "memory \<Rightarrow> u32 \<Rightarrow> u32" where
  "load32 m a =
     ucast (m a) OR push_bit 8 (ucast (m (a + 1))) OR
     push_bit 16 (ucast (m (a + 2))) OR push_bit 24 (ucast (m (a + 3)))"

definition store32 :: "u32 \<Rightarrow> u32 \<Rightarrow> memory \<Rightarrow> memory" where
  "store32 a v m =
     m(a := ucast v, a + 1 := ucast (drop_bit 8 v),
       a + 2 := ucast (drop_bit 16 v), a + 3 := ucast (drop_bit 24 v))"

lemma load_store_same [simp]: "load32 (store32 a v m) a = v"
proof (rule bit_word_eqI)
  fix n assume "n < LENGTH(32)"
  then consider "n < 8" | "8 \<le> n" "n < 16" | "16 \<le> n" "n < 24" | "24 \<le> n" "n < 32" by fastforce
  then show "bit (load32 (store32 a v m) a) n = bit v n"
    by cases (auto simp: load32_def store32_def bit_simps)
qed

lemma store32_other: "4 \<le> unat (x - a) \<Longrightarrow> store32 a v m x = m x"
  by (auto simp: store32_def)

lemma load32_cong:
  "(\<And>x. unat (x - a) < 4 \<Longrightarrow> m' x = m x) \<Longrightarrow> load32 m' a = load32 m a"
  by (simp add: load32_def)

text \<open>Regions of the address space, modulo \<^verbatim>\<open>2^32\<close>.\<close>

definition region :: "u32 \<Rightarrow> nat \<Rightarrow> u32 set" where
  "region a n = {x. unat (x - a) < n}"

lemma store32_outside: "x \<notin> region a 4 \<Longrightarrow> store32 a v m x = m x"
  by (simp add: region_def store32_other)

lemma load32_frame: "(\<And>x. x \<in> region a 4 \<Longrightarrow> m' x = m x) \<Longrightarrow> load32 m' a = load32 m a"
  by (rule load32_cong) (simp add: region_def)

lemma unat_sub_u32:
  "unat ((a :: u32) - b) = (if unat b \<le> unat a then unat a - unat b
     else 4294967296 + unat a - unat b)"
  by (simp add: unat_sub_if_size word_size) linarith

lemma region_disjointI:
  assumes "k \<le> unat (y - x)" and "n \<le> unat (x - y)"
  shows "region x k \<inter> region y n = {}"
proof (rule ccontr)
  assume "region x k \<inter> region y n \<noteq> {}"
  then obtain z where z: "unat (z - x) < k" "unat (z - y) < n" by (auto simp: region_def)
  have "z - y = (z - x) - (y - x)" by simp
  moreover have "x - y = 0 - (y - x)" by simp
  ultimately have "unat (z - y) = 4294967296 + unat (z - x) - unat (y - x)"
    and "unat (x - y) = 4294967296 - unat (y - x)"
    using z(1) assms(1) unat_u32_bound [of "y - x"]
    by (simp_all only: unat_sub_u32) auto
  then show False using z(2) assms(2) by linarith
qed

lemma store32_commute_load:
  "4 \<le> unat (a - b) \<Longrightarrow> 4 \<le> unat (b - a) \<Longrightarrow> load32 (store32 b v m) a = load32 m a"
  using region_disjointI [of 4 b a 4] by (auto intro!: load32_frame store32_outside)

section \<open>Links in memory\<close>

text \<open>
  \<^verbatim>\<open>LIST_ENTRY(BlockElement) prev_next_info\<close> is the only member of the struct: the next
  pointer at offset 0 and the previous pointer at offset 4.
\<close>

definition mem_links :: "memory link_ops" where
  "mem_links = \<lparr>le_next = load32, set_le_next = store32,
     le_prev = (\<lambda>m x. load32 m (x + 4)), set_le_prev = (\<lambda>x. store32 (x + 4))\<rparr>"

lemma mem_links_simps [simp]:
  "le_next mem_links m x = load32 m x"
  "le_prev mem_links m x = load32 m (x + 4)"
  "set_le_next mem_links x v m = store32 x v m"
  "set_le_prev mem_links x v m = store32 (x + 4) v m"
  by (simp_all add: mem_links_def)

definition mem_sep :: "ptr \<Rightarrow> ptr \<Rightarrow> bool" where
  "mem_sep x y \<longleftrightarrow> 8 \<le> unat (x - y) \<and> 8 \<le> unat (y - x)"

lemma region_mono: "n \<le> k \<Longrightarrow> region x n \<subseteq> region x k"
  by (auto simp: region_def)

lemma region_offset: "unat d + n \<le> k \<Longrightarrow> k \<le> 4294967296 \<Longrightarrow> region (x + d) n \<subseteq> region x k"
proof
  fix z assume le: "unat d + n \<le> k" "k \<le> 4294967296" and "z \<in> region (x + d) n"
  then have z: "unat (z - (x + d)) < n" by (simp add: region_def)
  have "z - x = (z - (x + d)) + d" by simp
  moreover have "unat ((z - (x + d)) + d) = unat (z - (x + d)) + unat d"
    using z le by (simp only: unat_word_ariths) simp
  ultimately show "z \<in> region x k" using z le by (simp add: region_def)
qed

lemma load32_store32_disjoint:
  "region a 4 \<inter> region b 4 = {} \<Longrightarrow> load32 (store32 b v m) a = load32 m a"
  by (auto intro!: load32_frame store32_outside)

lemma mem_sep_load:
  assumes "mem_sep x y" and "d \<in> {0, 4}" and "e \<in> {0, 4}"
  shows "load32 (store32 (y + e) v m) (x + d) = load32 m (x + d)"
proof (rule load32_store32_disjoint)
  have "region x 8 \<inter> region y 8 = {}"
    using assms(1) by (intro region_disjointI) (simp_all add: mem_sep_def)
  moreover have "region (x + d) 4 \<subseteq> region x 8" "region (y + e) 4 \<subseteq> region y 8"
    using assms(2,3) region_offset [of d 4 8 x] region_offset [of e 4 8 y] by auto
  ultimately show "region (x + d) 4 \<inter> region (y + e) 4 = {}" by blast
qed

interpretation mem_store: link_store mem_links mem_sep "\<lambda>m c. m c" "\<lambda>x. region x 8"
proof unfold_locales
  show "mem_sep x y \<Longrightarrow> mem_sep y x" for x y by (simp add: mem_sep_def)
next
  fix c x v m assume c: "c \<notin> region x 8"
  have sub: "c \<notin> region x 4" "c \<notin> region (x + 4) 4"
    using c region_mono [of 4 8 x] region_offset [of 4 4 8 x] by auto
  show "set_le_next mem_links x v m c = m c"
    using sub(1) by (simp add: store32_outside)
  show "set_le_prev mem_links x v m c = m c"
    using sub(2) by (simp add: store32_outside)
qed (auto simp: store32_commute_load
    mem_sep_load [where d = 0 and e = 0, simplified] mem_sep_load [where d = 0 and e = 4, simplified]
    mem_sep_load [where d = 4 and e = 0, simplified] mem_sep_load [where d = 4 and e = 4, simplified])

section \<open>Memory routines of lib/string.c\<close>

text \<open>
  \<^verbatim>\<open>memset\<close> copies its unsigned length into an \<^verbatim>\<open>int\<close>, so a length of 2 GB or more
  is negative and nothing is written.
\<close>

primrec memset_loop :: "u32 \<Rightarrow> u8 \<Rightarrow> nat \<Rightarrow> memory \<Rightarrow> memory" where
  "memset_loop p c 0 m = m"
| "memset_loop p c (Suc k) m = memset_loop (p + 1) c k (m(p := c))"

definition memset :: "u32 \<Rightarrow> u32 \<Rightarrow> u32 \<Rightarrow> memory \<Rightarrow> memory" where
  "memset v c n m = memset_loop v (ucast c) (nat (sint n)) m"

primrec copy_up :: "u32 \<Rightarrow> u32 \<Rightarrow> nat \<Rightarrow> memory \<Rightarrow> memory" where
  "copy_up d s 0 m = m"
| "copy_up d s (Suc k) m = copy_up (d + 1) (s + 1) k (m(d := m s))"

primrec copy_down :: "u32 \<Rightarrow> u32 \<Rightarrow> nat \<Rightarrow> memory \<Rightarrow> memory" where
  "copy_down d s 0 m = m"
| "copy_down d s (Suc k) m = copy_down (d - 1) (s - 1) k (m(d - 1 := m (s - 1)))"

definition memcpy :: "u32 \<Rightarrow> u32 \<Rightarrow> u32 \<Rightarrow> memory \<Rightarrow> memory" where
  "memcpy dst src n m = copy_up dst src (unat n) m"

definition memmove :: "u32 \<Rightarrow> u32 \<Rightarrow> u32 \<Rightarrow> memory \<Rightarrow> memory" where
  "memmove dst src n m =
    (if src < dst \<and> src + n > dst then copy_down (dst + n) (src + n) (unat n) m
     else copy_up dst src (unat n) m)"

primrec memcmp_loop :: "u32 \<Rightarrow> u32 \<Rightarrow> nat \<Rightarrow> memory \<Rightarrow> int" where
  "memcmp_loop s1 s2 0 m = 0"
| "memcmp_loop s1 s2 (Suc k) m =
     (if m s1 \<noteq> m s2 then uint (m s1) - uint (m s2) else memcmp_loop (s1 + 1) (s2 + 1) k m)"

definition memcmp :: "u32 \<Rightarrow> u32 \<Rightarrow> u32 \<Rightarrow> memory \<Rightarrow> int" where
  "memcmp v1 v2 n m = memcmp_loop v1 v2 (unat n) m"

primrec memfind_loop :: "u32 \<Rightarrow> u8 \<Rightarrow> nat \<Rightarrow> memory \<Rightarrow> u32" where
  "memfind_loop s c 0 m = s"
| "memfind_loop s c (Suc k) m = (if m s = c then s else memfind_loop (s + 1) c k m)"

text \<open>The loop runs while \<open>s < ends\<close>, and not at all when \<open>s + n\<close> wraps around.\<close>

definition memfind :: "u32 \<Rightarrow> u32 \<Rightarrow> u32 \<Rightarrow> memory \<Rightarrow> u32" where
  "memfind s c n m = (if s < s + n then memfind_loop s (ucast c) (unat n) m else s)"

end
