(* ===== verification/FOS_Disk.thy ===== *)
theory FOS_Disk
  imports FOS_Mem
begin

text \<open>
  The disk driver, \<^verbatim>\<open>lib/disk.c\<close>, over the ports of any disk; waiting for a device that never gets
  ready is \<open>None\<close>, as are its errors, which panic. The disk of the theorem is a device with registers for the
  number of sectors, their address and the drive, that is busy for some time after every command and every
  sector, ignores what is sent to it meanwhile, and moves bytes between the data port and its platter as the
  last command says. What is written to it is read back, and no other sector changes.
\<close>

section \<open>The driver\<close>

text \<open>
  The ports of a device. The data port moves 32-bit words; the bytes of a word are the next four of the
  sector, in the order they have in memory, so that a transfer is one of bytes.
\<close>

record 's ide_ports =
  inb :: "u32 \<Rightarrow> 's \<Rightarrow> u8 \<times> 's"
  outb :: "u32 \<Rightarrow> u8 \<Rightarrow> 's \<Rightarrow> 's"
  get_byte :: "u32 \<Rightarrow> 's \<Rightarrow> u8 \<times> 's"
  put_byte :: "u32 \<Rightarrow> u8 \<Rightarrow> 's \<Rightarrow> 's"

abbreviation "IDE_BSY \<equiv> 0x80 :: u8"
abbreviation "IDE_DRDY \<equiv> 0x40 :: u8"
abbreviation "IDE_DF \<equiv> 0x20 :: u8"
abbreviation "IDE_ERR \<equiv> 0x01 :: u8"
abbreviation "SECTSIZE \<equiv> 512 :: u32"

partial_function (option) wait_status :: "'s ide_ports \<Rightarrow> 's \<Rightarrow> (u8 \<times> 's) option" where
  "wait_status P s =
    (case inb P 0x1F7 s of (r, s1) \<Rightarrow>
       if r AND (IDE_BSY OR IDE_DRDY) \<noteq> IDE_DRDY then wait_status P s1 else Some (r, s1))"

definition ide_wait_ready :: "'s ide_ports \<Rightarrow> bool \<Rightarrow> 's \<Rightarrow> 's option" where
  "ide_wait_ready P check_error s = do {
     (r, s1) \<leftarrow> wait_status P s;
     if check_error \<and> r AND (IDE_DF OR IDE_ERR) \<noteq> 0 then None else Some s1
   }"

text \<open>\<^verbatim>\<open>diskno\<close> is zero and never set.\<close>

definition ide_command :: "'s ide_ports \<Rightarrow> u32 \<Rightarrow> u32 \<Rightarrow> u8 \<Rightarrow> 's \<Rightarrow> 's" where
  "ide_command P secno nsecs cmd s =
    (let s = outb P 0x1F2 (ucast nsecs) s;
         s = outb P 0x1F3 (ucast (secno AND 0xFF)) s;
         s = outb P 0x1F4 (ucast (drop_bit 8 secno AND 0xFF)) s;
         s = outb P 0x1F5 (ucast (drop_bit 16 secno AND 0xFF)) s;
         s = outb P 0x1F6 (0xE0 OR (ucast (drop_bit 24 secno) AND 0x0F)) s
     in outb P 0x1F7 cmd s)"

text \<open>Transfers from and to a data port, in bytes.\<close>

primrec insl :: "'s ide_ports \<Rightarrow> u32 \<Rightarrow> ptr \<Rightarrow> nat \<Rightarrow> 's \<times> memory \<Rightarrow> 's \<times> memory" where
  "insl P port dst 0 sm = sm"
| "insl P port dst (Suc n) sm =
    (case get_byte P port (fst sm) of (b, s) \<Rightarrow> insl P port (dst + 1) n (s, (snd sm)(dst := b)))"

primrec outsl :: "'s ide_ports \<Rightarrow> u32 \<Rightarrow> ptr \<Rightarrow> nat \<Rightarrow> memory \<Rightarrow> 's \<Rightarrow> 's" where
  "outsl P port src 0 m s = s"
| "outsl P port src (Suc n) m s = outsl P port (src + 1) n m (put_byte P port (m src) s)"

primrec read_sectors :: "'s ide_ports \<Rightarrow> ptr \<Rightarrow> nat \<Rightarrow> 's \<times> memory \<Rightarrow> ('s \<times> memory) option" where
  "read_sectors P dst 0 sm = Some sm"
| "read_sectors P dst (Suc n) sm = do {
     s \<leftarrow> ide_wait_ready P True (fst sm);
     read_sectors P (dst + SECTSIZE) n (insl P 0x1F0 dst 512 (s, snd sm))
   }"

primrec write_sectors :: "'s ide_ports \<Rightarrow> ptr \<Rightarrow> nat \<Rightarrow> memory \<Rightarrow> 's \<Rightarrow> 's option" where
  "write_sectors P src 0 m s = Some s"
| "write_sectors P src (Suc n) m s = do {
     s \<leftarrow> ide_wait_ready P True s;
     write_sectors P (src + SECTSIZE) n m (outsl P 0x1F0 src 512 m s)
   }"

text \<open>Both return 0 when they return.\<close>

definition ide_read :: "'s ide_ports \<Rightarrow> u32 \<Rightarrow> ptr \<Rightarrow> u32 \<Rightarrow> 's \<times> memory \<Rightarrow> ('s \<times> memory) option" where
  "ide_read P secno dst nsecs sm =
    (if \<not> nsecs \<le> 256 then None
     else do {
       s \<leftarrow> ide_wait_ready P False (fst sm);
       read_sectors P dst (unat nsecs) (ide_command P secno nsecs 0x20 s, snd sm)
     })"

definition ide_write :: "'s ide_ports \<Rightarrow> u32 \<Rightarrow> ptr \<Rightarrow> u32 \<Rightarrow> memory \<Rightarrow> 's \<Rightarrow> 's option" where
  "ide_write P secno src nsecs m s =
    (if \<not> nsecs \<le> 256 then None
     else do {
       s \<leftarrow> ide_wait_ready P False s;
       write_sectors P src (unat nsecs) m (ide_command P secno nsecs 0x30 s)
     })"

section \<open>A disk\<close>

datatype transfer = Idle | Reading | Writing

text \<open>
  \<open>position\<close> and \<open>remaining\<close> count bytes of the transfer under way; the status is busy for another \<open>busy\<close>
  readings, and \<open>delays\<close> are the busy times to come.
\<close>

record ata =
  platter :: "nat \<Rightarrow> u8"
  regs :: "u32 \<Rightarrow> u8"
  transfer :: transfer
  position :: nat
  remaining :: nat
  busy :: nat
  delays :: "nat list"

definition busy_again :: "ata \<Rightarrow> ata" where
  "busy_again a = (case delays a of [] \<Rightarrow> a\<lparr>busy := 0\<rparr> | n # ns \<Rightarrow> a\<lparr>busy := n, delays := ns\<rparr>)"

definition ata_status :: "ata \<Rightarrow> u8 \<times> ata" where
  "ata_status a = (if busy a \<noteq> 0 then (0x80, a\<lparr>busy := busy a - 1\<rparr>) else (0x40, a))"

text \<open>The sector the registers address, in 28 bits, when they choose the first drive and that form of address;
  a count of zero is 256 sectors.\<close>

definition lba :: "(u32 \<Rightarrow> u8) \<Rightarrow> u32" where
  "lba r = ucast (r 0x1F3) OR push_bit 8 (ucast (r 0x1F4)) OR push_bit 16 (ucast (r 0x1F5)) OR push_bit 24 (ucast (r 0x1F6 AND 0x0F))"

definition sectors :: "(u32 \<Rightarrow> u8) \<Rightarrow> nat" where
  "sectors r = (if r 0x1F2 = 0 then 256 else unat (r 0x1F2))"

definition start_transfer :: "u8 \<Rightarrow> ata \<Rightarrow> ata" where
  "start_transfer cmd a = busy_again (a\<lparr>
     transfer := (if regs a 0x1F6 AND 0xF0 \<noteq> 0xE0 then Idle else if cmd = 0x20 then Reading else if cmd = 0x30 then Writing else Idle),
     position := 512 * unat (lba (regs a)), remaining := 512 * sectors (regs a)\<rparr>)"

definition next_byte :: "ata \<Rightarrow> ata" where
  "next_byte a =
    (let a = a\<lparr>position := position a + 1, remaining := remaining a - 1\<rparr>
     in if remaining a mod 512 = 0 then busy_again a else a)"

definition moves :: "transfer \<Rightarrow> u32 \<Rightarrow> ata \<Rightarrow> bool" where
  "moves t port a \<longleftrightarrow> port = 0x1F0 \<and> busy a = 0 \<and> transfer a = t \<and> 0 < remaining a"

definition ata_ports :: "ata ide_ports" where
  "ata_ports = \<lparr>inb = (\<lambda>port a. if port = 0x1F7 then ata_status a else (0xFF, a)),
     outb = (\<lambda>port b a. if busy a \<noteq> 0 then a else if port = 0x1F7 then start_transfer b a else a\<lparr>regs := (regs a)(port := b)\<rparr>),
     get_byte = (\<lambda>port a. if moves Reading port a then (platter a (position a), next_byte a) else (0xFF, a)),
     put_byte = (\<lambda>port b a. if moves Writing port a then next_byte (a\<lparr>platter := (platter a)(position a := b)\<rparr>) else a)\<rparr>"

lemma ata_wait: "ide_wait_ready ata_ports c a = Some (a\<lparr>busy := 0\<rparr>)"
proof -
  have "wait_status ata_ports a = Some (0x40, a\<lparr>busy := 0\<rparr>)"
  proof (induction "busy a" arbitrary: a)
    case 0
    then show ?case by (subst wait_status.simps) (simp add: ata_ports_def ata_status_def)
  next
    case (Suc n)
    have "wait_status ata_ports (a\<lparr>busy := n\<rparr>) = Some (0x40, a\<lparr>busy := 0\<rparr>)" using Suc.hyps(1) [of "a\<lparr>busy := n\<rparr>"] by simp
    moreover have "busy a \<noteq> 0" "busy a - 1 = n" using Suc.hyps(2) [symmetric] by simp_all
    ultimately show ?case by (subst wait_status.simps) (simp add: ata_ports_def ata_status_def)
  qed
  then show ?thesis by (simp add: ide_wait_ready_def)
qed

lemma busy_again_fields [simp]:
  "platter (busy_again a) = platter a" "transfer (busy_again a) = transfer a" "position (busy_again a) = position a"
  "remaining (busy_again a) = remaining a" "regs (busy_again a) = regs a"
  by (simp_all add: busy_again_def split: list.split)

lemma next_byte_fields [simp]:
  "platter (next_byte a) = platter a" "transfer (next_byte a) = transfer a" "position (next_byte a) = position a + 1"
  "remaining (next_byte a) = remaining a - 1" "(remaining a - 1) mod 512 \<noteq> 0 \<Longrightarrow> busy (next_byte a) = busy a"
  by (simp_all add: next_byte_def Let_def)

section \<open>A command\<close>

lemma lba_of_command:
  "ucast (ucast (secno AND 0xFF) :: u8) OR push_bit 8 (ucast (ucast (drop_bit 8 secno AND 0xFF) :: u8)) OR
    push_bit 16 (ucast (ucast (drop_bit 16 secno AND 0xFF) :: u8)) OR
    push_bit 24 (ucast ((0xE0 OR ((ucast (drop_bit 24 secno) :: u8) AND 0x0F)) AND 0x0F)) = (secno :: u32) AND 0x0FFFFFFF"
proof -
  have head: "(0xE0 OR (y AND 0x0F)) AND 0x0F = y AND (0x0F :: u8)" for y
    by (simp add: bit.conj_disj_distrib2 and.assoc)
  have masks: "(0xFF :: u32) = mask 8" "(0x0F :: u8) = mask 4" "(0x0FFFFFFF :: u32) = mask 28"
    by (simp_all add: mask_eq_exp_minus_1)
  show ?thesis
    unfolding head unfolding masks
  proof (rule bit_word_eqI)
    fix n assume "n < LENGTH(32)"
    then consider "n < 8" | "8 \<le> n" "n < 16" | "16 \<le> n" "n < 24" | "24 \<le> n" "n < 32" by fastforce
    then show "bit ((ucast (ucast (secno AND mask 8) :: u8) :: u32) OR push_bit 8 (ucast (ucast (drop_bit 8 secno AND mask 8) :: u8)) OR
        push_bit 16 (ucast (ucast (drop_bit 16 secno AND mask 8) :: u8)) OR
        push_bit 24 (ucast ((ucast (drop_bit 24 secno) :: u8) AND mask 4))) n = bit (secno AND mask 28) n"
      by cases (auto simp: bit_simps)
  qed
qed

lemma sectors_of_command:
  assumes "nsecs \<noteq> 0" "nsecs \<le> 256"
  shows "(if (ucast nsecs :: u8) = 0 then 256 else unat (ucast nsecs :: u8)) = unat (nsecs :: u32)"
proof -
  have n: "0 < unat nsecs" "unat nsecs \<le> 256" using assms by (simp_all add: unat_gt_0 word_le_nat_alt)
  have u: "unat (ucast nsecs :: u8) = unat nsecs mod 256" by (simp add: unsigned_ucast_eq take_bit_eq_mod)
  have z: "(ucast nsecs :: u8) = 0 \<longleftrightarrow> unat (ucast nsecs :: u8) = 0" by (simp add: unat_eq_0)
  show ?thesis unfolding z u using n by (cases "unat nsecs = 256") auto
qed

lemma ata_command:
  assumes "busy a = 0" "nsecs \<noteq> 0" "nsecs \<le> 256" "unat secno < 268435456" "cmd = 0x20 \<and> t = Reading \<or> cmd = 0x30 \<and> t = Writing"
  obtains a' where "ide_command ata_ports secno nsecs cmd a = a'" "platter a' = platter a" "transfer a' = t"
    "position a' = 512 * unat secno" "remaining a' = 512 * unat nsecs"
proof -
  let ?h = "0xE0 OR (ucast (drop_bit 24 secno) AND 0x0F) :: u8"
  define r where "r = (regs a)(0x1F2 := ucast nsecs, 0x1F3 := ucast (secno AND 0xFF), 0x1F4 := ucast (drop_bit 8 secno AND 0xFF),
    0x1F5 := ucast (drop_bit 16 secno AND 0xFF), 0x1F6 := ?h)"
  have c: "ide_command ata_ports secno nsecs cmd a = start_transfer cmd (a\<lparr>regs := r\<rparr>)"
    using assms(1) by (simp add: ide_command_def ata_ports_def r_def Let_def)
  have "secno AND 0x0FFFFFFF = secno"
  proof -
    have "secno < 2 ^ 28" using assms(4) by (simp add: word_less_nat_alt)
    then show ?thesis using less_mask_eq [of secno 28] by (simp add: mask_eq_exp_minus_1)
  qed
  moreover have "lba r = secno AND 0x0FFFFFFF" using lba_of_command [of secno] by (simp add: lba_def r_def)
  moreover have "r 0x1F2 = ucast nsecs" by (simp add: r_def)
  then have "sectors r = unat nsecs" using sectors_of_command [OF assms(2,3)] unfolding sectors_def by (simp only:)
  moreover have "r 0x1F6 AND 0xF0 = 0xE0"
  proof -
    have "?h AND 0xF0 = 0xE0" by (simp add: bit.conj_disj_distrib2 and.assoc)
    then show ?thesis by (simp add: r_def)
  qed
  ultimately show thesis using that [OF c] assms(5) by (auto simp: start_transfer_def)
qed

section \<open>Transfers\<close>

definition arrived :: "ptr \<Rightarrow> u8 list \<Rightarrow> memory \<Rightarrow> memory \<Rightarrow> bool" where
  "arrived dst bs m m' \<longleftrightarrow> (\<forall>i < length bs. m' (dst + of_nat i) = bs ! i) \<and> (\<forall>x. x \<notin> region dst (length bs) \<longrightarrow> m' x = m x)"

lemma arrived_append:
  assumes a: "arrived dst bs m m1" and b: "arrived (dst + of_nat (length bs)) cs m1 m2" and n: "length bs + length cs < 4294967296"
  shows "arrived dst (bs @ cs) m m2"
  unfolding arrived_def
proof (intro conjI allI impI)
  fix i assume i: "i < length (bs @ cs)"
  show "m2 (dst + of_nat i) = (bs @ cs) ! i"
  proof (cases "i < length bs")
    case True
    have "unat (dst + of_nat i - (dst + of_nat (length bs))) = 4294967296 + i - length bs"
      using True n by (simp add: unat_sub_u32 unat_of_nat_u32)
    then have "dst + of_nat i \<notin> region (dst + of_nat (length bs)) (length cs)" using n by (simp add: region_def)
    then show ?thesis using a b True by (simp add: arrived_def nth_append)
  next
    case False
    have "m2 (dst + of_nat (length bs) + of_nat (i - length bs)) = cs ! (i - length bs)"
      by (rule b [unfolded arrived_def, THEN conjunct1, rule_format]) (use False i in simp)
    moreover have "dst + of_nat (length bs) + of_nat (i - length bs) = dst + of_nat i" using False by (simp add: of_nat_diff)
    ultimately show ?thesis using False by (simp add: nth_append)
  qed
next
  fix x assume x: "x \<notin> region dst (length (bs @ cs))"
  have "region dst (length bs) \<subseteq> region dst (length (bs @ cs))" by (rule region_mono) simp
  moreover have "region (dst + of_nat (length bs)) (length cs) \<subseteq> region dst (length (bs @ cs))"
    by (rule region_offset) (use n in \<open>simp_all add: unat_of_nat_u32\<close>)
  ultimately have "x \<notin> region dst (length bs)" "x \<notin> region (dst + of_nat (length bs)) (length cs)" using x by blast+
  then show "m2 x = m x" using a b by (simp add: arrived_def)
qed

text \<open>Bytes of one sector.\<close>

lemma insl_sector:
  "busy a = 0 \<Longrightarrow> transfer a = Reading \<Longrightarrow> remaining a = n + 512 * k \<Longrightarrow> n \<le> 512 \<Longrightarrow>
    \<exists>a' m'. insl ata_ports 0x1F0 dst n (a, m) = (a', m') \<and> arrived dst (map (\<lambda>i. platter a (position a + i)) [0..<n]) m m' \<and>
      platter a' = platter a \<and> transfer a' = Reading \<and> position a' = position a + n \<and> remaining a' = 512 * k"
proof (induction n arbitrary: a dst m)
  case 0
  then show ?case by (simp add: arrived_def)
next
  case (Suc n)
  let ?b = "platter a (position a)" and ?a = "next_byte a"
  have "moves Reading 0x1F0 a" using Suc.prems by (simp add: moves_def)
  then have step: "insl ata_ports 0x1F0 dst (Suc n) (a, m) = insl ata_ports 0x1F0 (dst + 1) n (?a, m(dst := ?b))"
    by (simp add: ata_ports_def)
  have one: "arrived dst [?b] m (m(dst := ?b))" by (simp add: arrived_def region_def)
  have r: "remaining ?a = n + 512 * k" using Suc.prems(3) by simp
  have "\<exists>a' m'. insl ata_ports 0x1F0 (dst + 1) n (?a, m(dst := ?b)) = (a', m') \<and>
      arrived (dst + 1) (map (\<lambda>i. platter a (position a + 1 + i)) [0..<n]) (m(dst := ?b)) m' \<and>
      platter a' = platter a \<and> transfer a' = Reading \<and> position a' = position a + Suc n \<and> remaining a' = 512 * k"
  proof (cases n)
    case 0
    then show ?thesis using r Suc.prems(2) by (simp add: arrived_def)
  next
    case (Suc n')
    have "(n + 512 * k) mod 512 = n" using Suc.prems(4) by simp
    then have "busy ?a = 0" using Suc.prems(1,3) Suc by simp
    from Suc.IH [OF this _ r] Suc.prems(2,4) show ?thesis by (auto simp: add.assoc)
  qed
  then obtain a' m' where m': "insl ata_ports 0x1F0 (dst + 1) n (?a, m(dst := ?b)) = (a', m')"
    "arrived (dst + 1) (map (\<lambda>i. platter a (position a + 1 + i)) [0..<n]) (m(dst := ?b)) m'"
    "platter a' = platter a" "transfer a' = Reading" "position a' = position a + Suc n" "remaining a' = 512 * k" by blast
  have bytes: "map (\<lambda>i. platter a (position a + i)) [0..<Suc n] = [?b] @ map (\<lambda>i. platter a (position a + 1 + i)) [0..<n]"
    by (simp only: upt_conv_Cons zero_less_Suc map_Suc_upt [symmetric] list.map map_map) (simp add: comp_def)
  have "arrived dst ([?b] @ map (\<lambda>i. platter a (position a + 1 + i)) [0..<n]) m m'"
    by (rule arrived_append [OF one]) (use m'(2) Suc.prems(4) in simp_all)
  then show ?case using step m' unfolding bytes by simp
qed

text \<open>\<open>n\<close> bytes of memory put at a position of the platter.\<close>

definition put_at :: "nat \<Rightarrow> nat \<Rightarrow> ptr \<Rightarrow> memory \<Rightarrow> (nat \<Rightarrow> u8) \<Rightarrow> nat \<Rightarrow> u8" where
  "put_at pos n src m f = (\<lambda>p. if pos \<le> p \<and> p < pos + n then m (src + of_nat (p - pos)) else f p)"

lemma put_at_0 [simp]: "put_at pos 0 src m f = f"
  by (auto simp: put_at_def intro!: ext)

lemma put_at_more: "put_at (pos + n) k (src + of_nat n) m (put_at pos n src m f) = put_at pos (n + k) src m f"
proof
  fix p
  have "src + of_nat n + of_nat (p - (pos + n)) = src + of_nat (p - pos)" if "pos + n \<le> p"
    using that by (simp add: of_nat_diff)
  then show "put_at (pos + n) k (src + of_nat n) m (put_at pos n src m f) p = put_at pos (n + k) src m f p"
    by (auto simp: put_at_def)
qed

lemma put_at_1: "put_at pos 1 src m f = f(pos := m src)"
  by (auto simp: put_at_def fun_eq_iff)

lemma outsl_sector:
  "busy a = 0 \<Longrightarrow> transfer a = Writing \<Longrightarrow> remaining a = n + 512 * k \<Longrightarrow> n \<le> 512 \<Longrightarrow>
    \<exists>a'. outsl ata_ports 0x1F0 src n m a = a' \<and> platter a' = put_at (position a) n src m (platter a) \<and>
      transfer a' = Writing \<and> position a' = position a + n \<and> remaining a' = 512 * k"
proof (induction n arbitrary: a src)
  case 0
  then show ?case by simp
next
  case (Suc n)
  let ?a = "next_byte (a\<lparr>platter := (platter a)(position a := m src)\<rparr>)"
  have "moves Writing 0x1F0 a" using Suc.prems by (simp add: moves_def)
  then have step: "outsl ata_ports 0x1F0 src (Suc n) m a = outsl ata_ports 0x1F0 (src + 1) n m ?a"
    by (simp add: ata_ports_def)
  have f: "remaining ?a = n + 512 * k" "transfer ?a = Writing" "position ?a = position a + 1"
    "platter ?a = put_at (position a) 1 src m (platter a)" using Suc.prems unfolding put_at_1 by simp_all
  have "\<exists>a'. outsl ata_ports 0x1F0 (src + 1) n m ?a = a' \<and> platter a' = put_at (position ?a) n (src + 1) m (platter ?a) \<and>
      transfer a' = Writing \<and> position a' = position ?a + n \<and> remaining a' = 512 * k"
  proof (cases n)
    case 0
    then show ?thesis using f by simp
  next
    case (Suc n')
    have "(n + 512 * k) mod 512 = n" using Suc.prems(4) by simp
    then have "busy ?a = 0" using Suc.prems(1,3) Suc by simp
    moreover have "n \<le> 512" using Suc.prems(4) by simp
    ultimately show ?thesis using f(1,2) by (intro Suc.IH)
  qed
  then show ?case unfolding step f(3,4) using put_at_more [of "position a" 1 n src m "platter a"] by simp
qed

text \<open>The sectors of a command.\<close>

lemma read_sectors_ata:
  "transfer a = Reading \<Longrightarrow> remaining a = 512 * n \<Longrightarrow> n \<le> 256 \<Longrightarrow>
    \<exists>a' m'. read_sectors ata_ports dst n (a, m) = Some (a', m') \<and> platter a' = platter a \<and>
      arrived dst (map (\<lambda>i. platter a (position a + i)) [0..<512 * n]) m m'"
proof (induction n arbitrary: a dst m)
  case 0
  then show ?case by (simp add: arrived_def)
next
  case (Suc n)
  let ?a = "a\<lparr>busy := 0\<rparr>"
  have "busy ?a = 0" "transfer ?a = Reading" "remaining ?a = 512 + 512 * n" using Suc.prems by simp_all
  from insl_sector [OF this order.refl, of dst m] obtain a1 m1 where
    one: "insl ata_ports 0x1F0 dst 512 (?a, m) = (a1, m1)" "arrived dst (map (\<lambda>i. platter a (position a + i)) [0..<512]) m m1"
    "platter a1 = platter a" "transfer a1 = Reading" "position a1 = position a + 512" "remaining a1 = 512 * n" by auto
  from Suc.IH [OF one(4,6), of "dst + SECTSIZE" m1] Suc.prems(3) obtain a' m' where
    more: "read_sectors ata_ports (dst + SECTSIZE) n (a1, m1) = Some (a', m')" "platter a' = platter a"
    "arrived (dst + SECTSIZE) (map (\<lambda>i. platter a (position a + 512 + i)) [0..<512 * n]) m1 m'"
    unfolding one(3,5) by auto
  have split: "map f [0..<512 * Suc n] = map f [0..<512] @ map (\<lambda>i. f (512 + i)) [0..<512 * n]" for f :: "nat \<Rightarrow> u8"
  proof -
    have "[0..<512 * Suc n] = [0..<512] @ map (\<lambda>i. i + 512) [0..<512 * n]"
      using upt_add_eq_append [of 0 512 "512 * n"] by (simp add: map_add_upt add.commute)
    then show ?thesis by (simp only: map_append map_map) (simp add: comp_def add.commute)
  qed
  have "arrived dst (map (\<lambda>i. platter a (position a + i)) [0..<512] @ map (\<lambda>i. platter a (position a + 512 + i)) [0..<512 * n]) m m'"
    by (rule arrived_append [OF one(2)]) (use more(3) Suc.prems(3) in simp_all)
  then show ?case using one(1) more(1,2) by (simp add: ata_wait split add.assoc del: mult_Suc_right)
qed

lemma write_sectors_ata:
  "transfer a = Writing \<Longrightarrow> remaining a = 512 * n \<Longrightarrow>
    \<exists>a'. write_sectors ata_ports src n m a = Some a' \<and>
      platter a' = put_at (position a) (512 * n) src m (platter a)"
proof (induction n arbitrary: a src)
  case 0
  then show ?case by (auto intro!: ext)
next
  case (Suc n)
  let ?a = "a\<lparr>busy := 0\<rparr>"
  have "busy ?a = 0" "transfer ?a = Writing" "remaining ?a = 512 + 512 * n" using Suc.prems by simp_all
  from outsl_sector [OF this order.refl, of src m] obtain a1 where one: "outsl ata_ports 0x1F0 src 512 m ?a = a1"
    "platter a1 = put_at (position a) 512 src m (platter a)"
    "transfer a1 = Writing" "position a1 = position a + 512" "remaining a1 = 512 * n" by auto
  from Suc.IH [OF one(3,5), of "src + SECTSIZE"] obtain a' where more: "write_sectors ata_ports (src + SECTSIZE) n m a1 = Some a'"
    "platter a' = put_at (position a + 512) (512 * n) (src + SECTSIZE) m (put_at (position a) 512 src m (platter a))"
    unfolding one(2,4) by blast
  have "platter a' = put_at (position a) (512 * Suc n) src m (platter a)"
    using more(2) put_at_more [of "position a" 512 "512 * n" src m "platter a"] by simp
  then show ?case using one(1) more(1) by (simp add: ata_wait)
qed

section \<open>What is written is read back\<close>

text \<open>C39: Writing sectors to a disk puts their bytes on the platter, at the sectors named, and leaves all other
  sectors alone; reading sectors from it stores the bytes of the platter at the destination and changes
  nothing else in memory or on the disk. So what is written is read back. The disk is busy for any number
  of status readings after a command and after a sector, and loses what is sent to it while it is busy;
  one to 256 sectors are transferred, within the 28 bits of an address.\<close>

theorem ide_write_read_roundtrip:
  assumes "nsecs \<noteq> 0" "nsecs \<le> 256" "unat secno + unat nsecs \<le> 268435456"
    and "nsecs' \<noteq> 0" "nsecs' \<le> 256" "unat secno' + unat nsecs' \<le> 268435456"
  shows "\<exists>d' e' m'. ide_write ata_ports secno src nsecs m d = Some d' \<and>
    (\<forall>p. platter d' p = (if 512 * unat secno \<le> p \<and> p < 512 * (unat secno + unat nsecs)
       then m (src + of_nat (p - 512 * unat secno)) else platter d p)) \<and>
    ide_read ata_ports secno' dst nsecs' (d', m0) = Some (e', m') \<and> platter e' = platter d' \<and>
    arrived dst (map (\<lambda>i. platter d' (512 * unat secno' + i)) [0..<512 * unat nsecs']) m0 m'"
proof -
  have n: "0 < unat nsecs" "0 < unat nsecs'" "unat nsecs' \<le> 256" using assms by (simp_all add: unat_gt_0 word_le_nat_alt)
  then have s: "unat secno < 268435456" "unat secno' < 268435456" using assms(3,6) by linarith+
  obtain a where a: "ide_command ata_ports secno nsecs 0x30 (d\<lparr>busy := 0\<rparr>) = a" "platter a = platter d" "transfer a = Writing"
    "position a = 512 * unat secno" "remaining a = 512 * unat nsecs"
    by (rule ata_command [OF _ assms(1,2) s(1), of "d\<lparr>busy := 0\<rparr>" "0x30" Writing]) simp_all
  from write_sectors_ata [OF a(3,5), of src m] obtain d' where d': "write_sectors ata_ports src (unat nsecs) m a = Some d'"
    "platter d' = put_at (512 * unat secno) (512 * unat nsecs) src m (platter d)"
    unfolding a(2,4) by blast
  obtain b where b: "ide_command ata_ports secno' nsecs' 0x20 (d'\<lparr>busy := 0\<rparr>) = b" "platter b = platter d'" "transfer b = Reading"
    "position b = 512 * unat secno'" "remaining b = 512 * unat nsecs'"
    by (rule ata_command [OF _ assms(4,5) s(2), of "d'\<lparr>busy := 0\<rparr>" "0x20" Reading]) simp_all
  from read_sectors_ata [OF b(3,5) n(3), of dst m0] obtain e' m' where
    e': "read_sectors ata_ports dst (unat nsecs') (b, m0) = Some (e', m')" "platter e' = platter d'"
    "arrived dst (map (\<lambda>i. platter d' (512 * unat secno' + i)) [0..<512 * unat nsecs']) m0 m'"
    unfolding b(2,4) by blast
  have "ide_write ata_ports secno src nsecs m d = Some d'" using assms(2) a(1) d'(1) by (simp add: ide_write_def ata_wait)
  moreover have "ide_read ata_ports secno' dst nsecs' (d', m0) = Some (e', m')"
    using assms(5) b(1) e'(1) by (simp add: ide_read_def ata_wait)
  ultimately show ?thesis using d'(2) e'(2,3) by (auto simp: add_mult_distrib2 put_at_def)
qed

theorem ide_write_read_roundtrip_witness:
  "\<exists>d' e' m'. ide_write ata_ports 7 0x1000 2 (\<lambda>a. ucast a)
      \<lparr>platter = (\<lambda>_. 0), regs = (\<lambda>_. 0), transfer = Idle, position = 0, remaining = 0, busy = 3, delays = [2, 0, 5]\<rparr> = Some d' \<and>
    ide_read ata_ports 7 0x2000 1 (d', \<lambda>_. 0) = Some (e', m') \<and> m' 0x2005 = 5"
proof -
  let ?d = "\<lparr>platter = (\<lambda>_. 0), regs = (\<lambda>_. 0), transfer = Idle, position = 0, remaining = 0, busy = 3, delays = [2, 0, 5]\<rparr>"
  obtain d' e' m' where r: "ide_write ata_ports 7 0x1000 2 (\<lambda>a. ucast a) ?d = Some d'"
    "\<forall>p. platter d' p = (if 512 * unat (7 :: u32) \<le> p \<and> p < 512 * (unat (7 :: u32) + unat (2 :: u32))
       then ucast (0x1000 + of_nat (p - 512 * unat (7 :: u32)) :: u32) else platter ?d p)"
    "ide_read ata_ports 7 0x2000 1 (d', \<lambda>_. 0) = Some (e', m')"
    "arrived 0x2000 (map (\<lambda>i. platter d' (512 * unat (7 :: u32) + i)) [0..<512 * unat (1 :: u32)]) (\<lambda>_. 0) m'"
    using ide_write_read_roundtrip [of 2 7 1 7 "0x1000" "\<lambda>a. ucast a" ?d "0x2000" "\<lambda>_. 0"] by auto
  have "m' (0x2000 + of_nat 5) = map (\<lambda>i. platter d' (512 * unat (7 :: u32) + i)) [0..<512 * unat (1 :: u32)] ! 5"
    by (rule r(4) [unfolded arrived_def, THEN conjunct1, rule_format]) simp
  also have "\<dots> = 5" using r(2) by simp
  finally show ?thesis using r(1,3) by simp
qed

end
