(* ===== verification/FOS_String.thy ===== *)
theory FOS_String
  imports FOS_Mem "HOL-Library.Signed_Division"
begin

text \<open>
  The string routines of \<^verbatim>\<open>lib/string.c\<close> over byte memory. A routine that looks for the end of
  a string runs forever in a memory without one, so these are partial functions: \<open>None\<close> is
  not returning. An \<^verbatim>\<open>int\<close> that counts characters is a word; a \<^verbatim>\<open>long\<close> is an integer in
  the 32-bit range, wrapped after each operation that can leave it.
\<close>

section \<open>Lengths, copies and comparisons\<close>

partial_function (option) strlen_loop :: "memory \<Rightarrow> ptr \<Rightarrow> u32 \<Rightarrow> u32 option" where
  "strlen_loop m s n = (if m s \<noteq> 0 then strlen_loop m (s + 1) (n + 1) else Some n)"

definition strlen :: "memory \<Rightarrow> ptr \<Rightarrow> u32 option" where
  "strlen m s = strlen_loop m s 0"

primrec strnlen_loop :: "memory \<Rightarrow> ptr \<Rightarrow> nat \<Rightarrow> u32 \<Rightarrow> u32" where
  "strnlen_loop m s 0 n = n"
| "strnlen_loop m s (Suc k) n = (if m s \<noteq> 0 then strnlen_loop m (s + 1) k (n + 1) else n)"

definition strnlen :: "memory \<Rightarrow> ptr \<Rightarrow> u32 \<Rightarrow> u32" where
  "strnlen m s n = strnlen_loop m s (unat n) 0"

partial_function (option) strcpy :: "ptr \<Rightarrow> ptr \<Rightarrow> memory \<Rightarrow> memory option" where
  "strcpy dst src m =
    (let m1 = m(dst := m src) in if m1 dst \<noteq> 0 then strcpy (dst + 1) (src + 1) m1 else Some m1)"

primrec strncpy_loop :: "ptr \<Rightarrow> ptr \<Rightarrow> nat \<Rightarrow> memory \<Rightarrow> memory" where
  "strncpy_loop dst src 0 m = m"
| "strncpy_loop dst src (Suc n) m =
    (let m1 = m(dst := m src) in strncpy_loop (dst + 1) (if m1 src \<noteq> 0 then src + 1 else src) n m1)"

definition strncpy :: "ptr \<Rightarrow> ptr \<Rightarrow> u32 \<Rightarrow> memory \<Rightarrow> memory" where
  "strncpy dst src n m = strncpy_loop dst src (unat n) m"

primrec strlcpy_loop :: "ptr \<Rightarrow> ptr \<Rightarrow> nat \<Rightarrow> memory \<Rightarrow> ptr \<times> memory" where
  "strlcpy_loop dst src 0 m = (dst, m(dst := 0))"
| "strlcpy_loop dst src (Suc n) m =
    (if m src \<noteq> 0 then strlcpy_loop (dst + 1) (src + 1) n (m(dst := m src)) else (dst, m(dst := 0)))"

definition strlcpy :: "ptr \<Rightarrow> ptr \<Rightarrow> u32 \<Rightarrow> memory \<Rightarrow> u32 \<times> memory" where
  "strlcpy dst src n m =
    (if n > 0 then let (d, m1) = strlcpy_loop dst src (unat n - 1) m in (d - dst, m1) else (0, m))"

partial_function (option) strcmp :: "memory \<Rightarrow> ptr \<Rightarrow> ptr \<Rightarrow> int option" where
  "strcmp m p q = (if m p \<noteq> 0 \<and> m p = m q then strcmp m (p + 1) (q + 1) else Some (uint (m p) - uint (m q)))"

primrec strncmp_loop :: "memory \<Rightarrow> ptr \<Rightarrow> ptr \<Rightarrow> nat \<Rightarrow> int" where
  "strncmp_loop m p q 0 = 0"
| "strncmp_loop m p q (Suc n) =
    (if m p \<noteq> 0 \<and> m p = m q then strncmp_loop m (p + 1) (q + 1) n else uint (m p) - uint (m q))"

definition strncmp :: "memory \<Rightarrow> ptr \<Rightarrow> ptr \<Rightarrow> u32 \<Rightarrow> int" where
  "strncmp m p q n = strncmp_loop m p q (unat n)"

partial_function (option) strchr :: "memory \<Rightarrow> ptr \<Rightarrow> u8 \<Rightarrow> ptr option" where
  "strchr m s c = (if m s \<noteq> 0 then (if m s = c then Some s else strchr m (s + 1) c) else Some NULL)"

partial_function (option) strfind :: "memory \<Rightarrow> ptr \<Rightarrow> u8 \<Rightarrow> ptr option" where
  "strfind m s c = (if m s \<noteq> 0 then (if m s = c then Some s else strfind m (s + 1) c) else Some s)"

section \<open>Numbers\<close>

text \<open>The value of a digit character, letters included.\<close>

definition digit_of :: "u8 \<Rightarrow> int option" where
  "digit_of ch =
    (let c = uint ch in
     if 48 \<le> c \<and> c \<le> 57 then Some (c - 48)
     else if 97 \<le> c \<and> c \<le> 122 then Some (c - 97 + 10)
     else if 65 \<le> c \<and> c \<le> 90 then Some (c - 65 + 10)
     else None)"

partial_function (option) strtol_digits :: "memory \<Rightarrow> int \<Rightarrow> ptr \<Rightarrow> u32 \<Rightarrow> (u32 \<times> ptr) option" where
  "strtol_digits m base s val =
    (case digit_of (m s) of
       None \<Rightarrow> Some (val, s)
     | Some dig \<Rightarrow>
         if base \<le> dig then Some (val, s)
         else strtol_digits m base (s + 1) (val * of_int base + of_int dig))"

partial_function (option) skip_blanks :: "memory \<Rightarrow> ptr \<Rightarrow> ptr option" where
  "skip_blanks m s = (if m s = 32 \<or> m s = 9 then skip_blanks m (s + 1) else Some s)"

text \<open>The result is the value and the pointer stored through \<^verbatim>\<open>endptr\<close>.\<close>

definition strtol :: "memory \<Rightarrow> ptr \<Rightarrow> int \<Rightarrow> (u32 \<times> ptr) option" where
  "strtol m s base = do {
     s1 \<leftarrow> skip_blanks m s;
     let (neg, s2) = (if m s1 = 43 then (False, s1 + 1) else if m s1 = 45 then (True, s1 + 1) else (False, s1));
     let (base, s3) =
       (if (base = 0 \<or> base = 16) \<and> m s2 = 48 \<and> m (s2 + 1) = 120 then (16, s2 + 2)
        else if base = 0 \<and> m s2 = 48 then (8, s2 + 1)
        else if base = 0 then (10, s2) else (base, s2));
     (val, s4) \<leftarrow> strtol_digits m base s3 0;
     Some (if neg then - val else val, s4)
   }"

definition to_long :: "int \<Rightarrow> int" where
  "to_long x = sint (word_of_int x :: u32)"

lemma quotient_smaller: "v sdiv 10 \<noteq> 0 \<Longrightarrow> \<bar>v sdiv 10\<bar> < \<bar>v :: int\<bar>"
proof -
  assume "v sdiv 10 \<noteq> 0"
  then have "v \<noteq> 0" by auto
  then have "\<bar>v sdiv 10\<bar> = \<bar>v\<bar> div 10" by (simp add: signed_divide_int_def abs_mult abs_sgn_eq)
  also have "\<dots> < \<bar>v\<bar>" using \<open>v \<noteq> 0\<close> by (intro int_div_less_self) auto
  finally show ?thesis .
qed

function ltostr_digits :: "int \<Rightarrow> ptr \<Rightarrow> u32 \<Rightarrow> memory \<Rightarrow> u32 \<times> memory" where
  "ltostr_digits v str s m =
    (let m1 = m(str + s := word_of_int (v smod 10 + 48)); v1 = v sdiv 10
     in if v1 \<noteq> 0 then ltostr_digits v1 str (s + 1) m1 else (s + 1, m1))"
  by pat_completeness auto
termination by (relation "measure (\<lambda>(v, _). nat \<bar>v\<bar>)") (auto simp: quotient_smaller)

declare ltostr_digits.simps [simp del]

function ltostr_reverse :: "ptr \<Rightarrow> int \<Rightarrow> int \<Rightarrow> memory \<Rightarrow> memory" where
  "ltostr_reverse str start e m =
    (if start < e then
       let tmp = m (str + of_int start);
           m1 = m(str + of_int start := m (str + of_int e));
           m2 = m1(str + of_int e := tmp)
       in ltostr_reverse str (start + 1) (e - 1) m2
     else m)"
  by pat_completeness auto
termination by (relation "measure (\<lambda>(_, start, e, _). nat (e - start))") auto

declare ltostr_reverse.simps [simp del]

definition ltostr :: "int \<Rightarrow> ptr \<Rightarrow> memory \<Rightarrow> memory" where
  "ltostr value str m =
    (let (neg, v, s, m1) = (if value < 0 then (True, to_long (value * - 1), 1, m(str := 45)) else (False, value, 0, m));
         (s2, m2) = ltostr_digits v str s m1;
         m3 = ltostr_reverse str (if neg then 1 else 0) (sint s2 - 1) m2
     in m3(str + s2 := 0))"

section \<open>Joining and splitting\<close>

definition strcconcat :: "ptr \<Rightarrow> ptr \<Rightarrow> ptr \<Rightarrow> memory \<Rightarrow> memory option" where
  "strcconcat str1 str2 final m = do {
     len1 \<leftarrow> strlen m str1;
     len2 \<leftarrow> strlen m str2;
     let n1 = nat (sint len1);
     let n2 = nat (sint len2);
     let m1 = copy_up final str1 n1 m;
     let m2 = copy_up (final + of_nat n1) str2 n2 m1;
     Some (m2(final + of_nat n1 + of_nat n2 := 0))
   }"

abbreviation "MAX_ARGUMENTS \<equiv> 16 :: u32"

partial_function (option) split_trim :: "ptr \<Rightarrow> ptr \<Rightarrow> memory \<Rightarrow> (ptr \<times> memory) option" where
  "split_trim chars string m =
    (if m string \<noteq> 0 then do {
       r \<leftarrow> strchr m chars (m string);
       if r \<noteq> NULL then split_trim chars (string + 1) (m(string := 0)) else Some (string, m)
     }
     else Some (string, m))"

partial_function (option) split_scan :: "ptr \<Rightarrow> ptr \<Rightarrow> memory \<Rightarrow> ptr option" where
  "split_scan chars string m =
    (if m string \<noteq> 0 then do {
       r \<leftarrow> strchr m chars (m string);
       if r = NULL then split_scan chars (string + 1) m else Some string
     }
     else Some string)"

partial_function (option) strsplit_loop :: "ptr \<Rightarrow> ptr \<Rightarrow> ptr \<Rightarrow> u32 \<Rightarrow> memory \<Rightarrow> (int \<times> u32 \<times> memory) option" where
  "strsplit_loop chars argv string argc m = do {
     (string1, m1) \<leftarrow> split_trim chars string m;
     if m1 string1 = 0 then Some (1, argc, store32 (argv + 4 * argc) NULL m1)
     else if argc = MAX_ARGUMENTS - 1 then Some (0, argc, m1)
     else do {
       let m2 = store32 (argv + 4 * argc) string1 m1;
       string2 \<leftarrow> split_scan chars string1 m2;
       strsplit_loop chars argv string2 (argc + 1) m2
     }
   }"

text \<open>The result: the return value, \<^verbatim>\<open>*argc\<close> and the memory.\<close>

definition strsplit :: "ptr \<Rightarrow> ptr \<Rightarrow> ptr \<Rightarrow> memory \<Rightarrow> (int \<times> u32 \<times> memory) option" where
  "strsplit string chars argv m = strsplit_loop chars argv string 0 (store32 argv NULL m)"

end
