(* ===== verification/FOS_Cpu.thy ===== *)
theory FOS_Cpu
  imports FOS_Queue
begin

text \<open>
  The processor state of \<^verbatim>\<open>kern/cpu/cpu.c\<close> that locking depends on (the interrupt
  flag and the nesting depth of \<^verbatim>\<open>pushcli\<close>), and the spin locks of
  \<^verbatim>\<open>kern/conc/spinlock.c\<close> built on it. FOS runs on one CPU
  (\<^verbatim>\<open>NCPUS = 1\<close>), so \<^verbatim>\<open>mycpu()\<close> is always \<^verbatim>\<open>&CPUS[0]\<close>, written \<open>Some 0\<close>.
\<close>

section \<open>The CPU\<close>

text \<open>\<open>cpu_proc\<close> is the running process, \<open>started\<close> and the hardware tables of the C struct are left out.\<close>

record cpu =
  eflags :: u32
  ncli :: u32
  intena :: u32
  cpu_proc :: ptr
  scheduler_status :: int

abbreviation FL_IF :: u32 where
  "FL_IF \<equiv> 0x200"

definition cli :: "cpu \<Rightarrow> cpu" where
  "cli c = c\<lparr>eflags := eflags c AND NOT FL_IF\<rparr>"

definition sti :: "cpu \<Rightarrow> cpu" where
  "sti c = c\<lparr>eflags := eflags c OR FL_IF\<rparr>"

definition pushcli :: "cpu \<Rightarrow> cpu" where
  "pushcli c =
    (let saved = eflags c;
         c1 = cli c;
         c2 = (if ncli c1 = 0 then c1\<lparr>intena := saved AND FL_IF\<rparr> else c1)
     in c2\<lparr>ncli := ncli c2 + 1\<rparr>)"

definition popcli :: "cpu \<Rightarrow> cpu option" where
  "popcli c =
    (if eflags c AND FL_IF \<noteq> 0 then None
     else
       let c1 = c\<lparr>ncli := ncli c - 1\<rparr> in
       if sint (ncli c1) < 0 then None
       else Some (if ncli c1 = 0 \<and> intena c1 \<noteq> 0 then sti c1 else c1))"

text \<open>\<^verbatim>\<open>cpu_init\<close>, as far as the modelled fields go.\<close>

definition cpu_init :: "cpu \<Rightarrow> cpu" where
  "cpu_init c =
    c\<lparr>cpu_proc := NULL, ncli := 0, intena := (if eflags c AND FL_IF \<noteq> 0 then 1 else 0),
      scheduler_status := - 1\<rparr>"

definition get_cpu_proc :: "cpu \<Rightarrow> (ptr \<times> cpu) option" where
  "get_cpu_proc c = do {
     let c1 = pushcli c;
     let p = cpu_proc c1;
     c2 \<leftarrow> popcli c1;
     Some (p, c2)
   }"

definition set_cpu_proc :: "ptr \<Rightarrow> cpu \<Rightarrow> cpu option" where
  "set_cpu_proc p c = do {
     let c1 = pushcli c;
     popcli (c1\<lparr>cpu_proc := p\<rparr>)
   }"

section \<open>Spin locks\<close>

text \<open>
  The call stack \<^verbatim>\<open>pcs\<close> a lock records for debugging is left out.
  \<^verbatim>\<open>while (xchg(&locked, 1) != 0)\<close> does not end when the lock is taken and interrupts are
  off on the only CPU: like a panic, that is \<open>None\<close>.
\<close>

record spinlock =
  lk_locked :: u32
  lk_name :: string
  lk_cpu :: "nat option"

definition init_spinlock :: "string \<Rightarrow> spinlock" where
  "init_spinlock name = \<lparr>lk_locked = 0, lk_name = name, lk_cpu = None\<rparr>"

definition holding_spinlock :: "spinlock \<Rightarrow> cpu \<Rightarrow> (bool \<times> cpu) option" where
  "holding_spinlock lk c = do {
     let c1 = pushcli c;
     let r = (lk_locked lk \<noteq> 0 \<and> lk_cpu lk = Some 0);
     c2 \<leftarrow> popcli c1;
     Some (r, c2)
   }"

definition acquire_spinlock :: "spinlock \<Rightarrow> cpu \<Rightarrow> (spinlock \<times> cpu) option" where
  "acquire_spinlock lk c = do {
     (held, c1) \<leftarrow> holding_spinlock lk c;
     if held then None
     else do {
       let c2 = pushcli c1;
       if lk_locked lk \<noteq> 0 then None
       else Some (lk\<lparr>lk_locked := 1, lk_cpu := Some 0\<rparr>, c2)
     }
   }"

definition release_spinlock :: "spinlock \<Rightarrow> cpu \<Rightarrow> (spinlock \<times> cpu) option" where
  "release_spinlock lk c = do {
     (held, c1) \<leftarrow> holding_spinlock lk c;
     if \<not> held then None
     else do {
       let lk1 = lk\<lparr>lk_cpu := None\<rparr>;
       let lk2 = lk1\<lparr>lk_locked := 0\<rparr>;
       c2 \<leftarrow> popcli c1;
       Some (lk2, c2)
     }
   }"

section \<open>What they promise\<close>

text \<open>
  A CPU is consistent when the nesting depth does not overflow, interrupts are off whenever the
  depth is positive, and the flag saved by the outermost \<^verbatim>\<open>pushcli\<close> is the interrupt bit.
\<close>

definition cpu_ok :: "cpu \<Rightarrow> bool" where
  "cpu_ok c \<longleftrightarrow> ncli c < 0x7FFFFFFF \<and>
     (ncli c \<noteq> 0 \<longrightarrow> eflags c AND FL_IF = 0) \<and> (intena c = 0 \<or> intena c = FL_IF)"

lemma bit_512: "bit (512 :: int) n \<longleftrightarrow> n = 9" "bit (512 :: nat) n \<longleftrightarrow> n = 9"
proof -
  have "(512 :: int) = 2 ^ 9" "(512 :: nat) = 2 ^ 9" by simp_all
  then show "bit (512 :: int) n \<longleftrightarrow> n = 9" "bit (512 :: nat) n \<longleftrightarrow> n = 9"
    by (simp_all only: bit_exp_iff possible_bit_int possible_bit_nat) auto
qed

lemma bit_FL_IF: "bit FL_IF n \<longleftrightarrow> n = 9"
  by (auto simp: bit_512)

lemma FL_IF_test: "x AND FL_IF = (if bit (x :: u32) 9 then FL_IF else 0)"
  by (intro bit_word_eqI) (auto simp: bit_simps bit_512)

lemma FL_IF_update:
  "\<not> bit (x AND - 513 :: u32) 9" "bit (x OR FL_IF :: u32) 9"
proof -
  have "NOT FL_IF = - 513" by simp
  then show "\<not> bit (x AND - 513 :: u32) 9" by (metis bit_FL_IF bit_and_iff bit_not_iff)
  show "bit (x OR FL_IF :: u32) 9" by (auto simp: bit_simps bit_512)
qed

lemma restore_IF: "bit x 9 \<Longrightarrow> (x AND - 513) OR FL_IF = (x :: u32)"
proof -
  have "bit x 9 \<Longrightarrow> (x AND NOT FL_IF) OR FL_IF = x"
    by (intro bit_word_eqI) (auto simp: bit_simps bit_512)
  then show "bit x 9 \<Longrightarrow> (x AND - 513) OR FL_IF = (x :: u32)" by simp
qed

lemma cli_id: "\<not> bit x 9 \<Longrightarrow> x AND - 513 = (x :: u32)"
proof -
  have "\<not> bit x 9 \<Longrightarrow> x AND NOT FL_IF = x"
    by (intro bit_word_eqI) (auto simp: bit_simps bit_512)
  then show "\<not> bit x 9 \<Longrightarrow> x AND - 513 = (x :: u32)" by simp
qed

lemma cpu_ok_alt: "cpu_ok c \<longleftrightarrow> ncli c < 0x7FFFFFFF \<and>
     (ncli c \<noteq> 0 \<longrightarrow> \<not> bit (eflags c) 9) \<and> (intena c = 0 \<or> intena c = FL_IF)"
  by (simp add: cpu_ok_def FL_IF_test)

lemma sint_small: "(n :: u32) \<le> 0x7FFFFFFF \<Longrightarrow> sint n = uint n"
  by (simp add: sint_uint word_le_def) (subst signed_take_bit_int_eq_self; simp add: order.trans [OF _ uint_ge_0])

lemma small_plus_1: "(n :: u32) < 0x7FFFFFFF \<Longrightarrow> n + 1 \<noteq> 0"
  by (auto simp: add_eq_0_iff2)

text \<open>A nested pair of \<^verbatim>\<open>pushcli\<close> and \<^verbatim>\<open>popcli\<close> restores the CPU, whatever was done to other fields in between.\<close>

lemma pushcli_inside: "cpu_ok c \<Longrightarrow> \<not> bit (eflags (pushcli c)) 9 \<and> ncli (pushcli c) = ncli c + 1 \<and> ncli c + 1 \<noteq> 0"
  using small_plus_1 [of "ncli c"] by (auto simp: pushcli_def cli_def Let_def FL_IF_update cpu_ok_def)

lemma pop_push:
  assumes "cpu_ok c" and "eflags d = eflags (pushcli c)" "ncli d = ncli (pushcli c)" "intena d = intena (pushcli c)"
  shows "popcli d = Some (d\<lparr>ncli := ncli c, eflags := eflags c\<rparr>)"
proof -
  from assms(1) have n: "ncli c < 0x7FFFFFFF" "ncli c + 1 - 1 = ncli c" "ncli c \<le> 0x7FFFFFFF" by (auto simp: cpu_ok_def)
  have s: "\<not> sint (ncli c) < 0" using sint_small [OF n(3)] by simp
  show ?thesis
    using assms n s pushcli_inside [OF assms(1)]
    by (cases d; cases "ncli c = 0")
      (auto simp: popcli_def pushcli_def cli_def sti_def Let_def FL_IF_test FL_IF_update cli_id restore_IF cpu_ok_alt split: if_splits)
qed

text \<open>A look at the CPU with interrupts off: only \<^verbatim>\<open>intena\<close> may be left as the inner \<^verbatim>\<open>pushcli\<close> set it.\<close>

definition peeked :: "cpu \<Rightarrow> cpu" where
  "peeked c = (if ncli c = 0 then c\<lparr>intena := eflags c AND FL_IF\<rparr> else c)"

lemma peeked_simps [simp]:
  "eflags (peeked c) = eflags c" "ncli (peeked c) = ncli c" "cpu_proc (peeked c) = cpu_proc c"
  "scheduler_status (peeked c) = scheduler_status c" "peeked (peeked c) = peeked c"
  "pushcli (peeked c) = pushcli c" "ncli c \<noteq> 0 \<Longrightarrow> peeked c = c"
  by (simp_all add: peeked_def pushcli_def cli_def Let_def)

lemma cpu_ok_peeked [simp]: "cpu_ok c \<Longrightarrow> cpu_ok (peeked c)"
  by (auto simp: cpu_ok_def peeked_def FL_IF_test)

lemma pop_push_same: "cpu_ok c \<Longrightarrow> popcli (pushcli c) = Some (peeked c)"
  using pop_push [of c "pushcli c"]
  by (cases c) (simp add: pushcli_def cli_def Let_def peeked_def split: if_splits)

lemma get_cpu_proc_eq: "cpu_ok c \<Longrightarrow> get_cpu_proc c = Some (cpu_proc c, peeked c)"
  by (simp add: get_cpu_proc_def Let_def pop_push_same) (simp add: pushcli_def cli_def Let_def)

lemma set_cpu_proc_eq: "cpu_ok c \<Longrightarrow> set_cpu_proc p c = Some ((peeked c)\<lparr>cpu_proc := p\<rparr>)"
  using pop_push [of c "pushcli c\<lparr>cpu_proc := p\<rparr>"]
  by (cases c) (simp add: set_cpu_proc_def Let_def pushcli_def cli_def peeked_def split: if_splits)

lemma holding_spinlock_eq:
  "cpu_ok c \<Longrightarrow> holding_spinlock lk c = Some (lk_locked lk \<noteq> 0 \<and> lk_cpu lk = Some 0, peeked c)"
  by (simp add: holding_spinlock_def Let_def pop_push_same)

abbreviation held :: "spinlock \<Rightarrow> bool" where
  "held lk \<equiv> lk_locked lk \<noteq> 0 \<and> lk_cpu lk = Some 0"

lemma acquire_spinlock_eq:
  "cpu_ok c \<Longrightarrow> acquire_spinlock lk c =
     (if lk_locked lk = 0 then Some (lk\<lparr>lk_locked := 1, lk_cpu := Some 0\<rparr>, pushcli c) else None)"
  by (simp add: acquire_spinlock_def holding_spinlock_eq)

text \<open>The nesting discipline: \<open>nested c c0\<close>, one level above the CPU state \<open>c0\<close>.\<close>

definition nested :: "cpu \<Rightarrow> cpu \<Rightarrow> bool" where
  "nested c c0 \<longleftrightarrow> cpu_ok c0 \<and> eflags c = eflags (pushcli c0) \<and> ncli c = ncli (pushcli c0) \<and>
     intena c = intena (pushcli c0)"

lemma nested_pushcli: "cpu_ok c \<Longrightarrow> nested (pushcli c) c"
  by (simp add: nested_def)

lemma nested_ncli: "nested c c0 \<Longrightarrow> ncli c \<noteq> 0"
  using pushcli_inside [of c0] by (auto simp: nested_def)

lemma nested_popcli: "nested c c0 \<Longrightarrow> popcli c = Some (c\<lparr>ncli := ncli c0, eflags := eflags c0\<rparr>)"
  by (auto simp: nested_def pop_push)

lemma release_spinlock_eq:
  assumes "nested c c0" and "cpu_ok c"
  shows "release_spinlock lk c = (if held lk
    then Some (lk\<lparr>lk_cpu := None, lk_locked := 0\<rparr>, c\<lparr>ncli := ncli c0, eflags := eflags c0\<rparr>) else None)"
  using assms by (simp add: release_spinlock_def holding_spinlock_eq nested_popcli nested_ncli Let_def)

end
