(* ===== verification/FOS_Console.thy ===== *)
theory FOS_Console
  imports FOS_Queue "HOL-Library.Monad_Syntax"
begin

text \<open>
  The console devices of \<^verbatim>\<open>kern/cons/console.c\<close>: the text screen with its cursor, the keyboard
  translation, and the ring buffer of characters that were typed but not read yet.

  The ports are modelled by what comes out of them: \<open>serial_in\<close> and \<open>kbd_in\<close> are the bytes and
  scan codes that wait at the two devices, and \<open>lpt_out\<close> is what was printed, latest first.
  \<open>cga_cursor\<close> is the position the display controller was last told.
\<close>

type_synonym u16 = "16 word"

record console =
  serial_exists :: bool
  serial_in :: "u8 list"
  kbd_in :: "u8 list"
  kbd_shift :: u32
  lpt_out :: "u8 list"
  crt_buf :: "u32 \<Rightarrow> u16"
  crt_pos :: u16
  cga_cursor :: u16
  text_length :: int
  rebooted :: bool
  cons_buf :: "u32 \<Rightarrow> u8"
  cons_rpos :: u32
  cons_wpos :: u32

abbreviation "CRT_COLS \<equiv> 80 :: u16"
abbreviation "CRT_SIZE \<equiv> 2000 :: u16"
abbreviation "KEY_HOME \<equiv> 0xE0 :: u8"
abbreviation "KEY_END \<equiv> 0xE1 :: u8"
abbreviation "KEY_UP \<equiv> 0xE2 :: u8"
abbreviation "KEY_DN \<equiv> 0xE3 :: u8"
abbreviation "KEY_LF \<equiv> 0xE4 :: u8"
abbreviation "KEY_RT \<equiv> 0xE5 :: u8"
abbreviation "KEY_PGUP \<equiv> 0xE6 :: u8"
abbreviation "KEY_PGDN \<equiv> 0xE7 :: u8"
abbreviation "KEY_INS \<equiv> 0xE8 :: u8"
abbreviation "KEY_DEL \<equiv> 0xE9 :: u8"

section \<open>The screen\<close>

definition lpt_putc :: "u32 \<Rightarrow> console \<Rightarrow> console" where
  "lpt_putc c s = s\<lparr>lpt_out := ucast c # lpt_out s\<rparr>"

text \<open>What \<^verbatim>\<open>cga_putc\<close> does after its \<^verbatim>\<open>switch\<close>: scrolling by one line and moving the cursor.\<close>

definition scroll_up :: "(u32 \<Rightarrow> u16) \<Rightarrow> u32 \<Rightarrow> u16" where
  "scroll_up b i = (if i < 1920 then b (i + 80) else if i < 2000 then 0x0700 OR 0x20 else b i)"

definition cga_finish :: "console \<Rightarrow> console" where
  "cga_finish s =
    (let s1 = (if crt_pos s \<ge> CRT_SIZE
               then s\<lparr>crt_buf := scroll_up (crt_buf s), crt_pos := crt_pos s - CRT_COLS\<rparr> else s)
     in s1\<lparr>cga_cursor := crt_pos s1\<rparr>)"

definition with_attribute :: "u32 \<Rightarrow> u32" where
  "with_attribute c = (if c AND NOT 0xFF = 0 then c OR 0x0700 else c)"

text \<open>The cases of the \<^verbatim>\<open>switch\<close> other than the tabulator.\<close>

definition cga_switch :: "u32 \<Rightarrow> console \<Rightarrow> console" where
  "cga_switch c s =
    (if c AND 0xFF = 8 then
       (if crt_pos s > 0 then s\<lparr>crt_pos := crt_pos s - 1,
          crt_buf := (crt_buf s)(ucast (crt_pos s - 1) := ucast ((c AND NOT 0xFF) OR 0x20))\<rparr> else s)
     else if c AND 0xFF = 10 then
       (let p = crt_pos s + CRT_COLS in s\<lparr>crt_pos := p - p mod CRT_COLS, text_length := 0\<rparr>)
     else if c AND 0xFF = 13 then s\<lparr>crt_pos := crt_pos s - crt_pos s mod CRT_COLS\<rparr>
     else if c AND 0xFF = 228 then (if crt_pos s > 0 then s\<lparr>crt_pos := crt_pos s - 1\<rparr> else s)
     else if c AND 0xFF = 229 then (if crt_pos s < CRT_SIZE then s\<lparr>crt_pos := crt_pos s + 1\<rparr> else s)
     else if c \<noteq> ucast KEY_LF \<and> c \<noteq> ucast KEY_RT then
       (let p = crt_pos s + 1 in
        s\<lparr>crt_buf := (crt_buf s)(ucast (crt_pos s) := ucast c), crt_pos := p,
          text_length := (if uint p > 1920 + text_length s then text_length s + 1 else text_length s)\<rparr>)
     else s)"

definition cga_plain :: "u32 \<Rightarrow> console \<Rightarrow> console" where
  "cga_plain c s = cga_finish (cga_switch c s)"

text \<open>A tabulator prints five blanks through \<^verbatim>\<open>cons_putc\<close>.\<close>

definition put_blank :: "console \<Rightarrow> console" where
  "put_blank s = cga_plain (with_attribute 0x20) (lpt_putc 0x20 s)"

definition cga_putc :: "u32 \<Rightarrow> console \<Rightarrow> console" where
  "cga_putc c s =
    (let c = with_attribute c in
     if c AND 0xFF = 9 then cga_finish ((put_blank ^^ 5) s) else cga_plain c s)"

definition cons_putc :: "u32 \<Rightarrow> console \<Rightarrow> console" where
  "cons_putc c s = cga_putc c (lpt_putc c s)"

definition cputchar :: "u32 \<Rightarrow> console \<Rightarrow> console" where
  "cputchar c s = cons_putc c s"

text \<open>\<open>found\<close> is where the controller has its cursor at start-up.\<close>

definition cga_init :: "u16 \<Rightarrow> console \<Rightarrow> console" where
  "cga_init found s = s\<lparr>crt_pos := found\<rparr>"

section \<open>The keyboard\<close>

abbreviation "SHIFT \<equiv> 1 :: u32"
abbreviation "CTL \<equiv> 2 :: u32"
abbreviation "ALT \<equiv> 4 :: u32"
abbreviation "CAPSLOCK \<equiv> 8 :: u32"
abbreviation "NUMLOCK \<equiv> 16 :: u32"
abbreviation "SCROLLLOCK \<equiv> 32 :: u32"
abbreviation "E0ESC \<equiv> 64 :: u32"

text \<open>A table of 256 entries: a list of the first entries, single later entries, and zeros.\<close>

definition key_table :: "u8 list \<Rightarrow> (u8 \<times> u8) list \<Rightarrow> u8 \<Rightarrow> u8" where
  "key_table xs later i =
    (case map_of later i of Some v \<Rightarrow> v | None \<Rightarrow> if unat i < length xs then xs ! unat i else 0)"

definition shiftcode :: "u8 \<Rightarrow> u32" where
  "shiftcode i = (if i = 0x1D \<or> i = 0x9D then CTL else if i = 0x2A \<or> i = 0x36 then SHIFT
     else if i = 0x38 \<or> i = 0xB8 then ALT else 0)"

definition togglecode :: "u8 \<Rightarrow> u32" where
  "togglecode i = (if i = 0x3A then CAPSLOCK else if i = 0x45 then NUMLOCK else if i = 0x46 then SCROLLLOCK else 0)"

definition ascii :: "string \<Rightarrow> u8 list" where
  "ascii = map (\<lambda>c. of_nat (of_char c))"

definition special_keys :: "(u8 \<times> u8) list" where
  "special_keys = [(0xC8, KEY_UP), (0xC9, KEY_PGUP), (0xCB, KEY_LF), (0xCD, KEY_RT), (0xCF, KEY_END),
     (0xD0, KEY_DN), (0xD1, KEY_PGDN), (0xD2, KEY_INS), (0xD3, KEY_DEL)]"

text \<open>The numeric keypad and the keys before it, from 0x38 to 0x53, are the same in the first two tables.\<close>

definition keypad :: "u8 list" where
  "keypad = [0] @ ascii '' '' @ replicate 13 0 @ ascii ''789-456+1230.''"

definition normalmap :: "u8 \<Rightarrow> u8" where
  "normalmap = key_table
    ([0, 0x1B] @ ascii ''1234567890-='' @ [8, 9] @ ascii ''qwertyuiop[]'' @ [10, 0] @ ascii ''asdfghjkl;'' @
     [39, 96, 0, 92] @ ascii ''zxcvbnm,./'' @ [0] @ ascii ''*'' @ keypad)
    ([(0x97, KEY_HOME), (0x9C, 10), (0xB5, 47)] @ special_keys)"

definition shiftmap :: "u8 \<Rightarrow> u8" where
  "shiftmap = key_table
    ([0, 0x1B] @ ascii ''!@#$%^&*()_+'' @ [8, 9] @ ascii ''QWERTYUIOP{}'' @ [10, 0] @ ascii ''ASDFGHJKL:'' @
     [34, 126, 0, 124] @ ascii ''ZXCVBNM<>?'' @ [0] @ ascii ''*'' @ keypad)
    ([(0x97, KEY_HOME), (0x9C, 10), (0xB5, 47)] @ special_keys)"

definition control_keys :: "string \<Rightarrow> u8 list" where
  "control_keys s = map (\<lambda>c. c - 0x40) (ascii s)"

definition ctlmap :: "u8 \<Rightarrow> u8" where
  "ctlmap = key_table
    (replicate 16 0 @ control_keys ''QWERTYUIOP'' @ [0, 0, 13, 0] @ control_keys ''ASDFGHJKL'' @ [0, 0, 0, 0, 28] @
     control_keys ''ZXCVBNM'' @ [0, 0] @ control_keys ''/'' @ [0, 0])
    ([(0x39, 0xFF), (0x9D, 0), (0x97, KEY_HOME), (0xB5, 239)] @ special_keys)"

definition charcode :: "u32 \<Rightarrow> u8 \<Rightarrow> u8" where
  "charcode sh = (if sh = 0 then normalmap else if sh = 1 then shiftmap else ctlmap)"

text \<open>The delete key moves what is right of the cursor in the last line one to the left.\<close>

definition delete_char :: "console \<Rightarrow> int \<times> console" where
  "delete_char s =
    (if text_length s > 0 then
       if uint (crt_pos s) = 1920 + text_length s then (0, s)
       else
         let len = text_length s - 1;
             n = nat (len - (uint (crt_pos s) - 1925) + 1)
         in (uint KEY_DEL, s\<lparr>text_length := len,
               crt_buf := fold (\<lambda>i b. b(i := b (i + 1))) (map (\<lambda>j. ucast (crt_pos s) + of_nat j) [0..<n]) (crt_buf s)\<rparr>)
     else (0, s))"

text \<open>Letters change case with caps lock, and the special keys are left out.\<close>

definition caps :: "u32 \<Rightarrow> int \<Rightarrow> int" where
  "caps shift c =
    (if shift AND CAPSLOCK \<noteq> 0 then (if 97 \<le> c \<and> c \<le> 122 then c - 32 else if 65 \<le> c \<and> c \<le> 90 then c + 32 else c) else c)"

definition key_pressed :: "u8 \<Rightarrow> u32 \<Rightarrow> console \<Rightarrow> int \<times> console" where
  "key_pressed d shift s =
    (let s1 = s\<lparr>kbd_shift := shift\<rparr>;
         c = uint (charcode (shift AND (CTL OR SHIFT)) d)
     in
     if c = uint KEY_DEL then delete_char s1
     else
       let c = caps shift c in
       if shift = NUMLOCK \<and> 48 \<le> c \<and> c \<le> 57 then (0, s1)
       else if c = 255 then (0, s1)
       else (c, if NOT shift AND (CTL OR ALT) = 0 \<and> c = uint KEY_DEL then s1\<lparr>rebooted := True\<rparr> else s1))"

definition kbd_proc_data :: "console \<Rightarrow> int \<times> console" where
  "kbd_proc_data s =
    (case kbd_in s of
       [] \<Rightarrow> (- 1, s)
     | d # rest \<Rightarrow>
         let s = s\<lparr>kbd_in := rest\<rparr>; shift = kbd_shift s in
         if d = 0xE0 then (0, s\<lparr>kbd_shift := shift OR E0ESC\<rparr>)
         else if d AND 0x80 \<noteq> 0 then
           let d = (if shift AND E0ESC \<noteq> 0 then d else d AND 0x7F)
           in (0, s\<lparr>kbd_shift := shift AND NOT (shiftcode d OR E0ESC)\<rparr>)
         else
           let (d, shift) = (if shift AND E0ESC \<noteq> 0 then (d OR 0x80, shift AND NOT E0ESC) else (d, shift))
           in key_pressed d ((shift OR shiftcode d) XOR togglecode d) s)"

definition serial_proc_data :: "console \<Rightarrow> int \<times> console" where
  "serial_proc_data s = (case serial_in s of [] \<Rightarrow> (- 1, s) | d # rest \<Rightarrow> (uint d, s\<lparr>serial_in := rest\<rparr>))"

section \<open>The ring buffer\<close>

definition cons_store :: "int \<Rightarrow> console \<Rightarrow> console" where
  "cons_store c s = s\<lparr>cons_buf := (cons_buf s)(cons_wpos s := word_of_int c),
     cons_wpos := (if cons_wpos s + 1 = 512 then 0 else cons_wpos s + 1)\<rparr>"

text \<open>The loop ends when the device has no more data.\<close>

partial_function (option) cons_intr :: "(console \<Rightarrow> int \<times> console) \<Rightarrow> console \<Rightarrow> console option" where
  "cons_intr proc s =
    (case proc s of (c, s1) \<Rightarrow>
       if c = - 1 then Some s1
       else if c = 0 then cons_intr proc s1
       else cons_intr proc (cons_store c s1))"

definition serial_intr :: "console \<Rightarrow> console option" where
  "serial_intr s = (if serial_exists s then cons_intr serial_proc_data s else Some s)"

definition kbd_intr :: "console \<Rightarrow> console option" where
  "kbd_intr s = cons_intr kbd_proc_data s"

definition cons_getc2 :: "console \<Rightarrow> u32 \<times> console" where
  "cons_getc2 s =
    (if cons_rpos s \<noteq> cons_wpos s then
       (ucast (cons_buf s (cons_rpos s)), s\<lparr>cons_rpos := (if cons_rpos s + 1 = 512 then 0 else cons_rpos s + 1)\<rparr>)
     else (0, s))"

definition cons_getc :: "console \<Rightarrow> (u32 \<times> console) option" where
  "cons_getc s = do { s1 \<leftarrow> serial_intr s; s2 \<leftarrow> kbd_intr s1; Some (cons_getc2 s2) }"

text \<open>\<open>exists\<close>: what the line status register says.\<close>

definition serial_init :: "bool \<Rightarrow> console \<Rightarrow> console" where
  "serial_init exists s = s\<lparr>serial_exists := exists\<rparr>"

definition iscons :: "int \<Rightarrow> int" where
  "iscons fdnum = 1"

end
