(* ===== verification/FOS_Kernel.thy ===== *)
theory FOS_Kernel
  imports FOS_Cpu FOS_Mem FOS_Console
begin

text \<open>
  The kernel's global state, as one record, and the descriptors its pointers point to. Arrays of
  \<^verbatim>\<open>uint32\<close> (page directories and page tables) are the field \<open>words\<close>, from the
  array's address and an index to the entry. Structures that live in tables or are allocated one
  by one are typed stores from pointers to records; the kernel heap, in which the block
  allocator works, is byte memory (\<open>kmem\<close>). The three kinds of storage are assumed not to
  overlap.
\<close>

section \<open>Descriptors\<close>

text \<open>\<^verbatim>\<open>struct FrameInfo\<close> of \<^verbatim>\<open>inc/memlayout.h\<close>.\<close>

record frame_info =
  references :: "16 word"
  base_va_page :: u32
  addr_working_set_element :: ptr
  fi_proc :: ptr
  bufferedVA :: u32
  isBuffered :: u8
  fi_next :: ptr
  fi_prev :: ptr

text \<open>\<^verbatim>\<open>struct WorkingSetElement\<close> and \<^verbatim>\<open>struct Env\<close> of \<^verbatim>\<open>inc/environment_definitions.h\<close>, the fields the modelled code uses.\<close>

record ws_element =
  ws_virtual_address :: u32
  ws_empty :: u8
  time_stamp :: u32
  sweeps_counter :: u32
  ws_next :: ptr
  ws_prev :: ptr

record env =
  env_id :: u32
  env_parent_id :: u32
  env_status :: u32
  priority :: u32
  env_next :: ptr
  env_prev :: ptr
  kstack :: ptr
  env_page_directory :: ptr
  env_cr3 :: u32
  USERH_START :: u32
  USERH_BRK :: u32
  USERH_HARD_LIMIT :: u32
  page_WS_max_size :: u32
  page_WS_list :: list_head
  page_last_WS_element :: ptr
  ptr_tws :: "nat \<Rightarrow> ws_element"
  ActiveList :: list_head
  SecondList :: list_head
  initNumStackPages :: u32
  disk_env_pgdir :: ptr
  disk_env_pgdir_PA :: u32
  disk_env_tabledir :: ptr
  disk_env_tabledir_PA :: u32
  pageFaultsCounter :: u32
  tableFaultsCounter :: u32
  nPageIn :: u32
  nPageOut :: u32
  nNewPageAdded :: u32
  nClocks :: u32
  env_tf :: ptr
  env_context :: ptr
  prog_name :: "u8 list"
  env_runs :: u32
  table_last_WS_index :: u32
  ActiveListSize :: u32
  SecondListSize :: u32
  percentage_of_WS_pages_to_be_removed :: u32
  freeingFullWSCounter :: u32
  freeingScarceMemCounter :: u32
  nModifiedPages :: u32
  nNotModifiedPages :: u32

abbreviation "ENV_FREE \<equiv> 0 :: u32"
abbreviation "ENV_READY \<equiv> 1 :: u32"
abbreviation "ENV_RUNNING \<equiv> 2 :: u32"
abbreviation "ENV_BLOCKED \<equiv> 3 :: u32"
abbreviation "ENV_NEW \<equiv> 4 :: u32"
abbreviation "ENV_EXIT \<equiv> 5 :: u32"
abbreviation "ENV_UNKNOWN \<equiv> 6 :: u32"

text \<open>
  \<^verbatim>\<open>struct Share\<close> of \<^verbatim>\<open>kern/mem/shared_memory_manager.h\<close>; the name is the bytes before its
  terminating zero.
\<close>

record share =
  sh_ID :: u32
  sh_ownerID :: u32
  sh_name :: "u8 list"
  sh_size :: u32
  sh_references :: u32
  sh_isWritable :: u8
  framesStorage :: ptr
  sh_next :: ptr
  sh_prev :: ptr

text \<open>What a line of the interrupt controller is bound to by \<^verbatim>\<open>irq_install_handler\<close>.\<close>

datatype irq_handler = No_handler | Clock_handler | Keyboard_handler | Serial_handler | Disk_handler

text \<open>
  The globals of \<^verbatim>\<open>kern/tests/utilities.c\<close>: the counter of user tests, and where the channel, its spin
  lock and the sleep lock lie that the tests use.
\<close>

record test_vars =
  tstcnt :: u32
  tstcntlock :: spinlock
  firstTimeSleep :: bool
  tstchan :: ptr
  tstchan_lk :: ptr
  firstTimeSleepLock :: bool
  tstslplk :: ptr

section \<open>The global variables\<close>

text \<open>
  \<open>env_slot i\<close> is the address of \<^verbatim>\<open>envs[i]\<close>. A sleep lock at address \<open>p\<close> has its
  spin lock in \<open>spinlocks\<close>, the queue of its channel in \<open>channels\<close>, and its own two fields in
  \<open>sleep_locked\<close> and \<open>sleep_pid\<close>, all at \<open>p\<close>. \<open>clock_quantum\<close> is what the timer chip was
  last programmed with, and \<open>syscall_env\<close> is the global \<^verbatim>\<open>cur_env\<close> of
  \<^verbatim>\<open>kern/trap/syscall.c\<close>. The frames of the page file have their \<^verbatim>\<open>FrameInfo\<close> in \<open>frames\<close> too, from
  \<open>disk_frames_info\<close> on. \<open>frame_data f\<close> is the content of the frame of \<open>f\<close>, byte by byte;
  \<open>disk_data d\<close> the content of page \<open>d\<close> of the page file, and \<open>disk_bad d\<close> says that the disk
  reports an error for it. \<open>KBDchannel\<close>, \<open>KBDlock\<close> and \<open>conslock\<close> are where these globals
  lie, \<open>irq_mask\<close> is the mask of the two interrupt controllers, \<open>didinit\<close> says that they were set up, and
  \<open>reg_cr2\<close> is the register with the last faulting address.
\<close>

record kern =
  kcpu :: cpu
  mfllock :: spinlock
  frames :: "ptr \<Rightarrow> frame_info"
  frames_info :: ptr
  number_of_frames :: u32
  free_frame_list :: list_head
  modified_frame_list :: list_head
  words :: "ptr \<Rightarrow> u32 \<Rightarrow> u32"
  ptr_page_directory :: ptr
  kmem :: memory
  kfreeBlocksList :: list_head
  kda_initialized :: bool
  START_KHEAP_BLOCK_ALLOCATOR :: u32
  BRK :: u32
  HARD_LIMIT :: u32
  KH_page_allocator_flag :: u32
  freePagesList_KH :: list_head
  KHeapPlacementStrategy :: u32
  envs :: "ptr \<Rightarrow> env"
  env_slot :: "u32 \<Rightarrow> ptr"
  NENV :: u32
  NEARPOW2NENV :: u32
  env_free_list :: list_head
  ws_elements :: "ptr \<Rightarrow> ws_element"
  qlock :: spinlock
  env_new_queue :: list_head
  env_exit_queue :: list_head
  env_ready_queues :: "nat \<Rightarrow> list_head"
  num_of_ready_queues :: u8
  quantums :: "nat \<Rightarrow> u8"
  clock_quantum :: u8
  scheduler_method :: u32
  ticks :: "64 word"
  spinlocks :: "ptr \<Rightarrow> spinlock"
  channels :: "ptr \<Rightarrow> list_head"
  sleep_locked :: "ptr \<Rightarrow> u32"
  sleep_pid :: "ptr \<Rightarrow> u32"
  EnableBuffering :: u32
  EnableModifiedBuffer :: u32
  ModifiedBufferLength :: u32
  bypassInstrLength :: u8
  UHeapPlacementStrategy :: u32
  syscall_env :: ptr
  PageRepAlgoType :: u32
  page_WS_max_sweeps :: u32
  frame_data :: "ptr \<Rightarrow> u32 \<Rightarrow> u8"
  dfllock :: spinlock
  disk_frames_info :: ptr
  disk_free_frame_list :: list_head
  disk_data :: "u32 \<Rightarrow> u32 \<Rightarrow> u8"
  disk_bad :: "u32 \<Rightarrow> bool"
  ptr_zero_page :: ptr
  last_eip :: u32
  before_last_eip :: u32
  last_fault_va :: u32
  before_last_fault_va :: u32
  num_repeated_fault :: u8
  last_faulted_env :: ptr
  shares :: "ptr \<Rightarrow> share"
  shares_list :: list_head
  shareslock :: spinlock
  ptr_temp_page :: ptr
  cons_dev :: console
  KBDchannel :: ptr
  KBDlock :: ptr
  conslock :: ptr
  irq_handlers :: "u32 \<Rightarrow> irq_handler"
  didinit :: bool
  irq_mask :: "16 word"
  reg_cr2 :: u32
  memory_scarce_threshold_percentage :: u32
  testing :: test_vars

section \<open>Typed stores with links\<close>

definition frame_links :: "(ptr \<Rightarrow> frame_info) link_ops" where
  "frame_links = \<lparr>le_next = (\<lambda>t x. fi_next (t x)), set_le_next = (\<lambda>x v t. t(x := (t x)\<lparr>fi_next := v\<rparr>)),
     le_prev = (\<lambda>t x. fi_prev (t x)), set_le_prev = (\<lambda>x v t. t(x := (t x)\<lparr>fi_prev := v\<rparr>))\<rparr>"

definition env_links :: "(ptr \<Rightarrow> env) link_ops" where
  "env_links = \<lparr>le_next = (\<lambda>t x. env_next (t x)), set_le_next = (\<lambda>x v t. t(x := (t x)\<lparr>env_next := v\<rparr>)),
     le_prev = (\<lambda>t x. env_prev (t x)), set_le_prev = (\<lambda>x v t. t(x := (t x)\<lparr>env_prev := v\<rparr>))\<rparr>"

definition ws_links :: "(ptr \<Rightarrow> ws_element) link_ops" where
  "ws_links = \<lparr>le_next = (\<lambda>t x. ws_next (t x)), set_le_next = (\<lambda>x v t. t(x := (t x)\<lparr>ws_next := v\<rparr>)),
     le_prev = (\<lambda>t x. ws_prev (t x)), set_le_prev = (\<lambda>x v t. t(x := (t x)\<lparr>ws_prev := v\<rparr>))\<rparr>"

definition share_links :: "(ptr \<Rightarrow> share) link_ops" where
  "share_links = \<lparr>le_next = (\<lambda>t x. sh_next (t x)), set_le_next = (\<lambda>x v t. t(x := (t x)\<lparr>sh_next := v\<rparr>)),
     le_prev = (\<lambda>t x. sh_prev (t x)), set_le_prev = (\<lambda>x v t. t(x := (t x)\<lparr>sh_prev := v\<rparr>))\<rparr>"

text \<open>Elements are separate when they differ, and no other field of any element changes.\<close>

abbreviation no_frame_links :: "frame_info \<Rightarrow> frame_info" where
  "no_frame_links f \<equiv> f\<lparr>fi_next := NULL, fi_prev := NULL\<rparr>"

abbreviation no_env_links :: "env \<Rightarrow> env" where
  "no_env_links e \<equiv> e\<lparr>env_next := NULL, env_prev := NULL\<rparr>"

abbreviation no_ws_links :: "ws_element \<Rightarrow> ws_element" where
  "no_ws_links e \<equiv> e\<lparr>ws_next := NULL, ws_prev := NULL\<rparr>"

interpretation frame_store: link_store frame_links "(\<noteq>)" "\<lambda>t x. no_frame_links (t x)" "\<lambda>x. {}"
  by unfold_locales (auto simp: frame_links_def)

interpretation env_store: link_store env_links "(\<noteq>)" "\<lambda>t x. no_env_links (t x)" "\<lambda>x. {}"
  by unfold_locales (auto simp: env_links_def)

interpretation ws_store: link_store ws_links "(\<noteq>)" "\<lambda>t x. no_ws_links (t x)" "\<lambda>x. {}"
  by unfold_locales (auto simp: ws_links_def)

abbreviation no_share_links :: "share \<Rightarrow> share" where
  "no_share_links e \<equiv> e\<lparr>sh_next := NULL, sh_prev := NULL\<rparr>"

interpretation share_store: link_store share_links "(\<noteq>)" "\<lambda>t x. no_share_links (t x)" "\<lambda>x. {}"
  by unfold_locales (auto simp: share_links_def)

lemma share_links_next [simp]: "le_next share_links t x = sh_next (t x)" "le_prev share_links t x = sh_prev (t x)"
  by (simp_all add: share_links_def)

lemma env_links_next [simp]: "le_next env_links t x = env_next (t x)" "le_prev env_links t x = env_prev (t x)"
  by (simp_all add: env_links_def)

lemma frame_links_next [simp]: "le_next frame_links t x = fi_next (t x)" "le_prev frame_links t x = fi_prev (t x)"
  by (simp_all add: frame_links_def)

lemma ws_links_next [simp]: "le_next ws_links t x = ws_next (t x)" "le_prev ws_links t x = ws_prev (t x)"
  by (simp_all add: ws_links_def)

lemma no_env_links_eqD:
  assumes "no_env_links e = no_env_links e'"
  shows "env_id e = env_id e'" "env_status e = env_status e'" "priority e = priority e'" "env_parent_id e = env_parent_id e'"
    "kstack e = kstack e'" "env_page_directory e = env_page_directory e'" "nClocks e = nClocks e'"
    "page_WS_list e = page_WS_list e'"
  using assms by (cases e; cases e'; simp)+

lemma no_frame_links_eqD:
  assumes "no_frame_links e = no_frame_links e'"
  shows "references e = references e'" "base_va_page e = base_va_page e'" "isBuffered e = isBuffered e'"
    "fi_proc e = fi_proc e'" "bufferedVA e = bufferedVA e'"
    "addr_working_set_element e = addr_working_set_element e'"
  using assms by (cases e; cases e'; simp)+

lemma pairwise_neq [simp]: "pairwise (\<noteq>) S"
  by (simp add: pairwise_def)

section \<open>Lifting CPU, lock and list operations\<close>

definition with_cpu :: "(cpu \<Rightarrow> ('a \<times> cpu) option) \<Rightarrow> kern \<Rightarrow> ('a \<times> kern) option" where
  "with_cpu f k = do { (r, c) \<leftarrow> f (kcpu k); Some (r, k\<lparr>kcpu := c\<rparr>) }"

definition holding_mfllock :: "kern \<Rightarrow> (bool \<times> kern) option" where
  "holding_mfllock k = with_cpu (holding_spinlock (mfllock k)) k"

definition acquire_mfllock :: "kern \<Rightarrow> kern option" where
  "acquire_mfllock k = do { (l, c) \<leftarrow> acquire_spinlock (mfllock k) (kcpu k); Some (k\<lparr>mfllock := l, kcpu := c\<rparr>) }"

definition release_mfllock :: "kern \<Rightarrow> kern option" where
  "release_mfllock k = do { (l, c) \<leftarrow> release_spinlock (mfllock k) (kcpu k); Some (k\<lparr>mfllock := l, kcpu := c\<rparr>) }"

definition holding_qlock :: "kern \<Rightarrow> (bool \<times> kern) option" where
  "holding_qlock k = with_cpu (holding_spinlock (qlock k)) k"

definition acquire_qlock :: "kern \<Rightarrow> kern option" where
  "acquire_qlock k = do { (l, c) \<leftarrow> acquire_spinlock (qlock k) (kcpu k); Some (k\<lparr>qlock := l, kcpu := c\<rparr>) }"

definition release_qlock :: "kern \<Rightarrow> kern option" where
  "release_qlock k = do { (l, c) \<leftarrow> release_spinlock (qlock k) (kcpu k); Some (k\<lparr>qlock := l, kcpu := c\<rparr>) }"

definition cur_proc :: "kern \<Rightarrow> (ptr \<times> kern) option" where
  "cur_proc k = with_cpu get_cpu_proc k"

end
