(* ===== verification/FOS_Paging.thy ===== *)
theory FOS_Paging
  imports FOS_Kernel
begin

text \<open>
  Physical frames and page tables: \<^verbatim>\<open>kern/mem/memory_manager.c\<close>,
  \<^verbatim>\<open>kern/mem/paging_helpers.c\<close>, the macros of \<^verbatim>\<open>inc/mmu.h\<close> and
  \<^verbatim>\<open>memory_manager.h\<close>, and the two address translations of \<^verbatim>\<open>kheap.c\<close>.
  Translation look-aside buffer flushes and console output are left out. A panic, and a memory
  access through \<^verbatim>\<open>NULL\<close>, is \<open>None\<close>.
\<close>

section \<open>Addresses and entries\<close>

abbreviation "PERM_PRESENT \<equiv> 0x001 :: u32"
abbreviation "PERM_WRITEABLE \<equiv> 0x002 :: u32"
abbreviation "PERM_USER \<equiv> 0x004 :: u32"
abbreviation "PERM_USED \<equiv> 0x020 :: u32"
abbreviation "PERM_MODIFIED \<equiv> 0x040 :: u32"
abbreviation "PERM_BUFFERED \<equiv> 0x200 :: u32"
abbreviation "PERM_AVAILABLE \<equiv> 0xE00 :: u32"
abbreviation "KERNEL_BASE \<equiv> 0xF0000000 :: u32"
abbreviation "USER_TOP \<equiv> 0xEEC00000 :: u32"
abbreviation "KERNEL_HEAP_START \<equiv> 0xF6000000 :: u32"
abbreviation "KERNEL_HEAP_MAX \<equiv> 0xFFFFF000 :: u32"
abbreviation "USER_HEAP_START \<equiv> 0x80000000 :: u32"
abbreviation "USER_HEAP_MAX \<equiv> 0xA0000000 :: u32"

abbreviation "TABLE_IN_MEMORY \<equiv> 0 :: u32"
abbreviation "TABLE_NOT_EXIST \<equiv> 1 :: u32"

definition PPN :: "u32 \<Rightarrow> u32" where
  "PPN la = drop_bit 12 la"

definition PDX :: "u32 \<Rightarrow> u32" where
  "PDX la = drop_bit 22 la AND 0x3FF"

definition PTX :: "u32 \<Rightarrow> u32" where
  "PTX la = drop_bit 12 la AND 0x3FF"

definition PGOFF :: "u32 \<Rightarrow> u32" where
  "PGOFF la = la AND 0xFFF"

definition EXTRACT_ADDRESS :: "u32 \<Rightarrow> u32" where
  "EXTRACT_ADDRESS entry = entry AND NOT 0xFFF"

definition CONSTRUCT_ENTRY :: "u32 \<Rightarrow> u32 \<Rightarrow> u32" where
  "CONSTRUCT_ENTRY phys_frame_address permissions = phys_frame_address OR permissions"

definition CHECK_IF_KERNEL_ADDRESS :: "u32 \<Rightarrow> bool" where
  "CHECK_IF_KERNEL_ADDRESS va \<longleftrightarrow> USER_TOP \<le> va \<and> va \<le> 0xFFFFFFFF"

section \<open>Frame descriptors\<close>

text \<open>\<^verbatim>\<open>frames_info\<close> is an array of descriptors of 32 bytes.\<close>

definition frame_at :: "kern \<Rightarrow> u32 \<Rightarrow> ptr" where
  "frame_at k i = frames_info k + 32 * i"

definition to_frame_number :: "ptr \<Rightarrow> kern \<Rightarrow> u32" where
  "to_frame_number f k = (f - frames_info k) div 32"

definition to_physical_address :: "ptr \<Rightarrow> kern \<Rightarrow> u32" where
  "to_physical_address f k = push_bit 12 (to_frame_number f k)"

definition to_frame_info :: "u32 \<Rightarrow> kern \<Rightarrow> ptr option" where
  "to_frame_info pa k = (if PPN pa \<ge> number_of_frames k then None else Some (frame_at k (PPN pa)))"

definition STATIC_KERNEL_PHYSICAL_ADDRESS :: "u32 \<Rightarrow> u32 option" where
  "STATIC_KERNEL_PHYSICAL_ADDRESS kva = (if kva < KERNEL_BASE then None else Some (kva - KERNEL_BASE))"

definition STATIC_KERNEL_VIRTUAL_ADDRESS :: "u32 \<Rightarrow> kern \<Rightarrow> u32 option" where
  "STATIC_KERNEL_VIRTUAL_ADDRESS pa k =
    (if PPN pa \<ge> number_of_frames k then None else Some (pa + KERNEL_BASE))"

definition kheap_virtual_address :: "u32 \<Rightarrow> kern \<Rightarrow> u32 option" where
  "kheap_virtual_address pa k = do {
     f \<leftarrow> to_frame_info pa k;
     if references (frames k f) = 0 then Some 0
     else do {
       let frame_no = to_frame_number f k;
       let offset = pa - frame_no * PAGE_SIZE;
       Some (base_va_page (frames k f) + offset)
     }
   }"

text \<open>\<^verbatim>\<open>memset\<close> of the descriptor: everything is zero, the links included.\<close>

definition zero_frame :: frame_info where
  "zero_frame = \<lparr>references = 0, base_va_page = 0, addr_working_set_element = NULL, fi_proc = NULL,
     bufferedVA = 0, isBuffered = 0, fi_next = NULL, fi_prev = NULL\<rparr>"

definition initialize_frame_info :: "ptr \<Rightarrow> kern \<Rightarrow> kern" where
  "initialize_frame_info f k = k\<lparr>frames := (frames k)(f := zero_frame)\<rparr>"

definition on_free_frames ::
  "(list_head \<Rightarrow> (ptr \<Rightarrow> frame_info) \<Rightarrow> (list_head \<times> (ptr \<Rightarrow> frame_info)) option) \<Rightarrow> kern \<Rightarrow> kern option" where
  "on_free_frames f k = do {
     (h, t) \<leftarrow> f (free_frame_list k) (frames k);
     Some (k\<lparr>free_frame_list := h, frames := t\<rparr>)
   }"

definition update_frame :: "ptr \<Rightarrow> (frame_info \<Rightarrow> frame_info) \<Rightarrow> kern \<Rightarrow> kern" where
  "update_frame f g k = k\<lparr>frames := (frames k)(f := g (frames k f))\<rparr>"

section \<open>Page tables\<close>

definition set_word :: "ptr \<Rightarrow> u32 \<Rightarrow> u32 \<Rightarrow> kern \<Rightarrow> kern" where
  "set_word t i v k = k\<lparr>words := (words k)(t := (words k t)(i := v))\<rparr>"

text \<open>
  A directory entry that is not zero but not present makes the code call
  \<^verbatim>\<open>fault_handler(NULL)\<close>, which reads the missing trap frame.
\<close>

definition get_page_table :: "ptr \<Rightarrow> u32 \<Rightarrow> kern \<Rightarrow> (u32 \<times> ptr) option" where
  "get_page_table dir va k =
    (let page_directory_entry = words k dir (PDX va) in
     if page_directory_entry AND PERM_PRESENT = PERM_PRESENT then do {
       t \<leftarrow> (if \<not> CHECK_IF_KERNEL_ADDRESS va
             then kheap_virtual_address (EXTRACT_ADDRESS page_directory_entry) k
             else STATIC_KERNEL_VIRTUAL_ADDRESS (EXTRACT_ADDRESS page_directory_entry) k);
       Some (TABLE_IN_MEMORY, t)
     }
     else if page_directory_entry \<noteq> 0 then None
     else Some (TABLE_NOT_EXIST, NULL))"

definition get_frame_info :: "ptr \<Rightarrow> u32 \<Rightarrow> kern \<Rightarrow> (ptr \<times> ptr) option" where
  "get_frame_info dir va k = do {
     (ret, t) \<leftarrow> get_page_table dir va k;
     if t \<noteq> NULL then do {
       let page_table_entry = words k t (PTX va);
       if page_table_entry AND NOT 0xFFF \<noteq> 0 then do {
         f \<leftarrow> to_frame_info (EXTRACT_ADDRESS page_table_entry) k;
         Some (f, t)
       }
       else Some (NULL, t)
     }
     else Some (NULL, t)
   }"

definition pt_set_page_permissions :: "ptr \<Rightarrow> u32 \<Rightarrow> u32 \<Rightarrow> u32 \<Rightarrow> kern \<Rightarrow> kern option" where
  "pt_set_page_permissions dir va permissions_to_set permissions_to_clear k = do {
     (ret, t) \<leftarrow> get_page_table dir va k;
     if t \<noteq> NULL then do {
       let k1 = set_word t (PTX va) (words k t (PTX va) OR permissions_to_set) k;
       Some (set_word t (PTX va) (words k1 t (PTX va) AND NOT permissions_to_clear) k1)
     }
     else None
   }"

definition pt_get_page_permissions :: "ptr \<Rightarrow> u32 \<Rightarrow> kern \<Rightarrow> u32 option" where
  "pt_get_page_permissions dir va k = do {
     (ret, t) \<leftarrow> get_page_table dir va k;
     if t \<noteq> NULL then Some (words k t (PTX va) AND 0xFFF) else Some (- 1)
   }"

definition pt_clear_page_table_entry :: "ptr \<Rightarrow> u32 \<Rightarrow> kern \<Rightarrow> kern option" where
  "pt_clear_page_table_entry dir va k = do {
     (ret, t) \<leftarrow> get_page_table dir va k;
     if t \<noteq> NULL then Some (set_word t (PTX va) 0 k) else None
   }"

definition pd_is_table_used :: "ptr \<Rightarrow> u32 \<Rightarrow> kern \<Rightarrow> u32" where
  "pd_is_table_used dir va k = (if words k dir (PDX va) AND PERM_USED = PERM_USED then 1 else 0)"

definition pd_set_table_unused :: "ptr \<Rightarrow> u32 \<Rightarrow> kern \<Rightarrow> kern" where
  "pd_set_table_unused dir va k = set_word dir (PDX va) (words k dir (PDX va) AND NOT PERM_USED) k"

definition pd_clear_page_dir_entry :: "ptr \<Rightarrow> u32 \<Rightarrow> kern \<Rightarrow> kern" where
  "pd_clear_page_dir_entry dir va k = set_word dir (PDX va) 0 k"

section \<open>Allocating and freeing frames\<close>

text \<open>\<^verbatim>\<open>holding_spinlock\<close> first, then the lock unless it is held already, around \<open>f\<close>.\<close>

definition with_mfllock :: "(kern \<Rightarrow> ('a \<times> kern) option) \<Rightarrow> kern \<Rightarrow> ('a \<times> kern) option" where
  "with_mfllock f k = do {
     (lock_already_held, k1) \<leftarrow> holding_mfllock k;
     k2 \<leftarrow> (if \<not> lock_already_held then acquire_mfllock k1 else Some k1);
     (r, k3) \<leftarrow> f k2;
     k4 \<leftarrow> (if \<not> lock_already_held then release_mfllock k3 else Some k3);
     Some (r, k4)
   }"

definition allocate_frame :: "kern \<Rightarrow> (ptr \<times> kern) option" where
  "allocate_frame = with_mfllock (\<lambda>k. do {
     let f = lh_first (free_frame_list k);
     if f = NULL then None
     else do {
       k1 \<leftarrow> on_free_frames (LIST_REMOVE frame_links f) k;
       k2 \<leftarrow> (if isBuffered (frames k1 f) \<noteq> 0
              then pt_clear_page_table_entry (env_page_directory (envs k1 (fi_proc (frames k1 f))))
                     (bufferedVA (frames k1 f)) k1
              else Some k1);
       Some (f, initialize_frame_info f k2)
     }
   })"

definition free_frame :: "ptr \<Rightarrow> kern \<Rightarrow> kern option" where
  "free_frame f k = do {
     (u, k1) \<leftarrow> with_mfllock (\<lambda>k. do {
       k1 \<leftarrow> on_free_frames (LIST_INSERT_HEAD frame_links f) (initialize_frame_info f k);
       Some ((), k1)
     }) k;
     Some k1
   }"

definition decrement_references :: "ptr \<Rightarrow> kern \<Rightarrow> kern option" where
  "decrement_references f k =
    (let k1 = update_frame f (\<lambda>i. i\<lparr>references := references i - 1\<rparr>) k in
     if references (frames k1 f) = 0 then free_frame f k1 else Some k1)"

section \<open>Mapping and unmapping\<close>

definition unmap_frame :: "ptr \<Rightarrow> u32 \<Rightarrow> kern \<Rightarrow> kern option" where
  "unmap_frame dir va k = do {
     (f, t) \<leftarrow> get_frame_info dir va k;
     if f \<noteq> NULL then do {
       k1 \<leftarrow> decrement_references f k;
       let k2 = set_word t (PTX va) (words k1 t (PTX va) AND PERM_AVAILABLE) k1;
       Some (update_frame f (\<lambda>i. i\<lparr>base_va_page := 0\<rparr>) k2)
     }
     else Some k
   }"

text \<open>
  \<open>create\<close> is \<^verbatim>\<open>create_page_table\<close>, which allocates from the kernel heap. The kernel
  heap itself maps its frames with the frame lock held; there a missing table makes
  \<^verbatim>\<open>kmalloc\<close> acquire that lock again, which panics, so \<open>create\<close> is \<open>nested_create\<close>.
\<close>

type_synonym create_fun = "ptr \<Rightarrow> u32 \<Rightarrow> kern \<Rightarrow> (ptr \<times> kern) option"

definition nested_create :: create_fun where
  "nested_create dir va k = None"

definition map_frame_with :: "create_fun \<Rightarrow> ptr \<Rightarrow> ptr \<Rightarrow> u32 \<Rightarrow> u32 \<Rightarrow> kern \<Rightarrow> kern option" where
  "map_frame_with create dir f va perm k = do {
     let physical_address = to_physical_address f k;
     (ret, t) \<leftarrow> get_page_table dir va k;
     (t, k1) \<leftarrow> (if ret = TABLE_NOT_EXIST then create dir va k else Some (t, k));
     let page_table_entry = words k1 t (PTX va);
     if page_table_entry AND PERM_PRESENT = PERM_PRESENT \<and> EXTRACT_ADDRESS page_table_entry = physical_address
     then Some k1
     else do {
       k2 \<leftarrow> (if page_table_entry AND PERM_PRESENT = PERM_PRESENT then unmap_frame dir va k1 else Some k1);
       let k3 = update_frame f (\<lambda>i. i\<lparr>references := references i + 1, base_va_page := va\<rparr>) k2;
       let pte_available_bits = words k3 t (PTX va) AND PERM_AVAILABLE;
       Some (set_word t (PTX va) (CONSTRUCT_ENTRY physical_address (pte_available_bits OR perm OR PERM_PRESENT)) k3)
     }
   }"

definition loadtime_map_frame_with :: "create_fun \<Rightarrow> ptr \<Rightarrow> ptr \<Rightarrow> u32 \<Rightarrow> u32 \<Rightarrow> kern \<Rightarrow> kern option" where
  "loadtime_map_frame_with create dir f va perm k = do {
     let physical_address = to_physical_address f k;
     let page_directory_entry = words k dir (PDX va);
     t \<leftarrow> (if \<not> CHECK_IF_KERNEL_ADDRESS va
           then kheap_virtual_address (EXTRACT_ADDRESS page_directory_entry) k
           else STATIC_KERNEL_VIRTUAL_ADDRESS (EXTRACT_ADDRESS page_directory_entry) k);
     (t, k1) \<leftarrow> (if page_directory_entry = 0 then create dir va k else Some (t, k));
     let k2 = update_frame f (\<lambda>i. i\<lparr>references := references i + 1\<rparr>) k1;
     Some (set_word t (PTX va) (CONSTRUCT_ENTRY physical_address (perm OR PERM_PRESENT)) k2)
   }"

text \<open>The table creation of a kernel without a heap.\<close>

definition static_cpt :: create_fun where
  "static_cpt dir va k = do {
     (f, k1) \<leftarrow> allocate_frame k;
     let phys_page_table = to_physical_address f k1;
     t \<leftarrow> STATIC_KERNEL_VIRTUAL_ADDRESS phys_page_table k1;
     let k2 = update_frame f (\<lambda>i. i\<lparr>references := 1\<rparr>) k1;
     let k3 = set_word dir (PDX va) (CONSTRUCT_ENTRY phys_page_table (PERM_PRESENT OR PERM_USER OR PERM_WRITEABLE)) k2;
     Some (t, k3\<lparr>words := (words k3)(t := (\<lambda>i. if i < 1024 then 0 else words k3 t i))\<rparr>)
   }"

section \<open>Address translation\<close>

definition kheap_physical_address :: "u32 \<Rightarrow> kern \<Rightarrow> u32 option" where
  "kheap_physical_address va k = do {
     (_, _) \<leftarrow> get_page_table (ptr_page_directory k) va k;
     (f, t) \<leftarrow> get_frame_info (ptr_page_directory k) va k;
     if f = NULL then Some 0
     else do {
       let page_offset = PGOFF va;
       let frame_no = to_frame_number f k;
       Some (frame_no * PAGE_SIZE + page_offset)
     }
   }"

section \<open>Start-up and statistics\<close>

text \<open>One of the two loops of \<^verbatim>\<open>initialize_paging\<close> that put the frames from \<open>i\<close> on the free list, \<open>n\<close> rounds.\<close>

primrec free_frames_from :: "u32 \<Rightarrow> nat \<Rightarrow> kern \<Rightarrow> kern option" where
  "free_frames_from i 0 k = Some k"
| "free_frames_from i (Suc n) k = do {
     k1 \<leftarrow> on_free_frames (LIST_INSERT_HEAD frame_links (frame_at k i)) (initialize_frame_info (frame_at k i) k);
     free_frames_from (i + 1) n k1
   }"

definition reserve_frames :: "nat \<Rightarrow> nat \<Rightarrow> kern \<Rightarrow> kern" where
  "reserve_frames lo hi k =
    fold (\<lambda>i. update_frame (frame_at k (of_nat i)) (\<lambda>f. f\<lparr>references := 1\<rparr>)) [lo..<hi] k"

text \<open>
  The frames of the page file, from number 1 on: \<^verbatim>\<open>PAGES_PER_FILE\<close> is 133120 (520 MB).
\<close>

definition PAGES_PER_FILE :: nat where
  "PAGES_PER_FILE = 133120"

definition disk_frame_at :: "kern \<Rightarrow> u32 \<Rightarrow> ptr" where
  "disk_frame_at k i = disk_frames_info k + 32 * i"

definition on_disk_frames ::
  "(list_head \<Rightarrow> (ptr \<Rightarrow> frame_info) \<Rightarrow> (list_head \<times> (ptr \<Rightarrow> frame_info)) option) \<Rightarrow> kern \<Rightarrow> kern option" where
  "on_disk_frames f k = do {
     (h, t) \<leftarrow> f (disk_free_frame_list k) (frames k);
     Some (k\<lparr>disk_free_frame_list := h, frames := t\<rparr>)
   }"

primrec free_disk_frames_from :: "u32 \<Rightarrow> nat \<Rightarrow> kern \<Rightarrow> kern option" where
  "free_disk_frames_from i 0 k = Some k"
| "free_disk_frames_from i (Suc n) k = do {
     k1 \<leftarrow> on_disk_frames (LIST_INSERT_HEAD frame_links (disk_frame_at k i)) (initialize_frame_info (disk_frame_at k i) k);
     free_disk_frames_from (i + 1) n k1
   }"

definition initialize_disk_page_file :: "kern \<Rightarrow> kern option" where
  "initialize_disk_page_file k =
     free_disk_frames_from 1 (PAGES_PER_FILE - 1) (k\<lparr>disk_free_frame_list := LIST_INIT (disk_free_frame_list k)\<rparr>)"

text \<open>The first 1024 bytes of the zero page and of the temporary page are cleared.\<close>

definition clear_1024 :: "u32 \<Rightarrow> memory \<Rightarrow> memory" where
  "clear_1024 a m = (\<lambda>x. if unat (x - a) < 1024 then 0 else m x)"

text \<open>\<open>free_mem\<close> is \<^verbatim>\<open>ptr_free_mem\<close>, the end of the memory used at boot.\<close>

definition initialize_paging :: "u32 \<Rightarrow> kern \<Rightarrow> kern option" where
  "initialize_paging free_mem k = do {
     let k1 = k\<lparr>free_frame_list := LIST_INIT (free_frame_list k),
                modified_frame_list := LIST_INIT (modified_frame_list k),
                mfllock := init_spinlock ''Frame Info Lock''\<rparr>;
     let k2 = (reserve_frames 0 3 k1)\<lparr>ptr_zero_page := KERNEL_BASE + PAGE_SIZE, ptr_temp_page := KERNEL_BASE + 2 * PAGE_SIZE,
        kmem := clear_1024 (KERNEL_BASE + 2 * PAGE_SIZE) (clear_1024 (KERNEL_BASE + PAGE_SIZE) (kmem k1))\<rparr>;
     let io = unat (ROUNDUP 0x0A0000 PAGE_SIZE div PAGE_SIZE);
     k3 \<leftarrow> free_frames_from 3 (io - 3) k2;
     let k4 = reserve_frames (0x0A0000 div 4096) (0x100000 div 4096) k3;
     pa \<leftarrow> STATIC_KERNEL_PHYSICAL_ADDRESS free_mem;
     let range_end = unat (ROUNDUP pa PAGE_SIZE div PAGE_SIZE);
     let k5 = reserve_frames (0x100000 div 4096) range_end k4;
     k6 \<leftarrow> free_frames_from (of_nat range_end) (unat (number_of_frames k) - range_end) k5;
     initialize_disk_page_file k6
   }"

record free_frames_counters =
  freeBuffered :: u32
  freeNotBuffered :: u32
  modified :: u32

definition calculate_available_frames :: "kern \<Rightarrow> (free_frames_counters \<times> kern) option" where
  "calculate_available_frames = with_mfllock (\<lambda>k. do {
     (_, totalFreeBuffered, totalFreeUnBuffered, _) \<leftarrow>
       LIST_FOREACH (\<lambda>(b, u, t) p. fi_next (t p))
         (\<lambda>p (b, u, t). if isBuffered (t p) \<noteq> 0 then Some (False, b + 1, u, t) else Some (False, b, u + 1, t))
         (lh_first (free_frame_list k)) (0, 0, frames k);
     Some (\<lparr>freeBuffered = totalFreeBuffered, freeNotBuffered = totalFreeUnBuffered,
             modified = lh_size (modified_frame_list k)\<rparr>, k)
   })"

end
