(* ===== verification/FOS_Sched.thy ===== *)
theory FOS_Sched
  imports FOS_Paging
begin

text \<open>
  The process queues and the scheduler: \<^verbatim>\<open>kern/cpu/sched_helpers.c\<close>, \<^verbatim>\<open>kern/cpu/sched.c\<close>
  and the scheduling part of \<^verbatim>\<open>kern/proc/user_environment.c\<close>.

  \<^verbatim>\<open>context_switch\<close> suspends the kernel thread of a process in the middle of a function, so
  what runs before it and what runs after it are two definitions: \<open>sched_enter\<close> and
  \<open>sched_return\<close> for \<^verbatim>\<open>sched()\<close>, \<open>scheduler_pick\<close> and \<open>scheduler_back\<close> for the
  scheduler's own loop. A function whose end is a switch has an \<open>outcome\<close> that says so.
  Console output and the test hooks \<^verbatim>\<open>chk1\<close>, \<^verbatim>\<open>chk2\<close> are left out.
\<close>

section \<open>Queues\<close>

text \<open>A queue argument is \<open>None\<close> for \<^verbatim>\<open>NULL\<close>. Processes enter at the head and leave at the tail.\<close>

type_synonym env_queue = "list_head option"

definition init_queue :: "env_queue \<Rightarrow> env_queue" where
  "init_queue queue = map_option LIST_INIT queue"

definition queue_size :: "env_queue \<Rightarrow> u32" where
  "queue_size queue = (case queue of None \<Rightarrow> 0 | Some q \<Rightarrow> lh_size q)"

definition enqueue :: "env_queue \<Rightarrow> ptr \<Rightarrow> (ptr \<Rightarrow> env) \<Rightarrow> (list_head \<times> (ptr \<Rightarrow> env)) option" where
  "enqueue queue env t =
    (case queue of
       None \<Rightarrow> None
     | Some q \<Rightarrow> (if env \<noteq> NULL then LIST_INSERT_HEAD env_links env q t else Some (q, t)))"

definition dequeue :: "env_queue \<Rightarrow> (ptr \<Rightarrow> env) \<Rightarrow> (ptr \<times> env_queue \<times> (ptr \<Rightarrow> env)) option" where
  "dequeue queue t =
    (case queue of
       None \<Rightarrow> Some (NULL, None, t)
     | Some q \<Rightarrow>
         (let envItem = lh_last q in
          if envItem \<noteq> NULL then do {
            (q1, t1) \<leftarrow> LIST_REMOVE env_links envItem q t;
            Some (envItem, Some q1, t1)
          }
          else Some (envItem, Some q, t)))"

definition remove_from_queue :: "env_queue \<Rightarrow> ptr \<Rightarrow> (ptr \<Rightarrow> env) \<Rightarrow> (list_head \<times> (ptr \<Rightarrow> env)) option" where
  "remove_from_queue queue e t =
    (case queue of
       None \<Rightarrow> None
     | Some q \<Rightarrow> (if e \<noteq> NULL then LIST_REMOVE env_links e q t else Some (q, t)))"

definition find_env_in_queue :: "env_queue \<Rightarrow> u32 \<Rightarrow> (ptr \<Rightarrow> env) \<Rightarrow> ptr option" where
  "find_env_in_queue queue envID t =
    (case queue of
       None \<Rightarrow> Some NULL
     | Some q \<Rightarrow> do {
         (e, _) \<leftarrow> LIST_FOREACH (\<lambda>t x. env_next (t x)) (\<lambda>e t. Some (env_id (t e) = envID, t)) (lh_first q) t;
         Some e
       })"

section \<open>The queues of the kernel\<close>

definition update_env :: "ptr \<Rightarrow> (env \<Rightarrow> env) \<Rightarrow> kern \<Rightarrow> kern" where
  "update_env e f k = k\<lparr>envs := (envs k)(e := f (envs k e))\<rparr>"

definition set_env_status :: "ptr \<Rightarrow> u32 \<Rightarrow> kern \<Rightarrow> kern" where
  "set_env_status e s = update_env e (\<lambda>x. x\<lparr>env_status := s\<rparr>)"

type_synonym queue_op = "list_head \<Rightarrow> (ptr \<Rightarrow> env) \<Rightarrow> (list_head \<times> (ptr \<Rightarrow> env)) option"

definition on_new_queue :: "queue_op \<Rightarrow> kern \<Rightarrow> kern option" where
  "on_new_queue f k = do {
     (q, t) \<leftarrow> f (env_new_queue k) (envs k); Some (k\<lparr>env_new_queue := q, envs := t\<rparr>) }"

definition on_exit_queue :: "queue_op \<Rightarrow> kern \<Rightarrow> kern option" where
  "on_exit_queue f k = do {
     (q, t) \<leftarrow> f (env_exit_queue k) (envs k); Some (k\<lparr>env_exit_queue := q, envs := t\<rparr>) }"

definition on_ready_queue :: "nat \<Rightarrow> queue_op \<Rightarrow> kern \<Rightarrow> kern option" where
  "on_ready_queue i f k = do {
     (q, t) \<leftarrow> f (env_ready_queues k i) (envs k);
     Some (k\<lparr>env_ready_queues := (env_ready_queues k)(i := q), envs := t\<rparr>) }"

text \<open>The panic of the functions that must run with \<^verbatim>\<open>qlock\<close> held.\<close>

definition check_qlock :: "kern \<Rightarrow> kern option" where
  "check_qlock k = do { (h, k1) \<leftarrow> holding_qlock k; if h then Some k1 else None }"

definition sched_insert_ready0 :: "ptr \<Rightarrow> kern \<Rightarrow> kern option" where
  "sched_insert_ready0 env k = do {
     k1 \<leftarrow> check_qlock k;
     if env = NULL then None
     else on_ready_queue 0 (\<lambda>q. enqueue (Some q) env) (set_env_status env ENV_READY k1)
   }"

definition sched_insert_ready :: "ptr \<Rightarrow> kern \<Rightarrow> kern option" where
  "sched_insert_ready env k = do {
     k1 \<leftarrow> check_qlock k;
     if env = NULL then None
     else
       let k2 = set_env_status env ENV_READY k1
       in on_ready_queue (unat (priority (envs k2 env))) (\<lambda>q. enqueue (Some q) env) k2
   }"

text \<open>The loop over the ready queues, from queue \<open>i\<close> on, \<open>n\<close> rounds.\<close>

primrec remove_ready_from :: "nat \<Rightarrow> nat \<Rightarrow> ptr \<Rightarrow> kern \<Rightarrow> kern option" where
  "remove_ready_from i 0 env k = Some k"
| "remove_ready_from i (Suc n) env k = do {
     ptr_env \<leftarrow> find_env_in_queue (Some (env_ready_queues k i)) (env_id (envs k env)) (envs k);
     if ptr_env \<noteq> NULL then do {
       k1 \<leftarrow> on_ready_queue i (LIST_REMOVE env_links env) k;
       Some (set_env_status env ENV_UNKNOWN k1)
     }
     else remove_ready_from (Suc i) n env k
   }"

definition sched_remove_ready :: "ptr \<Rightarrow> kern \<Rightarrow> kern option" where
  "sched_remove_ready env k = do {
     k1 \<leftarrow> check_qlock k;
     if env = NULL \<or> env_status (envs k1 env) \<noteq> ENV_READY then None
     else remove_ready_from 0 (unat (num_of_ready_queues k1)) env k1
   }"

definition sched_insert_new :: "ptr \<Rightarrow> kern \<Rightarrow> kern option" where
  "sched_insert_new env k = do {
     k1 \<leftarrow> check_qlock k;
     if env = NULL then None
     else on_new_queue (\<lambda>q. enqueue (Some q) env) (set_env_status env ENV_NEW k1)
   }"

definition sched_remove_new :: "ptr \<Rightarrow> kern \<Rightarrow> kern option" where
  "sched_remove_new env k = do {
     k1 \<leftarrow> check_qlock k;
     if env = NULL \<or> env_status (envs k1 env) \<noteq> ENV_NEW then None
     else do {
       k2 \<leftarrow> on_new_queue (LIST_REMOVE env_links env) k1;
       Some (set_env_status env ENV_UNKNOWN k2)
     }
   }"

text \<open>\<^verbatim>\<open>cleanup_buffers\<close> of \<^verbatim>\<open>user_environment.c\<close>: the modified frames of an exiting process.\<close>

definition on_modified_frames ::
  "(list_head \<Rightarrow> (ptr \<Rightarrow> frame_info) \<Rightarrow> (list_head \<times> (ptr \<Rightarrow> frame_info)) option) \<Rightarrow> kern \<Rightarrow> kern option" where
  "on_modified_frames f k = do {
     (h, t) \<leftarrow> f (modified_frame_list k) (frames k);
     Some (k\<lparr>modified_frame_list := h, frames := t\<rparr>)
   }"

definition cleanup_buffers :: "ptr \<Rightarrow> kern \<Rightarrow> kern option" where
  "cleanup_buffers e k = do {
     k1 \<leftarrow> acquire_mfllock k;
     (_, k2) \<leftarrow> LIST_FOREACH (\<lambda>k p. fi_next (frames k p))
       (\<lambda>f k.
          if fi_proc (frames k f) = e then do {
            k1 \<leftarrow> pt_clear_page_table_entry (env_page_directory (envs k (fi_proc (frames k f))))
                    (bufferedVA (frames k f)) k;
            k2 \<leftarrow> on_modified_frames (LIST_REMOVE frame_links f) k1;
            k3 \<leftarrow> free_frame f k2;
            Some (False, k3)
          }
          else Some (False, k))
       (lh_first (modified_frame_list k1)) k1;
     release_mfllock k2
   }"

definition isBufferingEnabled :: "kern \<Rightarrow> u8" where
  "isBufferingEnabled k = ucast (EnableBuffering k)"

lemma isBufferingEnabled_off [simp]: "EnableBuffering k = 0 \<Longrightarrow> isBufferingEnabled k = 0"
  by (simp add: isBufferingEnabled_def)

definition sched_insert_exit :: "ptr \<Rightarrow> kern \<Rightarrow> kern option" where
  "sched_insert_exit env k = do {
     k1 \<leftarrow> check_qlock k;
     if env = NULL then None
     else do {
       k2 \<leftarrow> (if isBufferingEnabled k1 \<noteq> 0 then cleanup_buffers env k1 else Some k1);
       on_exit_queue (\<lambda>q. enqueue (Some q) env) (set_env_status env ENV_EXIT k2)
     }
   }"

definition sched_remove_exit :: "ptr \<Rightarrow> kern \<Rightarrow> kern option" where
  "sched_remove_exit env k = do {
     k1 \<leftarrow> check_qlock k;
     if env = NULL \<or> env_status (envs k1 env) \<noteq> ENV_EXIT then None
     else do {
       k2 \<leftarrow> on_exit_queue (LIST_REMOVE env_links env) k1;
       Some (set_env_status env ENV_UNKNOWN k2)
     }
   }"

definition sched_new_env :: "ptr \<Rightarrow> kern \<Rightarrow> kern option" where
  "sched_new_env e k = do {
     k1 \<leftarrow> acquire_qlock k;
     if e = NULL then None
     else do { k2 \<leftarrow> sched_insert_new e k1; release_qlock k2 }
   }"

section \<open>Leaving the CPU\<close>

text \<open>
  How a function ends: it returns, it gave up the CPU in \<^verbatim>\<open>sched()\<close> (with the value of
  \<^verbatim>\<open>intena\<close> to restore on return), or it entered the scheduler's loop for good.
\<close>

datatype outcome = Returns kern | Gives_up u32 kern | Schedules kern

abbreviation "SCH_STOPPED \<equiv> 0 :: int"
abbreviation "SCH_STARTED \<equiv> 1 :: int"

definition sched_enter :: "kern \<Rightarrow> (u32 \<times> kern) option" where
  "sched_enter k = do {
     (p, k1) \<leftarrow> cur_proc k;
     if p = NULL then None
     else do {
       k2 \<leftarrow> check_qlock k1;
       if ncli (kcpu k2) \<noteq> 1 then None
       else if env_status (envs k2 p) = ENV_RUNNING then None
       else if eflags (kcpu k2) AND FL_IF \<noteq> 0 then None
       else Some (intena (kcpu k2), k2)
     }
   }"

definition sched_return :: "u32 \<Rightarrow> kern \<Rightarrow> kern" where
  "sched_return saved k = k\<lparr>kcpu := (kcpu k)\<lparr>intena := saved\<rparr>\<rparr>"

definition yield :: "kern \<Rightarrow> outcome option" where
  "yield k = do {
     k1 \<leftarrow> acquire_qlock k;
     (p, k2) \<leftarrow> cur_proc k1;
     if p = NULL then None
     else do {
       (saved, k3) \<leftarrow> sched_enter (set_env_status p ENV_READY k2);
       Some (Gives_up saved k3)
     }
   }"

definition yield_return :: "u32 \<Rightarrow> kern \<Rightarrow> kern option" where
  "yield_return saved k = release_qlock (sched_return saved k)"

text \<open>\<^verbatim>\<open>env_start\<close>: the first thing a new process runs, in place of the end of \<^verbatim>\<open>sched()\<close>.\<close>

definition env_start :: "kern \<Rightarrow> kern option" where
  "env_start k = release_qlock k"

text \<open>\<^verbatim>\<open>env_free\<close> returns at once.\<close>

definition env_free :: "ptr \<Rightarrow> kern \<Rightarrow> kern" where
  "env_free e k = k"

section \<open>Running, exiting and killing processes by number\<close>

text \<open>\<^verbatim>\<open>fos_scheduler\<close> up to its loop; it does not return.\<close>

definition fos_scheduler_start :: "kern \<Rightarrow> kern option" where
  "fos_scheduler_start k =
    (if eflags (kcpu k) AND FL_IF \<noteq> 0 then None
     else Some (k\<lparr>kcpu := (kcpu k)\<lparr>cpu_proc := NULL, scheduler_status := SCH_STARTED\<rparr>\<rparr>))"

definition sched_run_env :: "u32 \<Rightarrow> kern \<Rightarrow> outcome option" where
  "sched_run_env envId k = do {
     k1 \<leftarrow> acquire_qlock k;
     (e, stopped, k2) \<leftarrow> LIST_FOREACH (\<lambda>(s, k) x. env_next (envs k x))
       (\<lambda>e (s, k).
          if env_id (envs k e) = envId then do {
            k1 \<leftarrow> sched_remove_new e k;
            k2 \<leftarrow> sched_insert_ready e k1;
            Some (True, scheduler_status (kcpu k2) = SCH_STOPPED, k2)
          }
          else Some (False, s, k))
       (lh_first (env_new_queue k1)) (False, k1);
     k3 \<leftarrow> release_qlock k2;
     if stopped then do { k4 \<leftarrow> fos_scheduler_start k3; Some (Schedules k4) } else Some (Returns k3)
   }"

text \<open>
  The three searches of \<^verbatim>\<open>sched_exit_env\<close> and \<^verbatim>\<open>sched_kill_env\<close>. The search of the NEW queue in
  \<^verbatim>\<open>sched_exit_env\<close> (\<open>stop = False\<close>) has no \<^verbatim>\<open>break\<close>, so \<^verbatim>\<open>ptr_env\<close> is \<^verbatim>\<open>NULL\<close> after it.
\<close>

definition take_from_new :: "bool \<Rightarrow> u32 \<Rightarrow> kern \<Rightarrow> (ptr \<times> bool \<times> kern) option" where
  "take_from_new stop envId k =
     LIST_FOREACH (\<lambda>(found, k) x. env_next (envs k x))
       (\<lambda>e (found, k).
          if env_id (envs k e) = envId then do { k1 \<leftarrow> sched_remove_new e k; Some (stop, True, k1) }
          else Some (False, found, k))
       (lh_first (env_new_queue k)) (False, k)"

primrec take_from_ready :: "nat \<Rightarrow> nat \<Rightarrow> u32 \<Rightarrow> ptr \<Rightarrow> kern \<Rightarrow> (ptr \<times> bool \<times> kern) option" where
  "take_from_ready i 0 envId e k = Some (e, False, k)"
| "take_from_ready i (Suc n) envId e k = do {
     (e1, found, k1) \<leftarrow>
       (if \<not> LIST_EMPTY (env_ready_queues k i) then
          LIST_FOREACH (\<lambda>(found, k) x. env_next (envs k x))
            (\<lambda>e (found, k).
               if env_id (envs k e) = envId then do {
                 k1 \<leftarrow> on_ready_queue i (LIST_REMOVE env_links e) k;
                 Some (True, True, k1)
               }
               else Some (False, found, k))
            (lh_first (env_ready_queues k i)) (False, k)
        else Some (e, False, k));
     if found then Some (e1, True, k1) else take_from_ready (Suc i) n envId e1 k1
   }"

definition take_from_exit :: "u32 \<Rightarrow> kern \<Rightarrow> (ptr \<times> bool \<times> kern) option" where
  "take_from_exit envId k =
     LIST_FOREACH (\<lambda>(found, k) x. env_next (envs k x))
       (\<lambda>e (found, k).
          if env_id (envs k e) = envId then do { k1 \<leftarrow> sched_remove_exit e k; Some (True, True, k1) }
          else Some (False, found, k))
       (lh_first (env_exit_queue k)) (False, k)"

definition sched_exit_env :: "u32 \<Rightarrow> kern \<Rightarrow> outcome option" where
  "sched_exit_env envId k = do {
     (lock_already_held, k1) \<leftarrow> holding_qlock k;
     k2 \<leftarrow> (if \<not> lock_already_held then acquire_qlock k1 else Some k1);
     (e, found, k3) \<leftarrow> take_from_new False envId k2;
     (e, found, k4) \<leftarrow> (if \<not> found then take_from_ready 0 (unat (num_of_ready_queues k3)) envId e k3
                        else Some (e, found, k3));
     (cur_env, k5) \<leftarrow> cur_proc k4;
     if cur_env = NULL then None
     else do {
       let is_cur = (\<not> found \<and> env_id (envs k5 cur_env) = envId);
       let e = (if is_cur then cur_env else e);
       if found \<or> is_cur then do {
         k6 \<leftarrow> sched_insert_exit e k5;
         if env_id (envs k6 cur_env) = envId then do {
           (saved, k7) \<leftarrow> sched_enter k6;
           Some (Gives_up saved k7)
         }
         else do {
           k7 \<leftarrow> (if \<not> lock_already_held then release_qlock k6 else Some k6);
           Some (Returns k7)
         }
       }
       else do {
         k7 \<leftarrow> (if \<not> lock_already_held then release_qlock k5 else Some k5);
         Some (Returns k7)
       }
     }
   }"

definition env_exit :: "kern \<Rightarrow> outcome option" where
  "env_exit k = do {
     (cur_env, k1) \<leftarrow> cur_proc k;
     if cur_env = NULL then None else sched_exit_env (env_id (envs k1 cur_env)) k1
   }"

definition sched_kill_env :: "u32 \<Rightarrow> kern \<Rightarrow> outcome option" where
  "sched_kill_env envId k = do {
     k1 \<leftarrow> acquire_qlock k;
     (e, found, k2) \<leftarrow> take_from_new True envId k1;
     (e, found, k3) \<leftarrow> (if \<not> found then take_from_ready 0 (unat (num_of_ready_queues k2)) envId e k2
                        else Some (e, found, k2));
     (e, found, k4) \<leftarrow> (if \<not> found then take_from_exit envId k3 else Some (e, found, k3));
     k5 \<leftarrow> release_qlock k4;
     if found then Some (Returns (env_free e k5))
     else do {
       (cur_env, k6) \<leftarrow> cur_proc k5;
       if cur_env = NULL then None
       else if env_id (envs k6 cur_env) = envId then
         (if env_status (envs k6 cur_env) \<noteq> ENV_RUNNING then None
          else do { (saved, k7) \<leftarrow> sched_enter (env_free cur_env k6); Some (Gives_up saved k7) })
       else Some (Returns k6)
     }
   }"

primrec run_all_loop :: "nat \<Rightarrow> kern \<Rightarrow> kern option" where
  "run_all_loop 0 k = Some k"
| "run_all_loop (Suc n) k = do {
     (e, q, t) \<leftarrow> dequeue (Some (env_new_queue k)) (envs k);
     k1 \<leftarrow> sched_insert_ready e (k\<lparr>env_new_queue := the q, envs := t\<rparr>);
     run_all_loop n k1
   }"

definition sched_run_all :: "kern \<Rightarrow> outcome option" where
  "sched_run_all k = do {
     k1 \<leftarrow> acquire_qlock k;
     k2 \<leftarrow> run_all_loop (unat (lh_size (env_new_queue k1))) k1;
     k3 \<leftarrow> release_qlock k2;
     if scheduler_status (kcpu k3) = SCH_STOPPED then do { k4 \<leftarrow> fos_scheduler_start k3; Some (Schedules k4) }
     else None
   }"

text \<open>Loops that empty a queue element by element.\<close>

primrec kill_ready :: "nat \<Rightarrow> nat \<Rightarrow> kern \<Rightarrow> kern option" where
  "kill_ready i 0 k = Some k"
| "kill_ready i (Suc n) k = do {
     (_, k1) \<leftarrow> LIST_FOREACH (\<lambda>k x. env_next (envs k x))
       (\<lambda>e k. do { k1 \<leftarrow> on_ready_queue i (LIST_REMOVE env_links e) k; Some (False, env_free e k1) })
       (lh_first (env_ready_queues k i)) k;
     kill_ready (Suc i) n k1
   }"

definition sched_kill_all :: "kern \<Rightarrow> outcome option" where
  "sched_kill_all k = do {
     k1 \<leftarrow> acquire_qlock k;
     (_, k2) \<leftarrow> LIST_FOREACH (\<lambda>k x. env_next (envs k x))
       (\<lambda>e k. do { k1 \<leftarrow> sched_remove_new e k; Some (False, env_free e k1) }) (lh_first (env_new_queue k1)) k1;
     k3 \<leftarrow> kill_ready 0 (unat (num_of_ready_queues k2)) k2;
     (_, k4) \<leftarrow> LIST_FOREACH (\<lambda>k x. env_next (envs k x))
       (\<lambda>e k. do { k1 \<leftarrow> sched_remove_exit e k; Some (False, env_free e k1) }) (lh_first (env_exit_queue k3)) k3;
     (cur_env, k5) \<leftarrow> cur_proc k4;
     if cur_env \<noteq> NULL then
       (if env_status (envs k5 cur_env) \<noteq> ENV_RUNNING then None
        else do { (saved, k6) \<leftarrow> sched_enter (env_free cur_env k5); Some (Gives_up saved k6) })
     else do { k6 \<leftarrow> release_qlock k5; Some (Returns k6) }
   }"

primrec exit_ready :: "nat \<Rightarrow> nat \<Rightarrow> kern \<Rightarrow> kern option" where
  "exit_ready i 0 k = Some k"
| "exit_ready i (Suc n) k = do {
     (_, k1) \<leftarrow> LIST_FOREACH (\<lambda>k x. env_next (envs k x))
       (\<lambda>e k. do {
          k1 \<leftarrow> on_ready_queue i (LIST_REMOVE env_links e) k;
          k2 \<leftarrow> sched_insert_exit e k1;
          Some (False, k2)
        })
       (lh_first (env_ready_queues k i)) k;
     exit_ready (Suc i) n k1
   }"

definition sched_exit_all_ready_envs :: "kern \<Rightarrow> kern option" where
  "sched_exit_all_ready_envs k = do {
     k1 \<leftarrow> acquire_qlock k;
     k2 \<leftarrow> exit_ready 0 (unat (num_of_ready_queues k1)) k1;
     release_qlock k2
   }"

section \<open>The round-robin scheduler\<close>

abbreviation "SCH_RR \<equiv> 0 :: u32"
abbreviation "SCH_PRIRR \<equiv> 3 :: u32"

text \<open>
  The clock is stopped by masking its interrupt line, once the controllers are initialised; writing its
  counter is enclosed in \<^verbatim>\<open>pushcli\<close> and \<^verbatim>\<open>popcli\<close>. \<^verbatim>\<open>kclock_set_quantum\<close> panics from 54 ms on
  (\<^verbatim>\<open>QUANTUM_LIMIT\<close>), divides by the quantum, and leaves the clock stopped. The other schedulers of
  \<^verbatim>\<open>sched_next\<close> panic.
\<close>

definition irq_set_mask :: "u8 \<Rightarrow> kern \<Rightarrow> kern" where
  "irq_set_mask IRQline k = (if \<not> didinit k then k else k\<lparr>irq_mask := irq_mask k OR push_bit (unat IRQline) 1\<rparr>)"

definition kclock_stop :: "kern \<Rightarrow> kern" where
  "kclock_stop k = irq_set_mask 0 k"

definition kclock_write_cnt0_LSB_first :: "kern \<Rightarrow> kern option" where
  "kclock_write_cnt0_LSB_first k = do { c \<leftarrow> popcli (pushcli (kcpu k)); Some (k\<lparr>kcpu := c\<rparr>) }"

definition kclock_set_quantum :: "u8 \<Rightarrow> kern \<Rightarrow> kern option" where
  "kclock_set_quantum quantum k =
    (if quantum < 54 \<and> quantum \<noteq> 0 then do {
       k1 \<leftarrow> kclock_write_cnt0_LSB_first (k\<lparr>clock_quantum := quantum\<rparr>);
       Some (kclock_stop k1)
     }
     else None)"

definition fos_scheduler_RR :: "kern \<Rightarrow> (ptr \<times> kern) option" where
  "fos_scheduler_RR k = do {
     k1 \<leftarrow> check_qlock k;
     (cur_env, k2) \<leftarrow> cur_proc k1;
     k3 \<leftarrow> (if cur_env \<noteq> NULL then on_ready_queue 0 (\<lambda>q. enqueue (Some q) cur_env) k2 else Some k2);
     (next_env, q, t) \<leftarrow> dequeue (Some (env_ready_queues k3 0)) (envs k3);
     let k4 = k3\<lparr>env_ready_queues := (env_ready_queues k3)(0 := the q), envs := t\<rparr>;
     k5 \<leftarrow> kclock_set_quantum (quantums k4 0) k4;
     Some (next_env, k5)
   }"

definition sched_next :: "kern \<Rightarrow> (ptr \<times> kern) option" where
  "sched_next k = (if scheduler_method k = SCH_RR then fos_scheduler_RR k else None)"

definition set_proc :: "ptr \<Rightarrow> kern \<Rightarrow> kern option" where
  "set_proc p k = do { c \<leftarrow> set_cpu_proc p (kcpu k); Some (k\<lparr>kcpu := c\<rparr>) }"

definition switchuvm :: "ptr \<Rightarrow> kern \<Rightarrow> kern option" where
  "switchuvm proc k =
    (if proc = NULL \<or> kstack (envs k proc) = NULL \<or> env_page_directory (envs k proc) = NULL then None
     else do {
       let c1 = pushcli (kcpu k);
       c2 \<leftarrow> popcli (c1\<lparr>cpu_proc := proc\<rparr>);
       Some (k\<lparr>kcpu := c2\<rparr>)
     })"

text \<open>One round of the inner loop up to the switch to the process chosen, \<^verbatim>\<open>NULL\<close> if there is none.\<close>

definition scheduler_pick :: "kern \<Rightarrow> (ptr \<times> kern) option" where
  "scheduler_pick k = do {
     (next_env, k1) \<leftarrow> sched_next k;
     (old_curenv, k2) \<leftarrow> cur_proc k1;
     k3 \<leftarrow> set_proc next_env k2;
     k4 \<leftarrow> set_proc old_curenv k3;
     if next_env \<noteq> NULL then do {
       k5 \<leftarrow> set_proc next_env k4;
       k6 \<leftarrow> switchuvm next_env k5;
       Some (next_env, set_env_status next_env ENV_RUNNING k6)
     }
     else Some (NULL, k4)
   }"

text \<open>The rest of the round, when the process has switched back.\<close>

definition scheduler_back :: "kern \<Rightarrow> kern option" where
  "scheduler_back k =
    (if eflags (kcpu k) AND FL_IF \<noteq> 0 then None
     else do {
       let k = kclock_stop k;
       (p, k1) \<leftarrow> cur_proc k;
       if p \<noteq> cpu_proc (kcpu k1) then None
       else
         let status = env_status (envs k1 (cpu_proc (kcpu k1))) in
         if status = ENV_RUNNING then None
         else if status = ENV_READY then Some k1
         else set_proc NULL k1
     })"

text \<open>The outer loop: interrupts on for a moment, then the lock; and its test at the end.\<close>

definition scheduler_lock :: "kern \<Rightarrow> kern option" where
  "scheduler_lock k = acquire_qlock (k\<lparr>kcpu := sti (kcpu k)\<rparr>)"

definition scheduler_idle :: "kern \<Rightarrow> (bool \<times> kern) option" where
  "scheduler_idle k = do {
     let is_any_blocked = (\<exists>i \<in> set [0..<unat (NENV k)]. env_status (envs k (env_slot k (of_nat i))) = ENV_BLOCKED);
     k1 \<leftarrow> release_qlock k;
     Some (is_any_blocked, k1)
   }"

section \<open>Initialisation, processes by number\<close>

text \<open>
  \<^verbatim>\<open>sched_init_RR\<close> after the two arrays of one ready queue and one quantum have been
  allocated: the model has them as functions, so their replacement is left out.
\<close>

definition sched_init_RR :: "u8 \<Rightarrow> kern \<Rightarrow> kern option" where
  "sched_init_RR quantum k = do {
     let k1 = k\<lparr>num_of_ready_queues := 1, quantums := (quantums k)(0 := quantum)\<rparr>;
     k2 \<leftarrow> kclock_set_quantum (quantums k1 0) k1;
     let k3 = k2\<lparr>env_ready_queues := (env_ready_queues k2)(0 := LIST_INIT (env_ready_queues k2 0))\<rparr>;
     Some (k3\<lparr>kcpu := (kcpu k3)\<lparr>scheduler_status := SCH_STOPPED\<rparr>, scheduler_method := SCH_RR\<rparr>)
   }"

definition sched_init :: "kern \<Rightarrow> kern option" where
  "sched_init k = do {
     k1 \<leftarrow> sched_init_RR 10 k;
     Some (k1\<lparr>env_new_queue := LIST_INIT (env_new_queue k1), env_exit_queue := LIST_INIT (env_exit_queue k1),
       kcpu := (kcpu k1)\<lparr>scheduler_status := SCH_STOPPED\<rparr>, qlock := init_spinlock ''process queues lock''\<rparr>)
   }"

primrec env_init_loop :: "nat \<Rightarrow> kern \<Rightarrow> kern option" where
  "env_init_loop 0 k = Some k"
| "env_init_loop (Suc i) k = do {
     let e = env_slot k (of_nat i);
     let k1 = update_env e (\<lambda>x. x\<lparr>env_status := ENV_FREE, env_id := 0\<rparr>) k;
     (q, t) \<leftarrow> LIST_INSERT_HEAD env_links e (env_free_list k1) (envs k1);
     env_init_loop i (k1\<lparr>env_free_list := q, envs := t\<rparr>)
   }"

definition env_init :: "kern \<Rightarrow> kern option" where
  "env_init k = env_init_loop (unat (NENV k)) k"

abbreviation "E_NO_FREE_ENV \<equiv> - 5 :: int"
abbreviation "E_BAD_ENV \<equiv> - 2 :: int"

definition allocate_environment :: "kern \<Rightarrow> int \<times> ptr \<times> kern" where
  "allocate_environment k =
    (let e = lh_first (env_free_list k) in
     if e = NULL then (E_NO_FREE_ENV, e, k) else (0, e, set_env_status e ENV_UNKNOWN k))"

definition ENVX :: "u32 \<Rightarrow> kern \<Rightarrow> u32" where
  "ENVX envid k = envid AND (NEARPOW2NENV k - 1)"

definition envid2env :: "u32 \<Rightarrow> bool \<Rightarrow> kern \<Rightarrow> (int \<times> ptr \<times> kern) option" where
  "envid2env envid checkperm k =
    (if envid = 0 then do { (p, k1) \<leftarrow> cur_proc k; Some (0, p, k1) }
     else
       let e = env_slot k (ENVX envid k) in
       if env_status (envs k e) = ENV_FREE \<or> env_id (envs k e) \<noteq> envid then Some (E_BAD_ENV, NULL, k)
       else do {
         (cur_env, k1) \<leftarrow> cur_proc k;
         if checkperm \<and> e \<noteq> cur_env \<and> env_parent_id (envs k1 e) \<noteq> env_id (envs k1 cur_env)
         then Some (E_BAD_ENV, NULL, k1)
         else Some (0, e, k1)
       })"

section \<open>The clock interrupt\<close>

definition on_ws_element :: "ptr \<Rightarrow> (ws_element \<Rightarrow> ws_element) \<Rightarrow> kern \<Rightarrow> kern" where
  "on_ws_element w f k = k\<lparr>ws_elements := (ws_elements k)(w := f (ws_elements k w))\<rparr>"

text \<open>A missing page table gives permissions \<open>- 1\<close>, and then the update of the page table entry panics.\<close>

definition age_page :: "ptr \<Rightarrow> ptr \<Rightarrow> kern \<Rightarrow> (bool \<times> kern) option" where
  "age_page dir w k = do {
     let page_va = ws_virtual_address (ws_elements k w);
     perm \<leftarrow> pt_get_page_permissions dir page_va k;
     let oldTimeStamp = time_stamp (ws_elements k w);
     if perm AND PERM_USED \<noteq> 0 then do {
       k1 \<leftarrow> pt_set_page_permissions dir page_va 0 PERM_USED
              (on_ws_element w (\<lambda>x. x\<lparr>time_stamp := drop_bit 2 oldTimeStamp OR 0x80000000\<rparr>) k);
       Some (False, k1)
     }
     else Some (False, on_ws_element w (\<lambda>x. x\<lparr>time_stamp := drop_bit 2 oldTimeStamp\<rparr>) k)
   }"

text \<open>The table working set is an array of \<^verbatim>\<open>__TWS_MAX_SIZE\<close> elements in the process.\<close>

definition TWS_MAX_SIZE :: nat where
  "TWS_MAX_SIZE = 50"

definition set_tws :: "ptr \<Rightarrow> nat \<Rightarrow> (ws_element \<Rightarrow> ws_element) \<Rightarrow> kern \<Rightarrow> kern" where
  "set_tws e t f = update_env e (\<lambda>x. x\<lparr>ptr_tws := (ptr_tws x)(t := f (ptr_tws x t))\<rparr>)"

definition age_table :: "ptr \<Rightarrow> nat \<Rightarrow> kern \<Rightarrow> kern" where
  "age_table e t k =
    (let w = ptr_tws (envs k e) t in
     if ws_empty w \<noteq> 1 then
       let table_va = ws_virtual_address w;
           oldTimeStamp = time_stamp w
       in
       if pd_is_table_used (env_page_directory (envs k e)) table_va k \<noteq> 0
       then pd_set_table_unused (env_page_directory (envs k e)) table_va
              (set_tws e t (\<lambda>x. x\<lparr>time_stamp := drop_bit 2 oldTimeStamp OR 0x80000000\<rparr>) k)
       else set_tws e t (\<lambda>x. x\<lparr>time_stamp := drop_bit 2 oldTimeStamp\<rparr>) k
     else k)"

definition update_WS_time_stamps :: "kern \<Rightarrow> kern option" where
  "update_WS_time_stamps k = do {
     (e, k1) \<leftarrow> cur_proc k;
     if e = NULL then Some k1
     else do {
       (_, k2) \<leftarrow> LIST_FOREACH (\<lambda>k w. ws_next (ws_elements k w)) (\<lambda>w k. age_page (env_page_directory (envs k e)) w k)
         (lh_first (page_WS_list (envs k1 e))) k1;
       Some (fold (age_table e) [0..<TWS_MAX_SIZE] k2)
     }
   }"

abbreviation "PG_REP_LRU_TIME_APPROX \<equiv> 0x1 :: u32"

definition clock_interrupt_handler :: "kern \<Rightarrow> outcome option" where
  "clock_interrupt_handler k =
    (if scheduler_method k = SCH_PRIRR then None
     else do {
       (p, k1) \<leftarrow> cur_proc (k\<lparr>ticks := ticks k + 1\<rparr>);
       if p = NULL then Some (Returns k1)
       else do {
         let k2 = update_env p (\<lambda>x. x\<lparr>nClocks := nClocks x + 1\<rparr>) k1;
         k3 \<leftarrow> (if PageRepAlgoType k2 = PG_REP_LRU_TIME_APPROX then update_WS_time_stamps k2 else Some k2);
         yield k3
       }
     })"

end
