(* ===== verification/FOS_DynAlloc.thy ===== *)
theory FOS_DynAlloc
  imports FOS_Mem
begin

text \<open>
  The block allocator of \<^verbatim>\<open>lib/dynamic_allocator.c\<close>, used by the kernel heap
  (\<^verbatim>\<open>kmalloc\<close>) and the user heap (\<^verbatim>\<open>malloc\<close>) alike.

  Everything the C code keeps in memory is in the byte memory: the BEGIN and END markers, the
  header and footer word of every block (the block's size with the low bit as allocation
  flag), and the free-list links inside the payload of the free blocks. The globals
  \<^verbatim>\<open>freeBlocksList\<close> and \<^verbatim>\<open>is_initialized\<close> are record fields. \<^verbatim>\<open>sbrk\<close> is
  provided by the kernel or by a system call, so it is a parameter of the routines that
  call it: given a page count it returns an address, and may change the memory and the
  provider's own state \<open>'w\<close>.
\<close>

section \<open>State\<close>

record 'w da =
  da_mem :: memory
  freeBlocksList :: list_head
  is_initialized :: bool
  da_world :: 'w

type_synonym 'w sbrk_fun = "u32 \<Rightarrow> memory \<Rightarrow> 'w \<Rightarrow> (u32 \<times> memory \<times> 'w) option"

definition call_sbrk :: "'w sbrk_fun \<Rightarrow> u32 \<Rightarrow> 'w da \<Rightarrow> (u32 \<times> 'w da) option" where
  "call_sbrk sbrk n s = do {
     (a, m, w) \<leftarrow> sbrk n (da_mem s) (da_world s);
     Some (a, s\<lparr>da_mem := m, da_world := w\<rparr>)
   }"

definition on_free_list ::
  "(list_head \<Rightarrow> memory \<Rightarrow> (list_head \<times> memory) option) \<Rightarrow> 'w da \<Rightarrow> 'w da option" where
  "on_free_list f s = do {
     (h, m) \<leftarrow> f (freeBlocksList s) (da_mem s);
     Some (s\<lparr>freeBlocksList := h, da_mem := m\<rparr>)
   }"

section \<open>Block headers\<close>

definition get_block_size :: "u32 \<Rightarrow> memory \<Rightarrow> u32" where
  "get_block_size va m = load32 m (va - 4) AND NOT 1"

definition is_free_block :: "u32 \<Rightarrow> memory \<Rightarrow> u8" where
  "is_free_block va m = ucast (NOT (load32 m (va - 4)) AND 1)"

text \<open>\<^verbatim>\<open>isAllocated\<close> is a C \<^verbatim>\<open>bool\<close>, or-ed into the size.\<close>

definition set_block_data :: "u32 \<Rightarrow> u32 \<Rightarrow> u32 \<Rightarrow> memory \<Rightarrow> memory" where
  "set_block_data va totalSize isAllocated m =
    (let totalSize = (if totalSize mod 2 \<noteq> 0 \<and> isAllocated = 0 then totalSize + 1 else totalSize) in
     if totalSize < 16 then m
     else
       let header = va - 4;
           m1 = store32 header (totalSize OR isAllocated) m;
           footer = va + totalSize - 8
       in store32 footer (totalSize OR isAllocated) m1)"

section \<open>Initialisation\<close>

definition initialize_dynamic_allocator :: "u32 \<Rightarrow> u32 \<Rightarrow> 'w da \<Rightarrow> 'w da option" where
  "initialize_dynamic_allocator daStart initSize s =
    (let initSize = (if initSize mod 2 \<noteq> 0 then initSize + 1 else initSize) in
     if initSize = 0 then Some s
     else
       let initSize = (if initSize < 24 then 24 else initSize);
           s1 = s\<lparr>is_initialized := True, freeBlocksList := LIST_INIT (freeBlocksList s)\<rparr>;
           m1 = store32 daStart 1 (da_mem s1);
           m2 = store32 (daStart + initSize - 4) 1 m1;
           m3 = store32 (daStart + 4) (initSize - 8) m2;
           m4 = store32 (daStart + initSize - 8) (initSize - 8) m3;
           first_block = daStart + 8
       in on_free_list (LIST_INSERT_HEAD mem_links first_block) (s1\<lparr>da_mem := m4\<rparr>))"

section \<open>Placing a request in a free block\<close>

text \<open>
  \<open>take_block sz diff element\<close> turns the free block at \<open>element\<close> into an allocated
  one, \<open>diff\<close> being what its header holds beyond the request: less than 16 bytes stay as
  padding, otherwise the rest becomes a new free block in its place on the list. It is the
  body of the loop of the first-fit routine and the tail of the best-fit routine.
\<close>

definition take_block :: "u32 \<Rightarrow> u32 \<Rightarrow> ptr \<Rightarrow> 'w da \<Rightarrow> 'w da option" where
  "take_block sz diff element s =
    (let m = da_mem s;
         header = element - 4;
         footer = element + load32 m header - 8
     in
     if diff < 16 then
       let m1 = store32 header (load32 m header OR 1) m;
           m2 = store32 footer (load32 m1 footer OR 1) m1
       in on_free_list (LIST_REMOVE mem_links element) (s\<lparr>da_mem := m2\<rparr>)
     else
       let footer_new = footer;
           footer = element + sz;
           header_new = footer + 4;
           m1 = store32 footer ((sz + 8) OR 1) m;
           m2 = store32 header ((sz + 8) OR 1) m1;
           m3 = store32 header_new (diff OR 0) m2;
           m4 = store32 footer_new (diff OR 0) m3;
           splittedBlock = header_new + 4
       in do {
         s1 \<leftarrow> on_free_list (LIST_INSERT_AFTER mem_links element splittedBlock) (s\<lparr>da_mem := m4\<rparr>);
         on_free_list (LIST_REMOVE mem_links element) s1
       })"

section \<open>Freeing with coalescing\<close>

definition unmark_block :: "u32 \<Rightarrow> u32 \<Rightarrow> memory \<Rightarrow> memory" where
  "unmark_block header footer m =
    (let m1 = store32 header (load32 m header - 1) m
     in store32 footer (load32 m1 footer - 1) m1)"

text \<open>Both neighbours are allocated or heap borders: the block joins the list by address.\<close>

definition free_isolated :: "u32 \<Rightarrow> u32 \<Rightarrow> u32 \<Rightarrow> 'w da \<Rightarrow> 'w da option" where
  "free_isolated va footer_prev header_next s =
    (let fp = load32 (da_mem s) footer_prev; hn = load32 (da_mem s) header_next in
     if fp = 1 \<and> hn mod 2 \<noteq> 0 then on_free_list (LIST_INSERT_HEAD mem_links va) s
     else if fp mod 2 \<noteq> 0 \<and> hn = 1 then on_free_list (LIST_INSERT_TAIL mem_links va) s
     else do {
       (element, s1) \<leftarrow> LIST_FOREACH (\<lambda>s. load32 (da_mem s))
         (\<lambda>element s. if element > va
            then do { s' \<leftarrow> on_free_list (LIST_INSERT_BEFORE mem_links element va) s; Some (True, s') }
            else Some (False, s))
         (lh_first (freeBlocksList s)) s;
       if element = NULL then on_free_list (LIST_INSERT_TAIL mem_links va) s1 else Some s1
     })"

definition merge_prev :: "u32 \<Rightarrow> u32 \<Rightarrow> u32 \<Rightarrow> u32 \<Rightarrow> memory \<Rightarrow> memory" where
  "merge_prev va header footer footer_prev m =
    (let header_prev = va - 4 - load32 m footer_prev;
         m1 = store32 header_prev (load32 m header + load32 m footer_prev) m
     in store32 footer (load32 m1 header_prev) m1)"

definition merge_next :: "u32 \<Rightarrow> u32 \<Rightarrow> 'w da \<Rightarrow> 'w da option" where
  "merge_next header header_next s =
    (let m = da_mem s;
         m1 = store32 header (load32 m header + load32 m header_next) m;
         footer_next = header_next + load32 m1 header_next - 4;
         m2 = store32 footer_next (load32 m1 header) m1;
         mergedBlock = header + 4;
         already_freeBlock = header_next + 4
     in do {
       s1 \<leftarrow> on_free_list (LIST_INSERT_BEFORE mem_links already_freeBlock mergedBlock) (s\<lparr>da_mem := m2\<rparr>);
       on_free_list (LIST_REMOVE mem_links already_freeBlock) s1
     })"

definition merge_both :: "u32 \<Rightarrow> u32 \<Rightarrow> u32 \<Rightarrow> u32 \<Rightarrow> 'w da \<Rightarrow> 'w da option" where
  "merge_both va header footer_prev header_next s =
    (let m = da_mem s;
         header_prev = va - 4 - load32 m footer_prev;
         m1 = store32 header_prev (load32 m header_prev + load32 m header + load32 m header_next) m;
         footer_next = header_next + load32 m1 header_next - 4;
         m2 = store32 footer_next (load32 m1 header_prev) m1;
         removed_block = header_next + 4
     in on_free_list (LIST_REMOVE mem_links removed_block) (s\<lparr>da_mem := m2\<rparr>))"

definition free_block :: "u32 \<Rightarrow> 'w da \<Rightarrow> 'w da option" where
  "free_block va s =
    (if va = NULL then Some s
     else
       let m = da_mem s;
           header = va - 4;
           actualSize = load32 m header - 1;
           footer = va + actualSize - 8
       in
       if load32 m header mod 2 = 0 then Some s
       else
         let footer_prev = va - 8;
             header_next = va + actualSize - 4;
             fp = load32 m footer_prev;
             hn = load32 m header_next;
             s1 = s\<lparr>da_mem := unmark_block header footer m\<rparr>
         in
         if fp mod 2 \<noteq> 0 \<and> hn mod 2 \<noteq> 0 \<or> fp = 1 \<and> hn mod 2 \<noteq> 0 \<or> fp mod 2 \<noteq> 0 \<and> hn = 1
         then free_isolated va footer_prev header_next s1
         else if fp mod 2 = 0 \<and> hn mod 2 \<noteq> 0 \<or> fp mod 2 = 0 \<and> hn mod 2 = 1
         then Some (s1\<lparr>da_mem := merge_prev va header footer footer_prev (da_mem s1)\<rparr>)
         else if fp mod 2 \<noteq> 0 \<and> hn mod 2 = 0 \<or> fp = 1 \<and> hn mod 2 = 0
         then merge_next header header_next s1
         else merge_both va header footer_prev header_next s1)"

section \<open>First fit and best fit\<close>

text \<open>
  Both routines round the request up to an even size of at least 8 bytes (in \<^verbatim>\<open>uint32\<close>
  arithmetic) and initialise the allocator from \<^verbatim>\<open>sbrk\<close> when nobody has.
\<close>

definition adjust_size :: "u32 \<Rightarrow> u32" where
  "adjust_size sz =
    (let sz = (if sz mod 2 \<noteq> 0 then sz + 1 else sz) in if sz < 8 then 8 else sz)"

definition lazy_init :: "'w sbrk_fun \<Rightarrow> u32 \<Rightarrow> 'w da \<Rightarrow> 'w da option" where
  "lazy_init sbrk sz s =
    (if is_initialized s then Some s
     else do {
       let required_size = sz + 2 * 4 + 2 * 4;
       (da_start, s1) \<leftarrow> call_sbrk sbrk (ROUNDUP required_size PAGE_SIZE div PAGE_SIZE) s;
       (da_break, s2) \<leftarrow> call_sbrk sbrk 0 s1;
       initialize_dynamic_allocator da_start (da_break - da_start) s2
     })"

text \<open>
  No free block is large enough: whole pages are appended at the break. The old END marker
  becomes the header of a block made to look allocated, a new END marker is written behind it,
  and \<open>free_block\<close> merges it with a free predecessor. The flag says whether
  \<^verbatim>\<open>sbrk\<close> succeeded.
\<close>

definition grow_heap :: "'w sbrk_fun \<Rightarrow> u32 \<Rightarrow> 'w da \<Rightarrow> (bool \<times> 'w da) option" where
  "grow_heap sbrk totalBlockSize s = do {
     let totalBlockSize = ROUNDUP totalBlockSize PAGE_SIZE;
     let noPages = totalBlockSize div PAGE_SIZE;
     (addr, s1) \<leftarrow> call_sbrk sbrk noPages s;
     if addr = - 1 then Some (False, s1)
     else do {
       let header_newBlock = addr - 4;
       let footer_newBlock = header_newBlock + totalBlockSize - 8;
       let m1 = store32 header_newBlock ((noPages * PAGE_SIZE) OR 1) (da_mem s1);
       let m2 = store32 footer_newBlock ((noPages * PAGE_SIZE) OR 1) m1;
       let END_BLOCK = header_newBlock + totalBlockSize;
       let m3 = store32 END_BLOCK (0 OR 1) m2;
       s2 \<leftarrow> free_block addr (s1\<lparr>da_mem := m3\<rparr>);
       Some (True, s2)
     }
   }"

definition FF_step :: "u32 \<Rightarrow> ptr \<Rightarrow> 'w da \<Rightarrow> (bool \<times> 'w da) option" where
  "FF_step sz element s =
    (let totalBlockSize = sz + 8; hdr = load32 (da_mem s) (element - 4) in
     if hdr \<ge> totalBlockSize
     then do { s' \<leftarrow> take_block sz (hdr - totalBlockSize) element s; Some (True, s') }
     else Some (False, s))"

partial_function (option) alloc_block_FF ::
  "'w sbrk_fun \<Rightarrow> u32 \<Rightarrow> 'w da \<Rightarrow> (ptr \<times> 'w da) option" where
  "alloc_block_FF sbrk sz s =
    (if sz = 0 then Some (NULL, s)
     else do {
       let sz = adjust_size sz;
       s1 \<leftarrow> lazy_init sbrk sz s;
       (element, s2) \<leftarrow> LIST_FOREACH (\<lambda>s. load32 (da_mem s)) (FF_step sz)
                          (lh_first (freeBlocksList s1)) s1;
       if element \<noteq> NULL then Some (element, s2)
       else do {
         (ok, s3) \<leftarrow> grow_heap sbrk (sz + 8) s2;
         if ok then alloc_block_FF sbrk sz s3 else Some (NULL, s3)
       }
     })"

text \<open>
  The best-fit scan keeps the smallest excess seen so far and the block it belongs to, and
  stops at an exact fit. \<open>None\<close> stands for \<^verbatim>\<open>found_flag = 0\<close>.
\<close>

definition BF_step ::
  "u32 \<Rightarrow> ptr \<Rightarrow> (u32 \<times> ptr) option \<times> memory \<Rightarrow> (bool \<times> (u32 \<times> ptr) option \<times> memory) option" where
  "BF_step sz element st =
    (let (best, m) = st; totalBlockSize = sz + 8; hdr = load32 m (element - 4) in
     case best of
       None \<Rightarrow>
         (if hdr \<ge> totalBlockSize
          then Some (hdr - totalBlockSize = 0, Some (hdr - totalBlockSize, element), m)
          else Some (False, None, m))
     | Some (minSizeAllocate, blockAddress) \<Rightarrow>
         (if hdr \<ge> totalBlockSize \<and> hdr - totalBlockSize < minSizeAllocate
          then Some (hdr - totalBlockSize = 0, Some (hdr - totalBlockSize, element), m)
          else Some (False, Some (minSizeAllocate, blockAddress), m)))"

partial_function (option) alloc_block_BF ::
  "'w sbrk_fun \<Rightarrow> u32 \<Rightarrow> 'w da \<Rightarrow> (ptr \<times> 'w da) option" where
  "alloc_block_BF sbrk sz s =
    (if sz = 0 then Some (NULL, s)
     else do {
       let sz = adjust_size sz;
       s1 \<leftarrow> lazy_init sbrk sz s;
       (_, best, _) \<leftarrow> LIST_FOREACH (\<lambda>st. load32 (snd st)) (BF_step sz)
                          (lh_first (freeBlocksList s1)) (None, da_mem s1);
       case best of
         None \<Rightarrow> do {
           (ok, s2) \<leftarrow> grow_heap sbrk (sz + 8) s1;
           if ok then alloc_block_BF sbrk sz s2 else Some (NULL, s2)
         }
       | Some (minSizeAllocate, blockAddress) \<Rightarrow> do {
           s2 \<leftarrow> take_block sz minSizeAllocate blockAddress s1;
           Some (blockAddress, s2)
         }
     })"

text \<open>Worst fit and next fit panic; an unknown strategy returns \<^verbatim>\<open>NULL\<close>.\<close>

definition alloc_block_WF :: "u32 \<Rightarrow> 'w da \<Rightarrow> (ptr \<times> 'w da) option" where
  "alloc_block_WF sz s = None"

definition alloc_block_NF :: "u32 \<Rightarrow> 'w da \<Rightarrow> (ptr \<times> 'w da) option" where
  "alloc_block_NF sz s = None"

definition alloc_block :: "'w sbrk_fun \<Rightarrow> u32 \<Rightarrow> int \<Rightarrow> 'w da \<Rightarrow> (ptr \<times> 'w da) option" where
  "alloc_block sbrk sz ALLOC_STRATEGY s =
    (if ALLOC_STRATEGY = 1 then alloc_block_FF sbrk sz s
     else if ALLOC_STRATEGY = 2 then alloc_block_NF sz s
     else if ALLOC_STRATEGY = 3 then alloc_block_BF sbrk sz s
     else if ALLOC_STRATEGY = 4 then alloc_block_WF sz s
     else Some (NULL, s))"

section \<open>Reallocation\<close>

text \<open>
  The block \<open>blk\<close> shrinks to payload \<open>new_size\<close> in place: its footer moves, and the
  \<open>differenceBytes\<close> behind it get a header and a footer (\<open>footer_new\<close>, the old
  footer) of an allocated block, which the caller then frees.
\<close>

definition cut_block :: "u32 \<Rightarrow> u32 \<Rightarrow> u32 \<Rightarrow> ptr \<Rightarrow> memory \<Rightarrow> memory" where
  "cut_block new_size differenceBytes footer_new blk m =
    (let header = blk - 4;
         footer = blk + new_size;
         header_new = footer + 4;
         m1 = store32 footer ((new_size + 8) OR 1) m;
         m2 = store32 header ((new_size + 8) OR 1) m1;
         m3 = store32 header_new (differenceBytes OR 1) m2
     in store32 footer_new (differenceBytes OR 1) m3)"

text \<open>\<open>blk\<close> is a free block: it is taken as it is, or a new block is allocated.\<close>

definition realloc_free_block ::
  "'w sbrk_fun \<Rightarrow> ptr \<Rightarrow> u32 \<Rightarrow> 'w da \<Rightarrow> (ptr \<times> 'w da) option" where
  "realloc_free_block sbrk blk new_size s =
    (let m = da_mem s;
         header = blk - 4;
         hdr = load32 m header;
         footer = blk + hdr - 8;
         requiredBlockTotalSize = new_size + 8;
         m1 = store32 header (hdr OR 1) m;
         taken = store32 footer (load32 m1 footer OR 1) m1
     in
     if hdr = requiredBlockTotalSize then do {
       s1 \<leftarrow> on_free_list (LIST_REMOVE mem_links blk) (s\<lparr>da_mem := taken\<rparr>);
       Some (blk, s1)
     }
     else if hdr < requiredBlockTotalSize then alloc_block_FF sbrk new_size s
     else
       let differenceBytes = hdr - requiredBlockTotalSize in
       if differenceBytes < 16 then do {
         s1 \<leftarrow> on_free_list (LIST_REMOVE mem_links blk) (s\<lparr>da_mem := taken\<rparr>);
         Some (blk, s1)
       }
       else do {
         s1 \<leftarrow> on_free_list (LIST_REMOVE mem_links blk)
                 (s\<lparr>da_mem := cut_block new_size differenceBytes footer blk m\<rparr>);
         s2 \<leftarrow> free_block (blk + new_size + 4 + 4) s1;
         Some (blk, s2)
       })"

definition realloc_shrink ::
  "ptr \<Rightarrow> u32 \<Rightarrow> u32 \<Rightarrow> 'w da \<Rightarrow> (ptr \<times> 'w da) option" where
  "realloc_shrink blk new_size actualSize s =
    (let m = da_mem s;
         footer = blk + actualSize - 8;
         requiredBlockTotalSize = new_size + 8;
         differenceBytes = actualSize - requiredBlockTotalSize;
         header_next = blk + requiredBlockTotalSize - 4
     in
     if differenceBytes < 16 \<and>
        \<not> (load32 m header_next \<noteq> 1 \<and> load32 m header_next mod 2 = 0)
     then Some (blk, s)
     else do {
       s1 \<leftarrow> free_block (blk + new_size + 4 + 4)
               (s\<lparr>da_mem := cut_block new_size differenceBytes footer blk m\<rparr>);
       Some (blk, s1)
     })"

text \<open>Growing into the free block behind \<open>blk\<close>, when the two together are large enough.\<close>

definition realloc_extend ::
  "ptr \<Rightarrow> u32 \<Rightarrow> u32 \<Rightarrow> u32 \<Rightarrow> u32 \<Rightarrow> 'w da \<Rightarrow> (ptr \<times> 'w da) option" where
  "realloc_extend blk new_size differenceBytes header_next footer_next s =
    (let m = da_mem s;
         header = blk - 4;
         WholeFreeBlock = header_next + 4
     in
     if differenceBytes < 16 then
       let m1 = store32 header (load32 m header + load32 m header_next) m;
           m2 = store32 footer_next (load32 m1 header) m1
       in do {
         s1 \<leftarrow> on_free_list (LIST_REMOVE mem_links (header_next + 4)) (s\<lparr>da_mem := m2\<rparr>);
         Some (blk, s1)
       }
     else
       let footer_split = footer_next;
           footer = blk + new_size;
           header_split = footer + 4;
           m1 = store32 footer ((new_size + 8) OR 1) m;
           m2 = store32 header ((new_size + 8) OR 1) m1;
           m3 = store32 header_split (differenceBytes OR 0) m2;
           m4 = store32 footer_split (differenceBytes OR 0) m3;
           splittedBlock = header_split + 4
       in do {
         s1 \<leftarrow> on_free_list (LIST_INSERT_AFTER mem_links WholeFreeBlock splittedBlock)
                 (s\<lparr>da_mem := m4\<rparr>);
         s2 \<leftarrow> on_free_list (LIST_REMOVE mem_links WholeFreeBlock) s1;
         Some (blk, s2)
       })"

definition realloc_move ::
  "'w sbrk_fun \<Rightarrow> ptr \<Rightarrow> u32 \<Rightarrow> 'w da \<Rightarrow> (ptr \<times> 'w da) option" where
  "realloc_move sbrk blk new_size s = do {
     (block_addr, s1) \<leftarrow> alloc_block_FF sbrk new_size s;
     if block_addr \<noteq> NULL then do {
       let noCopiedBytes = load32 (da_mem s1) (blk - 4) - 9;
       s2 \<leftarrow> free_block blk (s1\<lparr>da_mem := memcpy block_addr blk noCopiedBytes (da_mem s1)\<rparr>);
       Some (block_addr, s2)
     }
     else Some (block_addr, s1)
   }"

definition realloc_grow ::
  "'w sbrk_fun \<Rightarrow> ptr \<Rightarrow> u32 \<Rightarrow> u32 \<Rightarrow> 'w da \<Rightarrow> (ptr \<times> 'w da) option" where
  "realloc_grow sbrk blk new_size actualSize s =
    (let m = da_mem s;
         requiredBlockTotalSize = new_size + 8;
         header_next = blk + actualSize - 4;
         hn = load32 m header_next;
         footer_next = (if hn mod 2 = 0 then header_next + hn - 4 else header_next + hn - 5);
         totalTwoBlocksSize = actualSize + hn
     in
     if hn \<noteq> 1 \<and> hn mod 2 = 0 \<and> totalTwoBlocksSize \<ge> requiredBlockTotalSize
     then realloc_extend blk new_size (totalTwoBlocksSize - requiredBlockTotalSize)
            header_next footer_next s
     else realloc_move sbrk blk new_size s)"

definition realloc_block_FF ::
  "'w sbrk_fun \<Rightarrow> ptr \<Rightarrow> u32 \<Rightarrow> 'w da \<Rightarrow> (ptr \<times> 'w da) option" where
  "realloc_block_FF sbrk va new_size s =
    (if new_size = 0 \<and> va \<noteq> NULL then do { s1 \<leftarrow> free_block va s; Some (NULL, s1) }
     else if va = NULL \<and> new_size \<noteq> 0 then alloc_block_FF sbrk new_size s
     else if va = NULL \<and> new_size = 0 then alloc_block_FF sbrk 0 s
     else
       let new_size = (if new_size mod 2 = 1 then new_size + 1 else new_size);
           hdr = load32 (da_mem s) (va - 4)
       in
       if hdr mod 2 = 0 then realloc_free_block sbrk va new_size s
       else
         let actualSize = hdr - 1;
             requiredBlockTotalSize = new_size + 8
         in
         if requiredBlockTotalSize = actualSize then Some (va, s)
         else if requiredBlockTotalSize < actualSize then realloc_shrink va new_size actualSize s
         else realloc_grow sbrk va new_size actualSize s)"

end
