(* ===== verification/FOS_KHeap.thy ===== *)
theory FOS_KHeap
  imports FOS_Paging FOS_DynAlloc
begin

text \<open>
  The kernel heap of \<^verbatim>\<open>kern/mem/kheap.c\<close>: a block allocator that grows by
  \<^verbatim>\<open>sbrk\<close> up to \<^verbatim>\<open>HARD_LIMIT\<close>, and behind it a page allocator that keeps
  its free runs of pages in a sorted list, with marks in the available bits of the page table
  entries of the first and the last page of an allocated run.

  The block allocator's routines run on the part of the kernel state they use (\<open>to_da\<close>);
  \<^verbatim>\<open>sbrk\<close> maps frames and leaves the heap bytes as they are. The branches on
  \<^verbatim>\<open>E_NO_MEM\<close> cannot be taken: \<^verbatim>\<open>allocate_frame\<close> and \<^verbatim>\<open>map_frame\<close> return 0 or
  panic. A store through the \<^verbatim>\<open>NULL\<close> of a failed allocation is \<open>None\<close>.
\<close>

section \<open>The block allocator on the kernel's state\<close>

definition to_da :: "kern \<Rightarrow> kern da" where
  "to_da k = \<lparr>da_mem = kmem k, freeBlocksList = kfreeBlocksList k, is_initialized = kda_initialized k, da_world = k\<rparr>"

definition of_da :: "kern da \<Rightarrow> kern" where
  "of_da s = (da_world s)\<lparr>kmem := da_mem s, kfreeBlocksList := freeBlocksList s, kda_initialized := is_initialized s\<rparr>"

definition kfree_block :: "u32 \<Rightarrow> kern \<Rightarrow> kern option" where
  "kfree_block va k = do { s \<leftarrow> free_block va (to_da k); Some (of_da s) }"

section \<open>Mapping new frames\<close>

text \<open>
  \<open>n\<close> rounds of the loop that allocates a frame and maps it at the next page;
  \<open>perm\<close> gives the permissions from the number of the page in the loop.
\<close>

primrec map_new_frames :: "(u32 \<Rightarrow> u32) \<Rightarrow> u32 \<Rightarrow> u32 \<Rightarrow> nat \<Rightarrow> kern \<Rightarrow> kern option" where
  "map_new_frames perm page_no va 0 k = Some k"
| "map_new_frames perm page_no va (Suc n) k = do {
     (f, k1) \<leftarrow> allocate_frame k;
     k2 \<leftarrow> map_frame_with nested_create (ptr_page_directory k1) f va (perm page_no) k1;
     map_new_frames perm (page_no + 1) (va + PAGE_SIZE) n k2
   }"

definition map_new_frames_locked :: "(u32 \<Rightarrow> u32) \<Rightarrow> u32 \<Rightarrow> u32 \<Rightarrow> kern \<Rightarrow> kern option" where
  "map_new_frames_locked perm va n k = do {
     k1 \<leftarrow> acquire_mfllock k;
     k2 \<leftarrow> map_new_frames perm 1 va (unat n) k1;
     release_mfllock k2
   }"

definition initialize_kheap_dynamic_allocator :: "u32 \<Rightarrow> u32 \<Rightarrow> u32 \<Rightarrow> kern \<Rightarrow> kern option" where
  "initialize_kheap_dynamic_allocator daStart initSizeToAllocate daLimit k = do {
     let initSize = ROUNDUP initSizeToAllocate PAGE_SIZE;
     let k1 = k\<lparr>START_KHEAP_BLOCK_ALLOCATOR := daStart, BRK := daStart + initSize, HARD_LIMIT := daLimit\<rparr>;
     if BRK k1 - 1 \<ge> HARD_LIMIT k1 then None
     else do {
       let noPages = initSize div PAGE_SIZE;
       if lh_size (free_frame_list k1) < noPages then None
       else do {
         k2 \<leftarrow> map_new_frames_locked (\<lambda>_. PERM_PRESENT OR PERM_WRITEABLE) daStart noPages k1;
         s \<leftarrow> initialize_dynamic_allocator daStart initSize (to_da k2);
         Some ((of_da s)\<lparr>KH_page_allocator_flag := 0\<rparr>)
       }
     }
   }"

definition sbrk :: "u32 \<Rightarrow> kern \<Rightarrow> (u32 \<times> kern) option" where
  "sbrk numOfPages k =
    (if sint numOfPages \<le> 0 then Some (BRK k, k)
     else
       let noBytes = numOfPages * PAGE_SIZE in
       if BRK k + noBytes - 1 \<ge> HARD_LIMIT k then Some (- 1, k)
       else if lh_size (free_frame_list k) < numOfPages then Some (- 1, k)
       else do {
         k1 \<leftarrow> map_new_frames_locked (\<lambda>_. PERM_PRESENT OR PERM_WRITEABLE) (BRK k) numOfPages k;
         let old_BRK = BRK k1;
         Some (old_BRK, k1\<lparr>BRK := BRK k1 + numOfPages * PAGE_SIZE\<rparr>)
       })"

text \<open>
  The allocator holds the heap's memory while it runs: \<^verbatim>\<open>sbrk\<close> sees that memory, and the
  \<open>kmem\<close> of the kernel state behind it is out of use until \<open>of_da\<close>.
\<close>

definition kernel_sbrk :: "kern sbrk_fun" where
  "kernel_sbrk n m k = do { (a, k1) \<leftarrow> sbrk n (k\<lparr>kmem := m\<rparr>); Some (a, kmem k1, k1\<lparr>kmem := kmem k\<rparr>) }"

section \<open>Kernel heap allocation\<close>

abbreviation "DYN_ALLOC_MAX_BLOCK_SIZE \<equiv> 2048 :: u32"
abbreviation "KHP_PLACE_FIRSTFIT \<equiv> 1 :: u32"
abbreviation "KHP_PLACE_BESTFIT \<equiv> 2 :: u32"

text \<open>The branch of \<^verbatim>\<open>kmalloc\<close> for at most 2 KB.\<close>

definition kmalloc_block :: "u32 \<Rightarrow> kern \<Rightarrow> (ptr \<times> kern) option" where
  "kmalloc_block sz k =
    (if KHeapPlacementStrategy k = KHP_PLACE_FIRSTFIT then do {
       (p, s) \<leftarrow> alloc_block_FF kernel_sbrk sz (to_da k); Some (p, of_da s) }
     else if KHeapPlacementStrategy k = KHP_PLACE_BESTFIT then do {
       (p, s) \<leftarrow> alloc_block_BF kernel_sbrk sz (to_da k); Some (p, of_da s) }
     else Some (NULL, k))"

text \<open>
  \<^verbatim>\<open>struct FreePagesInfo\<close> in the heap memory: \<^verbatim>\<open>va\<close> at 0, \<^verbatim>\<open>no_consecutive_pages\<close> at 4,
  the links at 8 and 12.
\<close>

definition page_links :: "memory link_ops" where
  "page_links = \<lparr>le_next = (\<lambda>m x. load32 m (x + 8)), set_le_next = (\<lambda>x v. store32 (x + 8) v),
     le_prev = (\<lambda>m x. load32 m (x + 12)), set_le_prev = (\<lambda>x v. store32 (x + 12) v)\<rparr>"

definition pages_va :: "kern \<Rightarrow> ptr \<Rightarrow> u32" where
  "pages_va k p = load32 (kmem k) p"

definition no_consecutive_pages :: "kern \<Rightarrow> ptr \<Rightarrow> u32" where
  "no_consecutive_pages k p = load32 (kmem k) (p + 4)"

definition set_pages_va :: "ptr \<Rightarrow> u32 \<Rightarrow> kern \<Rightarrow> kern" where
  "set_pages_va p v k = k\<lparr>kmem := store32 p v (kmem k)\<rparr>"

definition set_no_consecutive_pages :: "ptr \<Rightarrow> u32 \<Rightarrow> kern \<Rightarrow> kern" where
  "set_no_consecutive_pages p n k = k\<lparr>kmem := store32 (p + 4) n (kmem k)\<rparr>"

definition on_free_pages ::
  "(list_head \<Rightarrow> memory \<Rightarrow> (list_head \<times> memory) option) \<Rightarrow> kern \<Rightarrow> kern option" where
  "on_free_pages f k = do {
     (h, m) \<leftarrow> f (freePagesList_KH k) (kmem k);
     Some (k\<lparr>freePagesList_KH := h, kmem := m\<rparr>)
   }"

text \<open>\<^verbatim>\<open>kmalloc(sizeof(struct FreePagesInfo))\<close> and the two stores into the result.\<close>

definition new_pages_info :: "u32 \<Rightarrow> u32 \<Rightarrow> kern \<Rightarrow> (ptr \<times> kern) option" where
  "new_pages_info va n k = do {
     (p, k1) \<leftarrow> kmalloc_block 16 k;
     if p = NULL then None
     else Some (p, set_no_consecutive_pages p n (set_pages_va p va k1))
   }"

definition init_free_pages :: "kern \<Rightarrow> kern option" where
  "init_free_pages k =
    (if KH_page_allocator_flag k = 0 then do {
       let k1 = k\<lparr>freePagesList_KH := LIST_INIT (freePagesList_KH k)\<rparr>;
       let no_free_pages = ROUNDUP (KERNEL_HEAP_MAX - (HARD_LIMIT k + 4096)) PAGE_SIZE;
       (first_page, k2) \<leftarrow> new_pages_info (HARD_LIMIT k + PAGE_SIZE) (no_free_pages div PAGE_SIZE) k1;
       k3 \<leftarrow> on_free_pages (LIST_INSERT_HEAD page_links first_page) k2;
       Some (k3\<lparr>KH_page_allocator_flag := 1\<rparr>)
     }
     else Some k)"

text \<open>
  The scan for a free run: an exact fit is taken off the list, a longer run loses its first
  pages. The loop state has \<^verbatim>\<open>Begin_Page_Ptr\<close> first.
\<close>

definition take_pages_step :: "u32 \<Rightarrow> ptr \<Rightarrow> u32 \<times> kern \<Rightarrow> (bool \<times> u32 \<times> kern) option" where
  "take_pages_step noOfPages element st =
    (let (bp, k) = st in
     if no_consecutive_pages k element = noOfPages then do {
       let Begin_Page_Ptr = pages_va k element;
       k1 \<leftarrow> kfree_block element k;
       k2 \<leftarrow> on_free_pages (LIST_REMOVE page_links element) k1;
       Some (True, Begin_Page_Ptr, k2)
     }
     else if no_consecutive_pages k element > noOfPages then do {
       let Begin_Page_Ptr = pages_va k element;
       let k1 = set_pages_va element (pages_va k element + noOfPages * PAGE_SIZE) k;
       let k2 = set_no_consecutive_pages element (no_consecutive_pages k1 element - noOfPages) k1;
       Some (True, Begin_Page_Ptr, k2)
     }
     else Some (False, bp, k))"

definition take_pages :: "u32 \<Rightarrow> kern \<Rightarrow> (bool \<times> u32 \<times> kern) option" where
  "take_pages noOfPages k = do {
     (element, bp, k1) \<leftarrow> LIST_FOREACH (\<lambda>(bp, k) p. load32 (kmem k) (p + 8)) (take_pages_step noOfPages)
        (lh_first (freePagesList_KH k)) (NULL, k);
     Some (element \<noteq> NULL, bp, k1)
   }"

text \<open>The first and the last page of a run of several pages are marked.\<close>

definition run_permissions :: "u32 \<Rightarrow> u32 \<Rightarrow> u32" where
  "run_permissions noOfPages page_no =
    (if noOfPages = 1 then PERM_PRESENT OR PERM_WRITEABLE
     else if (page_no = 1 \<or> page_no = noOfPages) \<and> noOfPages > 1 then 0x200 OR PERM_PRESENT OR PERM_WRITEABLE
     else PERM_PRESENT OR PERM_WRITEABLE)"

definition kmalloc_pages :: "u32 \<Rightarrow> kern \<Rightarrow> (ptr \<times> kern) option" where
  "kmalloc_pages sz k = do {
     k1 \<leftarrow> init_free_pages k;
     let noOfPages = ROUNDUP sz PAGE_SIZE div PAGE_SIZE;
     if lh_size (free_frame_list k1) < noOfPages then Some (NULL, k1)
     else do {
       (isFound, Begin_Page_Ptr, k2) \<leftarrow> take_pages noOfPages k1;
       if \<not> isFound then Some (NULL, k2)
       else do {
         k3 \<leftarrow> map_new_frames_locked (run_permissions noOfPages) Begin_Page_Ptr noOfPages k2;
         Some (Begin_Page_Ptr, k3)
       }
     }
   }"

definition kmalloc :: "u32 \<Rightarrow> kern \<Rightarrow> (ptr \<times> kern) option" where
  "kmalloc sz k = (if sz \<le> DYN_ALLOC_MAX_BLOCK_SIZE then kmalloc_block sz k else kmalloc_pages sz k)"

section \<open>Freeing\<close>

text \<open>
  Unmapping a run: from a marked page up to the next marked page. The result is the address of
  the last page unmapped and the number of pages. Without a second mark the loop runs into an
  address that has no page table, which panics.
\<close>

partial_function (option) unmap_run :: "u32 \<Rightarrow> u32 \<Rightarrow> u32 \<Rightarrow> kern \<Rightarrow> (u32 \<times> u32 \<times> kern) option" where
  "unmap_run va page_no permissions k = do {
     let END_FLAG = (permissions AND 0x200 = 512 \<and> page_no > 1);
     k1 \<leftarrow> pt_set_page_permissions (ptr_page_directory k) va 0 PERM_AVAILABLE k;
     k2 \<leftarrow> unmap_frame (ptr_page_directory k1) va k1;
     if END_FLAG then Some (va, page_no, k2)
     else do {
       let va = va + PAGE_SIZE;
       permissions \<leftarrow> pt_get_page_permissions (ptr_page_directory k2) va k2;
       unmap_run va (page_no + 1) permissions k2
     }
   }"

text \<open>
  Putting the run from \<open>begin_page\<close> to \<open>last_page\<close> (which is \<^verbatim>\<open>NULL\<close> for a single page) back on the
  list before \<open>element\<close>, the first run behind it.
\<close>

definition free_pages_before :: "u32 \<Rightarrow> u32 \<Rightarrow> u32 \<Rightarrow> ptr \<Rightarrow> kern \<Rightarrow> kern option" where
  "free_pages_before begin_page last_page page_no element k =
    (let diff_right = (if page_no = 1 then pages_va k element - begin_page else pages_va k element - last_page) in
     if element = lh_first (freePagesList_KH k) then
       (if diff_right = PAGE_SIZE then
          let k1 = set_pages_va element begin_page k in
          Some (set_no_consecutive_pages element (no_consecutive_pages k1 element + page_no) k1)
        else do {
          (first_page, k1) \<leftarrow> new_pages_info begin_page page_no k;
          on_free_pages (LIST_INSERT_HEAD page_links first_page) k1
        })
     else
       let prev_page = load32 (kmem k) (element + 12);
           diff_left = begin_page - (pages_va k prev_page + (no_consecutive_pages k prev_page - 1) * PAGE_SIZE)
       in
       if diff_right = PAGE_SIZE \<and> diff_left \<noteq> PAGE_SIZE then
         let k1 = set_pages_va element begin_page k in
         Some (set_no_consecutive_pages element (no_consecutive_pages k1 element + page_no) k1)
       else if diff_right \<noteq> PAGE_SIZE \<and> diff_left = PAGE_SIZE then
         Some (set_no_consecutive_pages prev_page (no_consecutive_pages k prev_page + page_no) k)
       else if diff_right = PAGE_SIZE \<and> diff_left = PAGE_SIZE then do {
         let k1 = set_no_consecutive_pages prev_page
                    (no_consecutive_pages k prev_page + page_no + no_consecutive_pages k element) k;
         k2 \<leftarrow> kfree_block element k1;
         on_free_pages (LIST_REMOVE page_links element) k2
       }
       else do {
         (page_insert, k1) \<leftarrow> new_pages_info begin_page page_no k;
         on_free_pages (LIST_INSERT_BEFORE page_links element page_insert) k1
       })"

definition free_pages_at_end :: "u32 \<Rightarrow> u32 \<Rightarrow> kern \<Rightarrow> kern option" where
  "free_pages_at_end begin_page page_no k =
    (if lh_size (freePagesList_KH k) > 0 then
       let last_page = lh_last (freePagesList_KH k);
           diff_left = begin_page - (pages_va k last_page + (no_consecutive_pages k last_page - 1) * PAGE_SIZE)
       in
       if diff_left = PAGE_SIZE then
         Some (set_no_consecutive_pages last_page (no_consecutive_pages k last_page + page_no) k)
       else do {
         (p, k1) \<leftarrow> new_pages_info begin_page page_no k;
         on_free_pages (LIST_INSERT_TAIL page_links p) k1
       }
     else do {
       (p, k1) \<leftarrow> new_pages_info begin_page page_no k;
       on_free_pages (LIST_INSERT_HEAD page_links p) k1
     })"

definition free_pages_info :: "u32 \<Rightarrow> u32 \<Rightarrow> u32 \<Rightarrow> u32 \<Rightarrow> kern \<Rightarrow> kern option" where
  "free_pages_info va begin_page last_page page_no k = do {
     (element, k1) \<leftarrow> LIST_FOREACH (\<lambda>k p. load32 (kmem k) (p + 8))
       (\<lambda>element k.
          if va < pages_va k element
          then do { k1 \<leftarrow> free_pages_before begin_page last_page page_no element k; Some (True, k1) }
          else Some (False, k))
       (lh_first (freePagesList_KH k)) k;
     if element = NULL then free_pages_at_end begin_page page_no k1 else Some k1
   }"

definition kfree_pages :: "u32 \<Rightarrow> kern \<Rightarrow> kern option" where
  "kfree_pages va k = do {
     (_, _) \<leftarrow> get_page_table (ptr_page_directory k) va k;
     (f, t) \<leftarrow> get_frame_info (ptr_page_directory k) va k;
     if f = NULL then None
     else do {
       permissions \<leftarrow> pt_get_page_permissions (ptr_page_directory k) va k;
       k1 \<leftarrow> acquire_mfllock k;
       (last, page_no, k2) \<leftarrow>
         (if permissions AND 0x200 = 512 then unmap_run va 1 permissions k1
          else do {
            k2 \<leftarrow> pt_set_page_permissions (ptr_page_directory k1) va 0 PERM_AVAILABLE k1;
            k3 \<leftarrow> unmap_frame (ptr_page_directory k2) va k2;
            Some (va, 1, k3)
          });
       let last_page = (if permissions AND 0x200 = 512 then last else NULL);
       k3 \<leftarrow> release_mfllock k2;
       free_pages_info last va last_page page_no k3
     }
   }"

definition kfree :: "u32 \<Rightarrow> kern \<Rightarrow> kern option" where
  "kfree va k =
    (if va \<ge> START_KHEAP_BLOCK_ALLOCATOR k \<and> va < BRK k then kfree_block va k
     else if va \<ge> HARD_LIMIT k + 4 \<and> va < KERNEL_HEAP_MAX then kfree_pages va k
     else None)"

section \<open>Page tables of user environments\<close>

definition create_page_table :: create_fun where
  "create_page_table dir va k = do {
     (t, k1) \<leftarrow> kmalloc PAGE_SIZE k;
     if t = NULL then None
     else do {
       pa \<leftarrow> kheap_physical_address t k1;
       let k2 = set_word dir (PDX va) (CONSTRUCT_ENTRY pa (PERM_PRESENT OR PERM_USER OR PERM_WRITEABLE)) k1;
       Some (t, k2\<lparr>words := (words k2)(t := (\<lambda>i. if i < 1024 then 0 else words k2 t i))\<rparr>)
     }
   }"

definition map_frame :: "ptr \<Rightarrow> ptr \<Rightarrow> u32 \<Rightarrow> u32 \<Rightarrow> kern \<Rightarrow> kern option" where
  "map_frame = map_frame_with create_page_table"

definition loadtime_map_frame :: "ptr \<Rightarrow> ptr \<Rightarrow> u32 \<Rightarrow> u32 \<Rightarrow> kern \<Rightarrow> kern option" where
  "loadtime_map_frame = loadtime_map_frame_with create_page_table"

end
