(* ===== verification/FOS_PageFile.thy ===== *)
theory FOS_PageFile
  imports FOS_Sched FOS_KHeap
begin

text \<open>
  The page file of \<^verbatim>\<open>kern/disk/pagefile_manager.c\<close>: the free list of disk frames, and for each
  process a directory of tables that say in which disk frame a page of it is kept.

  A directory and its tables are arrays in the kernel heap, so they are \<open>words\<close>. The disk is the
  field \<open>disk_data\<close>; the driver panics when the device reports an error (\<open>disk_bad\<close>).
  Reads and writes at user addresses go through the page directory of the running process, as in
  the hardware; an access to a page that is not mapped is \<open>None\<close>.
\<close>

section \<open>Error codes and places\<close>

abbreviation "E_NO_MEM \<equiv> - 4 :: u32"
abbreviation "E_NO_PAGE_FILE_SPACE \<equiv> - 8 :: u32"
abbreviation "E_PAGE_NOT_EXIST_IN_PF \<equiv> - 9 :: u32"
abbreviation "E_TABLE_NOT_EXIST_IN_PF \<equiv> - 10 :: u32"
abbreviation "E_NO_VM \<equiv> - 20 :: u32"

text \<open>
  \<^verbatim>\<open>USTACKBOTTOM\<close> is the end of an area for one 24-byte \<^verbatim>\<open>WorkingSetElement\<close> per user page; the
  product \<^verbatim>\<open>24 * USER_TOP\<close> is computed in 32 bits.
\<close>

abbreviation "USTACKTOP \<equiv> 0xEEBFE000 :: u32"
abbreviation "PGFLTEMP \<equiv> 0x3FF000 :: u32"

definition USTACKBOTTOM :: u32 where
  "USTACKBOTTOM = ROUNDUP (USER_HEAP_MAX + 24 * USER_TOP div PAGE_SIZE) PAGE_SIZE"

section \<open>The disk\<close>

text \<open>The bytes of a page: at a kernel address, in a frame, and of a table of words.\<close>

type_synonym page_bytes = "u32 \<Rightarrow> u8"

definition kernel_page :: "ptr \<Rightarrow> kern \<Rightarrow> page_bytes" where
  "kernel_page a k = (\<lambda>off. kmem k (a + off))"

definition table_bytes :: "(u32 \<Rightarrow> u32) \<Rightarrow> page_bytes" where
  "table_bytes t = (\<lambda>off. ucast (drop_bit (8 * unat (off mod 4)) (t (off div 4))))"

definition bytes_table :: "page_bytes \<Rightarrow> u32 \<Rightarrow> u32" where
  "bytes_table b = (\<lambda>i. load32 b (4 * i))"

text \<open>The frame a user address is in, seen by the process that runs.\<close>

definition user_frame :: "u32 \<Rightarrow> kern \<Rightarrow> ptr option" where
  "user_frame va k = do {
     (f, t) \<leftarrow> get_frame_info (env_page_directory (envs k (cpu_proc (kcpu k)))) va k;
     if t = NULL \<or> words k t (PTX va) AND PERM_PRESENT = 0 then None else Some f
   }"

definition write_disk_page :: "u32 \<Rightarrow> page_bytes \<Rightarrow> kern \<Rightarrow> (u32 \<times> kern) option" where
  "write_disk_page dfn b k = (if disk_bad k dfn then None else Some (0, k\<lparr>disk_data := (disk_data k)(dfn := b)\<rparr>))"

definition read_disk_page :: "u32 \<Rightarrow> u32 \<Rightarrow> kern \<Rightarrow> (u32 \<times> kern) option" where
  "read_disk_page dfn va k =
    (if disk_bad k dfn then None
     else do {
       f \<leftarrow> user_frame va k;
       Some (0, k\<lparr>frame_data := (frame_data k)(f := disk_data k dfn)\<rparr>)
     })"

section \<open>Disk frames\<close>

definition acquire_dfllock :: "kern \<Rightarrow> kern option" where
  "acquire_dfllock k = do { (l, c) \<leftarrow> acquire_spinlock (dfllock k) (kcpu k); Some (k\<lparr>dfllock := l, kcpu := c\<rparr>) }"

definition release_dfllock :: "kern \<Rightarrow> kern option" where
  "release_dfllock k = do { (l, c) \<leftarrow> release_spinlock (dfllock k) (kcpu k); Some (k\<lparr>dfllock := l, kcpu := c\<rparr>) }"

definition to_disk_frame_number :: "ptr \<Rightarrow> kern \<Rightarrow> u32" where
  "to_disk_frame_number f k = (f - disk_frames_info k) div 32"

text \<open>The result: the return value, the number stored through \<^verbatim>\<open>dfn\<close> (its old value on failure) and the state.\<close>

definition allocate_disk_frame :: "u32 \<Rightarrow> kern \<Rightarrow> (u32 \<times> u32 \<times> kern) option" where
  "allocate_disk_frame dfn k = do {
     k1 \<leftarrow> acquire_dfllock k;
     let f = lh_first (disk_free_frame_list k1);
     (ret, dfn, k2) \<leftarrow>
       (if f = NULL then Some (E_NO_PAGE_FILE_SPACE, dfn, k1)
        else do {
          k2 \<leftarrow> on_disk_frames (LIST_REMOVE frame_links f) k1;
          let k3 = initialize_frame_info f k2;
          Some (0, to_disk_frame_number f k3, k3)
        });
     k4 \<leftarrow> release_dfllock k2;
     Some (ret, dfn, k4)
   }"

definition free_disk_frame :: "u32 \<Rightarrow> kern \<Rightarrow> kern option" where
  "free_disk_frame dfn k =
    (if dfn = 0 then Some k
     else do {
       k1 \<leftarrow> acquire_dfllock k;
       k2 \<leftarrow> on_disk_frames (LIST_INSERT_HEAD frame_links (disk_frame_at k1 dfn)) k1;
       release_dfllock k2
     })"

definition pf_calculate_free_frames :: "kern \<Rightarrow> (u32 \<times> kern) option" where
  "pf_calculate_free_frames k = do {
     k1 \<leftarrow> acquire_dfllock k;
     let total = lh_size (disk_free_frame_list k1);
     k2 \<leftarrow> release_dfllock k1;
     Some (total, k2)
   }"

section \<open>Directories and tables of disk frames\<close>

definition clear_table :: "ptr \<Rightarrow> kern \<Rightarrow> kern" where
  "clear_table t k = k\<lparr>words := (words k)(t := (\<lambda>i. if i < 1024 then 0 else words k t i))\<rparr>"

text \<open>
  The directory is created on first use. All callers pass the field \<^verbatim>\<open>disk_env_pgdir\<close> of the
  process itself for the result, and ignore the return value.
\<close>

definition get_disk_page_directory :: "ptr \<Rightarrow> kern \<Rightarrow> (u32 \<times> kern) option" where
  "get_disk_page_directory e k =
    (if disk_env_pgdir (envs k e) = NULL then do {
       (d, k1) \<leftarrow> kmalloc PAGE_SIZE k;
       let k2 = update_env e (\<lambda>x. x\<lparr>disk_env_pgdir := d\<rparr>) k1;
       if d = NULL then Some (E_NO_VM, k2)
       else do {
         pa \<leftarrow> kheap_physical_address d k2;
         Some (0, clear_table d (update_env e (\<lambda>x. x\<lparr>disk_env_pgdir_PA := pa\<rparr>) k2))
       }
     }
     else Some (0, k))"

definition disk_table_address :: "u32 \<Rightarrow> u32 \<Rightarrow> kern \<Rightarrow> ptr option" where
  "disk_table_address va entry k =
    (if \<not> CHECK_IF_KERNEL_ADDRESS va then kheap_virtual_address (EXTRACT_ADDRESS entry) k
     else STATIC_KERNEL_VIRTUAL_ADDRESS (EXTRACT_ADDRESS entry) k)"

text \<open>The result: the return value, the table (\<open>NULL\<close> if there is none) and the state. Reading through a \<open>NULL\<close> directory faults.\<close>

definition get_disk_page_table :: "ptr \<Rightarrow> u32 \<Rightarrow> bool \<Rightarrow> kern \<Rightarrow> (u32 \<times> ptr \<times> kern) option" where
  "get_disk_page_table dir va create k =
    (if dir = NULL then None
     else do {
       let entry = words k dir (PDX va);
       t \<leftarrow> disk_table_address va entry k;
       if entry = 0 then
         (if create then do {
            (t, k1) \<leftarrow> kmalloc PAGE_SIZE k;
            if t = NULL then Some (E_NO_VM, NULL, k1)
            else do {
              pa \<leftarrow> kheap_physical_address t k1;
              let k2 = set_word dir (PDX va) (CONSTRUCT_ENTRY pa PERM_PRESENT) k1;
              Some (0, t, clear_table t k2)
            }
          }
          else Some (0, NULL, k))
       else Some (0, t, k)
     })"

text \<open>
  The part that \<^verbatim>\<open>pf_add_empty_env_page\<close> and \<^verbatim>\<open>pf_add_env_page\<close> share: the disk frame of a page,
  allocated if the page has none. \<open>Inl\<close> is the error return.
\<close>

definition find_disk_frame :: "ptr \<Rightarrow> u32 \<Rightarrow> kern \<Rightarrow> ((u32 + u32) \<times> kern) option" where
  "find_disk_frame e va k =
    (if KERNEL_BASE \<le> va then None
     else do {
       (_, k1) \<leftarrow> get_disk_page_directory e k;
       (_, t, k2) \<leftarrow> get_disk_page_table (disk_env_pgdir (envs k1 e)) va True k1;
       if t = NULL then None
       else do {
         let dfn = words k2 t (PTX va);
         if dfn = 0 then do {
           (ret, dfn, k3) \<leftarrow> allocate_disk_frame dfn k2;
           if ret = E_NO_PAGE_FILE_SPACE then Some (Inl E_NO_PAGE_FILE_SPACE, k3)
           else Some (Inr dfn, set_word t (PTX va) dfn k3)
         }
         else Some (Inr dfn, k2)
       }
     })"

definition pf_add_env_page :: "ptr \<Rightarrow> u32 \<Rightarrow> page_bytes \<Rightarrow> kern \<Rightarrow> (u32 \<times> kern) option" where
  "pf_add_env_page e va dataSrc k = do {
     (r, k1) \<leftarrow> find_disk_frame e va k;
     (case r of Inl err \<Rightarrow> Some (err, k1) | Inr dfn \<Rightarrow> write_disk_page dfn dataSrc k1)
   }"

definition pf_add_empty_env_page :: "ptr \<Rightarrow> u32 \<Rightarrow> bool \<Rightarrow> kern \<Rightarrow> (u32 \<times> kern) option" where
  "pf_add_empty_env_page e va initializeByZero k =
    (if initializeByZero then
       let k1 = (if va > USTACKBOTTOM \<and> va < USTACKTOP - initNumStackPages (envs k e) * PAGE_SIZE
                 then update_env e (\<lambda>x. x\<lparr>nNewPageAdded := nNewPageAdded x + 1\<rparr>) k else k)
       in pf_add_env_page e va (kernel_page (ptr_zero_page k1) k1) k1
     else do {
       (r, k1) \<leftarrow> find_disk_frame e va k;
       (case r of Inl err \<Rightarrow> Some (err, k1) | Inr dfn \<Rightarrow> Some (0, k1))
     })"

section \<open>Updating, reading and removing pages\<close>

text \<open>A page of the heap or the stack that is not in the page file yet gets an empty place there first.\<close>

definition add_if_missing :: "ptr \<Rightarrow> u32 \<Rightarrow> ptr \<Rightarrow> kern \<Rightarrow> kern option" where
  "add_if_missing e va t k =
    (if t = NULL \<or> words k t (PTX va) = 0 then
       (if va \<ge> USER_HEAP_START \<and> va < USER_HEAP_MAX \<or> va \<ge> USTACKBOTTOM \<and> va < USTACKTOP then do {
          (ret, k1) \<leftarrow> pf_add_empty_env_page e va False k;
          if ret = E_NO_PAGE_FILE_SPACE then None
          else Some (update_env e (\<lambda>x. x\<lparr>nNewPageAdded := nNewPageAdded x + 1\<rparr>) k1)
        }
        else None)
     else Some k)"

definition pf_update_env_page :: "ptr \<Rightarrow> u32 \<Rightarrow> ptr \<Rightarrow> kern \<Rightarrow> (u32 \<times> kern) option" where
  "pf_update_env_page e va f k =
    (if KERNEL_BASE \<le> va then None
     else do {
       (_, k1) \<leftarrow> get_disk_page_directory e k;
       (_, t, k2) \<leftarrow> get_disk_page_table (disk_env_pgdir (envs k1 e)) va False k1;
       k3 \<leftarrow> add_if_missing e va t k2;
       (_, t, k4) \<leftarrow> get_disk_page_table (disk_env_pgdir (envs k3 e)) va False k3;
       if t = NULL then None
       else do {
         let dfn = words k4 t (PTX va);
         k5 \<leftarrow> map_frame (env_page_directory (envs k4 e)) f PGFLTEMP 0 k4;
         g \<leftarrow> user_frame PGFLTEMP k5;
         (ret, k6) \<leftarrow> write_disk_page dfn (frame_data k5 g) k5;
         let k7 = update_frame f (\<lambda>i. i\<lparr>references := references i + 1\<rparr>) k6;
         k8 \<leftarrow> unmap_frame (env_page_directory (envs k7 e)) PGFLTEMP k7;
         let k9 = update_frame f (\<lambda>i. i\<lparr>references := references i - 1\<rparr>) k8;
         Some (ret, update_env e (\<lambda>x. x\<lparr>nPageOut := nPageOut x + 1\<rparr>) k9)
       }
     })"

definition pf_read_env_page :: "ptr \<Rightarrow> u32 \<Rightarrow> kern \<Rightarrow> (u32 \<times> kern) option" where
  "pf_read_env_page e virtual_address k =
    (let va = ROUNDDOWN virtual_address PAGE_SIZE in
     if disk_env_pgdir (envs k e) = NULL then Some (E_PAGE_NOT_EXIST_IN_PF, k)
     else do {
       (_, t, k1) \<leftarrow> get_disk_page_table (disk_env_pgdir (envs k e)) va False k;
       if t = NULL then Some (E_PAGE_NOT_EXIST_IN_PF, k1)
       else do {
         let dfn = words k1 t (PTX va);
         if dfn = 0 then Some (E_PAGE_NOT_EXIST_IN_PF, k1)
         else do {
           (disk_read_error, k2) \<leftarrow> read_disk_page dfn va k1;
           k3 \<leftarrow> pt_set_page_permissions (env_page_directory (envs k2 e)) va 0 PERM_MODIFIED k2;
           Some (disk_read_error, update_env e (\<lambda>x. x\<lparr>nPageIn := nPageIn x + 1\<rparr>) k3)
         }
       }
     })"

definition pf_remove_env_page :: "ptr \<Rightarrow> u32 \<Rightarrow> kern \<Rightarrow> kern option" where
  "pf_remove_env_page e va k =
    (if disk_env_pgdir (envs k e) = NULL then Some k
     else do {
       (_, t, k1) \<leftarrow> get_disk_page_table (disk_env_pgdir (envs k e)) va False k;
       if t = NULL then Some k1
       else free_disk_frame (words k1 t (PTX va)) (set_word t (PTX va) 0 k1)
     })"

section \<open>Counting and freeing everything\<close>

abbreviation "user_tables \<equiv> unat (PDX USER_TOP)"

primrec count_entries :: "ptr \<Rightarrow> u32 \<Rightarrow> nat \<Rightarrow> u32 \<Rightarrow> kern \<Rightarrow> u32" where
  "count_entries t i 0 counter k = counter"
| "count_entries t i (Suc n) counter k = count_entries t (i + 1) n (if words k t i \<noteq> 0 then counter + 1 else counter) k"

primrec count_tables :: "ptr \<Rightarrow> u32 \<Rightarrow> nat \<Rightarrow> u32 \<Rightarrow> kern \<Rightarrow> u32 option" where
  "count_tables dir i 0 counter k = Some counter"
| "count_tables dir i (Suc n) counter k =
    (if words k dir i AND PERM_PRESENT = 0 then count_tables dir (i + 1) n counter k
     else do {
       t \<leftarrow> kheap_virtual_address (EXTRACT_ADDRESS (words k dir i)) k;
       count_tables dir (i + 1) n (count_entries t 0 1024 counter k) k
     })"

definition pf_calculate_allocated_pages :: "ptr \<Rightarrow> kern \<Rightarrow> u32 option" where
  "pf_calculate_allocated_pages e k = count_tables (disk_env_pgdir (envs k e)) 0 user_tables 0 k"

primrec free_entries :: "ptr \<Rightarrow> u32 \<Rightarrow> nat \<Rightarrow> kern \<Rightarrow> kern option" where
  "free_entries t i 0 k = Some k"
| "free_entries t i (Suc n) k = do {
     k1 \<leftarrow> free_disk_frame (words k t i) (set_word t i 0 k);
     free_entries t (i + 1) n k1
   }"

primrec free_tables :: "ptr \<Rightarrow> u32 \<Rightarrow> nat \<Rightarrow> kern \<Rightarrow> kern option" where
  "free_tables dir i 0 k = Some k"
| "free_tables dir i (Suc n) k =
    (if words k dir i AND PERM_PRESENT = 0 then free_tables dir (i + 1) n k
     else do {
       t \<leftarrow> kheap_virtual_address (EXTRACT_ADDRESS (words k dir i)) k;
       k1 \<leftarrow> free_entries t 0 1024 k;
       k2 \<leftarrow> kfree t (set_word dir i 0 k1);
       free_tables dir (i + 1) n k2
     })"

definition pf_remove_env_all_tables :: "ptr \<Rightarrow> kern \<Rightarrow> kern option" where
  "pf_remove_env_all_tables e k =
    (if disk_env_tabledir (envs k e) = NULL then Some k
     else free_entries (disk_env_tabledir (envs k e)) 0 user_tables k)"

definition pf_free_env :: "ptr \<Rightarrow> kern \<Rightarrow> kern option" where
  "pf_free_env e k = do {
     k1 \<leftarrow> free_tables (disk_env_pgdir (envs k e)) 0 user_tables k;
     k2 \<leftarrow> kfree (disk_env_pgdir (envs k1 e)) k1;
     let k3 = update_env e (\<lambda>x. x\<lparr>disk_env_pgdir := NULL, disk_env_pgdir_PA := 0\<rparr>) k2;
     if disk_env_tabledir (envs k3 e) = NULL then Some k3
     else do {
       k4 \<leftarrow> pf_remove_env_all_tables e k3;
       k5 \<leftarrow> kfree (disk_env_tabledir (envs k4 e)) k4;
       Some (update_env e (\<lambda>x. x\<lparr>disk_env_tabledir := NULL, disk_env_tabledir_PA := 0\<rparr>) k5)
     }
   }"

section \<open>Tables in the page file\<close>

definition get_disk_table_directory :: "ptr \<Rightarrow> kern \<Rightarrow> (u32 \<times> kern) option" where
  "get_disk_table_directory e k =
    (if disk_env_tabledir (envs k e) = NULL then do {
       (d, k1) \<leftarrow> kmalloc PAGE_SIZE k;
       let k2 = update_env e (\<lambda>x. x\<lparr>disk_env_tabledir := d\<rparr>) k1;
       if d = NULL then Some (E_NO_VM, k2)
       else do {
         pa \<leftarrow> kheap_physical_address d k2;
         Some (0, clear_table d (update_env e (\<lambda>x. x\<lparr>disk_env_tabledir_PA := pa\<rparr>) k2))
       }
     }
     else Some (0, k))"

definition pf_write_env_table :: "ptr \<Rightarrow> u32 \<Rightarrow> ptr \<Rightarrow> kern \<Rightarrow> (u32 \<times> kern) option" where
  "pf_write_env_table e va t k =
    (if KERNEL_BASE \<le> va then None
     else do {
       (_, k1) \<leftarrow> get_disk_table_directory e k;
       let dir = disk_env_tabledir (envs k1 e);
       if dir = NULL then None
       else do {
         let dfn = words k1 dir (PDX va);
         if dfn = 0 then do {
           (ret, dfn, k2) \<leftarrow> allocate_disk_frame dfn k1;
           if ret = E_NO_PAGE_FILE_SPACE then Some (E_NO_PAGE_FILE_SPACE, k2)
           else write_disk_page dfn (table_bytes (words k2 t)) (set_word dir (PDX va) dfn k2)
         }
         else write_disk_page dfn (table_bytes (words k1 t)) k1
       }
     })"

definition pf_read_env_table :: "ptr \<Rightarrow> u32 \<Rightarrow> ptr \<Rightarrow> kern \<Rightarrow> (u32 \<times> kern) option" where
  "pf_read_env_table e va t k =
    (let dir = disk_env_tabledir (envs k e) in
     if dir = NULL then Some (E_TABLE_NOT_EXIST_IN_PF, k)
     else
       let dfn = words k dir (PDX va) in
       if dfn = 0 then Some (E_TABLE_NOT_EXIST_IN_PF, k)
       else if disk_bad k dfn then None
       else Some (0, k\<lparr>words := (words k)(t := (\<lambda>i. if i < 1024 then bytes_table (disk_data k dfn) i else words k t i))\<rparr>))"

definition pf_remove_env_table :: "ptr \<Rightarrow> u32 \<Rightarrow> kern \<Rightarrow> kern option" where
  "pf_remove_env_table e va k =
    (let dir = disk_env_tabledir (envs k e) in
     if dir = NULL then Some k
     else free_disk_frame (words k dir (PDX va)) (set_word dir (PDX va) 0 k))"

end
