(* ===== verification/FOS_Fault.thy ===== *)
theory FOS_Fault
  imports FOS_PageFile
begin

text \<open>
  Working sets (\<^verbatim>\<open>kern/mem/working_set_manager.c\<close>) and faults
  (\<^verbatim>\<open>kern/trap/fault_handler.c\<close>): the checks of the main handler, table faults, and the page
  fault handler with its two halves, placement and N-chance clock replacement.

  A process that is made to exit in a handler gives up the CPU there and never returns from
  \<^verbatim>\<open>env_exit\<close>, so the result is an \<open>outcome\<close>. The messages to the console are left out, and so is
  flushing the TLB.
\<close>

section \<open>Replacement strategies and buffering\<close>

abbreviation "PG_REP_LRU_LISTS_APPROX \<equiv> 0x2 :: u32"
abbreviation "PG_REP_CLOCK \<equiv> 0x3 :: u32"
abbreviation "PG_REP_FIFO \<equiv> 0x4 :: u32"
abbreviation "PG_REP_MODIFIEDCLOCK \<equiv> 0x5 :: u32"
abbreviation "PG_REP_NchanceCLOCK \<equiv> 0x6 :: u32"
abbreviation "PG_REP_DYNAMIC_LOCAL \<equiv> 0x7 :: u32"

definition setPageReplacmentAlgorithmLRU :: "u32 \<Rightarrow> kern \<Rightarrow> kern option" where
  "setPageReplacmentAlgorithmLRU LRU_TYPE k =
    (if LRU_TYPE = PG_REP_LRU_TIME_APPROX \<or> LRU_TYPE = PG_REP_LRU_LISTS_APPROX then Some (k\<lparr>PageRepAlgoType := LRU_TYPE\<rparr>)
     else None)"

definition setPageReplacmentAlgorithmCLOCK :: "kern \<Rightarrow> kern" where
  "setPageReplacmentAlgorithmCLOCK k = k\<lparr>PageRepAlgoType := PG_REP_CLOCK\<rparr>"

definition setPageReplacmentAlgorithmFIFO :: "kern \<Rightarrow> kern" where
  "setPageReplacmentAlgorithmFIFO k = k\<lparr>PageRepAlgoType := PG_REP_FIFO\<rparr>"

definition setPageReplacmentAlgorithmModifiedCLOCK :: "kern \<Rightarrow> kern" where
  "setPageReplacmentAlgorithmModifiedCLOCK k = k\<lparr>PageRepAlgoType := PG_REP_MODIFIEDCLOCK\<rparr>"

definition setPageReplacmentAlgorithmDynamicLocal :: "kern \<Rightarrow> kern" where
  "setPageReplacmentAlgorithmDynamicLocal k = k\<lparr>PageRepAlgoType := PG_REP_DYNAMIC_LOCAL\<rparr>"

definition setPageReplacmentAlgorithmNchanceCLOCK :: "u32 \<Rightarrow> kern \<Rightarrow> kern" where
  "setPageReplacmentAlgorithmNchanceCLOCK PageWSMaxSweeps k =
    k\<lparr>PageRepAlgoType := PG_REP_NchanceCLOCK, page_WS_max_sweeps := PageWSMaxSweeps\<rparr>"

definition isPageReplacmentAlgorithmLRU :: "u32 \<Rightarrow> kern \<Rightarrow> bool" where
  "isPageReplacmentAlgorithmLRU LRU_TYPE k \<longleftrightarrow> PageRepAlgoType k = LRU_TYPE"

definition enableModifiedBuffer :: "u32 \<Rightarrow> kern \<Rightarrow> kern" where
  "enableModifiedBuffer enableIt k = k\<lparr>EnableModifiedBuffer := enableIt\<rparr>"

definition isModifiedBufferEnabled :: "kern \<Rightarrow> u8" where
  "isModifiedBufferEnabled k = ucast (EnableModifiedBuffer k)"

definition enableBuffering :: "u32 \<Rightarrow> kern \<Rightarrow> kern" where
  "enableBuffering enableIt k = k\<lparr>EnableBuffering := enableIt\<rparr>"

definition setModifiedBufferLength :: "u32 \<Rightarrow> kern \<Rightarrow> kern" where
  "setModifiedBufferLength len k = k\<lparr>ModifiedBufferLength := len\<rparr>"

section \<open>Working sets\<close>

type_synonym ws_list_fun = "list_head \<Rightarrow> (ptr \<Rightarrow> ws_element) \<Rightarrow> (list_head \<times> (ptr \<Rightarrow> ws_element)) option"

definition on_page_WS_list :: "ptr \<Rightarrow> ws_list_fun \<Rightarrow> kern \<Rightarrow> kern option" where
  "on_page_WS_list e f k = do {
     (h, t) \<leftarrow> f (page_WS_list (envs k e)) (ws_elements k);
     Some (update_env e (\<lambda>x. x\<lparr>page_WS_list := h\<rparr>) (k\<lparr>ws_elements := t\<rparr>))
   }"

definition on_ActiveList :: "ptr \<Rightarrow> ws_list_fun \<Rightarrow> kern \<Rightarrow> kern option" where
  "on_ActiveList e f k = do {
     (h, t) \<leftarrow> f (ActiveList (envs k e)) (ws_elements k);
     Some (update_env e (\<lambda>x. x\<lparr>ActiveList := h\<rparr>) (k\<lparr>ws_elements := t\<rparr>))
   }"

definition on_SecondList :: "ptr \<Rightarrow> ws_list_fun \<Rightarrow> kern \<Rightarrow> kern option" where
  "on_SecondList e f k = do {
     (h, t) \<leftarrow> f (SecondList (envs k e)) (ws_elements k);
     Some (update_env e (\<lambda>x. x\<lparr>SecondList := h\<rparr>) (k\<lparr>ws_elements := t\<rparr>))
   }"

text \<open>\<^verbatim>\<open>sizeof(struct WorkingSetElement)\<close> is 24.\<close>

definition env_page_ws_list_create_element :: "ptr \<Rightarrow> u32 \<Rightarrow> kern \<Rightarrow> (ptr \<times> kern) option" where
  "env_page_ws_list_create_element e virtual_address k = do {
     (new_element, k1) \<leftarrow> kmalloc 24 k;
     if new_element = NULL then None
     else Some (new_element, on_ws_element new_element
       (\<lambda>x. x\<lparr>ws_virtual_address := ROUNDDOWN virtual_address PAGE_SIZE, time_stamp := 0, sweeps_counter := 0\<rparr>) k1)
   }"

text \<open>The bodies of the three loops of \<^verbatim>\<open>env_page_ws_invalidate\<close>; a hit leaves the loop.\<close>

definition same_page_as :: "u32 \<Rightarrow> ptr \<Rightarrow> kern \<Rightarrow> bool" where
  "same_page_as va w k \<longleftrightarrow> ROUNDDOWN (ws_virtual_address (ws_elements k w)) PAGE_SIZE = ROUNDDOWN va PAGE_SIZE"

definition invalidate_active :: "ptr \<Rightarrow> u32 \<Rightarrow> ptr \<Rightarrow> kern \<Rightarrow> (bool \<times> kern) option" where
  "invalidate_active e va w k =
    (if same_page_as va w k then do {
       let tmp = lh_first (SecondList (envs k e));
       k1 \<leftarrow> unmap_frame (env_page_directory (envs k e)) (ws_virtual_address (ws_elements k w)) k;
       k2 \<leftarrow> on_ActiveList e (LIST_REMOVE ws_links w) k1;
       k3 \<leftarrow> kfree w k2;
       k6 \<leftarrow> (if tmp \<noteq> NULL then do {
         k4 \<leftarrow> on_SecondList e (LIST_REMOVE ws_links tmp) k3;
         k5 \<leftarrow> on_ActiveList e (LIST_INSERT_TAIL ws_links tmp) k4;
         pt_set_page_permissions (env_page_directory (envs k5 e)) (ws_virtual_address (ws_elements k5 tmp)) PERM_PRESENT 0 k5
       } else Some k3);
       Some (True, k6)
     }
     else Some (False, k))"

definition invalidate_second :: "ptr \<Rightarrow> u32 \<Rightarrow> ptr \<Rightarrow> kern \<Rightarrow> (bool \<times> kern) option" where
  "invalidate_second e va w k =
    (if same_page_as va w k then do {
       k1 \<leftarrow> unmap_frame (env_page_directory (envs k e)) (ws_virtual_address (ws_elements k w)) k;
       k2 \<leftarrow> on_SecondList e (LIST_REMOVE ws_links w) k1;
       k3 \<leftarrow> kfree w k2;
       Some (True, k3)
     }
     else Some (False, k))"

definition invalidate_page :: "ptr \<Rightarrow> u32 \<Rightarrow> ptr \<Rightarrow> kern \<Rightarrow> (bool \<times> kern) option" where
  "invalidate_page e va w k =
    (if same_page_as va w k then do {
       k1 \<leftarrow> unmap_frame (env_page_directory (envs k e)) (ws_virtual_address (ws_elements k w)) k;
       let k2 = (if page_last_WS_element (envs k1 e) = w
                 then update_env e (\<lambda>x. x\<lparr>page_last_WS_element := ws_next (ws_elements k1 w)\<rparr>) k1 else k1);
       k3 \<leftarrow> on_page_WS_list e (LIST_REMOVE ws_links w) k2;
       k4 \<leftarrow> kfree w k3;
       Some (True, k4)
     }
     else Some (False, k))"

definition ws_foreach :: "(ptr \<Rightarrow> kern \<Rightarrow> (bool \<times> kern) option) \<Rightarrow> list_head \<Rightarrow> kern \<Rightarrow> (ptr \<times> kern) option" where
  "ws_foreach body h k = LIST_FOREACH (\<lambda>k w. ws_next (ws_elements k w)) body (lh_first h) k"

definition env_page_ws_invalidate :: "ptr \<Rightarrow> u32 \<Rightarrow> kern \<Rightarrow> kern option" where
  "env_page_ws_invalidate e va k =
    (if isPageReplacmentAlgorithmLRU PG_REP_LRU_LISTS_APPROX k then do {
       (hit, k1) \<leftarrow> ws_foreach (invalidate_active e va) (ActiveList (envs k e)) k;
       if hit \<noteq> NULL then Some k1
       else do {
         (_, k2) \<leftarrow> ws_foreach (invalidate_second e va) (SecondList (envs k1 e)) k1;
         Some k2
       }
     }
     else do {
       (_, k1) \<leftarrow> ws_foreach (invalidate_page e va) (page_WS_list (envs k e)) k;
       Some k1
     })"

section \<open>The table working set\<close>

text \<open>\<^verbatim>\<open>PAGE_SIZE * 1024\<close> is 4 MB. Entry numbers outside the array fail an assertion.\<close>

abbreviation "TABLE_SPAN \<equiv> 0x400000 :: u32"

definition env_table_ws_get_size :: "ptr \<Rightarrow> kern \<Rightarrow> u32" where
  "env_table_ws_get_size e k = of_nat (length (filter (\<lambda>i. ws_empty (ptr_tws (envs k e) i) = 0) [0..<TWS_MAX_SIZE]))"

definition env_table_ws_clear_entry :: "ptr \<Rightarrow> nat \<Rightarrow> kern \<Rightarrow> kern option" where
  "env_table_ws_clear_entry e i k =
    (if i < TWS_MAX_SIZE
     then Some (set_tws e i (\<lambda>x. x\<lparr>ws_virtual_address := 0, ws_empty := 1, time_stamp := 0\<rparr>) k) else None)"

definition env_table_ws_set_entry :: "ptr \<Rightarrow> nat \<Rightarrow> u32 \<Rightarrow> kern \<Rightarrow> kern option" where
  "env_table_ws_set_entry e i va k =
    (if i < TWS_MAX_SIZE \<and> va < USER_TOP
     then Some (set_tws e i (\<lambda>x. x\<lparr>ws_virtual_address := ROUNDDOWN va TABLE_SPAN, ws_empty := 0, time_stamp := 0x80000000\<rparr>) k)
     else None)"

definition env_table_ws_get_virtual_address :: "ptr \<Rightarrow> nat \<Rightarrow> kern \<Rightarrow> u32 option" where
  "env_table_ws_get_virtual_address e i k =
    (if i < TWS_MAX_SIZE then Some (ROUNDDOWN (ws_virtual_address (ptr_tws (envs k e) i)) TABLE_SPAN) else None)"

definition env_table_ws_get_time_stamp :: "ptr \<Rightarrow> nat \<Rightarrow> kern \<Rightarrow> u32 option" where
  "env_table_ws_get_time_stamp e i k =
    (if i < TWS_MAX_SIZE then Some (time_stamp (ptr_tws (envs k e) i)) else None)"

primrec env_table_ws_invalidate_from :: "ptr \<Rightarrow> u32 \<Rightarrow> nat \<Rightarrow> nat \<Rightarrow> kern \<Rightarrow> kern option" where
  "env_table_ws_invalidate_from e va i 0 k = Some k"
| "env_table_ws_invalidate_from e va i (Suc n) k =
    (if ROUNDDOWN (ws_virtual_address (ptr_tws (envs k e) i)) TABLE_SPAN = ROUNDDOWN va TABLE_SPAN
     then env_table_ws_clear_entry e i k
     else env_table_ws_invalidate_from e va (i + 1) n k)"

definition env_table_ws_invalidate :: "ptr \<Rightarrow> u32 \<Rightarrow> kern \<Rightarrow> kern option" where
  "env_table_ws_invalidate e va = env_table_ws_invalidate_from e va 0 TWS_MAX_SIZE"


definition env_table_ws_is_entry_empty :: "ptr \<Rightarrow> nat \<Rightarrow> kern \<Rightarrow> u8" where
  "env_table_ws_is_entry_empty e i k = ws_empty (ptr_tws (envs k e) i)"

section \<open>Page faults: placement\<close>

text \<open>
  Bit 11 of an entry marks a page that has been faulted in. The bits are kept by
  \<^verbatim>\<open>unmap_frame\<close>, which clears all but \<^verbatim>\<open>PERM_AVAILABLE\<close>. \<^verbatim>\<open>allocate_frame\<close> and
  \<^verbatim>\<open>map_frame\<close> panic where they cannot succeed, so the handler's checks of their results never fail.
\<close>

abbreviation "PAGE_MARKED \<equiv> 1024 :: u32"
abbreviation "PAGE_FAULTED \<equiv> 2048 :: u32"

abbreviation "USER_PAGE \<equiv> PERM_PRESENT OR PERM_WRITEABLE OR PERM_USER"

definition in_heap_or_stack :: "u32 \<Rightarrow> bool" where
  "in_heap_or_stack va \<longleftrightarrow> va < USER_HEAP_MAX \<and> USER_HEAP_START \<le> va \<or> va < USTACKTOP \<and> USTACKBOTTOM \<le> va"

text \<open>The part the two halves share: a new frame for the page, filled from the page file. \<open>Inl\<close>: not a valid page.\<close>

definition load_page :: "ptr \<Rightarrow> u32 \<Rightarrow> kern \<Rightarrow> ((kern + ptr \<times> kern)) option" where
  "load_page e va k = do {
     (f, k1) \<leftarrow> allocate_frame k;
     k2 \<leftarrow> map_frame (env_page_directory (envs k1 e)) f va USER_PAGE k1;
     (ret, k3) \<leftarrow> pf_read_env_page e va k2;
     if ret = E_PAGE_NOT_EXIST_IN_PF \<and> \<not> in_heap_or_stack va then do {
       k4 \<leftarrow> free_frame f k3;
       Some (Inl k4)
     }
     else Some (Inr (f, k3))
   }"

definition page_fault_placement :: "ptr \<Rightarrow> u32 \<Rightarrow> kern \<Rightarrow> outcome option" where
  "page_fault_placement e va k = do {
     r \<leftarrow> load_page e va k;
     (case r of
        Inl k1 \<Rightarrow> env_exit k1
      | Inr (f, k1) \<Rightarrow> do {
          (element, k2) \<leftarrow> env_page_ws_list_create_element e va k1;
          if element = NULL then do { k3 \<leftarrow> free_frame f k2; env_exit k3 }
          else do {
            k3 \<leftarrow> on_page_WS_list e (LIST_INSERT_TAIL ws_links element) k2;
            k4 \<leftarrow> pt_set_page_permissions (env_page_directory (envs k3 e)) va PAGE_FAULTED 0 k3;
            let k5 = update_frame f (\<lambda>i. i\<lparr>addr_working_set_element := element\<rparr>) k4;
            Some (Returns
              (if lh_size (page_WS_list (envs k5 e)) = page_WS_max_size (envs k5 e)
               then update_env e (\<lambda>x. x\<lparr>page_last_WS_element := lh_first (page_WS_list x)\<rparr>) k5
               else k5))
          }
        })
   }"

section \<open>Page faults: the N-chance clock\<close>

text \<open>
  The hand is \<^verbatim>\<open>page_last_WS_element\<close>. A page that was used since the last visit gets another full
  round of chances; one that was not has its counter raised, and is the victim when the counter
  reaches the bound. For \<open>N \<ge> 0\<close> the bound is \<open>N\<close>; for negative \<open>N\<close> it is \<open>- N\<close>, and one more for a
  page that would have to be written back.
\<close>

definition victim_reached :: "u32 \<Rightarrow> u32 \<Rightarrow> u32 \<Rightarrow> bool" where
  "victim_reached N permissions sweeps \<longleftrightarrow>
    (if 0 \<le> sint N then N \<le> sweeps
     else permissions AND PERM_MODIFIED = PERM_MODIFIED \<and> sweeps = - N + 1 \<or>
       permissions AND PERM_MODIFIED = 0 \<and> sweeps = - N)"

definition clock_advance :: "ptr \<Rightarrow> kern \<Rightarrow> kern" where
  "clock_advance e k = update_env e (\<lambda>x. x\<lparr>page_last_WS_element :=
     (if page_last_WS_element x = lh_last (page_WS_list x) then lh_first (page_WS_list x)
      else ws_next (ws_elements k (page_last_WS_element x)))\<rparr>) k"

text \<open>The loop up to the page to be replaced: its permissions, and the state with the hand on it.\<close>

partial_function (option) nchance_loop :: "ptr \<Rightarrow> kern \<Rightarrow> (u32 \<times> kern) option" where
  "nchance_loop e k =
    (let w = page_last_WS_element (envs k e); dir = env_page_directory (envs k e) in
     if w = NULL then None
     else do {
       permissions \<leftarrow> pt_get_page_permissions dir (ws_virtual_address (ws_elements k w)) k;
       if permissions AND PERM_USED = PERM_USED then do {
         k1 \<leftarrow> pt_set_page_permissions dir (ws_virtual_address (ws_elements k w)) 0 PERM_USED k;
         nchance_loop e (clock_advance e (on_ws_element w (\<lambda>x. x\<lparr>sweeps_counter := 0\<rparr>) k1))
       }
       else
         let k1 = on_ws_element w (\<lambda>x. x\<lparr>sweeps_counter := sweeps_counter x + 1\<rparr>) k in
         if victim_reached (page_WS_max_sweeps k1) permissions (sweeps_counter (ws_elements k1 w)) then Some (permissions, k1)
         else nchance_loop e (clock_advance e k1)
     })"

text \<open>Writing the victim back and unmapping it; for negative \<open>N\<close> the mark is cleared after the unmapping.\<close>

definition evict_page :: "ptr \<Rightarrow> u32 \<Rightarrow> u32 \<Rightarrow> kern \<Rightarrow> kern option" where
  "evict_page e va permissions k = do {
     let dir = env_page_directory (envs k e);
     (_, _) \<leftarrow> get_page_table dir va k;
     (f, _) \<leftarrow> get_frame_info dir va k;
     k1 \<leftarrow> (if permissions AND PERM_MODIFIED = PERM_MODIFIED
            then do { (_, k1) \<leftarrow> pf_update_env_page e va f k; Some k1 } else Some k);
     if f = NULL then None
     else do {
       let k2 = update_frame f (\<lambda>i. i\<lparr>addr_working_set_element := NULL\<rparr>) k1;
       (if 0 \<le> sint (page_WS_max_sweeps k2) then do {
          k3 \<leftarrow> pt_set_page_permissions dir va 0 PAGE_FAULTED k2;
          unmap_frame dir va k3
        }
        else do {
          k3 \<leftarrow> unmap_frame dir va k2;
          pt_set_page_permissions dir va 0 PAGE_FAULTED k3
        })
     }
   }"

definition page_fault_replacement :: "ptr \<Rightarrow> u32 \<Rightarrow> kern \<Rightarrow> outcome option" where
  "page_fault_replacement e va k = do {
     (permissions, k1) \<leftarrow> nchance_loop e k;
     let w = page_last_WS_element (envs k1 e);
     k2 \<leftarrow> evict_page e (ws_virtual_address (ws_elements k1 w)) permissions k1;
     r \<leftarrow> load_page e va k2;
     (case r of
        Inl k3 \<Rightarrow> env_exit k3
      | Inr (f, k3) \<Rightarrow> do {
          let k4 = on_ws_element w (\<lambda>x. x\<lparr>ws_virtual_address := va, sweeps_counter := 0\<rparr>) k3;
          let k5 = update_frame f (\<lambda>i. i\<lparr>addr_working_set_element := w\<rparr>) k4;
          k6 \<leftarrow> pt_set_page_permissions (env_page_directory (envs k5 e)) va PAGE_FAULTED 0 k5;
          Some (Returns (clock_advance e k6))
        })
   }"

definition page_fault_handler :: "ptr \<Rightarrow> u32 \<Rightarrow> kern \<Rightarrow> outcome option" where
  "page_fault_handler e va k =
    (if lh_size (page_WS_list (envs k e)) < page_WS_max_size (envs k e) then page_fault_placement e va k
     else page_fault_replacement e va k)"

definition table_fault_handler :: "ptr \<Rightarrow> u32 \<Rightarrow> kern \<Rightarrow> kern option" where
  "table_fault_handler e va k = do {
     (_, k1) \<leftarrow> create_page_table (env_page_directory (envs k e)) va k;
     Some k1
   }"

section \<open>The main handler\<close>

text \<open>The fields of the trap frame the handler reads; \<open>fault_va\<close> is the content of register \<^verbatim>\<open>cr2\<close>.\<close>

record trapframe =
  tf_eip :: u32
  tf_cs :: u32

abbreviation "USER_LIMIT \<equiv> 0xEF800000 :: u32"

text \<open>The stack of CPU 0 is \<^verbatim>\<open>KERN_STACK_TOP - KERNEL_STACK_SIZE\<close>.\<close>

definition SCHED_STACK :: u32 where
  "SCHED_STACK = 0xEFC00000 - 8 * PAGE_SIZE"

text \<open>The book-keeping of repeated faults; the fourth fault of a process at an address in a row panics.\<close>

definition note_fault :: "trapframe \<Rightarrow> u32 \<Rightarrow> ptr \<Rightarrow> kern \<Rightarrow> kern option" where
  "note_fault tf fault_va cur_env k = do {
     k1 \<leftarrow> (if last_fault_va k = fault_va \<and> last_faulted_env k = cur_env then
              let k1 = k\<lparr>num_repeated_fault := num_repeated_fault k + 1\<rparr> in
              if num_repeated_fault k1 = 3 then None else Some k1
            else Some (k\<lparr>before_last_fault_va := last_fault_va k, before_last_eip := last_eip k, num_repeated_fault := 0\<rparr>));
     Some (k1\<lparr>last_eip := tf_eip tf, last_fault_va := fault_va, last_faulted_env := cur_env\<rparr>)
   }"

definition in_page_at :: "u32 \<Rightarrow> u32 \<Rightarrow> bool" where
  "in_page_at a va \<longleftrightarrow> a \<le> va \<and> va < a + PAGE_SIZE"

definition stack_checks :: "bool \<Rightarrow> u32 \<Rightarrow> ptr \<Rightarrow> kern \<Rightarrow> bool" where
  "stack_checks userTrap fault_va cur_env k =
    (if \<not> userTrap then
       \<not> (cur_env \<noteq> NULL \<and> in_page_at (kstack (envs k cur_env)) fault_va) \<and> \<not> in_page_at SCHED_STACK fault_va \<and>
       fault_va < KERNEL_HEAP_MAX
     else \<not> (USTACKTOP \<le> fault_va \<and> fault_va < USER_TOP))"

text \<open>The checks of a user access: an invalid one makes the process exit.\<close>

definition invalid_access :: "u32 \<Rightarrow> u32 \<Rightarrow> bool" where
  "invalid_access fault_va permission \<longleftrightarrow>
    USER_LIMIT \<le> fault_va \<or>
    USER_HEAP_START \<le> fault_va \<and> fault_va < USER_HEAP_MAX \<and> permission AND PAGE_MARKED = 0 \<and> permission AND PAGE_FAULTED = 0 \<or>
    permission AND PERM_PRESENT \<noteq> 0 \<and> permission AND PERM_WRITEABLE = 0"

definition page_fault :: "bool \<Rightarrow> u32 \<Rightarrow> ptr \<Rightarrow> kern \<Rightarrow> outcome option" where
  "page_fault userTrap fault_va e k = do {
     permission \<leftarrow> (if userTrap then pt_get_page_permissions (env_page_directory (envs k e)) fault_va k else Some 0);
     if userTrap \<and> invalid_access fault_va permission then env_exit k
     else do {
       perms \<leftarrow> pt_get_page_permissions (env_page_directory (envs k e)) fault_va k;
       if perms AND PERM_PRESENT \<noteq> 0 then None
       else
         let k1 = update_env e (\<lambda>x. x\<lparr>pageFaultsCounter := pageFaultsCounter x + 1\<rparr>) k in
         if isBufferingEnabled k1 \<noteq> 0 then None else page_fault_handler e fault_va k1
     }
   }"

definition fault_handler :: "trapframe \<Rightarrow> u32 \<Rightarrow> kern \<Rightarrow> outcome option" where
  "fault_handler tf fault_va k = do {
     (cur_env, k1) \<leftarrow> cur_proc k;
     k2 \<leftarrow> note_fault tf fault_va cur_env k1;
     let userTrap = (tf_cs tf AND 3 = 3);
     if \<not> stack_checks userTrap fault_va cur_env k2 \<or> cur_env = NULL then None
     else if words k2 (env_page_directory (envs k2 cur_env)) (PDX fault_va) AND PERM_PRESENT \<noteq> PERM_PRESENT then do {
       k3 \<leftarrow> table_fault_handler cur_env fault_va
              (update_env cur_env (\<lambda>x. x\<lparr>tableFaultsCounter := tableFaultsCounter x + 1\<rparr>) k2);
       Some (Returns k3)
     }
     else page_fault userTrap fault_va cur_env k2
   }"

end
