(* ===== verification/FOS_KDebug.thy ===== *)
theory FOS_KDebug
  imports FOS_String FOS_Fault
begin

text \<open>
  Finding the function and the source file of an instruction, \<^verbatim>\<open>kern/trap/kdebug.c\<close>, in the table of
  debugging symbols that the linker stores in memory. The tables (\<^verbatim>\<open>__STAB_BEGIN__\<close> and its companions,
  or the ones a program announces at \<^verbatim>\<open>USTABDATA\<close>) are arguments. Indices are integers: a table that
  fits into the address space is too short for an overflow.
\<close>

section \<open>Searching the table\<close>

record stab =
  n_strx :: u32
  n_type :: u8
  n_other :: u8
  n_desc :: "16 word"
  n_value :: u32

abbreviation "N_FUN \<equiv> 0x24 :: u8"
abbreviation "N_SO \<equiv> 0x64 :: u8"
abbreviation "N_SOL \<equiv> 0x84 :: u8"

text \<open>The two loops that go down to an entry of the wanted type.\<close>

function scan_back :: "(int \<Rightarrow> stab) \<Rightarrow> u8 \<Rightarrow> int \<Rightarrow> int \<Rightarrow> int" where
  "scan_back stabs type l m = (if l \<le> m \<and> n_type (stabs m) \<noteq> type then scan_back stabs type l (m - 1) else m)"
  by pat_completeness auto
termination by (relation "measure (\<lambda>(_, _, l, m). nat (m - l + 1))") auto

declare scan_back.simps [simp del]

lemma scan_back_bounds: "scan_back stabs type l m \<le> m" "l \<le> m \<Longrightarrow> l - 1 \<le> scan_back stabs type l m"
proof (induction stabs type l m rule: scan_back.induct)
  case (1 stabs type l m)
  { case 1 then show ?case using "1.IH"(1) by (subst scan_back.simps) auto
  next
    case 2
    then show ?case using "1.IH"(2) by (subst scan_back.simps) (cases "l \<le> m - 1", auto simp: scan_back.simps [of _ _ _ "m - 1"]) }
qed

lemma scan_back_type: "l \<le> scan_back stabs type l m \<Longrightarrow> n_type (stabs (scan_back stabs type l m)) = type"
proof (induction stabs type l m rule: scan_back.induct)
  case (1 stabs type l m)
  then show ?case using scan_back.simps [of stabs type l m] by (auto split: if_splits)
qed

lemma scan_back_skips: "scan_back stabs type l m < i \<Longrightarrow> i \<le> m \<Longrightarrow> n_type (stabs i) \<noteq> type"
proof (induction stabs type l m rule: scan_back.induct)
  case (1 stabs type l m)
  then show ?case using scan_back.simps [of stabs type l m] by (cases "i = m") (auto split: if_splits)
qed

lemma search_measure:
  "nat (r' - l' + 1) < nat (r - l + 1) \<Longrightarrow>
    2 * nat (r' - l' + 1) + (if p then 1 else 0) < 2 * nat (r - l + 1) + (if q then 1 else (0 :: nat))"
  by auto

text \<open>
  Pointers to words are compared as addresses, but \<^verbatim>\<open>addr++\<close> goes on by the size of a word, four.
\<close>

function stab_loop :: "(int \<Rightarrow> stab) \<Rightarrow> u8 \<Rightarrow> int \<Rightarrow> int \<Rightarrow> bool \<Rightarrow> int \<Rightarrow> int \<Rightarrow> u32 \<Rightarrow> bool \<times> int \<times> int" where
  "stab_loop stabs type l r any_matches region_left region_right addr =
    (if l \<le> r then
       let true_m = (l + r) div 2; m = scan_back stabs type l true_m in
       if m < l then stab_loop stabs type (true_m + 1) r any_matches region_left region_right addr
       else if n_value (stabs m) < addr then stab_loop stabs type (true_m + 1) r True m region_right addr
       else if addr < n_value (stabs m) then stab_loop stabs type l (m - 1) True region_left (m - 1) addr
       else stab_loop stabs type m r True m region_right (addr + 4)
     else (any_matches, region_left, region_right))"
  by pat_completeness auto
termination
proof (relation "measure (\<lambda>(stabs, type, l, r, _, _, _, addr). 2 * nat (r - l + 1) + (if n_value (stabs l) = addr then 1 else 0))", goal_cases)
  case (2 stabs type l r any_matches left right addr true_m m)
  then show ?case by (simp only: in_measure prod.case) (rule search_measure, auto)
next
  case (3 stabs type l r any_matches left right addr true_m m)
  then show ?case by (simp only: in_measure prod.case) (rule search_measure, auto)
next
  case (4 stabs type l r any_matches left right addr true_m m)
  then have "m \<le> r" using scan_back_bounds(1) [of stabs type l true_m] by auto
  then show ?case using 4 by (simp only: in_measure prod.case)
next
  case (5 stabs type l r any_matches left right addr true_m m)
  then have "m \<le> r" using scan_back_bounds(1) [of stabs type l true_m] by auto
  then show ?case using 5 by (cases "m = l") auto
qed simp

declare stab_loop.simps [simp del]

definition stab_binsearch :: "(int \<Rightarrow> stab) \<Rightarrow> int \<Rightarrow> int \<Rightarrow> u8 \<Rightarrow> u32 \<Rightarrow> int \<times> int" where
  "stab_binsearch stabs region_left region_right type addr =
    (let (any_matches, left, right) = stab_loop stabs type region_left region_right False region_left region_right addr
     in if \<not> any_matches then (left, left - 1) else (scan_back stabs type (left + 1) right, right))"

section \<open>What is known of an instruction\<close>

record symbols =
  stabs :: "int \<Rightarrow> stab"
  stabs_size :: int
  stabstr :: ptr
  stabstr_end :: ptr

record Eipdebuginfo =
  eip_file :: ptr
  eip_line :: int
  eip_fn_name :: ptr
  eip_fn_namelen :: u32
  eip_fn_addr :: u32
  eip_fn_narg :: int

function file_back :: "(int \<Rightarrow> stab) \<Rightarrow> int \<Rightarrow> int \<Rightarrow> int" where
  "file_back st lfile lline =
    (if lfile \<le> lline \<and> n_type (st lline) \<noteq> N_SOL \<and> (n_type (st lline) \<noteq> N_SO \<or> n_value (st lline) = 0)
     then file_back st lfile (lline - 1) else lline)"
  by pat_completeness auto
termination by (relation "measure (\<lambda>(_, lfile, lline). nat (lline - lfile + 1))") auto

declare file_back.simps [simp del]

text \<open>
  \<open>unknown\<close> is the address of the text \<^verbatim>\<open><unknown>\<close>. The result is the code that is returned and what is
  stored in the structure then. Line numbers and arguments are not looked up by the code; what it
  computes from \<^verbatim>\<open>addr\<close> after it found the function is not used.
\<close>

definition debuginfo_eip :: "memory \<Rightarrow> symbols \<Rightarrow> symbols \<Rightarrow> ptr \<Rightarrow> u32 \<Rightarrow> (int \<times> Eipdebuginfo) option" where
  "debuginfo_eip m kernel_symbols user_symbols unknown addr =
    (let info = \<lparr>eip_file = unknown, eip_line = 0, eip_fn_name = unknown, eip_fn_namelen = 9,
                 eip_fn_addr = addr, eip_fn_narg = 0\<rparr>;
         y = (if addr \<ge> USER_LIMIT then kernel_symbols else user_symbols);
         str_size = stabstr_end y - stabstr y
     in if stabstr_end y \<le> stabstr y \<or> m (stabstr_end y - 1) \<noteq> 0 then Some (- 1, info)
        else let (lfile, rfile) = stab_binsearch (stabs y) 0 (stabs_size y - 1) N_SO addr in
          if lfile = 0 then Some (- 1, info)
          else let (lfun, rfun) = stab_binsearch (stabs y) lfile rfile N_FUN addr;
                   (info, lline) =
                     (if lfun \<le> rfun then
                        ((if n_strx (stabs y lfun) < str_size then info\<lparr>eip_fn_name := stabstr y + n_strx (stabs y lfun)\<rparr> else info)
                           \<lparr>eip_fn_addr := n_value (stabs y lfun)\<rparr>, lfun)
                      else (info, lfile))
               in do {
                 colon \<leftarrow> strfind m (eip_fn_name info) 58;
                 let info = info\<lparr>eip_fn_namelen := colon - eip_fn_name info\<rparr>;
                 let lline = file_back (stabs y) lfile lline;
                 Some (0, if lfile \<le> lline \<and> n_strx (stabs y lline) < str_size
                          then info\<lparr>eip_file := stabstr y + n_strx (stabs y lline)\<rparr> else info)
               })"

end
