(* ===== verification/FOS_KDebugProps.thy ===== *)
theory FOS_KDebugProps
  imports FOS_KDebug
begin

text \<open>
  The search in the table of symbols finds the last entry that is not behind the address, when the
  entries of the wanted type are in order and more than four bytes apart: after an exact match the
  search goes on with an address four bytes on. With shorter functions it may pass the right one.
\<close>

section \<open>What the search keeps\<close>

text \<open>The entries of the type from one index to another, in order and apart.\<close>

definition apart :: "(int \<Rightarrow> stab) \<Rightarrow> u8 \<Rightarrow> int \<Rightarrow> int \<Rightarrow> bool" where
  "apart st type l r \<longleftrightarrow> (\<forall>i j. l \<le> i \<longrightarrow> i < j \<longrightarrow> j \<le> r \<longrightarrow> n_type (st i) = type \<longrightarrow> n_type (st j) = type \<longrightarrow>
     uint (n_value (st i)) + 4 < uint (n_value (st j)))"

text \<open>An address the search may be looking for after it started with \<open>a\<close>.\<close>

definition sought :: "(int \<Rightarrow> stab) \<Rightarrow> u8 \<Rightarrow> int \<Rightarrow> int \<Rightarrow> u32 \<Rightarrow> u32 \<Rightarrow> bool" where
  "sought st type l r a b \<longleftrightarrow> b = a \<or> b = a + 4 \<and> (\<exists>e. l \<le> e \<and> e \<le> r \<and> n_type (st e) = type \<and> n_value (st e) = a)"

lemma sought_compare:
  assumes s: "sought st type l r a b" and ap: "apart st type l r" and a: "a < 0xFFFFFFFC"
    and i: "l \<le> i" "i \<le> r" "n_type (st i) = type"
  shows "n_value (st i) < b \<Longrightarrow> n_value (st i) \<le> a" and "b < n_value (st i) \<Longrightarrow> a < n_value (st i)"
    and "n_value (st i) = b \<Longrightarrow> b = a"
proof -
  have four: "uint (a + 4) = uint a + 4" using a by (simp add: uint_word_ariths word_less_def)
  have near: "n_value (st i) \<le> a \<and> n_value (st i) \<noteq> a + 4 \<or> a + 4 < n_value (st i)" if e: "l \<le> e" "e \<le> r" "n_type (st e) = type" "n_value (st e) = a" for e
  proof -
    consider "i < e" | "i = e" | "e < i" by linarith
    then show ?thesis
    proof cases
      case 1
      then have "uint (n_value (st i)) + 4 < uint a" using ap i e unfolding apart_def by metis
      then show ?thesis using four by (auto simp: word_le_def word_less_def)
    next
      case 2
      then show ?thesis using e by simp
    next
      case 3
      then have "uint a + 4 < uint (n_value (st i))" using ap i e unfolding apart_def by metis
      then show ?thesis using four by (simp add: word_le_def word_less_def)
    qed
  qed
  have a4: "a < a + 4" using four by (simp add: word_less_def)
  { assume "n_value (st i) < b"
    then show "n_value (st i) \<le> a" using s near unfolding sought_def by (metis order.strict_implies_order order.asym)
  next
    assume "b < n_value (st i)"
    then show "a < n_value (st i)" using s a4 unfolding sought_def by (metis order.strict_trans)
  next
    assume "n_value (st i) = b"
    then show "b = a" using s near unfolding sought_def by (metis order.irrefl) }
qed

text \<open>
  Entries of the type on both sides of an index: up to it none behind the address, after it all of them.
\<close>

definition below :: "(int \<Rightarrow> stab) \<Rightarrow> u8 \<Rightarrow> int \<Rightarrow> int \<Rightarrow> u32 \<Rightarrow> bool" where
  "below st type l r a \<longleftrightarrow> (\<forall>i. l \<le> i \<longrightarrow> i \<le> r \<longrightarrow> n_type (st i) = type \<longrightarrow> n_value (st i) \<le> a)"

definition behind :: "(int \<Rightarrow> stab) \<Rightarrow> u8 \<Rightarrow> int \<Rightarrow> int \<Rightarrow> u32 \<Rightarrow> bool" where
  "behind st type l r a \<longleftrightarrow> (\<forall>i. l \<le> i \<longrightarrow> i \<le> r \<longrightarrow> n_type (st i) = type \<longrightarrow> a < n_value (st i))"

definition none_of :: "(int \<Rightarrow> stab) \<Rightarrow> u8 \<Rightarrow> int \<Rightarrow> int \<Rightarrow> bool" where
  "none_of st type l r \<longleftrightarrow> (\<forall>i. l \<le> i \<longrightarrow> i \<le> r \<longrightarrow> n_type (st i) \<noteq> type)"

lemma behind_at: "behind st type l r a \<Longrightarrow> l \<le> i \<Longrightarrow> i \<le> r \<Longrightarrow> n_type (st i) = type \<Longrightarrow> a < n_value (st i)"
  by (simp add: behind_def)

lemma below_up_to:
  assumes "apart st type l r" and "l \<le> m" "m \<le> r" "n_type (st m) = type" "n_value (st m) \<le> a"
  shows "below st type l m a"
  unfolding below_def
proof (intro allI impI)
  fix i assume i: "l \<le> i" "i \<le> m" "n_type (st i) = type"
  show "n_value (st i) \<le> a"
  proof (cases "i = m")
    case False
    then have "uint (n_value (st i)) + 4 < uint (n_value (st m))" using assms i unfolding apart_def by (metis order_le_less)
    then have "n_value (st i) \<le> n_value (st m)" by (simp add: word_le_def)
    then show ?thesis using assms(5) by simp
  qed (use assms in simp)
qed

lemma behind_from:
  assumes "apart st type l r" and "l \<le> m" "m \<le> r" "n_type (st m) = type" "a < n_value (st m)"
  shows "behind st type m r a"
  unfolding behind_def
proof (intro allI impI)
  fix i assume i: "m \<le> i" "i \<le> r" "n_type (st i) = type"
  show "a < n_value (st i)"
  proof (cases "i = m")
    case False
    then have "uint (n_value (st m)) + 4 < uint (n_value (st i))" using assms i unfolding apart_def by (metis order_le_less)
    then have "n_value (st m) \<le> n_value (st i)" by (simp add: word_le_def)
    then show ?thesis using assms(5) by simp
  qed (use assms in simp)
qed

lemma below_extend: "below st type l m a \<Longrightarrow> none_of st type (m + 1) n \<Longrightarrow> below st type l n a"
  unfolding below_def none_of_def by (metis add1_zle_eq linorder_not_le)

lemma none_of_join: "none_of st type l m \<Longrightarrow> none_of st type (m + 1) n \<Longrightarrow> none_of st type l n"
  unfolding none_of_def by (metis add1_zle_eq linorder_not_le)

lemma none_back: "none_of st type (scan_back st type l m + 1) m"
  unfolding none_of_def using scan_back_skips [of st type l m] by force

text \<open>Where the search stands: nothing of the type behind the address before \<open>l\<close>, everything after \<open>r\<close>.\<close>

definition searching :: "(int \<Rightarrow> stab) \<Rightarrow> u8 \<Rightarrow> int \<Rightarrow> int \<Rightarrow> u32 \<Rightarrow> int \<Rightarrow> int \<Rightarrow> bool \<Rightarrow> int \<Rightarrow> bool" where
  "searching st type l0 r0 a l r any left \<longleftrightarrow>
     l0 \<le> l \<and> l \<le> r + 1 \<and> r \<le> r0 \<and> below st type l0 (l - 1) a \<and> behind st type (r + 1) r0 a \<and>
     (r = r0 \<or> n_type (st (r + 1)) = type) \<and>
     (left = l0 \<or> l0 \<le> left \<and> left \<le> r \<and> n_type (st left) = type \<and> n_value (st left) \<le> a) \<and>
     (if any then \<not> none_of st type l0 r0 else left = l0 \<and> r = r0 \<and> none_of st type l0 (l - 1))"

lemma stab_loop_ends:
  assumes "apart st type l0 r0" and "a < 0xFFFFFFFC"
  shows "searching st type l0 r0 a l r any left \<Longrightarrow> sought st type l0 r0 a b \<Longrightarrow>
    \<exists>any' left' right'. stab_loop st type l r any left r b = (any', left', right') \<and>
      searching st type l0 r0 a (right' + 1) right' any' left'"
proof (induction "2 * nat (r - l + 1) + (if n_value (st l) = b then 1 else 0)" arbitrary: l r any left b rule: less_induct)
  case less
  note inv = less.prems(1) and b = less.prems(2)
  show ?case
  proof (cases "l \<le> r")
    case False
    then have "l = r + 1" using inv unfolding searching_def by simp
    then show ?thesis using inv by (simp add: stab_loop.simps)
  next
    case True
    define t where "t = (l + r) div 2"
    define m where "m = scan_back st type l t"
    have t: "l \<le> t" "t \<le> r" using True unfolding t_def by simp_all
    have m: "m \<le> t" "l - 1 \<le> m" unfolding m_def using scan_back_bounds t by blast+
    have skipped: "none_of st type (m + 1) t" unfolding m_def by (rule none_back)
    have step: "stab_loop st type l r any left r b =
      (if m < l then stab_loop st type (t + 1) r any left r b
       else if n_value (st m) < b then stab_loop st type (t + 1) r True m r b
       else if b < n_value (st m) then stab_loop st type l (m - 1) True left (m - 1) b
       else stab_loop st type m r True m r (b + 4))"
      using True by (subst stab_loop.simps) (simp add: t_def m_def Let_def)
    have in_range: "l0 \<le> l" "r \<le> r0" and low: "below st type l0 (l - 1) a" and high: "behind st type (r + 1) r0 a"
      and next_one: "r = r0 \<or> n_type (st (r + 1)) = type"
      and left: "left = l0 \<or> l0 \<le> left \<and> left \<le> r \<and> n_type (st left) = type \<and> n_value (st left) \<le> a"
      and none: "if any then \<not> none_of st type l0 r0 else left = l0 \<and> r = r0 \<and> none_of st type l0 (l - 1)"
      using inv unfolding searching_def by simp_all
    show ?thesis
    proof (cases "m < l")
      case True
      then have "m + 1 = l" using m by simp
      then have fresh: "none_of st type (l - 1 + 1) t" using skipped by simp
      have "searching st type l0 r0 a (t + 1) r any left"
        unfolding searching_def using in_range t high next_one left none below_extend [OF low fresh] none_of_join [OF _ fresh] by (auto split: if_splits)
      moreover have "2 * nat (r - (t + 1) + 1) + (if n_value (st (t + 1)) = b then 1 else 0) < 2 * nat (r - l + 1) + (if n_value (st l) = b then 1 else 0 :: nat)"
        by (rule search_measure) (use t in simp)
      ultimately show ?thesis using less.hyps b True step by simp
    next
      case typed: False
      have ty: "n_type (st m) = type" unfolding m_def using scan_back_type typed m_def by simp
      have mr: "l0 \<le> m" "m \<le> r0" "m \<le> r" using typed m t in_range by simp_all
      have some: "\<not> none_of st type l0 r0" using mr ty unfolding none_of_def by blast
      note cmp = sought_compare [OF b assms mr(1,2) ty]
      consider "n_value (st m) < b" | "b < n_value (st m)" | "n_value (st m) = b" by (metis linorder_less_linear)
      then show ?thesis
      proof cases
        case 1
        have low_m: "below st type l0 m a" using below_up_to [OF assms(1) mr(1,2) ty] cmp(1) 1 by simp
        have "searching st type l0 r0 a (t + 1) r True m"
          unfolding searching_def using some in_range t high next_one mr ty cmp(1) 1 below_extend [OF low_m skipped] by auto
        moreover have "2 * nat (r - (t + 1) + 1) + (if n_value (st (t + 1)) = b then 1 else 0) < 2 * nat (r - l + 1) + (if n_value (st l) = b then 1 else 0 :: nat)"
          by (rule search_measure) (use t in simp)
        ultimately show ?thesis using less.hyps b typed step 1 by simp
      next
        case 2
        have high_m: "behind st type m r0 a" using behind_from [OF assms(1) mr(1,2) ty] cmp(2) 2 by simp
        have "left = l0 \<or> l0 \<le> left \<and> left \<le> m - 1 \<and> n_type (st left) = type \<and> n_value (st left) \<le> a"
        proof (cases "left = l0")
          case False
          then have l: "l0 \<le> left" "left \<le> r" "n_type (st left) = type" "n_value (st left) \<le> a" using left by auto
          have "\<not> m \<le> left"
          proof
            assume "m \<le> left"
            then have "a < n_value (st left)" using behind_at [OF high_m _ order.trans [OF l(2) in_range(2)] l(3)] by simp
            then show False using l by simp
          qed
          then show ?thesis using l by simp
        qed simp
        then have "searching st type l0 r0 a l (m - 1) True left"
          unfolding searching_def using some in_range typed mr ty low high_m by auto
        moreover have "2 * nat (m - 1 - l + 1) + (if n_value (st l) = b then 1 else 0) < 2 * nat (r - l + 1) + (if n_value (st l) = b then 1 else 0 :: nat)"
          by (rule search_measure) (use typed mr in simp)
        ultimately show ?thesis using less.hyps [of "m - 1" l b] b typed step 2 linorder_not_less [THEN iffD2, OF order.strict_implies_order [OF 2]] by simp
      next
        case 3
        then have ba: "b = a" using cmp(3) by simp
        have low_m: "below st type l0 m a" using below_up_to [OF assms(1) mr(1,2) ty] 3 ba by simp
        then have "below st type l0 (m - 1) a" unfolding below_def by simp
        then have "searching st type l0 r0 a m r True m"
          unfolding searching_def using some in_range mr ty high next_one 3 ba by auto
        moreover have "sought st type l0 r0 a (b + 4)" unfolding sought_def using 3 ba ty mr by blast
        moreover have "2 * nat (r - m + 1) + (if n_value (st m) = b + 4 then 1 else 0) < 2 * nat (r - l + 1) + (if n_value (st l) = b then 1 else 0 :: nat)"
          using 3 typed mr by (cases "m = l") simp_all
        ultimately show ?thesis using less.hyps [of r m "b + 4"] typed step 3 by simp
      qed
    qed
  qed
qed

section \<open>What the search finds\<close>

lemma last_of_type:
  assumes left: "left = l \<or> l \<le> left \<and> left \<le> right \<and> n_type (st left) = type" and right: "l - 1 \<le> right"
  defines "x \<equiv> scan_back st type (left + 1) right"
  shows "if none_of st type l right then x = min l right else l \<le> x \<and> x \<le> right \<and> n_type (st x) = type"
    and "none_of st type (x + 1) right"
proof -
  show skipped: "none_of st type (x + 1) right" unfolding x_def by (rule none_back)
  show "if none_of st type l right then x = min l right else l \<le> x \<and> x \<le> right \<and> n_type (st x) = type"
  proof (cases "left \<le> right")
    case False
    then have "left = l" "right = l - 1" using left right by auto
    then show ?thesis unfolding x_def by (simp add: scan_back.simps none_of_def)
  next
    case True
    have x: "x \<le> right" "left \<le> x" unfolding x_def using scan_back_bounds(1) scan_back_bounds(2) [of "left + 1" right st type] True
      by (simp_all add: scan_back.simps [of st type "right + 1" right])
        (cases "left = right"; simp add: scan_back.simps [of st type "right + 1" right])
    have ty: "left < x \<Longrightarrow> n_type (st x) = type" unfolding x_def using scan_back_type [of "left + 1" st type right] by simp
    have lx: "l \<le> x" using x left by auto
    show ?thesis
    proof (cases "none_of st type l right")
      case none: True
      then have "n_type (st x) \<noteq> type" using lx x unfolding none_of_def by blast
      then have "x = left" using ty x by force
      then show ?thesis using none True left lx \<open>n_type (st x) \<noteq> type\<close> by auto
    next
      case False
      then obtain i where i: "l \<le> i" "i \<le> right" "n_type (st i) = type" unfolding none_of_def by blast
      then have "i \<le> x" using skipped unfolding none_of_def by (metis add1_zle_eq linorder_not_le)
      have "n_type (st x) = type"
      proof (cases "x = left")
        case True
        then show ?thesis using left i \<open>i \<le> x\<close> by (metis order.antisym)
      qed (use ty x in simp)
      then show ?thesis using False lx x by simp
    qed
  qed
qed

lemma stab_binsearch_ok:
  assumes "apart st type l r" and "a < 0xFFFFFFFC" and "l \<le> r + 1" and found: "stab_binsearch st l r type a = (left, right)"
  shows "if none_of st type l r then left = l \<and> right = l - 1
    else l - 1 \<le> right \<and> right \<le> r \<and> below st type l right a \<and> behind st type (right + 1) r a \<and>
      (right = r \<or> n_type (st (right + 1)) = type) \<and> none_of st type (left + 1) right \<and>
      (if none_of st type l right then left = min l right else l \<le> left \<and> left \<le> right \<and> n_type (st left) = type)"
proof -
  have "searching st type l r a l r False l"
    unfolding searching_def using assms(3) by (simp add: below_def behind_def none_of_def)
  moreover have "sought st type l r a a" unfolding sought_def by simp
  ultimately obtain any left' right' where e: "stab_loop st type l r False l r a = (any, left', right')"
    and s: "searching st type l r a (right' + 1) right' any left'"
    using stab_loop_ends [OF assms(1,2)] by blast
  show ?thesis
  proof (cases any)
    case False
    then show ?thesis using s e found unfolding searching_def stab_binsearch_def by auto
  next
    case True
    then have "left = scan_back st type (left' + 1) right'" "right = right'"
      using e found unfolding stab_binsearch_def by auto
    moreover have l: "left' = l \<or> l \<le> left' \<and> left' \<le> right' \<and> n_type (st left') = type" and r: "l - 1 \<le> right'"
      using s unfolding searching_def by auto
    ultimately show ?thesis using s True last_of_type [of left' l right' st type, OF l r] unfolding searching_def by simp
  qed
qed

text \<open>The last entry of the type that is not behind the address.\<close>

definition last_at :: "(int \<Rightarrow> stab) \<Rightarrow> u8 \<Rightarrow> int \<Rightarrow> int \<Rightarrow> u32 \<Rightarrow> int \<Rightarrow> bool" where
  "last_at st type l r a x \<longleftrightarrow> l \<le> x \<and> x \<le> r \<and> n_type (st x) = type \<and> n_value (st x) \<le> a \<and> behind st type (x + 1) r a"

lemma last_at_unique: "last_at st type l r a x \<Longrightarrow> last_at st type l r a y \<Longrightarrow> x = y"
  unfolding last_at_def behind_def by (metis add1_zle_eq linorder_neqE_linordered_idom linorder_not_less)

text \<open>An index behind which the next entry of the type stands, or nothing.\<close>

definition ends_at :: "(int \<Rightarrow> stab) \<Rightarrow> u8 \<Rightarrow> int \<Rightarrow> int \<Rightarrow> int \<Rightarrow> bool" where
  "ends_at st type x r y \<longleftrightarrow> x \<le> y \<and> y \<le> r \<and> none_of st type (x + 1) y \<and> (y = r \<or> n_type (st (y + 1)) = type)"

lemma ends_at_unique: "ends_at st type x r y \<Longrightarrow> ends_at st type x r z \<Longrightarrow> y = z"
  unfolding ends_at_def none_of_def by (metis add1_zle_eq linorder_neqE_linordered_idom add_mono1 order.order_iff_strict)

lemma stab_binsearch_found:
  assumes ap: "apart st type l r" and a: "a < 0xFFFFFFFC" and i: "l \<le> i" "i \<le> r" "n_type (st i) = type" "n_value (st i) \<le> a"
  shows "\<exists>left right. stab_binsearch st l r type a = (left, right) \<and> last_at st type l r a left \<and> ends_at st type left r right"
proof -
  obtain left right where e: "stab_binsearch st l r type a = (left, right)" by fastforce
  have some: "\<not> none_of st type l r" using i unfolding none_of_def by blast
  have k: "l - 1 \<le> right" "right \<le> r" "below st type l right a" "behind st type (right + 1) r a"
    "right = r \<or> n_type (st (right + 1)) = type" "none_of st type (left + 1) right"
    "if none_of st type l right then left = min l right else l \<le> left \<and> left \<le> right \<and> n_type (st left) = type"
    using stab_binsearch_ok [OF ap a _ e] some i by simp_all
  have "\<not> right + 1 \<le> i" using behind_at [OF k(4) _ i(2,3)] i(4) by (auto simp: linorder_not_less)
  then have "\<not> none_of st type l right" using i unfolding none_of_def by force
  then have l: "l \<le> left" "left \<le> right" "n_type (st left) = type" using k(7) by simp_all
  have "n_value (st left) \<le> a" using k(3) l unfolding below_def by blast
  moreover have "behind st type (left + 1) r a"
    using k(4,6) unfolding behind_def none_of_def by (metis add1_zle_eq linorder_not_le)
  ultimately have "last_at st type l r a left" using l k(2) unfolding last_at_def by simp
  moreover have "ends_at st type left r right" using l k unfolding ends_at_def by simp
  ultimately show ?thesis using e by blast
qed

lemma strfind_stops: "m (s + of_nat k) = 0 \<Longrightarrow> \<exists>p. strfind m s c = Some p"
proof (induction k arbitrary: s)
  case 0
  then show ?case by (subst strfind.simps) simp
next
  case (Suc k)
  then have "m (s + 1 + of_nat k) = 0" by (simp add: add.assoc)
  then show ?case using Suc.IH [of "s + 1"] by (subst strfind.simps) simp
qed

lemma apart_part:
  assumes "apart st type l r" "l \<le> l'" "r' \<le> r"
  shows "apart st type l' r'"
  unfolding apart_def
proof (intro allI impI)
  fix i j assume h: "l' \<le> i" "i < j" "j \<le> r'" "n_type (st i) = type" "n_type (st j) = type"
  then have "l \<le> i" "j \<le> r" using assms by simp_all
  then show "uint (n_value (st i)) + 4 < uint (n_value (st j))" using assms(1) h unfolding apart_def by blast
qed

lemma stab_binsearch_last:
  assumes "apart st type l r" and "a < 0xFFFFFFFC" and x: "last_at st type l r a x" and y: "ends_at st type x r y"
  shows "stab_binsearch st l r type a = (x, y)"
proof -
  have "\<exists>left right. stab_binsearch st l r type a = (left, right) \<and> last_at st type l r a left \<and> ends_at st type left r right"
    by (rule stab_binsearch_found [where i = x]) (use assms in \<open>auto simp: last_at_def\<close>)
  then show ?thesis using last_at_unique [OF x] ends_at_unique [OF y] by auto
qed

lemma ends_somewhere: "x \<le> r \<Longrightarrow> \<exists>y. ends_at st type x r y"
proof (induction "nat (r - x)" arbitrary: r rule: less_induct)
  case less
  show ?case
  proof (cases "none_of st type (x + 1) r")
    case True
    then show ?thesis using less.prems unfolding ends_at_def by blast
  next
    case False
    then obtain i where i: "x + 1 \<le> i" "i \<le> r" "n_type (st i) = type" unfolding none_of_def by blast
    then obtain y where y: "ends_at st type x (i - 1) y" using less.hyps [of "i - 1"] by auto
    then have "ends_at st type x r y" using i unfolding ends_at_def by auto
    then show ?thesis by blast
  qed
qed

section \<open>The function of an instruction\<close>

lemma strfind_in_table:
  assumes "m (en - 1) = 0"
  shows "\<exists>p. strfind m (b + n) c = Some (p :: ptr)"
proof (rule strfind_stops [where k = "unat (en - 1 - b - n)"])
  show "m (b + n + of_nat (unat (en - 1 - b - n))) = 0" using assms by simp
qed

text \<open>A table of symbols whose source files and functions are in order and more than four bytes apart
  tells for an address of the kernel behind a first entry: the last file that does not start behind the
  address and, in it, the last function that does not start behind it.\<close>

theorem debuginfo_eip_correct:
  assumes "USER_LIMIT \<le> a" and "a < 0xFFFFFFFC"
    and "stabstr y < stabstr_end y" and "m (stabstr_end y - 1) = 0"
    and "apart (stabs y) N_SO 0 (stabs_size y - 1)" and "apart (stabs y) N_FUN 0 (stabs_size y - 1)"
    and "last_at (stabs y) N_SO 0 (stabs_size y - 1) a f" and "f \<noteq> 0"
    and "ends_at (stabs y) N_SO f (stabs_size y - 1) e"
    and "last_at (stabs y) N_FUN f e a g" and "n_strx (stabs y g) < stabstr_end y - stabstr y"
  shows "\<exists>info. debuginfo_eip m y user unknown a = Some (0, info) \<and>
    eip_fn_addr info = n_value (stabs y g) \<and> eip_fn_name info = stabstr y + n_strx (stabs y g)"
proof -
  let ?st = "stabs y" and ?n = "stabs_size y - 1"
  have so: "stab_binsearch ?st 0 ?n N_SO a = (f, e)" using stab_binsearch_last assms by blast
  have e: "e \<le> ?n" "0 \<le> f" using assms(7,9) unfolding ends_at_def last_at_def by simp_all
  have "g \<le> e" using assms(10) unfolding last_at_def by simp
  then obtain h where h: "ends_at ?st N_FUN g e h" using ends_somewhere by blast
  have "apart ?st N_FUN f e" using apart_part [OF assms(6)] e by simp
  then have fn: "stab_binsearch ?st f e N_FUN a = (g, h)" using stab_binsearch_last assms(2,10) h by blast
  have "g \<le> h" using h unfolding ends_at_def by simp
  moreover obtain p where "strfind m (stabstr y + n_strx (?st g)) 58 = Some p"
    using strfind_in_table assms(4) by blast
  ultimately show ?thesis using assms(1,3,4,8,11) by (auto simp: debuginfo_eip_def Let_def so fn)
qed

text \<open>Two files; the first has two functions.\<close>

definition small_table :: "int \<Rightarrow> stab" where
  "small_table i =
    (if i = 1 then \<lparr>n_strx = 1, n_type = N_SO, n_other = 0, n_desc = 0, n_value = 0xF0100000\<rparr>
     else if i = 2 then \<lparr>n_strx = 5, n_type = N_FUN, n_other = 0, n_desc = 0, n_value = 0xF0100000\<rparr>
     else if i = 3 then \<lparr>n_strx = 9, n_type = N_FUN, n_other = 0, n_desc = 0, n_value = 0xF0100010\<rparr>
     else if i = 4 then \<lparr>n_strx = 13, n_type = N_SO, n_other = 0, n_desc = 0, n_value = 0xF0100020\<rparr>
     else \<lparr>n_strx = 0, n_type = 0, n_other = 0, n_desc = 0, n_value = 0\<rparr>)"

definition small_symbols :: symbols where
  "small_symbols = \<lparr>stabs = small_table, stabs_size = 5, stabstr = 0xF0200000, stabstr_end = 0xF0200011\<rparr>"

lemma small_table_apart: "apart small_table N_SO 0 4" "apart small_table N_FUN 0 4"
  unfolding apart_def by (auto simp: small_table_def)

lemma small_table_types: "n_type (small_table i) = N_FUN \<longleftrightarrow> i = 2 \<or> i = 3" "n_type (small_table i) = N_SO \<longleftrightarrow> i = 1 \<or> i = 4"
  by (auto simp: small_table_def)

theorem debuginfo_eip_correct_witness:
  "\<exists>info. debuginfo_eip (\<lambda>_. 0) small_symbols small_symbols 0 0xF0100012 = Some (0, info) \<and>
    eip_fn_addr info = 0xF0100010 \<and> eip_fn_name info = 0xF0200009"
proof -
  have "\<exists>info. debuginfo_eip (\<lambda>_. 0) small_symbols small_symbols 0 0xF0100012 = Some (0, info) \<and>
    eip_fn_addr info = n_value (stabs small_symbols 3) \<and>
    eip_fn_name info = stabstr small_symbols + n_strx (stabs small_symbols 3)"
    by (rule debuginfo_eip_correct [where f = 1 and e = 3 and g = 3])
      (auto simp: small_symbols_def small_table_apart last_at_def ends_at_def none_of_def behind_def small_table_types,
        auto simp: small_table_def)
  then show ?thesis by (simp add: small_symbols_def small_table_def)
qed

section \<open>The search alone\<close>

text \<open>The search ends, and when an entry of the type is not behind the address it returns the last such
  entry together with the last index before the next entry of the type.\<close>

theorem stab_binsearch_correct:
  assumes "apart st type l r" and "a < 0xFFFFFFFC"
    and "l \<le> i" "i \<le> r" "n_type (st i) = type" "n_value (st i) \<le> a"
  shows "\<exists>left right. stab_binsearch st l r type a = (left, right) \<and> last_at st type l r a left \<and> ends_at st type left r right"
  by (rule stab_binsearch_found [OF assms])

theorem stab_binsearch_correct_witness:
  "\<exists>left right. stab_binsearch small_table 0 4 N_FUN 0xF0100008 = (left, right) \<and>
    last_at small_table N_FUN 0 4 0xF0100008 left \<and> ends_at small_table N_FUN left 4 right"
  by (rule stab_binsearch_correct [OF small_table_apart(2), where i = 2]) (simp_all add: small_table_def)

text \<open>A function of one byte, found exactly, is passed: the search goes on with an address four bytes on.\<close>

definition short_table :: "int \<Rightarrow> stab" where
  "short_table i = small_table 2 \<lparr>n_value := (if i = 0 then 0xF00FFFF0 else if i = 1 then 0xF0100000 else 0xF0100001)\<rparr>"

theorem short_function_is_passed:
  "stab_binsearch short_table 0 2 N_FUN 0xF0100000 = (2, 2) \<and> n_value (short_table 2) > 0xF0100000"
  by (simp add: stab_binsearch_def stab_loop.simps scan_back.simps short_table_def small_table_def)

end
