(* ===== verification/FOS_Printf.thy ===== *)
theory FOS_Printf
  imports FOS_String FOS_Console
begin

text \<open>
  Formatted printing (\<^verbatim>\<open>lib/printfmt.c\<close>, \<^verbatim>\<open>kern/cons/printf.c\<close>) and reading a line
  (\<^verbatim>\<open>lib/readline.c\<close>). A printer says how a character is put into the state, where the format and the
  strings are read, and how \<^verbatim>\<open>printProgName\<close> is set. The variable arguments are the words on the
  stack; fetching one that was not passed is \<open>None\<close>. A format or a string without an end is
  read forever, so the routines are partial. An \<^verbatim>\<open>int\<close> that is a width or a precision is an integer:
  what C leaves undefined, its overflow, is not modelled.
\<close>

type_synonym u64 = "64 word"

record 's printer =
  pr_put :: "u32 \<Rightarrow> 's \<Rightarrow> 's"
  pr_mem :: "'s \<Rightarrow> memory"
  pr_prog :: "u8 \<Rightarrow> 's \<Rightarrow> 's"

section \<open>Numbers\<close>

definition hex_digit :: "u64 \<Rightarrow> u32" where
  "hex_digit d = (if d < 10 then 48 + ucast d else 87 + ucast d)"

primrec put_times :: "'s printer \<Rightarrow> u32 \<Rightarrow> nat \<Rightarrow> 's \<Rightarrow> 's" where
  "put_times pr c 0 s = s"
| "put_times pr c (Suc n) s = put_times pr c n (pr_put pr c s)"

text \<open>The pad loop \<^verbatim>\<open>while (--width > 0)\<close> runs \<open>width - 1\<close> times.\<close>

partial_function (option) printnum :: "'s printer \<Rightarrow> u64 \<Rightarrow> u64 \<Rightarrow> int \<Rightarrow> u32 \<Rightarrow> 's \<Rightarrow> 's option" where
  "printnum pr num base width padc s = do {
     s1 \<leftarrow> (if base \<le> num then printnum pr (num div base) base (width - 1) padc s
           else Some (put_times pr padc (nat (width - 1)) s));
     Some (pr_put pr (hex_digit (num mod base)) s1)
   }"

definition va_arg :: "u32 list \<Rightarrow> (u32 \<times> u32 list) option" where
  "va_arg ap = (case ap of [] \<Rightarrow> None | a # rest \<Rightarrow> Some (a, rest))"

definition va_arg64 :: "u32 list \<Rightarrow> (u64 \<times> u32 list) option" where
  "va_arg64 ap = do { (lo, ap1) \<leftarrow> va_arg ap; (hi, ap2) \<leftarrow> va_arg ap1; Some (push_bit 32 (ucast hi) OR ucast lo, ap2) }"

definition getuint :: "nat \<Rightarrow> u32 list \<Rightarrow> (u64 \<times> u32 list) option" where
  "getuint lflag ap = (if lflag \<ge> 2 then va_arg64 ap else do { (a, ap1) \<leftarrow> va_arg ap; Some (ucast a, ap1) })"

definition getint :: "nat \<Rightarrow> u32 list \<Rightarrow> (u64 \<times> u32 list) option" where
  "getint lflag ap = (if lflag \<ge> 2 then va_arg64 ap else do { (a, ap1) \<leftarrow> va_arg ap; Some (scast a, ap1) })"

section \<open>Directives\<close>

record spec =
  padc :: u32
  width :: int
  precision :: int
  lflag :: nat
  altflag :: bool

definition no_spec :: spec where
  "no_spec = \<lparr>padc = 32, width = - 1, precision = - 1, lflag = 0, altflag = False\<rparr>"

text \<open>A \<^verbatim>\<open>char\<close> is signed, so \<^verbatim>\<open>ch\<close> is sign-extended where it is not read through \<^verbatim>\<open>unsigned char *\<close>.\<close>

definition put_char :: "'s printer \<Rightarrow> bool \<Rightarrow> u8 \<Rightarrow> 's \<Rightarrow> 's" where
  "put_char pr alt b s =
    (let ch = scast b :: u32 in pr_put pr (if alt \<and> (sint ch < 32 \<or> sint ch > 126) then 63 else ch) s)"

partial_function (option) put_string :: "'s printer \<Rightarrow> bool \<Rightarrow> ptr \<Rightarrow> int \<Rightarrow> int \<Rightarrow> 's \<Rightarrow> (int \<times> 's) option" where
  "put_string pr alt p prec w s =
    (let b = pr_mem pr s p in
     if b = 0 \<or> prec = 0 then Some (w, s)
     else put_string pr alt (p + 1) (if prec < 0 then prec else prec - 1) (w - 1) (put_char pr alt b s))"

definition ascii_chars :: "string \<Rightarrow> u32 list" where
  "ascii_chars = map (\<lambda>c. of_nat (of_char c))"

definition put_chars :: "'s printer \<Rightarrow> u32 list \<Rightarrow> 's \<Rightarrow> 's" where
  "put_chars pr cs s = fold (pr_put pr) cs s"

definition error_string :: "int \<Rightarrow> string option" where
  "error_string e = (if e = 1 then Some ''unspecified error'' else if e = 2 then Some ''bad environment''
     else if e = 3 then Some ''invalid parameter'' else if e = 4 then Some ''out of memory''
     else if e = 5 then Some ''out of environments'' else if e = 6 then Some ''segmentation fault'' else None)"

text \<open>\<^verbatim>\<open>%e\<close> calls \<^verbatim>\<open>printfmt\<close> with \<^verbatim>\<open>"error %d"\<close> or \<^verbatim>\<open>"%s"\<close>; the smallest \<^verbatim>\<open>int\<close> stays negative and indexes before the table.\<close>

definition put_error :: "'s printer \<Rightarrow> u32 \<Rightarrow> 's \<Rightarrow> 's option" where
  "put_error pr a s =
    (let err = (if sint a < 0 then - a else a) in
     if sint err < 0 then None
     else (case error_string (sint err) of
             Some t \<Rightarrow> Some (put_chars pr (ascii_chars t) s)
           | None \<Rightarrow> printnum pr (ucast err) 10 (- 1) 32 (put_chars pr (ascii_chars ''error '') s)))"

definition put_padded :: "'s printer \<Rightarrow> spec \<Rightarrow> ptr \<Rightarrow> 's \<Rightarrow> 's option" where
  "put_padded pr c p s = do {
     let left = width c > 0 \<and> padc c \<noteq> 45;
     let w = (if left then width c - sint (strnlen (pr_mem pr s) p (of_int (precision c))) else width c);
     let s1 = (if left then put_times pr (padc c) (nat w) s else s);
     (w2, s2) \<leftarrow> put_string pr (altflag c) p (precision c) (if left then min w 0 else w) s1;
     Some (put_times pr 32 (nat w2) s2)
   }"

text \<open>
  The last character of a directive. \<^verbatim>\<open>(null)\<close> is in no memory of the model, it is printed as characters.
  In the \<^verbatim>\<open>default\<close> case the format goes back behind the percent sign.
\<close>

definition put_null :: "'s printer \<Rightarrow> spec \<Rightarrow> 's \<Rightarrow> 's" where
  "put_null pr c s =
    (let text = ascii_chars ''(null)'';
         len = (if precision c < 0 then 6 else min 6 (precision c));
         left = width c > 0 \<and> padc c \<noteq> 45;
         s1 = (if left then put_times pr (padc c) (nat (width c - len)) s else s);
         s2 = put_chars pr (take (nat len) text) s1
     in if left then s2 else put_times pr 32 (nat (width c - len)) s2)"

partial_function (option) back_to_percent :: "memory \<Rightarrow> ptr \<Rightarrow> ptr option" where
  "back_to_percent m fmt = (if m (fmt - 1) \<noteq> 37 then back_to_percent m (fmt - 1) else Some fmt)"

definition convert :: "'s printer \<Rightarrow> u8 \<Rightarrow> ptr \<Rightarrow> spec \<Rightarrow> u32 list \<Rightarrow> 's \<Rightarrow> (ptr \<times> u32 list \<times> 's) option" where
  "convert pr ch fmt c ap s =
    (let number = (\<lambda>num base ap s. do { s1 \<leftarrow> printnum pr num base (width c) (padc c) s; Some (fmt, ap, s1) }) in
     if ch = 99 then do { (a, ap1) \<leftarrow> va_arg ap; Some (fmt, ap1, pr_put pr a s) }
     else if ch = 101 then do { (a, ap1) \<leftarrow> va_arg ap; s1 \<leftarrow> put_error pr a s; Some (fmt, ap1, s1) }
     else if ch = 115 then do {
       (p, ap1) \<leftarrow> va_arg ap;
       s1 \<leftarrow> (if p = NULL then Some (put_null pr c s) else put_padded pr c p s);
       Some (fmt, ap1, s1)
     }
     else if ch = 100 then do {
       (num, ap1) \<leftarrow> getint (lflag c) ap;
       if sint num < 0 then number (- num) 10 ap1 (pr_put pr 45 s) else number num 10 ap1 s
     }
     else if ch = 117 then do { (num, ap1) \<leftarrow> getuint (lflag c) ap; number num 10 ap1 s }
     else if ch = 111 then Some (fmt, ap, put_times pr 88 3 s)
     else if ch = 112 then do { (a, ap1) \<leftarrow> va_arg ap; number (ucast a) 16 ap1 (pr_put pr 120 (pr_put pr 48 s)) }
     else if ch = 120 then do { (num, ap1) \<leftarrow> getuint (lflag c) ap; number num 16 ap1 s }
     else if ch = 37 then Some (fmt, ap, pr_put pr 37 s)
     else if ch = 126 then Some (fmt, ap, pr_prog pr 0 s)
     else if ch = 64 then Some (fmt, ap, pr_prog pr 1 s)
     else do { let s1 = pr_put pr 37 s; f \<leftarrow> back_to_percent (pr_mem pr s1) (fmt - 1); Some (f, ap, s1) })"

partial_function (option) read_number :: "memory \<Rightarrow> ptr \<Rightarrow> int \<Rightarrow> u8 \<Rightarrow> (int \<times> ptr) option" where
  "read_number m fmt prec ch =
    (let prec = prec * 10 + uint ch - 48; ch = m fmt in
     if ch < 48 \<or> ch > 57 then Some (prec, fmt) else read_number m (fmt + 1) prec ch)"

definition process_precision :: "int \<Rightarrow> spec \<Rightarrow> spec" where
  "process_precision prec c = (if width c < 0 then c\<lparr>width := prec, precision := - 1\<rparr> else c\<lparr>precision := prec\<rparr>)"

partial_function (option) directive :: "'s printer \<Rightarrow> ptr \<Rightarrow> spec \<Rightarrow> u32 list \<Rightarrow> 's \<Rightarrow> (ptr \<times> u32 list \<times> 's) option" where
  "directive pr fmt c ap s =
    (let ch = pr_mem pr s fmt; fmt = fmt + 1 in
     if ch = 45 then directive pr fmt (c\<lparr>padc := 45\<rparr>) ap s
     else if ch = 48 then directive pr fmt (c\<lparr>padc := 48\<rparr>) ap s
     else if 49 \<le> ch \<and> ch \<le> 57 then do {
       (prec, fmt) \<leftarrow> read_number (pr_mem pr s) fmt 0 ch;
       directive pr fmt (process_precision prec c) ap s
     }
     else if ch = 42 then do {
       (a, ap1) \<leftarrow> va_arg ap;
       directive pr fmt (process_precision (sint a) c) ap1 s
     }
     else if ch = 46 then directive pr fmt (if width c < 0 then c\<lparr>width := 0\<rparr> else c) ap s
     else if ch = 35 then directive pr fmt (c\<lparr>altflag := True\<rparr>) ap s
     else if ch = 108 then directive pr fmt (c\<lparr>lflag := lflag c + 1\<rparr>) ap s
     else convert pr ch fmt c ap s)"

partial_function (option) vprintfmt :: "'s printer \<Rightarrow> ptr \<Rightarrow> u32 list \<Rightarrow> 's \<Rightarrow> 's option" where
  "vprintfmt pr fmt ap s =
    (let ch = pr_mem pr s fmt in
     if ch \<noteq> 37 then (if ch = 0 then Some s else vprintfmt pr (fmt + 1) ap (pr_put pr (ucast ch) s))
     else do {
       (fmt, ap, s) \<leftarrow> directive pr (fmt + 1) no_spec ap s;
       vprintfmt pr fmt ap s
     })"

section \<open>Printing into a buffer\<close>

record sprintbuf =
  sb_buf :: ptr
  sb_ebuf :: ptr
  sb_cnt :: u32
  sb_mem :: memory
  sb_prog :: u8

definition sprintputch :: "u32 \<Rightarrow> sprintbuf \<Rightarrow> sprintbuf" where
  "sprintputch ch b =
    (let b = b\<lparr>sb_cnt := sb_cnt b + 1\<rparr> in
     if sb_buf b < sb_ebuf b then b\<lparr>sb_mem := (sb_mem b)(sb_buf b := ucast ch), sb_buf := sb_buf b + 1\<rparr> else b)"

definition buffer_printer :: "sprintbuf printer" where
  "buffer_printer = \<lparr>pr_put = sprintputch, pr_mem = sb_mem, pr_prog = (\<lambda>v b. b\<lparr>sb_prog := v\<rparr>)\<rparr>"

text \<open>The result for a missing buffer is \<^verbatim>\<open>-E_INVAL\<close>, which is 3.\<close>

definition vsnprintf :: "ptr \<Rightarrow> u32 \<Rightarrow> ptr \<Rightarrow> u32 list \<Rightarrow> memory \<Rightarrow> (u32 \<times> memory) option" where
  "vsnprintf buf n fmt ap m =
    (if buf = NULL \<or> sint n < 1 then Some (3, m)
     else do {
       b \<leftarrow> vprintfmt buffer_printer fmt ap \<lparr>sb_buf = buf, sb_ebuf = buf + n - 1, sb_cnt = 0, sb_mem = m, sb_prog = 0\<rparr>;
       Some (sb_cnt b, (sb_mem b)(sb_buf b := 0))
     })"

definition snprintf :: "ptr \<Rightarrow> u32 \<Rightarrow> ptr \<Rightarrow> u32 list \<Rightarrow> memory \<Rightarrow> (u32 \<times> memory) option" where
  "snprintf buf n fmt ap m = vsnprintf buf n fmt ap m"

section \<open>Printing on the console\<close>

record terminal =
  tm_console :: console
  tm_mem :: memory
  tm_count :: u32
  tm_prog :: u8

definition putch :: "u32 \<Rightarrow> terminal \<Rightarrow> terminal" where
  "putch ch t = t\<lparr>tm_console := cputchar ch (tm_console t), tm_count := tm_count t + 1\<rparr>"

definition console_printer :: "terminal printer" where
  "console_printer = \<lparr>pr_put = putch, pr_mem = tm_mem, pr_prog = (\<lambda>v t. t\<lparr>tm_prog := v\<rparr>)\<rparr>"

definition vcprintf :: "ptr \<Rightarrow> u32 list \<Rightarrow> memory \<Rightarrow> console \<Rightarrow> (u32 \<times> console) option" where
  "vcprintf fmt ap m s = do {
     t \<leftarrow> vprintfmt console_printer fmt ap \<lparr>tm_console = s, tm_mem = m, tm_count = 0, tm_prog = 0\<rparr>;
     Some (tm_count t, tm_console t)
   }"

section \<open>Reading a line\<close>

partial_function (option) getchar :: "console \<Rightarrow> (u32 \<times> console) option" where
  "getchar s = do { (c, s1) \<leftarrow> cons_getc s; if c = 0 then getchar s1 else Some (c, s1) }"

abbreviation "BUFLEN \<equiv> 1024 :: int"

text \<open>
  \<^verbatim>\<open>lib/readline.c\<close> is linked with the kernel and with the programs, each with its own \<^verbatim>\<open>getchar\<close>,
  \<^verbatim>\<open>cputchar\<close> and \<^verbatim>\<open>cprintf\<close> (here for \<^verbatim>\<open>cprintf("%s", prompt)\<close>). \<^verbatim>\<open>iscons\<close> is 1 in both, so characters are
  echoed. \<open>kernel_tty\<close> is the kernel's terminal.
\<close>

record 's tty =
  tty_getchar :: "'s \<Rightarrow> (u32 \<times> 's) option"
  tty_cputchar :: "u32 \<Rightarrow> 's \<Rightarrow> 's"
  tty_print :: "ptr \<Rightarrow> memory \<Rightarrow> 's \<Rightarrow> 's option"

definition kernel_tty :: "console tty" where
  "kernel_tty = \<lparr>tty_getchar = getchar, tty_cputchar = cputchar,
     tty_print = (\<lambda>str m s. do {
       t \<leftarrow> put_padded console_printer no_spec str \<lparr>tm_console = s, tm_mem = m, tm_count = 0, tm_prog = 0\<rparr>;
       Some (tm_console t)
     })\<rparr>"

partial_function (option) readline_loop :: "'s tty \<Rightarrow> ptr \<Rightarrow> int \<Rightarrow> memory \<times> 's \<Rightarrow> (memory \<times> 's) option" where
  "readline_loop tty buf i ms = do {
     (c, s) \<leftarrow> tty_getchar tty (snd ms);
     if sint c < 0 then Some (fst ms, s)
     else if sint c \<ge> 32 \<and> i < BUFLEN - 1 then
       readline_loop tty buf (i + 1) ((fst ms)(buf + of_int i := ucast c), tty_cputchar tty c s)
     else if c = 8 \<and> i > 0 then readline_loop tty buf (i - 1) (fst ms, tty_cputchar tty c s)
     else if c = 10 \<or> c = 13 then Some ((fst ms)(buf + of_int i := 0), tty_cputchar tty c s)
     else readline_loop tty buf i (fst ms, s)
   }"

definition readline :: "'s tty \<Rightarrow> ptr \<Rightarrow> ptr \<Rightarrow> memory \<times> 's \<Rightarrow> (memory \<times> 's) option" where
  "readline tty prompt buf ms = do {
     s \<leftarrow> (if prompt \<noteq> NULL then tty_print tty prompt (fst ms) (snd ms) else Some (snd ms));
     readline_loop tty buf 0 (fst ms, s)
   }"

end
