(* ===== verification/FOS_Printers.thy ===== *)
theory FOS_Printers
  imports FOS_Printf
begin

text \<open>
  The formatted printing of \<^verbatim>\<open>lib/printfmt.c\<close> does not look into the printer it prints with: printers
  whose states stay related print the same characters.
\<close>

section \<open>Simulation\<close>

text \<open>Two printers whose states stay related print the same way.\<close>

locale printer_simulation =
  fixes P :: "'s printer" and Q :: "'t printer" and R :: "'s \<Rightarrow> 't \<Rightarrow> bool"
  assumes put: "R s t \<Longrightarrow> R (pr_put P c s) (pr_put Q c t)"
    and prog: "R s t \<Longrightarrow> R (pr_prog P v s) (pr_prog Q v t)"
    and mem: "R s t \<Longrightarrow> pr_mem P s = pr_mem Q t"
begin

lemma put_times: "R s t \<Longrightarrow> R (put_times P c n s) (put_times Q c n t)"
  by (induction n arbitrary: s t) (simp_all add: put)

lemma put_chars: "R s t \<Longrightarrow> R (put_chars P cs s) (put_chars Q cs t)"
  unfolding put_chars_def by (induction cs arbitrary: s t) (simp_all add: put)

lemma put_null: "R s t \<Longrightarrow> R (put_null P c s) (put_null Q c t)"
  by (simp add: put_null_def Let_def put_times put_chars)

lemma printnum:
  assumes r: "printnum P num base w c s = Some s'" and "R s t"
  shows "\<exists>t'. printnum Q num base w c t = Some t' \<and> R s' t'"
proof -
  have "q = P \<longrightarrow> (\<forall>t. R s t \<longrightarrow> (\<exists>t'. printnum Q num base w c t = Some t' \<and> R s' t'))" if "printnum q num base w c s = Some s'" for q
    using that
  proof (rule printnum.raw_induct [rotated], goal_cases)
    case (1 f q num base w c s s')
    show ?case
    proof (intro impI allI)
      fix t assume q: "q = P" and R: "R s t"
      show "\<exists>t'. printnum Q num base w c t = Some t' \<and> R s' t'"
      proof (cases "base \<le> num")
        case True
        then obtain s1 where s1: "f q (num div base) base (w - 1) c s = Some s1" "s' = pr_put q (hex_digit (num mod base)) s1"
          using 1(2) by (auto simp: bind_eq_Some_conv)
        then obtain t1 where "printnum Q (num div base) base (w - 1) c t = Some t1" "R s1 t1" using 1(1) q R by blast
        then show ?thesis using True s1 q by (subst printnum.simps) (simp add: put)
      next
        case False
        then have "s' = pr_put P (hex_digit (num mod base)) (put_times P c (nat (w - 1)) s)" using 1(2) q by simp
        then show ?thesis using False R by (subst printnum.simps) (simp add: put put_times)
      qed
    qed
  qed
  then show ?thesis using assms by blast
qed

lemma put_char: "R s t \<Longrightarrow> R (put_char P alt b s) (put_char Q alt b t)"
  by (simp add: put_char_def Let_def put)

lemma put_string:
  assumes r: "put_string P alt p prec w s = Some (w', s')" and "R s t"
  shows "\<exists>t'. put_string Q alt p prec w t = Some (w', t') \<and> R s' t'"
proof -
  have "q = P \<longrightarrow> (\<forall>t. R s t \<longrightarrow> (\<exists>t'. put_string Q alt p prec w t = Some (fst r', t') \<and> R (snd r') t'))"
    if "put_string q alt p prec w s = Some r'" for q r'
    using that
  proof (rule put_string.raw_induct [rotated], goal_cases)
    case (1 f q alt p prec w s r')
    show ?case
    proof (intro impI allI)
      fix t assume q: "q = P" and R: "R s t"
      have m: "pr_mem Q t p = pr_mem P s p" using mem [OF R] by simp
      show "\<exists>t'. put_string Q alt p prec w t = Some (fst r', t') \<and> R (snd r') t'"
      proof (cases "pr_mem P s p = 0 \<or> prec = 0")
        case True
        then show ?thesis using 1(2) q R m by (subst put_string.simps) (auto simp: Let_def)
      next
        case False
        then have "f P alt (p + 1) (if prec < 0 then prec else prec - 1) (w - 1) (put_char P alt (pr_mem P s p) s) = Some r'"
          using 1(2) q by (simp only: Let_def if_False)
        then show ?thesis using 1(1) put_char [OF R] False m
          by (subst put_string.simps) (simp only: Let_def if_False m)
      qed
    qed
  qed
  then show ?thesis using assms by fastforce
qed

lemma put_padded:
  assumes "put_padded P c p s = Some s'" and R: "R s t"
  shows "\<exists>t'. put_padded Q c p t = Some t' \<and> R s' t'"
proof -
  define left where "left \<longleftrightarrow> width c > 0 \<and> padc c \<noteq> 45"
  define w where "w = (if left then width c - sint (strnlen (pr_mem P s) p (of_int (precision c))) else width c)"
  have w: "w = (if left then width c - sint (strnlen (pr_mem Q t) p (of_int (precision c))) else width c)"
    unfolding w_def mem [OF R] by simp
  have start: "R (if left then put_times P (padc c) (nat w) s else s) (if left then put_times Q (padc c) (nat w) t else t)"
    using R put_times by simp
  obtain w2 s2 where s2: "put_string P (altflag c) p (precision c) (if left then min w 0 else w)
      (if left then put_times P (padc c) (nat w) s else s) = Some (w2, s2)" "s' = put_times P 32 (nat w2) s2"
    using assms(1) unfolding put_padded_def Let_def left_def [symmetric] w_def [symmetric]
    by (auto simp: bind_eq_Some_conv)
  obtain t2 where "put_string Q (altflag c) p (precision c) (if left then min w 0 else w)
      (if left then put_times Q (padc c) (nat w) t else t) = Some (w2, t2)" "R s2 t2"
    using put_string [OF s2(1) start] by blast
  then show ?thesis using s2(2) put_times
    unfolding put_padded_def Let_def left_def [symmetric] w [symmetric] by simp
qed

lemma put_error:
  assumes "put_error P a s = Some s'" and R: "R s t"
  shows "\<exists>t'. put_error Q a t = Some t' \<and> R s' t'"
  using assms(1) unfolding put_error_def Let_def
  by (auto simp: put_chars [OF R] split: if_splits option.splits dest!: printnum [OF _ put_chars [OF R]])

lemma number:
  assumes "Option.bind (printnum P num base w c s) (\<lambda>s1. Some (fmt, ap, s1)) = Some (fmt', ap', s')" and "R s t"
  shows "\<exists>t'. Option.bind (printnum Q num base w c t) (\<lambda>s1. Some (fmt, ap, s1)) = Some (fmt', ap', t') \<and> R s' t'"
  using assms by (auto simp: bind_eq_Some_conv dest!: printnum)

lemma convert:
  assumes "convert P ch fmt c ap s = Some (fmt', ap', s')" and R: "R s t"
  shows "\<exists>t'. convert Q ch fmt c ap t = Some (fmt', ap', t') \<and> R s' t'"
proof -
  have m: "pr_mem P s1 = pr_mem Q t1" if "R s1 t1" for s1 t1 using mem that .
  note facts = put [OF R] put prog [OF R] put_times [OF R] put_null [OF R] m [OF put [OF R]]
  show ?thesis
    using assms(1) unfolding convert_def Let_def
    by (auto simp: bind_eq_Some_conv facts split: if_splits
        dest!: printnum [OF _ R] printnum [OF _ put [OF R]] printnum [OF _ put [OF put [OF R]]] put_padded [OF _ R] put_error [OF _ R])
      blast+
qed

lemma directive:
  assumes r: "directive P fmt c ap s = Some (fmt', ap', s')" and "R s t"
  shows "\<exists>t'. directive Q fmt c ap t = Some (fmt', ap', t') \<and> R s' t'"
proof -
  have "q = P \<longrightarrow> (\<forall>t. R s t \<longrightarrow> (\<exists>t'. directive Q fmt c ap t = Some (fst r', fst (snd r'), t') \<and> R (snd (snd r')) t'))"
    if "directive q fmt c ap s = Some r'" for q r'
    using that
  proof (rule directive.raw_induct [rotated], goal_cases)
    case (1 f q fmt c ap s r')
    show ?case
    proof (intro impI allI)
      fix t assume q: "q = P" and R: "R s t"
      note h = 1(2) [unfolded q Let_def mem [OF R]]
      show "\<exists>t'. directive Q fmt c ap t = Some (fst r', fst (snd r'), t') \<and> R (snd (snd r')) t'"
        using h 1(1) R convert [of "pr_mem Q t fmt" "fmt + 1" c ap s "fst r'" "fst (snd r')" "snd (snd r')" t]
        by (subst directive.simps) (auto simp: Let_def bind_eq_Some_conv q split: if_splits)
    qed
  qed
  then show ?thesis using assms by fastforce
qed

lemma vprintfmt:
  assumes r: "vprintfmt P fmt ap s = Some s'" and "R s t"
  shows "\<exists>t'. vprintfmt Q fmt ap t = Some t' \<and> R s' t'"
proof -
  have "q = P \<longrightarrow> (\<forall>t. R s t \<longrightarrow> (\<exists>t'. vprintfmt Q fmt ap t = Some t' \<and> R s' t'))"
    if "vprintfmt q fmt ap s = Some s'" for q
    using that
  proof (rule vprintfmt.raw_induct [rotated], goal_cases)
    case (1 f q fmt ap s s')
    show ?case
    proof (intro impI allI)
      fix t assume q: "q = P" and R: "R s t"
      note h = 1(2) [unfolded q Let_def mem [OF R]]
      show "\<exists>t'. vprintfmt Q fmt ap t = Some t' \<and> R s' t'"
      proof (cases "pr_mem Q t fmt = 37")
        case False
        then show ?thesis using h 1(1) R put [OF R] q
          by (subst vprintfmt.simps) (auto simp: Let_def split: if_splits)
      next
        case True
        then obtain fmt1 ap1 s1 where d: "directive P (fmt + 1) no_spec ap s = Some (fmt1, ap1, s1)" "f P fmt1 ap1 s1 = Some s'"
          using h by (auto simp: bind_eq_Some_conv)
        obtain t1 where t1: "directive Q (fmt + 1) no_spec ap t = Some (fmt1, ap1, t1)" "R s1 t1"
          using directive [OF d(1) R] by blast
        then have "\<exists>t'. vprintfmt Q fmt1 ap1 t1 = Some t' \<and> R s' t'" using 1(1) d(2) by blast
        then show ?thesis using True t1(1) by (subst vprintfmt.simps) (simp add: Let_def)
      qed
    qed
  qed
  then show ?thesis using assms by blast
qed

end

end
