(* ===== verification/FOS_UserPrint.thy ===== *)
theory FOS_UserPrint
  imports FOS_Printers
begin

text \<open>
  Printing from a program, \<^verbatim>\<open>lib/printf.c\<close>: characters are collected and handed to the kernel in pieces
  with \<^verbatim>\<open>sys_cputs\<close>. The calls made are recorded as the characters they pass and the value of
  \<^verbatim>\<open>printProgName\<close> they pass with them. The text arrives complete, in order, in pieces of 255
  characters and a rest.
\<close>

section \<open>Collecting characters\<close>

record printbuf =
  idx :: nat
  cnt :: u32
  buf :: "nat \<Rightarrow> u8"
  pb_calls :: "(u8 list \<times> u8) list"
  pb_mem :: memory
  pb_prog :: u8

definition sys_cputs_buf :: "printbuf \<Rightarrow> printbuf" where
  "sys_cputs_buf b = b\<lparr>pb_calls := pb_calls b @ [(map (buf b) [0..<idx b], pb_prog b)]\<rparr>"

definition user_putch :: "u32 \<Rightarrow> printbuf \<Rightarrow> printbuf" where
  "user_putch ch b =
    (let b = b\<lparr>buf := (buf b)(idx b := ucast ch), idx := idx b + 1\<rparr>;
         b = (if idx b = 256 - 1 then (sys_cputs_buf b)\<lparr>idx := 0\<rparr> else b)
     in b\<lparr>cnt := cnt b + 1\<rparr>)"

definition user_printer :: "printbuf printer" where
  "user_printer = \<lparr>pr_put = user_putch, pr_mem = pb_mem, pr_prog = (\<lambda>v b. b\<lparr>pb_prog := v\<rparr>)\<rparr>"

text \<open>The result is what is returned, the calls and the final value of \<^verbatim>\<open>printProgName\<close>; \<open>junk\<close> is what the stack held.\<close>

definition user_vcprintf :: "(nat \<Rightarrow> u8) \<Rightarrow> ptr \<Rightarrow> u32 list \<Rightarrow> memory \<Rightarrow> u8 \<Rightarrow> (u32 \<times> (u8 list \<times> u8) list \<times> u8) option" where
  "user_vcprintf junk fmt ap m printProgName = do {
     b \<leftarrow> vprintfmt user_printer fmt ap \<lparr>idx = 0, cnt = 0, buf = junk, pb_calls = [], pb_mem = m, pb_prog = printProgName\<rparr>;
     let b = sys_cputs_buf b;
     Some (cnt b, pb_calls b, 0)
   }"

definition user_cprintf :: "(nat \<Rightarrow> u8) \<Rightarrow> ptr \<Rightarrow> u32 list \<Rightarrow> memory \<Rightarrow> (u32 \<times> (u8 list \<times> u8) list \<times> u8) option" where
  "user_cprintf junk fmt ap m = user_vcprintf junk fmt ap m 1"

section \<open>The text\<close>

text \<open>The abstract printer keeps the text.\<close>

record text_state =
  tx_out :: "u8 list"
  tx_mem :: memory
  tx_prog :: u8

definition text_printer :: "text_state printer" where
  "text_printer = \<lparr>pr_put = (\<lambda>ch t. t\<lparr>tx_out := tx_out t @ [ucast ch]\<rparr>), pr_mem = tx_mem, pr_prog = (\<lambda>v t. t\<lparr>tx_prog := v\<rparr>)\<rparr>"

text \<open>What the program collected and sent is the text so far.\<close>

definition sends :: "text_state \<Rightarrow> printbuf \<Rightarrow> bool" where
  "sends t b \<longleftrightarrow> tx_out t = concat (map fst (pb_calls b)) @ map (buf b) [0..<idx b] \<and> idx b < 255 \<and>
     list_all (\<lambda>c. length (fst c) = 255) (pb_calls b) \<and> cnt b = of_nat (length (tx_out t)) \<and>
     pb_mem b = tx_mem t \<and> pb_prog b = tx_prog t"

lemma sends_put: "sends t b \<Longrightarrow> sends (pr_put text_printer c t) (pr_put user_printer c b)"
proof -
  assume h: "sends t b"
  have m: "map ((buf b)(idx b := ucast c)) [0..<Suc (idx b)] = map (buf b) [0..<idx b] @ [ucast c]" by simp
  have n: "cnt b + 1 = of_nat (length (tx_out t) + 1)" using h by (simp add: sends_def)
  show ?thesis
  proof (cases "idx b + 1 = 255")
    case True
    then show ?thesis using h m n
      by (simp add: sends_def text_printer_def user_printer_def user_putch_def sys_cputs_buf_def Let_def del: upt_Suc)
  next
    case False
    then show ?thesis using h m n
      by (simp add: sends_def text_printer_def user_printer_def user_putch_def Let_def del: upt_Suc)
  qed
qed

interpretation program: printer_simulation text_printer user_printer sends
proof unfold_locales
  show "sends t b \<Longrightarrow> sends (pr_put text_printer c t) (pr_put user_printer c b)" for t b c by (rule sends_put)
qed (simp_all add: sends_def text_printer_def user_printer_def)

text \<open>C40: Whatever the format prints, a program hands it to the kernel completely and in order: pieces of
  255 characters and a last one that is shorter; the number returned is the length of the text.\<close>

theorem user_cprintf_correct:
  assumes "vprintfmt text_printer fmt ap \<lparr>tx_out = [], tx_mem = m, tx_prog = 1\<rparr> = Some t"
  shows "\<exists>calls last prog. user_cprintf junk fmt ap m = Some (of_nat (length (tx_out t)), calls @ [(last, prog)], 0) \<and>
    concat (map fst calls) @ last = tx_out t \<and> list_all (\<lambda>c. length (fst c) = 255) calls \<and> length last < 255"
proof -
  have "sends \<lparr>tx_out = [], tx_mem = m, tx_prog = 1\<rparr> \<lparr>idx = 0, cnt = 0, buf = junk, pb_calls = [], pb_mem = m, pb_prog = 1\<rparr>"
    by (simp add: sends_def)
  from program.vprintfmt [OF assms this] obtain b
    where b: "vprintfmt user_printer fmt ap \<lparr>idx = 0, cnt = 0, buf = junk, pb_calls = [], pb_mem = m, pb_prog = 1\<rparr> = Some b"
      and s: "sends t b" by blast
  have e: "user_cprintf junk fmt ap m =
      Some (of_nat (length (tx_out t)), pb_calls b @ [(map (buf b) [0..<idx b], pb_prog b)], 0)"
    using b s by (simp add: user_cprintf_def user_vcprintf_def sys_cputs_buf_def sends_def)
  show ?thesis
    by (rule exI [of _ "pb_calls b"], rule exI [of _ "map (buf b) [0..<idx b]"], rule exI [of _ "pb_prog b"])
      (use e s in \<open>simp add: sends_def\<close>)
qed

theorem user_cprintf_correct_witness:
  "\<exists>calls last prog. user_cprintf (\<lambda>_. 7) 100 [] (\<lambda>a. if a = 100 then 72 else if a = 101 then 105 else 0) =
      Some (of_nat (length [72, 105 :: u8]), calls @ [(last, prog)], 0) \<and>
    concat (map fst calls) @ last = [72, 105 :: u8] \<and> list_all (\<lambda>c. length (fst c) = 255) calls \<and> length last < 255"
proof -
  have "vprintfmt text_printer 100 [] \<lparr>tx_out = [], tx_mem = (\<lambda>a. if a = 100 then 72 else if a = 101 then 105 else 0), tx_prog = 1\<rparr> =
    Some \<lparr>tx_out = [72, 105], tx_mem = (\<lambda>a. if a = 100 then 72 else if a = 101 then 105 else 0), tx_prog = 1\<rparr>"
    by (simp add: vprintfmt.simps text_printer_def)
  from user_cprintf_correct [OF this, of "\<lambda>_. 7"] show ?thesis by simp
qed

end
