(* ===== verification/FOS_Sorting.thy ===== *)
theory FOS_Sorting
  imports FOS_Prelude "HOL-Library.Multiset"
begin

text \<open>
  The sorting programs of \<^verbatim>\<open>user/\<close>: \<^verbatim>\<open>quicksort_noleakage.c\<close> and \<^verbatim>\<open>mergesort_noleakage.c\<close>, which the other
  versions of the two programs share, and that both sort. An array of C's \<open>int\<close> is a list; an access
  outside the array and an index outside the 32 bits of \<open>int\<close>, both undefined in C, are \<open>None\<close>; indices
  that stay within the length of an array are not checked again. All divisions that
  matter are of numbers that are not negative, where \<open>div\<close> and \<open>mod\<close> are C's.
\<close>

section \<open>Arrays\<close>

definition c_int :: "int \<Rightarrow> int option" where
  "c_int i = (if - 0x80000000 \<le> i \<and> i < 0x80000000 then Some i else None)"

definition elem :: "int list \<Rightarrow> int \<Rightarrow> int option" where
  "elem A i = (if 0 \<le> i \<and> i < int (length A) then Some (A ! nat i) else None)"

definition set_elem :: "int \<Rightarrow> int \<Rightarrow> int list \<Rightarrow> int list option" where
  "set_elem i x A = (if 0 \<le> i \<and> i < int (length A) then Some (A[nat i := x]) else None)"

definition Swap :: "int \<Rightarrow> int \<Rightarrow> int list \<Rightarrow> int list option" where
  "Swap First Second Elements = do {
     Tmp \<leftarrow> elem Elements First;
     x \<leftarrow> elem Elements Second;
     Elements \<leftarrow> set_elem First x Elements;
     set_elem Second Tmp Elements
   }"

section \<open>Filling and checking an array\<close>

definition fill :: "(int \<Rightarrow> int option) \<Rightarrow> int \<Rightarrow> int list \<Rightarrow> int list option" where
  "fill f NumOfElements Elements =
    fold (\<lambda>i r. do { A \<leftarrow> r; x \<leftarrow> f i; set_elem i x A }) [0..NumOfElements - 1] (Some Elements)"

definition InitializeAscending :: "int \<Rightarrow> int list \<Rightarrow> int list option" where
  "InitializeAscending = fill Some"

definition InitializeDescending :: "int \<Rightarrow> int list \<Rightarrow> int list option" where
  "InitializeDescending NumOfElements = fill (\<lambda>i. Some (NumOfElements - i - 1)) NumOfElements"

text \<open>Dividing by zero traps. The merge sort has no such guard: with fewer than three elements it divides by zero.\<close>

definition modulo :: "int \<Rightarrow> int \<Rightarrow> int option" where
  "modulo i n = (if n = 0 then None else Some (i mod n))"

definition InitializeSemiRandom :: "int \<Rightarrow> int list \<Rightarrow> int list option" where
  "InitializeSemiRandom NumOfElements =
    (let Repetition = NumOfElements div 3; Repetition = (if Repetition = 0 then 3 else Repetition)
     in fill (\<lambda>i. modulo i Repetition) NumOfElements)"

definition merge_InitializeSemiRandom :: "int \<Rightarrow> int list \<Rightarrow> int list option" where
  "merge_InitializeSemiRandom NumOfElements = (let Repetition = NumOfElements div 3 in fill (\<lambda>i. modulo i Repetition) NumOfElements)"

partial_function (option) check_from :: "int list \<Rightarrow> int \<Rightarrow> int \<Rightarrow> u32 option" where
  "check_from Elements NumOfElements i =
    (if i < NumOfElements - 1 then do {
       x \<leftarrow> elem Elements i;
       y \<leftarrow> elem Elements (i + 1);
       if x > y then Some 0 else check_from Elements NumOfElements (i + 1)
     }
     else Some 1)"

definition CheckSorted :: "int list \<Rightarrow> int \<Rightarrow> u32 option" where
  "CheckSorted Elements NumOfElements = check_from Elements NumOfElements 0"

section \<open>Quick sort\<close>

partial_function (option) scan_up :: "int list \<Rightarrow> int \<Rightarrow> int \<Rightarrow> int \<Rightarrow> int option" where
  "scan_up Elements startIndex finalIndex i =
    (if i \<le> finalIndex then do {
       p \<leftarrow> elem Elements startIndex;
       x \<leftarrow> elem Elements i;
       if p \<ge> x then do { i \<leftarrow> c_int (i + 1); scan_up Elements startIndex finalIndex i } else Some i
     }
     else Some i)"

partial_function (option) scan_down :: "int list \<Rightarrow> int \<Rightarrow> int \<Rightarrow> int option" where
  "scan_down Elements startIndex j =
    (if j > startIndex then do {
       p \<leftarrow> elem Elements startIndex;
       x \<leftarrow> elem Elements j;
       if p \<le> x then do { j \<leftarrow> c_int (j - 1); scan_down Elements startIndex j } else Some j
     }
     else Some j)"

partial_function (option) partition_loop :: "int \<Rightarrow> int \<Rightarrow> int list \<Rightarrow> int \<Rightarrow> int \<Rightarrow> (int list \<times> int \<times> int) option" where
  "partition_loop startIndex finalIndex Elements i j =
    (if i \<le> j then do {
       i \<leftarrow> scan_up Elements startIndex finalIndex i;
       j \<leftarrow> scan_down Elements startIndex j;
       Elements \<leftarrow> (if i \<le> j then Swap i j Elements else Some Elements);
       partition_loop startIndex finalIndex Elements i j
     }
     else Some (Elements, i, j))"

partial_function (option) QSort :: "int list \<Rightarrow> int \<Rightarrow> int \<Rightarrow> int list option" where
  "QSort Elements startIndex finalIndex =
    (if startIndex \<ge> finalIndex then Some Elements
     else do {
       i \<leftarrow> c_int (startIndex + 1);
       (Elements, i, j) \<leftarrow> partition_loop startIndex finalIndex Elements i finalIndex;
       Elements \<leftarrow> Swap startIndex j Elements;
       j \<leftarrow> c_int (j - 1);
       Elements \<leftarrow> QSort Elements startIndex j;
       QSort Elements i finalIndex
     })"

definition QuickSort :: "int list \<Rightarrow> int \<Rightarrow> int list option" where
  "QuickSort Elements NumOfElements = do { n \<leftarrow> c_int (NumOfElements - 1); QSort Elements 0 n }"

section \<open>Merge sort\<close>

text \<open>
  \<open>granted\<close> says for which sizes \<^verbatim>\<open>malloc\<close> gives memory; a null pointer is not checked and the first
  write through it ends the program. The two arrays are filled from the first to the last element.
\<close>

definition copy_part :: "(u32 \<Rightarrow> bool) \<Rightarrow> int list \<Rightarrow> int \<Rightarrow> int \<Rightarrow> int list option" where
  "copy_part granted A from capacity =
    (if granted (4 * word_of_int capacity) then those (map (\<lambda>i. elem A (from + i)) [0..capacity - 1]) else None)"

partial_function (option) merge_loop :: "int list \<Rightarrow> int list \<Rightarrow> int \<Rightarrow> int \<Rightarrow> int \<Rightarrow> int \<Rightarrow> int list \<Rightarrow> int list option" where
  "merge_loop lefts rights r k leftIndex rightIndex A =
    (if k \<le> r then do {
       let leftCapacity = int (length lefts);
       let rightCapacity = int (length rights);
       left \<leftarrow> (if leftIndex < leftCapacity \<and> rightIndex < rightCapacity then do {
         x \<leftarrow> elem lefts leftIndex;
         y \<leftarrow> elem rights rightIndex;
         Some (x < y)
       } else Some (leftIndex < leftCapacity));
       if left then do {
         x \<leftarrow> elem lefts leftIndex;
         A \<leftarrow> set_elem (k - 1) x A;
         merge_loop lefts rights r (k + 1) (leftIndex + 1) rightIndex A
       } else do {
         y \<leftarrow> elem rights rightIndex;
         A \<leftarrow> set_elem (k - 1) y A;
         merge_loop lefts rights r (k + 1) leftIndex (rightIndex + 1) A
       }
     }
     else Some A)"

definition Merge :: "(u32 \<Rightarrow> bool) \<Rightarrow> int list \<Rightarrow> int \<Rightarrow> int \<Rightarrow> int \<Rightarrow> int list option" where
  "Merge granted A p q r = do {
     lefts \<leftarrow> copy_part granted A (p - 1) (q - p + 1);
     rights \<leftarrow> copy_part granted A q (r - q);
     merge_loop lefts rights r p 0 0 A
   }"

partial_function (option) MSort :: "(u32 \<Rightarrow> bool) \<Rightarrow> int list \<Rightarrow> int \<Rightarrow> int \<Rightarrow> int list option" where
  "MSort granted A p r =
    (if p \<ge> r then Some A
     else do {
       s \<leftarrow> c_int (p + r);
       let q = s div 2;
       A \<leftarrow> MSort granted A p q;
       A \<leftarrow> MSort granted A (q + 1) r;
       Merge granted A p q r
     })"

end
