(* ===== verification/FOS_SortingProps.thy ===== *)
theory FOS_SortingProps
  imports FOS_Sorting
begin

text \<open>
  Both sorting programs sort: on every array they return, without leaving the array or the range of
  \<open>int\<close>, the sorted permutation of it.
\<close>

section \<open>Arrays up to the order of a part\<close>

definition part :: "nat \<Rightarrow> nat \<Rightarrow> int list \<Rightarrow> int list" where
  "part lo hi xs = drop lo (take hi xs)"

text \<open>\<open>ys\<close> is \<open>xs\<close> with the elements from \<open>lo\<close> to before \<open>hi\<close> rearranged.\<close>

definition rearranged :: "nat \<Rightarrow> nat \<Rightarrow> int list \<Rightarrow> int list \<Rightarrow> bool" where
  "rearranged lo hi xs ys \<longleftrightarrow> length ys = length xs \<and> take lo ys = take lo xs \<and> drop hi ys = drop hi xs \<and> mset ys = mset xs"

lemma rearranged_refl [simp]: "rearranged lo hi xs xs"
  by (simp add: rearranged_def)

lemma rearranged_trans: "rearranged lo hi xs ys \<Longrightarrow> rearranged lo hi ys zs \<Longrightarrow> rearranged lo hi xs zs"
  by (simp add: rearranged_def)

lemma rearranged_mono:
  assumes "rearranged lo hi xs ys" "lo' \<le> lo" "hi \<le> hi'"
  shows "rearranged lo' hi' xs ys"
proof -
  have t: "take lo' zs = take lo' (take lo zs)" "drop hi' zs = drop (hi' - hi) (drop hi zs)" for zs :: "int list"
    using assms(2,3) by simp_all
  have "take lo' ys = take lo' xs" "drop hi' ys = drop hi' xs"
    using assms(1) t(1) [of ys] t(1) [of xs] t(2) [of ys] t(2) [of xs] unfolding rearranged_def by presburger+
  then show ?thesis using assms(1) by (simp add: rearranged_def)
qed

lemma part_nth: "hi \<le> length xs \<Longrightarrow> i < hi - lo \<Longrightarrow> part lo hi xs ! i = xs ! (lo + i)"
  by (simp add: part_def)

lemma rearranged_part:
  assumes "rearranged lo hi xs ys" "lo \<le> hi"
  shows "mset (part lo hi ys) = mset (part lo hi xs)"
proof -
  have split: "zs = take lo zs @ part lo hi zs @ drop hi zs" for zs :: "int list"
  proof -
    have "take lo (take hi zs) @ drop lo (take hi zs) = take hi zs" by (rule append_take_drop_id)
    then have "take lo zs @ part lo hi zs = take hi zs" using assms(2) by (simp add: part_def min_absorb1)
    then show ?thesis by (metis append.assoc append_take_drop_id)
  qed
  have "mset ys = mset xs" using assms(1) by (simp add: rearranged_def)
  then have "mset (take lo ys) + mset (part lo hi ys) + mset (drop hi ys) = mset (take lo xs) + mset (part lo hi xs) + mset (drop hi xs)"
    using split [of ys] split [of xs] by (metis mset_append union_assoc)
  then show ?thesis using assms(1) by (simp add: rearranged_def)
qed

lemma rearranged_all:
  assumes "rearranged lo hi xs ys" "lo \<le> hi" "hi \<le> length xs" "\<And>k. lo \<le> k \<Longrightarrow> k < hi \<Longrightarrow> Q (xs ! k)" "lo \<le> k" "k < hi"
  shows "Q (ys ! k)"
proof -
  have len: "length ys = length xs" using assms(1) by (simp add: rearranged_def)
  have "part lo hi ys ! (k - lo) \<in> set (part lo hi ys)" by (rule nth_mem) (use assms len in \<open>simp add: part_def\<close>)
  then have "ys ! k \<in> set (part lo hi xs)"
    using part_nth [of hi ys "k - lo" lo] assms len mset_eq_setD [OF rearranged_part [OF assms(1,2)]] by simp
  then obtain i where "i < length (part lo hi xs)" "ys ! k = part lo hi xs ! i" by (metis in_set_conv_nth)
  then show ?thesis using part_nth [of hi xs i lo] assms(2-4) by (simp add: part_def)
qed

lemma rearranged_outside:
  assumes "rearranged lo hi xs ys" "hi \<le> length xs" "k < lo \<or> hi \<le> k \<and> k < length xs"
  shows "ys ! k = xs ! k"
proof -
  have len: "length ys = length xs" using assms(1) by (simp add: rearranged_def)
  show ?thesis
  proof (cases "k < lo")
    case True
    then show ?thesis using assms(1) by (metis rearranged_def nth_take)
  next
    case False
    then have "hi \<le> k" using assms(3) by simp
    then have "ys ! k = drop hi ys ! (k - hi)" "xs ! k = drop hi xs ! (k - hi)" using assms len by simp_all
    then show ?thesis using assms(1) by (simp add: rearranged_def)
  qed
qed

lemma Swap_ok:
  assumes "lo \<le> a" "a < hi" "lo \<le> b" "b < hi" "hi \<le> length xs"
  shows "\<exists>ys. Swap (int a) (int b) xs = Some ys \<and> rearranged lo hi xs ys \<and> ys ! a = xs ! b \<and> ys ! b = xs ! a \<and>
    (\<forall>k. k \<noteq> a \<longrightarrow> k \<noteq> b \<longrightarrow> ys ! k = xs ! k)"
proof -
  let ?ys = "xs[a := xs ! b, b := xs ! a]"
  have "Swap (int a) (int b) xs = Some ?ys" using assms by (simp add: Swap_def elem_def set_elem_def)
  moreover have "mset ?ys = mset xs" using assms by (intro mset_swap) simp_all
  then have "rearranged lo hi xs ?ys" using assms by (simp add: rearranged_def)
  ultimately show ?thesis using assms by (intro exI [of _ ?ys]) (auto simp: nth_list_update)
qed

section \<open>The scans\<close>

lemma scan_up_ok:
  assumes "s < f" "f < length xs" "length xs < 0x80000000" "s < i" "i \<le> Suc f"
  shows "\<exists>i'. scan_up xs (int s) (int f) (int i) = Some (int i') \<and> i \<le> i' \<and> i' \<le> Suc f \<and>
    (\<forall>k. i \<le> k \<longrightarrow> k < i' \<longrightarrow> xs ! k \<le> xs ! s) \<and> (i' \<le> f \<longrightarrow> xs ! s < xs ! i')"
  using assms(4,5)
proof (induction "Suc f - i" arbitrary: i)
  case 0
  then show ?case by (intro exI [of _ i]) (simp add: scan_up.simps)
next
  case (Suc d)
  then have i: "i \<le> f" by simp
  show ?case
  proof (cases "xs ! i \<le> xs ! s")
    case True
    have "\<exists>i'. scan_up xs (int s) (int f) (int (Suc i)) = Some (int i') \<and> Suc i \<le> i' \<and> i' \<le> Suc f \<and>
        (\<forall>k. Suc i \<le> k \<longrightarrow> k < i' \<longrightarrow> xs ! k \<le> xs ! s) \<and> (i' \<le> f \<longrightarrow> xs ! s < xs ! i')"
      by (rule Suc.hyps(1)) (use Suc.hyps(2) Suc.prems i in simp_all)
    then obtain i' where
      r: "scan_up xs (int s) (int f) (int (Suc i)) = Some (int i')" "Suc i \<le> i'" "i' \<le> Suc f"
        "\<forall>k. Suc i \<le> k \<longrightarrow> k < i' \<longrightarrow> xs ! k \<le> xs ! s" "i' \<le> f \<longrightarrow> xs ! s < xs ! i'" by blast
    have "scan_up xs (int s) (int f) (int i) = scan_up xs (int s) (int f) (int (Suc i))"
      using True i assms(1-3) by (subst scan_up.simps) (simp add: elem_def c_int_def add.commute)
    moreover have "xs ! k \<le> xs ! s" if "i \<le> k" "k < i'" for k
      using r(4) True that by (cases "k = i") auto
    ultimately show ?thesis using r by (intro exI [of _ i']) simp
  next
    case False
    then have "scan_up xs (int s) (int f) (int i) = Some (int i)"
      using i assms(1,2) by (subst scan_up.simps) (simp add: elem_def)
    then show ?thesis using False i by (intro exI [of _ i]) simp
  qed
qed

lemma scan_down_ok:
  assumes "j < length xs" "length xs < 0x80000000" "s \<le> j"
  shows "\<exists>j'. scan_down xs (int s) (int j) = Some (int j') \<and> s \<le> j' \<and> j' \<le> j \<and>
    (\<forall>k. j' < k \<longrightarrow> k \<le> j \<longrightarrow> xs ! s \<le> xs ! k) \<and> (s < j' \<longrightarrow> xs ! j' < xs ! s)"
  using assms(1,3)
proof (induction "j - s" arbitrary: j)
  case 0
  then show ?case by (intro exI [of _ j]) (simp add: scan_down.simps)
next
  case (Suc d)
  then have j: "s < j" by simp
  show ?case
  proof (cases "xs ! s \<le> xs ! j")
    case True
    have "\<exists>j'. scan_down xs (int s) (int (j - 1)) = Some (int j') \<and> s \<le> j' \<and> j' \<le> j - 1 \<and>
        (\<forall>k. j' < k \<longrightarrow> k \<le> j - 1 \<longrightarrow> xs ! s \<le> xs ! k) \<and> (s < j' \<longrightarrow> xs ! j' < xs ! s)"
      by (rule Suc.hyps(1)) (use Suc.hyps(2) Suc.prems j in simp_all)
    then obtain j' where
      r: "scan_down xs (int s) (int (j - 1)) = Some (int j')" "s \<le> j'" "j' \<le> j - 1"
        "\<forall>k. j' < k \<longrightarrow> k \<le> j - 1 \<longrightarrow> xs ! s \<le> xs ! k" "s < j' \<longrightarrow> xs ! j' < xs ! s" by blast
    have "scan_down xs (int s) (int j) = scan_down xs (int s) (int (j - 1))"
      using True j Suc.prems(1) assms(2) by (subst scan_down.simps) (simp add: elem_def c_int_def of_nat_diff)
    moreover have "xs ! s \<le> xs ! k" if "j' < k" "k \<le> j" for k
      using r(4) True that by (cases "k = j") auto
    ultimately show ?thesis using r j by (intro exI [of _ j']) auto
  next
    case False
    then have "scan_down xs (int s) (int j) = Some (int j)"
      using j Suc.prems(1) by (subst scan_down.simps) (simp add: elem_def)
    then show ?thesis using False j by (intro exI [of _ j]) auto
  qed
qed

section \<open>The partition\<close>

text \<open>Left of \<open>i\<close> nothing is above the pivot at \<open>s\<close>, right of \<open>j\<close> nothing is below it.\<close>

definition split_at :: "nat \<Rightarrow> nat \<Rightarrow> nat \<Rightarrow> nat \<Rightarrow> int list \<Rightarrow> bool" where
  "split_at s f i j xs \<longleftrightarrow> s < i \<and> i \<le> Suc f \<and> s \<le> j \<and> j \<le> f \<and>
     (\<forall>k. s < k \<longrightarrow> k < i \<longrightarrow> xs ! k \<le> xs ! s) \<and> (\<forall>k. j < k \<longrightarrow> k \<le> f \<longrightarrow> xs ! s \<le> xs ! k)"

definition parted :: "nat \<Rightarrow> nat \<Rightarrow> int list \<Rightarrow> int list \<Rightarrow> nat \<Rightarrow> nat \<Rightarrow> bool" where
  "parted s f xs ys i j \<longleftrightarrow> rearranged (Suc s) (Suc f) xs ys \<and> ys ! s = xs ! s \<and> split_at s f i j ys \<and> j < i"

lemma parted_trans: "rearranged (Suc s) (Suc f) xs ys \<Longrightarrow> ys ! s = xs ! s \<Longrightarrow> parted s f ys zs i j \<Longrightarrow> parted s f xs zs i j"
  using rearranged_trans by (auto simp: parted_def)

lemma partition_loop_done: "j < i \<Longrightarrow> partition_loop s f xs i j = Some (xs, i, j)"
  by (simp add: partition_loop.simps)

lemma partition_step:
  assumes sf: "s < f" "f < length xs" "length xs < 0x80000000" and sp: "split_at s f i j xs" and ij: "i \<le> j"
  obtains (halt) i' j' where "partition_loop (int s) (int f) xs (int i) (int j) = Some (xs, int i', int j')" "split_at s f i' j' xs" "j' < i'"
  | (again) i' j' ys where
      "partition_loop (int s) (int f) xs (int i) (int j) = partition_loop (int s) (int f) ys (int i') (int j')"
      "rearranged (Suc s) (Suc f) xs ys" "ys ! s = xs ! s" "split_at s f i' j' ys" "ys ! i' \<le> ys ! s"
      "i \<le> i'" "i' \<le> j'" "j' \<le> j" "xs ! i \<le> xs ! s \<longrightarrow> i < i'"
proof -
  have b: "s < i" "i \<le> Suc f" "s \<le> j" "j \<le> f" and lo: "\<And>k. s < k \<Longrightarrow> k < i \<Longrightarrow> xs ! k \<le> xs ! s"
    and hi: "\<And>k. j < k \<Longrightarrow> k \<le> f \<Longrightarrow> xs ! s \<le> xs ! k" using sp by (auto simp: split_at_def)
  from scan_up_ok [OF sf b(1,2)] obtain i' where
    u: "scan_up xs (int s) (int f) (int i) = Some (int i')" "i \<le> i'" "i' \<le> Suc f"
      "\<forall>k. i \<le> k \<longrightarrow> k < i' \<longrightarrow> xs ! k \<le> xs ! s" "i' \<le> f \<longrightarrow> xs ! s < xs ! i'" by blast
  have "j < length xs" using b sf by simp
  from scan_down_ok [OF this sf(3) b(3)] obtain j' where
    d: "scan_down xs (int s) (int j) = Some (int j')" "s \<le> j'" "j' \<le> j"
      "\<forall>k. j' < k \<longrightarrow> k \<le> j \<longrightarrow> xs ! s \<le> xs ! k" "s < j' \<longrightarrow> xs ! j' < xs ! s" by blast
  have lo': "xs ! k \<le> xs ! s" if "s < k" "k < i'" for k using lo u(4) that by (cases "k < i") auto
  have hi': "xs ! s \<le> xs ! k" if "j' < k" "k \<le> f" for k using hi d(4) that by (cases "j < k") auto
  note step = partition_loop.simps [of "int s" "int f" xs "int i" "int j"]
  show ?thesis
  proof (cases "i' \<le> j'")
    case False
    have "split_at s f i' j' xs" using b u(2,3) d(2,3) lo' hi' by (simp add: split_at_def)
    moreover have "partition_loop (int s) (int f) xs (int i) (int j) = Some (xs, int i', int j')"
      using ij u(1) d(1) False by (simp add: step partition_loop_done)
    ultimately show ?thesis using halt False by simp
  next
    case True
    have r: "Suc s \<le> i'" "i' < Suc f" "Suc s \<le> j'" "j' < Suc f" "Suc f \<le> length xs"
      using True b u(2) d(2,3) sf by simp_all
    from Swap_ok [OF r] obtain ys where
      sw: "Swap (int i') (int j') xs = Some ys" "rearranged (Suc s) (Suc f) xs ys" "ys ! i' = xs ! j'" "ys ! j' = xs ! i'"
        "\<forall>k. k \<noteq> i' \<longrightarrow> k \<noteq> j' \<longrightarrow> ys ! k = xs ! k" by blast
    have piv: "ys ! s = xs ! s" using sw(5) r by auto
    have ends: "xs ! s < xs ! i'" "xs ! j' < xs ! s" using u(5) d(5) r by simp_all
    have "ys ! k \<le> ys ! s" if "s < k" "k < i'" for k
      using lo' [OF that] sw(5) that True piv by simp
    moreover have "ys ! s \<le> ys ! k" if "j' < k" "k \<le> f" for k
      using hi' [OF that] sw(5) that True piv by simp
    ultimately have "split_at s f i' j' ys" using r by (simp add: split_at_def)
    moreover have "partition_loop (int s) (int f) xs (int i) (int j) = partition_loop (int s) (int f) ys (int i') (int j')"
      using ij u(1) d(1) True sw(1) by (simp add: step)
    moreover have "ys ! i' \<le> ys ! s" using sw(3) ends piv by simp
    moreover have "xs ! i \<le> xs ! s \<longrightarrow> i < i'" using ends(1) u(2) by (cases "i = i'") auto
    ultimately show ?thesis using again sw(2) piv u(2) True d(3) by blast
  qed
qed

lemma partition_loop_ok:
  assumes "s < f" "f < length xs" "length xs < 0x80000000" "split_at s f i j xs"
  shows "\<exists>ys i' j'. partition_loop (int s) (int f) xs (int i) (int j) = Some (ys, int i', int j') \<and> parted s f xs ys i' j'"
  using assms
proof (induction "2 * (Suc j - i) + (if xs ! i \<le> xs ! s then 0 else 1 :: nat)" arbitrary: xs i j rule: less_induct)
  case less
  show ?case
  proof (cases "i \<le> j")
    case False
    then have "partition_loop (int s) (int f) xs (int i) (int j) = Some (xs, int i, int j)" by (simp add: partition_loop_done)
    then show ?thesis using less.prems False by (auto simp: parted_def)
  next
    case True
    show ?thesis
    proof (cases rule: partition_step [OF less.prems True])
      case (1 i' j')
      then show ?thesis by (auto simp: parted_def)
    next
      case (2 i' j' ys)
      have "\<exists>zs i'' j''. partition_loop (int s) (int f) ys (int i') (int j') = Some (zs, int i'', int j'') \<and> parted s f ys zs i'' j''"
      proof (rule less.hyps)
        show "2 * (Suc j' - i') + (if ys ! i' \<le> ys ! s then 0 else 1) < 2 * (Suc j - i) + (if xs ! i \<le> xs ! s then 0 else 1)"
          using 2 True by auto
        show "f < length ys" "length ys < 0x80000000" using 2(2) less.prems by (simp_all add: rearranged_def)
      qed (use less.prems(1) 2 in simp_all)
      then show ?thesis using 2 parted_trans by metis
    qed
  qed
qed

section \<open>Quick sort\<close>

definition ordered :: "nat \<Rightarrow> nat \<Rightarrow> int list \<Rightarrow> bool" where
  "ordered lo hi xs \<longleftrightarrow> (\<forall>a b. lo \<le> a \<longrightarrow> a \<le> b \<longrightarrow> b < hi \<longrightarrow> xs ! a \<le> xs ! b)"

text \<open>Sorting what is left of the pivot and what is right of it sorts the whole.\<close>

lemma ordered_join:
  assumes l: "ordered s j ws" "rearranged s j zs ws" and r: "ordered i (Suc f) vs" "rearranged i (Suc f) ws vs"
    and b: "s \<le> j" "j < i" "i \<le> Suc f" "f < length zs"
    and low: "\<And>k. s \<le> k \<Longrightarrow> k < j \<Longrightarrow> zs ! k \<le> p" and mid: "\<And>k. j \<le> k \<Longrightarrow> k < i \<Longrightarrow> zs ! k = p"
    and high: "\<And>k. i \<le> k \<Longrightarrow> k \<le> f \<Longrightarrow> p \<le> zs ! k"
  shows "ordered s (Suc f) vs"
proof -
  have len: "length ws = length zs" "length vs = length zs" using l(2) r(2) by (simp_all add: rearranged_def)
  have vw: "vs ! k = ws ! k" if "k < i" for k by (rule rearranged_outside [OF r(2)]) (use that b len in auto)
  have wz: "ws ! k = zs ! k" if "j \<le> k" "k \<le> f" for k by (rule rearranged_outside [OF l(2)]) (use that b len in auto)
  have low': "vs ! k \<le> p" if "s \<le> k" "k < j" for k
  proof -
    have "ws ! k \<le> p" by (rule rearranged_all [OF l(2)]) (use that b low in auto)
    then show ?thesis using vw [of k] that b by simp
  qed
  have mid': "vs ! k = p" if "j \<le> k" "k < i" for k using vw [of k] wz [of k] mid [of k] that b by simp
  have high': "p \<le> vs ! k" if "i \<le> k" "k < Suc f" for k
    by (rule rearranged_all [OF r(2)]) (use that b len high wz in auto)
  show ?thesis
    unfolding ordered_def
  proof (intro allI impI)
    fix a c assume a: "s \<le> a" "a \<le> c" "c < Suc f"
    consider "c < j" | "a < j" "j \<le> c" | "j \<le> a" "a < i" | "i \<le> a" using a by linarith
    then show "vs ! a \<le> vs ! c"
    proof cases
      case 1
      then show ?thesis using l(1) a vw [of a] vw [of c] b by (simp add: ordered_def)
    next
      case 2
      have "p \<le> vs ! c" using mid' [of c] high' [of c] 2 a by (cases "c < i") auto
      then show ?thesis using low' [of a] 2 a by simp
    next
      case 3
      have "p \<le> vs ! c" using mid' [of c] high' [of c] 3 a by (cases "c < i") auto
      then show ?thesis using mid' [of a] 3 by simp
    next
      case 4
      then show ?thesis using r(1) a by (simp add: ordered_def)
    qed
  qed
qed

text \<open>One partition with the exchange after it: the pivot is at its place.\<close>

lemma partition_ok:
  assumes f: "lo < f" "f < length xs" "length xs < 0x80000000"
  obtains ys zs i j where "partition_loop (int lo) (int f) xs (int (Suc lo)) (int f) = Some (ys, int i, int j)"
    "Swap (int lo) (int j) ys = Some zs" "rearranged lo (Suc f) xs zs" "length zs = length xs"
    "lo \<le> j" "j < i" "j \<le> f" "i \<le> Suc f"
    "\<And>k. lo \<le> k \<Longrightarrow> k < j \<Longrightarrow> zs ! k \<le> zs ! j" "\<And>k. j \<le> k \<Longrightarrow> k < i \<Longrightarrow> zs ! k = zs ! j"
    "\<And>k. i \<le> k \<Longrightarrow> k \<le> f \<Longrightarrow> zs ! j \<le> zs ! k"
proof -
  have "split_at lo f (Suc lo) f xs" using f by (simp add: split_at_def)
  from partition_loop_ok [OF f this] obtain ys i j where
    part: "partition_loop (int lo) (int f) xs (int (Suc lo)) (int f) = Some (ys, int i, int j)" "parted lo f xs ys i j" by blast
  note pt = part(2) [unfolded parted_def split_at_def]
  have len: "length ys = length xs" using pt by (simp add: rearranged_def)
  from Swap_ok [of lo lo "Suc f" j ys] pt f len obtain zs where
    sw: "Swap (int lo) (int j) ys = Some zs" "rearranged lo (Suc f) ys zs" "zs ! lo = ys ! j" "zs ! j = ys ! lo"
      "\<forall>k. k \<noteq> lo \<longrightarrow> k \<noteq> j \<longrightarrow> zs ! k = ys ! k" by auto
  have "rearranged lo (Suc f) xs ys" by (rule rearranged_mono [where lo = "Suc lo" and hi = "Suc f"]) (use pt in auto)
  then have re: "rearranged lo (Suc f) xs zs" using sw(2) rearranged_trans by blast
  have low: "zs ! k \<le> zs ! j" if "lo \<le> k" "k < j" for k
    using that sw(3,4,5) pt by (cases "k = lo") auto
  have mid: "zs ! k = zs ! j" if "j \<le> k" "k < i" for k
  proof (cases "k = j")
    case F: False
    then have "zs ! k = ys ! k" using sw(5) that pt by simp
    moreover have "ys ! k \<le> ys ! lo" "ys ! lo \<le> ys ! k" using pt that F by auto
    ultimately show ?thesis using sw(4) by simp
  qed simp
  have high: "zs ! j \<le> zs ! k" if "i \<le> k" "k \<le> f" for k
  proof -
    have "j < k" "k \<noteq> lo" using that pt by auto
    then have "zs ! k = ys ! k" "ys ! lo \<le> ys ! k" using sw(5) pt that by blast+
    then show ?thesis using sw(4) by simp
  qed
  show ?thesis
    by (rule that [OF part(1) sw(1) re _ _ _ _ _ low mid high]) (use pt re in \<open>auto simp: rearranged_def\<close>)
qed

lemma QSort_ok:
  assumes "lo \<le> hi" "hi \<le> length xs" "length xs < 0x80000000"
  shows "\<exists>ys. QSort xs (int lo) (int hi - 1) = Some ys \<and> rearranged lo hi xs ys \<and> ordered lo hi ys"
  using assms
proof (induction "hi - lo" arbitrary: lo hi xs rule: less_induct)
  case less
  show ?case
  proof (cases "int lo \<ge> int hi - 1")
    case True
    then have "QSort xs (int lo) (int hi - 1) = Some xs" by (simp add: QSort.simps)
    moreover have "ordered lo hi xs"
      unfolding ordered_def
    proof (intro allI impI)
      fix a b assume "lo \<le> a" "a \<le> b" "b < hi"
      then have "a = b" using True by linarith
      then show "xs ! a \<le> xs ! b" by simp
    qed
    ultimately show ?thesis by simp
  next
    case False
    define f where "f = hi - 1"
    have f: "hi = Suc f" "lo < f" "f < length xs" "int hi - 1 = int f" using False less.prems by (auto simp: f_def)
    obtain ys zs i j where
      pt: "partition_loop (int lo) (int f) xs (int (Suc lo)) (int f) = Some (ys, int i, int j)"
        "Swap (int lo) (int j) ys = Some zs" "rearranged lo (Suc f) xs zs" and lz: "length zs = length xs"
      and b: "lo \<le> j" "j < i" "j \<le> f" "i \<le> Suc f"
      and low: "\<And>k. lo \<le> k \<Longrightarrow> k < j \<Longrightarrow> zs ! k \<le> zs ! j" and mid: "\<And>k. j \<le> k \<Longrightarrow> k < i \<Longrightarrow> zs ! k = zs ! j"
      and high: "\<And>k. i \<le> k \<Longrightarrow> k \<le> f \<Longrightarrow> zs ! j \<le> zs ! k"
      by (rule partition_ok [OF f(2,3) less.prems(3)]) blast
    have "\<exists>ws. QSort zs (int lo) (int j - 1) = Some ws \<and> rearranged lo j zs ws \<and> ordered lo j ws"
      by (rule less.hyps) (use b f lz less.prems in auto)
    then obtain ws where ws: "QSort zs (int lo) (int j - 1) = Some ws" "rearranged lo j zs ws" "ordered lo j ws" by blast
    have lw: "length ws = length xs" using ws(2) lz by (simp add: rearranged_def)
    have "\<exists>vs. QSort ws (int i) (int (Suc f) - 1) = Some vs \<and> rearranged i (Suc f) ws vs \<and> ordered i (Suc f) vs"
      by (rule less.hyps) (use b f lw less.prems in auto)
    then obtain vs where vs: "QSort ws (int i) (int f) = Some vs" "rearranged i (Suc f) ws vs" "ordered i (Suc f) vs" by auto
    have "QSort xs (int lo) (int f) = Some vs"
      using f less.prems(3) pt(1,2) ws(1) vs(1) b
      by (subst QSort.simps) (simp add: c_int_def add.commute)
    moreover have "rearranged lo (Suc f) xs vs"
    proof -
      have "rearranged lo (Suc f) zs ws" by (rule rearranged_mono [OF ws(2)]) (use b in auto)
      moreover have "rearranged lo (Suc f) ws vs" by (rule rearranged_mono [OF vs(2)]) (use b in auto)
      ultimately show ?thesis using pt(3) rearranged_trans by blast
    qed
    moreover have "ordered lo (Suc f) vs"
      by (rule ordered_join [OF ws(3,2) vs(3,2) b(1,2,4) _ low mid high]) (use f lz in auto)
    ultimately show ?thesis by (simp only: f(1,4)) simp
  qed
qed

lemma QuickSort_ok:
  assumes "length xs < 0x80000000"
  shows "QuickSort xs (int (length xs)) = Some (sort xs)"
proof -
  from QSort_ok [of 0 "length xs" xs] assms obtain ys where
    y: "QSort xs 0 (int (length xs) - 1) = Some ys" "rearranged 0 (length xs) xs ys" "ordered 0 (length xs) ys" by auto
  have "sorted ys" using y(2,3) by (simp add: sorted_iff_nth_mono ordered_def rearranged_def)
  then have "sort xs = ys" using y(2) by (intro properties_for_sort) (simp_all add: rearranged_def)
  then show ?thesis using y(1) assms by (simp add: QuickSort_def c_int_def)
qed

section \<open>Merge sort\<close>

fun merged :: "int list \<Rightarrow> int list \<Rightarrow> int list" where
  "merged (x # xs) (y # ys) = (if x < y then x # merged xs (y # ys) else y # merged (x # xs) ys)"
| "merged xs [] = xs"
| "merged [] ys = ys"

lemma merged_nil [simp]: "merged [] ys = ys"
  by (cases ys) simp_all

lemma mset_merged: "mset (merged xs ys) = mset xs + mset ys"
  by (induction xs ys rule: merged.induct) simp_all

lemma sorted_merged: "sorted xs \<Longrightarrow> sorted ys \<Longrightarrow> sorted (merged xs ys)"
proof (induction xs ys rule: merged.induct)
  case (1 x xs y ys)
  have "set (merged a b) = set a \<union> set b" for a b using mset_merged [of a b] by (metis set_mset_mset set_mset_union)
  then show ?case using 1 by force
qed simp_all

lemma those_map_Some: "those (map Some xs) = Some xs"
  by (induction xs) simp_all

lemma copy_part_ok:
  assumes "m + n \<le> length A" "granted (4 * of_nat n)"
  shows "copy_part granted A (int m) (int n) = Some (take n (drop m A))"
proof -
  have "map (\<lambda>i. elem A (int m + i)) [0..int n - 1] = map Some (take n (drop m A))"
    using assms(1) by (intro nth_equalityI) (auto simp: elem_def nat_add_distrib)
  then show ?thesis using assms(2) by (simp add: copy_part_def those_map_Some)
qed

lemma drop_nth_Cons: "i < length xs \<Longrightarrow> drop i xs = xs ! i # drop (Suc i) xs"
  by (simp add: Cons_nth_drop_Suc)

lemma take_drop_update:
  assumes "K < length A" "K < N"
  shows "take (Suc K) (A[K := x]) = take K A @ [x]" "drop N (A[K := x]) = drop N A"
  using assms by (simp_all add: take_Suc_conv_app_nth)

lemma merge_loop_ok:
  assumes "r = int (K + n)" "n = (length L - li) + (length R - ri)" "li \<le> length L" "ri \<le> length R" "K + n \<le> length A"
  shows "merge_loop L R r (int K + 1) (int li) (int ri) A = Some (take K A @ merged (drop li L) (drop ri R) @ drop (K + n) A)"
  using assms
proof (induction n arbitrary: K li ri A)
  case 0
  then show ?case by (simp add: merge_loop.simps)
next
  case (Suc n)
  have K: "K < length A" "K < K + Suc n" using Suc.prems by simp_all
  have next_k: "int K + 1 + 1 = int (Suc K) + 1" by simp
  have use_left: ?case if "li < length L" "ri < length R \<Longrightarrow> L ! li < R ! ri"
  proof -
    have m: "merged (drop li L) (drop ri R) = L ! li # merged (drop (Suc li) L) (drop ri R)"
      using that by (cases "ri < length R") (simp_all add: drop_nth_Cons)
    have "merge_loop L R r (int (Suc K) + 1) (int (Suc li)) (int ri) (A[K := L ! li]) =
        Some (take (Suc K) (A[K := L ! li]) @ merged (drop (Suc li) L) (drop ri R) @ drop (Suc K + n) (A[K := L ! li]))"
      by (rule Suc.IH) (use Suc.prems that in simp_all)
    then show ?thesis
      using that Suc.prems(1) K next_k
      by (subst merge_loop.simps) (auto simp: Let_def elem_def set_elem_def m take_drop_update add.commute)
  qed
  have use_right: ?case if "ri < length R" "li < length L \<Longrightarrow> \<not> L ! li < R ! ri"
  proof -
    have m: "merged (drop li L) (drop ri R) = R ! ri # merged (drop li L) (drop (Suc ri) R)"
      using that by (cases "li < length L") (simp_all add: drop_nth_Cons)
    have "merge_loop L R r (int (Suc K) + 1) (int li) (int (Suc ri)) (A[K := R ! ri]) =
        Some (take (Suc K) (A[K := R ! ri]) @ merged (drop li L) (drop (Suc ri) R) @ drop (Suc K + n) (A[K := R ! ri]))"
      by (rule Suc.IH) (use Suc.prems that in simp_all)
    then show ?thesis
      using that Suc.prems(1) K next_k
      by (subst merge_loop.simps) (auto simp: Let_def elem_def set_elem_def m take_drop_update add.commute)
  qed
  show ?case
  proof (cases "li < length L \<and> (ri < length R \<longrightarrow> L ! li < R ! ri)")
    case True
    then show ?thesis by (intro use_left) simp_all
  next
    case False
    then show ?thesis using Suc.prems by (intro use_right) auto
  qed
qed

lemma ordered_part: "hi \<le> length xs \<Longrightarrow> ordered lo hi xs \<longleftrightarrow> sorted (part lo hi xs)"
proof -
  assume h: "hi \<le> length xs"
  have "sorted (part lo hi xs) \<longleftrightarrow> (\<forall>i j. i \<le> j \<longrightarrow> j < hi - lo \<longrightarrow> xs ! (lo + i) \<le> xs ! (lo + j))"
    using h part_nth [OF h] by (auto simp: sorted_iff_nth_mono part_def)
  also have "\<dots> \<longleftrightarrow> ordered lo hi xs"
  proof
    assume a: "\<forall>i j. i \<le> j \<longrightarrow> j < hi - lo \<longrightarrow> xs ! (lo + i) \<le> xs ! (lo + j)"
    show "ordered lo hi xs"
      unfolding ordered_def
    proof (intro allI impI)
      fix b c assume "lo \<le> b" "b \<le> c" "c < hi"
      then show "xs ! b \<le> xs ! c" using a [rule_format, of "b - lo" "c - lo"] by simp
    qed
  qed (simp add: ordered_def)
  finally show ?thesis by simp
qed

lemma take_drop_part: "take n (drop m xs) = part m (m + n) xs"
  by (simp add: part_def take_drop add.commute)

lemma Merge_ok:
  assumes b: "lo < q" "q < hi" "hi \<le> length A" and o: "ordered lo q A" "ordered q hi A"
    and g: "granted (4 * of_nat (q - lo))" "granted (4 * of_nat (hi - q))"
  shows "\<exists>ys. Merge granted A (int lo + 1) (int q) (int hi) = Some ys \<and> rearranged lo hi A ys \<and> ordered lo hi ys"
proof -
  let ?L = "part lo q A" let ?R = "part q hi A" let ?M = "merged ?L ?R" let ?ys = "take lo A @ ?M @ drop hi A"
  have cp: "copy_part granted A (int lo) (int (q - lo)) = Some ?L" "copy_part granted A (int q) (int (hi - q)) = Some ?R"
    using copy_part_ok [of lo "q - lo" A granted] copy_part_ok [of q "hi - q" A granted] b g by (simp_all add: take_drop_part)
  have e: "int q - (int lo + 1) + 1 = int (q - lo)" "int hi - int q = int (hi - q)" "int lo + 1 - 1 = int lo"
    using b by (simp_all add: of_nat_diff)
  have "merge_loop ?L ?R (int hi) (int lo + 1) (int 0) (int 0) A = Some (take lo A @ merged (drop 0 ?L) (drop 0 ?R) @ drop (lo + (hi - lo)) A)"
    by (rule merge_loop_ok) (use b in \<open>simp_all add: part_def\<close>)
  then have ml: "merge_loop ?L ?R (int hi) (int lo + 1) 0 0 A = Some ?ys" using b by simp
  have r: "Merge granted A (int lo + 1) (int q) (int hi) = Some ?ys" by (simp only: Merge_def e cp ml Option.bind.bind_lunit)
  have len: "length ?M = hi - lo"
  proof -
    have "length ?M = length ?L + length ?R" using mset_merged [of ?L ?R] by (metis size_mset size_union)
    then show ?thesis using b by (simp add: part_def)
  qed
  have "part lo hi ?ys = ?M" using len b by (simp add: part_def)
  moreover have "sorted ?M" using o b by (intro sorted_merged) (simp_all add: ordered_part)
  ultimately have "ordered lo hi ?ys" using b len by (subst ordered_part) simp_all
  moreover have "rearranged lo hi A ?ys"
  proof -
    have "take q (take hi A) @ drop q (take hi A) = take hi A" by (rule append_take_drop_id)
    then have "take hi A = take q A @ part q hi A" using b by (simp add: part_def min_absorb1)
    then have "part lo hi A = drop lo (take q A @ part q hi A)" by (simp add: part_def)
    then have "part lo q A @ part q hi A = part lo hi A" using b by (simp add: part_def)
    then have "mset ?M = mset (part lo hi A)" by (metis mset_append mset_merged)
    moreover have "A = take lo A @ part lo hi A @ drop hi A"
    proof -
      have "take lo (take hi A) @ drop lo (take hi A) = take hi A" by (rule append_take_drop_id)
      then have "take lo A @ part lo hi A = take hi A" using b by (simp add: part_def min_absorb1)
      then show ?thesis by (metis append.assoc append_take_drop_id)
    qed
    ultimately have "mset ?ys = mset A" by (metis mset_append)
    then show ?thesis using b len by (simp add: rearranged_def)
  qed
  ultimately show ?thesis using r by blast
qed

lemma MSort_ok:
  assumes "lo \<le> hi" "hi \<le> length xs" "length xs < 0x40000000" "\<And>n. 0 < n \<Longrightarrow> n \<le> length xs \<Longrightarrow> granted (4 * of_nat n)"
  shows "\<exists>ys. MSort granted xs (int lo + 1) (int hi) = Some ys \<and> rearranged lo hi xs ys \<and> ordered lo hi ys"
  using assms
proof (induction "hi - lo" arbitrary: lo hi xs rule: less_induct)
  case less
  show ?case
  proof (cases "hi \<le> Suc lo")
    case True
    then have "MSort granted xs (int lo + 1) (int hi) = Some xs" by (simp add: MSort.simps)
    moreover have "ordered lo hi xs"
      unfolding ordered_def
    proof (intro allI impI)
      fix a b assume "lo \<le> a" "a \<le> b" "b < hi"
      then have "a = b" using True by linarith
      then show "xs ! a \<le> xs ! b" by simp
    qed
    ultimately show ?thesis by simp
  next
    case False
    define q where "q = (lo + 1 + hi) div 2"
    have q: "lo < q" "q < hi" using False by (auto simp: q_def)
    have s: "c_int (int lo + 1 + int hi) = Some (int lo + 1 + int hi)" using less.prems(2,3) q by (simp add: c_int_def)
    have qi: "(int lo + 1 + int hi) div 2 = int q" by (simp add: q_def zdiv_int)
    have "\<exists>ys. MSort granted xs (int lo + 1) (int q) = Some ys \<and> rearranged lo q xs ys \<and> ordered lo q ys"
      by (rule less.hyps) (use less.prems q in simp_all)
    then obtain ys where ys: "MSort granted xs (int lo + 1) (int q) = Some ys" "rearranged lo q xs ys" "ordered lo q ys" by blast
    have ly: "length ys = length xs" using ys(2) by (simp add: rearranged_def)
    have "\<exists>zs. MSort granted ys (int q + 1) (int hi) = Some zs \<and> rearranged q hi ys zs \<and> ordered q hi zs"
      by (rule less.hyps) (use less.prems q ly in simp_all)
    then obtain zs where zs: "MSort granted ys (int q + 1) (int hi) = Some zs" "rearranged q hi ys zs" "ordered q hi zs" by blast
    have lz: "length zs = length xs" using zs(2) ly by (simp add: rearranged_def)
    have "zs ! k = ys ! k" if "k < q" for k by (rule rearranged_outside [OF zs(2)]) (use that q less.prems ly in auto)
    then have "ordered lo q zs" using ys(3) by (simp add: ordered_def)
    moreover have "granted (4 * of_nat (q - lo))" "granted (4 * of_nat (hi - q))"
      by (rule less.prems(4); use q less.prems(2) in linarith)+
    moreover have "hi \<le> length zs" using less.prems(2) lz by simp
    ultimately obtain vs where
      vs: "Merge granted zs (int lo + 1) (int q) (int hi) = Some vs" "rearranged lo hi zs vs" "ordered lo hi vs"
      using Merge_ok [OF q _ _ zs(3)] by blast
    have "MSort granted xs (int lo + 1) (int hi) = Some vs"
      using q s qi ys(1) zs(1) vs(1) by (subst MSort.simps) (simp add: Let_def)
    moreover have "rearranged lo hi xs ys" by (rule rearranged_mono [OF ys(2)]) (use q in simp_all)
    moreover have "rearranged lo hi ys zs" by (rule rearranged_mono [OF zs(2)]) (use q in simp_all)
    ultimately show ?thesis using vs(2,3) rearranged_trans by blast
  qed
qed

lemma check_from_ok:
  assumes "i < length xs"
  shows "check_from xs (int (length xs)) (int i) = Some (if sorted (drop i xs) then 1 else 0)"
  using assms
proof (induction "length xs - i" arbitrary: i rule: less_induct)
  case less
  show ?case
  proof (cases "Suc i < length xs")
    case True
    have d: "drop i xs = xs ! i # xs ! Suc i # drop (Suc (Suc i)) xs" "drop (Suc i) xs = xs ! Suc i # drop (Suc (Suc i)) xs"
      using True by (simp_all add: Cons_nth_drop_Suc)
    have s: "sorted (drop i xs) \<longleftrightarrow> xs ! i \<le> xs ! Suc i \<and> sorted (drop (Suc i) xs)" by (simp only: d sorted2)
    have "check_from xs (int (length xs)) (int (Suc i)) = Some (if sorted (drop (Suc i) xs) then 1 else 0)"
      by (rule less.hyps) (use True in simp_all)
    moreover have "elem xs (int i) = Some (xs ! i)" "elem xs (int (Suc i)) = Some (xs ! Suc i)" using True by (simp_all add: elem_def del: of_nat_Suc)
    moreover have n: "int i + 1 = int (Suc i)" and "int i < int (length xs) - 1" using True by simp_all
    ultimately show ?thesis
      unfolding s by (subst check_from.simps, unfold n) (auto simp del: of_nat_Suc)
  next
    case False
    then have "length (drop i xs) = 1" using less.prems by simp
    then have "sorted (drop i xs)" by (cases "drop i xs") auto
    then show ?thesis using False by (subst check_from.simps) simp
  qed
qed

section \<open>Properties\<close>

text \<open>C37: Quick sort: every array of fewer than \<open>2 ^ 31\<close> elements comes out as its sorted permutation; the
  recursion ends, no index leaves the array, no \<open>int\<close> overflows, and the check of the program accepts
  the result.\<close>

theorem QuickSort_correct:
  assumes "length xs < 0x80000000"
  shows "QuickSort xs (int (length xs)) = Some (sort xs) \<and>
    CheckSorted (sort xs) (int (length xs)) = Some 1"
proof -
  have "CheckSorted ys (int (length ys)) = Some 1" if "sorted ys" for ys
    using check_from_ok [of 0 ys] that by (cases ys) (simp_all add: CheckSorted_def check_from.simps)
  from this [of "sort xs"] show ?thesis using QuickSort_ok [OF assms] by simp
qed

text \<open>Merge sort, for arrays of fewer than \<open>2 ^ 30\<close> elements and when malloc grants the two temporary
  arrays: the result is the sorted permutation of the array, as with quick sort.\<close>

theorem MSort_correct:
  assumes "length xs < 0x40000000" "\<And>n. 0 < n \<Longrightarrow> n \<le> length xs \<Longrightarrow> granted (4 * of_nat n)"
  shows "MSort granted xs 1 (int (length xs)) = Some (sort xs) \<and>
    MSort granted xs 1 (int (length xs)) = QuickSort xs (int (length xs))"
proof -
  from MSort_ok [of 0 "length xs" xs granted] assms obtain ys where
    y: "MSort granted xs 1 (int (length xs)) = Some ys" "rearranged 0 (length xs) xs ys" "ordered 0 (length xs) ys" by auto
  have "sorted ys" using y(2,3) by (simp add: sorted_iff_nth_mono ordered_def rearranged_def)
  then have "sort xs = ys" using y(2) by (intro properties_for_sort) (simp_all add: rearranged_def)
  then show ?thesis using y(1) QuickSort_ok [of xs] assms(1) by simp
qed

theorem QuickSort_correct_witness:
  "QuickSort [3, -1, 2, 3, 0] 5 = Some [-1, 0, 2, 3, 3] \<and> CheckSorted [-1, 0, 2, 3, 3] 5 = Some 1"
  using QuickSort_correct [of "[3, -1, 2, 3, 0]"] by simp

theorem MSort_correct_witness:
  "MSort (\<lambda>sz. sz \<le> 64) [3, -1, 2, 3, 0] 1 5 = Some [-1, 0, 2, 3, 3]"
proof -
  have "(4 :: u32) * of_nat n \<le> 64" if "n \<le> 5" for n
  proof -
    have "n = 0 \<or> n = 1 \<or> n = 2 \<or> n = 3 \<or> n = 4 \<or> n = 5" using that by linarith
    then show ?thesis by auto
  qed
  then show ?thesis using MSort_correct [of "[3, -1, 2, 3, 0]" "\<lambda>sz. sz \<le> 64"] by simp
qed

end
