(* ===== verification/FOS_Stats.thy ===== *)
theory FOS_Stats
  imports FOS_SortingProps "HOL-Library.Signed_Division"
begin

text \<open>
  The statistics of \<^verbatim>\<open>user/arrayOperations_stats.c\<close>: the \<open>k\<close>-th element found by partitioning around
  pivots that the clock chooses, and mean, variance, smallest and largest element. With different
  elements the \<open>k\<close>-th one is found, whatever the clock says; with equal ones the search may go on
  in the wrong part.
\<close>

section \<open>The program\<close>

text \<open>\<open>rand n\<close> is the low word of the clock at the \<open>n\<close>-th reading. The result is the element and the array.\<close>

definition RAND :: "u32 \<Rightarrow> int \<Rightarrow> int \<Rightarrow> int" where
  "RAND low s e = sint (low mod word_of_int (e - s) + word_of_int s)"

partial_function (option) select_part :: "(nat \<Rightarrow> u32) \<Rightarrow> nat \<Rightarrow> int list \<Rightarrow> int \<Rightarrow> int \<Rightarrow> int \<Rightarrow> (int \<times> int list) option" where
  "select_part rand n Elements startIndex finalIndex kIndex =
    (if startIndex \<ge> finalIndex then do { x \<leftarrow> elem Elements finalIndex; Some (x, Elements) }
     else do {
       Elements \<leftarrow> Swap startIndex (RAND (rand n) startIndex finalIndex) Elements;
       i \<leftarrow> c_int (startIndex + 1);
       (Elements, i, j) \<leftarrow> partition_loop startIndex finalIndex Elements i finalIndex;
       Elements \<leftarrow> Swap startIndex j Elements;
       if kIndex = j then do { x \<leftarrow> elem Elements kIndex; Some (x, Elements) }
       else if kIndex < j then do { j \<leftarrow> c_int (j - 1); select_part rand (n + 1) Elements startIndex j kIndex }
       else select_part rand (n + 1) Elements i finalIndex kIndex
     })"

definition KthElement :: "(nat \<Rightarrow> u32) \<Rightarrow> int list \<Rightarrow> int \<Rightarrow> int \<Rightarrow> (int \<times> int list) option" where
  "KthElement rand Elements NumOfElements k = do {
     f \<leftarrow> c_int (NumOfElements - 1);
     kIndex \<leftarrow> c_int (k - 1);
     select_part rand 0 Elements 0 f kIndex
   }"

text \<open>The three of the first loop, one element after the other; the sum must stay an \<open>int\<close>.\<close>

definition add_element :: "int \<Rightarrow> int \<times> int \<times> int \<Rightarrow> (int \<times> int \<times> int) option" where
  "add_element x s = (case s of (mean, mn, mx) \<Rightarrow> do {
     mean \<leftarrow> c_int (mean + x);
     Some (mean, if x < mn then x else mn, if x > mx then x else mx)
   })"

definition add_square :: "int \<Rightarrow> int \<Rightarrow> int \<Rightarrow> int option" where
  "add_square mean x var = do {
     d \<leftarrow> c_int (x - mean);
     q \<leftarrow> c_int (d * d);
     c_int (var + q)
   }"

definition over :: "(int \<Rightarrow> 's \<Rightarrow> 's option) \<Rightarrow> int \<Rightarrow> int list \<Rightarrow> 's \<Rightarrow> 's option" where
  "over f NumOfElements Elements s = fold (\<lambda>i r. do { s \<leftarrow> r; x \<leftarrow> elem Elements i; f x s }) [0..NumOfElements - 1] (Some s)"

text \<open>Mean, variance, smallest, largest and median element. C's division truncates towards zero.\<close>

definition ArrayStats :: "(nat \<Rightarrow> u32) \<Rightarrow> int list \<Rightarrow> int \<Rightarrow> (int \<times> int \<times> int \<times> int \<times> int) option" where
  "ArrayStats rand Elements NumOfElements = do {
     (mean, mn, mx) \<leftarrow> over add_element NumOfElements Elements (0, 0x7FFFFFFF, - 0x80000000);
     (med, Elements) \<leftarrow> KthElement rand Elements NumOfElements (NumOfElements sdiv 2);
     if NumOfElements = 0 then None
     else do {
       let mean = mean sdiv NumOfElements;
       var \<leftarrow> over (add_square mean) NumOfElements Elements 0;
       Some (mean, var sdiv NumOfElements, mn, mx, med)
     }
   }"

section \<open>The element that is found\<close>

lemma sint_of_nat_small: "k < 0x80000000 \<Longrightarrow> sint (of_nat k :: u32) = int k"
  by (simp add: signed_of_nat signed_take_bit_int_eq_self)

lemma RAND_bounds:
  assumes "s < f" "f < 0x80000000"
  shows "\<exists>r. RAND low (int s) (int f) = int r \<and> s \<le> r \<and> r < f"
proof -
  define n where "n = f - s"
  have n: "0 < n" "n < 0x80000000" "word_of_int (int f - int s) = (of_nat n :: u32)"
    using assms by (simp_all add: n_def of_nat_diff)
  have m: "unat (low mod of_nat n) = unat low mod n" using n(2) by (simp add: unat_mod unat_of_nat_u32)
  have lt: "unat low mod n + s < f" using mod_less_divisor [OF n(1), of "unat low"] assms(1) unfolding n_def by linarith
  have "unat (low mod of_nat n + of_nat s) = unat low mod n + s"
    using m lt assms(2) by (simp add: unat_word_ariths unat_of_nat_u32)
  moreover have "unat (of_nat (unat low mod n + s) :: u32) = unat low mod n + s" by (rule unat_of_nat_u32) (use lt assms(2) in linarith)
  ultimately have w: "low mod of_nat n + of_nat s = of_nat (unat low mod n + s)" by (simp only: word_unat_eq_iff)
  have "sint (of_nat (unat low mod n + s) :: u32) = int (unat low mod n + s)"
    by (rule sint_of_nat_small) (use lt assms(2) in linarith)
  then have "RAND low (int s) (int f) = int (unat low mod n + s)" unfolding RAND_def n(3) using w by simp
  then show ?thesis using lt by (metis le_add2)
qed

lemma part_split: "lo \<le> j \<Longrightarrow> j < hi \<Longrightarrow> hi \<le> length zs \<Longrightarrow> part lo hi zs = part lo j zs @ zs ! j # part (Suc j) hi zs"
proof -
  assume h: "lo \<le> j" "j < hi" "hi \<le> length zs"
  have "take hi zs = take j zs @ zs ! j # drop (Suc j) (take hi zs)"
    using id_take_nth_drop [of j "take hi zs"] h by simp
  then have "drop lo (take hi zs) = drop lo (take j zs @ zs ! j # drop (Suc j) (take hi zs))" by simp
  also have "\<dots> = drop lo (take j zs) @ zs ! j # drop (Suc j) (take hi zs)" using h by simp
  finally show ?thesis by (simp add: part_def)
qed

lemma sort_around:
  assumes "\<forall>x \<in> set as. x \<le> p" "\<forall>x \<in> set bs. p \<le> x"
  shows "sort (as @ p # bs) = sort as @ p # sort bs"
  by (rule properties_for_sort) (use assms in \<open>auto simp: sorted_append intro: order.trans\<close>)

lemma part_member: "x \<in> set (part lo hi zs) \<Longrightarrow> \<exists>k. lo \<le> k \<and> k < hi \<and> k < length zs \<and> x = zs ! k"
proof -
  assume "x \<in> set (part lo hi zs)"
  then obtain i where i: "i < length (part lo hi zs)" "x = part lo hi zs ! i" by (auto simp: in_set_conv_nth)
  then have "lo + i < hi" "lo + i < length zs" by (auto simp: part_def)
  then have "lo + i < hi \<and> lo + i < length zs \<and> x = zs ! (lo + i)" using i(2) by (simp add: part_def)
  then show ?thesis by (intro exI [of _ "lo + i"]) simp
qed

text \<open>The order of the parts, when the partition is exact.\<close>

lemma sort_parts:
  assumes "lo \<le> j" "j < hi" "hi \<le> length zs" and low: "\<And>k. lo \<le> k \<Longrightarrow> k < j \<Longrightarrow> zs ! k \<le> zs ! j"
    and high: "\<And>k. Suc j \<le> k \<Longrightarrow> k < hi \<Longrightarrow> zs ! j \<le> zs ! k"
  shows "sort (part lo hi zs) = sort (part lo j zs) @ zs ! j # sort (part (Suc j) hi zs)"
proof -
  have "\<forall>x \<in> set (part lo j zs). x \<le> zs ! j" "\<forall>x \<in> set (part (Suc j) hi zs). zs ! j \<le> x"
    using low high part_member by blast+
  then show ?thesis using part_split [OF assms(1,2,3)] sort_around by simp
qed

lemma select_step:
  assumes "lo < f" "RAND (rand n) (int lo) (int f) = int r" "Swap (int lo) (int r) xs = Some us"
    and "partition_loop (int lo) (int f) us (int (Suc lo)) (int f) = Some (ys, int i, int j)" "Swap (int lo) (int j) ys = Some zs"
    and "j \<le> f" "f < length zs" "length zs < 0x80000000"
  shows "select_part rand n xs (int lo) (int f) (int k) =
    (if k = j then Some (zs ! j, zs)
     else if k < j then select_part rand (n + 1) zs (int lo) (int j - 1) (int k)
     else select_part rand (n + 1) zs (int i) (int f) (int k))"
proof -
  have lo: "c_int (int lo + 1) = Some (int (Suc lo))" "c_int (int j - 1) = Some (int j - 1)" using assms by (simp_all add: c_int_def)
  have "elem zs (int j) = Some (zs ! j)" using assms by (simp add: elem_def)
  moreover have "\<not> int lo \<ge> int f" using assms(1) by simp
  ultimately show ?thesis
    by (subst select_part.simps) (simp only: if_False assms(2-5) lo bind.bind_lunit prod.case of_nat_eq_iff of_nat_less_iff cong: if_cong)
qed

lemma select_ok:
  assumes "lo \<le> k" "k < hi" "hi \<le> length xs" "length xs < 0x80000000" "distinct (part lo hi xs)"
  shows "\<exists>ys. select_part rand n xs (int lo) (int hi - 1) (int k) = Some (sort (part lo hi xs) ! (k - lo), ys) \<and> rearranged lo hi xs ys"
  using assms
proof (induction "hi - lo" arbitrary: lo hi xs n rule: less_induct)
  case less
  show ?case
  proof (cases "int lo \<ge> int hi - 1")
    case True
    then have "hi = Suc k" "lo = k" using less.prems by linarith+
    then have "part lo hi xs = [xs ! k]" using less.prems by (simp add: part_def take_Suc_conv_app_nth)
    then show ?thesis using True \<open>hi = Suc k\<close> \<open>lo = k\<close> less.prems
      by (subst select_part.simps) (simp add: elem_def)
  next
    case False
    define f where "f = hi - 1"
    have f: "hi = Suc f" "lo < f" "f < length xs" "int hi - 1 = int f" using False less.prems by (auto simp: f_def)
    obtain r where r: "RAND (rand n) (int lo) (int f) = int r" "lo \<le> r" "r < f"
      using RAND_bounds [of lo f "rand n"] f less.prems(4) by auto
    from Swap_ok [of lo lo "Suc f" r xs] r f obtain us where
      us: "Swap (int lo) (int r) xs = Some us" "rearranged lo (Suc f) xs us" by auto
    have lu: "length us = length xs" using us(2) by (simp add: rearranged_def)
    have us_range: "f < length us" "length us < 0x80000000" using lu f(3) less.prems(4) by simp_all
    obtain ys zs i j where
      pt: "partition_loop (int lo) (int f) us (int (Suc lo)) (int f) = Some (ys, int i, int j)"
        "Swap (int lo) (int j) ys = Some zs" "rearranged lo (Suc f) us zs" and lz: "length zs = length us"
      and b: "lo \<le> j" "j < i" "j \<le> f" "i \<le> Suc f"
      and low: "\<And>k. lo \<le> k \<Longrightarrow> k < j \<Longrightarrow> zs ! k \<le> zs ! j" and mid: "\<And>k. j \<le> k \<Longrightarrow> k < i \<Longrightarrow> zs ! k = zs ! j"
      and high: "\<And>k. i \<le> k \<Longrightarrow> k \<le> f \<Longrightarrow> zs ! j \<le> zs ! k"
      by (rule partition_ok [OF f(2) us_range]) blast
    note lz = lz [unfolded lu]
    have re: "rearranged lo (Suc f) xs zs" by (rule rearranged_trans [OF us(2) pt(3)])
    have ms: "mset (part lo (Suc f) zs) = mset (part lo (Suc f) xs)" using rearranged_part [OF re] f(2) by simp
    have di: "distinct (part lo (Suc f) zs)" using less.prems(5) f(1) mset_eq_imp_distinct_iff [OF ms] by simp
    have i: "i = Suc j"
    proof (rule ccontr)
      assume "i \<noteq> Suc j"
      then have "zs ! Suc j = zs ! j" "Suc j \<le> f" using mid [of "Suc j"] b by simp_all
      moreover have "part lo (Suc f) zs ! (j - lo) = zs ! j" "part lo (Suc f) zs ! (Suc j - lo) = zs ! Suc j"
        using b \<open>Suc j \<le> f\<close> f lz by (simp_all add: part_def)
      moreover have "j - lo < length (part lo (Suc f) zs)" "Suc j - lo < length (part lo (Suc f) zs)"
        using b \<open>Suc j \<le> f\<close> f lz by (simp_all add: part_def)
      ultimately have "j - lo = Suc j - lo" using nth_eq_iff_index_eq [OF di] by metis
      then show False using b(1) by simp
    qed
    have so: "sort (part lo hi xs) = sort (part lo j zs) @ zs ! j # sort (part (Suc j) hi zs)"
    proof -
      have "sort (part lo hi xs) = sort (part lo (Suc f) zs)"
        using arg_cong [OF ms, of sorted_list_of_multiset] f(1) by simp
      also have "\<dots> = sort (part lo j zs) @ zs ! j # sort (part (Suc j) (Suc f) zs)"
        by (rule sort_parts) (use b f lz low high i in auto)
      finally show ?thesis using f(1) by simp
    qed
    have len: "length (part lo j zs) = j - lo" using b f lz by (simp add: part_def)
    have parts: "distinct (part lo j zs)" "distinct (part (Suc j) hi zs)"
      unfolding f(1) using di part_split [of lo j "Suc f" zs] b(1,3) f(3) lz by simp_all
    have step: "select_part rand n xs (int lo) (int f) (int k) =
        (if k = j then Some (zs ! j, zs)
         else if k < j then select_part rand (n + 1) zs (int lo) (int j - 1) (int k)
         else select_part rand (n + 1) zs (int i) (int f) (int k))"
      by (rule select_step [where rand = rand and n = n and r = r and us = us and ys = ys, OF f(2) r(1) us(1) pt(1,2) b(3)]) (use f(3) lz less.prems(4) in simp_all)
    consider "k = j" | "k < j" | "j < k" by linarith
    then show ?thesis
    proof cases
      case 1
      then show ?thesis unfolding f(4) so using step re len by (simp add: nth_append f(1))
    next
      case 2
      have "\<exists>ys. select_part rand (n + 1) zs (int lo) (int j - 1) (int k) = Some (sort (part lo j zs) ! (k - lo), ys) \<and> rearranged lo j zs ys"
        by (rule less.hyps) (use 2 b(1,3) f(1,3) lz less.prems(1,4) parts in simp_all)
      then obtain vs where vs: "select_part rand (n + 1) zs (int lo) (int j - 1) (int k) = Some (sort (part lo j zs) ! (k - lo), vs)"
        "rearranged lo j zs vs" by blast
      have "rearranged lo (Suc f) zs vs" by (rule rearranged_mono [OF vs(2)]) (use b in auto)
      then have "rearranged lo hi xs vs" using rearranged_trans [OF re] f(1) by simp
      moreover have "sort (part lo hi xs) ! (k - lo) = sort (part lo j zs) ! (k - lo)"
        using so len diff_less_mono [OF 2 less.prems(1)] by (simp add: nth_append)
      ultimately show ?thesis unfolding f(4) using step vs(1) 2 by simp
    next
      case 3
      have "\<exists>ys. select_part rand (n + 1) zs (int i) (int hi - 1) (int k) = Some (sort (part i hi zs) ! (k - i), ys) \<and> rearranged i hi zs ys"
        by (rule less.hyps) (use 3 b(1,3) f(1,2,3) lz less.prems(2,4) parts i in simp_all)
      then obtain vs where vs: "select_part rand (n + 1) zs (int i) (int hi - 1) (int k) = Some (sort (part i hi zs) ! (k - i), vs)"
        "rearranged i hi zs vs" by blast
      have "rearranged lo (Suc f) zs vs" by (rule rearranged_mono [OF vs(2)]) (use b f in auto)
      then have "rearranged lo hi xs vs" using rearranged_trans [OF re] f(1) by simp
      moreover have "sort (part lo hi xs) ! (k - lo) = sort (part i hi zs) ! (k - i)"
      proof -
        have "\<not> k - lo < j - lo" "k - lo - (j - lo) = Suc (k - i)" using 3 b(1) i by arith+
        then show ?thesis by (simp only: so nth_append length_sort len if_False nth_Cons_Suc i)
      qed
      ultimately show ?thesis using step vs(1) [unfolded f(4)] 3 unfolding f(4) by simp
    qed
  qed
qed

text \<open>On an array of different elements \<^verbatim>\<open>KthElement\<close> ends with the \<open>k\<close>-th smallest one, whatever pivots
  the clock chooses, and only rearranges the array.\<close>

theorem KthElement_correct:
  assumes "distinct xs" and "length xs < 0x80000000" and "1 \<le> k" "k \<le> length xs"
  shows "\<exists>ys. KthElement rand xs (int (length xs)) (int k) = Some (sort xs ! (k - 1), ys) \<and> mset ys = mset xs"
proof -
  have p: "part 0 (length xs) xs = xs" by (simp add: part_def)
  have "\<exists>ys. select_part rand 0 xs (int 0) (int (length xs) - 1) (int (k - 1)) =
      Some (sort (part 0 (length xs) xs) ! (k - 1 - 0), ys) \<and> rearranged 0 (length xs) xs ys"
    by (rule select_ok) (use assms p in auto)
  then obtain ys where ys: "select_part rand 0 xs 0 (int (length xs) - 1) (int k - 1) = Some (sort xs ! (k - 1), ys)"
    "rearranged 0 (length xs) xs ys" using assms(3) p by (auto simp: of_nat_diff)
  have "c_int (int (length xs) - 1) = Some (int (length xs) - 1)" "c_int (int k - 1) = Some (int k - 1)"
    using assms by (simp_all add: c_int_def)
  then show ?thesis using ys by (simp add: KthElement_def rearranged_def)
qed

theorem KthElement_correct_witness:
  "\<exists>ys. KthElement (\<lambda>n. of_nat (7 * n + 5)) [4, -1, 9, 2, 7] 5 2 = Some (2, ys) \<and> mset ys = mset [4, -1, 9, 2, 7]"
  using KthElement_correct [of "[4, -1, 9, 2, 7]" 2 "\<lambda>n. of_nat (7 * n + 5)"] by simp

text \<open>
  With equal elements the scan may leave more than one of them at the pivot, and an index between \<open>j\<close>
  and \<open>i\<close> is then looked for on the right of them: the second smallest of these is 1, not 2.
\<close>

theorem KthElement_equal_elements:
  "KthElement (\<lambda>_. 0) [1, 1, 1, 2] 4 2 = Some (2, [1, 1, 1, 2])"
  by (simp add: KthElement_def c_int_def select_part.simps RAND_def Swap_def elem_def set_elem_def
      partition_loop.simps scan_up.simps scan_down.simps)

end
