(* ===== verification/FOS_Boot.thy ===== *)
theory FOS_Boot
  imports FOS_Paging
begin

text \<open>
  Memory at boot time, \<^verbatim>\<open>kern/mem/boot_memory_manager.c\<close>: measuring it, handing it out before there is a
  list of free frames, and building the kernel's part of the address space. What the battery-backed
  memory of the machine holds, the linker's \<^verbatim>\<open>end_of_kernel\<close>, the stack that the assembly code reserves
  and the size of a process structure are parameters. The descriptor tables of the processor, its
  control registers and the messages are left out.
\<close>

section \<open>How much memory there is\<close>

definition nvram_read :: "(u32 \<Rightarrow> u8) \<Rightarrow> u32 \<Rightarrow> u32" where
  "nvram_read mc146818_read r = ucast (mc146818_read r) OR push_bit 8 (ucast (mc146818_read (r + 1)))"

abbreviation "PHYS_EXTENDED_MEM \<equiv> 0x100000 :: u32"

definition detect_memory :: "(u32 \<Rightarrow> u8) \<Rightarrow> kern \<Rightarrow> kern" where
  "detect_memory mc146818_read k =
    (let size_of_extended_mem = ROUNDDOWN (nvram_read mc146818_read 0x17 * 1024) PAGE_SIZE;
         size_of_other_mem = ROUNDDOWN (nvram_read mc146818_read 0x34 * 1024 * 64) PAGE_SIZE;
         maxpa = (if size_of_other_mem > 0 then size_of_other_mem + 16 * 1024 * 1024
                  else if size_of_extended_mem \<noteq> 0 then PHYS_EXTENDED_MEM + size_of_extended_mem
                  else size_of_extended_mem)
     in k\<lparr>number_of_frames := maxpa div PAGE_SIZE\<rparr>)"

section \<open>Handing out memory\<close>

record boot =
  vm :: kern
  ptr_free_mem :: ptr
  phys_page_directory :: u32

text \<open>Clearing a region clears the tables and the frame descriptors that start in it.\<close>

definition in_region :: "ptr \<Rightarrow> u32 \<Rightarrow> ptr \<Rightarrow> bool" where
  "in_region a sz x \<longleftrightarrow> unat a \<le> unat x \<and> unat x < unat a + unat sz"

definition clear_region :: "ptr \<Rightarrow> u32 \<Rightarrow> kern \<Rightarrow> kern" where
  "clear_region a sz k = k\<lparr>words := (\<lambda>t i. if in_region a sz t then 0 else words k t i),
     frames := (\<lambda>f. if in_region a sz f then zero_frame else frames k f)\<rparr>"

definition boot_allocate_space :: "ptr \<Rightarrow> u32 \<Rightarrow> u32 \<Rightarrow> boot \<Rightarrow> ptr \<times> boot" where
  "boot_allocate_space end_of_kernel sz align b =
    (let free_mem = (if ptr_free_mem b = 0 then end_of_kernel else ptr_free_mem b);
         ptr_allocated_mem = ROUNDUP free_mem align
     in (ptr_allocated_mem, b\<lparr>vm := clear_region ptr_allocated_mem sz (vm b), ptr_free_mem := ptr_allocated_mem + sz\<rparr>))"

section \<open>Building page tables\<close>

definition boot_get_page_table :: "ptr \<Rightarrow> ptr \<Rightarrow> u32 \<Rightarrow> bool \<Rightarrow> boot \<Rightarrow> (ptr \<times> boot) option" where
  "boot_get_page_table end_of_kernel dir va create b = do {
     let phys_page_table = EXTRACT_ADDRESS (words (vm b) dir (PDX va));
     t \<leftarrow> STATIC_KERNEL_VIRTUAL_ADDRESS phys_page_table (vm b);
     if phys_page_table = 0 then
       if create then do {
         let (t, b1) = boot_allocate_space end_of_kernel PAGE_SIZE PAGE_SIZE b;
         phys_page_table \<leftarrow> STATIC_KERNEL_PHYSICAL_ADDRESS t;
         Some (t, b1\<lparr>vm := set_word dir (PDX va) (CONSTRUCT_ENTRY phys_page_table (PERM_PRESENT OR PERM_WRITEABLE)) (vm b1)\<rparr>)
       }
       else Some (NULL, b)
     else Some (t, b)
   }"

partial_function (option) boot_map_from :: "ptr \<Rightarrow> ptr \<Rightarrow> u32 \<Rightarrow> u32 \<Rightarrow> u32 \<Rightarrow> u32 \<Rightarrow> u32 \<Rightarrow> boot \<Rightarrow> boot option" where
  "boot_map_from end_of_kernel dir va sz pa perm i b =
    (if i < sz then do {
       (t, b1) \<leftarrow> boot_get_page_table end_of_kernel dir va True b;
       boot_map_from end_of_kernel dir (va + PAGE_SIZE) sz (pa + PAGE_SIZE) perm (i + PAGE_SIZE)
         (b1\<lparr>vm := set_word t (PTX va) (CONSTRUCT_ENTRY pa (perm OR PERM_PRESENT)) (vm b1)\<rparr>)
     }
     else Some b)"

definition boot_map_range :: "ptr \<Rightarrow> ptr \<Rightarrow> u32 \<Rightarrow> u32 \<Rightarrow> u32 \<Rightarrow> u32 \<Rightarrow> boot \<Rightarrow> boot option" where
  "boot_map_range end_of_kernel dir va sz pa perm b = boot_map_from end_of_kernel dir va sz pa perm 0 b"

text \<open>One table for each 4 MB from \<^verbatim>\<open>KERNEL_BASE\<close> on: 64 rounds.\<close>

primrec boot_tables :: "ptr \<Rightarrow> ptr \<Rightarrow> u32 \<Rightarrow> nat \<Rightarrow> boot \<Rightarrow> boot option" where
  "boot_tables end_of_kernel dir sva 0 b = Some b"
| "boot_tables end_of_kernel dir sva (Suc n) b = do {
     (_, b1) \<leftarrow> boot_get_page_table end_of_kernel dir sva True b;
     boot_tables end_of_kernel dir (sva + 0x400000) n b1
   }"

section \<open>The kernel's address space\<close>

abbreviation "VPT \<equiv> 0xEFC00000 :: u32"
abbreviation "KERN_STACK_TOP \<equiv> VPT"
abbreviation "KERNEL_STACK_SIZE \<equiv> 0x8000 :: u32"
abbreviation "UVPT \<equiv> 0xEF400000 :: u32"
abbreviation "UENVS \<equiv> 0xEEC00000 :: u32"

definition setup_listing_to_all_page_tables_entries :: "ptr \<Rightarrow> kern \<Rightarrow> kern option" where
  "setup_listing_to_all_page_tables_entries dir k = do {
     pa \<leftarrow> STATIC_KERNEL_PHYSICAL_ADDRESS dir;
     let k1 = set_word dir (PDX VPT) (CONSTRUCT_ENTRY pa (PERM_PRESENT OR PERM_WRITEABLE)) k;
     Some (set_word dir (PDX UVPT) (pa OR PERM_USER OR PERM_PRESENT) k1)
   }"

text \<open>
  Turning paging on copies the directory entries of the kernel to the start of the directory for the
  moment at which addresses are still physical, and clears them again.
\<close>

definition low_entries :: "ptr \<Rightarrow> nat" where
  "low_entries free_mem = unat (PDX free_mem) - unat (PDX KERNEL_BASE)"

definition copy_low_entries :: "ptr \<Rightarrow> nat \<Rightarrow> kern \<Rightarrow> kern" where
  "copy_low_entries dir n k = fold (\<lambda>j k. set_word dir (of_nat j) (words k dir (PDX KERNEL_BASE + of_nat j)) k) [0..<n] k"

definition clear_low_entries :: "ptr \<Rightarrow> nat \<Rightarrow> kern \<Rightarrow> kern" where
  "clear_low_entries dir n k = fold (\<lambda>j. set_word dir (of_nat j) 0) [0..<n] k"

definition turn_on_paging :: "boot \<Rightarrow> boot" where
  "turn_on_paging b = (let dir = ptr_page_directory (vm b); n = low_entries (ptr_free_mem b)
     in b\<lparr>vm := clear_low_entries dir n (copy_low_entries dir n (vm b))\<rparr>)"

text \<open>The check of the result: an address that is not mapped reads as \<^verbatim>\<open>~0\<close>.\<close>

definition check_va2pa :: "ptr \<Rightarrow> u32 \<Rightarrow> kern \<Rightarrow> u32 option" where
  "check_va2pa dir va k =
    (let e = words k dir (PDX va) in
     if e AND PERM_PRESENT = 0 then Some (- 1)
     else do {
       p \<leftarrow> STATIC_KERNEL_VIRTUAL_ADDRESS (EXTRACT_ADDRESS e) k;
       if words k p (PTX va) AND PERM_PRESENT = 0 then Some (- 1) else Some (EXTRACT_ADDRESS (words k p (PTX va)))
     })"

partial_function (option) check_memory_from :: "u32 \<Rightarrow> boot \<Rightarrow> unit option" where
  "check_memory_from i b =
    (if KERNEL_BASE + i < ptr_free_mem b then do {
       pa \<leftarrow> check_va2pa (ptr_page_directory (vm b)) (KERNEL_BASE + i) (vm b);
       if pa = i then check_memory_from (i + PAGE_SIZE) b else None
     }
     else Some ())"

definition check_stack_page :: "ptr \<Rightarrow> boot \<Rightarrow> nat \<Rightarrow> bool option" where
  "check_stack_page ptr_stack_bottom b j = do {
     pa \<leftarrow> check_va2pa (ptr_page_directory (vm b)) (KERN_STACK_TOP - KERNEL_STACK_SIZE + of_nat j * PAGE_SIZE) (vm b);
     bottom \<leftarrow> STATIC_KERNEL_PHYSICAL_ADDRESS ptr_stack_bottom;
     Some (pa = bottom + of_nat j * PAGE_SIZE)
   }"

definition directory_entry_good :: "boot \<Rightarrow> nat \<Rightarrow> bool" where
  "directory_entry_good b i \<longleftrightarrow> (let e = words (vm b) (ptr_page_directory (vm b)) (of_nat i) in
     if of_nat i \<in> {PDX VPT, PDX UVPT, PDX (KERN_STACK_TOP - 1), PDX UENVS} then e \<noteq> 0
     else if i \<ge> unat (PDX KERNEL_BASE) then e \<noteq> 0 else e = 0)"

definition check_boot_pgdir :: "ptr \<Rightarrow> boot \<Rightarrow> unit option" where
  "check_boot_pgdir ptr_stack_bottom b = do {
     _ \<leftarrow> check_memory_from 0 b;
     oks \<leftarrow> those (map (check_stack_page ptr_stack_bottom b) [1..<8]);
     if list_all id oks \<and> list_all (directory_entry_good b) [0..<1024] then Some () else None
   }"

definition initialize_kernel_VM :: "ptr \<Rightarrow> ptr \<Rightarrow> u32 \<Rightarrow> boot \<Rightarrow> boot option" where
  "initialize_kernel_VM end_of_kernel ptr_stack_bottom sizeof_Env b = do {
     let (dir, b) = boot_allocate_space end_of_kernel PAGE_SIZE PAGE_SIZE b;
     phys_dir \<leftarrow> STATIC_KERNEL_PHYSICAL_ADDRESS dir;
     let b = b\<lparr>vm := (vm b)\<lparr>ptr_page_directory := dir\<rparr>, phys_page_directory := phys_dir\<rparr>;
     stack_bottom \<leftarrow> STATIC_KERNEL_PHYSICAL_ADDRESS ptr_stack_bottom;
     b \<leftarrow> boot_map_range end_of_kernel dir (KERN_STACK_TOP - KERNEL_STACK_SIZE) KERNEL_STACK_SIZE stack_bottom PERM_WRITEABLE b;
     k \<leftarrow> pt_set_page_permissions dir (KERN_STACK_TOP - KERNEL_STACK_SIZE) 0 PERM_PRESENT (vm b);
     let b = b\<lparr>vm := k\<rparr>;
     b \<leftarrow> boot_tables end_of_kernel dir KERNEL_BASE 64 b;
     let (fi, b) = boot_allocate_space end_of_kernel (number_of_frames (vm b) * 32) PAGE_SIZE b;
     let b = b\<lparr>vm := (vm b)\<lparr>frames_info := fi\<rparr>\<rparr>;
     let (dfi, b) = boot_allocate_space end_of_kernel (of_nat PAGES_PER_FILE * 32) PAGE_SIZE b;
     let b = b\<lparr>vm := (vm b)\<lparr>disk_frames_info := dfi\<rparr>\<rparr>;
     k \<leftarrow> setup_listing_to_all_page_tables_entries dir (vm b);
     let b = b\<lparr>vm := k\<rparr>;
     let envs_size = NENV (vm b) * sizeof_Env;
     let (es, b) = boot_allocate_space end_of_kernel envs_size PAGE_SIZE b;
     let b = b\<lparr>vm := (vm b)\<lparr>env_slot := (\<lambda>i. es + i * sizeof_Env)\<rparr>\<rparr>;
     pa_envs \<leftarrow> STATIC_KERNEL_PHYSICAL_ADDRESS es;
     b \<leftarrow> boot_map_range end_of_kernel dir UENVS envs_size pa_envs PERM_USER b;
     let b = b\<lparr>vm := set_word dir (PDX UENVS)
       (words (vm b) dir (PDX UENVS) OR (PERM_USER OR (PERM_PRESENT AND NOT PERM_WRITEABLE))) (vm b)\<rparr>;
     b \<leftarrow> boot_map_range end_of_kernel dir KERNEL_BASE (ptr_free_mem b - KERNEL_BASE) 0 PERM_WRITEABLE b;
     _ \<leftarrow> check_boot_pgdir ptr_stack_bottom b;
     let b = b\<lparr>vm := (vm b)\<lparr>memory_scarce_threshold_percentage := 25\<rparr>\<rparr>;
     Some (turn_on_paging b)
   }"

end
