(* ===== verification/FOS_PageMaps.thy ===== *)
theory FOS_PageMaps
  imports FOS_KHeap
begin

text \<open>
  The kernel heap's part of the address space as a map from pages to page table entries, and
  what allocating and mapping frames does to it and to the list of free frames.
\<close>

section \<open>Page numbers and table indices\<close>

lemma unat_drop_bit_u32: "unat (drop_bit n (x :: u32)) = unat x div 2 ^ n"
  by (metis drop_bit_eq_div unsigned_drop_bit_eq take_bit_nat_eq_self_iff order.strict_trans1 div_le_dividend
      unsigned_less)

lemma unat_and_mask: "unat ((x :: u32) AND mask n) = unat x mod 2 ^ n"
  by (metis take_bit_eq_mask take_bit_eq_mod unsigned_take_bit_eq)

lemma unat_PPN: "unat (PPN x) = unat x div 4096"
  by (simp add: PPN_def unat_drop_bit_u32)

lemma unat_PDX: "unat (PDX x) = unat x div 4194304"
proof -
  have "unat (PDX x) = (unat x div 4194304) mod 1024"
    using unat_and_mask [of "drop_bit 22 x" 10] by (simp add: PDX_def unat_drop_bit_u32 mask_numeral)
  moreover have "unat x div 4194304 < 1024" using unat_u32_bound [of x] by (simp add: less_mult_imp_div_less)
  ultimately show ?thesis by simp
qed

lemma unat_PTX: "unat (PTX x) = unat x div 4096 mod 1024"
  using unat_and_mask [of "drop_bit 12 x" 10] by (simp add: PTX_def unat_drop_bit_u32 mask_numeral)

lemma PDX_PTX_page: "unat x div 4096 = unat (PDX x) * 1024 + unat (PTX x)"
  unfolding unat_PDX unat_PTX by (simp add: div_mult2_eq [of "unat x" 4096 1024, simplified])

lemma same_entry: "PDX x = PDX y \<Longrightarrow> PTX x = PTX y \<Longrightarrow> unat x div 4096 = unat y div 4096"
  by (simp add: PDX_PTX_page)

lemma same_page:
  assumes "unat x div 4096 = unat y div 4096"
  shows "PDX x = PDX y" "PTX x = PTX y"
proof -
  have d: "unat z div 4194304 = unat z div 4096 div 1024" for z :: u32
    using div_mult2_eq [of "unat z" 4096 1024] by simp
  show "PDX x = PDX y" by (rule word_unat_eq_iff [THEN iffD2]) (simp only: unat_PDX d assms)
  show "PTX x = PTX y" by (rule word_unat_eq_iff [THEN iffD2]) (simp only: unat_PTX assms)
qed

section \<open>Kernel heap tables\<close>

abbreviation pde :: "kern \<Rightarrow> u32 \<Rightarrow> u32" where
  "pde k va \<equiv> words k (ptr_page_directory k) (PDX va)"

definition table :: "kern \<Rightarrow> u32 \<Rightarrow> ptr" where
  "table k va = EXTRACT_ADDRESS (pde k va) + KERNEL_BASE"

definition pte :: "kern \<Rightarrow> u32 \<Rightarrow> u32" where
  "pte k va = words k (table k va) (PTX va)"

text \<open>
  The tables of the kernel heap exist, in memory the kernel can address, and no two directory
  entries share one: the boot code sets this up. \<open>entry\<close> is the directory entry of an address.
\<close>

definition table_there :: "ptr \<Rightarrow> u32 \<Rightarrow> u32 \<Rightarrow> bool" where
  "table_there dir nframes e \<longleftrightarrow> e AND PERM_PRESENT = PERM_PRESENT \<and> PPN (EXTRACT_ADDRESS e) < nframes \<and>
     EXTRACT_ADDRESS e + KERNEL_BASE \<noteq> NULL \<and> EXTRACT_ADDRESS e + KERNEL_BASE \<noteq> dir"

definition tables_ok :: "ptr \<Rightarrow> u32 \<Rightarrow> (u32 \<Rightarrow> u32) \<Rightarrow> bool" where
  "tables_ok dir nframes entry \<longleftrightarrow>
     (\<forall>va. KERNEL_HEAP_START \<le> va \<longrightarrow> table_there dir nframes (entry va)) \<and>
     (\<forall>va vb. KERNEL_HEAP_START \<le> va \<longrightarrow> KERNEL_HEAP_START \<le> vb \<longrightarrow>
        EXTRACT_ADDRESS (entry va) = EXTRACT_ADDRESS (entry vb) \<longrightarrow> PDX va = PDX vb)"

definition kheap_tables :: "kern \<Rightarrow> bool" where
  "kheap_tables k \<longleftrightarrow> tables_ok (ptr_page_directory k) (number_of_frames k) (pde k)"

lemma kheap_tables_there: "kheap_tables k \<Longrightarrow> KERNEL_HEAP_START \<le> va \<Longrightarrow>
    table_there (ptr_page_directory k) (number_of_frames k) (pde k va)"
  unfolding kheap_tables_def tables_ok_def by (drule conjunct1) (drule spec, erule mp)

lemma kheap_tablesD:
  assumes "kheap_tables k" "KERNEL_HEAP_START \<le> va"
  shows "pde k va AND PERM_PRESENT = PERM_PRESENT" "PPN (EXTRACT_ADDRESS (pde k va)) < number_of_frames k"
    "table k va \<noteq> NULL" "table k va \<noteq> ptr_page_directory k"
    "KERNEL_HEAP_START \<le> vb \<Longrightarrow> table k va = table k vb \<Longrightarrow> PDX va = PDX vb"
proof -
  note t = kheap_tables_there [OF assms, unfolded table_there_def]
  from t show "pde k va AND PERM_PRESENT = PERM_PRESENT" by (rule conjunct1)
  note t = conjunct2 [OF t]
  from t show "PPN (EXTRACT_ADDRESS (pde k va)) < number_of_frames k" by (rule conjunct1)
  note t = conjunct2 [OF t, folded table_def]
  from t show "table k va \<noteq> NULL" by (rule conjunct1)
  from t show "table k va \<noteq> ptr_page_directory k" by (rule conjunct2)
  show "PDX va = PDX vb" if "KERNEL_HEAP_START \<le> vb" "table k va = table k vb"
  proof -
    have "EXTRACT_ADDRESS (pde k va) = EXTRACT_ADDRESS (pde k vb)" using that(2) unfolding table_def by (simp only: add_right_cancel)
    moreover have "KERNEL_HEAP_START \<le> va \<longrightarrow> KERNEL_HEAP_START \<le> vb \<longrightarrow>
        EXTRACT_ADDRESS (pde k va) = EXTRACT_ADDRESS (pde k vb) \<longrightarrow> PDX va = PDX vb"
      by (rule conjunct2 [OF assms(1) [unfolded kheap_tables_def tables_ok_def], THEN spec, THEN spec])
    ultimately show ?thesis using assms(2) that(1) by iprover
  qed
qed

lemma kernel_address: "KERNEL_HEAP_START \<le> va \<Longrightarrow> CHECK_IF_KERNEL_ADDRESS va"
proof -
  have "USER_TOP \<le> KERNEL_HEAP_START" by simp
  moreover have "va \<le> 0xFFFFFFFF" using unat_u32_bound [of va] by (simp add: word_le_nat_alt)
  ultimately show "KERNEL_HEAP_START \<le> va \<Longrightarrow> CHECK_IF_KERNEL_ADDRESS va"
    unfolding CHECK_IF_KERNEL_ADDRESS_def by (iprover intro: order.trans)
qed

lemma get_page_table_kheap:
  assumes "kheap_tables k" "KERNEL_HEAP_START \<le> va"
  shows "get_page_table (ptr_page_directory k) va k = Some (TABLE_IN_MEMORY, table k va)"
proof -
  have p: "\<not> number_of_frames k \<le> PPN (EXTRACT_ADDRESS (pde k va))" using kheap_tablesD(2) [OF assms] by simp
  show ?thesis
    unfolding get_page_table_def Let_def STATIC_KERNEL_VIRTUAL_ADDRESS_def
    by (simp only: kheap_tablesD(1) [OF assms] kernel_address [OF assms(2)] p not_True_eq_False if_False if_True simp_thms
        bind.bind_lunit table_def)
qed

lemma kheap_tables_entry:
  assumes "kheap_tables k" "KERNEL_HEAP_START \<le> va" "KERNEL_HEAP_START \<le> vb" "unat va div 4096 \<noteq> unat vb div 4096"
  shows "table k va \<noteq> table k vb \<or> PTX va \<noteq> PTX vb"
  using kheap_tablesD(5) [OF assms(1-3)] same_entry [of va vb] assms(4) by blast

text \<open>Writing an entry of a heap table changes that page's entry only.\<close>

lemma set_pte:
  fixes v :: u32
  assumes "kheap_tables k" "KERNEL_HEAP_START \<le> va"
  defines "k' \<equiv> set_word (table k va) (PTX va) v k"
  shows "table k' vb = table k vb" "kheap_tables k'"
    "KERNEL_HEAP_START \<le> vb \<Longrightarrow> pte k' vb = (if unat va div 4096 = unat vb div 4096 then v else pte k vb)"
proof -
  have dir: "table k va \<noteq> ptr_page_directory k" using kheap_tablesD(4) [OF assms(1,2)] .
  then have p: "pde k' w = pde k w" for w by (auto simp: k'_def set_word_def)
  then show t: "table k' vb = table k vb" for vb by (simp add: table_def)
  have d: "ptr_page_directory k' = ptr_page_directory k" "number_of_frames k' = number_of_frames k"
    by (simp_all add: k'_def set_word_def)
  show "kheap_tables k'"
    using assms(1) unfolding kheap_tables_def d p [unfolded d] .
  show "pte k' vb = (if unat va div 4096 = unat vb div 4096 then v else pte k vb)" if "KERNEL_HEAP_START \<le> vb"
  proof (cases "unat va div 4096 = unat vb div 4096")
    case True
    then have "PDX va = PDX vb" "PTX va = PTX vb" by (rule same_page)+
    then show ?thesis using True t by (simp add: pte_def k'_def set_word_def table_def)
  next
    case False
    then show ?thesis
      using kheap_tables_entry [OF assms(1,2) that] t by (auto simp: pte_def k'_def set_word_def)
  qed
qed

section \<open>Frames\<close>

definition lock_held :: "kern \<Rightarrow> bool" where
  "lock_held k \<longleftrightarrow> held (mfllock k) \<and> cpu_ok (kcpu k) \<and> ncli (kcpu k) \<noteq> 0"

definition free_frames :: "kern \<Rightarrow> ptr list \<Rightarrow> bool" where
  "free_frames k fs \<longleftrightarrow> dll frame_links (frames k) (free_frame_list k) fs \<and> (\<forall>f \<in> set fs. isBuffered (frames k f) = 0)"

lemma with_mfllock_held: "lock_held k \<Longrightarrow> with_mfllock f k = f k"
proof -
  assume "lock_held k"
  then have "holding_mfllock k = Some (True, k)"
    by (simp add: lock_held_def holding_mfllock_def with_cpu_def holding_spinlock_eq)
  then show ?thesis by (simp add: with_mfllock_def split: Option.bind_split)
qed

lemma allocate_frame_held:
  assumes h: "lock_held k" and fs: "free_frames k (f # fs)"
  shows "\<exists>t h. allocate_frame k = Some (f, k\<lparr>frames := t, free_frame_list := h\<rparr>) \<and>
    free_frames (k\<lparr>frames := t, free_frame_list := h\<rparr>) fs \<and> t f = zero_frame \<and>
    (\<forall>x. x \<noteq> f \<longrightarrow> no_frame_links (t x) = no_frame_links (frames k x))"
proof -
  from fs have d: "dll frame_links (frames k) (free_frame_list k) ([] @ f # fs)" and
    b: "\<forall>x \<in> set (f # fs). isBuffered (frames k x) = 0" by (auto simp: free_frames_def)
  from d have f: "lh_first (free_frame_list k) = f" "f \<noteq> NULL" "f \<notin> set fs" by (auto simp: dll_def)
  from frame_store.remove [OF d] obtain h t where
    r: "LIST_REMOVE frame_links f (free_frame_list k) (frames k) = Some (h, t)" and
    dt: "dll frame_links t h fs" "\<forall>c. no_frame_links (t c) = no_frame_links (frames k c)"
    by (auto simp: returns_iff)
  have nb: "isBuffered (t x) = 0" if "x \<in> set (f # fs)" for x
    using no_frame_links_eqD(3) [of "t x" "frames k x"] dt(2) b that by auto
  let ?t = "t(f := zero_frame)"
  have d': "dll frame_links ?t h fs"
  proof -
    have "dll frame_links ?t h fs = dll frame_links t h fs" using f(3) by (intro dll_cong) auto
    then show ?thesis using dt(1) by simp
  qed
  have "allocate_frame k = Some (f, k\<lparr>frames := ?t, free_frame_list := h\<rparr>)"
    using f nb [of f] by (simp add: allocate_frame_def with_mfllock_held [OF h] on_free_frames_def r Let_def initialize_frame_info_def)
  moreover have "free_frames (k\<lparr>frames := ?t, free_frame_list := h\<rparr>) fs"
    using d' nb f(3) by (auto simp: free_frames_def)
  ultimately show ?thesis using dt(2) by (intro exI [of _ ?t] exI [of _ h]) simp
qed

text \<open>Mapping a frame at a heap page that has no frame yet.\<close>

definition new_entry :: "kern \<Rightarrow> ptr \<Rightarrow> u32 \<Rightarrow> u32 \<Rightarrow> u32" where
  "new_entry k f va perm =
     CONSTRUCT_ENTRY (to_physical_address f k) ((pte k va AND PERM_AVAILABLE) OR perm OR PERM_PRESENT)"

lemma map_frame_kheap:
  assumes "kheap_tables k" "KERNEL_HEAP_START \<le> va" "pte k va AND PERM_PRESENT = 0"
  shows "map_frame_with create (ptr_page_directory k) f va perm k =
    Some (set_word (table k va) (PTX va) (new_entry k f va perm)
      (update_frame f (\<lambda>i. i\<lparr>references := references i + 1, base_va_page := va\<rparr>) k))"
  using assms
  by (simp add: map_frame_with_def get_page_table_kheap Let_def pte_def new_entry_def update_frame_def)

section \<open>The loop that maps new frames\<close>

definition page :: "u32 \<Rightarrow> nat \<Rightarrow> u32" where
  "page va j = va + of_nat (j * 4096)"

lemma page_0 [simp]: "page va 0 = va"
  by (simp add: page_def)

lemma page_Suc: "page (va + PAGE_SIZE) j = page va (Suc j)"
  by (simp add: page_def algebra_simps)

text \<open>The pages from \<open>va\<close> on lie in the kernel heap, do not wrap around, and have no frames.\<close>

definition unmapped :: "kern \<Rightarrow> u32 \<Rightarrow> nat \<Rightarrow> bool" where
  "unmapped k va n \<longleftrightarrow> unat va + n * 4096 \<le> 4294967296 \<and>
     (\<forall>j < n. KERNEL_HEAP_START \<le> page va j \<and> pte k (page va j) AND PERM_PRESENT = 0)"

lemma unat_page: "unat va + j * 4096 < 4294967296 \<Longrightarrow> unat (page va j) = unat va + j * 4096"
proof -
  assume a: "unat va + j * 4096 < 4294967296"
  have "page va j = of_nat (unat va + j * 4096)" by (simp add: page_def)
  then show ?thesis using unat_of_nat_u32 [OF a] by (simp only:)
qed

lemma page_number: "unat va + j * 4096 < 4294967296 \<Longrightarrow> unat (page va j) div 4096 = unat va div 4096 + j"
  by (simp add: unat_page)

text \<open>What the loop has done after \<open>n\<close> rounds.\<close>

definition mapped :: "kern \<Rightarrow> ptr list \<Rightarrow> (nat \<Rightarrow> u32) \<Rightarrow> u32 \<Rightarrow> nat \<Rightarrow> kern \<Rightarrow> bool" where
  "mapped k fs perm va n k' \<longleftrightarrow>
     free_frames k' (drop n fs) \<and> kheap_tables k' \<and>
     (\<forall>j < n. pte k' (page va j) = new_entry k (fs ! j) (page va j) (perm j) \<and>
        references (frames k' (fs ! j)) = 1 \<and> base_va_page (frames k' (fs ! j)) = page va j) \<and>
     (\<forall>vb \<ge> KERNEL_HEAP_START. (\<forall>j < n. unat vb div 4096 \<noteq> unat va div 4096 + j) \<longrightarrow> pte k' vb = pte k vb) \<and>
     (\<forall>x. x \<notin> set (take n fs) \<longrightarrow> no_frame_links (frames k' x) = no_frame_links (frames k x)) \<and>
     k' = k\<lparr>frames := frames k', free_frame_list := free_frame_list k', words := words k'\<rparr>"

lemma lock_held_cong: "mfllock k' = mfllock k \<Longrightarrow> kcpu k' = kcpu k \<Longrightarrow> lock_held k' = lock_held k"
  by (simp add: lock_held_def)

lemma table_cong: "words k' = words k \<Longrightarrow> ptr_page_directory k' = ptr_page_directory k \<Longrightarrow> table k' va = table k va"
  "words k' = words k \<Longrightarrow> ptr_page_directory k' = ptr_page_directory k \<Longrightarrow> pte k' va = pte k va"
  "words k' = words k \<Longrightarrow> ptr_page_directory k' = ptr_page_directory k \<Longrightarrow> number_of_frames k' = number_of_frames k \<Longrightarrow>
     kheap_tables k' = kheap_tables k"
  by (simp_all add: table_def pte_def kheap_tables_def)

text \<open>One round: allocate, then map.\<close>

lemma map_one_frame:
  assumes lk: "lock_held k" and kt: "kheap_tables k" and um: "unmapped k va (Suc n)" and fs: "free_frames k (f # fs)"
  shows "\<exists>k2. (\<forall>perm page_no. map_new_frames perm page_no va (Suc n) k =
        map_new_frames perm (page_no + 1) (va + PAGE_SIZE) n (k2 (perm page_no))) \<and>
    (\<forall>p. lock_held (k2 p) \<and> unmapped (k2 p) (va + PAGE_SIZE) n \<and> mapped k (f # fs) (\<lambda>j. p) va 1 (k2 p))"
proof -
  from um have va: "KERNEL_HEAP_START \<le> va" "pte k va AND PERM_PRESENT = 0" and nw: "unat va + Suc n * 4096 \<le> 4294967296"
    by (auto simp: unmapped_def dest!: spec [of _ 0])
  from allocate_frame_held [OF lk fs] obtain t1 h1 where a0: "allocate_frame k = Some (f, k\<lparr>frames := t1, free_frame_list := h1\<rparr>)"
    "free_frames (k\<lparr>frames := t1, free_frame_list := h1\<rparr>) fs" "t1 f = zero_frame"
    "\<forall>x. x \<noteq> f \<longrightarrow> no_frame_links (t1 x) = no_frame_links (frames k x)" by blast
  define k1 where "k1 = k\<lparr>frames := t1, free_frame_list := h1\<rparr>"
  note a = a0 [folded k1_def]
  from fs have nf: "f \<notin> set fs" by (auto simp: free_frames_def dll_def)
  have w: "words k1 = words k" "ptr_page_directory k1 = ptr_page_directory k" "number_of_frames k1 = number_of_frames k"
    "mfllock k1 = mfllock k" "kcpu k1 = kcpu k" "frames_info k1 = frames_info k" "frames k1 = t1" "free_frame_list k1 = h1"
    by (simp_all add: k1_def)
  have kt1: "kheap_tables k1" using kt table_cong(3) [of k1 k] by (simp add: w)
  have pa: "new_entry k1 f va p = new_entry k f va p" for p
    by (simp add: new_entry_def to_physical_address_def to_frame_number_def table_cong(2) [of k1 k] w)
  define u where "u = update_frame f (\<lambda>i. i\<lparr>references := references i + 1, base_va_page := va\<rparr>) k1"
  have u: "words u = words k" "ptr_page_directory u = ptr_page_directory k" "number_of_frames u = number_of_frames k"
    "mfllock u = mfllock k" "kcpu u = kcpu k" "free_frame_list u = h1"
    by (simp_all add: u_def update_frame_def w)
  have ktu: "kheap_tables u" using kt table_cong(3) [of u k] by (simp add: u)
  define k2 where "k2 p = set_word (table u va) (PTX va) (new_entry k f va p) u" for p
  have m: "map_frame_with nested_create (ptr_page_directory k1) f va p k1 = Some (k2 p)" for p
    using map_frame_kheap [OF kt1 va(1), of nested_create f p] va(2)
    by (simp add: table_cong(1) [of k1 k] table_cong(2) [of k1 k] table_cong(1) [of u k] w u pa k2_def u_def [symmetric])
  have f2: "frames (k2 p) = frames u" "free_frame_list (k2 p) = h1" "mfllock (k2 p) = mfllock k"
    "kcpu (k2 p) = kcpu k" for p
    by (simp_all add: k2_def set_word_def u)
  have code: "map_new_frames perm page_no va (Suc n) k =
      map_new_frames perm (page_no + 1) (va + PAGE_SIZE) n (k2 (perm page_no))" for perm page_no
    by (simp add: a(1) m)
  have lk2: "lock_held (k2 p)" for p using lk by (simp add: lock_held_def f2)
  note sp = set_pte [OF ktu va(1)]
  have pt2: "pte (k2 p) vb = (if unat va div 4096 = unat vb div 4096 then new_entry k f va p else pte k vb)"
    if "KERNEL_HEAP_START \<le> vb" for p vb
    using sp(3) [OF that] by (simp add: k2_def table_cong(2) [of u k] u)
  have pg: "page (va + PAGE_SIZE) j = page va (Suc j)" for j by (rule page_Suc)
  have um2: "unmapped (k2 p) (va + PAGE_SIZE) n" for p
    unfolding unmapped_def pg
  proof (intro conjI allI impI)
    show "unat (va + PAGE_SIZE) + n * 4096 \<le> 4294967296"
    proof (cases "unat va + 4096 < 4294967296")
      case True
      then show ?thesis using nw unat_page [of va 1] by (simp add: page_def)
    next
      case False
      then show ?thesis using nw unat_u32_bound [of "va + PAGE_SIZE"] by simp
    qed
    fix j assume j: "j < n"
    have h: "KERNEL_HEAP_START \<le> page va (Suc j)" "pte k (page va (Suc j)) AND PERM_PRESENT = 0"
      using um j unfolding unmapped_def by blast+
    show "KERNEL_HEAP_START \<le> page va (Suc j)" by (rule h)
    have "unat (page va (Suc j)) div 4096 \<noteq> unat va div 4096"
      using page_number [of va "Suc j"] nw j by simp
    then show "pte (k2 p) (page va (Suc j)) AND PERM_PRESENT = 0"
      using h(2) pt2 [OF h(1), of p] by simp
  qed
  have fr: "frames u x = (if x = f then zero_frame\<lparr>references := 1, base_va_page := va\<rparr> else t1 x)" for x
    by (simp add: u_def update_frame_def a(3) w zero_frame_def)
  have ff2: "free_frames (k2 p) fs" for p
  proof -
    have "dll frame_links (frames u) h1 fs = dll frame_links t1 h1 fs"
      using nf by (intro dll_cong) (auto simp: fr)
    then show ?thesis using a(2) nf unfolding free_frames_def f2 w by (auto simp: fr)
  qed
  have "mapped k (f # fs) (\<lambda>j. p) va 1 (k2 p)" for p
    unfolding mapped_def
  proof (intro conjI allI impI)
    show "free_frames (k2 p) (drop 1 (f # fs))" using ff2 by simp
    show "kheap_tables (k2 p)" unfolding k2_def by (rule sp(2))
    fix j :: nat assume "j < 1"
    then show "pte (k2 p) (page va j) = new_entry k ((f # fs) ! j) (page va j) p"
      "references (frames (k2 p) ((f # fs) ! j)) = 1" "base_va_page (frames (k2 p) ((f # fs) ! j)) = page va j"
      using pt2 [OF va(1)] by (simp_all add: f2 fr zero_frame_def)
  next
    fix vb assume "KERNEL_HEAP_START \<le> vb" "\<forall>j < 1. unat vb div 4096 \<noteq> unat va div 4096 + j"
    then show "pte (k2 p) vb = pte k vb" using pt2 by simp
  next
    fix x assume "x \<notin> set (take 1 (f # fs))"
    then show "no_frame_links (frames (k2 p) x) = no_frame_links (frames k x)" using a(4) by (simp add: f2 fr)
  next
    show "k2 p = k\<lparr>frames := frames (k2 p), free_frame_list := free_frame_list (k2 p), words := words (k2 p)\<rparr>"
      by (simp add: k2_def u_def set_word_def update_frame_def k1_def)
  qed
  then show ?thesis using code lk2 um2 by blast
qed

lemma mapped_0: "kheap_tables k \<Longrightarrow> free_frames k fs \<Longrightarrow> mapped k fs perm va 0 k"
  by (simp add: mapped_def)

lemma new_entry_cong:
  "frames_info k' = frames_info k \<Longrightarrow> pte k' va = pte k va \<Longrightarrow> new_entry k' f va p = new_entry k f va p"
  by (simp add: new_entry_def to_physical_address_def to_frame_number_def)

lemma mapped_frame:
  "mapped k fs perm va n k' \<Longrightarrow> k' = k\<lparr>frames := frames k', free_frame_list := free_frame_list k', words := words k'\<rparr>"
  by (simp add: mapped_def)

lemma mapped_same:
  assumes "mapped k fs perm va n k'"
  shows "mfllock k' = mfllock k" "kcpu k' = kcpu k" "frames_info k' = frames_info k" "kmem k' = kmem k" "BRK k' = BRK k"
    "HARD_LIMIT k' = HARD_LIMIT k" "number_of_frames k' = number_of_frames k" "ptr_page_directory k' = ptr_page_directory k"
    "kfreeBlocksList k' = kfreeBlocksList k" "kda_initialized k' = kda_initialized k"
    "KHeapPlacementStrategy k' = KHeapPlacementStrategy k" "START_KHEAP_BLOCK_ALLOCATOR k' = START_KHEAP_BLOCK_ALLOCATOR k"
proof -
  note e = mapped_frame [OF assms]
  show "mfllock k' = mfllock k" by (rule trans [OF arg_cong [OF e]]) simp
  show "kcpu k' = kcpu k" by (rule trans [OF arg_cong [OF e]]) simp
  show "frames_info k' = frames_info k" by (rule trans [OF arg_cong [OF e]]) simp
  show "kmem k' = kmem k" by (rule trans [OF arg_cong [OF e]]) simp
  show "BRK k' = BRK k" by (rule trans [OF arg_cong [OF e]]) simp
  show "HARD_LIMIT k' = HARD_LIMIT k" by (rule trans [OF arg_cong [OF e]]) simp
  show "number_of_frames k' = number_of_frames k" by (rule trans [OF arg_cong [OF e]]) simp
  show "ptr_page_directory k' = ptr_page_directory k" by (rule trans [OF arg_cong [OF e]]) simp
  show "kfreeBlocksList k' = kfreeBlocksList k" by (rule trans [OF arg_cong [OF e]]) simp
  show "kda_initialized k' = kda_initialized k" by (rule trans [OF arg_cong [OF e]]) simp
  show "KHeapPlacementStrategy k' = KHeapPlacementStrategy k" by (rule trans [OF arg_cong [OF e]]) simp
  show "START_KHEAP_BLOCK_ALLOCATOR k' = START_KHEAP_BLOCK_ALLOCATOR k" by (rule trans [OF arg_cong [OF e]]) simp
qed

lemma page_number_Suc:
  assumes "unat va + Suc n * 4096 \<le> 4294967296" "0 < n"
  shows "unat (va + PAGE_SIZE) div 4096 = unat va div 4096 + 1"
  using page_number [of va 1] assms by (simp add: page_def)

lemma mapped_step:
  assumes m1: "mapped k (f # fs) p va 1 k1" and m2: "mapped k1 fs (\<lambda>j. p (Suc j)) (va + PAGE_SIZE) n k2"
    and nw: "unat va + Suc n * 4096 \<le> 4294967296" and dist: "f \<notin> set fs"
    and hp: "\<forall>j \<le> n. KERNEL_HEAP_START \<le> page va j"
  shows "mapped k (f # fs) p va (Suc n) k2"
proof -
  from m1 have a: "kheap_tables k1" "pte k1 va = new_entry k f va (p 0)" "references (frames k1 f) = 1"
    "base_va_page (frames k1 f) = va"
    and apte: "\<And>vb. KERNEL_HEAP_START \<le> vb \<Longrightarrow> unat vb div 4096 \<noteq> unat va div 4096 \<Longrightarrow> pte k1 vb = pte k vb"
    and afr: "\<And>x. x \<noteq> f \<Longrightarrow> no_frame_links (frames k1 x) = no_frame_links (frames k x)"
    by (simp_all add: mapped_def)
  from m2 have b: "free_frames k2 (drop n fs)" "kheap_tables k2"
    and bj: "\<And>j. j < n \<Longrightarrow> pte k2 (page va (Suc j)) = new_entry k1 (fs ! j) (page va (Suc j)) (p (Suc j)) \<and>
        references (frames k2 (fs ! j)) = 1 \<and> base_va_page (frames k2 (fs ! j)) = page va (Suc j)"
    and bpte: "\<And>vb. KERNEL_HEAP_START \<le> vb \<Longrightarrow> \<forall>j < n. unat vb div 4096 \<noteq> unat (va + PAGE_SIZE) div 4096 + j \<Longrightarrow> pte k2 vb = pte k1 vb"
    and bfr: "\<And>x. x \<notin> set (take n fs) \<Longrightarrow> no_frame_links (frames k2 x) = no_frame_links (frames k1 x)"
    unfolding mapped_def page_Suc by blast+
  have pn: "unat vb div 4096 \<noteq> unat (va + PAGE_SIZE) div 4096 + j" if "unat vb div 4096 \<noteq> unat va div 4096 + Suc j" "j < n" for vb j
    using page_number_Suc [OF nw] that by (cases "n = 0") auto
  have pj: "unat (page va (Suc j)) div 4096 = unat va div 4096 + Suc j" if "j < n" for j
    using page_number [of va "Suc j"] nw that by simp
  have f2: "no_frame_links (frames k2 f) = no_frame_links (frames k1 f)"
    using bfr dist by (meson in_set_takeD)
  show ?thesis
    unfolding mapped_def
  proof (intro conjI allI impI)
    show "free_frames k2 (drop (Suc n) (f # fs))" "kheap_tables k2" using b by simp_all
    fix j assume j: "j < Suc n"
    have "pte k2 (page va j) = new_entry k ((f # fs) ! j) (page va j) (p j) \<and>
        references (frames k2 ((f # fs) ! j)) = 1 \<and> base_va_page (frames k2 ((f # fs) ! j)) = page va j"
    proof (cases j)
      case 0
      have "pte k2 va = pte k1 va"
        using hp by (intro bpte) (auto simp: page_number_Suc [OF nw] dest: spec [of _ 0])
      then show ?thesis using 0 a no_frame_links_eqD [OF f2] by simp
    next
      case (Suc i)
      then have i: "i < n" using j by simp
      have "pte k1 (page va (Suc i)) = pte k (page va (Suc i))"
        using hp i pj [OF i] by (intro apte) auto
      then show ?thesis
        using bj [OF i] new_entry_cong [OF mapped_same(3) [OF m1]] Suc by simp
    qed
    then show "pte k2 (page va j) = new_entry k ((f # fs) ! j) (page va j) (p j)"
      "references (frames k2 ((f # fs) ! j)) = 1" "base_va_page (frames k2 ((f # fs) ! j)) = page va j" by blast+
  next
    fix vb assume vb: "KERNEL_HEAP_START \<le> vb" "\<forall>j < Suc n. unat vb div 4096 \<noteq> unat va div 4096 + j"
    have "pte k2 vb = pte k1 vb"
      by (rule bpte [OF vb(1)]) (use vb(2) pn in \<open>blast intro: Suc_mono\<close>)
    moreover have "pte k1 vb = pte k vb" using vb by (intro apte) auto
    ultimately show "pte k2 vb = pte k vb" by simp
  next
    fix x assume "x \<notin> set (take (Suc n) (f # fs))"
    then show "no_frame_links (frames k2 x) = no_frame_links (frames k x)" using bfr afr by simp
  next
    have "k2 = k1\<lparr>frames := frames k2, free_frame_list := free_frame_list k2, words := words k2\<rparr>"
      by (rule mapped_frame [OF m2])
    also have "\<dots> = k\<lparr>frames := frames k2, free_frame_list := free_frame_list k2, words := words k2\<rparr>"
      by (subst mapped_frame [OF m1]) simp
    finally show "k2 = k\<lparr>frames := frames k2, free_frame_list := free_frame_list k2, words := words k2\<rparr>" .
  qed
qed

theorem map_new_frames_spec:
  assumes "lock_held k" "kheap_tables k" "unmapped k va n" "free_frames k fs" "n \<le> length fs"
  shows "returns (map_new_frames perm page_no va n k) (mapped k fs (\<lambda>j. perm (page_no + of_nat j)) va n)"
  using assms
proof (induction n arbitrary: k va page_no fs)
  case 0
  then show ?case by (simp add: mapped_0)
next
  case (Suc n)
  from Suc.prems(5) obtain f fs' where fs: "fs = f # fs'" by (cases fs) auto
  from map_one_frame [OF Suc.prems(1-3), of f fs'] Suc.prems(4) fs obtain k2 where
    k2: "\<And>perm page_no. map_new_frames perm page_no va (Suc n) k =
        map_new_frames perm (page_no + 1) (va + PAGE_SIZE) n (k2 (perm page_no))"
      "\<And>p. lock_held (k2 p)" "\<And>p. unmapped (k2 p) (va + PAGE_SIZE) n" "\<And>p. mapped k (f # fs') (\<lambda>j. p) va 1 (k2 p)"
    by auto
  let ?k1 = "k2 (perm page_no)"
  have m1: "mapped k (f # fs') (\<lambda>j. perm (page_no + of_nat j)) va 1 ?k1" using k2(4) by (simp add: mapped_def)
  have "kheap_tables ?k1" "free_frames ?k1 fs'" using k2(4) by (simp_all add: mapped_def)
  from Suc.IH [OF k2(2) this(1) k2(3) this(2), of "page_no + 1"] Suc.prems(5) fs obtain k3 where
    k3: "map_new_frames perm (page_no + 1) (va + PAGE_SIZE) n ?k1 = Some k3"
      "mapped ?k1 fs' (\<lambda>j. perm (page_no + 1 + of_nat j)) (va + PAGE_SIZE) n k3" by (auto simp: returns_iff)
  have eq: "(\<lambda>j. perm (page_no + 1 + of_nat j)) = (\<lambda>j. perm (page_no + of_nat (Suc j)))" by (simp add: algebra_simps)
  have "mapped k (f # fs') (\<lambda>j. perm (page_no + of_nat j)) va (Suc n) k3"
    using Suc.prems(3,4) fs k3(2)
    by (intro mapped_step [OF m1]) (auto simp: eq unmapped_def free_frames_def dll_def less_Suc_eq_le)
  then show ?case unfolding k2(1) k3(1) fs by simp
qed

end
