(* ===== verification/FOS_Layout.thy ===== *)
theory FOS_Layout
  imports FOS_DynAlloc
begin

text \<open>
  What the heap memory of the block allocator represents: a list of blocks, each a size and an
  allocation flag, laid out one after the other between the BEGIN and the END marker. The
  invariant \<open>da_inv base bs s\<close> relates that list to the memory and to the free list, and
  the lemmas here say how the stores and the list macros of the allocator act on it. Addresses
  are natural numbers below \<open>2^32\<close> here, so that arithmetic is linear.
\<close>

section \<open>Memory at natural addresses\<close>

definition at :: "memory \<Rightarrow> nat \<Rightarrow> u8" where
  "at m x = m (of_nat x)"

abbreviation ld :: "memory \<Rightarrow> nat \<Rightarrow> u32" where
  "ld m a \<equiv> load32 m (of_nat a)"

definition same_on :: "nat set \<Rightarrow> memory \<Rightarrow> memory \<Rightarrow> bool" where
  "same_on S m m' \<longleftrightarrow> (\<forall>x \<in> S. x < 4294967296 \<longrightarrow> at m' x = at m x)"

lemma same_on_refl [simp]: "same_on S m m"
  by (simp add: same_on_def)

lemma same_on_trans: "same_on S m m' \<Longrightarrow> same_on S m' m'' \<Longrightarrow> same_on S m m''"
  by (simp add: same_on_def)

lemma same_on_mono: "same_on T m m' \<Longrightarrow> S \<subseteq> T \<Longrightarrow> same_on S m m'"
  by (auto simp: same_on_def)

lemma at_store32:
  assumes "x < 4294967296" and "b + 4 \<le> 4294967296" and "x < b \<or> b + 4 \<le> x"
  shows "at (store32 (of_nat b) v m) x = at m x"
proof -
  have "4 \<le> unat (of_nat x - of_nat b :: u32)"
    using assms by (auto simp: unat_sub_u32 unat_of_nat_u32)
  then show ?thesis by (simp add: at_def store32_other)
qed

lemma same_on_store32:
  "b + 4 \<le> 4294967296 \<Longrightarrow> S \<inter> {b..<b + 4} = {} \<Longrightarrow> same_on S m (store32 (of_nat b) v m)"
  unfolding same_on_def by (intro ballI impI at_store32) (auto simp: disjoint_iff not_less)

lemma ld_cong:
  assumes "same_on {a..<a + 4} m m'" and "a + 4 \<le> 4294967296"
  shows "ld m' a = ld m a"
proof -
  have "at m' (a + i) = at m (a + i)" if "i < 4" for i
    using assms that by (auto simp: same_on_def)
  from this [of 0] this [of 1] this [of 2] this [of 3] show ?thesis
    by (simp add: load32_def at_def add.commute)
qed

lemma ld_store_same [simp]: "ld (store32 (of_nat a) v m) a = v"
  by simp

lemma ld_store_other:
  assumes "a + 4 \<le> 4294967296" "b + 4 \<le> 4294967296" "a + 4 \<le> b \<or> b + 4 \<le> a"
  shows "ld (store32 (of_nat b) v m) a = ld m a"
  using assms by (intro ld_cong same_on_store32) auto

section \<open>Block lists\<close>

type_synonym block = "nat \<times> bool"

definition word_of :: "block \<Rightarrow> u32" where
  "word_of b = of_nat (fst b + (if snd b then 1 else 0))"

definition heap_len :: "block list \<Rightarrow> nat" where
  "heap_len bs = sum_list (map fst bs)"

lemma heap_len_simps [simp]:
  "heap_len [] = 0" "heap_len (b # bs) = fst b + heap_len bs" "heap_len (bs @ cs) = heap_len bs + heap_len cs"
  by (simp_all add: heap_len_def)

definition well_sized :: "block list \<Rightarrow> bool" where
  "well_sized bs \<longleftrightarrow> (\<forall>b \<in> set bs. even (fst b) \<and> 16 \<le> fst b)"

lemma well_sized_simps [simp]:
  "well_sized []" "well_sized (b # bs) \<longleftrightarrow> even (fst b) \<and> 16 \<le> fst b \<and> well_sized bs"
  "well_sized (bs @ cs) \<longleftrightarrow> well_sized bs \<and> well_sized cs"
  by (auto simp: well_sized_def)

primrec blocks_at :: "memory \<Rightarrow> nat \<Rightarrow> block list \<Rightarrow> bool" where
  "blocks_at m a [] = True"
| "blocks_at m a (b # bs) =
     (ld m a = word_of b \<and> ld m (a + fst b - 4) = word_of b \<and> blocks_at m (a + fst b) bs)"

lemma blocks_at_append [simp]:
  "blocks_at m a (bs @ cs) \<longleftrightarrow> blocks_at m a bs \<and> blocks_at m (a + heap_len bs) cs"
  by (induction bs arbitrary: a) (auto simp: add.assoc)

primrec free_addrs :: "nat \<Rightarrow> block list \<Rightarrow> ptr list" where
  "free_addrs a [] = []"
| "free_addrs a (b # bs) =
     (if snd b then free_addrs (a + fst b) bs else of_nat (a + 4) # free_addrs (a + fst b) bs)"

lemma free_addrs_append [simp]:
  "free_addrs a (bs @ cs) = free_addrs a bs @ free_addrs (a + heap_len bs) cs"
  by (induction bs arbitrary: a) (auto simp: add.assoc)

text \<open>Header and footer bytes, link bytes of the free blocks, payload bytes of the allocated blocks.\<close>

primrec meta :: "nat \<Rightarrow> block list \<Rightarrow> nat set" where
  "meta a [] = {}"
| "meta a (b # bs) = {a..<a + 4} \<union> {a + fst b - 4..<a + fst b} \<union> meta (a + fst b) bs"

primrec links :: "nat \<Rightarrow> block list \<Rightarrow> nat set" where
  "links a [] = {}"
| "links a (b # bs) = (if snd b then {} else {a + 4..<a + 12}) \<union> links (a + fst b) bs"

primrec payload :: "nat \<Rightarrow> block list \<Rightarrow> nat set" where
  "payload a [] = {}"
| "payload a (b # bs) = (if snd b then {a + 4..<a + fst b - 4} else {}) \<union> payload (a + fst b) bs"

lemma meta_append [simp]: "meta a (bs @ cs) = meta a bs \<union> meta (a + heap_len bs) cs"
  by (induction bs arbitrary: a) (auto simp: add.assoc)

lemma links_append [simp]: "links a (bs @ cs) = links a bs \<union> links (a + heap_len bs) cs"
  by (induction bs arbitrary: a) (auto simp: add.assoc)

lemma payload_append [simp]: "payload a (bs @ cs) = payload a bs \<union> payload (a + heap_len bs) cs"
  by (induction bs arbitrary: a) (auto simp: add.assoc)

lemma meta_bounds: "well_sized bs \<Longrightarrow> meta a bs \<subseteq> {a..<a + heap_len bs}"
  by (induction bs arbitrary: a) (auto, force+)

lemma links_bounds: "well_sized bs \<Longrightarrow> links a bs \<subseteq> {a..<a + heap_len bs}"
  by (induction bs arbitrary: a) (auto split: if_splits, force+)

lemma payload_bounds: "well_sized bs \<Longrightarrow> payload a bs \<subseteq> {a..<a + heap_len bs}"
  by (induction bs arbitrary: a) (auto split: if_splits, force+)

lemmas area_bounds = meta_bounds links_bounds payload_bounds

lemma blocks_at_cong:
  assumes "same_on (meta a bs) m m'" and "well_sized bs" and "a + heap_len bs \<le> 4294967296"
  shows "blocks_at m' a bs = blocks_at m a bs"
  using assms
proof (induction bs arbitrary: a)
  case Nil
  then show ?case by simp
next
  case (Cons b bs)
  have "ld m' a = ld m a"
    by (rule ld_cong) (use Cons.prems in \<open>auto elim: same_on_mono\<close>)
  moreover have "ld m' (a + fst b - 4) = ld m (a + fst b - 4)"
    by (rule ld_cong) (use Cons.prems in \<open>auto elim: same_on_mono\<close>)
  moreover from Cons.prems have "blocks_at m' (a + fst b) bs = blocks_at m (a + fst b) bs"
    by (intro Cons.IH) (auto elim!: same_on_mono simp: add.assoc)
  ultimately show ?case by simp
qed

lemma areas_disjoint:
  assumes "well_sized bs"
  shows "meta a bs \<inter> links a bs = {}" "meta a bs \<inter> payload a bs = {}" "links a bs \<inter> payload a bs = {}"
proof -
  have "meta a bs \<inter> links a bs = {} \<and> meta a bs \<inter> payload a bs = {} \<and> links a bs \<inter> payload a bs = {}"
    using assms
  proof (induction bs arbitrary: a)
    case Nil
    then show ?case by simp
  next
    case (Cons b bs)
    then have "meta (a + fst b) bs \<subseteq> {a + fst b..<a + fst b + heap_len bs}"
      "links (a + fst b) bs \<subseteq> {a + fst b..<a + fst b + heap_len bs}"
      "payload (a + fst b) bs \<subseteq> {a + fst b..<a + fst b + heap_len bs}"
      by (auto dest!: area_bounds [THEN subsetD, rotated])
    moreover from Cons have "16 \<le> fst b" by simp
    ultimately show ?case using Cons.IH [of "a + fst b"] Cons.prems
      by (auto simp: disjoint_iff subset_iff)
  qed
  then show "meta a bs \<inter> links a bs = {}" "meta a bs \<inter> payload a bs = {}" "links a bs \<inter> payload a bs = {}"
    by blast+
qed

section \<open>The free list inside the memory\<close>

lemma free_addrs_bounds:
  assumes "well_sized bs" and "p \<in> set (free_addrs a bs)"
  obtains h where "p = of_nat (h + 4)" and "a \<le> h" and "h + 16 \<le> a + heap_len bs"
  using assms
proof (induction bs arbitrary: a thesis)
  case Nil
  then show ?case by simp
next
  case (Cons b bs)
  show ?case
  proof (cases "p \<in> set (free_addrs (a + fst b) bs)")
    case True
    with Cons.prems(2) obtain h where "p = of_nat (h + 4)" "a + fst b \<le> h" "h + 16 \<le> a + fst b + heap_len bs"
      by (auto elim: Cons.IH [rotated 1])
    with Cons.prems(1) show ?thesis by (auto simp: add.assoc)
  next
    case False
    with Cons.prems show ?thesis by (auto split: if_splits)
  qed
qed

lemma mem_sep_nat:
  assumes "h + 16 \<le> k \<or> k + 16 \<le> h" and "h + 16 \<le> 4294967296" and "k + 16 \<le> 4294967296"
  shows "mem_sep (of_nat (h + 4)) (of_nat (k + 4))"
proof -
  have "unat (of_nat (h + 4) :: u32) = h + 4" "unat (of_nat (k + 4) :: u32) = k + 4"
    using assms(2,3) by (simp_all only: unat_of_nat_u32)
  then show ?thesis unfolding mem_sep_def unat_sub_u32 using assms by auto
qed

lemma free_addrs_sep:
  assumes "well_sized bs" and "a + heap_len bs \<le> 4294967296"
  shows "pairwise mem_sep (set (free_addrs a bs))"
  using assms
proof (induction bs arbitrary: a)
  case Nil
  then show ?case by simp
next
  case (Cons b bs)
  have "mem_sep (of_nat (a + 4)) p \<and> mem_sep p (of_nat (a + 4))"
    if p: "p \<in> set (free_addrs (a + fst b) bs)" for p
  proof -
    from p Cons.prems(1) obtain h where "p = of_nat (h + 4)" "a + fst b \<le> h" "h + 16 \<le> a + fst b + heap_len bs"
      by (auto elim: free_addrs_bounds [rotated 1])
    with Cons.prems show ?thesis
      by (auto simp del: of_nat_add intro!: mem_sep_nat)
  qed
  moreover have "pairwise mem_sep (set (free_addrs (a + fst b) bs))"
    using Cons by (simp add: add.assoc)
  ultimately show ?case by (auto simp: pairwise_insert)
qed

lemma free_addrs_nonnull:
  assumes "well_sized bs" and "a + heap_len bs \<le> 4294967296"
  shows "NULL \<notin> set (free_addrs a bs)"
proof
  assume "NULL \<in> set (free_addrs a bs)"
  with assms(1) obtain h where h: "(0 :: u32) = of_nat (h + 4)" "h + 16 \<le> a + heap_len bs"
    by (auto elim: free_addrs_bounds [rotated 1])
  with assms(2) have "h + 4 < 4294967296" by simp
  then have "unat (of_nat (h + 4) :: u32) = h + 4" by (rule unat_of_nat_u32)
  with h(1) show False by simp
qed

lemma region_link:
  assumes "x < 4294967296" and "h + 12 \<le> 4294967296" and "of_nat x \<in> region (of_nat (h + 4)) 8"
  shows "x \<in> {h + 4..<h + 12}"
proof -
  have "unat (of_nat (h + 4) :: u32) = h + 4" using assms(2) by (simp only: unat_of_nat_u32)
  with assms show ?thesis unfolding region_def mem_Collect_eq unat_sub_u32
    by (auto simp: unat_of_nat_u32 split: if_splits)
qed

lemma links_free_addrs:
  assumes "well_sized bs" and "a + heap_len bs \<le> 4294967296" and "x < 4294967296"
    and "of_nat x \<in> \<Union> ((\<lambda>p. region p 8) ` set (free_addrs a bs))"
  shows "x \<in> links a bs"
  using assms
proof (induction bs arbitrary: a)
  case Nil
  then show ?case by simp
next
  case (Cons b bs)
  show ?case
  proof (cases "of_nat x \<in> \<Union> ((\<lambda>p. region p 8) ` set (free_addrs (a + fst b) bs))")
    case True
    then have "x \<in> links (a + fst b) bs" using Cons by (auto simp: add.assoc)
    then show ?thesis by simp
  next
    case False
    with Cons.prems(4) have "\<not> snd b" "of_nat x \<in> region (of_nat (a + 4)) 8"
      by (auto split: if_splits)
    with region_link [of x a] Cons.prems show ?thesis by auto
  qed
qed

lemma same_on_links:
  assumes "well_sized bs" and "a + heap_len bs \<le> 4294967296"
    and "\<forall>c. c \<notin> \<Union> ((\<lambda>p. region p 8) ` set (free_addrs a bs)) \<longrightarrow> m' c = m c"
  shows "same_on (- links a bs) m m'"
  using assms links_free_addrs [OF assms(1,2)] by (auto simp: same_on_def at_def)

lemma dll_links_cong:
  assumes "same_on (links a bs) m m'" and "well_sized bs" and "a + heap_len bs \<le> 4294967296"
  shows "dll mem_links m' h (free_addrs a bs) = dll mem_links m h (free_addrs a bs)"
proof (rule dll_cong)
  fix x assume "x \<in> set (free_addrs a bs)"
  with assms show "le_next mem_links m' x = le_next mem_links m x \<and> le_prev mem_links m' x = le_prev mem_links m x"
  proof (induction bs arbitrary: a)
    case Nil
    then show ?case by simp
  next
    case (Cons b bs)
    show ?case
    proof (cases "x \<in> set (free_addrs (a + fst b) bs)")
      case True
      then show ?thesis using Cons.prems
        by (intro Cons.IH [of "a + fst b"]) (auto elim: same_on_mono simp: add.assoc)
    next
      case False
      with Cons.prems have x: "x = of_nat (a + 4)" and nf: "\<not> snd b" by (auto split: if_splits)
      with Cons.prems have "same_on {a + 4..<a + 12} m m'" by (auto elim: same_on_mono)
      then have "ld m' (a + 4) = ld m (a + 4)"
        by (rule ld_cong [OF same_on_mono]) (use Cons.prems in auto)
      moreover have "ld m' (a + 8) = ld m (a + 8)"
        by (rule ld_cong [OF same_on_mono [OF \<open>same_on {a + 4..<a + 12} m m'\<close>]]) (use Cons.prems in auto)
      moreover have "x + 4 = of_nat (a + 8)" by (simp add: x)
      ultimately show ?thesis using x by (simp add: add.commute [of "8"])
    qed
  qed
qed

lemma returns_on_free_list:
  "returns (on_free_list f s) Q \<longleftrightarrow>
     returns (f (freeBlocksList s) (da_mem s)) (\<lambda>(h, m). Q (s\<lparr>freeBlocksList := h, da_mem := m\<rparr>))"
  unfolding on_free_list_def returns_bind by (auto simp: returns_def split: option.splits)

text \<open>
  The state after a list operation that turns the free-list view of one block list into that
  of another: only link bytes of \<open>bs\<close> and the list head have changed.
\<close>

definition relinked :: "nat \<Rightarrow> block list \<Rightarrow> block list \<Rightarrow> 'w da \<Rightarrow> 'w da \<Rightarrow> bool" where
  "relinked a bs bs' s s' \<longleftrightarrow>
     dll mem_links (da_mem s') (freeBlocksList s') (free_addrs a bs') \<and>
     same_on (- links a bs) (da_mem s) (da_mem s') \<and>
     is_initialized s' = is_initialized s \<and> da_world s' = da_world s"

text \<open>A layout that fits the address space, and the list operations on a block in its middle.\<close>

definition fits :: "nat \<Rightarrow> block list \<Rightarrow> bool" where
  "fits a bs \<longleftrightarrow> well_sized bs \<and> a + heap_len bs \<le> 4294967296"

lemma fits_sep: "fits a bs \<Longrightarrow> pairwise mem_sep (set (free_addrs a bs))"
  by (simp add: fits_def free_addrs_sep)

lemma fits_nonnull: "fits a bs \<Longrightarrow> NULL \<notin> set (free_addrs a bs)"
  by (simp add: fits_def free_addrs_nonnull)

lemma free_addrs_mid: "free_addrs a (pre @ (n, False) # post) =
    free_addrs a pre @ of_nat (a + heap_len pre + 4) # free_addrs (a + heap_len pre + n) post"
  by simp

lemma fits_mid:
  assumes "fits a (pre @ (n, False) # post)"
  shows "of_nat (a + heap_len pre + 4) \<noteq> NULL"
    and "pairwise mem_sep (set (of_nat (a + heap_len pre + 4) # free_addrs a (pre @ (n, True) # post)))"
  using fits_nonnull [OF assms] fits_sep [OF assms] by (auto simp: insert_commute)

text \<open>The free blocks are listed by address: those of lower blocks before those of higher ones.\<close>

lemma free_addrs_below:
  assumes "fits a (pre @ post)" and "p \<in> set (free_addrs a pre)" and "a + heap_len pre + 4 < 4294967296"
  shows "p < of_nat (a + heap_len pre + 4)"
proof -
  from assms obtain h where "p = of_nat (h + 4)" "h + 16 \<le> a + heap_len pre"
    by (auto simp: fits_def elim: free_addrs_bounds [rotated 1])
  then show ?thesis using assms(3) by (simp only: of_nat_u32_less_iff)
qed

lemma free_addrs_above:
  assumes "fits (a + k) post" and "p \<in> set (free_addrs (a + k) post)" and "0 < k"
  shows "of_nat (a + 4) < p"
proof -
  from assms obtain h where "p = of_nat (h + 4)" "a + k \<le> h" "h + 16 \<le> a + k + heap_len post"
    by (auto simp: fits_def elim: free_addrs_bounds [rotated 1])
  moreover from assms(1) have "a + k + heap_len post \<le> 4294967296" by (simp add: fits_def)
  ultimately have "a + 4 < h + 4" "h + 4 < 4294967296" using assms(3) by auto
  with \<open>p = of_nat (h + 4)\<close> show ?thesis by (simp only: of_nat_u32_less_iff)
qed

lemma fits_not_listed:
  assumes "fits a (pre @ (n, False) # post)"
  shows "of_nat (a + heap_len pre + 4) \<notin> set (free_addrs a (pre @ (n, True) # post))"
proof -
  let ?va = "of_nat (a + heap_len pre + 4) :: u32"
  from assms have n: "16 \<le> n" "a + heap_len pre + n + heap_len post \<le> 4294967296"
    by (auto simp: fits_def)
  have "?va \<notin> set (free_addrs a pre)"
    using free_addrs_below [of a pre "(n, False) # post" ?va] assms n by auto
  moreover have "?va \<notin> set (free_addrs (a + heap_len pre + n) post)"
    using free_addrs_above [of "a + heap_len pre" n post ?va] assms n by (auto simp: fits_def)
  ultimately show ?thesis by simp
qed

lemma relink:
  assumes "returns (f (freeBlocksList s) (da_mem s)) (\<lambda>(h', m'). dll mem_links m' h' xs \<and>
      (\<forall>c. c \<notin> \<Union> ((\<lambda>p. region p 8) ` S) \<longrightarrow> m' c = da_mem s c) \<and> R h' m')"
    and "fits a bs" and "S = set (free_addrs a bs)" and "xs = free_addrs a bs'"
  shows "returns (on_free_list f s) (relinked a bs bs' s)"
  unfolding returns_on_free_list
  by (rule returns_mono [OF assms(1)])
    (use assms(2-4) same_on_links [of bs a _ "da_mem s"] in \<open>auto simp only: relinked_def fits_def split: prod.splits\<close>, auto)

lemma list_remove:
  assumes "fits a (pre @ (n, False) # post)"
    and "dll mem_links (da_mem s) (freeBlocksList s) (free_addrs a (pre @ (n, False) # post))"
  shows "returns (on_free_list (LIST_REMOVE mem_links (of_nat (a + heap_len pre + 4))) s)
    (relinked a (pre @ (n, False) # post) (pre @ (n, True) # post) s)"
  by (rule relink, rule mem_store.remove [where xs = "free_addrs a pre"])
    (use assms fits_sep [OF assms(1)] in simp_all)

lemma list_insert_head:
  assumes "fits a (pre @ (n, False) # post)"
    and "dll mem_links (da_mem s) (freeBlocksList s) (free_addrs a (pre @ (n, True) # post))"
    and "free_addrs a pre = []"
  shows "returns (on_free_list (LIST_INSERT_HEAD mem_links (of_nat (a + heap_len pre + 4))) s)
    (relinked a (pre @ (n, False) # post) (pre @ (n, False) # post) s)"
  by (rule relink, rule mem_store.insert_head)
    (use assms fits_mid [OF assms(1)] fits_not_listed [OF assms(1)] in simp_all)

lemma list_insert_tail:
  assumes "fits a (pre @ (n, False) # post)"
    and "dll mem_links (da_mem s) (freeBlocksList s) (free_addrs a (pre @ (n, True) # post))"
    and "free_addrs (a + heap_len pre + n) post = []"
  shows "returns (on_free_list (LIST_INSERT_TAIL mem_links (of_nat (a + heap_len pre + 4))) s)
    (relinked a (pre @ (n, False) # post) (pre @ (n, False) # post) s)"
  by (rule relink, rule mem_store.insert_tail)
    (use assms fits_mid [OF assms(1)] fits_not_listed [OF assms(1)] in simp_all)

lemma list_insert_before:
  assumes "fits a (pre @ (n, False) # post)"
    and "dll mem_links (da_mem s) (freeBlocksList s) (free_addrs a (pre @ (n, True) # post))"
    and "free_addrs (a + heap_len pre + n) post = x # xs"
  shows "returns (on_free_list (LIST_INSERT_BEFORE mem_links x (of_nat (a + heap_len pre + 4))) s)
    (relinked a (pre @ (n, False) # post) (pre @ (n, False) # post) s)"
  by (rule relink, rule mem_store.insert_before [where xs = "free_addrs a pre"])
    (use assms fits_mid [OF assms(1)] fits_not_listed [OF assms(1)] in simp_all)

lemma list_insert_after:
  assumes "fits a (pre @ (n, False) # post)"
    and "dll mem_links (da_mem s) (freeBlocksList s) (free_addrs a (pre @ (n, True) # post))"
    and "free_addrs a pre = xs @ [x]"
  shows "returns (on_free_list (LIST_INSERT_AFTER mem_links x (of_nat (a + heap_len pre + 4))) s)
    (relinked a (pre @ (n, False) # post) (pre @ (n, False) # post) s)"
  by (rule relink, rule mem_store.insert_after [where ys = "free_addrs (a + heap_len pre + n) post"])
    (use assms fits_mid [OF assms(1)] fits_not_listed [OF assms(1)] in \<open>simp_all add: insert_commute\<close>)

end
