(* ===== verification/FOS_AllocInv.thy ===== *)
theory FOS_AllocInv
  imports FOS_Layout
begin

text \<open>
  The invariant of the block allocator and what placing a request in a free block and
  initialising the heap do to it. The abstract heap is a list of blocks; \<open>place\<close> is what
  taking a free block makes of it.
\<close>

section \<open>The invariant\<close>

definition heap_at :: "memory \<Rightarrow> nat \<Rightarrow> block list \<Rightarrow> bool" where
  "heap_at m base bs \<longleftrightarrow>
     ld m base = 1 \<and> blocks_at m (base + 4) bs \<and> ld m (base + 4 + heap_len bs) = 1"

definition no_free_neighbours :: "block list \<Rightarrow> bool" where
  "no_free_neighbours bs \<longleftrightarrow> successively (\<lambda>b c. snd b \<or> snd c) bs"

definition da_inv :: "nat \<Rightarrow> block list \<Rightarrow> 'w da \<Rightarrow> bool" where
  "da_inv base bs s \<longleftrightarrow>
     is_initialized s \<and> well_sized bs \<and> base + 8 + heap_len bs < 4294967296 \<and>
     no_free_neighbours bs \<and> heap_at (da_mem s) base bs \<and>
     dll mem_links (da_mem s) (freeBlocksList s) (free_addrs (base + 4) bs)"

text \<open>What an operation must leave alone: allocated payloads, and everything outside the heap.\<close>

definition kept :: "nat \<Rightarrow> block list \<Rightarrow> nat set" where
  "kept base bs = payload (base + 4) bs \<union> - {base..<base + 8 + heap_len bs}"

definition full_meta :: "nat \<Rightarrow> block list \<Rightarrow> nat set" where
  "full_meta base bs = {base..<base + 4} \<union> meta (base + 4) bs \<union>
     {base + 4 + heap_len bs..<base + 8 + heap_len bs}"

lemma heap_at_cong:
  assumes "same_on (full_meta base bs) m m'" and "well_sized bs" and "base + 8 + heap_len bs \<le> 4294967296"
  shows "heap_at m' base bs = heap_at m base bs"
proof -
  have "ld m' base = ld m base"
    by (rule ld_cong) (use assms in \<open>auto elim: same_on_mono simp: full_meta_def\<close>)
  moreover have "ld m' (base + 4 + heap_len bs) = ld m (base + 4 + heap_len bs)"
    by (rule ld_cong) (use assms in \<open>auto elim!: same_on_mono simp: full_meta_def\<close>)
  moreover have "blocks_at m' (base + 4) bs = blocks_at m (base + 4) bs"
    by (rule blocks_at_cong) (use assms in \<open>auto elim: same_on_mono simp: full_meta_def\<close>)
  ultimately show ?thesis by (simp add: heap_at_def)
qed

lemma full_meta_links: "well_sized bs \<Longrightarrow> full_meta base bs \<inter> links (base + 4) bs = {}"
  using links_bounds [of bs "base + 4"] areas_disjoint(1) [of bs "base + 4"]
  by (auto simp: full_meta_def)

lemma kept_links: "well_sized bs \<Longrightarrow> kept base bs \<inter> links (base + 4) bs = {}"
  using links_bounds [of bs "base + 4"] areas_disjoint(3) [of bs "base + 4"]
  by (auto simp: kept_def)

lemma kept_meta: "well_sized bs \<Longrightarrow> kept base bs \<inter> full_meta base bs = {}"
  using meta_bounds [of bs "base + 4"] payload_bounds [of bs "base + 4"] areas_disjoint(2) [of bs "base + 4"]
  by (auto simp: kept_def full_meta_def)

text \<open>Rewriting the words of some blocks in the middle leaves the rest of the heap in place.\<close>

lemma heap_at_splice:
  assumes "heap_at m base (pre @ mid @ post)" and "heap_len mid' = heap_len mid"
    and "same_on (- {base + 4 + heap_len pre..<base + 4 + heap_len pre + heap_len mid}) m m'"
    and "blocks_at m' (base + 4 + heap_len pre) mid'"
    and "well_sized (pre @ post)" and "base + 8 + heap_len (pre @ mid @ post) \<le> 4294967296"
  shows "heap_at m' base (pre @ mid' @ post)"
proof -
  let ?S = "- {base + 4 + heap_len pre..<base + 4 + heap_len pre + heap_len mid}"
  have "ld m' base = ld m base"
    by (rule ld_cong [OF same_on_mono [OF assms(3)]]) (use assms in auto)
  moreover have "ld m' (base + 4 + heap_len (pre @ mid @ post)) = ld m (base + 4 + heap_len (pre @ mid @ post))"
    by (rule ld_cong [OF same_on_mono [OF assms(3)]]) (use assms in auto)
  moreover have "blocks_at m' (base + 4) pre = blocks_at m (base + 4) pre"
    by (rule blocks_at_cong [OF same_on_mono [OF assms(3)]])
      (use assms meta_bounds [of pre "base + 4"] in auto)
  moreover have "blocks_at m' (base + 4 + heap_len pre + heap_len mid) post =
      blocks_at m (base + 4 + heap_len pre + heap_len mid) post"
    by (rule blocks_at_cong [OF same_on_mono [OF assms(3)]])
      (use assms meta_bounds [of post "base + 4 + heap_len pre + heap_len mid"] in auto)
  ultimately show ?thesis using assms(1,2,4)
    by (simp add: heap_at_def add.assoc)
qed

lemma relinked_heap_at:
  assumes "relinked (base + 4) bs bs' s s'" and "full_meta base cs \<subseteq> full_meta base bs"
    and "well_sized bs" and "well_sized cs" and "base + 8 + heap_len cs \<le> 4294967296"
  shows "heap_at (da_mem s') base cs = heap_at (da_mem s) base cs"
  using assms full_meta_links [OF assms(3), of base]
  by (intro heap_at_cong) (auto simp: relinked_def elim!: same_on_mono)

section \<open>Headers and footers\<close>

lemma word_of_parity:
  assumes "even n" and "n < 4294967295"
  shows "word_of (n, al) mod 2 = (if al then 1 else 0)"
proof -
  have "unat (word_of (n, al)) = n + (if al then 1 else 0)"
    using assms(2) by (simp only: word_of_def fst_conv snd_conv) (rule unat_of_nat_u32, simp)
  then show ?thesis using assms(1) by (simp add: u32_mod_2)
qed

lemma word_of_free: "word_of (n, False) = of_nat n"
  by (simp add: word_of_def)

lemma word_of_allocated: "word_of (n, True) = of_nat n + 1"
  by (simp add: word_of_def)

lemma of_nat_or_1: "even n \<Longrightarrow> n < 4294967296 \<Longrightarrow> (of_nat n :: u32) OR 1 = word_of (n, True)"
  by (simp add: u32_or_1_even unat_of_nat_u32 word_of_allocated)

lemma word_of_neq_1: "0 < n \<Longrightarrow> n < 4294967295 \<Longrightarrow> word_of (n, True) \<noteq> 1"
  using of_nat_u32_eq_iff [of "n + 1" 1] by (simp add: word_of_def)

text \<open>The words on either side of a block.\<close>

lemma header_word:
  "heap_at m base (pre @ b # post) \<Longrightarrow> ld m (base + 4 + heap_len pre) = word_of b"
  by (simp add: heap_at_def)

lemma footer_word:
  "heap_at m base (pre @ b # post) \<Longrightarrow> ld m (base + 4 + heap_len pre + fst b - 4) = word_of b"
  by (simp add: heap_at_def)

lemma word_before:
  assumes "heap_at m base (pre @ bs)"
  shows "ld m (base + heap_len pre) = (if pre = [] then 1 else word_of (last pre))"
proof (cases pre rule: rev_cases)
  case Nil
  with assms show ?thesis by (simp add: heap_at_def)
next
  case (snoc ps b)
  have "base + 4 + heap_len ps + fst b - 4 = base + heap_len pre" by (simp add: snoc)
  with footer_word [of m base ps b bs] assms snoc show ?thesis by simp
qed

lemma word_behind:
  assumes "heap_at m base (pre @ bs)"
  shows "ld m (base + 4 + heap_len pre) = (case bs of [] \<Rightarrow> 1 | b # _ \<Rightarrow> word_of b)"
  using assms by (cases bs) (auto simp: heap_at_def)

section \<open>Replacing blocks in the middle\<close>

text \<open>
  Every operation rewrites the words of some consecutive blocks \<open>mid\<close> into those of
  \<open>mid'\<close> and then works on the free list, whose links lie in the free blocks of the
  layout \<open>lay\<close> of the same range.
\<close>

lemma relinked_trans:
  "relinked a lay bs s s' \<Longrightarrow> relinked a lay bs' s' s'' \<Longrightarrow> relinked a lay bs' s s''"
  by (auto simp: relinked_def elim: same_on_trans)

lemma relinked_free_addrs:
  "relinked a lay bs s s' \<Longrightarrow> free_addrs a bs = free_addrs a bs' \<Longrightarrow> relinked a lay bs' s s'"
  by (simp add: relinked_def)

lemma area_split:
  assumes "well_sized pre" and "well_sized mid" and "well_sized post" and "x \<in> meta a (pre @ mid @ post)"
  shows "x < a + heap_len pre \<longrightarrow> x \<in> meta a pre"
    and "a + heap_len pre + heap_len mid \<le> x \<longrightarrow> x \<in> meta (a + heap_len pre + heap_len mid) post"
    and "a + heap_len pre \<le> x \<and> x < a + heap_len pre + heap_len mid \<longrightarrow> x \<in> meta (a + heap_len pre) mid"
    and "a \<le> x \<and> x < a + heap_len (pre @ mid @ post)"
  using assms(4) meta_bounds [OF assms(1), of a] meta_bounds [OF assms(2), of "a + heap_len pre"]
    meta_bounds [OF assms(3), of "a + heap_len pre + heap_len mid"]
  by (auto simp: subset_iff dest: leD)

lemma links_split:
  assumes "well_sized pre" and "well_sized mid" and "well_sized post" and "x \<in> links a (pre @ mid @ post)"
  shows "x < a + heap_len pre \<longrightarrow> x \<in> links a pre"
    and "a + heap_len pre + heap_len mid \<le> x \<longrightarrow> x \<in> links (a + heap_len pre + heap_len mid) post"
    and "a + heap_len pre \<le> x \<and> x < a + heap_len pre + heap_len mid \<longrightarrow> x \<in> links (a + heap_len pre) mid"
    and "a \<le> x \<and> x < a + heap_len (pre @ mid @ post)"
  using assms(4) links_bounds [OF assms(1), of a] links_bounds [OF assms(2), of "a + heap_len pre"]
    links_bounds [OF assms(3), of "a + heap_len pre + heap_len mid"]
  by (auto simp: subset_iff dest: leD)

lemma full_meta_mid:
  assumes "well_sized (pre @ mid @ post)" and "well_sized lay" and "heap_len lay = heap_len mid"
    and "links (base + 4 + heap_len pre) lay \<inter> meta (base + 4 + heap_len pre) mid = {}"
  shows "full_meta base (pre @ mid @ post) \<inter> links (base + 4) (pre @ lay @ post) = {}"
proof (rule ccontr)
  let ?A = "base + 4 + heap_len pre"
  have ws: "well_sized pre" "well_sized post" "well_sized mid" using assms by auto
  assume "\<not> ?thesis"
  then obtain x where x: "x \<in> full_meta base (pre @ mid @ post)" "x \<in> links (base + 4) (pre @ lay @ post)" by blast
  note l = links_split [OF ws(1) assms(2) ws(2) x(2)]
  have "x \<in> meta (base + 4) (pre @ mid @ post)"
    using x(1) l(4) assms(3) by (auto simp: full_meta_def)
  note m = area_split [OF ws(1,3,2) this]
  consider "x < ?A" | "?A \<le> x" "x < ?A + heap_len mid" | "?A + heap_len mid \<le> x" by linarith
  then show False
    using l m assms(3,4) areas_disjoint(1) [OF ws(1), of "base + 4"]
      areas_disjoint(1) [OF ws(2), of "?A + heap_len mid"]
    by cases auto
qed

lemma da_inv_update:
  fixes s :: "'w da"
  assumes inv: "da_inv base (pre @ mid @ post) s"
    and mid': "heap_len mid' = heap_len mid" "well_sized mid'" "no_free_neighbours (pre @ mid' @ post)"
    and mem: "same_on (- {base + 4 + heap_len pre..<base + 4 + heap_len pre + heap_len mid}) (da_mem s) m1"
      "blocks_at m1 (base + 4 + heap_len pre) mid'"
    and rel: "relinked (base + 4) (pre @ lay @ post) bs' (s\<lparr>da_mem := m1\<rparr>) s'"
      "free_addrs (base + 4) bs' = free_addrs (base + 4) (pre @ mid' @ post)"
    and lay: "heap_len lay = heap_len mid" "well_sized lay"
      "links (base + 4 + heap_len pre) lay \<inter> meta (base + 4 + heap_len pre) mid' = {}"
  shows "da_inv base (pre @ mid' @ post) s' \<and>
    same_on (kept base (pre @ (heap_len mid, False) # post)) (da_mem s) (da_mem s') \<and>
    da_world s' = da_world s"
proof -
  let ?A = "base + 4 + heap_len pre"
  let ?range = "{?A..<?A + heap_len mid}"
  from inv have ws: "well_sized pre" "well_sized mid" "well_sized post"
    and bound: "base + 8 + heap_len (pre @ mid @ post) < 4294967296"
    by (auto simp: da_inv_def)
  have "heap_at m1 base (pre @ mid' @ post)"
    by (rule heap_at_splice [OF _ mid'(1) mem]) (use inv in \<open>auto simp: da_inv_def\<close>)
  moreover have links: "same_on (- links (base + 4) (pre @ lay @ post)) m1 (da_mem s')"
    using rel(1) by (simp add: relinked_def)
  have "full_meta base (pre @ mid' @ post) \<inter> links (base + 4) (pre @ lay @ post) = {}"
    using ws mid' lay by (intro full_meta_mid) auto
  then have "heap_at (da_mem s') base (pre @ mid' @ post) = heap_at m1 base (pre @ mid' @ post)"
    using bound mid' ws by (intro heap_at_cong same_on_mono [OF links]) auto
  ultimately have "da_inv base (pre @ mid' @ post) s'"
    using inv rel mid' by (auto simp: da_inv_def relinked_def)
  moreover have "same_on (kept base (pre @ (heap_len mid, False) # post)) (da_mem s) m1"
    by (rule same_on_mono [OF mem(1)])
      (use payload_bounds [OF ws(1), of "base + 4"] payload_bounds [OF ws(3), of "?A + heap_len mid"]
        in \<open>auto simp: kept_def\<close>)
  moreover have "same_on (kept base (pre @ (heap_len mid, False) # post)) m1 (da_mem s')"
  proof (rule same_on_mono [OF links])
    have "kept base (pre @ lay @ post) \<inter> links (base + 4) (pre @ lay @ post) = {}"
      using ws lay by (intro kept_links) auto
    moreover have "kept base (pre @ (heap_len mid, False) # post) \<subseteq> kept base (pre @ lay @ post)"
      using lay by (auto simp: kept_def)
    ultimately show "kept base (pre @ (heap_len mid, False) # post) \<subseteq> - links (base + 4) (pre @ lay @ post)"
      by blast
  qed
  ultimately show ?thesis using rel(1) by (auto simp: relinked_def elim: same_on_trans)
qed

end
