(* ===== verification/FOS_AllocOps.thy ===== *)
theory FOS_AllocOps
  imports FOS_AllocInv
begin

text \<open>
  The operations of the block allocator refine operations on block lists: initialisation,
  placing a request in a free block (\<open>place\<close>), and freeing with coalescing
  (\<open>coalesce\<close>). Each preserves the invariant, every payload byte of the blocks that stay
  allocated and every byte outside the heap.
\<close>

section \<open>Block words\<close>

text \<open>Addresses inside the heap, as the code computes them from a block's address.\<close>

declare of_nat_add [simp del] of_nat_diff [simp del]

lemma header_addr: "(of_nat (A + 4) :: u32) - 4 = of_nat A"
  by (simp add: of_nat_add)

lemma footer_addr: "4 \<le> A + n \<Longrightarrow> (of_nat (A + 4) :: u32) + of_nat n - 8 = of_nat (A + n - 4)"
  by (simp add: of_nat_diff of_nat_add)

lemmas da_invD = da_inv_def [THEN iffD1]

lemma da_inv_sizes:
  assumes "da_inv base (pre @ b # post) s"
  shows "even (fst b)" "16 \<le> fst b" "base + 8 + heap_len pre + fst b + heap_len post < 4294967296"
    "well_sized pre" "well_sized post" "fits (base + 4) (pre @ b # post)"
  using assms by (auto simp: da_inv_def fits_def)

lemma da_inv_words:
  assumes "da_inv base (pre @ b # post) s"
  shows "ld (da_mem s) (base + 4 + heap_len pre) = word_of b"
    and "ld (da_mem s) (base + 4 + heap_len pre + fst b - 4) = word_of b"
    and "ld (da_mem s) (base + heap_len pre) = (if pre = [] then 1 else word_of (last pre))"
    and "ld (da_mem s) (base + 4 + heap_len pre + fst b) = (case post of [] \<Rightarrow> 1 | c # _ \<Rightarrow> word_of c)"
  using assms word_before [of "da_mem s" base pre "b # post"] word_behind [of "da_mem s" base "pre @ [b]" post]
  by (auto simp: da_inv_def heap_at_def add.assoc)

lemma put_block:
  assumes "16 \<le> n" and "A + n \<le> 4294967296" and "w = word_of (n, al)"
  shows "blocks_at (store32 (of_nat (A + n - 4)) w (store32 (of_nat A) w m)) A [(n, al)]"
    and "S \<inter> ({A..<A + 4} \<union> {A + n - 4..<A + n}) = {} \<Longrightarrow>
      same_on S m (store32 (of_nat (A + n - 4)) w (store32 (of_nat A) w m))"
proof -
  show "blocks_at (store32 (of_nat (A + n - 4)) w (store32 (of_nat A) w m)) A [(n, al)]"
    using assms by (simp add: ld_store_other)
  show "same_on S m (store32 (of_nat (A + n - 4)) w (store32 (of_nat A) w m))"
    if "S \<inter> ({A..<A + 4} \<union> {A + n - 4..<A + n}) = {}"
  proof (rule same_on_trans)
    show "same_on S m (store32 (of_nat A) w m)"
      using assms that by (intro same_on_store32) auto
    show "same_on S (store32 (of_nat A) w m) (store32 (of_nat (A + n - 4)) w (store32 (of_nat A) w m))"
      using assms that by (intro same_on_store32) auto
  qed
qed

section \<open>Placing a request\<close>

definition place :: "nat \<Rightarrow> nat \<Rightarrow> block list" where
  "place n N = (if N - (n + 8) < 16 then [(N, True)] else [(n + 8, True), (N - (n + 8), False)])"

lemma no_free_neighbours_take:
  "no_free_neighbours (pre @ (N, False) # post) \<Longrightarrow> no_free_neighbours (pre @ place n N @ post)"
  by (auto simp: no_free_neighbours_def place_def successively_append_iff successively_Cons)

lemma heap_len_place: "n + 8 \<le> N \<Longrightarrow> heap_len (place n N) = N"
  by (simp add: place_def)

lemma well_sized_place:
  "n + 8 \<le> N \<Longrightarrow> even n \<Longrightarrow> 8 \<le> n \<Longrightarrow> even N \<Longrightarrow> 16 \<le> N \<Longrightarrow> well_sized (place n N)"
  by (auto simp: place_def)

text \<open>The two ways the code has, on a block whose words are in place.\<close>

lemma take_block_pad:
  assumes "ld (da_mem s) A = word_of (N, False)" and "ld (da_mem s) (A + N - 4) = word_of (N, False)"
    and "even N" "16 \<le> N" "A + N < 4294967296" and "d < 16"
  shows "take_block sz (of_nat d) (of_nat (A + 4)) s =
    on_free_list (LIST_REMOVE mem_links (of_nat (A + 4))) (s\<lparr>da_mem :=
      store32 (of_nat (A + N - 4)) (word_of (N, True)) (store32 (of_nat A) (word_of (N, True)) (da_mem s))\<rparr>)"
proof -
  have "(of_nat N :: u32) OR 1 = word_of (N, True)" using assms by (intro of_nat_or_1) auto
  moreover have "ld (store32 (of_nat A) (word_of (N, True)) (da_mem s)) (A + N - 4) = of_nat N"
    using assms by (subst ld_store_other) (auto simp: word_of_free)
  moreover have "(of_nat d :: u32) < 16" using assms of_nat_u32_less_iff [of d 16] by simp
  ultimately show ?thesis using assms(1,4)
    by (simp add: take_block_def Let_def header_addr footer_addr word_of_free)
qed

definition split_mem :: "nat \<Rightarrow> nat \<Rightarrow> nat \<Rightarrow> memory \<Rightarrow> memory" where
  "split_mem A n N m =
    store32 (of_nat (A + N - 4)) (word_of (N - (n + 8), False))
     (store32 (of_nat (A + n + 8)) (word_of (N - (n + 8), False))
      (store32 (of_nat A) (word_of (n + 8, True))
       (store32 (of_nat (A + n + 4)) (word_of (n + 8, True)) m)))"

lemma take_block_split:
  assumes "ld (da_mem s) A = word_of (N, False)"
    and "even n" "n + 24 \<le> N" "A + N < 4294967296"
  shows "take_block (of_nat n) (of_nat (N - (n + 8))) (of_nat (A + 4)) s =
    do { s1 \<leftarrow> on_free_list (LIST_INSERT_AFTER mem_links (of_nat (A + 4)) (of_nat (A + (n + 8) + 4)))
           (s\<lparr>da_mem := split_mem A n N (da_mem s)\<rparr>);
         on_free_list (LIST_REMOVE mem_links (of_nat (A + 4))) s1 }"
proof -
  have "(of_nat (n + 8) :: u32) OR 1 = word_of (n + 8, True)" using assms by (intro of_nat_or_1) auto
  moreover have "\<not> (of_nat (N - (n + 8)) :: u32) < 16"
    using assms of_nat_u32_less_iff [of "N - (n + 8)" 16] by simp
  moreover have "(of_nat (A + 4) :: u32) + of_nat n = of_nat (A + n + 4)"
    "(of_nat (A + n + 4) :: u32) + 4 = of_nat (A + n + 8)" "8 + (of_nat (A + n + 4) :: u32) = of_nat (12 + (A + n))"
    "(of_nat n :: u32) + 8 = of_nat (n + 8)"
    by (simp_all add: of_nat_add)
  ultimately show ?thesis using assms(1,3)
    by (simp add: take_block_def Let_def header_addr footer_addr word_of_free split_mem_def)
qed

lemma split_mem_blocks:
  assumes "8 \<le> n" "n + 24 \<le> N" "A + N < 4294967296"
  shows "blocks_at (split_mem A n N m) A [(n + 8, True), (N - (n + 8), False)]"
    and "S \<inter> ({A..<A + 4} \<union> {A + n + 4..<A + n + 12} \<union> {A + N - 4..<A + N}) = {} \<Longrightarrow>
      same_on S m (split_mem A n N m)"
proof -
  show "blocks_at (split_mem A n N m) A [(n + 8, True), (N - (n + 8), False)]"
  proof -
    have "A + (n + 8) - 4 = A + n + 4" "A + (n + 8) = A + n + 8" "A + n + 8 + (N - (n + 8)) - 4 = A + N - 4"
      using assms by auto
    then show ?thesis unfolding blocks_at.simps split_mem_def fst_conv
      using assms by (simp only: ld_store_other ld_store_same) (auto simp: ld_store_other)
  qed
  show "same_on S m (split_mem A n N m)"
    if "S \<inter> ({A..<A + 4} \<union> {A + n + 4..<A + n + 12} \<union> {A + N - 4..<A + N}) = {}"
    unfolding split_mem_def
    by (intro same_on_trans [OF _ same_on_store32] same_on_refl) (use assms that in auto)
qed

section \<open>The effect of taking a block\<close>

text \<open>The links of all other free blocks are outside the words that are written.\<close>

lemma links_mid:
  assumes "well_sized (pre @ (N, False) # post)"
  shows "links a (pre @ (N, False) # post) \<subseteq>
    {a + heap_len pre + 4..<a + heap_len pre + 12} \<union> - {a + heap_len pre..<a + heap_len pre + N}"
  using assms links_bounds [of pre a] links_bounds [of post "a + heap_len pre + N"] by auto

lemma da_inv_dll:
  assumes "da_inv base bs s" and "same_on (links (base + 4) bs) (da_mem s) m"
  shows "dll mem_links m (freeBlocksList s) (free_addrs (base + 4) bs)"
  using assms dll_links_cong [OF assms(2)] by (auto simp: da_inv_def)

lemma da_inv_dll_mid:
  assumes "da_inv base (pre @ (N, False) # post) s" and "A = base + 4 + heap_len pre"
    and "same_on ({A + 4..<A + 12} \<union> - {A..<A + N}) (da_mem s) m"
  shows "dll mem_links m (freeBlocksList s) (free_addrs (base + 4) (pre @ (N, False) # post))"
  by (rule da_inv_dll [OF assms(1) same_on_mono [OF assms(3)]], unfold assms(2), rule links_mid)
    (use assms(1) in \<open>auto simp: da_inv_def\<close>)

lemma take_pad:
  assumes inv: "da_inv base (pre @ (N, False) # post) s"
    and d: "d < 16" and fit: "n + 8 \<le> N" "N - (n + 8) < 16"
  shows "returns (take_block sz (of_nat d) (of_nat (base + 4 + heap_len pre + 4)) s)
    (\<lambda>s'. da_inv base (pre @ [(N, True)] @ post) s' \<and>
      same_on (kept base (pre @ (N, False) # post)) (da_mem s) (da_mem s') \<and> da_world s' = da_world s)"
proof -
  define A where "A = base + 4 + heap_len pre"
  let ?m = "store32 (of_nat (A + N - 4)) (word_of (N, True)) (store32 (of_nat A) (word_of (N, True)) (da_mem s))"
  note sz = da_inv_sizes [OF inv, simplified] and words = da_inv_words [OF inv, folded A_def, simplified]
  have AN: "A + N < 4294967296" using sz by (simp add: A_def)
  have same: "same_on ({A + 4..<A + 12} \<union> - {A..<A + N}) (da_mem s) ?m"
    using sz AN by (intro put_block(2)) auto
  then have mem: "same_on (- {A..<A + N}) (da_mem s) ?m"
    by (rule same_on_mono) auto
  have dll: "dll mem_links ?m (freeBlocksList s) (free_addrs (base + 4) (pre @ (N, False) # post))"
    by (rule da_inv_dll_mid [OF inv A_def same])
  have blk: "blocks_at ?m A [(N, True)]"
    using sz AN by (intro put_block(1)) auto
  note fl = list_remove [of "base + 4" pre N post "s\<lparr>da_mem := ?m\<rparr>", folded A_def]
  show ?thesis
    unfolding A_def [symmetric] take_block_pad [OF words(1,2) sz(1,2) AN d]
  proof (rule returns_mono [OF fl])
    fix s' assume rel: "relinked (base + 4) (pre @ (N, False) # post) (pre @ (N, True) # post) (s\<lparr>da_mem := ?m\<rparr>) s'"
    have "da_inv base (pre @ [(N, True)] @ post) s' \<and>
        same_on (kept base (pre @ (heap_len [(N, False)], False) # post)) (da_mem s) (da_mem s') \<and>
        da_world s' = da_world s"
    proof (rule da_inv_update [where lay = "[(N, False)]"])
      show "relinked (base + 4) (pre @ [(N, False)] @ post) (pre @ (N, True) # post) (s\<lparr>da_mem := ?m\<rparr>) s'"
        using rel by simp
      show "no_free_neighbours (pre @ [(N, True)] @ post)"
        using no_free_neighbours_take [of pre N post n] inv fit by (simp add: place_def da_inv_def)
    qed (use inv sz mem blk in \<open>auto simp: A_def\<close>)
    then show "da_inv base (pre @ [(N, True)] @ post) s' \<and>
        same_on (kept base (pre @ (N, False) # post)) (da_mem s) (da_mem s') \<and> da_world s' = da_world s"
      by simp
  qed (use sz dll in simp_all)
qed

lemma take_split:
  assumes inv: "da_inv base (pre @ (N, False) # post) s"
    and n: "even n" "8 \<le> n" "n + 24 \<le> N"
  shows "returns (take_block (of_nat n) (of_nat (N - (n + 8))) (of_nat (base + 4 + heap_len pre + 4)) s)
    (\<lambda>s'. da_inv base (pre @ [(n + 8, True), (N - (n + 8), False)] @ post) s' \<and>
      same_on (kept base (pre @ (N, False) # post)) (da_mem s) (da_mem s') \<and> da_world s' = da_world s)"
proof -
  define A where "A = base + 4 + heap_len pre"
  define r where "r = N - (n + 8)"
  let ?m = "split_mem A n N (da_mem s)" and ?lay = "pre @ (n + 8, False) # (r, False) # post"
  note sz = da_inv_sizes [OF inv, simplified] and words = da_inv_words [OF inv, folded A_def, simplified]
  have AN: "A + N < 4294967296" using sz by (simp add: A_def)
  have r: "16 \<le> r" "even r" "n + 8 + r = N" using n sz by (auto simp: r_def)
  have fits: "fits (base + 4) ?lay" "fits (base + 4) ((pre @ [(n + 8, False)]) @ (r, False) # post)"
    using sz r n by (auto simp: fits_def)
  have same: "same_on ({A + 4..<A + 12} \<union> - {A..<A + N}) (da_mem s) ?m"
    using n AN by (intro split_mem_blocks(2)) auto
  have blk: "blocks_at ?m A [(n + 8, True), (r, False)]"
    unfolding r_def using n AN by (intro split_mem_blocks(1)) auto
  have addrs: "free_addrs (base + 4) (pre @ (N, False) # post) = free_addrs (base + 4) ((pre @ [(n + 8, False)]) @ (r, True) # post)"
    unfolding r(3) [symmetric] by (simp add: ac_simps)
  have dll: "dll mem_links ?m (freeBlocksList s) (free_addrs (base + 4) ((pre @ [(n + 8, False)]) @ (r, True) # post))"
    using da_inv_dll_mid [OF inv A_def same] addrs by simp
  have insert: "returns (on_free_list (LIST_INSERT_AFTER mem_links (of_nat (A + 4)) (of_nat (A + (n + 8) + 4)))
      (s\<lparr>da_mem := ?m\<rparr>)) (relinked (base + 4) ?lay ?lay (s\<lparr>da_mem := ?m\<rparr>))"
    using list_insert_after [OF fits(2), of "s\<lparr>da_mem := ?m\<rparr>" "free_addrs (base + 4) pre" "of_nat (A + 4)"] dll
    by (simp add: A_def ac_simps)
  show ?thesis
    unfolding A_def [symmetric] r_def [symmetric] take_block_split [OF words(1) n(1,3) AN, folded r_def] returns_bind
  proof (rule returns_mono [OF insert])
    fix s1 assume "relinked (base + 4) ?lay ?lay (s\<lparr>da_mem := ?m\<rparr>) s1"
    note ins = this
    show "returns (on_free_list (LIST_REMOVE mem_links (of_nat (A + 4))) s1)
      (\<lambda>s'. da_inv base (pre @ [(n + 8, True), (r, False)] @ post) s' \<and>
        same_on (kept base (pre @ (N, False) # post)) (da_mem s) (da_mem s') \<and> da_world s' = da_world s)"
    proof (rule returns_mono [OF list_remove [OF fits(1), of s1, folded A_def]])
      show "dll mem_links (da_mem s1) (freeBlocksList s1) (free_addrs (base + 4) ?lay)"
        using ins by (simp add: relinked_def)
    next
      fix s' assume "relinked (base + 4) ?lay (pre @ (n + 8, True) # (r, False) # post) s1 s'"
      with ins have rel: "relinked (base + 4) (pre @ [(n + 8, False), (r, False)] @ post)
          (pre @ [(n + 8, True), (r, False)] @ post) (s\<lparr>da_mem := ?m\<rparr>) s'"
        by (auto elim: relinked_trans)
      have "da_inv base (pre @ [(n + 8, True), (r, False)] @ post) s' \<and>
        same_on (kept base (pre @ (heap_len [(N, False)], False) # post)) (da_mem s) (da_mem s') \<and>
        da_world s' = da_world s"
      proof (rule da_inv_update [OF _ _ _ _ _ _ rel])
        show "da_inv base (pre @ [(N, False)] @ post) s" using inv by simp
        show "no_free_neighbours (pre @ [(n + 8, True), (r, False)] @ post)"
          using no_free_neighbours_take [of pre N post n] inv n
          by (auto simp: place_def da_inv_def r_def split: if_splits)
        show "same_on (- {base + 4 + heap_len pre..<base + 4 + heap_len pre + heap_len [(N, False)]}) (da_mem s) ?m"
          using same by (auto simp: A_def elim: same_on_mono)
        show "blocks_at ?m (base + 4 + heap_len pre) [(n + 8, True), (r, False)]"
          using blk by (simp only: A_def)
      qed (use n r sz in auto)
      then show "da_inv base (pre @ [(n + 8, True), (r, False)] @ post) s' \<and>
        same_on (kept base (pre @ (N, False) # post)) (da_mem s) (da_mem s') \<and> da_world s' = da_world s"
        by simp
    qed
  qed
qed

text \<open>What the operations of the allocator promise about the state they leave.\<close>

definition moves_to :: "nat \<Rightarrow> block list \<Rightarrow> block list \<Rightarrow> 'w da \<Rightarrow> 'w da \<Rightarrow> bool" where
  "moves_to base bs bs' s s' \<longleftrightarrow> da_inv base bs' s' \<and>
     same_on (kept base bs \<inter> kept base bs') (da_mem s) (da_mem s') \<and> da_world s' = da_world s"

lemma moves_toI:
  assumes "da_inv base bs' s'" "same_on S (da_mem s) (da_mem s')" "da_world s' = da_world s"
    and "kept base bs \<inter> kept base bs' \<subseteq> S"
  shows "moves_to base bs bs' s s'"
  using assms by (auto simp: moves_to_def elim: same_on_mono)

theorem take_block_refines:
  assumes "da_inv base (pre @ (N, False) # post) s" and "even n" "8 \<le> n" "n + 8 \<le> N"
  shows "returns (take_block (of_nat n) (of_nat (N - (n + 8))) (of_nat (base + 4 + heap_len pre + 4)) s)
    (moves_to base (pre @ (N, False) # post) (pre @ place n N @ post) s)"
proof (cases "N - (n + 8) < 16")
  case True
  show ?thesis
    by (rule returns_mono [OF take_pad [OF assms(1) True assms(4) True]])
      (use True in \<open>auto elim!: moves_toI simp: place_def\<close>)
next
  case False
  then have "n + 24 \<le> N" by simp
  show ?thesis
    by (rule returns_mono [OF take_split [OF assms(1-3) \<open>n + 24 \<le> N\<close>]])
      (use False in \<open>auto elim!: moves_toI simp: place_def\<close>)
qed

section \<open>Initialisation\<close>

theorem initialize_refines:
  assumes "even n" "24 \<le> n" "base + n < 4294967296"
  shows "returns (initialize_dynamic_allocator (of_nat base) (of_nat n) s)
    (\<lambda>s'. da_inv base [(n - 8, False)] s' \<and>
      same_on (- {base..<base + n}) (da_mem s) (da_mem s') \<and> da_world s' = da_world s)"
proof -
  define m where "m = store32 (of_nat (base + n - 8)) (of_nat (n - 8))
    (store32 (of_nat (base + 4)) (of_nat (n - 8))
     (store32 (of_nat (base + n - 4)) 1 (store32 (of_nat base) 1 (da_mem s))))"
  let ?s = "s\<lparr>is_initialized := True, freeBlocksList := LIST_INIT (freeBlocksList s), da_mem := m\<rparr>"
  have n: "(of_nat n :: u32) mod 2 = 0" "(of_nat n :: u32) \<noteq> 0" "\<not> (of_nat n :: u32) < 24"
    using assms of_nat_u32_less_iff [of n 24] by (simp_all add: u32_mod_2 unat_of_nat_u32 of_nat_u32_zero_iff)
  have addr: "(of_nat base :: u32) + 4 = of_nat (base + 4)" "(of_nat base :: u32) + 8 = of_nat (base + 8)"
    "(of_nat base :: u32) + of_nat n - 4 = of_nat (base + n - 4)"
    "(of_nat base :: u32) + of_nat n - 8 = of_nat (base + n - 8)"
    "(of_nat n :: u32) - 8 = of_nat (n - 8)"
    using assms by (simp_all add: of_nat_add of_nat_diff)
  have step: "initialize_dynamic_allocator (of_nat base) (of_nat n) s =
      on_free_list (LIST_INSERT_HEAD mem_links (of_nat (base + 8))) ?s"
    unfolding initialize_dynamic_allocator_def m_def
    using n by (simp add: Let_def addr)
  have heap: "heap_at m base [(n - 8, False)]"
  proof -
    from assms(2) obtain k where k: "n = k + 24" by (metis add.commute le_Suc_ex)
    show ?thesis unfolding heap_at_def m_def k
      using assms(3) by (simp add: ld_store_other word_of_free k ac_simps)
  qed
  have same: "same_on (- {base..<base + n}) (da_mem s) m"
    unfolding m_def by (intro same_on_trans [OF _ same_on_store32] same_on_refl) (use assms in auto)
  have fits: "fits (base + 4) ([] @ (n - 8, False) # [])"
    using assms unfolding fits_def by (auto simp: well_sized_def)
  show ?thesis
    unfolding step
  proof (rule returns_mono)
    show "returns (on_free_list (LIST_INSERT_HEAD mem_links (of_nat (base + 8))) ?s)
        (relinked (base + 4) [(n - 8, False)] [(n - 8, False)] ?s)"
      using list_insert_head [OF fits, of ?s] by (simp add: add.commute dll_init)
  next
    fix s' assume rel: "relinked (base + 4) [(n - 8, False)] [(n - 8, False)] ?s s'"
    then have lnk: "same_on (- {base + 8..<base + 16}) m (da_mem s')"
      using assms by (simp add: relinked_def add.commute)
    have "heap_at (da_mem s') base [(n - 8, False)] = heap_at m base [(n - 8, False)]"
      by (rule heap_at_cong [OF same_on_mono [OF lnk]]) (use assms in \<open>auto simp: full_meta_def\<close>)
    with heap have "heap_at (da_mem s') base [(n - 8, False)]" by simp
    moreover have "same_on (- {base..<base + n}) m (da_mem s')"
      by (rule same_on_mono [OF lnk]) (use assms in auto)
    ultimately show "da_inv base [(n - 8, False)] s' \<and>
        same_on (- {base..<base + n}) (da_mem s) (da_mem s') \<and> da_world s' = da_world s"
      using rel assms same by (auto simp: da_inv_def relinked_def no_free_neighbours_def elim: same_on_trans)
  qed
qed

end
