(* ===== verification/FOS_AllocFree.thy ===== *)
theory FOS_AllocFree
  imports FOS_AllocOps
begin

text \<open>
  Freeing with coalescing refines \<open>coalesce\<close> on block lists: the freed block is merged
  with a free block before it, behind it, or both, and the free list stays sorted by address.
\<close>

section \<open>Coalescing\<close>

definition coalesce :: "block list \<Rightarrow> nat \<Rightarrow> block list \<Rightarrow> block list" where
  "coalesce pre n post =
    (let (pre', k) = (if pre \<noteq> [] \<and> \<not> snd (last pre) then (butlast pre, fst (last pre)) else (pre, 0));
         (post', l) = (case post of [] \<Rightarrow> (post, 0) | c # cs \<Rightarrow> if snd c then (post, 0) else (cs, fst c))
     in pre' @ (k + n + l, False) # post')"

definition ends_allocated :: "block list \<Rightarrow> bool" where
  "ends_allocated bs \<longleftrightarrow> bs = [] \<or> snd (last bs)"

definition starts_allocated :: "block list \<Rightarrow> bool" where
  "starts_allocated bs \<longleftrightarrow> bs = [] \<or> snd (hd bs)"

lemma not_ends_allocated: "\<not> ends_allocated bs \<longleftrightarrow> (\<exists>bs' k. bs = bs' @ [(k, False)])"
  by (cases bs rule: rev_cases) (auto simp: ends_allocated_def)

lemma not_starts_allocated: "\<not> starts_allocated bs \<longleftrightarrow> (\<exists>bs' k. bs = (k, False) # bs')"
  by (cases bs) (auto simp: starts_allocated_def)

lemma coalesce_cases:
  "ends_allocated pre \<Longrightarrow> starts_allocated post \<Longrightarrow> coalesce pre n post = pre @ [(n, False)] @ post"
  "starts_allocated post \<Longrightarrow> coalesce (pre @ [(k, False)]) n post = pre @ [(k + n, False)] @ post"
  "ends_allocated pre \<Longrightarrow> coalesce pre n ((l, False) # post) = pre @ [(n + l, False)] @ post"
  "coalesce (pre @ [(k, False)]) n ((l, False) # post) = pre @ [(k + n + l, False)] @ post"
  by (auto simp: coalesce_def ends_allocated_def starts_allocated_def Let_def split: list.splits)

lemma no_free_neighbours_split:
  "no_free_neighbours (pre @ (n, False) # post) \<longleftrightarrow>
     no_free_neighbours pre \<and> no_free_neighbours post \<and> ends_allocated pre \<and> starts_allocated post"
  by (cases post) (auto simp: no_free_neighbours_def successively_append_iff successively_Cons
      ends_allocated_def starts_allocated_def)

lemma no_free_neighbours_coalesce:
  assumes "no_free_neighbours (pre @ (n, True) # post)"
  shows "no_free_neighbours (coalesce pre n post)"
proof -
  from assms have p: "no_free_neighbours pre" "no_free_neighbours post"
    by (auto simp: no_free_neighbours_def successively_append_iff successively_Cons)
  have pre: "no_free_neighbours ps \<and> ends_allocated ps" if "pre = ps @ [(k, False)]" for ps k
    using p(1) that no_free_neighbours_split [of ps k "[]"] by auto
  have post: "no_free_neighbours cs \<and> starts_allocated cs" if "post = (k, False) # cs" for cs k
    using p(2) that no_free_neighbours_split [of "[]" k cs] by auto
  show ?thesis
    by (cases "ends_allocated pre"; cases "starts_allocated post")
      (use p pre post in \<open>auto simp: coalesce_cases no_free_neighbours_split not_ends_allocated not_starts_allocated\<close>)
qed

section \<open>The code's case distinction\<close>

lemma word_before_parity:
  assumes "da_inv base (pre @ b # post) s"
  shows "ld (da_mem s) (base + heap_len pre) mod 2 = (if ends_allocated pre then 1 else 0)"
    and "ld (da_mem s) (base + 4 + heap_len pre + fst b) mod 2 = (if starts_allocated post then 1 else 0)"
proof -
  note sz = da_inv_sizes [OF assms] and words = da_inv_words [OF assms]
  have par: "word_of c mod 2 = (if snd c then 1 else 0)" if "c \<in> set pre \<union> set post" for c
  proof -
    from that have "fst c \<le> heap_len pre + heap_len post" "even (fst c)"
      using sz(4,5) member_le_sum_list [of "fst c" "map fst pre"] member_le_sum_list [of "fst c" "map fst post"]
      by (auto simp: heap_len_def well_sized_def)
    with sz(3) show ?thesis using word_of_parity [of "fst c" "snd c"] by simp
  qed
  show "ld (da_mem s) (base + heap_len pre) mod 2 = (if ends_allocated pre then 1 else 0)"
    using words(3) par [of "last pre"] by (auto simp: ends_allocated_def)
  show "ld (da_mem s) (base + 4 + heap_len pre + fst b) mod 2 = (if starts_allocated post then 1 else 0)"
    using words(4) par [of "hd post"] by (cases post) (auto simp: starts_allocated_def)
qed

definition unmarked :: "nat \<Rightarrow> nat \<Rightarrow> memory \<Rightarrow> memory" where
  "unmarked A n m = store32 (of_nat (A + n - 4)) (ld m (A + n - 4) - 1) (store32 (of_nat A) (word_of (n, False)) m)"

lemma free_block_code:
  assumes "ld (da_mem s) A = word_of (n, True)"
    and "even n" "16 \<le> n" "4 \<le> A" "A + n < 4294967296"
  shows "free_block (of_nat (A + 4)) s =
    (let s1 = s\<lparr>da_mem := unmarked A n (da_mem s)\<rparr> in
     if ld (da_mem s) (A - 4) mod 2 = 1 then
       if ld (da_mem s) (A + n) mod 2 = 1
       then free_isolated (of_nat (A + 4)) (of_nat (A - 4)) (of_nat (A + n)) s1
       else merge_next (of_nat A) (of_nat (A + n)) s1
     else
       if ld (da_mem s) (A + n) mod 2 = 1
       then Some (s1\<lparr>da_mem := merge_prev (of_nat (A + 4)) (of_nat A) (of_nat (A + n - 4)) (of_nat (A - 4)) (da_mem s1)\<rparr>)
       else merge_both (of_nat (A + 4)) (of_nat A) (of_nat (A - 4)) (of_nat (A + n)) s1)"
proof -
  have nz: "of_nat (A + 4) \<noteq> (0 :: u32)" using assms by (subst of_nat_u32_zero_iff) auto
  have addr: "(of_nat (A + 4) :: u32) - 4 = of_nat A" "(of_nat (A + 4) :: u32) - 8 = of_nat (A - 4)"
    "(of_nat (A + 4) :: u32) + of_nat n - 8 = of_nat (A + n - 4)"
    "(of_nat (A + 4) :: u32) + of_nat n - 4 = of_nat (A + n)"
    using assms by (simp_all add: of_nat_add of_nat_diff)
  have size: "word_of (n, True) - 1 = of_nat n" by (simp add: word_of_allocated)
  have odd: "word_of (n, True) mod 2 = 1" using assms(2,4,5) by (simp add: word_of_parity)
  have foot: "ld (store32 (of_nat A) (of_nat n) (da_mem s)) (A + n - 4) = ld (da_mem s) (A + n - 4)"
    using assms by (intro ld_store_other) auto
  have um: "unmark_block (of_nat A) (of_nat (A + n - 4)) (da_mem s) = unmarked A n (da_mem s)"
    by (simp add: unmark_block_def unmarked_def Let_def assms(1) size word_of_free foot)
  show ?thesis
    unfolding free_block_def Let_def addr assms(1)
    using nz odd by (auto simp: u32_mod_2 addr size um split: if_splits)
qed

section \<open>No free neighbour\<close>

lemma free_isolated_inserts:
  assumes fits: "fits a (pre @ (n, False) # post)"
    and dll: "dll mem_links (da_mem s) (freeBlocksList s) (free_addrs a (pre @ (n, True) # post))"
    and fp: "ld (da_mem s) fpa = 1 \<longrightarrow> free_addrs a pre = []"
    and hn: "ld (da_mem s) hna = 1 \<longrightarrow> free_addrs (a + heap_len pre + n) post = []"
  shows "returns (free_isolated (of_nat (a + heap_len pre + 4)) (of_nat fpa) (of_nat hna) s)
    (relinked a (pre @ (n, False) # post) (pre @ (n, False) # post) s)"
proof -
  let ?va = "of_nat (a + heap_len pre + 4) :: u32"
  let ?before = "free_addrs a pre" and ?behind = "free_addrs (a + heap_len pre + n) post"
  let ?R = "relinked a (pre @ (n, False) # post) (pre @ (n, False) # post) s"
  let ?body = "\<lambda>element s. if element > ?va
            then do { s' \<leftarrow> on_free_list (LIST_INSERT_BEFORE mem_links element ?va) s; Some (True, s') }
            else Some (False, s)"
  let ?loop = "LIST_FOREACH (\<lambda>s. load32 (da_mem s)) ?body (lh_first (freeBlocksList s)) s"
  from fits have n: "16 \<le> n" "a + heap_len pre + n + heap_len post \<le> 4294967296"
    by (auto simp: fits_def)
  from dll have seg: "dseg mem_links (da_mem s) NULL (?before @ ?behind) NULL" "NULL \<notin> set (?before @ ?behind)"
    and first: "lh_first (freeBlocksList s) = first_or NULL (?before @ ?behind)"
    by (auto simp: dll_def)
  have below: "\<not> ?va < x" if "x \<in> set ?before" for x
    using free_addrs_below [of a pre "(n, False) # post" x] that fits n by auto
  have loop: "returns (do { (element, s1) \<leftarrow> ?loop;
       if element = NULL then on_free_list (LIST_INSERT_TAIL mem_links ?va) s1 else Some s1 }) ?R"
  proof (cases ?behind)
    case Nil
    then have "?loop = Some (NULL, s)"
      using foreach_none [of mem_links "da_mem s" NULL ?before "\<lambda>s. load32 (da_mem s)" s ?body] seg first below
      by simp
    then show ?thesis using list_insert_tail [OF fits dll Nil] by simp
  next
    case (Cons x xs)
    from list_insert_before [OF fits dll Cons] obtain s'
      where s': "on_free_list (LIST_INSERT_BEFORE mem_links x ?va) s = Some s'" "?R s'" by (rule returnsE)
    have "?va < x"
      using free_addrs_above [of "a + heap_len pre" n post x] Cons fits n by (auto simp: fits_def add.assoc)
    then have "?loop = Some (x, s')"
      using foreach_hit [of mem_links "da_mem s" NULL ?before x xs NULL "\<lambda>s. load32 (da_mem s)" s ?body s'] 
        seg first below s' Cons by simp
    then show ?thesis using seg s' Cons by simp
  qed
  show ?thesis
    unfolding free_isolated_def Let_def
    using loop list_insert_head [OF fits dll] list_insert_tail [OF fits dll] fp hn by simp
qed

lemma unmarked_block:
  assumes "16 \<le> n" "A + n < 4294967296" "ld m (A + n - 4) = word_of (n, True)"
  shows "unmarked A n m = store32 (of_nat (A + n - 4)) (word_of (n, False)) (store32 (of_nat A) (word_of (n, False)) m)"
  using assms by (simp add: unmarked_def word_of_allocated word_of_free)

lemma word_before_border:
  assumes "da_inv base (pre @ b # post) s"
  shows "ld (da_mem s) (base + heap_len pre) = 1 \<longrightarrow> ends_allocated pre \<longrightarrow> pre = []"
    and "ld (da_mem s) (base + 4 + heap_len pre + fst b) = 1 \<longrightarrow> starts_allocated post \<longrightarrow> post = []"
proof -
  note sz = da_inv_sizes [OF assms] and words = da_inv_words [OF assms]
  have neq: "word_of c \<noteq> 1" if "c \<in> set pre \<union> set post" "snd c" for c
  proof -
    from that have "fst c \<le> heap_len pre + heap_len post" "16 \<le> fst c"
      using sz(4,5) member_le_sum_list [of "fst c" "map fst pre"] member_le_sum_list [of "fst c" "map fst post"]
      by (auto simp: heap_len_def well_sized_def)
    with sz(3) that(2) show ?thesis using word_of_neq_1 [of "fst c"] by (cases c) simp
  qed
  show "ld (da_mem s) (base + heap_len pre) = 1 \<longrightarrow> ends_allocated pre \<longrightarrow> pre = []"
    using words(3) neq [of "last pre"] by (auto simp: ends_allocated_def)
  show "ld (da_mem s) (base + 4 + heap_len pre + fst b) = 1 \<longrightarrow> starts_allocated post \<longrightarrow> post = []"
    using words(4) neq [of "hd post"] by (cases post) (auto simp: starts_allocated_def)
qed

lemma unmarked_other:
  assumes "16 \<le> n" "A + n < 4294967296" "x + 4 \<le> 4294967296"
    "x + 4 \<le> A \<or> A + n \<le> x"
  shows "ld (unmarked A n m) x = ld m x"
  unfolding unmarked_def using assms by (auto simp: ld_store_other)

lemma same_on_unmarked:
  assumes "16 \<le> n" "A + n < 4294967296"
  shows "same_on (- ({A..<A + 4} \<union> {A + n - 4..<A + n})) m (unmarked A n m)"
  unfolding unmarked_def
  by (intro same_on_trans [OF _ same_on_store32] same_on_refl) (use assms in auto)

text \<open>Links are never in the allocated block that is freed.\<close>

lemma links_allocated:
  assumes "well_sized (pre @ (n, True) # post)"
  shows "links a (pre @ (n, True) # post) \<subseteq> - {a + heap_len pre..<a + heap_len pre + n}"
  using assms links_bounds [of pre a] links_bounds [of post "a + heap_len pre + n"] by auto

lemma da_inv_dll_allocated:
  assumes "da_inv base (pre @ (n, True) # post) s"
    and "same_on (- {base + 4 + heap_len pre..<base + 4 + heap_len pre + n}) (da_mem s) m"
  shows "dll mem_links m (freeBlocksList s) (free_addrs (base + 4) (pre @ (n, True) # post))"
  by (rule da_inv_dll [OF assms(1) same_on_mono [OF assms(2)]], rule links_allocated)
    (use assms(1) in \<open>auto simp: da_inv_def\<close>)

lemma free_isolated_refines:
  assumes inv: "da_inv base (pre @ (n, True) # post) s"
    and alloc: "ends_allocated pre" "starts_allocated post"
  shows "returns (free_block (of_nat (base + 4 + heap_len pre + 4)) s)
    (moves_to base (pre @ (n, True) # post) (pre @ [(n, False)] @ post) s)"
proof -
  define A where "A = base + 4 + heap_len pre"
  let ?m = "unmarked A n (da_mem s)"
  note sz = da_inv_sizes [OF inv, simplified] and words = da_inv_words [OF inv, folded A_def, simplified]
  have A4: "A - 4 = base + heap_len pre" "4 \<le> A" by (simp_all add: A_def)
  have AN: "A + n < 4294967296" using sz by (simp add: A_def)
  note par = word_before_parity [OF inv, folded A_def, folded A4(1), simplified]
  note border = word_before_border [OF inv, folded A_def, folded A4(1), simplified]
  have fits: "fits (base + 4) (pre @ (n, False) # post)" using sz by (simp add: fits_def)
  have same: "same_on (- {A..<A + n}) (da_mem s) ?m"
    by (rule same_on_mono [OF same_on_unmarked]) (use sz AN in auto)
  have blk: "blocks_at ?m A [(n, False)]"
    unfolding unmarked_block [OF sz(2) AN words(2)] using sz AN by (intro put_block(1)) auto
  have dll: "dll mem_links ?m (freeBlocksList s) (free_addrs (base + 4) (pre @ (n, True) # post))"
    by (rule da_inv_dll_allocated [OF inv]) (use same in \<open>simp add: A_def\<close>)
  have keep: "ld ?m (A - 4) = ld (da_mem s) (A - 4)" "ld ?m (A + n) = ld (da_mem s) (A + n)"
    using sz AN A4 by (auto intro!: unmarked_other simp: A_def)
  have step: "free_block (of_nat (A + 4)) s =
      free_isolated (of_nat (A + 4)) (of_nat (A - 4)) (of_nat (A + n)) (s\<lparr>da_mem := ?m\<rparr>)"
    using free_block_code [OF words(1) sz(1,2) A4(2) AN] par alloc by simp
  show ?thesis
    unfolding A_def [symmetric] step
  proof (rule returns_mono)
    show "returns (free_isolated (of_nat (A + 4)) (of_nat (A - 4)) (of_nat (A + n)) (s\<lparr>da_mem := ?m\<rparr>))
        (relinked (base + 4) (pre @ (n, False) # post) (pre @ (n, False) # post) (s\<lparr>da_mem := ?m\<rparr>))"
      using free_isolated_inserts [OF fits, of "s\<lparr>da_mem := ?m\<rparr>" "A - 4" "A + n", folded A_def] dll keep border alloc
      by auto
  next
    fix s' assume rel: "relinked (base + 4) (pre @ (n, False) # post) (pre @ (n, False) # post) (s\<lparr>da_mem := ?m\<rparr>) s'"
    have "da_inv base (pre @ [(n, False)] @ post) s' \<and>
        same_on (kept base (pre @ (heap_len [(n, True)], False) # post)) (da_mem s) (da_mem s') \<and>
        da_world s' = da_world s"
    proof (rule da_inv_update [where lay = "[(n, False)]"])
      show "relinked (base + 4) (pre @ [(n, False)] @ post) (pre @ [(n, False)] @ post) (s\<lparr>da_mem := ?m\<rparr>) s'"
        using rel by simp
      show "no_free_neighbours (pre @ [(n, False)] @ post)"
        using no_free_neighbours_coalesce [of pre n post] inv alloc by (simp add: coalesce_cases da_inv_def)
    qed (use inv sz same blk in \<open>auto simp: A_def\<close>)
    then show "moves_to base (pre @ (n, True) # post) (pre @ [(n, False)] @ post) s s'"
      by (auto intro: moves_toI)
  qed
qed

section \<open>Free neighbours\<close>

text \<open>What the three merging cases leave in memory: one header and one footer for the whole.\<close>

definition merged :: "nat \<Rightarrow> nat \<Rightarrow> nat \<Rightarrow> nat \<Rightarrow> memory \<Rightarrow> memory" where
  "merged P N A n m = store32 (of_nat (P + N - 4)) (word_of (N, False))
     (store32 (of_nat P) (word_of (N, False)) (unmarked A n m))"

lemma merged_block:
  assumes "16 \<le> n" "P \<le> A" "A + n \<le> P + N" "P + N < 4294967296"
  shows "blocks_at (merged P N A n m) P [(N, False)]"
    and "same_on (- ({P..<P + 4} \<union> {P + N - 4..<P + N} \<union> {A..<A + 4} \<union> {A + n - 4..<A + n})) m (merged P N A n m)"
proof -
  show "blocks_at (merged P N A n m) P [(N, False)]"
    unfolding merged_def using assms by (intro put_block(1)) auto
  show "same_on (- ({P..<P + 4} \<union> {P + N - 4..<P + N} \<union> {A..<A + 4} \<union> {A + n - 4..<A + n})) m (merged P N A n m)"
    unfolding merged_def using assms
    by (intro same_on_trans [OF same_on_mono [OF same_on_unmarked] put_block(2)]) auto
qed

lemma da_mem_set: "da_mem (s\<lparr>da_mem := x\<rparr>) = x" "s\<lparr>da_mem := x, da_mem := y\<rparr> = s\<lparr>da_mem := y\<rparr>"
  by simp_all

lemma merge_prev_code:
  assumes "ld m A = word_of (n, True)" "ld m (A - 4) = word_of (k, False)"
    and "16 \<le> n" "16 \<le> k" "4 + k \<le> A" "A + n < 4294967296"
  shows "merge_prev (of_nat (A + 4)) (of_nat A) (of_nat (A + n - 4)) (of_nat (A - 4)) (unmarked A n m) =
    merged (A - k) (k + n) A n m"
proof -
  have fp: "ld (unmarked A n m) (A - 4) = of_nat k" "ld (unmarked A n m) A = of_nat n"
    using assms by (simp add: unmarked_other word_of_free)
      (use assms in \<open>simp add: unmarked_def ld_store_other word_of_free\<close>)
  have addr: "(of_nat (A + 4) :: u32) - 4 - of_nat k = of_nat (A - k)" "A - k + (k + n) - 4 = A + n - 4"
    "(of_nat n :: u32) + of_nat k = word_of (k + n, False)"
    using assms by (auto simp: of_nat_add of_nat_diff word_of_free)
  show ?thesis
    unfolding merge_prev_def Let_def fp addr merged_def by simp
qed

lemma merge_next_code:
  assumes "ld (da_mem s) A = word_of (n, True)" "ld (da_mem s) (A + n) = word_of (l, False)"
    and "16 \<le> n" "16 \<le> l" "A + n + l < 4294967296"
  shows "merge_next (of_nat A) (of_nat (A + n)) (s\<lparr>da_mem := unmarked A n (da_mem s)\<rparr>) =
    do { s1 \<leftarrow> on_free_list (LIST_INSERT_BEFORE mem_links (of_nat (A + n + 4)) (of_nat (A + 4)))
           (s\<lparr>da_mem := merged A (n + l) A n (da_mem s)\<rparr>);
         on_free_list (LIST_REMOVE mem_links (of_nat (A + n + 4))) s1 }"
proof -
  let ?m = "unmarked A n (da_mem s)"
  let ?w = "word_of (n + l, False)"
  have hd: "ld ?m (A + n) = of_nat l" "ld ?m A = of_nat n"
    using assms by (simp add: unmarked_other word_of_free)
      (use assms in \<open>simp add: unmarked_def ld_store_other word_of_free\<close>)
  have hn: "ld (store32 (of_nat A) ?w ?m) (A + n) = of_nat l"
    using assms hd by (subst ld_store_other) auto
  have addr: "(of_nat n :: u32) + of_nat l = ?w" "(of_nat (A + n) :: u32) + of_nat l - 4 = of_nat (A + (n + l) - 4)"
    "(of_nat A :: u32) + 4 = of_nat (A + 4)" "(of_nat (A + n) :: u32) + 4 = of_nat (A + n + 4)"
    using assms by (auto simp: of_nat_add of_nat_diff word_of_free)
  show ?thesis
    unfolding merge_next_def Let_def merged_def by (simp add: hd addr hn)
qed

lemma merge_both_code:
  assumes "ld (da_mem s) A = word_of (n, True)" "ld (da_mem s) (A - 4) = word_of (k, False)"
    and "ld (da_mem s) (A + n) = word_of (l, False)" "ld (da_mem s) (A - k) = word_of (k, False)"
    and "16 \<le> n" "16 \<le> k" "16 \<le> l" "4 + k \<le> A" "A + n + l < 4294967296"
  shows "merge_both (of_nat (A + 4)) (of_nat A) (of_nat (A - 4)) (of_nat (A + n))
      (s\<lparr>da_mem := unmarked A n (da_mem s)\<rparr>) =
    on_free_list (LIST_REMOVE mem_links (of_nat (A + n + 4)))
      (s\<lparr>da_mem := merged (A - k) (k + n + l) A n (da_mem s)\<rparr>)"
proof -
  let ?m = "unmarked A n (da_mem s)"
  let ?w = "word_of (k + n + l, False)"
  have hd: "ld ?m (A + n) = of_nat l" "ld ?m A = of_nat n" "ld ?m (A - 4) = of_nat k"
    using assms by (auto simp: unmarked_other word_of_free)
      (use assms in \<open>simp add: unmarked_def ld_store_other word_of_free\<close>)
  have hp: "ld ?m (A - k) = of_nat k"
    using assms(4) by (subst unmarked_other) (use assms in \<open>auto simp: word_of_free\<close>)
  have hn: "ld (store32 (of_nat (A - k)) ?w ?m) (A + n) = of_nat l"
    using assms hd by (subst ld_store_other) auto
  have addr: "(of_nat k :: u32) + of_nat n + of_nat l = ?w"
    "(of_nat (A + 4) :: u32) - 4 - of_nat k = of_nat (A - k)"
    "(of_nat (A + n) :: u32) + of_nat l - 4 = of_nat (A - k + (k + n + l) - 4)"
    "(of_nat (A + n) :: u32) + 4 = of_nat (A + n + 4)"
    using assms by (auto simp: of_nat_add of_nat_diff word_of_free)
  show ?thesis
    unfolding merge_both_def Let_def merged_def
    by (simp only: da_mem_set hd hp addr hn ld_store_same)
qed

lemma links_general:
  assumes "well_sized (pre @ mid @ post)"
  shows "links a (pre @ mid @ post) \<subseteq>
    links (a + heap_len pre) mid \<union> - {a + heap_len pre..<a + heap_len pre + heap_len mid}"
  using assms links_bounds [of pre a] links_bounds [of post "a + heap_len pre + heap_len mid"] by auto

lemma da_inv_dll_general:
  assumes "da_inv base (pre @ mid @ post) s" and "A = base + 4 + heap_len pre"
    and "same_on (links A mid \<union> - {A..<A + heap_len mid}) (da_mem s) m"
  shows "dll mem_links m (freeBlocksList s) (free_addrs (base + 4) (pre @ mid @ post))"
  by (rule da_inv_dll [OF assms(1) same_on_mono [OF assms(3)]], unfold assms(2), rule links_general)
    (use assms(1) in \<open>auto simp: da_inv_def\<close>)

text \<open>The common part of the three refinements.\<close>

lemma merged_refines:
  assumes inv: "da_inv base (pre @ mid @ post) s"
    and P: "P = base + 4 + heap_len pre" and N: "heap_len mid = N" "even N" "16 \<le> N"
    and A: "16 \<le> n" "P \<le> A" "A + n \<le> P + N"
    and nfn: "no_free_neighbours (pre @ [(N, False)] @ post)"
    and rel: "relinked (base + 4) (pre @ lay @ post) bs' (s\<lparr>da_mem := merged P N A n (da_mem s)\<rparr>) s'"
      "free_addrs (base + 4) bs' = free_addrs (base + 4) (pre @ [(N, False)] @ post)"
    and lay: "heap_len lay = N" "well_sized lay"
      "links P lay \<inter> ({P..<P + 4} \<union> {P + N - 4..<P + N}) = {}"
  shows "moves_to base (pre @ mid @ post) (pre @ [(N, False)] @ post) s s'"
proof -
  have PN: "P + N < 4294967296" using inv P N by (auto simp: da_inv_def)
  have "da_inv base (pre @ [(N, False)] @ post) s' \<and>
      same_on (kept base (pre @ (heap_len mid, False) # post)) (da_mem s) (da_mem s') \<and>
      da_world s' = da_world s"
  proof (rule da_inv_update [OF inv _ _ nfn _ _ rel])
    show "same_on (- {base + 4 + heap_len pre..<base + 4 + heap_len pre + heap_len mid}) (da_mem s)
        (merged P N A n (da_mem s))"
      by (rule same_on_mono [OF merged_block(2) [OF A PN]]) (use A N P in auto)
    show "blocks_at (merged P N A n (da_mem s)) (base + 4 + heap_len pre) [(N, False)]"
      using merged_block(1) [OF A PN] P by simp
  qed (use N lay P in auto)
  then show ?thesis using N by (auto intro: moves_toI)
qed

lemma free_merge_prev_refines:
  assumes inv: "da_inv base (pre @ (k, False) # (n, True) # post) s" and post: "starts_allocated post"
  shows "returns (free_block (of_nat (base + 4 + heap_len (pre @ [(k, False)]) + 4)) s)
    (moves_to base (pre @ (k, False) # (n, True) # post) (pre @ [(k + n, False)] @ post) s)"
proof -
  define A where "A = base + 4 + heap_len (pre @ [(k, False)])"
  define P where "P = base + 4 + heap_len pre"
  have inv': "da_inv base ((pre @ [(k, False)]) @ (n, True) # post) s" using inv by simp
  note sz = da_inv_sizes [OF inv', simplified] and words = da_inv_words [OF inv', folded A_def, simplified]
  have szk: "even k" "16 \<le> k" using sz by simp_all
  have A: "A - 4 = base + heap_len pre + k" "4 + k \<le> A" "A - k = P" "A = P + k" by (auto simp: A_def P_def)
  have AN: "A + n < 4294967296" using sz by (simp add: A_def)
  note par = word_before_parity [OF inv', folded A_def, simplified, folded A(1)]
  have wp: "ld (da_mem s) (A - 4) = word_of (k, False)" using words(3) by (simp add: A(1) add.assoc)
  let ?m = "merged P (k + n) A n (da_mem s)"
  have step: "free_block (of_nat (A + 4)) s = Some (s\<lparr>da_mem := ?m\<rparr>)"
  proof -
    have "ld (da_mem s) (A - 4) mod 2 = 0" "ld (da_mem s) (A + n) mod 2 = 1" "4 \<le> A"
      using par post A(2) by (simp_all add: A(1) add.assoc ends_allocated_def)
    then show ?thesis
      using free_block_code [OF words(1) sz(1,2) _ AN] merge_prev_code [OF words(1) wp sz(2) szk(2) A(2) AN]
      by (simp add: A(3))
  qed
  have dll: "dll mem_links ?m (freeBlocksList s) (free_addrs (base + 4) (pre @ [(k, False), (n, True)] @ post))"
    by (rule da_inv_dll_general [OF _ P_def], use inv in simp,
        rule same_on_mono [OF merged_block(2)]) (use sz szk AN A in auto)
  have nfn: "no_free_neighbours (pre @ [(k + n, False)] @ post)"
    using no_free_neighbours_coalesce [of "pre @ [(k, False)]" n post] inv' post by (simp add: coalesce_cases da_inv_def)
  have "moves_to base (pre @ [(k, False), (n, True)] @ post) (pre @ [(k + n, False)] @ post) s (s\<lparr>da_mem := ?m\<rparr>)"
  proof (rule merged_refines [OF _ P_def _ _ _ _ _ _ nfn])
    show "relinked (base + 4) (pre @ [(k + n, True)] @ post) (pre @ [(k, False), (n, True)] @ post)
        (s\<lparr>da_mem := ?m\<rparr>) (s\<lparr>da_mem := ?m\<rparr>)"
      using dll by (simp add: relinked_def)
  qed (use inv sz szk A in \<open>auto simp: add.assoc\<close>)
  then show ?thesis unfolding A_def [symmetric] step by simp
qed

lemma free_merge_next_refines:
  assumes inv: "da_inv base (pre @ (n, True) # (l, False) # post) s" and pre: "ends_allocated pre"
  shows "returns (free_block (of_nat (base + 4 + heap_len pre + 4)) s)
    (moves_to base (pre @ (n, True) # (l, False) # post) (pre @ [(n + l, False)] @ post) s)"
proof -
  define A where "A = base + 4 + heap_len pre"
  note sz = da_inv_sizes [OF inv, simplified] and words = da_inv_words [OF inv, folded A_def, simplified]
  have szl: "even l" "16 \<le> l" using sz by simp_all
  have A: "A - 4 = base + heap_len pre" "4 \<le> A" by (auto simp: A_def)
  have AN: "A + n + l < 4294967296" using sz by (simp add: A_def)
  note par = word_before_parity [OF inv, folded A_def, folded A(1), simplified]
  let ?s = "s\<lparr>da_mem := merged A (n + l) A n (da_mem s)\<rparr>"
  let ?lay = "pre @ (n, False) # (l, False) # post"
  have step: "free_block (of_nat (A + 4)) s =
      do { s1 \<leftarrow> on_free_list (LIST_INSERT_BEFORE mem_links (of_nat (A + n + 4)) (of_nat (A + 4))) ?s;
         on_free_list (LIST_REMOVE mem_links (of_nat (A + n + 4))) s1 }"
    using free_block_code [OF words(1) sz(1,2) A(2)] par pre AN szl
      merge_next_code [OF words(1) words(4) sz(2) szl(2) AN]
    by (simp add: starts_allocated_def)
  have fits: "fits (base + 4) ?lay" "fits (base + 4) ((pre @ [(n, False)]) @ (l, False) # post)"
    using sz szl by (auto simp: fits_def)
  have dll: "dll mem_links (merged A (n + l) A n (da_mem s)) (freeBlocksList s)
      (free_addrs (base + 4) (pre @ [(n, True), (l, False)] @ post))"
    by (rule da_inv_dll_general [OF _ A_def], use inv in simp,
        rule same_on_mono [OF merged_block(2)]) (use sz szl AN A in auto)
  have nfn: "no_free_neighbours (pre @ [(n + l, False)] @ post)"
    using no_free_neighbours_coalesce [of pre n "(l, False) # post"] inv pre by (simp add: coalesce_cases da_inv_def)
  have insert: "returns (on_free_list (LIST_INSERT_BEFORE mem_links (of_nat (A + n + 4)) (of_nat (A + 4))) ?s)
      (relinked (base + 4) ?lay ?lay ?s)"
    using list_insert_before [OF fits(1), of ?s "of_nat (A + n + 4)"] dll by (simp add: A_def ac_simps)
  show ?thesis
    unfolding A_def [symmetric] step returns_bind
  proof (rule returns_mono [OF insert])
    fix s1 assume ins: "relinked (base + 4) ?lay ?lay ?s s1"
    have dll1: "dll mem_links (da_mem s1) (freeBlocksList s1) (free_addrs (base + 4) ((pre @ [(n, False)]) @ (l, False) # post))"
      using ins by (simp add: relinked_def)
    have remove: "returns (on_free_list (LIST_REMOVE mem_links (of_nat (A + n + 4))) s1)
        (relinked (base + 4) ?lay (pre @ (n, False) # (l, True) # post) s1)"
      using list_remove [OF fits(2) dll1] by (simp add: A_def ac_simps)
    show "returns (on_free_list (LIST_REMOVE mem_links (of_nat (A + n + 4))) s1)
        (moves_to base (pre @ (n, True) # (l, False) # post) (pre @ [(n + l, False)] @ post) s)"
    proof (rule returns_mono [OF remove])
      fix s' assume "relinked (base + 4) ?lay (pre @ (n, False) # (l, True) # post) s1 s'"
      then have rel: "relinked (base + 4) (pre @ [(n, False), (l, False)] @ post) (pre @ [(n, False), (l, True)] @ post) ?s s'"
        using relinked_trans [OF ins] by simp
      have "moves_to base (pre @ [(n, True), (l, False)] @ post) (pre @ [(n + l, False)] @ post) s s'"
        by (rule merged_refines [OF _ A_def _ _ _ _ _ _ nfn rel])
          (use inv sz szl in \<open>auto simp: add.assoc\<close>)
      then show "moves_to base (pre @ (n, True) # (l, False) # post) (pre @ [(n + l, False)] @ post) s s'" by simp
    qed
  qed
qed

lemma free_merge_both_refines:
  assumes inv: "da_inv base (pre @ (k, False) # (n, True) # (l, False) # post) s"
  shows "returns (free_block (of_nat (base + 4 + heap_len (pre @ [(k, False)]) + 4)) s)
    (moves_to base (pre @ (k, False) # (n, True) # (l, False) # post) (pre @ [(k + n + l, False)] @ post) s)"
proof -
  define A where "A = base + 4 + heap_len (pre @ [(k, False)])"
  define P where "P = base + 4 + heap_len pre"
  let ?mid = "[(k, False), (n, True), (l, False)]"
  have inv': "da_inv base ((pre @ [(k, False)]) @ (n, True) # (l, False) # post) s" using inv by simp
  note sz = da_inv_sizes [OF inv', simplified] and words = da_inv_words [OF inv', folded A_def, simplified]
  have szk: "even k" "16 \<le> k" "even l" "16 \<le> l" using sz by simp_all
  have A: "A - 4 = base + heap_len pre + k" "4 + k \<le> A" "A - k = P" "A = P + k" by (auto simp: A_def P_def)
  have AN: "A + n + l < 4294967296" using sz by (simp add: A_def)
  note par = word_before_parity [OF inv', folded A_def, simplified, folded A(1)]
  have wp: "ld (da_mem s) (A - 4) = word_of (k, False)" using words(3) by (simp add: A(1) add.assoc)
  have wk: "ld (da_mem s) (A - k) = word_of (k, False)"
    using da_inv_words(1) [OF inv] by (simp add: A(3) P_def)
  let ?m = "merged P (k + n + l) A n (da_mem s)"
  have step: "free_block (of_nat (A + 4)) s =
      on_free_list (LIST_REMOVE mem_links (of_nat (A + n + 4))) (s\<lparr>da_mem := ?m\<rparr>)"
  proof -
    have "ld (da_mem s) (A - 4) mod 2 = 0" "ld (da_mem s) (A + n) mod 2 = 0" "4 \<le> A" "A + n < 4294967296"
      using par A(2) AN by (simp_all add: A(1) add.assoc ends_allocated_def starts_allocated_def)
    then show ?thesis
      using free_block_code [OF words(1) sz(1,2)]
        merge_both_code [OF words(1) wp words(4) wk sz(2) szk(2,4) A(2) AN]
      by (simp add: A(3))
  qed
  have dll: "dll mem_links ?m (freeBlocksList s) (free_addrs (base + 4) (pre @ ?mid @ post))"
    by (rule da_inv_dll_general [OF _ P_def], use inv in simp,
        rule same_on_mono [OF merged_block(2)]) (use sz szk AN A in auto)
  have fits: "fits (base + 4) ((pre @ [(k, False), (n, True)]) @ (l, False) # post)"
    using sz szk by (auto simp: fits_def)
  have nfn: "no_free_neighbours (pre @ [(k + n + l, False)] @ post)"
    using no_free_neighbours_coalesce [of "pre @ [(k, False)]" n "(l, False) # post"] inv'
    by (simp add: coalesce_cases da_inv_def)
  have dll1: "dll mem_links (da_mem (s\<lparr>da_mem := ?m\<rparr>)) (freeBlocksList (s\<lparr>da_mem := ?m\<rparr>))
      (free_addrs (base + 4) ((pre @ [(k, False), (n, True)]) @ (l, False) # post))"
    using dll by simp
  have remove: "returns (on_free_list (LIST_REMOVE mem_links (of_nat (A + n + 4))) (s\<lparr>da_mem := ?m\<rparr>))
      (relinked (base + 4) (pre @ ?mid @ post) (pre @ [(k, False), (n, True), (l, True)] @ post) (s\<lparr>da_mem := ?m\<rparr>))"
    using list_remove [OF fits dll1] by (simp add: A_def ac_simps)
  show ?thesis
    unfolding A_def [symmetric] step
  proof (rule returns_mono [OF remove])
    fix s' assume rel: "relinked (base + 4) (pre @ ?mid @ post) (pre @ [(k, False), (n, True), (l, True)] @ post)
        (s\<lparr>da_mem := ?m\<rparr>) s'"
    have "moves_to base (pre @ ?mid @ post) (pre @ [(k + n + l, False)] @ post) s s'"
      by (rule merged_refines [OF _ P_def _ _ _ _ _ _ nfn rel])
        (use inv sz szk A AN in \<open>auto simp: add.assoc\<close>)
    then show "moves_to base (pre @ (k, False) # (n, True) # (l, False) # post) (pre @ [(k + n + l, False)] @ post) s s'"
      by simp
  qed
qed

theorem free_block_refines:
  assumes "da_inv base (pre @ (n, True) # post) s"
  shows "returns (free_block (of_nat (base + 4 + heap_len pre + 4)) s)
    (moves_to base (pre @ (n, True) # post) (coalesce pre n post) s)"
proof (cases "ends_allocated pre")
  case True
  then show ?thesis
    using assms free_isolated_refines [of base pre n post s] free_merge_next_refines [of base pre n _ _ s]
    by (cases "starts_allocated post") (auto simp: coalesce_cases not_starts_allocated)
next
  case False
  then obtain ps k where pre: "pre = ps @ [(k, False)]" by (auto simp: not_ends_allocated)
  show ?thesis
  proof (cases "starts_allocated post")
    case True
    with free_merge_prev_refines [of base ps k n post s] assms show ?thesis by (simp add: pre coalesce_cases)
  next
    case False
    then obtain l qs where "post = (l, False) # qs" by (auto simp: not_starts_allocated)
    with free_merge_both_refines [of base ps k n l qs s] assms show ?thesis by (simp add: pre coalesce_cases)
  qed
qed

end
