(* ===== verification/FOS_AllocFit.thy ===== *)
theory FOS_AllocFit
  imports FOS_AllocFree
begin

text \<open>
  First fit and best fit refine a choice on block lists. The choice fails when no free block is
  large enough; then the heap grows at the break, for which the \<open>sbrk\<close> routine the
  allocator calls must keep the promises of the locale \<open>sbrk_provider\<close>.
\<close>

section \<open>Request sizes\<close>

definition request :: "nat \<Rightarrow> nat" where
  "request k = max 8 (if odd k then k + 1 else k)"

lemma request_facts: "even (request k)" "8 \<le> request k" "k \<le> request k" "request k \<le> max 8 (k + 1)"
  by (auto simp: request_def max_def)

lemma adjust_size_request:
  assumes "unat sz < 4294967295"
  shows "adjust_size sz = of_nat (request (unat sz))"
proof -
  define p where "p = (if odd (unat sz) then unat sz + 1 else unat sz)"
  have "(if sz mod 2 \<noteq> 0 then sz + 1 else sz) = of_nat p"
    by (simp add: p_def u32_mod_2 of_nat_add)
  moreover have "p < 4294967296" using assms by (simp add: p_def)
  then have "(of_nat p :: u32) < 8 \<longleftrightarrow> p < 8" using of_nat_u32_less_iff [of p 8] by simp
  ultimately show ?thesis
    by (simp add: adjust_size_def request_def Let_def max_def flip: p_def)
qed

section \<open>First fit on block lists\<close>

definition fits_in :: "nat \<Rightarrow> block \<Rightarrow> bool" where
  "fits_in n b \<longleftrightarrow> \<not> snd b \<and> n + 8 \<le> fst b"

text \<open>The offset of the chosen block and the new block list.\<close>

primrec ff_alloc :: "nat \<Rightarrow> block list \<Rightarrow> (nat \<times> block list) option" where
  "ff_alloc n [] = None"
| "ff_alloc n (b # bs) =
    (if fits_in n b then Some (0, place n (fst b) @ bs)
     else map_option (\<lambda>(off, bs'). (fst b + off, b # bs')) (ff_alloc n bs))"

lemma ff_alloc_None: "ff_alloc n bs = None \<longleftrightarrow> (\<forall>b \<in> set bs. \<not> fits_in n b)"
  by (induction bs) auto

lemma ff_alloc_Some:
  "ff_alloc n bs = Some (off, bs') \<longleftrightarrow>
    (\<exists>pre N post. bs = pre @ (N, False) # post \<and> n + 8 \<le> N \<and> (\<forall>b \<in> set pre. \<not> fits_in n b) \<and>
       off = heap_len pre \<and> bs' = pre @ place n N @ post)"
proof (induction bs arbitrary: off bs')
  case Nil
  then show ?case by simp
next
  case (Cons b bs)
  show ?case
  proof (cases "fits_in n b")
    case True
    then have "b = (fst b, False)" "n + 8 \<le> fst b" by (cases b, auto simp: fits_in_def)+
    with True show ?thesis
      by (auto simp: Cons_eq_append_conv intro!: exI [of _ "[]"])
  next
    case False
    then have "ff_alloc n (b # bs) = Some (off, bs') \<longleftrightarrow>
        (\<exists>off1 bs1. ff_alloc n bs = Some (off1, bs1) \<and> off = fst b + off1 \<and> bs' = b # bs1)"
      by auto
    also have "\<dots> \<longleftrightarrow> (\<exists>pre N post. b # bs = (b # pre) @ (N, False) # post \<and> n + 8 \<le> N \<and>
        (\<forall>c \<in> set (b # pre). \<not> fits_in n c) \<and> off = heap_len (b # pre) \<and> bs' = (b # pre) @ place n N @ post)"
      using False unfolding Cons.IH by (simp, blast)
    also have "\<dots> \<longleftrightarrow> (\<exists>pre N post. b # bs = pre @ (N, False) # post \<and> n + 8 \<le> N \<and>
        (\<forall>c \<in> set pre. \<not> fits_in n c) \<and> off = heap_len pre \<and> bs' = pre @ place n N @ post)"
    proof
      assume "\<exists>pre N post. b # bs = pre @ (N, False) # post \<and> n + 8 \<le> N \<and>
        (\<forall>c \<in> set pre. \<not> fits_in n c) \<and> off = heap_len pre \<and> bs' = pre @ place n N @ post"
      then obtain pre N post where p: "b # bs = pre @ (N, False) # post" "n + 8 \<le> N"
        "\<forall>c \<in> set pre. \<not> fits_in n c" "off = heap_len pre" "bs' = pre @ place n N @ post" by blast
      with False obtain pre' where "pre = b # pre'" by (cases pre) (auto simp: fits_in_def)
      with p show "\<exists>pre N post. b # bs = (b # pre) @ (N, False) # post \<and> n + 8 \<le> N \<and>
        (\<forall>c \<in> set (b # pre). \<not> fits_in n c) \<and> off = heap_len (b # pre) \<and> bs' = (b # pre) @ place n N @ post"
        by blast
    qed blast
    finally show ?thesis .
  qed
qed

section \<open>Scanning the free list\<close>

text \<open>The scan reads only the headers.\<close>

primrec headers_at :: "memory \<Rightarrow> nat \<Rightarrow> block list \<Rightarrow> bool" where
  "headers_at m a [] = True"
| "headers_at m a (b # bs) = (ld m a = word_of b \<and> headers_at m (a + fst b) bs)"

lemma headers_at_append [simp]:
  "headers_at m a (bs @ cs) \<longleftrightarrow> headers_at m a bs \<and> headers_at m (a + heap_len bs) cs"
  by (induction bs arbitrary: a) (auto simp: add.assoc)

lemma blocks_at_headers: "blocks_at m a bs \<Longrightarrow> headers_at m a bs"
  by (induction bs arbitrary: a) auto

lemma scanned_header:
  assumes "headers_at m a bs" and "x \<in> set (free_addrs a bs)"
  obtains k where "(k, False) \<in> set bs" and "load32 m (x - 4) = of_nat k"
  using assms
proof (induction bs arbitrary: a thesis)
  case Nil
  then show ?case by simp
next
  case (Cons b bs)
  show ?case
  proof (cases "x \<in> set (free_addrs (a + fst b) bs)")
    case True
    with Cons.prems(2) obtain k where "(k, False) \<in> set bs" "load32 m (x - 4) = of_nat k"
      by (auto elim: Cons.IH [rotated 1])
    with Cons.prems(1) show ?thesis by auto
  next
    case False
    with Cons.prems(3) have "\<not> snd b" "x = of_nat (a + 4)" by (auto split: if_splits)
    with Cons.prems(1) [of "fst b"] Cons.prems(2) show ?thesis
      by (cases b) (auto simp: word_of_free header_addr)
  qed
qed

lemma hdr_test:
  assumes "k < 4294967296" and "n + 8 < 4294967296"
  shows "(of_nat k :: u32) \<ge> of_nat n + 8 \<longleftrightarrow> n + 8 \<le> k"
    and "n + 8 \<le> k \<Longrightarrow> (of_nat k :: u32) - (of_nat n + 8) = of_nat (k - (n + 8))"
proof -
  have "(of_nat n :: u32) + 8 = of_nat (n + 8)" by (simp add: of_nat_add)
  then show "(of_nat k :: u32) \<ge> of_nat n + 8 \<longleftrightarrow> n + 8 \<le> k"
    using assms by (simp only: of_nat_u32_le_iff)
  show "n + 8 \<le> k \<Longrightarrow> (of_nat k :: u32) - (of_nat n + 8) = of_nat (k - (n + 8))"
    by (simp only: \<open>of_nat n + 8 = of_nat (n + 8)\<close> of_nat_u32_sub)
qed

lemma FF_step_miss:
  assumes "headers_at (da_mem s) a bs" and "x \<in> set (free_addrs a bs)" and "\<forall>b \<in> set bs. \<not> fits_in n b"
    and "\<forall>b \<in> set bs. fst b < 4294967296" and "n + 8 < 4294967296"
  shows "FF_step (of_nat n) x s = Some (False, s)"
proof -
  from assms(1,2) obtain k where k: "(k, False) \<in> set bs" "load32 (da_mem s) (x - 4) = of_nat k"
    by (rule scanned_header)
  with assms(3,4) have "k < n + 8" "k < 4294967296" by (auto simp: fits_in_def)
  with k(2) assms(5) show ?thesis by (simp add: FF_step_def Let_def hdr_test)
qed

text \<open>A heap whose headers and free list are in order, as far as a scan is concerned.\<close>

definition scannable :: "nat \<Rightarrow> block list \<Rightarrow> 'w da \<Rightarrow> bool" where
  "scannable a bs s \<longleftrightarrow> is_initialized s \<and> a + heap_len bs < 4294967296 \<and> headers_at (da_mem s) a bs \<and>
     dll mem_links (da_mem s) (freeBlocksList s) (free_addrs a bs)"

lemma da_inv_scannable: "da_inv base bs s \<Longrightarrow> scannable (base + 4) bs s"
  by (auto simp: da_inv_def scannable_def heap_at_def blocks_at_headers)

lemma block_size_bound: "b \<in> set bs \<Longrightarrow> fst b \<le> heap_len bs"
  using member_le_sum_list [of "fst b" "map fst bs"] by (auto simp: heap_len_def)

lemma FF_scan_miss:
  assumes "scannable a bs s" and "\<forall>b \<in> set bs. \<not> fits_in n b" and "n + 8 < 4294967296"
  shows "LIST_FOREACH (\<lambda>s. load32 (da_mem s)) (FF_step (of_nat n)) (lh_first (freeBlocksList s)) s = Some (NULL, s)"
proof -
  have "\<forall>b \<in> set bs. fst b < 4294967296"
    using assms(1) block_size_bound [of _ bs] by (force simp: scannable_def)
  with assms have "FF_step (of_nat n) x s = Some (False, s)" if "x \<in> set (free_addrs a bs)" for x
    using that by (intro FF_step_miss) (auto simp: scannable_def)
  then show ?thesis
    using assms(1) foreach_none [of mem_links "da_mem s" NULL "free_addrs a bs" "\<lambda>s. load32 (da_mem s)" s "FF_step (of_nat n)"]
    by (auto simp: scannable_def dll_def)
qed

lemma FF_scan_hit:
  assumes "scannable a (pre @ (N, False) # post) s" and "\<forall>b \<in> set pre. \<not> fits_in n b" and "n + 8 \<le> N"
    and "take_block (of_nat n) (of_nat (N - (n + 8))) (of_nat (a + heap_len pre + 4)) s = Some s'"
  shows "LIST_FOREACH (\<lambda>s. load32 (da_mem s)) (FF_step (of_nat n)) (lh_first (freeBlocksList s)) s =
    Some (of_nat (a + heap_len pre + 4), s')"
proof -
  let ?va = "of_nat (a + heap_len pre + 4) :: u32"
  have bounds: "\<forall>b \<in> set pre. fst b < 4294967296" "n + 8 < 4294967296" "N < 4294967296"
    using assms(1,3) block_size_bound [of _ pre] by (force simp: scannable_def)+
  have "FF_step (of_nat n) x s = Some (False, s)" if "x \<in> set (free_addrs a pre)" for x
    using assms(1,2) bounds that by (intro FF_step_miss) (auto simp: scannable_def)
  moreover have "FF_step (of_nat n) ?va s = Some (True, s')"
    using assms bounds by (simp add: FF_step_def Let_def scannable_def header_addr word_of_free hdr_test)
  ultimately show ?thesis
    using assms(1) foreach_hit [of mem_links "da_mem s" NULL "free_addrs a pre" ?va
        "free_addrs (a + heap_len pre + N) post" NULL "\<lambda>s. load32 (da_mem s)" s "FF_step (of_nat n)" s']
    by (auto simp: scannable_def dll_def)
qed

lemma alloc_FF_hit:
  assumes "scannable a (pre @ (N, False) # post) s" and "\<forall>b \<in> set pre. \<not> fits_in n b" and "n + 8 \<le> N"
    and "take_block (of_nat n) (of_nat (N - (n + 8))) (of_nat (a + heap_len pre + 4)) s = Some s'"
    and "sz \<noteq> 0" "unat sz < 4294967295" "n = request (unat sz)" "16 \<le> N"
  shows "alloc_block_FF sbrk sz s = Some (of_nat (a + heap_len pre + 4), s')"
proof -
  have "of_nat (a + heap_len pre + 4) \<noteq> (0 :: u32)"
    using assms(1,8) by (subst of_nat_u32_zero_iff) (auto simp: scannable_def)
  moreover have "is_initialized s" using assms(1) by (simp add: scannable_def)
  ultimately show ?thesis
    using FF_scan_hit [OF assms(1-4)] assms(5,6)
    by (subst alloc_block_FF.simps) (simp add: lazy_init_def adjust_size_request flip: assms(7))
qed

lemma alloc_FF_miss:
  assumes "scannable a bs s" and "\<forall>b \<in> set bs. \<not> fits_in n b"
    and "sz \<noteq> 0" "unat sz < 4294967280" "n = request (unat sz)"
  shows "alloc_block_FF sbrk sz s = do {
      (ok, s1) \<leftarrow> grow_heap sbrk (of_nat n + 8) s;
      if ok then alloc_block_FF sbrk (of_nat n) s1 else Some (NULL, s1) }"
proof -
  have "n + 8 < 4294967296" using assms(4,5) request_facts(4) [of "unat sz"] by (auto simp: max_def split: if_splits)
  moreover have "is_initialized s" using assms(1) by (simp add: scannable_def)
  ultimately show ?thesis
    using FF_scan_miss [OF assms(1,2)] assms(3,4)
    by (subst alloc_block_FF.simps) (simp add: lazy_init_def Let_def adjust_size_request flip: assms(5))
qed

theorem alloc_block_FF_refines:
  assumes inv: "da_inv base bs s" and sz: "sz \<noteq> 0" "unat sz < 4294967295"
    and choice: "ff_alloc (request (unat sz)) bs = Some (off, bs')"
  shows "returns (alloc_block_FF sbrk sz s) (\<lambda>(p, s'). p = of_nat (base + 4 + off + 4) \<and> moves_to base bs bs' s s')"
proof -
  let ?n = "request (unat sz)"
  from choice obtain pre N post where c: "bs = pre @ (N, False) # post" "?n + 8 \<le> N"
    "\<forall>b \<in> set pre. \<not> fits_in ?n b" "off = heap_len pre" "bs' = pre @ place ?n N @ post"
    by (auto simp: ff_alloc_Some)
  from inv c have inv': "da_inv base (pre @ (N, False) # post) s" by simp
  from take_block_refines [OF inv' request_facts(1,2) c(2)] obtain s' where
    s': "take_block (of_nat ?n) (of_nat (N - (?n + 8))) (of_nat (base + 4 + heap_len pre + 4)) s = Some s'"
      "moves_to base bs bs' s s'" using c by (auto elim: returnsE)
  show ?thesis
    using alloc_FF_hit [OF da_inv_scannable [OF inv'] c(3,2) s'(1) sz refl, of sbrk]
      da_inv_sizes(2) [OF inv'] s'(2) c(4) by simp
qed

end
