(* ===== verification/FOS_AllocGrow.thy ===== *)
theory FOS_AllocGrow
  imports FOS_AllocFit
begin

text \<open>
  Growing the heap. What the allocator needs from \<open>sbrk\<close> is the locale
  \<open>sbrk_provider\<close>; in it, an allocation that finds no block is shown to fail cleanly or to
  place the request in the block made of the new page and a free block before it.

  \<^verbatim>\<open>alloc_block_FF\<close> writes the footer of the new block four bytes too low. The state
  after growing is therefore in order only up to the footer of the last block
  (\<open>repaired\<close>); placing a request of at most 2 KB in a new page splits it, which writes
  that footer again.
\<close>

section \<open>Stores that commute\<close>

lemma store32_overwrite: "store32 a v (store32 a w m) = store32 a v m"
  by (auto simp: store32_def fun_eq_iff)

lemma store32_local: "x \<in> region a 4 \<Longrightarrow> store32 a v m x = store32 a v m' x"
proof -
  assume "x \<in> region a 4"
  then have "unat (x - a) = 0 \<or> unat (x - a) = 1 \<or> unat (x - a) = 2 \<or> unat (x - a) = 3"
    by (auto simp: region_def)
  then have "x - a = 0 \<or> x - a = 1 \<or> x - a = 2 \<or> x - a = 3"
    by (auto simp: word_unat_eq_iff)
  then have "x = a \<or> x = a + 1 \<or> x = a + 2 \<or> x = a + 3" by (metis add.commute add.right_neutral diff_add_cancel)
  then show ?thesis by (auto simp: store32_def)
qed

lemma store32_commute:
  assumes "a + 4 \<le> 4294967296" "b + 4 \<le> 4294967296" "a + 4 \<le> b \<or> b + 4 \<le> a"
  shows "store32 (of_nat a) v (store32 (of_nat b) w m) = store32 (of_nat b) w (store32 (of_nat a) v m)"
proof
  fix x :: u32
  let ?a = "of_nat a :: u32" and ?b = "of_nat b :: u32"
  have "unat ?a = a" "unat ?b = b" using assms by (simp_all add: unat_of_nat_u32)
  then have "region ?a 4 \<inter> region ?b 4 = {}"
    using assms by (intro region_disjointI) (auto simp: unat_sub_u32)
  then consider "x \<in> region ?a 4" "x \<notin> region ?b 4" | "x \<notin> region ?a 4" "x \<in> region ?b 4"
    | "x \<notin> region ?a 4" "x \<notin> region ?b 4" by blast
  then show "store32 ?a v (store32 ?b w m) x = store32 ?b w (store32 ?a v m) x"
    using store32_local [of x ?a v "store32 ?b w m" m] store32_local [of x ?b w m "store32 ?a v m"]
    by cases (simp_all add: store32_outside)
qed

lemma store32_same: "store32 a (load32 m a) m = m"
proof -
  have "ucast (drop_bit k (load32 m a)) = m (a + i)" if "(k, i) \<in> {(0, 0), (8, 1), (16, 2), (24, 3)}" for k i
    using that by (intro bit_word_eqI) (auto simp: load32_def bit_simps dest: bit_imp_le_length)
  from this [of 0 0] this [of 8 1] this [of 16 2] this [of 24 3] show ?thesis
    by (auto simp: store32_def fun_eq_iff)
qed

section \<open>The footer of the last block\<close>

definition with_footer :: "nat \<Rightarrow> block list \<Rightarrow> memory \<Rightarrow> memory" where
  "with_footer base bs m = store32 (of_nat (base + heap_len bs)) (word_of (last bs)) m"

definition repaired :: "nat \<Rightarrow> block list \<Rightarrow> 'w da \<Rightarrow> 'w da" where
  "repaired base bs s = s\<lparr>da_mem := with_footer base bs (da_mem s)\<rparr>"

lemma repaired_simps [simp]:
  "da_mem (repaired base bs s) = with_footer base bs (da_mem s)"
  "freeBlocksList (repaired base bs s) = freeBlocksList s"
  "is_initialized (repaired base bs s) = is_initialized s"
  "da_world (repaired base bs s) = da_world s"
  by (simp_all add: repaired_def)

lemma repaired_id:
  assumes "da_inv base (pre @ [b]) s"
  shows "repaired base (pre @ [b]) s = s"
proof -
  have "base + 4 + heap_len pre + fst b - 4 = base + heap_len (pre @ [b])" by simp
  then have "ld (da_mem s) (base + heap_len (pre @ [b])) = word_of b"
    using da_inv_words(2) [OF assms] by simp
  then have "with_footer base (pre @ [b]) (da_mem s) = da_mem s"
    unfolding with_footer_def using store32_same [of "of_nat (base + heap_len (pre @ [b]))" "da_mem s"] by simp
  then show ?thesis by (simp add: repaired_def)
qed

lemma headers_at_last:
  assumes "well_sized (pre @ [b])" "a + heap_len (pre @ [b]) \<le> 4294967296" "4 \<le> a"
  shows "headers_at (store32 (of_nat (a + heap_len (pre @ [b]) - 4)) w m) a (pre @ [b]) = headers_at m a (pre @ [b])"
  using assms
proof (induction pre arbitrary: a)
  case Nil
  then show ?case by (auto simp: ld_store_other)
next
  case (Cons c cs)
  have "ld (store32 (of_nat (a + heap_len ((c # cs) @ [b]) - 4)) w m) a = ld m a"
    using Cons.prems by (intro ld_store_other) auto
  moreover have "a + fst c + heap_len (cs @ [b]) - 4 = a + heap_len ((c # cs) @ [b]) - 4" by simp
  ultimately show ?case using Cons.IH [of "a + fst c"] Cons.prems by (simp add: add.assoc)
qed

lemma merged_footer:
  assumes "P + N = A + n" "P + 16 \<le> A" "16 \<le> n" "A + n \<le> 4294967296"
  shows "merged P N A n (store32 (of_nat (A + n - 4)) w m) = merged P N A n m"
proof -
  have F: "P + N - 4 = A + n - 4" using assms by simp
  have c1: "store32 (of_nat P) v (store32 (of_nat (A + n - 4)) u k) = store32 (of_nat (A + n - 4)) u (store32 (of_nat P) v k)"
    and c2: "store32 (of_nat A) v (store32 (of_nat (A + n - 4)) u k) = store32 (of_nat (A + n - 4)) u (store32 (of_nat A) v k)"
    for v u k using assms by (auto intro!: store32_commute)
  show ?thesis unfolding merged_def unmarked_def F c1 c2 store32_overwrite ..
qed

lemma split_mem_footer:
  assumes "n + 24 \<le> N" "A + N \<le> 4294967296"
  shows "split_mem A n N (store32 (of_nat (A + N - 4)) w m) = split_mem A n N m"
proof -
  have c: "store32 (of_nat x) v (store32 (of_nat (A + N - 4)) u k) = store32 (of_nat (A + N - 4)) u (store32 (of_nat x) v k)"
    if "x \<in> {A, A + n + 4, A + n + 8}" for x v u k
    using that assms by (intro store32_commute) auto
  show ?thesis unfolding split_mem_def by (simp add: c store32_overwrite)
qed

section \<open>One more block at the end\<close>

definition grown_mem :: "nat \<Rightarrow> nat \<Rightarrow> memory \<Rightarrow> memory" where
  "grown_mem A T m = store32 (of_nat (A + T)) 1
     (store32 (of_nat (A + T - 8)) (word_of (T, True)) (store32 (of_nat A) (word_of (T, True)) m))"

text \<open>Everything is in order behind the old blocks, but for the footer of the new block.\<close>

lemma grown_inv:
  assumes inv: "da_inv base bs s" and A: "A = base + 4 + heap_len bs"
    and T: "even T" "16 \<le> T" "A + 4 + T < 4294967296"
    and same: "same_on (- {A + 4..<A + 4 + T}) (da_mem s) m1"
  shows "da_inv base (bs @ [(T, True)])
      (s\<lparr>da_mem := with_footer base (bs @ [(T, True)]) (grown_mem A T m1), da_world := w\<rparr>)"
    and "same_on (- {A..<A + 4 + T}) (da_mem s) (grown_mem A T m1)"
proof -
  let ?m = "with_footer base (bs @ [(T, True)]) (grown_mem A T m1)"
  have ws: "well_sized bs" using inv by (simp add: da_inv_def)
  show same': "same_on (- {A..<A + 4 + T}) (da_mem s) (grown_mem A T m1)"
    unfolding grown_mem_def
    by (intro same_on_trans [OF same_on_trans [OF same_on_trans [OF same_on_mono [OF same] same_on_store32] same_on_store32] same_on_store32])
      (use T in auto)
  have foot: "base + heap_len (bs @ [(T, True)]) = A + T - 4" using A by simp
  have low: "same_on {..<A} (da_mem s) ?m"
    unfolding with_footer_def foot
    by (intro same_on_trans [OF same_on_mono [OF same'] same_on_store32]) (use T in auto)
  have "ld ?m base = ld (da_mem s) base"
    by (rule ld_cong [OF same_on_mono [OF low]]) (use A T in auto)
  moreover have "blocks_at ?m (base + 4) bs = blocks_at (da_mem s) (base + 4) bs"
    by (rule blocks_at_cong [OF same_on_mono [OF low]]) (use A T ws meta_bounds [OF ws, of "base + 4"] in auto)
  moreover have "ld ?m A = word_of (T, True)" "ld ?m (A + T) = 1" "ld ?m (A + T - 4) = word_of (T, True)"
  proof -
    from T(2) obtain k where "T = k + 16" by (metis add.commute le_Suc_ex)
    then show "ld ?m A = word_of (T, True)" "ld ?m (A + T) = 1" "ld ?m (A + T - 4) = word_of (T, True)"
      unfolding with_footer_def foot grown_mem_def using T(3) by (simp_all add: ld_store_other)
  qed
  moreover have "base + 4 + heap_len (bs @ [(T, True)]) = A + T" using A by simp
  ultimately have heap: "heap_at ?m base (bs @ [(T, True)])"
    using inv A by (simp add: heap_at_def da_inv_def add.assoc)
  have "dll mem_links ?m (freeBlocksList s) (free_addrs (base + 4) bs)"
    by (rule da_inv_dll [OF inv same_on_mono [OF low]]) (use links_bounds [OF ws, of "base + 4"] A in auto)
  with heap show "da_inv base (bs @ [(T, True)]) (s\<lparr>da_mem := ?m, da_world := w\<rparr>)"
    using inv T A by (simp add: da_inv_def no_free_neighbours_def successively_append_iff)
qed

lemma relinked_store:
  assumes "relinked a lay bs (s\<lparr>da_mem := m\<rparr>) s'" and "x + 4 \<le> 4294967296"
    and "{x..<x + 4} \<inter> links a bs = {}" and "well_sized bs" "a + heap_len bs \<le> 4294967296"
  shows "relinked a lay bs (s\<lparr>da_mem := store32 (of_nat x) w m\<rparr>) (s'\<lparr>da_mem := store32 (of_nat x) w (da_mem s')\<rparr>)"
proof -
  have "same_on (links a bs) (da_mem s') (store32 (of_nat x) w (da_mem s'))"
    using assms by (intro same_on_store32) auto
  then have dll: "dll mem_links (store32 (of_nat x) w (da_mem s')) (freeBlocksList s') (free_addrs a bs)"
    using assms dll_links_cong by (auto simp: relinked_def)
  have "at (store32 (of_nat x) w (da_mem s')) y = at (store32 (of_nat x) w m) y"
    if "y \<notin> links a lay" "y < 4294967296" for y
  proof (cases "of_nat y \<in> region (of_nat x :: u32) 4")
    case True
    then show ?thesis unfolding at_def by (rule store32_local)
  next
    case False
    then show ?thesis using assms(1) that by (simp add: at_def store32_outside relinked_def same_on_def)
  qed
  with dll show ?thesis using assms(1) by (simp add: relinked_def same_on_def)
qed

lemma repaired_set: "(repaired base bs s)\<lparr>da_mem := m\<rparr> = s\<lparr>da_mem := m\<rparr>"
  by (simp add: repaired_def)

lemma free_grown_merge:
  assumes inv: "da_inv base ((pre @ [(k, False)]) @ [(T, True)]) (repaired base ((pre @ [(k, False)]) @ [(T, True)]) s)"
  shows "free_block (of_nat (base + 4 + heap_len (pre @ [(k, False)]) + 4)) s =
    free_block (of_nat (base + 4 + heap_len (pre @ [(k, False)]) + 4)) (repaired base ((pre @ [(k, False)]) @ [(T, True)]) s)"
proof -
  define A where "A = base + 4 + heap_len (pre @ [(k, False)])"
  let ?r = "repaired base ((pre @ [(k, False)]) @ [(T, True)]) s"
  note sz = da_inv_sizes [OF inv, simplified] and words = da_inv_words [OF inv, folded A_def, simplified]
  have foot: "da_mem ?r = store32 (of_nat (A + T - 4)) (word_of (T, True)) (da_mem s)"
    by (simp add: with_footer_def A_def add.assoc)
  have A: "A - 4 = base + heap_len pre + k" "4 + k \<le> A" "A = base + 4 + heap_len pre + k" by (auto simp: A_def)
  have AN: "A + T < 4294967296" "16 \<le> k" "16 \<le> T" using sz by (auto simp: A_def)
  have same: "ld (da_mem ?r) x = ld (da_mem s) x" if "x \<in> {A, A - 4, A + T}" for x
    unfolding foot using that AN A sz by (intro ld_store_other) auto
  have w: "ld (da_mem ?r) A = word_of (T, True)" "ld (da_mem ?r) (A - 4) = word_of (k, False)" "ld (da_mem ?r) (A + T) = 1"
    using da_inv_words [OF inv, folded A_def] by (simp_all add: A(1) add.assoc del: repaired_simps)
  have ws: "ld (da_mem s) A = word_of (T, True)" "ld (da_mem s) (A - 4) = word_of (k, False)" "ld (da_mem s) (A + T) = 1"
    using w same by (simp_all del: repaired_simps)
  have par: "word_of (k, False) mod 2 = (0 :: u32)" using sz AN A by (simp add: word_of_parity)
  have m: "merged (A - k) (k + T) A T (da_mem ?r) = merged (A - k) (k + T) A T (da_mem s)"
    unfolding foot using A AN by (intro merged_footer) auto
  have "4 \<le> A" using A by simp
  note code = free_block_code [OF _ sz(1) AN(3) this AN(1)]
  have "free_block (of_nat (A + 4)) s = Some (s\<lparr>da_mem := merged (A - k) (k + T) A T (da_mem s)\<rparr>)"
    using code [of s] ws par merge_prev_code [OF ws(1,2) AN(3,2) A(2) AN(1)] by (simp add: Let_def)
  moreover have "free_block (of_nat (A + 4)) ?r = Some (s\<lparr>da_mem := merged (A - k) (k + T) A T (da_mem s)\<rparr>)"
    using code [of ?r] w par merge_prev_code [OF w(1,2) AN(3,2) A(2) AN(1)] m
    by (simp add: Let_def repaired_set del: repaired_simps)
  ultimately show ?thesis unfolding A_def by simp
qed

lemma free_grown_isolated:
  assumes inv: "da_inv base (pre @ [(T, True)]) (repaired base (pre @ [(T, True)]) s)" and pre: "ends_allocated pre"
  shows "returns (free_block (of_nat (base + 4 + heap_len pre + 4)) s) (\<lambda>s'.
    moves_to base (pre @ [(T, True)]) (pre @ [(T, False)]) (repaired base (pre @ [(T, True)]) s)
      (repaired base (pre @ [(T, False)]) s'))"
proof -
  define A where "A = base + 4 + heap_len pre"
  let ?r = "repaired base (pre @ [(T, True)]) s"
  let ?u = "unmarked A T (da_mem s)" and ?F = "A + T - 4"
  let ?m = "store32 (of_nat ?F) (word_of (T, False)) ?u"
  note sz = da_inv_sizes [OF inv, simplified] and words = da_inv_words [OF inv, folded A_def]
  have foot: "da_mem ?r = store32 (of_nat ?F) (word_of (T, True)) (da_mem s)" and F: "base + heap_len (pre @ [(T, b)]) = ?F" for b
    by (simp_all add: with_footer_def A_def add.assoc)
  have A: "A - 4 = base + heap_len pre" "4 \<le> A" by (auto simp: A_def)
  have AT: "A + T + 4 < 4294967296" "16 \<le> T" "even T" using sz by (auto simp: A_def)
  have rs: "ld (da_mem ?r) x = ld (da_mem s) x" if "x \<in> {A, A - 4, A + T}" for x
    unfolding foot using that AT A by (intro ld_store_other) auto
  have us: "ld ?u x = ld (da_mem s) x" if "x \<in> {A - 4, A + T}" for x
    using that AT A by (intro unmarked_other) auto
  note par = word_before_parity [OF inv, folded A_def, folded A(1)] and border = word_before_border [OF inv, folded A_def, folded A(1)]
  have hd: "ld (da_mem s) A = word_of (T, True)" "ld (da_mem s) (A - 4) mod 2 = 1" "ld (da_mem s) (A + T) mod 2 = 1"
    "ld ?u (A - 4) = 1 \<longrightarrow> pre = []"
    using words(1) par pre border(1) by (simp_all add: rs us ends_allocated_def starts_allocated_def del: repaired_simps)
  have fits: "fits (base + 4) (pre @ (T, False) # [])" using sz by (simp add: fits_def)
  have same_s: "same_on (- {?F..<?F + 4}) (da_mem ?r) (da_mem s)"
    using AT same_on_store32 [of ?F "- {?F..<?F + 4}" "da_mem s" "word_of (T, True)"] unfolding foot
    by (auto simp: same_on_def)
  have same: "same_on (- {A..<A + T}) (da_mem ?r) ?u"
    using AT by (intro same_on_trans [OF same_on_mono [OF same_s] same_on_mono [OF same_on_unmarked]]) auto
  have same': "same_on (- {A..<A + T}) (da_mem ?r) ?m"
    using AT by (intro same_on_trans [OF same same_on_store32]) auto
  have "dll mem_links ?u (freeBlocksList ?r) (free_addrs (base + 4) (pre @ (T, True) # []))"
    by (rule da_inv_dll_allocated [OF inv]) (use same in \<open>simp add: A_def del: repaired_simps\<close>)
  then have ins: "returns (free_isolated (of_nat (A + 4)) (of_nat (A - 4)) (of_nat (A + T)) (s\<lparr>da_mem := ?u\<rparr>))
      (relinked (base + 4) (pre @ (T, False) # []) (pre @ (T, False) # []) (s\<lparr>da_mem := ?u\<rparr>))"
    by (intro free_isolated_inserts [OF fits, of "s\<lparr>da_mem := ?u\<rparr>" "A - 4" "A + T", folded A_def])
      (use hd in simp_all)
  have step: "free_block (of_nat (A + 4)) s =
      free_isolated (of_nat (A + 4)) (of_nat (A - 4)) (of_nat (A + T)) (s\<lparr>da_mem := ?u\<rparr>)"
    using free_block_code [OF hd(1) AT(3,2) A(2)] hd AT by (simp add: Let_def)
  show ?thesis
    unfolding A_def [symmetric] step
  proof (rule returns_mono [OF ins])
    fix s' assume rel: "relinked (base + 4) (pre @ (T, False) # []) (pre @ (T, False) # []) (s\<lparr>da_mem := ?u\<rparr>) s'"
    have lnk: "{?F..<?F + 4} \<inter> links (base + 4) (pre @ (T, False) # []) = {}"
      using links_bounds [of pre "base + 4"] sz AT by (auto simp: A_def)
    have "repaired base (pre @ [(T, False)]) s' = s'\<lparr>da_mem := store32 (of_nat ?F) (word_of (T, False)) (da_mem s')\<rparr>"
      unfolding repaired_def with_footer_def F by simp
    then have rel': "relinked (base + 4) (pre @ [(T, False)] @ []) (pre @ [(T, False)] @ []) (?r\<lparr>da_mem := ?m\<rparr>)
        (repaired base (pre @ [(T, False)]) s')"
      using relinked_store [OF rel _ lnk] AT fits by (simp add: fits_def repaired_set)
    have "da_inv base (pre @ [(T, False)] @ []) (repaired base (pre @ [(T, False)]) s') \<and>
        same_on (kept base (pre @ (heap_len [(T, True)], False) # [])) (da_mem ?r) (da_mem (repaired base (pre @ [(T, False)]) s')) \<and>
        da_world (repaired base (pre @ [(T, False)]) s') = da_world ?r"
    proof (rule da_inv_update [OF _ _ _ _ _ _ rel'])
      show "no_free_neighbours (pre @ [(T, False)] @ [])"
        using no_free_neighbours_coalesce [of pre T "[]"] inv pre
        by (simp add: coalesce_cases da_inv_def starts_allocated_def)
      have "?m = store32 (of_nat (A + T - 4)) (word_of (T, False)) (store32 (of_nat A) (word_of (T, False)) (da_mem s))"
        by (simp add: unmarked_def store32_overwrite)
      then show "blocks_at ?m (base + 4 + heap_len pre) [(T, False)]"
        using put_block(1) [of T A] AT by (simp add: A_def)
    qed (use inv sz same' in \<open>auto simp: A_def simp del: repaired_simps\<close>)
    then show "moves_to base (pre @ [(T, True)]) (pre @ [(T, False)]) ?r (repaired base (pre @ [(T, False)]) s')"
      by (auto intro: moves_toI simp del: repaired_simps)
  qed
qed

lemma free_grown:
  assumes inv: "da_inv base (pre @ [(T, True)]) (repaired base (pre @ [(T, True)]) s)"
  shows "returns (free_block (of_nat (base + 4 + heap_len pre + 4)) s) (\<lambda>s'.
    moves_to base (pre @ [(T, True)]) (coalesce pre T []) (repaired base (pre @ [(T, True)]) s)
      (repaired base (coalesce pre T []) s'))"
proof (cases "ends_allocated pre")
  case True
  with free_grown_isolated [OF inv] show ?thesis by (simp add: coalesce_cases starts_allocated_def)
next
  case False
  then obtain ps k where pre: "pre = ps @ [(k, False)]" by (auto simp: not_ends_allocated)
  have co: "coalesce pre T [] = ps @ [(k + T, False)]" by (simp add: pre coalesce_cases starts_allocated_def)
  let ?va = "of_nat (base + 4 + heap_len pre + 4) :: u32" and ?r = "repaired base (pre @ [(T, True)]) s"
  have "free_block ?va s = free_block ?va ?r" using free_grown_merge [of base ps k T s] inv pre by simp
  moreover have "returns (free_block ?va ?r) (moves_to base (pre @ [(T, True)]) (coalesce pre T []) ?r)"
    using free_block_refines [OF inv] .
  moreover have "repaired base (coalesce pre T []) s' = s'" if "moves_to base bs (coalesce pre T []) s1 s'" for bs s1 and s' :: "'a da"
    using that repaired_id [of base ps "(k + T, False)" s'] by (simp add: co moves_to_def)
  ultimately show ?thesis by (auto elim!: returns_mono)
qed

end
