(* ===== verification/FOS_AllocExt.thy ===== *)
theory FOS_AllocExt
  imports FOS_AllocGrow
begin

text \<open>
  Allocation when no free block is large enough, against the contract of the heap's provider
  of pages: the kernel's \<^verbatim>\<open>sbrk\<close> and the system call \<^verbatim>\<open>sys_sbrk\<close> keep it.
\<close>

section \<open>The contract of sbrk\<close>

text \<open>
  The provider refuses a request exactly when \<open>refused\<close> holds of its state, and otherwise hands out the
  pages behind the break. Requests of \<open>max_pages\<close> or more pages are not covered: their size in bytes may
  wrap around at the break.
\<close>

locale sbrk_provider =
  fixes sbrk :: "'w sbrk_fun" and brk :: "'w \<Rightarrow> nat" and ok :: "'w \<Rightarrow> bool" and refused :: "'w \<Rightarrow> nat \<Rightarrow> bool"
    and max_pages :: nat
  assumes max_pages: "1 < max_pages" "max_pages \<le> 1048576"
    and sbrk_zero: "ok w \<Longrightarrow> returns (sbrk 0 m w) (\<lambda>(a, m', w'). a = of_nat (brk w) \<and> m' = m \<and> ok w' \<and> brk w' = brk w)"
    and sbrk_pages: "ok w \<Longrightarrow> 0 < p \<Longrightarrow> p < max_pages \<Longrightarrow> returns (sbrk (of_nat p) m w) (\<lambda>(a, m', w'). ok w' \<and>
      (if refused w p then a = - 1 \<and> m' = m \<and> brk w' = brk w
       else a = of_nat (brk w) \<and> brk w' = brk w + p * 4096 \<and> brk w' < 4294967296 \<and>
         same_on (- {brk w..<brk w'}) m m'))"

definition heap_state :: "('w \<Rightarrow> nat) \<Rightarrow> ('w \<Rightarrow> bool) \<Rightarrow> nat \<Rightarrow> block list \<Rightarrow> 'w da \<Rightarrow> bool" where
  "heap_state brk ok base bs s \<longleftrightarrow>
     da_inv base bs s \<and> ok (da_world s) \<and> brk (da_world s) = base + 8 + heap_len bs"

definition pages :: "nat \<Rightarrow> nat" where
  "pages n = (n + 4095) div 4096"

lemma pages_bounds: "0 < n \<Longrightarrow> n \<le> pages n * 4096" "0 < n \<Longrightarrow> 0 < pages n" "pages n * 4096 < n + 4096"
  unfolding pages_def by linarith+

lemma grow_heap_code:
  assumes "0 < n" "n \<le> 4294963200"
  shows "grow_heap sbrk (of_nat n) s = do {
     (addr, s1) \<leftarrow> call_sbrk sbrk (of_nat (pages n)) s;
     if addr = - 1 then Some (False, s1)
     else do {
       let T = pages n * 4096;
       let m1 = store32 (addr - 4) (of_nat T OR 1) (da_mem s1);
       let m2 = store32 (addr - 4 + of_nat T - 8) (of_nat T OR 1) m1;
       let m3 = store32 (addr - 4 + of_nat T) 1 m2;
       s2 \<leftarrow> free_block addr (s1\<lparr>da_mem := m3\<rparr>);
       Some (True, s2) } }"
proof -
  have n: "unat (of_nat n :: u32) = n" using assms by (simp add: unat_of_nat_u32)
  have "unat (ROUNDUP (of_nat n) 4096) = pages n * 4096"
    using assms by (simp add: unat_ROUNDUP n pages_def)
  then have up: "ROUNDUP (of_nat n) 4096 = of_nat (pages n * 4096)" by (metis word_unat_eq_iff unat_of_nat_u32 unat_u32_bound)
  have "pages n * 4096 < 4294967296" using pages_bounds(3) [of n] assms by linarith
  then have div: "(of_nat (pages n * 4096) :: u32) div 4096 = of_nat (pages n)"
    using of_nat_u32_div [of "pages n * 4096" 4096] by simp
  have mul: "(of_nat (pages n) :: u32) * 4096 = of_nat (pages n * 4096)" by simp
  show ?thesis
    unfolding grow_heap_def up Let_def div mul by (simp cong: if_cong)
qed

lemma heap_len_coalesce: "heap_len (coalesce pre n post) = heap_len pre + n + heap_len post"
  by (cases "ends_allocated pre"; cases "starts_allocated post")
    (auto simp: coalesce_cases not_ends_allocated not_starts_allocated)

lemma da_set_swap: "s\<lparr>da_world := w, da_mem := m\<rparr> = s\<lparr>da_mem := m, da_world := w\<rparr>"
  by simp

lemma minus_one_u32: "(- 1 :: u32) = 4294967295"
  by simp

text \<open>The state after growing: in order up to the footer of the last block.\<close>

definition grown :: "nat \<Rightarrow> block list \<Rightarrow> block list \<Rightarrow> 'w da \<Rightarrow> 'w da \<Rightarrow> bool" where
  "grown base bs bs' s s' \<longleftrightarrow> da_inv base bs' (repaired base bs' s') \<and>
     same_on (kept base bs \<inter> kept base bs') (da_mem s) (da_mem s')"

lemma payload_coalesce_end:
  assumes "well_sized bs"
  shows "payload a (coalesce bs n []) \<subseteq> {..<a + heap_len bs}"
proof (cases "ends_allocated bs")
  case True
  then show ?thesis
    using payload_bounds [OF assms, of a] by (auto simp: coalesce_cases starts_allocated_def)
next
  case False
  then obtain ps k where "bs = ps @ [(k, False)]" by (auto simp: not_ends_allocated)
  with assms payload_bounds [of ps a] show ?thesis by (auto simp: coalesce_cases starts_allocated_def)
qed

lemma same_on_sym: "same_on S m m' \<Longrightarrow> same_on S m' m"
  by (simp add: same_on_def)

lemma grown_scannable:
  assumes "da_inv base (pre @ [(N, False)]) (repaired base (pre @ [(N, False)]) s)"
  shows "scannable (base + 4) (pre @ [(N, False)]) s"
proof -
  let ?bs = "pre @ [(N, False)]"
  note sz = da_inv_sizes [OF assms, simplified]
  have F: "base + 4 + heap_len ?bs - 4 = base + heap_len ?bs" by simp
  have "headers_at (da_mem (repaired base ?bs s)) (base + 4) ?bs"
    using da_inv_scannable [OF assms] by (simp add: scannable_def)
  then have hdr: "headers_at (da_mem s) (base + 4) ?bs"
    using headers_at_last [of pre "(N, False)" "base + 4" _ "da_mem s"] sz unfolding F by (simp add: with_footer_def)
  have "same_on (links (base + 4) ?bs) (da_mem s) (with_footer base ?bs (da_mem s))"
    unfolding with_footer_def
    by (rule same_on_store32) (use sz links_bounds [of pre "base + 4"] in auto)
  then have "dll mem_links (da_mem s) (freeBlocksList s) (free_addrs (base + 4) ?bs)"
    using assms dll_links_cong [of "base + 4" ?bs "da_mem s" "with_footer base ?bs (da_mem s)"]
    by (auto simp: da_inv_def)
  with hdr show ?thesis using assms by (simp add: scannable_def da_inv_def)
qed

lemma take_grown:
  assumes "da_inv base (pre @ [(N, False)]) (repaired base (pre @ [(N, False)]) s)" and "even n" "n + 24 \<le> N"
  shows "take_block (of_nat n) (of_nat (N - (n + 8))) (of_nat (base + 4 + heap_len pre + 4)) s =
    take_block (of_nat n) (of_nat (N - (n + 8))) (of_nat (base + 4 + heap_len pre + 4)) (repaired base (pre @ [(N, False)]) s)"
proof -
  define A where "A = base + 4 + heap_len pre"
  let ?r = "repaired base (pre @ [(N, False)]) s"
  note sz = da_inv_sizes [OF assms(1), simplified]
  have AN: "A + N < 4294967296" using sz by (simp add: A_def)
  have "da_mem ?r = store32 (of_nat (A + N - 4)) (word_of (N, False)) (da_mem s)"
    by (simp add: with_footer_def A_def add.assoc)
  then have m: "split_mem A n N (da_mem ?r) = split_mem A n N (da_mem s)"
    using split_mem_footer assms(3) AN by (simp del: repaired_simps)
  have w: "ld (da_mem ?r) A = word_of (N, False)" "ld (da_mem s) A = word_of (N, False)"
    using da_inv_scannable [OF assms(1)] grown_scannable [OF assms(1)] by (simp_all add: scannable_def A_def)
  show ?thesis
    unfolding A_def [symmetric] take_block_split [OF w(1) assms(2,3) AN] take_block_split [OF w(2) assms(2,3) AN] m
      repaired_set ..
qed

lemma kept_place: "n + 8 \<le> N \<Longrightarrow> kept base (pre @ (N, False) # post) \<subseteq> kept base (pre @ place n N @ post)"
  by (auto simp: kept_def heap_len_place place_def)

lemma kept_coalesce_end: "kept base (coalesce bs T []) = kept base (bs @ [(T, False)])"
  by (cases "ends_allocated bs")
    (auto simp: kept_def coalesce_cases starts_allocated_def not_ends_allocated)

lemma kept_extend: "kept base (bs @ [(T, False)]) \<subseteq> kept base bs"
  by (auto simp: kept_def)

lemma request_id: "even n \<Longrightarrow> 8 \<le> n \<Longrightarrow> request n = n"
  by (simp add: request_def)

text \<open>Whatever the choice was before, after growing the new last block takes the request.\<close>

lemma coalesce_last:
  assumes "\<forall>b \<in> set bs. \<not> fits_in n b"
  obtains pre N where "coalesce bs T [] = pre @ [(N, False)]" "T \<le> N" "\<forall>b \<in> set pre. \<not> fits_in n b"
proof (cases "ends_allocated bs")
  case True
  with assms that [of bs T] show ?thesis by (simp add: coalesce_cases starts_allocated_def)
next
  case False
  then obtain ps k where "bs = ps @ [(k, False)]" by (auto simp: not_ends_allocated)
  with assms that [of ps "k + T"] show ?thesis by (simp add: coalesce_cases starts_allocated_def)
qed

context sbrk_provider begin

lemma sbrk_cases:
  assumes "ok (da_world s)" "0 < p" "p < max_pages"
  obtains (fail) w where "call_sbrk sbrk (of_nat p) s = Some (- 1, s\<lparr>da_world := w\<rparr>)"
      "ok w" "brk w = brk (da_world s)" "refused (da_world s) p"
  | (grow) m w where "call_sbrk sbrk (of_nat p) s = Some (of_nat (brk (da_world s)), s\<lparr>da_mem := m, da_world := w\<rparr>)"
      "ok w" "brk w = brk (da_world s) + p * 4096" "brk w < 4294967296"
      "same_on (- {brk (da_world s)..<brk w}) (da_mem s) m" "\<not> refused (da_world s) p"
proof -
  from sbrk_pages [OF assms, of "da_mem s"] obtain a m w where
    r: "sbrk (of_nat p) (da_mem s) (da_world s) = Some (a, m, w)" "ok w"
      "if refused (da_world s) p then a = - 1 \<and> m = da_mem s \<and> brk w = brk (da_world s)
       else a = of_nat (brk (da_world s)) \<and> brk w = brk (da_world s) + p * 4096 \<and> brk w < 4294967296 \<and>
         same_on (- {brk (da_world s)..<brk w}) (da_mem s) m"
    by (auto elim!: returnsE simp del: split_paired_Ex)
  then show ?thesis using that by (cases "refused (da_world s) p") (auto simp: call_sbrk_def)
qed

lemma grow_heap_spec:
  assumes hs: "heap_state brk ok base bs s" and n: "0 < n" "n \<le> 4294963200" and few: "pages n < max_pages"
  shows "returns (grow_heap sbrk (of_nat n) s) (\<lambda>(b, s'). ok (da_world s') \<and>
    (if \<not> refused (da_world s) (pages n) then b \<and> grown base bs (coalesce bs (pages n * 4096) []) s s' \<and>
        brk (da_world s') = base + 8 + heap_len bs + pages n * 4096
     else \<not> b \<and> heap_state brk ok base bs s' \<and> da_mem s' = da_mem s))"
proof -
  let ?T = "pages n * 4096"
  have p: "0 < pages n" "pages n < max_pages" using pages_bounds(2) [OF n(1)] few by simp_all
  have T: "even ?T" "16 \<le> ?T" using p by auto
  define A where "A = base + 4 + heap_len bs"
  have inv: "da_inv base bs s" and ok: "ok (da_world s)" and b: "brk (da_world s) = A + 4"
    using hs by (auto simp: heap_state_def A_def)
  from ok p show ?thesis
  proof (cases rule: sbrk_cases)
    case (fail w)
    then show ?thesis
      using hs by (simp add: grow_heap_code [OF n] heap_state_def da_inv_def)
  next
    case (grow m w)
    let ?s = "s\<lparr>da_mem := grown_mem A ?T m, da_world := w\<rparr>"
    let ?l = "bs @ [(?T, True)]"
    have AT: "A + 4 + ?T < 4294967296" using grow b by simp
    have "of_nat (A + 4) \<noteq> (- 1 :: u32)"
      using AT T of_nat_u32_eq_iff [of "A + 4" 4294967295] by (simp only: minus_one_u32) simp
    moreover have addr: "(of_nat (A + 4) :: u32) - 4 = of_nat A"
      "(of_nat A :: u32) + of_nat ?T - 8 = of_nat (A + ?T - 8)" "(of_nat A :: u32) + of_nat ?T = of_nat (A + ?T)"
      using T by (simp_all add: of_nat_add of_nat_diff)
    moreover have "(of_nat ?T :: u32) OR 1 = word_of (?T, True)" using AT T by (intro of_nat_or_1) auto
    ultimately have step: "grow_heap sbrk (of_nat n) s = do { s2 \<leftarrow> free_block (of_nat (A + 4)) ?s; Some (True, s2) }"
      using grow(1) b by (simp add: grow_heap_code [OF n] Let_def grown_mem_def da_set_swap)
    have same: "same_on (- {A + 4..<A + 4 + ?T}) (da_mem s) m" using grow(3,5) b by simp
    have rinv: "da_inv base ?l (repaired base ?l ?s)"
      using grown_inv(1) [OF inv A_def T AT same, of w] by (simp add: repaired_def da_set_swap)
    note free = free_grown [OF rinv, folded A_def]
    show ?thesis
      unfolding step returns_bind
    proof (rule returns_mono [OF free])
      fix s' let ?bs' = "coalesce bs ?T []"
      assume mv: "moves_to base ?l ?bs' (repaired base ?l ?s) (repaired base ?bs' s')"
      have len: "heap_len ?bs' = heap_len bs + ?T" by (simp add: heap_len_coalesce)
      have ws: "well_sized bs" using inv by (simp add: da_inv_def)
      have kl: "kept base bs \<inter> kept base ?bs' \<subseteq> kept base ?l \<inter> kept base ?bs'"
        using T by (auto simp: kept_def len dest!: payload_coalesce_end [OF ws, THEN subsetD])
      have "same_on (kept base bs \<inter> kept base ?bs') (da_mem s) (da_mem s')"
      proof -
        let ?K = "kept base bs \<inter> kept base ?bs'"
        have K: "?K \<subseteq> - {A..<A + 4 + ?T}"
          using T by (auto simp: kept_def len A_def dest!: payload_coalesce_end [OF ws, THEN subsetD])
        have foot: "same_on ?K x (with_footer base bs'' x)" if "base + heap_len bs'' = A + ?T - 4" for x bs''
          unfolding with_footer_def that by (rule same_on_store32) (use AT T K in auto)
        have "same_on ?K (da_mem s) (grown_mem A ?T m)"
          by (rule same_on_mono [OF grown_inv(2) [OF inv A_def T AT same] K])
        then have "same_on ?K (da_mem s) (with_footer base ?l (grown_mem A ?T m))"
          using foot [of ?l] by (auto simp: A_def elim: same_on_trans)
        moreover have "same_on ?K (with_footer base ?l (grown_mem A ?T m)) (with_footer base ?bs' (da_mem s'))"
          using mv by (intro same_on_mono [OF _ kl]) (simp add: moves_to_def)
        moreover have "same_on ?K (with_footer base ?bs' (da_mem s')) (da_mem s')"
          by (rule same_on_sym, rule foot) (simp add: len A_def)
        ultimately show ?thesis by (auto elim: same_on_trans)
      qed
      with mv show "returns (Some (True, s')) (\<lambda>(b, s'). ok (da_world s') \<and>
        (if \<not> refused (da_world s) (pages n) then b \<and> grown base bs ?bs' s s' \<and> brk (da_world s') = base + 8 + heap_len bs + ?T
         else \<not> b \<and> heap_state brk ok base bs s' \<and> da_mem s' = da_mem s))"
        using grow(2,3,6) b by (simp add: moves_to_def grown_def A_def)
    qed
  qed
qed

lemma alloc_FF_extends:
  assumes hs: "heap_state brk ok base bs s" and sz: "sz \<noteq> 0" "unat sz \<le> 2048"
    and none: "ff_alloc (request (unat sz)) bs = None"
  shows "returns (alloc_block_FF sbrk sz s) (\<lambda>(p, s').
    if refused (da_world s) 1 then p = NULL \<and> heap_state brk ok base bs s' \<and> da_mem s' = da_mem s
    else (\<exists>off bs'. ff_alloc (request (unat sz)) (coalesce bs 4096 []) = Some (off, bs') \<and> p = of_nat (base + 4 + off + 4) \<and>
      heap_state brk ok base bs' s' \<and> same_on (kept base (bs @ [(4096, False)])) (da_mem s) (da_mem s')))"
proof -
  define n where "n = request (unat sz)"
  have n: "even n" "8 \<le> n" "n \<le> 2048" 
    using request_facts [of "unat sz"] sz even_numeral [of "num.Bit0 num.One", where 'a = nat]
    by (auto simp: n_def request_def le_less)
  have pg1: "pages (n + 8) = 1" using n by (simp add: pages_def div_nat_eqI)
  then have pg: "pages (n + 8) * 4096 = 4096" by simp
  have miss: "\<forall>b \<in> set bs. \<not> fits_in n b" using none by (simp add: ff_alloc_None n_def)
  have inv: "da_inv base bs s" using hs by (simp add: heap_state_def)
  obtain pre N where co: "coalesce bs 4096 [] = pre @ [(N, False)]" "4096 \<le> N" "\<forall>b \<in> set pre. \<not> fits_in n b"
    using miss by (rule coalesce_last)
  have len: "heap_len pre + N = heap_len bs + 4096" using heap_len_coalesce [of bs 4096 "[]"] co by simp
  have code: "alloc_block_FF sbrk sz s = do {
      (ok, s1) \<leftarrow> grow_heap sbrk (of_nat (n + 8)) s;
      if ok then alloc_block_FF sbrk (of_nat n) s1 else Some (NULL, s1) }"
    using alloc_FF_miss [OF da_inv_scannable [OF inv] miss sz(1) _ n_def, of sbrk] sz(2) by (simp add: of_nat_add)
  show ?thesis
    unfolding code returns_bind n_def [symmetric]
  proof (rule returns_mono [OF grow_heap_spec [OF hs, of "n + 8", unfolded pg, unfolded pg1]])
    fix x assume x: "case x of (b, s') \<Rightarrow> ok (da_world s') \<and>
      (if \<not> refused (da_world s) 1 then b \<and> grown base bs (coalesce bs 4096 []) s s' \<and> brk (da_world s') = base + 8 + heap_len bs + 4096
       else \<not> b \<and> heap_state brk ok base bs s' \<and> da_mem s' = da_mem s)"
    obtain b s1 where bs1: "x = (b, s1)" by (cases x)
    show "returns (case x of (okk, s1) \<Rightarrow> if okk then alloc_block_FF sbrk (of_nat n) s1 else Some (NULL, s1)) (\<lambda>(p, s').
      if refused (da_world s) 1 then p = NULL \<and> heap_state brk ok base bs s' \<and> da_mem s' = da_mem s
      else (\<exists>off bs'. ff_alloc n (coalesce bs 4096 []) = Some (off, bs') \<and> p = of_nat (base + 4 + off + 4) \<and>
        heap_state brk ok base bs' s' \<and> same_on (kept base (bs @ [(4096, False)])) (da_mem s) (da_mem s')))"
    proof (cases "refused (da_world s) 1")
      case True
      with x show ?thesis by (simp add: bs1)
    next
      case False
      with x have True: b by (simp add: bs1)
      let ?bs' = "pre @ [(N, False)]" and ?r = "repaired base (pre @ [(N, False)]) s1"
      from x False have rinv: "da_inv base (pre @ (N, False) # []) ?r" and ok1: "ok (da_world s1)"
        and b1: "brk (da_world s1) = base + 8 + heap_len bs + 4096"
        and same: "same_on (kept base bs \<inter> kept base ?bs') (da_mem s) (da_mem s1)"
        by (simp_all add: bs1 grown_def co)
      have fit: "n + 8 \<le> N" "n + 24 \<le> N" "16 \<le> N" using co n by auto
      from take_block_refines [OF rinv n(1,2) fit(1)] obtain s2 where
        s2: "take_block (of_nat n) (of_nat (N - (n + 8))) (of_nat (base + 4 + heap_len pre + 4)) s1 = Some s2"
          "moves_to base ?bs' (pre @ place n N @ []) ?r s2"
        unfolding take_grown [OF rinv n(1) fit(2)] by (auto elim: returnsE)
      have un: "(of_nat n :: u32) \<noteq> 0" "unat (of_nat n :: u32) = n" using n by (simp_all add: unat_of_nat_u32 of_nat_u32_zero_iff)
      have "alloc_block_FF sbrk (of_nat n) s1 = Some (of_nat (base + 4 + heap_len pre + 4), s2)"
        using alloc_FF_hit [OF grown_scannable [OF rinv] co(3) fit(1) s2(1) un(1) _ _ fit(3), of sbrk] n un
        by (simp add: request_id)
      moreover have "ff_alloc n (coalesce bs 4096 []) = Some (heap_len pre, pre @ place n N @ [])"
        unfolding ff_alloc_Some co using co(3) fit by blast
      moreover have "heap_state brk ok base (pre @ place n N @ []) s2"
        using s2(2) ok1 b1 len fit by (simp add: heap_state_def moves_to_def heap_len_place)
      moreover have "same_on (kept base (bs @ [(4096, False)])) (da_mem s) (da_mem s2)"
      proof -
        let ?K = "kept base (bs @ [(4096, False)])"
        have K: "?K = kept base ?bs'" "?K \<subseteq> kept base bs"
          using kept_coalesce_end [of base bs 4096] kept_extend [of base bs 4096] co by simp_all
        have "same_on ?K (da_mem s) (da_mem s1)" by (rule same_on_mono [OF same]) (use K in auto)
        moreover have "same_on ?K (da_mem s1) (da_mem ?r)"
          unfolding K repaired_simps with_footer_def
          by (rule same_on_store32) (use da_inv_sizes [OF rinv] payload_bounds [of pre "base + 4"] in \<open>auto simp: kept_def\<close>)
        moreover have "same_on ?K (da_mem ?r) (da_mem s2)"
          using s2(2) kept_place [OF fit(1), of base pre "[]"]
          by (auto simp: moves_to_def K simp del: repaired_simps elim!: same_on_mono)
        ultimately show ?thesis by (auto elim: same_on_trans)
      qed
      ultimately show ?thesis using True False by (simp add: bs1)
    qed
  qed (use n pg max_pages(1) in simp_all)
qed

end

end
