(* ===== verification/FOS_AllocSpec.thy ===== *)
theory FOS_AllocSpec
  imports FOS_AllocExt
begin

text \<open>
  What the block allocator promises its clients, stated over the code's own routines: the heap
  after initialisation, first-fit placement, freeing, and that freeing undoes an allocation. A
  small heap made by the model's own initialisation shows that the hypotheses can hold.
\<close>

section \<open>A concrete heap\<close>

definition fresh_da :: "unit da" where
  "fresh_da = \<lparr>da_mem = (\<lambda>_. 0), freeBlocksList = \<lparr>lh_first = NULL, lh_last = NULL, lh_size = 0\<rparr>,
     is_initialized = False, da_world = ()\<rparr>"

definition no_sbrk :: "unit sbrk_fun" where
  "no_sbrk n m w = Some (- 1, m, w)"

definition small_heap :: "unit da" where
  "small_heap = the (initialize_dynamic_allocator 4096 4096 fresh_da)"

definition used_heap :: "unit da" where
  "used_heap = snd (the (alloc_block_FF no_sbrk 100 small_heap))"

lemma small_heap_inv: "da_inv 4096 [(4088, False)] small_heap"
  using initialize_refines [of 4096 4096 fresh_da] by (auto simp: small_heap_def elim!: returnsE)

lemma small_heap_choice: "ff_alloc (request 100) [(4088, False)] = Some (0, [(108, True), (3980, False)])"
  by (simp add: request_def fits_in_def place_def)

lemma used_heap_inv: "da_inv 4096 [(108, True), (3980, False)] used_heap"
  using alloc_block_FF_refines [OF small_heap_inv, of 100 0 "[(108, True), (3980, False)]" no_sbrk] small_heap_choice
  by (auto simp: used_heap_def moves_to_def elim!: returnsE)

section \<open>Reading a block's header\<close>

lemma block_header:
  assumes "da_inv base (pre @ b # post) s"
  shows "load32 (da_mem s) (of_nat (base + 4 + heap_len pre + 4) - 4) = word_of b"
proof -
  have "(of_nat (base + 4 + heap_len pre + 4) :: u32) - 4 = of_nat (base + 4 + heap_len pre)"
    by (simp add: of_nat_add)
  moreover have "ld (da_mem s) (base + 4 + heap_len pre) = word_of b"
    using assms by (simp add: da_inv_def heap_at_def)
  ultimately show ?thesis by simp
qed

lemma even_u32_masks:
  assumes "even (unat (x :: u32))"
  shows "x AND NOT 1 = x" "(x OR 1) AND NOT 1 = x" "NOT x AND 1 = 1" "NOT (x OR 1) AND 1 = 0"
proof -
  have b: "\<not> bit x 0" using assms by (simp add: even_unat_iff bit_0)
  show "x AND NOT 1 = x"
    by (intro bit_word_eqI) (use b in \<open>auto simp: bit_and_iff bit_not_iff bit_1_iff possible_bit_word intro: gr0I\<close>)
  show "(x OR 1) AND NOT 1 = x"
    by (intro bit_word_eqI) (use b in \<open>auto simp: bit_and_iff bit_or_iff bit_not_iff bit_1_iff possible_bit_word intro: gr0I\<close>)
  show "NOT x AND 1 = 1"
    by (intro bit_word_eqI) (use b in \<open>auto simp: bit_and_iff bit_or_iff bit_not_iff bit_1_iff possible_bit_word intro: gr0I\<close>)
  show "NOT (x OR 1) AND 1 = 0"
    by (intro bit_word_eqI) (auto simp: bit_and_iff bit_or_iff bit_not_iff bit_1_iff possible_bit_word)
qed

lemma word_of_and:
  assumes "even (fst b)" "fst b < 4294967296"
  shows "word_of b AND NOT 1 = of_nat (fst b)" "NOT (word_of b) AND 1 = (if snd b then 0 else 1)"
proof -
  have ev: "even (unat (of_nat (fst b) :: u32))"
    using assms by (simp add: unat_of_nat_u32)
  have w: "word_of b = (if snd b then of_nat (fst b) OR 1 else of_nat (fst b))"
    using u32_or_1_even [OF ev] by (simp add: word_of_def of_nat_add)
  show "word_of b AND NOT 1 = of_nat (fst b)" "NOT (word_of b) AND 1 = (if snd b then 0 else 1)"
    using even_u32_masks [OF ev] by (simp_all only: w if_split) simp_all
qed

lemma block_size_and_state:
  assumes "da_inv base (pre @ (n, a) # post) s"
  shows "get_block_size (of_nat (base + 4 + heap_len pre + 4)) (da_mem s) = of_nat n"
    and "is_free_block (of_nat (base + 4 + heap_len pre + 4)) (da_mem s) = (if a then 0 else 1)"
proof -
  have n: "even (fst (n, a))" "fst (n, a) < 4294967296" using assms by (auto simp: da_inv_def)
  show "get_block_size (of_nat (base + 4 + heap_len pre + 4)) (da_mem s) = of_nat n"
    unfolding get_block_size_def block_header [OF assms] using word_of_and(1) [OF n] by simp
  show "is_free_block (of_nat (base + 4 + heap_len pre + 4)) (da_mem s) = (if a then 0 else 1)"
    unfolding is_free_block_def block_header [OF assms] word_of_and(2) [OF n] by simp
qed

section \<open>Allocate, then free\<close>

lemma place_coalesce:
  assumes "no_free_neighbours (pre @ (N, False) # post)" "n + 8 \<le> N"
  shows "\<exists>k rest. place n N = (k, True) # rest \<and> coalesce pre k (rest @ post) = pre @ (N, False) # post"
proof -
  from assms have e: "ends_allocated pre" "starts_allocated post" by (simp_all add: no_free_neighbours_split)
  then show ?thesis
    using assms(2) by (auto simp: place_def coalesce_cases)
qed

section \<open>Properties\<close>

text \<open>Initialising the block allocator on any even-sized range of at least 24 bytes succeeds and
  leaves one free block spanning the range between the BEGIN and END markers, with the free list, the
  headers and the footers in order; no byte outside the range and no other state changes.\<close>

theorem initialize_dynamic_allocator_correct:
  assumes "even n" "24 \<le> n" "base + n < 4294967296"
  shows "\<exists>s'. initialize_dynamic_allocator (of_nat base) (of_nat n) s = Some s' \<and>
    da_inv base [(n - 8, False)] s' \<and> same_on (- {base..<base + n}) (da_mem s) (da_mem s') \<and>
    da_world s' = da_world s"
  using initialize_refines [OF assms, of s] by (auto simp: returns_iff)

lemma initialize_dynamic_allocator_correct_witness:
  "\<exists>s'. initialize_dynamic_allocator (of_nat 4096) (of_nat 4096) fresh_da = Some s' \<and>
    da_inv 4096 [(4096 - 8, False)] s' \<and> same_on (- {4096..<4096 + 4096}) (da_mem fresh_da) (da_mem s') \<and>
    da_world s' = da_world fresh_da"
  by (rule initialize_dynamic_allocator_correct) simp_all

text \<open>C1: First-fit allocation on a well-formed heap: when a free block large enough exists, the request
  is placed in the first one in address order (split when at least 16 bytes remain), the payload address
  is returned, the invariant holds for the new block list, and the bytes of all allocated payloads and of
  the memory outside the heap are unchanged.\<close>

theorem alloc_block_FF_first_fit:
  assumes "da_inv base bs s" and "sz \<noteq> 0" "unat sz < 4294967295"
    and "ff_alloc (request (unat sz)) bs = Some (off, bs')"
  shows "\<exists>s'. alloc_block_FF sbrk sz s = Some (of_nat (base + 4 + off + 4), s') \<and> da_inv base bs' s' \<and>
    same_on (kept base bs \<inter> kept base bs') (da_mem s) (da_mem s') \<and> da_world s' = da_world s"
  using alloc_block_FF_refines [OF assms, of sbrk] by (auto simp: returns_iff moves_to_def)

lemma alloc_block_FF_first_fit_witness:
  "\<exists>s'. alloc_block_FF no_sbrk 100 small_heap = Some (of_nat (4096 + 4 + 0 + 4), s') \<and>
    da_inv 4096 [(108, True), (3980, False)] s' \<and>
    same_on (kept 4096 [(4088, False)] \<inter> kept 4096 [(108, True), (3980, False)]) (da_mem small_heap) (da_mem s') \<and>
    da_world s' = da_world small_heap"
  by (rule alloc_block_FF_first_fit [OF small_heap_inv]) (simp_all add: small_heap_choice del: ff_alloc.simps)

text \<open>C2: Freeing any allocated block of a well-formed heap succeeds; the block is merged with the free
  blocks next to it, so that no two free blocks are adjacent, the free list stays sorted by address, and
  the payloads of the blocks that stay allocated are unchanged.\<close>

theorem free_block_coalesces:
  assumes "da_inv base (pre @ (n, True) # post) s"
  shows "\<exists>s'. free_block (of_nat (base + 4 + heap_len pre + 4)) s = Some s' \<and> da_inv base (coalesce pre n post) s' \<and>
    same_on (kept base (pre @ (n, True) # post) \<inter> kept base (coalesce pre n post)) (da_mem s) (da_mem s') \<and>
    da_world s' = da_world s"
  using free_block_refines [OF assms] by (auto simp: returns_iff moves_to_def)

lemma free_block_coalesces_witness:
  "\<exists>s'. free_block (of_nat (4096 + 4 + heap_len [] + 4)) used_heap = Some s' \<and>
    da_inv 4096 (coalesce [] 108 [(3980, False)]) s' \<and>
    same_on (kept 4096 ([] @ (108, True) # [(3980, False)]) \<inter> kept 4096 (coalesce [] 108 [(3980, False)]))
      (da_mem used_heap) (da_mem s') \<and> da_world s' = da_world used_heap"
  by (rule free_block_coalesces) (use used_heap_inv in simp)

text \<open>C3: Allocating a block and freeing it at once gives back the heap's block structure: the same
  blocks, the same free list, and the same contents of every other allocated block.\<close>

theorem alloc_free_roundtrip:
  assumes "da_inv base bs s" and "sz \<noteq> 0" "unat sz < 4294967295" and "ff_alloc (request (unat sz)) bs \<noteq> None"
  shows "returns (do { (p, s1) \<leftarrow> alloc_block_FF sbrk sz s; free_block p s1 })
    (\<lambda>s'. da_inv base bs s' \<and> same_on (kept base bs) (da_mem s) (da_mem s'))"
proof -
  let ?n = "request (unat sz)"
  from assms(4) obtain off bs' where ff: "ff_alloc ?n bs = Some (off, bs')" by auto
  then obtain pre N post where c: "bs = pre @ (N, False) # post" "?n + 8 \<le> N" "off = heap_len pre"
    "bs' = pre @ place ?n N @ post" by (auto simp: ff_alloc_Some)
  from assms(1) c have nf: "no_free_neighbours (pre @ (N, False) # post)" by (simp add: da_inv_def)
  from place_coalesce [OF nf c(2)] obtain k rest where
    k: "place ?n N = (k, True) # rest" "coalesce pre k (rest @ post) = bs" using c by auto
  from alloc_block_FF_refines [OF assms(1-3) ff, of sbrk] obtain s1 where
    s1: "alloc_block_FF sbrk sz s = Some (of_nat (base + 4 + off + 4), s1)" "moves_to base bs bs' s s1"
    by (auto simp: returns_iff)
  have bs': "bs' = pre @ (k, True) # (rest @ post)" using c k by simp
  have "da_inv base (pre @ (k, True) # (rest @ post)) s1" using s1(2) by (simp add: moves_to_def bs')
  from free_block_refines [OF this] obtain s2 where
    s2: "free_block (of_nat (base + 4 + off + 4)) s1 = Some s2" "moves_to base bs' bs s1 s2"
    unfolding k(2) c(3) bs' [symmetric] by (auto simp: returns_iff)
  have K: "kept base bs \<subseteq> kept base bs'" using kept_place [OF c(2), of base pre post] c by simp
  have "same_on (kept base bs) (da_mem s) (da_mem s2)"
    by (rule same_on_trans) (use s1(2) s2(2) K in \<open>auto simp: moves_to_def elim: same_on_mono\<close>)
  then show ?thesis using s1(1) s2 by (simp add: moves_to_def)
qed

lemma alloc_free_roundtrip_witness:
  "returns (do { (p, s1) \<leftarrow> alloc_block_FF no_sbrk 100 small_heap; free_block p s1 })
    (\<lambda>s'. da_inv 4096 [(4088, False)] s' \<and> same_on (kept 4096 [(4088, False)]) (da_mem small_heap) (da_mem s'))"
  by (rule alloc_free_roundtrip [OF small_heap_inv]) (simp_all add: small_heap_choice del: ff_alloc.simps)

text \<open>The header queries agree with the heap: at the payload address of any block,
  \<open>get_block_size\<close> gives its size and \<open>is_free_block\<close> tells whether it is free.\<close>

theorem block_queries_correct:
  assumes "da_inv base (pre @ (n, a) # post) s"
  shows "get_block_size (of_nat (base + 4 + heap_len pre + 4)) (da_mem s) = of_nat n \<and>
    is_free_block (of_nat (base + 4 + heap_len pre + 4)) (da_mem s) = (if a then 0 else 1)"
  using block_size_and_state [OF assms] by simp

lemma block_queries_correct_witness:
  "get_block_size (of_nat (4096 + 4 + heap_len [(108, True)] + 4)) (da_mem used_heap) = of_nat 3980 \<and>
    is_free_block (of_nat (4096 + 4 + heap_len [(108, True)] + 4)) (da_mem used_heap) = (if False then 0 else 1)"
  by (rule block_queries_correct [where post = "[]"]) (use used_heap_inv in simp)

end
