(* ===== verification/FOS_KernelHeap.thy ===== *)
theory FOS_KernelHeap
  imports FOS_PageMaps FOS_AllocSpec
begin

text \<open>
  The kernel's \<^verbatim>\<open>sbrk\<close> keeps the contract the block allocator relies on, so that the
  allocator's refinement holds for \<^verbatim>\<open>kmalloc\<close> and \<^verbatim>\<open>kfree\<close>.
\<close>

section \<open>Taking and dropping the frame lock\<close>

definition lock_free :: "kern \<Rightarrow> bool" where
  "lock_free k \<longleftrightarrow> lk_locked (mfllock k) = 0 \<and> cpu_ok (kcpu k) \<and> ncli (kcpu k) < 0x7FFFFFFE"

definition lock_taken :: "kern \<Rightarrow> kern" where
  "lock_taken k = k\<lparr>mfllock := (mfllock k)\<lparr>lk_locked := 1, lk_cpu := Some 0\<rparr>, kcpu := pushcli (kcpu k)\<rparr>"

definition lock_dropped :: "kern \<Rightarrow> kern \<Rightarrow> kern" where
  "lock_dropped k0 k = k\<lparr>mfllock := (mfllock k0)\<lparr>lk_cpu := None, lk_locked := 0\<rparr>, kcpu := peeked (kcpu k0)\<rparr>"

lemma cpu_ok_pushcli:
  assumes "cpu_ok c" "ncli c < 0x7FFFFFFE"
  shows "cpu_ok (pushcli c)" "ncli (pushcli c) \<noteq> 0"
proof -
  have "unat (ncli c) < 0x7FFFFFFE" using assms(2) by (simp add: word_less_nat_alt)
  then have "unat (ncli c + 1) = unat (ncli c) + 1" by (simp add: unat_word_ariths unat_u32_bound)
  then have n: "ncli c + 1 < 0x7FFFFFFF" "ncli c + 1 \<noteq> 0"
    using assms(2) by (auto simp: word_less_nat_alt unat_eq_0 word_unat_eq_iff)
  show "cpu_ok (pushcli c)" "ncli (pushcli c) \<noteq> 0"
    using n assms(1) pushcli_inside [OF assms(1)]
    by (auto simp: cpu_ok_alt pushcli_def cli_def Let_def FL_IF_test FL_IF_update)
qed

lemma lock_taken_eq:
  assumes "lock_free k"
  shows "acquire_mfllock k = Some (lock_taken k)" "lock_held (lock_taken k)"
  using assms cpu_ok_pushcli [of "kcpu k"]
  by (auto simp: lock_free_def acquire_mfllock_def acquire_spinlock_eq lock_taken_def lock_held_def)

lemma peeked_alt: "cpu_ok c \<Longrightarrow> (pushcli c)\<lparr>ncli := ncli c, eflags := eflags c\<rparr> = peeked c"
  by (cases c) (simp add: pushcli_def cli_def Let_def peeked_def)

lemma lock_dropped_eq:
  assumes "lock_free k0" "mfllock k = mfllock (lock_taken k0)" "kcpu k = kcpu (lock_taken k0)"
  shows "release_mfllock k = Some (lock_dropped k0 k)"
proof -
  have c: "cpu_ok (kcpu k0)" "nested (kcpu k) (kcpu k0)" "cpu_ok (kcpu k)"
    using assms cpu_ok_pushcli [of "kcpu k0"] by (simp_all add: lock_free_def lock_taken_def nested_pushcli)
  show ?thesis
    using release_spinlock_eq [OF c(2,3), of "mfllock k"] assms peeked_alt [OF c(1)]
    by (simp add: release_mfllock_def lock_taken_def lock_dropped_def)
qed

lemma lock_free_dropped: "lock_free k0 \<Longrightarrow> lock_free (lock_dropped k0 k)"
  by (simp add: lock_free_def lock_dropped_def)

lemma lock_moves [simp]:
  "words (lock_taken k) = words k" "words (lock_dropped k0 k) = words k"
  "frames (lock_taken k) = frames k" "frames (lock_dropped k0 k) = frames k"
  "free_frame_list (lock_taken k) = free_frame_list k" "free_frame_list (lock_dropped k0 k) = free_frame_list k"
  "ptr_page_directory (lock_taken k) = ptr_page_directory k" "ptr_page_directory (lock_dropped k0 k) = ptr_page_directory k"
  "number_of_frames (lock_taken k) = number_of_frames k" "number_of_frames (lock_dropped k0 k) = number_of_frames k"
  "frames_info (lock_taken k) = frames_info k" "frames_info (lock_dropped k0 k) = frames_info k"
  "BRK (lock_taken k) = BRK k" "BRK (lock_dropped k0 k) = BRK k"
  "HARD_LIMIT (lock_taken k) = HARD_LIMIT k" "HARD_LIMIT (lock_dropped k0 k) = HARD_LIMIT k"
  "kmem (lock_taken k) = kmem k" "kmem (lock_dropped k0 k) = kmem k"
  by (simp_all add: lock_taken_def lock_dropped_def)

lemma lock_moves_maps [simp]:
  "kheap_tables (lock_taken k) = kheap_tables k" "kheap_tables (lock_dropped k0 k) = kheap_tables k"
  "pte (lock_taken k) va = pte k va" "pte (lock_dropped k0 k) va = pte k va"
  "free_frames (lock_taken k) fs = free_frames k fs" "free_frames (lock_dropped k0 k) fs = free_frames k fs"
  "unmapped (lock_taken k) va n = unmapped k va n"
  by (simp_all add: kheap_tables_def pte_def table_def free_frames_def unmapped_def)

lemma map_new_frames_locked_spec:
  assumes "lock_free k" "kheap_tables k" "unmapped k va (unat n)" "free_frames k fs" "unat n \<le> length fs"
  shows "\<exists>k2. map_new_frames_locked perm va n k = Some (lock_dropped k k2) \<and>
    mapped (lock_taken k) fs (\<lambda>j. perm (1 + of_nat j)) va (unat n) k2"
proof -
  have "returns (map_new_frames perm 1 va (unat n) (lock_taken k))
      (mapped (lock_taken k) fs (\<lambda>j. perm (1 + of_nat j)) va (unat n))"
    using assms lock_taken_eq(2) [OF assms(1)] by (intro map_new_frames_spec) simp_all
  then obtain k2 where k2: "map_new_frames perm 1 va (unat n) (lock_taken k) = Some k2"
    "mapped (lock_taken k) fs (\<lambda>j. perm (1 + of_nat j)) va (unat n) k2" by (auto simp: returns_iff)
  have "release_mfllock k2 = Some (lock_dropped k k2)"
    using mapped_same(1,2) [OF k2(2)] by (intro lock_dropped_eq [OF assms(1)])
  then have "map_new_frames_locked perm va n k = Some (lock_dropped k k2)"
    using k2(1) lock_taken_eq(1) [OF assms(1)] by (simp add: map_new_frames_locked_def)
  with k2(2) show ?thesis by blast
qed

section \<open>sbrk\<close>

text \<open>
  The state \<^verbatim>\<open>sbrk\<close> needs. There are fewer free frames than pages above the break, which
  rules out that the sum of the break and the request wraps around \<open>2^32\<close>.
\<close>

definition kernel_ok :: "kern \<Rightarrow> bool" where
  "kernel_ok k \<longleftrightarrow> lock_free k \<and> kheap_tables k \<and> KERNEL_HEAP_START \<le> BRK k \<and>
     (\<exists>fs. free_frames k fs \<and> unat (BRK k) + length fs * 4096 < 4294967296) \<and>
     (\<forall>va. BRK k \<le> va \<longrightarrow> va < HARD_LIMIT k \<longrightarrow> pte k va AND PERM_PRESENT = 0)"

lemma sint_positive: "0 < p \<Longrightarrow> p < 1048576 \<Longrightarrow> \<not> sint (of_nat p :: u32) \<le> 0"
proof -
  assume p: "0 < p" "p < 1048576"
  have "(of_nat p :: u32) \<le> 0x7FFFFFFF" using p of_nat_u32_le_iff [of p "0x7FFFFFFF"] by simp
  then have "sint (of_nat p :: u32) = uint (of_nat p :: u32)" by (rule sint_small)
  also have "\<dots> = int p" using p by (simp add: uint_nat unat_of_nat_u32)
  finally show ?thesis using p by simp
qed

lemma unat_add_u32: "unat a + n < 4294967296 \<Longrightarrow> unat (a + of_nat n :: u32) = unat a + n"
proof -
  assume a: "unat a + n < 4294967296"
  have "a + of_nat n = of_nat (unat a + n)" by simp
  then show ?thesis using unat_of_nat_u32 [OF a] by (simp only:)
qed

lemma unat_last_u32:
  assumes "0 < n" "unat a + n < 4294967296"
  shows "unat (a + of_nat n - 1 :: u32) = unat a + n - 1"
proof -
  obtain m where m: "n = Suc m" using assms(1) by (cases n) auto
  have "a + of_nat n - 1 = a + of_nat m" by (simp add: m)
  then show ?thesis using unat_add_u32 [of a m] assms(2) by (simp add: m)
qed

lemma sbrk_unmapped:
  assumes ok: "kernel_ok k" and p: "0 < p" "unat (BRK k) + p * 4096 < 4294967296"
    and lim: "BRK k + of_nat (p * 4096) - 1 < HARD_LIMIT k"
  shows "unmapped k (BRK k) p"
  unfolding unmapped_def
proof (intro conjI allI impI)
  show "unat (BRK k) + p * 4096 \<le> 4294967296" using p by simp
  fix j assume j: "j < p"
  have u: "unat (page (BRK k) j) = unat (BRK k) + j * 4096" using j p by (intro unat_page) simp
  have "BRK k \<le> page (BRK k) j" by (simp add: word_le_nat_alt u)
  moreover have "page (BRK k) j < HARD_LIMIT k"
  proof -
    have "unat (page (BRK k) j) \<le> unat (BRK k + of_nat (p * 4096) - 1)"
      unfolding u using j p unat_last_u32 [of "p * 4096" "BRK k"] by linarith
    then show ?thesis using lim unfolding word_le_nat_alt [symmetric] by (rule order.strict_trans1)
  qed
  ultimately show "KERNEL_HEAP_START \<le> page (BRK k) j" "pte k (page (BRK k) j) AND PERM_PRESENT = 0"
    using ok unfolding kernel_ok_def by (blast intro: order.trans)+
qed

definition sbrk_done :: "kern \<Rightarrow> ptr list \<Rightarrow> nat \<Rightarrow> kern \<Rightarrow> bool" where
  "sbrk_done k fs p k' \<longleftrightarrow> (\<exists>k2. k' = (lock_dropped k k2)\<lparr>BRK := of_nat (unat (BRK k) + p * 4096)\<rparr> \<and>
     mapped (lock_taken k) fs (\<lambda>_. PERM_PRESENT OR PERM_WRITEABLE) (BRK k) p k2)"

lemma sbrk_spec:
  assumes ok: "kernel_ok k" and fs: "free_frames k fs" "unat (BRK k) + length fs * 4096 < 4294967296"
    and p: "0 < p" "p < 1048576"
  shows "returns (sbrk (of_nat p) k) (\<lambda>(a, k').
    a = - 1 \<and> k' = k \<and> (BRK k + of_nat (p * 4096) - 1 \<ge> HARD_LIMIT k \<or> length fs < p) \<or>
    a = BRK k \<and> p \<le> length fs \<and> BRK k + of_nat (p * 4096) - 1 < HARD_LIMIT k \<and> sbrk_done k fs p k')"
proof -
  have un: "unat (of_nat p :: u32) = p" using p by (simp add: unat_of_nat_u32)
  have mul: "of_nat p * PAGE_SIZE = of_nat (p * 4096)" by simp
  have sz: "lh_size (free_frame_list k) = of_nat (length fs)" using fs(1) by (simp add: free_frames_def dll_def)
  show ?thesis
  proof (cases "BRK k + of_nat (p * 4096) - 1 \<ge> HARD_LIMIT k \<or> length fs < p")
    case True
    have le: "lh_size (free_frame_list k) < of_nat p \<longleftrightarrow> length fs < p"
      using of_nat_u32_less_iff [of "length fs" p] fs(2) p by (simp add: sz)
    have "sbrk (of_nat p) k = Some (- 1, k)"
      using True unfolding sbrk_def Let_def mul le if_not_P [OF sint_positive [OF p]] 
      by (cases "BRK k + of_nat (p * 4096) - 1 \<ge> HARD_LIMIT k") (simp_all only: if_True if_False simp_thms)
    then show ?thesis using True by simp
  next
    case False
    then have lim: "BRK k + of_nat (p * 4096) - 1 < HARD_LIMIT k" and le: "p \<le> length fs" by auto
    have nw: "unat (BRK k) + p * 4096 < 4294967296" using fs(2) le by simp
    have "unmapped k (BRK k) (unat (of_nat p :: u32))" using sbrk_unmapped [OF ok p(1) nw lim] by (simp only: un)
    with map_new_frames_locked_spec [of k "BRK k" "of_nat p" fs "\<lambda>_. PERM_PRESENT OR PERM_WRITEABLE"] ok fs le
    obtain k2 where k2: "map_new_frames_locked (\<lambda>_. PERM_PRESENT OR PERM_WRITEABLE) (BRK k) (of_nat p) k = Some (lock_dropped k k2)"
      "mapped (lock_taken k) fs (\<lambda>_. PERM_PRESENT OR PERM_WRITEABLE) (BRK k) p k2"
      by (auto simp: kernel_ok_def un)
    have b: "BRK k2 = BRK k" using mapped_same(5) [OF k2(2)] by simp
    have ls: "\<not> lh_size (free_frame_list k) < of_nat p"
      using of_nat_u32_less_iff [of "length fs" p] fs(2) le p by (simp add: sz)
    have nl: "\<not> HARD_LIMIT k \<le> BRK k + of_nat p * PAGE_SIZE - 1" using lim unfolding mul by simp
    have "sbrk (of_nat p) k = Some (BRK k, (lock_dropped k k2)\<lparr>BRK := BRK k + of_nat p * PAGE_SIZE\<rparr>)"
      unfolding sbrk_def Let_def if_not_P [OF sint_positive [OF p]] if_not_P [OF ls] if_not_P [OF nl] k2(1)
      by (simp add: b)
    moreover have "BRK k + of_nat p * PAGE_SIZE = of_nat (unat (BRK k) + p * 4096)" by simp
    ultimately have "sbrk (of_nat p) k = Some (BRK k, (lock_dropped k k2)\<lparr>BRK := of_nat (unat (BRK k) + p * 4096)\<rparr>)"
      by (simp only:)
    then show ?thesis using k2(2) le lim unfolding sbrk_done_def returns_iff by blast
  qed
qed

lemma kernel_ok_kmem: "kernel_ok (k\<lparr>kmem := m\<rparr>) = kernel_ok k"
  "kernel_ok (k\<lparr>kfreeBlocksList := h\<rparr>) = kernel_ok k" "kernel_ok (k\<lparr>kda_initialized := b\<rparr>) = kernel_ok k"
  by (simp_all add: kernel_ok_def lock_free_def kheap_tables_def pte_def table_def free_frames_def)

text \<open>
  After mapping the pages from \<open>va\<close> on, the state is fit for \<^verbatim>\<open>sbrk\<close> with the break behind them.
\<close>

lemma mapped_ok:
  assumes ok: "kernel_ok (k\<lparr>BRK := va\<rparr>)" and fs: "free_frames k fs" "unat va + length fs * 4096 < 4294967296" "p \<le> length fs"
    and m: "mapped (lock_taken k) fs perm va p k2"
  shows "kernel_ok ((lock_dropped k k2)\<lparr>BRK := of_nat (unat va + p * 4096)\<rparr>)"
proof -
  define k' where "k' = (lock_dropped k k2)\<lparr>BRK := of_nat (unat va + p * 4096)\<rparr>"
  have nw: "unat va + p * 4096 < 4294967296" using fs by simp
  have b: "unat (BRK k') = unat va + p * 4096" unfolding k'_def using unat_of_nat_u32 [OF nw] by simp
  have same: "pte k' vb = pte k2 vb" "kheap_tables k' = kheap_tables k2" "free_frames k' gs = free_frames k2 gs"
    "HARD_LIMIT k' = HARD_LIMIT k" for vb gs
    using mapped_same [OF m]
    by (simp_all add: k'_def lock_dropped_def kheap_tables_def pte_def table_def free_frames_def)
  have pte_brk: "pte (k\<lparr>BRK := va\<rparr>) vb = pte k vb" for vb by (simp add: pte_def table_def)
  from ok have hs: "KERNEL_HEAP_START \<le> va" and absent: "\<And>vb. va \<le> vb \<Longrightarrow> vb < HARD_LIMIT k \<Longrightarrow> pte k vb AND PERM_PRESENT = 0"
    unfolding kernel_ok_def pte_brk by (simp_all)
  have p2: "pte k2 vb AND PERM_PRESENT = 0" if vb: "BRK k' \<le> vb" "vb < HARD_LIMIT k'" for vb
  proof -
    have le: "unat va + p * 4096 \<le> unat vb" using vb(1) unfolding word_le_nat_alt b .
    then have ge: "va \<le> vb" by (simp add: word_le_nat_alt)
    have "unat vb div 4096 \<noteq> unat va div 4096 + j" if "j < p" for j using le that by linarith
    then have "pte k2 vb = pte (lock_taken k) vb"
      using m ge hs unfolding mapped_def by (meson order.trans)
    then show ?thesis using absent [OF ge] vb(2) same(4) by simp
  qed
  have "kernel_ok k'"
    unfolding kernel_ok_def same
  proof (intro conjI exI [of _ "drop p fs"] allI impI)
    show "lock_free k'" using ok lock_free_dropped [of k k2] by (simp add: k'_def kernel_ok_def lock_free_def)
    show "kheap_tables k2" "free_frames k2 (drop p fs)" using m by (simp_all add: mapped_def)
    have "va \<le> BRK k'" by (simp add: word_le_nat_alt b)
    then show "KERNEL_HEAP_START \<le> BRK k'" using hs by (meson order.trans)
    show "unat (BRK k') + length (drop p fs) * 4096 < 4294967296" using fs b by simp
    show "pte k2 vb AND PERM_PRESENT = 0" if "BRK k' \<le> vb" "vb < HARD_LIMIT k" for vb
      using p2 that same(4) by simp
  qed
  then show ?thesis by (simp only: k'_def)
qed

lemma sbrk_done_ok:
  assumes ok: "kernel_ok k" and fs: "free_frames k fs" "unat (BRK k) + length fs * 4096 < 4294967296" "p \<le> length fs"
    and d: "sbrk_done k fs p k'"
  shows "kernel_ok k'" "unat (BRK k') = unat (BRK k) + p * 4096" "kmem k' = kmem k" "HARD_LIMIT k' = HARD_LIMIT k"
proof -
  from d obtain k2 where k': "k' = (lock_dropped k k2)\<lparr>BRK := of_nat (unat (BRK k) + p * 4096)\<rparr>"
    and m: "mapped (lock_taken k) fs (\<lambda>_. PERM_PRESENT OR PERM_WRITEABLE) (BRK k) p k2" by (auto simp: sbrk_done_def)
  have nw: "unat (BRK k) + p * 4096 < 4294967296" using fs by simp
  show "kernel_ok k'" unfolding k' by (rule mapped_ok [OF _ fs m]) (use ok in simp)
  show "unat (BRK k') = unat (BRK k) + p * 4096" unfolding k' using unat_of_nat_u32 [OF nw] by simp
  show "kmem k' = kmem k" "HARD_LIMIT k' = HARD_LIMIT k" using mapped_same [OF m] by (simp_all add: k')
qed

lemma sbrk_done_same:
  assumes "sbrk_done k fs p k'"
  shows "START_KHEAP_BLOCK_ALLOCATOR k' = START_KHEAP_BLOCK_ALLOCATOR k" "KHeapPlacementStrategy k' = KHeapPlacementStrategy k"
proof -
  from assms obtain k2 where k': "k' = (lock_dropped k k2)\<lparr>BRK := of_nat (unat (BRK k) + p * 4096)\<rparr>"
    and m: "mapped (lock_taken k) fs (\<lambda>_. PERM_PRESENT OR PERM_WRITEABLE) (BRK k) p k2" by (auto simp: sbrk_done_def)
  show "START_KHEAP_BLOCK_ALLOCATOR k' = START_KHEAP_BLOCK_ALLOCATOR k" "KHeapPlacementStrategy k' = KHeapPlacementStrategy k"
    using mapped_same(11,12) [OF m] by (simp_all add: k' lock_dropped_def lock_taken_def)
qed

section \<open>The contract holds\<close>

text \<open>The kernel's own part of the heap state: where the heap starts, and first fit as the strategy.\<close>

definition kheap_ok :: "nat \<Rightarrow> kern \<Rightarrow> bool" where
  "kheap_ok base k \<longleftrightarrow> kernel_ok k \<and> unat (START_KHEAP_BLOCK_ALLOCATOR k) = base \<and>
     KHeapPlacementStrategy k = KHP_PLACE_FIRSTFIT"

abbreviation kbrk :: "kern \<Rightarrow> nat" where
  "kbrk k \<equiv> unat (BRK k)"

lemma kheap_ok_kmem [simp]: "kheap_ok base (k\<lparr>kmem := m\<rparr>) = kheap_ok base k"
  "kheap_ok base (k\<lparr>kfreeBlocksList := h\<rparr>) = kheap_ok base k" "kheap_ok base (k\<lparr>kda_initialized := b\<rparr>) = kheap_ok base k"
  by (simp_all add: kheap_ok_def kernel_ok_kmem)

lemma kernel_sbrk_zero: "kernel_sbrk 0 m k = Some (of_nat (kbrk k), m, k)"
  by (simp add: kernel_sbrk_def sbrk_def)

text \<open>The hard limit or the free frames do not allow \<open>p\<close> more pages.\<close>

definition kernel_refuses :: "kern \<Rightarrow> nat \<Rightarrow> bool" where
  "kernel_refuses k p \<longleftrightarrow> BRK k + of_nat (p * 4096) - 1 \<ge> HARD_LIMIT k \<or> unat (lh_size (free_frame_list k)) < p"

lemma kernel_sbrk_pages:
  assumes ok: "kheap_ok base k" and p: "0 < p" "p < 1048576"
  shows "returns (kernel_sbrk (of_nat p) m k) (\<lambda>(a, m', k'). kheap_ok base k' \<and>
      (if kernel_refuses k p then a = - 1 \<and> m' = m \<and> kbrk k' = kbrk k
       else a = of_nat (kbrk k) \<and> kbrk k' = kbrk k + p * 4096 \<and> kbrk k' < 4294967296 \<and>
         same_on (- {kbrk k..<kbrk k'}) m m'))"
proof -
  let ?k = "k\<lparr>kmem := m\<rparr>"
  have ok': "kernel_ok ?k" using ok by (simp add: kernel_ok_kmem kheap_ok_def)
  then obtain fs where fs: "free_frames ?k fs" "kbrk ?k + length fs * 4096 < 4294967296"
    unfolding kernel_ok_def by blast
  from sbrk_spec [OF ok' fs p] obtain a k1 where
    r: "sbrk (of_nat p) ?k = Some (a, k1)" and
    c: "a = - 1 \<and> k1 = ?k \<and> (BRK ?k + of_nat (p * 4096) - 1 \<ge> HARD_LIMIT ?k \<or> length fs < p) \<or>
      a = BRK ?k \<and> p \<le> length fs \<and> BRK ?k + of_nat (p * 4096) - 1 < HARD_LIMIT ?k \<and> sbrk_done ?k fs p k1"
    unfolding returns_iff case_prod_unfold by auto
  have "unat (lh_size (free_frame_list k)) = length fs"
    using fs by (simp add: free_frames_def dll_def unat_of_nat_u32)
  then have ref: "kernel_refuses k p \<longleftrightarrow> BRK ?k + of_nat (p * 4096) - 1 \<ge> HARD_LIMIT ?k \<or> length fs < p"
    unfolding kernel_refuses_def by (simp del: of_nat_mult)
  have code: "kernel_sbrk (of_nat p) m k = Some (a, kmem k1, k1\<lparr>kmem := kmem k\<rparr>)"
    by (simp add: kernel_sbrk_def r)
  from c show ?thesis
  proof (rule disjE)
    assume "a = - 1 \<and> k1 = ?k \<and> (BRK ?k + of_nat (p * 4096) - 1 \<ge> HARD_LIMIT ?k \<or> length fs < p)"
    then have "a = - 1" "k1 = ?k" "BRK ?k + of_nat (p * 4096) - 1 \<ge> HARD_LIMIT ?k \<or> length fs < p" by blast+
    then show ?thesis unfolding if_P [OF ref [THEN iffD2]] using ok ref by (simp add: code)
  next
    assume "a = BRK ?k \<and> p \<le> length fs \<and> BRK ?k + of_nat (p * 4096) - 1 < HARD_LIMIT ?k \<and> sbrk_done ?k fs p k1"
    then have a: "a = BRK ?k" and le: "p \<le> length fs" and lim: "BRK ?k + of_nat (p * 4096) - 1 < HARD_LIMIT ?k"
      and d: "sbrk_done ?k fs p k1" by blast+
    note o = sbrk_done_ok [OF ok' fs le d]
    have "kheap_ok base k1" using o(1) sbrk_done_same [OF d] ok by (simp add: kheap_ok_def)
    moreover have "kbrk k1 < 4294967296" by (rule unat_u32_bound)
    moreover have "\<not> kernel_refuses k p" unfolding ref using le lim by (simp del: of_nat_mult)
    ultimately show ?thesis using o a by (simp add: code)
  qed
qed

interpretation kernel: sbrk_provider kernel_sbrk kbrk "kheap_ok base" kernel_refuses 1048576 for base
  by unfold_locales (simp, simp, simp add: kernel_sbrk_zero, rule kernel_sbrk_pages)

end
