(* ===== verification/FOS_KHeapSpec.thy ===== *)
theory FOS_KHeapSpec
  imports FOS_KernelHeap
begin

text \<open>
  The kernel heap as its clients see it: initialisation, growing by \<^verbatim>\<open>sbrk\<close>, and
  \<^verbatim>\<open>kmalloc\<close> and \<^verbatim>\<open>kfree\<close> for block-sized requests as operations on a list of blocks.
\<close>

section \<open>The heap invariant\<close>

definition kheap_inv :: "nat \<Rightarrow> block list \<Rightarrow> kern \<Rightarrow> bool" where
  "kheap_inv base bs k \<longleftrightarrow> heap_state kbrk (kheap_ok base) base bs (to_da k)"

lemma of_da_simps [simp]:
  "kmem (of_da s) = da_mem s" "kfreeBlocksList (of_da s) = freeBlocksList s" "kda_initialized (of_da s) = is_initialized s"
  "BRK (of_da s) = BRK (da_world s)" "START_KHEAP_BLOCK_ALLOCATOR (of_da s) = START_KHEAP_BLOCK_ALLOCATOR (da_world s)"
  "KHeapPlacementStrategy (of_da s) = KHeapPlacementStrategy (da_world s)" "HARD_LIMIT (of_da s) = HARD_LIMIT (da_world s)"
  by (simp_all add: of_da_def)

lemma da_inv_of_da: "da_inv base bs (to_da (of_da s)) = da_inv base bs s"
  by (simp add: da_inv_def to_da_def)

lemma kheap_ok_of_da [simp]: "kheap_ok base (of_da s) = kheap_ok base (da_world s)"
  by (simp add: of_da_def)

lemma kheap_inv_of_da: "kheap_inv base bs (of_da s) = heap_state kbrk (kheap_ok base) base bs s"
  by (simp add: kheap_inv_def heap_state_def da_inv_of_da) (simp add: to_da_def)

lemma to_da_simps [simp]:
  "da_mem (to_da k) = kmem k" "da_world (to_da k) = k" "is_initialized (to_da k) = kda_initialized k"
  "freeBlocksList (to_da k) = kfreeBlocksList k"
  by (simp_all add: to_da_def)

lemma kheap_inv_flag: "kheap_inv base bs (k\<lparr>KH_page_allocator_flag := x\<rparr>) = kheap_inv base bs k"
  by (simp add: kheap_inv_def heap_state_def da_inv_def to_da_def kheap_ok_def kernel_ok_def lock_free_def kheap_tables_def
      pte_def table_def free_frames_def)

section \<open>Block-sized requests\<close>

lemma heap_state_moves:
  assumes "heap_state brk ok base bs s" "moves_to base bs bs' s s'" "heap_len bs' = heap_len bs"
  shows "heap_state brk ok base bs' s'"
  using assms by (simp add: heap_state_def moves_to_def)

lemma kmalloc_block_FF:
  "kheap_inv base bs k \<Longrightarrow> unat sz \<le> 2048 \<Longrightarrow>
     kmalloc sz k = do { (p, s) \<leftarrow> alloc_block_FF kernel_sbrk sz (to_da k); Some (p, of_da s) }"
  by (simp add: kmalloc_def kmalloc_block_def kheap_inv_def heap_state_def kheap_ok_def word_le_nat_alt)

lemma kmalloc_fits:
  assumes inv: "kheap_inv base bs k" and sz: "sz \<noteq> 0" "unat sz \<le> 2048"
    and ff: "ff_alloc (request (unat sz)) bs = Some (off, bs')"
  shows "returns (kmalloc sz k) (\<lambda>(p, k'). p = of_nat (base + 4 + off + 4) \<and> kheap_inv base bs' k' \<and>
    same_on (kept base bs \<inter> kept base bs') (kmem k) (kmem k'))"
proof -
  from ff obtain pre N post where c: "bs = pre @ (N, False) # post" "request (unat sz) + 8 \<le> N"
    "bs' = pre @ place (request (unat sz)) N @ post" by (auto simp: ff_alloc_Some)
  then have len: "heap_len bs' = heap_len bs" using heap_len_place [OF c(2)] by simp
  have "da_inv base bs (to_da k)" using inv by (simp add: kheap_inv_def heap_state_def)
  from alloc_block_FF_refines [OF this sz(1) _ ff, of kernel_sbrk] sz obtain s' where
    s': "alloc_block_FF kernel_sbrk sz (to_da k) = Some (of_nat (base + 4 + off + 4), s')" "moves_to base bs bs' (to_da k) s'"
    by (auto simp: returns_iff)
  have "heap_state kbrk (kheap_ok base) base bs' s'"
    using heap_state_moves [OF _ s'(2) len] inv by (simp add: kheap_inv_def)
  then show ?thesis
    using s' by (simp add: kmalloc_block_FF [OF inv sz(2)] kheap_inv_of_da moves_to_def)
qed

lemma kmalloc_grows:
  assumes inv: "kheap_inv base bs k" and sz: "sz \<noteq> 0" "unat sz \<le> 2048"
    and none: "ff_alloc (request (unat sz)) bs = None"
  shows "returns (kmalloc sz k) (\<lambda>(p, k').
    if kernel_refuses k 1 then p = NULL \<and> kheap_inv base bs k' \<and> kmem k' = kmem k
    else (\<exists>off bs'. ff_alloc (request (unat sz)) (coalesce bs 4096 []) = Some (off, bs') \<and> p = of_nat (base + 4 + off + 4) \<and>
      kheap_inv base bs' k' \<and> same_on (kept base (bs @ [(4096, False)])) (kmem k) (kmem k')))"
proof -
  have "heap_state kbrk (kheap_ok base) base bs (to_da k)" using inv by (simp add: kheap_inv_def)
  from kernel.alloc_FF_extends [OF this sz none] obtain p s' where
    r: "alloc_block_FF kernel_sbrk sz (to_da k) = Some (p, s')" and
    c: "if kernel_refuses (da_world (to_da k)) 1
      then p = NULL \<and> heap_state kbrk (kheap_ok base) base bs s' \<and> da_mem s' = da_mem (to_da k)
      else (\<exists>off bs'. ff_alloc (request (unat sz)) (coalesce bs 4096 []) = Some (off, bs') \<and> p = of_nat (base + 4 + off + 4) \<and>
        heap_state kbrk (kheap_ok base) base bs' s' \<and> same_on (kept base (bs @ [(4096, False)])) (da_mem (to_da k)) (da_mem s'))"
    unfolding returns_iff by (auto simp del: to_da_simps)
  have code: "kmalloc sz k = Some (p, of_da s')" by (simp add: kmalloc_block_FF [OF inv sz(2)] r)
  show ?thesis
    unfolding code returns_Some case_prod_conv kheap_inv_of_da of_da_simps by (rule c [unfolded to_da_simps])
qed

lemma kfree_block_heap:
  assumes inv: "kheap_inv base (pre @ (n, True) # post) k"
  shows "returns (kfree (of_nat (base + 4 + heap_len pre + 4)) k) (\<lambda>k'. kheap_inv base (coalesce pre n post) k' \<and>
    same_on (kept base (pre @ (n, True) # post) \<inter> kept base (coalesce pre n post)) (kmem k) (kmem k'))"
proof -
  define va where "va = base + 4 + heap_len pre + 4"
  have da: "da_inv base (pre @ (n, True) # post) (to_da k)" and brk: "kbrk k = base + 8 + heap_len (pre @ (n, True) # post)"
    and st: "unat (START_KHEAP_BLOCK_ALLOCATOR k) = base"
    using inv by (simp_all add: kheap_inv_def heap_state_def kheap_ok_def)
  have n: "16 \<le> n" "va < 4294967296" using da by (auto simp: da_inv_def va_def)
  have uva: "unat (of_nat va :: u32) = va" using n(2) by (rule unat_of_nat_u32)
  have region: "of_nat va \<ge> START_KHEAP_BLOCK_ALLOCATOR k" "of_nat va < BRK k"
    using n brk st unfolding word_le_nat_alt word_less_nat_alt uva by (auto simp: va_def)
  from free_block_refines [OF da] obtain s' where
    s': "free_block (of_nat va) (to_da k) = Some s'" "moves_to base (pre @ (n, True) # post) (coalesce pre n post) (to_da k) s'"
    by (auto simp: returns_iff va_def)
  have len: "heap_len (coalesce pre n post) = heap_len (pre @ (n, True) # post)" by (simp add: heap_len_coalesce)
  have "heap_state kbrk (kheap_ok base) base (coalesce pre n post) s'"
    using heap_state_moves [OF _ s'(2) len] inv by (simp add: kheap_inv_def)
  moreover have "kfree (of_nat va) k = Some (of_da s')"
    unfolding kfree_def if_P [OF conjI [OF region]] by (simp add: kfree_block_def s'(1))
  ultimately show ?thesis using s'(2) by (simp add: kheap_inv_of_da moves_to_def flip: va_def)
qed

section \<open>Initialisation\<close>

lemma ROUNDUP_pages:
  assumes "unat n + 4095 < 4294967296"
  shows "unat (ROUNDUP n PAGE_SIZE) = pages (unat n) * 4096" "unat (ROUNDUP n PAGE_SIZE div PAGE_SIZE) = pages (unat n)"
  using unat_ROUNDUP [of PAGE_SIZE n] assms by (simp_all add: pages_def unat_div)

lemma initialize_kheap_spec:
  assumes ok: "kernel_ok (k\<lparr>BRK := daStart, HARD_LIMIT := daLimit\<rparr>)"
    and fs: "free_frames k fs" "unat daStart + length fs * 4096 < 4294967296"
    and n: "0 < unat n" "pages (unat n) \<le> length fs" "unat daStart + pages (unat n) * 4096 \<le> unat daLimit"
    and ff: "KHeapPlacementStrategy k = KHP_PLACE_FIRSTFIT"
  shows "returns (initialize_kheap_dynamic_allocator daStart n daLimit k) (\<lambda>k'.
    kheap_inv (unat daStart) [(pages (unat n) * 4096 - 8, False)] k' \<and> HARD_LIMIT k' = daLimit \<and>
    KH_page_allocator_flag k' = 0 \<and>
    (\<exists>k2. mapped (lock_taken (k\<lparr>START_KHEAP_BLOCK_ALLOCATOR := daStart,
         BRK := daStart + ROUNDUP n PAGE_SIZE, HARD_LIMIT := daLimit\<rparr>)) fs
       (\<lambda>_. PERM_PRESENT OR PERM_WRITEABLE) daStart (pages (unat n)) k2 \<and>
       frames k' = frames k2 \<and> words k' = words k2 \<and> free_frame_list k' = free_frame_list k2 \<and>
       ptr_page_directory k' = ptr_page_directory k))"
proof -
  define p where "p = pages (unat n)"
  have p: "0 < p" "p \<le> length fs" "unat n \<le> p * 4096" using pages_bounds [of "unat n"] n by (simp_all add: p_def)
  have nw: "unat daStart + p * 4096 < 4294967296" using fs p by simp
  have "pages (unat n) * 4096 < unat n + 4096" by (rule pages_bounds)
  have nn: "unat n + 4095 < 4294967296"
  proof -
    have "KERNEL_HEAP_START \<le> daStart" using ok by (simp add: kernel_ok_def)
    then have "4127195136 \<le> unat daStart" by (simp add: word_le_nat_alt)
    then show ?thesis using nw p by linarith
  qed
  note ru = ROUNDUP_pages [OF nn, folded p_def]
  define i where "i = ROUNDUP n PAGE_SIZE"
  define k1 where "k1 = k\<lparr>START_KHEAP_BLOCK_ALLOCATOR := daStart, BRK := daStart + i, HARD_LIMIT := daLimit\<rparr>"
  have i: "unat i = p * 4096" "unat (i div PAGE_SIZE) = p" using ru by (simp_all add: i_def)
  have ii: "i = of_nat (p * 4096)" by (rule word_unat_eq_iff [THEN iffD2]) (use i nw in \<open>simp only: unat_of_nat_u32\<close>)
  have brk: "daStart + i = of_nat (unat daStart + p * 4096)" unfolding ii by simp
  have ub: "unat (daStart + i - 1) = unat daStart + p * 4096 - 1"
    unfolding ii using p nw by (intro unat_last_u32) simp_all
  have lim: "\<not> daStart + i - 1 \<ge> daLimit" using n p unfolding word_le_nat_alt ub p_def [symmetric] by linarith
  have sz: "\<not> lh_size (free_frame_list k1) < i div PAGE_SIZE"
  proof -
    have "lh_size (free_frame_list k1) = of_nat (length fs)" using fs(1) by (simp add: free_frames_def dll_def k1_def)
    then show ?thesis using p fs(2) i unfolding word_less_nat_alt by (simp add: unat_of_nat_u32)
  qed
  have kt: "kheap_tables k1" "lock_free k1" "free_frames k1 fs" "pte k1 va = pte k va" for va
    using ok fs(1) by (simp_all add: k1_def kernel_ok_def kheap_tables_def pte_def table_def lock_free_def free_frames_def)
  define kb where "kb = k\<lparr>BRK := daStart, HARD_LIMIT := daLimit\<rparr>"
  have "daStart + of_nat (p * 4096) - 1 < daLimit" using lim unfolding ii by simp
  then have "unmapped kb daStart p"
    using sbrk_unmapped [of kb p] ok p(1) nw by (simp add: kb_def)
  then have um: "unmapped k1 daStart (unat (i div PAGE_SIZE))"
    by (simp add: unmapped_def i k1_def kb_def pte_def table_def)
  from map_new_frames_locked_spec [OF kt(2,1) um kt(3)] p i obtain k2 where
    k2: "map_new_frames_locked (\<lambda>_. PERM_PRESENT OR PERM_WRITEABLE) daStart (i div PAGE_SIZE) k1 = Some (lock_dropped k1 k2)"
      "mapped (lock_taken k1) fs (\<lambda>_. PERM_PRESENT OR PERM_WRITEABLE) daStart p k2" by auto
  let ?k3 = "lock_dropped k1 k2"
  have s3: "BRK ?k3 = daStart + i" "HARD_LIMIT ?k3 = daLimit" "START_KHEAP_BLOCK_ALLOCATOR ?k3 = daStart"
    "KHeapPlacementStrategy ?k3 = KHP_PLACE_FIRSTFIT"
    using mapped_same [OF k2(2)] ff by (simp_all add: k1_def lock_dropped_def lock_taken_def)
  have "kernel_ok (?k3\<lparr>BRK := of_nat (unat daStart + p * 4096)\<rparr>)"
    by (rule mapped_ok [OF _ kt(3) fs(2) p(2) k2(2)])
      (use ok in \<open>simp add: k1_def kernel_ok_def kheap_tables_def pte_def table_def lock_free_def free_frames_def\<close>)
  then have ok3: "kernel_ok ?k3" using s3(1) brk by (metis kern.surjective kern.update_convs(14))
  have evn: "even (p * 4096)" "24 \<le> p * 4096" using p(1) by simp_all
  from initialize_refines [OF evn nw, of "to_da ?k3"] obtain s where
    s: "initialize_dynamic_allocator daStart i (to_da ?k3) = Some s" "da_inv (unat daStart) [(p * 4096 - 8, False)] s"
      "da_world s = ?k3"
    unfolding ii by (auto simp: returns_iff)
  have "initialize_kheap_dynamic_allocator daStart n daLimit k = Some ((of_da s)\<lparr>KH_page_allocator_flag := 0\<rparr>)"
    unfolding initialize_kheap_dynamic_allocator_def Let_def i_def [symmetric] k1_def [symmetric]
    using lim sz k2(1) s(1) by (simp add: k1_def)
  moreover have "heap_state kbrk (kheap_ok (unat daStart)) (unat daStart) [(p * 4096 - 8, False)] s"
    using s ok3 s3 p(1) nw brk unat_of_nat_u32 [OF nw] by (simp add: heap_state_def kheap_ok_def)
  then have "kheap_inv (unat daStart) [(p * 4096 - 8, False)] ((of_da s)\<lparr>KH_page_allocator_flag := 0\<rparr>)"
    by (simp add: kheap_inv_of_da kheap_inv_flag)
  moreover have "HARD_LIMIT ((of_da s)\<lparr>KH_page_allocator_flag := 0\<rparr>) = daLimit"
    "frames ((of_da s)\<lparr>KH_page_allocator_flag := 0\<rparr>) = frames k2"
    "words ((of_da s)\<lparr>KH_page_allocator_flag := 0\<rparr>) = words k2"
    "free_frame_list ((of_da s)\<lparr>KH_page_allocator_flag := 0\<rparr>) = free_frame_list k2"
    "ptr_page_directory ((of_da s)\<lparr>KH_page_allocator_flag := 0\<rparr>) = ptr_page_directory k"
    using s3(2) mapped_same(8) [OF k2(2)] by (simp_all add: of_da_def s(3) k1_def)
  ultimately show ?thesis
    unfolding p_def [symmetric] i_def [symmetric] k1_def [symmetric] returns_iff
    using k2(2) by (intro exI conjI) (assumption, simp_all)
qed

end
