(* ===== verification/FOS_Translate.thy ===== *)
theory FOS_Translate
  imports FOS_KHeapSpec
begin

text \<open>
  The two address translations of the kernel heap on mapped pages: each is the inverse of the
  other, page by page, for every page \<^verbatim>\<open>sbrk\<close> or the initialisation has mapped.
\<close>

section \<open>Frames and entries\<close>

definition valid_frame :: "kern \<Rightarrow> ptr \<Rightarrow> u32 \<Rightarrow> bool" where
  "valid_frame k f i \<longleftrightarrow> f = frame_at k i \<and> f \<noteq> NULL \<and> 0 < i \<and> i < number_of_frames k \<and> number_of_frames k \<le> 0x100000"

lemma valid_frame_bound: "valid_frame k f i \<Longrightarrow> 0 < unat i \<and> unat i < 1048576"
  by (auto simp: valid_frame_def word_less_nat_alt word_le_nat_alt)

lemma frame_number:
  assumes "valid_frame k f i"
  shows "to_frame_number f k = i"
proof -
  have u: "unat i < 1048576" using valid_frame_bound [OF assms] by simp
  then have m: "unat (32 * i) = 32 * unat i" by (simp add: unat_word_ariths)
  have "to_frame_number f k = 32 * i div 32"
    using assms by (simp add: to_frame_number_def valid_frame_def frame_at_def)
  also have "\<dots> = i" by (rule word_unat_eq_iff [THEN iffD2]) (simp add: unat_div m)
  finally show ?thesis .
qed

lemma unat_frame_address:
  assumes "valid_frame k f i"
  shows "unat (to_physical_address f k) = unat i * 4096"
  using valid_frame_bound [OF assms] by (simp add: to_physical_address_def frame_number [OF assms] push_bit_eq_mult unat_word_ariths)

lemma unat_EXTRACT: "unat (EXTRACT_ADDRESS x) = unat x - unat x mod 4096"
proof -
  have m: "(0xFFF :: u32) = mask 12" by (simp add: mask_numeral)
  have "(x AND NOT (mask 12)) + (x AND mask 12) = (x AND NOT (mask 12)) OR (x AND mask 12)"
    by (rule disjunctive_add_eq_or) (simp add: bit_eq_iff bit_and_iff bit_not_iff)
  also have "\<dots> = x" by (intro bit_word_eqI) (auto simp: bit_and_iff bit_or_iff bit_not_iff possible_bit_word)
  finally have "x AND NOT (mask 12) = x - (x AND mask 12)" by (simp add: eq_diff_eq)
  moreover have "unat (x AND mask 12) = unat x mod 4096" using unat_and_mask [of x 12] by simp
  moreover have "x AND mask 12 \<le> x" using \<open>unat (x AND mask 12) = _\<close> by (simp add: word_le_nat_alt)
  ultimately show ?thesis unfolding EXTRACT_ADDRESS_def m by (simp add: unat_sub)
qed

lemma unat_add_words: "unat a + unat b < 4294967296 \<Longrightarrow> unat (a + b :: u32) = unat a + unat b"
  using unat_add_u32 [of a "unat b"] by simp

lemma unat_PGOFF: "unat (PGOFF x) = unat x mod 4096"
  using unat_and_mask [of x 12] by (simp add: PGOFF_def mask_numeral)

text \<open>An entry whose permissions lie in the low 12 bits gives back its address.\<close>

lemma entry_address:
  assumes "unat a mod 4096 = 0" "perm AND 0xFFF = perm"
  shows "EXTRACT_ADDRESS (CONSTRUCT_ENTRY a perm) = a"
proof -
  have m: "(0xFFF :: u32) = mask 12" by (simp add: mask_numeral)
  have "a AND mask 12 = 0" using unat_and_mask [of a 12] assms(1) by (simp add: word_unat_eq_iff)
  moreover have "perm AND mask 12 = perm" using assms(2) by (simp only: m)
  ultimately have "\<not> (bit a n \<and> n < 12)" "bit perm n \<longrightarrow> n < 12" for n
    by (metis bit_and_iff bit_mask_iff bit_0_eq bot_apply bot_bool_def possible_bit_def bit_imp_possible_bit,
        metis bit_and_iff bit_mask_iff)
  then show ?thesis
    unfolding EXTRACT_ADDRESS_def CONSTRUCT_ENTRY_def m
    by (intro bit_word_eqI) (auto simp: bit_and_iff bit_or_iff bit_not_iff bit_mask_iff possible_bit_word)
qed

section \<open>Translating a mapped address\<close>

definition maps :: "kern \<Rightarrow> u32 \<Rightarrow> ptr \<Rightarrow> bool" where
  "maps k va f \<longleftrightarrow> KERNEL_HEAP_START \<le> va \<and> EXTRACT_ADDRESS (pte k va) = to_physical_address f k \<and>
     references (frames k f) \<noteq> 0 \<and> base_va_page (frames k f) = EXTRACT_ADDRESS va"

lemma physical_of_mapped:
  assumes "kheap_tables k" "maps k va f" "valid_frame k f i"
  shows "kheap_physical_address va k = Some (to_physical_address f k + PGOFF va)"
proof -
  have hs: "KERNEL_HEAP_START \<le> va" using assms(2) by (simp add: maps_def)
  have pos: "to_physical_address f k \<noteq> 0"
    using unat_frame_address [OF assms(3)] valid_frame_bound [OF assms(3)] by auto
  have "unat (PPN (to_physical_address f k)) = unat i" by (simp add: unat_PPN unat_frame_address [OF assms(3)])
  then have ppn: "PPN (to_physical_address f k) = i" by (simp add: word_unat_eq_iff)
  have tfi: "to_frame_info (to_physical_address f k) k = Some f"
    using assms(3) unfolding to_frame_info_def ppn valid_frame_def not_le [symmetric] by simp
  have e: "words k (table k va) (PTX va) AND NOT 0xFFF = to_physical_address f k"
    using assms(2) by (simp add: maps_def pte_def EXTRACT_ADDRESS_def)
  have gfi: "get_frame_info (ptr_page_directory k) va k = Some (f, table k va)"
    unfolding get_frame_info_def get_page_table_kheap [OF assms(1) hs]
    using kheap_tablesD(3) [OF assms(1) hs] e pos tfi by (simp add: EXTRACT_ADDRESS_def)
  have "to_frame_number f k * PAGE_SIZE = to_physical_address f k"
    unfolding frame_number [OF assms(3)]
    by (rule word_unat_eq_iff [THEN iffD2])
      (use valid_frame_bound [OF assms(3)] in \<open>simp add: unat_word_ariths unat_frame_address [OF assms(3)]\<close>)
  moreover have "f \<noteq> NULL" using assms(3) by (auto simp: valid_frame_def)
  ultimately show ?thesis
    by (simp add: kheap_physical_address_def get_page_table_kheap [OF assms(1) hs] gfi)
qed

lemma unat_translated:
  assumes "valid_frame k f i"
  shows "unat (to_physical_address f k + PGOFF va) = unat i * 4096 + unat va mod 4096"
proof -
  have "unat i * 4096 + unat va mod 4096 < 4294967296"
    using valid_frame_bound [OF assms] mod_less_divisor [of 4096 "unat va"] by linarith
  then show ?thesis
    using unat_add_words [of "to_physical_address f k" "PGOFF va"]
    by (simp add: unat_frame_address [OF assms] unat_PGOFF)
qed

lemma virtual_of_physical:
  assumes "maps k va f" "valid_frame k f i"
  shows "kheap_virtual_address (to_physical_address f k + PGOFF va) k = Some va"
proof -
  let ?pa = "to_physical_address f k + PGOFF va"
  note u = unat_translated [OF assms(2), of va]
  have "unat (PPN ?pa) = unat i" by (simp add: unat_PPN u)
  then have "PPN ?pa = i" by (simp add: word_unat_eq_iff)
  then have tfi: "to_frame_info ?pa k = Some f" using assms(2) unfolding to_frame_info_def valid_frame_def not_le [symmetric] by simp
  have fa: "to_frame_number f k * PAGE_SIZE = to_physical_address f k"
    unfolding frame_number [OF assms(2)]
    by (rule word_unat_eq_iff [THEN iffD2])
      (use valid_frame_bound [OF assms(2)] in \<open>simp add: unat_word_ariths unat_frame_address [OF assms(2)]\<close>)
  have "EXTRACT_ADDRESS va + PGOFF va = va"
  proof (rule word_unat_eq_iff [THEN iffD2])
    have "unat va - unat va mod 4096 + unat va mod 4096 = unat va" by (rule le_add_diff_inverse2) simp
    then show "unat (EXTRACT_ADDRESS va + PGOFF va) = unat va"
      using unat_add_words [of "EXTRACT_ADDRESS va" "PGOFF va"] unat_u32_bound [of va]
      by (simp only: unat_EXTRACT unat_PGOFF simp_thms)
  qed
  then show ?thesis
    using assms(1) by (simp add: kheap_virtual_address_def tfi fa maps_def)
qed

section \<open>Translating freshly mapped pages\<close>

lemma page_of:
  assumes "unat va mod 4096 = 0" "unat va \<le> unat vb"
  shows "EXTRACT_ADDRESS vb = page va ((unat vb - unat va) div 4096)"
proof (rule word_unat_eq_iff [THEN iffD2])
  let ?j = "(unat vb - unat va) div 4096"
  obtain c where c: "unat va = 4096 * c" using assms(1) by auto
  obtain d where d: "unat vb = 4096 * c + d" using assms(2) c by (metis le_add_diff_inverse)
  have u: "unat va + ?j * 4096 = unat vb - unat vb mod 4096"
    unfolding c d mod_mult_self4 add_diff_cancel_left' using div_mult_mod_eq [of d 4096] by linarith
  then have "unat va + ?j * 4096 < 4294967296" using unat_u32_bound [of vb] by linarith
  from unat_page [OF this] show "unat (EXTRACT_ADDRESS vb) = unat (page va ?j)" by (simp only: unat_EXTRACT u)
qed

lemma page_index:
  "unat va \<le> unat vb \<Longrightarrow> unat vb < unat va + n * 4096 \<Longrightarrow> (unat vb - unat va) div 4096 < n"
  by (rule less_mult_imp_div_less) linarith

lemma entry_perms: "((x AND PERM_AVAILABLE) OR (PERM_PRESENT OR PERM_WRITEABLE) OR PERM_PRESENT) AND 0xFFF =
    (x AND PERM_AVAILABLE) OR (PERM_PRESENT OR PERM_WRITEABLE) OR (PERM_PRESENT :: u32)"
  by (simp add: bit.conj_disj_distrib2 and.assoc)

lemma valid_frame_cong:
  "frames_info k' = frames_info k \<Longrightarrow> number_of_frames k' = number_of_frames k \<Longrightarrow> valid_frame k' f i = valid_frame k f i"
  by (simp add: valid_frame_def frame_at_def)

lemma to_physical_address_cong: "frames_info k' = frames_info k \<Longrightarrow> to_physical_address f k' = to_physical_address f k"
  by (simp add: to_physical_address_def to_frame_number_def)

lemma mapped_translates:
  assumes m: "mapped k fs (\<lambda>_. PERM_PRESENT OR PERM_WRITEABLE) va n k'" and al: "unat va mod 4096 = 0"
    and hs: "KERNEL_HEAP_START \<le> va"
    and len: "n \<le> length fs" and vf: "\<forall>f \<in> set fs. \<exists>i. valid_frame k f i"
    and vb: "unat va \<le> unat vb" "unat vb < unat va + n * 4096"
  defines "f \<equiv> fs ! ((unat vb - unat va) div 4096)"
  shows "kheap_physical_address vb k' = Some (to_physical_address f k + PGOFF vb)"
    "kheap_virtual_address (to_physical_address f k + PGOFF vb) k' = Some vb"
proof -
  define j where "j = (unat vb - unat va) div 4096"
  have j: "j < n" unfolding j_def by (rule page_index [OF vb])
  have f: "f = fs ! j" "f \<in> set fs" using j len by (simp_all add: f_def j_def)
  have pg: "EXTRACT_ADDRESS vb = page va j" unfolding j_def by (rule page_of [OF al vb(1)])
  obtain i where i0: "valid_frame k f i" using vf f(2) by blast
  note same = mapped_same [OF m]
  have i: "valid_frame k' f i" using i0 valid_frame_cong [OF same(3,7)] by simp
  note ph = to_physical_address_cong [OF same(3)]
  have mj: "pte k' (page va j) = new_entry k (fs ! j) (page va j) (PERM_PRESENT OR PERM_WRITEABLE)"
    "references (frames k' (fs ! j)) = 1" "base_va_page (frames k' (fs ! j)) = page va j" "kheap_tables k'"
    using m j by (simp_all add: mapped_def)
  have "unat (page va j) div 4096 = unat vb div 4096"
    unfolding pg [symmetric] unat_EXTRACT by (simp add: minus_mod_eq_mult_div)
  from same_page [OF this] have "pte k' vb = pte k' (page va j)" unfolding pte_def table_def by (simp only:)
  moreover have "EXTRACT_ADDRESS (new_entry k f (page va j) (PERM_PRESENT OR PERM_WRITEABLE)) = to_physical_address f k"
    unfolding new_entry_def by (rule entry_address) (use unat_frame_address [OF i0] entry_perms in simp_all)
  ultimately have mp: "maps k' vb f"
    using mj hs vb(1) f(1) pg by (simp add: maps_def ph word_le_nat_alt)
  show "kheap_physical_address vb k' = Some (to_physical_address f k + PGOFF vb)"
    using physical_of_mapped [OF mj(4) mp i] by (simp only: ph)
  show "kheap_virtual_address (to_physical_address f k + PGOFF vb) k' = Some vb"
    using virtual_of_physical [OF mp i] by (simp only: ph)
qed

section \<open>The pages sbrk maps\<close>

lemma kheap_virtual_address_cong:
  assumes "number_of_frames k' = number_of_frames k" "frames_info k' = frames_info k" "frames k' = frames k"
  shows "kheap_virtual_address pa k' = kheap_virtual_address pa k"
  by (simp add: kheap_virtual_address_def to_frame_info_def frame_at_def to_frame_number_def assms)

lemma get_page_table_cong:
  assumes "number_of_frames k' = number_of_frames k" "frames_info k' = frames_info k" "frames k' = frames k"
    "words k' = words k"
  shows "get_page_table dir va k' = get_page_table dir va k"
  by (simp add: get_page_table_def Let_def STATIC_KERNEL_VIRTUAL_ADDRESS_def assms kheap_virtual_address_cong [OF assms(1-3)])

lemma get_frame_info_cong:
  assumes "number_of_frames k' = number_of_frames k" "frames_info k' = frames_info k" "frames k' = frames k"
    "words k' = words k"
  shows "get_frame_info dir va k' = get_frame_info dir va k"
  by (simp add: get_frame_info_def Let_def case_prod_unfold to_frame_info_def frame_at_def assms get_page_table_cong [OF assms] cong: if_cong)

lemma kheap_physical_address_cong:
  assumes "number_of_frames k' = number_of_frames k" "frames_info k' = frames_info k" "frames k' = frames k"
    "words k' = words k" "ptr_page_directory k' = ptr_page_directory k"
  shows "kheap_physical_address va k' = kheap_physical_address va k"
  by (simp add: kheap_physical_address_def Let_def case_prod_unfold to_frame_number_def assms get_page_table_cong [OF assms(1-4)]
      get_frame_info_cong [OF assms(1-4)] cong: if_cong)

lemma sbrk_done_translates:
  assumes ok: "kernel_ok k" and fs: "free_frames k fs" and al: "unat (BRK k) mod 4096 = 0"
    and vf: "\<forall>f \<in> set fs. \<exists>i. valid_frame k f i" and len: "p \<le> length fs" and d: "sbrk_done k fs p k'"
    and va: "unat (BRK k) \<le> unat va" "unat va < unat (BRK k) + p * 4096"
  shows "kheap_physical_address va k' =
      Some (to_physical_address (fs ! ((unat va - unat (BRK k)) div 4096)) k + PGOFF va)"
    "kheap_virtual_address (to_physical_address (fs ! ((unat va - unat (BRK k)) div 4096)) k + PGOFF va) k' = Some va"
proof -
  from d obtain k2 where k': "k' = (lock_dropped k k2)\<lparr>BRK := of_nat (unat (BRK k) + p * 4096)\<rparr>"
    and m: "mapped (lock_taken k) fs (\<lambda>_. PERM_PRESENT OR PERM_WRITEABLE) (BRK k) p k2" by (auto simp: sbrk_done_def)
  have same: "number_of_frames k' = number_of_frames k2" "frames_info k' = frames_info k2" "frames k' = frames k2"
    "words k' = words k2" "ptr_page_directory k' = ptr_page_directory k2"
    by (simp_all add: k')
  have ph: "kheap_physical_address va k' = kheap_physical_address va k2" for va by (rule kheap_physical_address_cong [OF same])
  have vi: "kheap_virtual_address pa k' = kheap_virtual_address pa k2" for pa by (rule kheap_virtual_address_cong [OF same(1-3)])
  have hs: "KERNEL_HEAP_START \<le> BRK k" using ok by (simp add: kernel_ok_def)
  have vf': "\<forall>f \<in> set fs. \<exists>i. valid_frame (lock_taken k) f i"
    using vf valid_frame_cong [of "lock_taken k" k] by simp
  have tp: "to_physical_address f (lock_taken k) = to_physical_address f k" for f by (rule to_physical_address_cong) simp
  note t = mapped_translates [OF m al hs len vf' va, unfolded tp]
  show "kheap_physical_address va k' =
      Some (to_physical_address (fs ! ((unat va - unat (BRK k)) div 4096)) k + PGOFF va)"
    unfolding ph by (rule t)
  show "kheap_virtual_address (to_physical_address (fs ! ((unat va - unat (BRK k)) div 4096)) k + PGOFF va) k' = Some va"
    unfolding vi by (rule t)
qed

lemma sbrk_done_maps:
  assumes al: "unat (BRK k) mod 4096 = 0" and d: "sbrk_done k fs p k'"
  shows "free_frames k' (drop p fs)"
    "KERNEL_HEAP_START \<le> va \<Longrightarrow> unat va < unat (BRK k) \<or> unat (BRK k) + p * 4096 \<le> unat va \<Longrightarrow> pte k' va = pte k va"
proof -
  from d obtain k2 where k': "k' = (lock_dropped k k2)\<lparr>BRK := of_nat (unat (BRK k) + p * 4096)\<rparr>"
    and m: "mapped (lock_taken k) fs (\<lambda>_. PERM_PRESENT OR PERM_WRITEABLE) (BRK k) p k2" by (auto simp: sbrk_done_def)
  show "free_frames k' (drop p fs)" using m by (simp add: mapped_def free_frames_def k')
  have t: "pte k' va = pte k2 va" by (simp add: pte_def table_def k')
  show "pte k' va = pte k va"
    if hs: "KERNEL_HEAP_START \<le> va" and va: "unat va < unat (BRK k) \<or> unat (BRK k) + p * 4096 \<le> unat va"
  proof -
    obtain c where c: "unat (BRK k) = 4096 * c" using al by auto
    have "unat va div 4096 \<noteq> unat (BRK k) div 4096 + j" if j: "j < p" for j
    proof
      assume e: "unat va div 4096 = unat (BRK k) div 4096 + j"
      have "unat va = 4096 * (unat va div 4096) + unat va mod 4096" by simp
      then have v: "unat va = 4096 * c + j * 4096 + unat va mod 4096" unfolding e c by simp
      have "unat va mod 4096 < 4096" by simp
      moreover have "j * 4096 + 4096 \<le> p * 4096" using j by simp
      ultimately show False using va v unfolding c by linarith
    qed
    then have "pte k2 va = pte (lock_taken k) va" using m hs unfolding mapped_def by blast
    then show ?thesis by (simp add: t)
  qed
qed

end
