(* ===== verification/FOS_SchedInv.thy ===== *)
theory FOS_SchedInv
  imports FOS_Sched
begin

text \<open>
  The queues of processes as lists, one per queue name, and what the queue operations do to
  them: the process descriptors are shared by all queues, so every operation on one queue must
  be shown to leave the other queues alone.
\<close>

section \<open>All queues at once\<close>

datatype qname = New | Exited | Ready nat | Chan ptr

primrec head_of :: "kern \<Rightarrow> qname \<Rightarrow> list_head" where
  "head_of k New = env_new_queue k"
| "head_of k Exited = env_exit_queue k"
| "head_of k (Ready i) = env_ready_queues k i"
| "head_of k (Chan c) = channels k c"

primrec set_head :: "qname \<Rightarrow> list_head \<Rightarrow> kern \<Rightarrow> kern" where
  "set_head New h k = k\<lparr>env_new_queue := h\<rparr>"
| "set_head Exited h k = k\<lparr>env_exit_queue := h\<rparr>"
| "set_head (Ready i) h k = k\<lparr>env_ready_queues := (env_ready_queues k)(i := h)\<rparr>"
| "set_head (Chan c) h k = k\<lparr>channels := (channels k)(c := h)\<rparr>"

definition on_queue :: "qname \<Rightarrow> queue_op \<Rightarrow> kern \<Rightarrow> kern option" where
  "on_queue q f k = do { (h, t) \<leftarrow> f (head_of k q) (envs k); Some ((set_head q h k)\<lparr>envs := t\<rparr>) }"

lemma on_queue_eqs:
  "on_new_queue f k = on_queue New f k" "on_exit_queue f k = on_queue Exited f k"
  "on_ready_queue i f k = on_queue (Ready i) f k"
  by (simp_all add: on_queue_def on_new_queue_def on_exit_queue_def on_ready_queue_def)

type_synonym qlists = "qname \<rightharpoonup> ptr list"

definition queues_ok :: "kern \<Rightarrow> qlists \<Rightarrow> bool" where
  "queues_ok k qs \<longleftrightarrow>
     (\<forall>q xs. qs q = Some xs \<longrightarrow> dll env_links (envs k) (head_of k q) xs) \<and>
     (\<forall>q q' xs ys. qs q = Some xs \<longrightarrow> qs q' = Some ys \<longrightarrow> q \<noteq> q' \<longrightarrow> set xs \<inter> set ys = {})"

definition queued :: "qlists \<Rightarrow> ptr set" where
  "queued qs = {x. \<exists>q xs. qs q = Some xs \<and> x \<in> set xs}"

text \<open>The state without its queues.\<close>

definition blank_ws_element :: ws_element where
  "blank_ws_element = \<lparr>ws_virtual_address = 0, ws_empty = 0, time_stamp = 0, sweeps_counter = 0, ws_next = NULL, ws_prev = NULL\<rparr>"

definition blank_head :: list_head where
  "blank_head = \<lparr>lh_first = NULL, lh_last = NULL, lh_size = 0\<rparr>"

definition blank_env :: env where
  "blank_env = \<lparr>env_id = 0, env_parent_id = 0, env_status = 0, priority = 0, env_next = NULL, env_prev = NULL,
     kstack = NULL, env_page_directory = NULL, env_cr3 = 0, USERH_START = 0, USERH_BRK = 0, USERH_HARD_LIMIT = 0,
     page_WS_max_size = 0, page_WS_list = \<lparr>lh_first = NULL, lh_last = NULL, lh_size = 0\<rparr>,
     page_last_WS_element = NULL, ptr_tws = (\<lambda>_. blank_ws_element), ActiveList = blank_head, SecondList = blank_head,
     initNumStackPages = 1, disk_env_pgdir = NULL, disk_env_pgdir_PA = 0, disk_env_tabledir = NULL, disk_env_tabledir_PA = 0,
     pageFaultsCounter = 0, tableFaultsCounter = 0, nPageIn = 0, nPageOut = 0, nNewPageAdded = 0, nClocks = 0,
     env_tf = NULL, env_context = NULL, prog_name = [], env_runs = 0, table_last_WS_index = 0, ActiveListSize = 0, SecondListSize = 0,
     percentage_of_WS_pages_to_be_removed = 10, freeingFullWSCounter = 0, freeingScarceMemCounter = 0,
     nModifiedPages = 0, nNotModifiedPages = 0\<rparr>"

definition unqueued :: "kern \<Rightarrow> kern" where
  "unqueued k = k\<lparr>envs := (\<lambda>x. no_env_links (envs k x)), env_new_queue := blank_head, env_exit_queue := blank_head,
     env_ready_queues := (\<lambda>_. blank_head), channels := (\<lambda>_. blank_head)\<rparr>"

lemma unqueued_set_head [simp]: "unqueued (set_head q h k) = unqueued k"
  by (cases q) (simp_all add: unqueued_def)

lemma envs_set_head [simp]: "envs (set_head q h k) = envs k"
  by (cases q) simp_all

lemma head_of_set_head: "head_of (set_head q h k) q' = (if q' = q then h else head_of k q')"
  by (cases q; cases q') auto

lemma head_of_envs [simp]: "head_of (k\<lparr>envs := t\<rparr>) q = head_of k q"
  by (cases q) simp_all

lemma unqueued_clock: "unqueued (k\<lparr>clock_quantum := n\<rparr>) = (unqueued k)\<lparr>clock_quantum := n\<rparr>"
  by (cases k) (simp add: unqueued_def)

lemma unqueued_envs: "(\<And>x. no_env_links (t x) = no_env_links (envs k x)) \<Longrightarrow> unqueued (k\<lparr>envs := t\<rparr>) = unqueued k"
  by (simp add: unqueued_def)

lemma unqueued_eqD:
  assumes "unqueued k' = unqueued k"
  shows "kcpu k' = kcpu k" "qlock k' = qlock k" "mfllock k' = mfllock k" "num_of_ready_queues k' = num_of_ready_queues k"
    "scheduler_method k' = scheduler_method k" "quantums k' = quantums k" "ticks k' = ticks k"
    "clock_quantum k' = clock_quantum k" "spinlocks k' = spinlocks k" "sleep_locked k' = sleep_locked k"
    "sleep_pid k' = sleep_pid k" "EnableBuffering k' = EnableBuffering k" "PageRepAlgoType k' = PageRepAlgoType k"
    "env_slot k' = env_slot k" "NENV k' = NENV k"
proof -
  show "kcpu k' = kcpu k" "qlock k' = qlock k" "mfllock k' = mfllock k"
    using arg_cong [OF assms, of kcpu] arg_cong [OF assms, of qlock] arg_cong [OF assms, of mfllock]
    by (simp_all add: unqueued_def)
  show "num_of_ready_queues k' = num_of_ready_queues k" "scheduler_method k' = scheduler_method k"
    "quantums k' = quantums k" "ticks k' = ticks k" "clock_quantum k' = clock_quantum k"
    using arg_cong [OF assms, of num_of_ready_queues] arg_cong [OF assms, of scheduler_method]
      arg_cong [OF assms, of quantums] arg_cong [OF assms, of ticks] arg_cong [OF assms, of clock_quantum]
    by (simp_all add: unqueued_def)
  show "spinlocks k' = spinlocks k" "sleep_locked k' = sleep_locked k" "sleep_pid k' = sleep_pid k"
    "EnableBuffering k' = EnableBuffering k" "PageRepAlgoType k' = PageRepAlgoType k"
    "env_slot k' = env_slot k" "NENV k' = NENV k"
    using arg_cong [OF assms, of spinlocks] arg_cong [OF assms, of sleep_locked] arg_cong [OF assms, of sleep_pid]
      arg_cong [OF assms, of EnableBuffering] arg_cong [OF assms, of PageRepAlgoType]
      arg_cong [OF assms, of env_slot] arg_cong [OF assms, of NENV]
    by (simp_all add: unqueued_def)
qed

lemma unqueued_envD:
  assumes "unqueued k' = unqueued k"
  shows "env_status (envs k' x) = env_status (envs k x)" "env_id (envs k' x) = env_id (envs k x)"
    "priority (envs k' x) = priority (envs k x)" "kstack (envs k' x) = kstack (envs k x)"
    "env_page_directory (envs k' x) = env_page_directory (envs k x)"
    "env_parent_id (envs k' x) = env_parent_id (envs k x)" "nClocks (envs k' x) = nClocks (envs k x)"
proof -
  have "no_env_links (envs k' x) = no_env_links (envs k x)"
    using arg_cong [OF assms, of "\<lambda>k. envs k x"] by (simp add: unqueued_def)
  note e = no_env_links_eqD [OF this]
  show "env_status (envs k' x) = env_status (envs k x)" "env_id (envs k' x) = env_id (envs k x)"
    "priority (envs k' x) = priority (envs k x)" "kstack (envs k' x) = kstack (envs k x)"
    "env_page_directory (envs k' x) = env_page_directory (envs k x)"
    "env_parent_id (envs k' x) = env_parent_id (envs k x)" "nClocks (envs k' x) = nClocks (envs k x)"
    using e by auto
qed

text \<open>Process switching does not touch memory, page tables or the disk.\<close>

definition same_memory :: "kern \<Rightarrow> kern \<Rightarrow> bool" where
  "same_memory k' k \<longleftrightarrow> words k' = words k \<and> frames k' = frames k \<and> free_frame_list k' = free_frame_list k \<and>
     frame_data k' = frame_data k \<and> kmem k' = kmem k \<and> disk_data k' = disk_data k"

lemma unqueued_memory:
  assumes "unqueued k' = unqueued k"
  shows "same_memory k' k"
  using arg_cong [OF assms, of words] arg_cong [OF assms, of frames] arg_cong [OF assms, of free_frame_list]
    arg_cong [OF assms, of frame_data] arg_cong [OF assms, of kmem] arg_cong [OF assms, of disk_data]
  by (simp add: unqueued_def same_memory_def)

section \<open>Queue operations on the lists\<close>

lemma queues_ok_update:
  assumes ok: "queues_ok k qs" and q: "qs q = Some xs" and xs': "set xs' - set xs \<subseteq> - queued qs"
    and d: "dll env_links t h xs'"
    and other: "\<And>z. z \<notin> set xs \<union> set xs' \<Longrightarrow> env_next (t z) = env_next (envs k z) \<and> env_prev (t z) = env_prev (envs k z)"
  shows "queues_ok ((set_head q h k)\<lparr>envs := t\<rparr>) (qs(q \<mapsto> xs'))"
  unfolding queues_ok_def
proof (intro conjI allI impI)
  fix q1 ys assume y: "(qs(q \<mapsto> xs')) q1 = Some ys"
  show "dll env_links (envs ((set_head q h k)\<lparr>envs := t\<rparr>)) (head_of ((set_head q h k)\<lparr>envs := t\<rparr>) q1) ys"
  proof (cases "q1 = q")
    case True
    with y d show ?thesis by (simp add: head_of_set_head)
  next
    case False
    with y have qy: "qs q1 = Some ys" by simp
    have "set ys \<inter> set xs = {}" using ok qy q False unfolding queues_ok_def by blast
    moreover have "set ys \<subseteq> queued qs" using qy by (auto simp: queued_def)
    ultimately have "env_next (t z) = env_next (envs k z) \<and> env_prev (t z) = env_prev (envs k z)" if "z \<in> set ys" for z
      using that xs' by (intro other) auto
    then have "dll env_links t (head_of k q1) ys = dll env_links (envs k) (head_of k q1) ys"
      by (intro dll_cong) simp
    moreover have "dll env_links (envs k) (head_of k q1) ys" using ok qy unfolding queues_ok_def by blast
    ultimately show ?thesis using False by (simp add: head_of_set_head)
  qed
next
  fix q1 q2 ys zs assume a: "(qs(q \<mapsto> xs')) q1 = Some ys" "(qs(q \<mapsto> xs')) q2 = Some zs" "q1 \<noteq> q2"
  have disj: "set us \<inter> set vs = {}" if "qs p1 = Some us" "qs p2 = Some vs" "p1 \<noteq> p2" for p1 p2 us vs
    using ok that unfolding queues_ok_def by blast
  have sub: "set us \<subseteq> queued qs" if "qs p = Some us" for p us using that by (auto simp: queued_def)
  have new: "set xs' \<inter> set us = {}" if "qs p = Some us" "p \<noteq> q" for p us
    using disj [OF that(1) q that(2)] sub [OF that(1)] xs' by auto
  show "set ys \<inter> set zs = {}"
    using a disj [of q1 ys q2 zs] new by (auto split: if_splits)
qed

lemma enqueue_ok:
  assumes ok: "queues_ok k qs" and q: "qs q = Some xs" and e: "e \<noteq> NULL" "e \<notin> queued qs"
  shows "returns (on_queue q (\<lambda>h. enqueue (Some h) e) k)
    (\<lambda>k'. queues_ok k' (qs(q \<mapsto> e # xs)) \<and> unqueued k' = unqueued k)"
proof -
  from ok q have d: "dll env_links (envs k) (head_of k q) xs" unfolding queues_ok_def by blast
  have "e \<notin> set xs" using e q by (auto simp: queued_def)
  from env_store.insert_head [OF d e(1) this] obtain h t where
    r: "LIST_INSERT_HEAD env_links e (head_of k q) (envs k) = Some (h, t)" and
    dt: "dll env_links t h (e # xs)" "\<forall>c. no_env_links (t c) = no_env_links (envs k c)"
      "\<forall>z. (\<forall>y \<in> set (e # xs). z \<noteq> y) \<longrightarrow> env_next (t z) = env_next (envs k z) \<and> env_prev (t z) = env_prev (envs k z)"
    by (auto simp: returns_iff)
  have "queues_ok ((set_head q h k)\<lparr>envs := t\<rparr>) (qs(q \<mapsto> e # xs))"
    using dt e by (intro queues_ok_update [OF ok q]) auto
  moreover have "unqueued ((set_head q h k)\<lparr>envs := t\<rparr>) = unqueued (set_head q h k)"
    using dt(2) by (intro unqueued_envs) auto
  ultimately show ?thesis by (simp add: on_queue_def enqueue_def e r)
qed

lemma remove_ok:
  assumes ok: "queues_ok k qs" and q: "qs q = Some (xs @ e # ys)"
  shows "returns (on_queue q (LIST_REMOVE env_links e) k)
    (\<lambda>k'. queues_ok k' (qs(q \<mapsto> xs @ ys)) \<and> unqueued k' = unqueued k)"
proof -
  from ok q have d: "dll env_links (envs k) (head_of k q) (xs @ e # ys)" unfolding queues_ok_def by blast
  from env_store.remove [OF d] obtain h t where
    r: "LIST_REMOVE env_links e (head_of k q) (envs k) = Some (h, t)" and
    dt: "dll env_links t h (xs @ ys)" "\<forall>c. no_env_links (t c) = no_env_links (envs k c)"
      "\<forall>z. (\<forall>y \<in> set (xs @ e # ys). z \<noteq> y) \<longrightarrow> env_next (t z) = env_next (envs k z) \<and> env_prev (t z) = env_prev (envs k z)"
    by (auto simp: returns_iff)
  have "queues_ok ((set_head q h k)\<lparr>envs := t\<rparr>) (qs(q \<mapsto> xs @ ys))"
    using dt by (intro queues_ok_update [OF ok q]) auto
  moreover have "unqueued ((set_head q h k)\<lparr>envs := t\<rparr>) = unqueued (set_head q h k)"
    using dt(2) by (intro unqueued_envs) auto
  ultimately show ?thesis by (simp add: on_queue_def r)
qed

lemma dequeue_empty:
  assumes "queues_ok k qs" "qs q = Some []"
  shows "dequeue (Some (head_of k q)) (envs k) = Some (NULL, Some (head_of k q), envs k)"
proof -
  have "dll env_links (envs k) (head_of k q) []" using assms unfolding queues_ok_def by blast
  then show ?thesis by (simp add: dequeue_def dll_def Let_def)
qed

lemma dequeue_last:
  assumes ok: "queues_ok k qs" and q: "qs q = Some (xs @ [e])"
  shows "\<exists>h t. dequeue (Some (head_of k q)) (envs k) = Some (e, Some h, t) \<and> e \<noteq> NULL \<and>
    queues_ok ((set_head q h k)\<lparr>envs := t\<rparr>) (qs(q \<mapsto> xs)) \<and> unqueued ((set_head q h k)\<lparr>envs := t\<rparr>) = unqueued k"
proof -
  have d: "dll env_links (envs k) (head_of k q) (xs @ [e])" using assms unfolding queues_ok_def by blast
  then have l: "lh_last (head_of k q) = e" "e \<noteq> NULL" by (auto simp: dll_def)
  from remove_ok [OF ok, of q xs e "[]"] q obtain h t where
    "LIST_REMOVE env_links e (head_of k q) (envs k) = Some (h, t)"
    "queues_ok ((set_head q h k)\<lparr>envs := t\<rparr>) (qs(q \<mapsto> xs))" "unqueued ((set_head q h k)\<lparr>envs := t\<rparr>) = unqueued k"
    by (auto simp: returns_iff on_queue_def bind_eq_Some_conv split: prod.splits)
  then show ?thesis using l by (auto simp: dequeue_def Let_def)
qed

section \<open>Statuses and other fields\<close>

lemma queues_ok_cong:
  assumes "queues_ok k qs" and "\<And>q. head_of k' q = head_of k q"
    and "\<And>x. x \<in> queued qs \<Longrightarrow> env_next (envs k' x) = env_next (envs k x) \<and> env_prev (envs k' x) = env_prev (envs k x)"
  shows "queues_ok k' qs"
proof -
  have "dll env_links (envs k') (head_of k' q) xs" if "qs q = Some xs" for q xs
  proof -
    have "dll env_links (envs k) (head_of k q) xs" using assms(1) that unfolding queues_ok_def by blast
    moreover have "dll env_links (envs k') (head_of k q) xs = dll env_links (envs k) (head_of k q) xs"
      using assms(3) that by (intro dll_cong) (auto simp: queued_def)
    ultimately show ?thesis using assms(2) by simp
  qed
  then show ?thesis using assms(1) unfolding queues_ok_def by blast
qed

lemma set_env_status_ok [simp]:
  "queues_ok k qs \<Longrightarrow> queues_ok (set_env_status e s k) qs"
proof (erule queues_ok_cong)
  show "head_of (set_env_status e s k) q = head_of k q" for q
    by (cases q) (simp_all add: set_env_status_def update_env_def)
qed (simp add: set_env_status_def update_env_def)

lemma set_env_status_simps [simp]:
  "kcpu (set_env_status e s k) = kcpu k" "qlock (set_env_status e s k) = qlock k"
  "num_of_ready_queues (set_env_status e s k) = num_of_ready_queues k"
  "scheduler_method (set_env_status e s k) = scheduler_method k" "quantums (set_env_status e s k) = quantums k"
  "EnableBuffering (set_env_status e s k) = EnableBuffering k" "spinlocks (set_env_status e s k) = spinlocks k"
  "channels (set_env_status e s k) = channels k" "PageRepAlgoType (set_env_status e s k) = PageRepAlgoType k"
  "sleep_locked (set_env_status e s k) = sleep_locked k" "sleep_pid (set_env_status e s k) = sleep_pid k"
  "env_status (envs (set_env_status e s k) x) = (if x = e then s else env_status (envs k x))"
  "env_id (envs (set_env_status e s k) x) = env_id (envs k x)"
  "priority (envs (set_env_status e s k) x) = priority (envs k x)"
  "kstack (envs (set_env_status e s k) x) = kstack (envs k x)"
  "env_page_directory (envs (set_env_status e s k) x) = env_page_directory (envs k x)"
  by (simp_all add: set_env_status_def update_env_def)

lemma queues_ok_fields [simp]:
  "queues_ok (k\<lparr>kcpu := c\<rparr>) qs = queues_ok k qs" "queues_ok (k\<lparr>clock_quantum := n\<rparr>) qs = queues_ok k qs"
  "queues_ok (k\<lparr>qlock := l\<rparr>) qs = queues_ok k qs" "queues_ok (k\<lparr>spinlocks := ls\<rparr>) qs = queues_ok k qs"
  "queues_ok (k\<lparr>sleep_locked := sl\<rparr>) qs = queues_ok k qs" "queues_ok (k\<lparr>sleep_pid := sp\<rparr>) qs = queues_ok k qs"
  "queues_ok (k\<lparr>ticks := tk\<rparr>) qs = queues_ok k qs"
proof -
  have h: "head_of (k\<lparr>kcpu := c\<rparr>) q = head_of k q" "head_of (k\<lparr>clock_quantum := n\<rparr>) q = head_of k q"
    "head_of (k\<lparr>qlock := l\<rparr>) q = head_of k q" "head_of (k\<lparr>spinlocks := ls\<rparr>) q = head_of k q"
    "head_of (k\<lparr>sleep_locked := sl\<rparr>) q = head_of k q" "head_of (k\<lparr>sleep_pid := sp\<rparr>) q = head_of k q"
    "head_of (k\<lparr>ticks := tk\<rparr>) q = head_of k q" for q
    by (cases q; simp)+
  show "queues_ok (k\<lparr>kcpu := c\<rparr>) qs = queues_ok k qs" "queues_ok (k\<lparr>clock_quantum := n\<rparr>) qs = queues_ok k qs"
    "queues_ok (k\<lparr>qlock := l\<rparr>) qs = queues_ok k qs" "queues_ok (k\<lparr>spinlocks := ls\<rparr>) qs = queues_ok k qs"
    "queues_ok (k\<lparr>sleep_locked := sl\<rparr>) qs = queues_ok k qs" "queues_ok (k\<lparr>sleep_pid := sp\<rparr>) qs = queues_ok k qs"
    "queues_ok (k\<lparr>ticks := tk\<rparr>) qs = queues_ok k qs"
    by (simp_all add: queues_ok_def h)
qed

text \<open>Stopping the clock masks its line at the interrupt controllers and touches nothing else.\<close>

lemma kclock_stop_mask: "kclock_stop k = k\<lparr>irq_mask := irq_mask (kclock_stop k)\<rparr>"
  by (simp add: kclock_stop_def irq_set_mask_def)

lemma kclock_stop_simps [simp]:
  "envs (kclock_stop k) = envs k" "kcpu (kclock_stop k) = kcpu k" "qlock (kclock_stop k) = qlock k"
  "scheduler_method (kclock_stop k) = scheduler_method k" "quantums (kclock_stop k) = quantums k"
  "num_of_ready_queues (kclock_stop k) = num_of_ready_queues k" "PageRepAlgoType (kclock_stop k) = PageRepAlgoType k"
  "spinlocks (kclock_stop k) = spinlocks k" "sleep_locked (kclock_stop k) = sleep_locked k"
  "sleep_pid (kclock_stop k) = sleep_pid k" "channels (kclock_stop k) = channels k"
  "ticks (kclock_stop k) = ticks k" "NENV (kclock_stop k) = NENV k" "env_slot (kclock_stop k) = env_slot k"
  "words (kclock_stop k) = words k" "frames (kclock_stop k) = frames k" "free_frame_list (kclock_stop k) = free_frame_list k"
  "frame_data (kclock_stop k) = frame_data k" "kmem (kclock_stop k) = kmem k" "disk_data (kclock_stop k) = disk_data k"
  by (simp_all add: kclock_stop_def irq_set_mask_def)

lemma head_of_kclock_stop [simp]: "head_of (kclock_stop k) q = head_of k q"
  by (cases q) (simp_all add: kclock_stop_def irq_set_mask_def)

lemma queues_ok_kclock_stop [simp]: "queues_ok (kclock_stop k) qs = queues_ok k qs"
  by (simp add: queues_ok_def)

lemma unqueued_kclock_stop: "unqueued (kclock_stop k) = kclock_stop (unqueued k)"
  by (simp add: unqueued_def kclock_stop_def irq_set_mask_def)

lemma same_memory_kclock_stop [simp]: "same_memory (kclock_stop k) k' = same_memory k k'"
  by (simp add: same_memory_def)

end
