(* ===== verification/FOS_BootState.thy ===== *)
theory FOS_BootState
  imports FOS_KHeapSpec FOS_SchedInv
begin

text \<open>
  A small concrete kernel: 256 MB of memory, all page tables of the address space present (table
  \<open>i\<close> in frame \<open>i\<close>), no kernel heap page mapped, and four free frames. It shows that the
  hypotheses of the properties can hold together.
\<close>

definition boot_cpu :: cpu where
  "boot_cpu = \<lparr>eflags = 0, ncli = 0, intena = 0, cpu_proc = NULL, scheduler_status = 0\<rparr>"

abbreviation boot_frame :: "nat \<Rightarrow> ptr" where
  "boot_frame i \<equiv> 0xF0500000 + 32 * of_nat i"

definition frame_with_links :: "ptr \<Rightarrow> ptr \<Rightarrow> frame_info" where
  "frame_with_links n p = zero_frame\<lparr>fi_next := n, fi_prev := p\<rparr>"

definition boot_frames :: "ptr \<Rightarrow> frame_info" where
  "boot_frames = (\<lambda>_. zero_frame\<lparr>references := 1\<rparr>)
     (0xF0510000 := frame_with_links 0xF0510020 NULL,
      0xF0510020 := frame_with_links 0xF0510040 0xF0510000,
      0xF0510040 := frame_with_links 0xF0510060 0xF0510020,
      0xF0510060 := frame_with_links NULL 0xF0510040)"

definition boot_words :: "ptr \<Rightarrow> u32 \<Rightarrow> u32" where
  "boot_words = (\<lambda>_ _. 0)(0xF0400000 := (\<lambda>i. push_bit 12 i OR 1))"

definition blank_console :: console where
  "blank_console = \<lparr>serial_exists = False, serial_in = [], kbd_in = [], kbd_shift = 0, lpt_out = [],
     crt_buf = (\<lambda>_. 0x0720), crt_pos = 0, cga_cursor = 0, text_length = 0, rebooted = False,
     cons_buf = (\<lambda>_. 0), cons_rpos = 0, cons_wpos = 0\<rparr>"

definition boot_kern :: kern where
  "boot_kern =
    \<lparr>kcpu = boot_cpu, mfllock = init_spinlock ''Frame Info Lock'', frames = boot_frames,
     frames_info = 0xF0500000, number_of_frames = 0x10000,
     free_frame_list = \<lparr>lh_first = 0xF0510000, lh_last = 0xF0510060, lh_size = 4\<rparr>,
     modified_frame_list = blank_head, words = boot_words, ptr_page_directory = 0xF0400000,
     kmem = (\<lambda>_. 0), kfreeBlocksList = blank_head, kda_initialized = False,
     START_KHEAP_BLOCK_ALLOCATOR = 0, BRK = 0, HARD_LIMIT = 0, KH_page_allocator_flag = 0,
     freePagesList_KH = blank_head, KHeapPlacementStrategy = KHP_PLACE_FIRSTFIT,
     envs = (\<lambda>_. blank_env), env_slot = (\<lambda>i. 0xEEC00000 + i * 0x400), NENV = 16, NEARPOW2NENV = 16, env_free_list = blank_head,
     ws_elements = (\<lambda>_. blank_ws_element),
     qlock = init_spinlock ''process queues lock'', env_new_queue = blank_head, env_exit_queue = blank_head,
     env_ready_queues = (\<lambda>_. blank_head), num_of_ready_queues = 1, quantums = (\<lambda>_. 10), clock_quantum = 10,
     scheduler_method = SCH_RR, ticks = 0, spinlocks = (\<lambda>_. init_spinlock ''lock of sleep lock''), channels = (\<lambda>_. blank_head),
     sleep_locked = (\<lambda>_. 0), sleep_pid = (\<lambda>_. 0), EnableBuffering = 0, EnableModifiedBuffer = 0, ModifiedBufferLength = 0,
     bypassInstrLength = 0, UHeapPlacementStrategy = 1, syscall_env = NULL, PageRepAlgoType = 0, page_WS_max_sweeps = 0,
     frame_data = (\<lambda>_ _. 0), dfllock = init_spinlock ''disk frames lock'', disk_frames_info = 0xF0700000,
     disk_free_frame_list = blank_head, disk_data = (\<lambda>_ _. 0), disk_bad = (\<lambda>_. False), ptr_zero_page = 0xF0001000,
     last_eip = 0, before_last_eip = 0, last_fault_va = 0, before_last_fault_va = 0, num_repeated_fault = 0,
     last_faulted_env = NULL,
     shares = (\<lambda>_. \<lparr>sh_ID = 0, sh_ownerID = 0, sh_name = [], sh_size = 0, sh_references = 0, sh_isWritable = 0,
       framesStorage = NULL, sh_next = NULL, sh_prev = NULL\<rparr>),
     shares_list = blank_head, shareslock = init_spinlock ''shares lock'', ptr_temp_page = 0xF0002000,
     cons_dev = blank_console, KBDchannel = 0xF0200000, KBDlock = 0xF0200100, conslock = 0xF0200200,
     irq_handlers = (\<lambda>_. No_handler), didinit = True, irq_mask = 0xFFFB, reg_cr2 = 0,
     memory_scarce_threshold_percentage = 25,
     testing = \<lparr>tstcnt = 0, tstcntlock = init_spinlock ''tstcnt lock'', firstTimeSleep = True, tstchan = 0xF0200300,
       tstchan_lk = 0xF0200400, firstTimeSleepLock = True, tstslplk = 0xF0200500\<rparr>\<rparr>"

section \<open>Its tables and frames\<close>

lemma entry_bits: "(push_bit 12 (x :: u32) OR 1) AND NOT 0xFFF = push_bit 12 x"
proof -
  have m: "(0xFFF :: u32) = mask 12" by (simp add: mask_numeral)
  have "bit ((push_bit 12 x OR 1) AND NOT (mask 12)) n = bit (push_bit 12 x) n" if "n < LENGTH(32)" for n
    using that by (auto simp: bit_and_iff bit_or_iff bit_not_iff bit_mask_iff bit_push_bit_iff bit_1_iff possible_bit_word)
  then show ?thesis unfolding m by (intro bit_word_eqI)
qed

lemma entry_present: "(push_bit 12 (x :: u32) OR 1) AND 1 = 1"
proof -
  have "bit ((push_bit 12 x OR 1) AND 1) n = bit (1 :: u32) n" if "n < LENGTH(32)" for n
    using that by (auto simp: bit_and_iff bit_or_iff bit_push_bit_iff bit_1_iff possible_bit_word)
  then show ?thesis by (intro bit_word_eqI)
qed

lemma unat_push_bit_12: "unat (x :: u32) < 1048576 \<Longrightarrow> unat (push_bit 12 x) = unat x * 4096"
  by (simp add: push_bit_eq_mult unat_word_ariths)

lemma unat_PDX_bound: "unat (PDX va) < 1024"
  using unat_u32_bound [of va] by (simp add: unat_PDX less_mult_imp_div_less)

lemma boot_pde: "words boot_kern (ptr_page_directory boot_kern) i = push_bit 12 i OR 1"
  by (simp add: boot_kern_def boot_words_def)

lemma boot_tables: "kheap_tables boot_kern"
proof -
  have u: "unat (push_bit 12 (PDX va)) = unat (PDX va) * 4096" for va
    using unat_PDX_bound [of va] by (intro unat_push_bit_12) simp
  have ub: "unat (push_bit 12 (PDX va)) < 4194304" for va using unat_PDX_bound [of va] unfolding u by simp
  have s: "unat (push_bit 12 (PDX va) + 0xF0000000) = unat (push_bit 12 (PDX va)) + 0xF0000000" for va
    using unat_add_u32 [of "push_bit 12 (PDX va)" "0xF0000000"] ub [of va] by simp
  have inj: "PDX va = PDX vb" if "push_bit 12 (PDX va) = push_bit 12 (PDX vb)" for va vb
  proof -
    have "unat (PDX va) * 4096 = unat (PDX vb) * 4096" using that by (metis u)
    then show ?thesis by (simp add: word_unat_eq_iff)
  qed
  have "table_there 0xF0400000 0x10000 (push_bit 12 (PDX va) OR 1)" for va
    unfolding table_there_def EXTRACT_ADDRESS_def entry_bits
  proof (intro conjI)
    show "(push_bit 12 (PDX va) OR 1) AND PERM_PRESENT = PERM_PRESENT" by (rule entry_present)
    show "PPN (push_bit 12 (PDX va)) < 0x10000"
      using ub [of va] by (simp add: word_less_nat_alt unat_PPN less_mult_imp_div_less)
    show "push_bit 12 (PDX va) + KERNEL_BASE \<noteq> NULL" "push_bit 12 (PDX va) + KERNEL_BASE \<noteq> 0xF0400000"
      using ub [of va] s [of va] by (auto simp: word_unat_eq_iff)
  qed
  moreover have d: "ptr_page_directory boot_kern = 0xF0400000" "number_of_frames boot_kern = 0x10000"
    by (simp_all add: boot_kern_def)
  ultimately show ?thesis
    unfolding kheap_tables_def tables_ok_def d boot_pde [unfolded d] EXTRACT_ADDRESS_def entry_bits using inj by blast
qed

lemma boot_pte: "pte boot_kern va = 0" if "KERNEL_HEAP_START \<le> va"
proof -
  have "table boot_kern va \<noteq> 0xF0400000" using kheap_tablesD(4) [OF boot_tables that] by (simp add: boot_kern_def)
  then show ?thesis by (simp add: pte_def boot_kern_def boot_words_def)
qed

definition boot_free :: "ptr list" where
  "boot_free = [0xF0510000, 0xF0510020, 0xF0510040, 0xF0510060]"

lemma boot_free_frames: "free_frames boot_kern boot_free"
  by (simp add: free_frames_def dll_def boot_free_def boot_kern_def boot_frames_def frame_with_links_def zero_frame_def
      frame_links_def last_or_def)

lemma boot_lock_free: "lock_free boot_kern"
  by (simp add: lock_free_def boot_kern_def boot_cpu_def init_spinlock_def cpu_ok_def)

end
