(* ===== verification/FOS_BootProps.thy ===== *)
theory FOS_BootProps
  imports FOS_Boot FOS_Translate FOS_BootState
begin

text \<open>
  Mapping memory at boot time as an update of the abstract map from pages to entries, with the tables
  taken from the memory behind what is in use.
\<close>

section \<open>The tables made so far\<close>

abbreviation table_address :: "ptr \<Rightarrow> boot \<Rightarrow> u32 \<Rightarrow> u32" where
  "table_address dir b i \<equiv> EXTRACT_ADDRESS (words (vm b) dir i)"

text \<open>The entry of the page of an address; 0 where there is no table.\<close>

definition boot_entry :: "ptr \<Rightarrow> boot \<Rightarrow> u32 \<Rightarrow> u32" where
  "boot_entry dir b va = (let p = table_address dir b (PDX va) in if p = 0 then 0 else words (vm b) (KERNEL_BASE + p) (PTX va))"

text \<open>
  The tables behind the directory entries in \<open>S\<close> lie between the directory and the free memory, one for
  each entry. The two entries that list the directory as a table of itself are not in \<open>S\<close>.
\<close>

definition boot_tables_ok :: "u32 set \<Rightarrow> ptr \<Rightarrow> boot \<Rightarrow> bool" where
  "boot_tables_ok S dir b \<longleftrightarrow> 0xF0000000 \<le> unat dir \<and> unat dir < unat (ptr_free_mem b) \<and> number_of_frames (vm b) \<noteq> 0 \<and>
     (\<forall>i \<in> S. table_address dir b i \<noteq> 0 \<longrightarrow>
        PPN (table_address dir b i) < number_of_frames (vm b) \<and>
        unat (table_address dir b i) + 0xF0000000 < unat (ptr_free_mem b) \<and> KERNEL_BASE + table_address dir b i \<noteq> dir) \<and>
     (\<forall>i \<in> S. \<forall>j \<in> S. table_address dir b i \<noteq> 0 \<longrightarrow> table_address dir b i = table_address dir b j \<longrightarrow> i = j)"

text \<open>There are frames for \<open>n\<close> more pages behind the memory in use.\<close>

definition room :: "nat \<Rightarrow> boot \<Rightarrow> bool" where
  "room n b \<longleftrightarrow> (unat (ptr_free_mem b) + 4095) div 4096 * 4096 + n * 4096 < 2 ^ 32 \<and>
     (unat (ptr_free_mem b) + 4095) div 4096 * 4096 + n * 4096 \<le> 0xF0000000 + unat (number_of_frames (vm b)) * 4096"

lemma unat_kernel_address:
  assumes "unat p + 0xF0000000 < 2 ^ 32"
  shows "unat (KERNEL_BASE + p) = 0xF0000000 + unat p"
  using assms by (subst unat_word_ariths) simp

section \<open>Getting a table\<close>

lemma boot_entry_cong:
  assumes "table_address dir b' (PDX va) = table_address dir b (PDX va)"
    and "table_address dir b (PDX va) \<noteq> 0 \<Longrightarrow>
      words (vm b') (KERNEL_BASE + table_address dir b (PDX va)) (PTX va) = words (vm b) (KERNEL_BASE + table_address dir b (PDX va)) (PTX va)"
  shows "boot_entry dir b' va = boot_entry dir b va"
  using assms by (simp add: boot_entry_def Let_def)

text \<open>A table made for the directory entry \<open>i\<close> in the first page behind the memory in use.\<close>

definition with_table :: "ptr \<Rightarrow> u32 \<Rightarrow> ptr \<Rightarrow> boot \<Rightarrow> boot" where
  "with_table dir i t b = b\<lparr>vm := set_word dir i (CONSTRUCT_ENTRY (t - KERNEL_BASE) (PERM_PRESENT OR PERM_WRITEABLE)) (clear_region t PAGE_SIZE (vm b)),
     ptr_free_mem := t + PAGE_SIZE\<rparr>"

lemma fresh_page:
  assumes "boot_tables_ok S dir b" "room (Suc n) b"
  defines "t \<equiv> ROUNDUP (ptr_free_mem b) PAGE_SIZE"
  shows "unat (ptr_free_mem b) \<le> unat t" "unat t = (unat (ptr_free_mem b) + 4095) div 4096 * 4096" "unat (t + PAGE_SIZE) = unat t + 4096"
    "unat (t - KERNEL_BASE) = unat t - 0xF0000000" "unat (t - KERNEL_BASE) mod 4096 = 0" "KERNEL_BASE \<le> t" "t - KERNEL_BASE \<noteq> 0"
    "PPN (t - KERNEL_BASE) < number_of_frames (vm b)"
proof -
  let ?f = "unat (ptr_free_mem b)" let ?R = "(?f + 4095) div 4096 * 4096"
  have r: "?R + 4096 + n * 4096 < 2 ^ 32" "?R + 4096 + n * 4096 \<le> 0xF0000000 + unat (number_of_frames (vm b)) * 4096"
    using assms(2) by (simp_all add: room_def)
  have f: "0xF0000000 < ?f" using assms(1) by (simp add: boot_tables_ok_def)
  have R: "?f \<le> ?R" by linarith
  have "?f + 4095 < 2 ^ 32" using R r(1) by linarith
  then show ut: "unat t = ?R" by (simp add: t_def unat_ROUNDUP)
  then show b: "?f \<le> unat t" using R by simp
  show p: "unat (t + PAGE_SIZE) = unat t + 4096" using ut r(1) by (subst unat_word_ariths) simp
  show le: "KERNEL_BASE \<le> t" using b f by (simp add: word_le_nat_alt)
  show us: "unat (t - KERNEL_BASE) = unat t - 0xF0000000" using le by (simp add: unat_sub)
  show "unat (t - KERNEL_BASE) mod 4096 = 0"
  proof -
    have "(unat t - 0xF0000000) mod 4096 = ((?f + 4095) div 4096 - 0xF0000) * 4096 mod 4096" by (simp add: ut diff_mult_distrib)
    then show ?thesis by (simp add: us)
  qed
  have "0 < unat (t - KERNEL_BASE)" using us b f by linarith
  then show "t - KERNEL_BASE \<noteq> 0" by (metis less_irrefl unat_0)
  have "unat t < 0xF0000000 + unat (number_of_frames (vm b)) * 4096" using ut r(2) by linarith
  then have "unat (t - KERNEL_BASE) < unat (number_of_frames (vm b)) * 4096" using us b f by simp
  then have "unat (t - KERNEL_BASE) div 4096 < unat (number_of_frames (vm b))" by (rule less_mult_imp_div_less)
  then show "PPN (t - KERNEL_BASE) < number_of_frames (vm b)" by (simp add: word_less_nat_alt unat_PPN)
qed

lemma with_table_address:
  assumes "unat dir < unat t" "unat (t - KERNEL_BASE) mod 4096 = 0"
  shows "table_address dir (with_table dir i t b) j = (if j = i then t - KERNEL_BASE else table_address dir b j)"
proof -
  have "\<not> in_region t PAGE_SIZE dir" using assms(1) by (simp add: in_region_def)
  moreover have "EXTRACT_ADDRESS (CONSTRUCT_ENTRY (t - KERNEL_BASE) (PERM_PRESENT OR PERM_WRITEABLE)) = t - KERNEL_BASE"
    by (rule entry_address [OF assms(2)]) simp
  ultimately show ?thesis by (simp add: with_table_def set_word_def clear_region_def)
qed

lemma with_table_words:
  "x \<noteq> dir \<Longrightarrow> words (vm (with_table dir i t b)) x j = (if in_region t PAGE_SIZE x then 0 else words (vm b) x j)"
  by (simp add: with_table_def set_word_def clear_region_def)

lemma boot_get_table_fresh:
  assumes ok: "boot_tables_ok S dir b" and p: "table_address dir b (PDX va) = 0" and r: "room (Suc n) b"
  defines "t \<equiv> ROUNDUP (ptr_free_mem b) PAGE_SIZE"
  shows "boot_get_page_table e dir va True b = Some (t, with_table dir (PDX va) t b)"
proof -
  have f: "ptr_free_mem b \<noteq> 0" using ok by (auto simp: boot_tables_ok_def)
  have le: "\<not> t < KERNEL_BASE" using fresh_page(6) [OF ok r] by (simp add: t_def not_less)
  have "STATIC_KERNEL_VIRTUAL_ADDRESS 0 (vm b) = Some KERNEL_BASE"
    using ok by (simp add: STATIC_KERNEL_VIRTUAL_ADDRESS_def PPN_def boot_tables_ok_def not_le word_gt_0)
  then show ?thesis
    using f le p
    by (simp add: boot_get_page_table_def boot_allocate_space_def with_table_def STATIC_KERNEL_PHYSICAL_ADDRESS_def Let_def t_def)
qed

lemma with_table_ok:
  assumes ok: "boot_tables_ok S dir b" and i: "table_address dir b i = 0" and r: "room (Suc n) b"
  defines "t \<equiv> ROUNDUP (ptr_free_mem b) PAGE_SIZE"
  shows "boot_tables_ok S dir (with_table dir i t b)" "room n (with_table dir i t b)"
    "\<And>va. PDX va \<in> S \<Longrightarrow> boot_entry dir (with_table dir i t b) va = boot_entry dir b va"
proof -
  note fp = fresh_page [OF ok r, folded t_def]
  let ?b = "with_table dir i t b"
  have dt: "unat dir < unat t" using ok fp(1) by (simp add: boot_tables_ok_def)
  note ta = with_table_address [OF dt fp(5)]
  have new: "ptr_free_mem ?b = t + PAGE_SIZE" "number_of_frames (vm ?b) = number_of_frames (vm b)"
    by (simp_all add: with_table_def set_word_def clear_region_def)
  have base: "0xF0000000 < unat (ptr_free_mem b)" using ok by (simp add: boot_tables_ok_def)
  have old: "PPN (table_address dir b j) < number_of_frames (vm b)" "unat (table_address dir b j) + 0xF0000000 < unat (ptr_free_mem b)"
    "KERNEL_BASE + table_address dir b j \<noteq> dir" if "j \<in> S" "table_address dir b j \<noteq> 0" for j
    using ok that by (simp_all add: boot_tables_ok_def)
  have kt: "KERNEL_BASE + (t - KERNEL_BASE) = t" by simp
  have less: "unat (table_address dir b j) < unat (t - KERNEL_BASE)" if "j \<in> S" "table_address dir b j \<noteq> 0" for j
    using old(2) [OF that] fp(1,4) base by linarith
  show "boot_tables_ok S dir ?b"
    unfolding boot_tables_ok_def new ta
  proof (intro conjI ballI impI)
    show "0xF0000000 \<le> unat dir" "number_of_frames (vm b) \<noteq> 0" using ok by (simp_all add: boot_tables_ok_def)
    show "unat dir < unat (t + PAGE_SIZE)" using dt fp(3) by simp
    fix j assume j: "j \<in> S" "(if j = i then t - KERNEL_BASE else table_address dir b j) \<noteq> 0"
    show "PPN (if j = i then t - KERNEL_BASE else table_address dir b j) < number_of_frames (vm b)" using j old(1) fp(8) by auto
    show "unat (if j = i then t - KERNEL_BASE else table_address dir b j) + 0xF0000000 < unat (t + PAGE_SIZE)"
      using j old(2) [of j] fp(1,3,4) base by (cases "j = i") auto
    show "KERNEL_BASE + (if j = i then t - KERNEL_BASE else table_address dir b j) \<noteq> dir" using j old(3) [of j] kt dt by (cases "j = i") auto
    fix j' assume j': "j' \<in> S" "(if j = i then t - KERNEL_BASE else table_address dir b j) = (if j' = i then t - KERNEL_BASE else table_address dir b j')"
    show "j = j'"
    proof (cases "j = i \<or> j' = i")
      case True
      then show ?thesis using j j' less [of j] less [of j'] by (metis less_irrefl)
    next
      case False
      then show ?thesis using j j' ok by (simp add: boot_tables_ok_def)
    qed
  qed
  show "room n ?b"
  proof -
    have "(unat (t + PAGE_SIZE) + 4095) div 4096 * 4096 = unat t + 4096" using fp(2,3) by simp
    then show ?thesis using r fp(2) by (simp add: room_def new)
  qed
  fix va assume S: "PDX va \<in> S"
  show "boot_entry dir ?b va = boot_entry dir b va"
  proof (cases "PDX va = i")
    case True
    have "in_region t PAGE_SIZE t" by (simp add: in_region_def)
    moreover have "t \<noteq> dir" using dt by auto
    ultimately show ?thesis using True i fp(7) by (simp add: boot_entry_def Let_def ta with_table_words kt)
  next
    case False
    show ?thesis
    proof (rule boot_entry_cong)
      assume nz: "table_address dir b (PDX va) \<noteq> 0"
      have "unat (KERNEL_BASE + table_address dir b (PDX va)) = 0xF0000000 + unat (table_address dir b (PDX va))"
        by (rule unat_kernel_address) (use old(2) [OF S nz] unat_u32_bound [of "ptr_free_mem b"] in simp)
      then have "\<not> in_region t PAGE_SIZE (KERNEL_BASE + table_address dir b (PDX va))"
        using old(2) [OF S nz] fp(1) by (simp add: in_region_def)
      then show "words (vm ?b) (KERNEL_BASE + table_address dir b (PDX va)) (PTX va) = words (vm b) (KERNEL_BASE + table_address dir b (PDX va)) (PTX va)"
        using old(3) [OF S nz] by (simp add: with_table_words)
    qed (simp add: ta False)
  qed
qed

lemma boot_get_table_ok:
  assumes ok: "boot_tables_ok S dir b" and S: "PDX va \<in> S" and r: "room (Suc n) b"
  obtains b' where "boot_get_page_table e dir va True b = Some (KERNEL_BASE + table_address dir b' (PDX va), b')"
    "boot_tables_ok S dir b'" "room n b'" "table_address dir b' (PDX va) \<noteq> 0"
    "\<And>va'. PDX va' \<in> S \<Longrightarrow> boot_entry dir b' va' = boot_entry dir b va'"
proof (cases "table_address dir b (PDX va) = 0")
  case True
  let ?t = "ROUNDUP (ptr_free_mem b) PAGE_SIZE" let ?b = "with_table dir (PDX va) ?t b"
  note fp = fresh_page [OF ok r]
  have "unat dir < unat ?t" using ok fp(1) by (simp add: boot_tables_ok_def)
  from with_table_address [OF this fp(5)] have a: "table_address dir ?b (PDX va) = ?t - KERNEL_BASE" by simp
  show ?thesis
  proof (rule that)
    show "boot_get_page_table e dir va True b = Some (KERNEL_BASE + table_address dir ?b (PDX va), ?b)"
      using boot_get_table_fresh [OF ok True r] a by simp
    show "table_address dir ?b (PDX va) \<noteq> 0" using a fp(7) by simp
  qed (use with_table_ok [OF ok True r] in auto)
next
  case False
  have "PPN (table_address dir b (PDX va)) < number_of_frames (vm b)" using ok S False by (simp add: boot_tables_ok_def)
  then have "boot_get_page_table e dir va True b = Some (KERNEL_BASE + table_address dir b (PDX va), b)"
    using False by (simp add: boot_get_page_table_def STATIC_KERNEL_VIRTUAL_ADDRESS_def Let_def not_le add.commute)
  moreover have "room n b" using r by (simp add: room_def)
  ultimately show ?thesis using that ok False by blast
qed

section \<open>Writing an entry\<close>

definition put_entry :: "ptr \<Rightarrow> u32 \<Rightarrow> u32 \<Rightarrow> boot \<Rightarrow> boot" where
  "put_entry t i v b = b\<lparr>vm := set_word t i v (vm b)\<rparr>"

lemma put_entry_ok:
  assumes ok: "boot_tables_ok S dir b" and S: "PDX va \<in> S" and nz: "table_address dir b (PDX va) \<noteq> 0"
  defines "t \<equiv> KERNEL_BASE + table_address dir b (PDX va)"
  shows "boot_tables_ok S dir (put_entry t (PTX va) v b)" "room n (put_entry t (PTX va) v b) = room n b"
    "\<And>va'. PDX va' \<in> S \<Longrightarrow> boot_entry dir (put_entry t (PTX va) v b) va' =
      (if PDX va' = PDX va \<and> PTX va' = PTX va then v else boot_entry dir b va')"
proof -
  have td: "t \<noteq> dir" using ok S nz by (simp add: boot_tables_ok_def t_def)
  have a: "table_address dir (put_entry t (PTX va) v b) i = table_address dir b i" for i
    using td by (simp add: put_entry_def set_word_def)
  have f: "ptr_free_mem (put_entry t (PTX va) v b) = ptr_free_mem b" "number_of_frames (vm (put_entry t (PTX va) v b)) = number_of_frames (vm b)"
    by (simp_all add: put_entry_def set_word_def)
  show "boot_tables_ok S dir (put_entry t (PTX va) v b)" using ok unfolding boot_tables_ok_def a f .
  show "room n (put_entry t (PTX va) v b) = room n b" by (simp only: room_def f)
  fix va' assume S': "PDX va' \<in> S"
  have "KERNEL_BASE + table_address dir b (PDX va') = t \<longleftrightarrow> PDX va' = PDX va" if "table_address dir b (PDX va') \<noteq> 0"
    using ok S S' that by (auto simp: boot_tables_ok_def t_def)
  moreover have "table_address dir b (PDX va') \<noteq> 0" if "PDX va' = PDX va" using nz that by simp
  ultimately show "boot_entry dir (put_entry t (PTX va) v b) va' =
      (if PDX va' = PDX va \<and> PTX va' = PTX va then v else boot_entry dir b va')"
    unfolding boot_entry_def Let_def a by (auto simp: put_entry_def set_word_def)
qed

section \<open>Mapping a range\<close>

definition page_number_of :: "u32 \<Rightarrow> nat" where
  "page_number_of va = unat va div 4096"

lemma same_page_number: "PDX x = PDX y \<and> PTX x = PTX y \<longleftrightarrow> page_number_of x = page_number_of y"
  using same_page [of x y] same_entry [of x y] by (auto simp: page_number_of_def)

text \<open>The entries after mapping \<open>n\<close> pages from \<open>va\<close> on to the addresses from \<open>pa\<close> on.\<close>

definition mapped_entry :: "ptr \<Rightarrow> boot \<Rightarrow> u32 \<Rightarrow> nat \<Rightarrow> u32 \<Rightarrow> u32 \<Rightarrow> u32 \<Rightarrow> u32" where
  "mapped_entry dir b va n pa perm x =
    (if page_number_of va \<le> page_number_of x \<and> page_number_of x < page_number_of va + n
     then CONSTRUCT_ENTRY (pa + of_nat (page_number_of x - page_number_of va) * PAGE_SIZE) (perm OR PERM_PRESENT)
     else boot_entry dir b x)"

lemma boot_map_from_step:
  assumes "i < sz" "boot_get_page_table e dir va True b = Some (t, b')"
  shows "boot_map_from e dir va sz pa perm i b =
    boot_map_from e dir (va + PAGE_SIZE) sz (pa + PAGE_SIZE) perm (i + PAGE_SIZE)
      (put_entry t (PTX va) (CONSTRUCT_ENTRY pa (perm OR PERM_PRESENT)) b')"
  using assms by (subst boot_map_from.simps) (simp add: put_entry_def)

lemma boot_map_from_ok:
  assumes "boot_tables_ok S dir b" "room (r + n) b" "unat va + r * 4096 \<le> 2 ^ 32"
    and "unat i + r * 4096 < 2 ^ 32" "unat sz \<le> unat i + r * 4096" "0 < r \<Longrightarrow> unat i + (r - 1) * 4096 < unat sz"
    and "\<And>x. page_number_of va \<le> page_number_of x \<Longrightarrow> page_number_of x < page_number_of va + r \<Longrightarrow> PDX x \<in> S"
  shows "\<exists>b'. boot_map_from e dir va sz pa perm i b = Some b' \<and> boot_tables_ok S dir b' \<and> room n b' \<and>
    (\<forall>x. PDX x \<in> S \<longrightarrow> boot_entry dir b' x = mapped_entry dir b va r pa perm x)"
  using assms
proof (induction r arbitrary: va pa i b)
  case 0
  then have "\<not> i < sz" by (simp add: word_less_nat_alt)
  then have "boot_map_from e dir va sz pa perm i b = Some b" by (subst boot_map_from.simps) simp
  then show ?case using 0 by (auto simp: mapped_entry_def)
next
  case (Suc r)
  have lt: "i < sz" using Suc.prems(6) by (simp add: word_less_nat_alt)
  have S: "PDX va \<in> S" using Suc.prems(7) [of va] by simp
  have room: "room (Suc (r + n)) b" using Suc.prems(2) by simp
  from boot_get_table_ok [OF Suc.prems(1) S room, of e] obtain b1 where
    b1: "boot_get_page_table e dir va True b = Some (KERNEL_BASE + table_address dir b1 (PDX va), b1)"
      "boot_tables_ok S dir b1" "room (r + n) b1" "table_address dir b1 (PDX va) \<noteq> 0"
      "\<And>x. PDX x \<in> S \<Longrightarrow> boot_entry dir b1 x = boot_entry dir b x" by blast
  let ?v = "CONSTRUCT_ENTRY pa (perm OR PERM_PRESENT)"
  let ?b2 = "put_entry (KERNEL_BASE + table_address dir b1 (PDX va)) (PTX va) ?v b1"
  note pe = put_entry_ok [OF b1(2) S b1(4), where v = ?v]
  have e2: "boot_entry dir ?b2 x = (if page_number_of x = page_number_of va then ?v else boot_entry dir b x)" if "PDX x \<in> S" for x
    using pe(3) [OF that] b1(5) [OF that] same_page_number [of x va] by simp
  show ?case
  proof (cases "r = 0")
    case True
    have "unat (i + PAGE_SIZE) = unat i + 4096" using Suc.prems(4) True by (subst unat_word_ariths) simp
    then have "\<not> i + PAGE_SIZE < sz" using Suc.prems(5) True by (simp add: word_less_nat_alt)
    then have "boot_map_from e dir va sz pa perm i b = Some ?b2"
      by (subst boot_map_from_step [OF lt b1(1)], subst boot_map_from.simps) simp
    moreover have "boot_entry dir ?b2 x = mapped_entry dir b va (Suc r) pa perm x" if "PDX x \<in> S" for x
      using e2 [OF that] True by (auto simp: mapped_entry_def)
    ultimately show ?thesis using pe(1,2) b1(3) True by auto
  next
    case False
    have u: "unat (va + PAGE_SIZE) = unat va + 4096" "unat (i + PAGE_SIZE) = unat i + 4096"
      using Suc.prems(3,4) False by (subst unat_word_ariths; simp)+
    have p: "page_number_of (va + PAGE_SIZE) = Suc (page_number_of va)" by (simp add: page_number_of_def u)
    have "\<exists>b'. boot_map_from e dir (va + PAGE_SIZE) sz (pa + PAGE_SIZE) perm (i + PAGE_SIZE) ?b2 = Some b' \<and> boot_tables_ok S dir b' \<and> room n b' \<and>
      (\<forall>x. PDX x \<in> S \<longrightarrow> boot_entry dir b' x = mapped_entry dir ?b2 (va + PAGE_SIZE) r (pa + PAGE_SIZE) perm x)"
    proof (rule Suc.IH)
      show "PDX x \<in> S" if "page_number_of (va + PAGE_SIZE) \<le> page_number_of x" "page_number_of x < page_number_of (va + PAGE_SIZE) + r" for x
        using Suc.prems(7) [of x] that unfolding p by simp
      show "unat (i + PAGE_SIZE) + (r - 1) * 4096 < unat sz" using Suc.prems(6) False u by (cases r) simp_all
    qed (use pe(1,2) b1(3) u Suc.prems in simp_all)
    moreover have "mapped_entry dir ?b2 (va + PAGE_SIZE) r (pa + PAGE_SIZE) perm x = mapped_entry dir b va (Suc r) pa perm x" if "PDX x \<in> S" for x
    proof -
      have "pa + PAGE_SIZE + of_nat (k - Suc m) * PAGE_SIZE = pa + of_nat (k - m) * PAGE_SIZE" if "Suc m \<le> k" for k m
      proof -
        have "k - m = Suc (k - Suc m)" using that by simp
        then show ?thesis by (simp add: algebra_simps)
      qed
      then show ?thesis using e2 [OF that] unfolding mapped_entry_def p by (auto simp: not_less_eq_eq le_Suc_eq)
    qed
    ultimately show ?thesis using boot_map_from_step [OF lt b1(1)] by auto
  qed
qed

section \<open>Properties\<close>

text \<open>C38: Mapping a range at boot time, with enough memory behind what is in use, gives each page of the range
  the entry of its own physical page with the permissions asked for, makes the tables that are
  missing, and changes no other entry.\<close>

theorem boot_map_range_correct:
  assumes "boot_tables_ok S dir b" "room (pages (unat sz) + n) b"
    and "unat va + pages (unat sz) * 4096 \<le> 2 ^ 32" "unat sz \<le> 0xFFFFF000"
    and "\<And>x. page_number_of va \<le> page_number_of x \<Longrightarrow> page_number_of x < page_number_of va + pages (unat sz) \<Longrightarrow> PDX x \<in> S"
  shows "\<exists>b'. boot_map_range e dir va sz pa perm b = Some b' \<and> boot_tables_ok S dir b' \<and> room n b' \<and>
    (\<forall>x. PDX x \<in> S \<longrightarrow> boot_entry dir b' x =
       (if page_number_of va \<le> page_number_of x \<and> page_number_of x < page_number_of va + pages (unat sz)
        then CONSTRUCT_ENTRY (pa + of_nat (page_number_of x - page_number_of va) * PAGE_SIZE) (perm OR PERM_PRESENT)
        else boot_entry dir b x))"
proof -
  have "unat (0 :: u32) + pages (unat sz) * 4096 < 2 ^ 32" "unat sz \<le> unat (0 :: u32) + pages (unat sz) * 4096"
    "0 < pages (unat sz) \<Longrightarrow> unat (0 :: u32) + (pages (unat sz) - 1) * 4096 < unat sz"
    using assms(4) by (simp_all add: pages_def)
  from boot_map_from_ok [OF assms(1-3) this assms(5), of e pa perm] show ?thesis
    by (simp add: boot_map_range_def mapped_entry_def)
qed

text \<open>Nothing is mapped yet: the directory is in the second page of the kernel, of 1024 frames.\<close>

definition first_boot :: boot where
  "first_boot = \<lparr>vm = boot_kern\<lparr>words := (\<lambda>_ _. 0), number_of_frames := 1024\<rparr>, ptr_free_mem = 0xF0002000, phys_page_directory = 0x1000\<rparr>"

theorem boot_map_range_correct_witness:
  "\<exists>b'. boot_map_range 0xF0001000 0xF0001000 0xF0000000 0x3000 0 PERM_WRITEABLE first_boot = Some b' \<and>
     boot_entry 0xF0001000 b' 0xF0002000 = 0x2003 \<and> boot_entry 0xF0001000 b' 0xF0003000 = 0"
proof -
  have p: "pages 0x3000 = 3" "pages (unat (0x3000 :: u32)) = 3" by (simp_all add: pages_def)
  have ok: "boot_tables_ok UNIV 0xF0001000 first_boot"
    by (simp add: boot_tables_ok_def first_boot_def EXTRACT_ADDRESS_def)
  have "room (pages (unat (0x3000 :: u32)) + 0) first_boot" by (simp add: room_def first_boot_def p)
  from boot_map_range_correct [where va = "0xF0000000" and pa = 0 and perm = PERM_WRITEABLE and e = "0xF0001000", OF ok this] obtain b' where
    b': "boot_map_range 0xF0001000 0xF0001000 0xF0000000 0x3000 0 PERM_WRITEABLE first_boot = Some b'"
      "\<And>x. boot_entry 0xF0001000 b' x =
       (if page_number_of 0xF0000000 \<le> page_number_of x \<and> page_number_of x < page_number_of 0xF0000000 + 3
        then CONSTRUCT_ENTRY (0 + of_nat (page_number_of x - page_number_of 0xF0000000) * PAGE_SIZE) (PERM_WRITEABLE OR PERM_PRESENT)
        else boot_entry 0xF0001000 first_boot x)"
    unfolding p by auto
  have "boot_entry 0xF0001000 b' 0xF0002000 = 0x2003" "boot_entry 0xF0001000 b' 0xF0003000 = 0"
    unfolding b'(2) by (simp_all add: page_number_of_def CONSTRUCT_ENTRY_def boot_entry_def first_boot_def EXTRACT_ADDRESS_def)
  then show ?thesis using b'(1) by blast
qed

end
