(* ===== verification/FOS_UserMem.thy ===== *)
theory FOS_UserMem
  imports FOS_Fault
begin

text \<open>
  The kernel side of the user heap, \<^verbatim>\<open>kern/mem/chunk_operations.c\<close>: moving the break of a process,
  finding free pages, and marking and freeing them. Bit 10 of a page table entry marks a page that is
  handed out, bit 11 one that was faulted in since. The operations on chunks of memory that
  the source does not implement only panic and are left out.
\<close>

section \<open>Marking pages\<close>

definition mark_page :: "ptr \<Rightarrow> u32 \<Rightarrow> kern \<Rightarrow> kern option" where
  "mark_page dir va k = do {
     (_, t) \<leftarrow> get_page_table dir va k;
     k1 \<leftarrow> (if t = NULL then do { (_, k1) \<leftarrow> create_page_table dir va k; Some k1 } else Some k);
     pt_set_page_permissions dir va (PERM_USER OR PAGE_MARKED) 0 k1
   }"

partial_function (option) mark_up_to :: "ptr \<Rightarrow> u32 \<Rightarrow> u32 \<Rightarrow> kern \<Rightarrow> kern option" where
  "mark_up_to dir page_addr end_addr k =
    (if page_addr < end_addr then do {
       k1 \<leftarrow> mark_page dir page_addr k;
       mark_up_to dir (page_addr + PAGE_SIZE) end_addr k1
     }
     else Some k)"

definition sys_sbrk :: "u32 \<Rightarrow> kern \<Rightarrow> (u32 \<times> kern) option" where
  "sys_sbrk numOfPages k = do {
     (e, k1) \<leftarrow> cur_proc k;
     if e = NULL then None
     else if sint numOfPages \<le> 0 then Some (USERH_BRK (envs k1 e), k1)
     else do {
       let noBytes = numOfPages * PAGE_SIZE;
       let old_USERH_BRK = USERH_BRK (envs k1 e);
       if old_USERH_BRK + noBytes - 1 \<ge> USERH_HARD_LIMIT (envs k1 e) then Some (- 1, k1)
       else do {
         k2 \<leftarrow> mark_up_to (env_page_directory (envs k1 e)) old_USERH_BRK (old_USERH_BRK + noBytes) k1;
         Some (old_USERH_BRK, update_env e (\<lambda>x. x\<lparr>USERH_BRK := USERH_BRK x + noBytes\<rparr>) k2)
       }
     }
   }"

text \<open>The loop ends at \<^verbatim>\<open>size = 0\<close>; a size that is no multiple of the page size wraps around first.\<close>

partial_function (option) allocate_user_mem :: "ptr \<Rightarrow> u32 \<Rightarrow> u32 \<Rightarrow> kern \<Rightarrow> kern option" where
  "allocate_user_mem e virtual_address sz k =
    (if sz > 0 then do {
       k1 \<leftarrow> mark_page (env_page_directory (envs k e)) virtual_address k;
       allocate_user_mem e (virtual_address + PAGE_SIZE) (sz - PAGE_SIZE) k1
     }
     else Some k)"

section \<open>Free pages\<close>

definition page_free :: "ptr \<Rightarrow> u32 \<Rightarrow> kern \<Rightarrow> bool option" where
  "page_free dir page k = do {
     (_, t) \<leftarrow> get_page_table dir page k;
     if t = NULL then Some True
     else do {
       permissions \<leftarrow> pt_get_page_permissions dir page k;
       Some (permissions AND PAGE_MARKED = 0 \<and> permissions AND PAGE_FAULTED = 0)
     }
   }"

partial_function (option) find_free_pages :: "ptr \<Rightarrow> u32 \<Rightarrow> u32 \<Rightarrow> u32 \<Rightarrow> u32 \<Rightarrow> kern \<Rightarrow> u32 option" where
  "find_free_pages dir noOfPages page n begin_page k =
    (if page < USER_HEAP_MAX then do {
       fr \<leftarrow> page_free dir page k;
       let begin_page = (if fr then (if n = 0 then page else begin_page) else NULL);
       let n = (if fr then n + 1 else 0);
       if n \<ge> noOfPages then Some begin_page else find_free_pages dir noOfPages (page + PAGE_SIZE) n begin_page k
     }
     else Some NULL)"

definition getConsecutiveFreePages :: "ptr \<Rightarrow> u32 \<Rightarrow> kern \<Rightarrow> u32 option" where
  "getConsecutiveFreePages e sz k =
    find_free_pages (env_page_directory (envs k e)) (sz div PAGE_SIZE) (USERH_HARD_LIMIT (envs k e) + PAGE_SIZE) 0 NULL k"

section \<open>Freeing pages\<close>

text \<open>A page in memory leaves the working set, its element goes back to the kernel heap.\<close>

definition free_user_frame :: "ptr \<Rightarrow> u32 \<Rightarrow> kern \<Rightarrow> kern option" where
  "free_user_frame e va k = do {
     let dir = env_page_directory (envs k e);
     (_, _) \<leftarrow> get_page_table dir va k;
     (f, _) \<leftarrow> get_frame_info dir va k;
     if f = NULL then None
     else do {
       let element = addr_working_set_element (frames k f);
       k1 \<leftarrow> unmap_frame dir va k;
       let k2 = (if page_last_WS_element (envs k1 e) = element then
                   update_env e (\<lambda>x. x\<lparr>page_last_WS_element :=
                     (if page_last_WS_element x = lh_last (page_WS_list x) then lh_first (page_WS_list x)
                      else ws_next (ws_elements k1 element))\<rparr>) k1
                 else k1);
       k3 \<leftarrow> on_page_WS_list e (LIST_REMOVE ws_links element) k2;
       k4 \<leftarrow> kfree element k3;
       Some (update_frame f (\<lambda>i. i\<lparr>addr_working_set_element := NULL\<rparr>) k4)
     }
   }"

definition free_user_page :: "ptr \<Rightarrow> u32 \<Rightarrow> kern \<Rightarrow> kern option" where
  "free_user_page e va k = do {
     let dir = env_page_directory (envs k e);
     permissions \<leftarrow> pt_get_page_permissions dir va k;
     k2 \<leftarrow> (if permissions AND PAGE_FAULTED = PAGE_FAULTED then do {
       k1 \<leftarrow> (if permissions AND PERM_PRESENT = 0 then pf_remove_env_page e va k else free_user_frame e va k);
       pt_set_page_permissions dir va 0 PAGE_FAULTED k1
     } else Some k);
     pt_set_page_permissions dir va 0 PAGE_MARKED k2
   }"

partial_function (option) free_user_mem :: "ptr \<Rightarrow> u32 \<Rightarrow> u32 \<Rightarrow> kern \<Rightarrow> kern option" where
  "free_user_mem e virtual_address sz k =
    (if sz > 0 then do {
       k1 \<leftarrow> free_user_page e virtual_address k;
       free_user_mem e (virtual_address + PAGE_SIZE) (sz - PAGE_SIZE) k1
     }
     else Some k)"

end
