(* ===== verification/FOS_EnvLoad.thy ===== *)
theory FOS_EnvLoad
  imports FOS_UserMem FOS_String
begin

text \<open>
  Creating a process, \<^verbatim>\<open>kern/proc/user_environment.c\<close>: taking a process structure, building its page
  directory, kernel stack and register frames, giving it a number, and loading the segments of its
  program into memory and into the page file.

  Programs are part of the kernel image: \<open>programs\<close> lists their names and where they start, in
  the memory \<open>kmem\<close>. A page directory that is loaded into \<^verbatim>\<open>cr3\<close> is an argument of the accesses
  that go through it. The trap frame and the context live on the kernel stack, in \<open>kmem\<close>.
\<close>

record image =
  programs :: "(u8 list \<times> ptr) list"
  trapret :: u32
  env_start_address :: u32

section \<open>Numbers of processes\<close>

text \<open>The two functions of \<^verbatim>\<open>kern/tests/utilities.c\<close>; \<^verbatim>\<open>while (x >>= 1)\<close> goes on as long as the shifted value is not 0.\<close>

function pow2_loop :: "u32 \<Rightarrow> u32 \<Rightarrow> u32" where
  "pow2_loop x pow = (let x = drop_bit 1 x in if x \<noteq> 0 then pow2_loop x (push_bit 1 pow) else pow)"
  by pat_completeness auto
termination
  by (relation "measure (\<lambda>(x, _). unat x)")
    (auto simp: drop_bit_eq_div unat_div intro!: div_less_dividend simp: unat_gt_0)

definition nearest_pow2_ceil :: "u32 \<Rightarrow> u32" where
  "nearest_pow2_ceil x = (if x \<le> 1 then 1 else pow2_loop (x - 1) 2)"

function log2_loop :: "u32 \<Rightarrow> u32 \<Rightarrow> u32" where
  "log2_loop x bits_cnt = (let x = drop_bit 1 x in if x \<noteq> 0 then log2_loop x (bits_cnt + 1) else bits_cnt)"
  by pat_completeness auto
termination
  by (relation "measure (\<lambda>(x, _). unat x)")
    (auto simp: drop_bit_eq_div unat_div intro!: div_less_dividend simp: unat_gt_0)

definition log2_ceil :: "u32 \<Rightarrow> u32" where
  "log2_ceil x = (if x \<le> 1 then 1 else log2_loop (x - 1) 2)"

declare pow2_loop.simps [simp del] log2_loop.simps [simp del]

definition ENVGENSHIFT :: "kern \<Rightarrow> nat" where
  "ENVGENSHIFT k = unat (log2_ceil (NENV k))"

definition next_env_id :: "u32 \<Rightarrow> u32 \<Rightarrow> kern \<Rightarrow> u32" where
  "next_env_id old index k =
    (let g = (old + push_bit (ENVGENSHIFT k) 1) AND NOT (NEARPOW2NENV k - 1);
         g = (if sint g \<le> 0 then push_bit (ENVGENSHIFT k) 1 else g)
     in g OR index)"

section \<open>Memory of the kernel and of a process\<close>

definition on_kmem :: "(memory \<Rightarrow> memory) \<Rightarrow> kern \<Rightarrow> kern" where
  "on_kmem f k = k\<lparr>kmem := f (kmem k)\<rparr>"

definition load16 :: "memory \<Rightarrow> u32 \<Rightarrow> u32" where
  "load16 m a = ucast (m a) OR push_bit 8 (ucast (m (a + 1)))"

definition store16 :: "u32 \<Rightarrow> u32 \<Rightarrow> memory \<Rightarrow> memory" where
  "store16 a v m = m(a := ucast v, a + 1 := ucast (drop_bit 8 v))"

definition zero_bytes :: "u32 \<Rightarrow> nat \<Rightarrow> memory \<Rightarrow> memory" where
  "zero_bytes a n m = (\<lambda>x. if unat (x - a) < n then 0 else m x)"

text \<open>A byte stored at a user address through the page directory \<open>dir\<close>; a page that is not mapped faults.\<close>

definition store_user :: "ptr \<Rightarrow> u32 \<Rightarrow> u8 \<Rightarrow> kern \<Rightarrow> kern option" where
  "store_user dir va b k = do {
     (f, t) \<leftarrow> get_frame_info dir va k;
     if f = NULL \<or> words k t (PTX va) AND PERM_PRESENT = 0 then None
     else Some (k\<lparr>frame_data := (frame_data k)(f := (frame_data k f)(PGOFF va := b))\<rparr>)
   }"

primrec store_users :: "ptr \<Rightarrow> u32 \<Rightarrow> (nat \<Rightarrow> u8) \<Rightarrow> nat \<Rightarrow> kern \<Rightarrow> kern option" where
  "store_users dir va b 0 k = Some k"
| "store_users dir va b (Suc n) k = do { k1 \<leftarrow> store_users dir va b n k; store_user dir (va + of_nat n) (b n) k1 }"

section \<open>Stacks and directories\<close>

abbreviation "KERNEL_STACK_SIZE \<equiv> 8 * PAGE_SIZE"

definition create_user_directory :: "kern \<Rightarrow> (ptr \<times> kern) option" where
  "create_user_directory k = do {
     (p, k1) \<leftarrow> kmalloc PAGE_SIZE k;
     if p = NULL then None else Some (p, k1)
   }"

definition create_user_kern_stack :: "kern \<Rightarrow> (ptr \<times> kern) option" where
  "create_user_kern_stack k = do {
     (p, k1) \<leftarrow> kmalloc KERNEL_STACK_SIZE k;
     if p = NULL then None
     else do {
       k2 \<leftarrow> pt_set_page_permissions (ptr_page_directory k1) p 0 PERM_PRESENT k1;
       Some (p, k2)
     }
   }"

text \<open>\<^verbatim>\<open>initialize_dynamic_allocator(daStart, 0)\<close> returns at once.\<close>

definition initialize_uheap_dynamic_allocator :: "ptr \<Rightarrow> u32 \<Rightarrow> u32 \<Rightarrow> kern \<Rightarrow> kern option" where
  "initialize_uheap_dynamic_allocator e daStart daLimit k = do {
     let k1 = update_env e (\<lambda>x. x\<lparr>USERH_START := daStart, USERH_BRK := daStart, USERH_HARD_LIMIT := daLimit\<rparr>) k;
     s \<leftarrow> initialize_dynamic_allocator daStart 0 (to_da k1);
     Some (of_da s)
   }"

section \<open>Initialising a process\<close>

text \<open>The entries of the directory: none for user addresses, those of the kernel above.\<close>

definition kernel_part :: "ptr \<Rightarrow> kern \<Rightarrow> kern" where
  "kernel_part dir k = k\<lparr>words := (words k)(dir :=
     (\<lambda>i. if i < PDX USER_TOP then 0 else if i < 1024 then words k (ptr_page_directory k) i else words k dir i))\<rparr>"

text \<open>
  The kernel stack from the top: the trap frame of 68 bytes, the address of \<^verbatim>\<open>trapret\<close>, and the context of
  32 bytes with \<^verbatim>\<open>eip\<close> last.
\<close>

definition SIZEOF_TRAPFRAME :: u32 where
  "SIZEOF_TRAPFRAME = 0x44"

definition set_up_stack :: "image \<Rightarrow> ptr \<Rightarrow> kern \<Rightarrow> kern" where
  "set_up_stack img e k =
    (let sp = kstack (envs k e) + KERNEL_STACK_SIZE - SIZEOF_TRAPFRAME;
         k1 = update_env e (\<lambda>x. x\<lparr>env_tf := sp\<rparr>) k;
         sp1 = sp - 4;
         k2 = on_kmem (store32 sp1 (trapret img)) k1;
         sp2 = sp1 - 32;
         k3 = update_env e (\<lambda>x. x\<lparr>env_context := sp2\<rparr>) k2
     in on_kmem (store32 (sp2 + 28) (env_start_address img)) (on_kmem (zero_bytes sp2 32) k3))"

abbreviation "GD_UT \<equiv> 0x18 :: u32"
abbreviation "GD_UD \<equiv> 0x20 :: u32"
abbreviation "VPT \<equiv> 0xEFC00000 :: u32"
abbreviation "UVPT \<equiv> 0xEF400000 :: u32"

text \<open>The fields of the trap frame: \<^verbatim>\<open>es\<close> at 32, \<^verbatim>\<open>ds\<close> 36, \<^verbatim>\<open>eip\<close> 48, \<^verbatim>\<open>cs\<close> 52, \<^verbatim>\<open>eflags\<close> 56, \<^verbatim>\<open>esp\<close> 60, \<^verbatim>\<open>ss\<close> 64.\<close>

definition user_registers :: "u32 \<Rightarrow> memory \<Rightarrow> memory" where
  "user_registers tf m =
    (let m1 = zero_bytes tf (unat SIZEOF_TRAPFRAME) m;
         m2 = store16 (tf + 36) (GD_UD OR 3) m1;
         m3 = store16 (tf + 32) (GD_UD OR 3) m2;
         m4 = store16 (tf + 64) (GD_UD OR 3) m3;
         m5 = store32 (tf + 60) USTACKTOP m4;
         m6 = store16 (tf + 52) (GD_UT OR 3) m5
     in store32 (tf + 56) (load32 m6 (tf + 56) OR FL_IF) m6)"

text \<open>\<^verbatim>\<open>e - envs\<close>: the number of the slot that \<open>e\<close> is.\<close>

definition env_index :: "ptr \<Rightarrow> kern \<Rightarrow> u32" where
  "env_index e k = of_nat (case_option 0 id (List.find (\<lambda>i. env_slot k (of_nat i) = e) [0..<unat (NENV k)]))"

definition complete_environment_initialization :: "ptr \<Rightarrow> kern \<Rightarrow> kern option" where
  "complete_environment_initialization e k = do {
     let dir = env_page_directory (envs k e);
     let k1 = set_word dir (PDX VPT) (env_cr3 (envs k e) OR PERM_PRESENT OR PERM_WRITEABLE) k;
     let k2 = set_word dir (PDX UVPT) (env_cr3 (envs k e) OR PERM_PRESENT OR PERM_USER) k1;
     let k3 = update_env e (\<lambda>x. x\<lparr>disk_env_pgdir := NULL, disk_env_pgdir_PA := 0, disk_env_tabledir := NULL,
       disk_env_tabledir_PA := 0, env_id := next_env_id (env_id x) (env_index e k2) k2\<rparr>) k2;
     (cur_env, k4) \<leftarrow> cur_proc k3;
     let parent = (if cur_env = NULL then 0 else env_id (envs k4 cur_env));
     let k5 = update_env e (\<lambda>x. x\<lparr>env_parent_id := parent, env_status := ENV_NEW, env_runs := 0\<rparr>) k4;
     let k6 = on_kmem (user_registers (env_tf (envs k5 e))) k5;
     (q, t) \<leftarrow> LIST_REMOVE env_links e (env_free_list k6) (envs k6);
     Some (k6\<lparr>env_free_list := q, envs := t\<rparr>)
   }"

abbreviation "DYN_ALLOC_MAX_SIZE \<equiv> 0x2000000 :: u32"

definition clear_working_sets :: "env \<Rightarrow> env" where
  "clear_working_sets x =
    x\<lparr>page_WS_list := LIST_INIT (page_WS_list x),
      ptr_tws := (\<lambda>i. if i < TWS_MAX_SIZE then (ptr_tws x i)\<lparr>ws_virtual_address := 0, ws_empty := 1, time_stamp := 0\<rparr> else ptr_tws x i),
      table_last_WS_index := 0, pageFaultsCounter := 0, tableFaultsCounter := 0, freeingFullWSCounter := 0,
      freeingScarceMemCounter := 0, nModifiedPages := 0, nNotModifiedPages := 0, nClocks := 0,
      nPageIn := 0, nPageOut := 0, nNewPageAdded := 0\<rparr>"

definition initialize_environment :: "image \<Rightarrow> ptr \<Rightarrow> ptr \<Rightarrow> u32 \<Rightarrow> kern \<Rightarrow> kern option" where
  "initialize_environment img e dir phys k = do {
     let k1 = update_env e (\<lambda>x. x\<lparr>env_page_directory := dir, env_cr3 := phys\<rparr>) k;
     let k2 = kernel_part dir k1;
     (st, k3) \<leftarrow> create_user_kern_stack k2;
     let k4 = set_up_stack img e (update_env e (\<lambda>x. x\<lparr>kstack := st\<rparr>) k3);
     let k5 = update_env e clear_working_sets k4;
     k6 \<leftarrow> initialize_uheap_dynamic_allocator e USER_HEAP_START (USER_HEAP_START + DYN_ALLOC_MAX_SIZE) k5;
     complete_environment_initialization e k6
   }"

text \<open>\<^verbatim>\<open>memset(e, 0, sizeof( *e))\<close>.\<close>

definition zero_ws_element :: ws_element where
  "zero_ws_element = \<lparr>ws_virtual_address = 0, ws_empty = 0, time_stamp = 0, sweeps_counter = 0, ws_next = NULL, ws_prev = NULL\<rparr>"

definition zero_head :: list_head where
  "zero_head = \<lparr>lh_first = NULL, lh_last = NULL, lh_size = 0\<rparr>"

definition zero_env :: env where
  "zero_env = \<lparr>env_id = 0, env_parent_id = 0, env_status = 0, priority = 0, env_next = NULL, env_prev = NULL,
     kstack = NULL, env_page_directory = NULL, env_cr3 = 0, USERH_START = 0, USERH_BRK = 0, USERH_HARD_LIMIT = 0,
     page_WS_max_size = 0, page_WS_list = zero_head, page_last_WS_element = NULL, ptr_tws = (\<lambda>_. zero_ws_element),
     ActiveList = zero_head, SecondList = zero_head, initNumStackPages = 0, disk_env_pgdir = NULL, disk_env_pgdir_PA = 0,
     disk_env_tabledir = NULL, disk_env_tabledir_PA = 0, pageFaultsCounter = 0, tableFaultsCounter = 0,
     nPageIn = 0, nPageOut = 0, nNewPageAdded = 0, nClocks = 0, env_tf = NULL, env_context = NULL, prog_name = [],
     env_runs = 0, table_last_WS_index = 0, ActiveListSize = 0, SecondListSize = 0,
     percentage_of_WS_pages_to_be_removed = 0, freeingFullWSCounter = 0, freeingScarceMemCounter = 0,
     nModifiedPages = 0, nNotModifiedPages = 0\<rparr>"

definition free_environment :: "ptr \<Rightarrow> kern \<Rightarrow> kern option" where
  "free_environment e k = do {
     let k1 = set_env_status e ENV_FREE (update_env e (\<lambda>_. zero_env) k);
     (q, t) \<leftarrow> LIST_INSERT_HEAD env_links e (env_free_list k1) (envs k1);
     Some (k1\<lparr>env_free_list := q, envs := t\<rparr>)
   }"

end
