(* ===== verification/FOS_Loader.thy ===== *)
theory FOS_Loader
  imports FOS_EnvLoad
begin

text \<open>
  Loading a program, \<^verbatim>\<open>env_create\<close> and its helpers in \<^verbatim>\<open>kern/proc/user_environment.c\<close>. The program is an
  ELF file in kernel memory. Each of its segments is copied into the first pages of the process that
  its working set has room for, and all of it goes to the page file.
\<close>

section \<open>The segments of a program\<close>

text \<open>The headers of \<^verbatim>\<open>inc/elf.h\<close>, at an address \<open>p\<close>: \<^verbatim>\<open>e_entry\<close> at 24, \<^verbatim>\<open>e_phoff\<close> 28, \<^verbatim>\<open>e_phnum\<close> 44; program headers of 32 bytes.\<close>

abbreviation "ELF_MAGIC \<equiv> 0x464C457F :: u32"
abbreviation "ELF_PROG_LOAD \<equiv> 1 :: u32"

record program_segment =
  seg_ptr_start :: ptr
  size_in_file :: u32
  size_in_memory :: u32
  seg_virtual_address :: u32
  segment_id :: u32

definition program_headers :: "memory \<Rightarrow> ptr \<Rightarrow> ptr" where
  "program_headers m p = p + load32 m (p + 28)"

definition e_phnum :: "memory \<Rightarrow> ptr \<Rightarrow> u32" where
  "e_phnum m p = load16 m (p + 44)"

definition p_type :: "memory \<Rightarrow> ptr \<Rightarrow> u32 \<Rightarrow> u32" where
  "p_type m p i = load32 m (program_headers m p + 32 * i)"

definition segment_at :: "memory \<Rightarrow> ptr \<Rightarrow> u32 \<Rightarrow> program_segment" where
  "segment_at m p i =
    (let h = program_headers m p + 32 * i in
     \<lparr>seg_ptr_start = p + load32 m (h + 4), size_in_file = load32 m (h + 16), size_in_memory = load32 m (h + 20),
      seg_virtual_address = load32 m (h + 8), segment_id = i\<rparr>)"

text \<open>The \<^verbatim>\<open>while\<close> loop both functions share: on to the next header to be loaded.\<close>

function scan_load :: "(u32 \<Rightarrow> bool) \<Rightarrow> u32 \<Rightarrow> u32 \<Rightarrow> u32" where
  "scan_load is_load n i = (if \<not> is_load i \<and> i < n then scan_load is_load n (i + 1) else i)"
  by pat_completeness auto
termination
proof (relation "measure (\<lambda>(_, n, i). unat n - unat i)")
  fix n i :: u32 and is_load
  assume "\<not> is_load i \<and> i < n"
  then have "i < n" by simp
  then have "unat i < unat n" by (simp add: word_less_nat_alt)
  moreover from this have "unat (i + 1) = unat i + 1" using unat_u32_bound [of n] by (subst unat_word_ariths) simp
  ultimately show "((is_load, n, i + 1), is_load, n, i) \<in> measure (\<lambda>(_, n, i). unat n - unat i)" by simp
qed simp

declare scan_load.simps [simp del]

definition segment_from :: "memory \<Rightarrow> ptr \<Rightarrow> u32 \<Rightarrow> program_segment option option" where
  "segment_from m p i =
    (if load32 m p \<noteq> ELF_MAGIC then None
     else
       let j = scan_load (\<lambda>i. p_type m p i = ELF_PROG_LOAD) (e_phnum m p) i
       in Some (if j < e_phnum m p then Some (segment_at m p j) else None))"

definition PROGRAM_SEGMENT_FIRST :: "memory \<Rightarrow> ptr \<Rightarrow> program_segment option option" where
  "PROGRAM_SEGMENT_FIRST m p = segment_from m p 0"

definition PROGRAM_SEGMENT_NEXT :: "program_segment \<Rightarrow> memory \<Rightarrow> ptr \<Rightarrow> program_segment option option" where
  "PROGRAM_SEGMENT_NEXT seg m p = segment_from m p (segment_id seg + 1)"

text \<open>\<^verbatim>\<open>PROGRAM_SEGMENT_FOREACH\<close>, from a segment on; \<open>mem\<close> is the memory in the state of the loop.\<close>

partial_function (option) foreach_segment ::
  "('s \<Rightarrow> memory) \<Rightarrow> ptr \<Rightarrow> (program_segment \<Rightarrow> 's \<Rightarrow> 's option) \<Rightarrow> program_segment option \<Rightarrow> 's \<Rightarrow> 's option" where
  "foreach_segment mem p body seg s =
    (case seg of
       None \<Rightarrow> Some s
     | Some g \<Rightarrow> do {
         s1 \<leftarrow> body g s;
         next \<leftarrow> PROGRAM_SEGMENT_NEXT g (mem s1) p;
         foreach_segment mem p body next s1
       })"

definition set_environment_entry_point :: "ptr \<Rightarrow> ptr \<Rightarrow> kern \<Rightarrow> kern option" where
  "set_environment_entry_point e p k =
    (if load32 (kmem k) p \<noteq> ELF_MAGIC then None
     else Some (on_kmem (store32 (env_tf (envs k e) + 48) (load32 (kmem k) (p + 24))) k))"

section \<open>A segment in memory\<close>

definition ws_insert :: "ptr \<Rightarrow> u32 \<Rightarrow> ptr \<Rightarrow> kern \<Rightarrow> kern option" where
  "ws_insert e room w k = do {
     k1 \<leftarrow> on_page_WS_list e (LIST_REMOVE ws_links w) k;
     if lh_size (ActiveList (envs k1 e)) < room then on_ActiveList e (LIST_INSERT_HEAD ws_links w) k1
     else on_SecondList e (LIST_INSERT_HEAD ws_links w) k1
   }"

definition note_last_ws :: "ptr \<Rightarrow> kern \<Rightarrow> kern" where
  "note_last_ws e = update_env e (\<lambda>x. x\<lparr>page_last_WS_element :=
     (if lh_size (page_WS_list x) = page_WS_max_size x then lh_first (page_WS_list x) else NULL)\<rparr>)"

definition note_table :: "ptr \<Rightarrow> u32 \<Rightarrow> u32 \<Rightarrow> kern \<Rightarrow> (u32 \<times> kern) option" where
  "note_table e va lastTableNumber k =
    (if PDX va \<noteq> lastTableNumber then
       let i = unat (table_last_WS_index (envs k e));
           k1 = set_tws e i (\<lambda>x. x\<lparr>ws_virtual_address := ROUNDDOWN va TABLE_SPAN, ws_empty := 0, time_stamp := 0\<rparr>) k;
           k2 = update_env e (\<lambda>x. x\<lparr>table_last_WS_index := (table_last_WS_index x + 1) mod of_nat TWS_MAX_SIZE\<rparr>) k1
       in if table_last_WS_index (envs k2 e) = 0 then None else Some (PDX va, k2)
     else Some (lastTableNumber, k))"

definition place_segment_page :: "ptr \<Rightarrow> u32 \<Rightarrow> u32 \<Rightarrow> kern \<Rightarrow> (u32 \<times> kern) option" where
  "place_segment_page e va lastTableNumber k = do {
     (f, k1) \<leftarrow> allocate_frame k;
     k2 \<leftarrow> loadtime_map_frame (env_page_directory (envs k1 e)) f va (PERM_USER OR PERM_WRITEABLE) k1;
     (w, k3) \<leftarrow> env_page_ws_list_create_element e va k2;
     k4 \<leftarrow> on_page_WS_list e (LIST_INSERT_TAIL ws_links w) (on_ws_element w (\<lambda>x. x\<lparr>time_stamp := 0\<rparr>) k3);
     k5 \<leftarrow> (if isPageReplacmentAlgorithmLRU PG_REP_LRU_LISTS_APPROX k4
            then ws_insert e (ActiveListSize (envs k4 e) - 1) w k4 else Some k4);
     note_table e va lastTableNumber (note_last_ws e k5)
   }"

text \<open>\<open>i\<close> pages are loaded; the result has their number, the last table and the state.\<close>

partial_function (option) place_segment :: "ptr \<Rightarrow> u32 \<Rightarrow> u32 \<Rightarrow> u32 \<Rightarrow> u32 \<Rightarrow> u32 \<Rightarrow> kern \<Rightarrow> (u32 \<times> u32 \<times> kern) option" where
  "place_segment e va end_va i room lastTableNumber k =
    (if va < end_va \<and> i < room then do {
       (last, k1) \<leftarrow> place_segment_page e va lastTableNumber k;
       place_segment e (va + PAGE_SIZE) end_va (i + 1) room last k1
     }
     else Some (i, lastTableNumber, k))"

text \<open>The program \<^verbatim>\<open>tpp\<close> alone gets more than six pages of the segment at 0x200000.\<close>

definition ws_room :: "env \<Rightarrow> u32 \<Rightarrow> u32 \<Rightarrow> u32" where
  "ws_room x va remaining_ws_pages =
    (if va = 0x200000 \<and> prog_name x \<noteq> ascii ''tpp'' then (if remaining_ws_pages < 6 then remaining_ws_pages else 6)
     else remaining_ws_pages)"

definition program_segment_alloc_map_copy_workingset ::
  "ptr \<Rightarrow> program_segment \<Rightarrow> u32 \<Rightarrow> u32 \<Rightarrow> kern \<Rightarrow> (u32 \<times> u32 \<times> kern) option" where
  "program_segment_alloc_map_copy_workingset e seg remaining_ws_pages lastTableNumber k = do {
     let vaddr = seg_virtual_address seg;
     let first = ROUNDDOWN vaddr PAGE_SIZE;
     let room = ws_room (envs k e) first remaining_ws_pages;
     (allocated, last, k1) \<leftarrow> place_segment e first (ROUNDUP (vaddr + size_in_memory seg) PAGE_SIZE) 0 room lastTableNumber k;
     let loaded = first + allocated * PAGE_SIZE;
     let copied = unat (min loaded (vaddr + size_in_file seg)) - unat vaddr;
     let dir = env_page_directory (envs k1 e);
     k2 \<leftarrow> store_users dir vaddr (\<lambda>j. kmem k1 (seg_ptr_start seg + of_nat j)) copied k1;
     let dst = vaddr + of_nat copied;
     k3 \<leftarrow> store_users dir dst (\<lambda>_. 0) (unat loaded - unat dst) k2;
     Some (allocated, last, k3)
   }"

section \<open>A segment in the page file\<close>

definition add_page :: "ptr \<Rightarrow> u32 \<Rightarrow> ptr \<Rightarrow> kern \<Rightarrow> kern option" where
  "add_page e va src k = do {
     (r, k1) \<leftarrow> pf_add_env_page e va (kernel_page src k) k;
     if r = E_NO_PAGE_FILE_SPACE then None else Some k1
   }"

primrec copy_bytes :: "u32 \<Rightarrow> u32 \<Rightarrow> nat \<Rightarrow> memory \<Rightarrow> memory" where
  "copy_bytes dst src 0 m = m"
| "copy_bytes dst src (Suc n) m = (let m1 = copy_bytes dst src n m in m1(dst + of_nat n := m1 (src + of_nat n)))"

text \<open>A page that the segment fills only in part, put together in the page at \<^verbatim>\<open>ptr_temp_page\<close>.\<close>

definition add_partial_page :: "ptr \<Rightarrow> u32 \<Rightarrow> u32 \<Rightarrow> u32 \<Rightarrow> nat \<Rightarrow> kern \<Rightarrow> kern option" where
  "add_partial_page e va offset src n k =
    add_page e va (ptr_temp_page k)
      (on_kmem (\<lambda>m. copy_bytes (ptr_temp_page k + offset) src n (zero_bytes (ptr_temp_page k) 4096 m)) k)"

partial_function (option) add_full_pages :: "ptr \<Rightarrow> u32 \<Rightarrow> u32 \<Rightarrow> u32 \<Rightarrow> kern \<Rightarrow> (u32 \<times> kern) option" where
  "add_full_pages e va end_va src k =
    (if va < end_va then do {
       k1 \<leftarrow> add_page e va src k;
       add_full_pages e (va + PAGE_SIZE) end_va (src + PAGE_SIZE) k1
     }
     else Some (src, k))"

partial_function (option) add_empty_pages :: "ptr \<Rightarrow> u32 \<Rightarrow> u32 \<Rightarrow> u32 \<Rightarrow> kern \<Rightarrow> kern option" where
  "add_empty_pages e va i end_i k =
    (if i < end_i then do {
       (r, k1) \<leftarrow> pf_add_empty_env_page e va True k;
       if r = E_NO_PAGE_FILE_SPACE then None else add_empty_pages e (va + PAGE_SIZE) (i + PAGE_SIZE) end_i k1
     }
     else Some k)"

definition write_segment :: "ptr \<Rightarrow> program_segment \<Rightarrow> kern \<Rightarrow> kern option" where
  "write_segment e seg k = do {
     let src = seg_ptr_start seg;
     let seg_va = seg_virtual_address seg;
     let start_first_page = ROUNDDOWN seg_va PAGE_SIZE;
     let end_first_page = ROUNDUP seg_va PAGE_SIZE;
     let offset = seg_va - start_first_page;
     k1 \<leftarrow> (if offset \<noteq> 0 then add_partial_page e start_first_page offset src (unat end_first_page - unat seg_va) k else Some k);
     let src = (if offset \<noteq> 0 then src + of_nat (unat end_first_page - unat seg_va) else src);
     let start_last_page = ROUNDDOWN (seg_va + size_in_file seg) PAGE_SIZE;
     let end_last_page = seg_va + size_in_file seg;
     (src, k2) \<leftarrow> add_full_pages e end_first_page start_last_page src k1;
     k3 \<leftarrow> add_partial_page e start_last_page 0 src (unat end_last_page - unat start_last_page) k2;
     let start_remaining_area = ROUNDUP (seg_va + size_in_file seg) PAGE_SIZE;
     let remainingLength = (seg_va + size_in_memory seg) - start_remaining_area;
     add_empty_pages e start_remaining_area 0 (ROUNDUP remainingLength PAGE_SIZE) k3
   }"

section \<open>Creating a process\<close>

definition get_user_program_info :: "image \<Rightarrow> u8 list \<Rightarrow> (u8 list \<times> ptr) option" where
  "get_user_program_info img name = List.find (\<lambda>p. fst p = name) (programs img)"

text \<open>The body of the loop over the segments: the pages left in the working set, the last table, the state.\<close>

definition load_segment :: "ptr \<Rightarrow> program_segment \<Rightarrow> u32 \<times> u32 \<times> kern \<Rightarrow> (u32 \<times> u32 \<times> kern) option" where
  "load_segment e seg = (\<lambda>(remaining_ws_pages, lastTableNumber, k). do {
     (allocated, last, k1) \<leftarrow> program_segment_alloc_map_copy_workingset e seg remaining_ws_pages lastTableNumber k;
     k2 \<leftarrow> write_segment e seg k1;
     Some (remaining_ws_pages - allocated, last, k2)
   })"

text \<open>Clearing the modified bits; a page of the working set without a page table would be a store through \<^verbatim>\<open>NULL\<close>.\<close>

definition clear_modified :: "ptr \<Rightarrow> kern \<Rightarrow> kern option" where
  "clear_modified e k = do {
     (_, k1) \<leftarrow> ws_foreach (\<lambda>w k. do {
         let va = ws_virtual_address (ws_elements k w);
         (_, t) \<leftarrow> get_page_table (env_page_directory (envs k e)) va k;
         if t = NULL then None else Some (False, set_word t (PTX va) (words k t (PTX va) AND NOT PERM_MODIFIED) k)
       }) (page_WS_list (envs k e)) k;
     Some k1
   }"

definition load_stack :: "ptr \<Rightarrow> kern \<Rightarrow> kern option" where
  "load_stack e k = do {
     let va = USTACKTOP - PAGE_SIZE;
     (f, k1) \<leftarrow> allocate_frame (update_env e (\<lambda>x. x\<lparr>initNumStackPages := 1\<rparr>) k);
     k2 \<leftarrow> loadtime_map_frame (env_page_directory (envs k1 e)) f va (PERM_USER OR PERM_WRITEABLE) k1;
     k3 \<leftarrow> store_users (env_page_directory (envs k2 e)) va (\<lambda>_. 0) 4096 k2;
     (w, k4) \<leftarrow> env_page_ws_list_create_element e va k3;
     k5 \<leftarrow> on_page_WS_list e (LIST_INSERT_TAIL ws_links w) k4;
     let k6 = note_last_ws e k5;
     k7 \<leftarrow> (if isPageReplacmentAlgorithmLRU PG_REP_LRU_LISTS_APPROX k6 then ws_insert e (ActiveListSize (envs k6 e)) w k6 else Some k6);
     (_, k8) \<leftarrow> pf_add_empty_env_page e va True k7;
     Some k8
   }"

definition hide_second_list :: "ptr \<Rightarrow> kern \<Rightarrow> kern option" where
  "hide_second_list e k =
    (if isPageReplacmentAlgorithmLRU PG_REP_LRU_LISTS_APPROX k then do {
       (_, k1) \<leftarrow> ws_foreach (\<lambda>w k. do {
           k1 \<leftarrow> pt_set_page_permissions (env_page_directory (envs k e)) (ws_virtual_address (ws_elements k w)) 0 PERM_PRESENT k;
           Some (False, k1)
         }) (SecondList (envs k e)) k;
       Some k1
     }
     else Some k)"

text \<open>\<^verbatim>\<open>PROGNAMELEN\<close> is 64.\<close>

definition name_and_sizes :: "u8 list \<Rightarrow> u32 \<Rightarrow> u32 \<Rightarrow> u32 \<Rightarrow> bool \<Rightarrow> env \<Rightarrow> env" where
  "name_and_sizes name page_WS_size LRU_second_list_size percent lru x =
    x\<lparr>prog_name := take 63 name, page_WS_max_size := page_WS_size,
      SecondListSize := (if lru then LRU_second_list_size else SecondListSize x),
      ActiveListSize := (if lru then page_WS_size - LRU_second_list_size else ActiveListSize x),
      percentage_of_WS_pages_to_be_removed := (if percent = 0 then 10 else percent)\<rparr>"

definition load_program :: "ptr \<Rightarrow> ptr \<Rightarrow> kern \<Rightarrow> kern option" where
  "load_program e p k = do {
     let k1 = k\<lparr>kcpu := pushcli (kcpu k)\<rparr>;
     seg \<leftarrow> PROGRAM_SEGMENT_FIRST (kmem k1) p;
     (_, _, k2) \<leftarrow> foreach_segment (\<lambda>(_, _, k). kmem k) p (load_segment e) seg (page_WS_max_size (envs k1 e) - 1, - 1, k1);
     k3 \<leftarrow> clear_modified e k2;
     k4 \<leftarrow> set_environment_entry_point e p k3;
     k5 \<leftarrow> load_stack e k4;
     k6 \<leftarrow> hide_second_list e k5;
     c \<leftarrow> popcli (kcpu k6);
     Some (k6\<lparr>kcpu := c\<rparr>)
   }"

text \<open>The result is \<^verbatim>\<open>NULL\<close> for an unknown program or without a free structure.\<close>

definition env_create :: "image \<Rightarrow> u8 list \<Rightarrow> u32 \<Rightarrow> u32 \<Rightarrow> u32 \<Rightarrow> kern \<Rightarrow> (ptr \<times> kern) option" where
  "env_create img name page_WS_size LRU_second_list_size percent k =
    (case get_user_program_info img name of
       None \<Rightarrow> Some (NULL, k)
     | Some (pname, p) \<Rightarrow>
         (case allocate_environment k of (r, e, k1) \<Rightarrow>
            if r < 0 then Some (NULL, k1)
            else do {
              (dir, k2) \<leftarrow> create_user_directory (update_env e (\<lambda>x. x\<lparr>prog_name := take 63 pname\<rparr>) k1);
              phys \<leftarrow> kheap_physical_address dir k2;
              let lru = isPageReplacmentAlgorithmLRU PG_REP_LRU_LISTS_APPROX k2;
              let k3 = update_env e (name_and_sizes pname page_WS_size LRU_second_list_size percent lru) k2;
              k4 \<leftarrow> initialize_environment img e dir phys k3;
              k5 \<leftarrow> load_program e p k4;
              Some (e, k5)
            }))"

end
