(* ===== verification/FOS_Shared.thy ===== *)
theory FOS_Shared
  imports FOS_Fault
begin

text \<open>
  Shared memory, \<^verbatim>\<open>kern/mem/shared_memory_manager.c\<close>. A shared object is a \<^verbatim>\<open>struct Share\<close> in the
  kernel heap (the typed store \<open>shares\<close>) with an array of the frames that hold it (in \<open>words\<close>).
  Names are byte lists, the characters before the terminating zero; copying one of 64 or more characters
  into the structure overruns it, which is \<open>None\<close>.
\<close>

abbreviation "E_NO_SHARE \<equiv> - 14 :: u32"
abbreviation "E_SHARED_MEM_EXISTS \<equiv> - 15 :: u32"
abbreviation "E_SHARED_MEM_NOT_EXISTS \<equiv> - 16 :: u32"

section \<open>The list of shared objects\<close>

definition acquire_shareslock :: "kern \<Rightarrow> kern option" where
  "acquire_shareslock k = do { (l, c) \<leftarrow> acquire_spinlock (shareslock k) (kcpu k); Some (k\<lparr>shareslock := l, kcpu := c\<rparr>) }"

definition release_shareslock :: "kern \<Rightarrow> kern option" where
  "release_shareslock k = do { (l, c) \<leftarrow> release_spinlock (shareslock k) (kcpu k); Some (k\<lparr>shareslock := l, kcpu := c\<rparr>) }"

definition on_shares_list ::
  "(list_head \<Rightarrow> (ptr \<Rightarrow> share) \<Rightarrow> (list_head \<times> (ptr \<Rightarrow> share)) option) \<Rightarrow> kern \<Rightarrow> kern option" where
  "on_shares_list f k = do { (h, t) \<leftarrow> f (shares_list k) (shares k); Some (k\<lparr>shares_list := h, shares := t\<rparr>) }"

definition update_share :: "ptr \<Rightarrow> (share \<Rightarrow> share) \<Rightarrow> kern \<Rightarrow> kern" where
  "update_share p f k = k\<lparr>shares := (shares k)(p := f (shares k p))\<rparr>"

definition sharing_init :: "kern \<Rightarrow> kern" where
  "sharing_init k = k\<lparr>shares_list := LIST_INIT (shares_list k), shareslock := init_spinlock ''shares lock''\<rparr>"

definition find_share :: "(share \<Rightarrow> bool) \<Rightarrow> kern \<Rightarrow> (ptr \<times> kern) option" where
  "find_share P k = LIST_FOREACH (\<lambda>k p. sh_next (shares k p)) (\<lambda>p k. Some (P (shares k p), k)) (lh_first (shares_list k)) k"

definition get_share :: "u32 \<Rightarrow> u8 list \<Rightarrow> kern \<Rightarrow> (ptr \<times> kern) option" where
  "get_share ownerID name k = do {
     k1 \<leftarrow> acquire_shareslock k;
     (p, k2) \<leftarrow> find_share (\<lambda>s. sh_ownerID s = ownerID \<and> sh_name s = name) k1;
     k3 \<leftarrow> release_shareslock k2;
     Some (p, k3)
   }"

definition getSizeOfSharedObject :: "u32 \<Rightarrow> u8 list \<Rightarrow> kern \<Rightarrow> (u32 \<times> kern) option" where
  "getSizeOfSharedObject ownerID shareName k = do {
     (p, k1) \<leftarrow> get_share ownerID shareName k;
     Some (if p = NULL then E_SHARED_MEM_NOT_EXISTS else sh_size (shares k1 p), k1)
   }"

section \<open>Creating an object\<close>

definition create_frames_storage :: "u32 \<Rightarrow> kern \<Rightarrow> (ptr \<times> kern) option" where
  "create_frames_storage numOfFrames k = do {
     (p, k1) \<leftarrow> kmalloc (numOfFrames * 4) k;
     Some (p, if p = NULL then k1
              else k1\<lparr>words := (words k1)(p := (\<lambda>i. if i < numOfFrames then 0 else words k1 p i))\<rparr>)
   }"

text \<open>\<^verbatim>\<open>sizeof(struct Share)\<close> is 96: seven fields, with the padding after \<^verbatim>\<open>isWritable\<close>, and the links.\<close>

definition SHARE_BYTES :: u32 where
  "SHARE_BYTES = 4 + 4 + 64 + 4 + 4 + 4 + 4 + 8"

definition create_share :: "u32 \<Rightarrow> u8 list \<Rightarrow> u32 \<Rightarrow> u8 \<Rightarrow> kern \<Rightarrow> (ptr \<times> kern) option" where
  "create_share ownerID shareName sz isWritable k = do {
     (p, k1) \<leftarrow> kmalloc SHARE_BYTES k;
     if p = NULL then Some (NULL, k1)
     else if length shareName \<ge> 64 then None
     else do {
       let k2 = update_share p (\<lambda>s. s\<lparr>sh_ID := p AND NOT 0x80000000, sh_ownerID := ownerID, sh_size := sz,
         sh_name := shareName, sh_isWritable := isWritable, sh_references := 1\<rparr>) k1;
       (st, k3) \<leftarrow> create_frames_storage (ROUNDUP sz PAGE_SIZE div PAGE_SIZE) k2;
       let k4 = update_share p (\<lambda>s. s\<lparr>framesStorage := st\<rparr>) k3;
       if st = NULL then do { k5 \<leftarrow> kfree p k4; Some (NULL, k5) }
       else Some (p, k4)
     }
   }"

text \<open>\<^verbatim>\<open>get_page_table\<close>, and \<^verbatim>\<open>create_page_table\<close> if there is none.\<close>

definition ensure_table :: "ptr \<Rightarrow> u32 \<Rightarrow> kern \<Rightarrow> kern option" where
  "ensure_table dir va k = do {
     (_, t) \<leftarrow> get_page_table dir va k;
     if t = NULL then do { (_, k1) \<leftarrow> create_page_table dir va k; Some k1 } else Some k
   }"

text \<open>The loop of \<^verbatim>\<open>createSharedObject\<close>, from page \<open>i\<close> (counting from 0) on, \<open>n\<close> rounds.\<close>

primrec fill_share :: "ptr \<Rightarrow> ptr \<Rightarrow> u32 \<Rightarrow> u32 \<Rightarrow> nat \<Rightarrow> kern \<Rightarrow> kern option" where
  "fill_share dir p va i 0 k = Some k"
| "fill_share dir p va i (Suc n) k = do {
     k1 \<leftarrow> ensure_table dir va k;
     (f, k2) \<leftarrow> allocate_frame k1;
     k3 \<leftarrow> map_frame dir f va (PAGE_FAULTED OR USER_PAGE) k2;
     fill_share dir p (va + PAGE_SIZE) (i + 1) n (set_word (framesStorage (shares k3 p)) i f k3)
   }"

definition createSharedObject :: "u32 \<Rightarrow> u8 list \<Rightarrow> u32 \<Rightarrow> u8 \<Rightarrow> u32 \<Rightarrow> kern \<Rightarrow> (u32 \<times> kern) option" where
  "createSharedObject ownerID shareName sz isWritable virtual_address k = do {
     (myenv, k1) \<leftarrow> cur_proc k;
     (old, k2) \<leftarrow> get_share ownerID shareName k1;
     if old \<noteq> NULL then Some (E_SHARED_MEM_EXISTS, k2)
     else do {
       (p, k3) \<leftarrow> create_share ownerID shareName sz isWritable k2;
       if p = NULL then Some (E_NO_SHARE, k3)
       else do {
         k4 \<leftarrow> acquire_shareslock k3;
         k5 \<leftarrow> on_shares_list (LIST_INSERT_HEAD share_links p) k4;
         k6 \<leftarrow> release_shareslock k5;
         let noOfPages = sz div PAGE_SIZE;
         if lh_size (free_frame_list k6) < noOfPages then Some (E_NO_SHARE, k6)
         else if myenv = NULL \<and> noOfPages \<noteq> 0 then None
         else do {
           k7 \<leftarrow> fill_share (env_page_directory (envs k6 myenv)) p virtual_address 0 (unat noOfPages) k6;
           Some (sh_ID (shares k7 p), k7)
         }
       }
     }
   }"

section \<open>Sharing an object\<close>

primrec map_share :: "ptr \<Rightarrow> ptr \<Rightarrow> u32 \<Rightarrow> u32 \<Rightarrow> nat \<Rightarrow> kern \<Rightarrow> kern option" where
  "map_share dir p va i 0 k = Some k"
| "map_share dir p va i (Suc n) k = do {
     k1 \<leftarrow> ensure_table dir va k;
     let f = words k1 (framesStorage (shares k1 p)) i;
     k2 \<leftarrow> (if sh_isWritable (shares k1 p) = 1 then map_frame dir f va (PAGE_FAULTED OR USER_PAGE) k1
            else map_frame dir f va (PAGE_FAULTED OR PERM_PRESENT OR PERM_USER) k1);
     map_share dir p (va + PAGE_SIZE) (i + 1) n k2
   }"

definition getSharedObject :: "u32 \<Rightarrow> u8 list \<Rightarrow> u32 \<Rightarrow> kern \<Rightarrow> (u32 \<times> kern) option" where
  "getSharedObject ownerID shareName virtual_address k = do {
     (myenv, k1) \<leftarrow> cur_proc k;
     (p, k2) \<leftarrow> get_share ownerID shareName k1;
     if p = NULL then Some (E_SHARED_MEM_NOT_EXISTS, k2)
     else if myenv = NULL \<and> sh_size (shares k2 p) div PAGE_SIZE \<noteq> 0 then None
     else do {
       k3 \<leftarrow> map_share (env_page_directory (envs k2 myenv)) p virtual_address 0 (unat (sh_size (shares k2 p) div PAGE_SIZE)) k2;
       k4 \<leftarrow> acquire_shareslock k3;
       let k5 = update_share p (\<lambda>s. s\<lparr>sh_references := sh_references s + 1\<rparr>) k4;
       k6 \<leftarrow> release_shareslock k5;
       Some (sh_ID (shares k6 p), k6)
     }
   }"

section \<open>Freeing an object\<close>

definition free_share :: "ptr \<Rightarrow> kern \<Rightarrow> kern option" where
  "free_share p k =
    (if p = NULL then Some k
     else do {
       k1 \<leftarrow> acquire_shareslock k;
       k2 \<leftarrow> on_shares_list (LIST_REMOVE share_links p) k1;
       k3 \<leftarrow> release_shareslock k2;
       k4 \<leftarrow> (if framesStorage (shares k3 p) \<noteq> NULL then kfree (framesStorage (shares k3 p)) k3 else Some k3);
       kfree p (update_share p (\<lambda>s. s\<lparr>framesStorage := NULL\<rparr>) k4)
     })"

definition table_empty :: "ptr \<Rightarrow> kern \<Rightarrow> bool" where
  "table_empty t k \<longleftrightarrow> list_all (\<lambda>i. words k t (of_nat i) = 0) [0..<1024]"

primrec unmap_share :: "ptr \<Rightarrow> u32 \<Rightarrow> nat \<Rightarrow> kern \<Rightarrow> kern option" where
  "unmap_share dir va 0 k = Some k"
| "unmap_share dir va (Suc n) k = do {
     k1 \<leftarrow> pt_set_page_permissions dir va 0 PERM_AVAILABLE k;
     k2 \<leftarrow> unmap_frame dir va k1;
     (_, t) \<leftarrow> get_page_table dir va k2;
     k3 \<leftarrow> (if t \<noteq> NULL \<and> table_empty t k2 then do {
              k3 \<leftarrow> kfree t k2;
              Some (pd_clear_page_dir_entry dir va k3)
            } else Some k2);
     unmap_share dir (va + PAGE_SIZE) n k3
   }"

text \<open>
  \<^verbatim>\<open>share_object\<close> is not initialised; \<open>junk\<close> is what the stack holds there, its value when no
  object has the number.
\<close>

definition freeSharedObject :: "ptr \<Rightarrow> u32 \<Rightarrow> u32 \<Rightarrow> kern \<Rightarrow> (u32 \<times> kern) option" where
  "freeSharedObject junk sharedObjectID startVA k = do {
     (myenv, k1) \<leftarrow> cur_proc k;
     k2 \<leftarrow> acquire_shareslock k1;
     (hit, k3) \<leftarrow> find_share (\<lambda>s. sh_ID s = sharedObjectID) k2;
     k4 \<leftarrow> release_shareslock k3;
     let p = (if hit = NULL then junk else hit);
     if p = NULL then Some (E_SHARED_MEM_NOT_EXISTS, k4)
     else if myenv = NULL \<and> sh_size (shares k4 p) div PAGE_SIZE \<noteq> 0 then None
     else do {
       k5 \<leftarrow> unmap_share (env_page_directory (envs k4 myenv)) startVA (unat (sh_size (shares k4 p) div PAGE_SIZE)) k4;
       k6 \<leftarrow> acquire_shareslock k5;
       let k7 = update_share p (\<lambda>s. s\<lparr>sh_references := sh_references s - 1\<rparr>) k6;
       k8 \<leftarrow> release_shareslock k7;
       k9 \<leftarrow> (if sh_references (shares k8 p) = 0 then free_share p k8 else Some k8);
       Some (0, k9)
     }
   }"

end
