(* ===== verification/FOS_Locks.thy ===== *)
theory FOS_Locks
  imports FOS_Sched
begin

text \<open>
  Sleeping on channels (\<^verbatim>\<open>kern/conc/channel.c\<close>) and sleep locks
  (\<^verbatim>\<open>kern/conc/sleeplock.c\<close>). The channel and the guarding spin lock of the sleep lock at
  \<open>p\<close> are \<open>channels k p\<close> and \<open>spinlocks k p\<close>. Sleeping is split at the switch to the
  scheduler, like \<^verbatim>\<open>yield\<close>: \<open>sleep_return\<close> is what a woken process still has to do. Releasing the queue lock brings the
  interrupts back, so a process can lose the CPU again after \<open>sleep_woken\<close>, before it takes \<open>lk\<close>.
\<close>

section \<open>Channels\<close>

definition on_channel :: "ptr \<Rightarrow> queue_op \<Rightarrow> kern \<Rightarrow> kern option" where
  "on_channel c f k = do {
     (q, t) \<leftarrow> f (channels k c) (envs k);
     Some (k\<lparr>channels := (channels k)(c := q), envs := t\<rparr>)
   }"

definition acquire_lock :: "ptr \<Rightarrow> kern \<Rightarrow> kern option" where
  "acquire_lock p k = do {
     (l, c) \<leftarrow> acquire_spinlock (spinlocks k p) (kcpu k);
     Some (k\<lparr>spinlocks := (spinlocks k)(p := l), kcpu := c\<rparr>)
   }"

definition release_lock :: "ptr \<Rightarrow> kern \<Rightarrow> kern option" where
  "release_lock p k = do {
     (l, c) \<leftarrow> release_spinlock (spinlocks k p) (kcpu k);
     Some (k\<lparr>spinlocks := (spinlocks k)(p := l), kcpu := c\<rparr>)
   }"

definition init_channel :: "ptr \<Rightarrow> kern \<Rightarrow> kern" where
  "init_channel c k = k\<lparr>channels := (channels k)(c := LIST_INIT (channels k c))\<rparr>"

definition sleep :: "ptr \<Rightarrow> ptr \<Rightarrow> kern \<Rightarrow> (u32 \<times> kern) option" where
  "sleep chan lk k = do {
     k1 \<leftarrow> acquire_qlock k;
     (env, k2) \<leftarrow> cur_proc k1;
     k3 \<leftarrow> on_channel chan (\<lambda>q. enqueue (Some q) env) k2;
     k4 \<leftarrow> release_lock lk k3;
     sched_enter (set_env_status env ENV_BLOCKED k4)
   }"

definition sleep_woken :: "u32 \<Rightarrow> kern \<Rightarrow> kern option" where
  "sleep_woken saved k = release_qlock (sched_return saved k)"

definition sleep_return :: "ptr \<Rightarrow> u32 \<Rightarrow> kern \<Rightarrow> kern option" where
  "sleep_return lk saved k = do {
     k1 \<leftarrow> sleep_woken saved k;
     acquire_lock lk k1
   }"

definition wakeup_one :: "ptr \<Rightarrow> kern \<Rightarrow> kern option" where
  "wakeup_one chan k = do {
     k1 \<leftarrow> acquire_qlock k;
     if queue_size (Some (channels k1 chan)) = 0 then release_qlock k1
     else do {
       (env, q, t) \<leftarrow> dequeue (Some (channels k1 chan)) (envs k1);
       let k2 = k1\<lparr>channels := (channels k1)(chan := the q), envs := t\<rparr>;
       k3 \<leftarrow> sched_insert_ready0 env (set_env_status env ENV_READY k2);
       release_qlock k3
     }
   }"

partial_function (option) wakeup_all_loop :: "ptr \<Rightarrow> kern \<Rightarrow> kern option" where
  "wakeup_all_loop chan k =
    (if queue_size (Some (channels k chan)) = 0 then Some k
     else do {
       (env, q, t) \<leftarrow> dequeue (Some (channels k chan)) (envs k);
       let k1 = k\<lparr>channels := (channels k)(chan := the q), envs := t\<rparr>;
       k2 \<leftarrow> sched_insert_ready0 env (set_env_status env ENV_READY k1);
       wakeup_all_loop chan k2
     })"

definition wakeup_all :: "ptr \<Rightarrow> kern \<Rightarrow> kern option" where
  "wakeup_all chan k = do {
     k1 \<leftarrow> acquire_qlock k;
     k2 \<leftarrow> wakeup_all_loop chan k1;
     release_qlock k2
   }"

section \<open>Sleep locks\<close>

definition init_sleeplock :: "ptr \<Rightarrow> kern \<Rightarrow> kern" where
  "init_sleeplock lk k =
    (let k1 = init_channel lk k;
         k2 = k1\<lparr>spinlocks := (spinlocks k1)(lk := init_spinlock ''lock of sleep lock'')\<rparr>
     in k2\<lparr>sleep_locked := (sleep_locked k2)(lk := 0), sleep_pid := (sleep_pid k2)(lk := 0)\<rparr>)"

definition holding_sleeplock :: "ptr \<Rightarrow> kern \<Rightarrow> (bool \<times> kern) option" where
  "holding_sleeplock lk k = do {
     k1 \<leftarrow> acquire_lock lk k;
     (r, k2) \<leftarrow>
       (if sleep_locked k1 lk \<noteq> 0 then do {
          (p, k2) \<leftarrow> cur_proc k1;
          if p = NULL then None else Some (sleep_pid k2 lk = env_id (envs k2 p), k2)
        }
        else Some (False, k1));
     k3 \<leftarrow> release_lock lk k2;
     Some (r, k3)
   }"

text \<open>The end of \<^verbatim>\<open>acquire_sleeplock\<close>, once the lock is seen free with the guard held.\<close>

definition take_sleeplock :: "ptr \<Rightarrow> kern \<Rightarrow> kern option" where
  "take_sleeplock lk k = do {
     let k1 = k\<lparr>sleep_locked := (sleep_locked k)(lk := 1)\<rparr>;
     (p, k2) \<leftarrow> cur_proc k1;
     if p = NULL then None
     else release_lock lk (k2\<lparr>sleep_pid := (sleep_pid k2)(lk := env_id (envs k2 p))\<rparr>)
   }"

text \<open>The loop \<^verbatim>\<open>while (lk->locked) sleep(...)\<close> from its test on, with the guard held.\<close>

definition acquire_loop :: "ptr \<Rightarrow> kern \<Rightarrow> outcome option" where
  "acquire_loop lk k =
    (if sleep_locked k lk \<noteq> 0
     then do { (saved, k1) \<leftarrow> sleep lk lk k; Some (Gives_up saved k1) }
     else do { k1 \<leftarrow> take_sleeplock lk k; Some (Returns k1) })"

definition acquire_guarded :: "ptr \<Rightarrow> kern \<Rightarrow> outcome option" where
  "acquire_guarded lk k = do { k1 \<leftarrow> acquire_lock lk k; acquire_loop lk k1 }"

definition acquire_sleeplock :: "ptr \<Rightarrow> kern \<Rightarrow> outcome option" where
  "acquire_sleeplock lk k = do {
     (h, k1) \<leftarrow> holding_sleeplock lk k;
     if h then Some (Returns k1) else acquire_guarded lk k1
   }"

text \<open>
  A woken process goes on with the test of the loop. This is its way when no interrupt comes between; the
  machine of \<^verbatim>\<open>FOS_SleepLock\<close> takes it in two steps.
\<close>

definition acquire_return :: "ptr \<Rightarrow> u32 \<Rightarrow> kern \<Rightarrow> outcome option" where
  "acquire_return lk saved k = do { k1 \<leftarrow> sleep_return lk saved k; acquire_loop lk k1 }"

definition release_guarded :: "ptr \<Rightarrow> kern \<Rightarrow> kern option" where
  "release_guarded lk k = do {
     k1 \<leftarrow> acquire_lock lk k;
     k2 \<leftarrow> wakeup_all lk k1;
     release_lock lk (k2\<lparr>sleep_locked := (sleep_locked k2)(lk := 0), sleep_pid := (sleep_pid k2)(lk := 0)\<rparr>)
   }"

definition release_sleeplock :: "ptr \<Rightarrow> kern \<Rightarrow> kern option" where
  "release_sleeplock lk k = do {
     (h, k1) \<leftarrow> holding_sleeplock lk k;
     if \<not> h then Some k1 else release_guarded lk k1
   }"

end
