(* ===== verification/FOS_UserArgs.thy ===== *)
theory FOS_UserArgs
  imports FOS_Loader FOS_Shared FOS_Locks FOS_Printf
begin

text \<open>
  What system calls share: reading and writing the memory of the process that runs, how a call ends, and
  the console. An argument that points above \<^verbatim>\<open>USER_LIMIT\<close>, or to a page that is not in memory (whose fault
  the handler would serve first), is \<open>None\<close>. Messages a routine prints for whoever watches the
  console are left out; what a call is asked to print is not.
\<close>

section \<open>User memory\<close>

definition user_byte :: "u32 \<Rightarrow> kern \<Rightarrow> u8 option" where
  "user_byte va k = (if va \<ge> USER_LIMIT then None else do { f \<leftarrow> user_frame va k; Some (frame_data k f (PGOFF va)) })"

definition user_word :: "u32 \<Rightarrow> kern \<Rightarrow> u32 option" where
  "user_word va k = do {
     a \<leftarrow> user_byte va k; b \<leftarrow> user_byte (va + 1) k; c \<leftarrow> user_byte (va + 2) k; d \<leftarrow> user_byte (va + 3) k;
     Some (ucast a OR push_bit 8 (ucast b) OR push_bit 16 (ucast c) OR push_bit 24 (ucast d))
   }"

partial_function (option) user_string :: "u32 \<Rightarrow> kern \<Rightarrow> u8 list option" where
  "user_string va k = do {
     b \<leftarrow> user_byte va k;
     if b = 0 then Some [] else do { bs \<leftarrow> user_string (va + 1) k; Some (b # bs) }
   }"

definition set_user_byte :: "u32 \<Rightarrow> u8 \<Rightarrow> kern \<Rightarrow> kern option" where
  "set_user_byte va b k =
    (if va \<ge> USER_LIMIT then None else store_user (env_page_directory (envs k (cpu_proc (kcpu k)))) va b k)"

definition set_user_word :: "u32 \<Rightarrow> u32 \<Rightarrow> kern \<Rightarrow> kern option" where
  "set_user_word va v k = do {
     k1 \<leftarrow> set_user_byte va (ucast v) k;
     k2 \<leftarrow> set_user_byte (va + 1) (ucast (drop_bit 8 v)) k1;
     k3 \<leftarrow> set_user_byte (va + 2) (ucast (drop_bit 16 v)) k2;
     set_user_byte (va + 3) (ucast (drop_bit 24 v)) k3
   }"

section \<open>How a call ends\<close>

text \<open>
  A call returns a value, or its process gives up the CPU somewhere in it (with the value
  of \<^verbatim>\<open>intena\<close> that \<^verbatim>\<open>sched()\<close> saved), or the CPU enters the scheduler for good.
\<close>

datatype waiting = In_cgetc | In_acquire ptr | In_test_sleep | Exiting

datatype sysret = Result u32 kern | Suspends waiting u32 kern | To_scheduler kern

definition as_result :: "waiting \<Rightarrow> u32 \<Rightarrow> outcome \<Rightarrow> sysret" where
  "as_result w v r = (case r of Returns k \<Rightarrow> Result v k | Gives_up saved k \<Rightarrow> Suspends w saved k | Schedules k \<Rightarrow> To_scheduler k)"

definition returning :: "u32 \<Rightarrow> kern option \<Rightarrow> sysret option" where
  "returning v r = map_option (Result v) r"

definition with_result :: "(u32 \<times> kern) option \<Rightarrow> sysret option" where
  "with_result r = map_option (\<lambda>(v, k). Result v k) r"

section \<open>The console\<close>

definition kbd_init :: "kern \<Rightarrow> kern" where
  "kbd_init k =
    (let k1 = k\<lparr>irq_handlers := (irq_handlers k)(1 := Keyboard_handler)\<rparr>;
         k2 = init_channel (KBDchannel k1) k1
     in k2\<lparr>spinlocks := (spinlocks k2)(KBDlock k2 := init_spinlock ''keyboard channel lock'')\<rparr>)"

text \<open>\<open>found\<close> and \<open>exists\<close> are what the display controller and the serial line report.\<close>

definition cons_init :: "u16 \<Rightarrow> bool \<Rightarrow> kern \<Rightarrow> kern" where
  "cons_init found exists k =
    (let k1 = kbd_init (k\<lparr>cons_dev := cga_init found (cons_dev k)\<rparr>);
         k2 = k1\<lparr>cons_dev := serial_init exists (cons_dev k1)\<rparr>;
         k3 = k2\<lparr>irq_handlers := (irq_handlers k2)(4 := Serial_handler)\<rparr>
     in init_sleeplock (conslock k3) k3)"

definition keyboard_interrupt_handler :: "kern \<Rightarrow> kern option" where
  "keyboard_interrupt_handler k = do {
     s \<leftarrow> kbd_intr (cons_dev k);
     let k1 = k\<lparr>cons_dev := s\<rparr>;
     if cons_rpos s \<noteq> cons_wpos s then wakeup_one (KBDchannel k1) k1 else Some k1
   }"

definition serial_interrupt_handler :: "kern \<Rightarrow> kern option" where
  "serial_interrupt_handler k = do { s \<leftarrow> serial_intr (cons_dev k); Some (k\<lparr>cons_dev := s\<rparr>) }"

definition sys_lock_cons :: "kern \<Rightarrow> sysret option" where
  "sys_lock_cons k = map_option (as_result (In_acquire (conslock k)) 0) (acquire_sleeplock (conslock k) k)"

definition sys_unlock_cons :: "kern \<Rightarrow> sysret option" where
  "sys_unlock_cons k = returning 0 (release_sleeplock (conslock k) k)"

text \<open>The loop of \<^verbatim>\<open>sys_cgetc\<close> with interrupts enabled, from its test on; a woken process takes the lock and tests again.\<close>

definition cgetc_loop :: "kern \<Rightarrow> sysret option" where
  "cgetc_loop k =
    (case cons_getc2 (cons_dev k) of (c, s) \<Rightarrow>
       let k1 = k\<lparr>cons_dev := s\<rparr> in
       if c \<noteq> 0 then Some (Result c k1)
       else do {
         k2 \<leftarrow> acquire_lock (KBDlock k1) k1;
         (saved, k3) \<leftarrow> sleep (KBDchannel k1) (KBDlock k1) k2;
         Some (Suspends In_cgetc saved k3)
       })"

definition cgetc_return :: "u32 \<Rightarrow> kern \<Rightarrow> sysret option" where
  "cgetc_return saved k = do {
     k1 \<leftarrow> sleep_return (KBDlock k) saved k;
     k2 \<leftarrow> release_lock (KBDlock k1) k1;
     cgetc_loop k2
   }"

definition sys_cgetc :: "kern \<Rightarrow> sysret option" where
  "sys_cgetc k =
    (if eflags (kcpu k) AND FL_IF \<noteq> 0 then cgetc_loop k
     else do { (c, s) \<leftarrow> getchar (cons_dev k); Some (Result c (k\<lparr>cons_dev := s\<rparr>)) })"

definition on_terminal :: "(terminal \<Rightarrow> terminal option) \<Rightarrow> kern \<Rightarrow> kern option" where
  "on_terminal f k = do {
     t \<leftarrow> f \<lparr>tm_console = cons_dev k, tm_mem = kmem k, tm_count = 0, tm_prog = 0\<rparr>;
     Some (k\<lparr>cons_dev := tm_console t\<rparr>)
   }"

definition put_char_at_console :: "u32 \<Rightarrow> kern \<Rightarrow> kern" where
  "put_char_at_console c k = k\<lparr>cons_dev := cputchar c (cons_dev k)\<rparr>"

text \<open>\<^verbatim>\<open>"%.*s"\<close> with the string in user memory; a negative precision is none.\<close>

partial_function (option) put_user_string :: "u32 \<Rightarrow> int \<Rightarrow> kern \<Rightarrow> kern option" where
  "put_user_string p prec k = do {
     b \<leftarrow> user_byte p k;
     if b = 0 \<or> prec = 0 then Some k
     else put_user_string (p + 1) (if prec < 0 then prec else prec - 1) (put_char_at_console (scast b) k)
   }"

text \<open>\<^verbatim>\<open>"[%s %d] "\<close> with the name and number of the process.\<close>

definition put_prog_name :: "env \<Rightarrow> terminal \<Rightarrow> terminal option" where
  "put_prog_name e t = do {
     let t1 = put_chars console_printer ([91] @ map scast (prog_name e) @ [32]) t;
     let num = (scast (env_id e) :: u64);
     t2 \<leftarrow> (if sint num < 0 then printnum console_printer (- num) 10 (- 1) 32 (putch 45 t1)
           else printnum console_printer num 10 (- 1) 32 t1);
     Some (put_chars console_printer [93, 32] t2)
   }"

definition sys_cputs :: "u32 \<Rightarrow> u32 \<Rightarrow> u8 \<Rightarrow> kern \<Rightarrow> kern option" where
  "sys_cputs s len printProgName k = do {
     let k1 = k\<lparr>kcpu := pushcli (kcpu k)\<rparr>;
     k2 \<leftarrow> (if printProgName \<noteq> 0 then on_terminal (put_prog_name (envs k1 (syscall_env k1))) k1 else Some k1);
     k3 \<leftarrow> (if s = NULL then on_terminal (\<lambda>t. Some (put_null console_printer (no_spec\<lparr>width := 0, precision := sint len\<rparr>) t)) k2
           else put_user_string s (sint len) k2);
     c \<leftarrow> popcli (kcpu k3);
     Some (k3\<lparr>kcpu := c\<rparr>)
   }"

definition sys_cputc :: "u8 \<Rightarrow> kern \<Rightarrow> kern" where
  "sys_cputc c k = put_char_at_console (scast c) k"

end
