(* ===== verification/FOS_Commands.thy ===== *)
theory FOS_Commands
  imports FOS_UserArgs
begin

text \<open>
  The commands of the kernel prompt, \<^verbatim>\<open>kern/cmd/commands.c\<close>. A command gets its arguments as an array of
  pointers to strings in kernel memory. Commands that only print what is there leave the state as it
  is; the counter of address translations that some of them print is left out.
\<close>

section \<open>Arguments\<close>

definition argument :: "ptr \<Rightarrow> u32 \<Rightarrow> kern \<Rightarrow> ptr" where
  "argument argv i k = load32 (kmem k) (argv + 4 * i)"

definition number_argument :: "ptr \<Rightarrow> u32 \<Rightarrow> int \<Rightarrow> kern \<Rightarrow> u32 option" where
  "number_argument argv i base k = do { (v, _) \<leftarrow> strtol (kmem k) (argument argv i k) base; Some v }"

text \<open>The characters of a string.\<close>

partial_function (option) c_string :: "memory \<Rightarrow> ptr \<Rightarrow> u8 list option" where
  "c_string m p = (if m p = 0 then Some [] else do { xs \<leftarrow> c_string m (p + 1); Some (m p # xs) })"

section \<open>Looking into memory\<close>

text \<open>With another page directory loaded, an address below \<^verbatim>\<open>USER_LIMIT\<close> is one of that process.\<close>

definition peek :: "ptr \<Rightarrow> u32 \<Rightarrow> kern \<Rightarrow> u8 option" where
  "peek dir va k =
    (if va \<ge> USER_LIMIT then Some (kmem k va)
     else do {
       (f, t) \<leftarrow> get_frame_info dir va k;
       if f = NULL \<or> words k t (PTX va) AND PERM_PRESENT = 0 then None else Some (frame_data k f (PGOFF va))
     })"

definition poke :: "ptr \<Rightarrow> u32 \<Rightarrow> u8 \<Rightarrow> kern \<Rightarrow> kern option" where
  "poke dir va b k = (if va \<ge> USER_LIMIT then Some (on_kmem (\<lambda>m. m(va := b)) k) else store_user dir va b k)"

definition command_writeusermem :: "u32 \<Rightarrow> ptr \<Rightarrow> kern \<Rightarrow> kern option" where
  "command_writeusermem number_of_arguments arguments k =
    (if number_of_arguments = 3 then do {
       address \<leftarrow> number_argument arguments 1 16 k;
       poke (ptr_page_directory k) address (kmem k (argument arguments 2 k)) k
     }
     else if number_of_arguments = 4 then do {
       envId \<leftarrow> number_argument arguments 1 10 k;
       (_, e, k1) \<leftarrow> envid2env envId False k;
       address \<leftarrow> number_argument arguments 2 16 k1;
       if e = NULL then Some k1
       else poke (env_page_directory (envs k1 e)) address (kmem k1 (argument arguments 3 k1)) k1
     }
     else Some k)"

text \<open>\<^verbatim>\<open>strtol\<close> gives the physical address; the bytes are copied one by one.\<close>

definition command_writemem_k :: "ptr \<Rightarrow> kern \<Rightarrow> kern option" where
  "command_writemem_k arguments k = do {
     pa \<leftarrow> number_argument arguments 1 16 k;
     stringLen \<leftarrow> strlen (kmem k) (argument arguments 2 k);
     Some (on_kmem (copy_up (pa + KERNEL_BASE) (argument arguments 2 k) (nat (sint stringLen))) k)
   }"

definition command_readusermem :: "u32 \<Rightarrow> ptr \<Rightarrow> kern \<Rightarrow> kern option" where
  "command_readusermem number_of_arguments arguments k =
    (if number_of_arguments = 2 then do {
       address \<leftarrow> number_argument arguments 1 16 k;
       _ \<leftarrow> peek (ptr_page_directory k) address k;
       Some k
     }
     else if number_of_arguments = 3 then do {
       envId \<leftarrow> number_argument arguments 1 10 k;
       (_, e, k1) \<leftarrow> envid2env envId False k;
       address \<leftarrow> number_argument arguments 2 16 k1;
       if e = NULL then Some k1 else do { _ \<leftarrow> peek (env_page_directory (envs k1 e)) address k1; Some k1 }
     }
     else Some k)"

primrec peek_block :: "ptr \<Rightarrow> u32 \<Rightarrow> nat \<Rightarrow> kern \<Rightarrow> unit option" where
  "peek_block dir va 0 k = Some ()"
| "peek_block dir va (Suc n) k = do { _ \<leftarrow> peek dir va k; peek_block dir (va + 1) n k }"

definition command_readuserblock :: "ptr \<Rightarrow> kern \<Rightarrow> kern option" where
  "command_readuserblock arguments k = do {
     envId \<leftarrow> number_argument arguments 1 10 k;
     (_, e, k1) \<leftarrow> envid2env envId False k;
     address \<leftarrow> number_argument arguments 2 16 k1;
     nBytes \<leftarrow> number_argument arguments 3 10 k1;
     if e = NULL then Some k1
     else do { _ \<leftarrow> peek_block (env_page_directory (envs k1 e)) address (nat (sint nBytes)) k1; Some k1 }
   }"

text \<open>The page table of an address is given back; the entry of the directory keeps its other bits.\<close>

definition command_remove_table :: "ptr \<Rightarrow> kern \<Rightarrow> kern option" where
  "command_remove_table arguments k = do {
     envId \<leftarrow> number_argument arguments 1 10 k;
     (_, e, k1) \<leftarrow> envid2env envId False k;
     if e = NULL then Some k1
     else do {
       address \<leftarrow> number_argument arguments 2 16 k1;
       let dir = env_page_directory (envs k1 e);
       let table_pa = words k1 dir (PDX address) AND 0xFFFFF000;
       k2 \<leftarrow> (if \<not> CHECK_IF_KERNEL_ADDRESS address then do { va \<leftarrow> kheap_virtual_address table_pa k1; kfree va k1 }
             else do {
               f \<leftarrow> to_frame_info table_pa k1;
               free_frame f (k1\<lparr>frames := (frames k1)(f := (frames k1 f)\<lparr>references := 0\<rparr>)\<rparr>)
             });
       Some (set_word dir (PDX address) (words k2 dir (PDX address) AND NOT PERM_PRESENT) k2)
     }
   }"

definition command_allocuserpage :: "u32 \<Rightarrow> ptr \<Rightarrow> kern \<Rightarrow> kern option" where
  "command_allocuserpage number_of_arguments arguments k =
    (if sint number_of_arguments < 3 \<or> sint number_of_arguments > 4 then Some k
     else do {
       envId \<leftarrow> number_argument arguments 1 10 k;
       (_, e, k1) \<leftarrow> envid2env envId False k;
       if e = NULL then Some k1
       else do {
         va \<leftarrow> number_argument arguments 2 16 k1;
         (f, k2) \<leftarrow> allocate_frame k1;
         let c = kmem k2 (argument arguments 3 k2);
         let rw = (if number_of_arguments = 4 \<and> (c = 114 \<or> c = 82) then 0 else PERM_WRITEABLE);
         map_frame (env_page_directory (envs k2 e)) f va (rw OR PERM_USER) k2
       }
     })"

definition command_meminfo :: "kern \<Rightarrow> kern option" where
  "command_meminfo k = do { (_, k1) \<leftarrow> calculate_available_frames k; Some k1 }"

section \<open>Settings\<close>

definition command_set_page_rep_LRU :: "u32 \<Rightarrow> ptr \<Rightarrow> kern \<Rightarrow> kern option" where
  "command_set_page_rep_LRU number_of_arguments arguments k =
    (if sint number_of_arguments < 2 then Some k
     else do {
       LRU_TYPE \<leftarrow> number_argument arguments 1 10 k;
       if LRU_TYPE = PG_REP_LRU_TIME_APPROX \<or> LRU_TYPE = PG_REP_LRU_LISTS_APPROX
       then setPageReplacmentAlgorithmLRU LRU_TYPE k
       else Some k
     })"

text \<open>The number of sweeps is unsigned, so only 0 fails the test for a positive number.\<close>

definition command_set_page_rep_nthCLOCK :: "ptr \<Rightarrow> kern \<Rightarrow> kern option" where
  "command_set_page_rep_nthCLOCK arguments k = do {
     PageWSMaxSweeps \<leftarrow> number_argument arguments 1 10 k;
     t \<leftarrow> number_argument arguments 2 10 k;
     let type = (ucast t :: u8);
     if PageWSMaxSweeps = 0 then Some k
     else if type = 1 then Some (setPageReplacmentAlgorithmNchanceCLOCK PageWSMaxSweeps k)
     else if type = 2 then Some (setPageReplacmentAlgorithmNchanceCLOCK (- PageWSMaxSweeps) k)
     else Some k
   }"

definition command_sch_RR :: "ptr \<Rightarrow> kern \<Rightarrow> kern option" where
  "command_sch_RR arguments k = do { q \<leftarrow> number_argument arguments 1 10 k; sched_init_RR (ucast q) k }"

text \<open>The strategies of the heaps; the numbers of those of the user heap are not in the sources.\<close>

record uheap_strategies =
  UHP_PLACE_FIRSTFIT :: u32
  UHP_PLACE_BESTFIT :: u32
  UHP_PLACE_NEXTFIT :: u32
  UHP_PLACE_WORSTFIT :: u32

definition setUHeapPlacementStrategy :: "u32 \<Rightarrow> kern \<Rightarrow> kern" where
  "setUHeapPlacementStrategy strategy k = k\<lparr>UHeapPlacementStrategy := strategy\<rparr>"

abbreviation "KHP_PLACE_CONTALLOC \<equiv> 0 :: u32"
abbreviation "KHP_PLACE_NEXTFIT \<equiv> 3 :: u32"
abbreviation "KHP_PLACE_WORSTFIT \<equiv> 4 :: u32"

definition setKHeapPlacementStrategy :: "u32 \<Rightarrow> kern \<Rightarrow> kern" where
  "setKHeapPlacementStrategy strategy k = k\<lparr>KHeapPlacementStrategy := strategy\<rparr>"

definition command_disable_modified_buffer :: "kern \<Rightarrow> kern" where
  "command_disable_modified_buffer k = (if isBufferingEnabled k = 0 then k else enableModifiedBuffer 0 k)"

definition command_enable_modified_buffer :: "kern \<Rightarrow> kern" where
  "command_enable_modified_buffer k = (if isBufferingEnabled k = 0 then k else enableModifiedBuffer 1 k)"

definition command_disable_buffering :: "kern \<Rightarrow> kern" where
  "command_disable_buffering k = enableModifiedBuffer 0 (enableBuffering 0 k)"

text \<open>The length is read into an array of 100 characters at \<open>str\<close>; \<open>prompt\<close> is the address of the question.\<close>

definition command_enable_buffering :: "ptr \<Rightarrow> ptr \<Rightarrow> kern \<Rightarrow> kern option" where
  "command_enable_buffering prompt str k = do {
     let k1 = enableModifiedBuffer 1 (enableBuffering 1 k);
     if ModifiedBufferLength k1 = 0 then do {
       (m, s) \<leftarrow> readline kernel_tty prompt str (kmem k1, cons_dev k1);
       (n, _) \<leftarrow> strtol m str 10;
       Some (setModifiedBufferLength n (k1\<lparr>kmem := m, cons_dev := s\<rparr>))
     }
     else Some k1
   }"

definition command_set_modified_buffer_length :: "ptr \<Rightarrow> kern \<Rightarrow> kern option" where
  "command_set_modified_buffer_length arguments k = do {
     n \<leftarrow> number_argument arguments 1 10 k;
     Some (setModifiedBufferLength n k)
   }"

section \<open>Programs\<close>

abbreviation "SCH_MLFQ \<equiv> 1 :: u32"
abbreviation "SCH_BSD \<equiv> 2 :: u32"
abbreviation "PWS_MAX_SIZE \<equiv> 5000 :: u32"

text \<open>
  The sizes of the working set and of its second list, and the nice value; \<open>None\<close> is the message about
  wrong arguments. With another scheduler than BSD or priority round robin the number behind the
  sizes is ignored.
\<close>

definition create_sizes :: "u32 \<Rightarrow> ptr \<Rightarrow> kern \<Rightarrow> (u32 \<times> u32 \<times> u32) option option" where
  "create_sizes number_of_arguments arguments k =
    (let lru = isPageReplacmentAlgorithmLRU PG_REP_LRU_LISTS_APPROX k;
         nice = (\<lambda>i. if scheduler_method k = SCH_BSD then number_argument arguments i 10 k else Some (- 100))
     in
     if number_of_arguments = 5 then
       (if \<not> lru then Some None
        else do {
          n \<leftarrow> nice 4;
          second \<leftarrow> number_argument arguments 3 10 k;
          size \<leftarrow> number_argument arguments 2 10 k;
          Some (Some (size, second, n))
        })
     else if number_of_arguments = 4 then
       (if \<not> lru then do {
          n \<leftarrow> nice 3;
          size \<leftarrow> number_argument arguments 2 10 k;
          Some (Some (size, 0, n))
        }
        else do {
          second \<leftarrow> number_argument arguments 3 10 k;
          size \<leftarrow> number_argument arguments 2 10 k;
          Some (Some (size, second, - 100))
        })
     else if number_of_arguments = 3 then
       (if lru then Some None else do { size \<leftarrow> number_argument arguments 2 10 k; Some (Some (size, 0, - 100)) })
     else Some None)"

text \<open>
  Setting a nice value or a priority panics, the latter also where \<^verbatim>\<open>env_create\<close> gave \<^verbatim>\<open>NULL\<close>,
  whose number would be read first.
\<close>

definition CreateEnv :: "image \<Rightarrow> u32 \<Rightarrow> ptr \<Rightarrow> kern \<Rightarrow> (ptr \<times> kern) option" where
  "CreateEnv img number_of_arguments arguments k = do {
     sizes \<leftarrow> create_sizes number_of_arguments arguments k;
     (case sizes of
        None \<Rightarrow> Some (NULL, k)
      | Some (pageWSSize, LRUSecondListSize, nice) \<Rightarrow>
          if isPageReplacmentAlgorithmLRU PG_REP_LRU_LISTS_APPROX k \<and> LRUSecondListSize > pageWSSize - 1 then Some (NULL, k)
          else do {
            name \<leftarrow> c_string (kmem k) (argument arguments 1 k);
            (e, k1) \<leftarrow> env_create img name pageWSSize LRUSecondListSize 0 k;
            if nice \<noteq> - 100 then None
            else if scheduler_method k1 = SCH_PRIRR then None
            else Some (e, k1)
          })
   }"

definition command_run_program :: "image \<Rightarrow> u32 \<Rightarrow> ptr \<Rightarrow> kern \<Rightarrow> outcome option" where
  "command_run_program img number_of_arguments arguments k = do {
     (e, k1) \<leftarrow> CreateEnv img number_of_arguments arguments k;
     if e = NULL then Some (Returns k1)
     else do { k2 \<leftarrow> sched_new_env e k1; sched_run_env (env_id (envs k2 e)) k2 }
   }"

definition commnad_load_env :: "image \<Rightarrow> u32 \<Rightarrow> ptr \<Rightarrow> kern \<Rightarrow> kern option" where
  "commnad_load_env img number_of_arguments arguments k = do {
     (e, k1) \<leftarrow> CreateEnv img number_of_arguments arguments k;
     if e = NULL then Some k1 else sched_new_env e k1
   }"

definition command_kill_program :: "ptr \<Rightarrow> kern \<Rightarrow> outcome option" where
  "command_kill_program arguments k = do { envId \<leftarrow> number_argument arguments 1 10 k; sched_kill_env envId k }"

end
