(* ===== verification/FOS_TestCalls.thy ===== *)
theory FOS_TestCalls
  imports FOS_UserArgs
begin

text \<open>
  The system calls that user tests make to look into the kernel, \<^verbatim>\<open>kern/tests/utilities.c\<close> and
  \<^verbatim>\<open>kern/tests/test_working_set.c\<close>: the counter of passed tests, the use of channels and sleep
  locks, comparisons of the working set with an expected one, and filling the memory.
\<close>

definition update_testing :: "(test_vars \<Rightarrow> test_vars) \<Rightarrow> kern \<Rightarrow> kern" where
  "update_testing f k = k\<lparr>testing := f (testing k)\<rparr>"

section \<open>The counter\<close>

definition acquire_tstcntlock :: "kern \<Rightarrow> kern option" where
  "acquire_tstcntlock k = do {
     (l, c) \<leftarrow> acquire_spinlock (tstcntlock (testing k)) (kcpu k);
     Some (update_testing (\<lambda>t. t\<lparr>tstcntlock := l\<rparr>) (k\<lparr>kcpu := c\<rparr>))
   }"

definition release_tstcntlock :: "kern \<Rightarrow> kern option" where
  "release_tstcntlock k = do {
     (l, c) \<leftarrow> release_spinlock (tstcntlock (testing k)) (kcpu k);
     Some (update_testing (\<lambda>t. t\<lparr>tstcntlock := l\<rparr>) (k\<lparr>kcpu := c\<rparr>))
   }"

definition rsttst :: "kern \<Rightarrow> kern option" where
  "rsttst k = do {
     k1 \<leftarrow> acquire_tstcntlock (update_testing (\<lambda>t. t\<lparr>tstcntlock := init_spinlock ''tstcnt lock''\<rparr>) k);
     release_tstcntlock (update_testing (\<lambda>t. t\<lparr>tstcnt := 0\<rparr>) k1)
   }"

definition inctst :: "kern \<Rightarrow> kern option" where
  "inctst k = do {
     k1 \<leftarrow> acquire_tstcntlock k;
     release_tstcntlock (update_testing (\<lambda>t. t\<lparr>tstcnt := tstcnt t + 1\<rparr>) k1)
   }"

definition gettst :: "kern \<Rightarrow> u32" where
  "gettst k = tstcnt (testing k)"

definition tst_check :: "u32 \<Rightarrow> u32 \<Rightarrow> u32 \<Rightarrow> u8 \<Rightarrow> u32 \<Rightarrow> bool" where
  "tst_check n v1 v2 c inverted =
    (if c = 108 then n < v1 \<or> inverted \<noteq> 0 else if c = 103 then v1 < n \<or> inverted \<noteq> 0
     else if c = 101 then n = v1 \<or> inverted \<noteq> 0 else if c = 98 then v1 \<le> n \<and> n \<le> v2 else False)"

definition tst :: "u32 \<Rightarrow> u32 \<Rightarrow> u32 \<Rightarrow> u8 \<Rightarrow> u32 \<Rightarrow> kern \<Rightarrow> kern option" where
  "tst n v1 v2 c inverted k = (if \<not> tst_check n v1 v2 c inverted then None else inctst k)"

definition chktst :: "u32 \<Rightarrow> kern \<Rightarrow> kern option" where
  "chktst n k = do {
     k1 \<leftarrow> acquire_tstcntlock k;
     k2 \<leftarrow> release_tstcntlock k1;
     if tstcnt (testing k1) = n then Some k2 else None
   }"

section \<open>Filling the memory\<close>

partial_function (option) allocate_up_to :: "u32 \<Rightarrow> u32 \<Rightarrow> kern \<Rightarrow> kern option" where
  "allocate_up_to i n k = (if i \<le> n then do { (_, k1) \<leftarrow> allocate_frame k; allocate_up_to (i + 1) n k1 } else Some k)"

definition scarce_memory :: "kern \<Rightarrow> kern option" where
  "scarce_memory k = do {
     let total = (100 - memory_scarce_threshold_percentage k) * number_of_frames k;
     let total_size_tobe_allocated = total div 100 + (if total mod 100 > 0 then 1 else 0);
     k1 \<leftarrow> acquire_mfllock k;
     let size_of_already_allocated = number_of_frames k1 - lh_size (free_frame_list k1);
     k2 \<leftarrow> allocate_up_to 0 (total_size_tobe_allocated - size_of_already_allocated) k1;
     release_mfllock k2
   }"

text \<open>A share of a working set in percent, rounded up.\<close>

definition pages_share :: "u32 \<Rightarrow> u32 \<Rightarrow> u32" where
  "pages_share percent pages = percent * pages div 100 + (if percent * pages mod 100 > 0 then 1 else 0)"

primrec ready_pages :: "nat \<Rightarrow> nat \<Rightarrow> u32 \<Rightarrow> u32 \<Rightarrow> kern \<Rightarrow> u32 option" where
  "ready_pages i 0 percent n k = Some n"
| "ready_pages i (Suc m) percent n k = do {
     (_, n1) \<leftarrow> LIST_FOREACH (\<lambda>_ e. env_next (envs k e))
       (\<lambda>e n. Some (False, n + pages_share percent (lh_size (page_WS_list (envs k e)))))
       (lh_first (env_ready_queues k i)) n;
     ready_pages (Suc i) m percent n1 k
   }"

definition calc_no_pages_tobe_removed_from_ready_exit_queues :: "u32 \<Rightarrow> kern \<Rightarrow> (u32 \<times> kern) option" where
  "calc_no_pages_tobe_removed_from_ready_exit_queues WS_or_MEMORY_flag k = do {
     (cur_env, k1) \<leftarrow> cur_proc k;
     if cur_env = NULL then None
     else do {
       let percent = percentage_of_WS_pages_to_be_removed (envs k1 cur_env);
       let own = pages_share percent (lh_size (page_WS_list (envs k1 cur_env)));
       if WS_or_MEMORY_flag = 1 then do {
         k2 \<leftarrow> acquire_qlock k1;
         ready \<leftarrow> ready_pages 0 (unat (num_of_ready_queues k2)) percent 0 k2;
         (_, exited) \<leftarrow> LIST_FOREACH (\<lambda>_ e. env_next (envs k2 e))
           (\<lambda>e n. Some (False, n + lh_size (page_WS_list (envs k2 e)))) (lh_first (env_exit_queue k2)) 0;
         k3 \<leftarrow> release_qlock k2;
         Some (own + ready + exited, k3)
       }
       else Some (own, k1)
     }
   }"

section \<open>Comparing working sets\<close>

definition same_page :: "u32 \<Rightarrow> u32 \<Rightarrow> bool" where
  "same_page a b \<longleftrightarrow> ROUNDDOWN a PAGE_SIZE = ROUNDDOWN b PAGE_SIZE"

text \<open>The elements of a list against the array at a user address.\<close>

definition check_LRU_list :: "u32 \<Rightarrow> u32 \<Rightarrow> list_head \<Rightarrow> kern \<Rightarrow> bool option" where
  "check_LRU_list content actual_size h k =
    (if content = NULL then Some True
     else do {
       (_, _, ok) \<leftarrow> LIST_FOREACH (\<lambda>_ w. ws_next (ws_elements k w))
         (\<lambda>w (idx, ok). do {
            v \<leftarrow> user_word (content + 4 * idx) k;
            if \<not> same_page (ws_virtual_address (ws_elements k w)) v then Some (True, idx, False) else Some (False, idx + 1, ok)
          }) (lh_first h) (0, True);
       Some (ok \<and> lh_size h = actual_size)
     })"

definition sys_check_LRU_lists :: "u32 \<Rightarrow> u32 \<Rightarrow> u32 \<Rightarrow> u32 \<Rightarrow> kern \<Rightarrow> (u32 \<times> kern) option" where
  "sys_check_LRU_lists active_content second_content active_size second_size k = do {
     (e, k1) \<leftarrow> cur_proc k;
     if e = NULL then None
     else do {
       a \<leftarrow> check_LRU_list active_content active_size (ActiveList (envs k1 e)) k1;
       s \<leftarrow> check_LRU_list second_content second_size (SecondList (envs k1 e)) k1;
       Some (if a \<and> s then 1 else 0, k1)
     }
   }"

text \<open>Whether the page of \<open>va\<close> is among \<open>n\<close> words from index \<open>i\<close> on.\<close>

primrec in_content :: "u32 \<Rightarrow> u32 \<Rightarrow> u32 \<Rightarrow> nat \<Rightarrow> kern \<Rightarrow> bool option" where
  "in_content va content i 0 k = Some False"
| "in_content va content i (Suc n) k = do {
     v \<leftarrow> user_word (content + 4 * i) k;
     if same_page va v then Some True else in_content va content (i + 1) n k
   }"

definition any_in_content :: "u32 \<Rightarrow> nat \<Rightarrow> list_head \<Rightarrow> kern \<Rightarrow> bool option" where
  "any_in_content content n h k = do {
     (_, r) \<leftarrow> LIST_FOREACH (\<lambda>_ w. ws_next (ws_elements k w))
       (\<lambda>w _. do { r \<leftarrow> in_content (ws_virtual_address (ws_elements k w)) content 0 n k; Some (r, r) }) (lh_first h) False;
     Some r
   }"

definition sys_check_LRU_lists_free :: "u32 \<Rightarrow> u32 \<Rightarrow> kern \<Rightarrow> (u32 \<times> kern) option" where
  "sys_check_LRU_lists_free list_content list_size k = do {
     (e, k1) \<leftarrow> cur_proc k;
     if e = NULL then None
     else do {
       let n = nat (sint list_size);
       a \<leftarrow> any_in_content list_content n (ActiveList (envs k1 e)) k1;
       s \<leftarrow> (if a then Some True else any_in_content list_content n (SecondList (envs k1 e)) k1);
       Some (if s then 1 else 0, k1)
     }
   }"

definition in_WS_list :: "u32 \<Rightarrow> list_head \<Rightarrow> kern \<Rightarrow> bool option" where
  "in_WS_list v h k = do {
     (w, _) \<leftarrow> LIST_FOREACH (\<lambda>_ w. ws_next (ws_elements k w))
       (\<lambda>w s. Some (same_page (ws_virtual_address (ws_elements k w)) v, s)) (lh_first h) ();
     Some (w \<noteq> NULL)
   }"

text \<open>Whether all of the words from index \<open>i\<close> on are (\<open>want\<close>) or are not pages of the list; it stops at the first that fails.\<close>

primrec content_in_WS :: "bool \<Rightarrow> u32 \<Rightarrow> u32 \<Rightarrow> nat \<Rightarrow> list_head \<Rightarrow> kern \<Rightarrow> bool option" where
  "content_in_WS want content i 0 h k = Some True"
| "content_in_WS want content i (Suc n) h k = do {
     v \<leftarrow> user_word (content + 4 * i) k;
     found \<leftarrow> in_WS_list v h k;
     if found \<noteq> want then Some False else content_in_WS want content (i + 1) n h k
   }"

primrec index_of :: "u32 \<Rightarrow> u32 \<Rightarrow> u32 \<Rightarrow> nat \<Rightarrow> kern \<Rightarrow> u32 option" where
  "index_of va content i 0 k = Some 0"
| "index_of va content i (Suc n) k = do {
     v \<leftarrow> user_word (content + 4 * i) k;
     if same_page v va then Some i else index_of va content (i + 1) n k
   }"

text \<open>The circular comparison from an element on.\<close>

primrec content_from :: "ptr \<Rightarrow> u32 \<Rightarrow> u32 \<Rightarrow> ptr \<Rightarrow> nat \<Rightarrow> kern \<Rightarrow> bool option" where
  "content_from e content idx w 0 k = Some True"
| "content_from e content idx w (Suc n) k = do {
     v \<leftarrow> user_word (content + 4 * idx) k;
     if \<not> same_page (ws_virtual_address (ws_elements k w)) v then Some False
     else if page_WS_max_size (envs k e) = 0 then None
     else
       let w1 = ws_next (ws_elements k w);
           w2 = (if w1 = NULL then lh_first (page_WS_list (envs k e)) else w1)
       in if w2 = NULL \<and> n \<noteq> 0 then None
          else content_from e content ((idx + 1) mod page_WS_max_size (envs k e)) w2 n k
   }"

definition check_WS_content :: "ptr \<Rightarrow> u32 \<Rightarrow> nat \<Rightarrow> u32 \<Rightarrow> u32 \<Rightarrow> kern \<Rightarrow> bool option" where
  "check_WS_content e content n last_content chk_status k =
    (let x = envs k e; h = page_WS_list x in
     if chk_status = 1 then do {
       idx \<leftarrow> (if last_content \<noteq> 0 then index_of last_content content 0 n k else Some 0);
       let w = (if page_last_WS_element x \<noteq> NULL then page_last_WS_element x else lh_first h);
       if w = NULL then None else content_from e content idx w n k
     }
     else if chk_status = 0 \<or> chk_status = 2 then content_in_WS True content 0 n h k
     else if chk_status = 3 then content_in_WS False content 0 n h k
     else Some True)"

definition sys_check_WS_list :: "u32 \<Rightarrow> u32 \<Rightarrow> u32 \<Rightarrow> u32 \<Rightarrow> kern \<Rightarrow> (u32 \<times> kern) option" where
  "sys_check_WS_list content actual_size last_content chk_status k = do {
     (e, k1) \<leftarrow> cur_proc k;
     if e = NULL then None
     else
       let x = envs k1 e in
       if (chk_status = 0 \<or> chk_status = 1) \<and> lh_size (page_WS_list x) \<noteq> actual_size then Some (0, k1)
       else if last_content \<noteq> 0 \<and> page_last_WS_element x = NULL then None
       else if last_content \<noteq> 0 \<and> \<not> same_page (ws_virtual_address (ws_elements k1 (page_last_WS_element x))) last_content then Some (0, k1)
       else do {
         ok \<leftarrow> check_WS_content e content (nat (sint actual_size)) last_content chk_status k1;
         Some (if ok then 1 else 0, k1)
       }
   }"

section \<open>Utilities by name\<close>

text \<open>What \<^verbatim>\<open>strsplit\<close> makes of a string at the character \<^verbatim>\<open>@\<close> (64).\<close>

function at_tokens :: "u8 list \<Rightarrow> u8 list list" where
  "at_tokens s = (let t = dropWhile (\<lambda>b. b = 64) s in
     if t = [] then [] else takeWhile (\<lambda>b. b \<noteq> 64) t # at_tokens (dropWhile (\<lambda>b. b \<noteq> 64) t))"
  by pat_completeness auto
termination
proof (relation "measure length")
  fix s t :: "u8 list"
  assume t: "t = dropWhile (\<lambda>b. b = 64) s" "t \<noteq> []"
  then have "hd t \<noteq> 64" using hd_dropWhile [of "\<lambda>b. b = 64" s] by simp
  then obtain b u where u: "t = b # u" "b \<noteq> 64" using t(2) by (cases t) simp_all
  have "length (dropWhile (\<lambda>b. b \<noteq> 64) t) \<le> length u" using u by (simp add: length_dropWhile_le)
  also have "\<dots> < length t" using u by simp
  also have "\<dots> \<le> length s" unfolding t by (rule length_dropWhile_le)
  finally show "(dropWhile (\<lambda>b. b \<noteq> 64) t, s) \<in> measure length" by simp
qed simp

declare at_tokens.simps [simp del]

primrec zero_ats :: "u32 \<Rightarrow> u8 list \<Rightarrow> kern \<Rightarrow> kern option" where
  "zero_ats p [] k = Some k"
| "zero_ats p (b # bs) k = do { k1 \<leftarrow> (if b = 64 then set_user_byte p 0 k else Some k); zero_ats (p + 1) bs k1 }"

text \<open>The processes that exited, from the first on: their numbers must go up, or down.\<close>

primrec exit_order :: "bool \<Rightarrow> u8 list \<Rightarrow> ptr \<Rightarrow> nat \<Rightarrow> u32 \<Rightarrow> u32 \<Rightarrow> kern \<Rightarrow> (u32 \<times> bool) option" where
  "exit_order ascending name e 0 prev cnt k = Some (cnt, True)"
| "exit_order ascending name e (Suc n) prev cnt k =
    (if e = NULL then None
     else if prog_name (envs k e) \<noteq> name then exit_order ascending name (env_prev (envs k e)) n prev cnt k
     else
       let i = env_id (envs k e) in
       if (if ascending then sint prev > sint i else sint prev < sint i) then Some (cnt - 1, False)
       else exit_order ascending name (env_prev (envs k e)) n i (cnt - 1) k)"

text \<open>More than 15 names in the argument are not modelled.\<close>

definition check_exit_order :: "u32 \<Rightarrow> u8 list \<Rightarrow> u32 \<Rightarrow> kern \<Rightarrow> kern option" where
  "check_exit_order u name value k = do {
     k1 \<leftarrow> zero_ats u name k;
     let ts = at_tokens name;
     if length ts > 15 \<or> length ts < 2 then None
     else do {
       cnt \<leftarrow> user_word value k1;
       let ascending = (sint cnt \<ge> 0);
       k2 \<leftarrow> acquire_qlock k1;
       (rest, success) \<leftarrow> exit_order ascending (ts ! 1) (lh_last (env_exit_queue k2)) (nat (sint (lh_size (env_exit_queue k2))))
         (if ascending then - 1 else 0x40000000) (if ascending then cnt else - cnt) k2;
       k3 \<leftarrow> release_qlock k2;
       set_user_word value (if rest \<noteq> 0 \<or> \<not> success then 0 else 1) k3
     }
   }"

definition test_sleep :: "kern \<Rightarrow> sysret option" where
  "test_sleep k = do {
     let t = testing k;
     let k1 = (if firstTimeSleep t then
         (let k1 = init_channel (tstchan t) (update_testing (\<lambda>t. t\<lparr>firstTimeSleep := False\<rparr>) k)
          in k1\<lparr>spinlocks := (spinlocks k1)(tstchan_lk t := init_spinlock ''Test Channel Lock'')\<rparr>) else k);
     k2 \<leftarrow> acquire_lock (tstchan_lk t) k1;
     (saved, k3) \<leftarrow> sleep (tstchan t) (tstchan_lk t) k2;
     Some (Suspends In_test_sleep saved k3)
   }"

definition test_sleep_return :: "u32 \<Rightarrow> kern \<Rightarrow> sysret option" where
  "test_sleep_return saved k = do {
     k1 \<leftarrow> sleep_return (tstchan_lk (testing k)) saved k;
     returning 0 (release_lock (tstchan_lk (testing k1)) k1)
   }"

definition test_acquire :: "kern \<Rightarrow> sysret option" where
  "test_acquire k = (let t = testing k;
       k1 = (if firstTimeSleepLock t then init_sleeplock (tstslplk t) (update_testing (\<lambda>t. t\<lparr>firstTimeSleepLock := False\<rparr>) k) else k)
     in map_option (as_result (In_acquire (tstslplk t)) 0) (acquire_sleeplock (tstslplk t) k1))"

definition repl_strategy :: "u32 \<Rightarrow> kern \<Rightarrow> kern option" where
  "repl_strategy value k =
    (if sint value \<ge> 0 then Some k
     else if value = - PG_REP_FIFO then Some (setPageReplacmentAlgorithmFIFO k)
     else if value = - PG_REP_LRU_LISTS_APPROX then setPageReplacmentAlgorithmLRU PG_REP_LRU_LISTS_APPROX k
     else Some k)"

text \<open>\<^verbatim>\<open>env_set_nice\<close> is not implemented and panics, whatever the argument of \<^verbatim>\<open>__BSDSetNice@\<close>.\<close>

definition sys_utilities :: "u32 \<Rightarrow> u32 \<Rightarrow> kern \<Rightarrow> sysret option" where
  "sys_utilities utilityName value k = do {
     name \<leftarrow> user_string utilityName k;
     let t = testing k;
     let store = (\<lambda>v. returning 0 (set_user_word value v k));
     if take 13 name = ascii ''__BSDSetNice@'' then None
     else if take 17 name = ascii ''__CheckExitOrder@'' then returning 0 (check_exit_order utilityName name value k)
     else if name = ascii ''__Sleep__'' then test_sleep k
     else if name = ascii ''__WakeupOne__'' then returning 0 (wakeup_one (tstchan t) k)
     else if name = ascii ''__WakeupAll__'' then returning 0 (wakeup_all (tstchan t) k)
     else if name = ascii ''__GetChanQueueSize__'' then store (lh_size (channels k (tstchan t)))
     else if name = ascii ''__GetReadyQueueSize__'' then store (lh_size (env_ready_queues k 0))
     else if name = ascii ''__AcquireSleepLock__'' then test_acquire k
     else if name = ascii ''__ReleaseSleepLock__'' then returning 0 (release_sleeplock (tstslplk t) k)
     else if name = ascii ''__GetLockQueueSize__'' then store (lh_size (channels k (tstslplk t)))
     else if name = ascii ''__GetLockValue__'' then store (sleep_locked k (tstslplk t))
     else if name = ascii ''__GetLockOwner__'' then store (sleep_pid k (tstslplk t))
     else if name = ascii ''__ReplStrat__'' then returning 0 (repl_strategy value k)
     else Some (Result 0 k)
   }"

end
