(* ===== verification/FOS_Syscall.thy ===== *)
theory FOS_Syscall
  imports FOS_TestCalls FOS_UserMem
begin

text \<open>
  The system calls of \<^verbatim>\<open>kern/trap/syscall.c\<close> and their dispatcher. \<open>syscall_env\<close> is the global
  \<^verbatim>\<open>cur_env\<close> of that file. What a call reads of the world outside of the kernel's memory is in
  a record: the programs of the kernel image, the time stamp counter, and what a variable that is
  not initialised holds. \<^verbatim>\<open>allocate_chunk\<close>, \<^verbatim>\<open>move_user_mem\<close>, \<^verbatim>\<open>calculate_required_frames\<close>,
  \<^verbatim>\<open>__free_user_mem_with_buffering\<close>, \<^verbatim>\<open>__sys_map_frame\<close> and \<^verbatim>\<open>__sys_unmap_frame\<close> consist of a panic
  in the source.
\<close>

record surroundings =
  prog_image :: image
  clock_now :: "64 word"
  stack_junk :: ptr

abbreviation "E_INVAL \<equiv> - 3 :: u32"
abbreviation "E_ENV_CREATION_ERROR \<equiv> - 17 :: u32"

section \<open>Memory\<close>

definition sys_allocate_page :: "u32 \<Rightarrow> u32 \<Rightarrow> kern \<Rightarrow> (u32 \<times> kern) option" where
  "sys_allocate_page va perm k = do {
     (f, k1) \<leftarrow> allocate_frame k;
     if va \<ge> USER_TOP \<or> va mod PAGE_SIZE \<noteq> 0 then Some (E_INVAL, k1)
     else if perm AND (NOT PERM_AVAILABLE AND NOT PERM_WRITEABLE) \<noteq> PERM_USER then Some (E_INVAL, k1)
     else do {
       let dir = env_page_directory (envs k1 (syscall_env k1));
       k2 \<leftarrow> map_frame dir f USER_LIMIT PERM_WRITEABLE k1;
       k3 \<leftarrow> store_users dir USER_LIMIT (\<lambda>_. 0) 4096 k2;
       k4 \<leftarrow> unmap_frame dir USER_LIMIT (update_frame f (\<lambda>i. i\<lparr>references := references i + 1\<rparr>) k3);
       k5 \<leftarrow> map_frame dir f va perm (update_frame f (\<lambda>i. i\<lparr>references := references i - 1\<rparr>) k4);
       Some (0, k5)
     }
   }"

definition sys_calculate_free_frames :: "kern \<Rightarrow> (u32 \<times> kern) option" where
  "sys_calculate_free_frames k = do {
     (counters, k1) \<leftarrow> calculate_available_frames k;
     Some (freeBuffered counters + freeNotBuffered counters, k1)
   }"

definition sys_calculate_modified_frames :: "kern \<Rightarrow> (u32 \<times> kern) option" where
  "sys_calculate_modified_frames k = do {
     (counters, k1) \<leftarrow> calculate_available_frames k;
     Some (modified counters, k1)
   }"

definition sys_calculate_notmod_frames :: "kern \<Rightarrow> (u32 \<times> kern) option" where
  "sys_calculate_notmod_frames k = do {
     (counters, k1) \<leftarrow> calculate_available_frames k;
     Some (freeBuffered counters, k1)
   }"

primrec allocate_times :: "nat \<Rightarrow> kern \<Rightarrow> kern option" where
  "allocate_times 0 k = Some k"
| "allocate_times (Suc n) k = do { (_, k1) \<leftarrow> allocate_frame k; allocate_times n k1 }"

text \<open>The size of the list is copied into an \<^verbatim>\<open>int\<close>.\<close>

definition sys_clearFFL :: "kern \<Rightarrow> kern option" where
  "sys_clearFFL k = do {
     k1 \<leftarrow> acquire_mfllock k;
     k2 \<leftarrow> allocate_times (nat (sint (lh_size (free_frame_list k1)))) k1;
     release_mfllock k2
   }"

text \<open>The check of an address and a size; the sum wraps around.\<close>

definition bad_user_range :: "u32 \<Rightarrow> u32 \<Rightarrow> bool" where
  "bad_user_range virtual_address sz \<longleftrightarrow> virtual_address = 0 \<or> virtual_address < USER_HEAP_START \<or>
     virtual_address \<ge> USER_HEAP_MAX \<or> virtual_address + sz \<ge> USER_HEAP_MAX"

definition sys_free_user_mem :: "u32 \<Rightarrow> u32 \<Rightarrow> kern \<Rightarrow> sysret option" where
  "sys_free_user_mem virtual_address sz k =
    (if bad_user_range virtual_address sz then map_option (as_result Exiting 0) (env_exit k)
     else if isBufferingEnabled k \<noteq> 0 then None
     else returning 0 (free_user_mem (syscall_env k) virtual_address sz k))"

definition sys_allocate_user_mem :: "u32 \<Rightarrow> u32 \<Rightarrow> kern \<Rightarrow> sysret option" where
  "sys_allocate_user_mem virtual_address sz k =
    (if bad_user_range virtual_address sz then map_option (as_result Exiting 0) (env_exit k)
     else returning 0 (allocate_user_mem (syscall_env k) virtual_address sz k))"

definition sys_getConsecutiveFreePages :: "ptr \<Rightarrow> u32 \<Rightarrow> kern \<Rightarrow> (u32 \<times> kern) option" where
  "sys_getConsecutiveFreePages e sz k = do { v \<leftarrow> getConsecutiveFreePages e sz k; Some (v, k) }"

definition sys_get_heap_strategy :: "kern \<Rightarrow> u32" where
  "sys_get_heap_strategy k = UHeapPlacementStrategy k"

definition sys_set_uheap_strategy :: "u32 \<Rightarrow> kern \<Rightarrow> kern" where
  "sys_set_uheap_strategy heapStrategy k = k\<lparr>UHeapPlacementStrategy := heapStrategy\<rparr>"

definition sys_pf_calculate_allocated_pages :: "kern \<Rightarrow> (u32 \<times> kern) option" where
  "sys_pf_calculate_allocated_pages k = do { v \<leftarrow> pf_calculate_allocated_pages (syscall_env k) k; Some (v, k) }"

section \<open>Shared memory\<close>

definition sys_createSharedObject :: "u32 \<Rightarrow> u32 \<Rightarrow> u8 \<Rightarrow> u32 \<Rightarrow> kern \<Rightarrow> (u32 \<times> kern) option" where
  "sys_createSharedObject shareName sz isWritable virtual_address k = do {
     name \<leftarrow> user_string shareName k;
     createSharedObject (env_id (envs k (syscall_env k))) name sz isWritable virtual_address k
   }"

definition sys_getSizeOfSharedObject :: "u32 \<Rightarrow> u32 \<Rightarrow> kern \<Rightarrow> (u32 \<times> kern) option" where
  "sys_getSizeOfSharedObject ownerID shareName k = do {
     name \<leftarrow> user_string shareName k;
     getSizeOfSharedObject ownerID name k
   }"

definition sys_getSharedObject :: "u32 \<Rightarrow> u32 \<Rightarrow> u32 \<Rightarrow> kern \<Rightarrow> (u32 \<times> kern) option" where
  "sys_getSharedObject ownerID shareName virtual_address k = do {
     name \<leftarrow> user_string shareName k;
     getSharedObject ownerID name virtual_address k
   }"

section \<open>Processes\<close>

definition sys_getenvid :: "kern \<Rightarrow> u32" where
  "sys_getenvid k = env_id (envs k (syscall_env k))"

definition sys_getenvindex :: "kern \<Rightarrow> u32" where
  "sys_getenvindex k = env_index (syscall_env k) k"

definition sys_getparentenvid :: "kern \<Rightarrow> u32" where
  "sys_getparentenvid k = env_parent_id (envs k (syscall_env k))"

definition sys_destroy_env :: "u32 \<Rightarrow> kern \<Rightarrow> sysret option" where
  "sys_destroy_env envid k = do {
     (r, e, k1) \<leftarrow> (if envid = 0 then Some (0, syscall_env k, k) else envid2env envid False k);
     if r < 0 then Some (Result (word_of_int r) k1)
     else map_option (as_result Exiting 0) (sched_kill_env (env_id (envs k1 e)) k1)
   }"

definition sys_exit_env :: "kern \<Rightarrow> sysret option" where
  "sys_exit_env k = map_option (as_result Exiting 0) (env_exit k)"

definition sys_create_env :: "image \<Rightarrow> u32 \<Rightarrow> u32 \<Rightarrow> u32 \<Rightarrow> u32 \<Rightarrow> kern \<Rightarrow> (u32 \<times> kern) option" where
  "sys_create_env img programName page_WS_size LRU_second_list_size percent k = do {
     name \<leftarrow> user_string programName k;
     (e, k1) \<leftarrow> env_create img name page_WS_size LRU_second_list_size percent k;
     if e = NULL then Some (E_ENV_CREATION_ERROR, k1)
     else do { k2 \<leftarrow> sched_new_env e k1; Some (env_id (envs k2 e), k2) }
   }"

definition sys_run_env :: "u32 \<Rightarrow> kern \<Rightarrow> sysret option" where
  "sys_run_env envId k = map_option (as_result Exiting 0) (sched_run_env envId k)"

definition sys_bypassPageFault :: "u8 \<Rightarrow> kern \<Rightarrow> kern" where
  "sys_bypassPageFault instrLength k = k\<lparr>bypassInstrLength := instrLength\<rparr>"

definition sys_get_virtual_time :: "64 word \<Rightarrow> u32 \<Rightarrow> u32 \<Rightarrow> kern \<Rightarrow> kern option" where
  "sys_get_virtual_time now ptrlow ptrhi k = do {
     k1 \<leftarrow> set_user_word ptrlow (ucast now) k;
     set_user_word ptrhi (ucast (drop_bit 32 now)) k1
   }"

section \<open>The dispatcher\<close>

text \<open>The numbers of \<^verbatim>\<open>inc/syscall.h\<close>.\<close>

abbreviation "SYS_cputs \<equiv> 0 :: u32"
abbreviation "SYS_cputc \<equiv> 1 :: u32"
abbreviation "SYS_cgetc \<equiv> 2 :: u32"
abbreviation "SYS_lock_cons \<equiv> 3 :: u32"
abbreviation "SYS_unlock_cons \<equiv> 4 :: u32"
abbreviation "SYS_getenvid \<equiv> 5 :: u32"
abbreviation "SYS_getenvindex \<equiv> 6 :: u32"
abbreviation "SYS_getparentenvid \<equiv> 7 :: u32"
abbreviation "SYS_allocate_page \<equiv> 8 :: u32"
abbreviation "SYS_map_frame \<equiv> 9 :: u32"
abbreviation "SYS_unmap_frame \<equiv> 10 :: u32"
abbreviation "SYS_calc_req_frames \<equiv> 11 :: u32"
abbreviation "SYS_calc_free_frames \<equiv> 12 :: u32"
abbreviation "SYS_calc_modified_frames \<equiv> 13 :: u32"
abbreviation "SYS_calc_notmod_frames \<equiv> 14 :: u32"
abbreviation "SYS_pf_calc_allocated_pages \<equiv> 15 :: u32"
abbreviation "SYS_calculate_pages_tobe_removed_ready_exit \<equiv> 16 :: u32"
abbreviation "SYS_scarce_memory \<equiv> 17 :: u32"
abbreviation "SYS_allocate_chunk_in_mem \<equiv> 18 :: u32"
abbreviation "SYS_move_user_mem \<equiv> 19 :: u32"
abbreviation "SYS_clearFFL \<equiv> 20 :: u32"
abbreviation "SYS_create_shared_object \<equiv> 21 :: u32"
abbreviation "SYS_get_size_of_shared_object \<equiv> 22 :: u32"
abbreviation "SYS_get_shared_object \<equiv> 23 :: u32"
abbreviation "SYS_free_shared_object \<equiv> 24 :: u32"
abbreviation "SYS_create_env \<equiv> 25 :: u32"
abbreviation "SYS_run_env \<equiv> 26 :: u32"
abbreviation "SYS_destroy_env \<equiv> 27 :: u32"
abbreviation "SYS_exit_env \<equiv> 28 :: u32"
abbreviation "SYS_get_virtual_time \<equiv> 29 :: u32"
abbreviation "SYS_rcr2 \<equiv> 30 :: u32"
abbreviation "SYS_bypassPageFault \<equiv> 31 :: u32"
abbreviation "SYS_testNum \<equiv> 32 :: u32"
abbreviation "SYS_rsttst \<equiv> 33 :: u32"
abbreviation "SYS_chktst \<equiv> 34 :: u32"
abbreviation "SYS_inctst \<equiv> 35 :: u32"
abbreviation "SYS_gettst \<equiv> 36 :: u32"
abbreviation "SYS_get_heap_strategy \<equiv> 37 :: u32"
abbreviation "SYS_set_heap_strategy \<equiv> 38 :: u32"
abbreviation "SYS_check_LRU_lists \<equiv> 39 :: u32"
abbreviation "SYS_check_LRU_lists_free \<equiv> 40 :: u32"
abbreviation "SYS_check_WS_list \<equiv> 41 :: u32"
abbreviation "SYS_utilities \<equiv> 42 :: u32"
abbreviation "SYS_sbrk \<equiv> 43 :: u32"
abbreviation "SYS_free_user_mem \<equiv> 44 :: u32"
abbreviation "SYS_allocate_user_mem \<equiv> 45 :: u32"
abbreviation "SYS_get_consecutive_free_pages \<equiv> 46 :: u32"
abbreviation "NSYSCALLS \<equiv> 47 :: u32"

text \<open>The cases of the \<^verbatim>\<open>switch\<close>. An unknown number gives \<^verbatim>\<open>-E_INVAL\<close>, which is 3.\<close>

definition syscall_cases :: "surroundings \<Rightarrow> u32 \<Rightarrow> u32 \<Rightarrow> u32 \<Rightarrow> u32 \<Rightarrow> u32 \<Rightarrow> u32 \<Rightarrow> kern \<Rightarrow> sysret option" where
  "syscall_cases w n a1 a2 a3 a4 a5 k =
    (if n = SYS_sbrk then with_result (sys_sbrk a1 k)
     else if n = SYS_free_user_mem then sys_free_user_mem a1 a2 k
     else if n = SYS_allocate_user_mem then sys_allocate_user_mem a1 a2 k
     else if n = SYS_get_consecutive_free_pages then with_result (sys_getConsecutiveFreePages a1 a2 k)
     else if n = SYS_cputs then returning 0 (sys_cputs a1 a2 (ucast a3) k)
     else if n = SYS_cgetc then sys_cgetc k
     else if n = SYS_lock_cons then sys_lock_cons k
     else if n = SYS_unlock_cons then sys_unlock_cons k
     else if n = SYS_calc_req_frames then None
     else if n = SYS_calc_free_frames then with_result (sys_calculate_free_frames k)
     else if n = SYS_calc_modified_frames then with_result (sys_calculate_modified_frames k)
     else if n = SYS_calc_notmod_frames then with_result (sys_calculate_notmod_frames k)
     else if n = SYS_pf_calc_allocated_pages then with_result (sys_pf_calculate_allocated_pages k)
     else if n = SYS_calculate_pages_tobe_removed_ready_exit then
       with_result (calc_no_pages_tobe_removed_from_ready_exit_queues a1 k)
     else if n = SYS_scarce_memory then returning 0 (scarce_memory k)
     else if n = SYS_allocate_chunk_in_mem then None
     else if n = SYS_allocate_page then do { (_, k1) \<leftarrow> sys_allocate_page a1 a2 k; Some (Result 0 k1) }
     else if n = SYS_map_frame then None
     else if n = SYS_unmap_frame then None
     else if n = SYS_cputc then Some (Result 0 (sys_cputc (ucast a1) k))
     else if n = SYS_clearFFL then returning 0 (sys_clearFFL k)
     else if n = SYS_create_shared_object then with_result (sys_createSharedObject a1 a2 (ucast a3) a4 k)
     else if n = SYS_get_shared_object then with_result (sys_getSharedObject a1 a2 a3 k)
     else if n = SYS_free_shared_object then with_result (freeSharedObject (stack_junk w) a1 a2 k)
     else if n = SYS_get_size_of_shared_object then with_result (sys_getSizeOfSharedObject a1 a2 k)
     else if n = SYS_create_env then with_result (sys_create_env (prog_image w) a1 a2 a3 a4 k)
     else if n = SYS_run_env then sys_run_env a1 k
     else if n = SYS_getenvindex then Some (Result (sys_getenvindex k) k)
     else if n = SYS_getenvid then Some (Result (sys_getenvid k) k)
     else if n = SYS_getparentenvid then Some (Result (sys_getparentenvid k) k)
     else if n = SYS_destroy_env then sys_destroy_env a1 k
     else if n = SYS_exit_env then sys_exit_env k
     else if n = SYS_get_virtual_time then returning 0 (sys_get_virtual_time (clock_now w) a1 a2 k)
     else if n = SYS_move_user_mem then None
     else if n = SYS_rcr2 then Some (Result (reg_cr2 k) k)
     else if n = SYS_bypassPageFault then Some (Result 0 (sys_bypassPageFault (ucast a1) k))
     else if n = SYS_rsttst then returning 0 (rsttst k)
     else if n = SYS_inctst then returning 0 (inctst k)
     else if n = SYS_chktst then returning 0 (chktst a1 k)
     else if n = SYS_gettst then Some (Result (gettst k) k)
     else if n = SYS_testNum then returning 0 (tst a1 a2 a3 (ucast a4) a5 k)
     else if n = SYS_get_heap_strategy then Some (Result (sys_get_heap_strategy k) k)
     else if n = SYS_set_heap_strategy then Some (Result 0 (sys_set_uheap_strategy a1 k))
     else if n = SYS_check_LRU_lists then with_result (sys_check_LRU_lists a1 a2 a3 a4 k)
     else if n = SYS_check_LRU_lists_free then with_result (sys_check_LRU_lists_free a1 a2 k)
     else if n = SYS_check_WS_list then with_result (sys_check_WS_list a1 a2 a3 a4 k)
     else if n = SYS_utilities then sys_utilities a1 a2 k
     else Some (Result (- E_INVAL) k))"

definition syscall :: "surroundings \<Rightarrow> u32 \<Rightarrow> u32 \<Rightarrow> u32 \<Rightarrow> u32 \<Rightarrow> u32 \<Rightarrow> u32 \<Rightarrow> kern \<Rightarrow> sysret option" where
  "syscall w n a1 a2 a3 a4 a5 k = do {
     (p, k1) \<leftarrow> cur_proc k;
     if p = NULL then None else syscall_cases w n a1 a2 a3 a4 a5 (k1\<lparr>syscall_env := p\<rparr>)
   }"

text \<open>What a call still does when its process has the CPU back; a process that exited never has.\<close>

definition syscall_return :: "waiting \<Rightarrow> u32 \<Rightarrow> kern \<Rightarrow> sysret option" where
  "syscall_return wt saved k =
    (case wt of
       In_cgetc \<Rightarrow> cgetc_return saved k
     | In_acquire lk \<Rightarrow> map_option (as_result wt 0) (acquire_return lk saved k)
     | In_test_sleep \<Rightarrow> test_sleep_return saved k
     | Exiting \<Rightarrow> None)"

end
