(* ===== verification/FOS_UHeap.thy ===== *)
theory FOS_UHeap
  imports FOS_Commands FOS_Syscall
begin

text \<open>
  The user side of the heap, \<^verbatim>\<open>lib/uheap.c\<close>, over the system calls (\<^verbatim>\<open>lib/syscall.c\<close>): the block
  allocator for small requests, pages for large ones, and shared objects. The routines that are not
  implemented (\<^verbatim>\<open>realloc\<close>, \<^verbatim>\<open>expand\<close>, \<^verbatim>\<open>shrink\<close>, \<^verbatim>\<open>freeHeap\<close>) panic and are left out.
\<close>

section \<open>A program\<close>

text \<open>
  A running program: the bytes of its heap, which the fault handler brings into memory unnoticed, with
  the state of the block allocator and the kernel under it, its own process structure, which it may
  read, and the two tables of \<^verbatim>\<open>uheap.c\<close> with one entry for each page above the block allocator.
\<close>

record program =
  heap :: "kern da"
  myEnv :: ptr
  marked_page_size :: "u32 \<Rightarrow> u32"
  va_page_id_share_object :: "u32 \<Rightarrow> u32"

abbreviation kernel_of :: "program \<Rightarrow> kern" where
  "kernel_of u \<equiv> da_world (heap u)"

definition with_kernel :: "kern \<Rightarrow> program \<Rightarrow> program" where
  "with_kernel k u = u\<lparr>heap := (heap u)\<lparr>da_world := k\<rparr>\<rparr>"

text \<open>A routine comes back with a value, or the process has lost the CPU in a system call.\<close>

datatype result = Value u32 program | Away sysret

definition call :: "surroundings \<Rightarrow> u32 \<Rightarrow> u32 \<Rightarrow> u32 \<Rightarrow> u32 \<Rightarrow> u32 \<Rightarrow> u32 \<Rightarrow> program \<Rightarrow> result option" where
  "call w n a1 a2 a3 a4 a5 u = do {
     r \<leftarrow> syscall w n a1 a2 a3 a4 a5 (kernel_of u);
     Some (case r of Result v k \<Rightarrow> Value v (with_kernel k u) | _ \<Rightarrow> Away r)
   }"

definition after :: "result option \<Rightarrow> (u32 \<Rightarrow> program \<Rightarrow> result option) \<Rightarrow> result option" where
  "after r f = (case r of Some (Value v u) \<Rightarrow> f v u | _ \<Rightarrow> r)"

lemma after_simps [simp]:
  "after None f = None" "after (Some (Value v u)) f = f v u" "after (Some (Away s)) f = Some (Away s)"
  by (simp_all add: after_def)

section \<open>Blocks\<close>

text \<open>\<^verbatim>\<open>sbrk\<close> of the program as the block allocator calls it; the call always returns a value.\<close>

definition user_sbrk :: "surroundings \<Rightarrow> kern sbrk_fun" where
  "user_sbrk w n m k =
    (case syscall w SYS_sbrk n 0 0 0 0 k of Some (Result v k1) \<Rightarrow> Some (v, m, k1) | _ \<Rightarrow> None)"

text \<open>\<^verbatim>\<open>sys_isUHeapPlacementStrategyFIRSTFIT\<close> and the like.\<close>

definition strategy_is :: "surroundings \<Rightarrow> u32 \<Rightarrow> program \<Rightarrow> result option" where
  "strategy_is w strategy u = after (call w SYS_get_heap_strategy 0 0 0 0 0 u) (\<lambda>ret u1. Some (Value (if ret = strategy then 1 else 0) u1))"

definition on_heap :: "(kern da \<Rightarrow> (ptr \<times> kern da) option) \<Rightarrow> program \<Rightarrow> result option" where
  "on_heap f u = do { (p, h) \<leftarrow> f (heap u); Some (Value p (u\<lparr>heap := h\<rparr>)) }"

definition malloc_block :: "surroundings \<Rightarrow> uheap_strategies \<Rightarrow> u32 \<Rightarrow> program \<Rightarrow> result option" where
  "malloc_block w uh sz u =
    after (strategy_is w (UHP_PLACE_FIRSTFIT uh) u) (\<lambda>ff u1.
      if ff \<noteq> 0 then on_heap (alloc_block_FF (user_sbrk w) sz) u1
      else after (strategy_is w (UHP_PLACE_BESTFIT uh) u1) (\<lambda>bf u2.
        if bf \<noteq> 0 then on_heap (alloc_block_BF (user_sbrk w) sz) u2
        else Some (Value NULL u2)))"

section \<open>Pages\<close>

definition page_no_index :: "u32 \<Rightarrow> program \<Rightarrow> u32" where
  "page_no_index va u = (va - (USERH_HARD_LIMIT (envs (kernel_of u) (myEnv u)) + 4096)) div PAGE_SIZE"

text \<open>An index behind the 131072 entries of a table is \<open>None\<close>.\<close>

definition set_marked :: "u32 \<Rightarrow> u32 \<Rightarrow> program \<Rightarrow> program option" where
  "set_marked i n u = (if i < 131072 then Some (u\<lparr>marked_page_size := (marked_page_size u)(i := n)\<rparr>) else None)"

definition set_share_id :: "u32 \<Rightarrow> u32 \<Rightarrow> program \<Rightarrow> program option" where
  "set_share_id i n u = (if i < 131072 then Some (u\<lparr>va_page_id_share_object := (va_page_id_share_object u)(i := n)\<rparr>) else None)"

definition malloc_pages :: "surroundings \<Rightarrow> u32 \<Rightarrow> program \<Rightarrow> result option" where
  "malloc_pages w sz u =
    (let sz = ROUNDUP sz PAGE_SIZE; noOfPages = sz div PAGE_SIZE in
     after (call w SYS_get_consecutive_free_pages (myEnv u) sz 0 0 0 u) (\<lambda>start_addr u1.
       if start_addr = NULL then Some (Value NULL u1)
       else do {
         u2 \<leftarrow> set_marked (page_no_index start_addr u1) noOfPages u1;
         after (call w SYS_allocate_user_mem start_addr sz 0 0 0 u2) (\<lambda>_ u3. Some (Value start_addr u3))
       }))"

definition malloc :: "surroundings \<Rightarrow> uheap_strategies \<Rightarrow> u32 \<Rightarrow> program \<Rightarrow> result option" where
  "malloc w uh sz u =
    (if sz = 0 then Some (Value NULL u)
     else if sz \<le> DYN_ALLOC_MAX_BLOCK_SIZE then malloc_block w uh sz u
     else malloc_pages w sz u)"

text \<open>The value of \<open>free_mem\<close> has no meaning. An address outside both parts panics.\<close>

definition free_pages :: "surroundings \<Rightarrow> u32 \<Rightarrow> program \<Rightarrow> result option" where
  "free_pages w va u =
    (let i = page_no_index va u in
     if \<not> i < 131072 then None
     else after (call w SYS_free_user_mem va (marked_page_size u i * PAGE_SIZE) 0 0 0 u) (\<lambda>_ u1. do {
       u2 \<leftarrow> set_marked i 0 u1;
       Some (Value 0 u2)
     }))"

definition free_mem :: "surroundings \<Rightarrow> u32 \<Rightarrow> program \<Rightarrow> result option" where
  "free_mem w va u =
    (let e = envs (kernel_of u) (myEnv u) in
     if va \<ge> USER_HEAP_START \<and> va < USERH_BRK e then on_heap (\<lambda>h. do { h1 \<leftarrow> free_block va h; Some (0, h1) }) u
     else if va \<ge> USERH_HARD_LIMIT e + 4096 \<and> va < USER_HEAP_MAX then free_pages w va u
     else None)"

section \<open>Shared objects\<close>

definition smalloc :: "surroundings \<Rightarrow> u32 \<Rightarrow> u32 \<Rightarrow> u8 \<Rightarrow> program \<Rightarrow> result option" where
  "smalloc w sharedVarName sz isWritable u =
    (if sz = 0 then Some (Value NULL u)
     else let sz = ROUNDUP sz PAGE_SIZE in
     after (call w SYS_get_consecutive_free_pages (myEnv u) sz 0 0 0 u) (\<lambda>start_addr u1.
       if start_addr = NULL then Some (Value NULL u1)
       else after (call w SYS_create_shared_object sharedVarName sz (ucast isWritable) start_addr 0 u1) (\<lambda>shared_id u2.
         if shared_id = E_NO_MEM \<or> shared_id = E_SHARED_MEM_EXISTS then Some (Value NULL u2)
         else do {
           u3 \<leftarrow> set_share_id (page_no_index start_addr u2) shared_id u2;
           Some (Value start_addr u3)
         })))"

definition sget :: "surroundings \<Rightarrow> u32 \<Rightarrow> u32 \<Rightarrow> program \<Rightarrow> result option" where
  "sget w ownerEnvID sharedVarName u =
    after (call w SYS_get_size_of_shared_object ownerEnvID sharedVarName 0 0 0 u) (\<lambda>shared_size u1.
      if shared_size = E_SHARED_MEM_NOT_EXISTS then Some (Value NULL u1)
      else after (call w SYS_get_consecutive_free_pages (myEnv u1) shared_size 0 0 0 u1) (\<lambda>start_addr u2.
        if start_addr = NULL then Some (Value NULL u2)
        else after (call w SYS_get_shared_object ownerEnvID sharedVarName start_addr 0 0 u2) (\<lambda>shared_object_id u3.
          if shared_object_id = E_SHARED_MEM_NOT_EXISTS then Some (Value NULL u3)
          else do {
            u4 \<leftarrow> set_share_id (page_no_index start_addr u3) shared_object_id u3;
            Some (Value start_addr u4)
          })))"

definition sfree :: "surroundings \<Rightarrow> u32 \<Rightarrow> program \<Rightarrow> result option" where
  "sfree w va u =
    (let i = page_no_index va u in
     if \<not> i < 131072 then None
     else after (call w SYS_free_shared_object (va_page_id_share_object u i) va 0 0 0 u) (\<lambda>_ u1. do {
       u2 \<leftarrow> set_share_id i 0 u1;
       Some (Value 0 u2)
     }))"

section \<open>Sleeping\<close>

text \<open>
  \<^verbatim>\<open>env_sleep\<close> of \<^verbatim>\<open>lib/concurrency.c\<close>: busy waiting on the low word of the processor's clock. \<open>clock i\<close>
  is the clock at the \<open>i\<close>-th reading after the first one, \<open>base\<close>.
\<close>

partial_function (option) sleep_loop :: "(nat \<Rightarrow> u64) \<Rightarrow> u64 \<Rightarrow> u32 \<Rightarrow> nat \<Rightarrow> u32 \<Rightarrow> nat option" where
  "sleep_loop clock base time_in_cycles i cycles_counter =
    (if cycles_counter < time_in_cycles
     then sleep_loop clock base time_in_cycles (i + 1) (ucast (clock i) - ucast base)
     else Some i)"

definition CYCLES_PER_MILLISEC :: u32 where
  "CYCLES_PER_MILLISEC = 10000"

definition env_sleep :: "(nat \<Rightarrow> u64) \<Rightarrow> u64 \<Rightarrow> u32 \<Rightarrow> nat option" where
  "env_sleep clock base approxMilliSeconds =
    sleep_loop clock base (approxMilliSeconds * CYCLES_PER_MILLISEC) 0 0"

partial_function (option) busy_loop :: "u32 \<Rightarrow> u32 \<Rightarrow> u32 option" where
  "busy_loop i loopMax = (if i < loopMax then busy_loop (i + 1) loopMax else Some i)"

definition busy_wait :: "u32 \<Rightarrow> u32 option" where
  "busy_wait loopMax = busy_loop 0 loopMax"

end
