(* ===== verification/FOS_RoundRobin.thy ===== *)
theory FOS_RoundRobin
  imports FOS_SchedInv
begin

text \<open>
  What the round-robin scheduler does to the ready queue, and what giving up the CPU, running,
  exiting and starting processes do to the queues.
\<close>

section \<open>Running with the queue lock\<close>

definition in_sched :: "kern \<Rightarrow> bool" where
  "in_sched k \<longleftrightarrow> held (qlock k) \<and> cpu_ok (kcpu k) \<and> ncli (kcpu k) = 1"

text \<open>The lock is free and the CPU can take it; interrupts may be on.\<close>

definition in_process :: "kern \<Rightarrow> bool" where
  "in_process k \<longleftrightarrow> lk_locked (qlock k) = 0 \<and> cpu_ok (kcpu k) \<and> ncli (kcpu k) = 0"

lemma kcpu_same [simp]: "k\<lparr>kcpu := kcpu k\<rparr> = k"
  by simp

lemma check_qlock_held: "in_sched k \<Longrightarrow> check_qlock k = Some k"
  by (simp add: check_qlock_def holding_qlock_def with_cpu_def in_sched_def holding_spinlock_eq)

lemma cur_proc_held: "in_sched k \<Longrightarrow> cur_proc k = Some (cpu_proc (kcpu k), k)"
  by (simp add: cur_proc_def with_cpu_def in_sched_def get_cpu_proc_eq)

lemma set_proc_held: "in_sched k \<Longrightarrow> set_proc p k = Some (k\<lparr>kcpu := (kcpu k)\<lparr>cpu_proc := p\<rparr>\<rparr>)"
  by (simp add: set_proc_def in_sched_def set_cpu_proc_eq)

lemma switchuvm_held:
  assumes "in_sched k" and "p \<noteq> NULL" "kstack (envs k p) \<noteq> NULL" "env_page_directory (envs k p) \<noteq> NULL"
  shows "switchuvm p k = Some (k\<lparr>kcpu := (kcpu k)\<lparr>cpu_proc := p\<rparr>\<rparr>)"
proof -
  have "popcli (pushcli (kcpu k)\<lparr>cpu_proc := p\<rparr>) = Some ((peeked (kcpu k))\<lparr>cpu_proc := p\<rparr>)"
    using set_cpu_proc_eq [of "kcpu k" p] assms by (simp add: set_cpu_proc_def Let_def in_sched_def)
  then show ?thesis using assms by (simp add: switchuvm_def Let_def in_sched_def)
qed

lemma pushcli_deeper: "cpu_ok c \<Longrightarrow> ncli c \<noteq> 0 \<Longrightarrow> pushcli c = c\<lparr>ncli := ncli c + 1\<rparr>"
  using cli_id [of "eflags c"] by (cases c) (simp add: pushcli_def cli_def Let_def cpu_ok_alt)

lemma popcli_outer: "cpu_ok c \<Longrightarrow> ncli c = 2 \<Longrightarrow> popcli c = Some (c\<lparr>ncli := 1\<rparr>)"
  by (simp add: popcli_def cpu_ok_def)

text \<open>A nested pair of \<^verbatim>\<open>pushcli\<close> and \<^verbatim>\<open>popcli\<close> leaves the CPU as it was.\<close>

lemma popcli_nested: "cpu_ok c \<Longrightarrow> ncli c = 1 \<Longrightarrow> popcli (pushcli c) = Some c"
  by (simp add: pushcli_deeper popcli_def cpu_ok_def)

lemma cpu_ok_cpu_proc [simp]: "cpu_ok (c\<lparr>cpu_proc := p\<rparr>) = cpu_ok c"
  by (simp add: cpu_ok_def)

lemma in_sched_simps [simp]:
  "in_sched (k\<lparr>kcpu := (kcpu k)\<lparr>cpu_proc := p\<rparr>\<rparr>) = in_sched k"
  "in_sched (set_env_status e s k) = in_sched k" "in_sched (k\<lparr>clock_quantum := n\<rparr>) = in_sched k"
  "in_sched (kclock_stop k) = in_sched k"
  by (simp_all add: in_sched_def)

lemma kclock_set_quantum_held:
  "in_sched k \<Longrightarrow> q < 54 \<Longrightarrow> q \<noteq> 0 \<Longrightarrow> kclock_set_quantum q k = Some (kclock_stop (k\<lparr>clock_quantum := q\<rparr>))"
  by (simp add: kclock_set_quantum_def kclock_write_cnt0_LSB_first_def popcli_nested in_sched_def)

lemma in_sched_unqueued: "unqueued k' = unqueued k \<Longrightarrow> in_sched k' = in_sched k"
  by (simp add: in_sched_def unqueued_eqD(1,2) [of k' k])

lemma acquire_qlock_free:
  assumes "in_process k"
  shows "acquire_qlock k = Some (k\<lparr>qlock := (qlock k)\<lparr>lk_locked := 1, lk_cpu := Some 0\<rparr>, kcpu := pushcli (kcpu k)\<rparr>)"
    and "in_sched (k\<lparr>qlock := (qlock k)\<lparr>lk_locked := 1, lk_cpu := Some 0\<rparr>, kcpu := pushcli (kcpu k)\<rparr>)"
proof -
  show "acquire_qlock k = Some (k\<lparr>qlock := (qlock k)\<lparr>lk_locked := 1, lk_cpu := Some 0\<rparr>, kcpu := pushcli (kcpu k)\<rparr>)"
    using assms by (simp add: acquire_qlock_def in_process_def acquire_spinlock_eq)
  show "in_sched (k\<lparr>qlock := (qlock k)\<lparr>lk_locked := 1, lk_cpu := Some 0\<rparr>, kcpu := pushcli (kcpu k)\<rparr>)"
    using assms pushcli_inside [of "kcpu k"]
    by (auto simp: in_sched_def in_process_def cpu_ok_alt pushcli_def cli_def Let_def FL_IF_test FL_IF_update)
qed

text \<open>Releasing the lock at depth one brings back the interrupt flag that \<^verbatim>\<open>intena\<close> records.\<close>

lemma popcli_last:
  assumes "cpu_ok c" "ncli c = 1"
  shows "popcli c = Some (let c1 = c\<lparr>ncli := 0\<rparr> in if intena c \<noteq> 0 then sti c1 else c1)"
  using assms by (auto simp: popcli_def cpu_ok_alt Let_def FL_IF_test)

definition unlocked :: "kern \<Rightarrow> kern" where
  "unlocked k = k\<lparr>qlock := (qlock k)\<lparr>lk_cpu := None, lk_locked := 0\<rparr>,
     kcpu := (let c1 = (kcpu k)\<lparr>ncli := 0\<rparr> in if intena (kcpu k) \<noteq> 0 then sti c1 else c1)\<rparr>"

lemma release_qlock_held:
  assumes "in_sched k"
  shows "release_qlock k = Some (unlocked k)" and "in_process (unlocked k)"
proof -
  show "release_qlock k = Some (unlocked k)"
    using assms
    by (simp add: release_qlock_def release_spinlock_def in_sched_def holding_spinlock_eq popcli_last Let_def unlocked_def)
  show "in_process (unlocked k)"
    using assms by (auto simp: in_process_def unlocked_def in_sched_def Let_def cpu_ok_def sti_def)
qed

lemma unlocked_simps [simp]:
  "cpu_proc (kcpu (unlocked k)) = cpu_proc (kcpu k)" "envs (unlocked k) = envs k" "head_of (unlocked k) q = head_of k q"
  "queues_ok (unlocked k) qs = queues_ok k qs" "scheduler_status (kcpu (unlocked k)) = scheduler_status (kcpu k)"
proof -
  show h: "head_of (unlocked k) q = head_of k q" for q by (cases q) (simp_all add: unlocked_def)
  show "cpu_proc (kcpu (unlocked k)) = cpu_proc (kcpu k)" "envs (unlocked k) = envs k"
    "scheduler_status (kcpu (unlocked k)) = scheduler_status (kcpu k)"
    by (simp_all add: unlocked_def Let_def sti_def)
  then show "queues_ok (unlocked k) qs = queues_ok k qs" by (simp add: queues_ok_def h)
qed

section \<open>Picking the next process\<close>

definition rr_setup :: "kern \<Rightarrow> bool" where
  "rr_setup k \<longleftrightarrow> scheduler_method k = SCH_RR \<and> quantums k 0 < 54 \<and> quantums k 0 \<noteq> 0"

definition has_space :: "kern \<Rightarrow> ptr \<Rightarrow> bool" where
  "has_space k p \<longleftrightarrow> kstack (envs k p) \<noteq> NULL \<and> env_page_directory (envs k p) \<noteq> NULL"

text \<open>The candidates: the current process, if there is one, queues up behind the ready ones.\<close>

definition candidates :: "ptr \<Rightarrow> ptr list \<Rightarrow> ptr list" where
  "candidates cur xs = (if cur = NULL then xs else cur # xs)"

lemma requeue_current:
  assumes ok: "queues_ok k qs" "qs (Ready 0) = Some xs" and cur: "cur \<notin> queued qs"
  shows "\<exists>k'. (if cur \<noteq> NULL then on_ready_queue 0 (\<lambda>q. enqueue (Some q) cur) k else Some k) = Some k' \<and>
    queues_ok k' (qs(Ready 0 \<mapsto> candidates cur xs)) \<and> unqueued k' = unqueued k"
proof (cases "cur = NULL")
  case True
  then show ?thesis using ok by (auto simp: candidates_def fun_upd_idem)
next
  case False
  with enqueue_ok [OF ok False cur] show ?thesis
    by (auto simp: returns_iff on_queue_eqs candidates_def)
qed

lemma fos_scheduler_RR_picks:
  assumes ok: "queues_ok k qs" "qs (Ready 0) = Some xs" and s: "in_sched k" "rr_setup k"
    and cur: "cpu_proc (kcpu k) \<notin> queued qs"
  shows "\<exists>e k'. fos_scheduler_RR k = Some (e, k') \<and> unqueued k' = unqueued (kclock_stop (k\<lparr>clock_quantum := quantums k 0\<rparr>)) \<and>
    (case candidates (cpu_proc (kcpu k)) xs of
       [] \<Rightarrow> e = NULL \<and> queues_ok k' qs
     | y # ys \<Rightarrow> e = last (y # ys) \<and> e \<noteq> NULL \<and> queues_ok k' (qs(Ready 0 \<mapsto> butlast (y # ys))))"
proof -
  let ?cur = "cpu_proc (kcpu k)" let ?ys = "candidates ?cur xs"
  from requeue_current [OF ok cur] obtain k3 where
    k3: "(if ?cur \<noteq> NULL then on_ready_queue 0 (\<lambda>q. enqueue (Some q) ?cur) k else Some k) = Some k3"
      "queues_ok k3 (qs(Ready 0 \<mapsto> ?ys))" "unqueued k3 = unqueued k" by blast
  note same = unqueued_eqD [OF k3(3)]
  have s3: "in_sched k3" using in_sched_unqueued [OF k3(3)] s(1) by simp
  have q: "quantums k3 0 < 54" "quantums k3 0 \<noteq> 0" using s(2) same by (simp_all add: rr_setup_def)
  have start: "fos_scheduler_RR k = do {
     (next_env, q, t) \<leftarrow> dequeue (Some (head_of k3 (Ready 0))) (envs k3);
     let k4 = k3\<lparr>env_ready_queues := (env_ready_queues k3)(0 := the q), envs := t\<rparr>;
     k5 \<leftarrow> kclock_set_quantum (quantums k4 0) k4;
     Some (next_env, k5) }"
    by (simp add: fos_scheduler_RR_def check_qlock_held s cur_proc_held k3(1) del: fun_upd_apply)
  show ?thesis
  proof (cases ?ys rule: rev_cases)
    case Nil
    then have r0: "qs (Ready 0) = Some []" using ok(2) by (auto simp: candidates_def split: if_splits)
    then have "queues_ok k3 qs" using k3(2) Nil by (simp add: fun_upd_idem)
    moreover note r0
    ultimately have "dequeue (Some (head_of k3 (Ready 0))) (envs k3) = Some (NULL, Some (head_of k3 (Ready 0)), envs k3)"
      by (intro dequeue_empty)
    then have "fos_scheduler_RR k = Some (NULL, kclock_stop (k3\<lparr>clock_quantum := quantums k3 0\<rparr>))"
      using q s3 by (simp add: start kclock_set_quantum_held)
    moreover have "unqueued (kclock_stop (k3\<lparr>clock_quantum := quantums k3 0\<rparr>)) = unqueued (kclock_stop (k\<lparr>clock_quantum := quantums k 0\<rparr>))"
      using k3(3) same(6) by (simp add: unqueued_clock unqueued_kclock_stop)
    ultimately show ?thesis using Nil \<open>queues_ok k3 qs\<close> by auto
  next
    case (snoc zs e)
    then have "(qs(Ready 0 \<mapsto> ?ys)) (Ready 0) = Some (zs @ [e])" by simp
    from dequeue_last [OF k3(2) this] obtain h t where
      h: "dequeue (Some (head_of k3 (Ready 0))) (envs k3) = Some (e, Some h, t)" "e \<noteq> NULL"
        "queues_ok ((set_head (Ready 0) h k3)\<lparr>envs := t\<rparr>) (qs(Ready 0 \<mapsto> zs))"
        "unqueued ((set_head (Ready 0) h k3)\<lparr>envs := t\<rparr>) = unqueued k3"
      unfolding fun_upd_upd by blast
    from h(4) k3(3) s(1) have s4: "in_sched ((set_head (Ready 0) h k3)\<lparr>envs := t\<rparr>)"
      by (metis in_sched_unqueued)
    let ?k4 = "(set_head (Ready 0) h k3)\<lparr>envs := t\<rparr>"
    have "fos_scheduler_RR k = Some (e, kclock_stop (?k4\<lparr>clock_quantum := quantums k3 0\<rparr>))"
      using h q s4 by (simp add: start kclock_set_quantum_held)
    moreover have "unqueued (kclock_stop (?k4\<lparr>clock_quantum := quantums k3 0\<rparr>)) = unqueued (kclock_stop (k\<lparr>clock_quantum := quantums k 0\<rparr>))"
      using h(4) k3(3) same(6) by (simp add: unqueued_clock unqueued_kclock_stop del: set_head.simps)
    moreover obtain y ys where y: "?ys = y # ys" using snoc by (metis Nil_is_append_conv neq_Nil_conv)
    moreover have "last (y # ys) = e" "butlast (y # ys) = zs" using snoc y by (metis last_snoc, metis butlast_snoc)
    ultimately show ?thesis unfolding y list.case using h(2,3) by auto
  qed
qed

definition same_locks :: "kern \<Rightarrow> kern \<Rightarrow> bool" where
  "same_locks k' k \<longleftrightarrow> spinlocks k' = spinlocks k \<and> sleep_locked k' = sleep_locked k \<and> sleep_pid k' = sleep_pid k"

lemma scheduler_pick_RR:
  assumes ok: "queues_ok k qs" "qs (Ready 0) = Some xs" and s: "in_sched k" "rr_setup k"
    and cur: "cpu_proc (kcpu k) \<notin> queued qs" and space: "\<forall>p \<in> set (candidates (cpu_proc (kcpu k)) xs). has_space k p"
  shows "returns (scheduler_pick k) (\<lambda>(e, k'). in_sched k' \<and> rr_setup k' \<and> PageRepAlgoType k' = PageRepAlgoType k \<and> same_locks k' k \<and> (\<forall>p. has_space k' p = has_space k p) \<and>
    (\<forall>p. p \<noteq> e \<longrightarrow> env_status (envs k' p) = env_status (envs k p)) \<and> (\<forall>p. env_id (envs k' p) = env_id (envs k p)) \<and>
    (case candidates (cpu_proc (kcpu k)) xs of
       [] \<Rightarrow> e = NULL \<and> queues_ok k' qs \<and> cpu_proc (kcpu k') = NULL
     | y # ys \<Rightarrow> e = last (y # ys) \<and> e \<noteq> NULL \<and> queues_ok k' (qs(Ready 0 \<mapsto> butlast (y # ys))) \<and>
         cpu_proc (kcpu k') = e \<and> env_status (envs k' e) = ENV_RUNNING))"
proof -
  let ?ys = "candidates (cpu_proc (kcpu k)) xs"
  from fos_scheduler_RR_picks [OF ok s cur] obtain e k1 where
    k1: "fos_scheduler_RR k = Some (e, k1)" "unqueued k1 = unqueued (kclock_stop (k\<lparr>clock_quantum := quantums k 0\<rparr>))"
      "case ?ys of [] \<Rightarrow> e = NULL \<and> queues_ok k1 qs
       | y # ys \<Rightarrow> e = last (y # ys) \<and> e \<noteq> NULL \<and> queues_ok k1 (qs(Ready 0 \<mapsto> butlast (y # ys)))" by blast
  note same = unqueued_eqD [OF k1(2)]
  have s1: "in_sched k1" using in_sched_unqueued [OF k1(2)] s(1) by simp
  have rr1: "rr_setup k1" using same s(2) by (simp add: rr_setup_def)
  have sp: "has_space k1 p = has_space k p" for p
    using unqueued_envD [OF k1(2), of p] by (simp add: has_space_def)
  have st: "env_status (envs k1 p) = env_status (envs k p)" "env_id (envs k1 p) = env_id (envs k p)" for p
    using unqueued_envD [OF k1(2), of p] by simp_all
  have pr: "PageRepAlgoType k1 = PageRepAlgoType k" using same(13) by simp
  have lo: "same_locks k1 k" using same(9-11) by (simp add: same_locks_def)
  have cpu1: "cpu_proc (kcpu k1) = cpu_proc (kcpu k)" using same(1) by simp
  have nx: "sched_next k = Some (e, k1)" using k1(1) s(2) by (simp add: sched_next_def rr_setup_def)
  have restore: "k1\<lparr>kcpu := (kcpu k1)\<lparr>cpu_proc := cpu_proc (kcpu k1)\<rparr>\<rparr> = k1" by simp
  show ?thesis
  proof (cases ?ys)
    case Nil
    then have "cpu_proc (kcpu k) = NULL" by (auto simp: candidates_def split: if_splits)
    moreover have "scheduler_pick k = Some (NULL, k1)"
      using k1(3) Nil by (simp add: scheduler_pick_def nx cur_proc_held set_proc_held s1)
    ultimately show ?thesis using k1(3) Nil s1 rr1 sp st cpu1 pr lo by simp
  next
    case (Cons y ys)
    have "e = last (y # ys) \<and> e \<noteq> NULL \<and> queues_ok k1 (qs(Ready 0 \<mapsto> butlast (y # ys)))"
      using k1(3) unfolding Cons list.case .
    then have e: "e = last (y # ys)" "e \<noteq> NULL" "queues_ok k1 (qs(Ready 0 \<mapsto> butlast (y # ys)))" by blast+
    have "e \<in> set ?ys" using e(1) Cons by (metis last_in_set list.discI)
    then have "has_space k1 e" using space sp by auto
    then have sw: "switchuvm e (k1\<lparr>kcpu := (kcpu k1)\<lparr>cpu_proc := e\<rparr>\<rparr>) = Some (k1\<lparr>kcpu := (kcpu k1)\<lparr>cpu_proc := e\<rparr>\<rparr>)"
      using switchuvm_held [of "k1\<lparr>kcpu := (kcpu k1)\<lparr>cpu_proc := e\<rparr>\<rparr>" e] s1 e(2) by (simp add: has_space_def)
    have "scheduler_pick k = Some (e, set_env_status e ENV_RUNNING (k1\<lparr>kcpu := (kcpu k1)\<lparr>cpu_proc := e\<rparr>\<rparr>))"
      using e(2) by (simp add: scheduler_pick_def nx cur_proc_held set_proc_held s1 sw)
    moreover have "rr_setup (set_env_status e ENV_RUNNING (k1\<lparr>kcpu := (kcpu k1)\<lparr>cpu_proc := e\<rparr>\<rparr>))"
      using rr1 by (simp add: rr_setup_def)
    ultimately show ?thesis
      using e s1 sp st Cons pr lo by (auto simp: has_space_def same_locks_def)
  qed
qed

end
