(* ===== verification/FOS_Fairness.thy ===== *)
theory FOS_Fairness
  imports FOS_RoundRobin FOS_BootState
begin

text \<open>
  A whole quantum of round robin, from one clock interrupt to the next process running: the
  interrupt handler gives up the CPU, the scheduler loop goes round and picks a process, and that
  process returns from its own \<^verbatim>\<open>yield\<close>. The order in which processes run is a list that each
  quantum rotates.
\<close>

section \<open>One quantum\<close>

text \<open>\<open>saved\<close> is the interrupt flag the next process has on its own kernel stack.\<close>

definition quantum :: "u32 \<Rightarrow> kern \<Rightarrow> kern option" where
  "quantum saved k = do {
     r \<leftarrow> clock_interrupt_handler k;
     (case r of
        Gives_up _ k1 \<Rightarrow> do {
          k2 \<leftarrow> scheduler_back k1;
          (e, k3) \<leftarrow> scheduler_pick k2;
          if e = NULL then None else yield_return saved k3
        }
      | _ \<Rightarrow> None)
   }"

text \<open>\<open>L\<close> is the order of turns: the running process, then the ready queue from its tail.\<close>

definition turns :: "kern \<Rightarrow> qlists \<Rightarrow> ptr list \<Rightarrow> bool" where
  "turns k qs L \<longleftrightarrow> in_process k \<and> rr_setup k \<and> PageRepAlgoType k \<noteq> PG_REP_LRU_TIME_APPROX \<and>
     L \<noteq> [] \<and> hd L \<noteq> NULL \<and> queues_ok k (qs(Ready 0 \<mapsto> rev (tl L))) \<and> hd L \<notin> queued (qs(Ready 0 \<mapsto> rev (tl L))) \<and>
     cpu_proc (kcpu k) = hd L \<and> env_status (envs k (hd L)) = ENV_RUNNING \<and>
     (\<forall>p \<in> set (tl L). env_status (envs k p) = ENV_READY) \<and> (\<forall>p \<in> set L. has_space k p)"

lemma in_process_peeked [simp]: "in_process k \<Longrightarrow> in_process (k\<lparr>kcpu := peeked (kcpu k)\<rparr>)"
  by (simp add: in_process_def)

lemma cur_proc_process: "in_process k \<Longrightarrow> cur_proc k = Some (cpu_proc (kcpu k), k\<lparr>kcpu := peeked (kcpu k)\<rparr>)"
  by (simp add: cur_proc_def with_cpu_def in_process_def get_cpu_proc_eq)

definition with_qlock_taken :: "kern \<Rightarrow> kern" where
  "with_qlock_taken k = k\<lparr>qlock := (qlock k)\<lparr>lk_locked := 1, lk_cpu := Some 0\<rparr>, kcpu := pushcli (kcpu k)\<rparr>"

lemma with_qlock_taken_simps [simp]:
  "envs (with_qlock_taken k) = envs k" "cpu_proc (kcpu (with_qlock_taken k)) = cpu_proc (kcpu k)"
  "scheduler_method (with_qlock_taken k) = scheduler_method k" "quantums (with_qlock_taken k) = quantums k"
  "PageRepAlgoType (with_qlock_taken k) = PageRepAlgoType k" "queues_ok (with_qlock_taken k) qs = queues_ok k qs"
  "intena (kcpu (with_qlock_taken k)) = intena (pushcli (kcpu k))"
proof -
  have "queues_ok (with_qlock_taken k) qs = queues_ok (k\<lparr>qlock := (qlock k)\<lparr>lk_locked := 1, lk_cpu := Some 0\<rparr>\<rparr>) qs"
    unfolding with_qlock_taken_def
    by (rule trans [OF _ queues_ok_fields(1) [where c = "pushcli (kcpu k)"]]) simp
  then show "queues_ok (with_qlock_taken k) qs = queues_ok k qs" by simp
qed (simp_all add: with_qlock_taken_def pushcli_def cli_def Let_def)

lemma sched_enter_held:
  assumes "in_sched k" "cpu_proc (kcpu k) \<noteq> NULL" "env_status (envs k (cpu_proc (kcpu k))) \<noteq> ENV_RUNNING"
  shows "sched_enter k = Some (intena (kcpu k), k)"
  using assms by (simp add: sched_enter_def cur_proc_held check_qlock_held) (simp add: in_sched_def cpu_ok_def)

lemma yield_gives_up:
  assumes "in_process k" "cpu_proc (kcpu k) = p" "p \<noteq> NULL"
  shows "yield k = Some (Gives_up (intena (pushcli (kcpu k))) (set_env_status p ENV_READY (with_qlock_taken k)))"
    and "in_sched (set_env_status p ENV_READY (with_qlock_taken k))"
proof -
  note a = acquire_qlock_free [OF assms(1), folded with_qlock_taken_def]
  from a(2) show "in_sched (set_env_status p ENV_READY (with_qlock_taken k))" by simp
  then have "sched_enter (set_env_status p ENV_READY (with_qlock_taken k)) =
      Some (intena (pushcli (kcpu k)), set_env_status p ENV_READY (with_qlock_taken k))"
    using sched_enter_held [of "set_env_status p ENV_READY (with_qlock_taken k)"] assms(2,3)
    by simp
  then show "yield k = Some (Gives_up (intena (pushcli (kcpu k))) (set_env_status p ENV_READY (with_qlock_taken k)))"
    using a assms by (simp add: yield_def cur_proc_held)
qed

text \<open>The interrupt handler counts the tick and gives up the CPU.\<close>

definition ticked :: "kern \<Rightarrow> kern" where
  "ticked k = update_env (cpu_proc (kcpu k)) (\<lambda>x. x\<lparr>nClocks := nClocks x + 1\<rparr>)
     (k\<lparr>ticks := ticks k + 1, kcpu := peeked (kcpu k)\<rparr>)"

lemma ticked_simps [simp]:
  "cpu_proc (kcpu (ticked k)) = cpu_proc (kcpu k)" "qlock (ticked k) = qlock k" "kcpu (ticked k) = peeked (kcpu k)"
  "scheduler_method (ticked k) = scheduler_method k" "quantums (ticked k) = quantums k"
  "PageRepAlgoType (ticked k) = PageRepAlgoType k"
  "env_status (envs (ticked k) p) = env_status (envs k p)" "kstack (envs (ticked k) p) = kstack (envs k p)"
  "env_page_directory (envs (ticked k) p) = env_page_directory (envs k p)"
  by (simp_all add: ticked_def update_env_def)

lemma queues_ok_ticked: "queues_ok k qs \<Longrightarrow> queues_ok (ticked k) qs"
proof (erule queues_ok_cong)
  show "head_of (ticked k) q = head_of k q" for q by (cases q) (simp_all add: ticked_def update_env_def)
qed (simp add: ticked_def update_env_def)

lemma clock_interrupt_yields:
  assumes "in_process k" "rr_setup k" "PageRepAlgoType k \<noteq> PG_REP_LRU_TIME_APPROX" "cpu_proc (kcpu k) \<noteq> NULL"
  shows "clock_interrupt_handler k = yield (ticked k)"
proof -
  have "in_process (k\<lparr>ticks := ticks k + 1\<rparr>)" using assms(1) by (simp add: in_process_def)
  from cur_proc_process [OF this] show ?thesis
    using assms(2-4) by (simp add: clock_interrupt_handler_def rr_setup_def ticked_def update_env_def)
qed

lemma scheduler_back_ready:
  assumes "in_sched k" "env_status (envs k (cpu_proc (kcpu k))) = ENV_READY"
  shows "scheduler_back k = Some (kclock_stop k)"
proof -
  have "eflags (kcpu k) AND FL_IF = 0" using assms(1) by (simp add: in_sched_def cpu_ok_def)
  then show ?thesis using assms by (simp add: scheduler_back_def cur_proc_held Let_def)
qed

lemma yield_return_held:
  assumes "in_sched k" "saved = 0 \<or> saved = FL_IF"
  shows "yield_return saved k = Some (unlocked (sched_return saved k))" "in_process (unlocked (sched_return saved k))"
proof -
  have "in_sched (sched_return saved k)" using assms by (auto simp: in_sched_def sched_return_def cpu_ok_def)
  from release_qlock_held [OF this]
  show "yield_return saved k = Some (unlocked (sched_return saved k))" "in_process (unlocked (sched_return saved k))"
    by (simp_all add: yield_return_def)
qed

lemma sched_return_simps [simp]:
  "envs (sched_return saved k) = envs k" "cpu_proc (kcpu (sched_return saved k)) = cpu_proc (kcpu k)"
  "scheduler_method (sched_return saved k) = scheduler_method k" "quantums (sched_return saved k) = quantums k"
  "PageRepAlgoType (sched_return saved k) = PageRepAlgoType k" "queues_ok (sched_return saved k) qs = queues_ok k qs"
  by (simp_all add: sched_return_def)

lemma unlocked_more_simps [simp]:
  "scheduler_method (unlocked k) = scheduler_method k" "quantums (unlocked k) = quantums k"
  "PageRepAlgoType (unlocked k) = PageRepAlgoType k"
  by (simp_all add: unlocked_def)

lemma queued_iff: "x \<in> queued qs \<longleftrightarrow> (\<exists>q xs. qs q = Some xs \<and> x \<in> set xs)"
  by (simp add: queued_def)

text \<open>Taking the last element off a queue that a new process has joined at the head.\<close>

lemma rotated_unqueued:
  assumes ok: "queues_ok k (qs(q \<mapsto> rev xs))" and p: "p \<notin> queued (qs(q \<mapsto> rev xs))" and ys: "xs @ [p] = y # ys"
  shows "y \<notin> queued (qs(q \<mapsto> rev ys))" "y \<notin> set ys" "set ys \<subseteq> insert p (set xs)"
proof -
  have "dll env_links (envs k) (head_of k q) (rev xs)" using ok by (simp add: queues_ok_def)
  then have "distinct xs" by (simp add: dll_def)
  moreover have "(qs(q \<mapsto> rev xs)) q = Some (rev xs)" by simp
  with p have "p \<notin> set xs" unfolding queued_iff by (metis set_rev)
  ultimately have d: "distinct (y # ys)" unfolding ys [symmetric] by simp
  then show "y \<notin> set ys" by simp
  have s: "set (y # ys) = insert p (set xs)" unfolding ys [symmetric] by simp
  then show "set ys \<subseteq> insert p (set xs)" by auto
  have "y \<notin> set zs" if z: "qs q' = Some zs" "q' \<noteq> q" for q' zs
  proof (cases "y = p")
    case True
    then show ?thesis using p z by (auto simp: queued_iff split: if_splits)
  next
    case False
    then have "y \<in> set (rev xs)" using s by auto
    moreover have "set (rev xs) \<inter> set zs = {}"
      using ok z unfolding queues_ok_def by (metis fun_upd_other fun_upd_same)
    ultimately show ?thesis by auto
  qed
  then show "y \<notin> queued (qs(q \<mapsto> rev ys))" using d by (auto simp: queued_iff split: if_splits)
qed

lemma quantum_rotates:
  assumes t: "turns k qs L" and sv: "saved = 0 \<or> saved = FL_IF"
  shows "returns (quantum saved k) (\<lambda>k'. turns k' qs (rotate1 L))"
proof -
  obtain p xs where L: "L = p # xs" using t by (cases L) (auto simp: turns_def)
  let ?Q = "qs(Ready 0 \<mapsto> rev xs)"
  from t have a: "in_process k" "rr_setup k" "PageRepAlgoType k \<noteq> PG_REP_LRU_TIME_APPROX" "cpu_proc (kcpu k) = p" "p \<noteq> NULL"
    "queues_ok k ?Q" "p \<notin> queued ?Q" "\<forall>x \<in> set xs. env_status (envs k x) = ENV_READY" "\<forall>x \<in> set L. has_space k x"
    by (simp_all add: turns_def L)
  define k1 where "k1 = ticked k"
  define k1' where "k1' = set_env_status p ENV_READY (with_qlock_taken k1)"
  define k2 where "k2 = kclock_stop k1'"
  have k1: "in_process k1" "cpu_proc (kcpu k1) = p" "queues_ok k1 ?Q"
    using a(1,4,6) queues_ok_ticked by (simp_all add: k1_def in_process_def)
  have k1': "rr_setup k1" "PageRepAlgoType k1 = PageRepAlgoType k" "\<And>x. has_space k1 x = has_space k x"
    "\<And>x. env_status (envs k1 x) = env_status (envs k x)"
    using a(2) by (simp_all add: k1_def rr_setup_def has_space_def)
  note y = yield_gives_up [OF k1(1,2) a(5), folded k1'_def]
  have y2: "in_sched k2" using y(2) by (simp add: k2_def)
  have clk: "clock_interrupt_handler k = Some (Gives_up (intena (pushcli (kcpu k1))) k1')"
    using clock_interrupt_yields [OF a(1-3)] a(4,5) y(1) by (simp add: k1_def)
  have k2: "cpu_proc (kcpu k2) = p" "env_status (envs k2 p) = ENV_READY" "rr_setup k2" "queues_ok k2 ?Q"
    "PageRepAlgoType k2 = PageRepAlgoType k" "\<And>x. has_space k2 x = has_space k x"
    "\<And>x. x \<noteq> p \<Longrightarrow> env_status (envs k2 x) = env_status (envs k x)"
    using k1(2,3) k1' by (simp_all add: k2_def k1'_def rr_setup_def has_space_def)
  have bk: "scheduler_back k1' = Some k2"
    unfolding k2_def by (rule scheduler_back_ready [OF y(2)]) (use k1(2) in \<open>simp add: k1'_def\<close>)
  have cand: "candidates (cpu_proc (kcpu k2)) (rev xs) = rev (xs @ [p])" using a(5) by (simp add: k2(1) candidates_def)
  have "returns (scheduler_pick k2) (\<lambda>(e, k'). in_sched k' \<and> rr_setup k' \<and> PageRepAlgoType k' = PageRepAlgoType k2 \<and> same_locks k' k2 \<and>
    (\<forall>x. has_space k' x = has_space k2 x) \<and> (\<forall>x. x \<noteq> e \<longrightarrow> env_status (envs k' x) = env_status (envs k2 x)) \<and>
    (\<forall>x. env_id (envs k' x) = env_id (envs k2 x)) \<and>
    (case rev (xs @ [p]) of
       [] \<Rightarrow> e = NULL \<and> queues_ok k' ?Q \<and> cpu_proc (kcpu k') = NULL
     | y # ys \<Rightarrow> e = last (y # ys) \<and> e \<noteq> NULL \<and> queues_ok k' (?Q(Ready 0 \<mapsto> butlast (y # ys))) \<and>
         cpu_proc (kcpu k') = e \<and> env_status (envs k' e) = ENV_RUNNING))"
    unfolding cand [symmetric]
    by (rule scheduler_pick_RR [OF k2(4) _ y2 k2(3)]) (use a(5,7,9) k2(6) in \<open>simp_all add: k2(1) candidates_def L\<close>)
  then obtain e k3 where k3: "scheduler_pick k2 = Some (e, k3)" "in_sched k3" "rr_setup k3"
    "PageRepAlgoType k3 = PageRepAlgoType k2" "\<And>x. has_space k3 x = has_space k2 x"
    "\<And>x. x \<noteq> e \<Longrightarrow> env_status (envs k3 x) = env_status (envs k2 x)"
    "e = last (rev (xs @ [p]))" "e \<noteq> NULL" "queues_ok k3 (?Q(Ready 0 \<mapsto> butlast (rev (xs @ [p]))))"
    "cpu_proc (kcpu k3) = e" "env_status (envs k3 e) = ENV_RUNNING"
    by (auto simp: returns_iff)
  have rot: "rotate1 L = xs @ [p]" by (simp add: L)
  obtain y ys where ys: "xs @ [p] = y # ys" by (cases "xs @ [p]") auto
  have e: "e = y" "butlast (rev (xs @ [p])) = rev ys" unfolding k3(7) ys by simp_all
  note r = rotated_unqueued [OF a(6,7) ys]
  define k4 where "k4 = unlocked (sched_return saved k3)"
  note yr = yield_return_held [OF k3(2) sv, folded k4_def]
  have k4: "cpu_proc (kcpu k4) = y" "rr_setup k4" "PageRepAlgoType k4 = PageRepAlgoType k" "queues_ok k4 (qs(Ready 0 \<mapsto> rev ys))"
    "\<And>x. has_space k4 x = has_space k x" "env_status (envs k4 y) = ENV_RUNNING"
    "\<And>x. x \<noteq> y \<Longrightarrow> env_status (envs k4 x) = env_status (envs k2 x)"
    using k3 k2(5,6) unfolding e by (simp_all add: k4_def rr_setup_def has_space_def)
  have "env_status (envs k4 x) = ENV_READY" if x: "x \<in> set ys" for x
  proof -
    have "x \<noteq> y" "x = p \<or> x \<in> set xs" using x r(2,3) by auto
    then have "env_status (envs k4 x) = env_status (envs k2 x)" by (intro k4(7))
    also have "\<dots> = ENV_READY" using \<open>x = p \<or> x \<in> set xs\<close> k2(2,7) a(8) by (cases "x = p") auto
    finally show ?thesis .
  qed
  moreover have "set (y # ys) \<subseteq> set L" unfolding ys [symmetric] L by auto
  ultimately have "turns k4 qs (y # ys)"
    using yr(2) k4 a(3,9) k3(8) e r(1) by (auto simp: turns_def)
  then show ?thesis
    using k3(8) by (simp add: quantum_def clk bk k3(1) yr(1) rot ys)
qed

section \<open>Many quanta\<close>

primrec quanta :: "u32 list \<Rightarrow> kern \<Rightarrow> kern option" where
  "quanta [] k = Some k"
| "quanta (saved # ss) k = do { k1 \<leftarrow> quantum saved k; quanta ss k1 }"

lemma quanta_rotate:
  "turns k qs L \<Longrightarrow> set ss \<subseteq> {0, FL_IF} \<Longrightarrow> returns (quanta ss k) (\<lambda>k'. turns k' qs (rotate (length ss) L))"
proof (induction ss arbitrary: k L)
  case Nil
  then show ?case by simp
next
  case (Cons saved ss)
  from quantum_rotates [OF Cons.prems(1), of saved] Cons.prems(2) obtain k1 where
    k1: "quantum saved k = Some k1" "turns k1 qs (rotate1 L)" by (auto simp: returns_iff)
  from Cons.IH [OF k1(2)] Cons.prems(2) show ?case by (simp add: k1(1) rotate1_rotate_swap)
qed

lemma turns_nth:
  assumes "turns k qs (rotate n L)" "n < length L"
  shows "cpu_proc (kcpu k) = L ! n \<and> env_status (envs k (L ! n)) = ENV_RUNNING"
proof -
  have "L \<noteq> []" using assms(2) by auto
  then have "hd (rotate n L) = L ! n" using hd_rotate_conv_nth [of L n] assms(2) by simp
  with assms(1) show ?thesis by (simp add: turns_def)
qed

section \<open>The properties\<close>

text \<open>C7: Round robin: from one clock interrupt to the next process running, the order of turns (the
  running process, then the ready queue from its tail) is rotated by one, whatever the number of
  quanta; the invariants of the queues, the statuses and the locks hold again after each.\<close>

theorem round_robin_rotates_turns:
  assumes "turns k qs L" "set ss \<subseteq> {0, FL_IF}"
  shows "returns (quanta ss k) (\<lambda>k'. turns k' qs (rotate (length ss) L))"
  by (rule quanta_rotate [OF assms])

text \<open>C8: No process starves: every process in the order of turns is running after fewer quanta than
  there are processes, whatever the interrupt flags saved on the kernel stacks.\<close>

theorem round_robin_no_starvation:
  assumes "turns k qs L" "p \<in> set L"
  shows "\<exists>n < length L. \<forall>ss. length ss = n \<longrightarrow> set ss \<subseteq> {0, FL_IF} \<longrightarrow>
    returns (quanta ss k) (\<lambda>k'. cpu_proc (kcpu k') = p \<and> env_status (envs k' p) = ENV_RUNNING)"
proof -
  obtain n where n: "n < length L" "L ! n = p" using assms(2) by (auto simp: in_set_conv_nth)
  have "returns (quanta ss k) (\<lambda>k'. cpu_proc (kcpu k') = p \<and> env_status (envs k' p) = ENV_RUNNING)"
    if "length ss = n" "set ss \<subseteq> {0, FL_IF}" for ss
    using quanta_rotate [OF assms(1) that(2)] by (rule returns_mono) (use turns_nth n that(1) in blast)
  then show ?thesis using n(1) by blast
qed

section \<open>Three processes\<close>

definition boot_proc :: "u32 \<Rightarrow> ptr \<Rightarrow> ptr \<Rightarrow> env" where
  "boot_proc st n p = blank_env\<lparr>env_status := st, env_next := n, env_prev := p, kstack := 0xE0000000, env_page_directory := 0xF0400000\<rparr>"

definition boot_sched :: kern where
  "boot_sched = boot_kern\<lparr>kcpu := boot_cpu\<lparr>cpu_proc := 0xEEC00000\<rparr>,
     envs := (\<lambda>_. blank_env)(0xEEC00000 := boot_proc ENV_RUNNING NULL NULL,
       0xEEC00400 := boot_proc ENV_READY 0xEEC00800 NULL, 0xEEC00800 := boot_proc ENV_READY NULL 0xEEC00400),
     env_ready_queues := (\<lambda>_. blank_head)(0 := \<lparr>lh_first = 0xEEC00400, lh_last = 0xEEC00800, lh_size = 2\<rparr>)\<rparr>"

lemma boot_sched_turns: "turns boot_sched Map.empty [0xEEC00000, 0xEEC00800, 0xEEC00400]"
proof -
  have "queues_ok boot_sched [Ready 0 \<mapsto> [0xEEC00400, 0xEEC00800]]"
    by (simp add: queues_ok_def dll_def boot_sched_def boot_proc_def blank_env_def last_or_def)
  then show ?thesis
    by (simp add: turns_def queued_def in_process_def rr_setup_def has_space_def)
      (simp add: boot_sched_def boot_kern_def boot_cpu_def boot_proc_def blank_env_def init_spinlock_def cpu_ok_def)
qed

theorem round_robin_rotates_turns_witness:
  "returns (quanta [0, FL_IF] boot_sched) (\<lambda>k'. turns k' Map.empty (rotate (length [0, FL_IF]) [0xEEC00000, 0xEEC00800, 0xEEC00400]))"
  by (rule round_robin_rotates_turns [OF boot_sched_turns]) simp

theorem round_robin_no_starvation_witness:
  "\<exists>n < length [0xEEC00000 :: ptr, 0xEEC00800, 0xEEC00400].
    returns (quanta (replicate n FL_IF) boot_sched) (\<lambda>k'. cpu_proc (kcpu k') = 0xEEC00400 \<and> env_status (envs k' 0xEEC00400) = ENV_RUNNING)"
proof -
  have r: "set (replicate n FL_IF) \<subseteq> {0, FL_IF}" "length (replicate n FL_IF) = n" for n by auto
  from round_robin_no_starvation [OF boot_sched_turns, of "0xEEC00400"] obtain n where
    "n < length [0xEEC00000 :: ptr, 0xEEC00800, 0xEEC00400]"
    "\<forall>ss. length ss = n \<longrightarrow> set ss \<subseteq> {0, FL_IF} \<longrightarrow>
       returns (quanta ss boot_sched) (\<lambda>k'. cpu_proc (kcpu k') = 0xEEC00400 \<and> env_status (envs k' 0xEEC00400) = ENV_RUNNING)" by auto
  then show ?thesis using r [of n] by blast
qed

end
