(* ===== verification/FOS_UserMemProps.thy ===== *)
theory FOS_UserMemProps
  imports FOS_UserMem FOS_BootState FOS_Fairness
begin

text \<open>
  The user heap of a process: the search for free pages is first fit over runs of pages, and handing
  out pages marks exactly those.
\<close>

section \<open>First fit over pages\<close>

abbreviation nth_page :: "u32 \<Rightarrow> nat \<Rightarrow> u32" where
  "nth_page a j \<equiv> a + of_nat j * PAGE_SIZE"

definition free_run :: "(nat \<Rightarrow> bool) \<Rightarrow> nat \<Rightarrow> nat \<Rightarrow> bool" where
  "free_run fr n i \<longleftrightarrow> (\<forall>j < n. fr (i + j))"

text \<open>\<open>first_run fr m n\<close>: where the first run of \<open>n\<close> free pages among \<open>m\<close> starts, if there is one.\<close>

definition first_run :: "(nat \<Rightarrow> bool) \<Rightarrow> nat \<Rightarrow> nat \<Rightarrow> nat option" where
  "first_run fr m n = find (free_run fr n) [0..<Suc m - n]"

lemma first_run_SomeI:
  assumes "free_run fr n i" "i + n \<le> m" "\<And>i'. i' < i \<Longrightarrow> \<not> free_run fr n i'"
  shows "first_run fr m n = Some i"
  using assms unfolding first_run_def find_Some_iff by (intro exI [of _ i]) simp

lemma first_run_NoneI:
  assumes "\<And>i. i + n \<le> m \<Longrightarrow> \<not> free_run fr n i" "n \<le> m \<or> 0 < n"
  shows "first_run fr m n = None"
  using assms by (auto simp: first_run_def find_None_iff)

lemma first_run_None_iff: "0 < n \<Longrightarrow> first_run fr m n = None \<longleftrightarrow> (\<forall>i. i + n \<le> m \<longrightarrow> \<not> free_run fr n i)"
  by (force simp: first_run_def find_None_iff)

text \<open>
  The loop at page \<open>j\<close> with \<open>c\<close> free pages behind it, of which none makes a run of \<open>n\<close>.
\<close>

lemma find_free_pages_first_run:
  assumes a: "unat a + m * 4096 = 0xA0000000" and fr: "\<And>j. j < m \<Longrightarrow> page_free dir (nth_page a j) k = Some (fr j)"
    and n: "0 < unat n" and j: "j \<le> m" and c: "c \<le> j" "c < unat n" "\<forall>i < c. fr (j - Suc i)" "c = j \<or> \<not> fr (j - Suc c)"
    and none: "\<And>i. i + unat n \<le> j \<Longrightarrow> \<not> free_run fr (unat n) i"
    and b: "c \<noteq> 0 \<Longrightarrow> b = nth_page a (j - c)"
  shows "find_free_pages dir n (nth_page a j) (of_nat c) b k =
    Some (case first_run fr m (unat n) of None \<Rightarrow> NULL | Some i \<Rightarrow> nth_page a i)"
  using j c none b
proof (induction "m - j" arbitrary: j c b)
  case 0
  then have jm: "j = m" by simp
  have "unat (of_nat m * PAGE_SIZE :: u32) = m * 4096" using a by (simp add: unat_word_ariths unat_of_nat)
  then have "unat (nth_page a j) = 0xA0000000" using a jm by (subst unat_word_ariths) simp
  then have "\<not> nth_page a j < USER_HEAP_MAX" by (simp add: word_less_nat_alt)
  moreover have "first_run fr m (unat n) = None" using 0(7) jm n by (simp add: first_run_None_iff)
  ultimately show ?case by (simp add: find_free_pages.simps)
next
  case (Suc d)
  then have jm: "j < m" by simp
  have "unat (of_nat j * PAGE_SIZE :: u32) = j * 4096" using a jm by (simp add: unat_word_ariths unat_of_nat)
  then have "unat (nth_page a j) = unat a + j * 4096" using a jm by (subst unat_word_ariths) simp
  then have lt: "nth_page a j < USER_HEAP_MAX" using a jm by (simp add: word_less_nat_alt)
  have next_page: "nth_page a j + PAGE_SIZE = nth_page a (Suc j)" by (simp add: algebra_simps)
  note p = fr [OF jm]
  have cn: "unat (of_nat c :: u32) = c" "unat (of_nat c + 1 :: u32) = Suc c"
    using Suc.prems(3) unat_u32_bound [of n] by (simp_all add: unat_of_nat unat_word_ariths)
  have d: "d = m - Suc j" "Suc j \<le> m" using Suc.hyps(2) jm by simp_all
  show ?case
  proof (cases "fr j")
    case True
    let ?b = "if (of_nat c :: u32) = 0 then nth_page a j else b"
    have c0: "(of_nat c :: u32) = 0 \<longleftrightarrow> c = 0" using cn(1) unat_eq_zero [of "of_nat c :: u32"] by argo
    have b': "?b = nth_page a (Suc j - Suc c)" using Suc.prems(7) c0 by auto
    show ?thesis
    proof (cases "unat n \<le> Suc c")
      case T: True
      then have nc: "unat n = Suc c" using Suc.prems(3) by simp
      have "find_free_pages dir n (nth_page a j) (of_nat c) b k = Some ?b"
        using lt p True T cn(2) by (subst find_free_pages.simps) (simp add: Let_def word_le_nat_alt)
      moreover have "first_run fr m (unat n) = Some (j - c)"
      proof (rule first_run_SomeI)
        have "fr (j - c + i)" if "i < Suc c" for i
        proof (cases "i = c")
          case F: False
          then have "c - Suc i < c" using that by simp
          then have "fr (j - Suc (c - Suc i))" using Suc.prems(4) by blast
          moreover have "j - Suc (c - Suc i) = j - c + i" using that F Suc.prems(2) by simp
          ultimately show ?thesis by metis
        qed (use True Suc.prems(2) in simp)
        then show "free_run fr (unat n) (j - c)" by (simp add: free_run_def nc)
        show "j - c + unat n \<le> m" using nc Suc.prems(2) jm by simp
        show "\<not> free_run fr (unat n) i'" if "i' < j - c" for i' using Suc.prems(6) [of i'] that nc by simp
      qed
      ultimately show ?thesis using b' by simp
    next
      case F: False
      have "find_free_pages dir n (nth_page a j) (of_nat c) b k = find_free_pages dir n (nth_page a j + PAGE_SIZE) (of_nat c + 1) ?b k"
        using lt p True F cn(2) by (subst find_free_pages.simps) (simp add: Let_def word_le_nat_alt)
      also have "\<dots> = find_free_pages dir n (nth_page a (Suc j)) (of_nat (Suc c)) ?b k"
      proof -
        have "(of_nat c + 1 :: u32) = of_nat (Suc c)" by simp
        then show ?thesis by (simp only: next_page)
      qed
      also have "\<dots> = Some (case first_run fr m (unat n) of None \<Rightarrow> NULL | Some i \<Rightarrow> nth_page a i)"
      proof (rule Suc.hyps(1) [OF d])
        show "Suc c \<le> Suc j" "Suc c < unat n" using Suc.prems(2) F by simp_all
        show "\<forall>i < Suc c. fr (Suc j - Suc i)"
        proof (intro allI impI)
          fix i assume "i < Suc c"
          then show "fr (Suc j - Suc i)" using True Suc.prems(4) by (cases i) auto
        qed
        show "Suc c = Suc j \<or> \<not> fr (Suc j - Suc (Suc c))" using Suc.prems(5) by simp
        show "\<not> free_run fr (unat n) i" if i: "i + unat n \<le> Suc j" for i
        proof (cases "i + unat n \<le> j")
          case G: False
          have e: "i + unat n = Suc j" using i G by simp
          then have "c \<noteq> j" "i \<le> j - Suc c" "j - Suc c < i + unat n" using F Suc.prems(2) by auto
          moreover have "i + (j - Suc c - i) = j - Suc c" using calculation by simp
          ultimately have "\<not> fr (i + (j - Suc c - i))" "j - Suc c - i < unat n" using Suc.prems(5) by simp_all
          then show ?thesis unfolding free_run_def by blast
        qed (use Suc.prems(6) in blast)
        show "?b = nth_page a (Suc j - Suc c)" by (rule b')
      qed
      finally show ?thesis .
    qed
  next
    case False
    have "find_free_pages dir n (nth_page a j) (of_nat c) b k = find_free_pages dir n (nth_page a j + PAGE_SIZE) (of_nat 0) NULL k"
      using lt p False n by (subst find_free_pages.simps) (simp add: Let_def word_le_nat_alt)
    also have "\<dots> = find_free_pages dir n (nth_page a (Suc j)) (of_nat 0) NULL k" by (simp only: next_page)
    also have "\<dots> = Some (case first_run fr m (unat n) of None \<Rightarrow> NULL | Some i \<Rightarrow> nth_page a i)"
    proof (rule Suc.hyps(1) [OF d])
      show "\<not> free_run fr (unat n) i" if i: "i + unat n \<le> Suc j" for i
      proof (cases "i + unat n \<le> j")
        case G: False
        have "i + (j - i) = j" "j - i < unat n" using i G n by auto
        then show ?thesis using False unfolding free_run_def by metis
      qed (use Suc.prems(6) in blast)
    qed (use n False in simp_all)
    finally show ?thesis .
  qed
qed


lemma getConsecutiveFreePages_eq:
  assumes a: "a = USERH_HARD_LIMIT (envs k e) + PAGE_SIZE" "unat a + m * 4096 = 0xA0000000"
    and p: "\<And>j. j < m \<Longrightarrow> page_free (env_page_directory (envs k e)) (nth_page a j) k \<noteq> None" and sz: "PAGE_SIZE \<le> sz"
  shows "getConsecutiveFreePages e sz k =
    Some (case first_run (\<lambda>j. page_free (env_page_directory (envs k e)) (nth_page a j) k = Some True) m (unat (sz div PAGE_SIZE)) of
      None \<Rightarrow> NULL | Some i \<Rightarrow> nth_page a i)"
proof -
  let ?fr = "\<lambda>j. page_free (env_page_directory (envs k e)) (nth_page a j) k = Some True"
  have f: "page_free (env_page_directory (envs k e)) (nth_page a j) k = Some (?fr j)" if "j < m" for j
    using p [OF that] by (cases "page_free (env_page_directory (envs k e)) (nth_page a j) k") auto
  have n: "0 < unat (sz div PAGE_SIZE)" using sz by (simp add: unat_div word_le_nat_alt div_greater_zero_iff)
  have "\<not> free_run ?fr (unat (sz div PAGE_SIZE)) i" if "i + unat (sz div PAGE_SIZE) \<le> 0" for i using n that by simp
  from find_free_pages_first_run [OF a(2) f n, where j = 0 and c = 0 and b = NULL] this show ?thesis
    using n by (simp add: getConsecutiveFreePages_def a(1))
qed

section \<open>Marking pages\<close>

definition table_present :: "kern \<Rightarrow> ptr \<Rightarrow> u32 \<Rightarrow> bool" where
  "table_present k dir va \<longleftrightarrow> (\<exists>ret t. get_page_table dir va k = Some (ret, t) \<and> t \<noteq> NULL \<and> t \<noteq> dir)"

definition slot :: "kern \<Rightarrow> ptr \<Rightarrow> u32 \<Rightarrow> ptr \<times> u32" where
  "slot k dir va = (case get_page_table dir va k of Some (ret, t) \<Rightarrow> (t, PTX va) | None \<Rightarrow> (NULL, 0))"

abbreviation "HANDED_OUT \<equiv> PERM_USER OR PAGE_MARKED"

definition mark_slots :: "(ptr \<times> u32) set \<Rightarrow> kern \<Rightarrow> kern" where
  "mark_slots M k = k\<lparr>words := (\<lambda>t i. if (t, i) \<in> M then words k t i OR HANDED_OUT else words k t i)\<rparr>"

lemma get_page_table_marked:
  assumes "\<forall>(t, i) \<in> M. t \<noteq> dir"
  shows "get_page_table dir va (mark_slots M k) = get_page_table dir va k"
proof -
  have "words (mark_slots M k) dir i = words k dir i" for i using assms by (auto simp: mark_slots_def)
  moreover have "number_of_frames (mark_slots M k) = number_of_frames k" "frames_info (mark_slots M k) = frames_info k"
    "frames (mark_slots M k) = frames k" by (simp_all add: mark_slots_def)
  ultimately show ?thesis
    by (simp add: get_page_table_def Let_def STATIC_KERNEL_VIRTUAL_ADDRESS_def kheap_virtual_address_def to_frame_info_def
        frame_at_def to_frame_number_def)
qed

lemma slot_present:
  assumes "table_present k dir va"
  obtains ret t where "get_page_table dir va k = Some (ret, t)" "t \<noteq> NULL" "t \<noteq> dir" "slot k dir va = (t, PTX va)"
  using assms by (auto simp: table_present_def slot_def)

lemma mark_page_present:
  assumes "table_present k dir va"
  shows "mark_page dir va k = Some (mark_slots {slot k dir va} k)"
proof -
  from slot_present [OF assms] obtain ret t where
    g: "get_page_table dir va k = Some (ret, t)" "t \<noteq> NULL" "slot k dir va = (t, PTX va)" by metis
  have "mark_slots {(t, PTX va)} k = set_word t (PTX va) (words k t (PTX va) OR HANDED_OUT) k"
    by (simp add: mark_slots_def set_word_def fun_eq_iff)
  then show ?thesis using g by (simp add: mark_page_def pt_set_page_permissions_def set_word_def)
qed

lemma mark_slots_more: "mark_slots M (mark_slots N k) = mark_slots (M \<union> N) k"
  by (simp add: mark_slots_def fun_eq_iff)

lemma mark_slots_none: "mark_slots {} k = k"
  by (simp add: mark_slots_def)

lemma present_marked:
  assumes "\<forall>(t, i) \<in> M. t \<noteq> dir"
  shows "table_present (mark_slots M k) dir va = table_present k dir va" "slot (mark_slots M k) dir va = slot k dir va"
  by (simp_all add: table_present_def slot_def get_page_table_marked [OF assms])

definition page_slots :: "kern \<Rightarrow> ptr \<Rightarrow> u32 \<Rightarrow> nat \<Rightarrow> (ptr \<times> u32) set" where
  "page_slots k dir va n = (\<lambda>j. slot k dir (nth_page va j)) ` {..<n}"

lemma page_slots_Suc: "page_slots k dir va (Suc n) = insert (slot k dir va) (page_slots k dir (va + PAGE_SIZE) n)"
  by (simp add: page_slots_def lessThan_Suc_eq_insert_0 image_image algebra_simps)

lemma allocate_user_mem_present:
  assumes "\<And>j. j < n \<Longrightarrow> table_present k (env_page_directory (envs k e)) (nth_page va j)" "unat sz = n * 4096"
  shows "allocate_user_mem e va sz k = Some (mark_slots (page_slots k (env_page_directory (envs k e)) va n) k)"
  using assms
proof (induction n arbitrary: k va sz)
  case 0
  then have "sz = 0" by (simp add: unat_eq_zero)
  then show ?case by (simp add: allocate_user_mem.simps page_slots_def mark_slots_none)
next
  case (Suc n)
  let ?dir = "env_page_directory (envs k e)" let ?k = "mark_slots {slot k ?dir va} k"
  have t: "table_present k ?dir va" using Suc.prems(1) [of 0] by simp
  have d: "\<forall>(t, i) \<in> {slot k ?dir va}. t \<noteq> ?dir" by (rule slot_present [OF t]) simp
  have dir: "env_page_directory (envs ?k e) = ?dir" by (simp add: mark_slots_def)
  have "table_present ?k (env_page_directory (envs ?k e)) (nth_page (va + PAGE_SIZE) j)" if "j < n" for j
    using Suc.prems(1) [of "Suc j"] that unfolding dir present_marked [OF d] by (simp add: algebra_simps)
  moreover have "PAGE_SIZE \<le> sz" "0 < sz" using Suc.prems(2) by (simp_all add: word_le_nat_alt word_less_nat_alt)
  then have "unat (sz - PAGE_SIZE) = n * 4096" using Suc.prems(2) by (simp add: unat_sub)
  ultimately have "allocate_user_mem e (va + PAGE_SIZE) (sz - PAGE_SIZE) ?k = Some (mark_slots (page_slots k ?dir (va + PAGE_SIZE) n) ?k)"
    using Suc.IH [of ?k "va + PAGE_SIZE" "sz - PAGE_SIZE"] unfolding dir by (simp add: page_slots_def present_marked [OF d])
  then show ?case
    using mark_page_present [OF t] \<open>0 < sz\<close>
    by (subst allocate_user_mem.simps) (simp add: mark_slots_more page_slots_Suc)
qed

lemma mark_up_to_present:
  assumes "\<And>j. j < n \<Longrightarrow> table_present k dir (nth_page va j)" "unat va + n * 4096 < 2 ^ 32"
  shows "mark_up_to dir va (nth_page va n) k = Some (mark_slots (page_slots k dir va n) k)"
  using assms
proof (induction n arbitrary: k va)
  case 0
  then show ?case by (simp add: mark_up_to.simps page_slots_def mark_slots_none)
next
  case (Suc n)
  let ?k = "mark_slots {slot k dir va} k"
  have t: "table_present k dir va" using Suc.prems(1) [of 0] by simp
  have d: "\<forall>(t, i) \<in> {slot k dir va}. t \<noteq> dir" by (rule slot_present [OF t]) simp
  have "unat (of_nat (Suc n) * PAGE_SIZE :: u32) = Suc n * 4096"
    using Suc.prems(2) by (subst unat_word_ariths) (simp add: unat_of_nat del: of_nat_Suc)
  then have "unat (nth_page va (Suc n)) = unat va + Suc n * 4096" using Suc.prems(2) by (subst unat_word_ariths) simp
  then have lt: "va < nth_page va (Suc n)" by (simp add: word_less_nat_alt)
  have "table_present ?k dir (nth_page (va + PAGE_SIZE) j)" if "j < n" for j
    using Suc.prems(1) [of "Suc j"] that unfolding present_marked [OF d] by (simp add: algebra_simps)
  moreover have "unat (va + PAGE_SIZE) = unat va + 4096" using Suc.prems(2) by (subst unat_word_ariths) simp
  then have "unat (va + PAGE_SIZE) + n * 4096 < 2 ^ 32" using Suc.prems(2) by simp
  ultimately have "mark_up_to dir (va + PAGE_SIZE) (nth_page (va + PAGE_SIZE) n) ?k =
      Some (mark_slots (page_slots k dir (va + PAGE_SIZE) n) ?k)"
    using Suc.IH [of ?k "va + PAGE_SIZE"] by (simp add: page_slots_def present_marked [OF d])
  moreover have "nth_page (va + PAGE_SIZE) n = nth_page va (Suc n)" by (simp add: algebra_simps)
  ultimately have "mark_up_to dir (va + PAGE_SIZE) (nth_page va (Suc n)) ?k = Some (mark_slots (page_slots k dir va (Suc n)) k)"
    by (simp only: mark_slots_more page_slots_Suc) simp
  then show ?case
    using mark_page_present [OF t] lt by (subst mark_up_to.simps) simp
qed


text \<open>The loop over a size that is no multiple of the page size does not end by itself.\<close>

lemma allocate_user_mem_multiple:
  assumes "allocate_user_mem e va sz k = Some k'"
  shows "4096 dvd unat sz"
proof (rule allocate_user_mem.raw_induct [where P = "\<lambda>e va sz k k'. 4096 dvd unat sz", OF _ assms])
  fix rec e va sz k k'
  assume IH: "\<And>e va sz k k'. rec e va sz k = Some k' \<Longrightarrow> 4096 dvd unat sz"
    and eq: "(if sz > 0 then do { k1 \<leftarrow> mark_page (env_page_directory (envs k e)) va k; rec e (va + PAGE_SIZE) (sz - PAGE_SIZE) k1 }
       else Some k) = Some k'"
  show "4096 dvd unat sz"
  proof (cases "sz > 0")
    case True
    with eq obtain k1 where "rec e (va + PAGE_SIZE) (sz - PAGE_SIZE) k1 = Some k'"
      by (auto simp: bind_eq_Some_conv)
    from IH [OF this] have d: "4096 dvd unat (sz - PAGE_SIZE)" .
    have conv: "4096 dvd unat x \<longleftrightarrow> uint x mod 4096 = 0" for x :: u32
    proof -
      obtain n where "n = unat x" by simp
      moreover have "4096 dvd n \<longleftrightarrow> int n mod 4096 = 0" by presburger
      ultimately show ?thesis by (simp only: uint_nat)
    qed
    have "uint (sz - PAGE_SIZE) mod 4096 = (uint sz - 4096) mod 4294967296 mod 4096" by (simp add: uint_word_ariths)
    also have "\<dots> = (uint sz - 4096) mod 4096" by (rule mod_mod_cancel) simp
    also have "\<dots> = uint sz mod 4096" by simp
    finally show ?thesis using d conv by metis
  next
    case False
    then have "sz = 0" by (metis word_gt_0)
    then show ?thesis by simp
  qed
qed

lemma get_page_table_entered [simp]:
  "get_page_table dir va (k\<lparr>kcpu := c\<rparr>) = get_page_table dir va k"
  "get_page_table dir va (k\<lparr>syscall_env := e\<rparr>) = get_page_table dir va k"
  "get_page_table dir va (k\<lparr>envs := es\<rparr>) = get_page_table dir va k"
  by (simp_all add: get_page_table_def Let_def STATIC_KERNEL_VIRTUAL_ADDRESS_def kheap_virtual_address_def to_frame_info_def
      frame_at_def to_frame_number_def)

lemma present_entered [simp]:
  "table_present (k\<lparr>kcpu := c\<rparr>) dir va = table_present k dir va" "slot (k\<lparr>kcpu := c\<rparr>) dir va = slot k dir va"
  "table_present (k\<lparr>syscall_env := e\<rparr>) dir va = table_present k dir va" "slot (k\<lparr>syscall_env := e\<rparr>) dir va = slot k dir va"
  "table_present (k\<lparr>envs := es\<rparr>) dir va = table_present k dir va" "slot (k\<lparr>envs := es\<rparr>) dir va = slot k dir va"
  by (simp_all add: table_present_def slot_def)

lemma sys_sbrk_ok:
  assumes "in_process k" "cpu_proc (kcpu k) = e" "e \<noteq> NULL"
    and "unat (USERH_BRK (envs k e)) + unat n * 4096 < 2 ^ 32" "0 < USERH_BRK (envs k e)"
    and t: "unat (USERH_BRK (envs k e)) + unat n * 4096 \<le> unat (USERH_HARD_LIMIT (envs k e)) \<Longrightarrow>
      \<forall>j < unat n. table_present k (env_page_directory (envs k e)) (nth_page (USERH_BRK (envs k e)) j)"
  shows "sys_sbrk n k = Some (let brk = USERH_BRK (envs k e); k1 = k\<lparr>kcpu := peeked (kcpu k)\<rparr> in
     if sint n \<le> 0 then (brk, k1)
     else if unat (USERH_HARD_LIMIT (envs k e)) < unat brk + unat n * 4096 then (- 1, k1)
     else (brk, update_env e (\<lambda>x. x\<lparr>USERH_BRK := brk + n * PAGE_SIZE\<rparr>)
             (mark_slots (page_slots k (env_page_directory (envs k e)) brk (unat n)) k1)))"
proof -
  let ?brk = "USERH_BRK (envs k e)" let ?dir = "env_page_directory (envs k e)" let ?k1 = "k\<lparr>kcpu := peeked (kcpu k)\<rparr>"
  have c: "cur_proc k = Some (e, ?k1)" using cur_proc_process [OF assms(1)] assms(2) by simp
  show ?thesis
  proof (cases "sint n \<le> 0")
    case True
    then show ?thesis using c assms(3) by (simp add: sys_sbrk_def)
  next
    case False
    have u: "unat (n * PAGE_SIZE) = unat n * 4096" using assms(4) by (subst unat_word_ariths) simp
    then have s: "unat (?brk + n * PAGE_SIZE) = unat ?brk + unat n * 4096" using assms(4) by (subst unat_word_ariths) simp
    have p: "0 < unat ?brk" using assms(5) by (simp add: word_less_nat_alt)
    then have "(1 :: u32) \<le> ?brk + n * PAGE_SIZE" by (simp add: word_le_nat_alt s)
    then have "unat (?brk + n * PAGE_SIZE - 1) = unat ?brk + unat n * 4096 - 1" using s by (simp add: unat_sub)
    then have l: "USERH_HARD_LIMIT (envs k e) \<le> ?brk + n * PAGE_SIZE - 1 \<longleftrightarrow> unat (USERH_HARD_LIMIT (envs k e)) < unat ?brk + unat n * 4096"
      using p by (auto simp: word_le_nat_alt)
    have m: "mark_up_to ?dir ?brk (?brk + n * PAGE_SIZE) ?k1 = Some (mark_slots (page_slots k ?dir ?brk (unat n)) ?k1)"
      if "unat ?brk + unat n * 4096 \<le> unat (USERH_HARD_LIMIT (envs k e))"
    proof -
      have "mark_up_to ?dir ?brk (nth_page ?brk (unat n)) ?k1 = Some (mark_slots (page_slots ?k1 ?dir ?brk (unat n)) ?k1)"
        by (rule mark_up_to_present) (use t [OF that] assms(4) in simp_all)
      then show ?thesis by (simp add: page_slots_def)
    qed
    show ?thesis using c assms(3) False l m by (simp add: sys_sbrk_def Let_def mark_slots_def update_env_def)
  qed
qed

section \<open>Properties\<close>

text \<open>C20: The search for consecutive pages in the user heap is first fit: over the pages above the hard
  limit of the block allocator it returns the start of the first run of as many pages as asked for
  that are neither handed out nor faulted in, and \<^verbatim>\<open>NULL\<close> exactly when there is no such run.\<close>

theorem getConsecutiveFreePages_first_fit:
  assumes "a = USERH_HARD_LIMIT (envs k e) + PAGE_SIZE" "unat a + m * 4096 = 0xA0000000"
    and "\<forall>j < m. page_free (env_page_directory (envs k e)) (nth_page a j) k \<noteq> None" "PAGE_SIZE \<le> sz"
  shows "getConsecutiveFreePages e sz k =
    Some (case first_run (\<lambda>j. page_free (env_page_directory (envs k e)) (nth_page a j) k = Some True) m (unat (sz div PAGE_SIZE)) of
      None \<Rightarrow> NULL | Some i \<Rightarrow> nth_page a i)"
  using getConsecutiveFreePages_eq [OF assms(1,2) _ assms(4)] assms(3) by blast

text \<open>Handing out pages of the user heap, for a whole number of pages whose page tables exist, returns
  and marks exactly the entries of these pages; nothing else in the kernel changes, and none of the
  pages is free afterwards.\<close>

theorem allocate_user_mem_marks:
  assumes "\<forall>j < n. table_present k (env_page_directory (envs k e)) (nth_page va j)" "unat sz = n * 4096"
  shows "\<exists>k'. allocate_user_mem e va sz k = Some k' \<and>
    k' = k\<lparr>words := (\<lambda>t i. if (t, i) \<in> page_slots k (env_page_directory (envs k e)) va n
                         then words k t i OR HANDED_OUT else words k t i)\<rparr> \<and>
    (\<forall>j < n. page_free (env_page_directory (envs k e)) (nth_page va j) k' = Some False)"
proof -
  let ?dir = "env_page_directory (envs k e)" let ?M = "page_slots k ?dir va n"
  have r: "allocate_user_mem e va sz k = Some (mark_slots ?M k)" using allocate_user_mem_present assms by blast
  have d: "\<forall>(t, i) \<in> ?M. t \<noteq> ?dir"
  proof -
    have "fst (slot k ?dir (nth_page va j)) \<noteq> ?dir" if "j < n" for j
      using assms(1) that slot_present [of k ?dir "nth_page va j"] by (metis fst_conv)
    moreover have "\<exists>j < n. x = slot k ?dir (nth_page va j)" if "x \<in> ?M" for x using that by (auto simp: page_slots_def)
    ultimately have "fst x \<noteq> ?dir" if "x \<in> ?M" for x using that by blast
    then show ?thesis by (simp add: case_prod_unfold)
  qed
  have "page_free ?dir (nth_page va j) (mark_slots ?M k) = Some False" if j: "j < n" for j
  proof -
    from assms(1) j slot_present obtain ret t where
      g: "get_page_table ?dir (nth_page va j) k = Some (ret, t)" "t \<noteq> NULL" "slot k ?dir (nth_page va j) = (t, PTX (nth_page va j))" by metis
    have "(t, PTX (nth_page va j)) \<in> ?M" using g(3) j by (force simp: page_slots_def)
    then have "words (mark_slots ?M k) t (PTX (nth_page va j)) = words k t (PTX (nth_page va j)) OR HANDED_OUT"
      by (simp add: mark_slots_def)
    moreover have "((x OR HANDED_OUT) AND 0xFFF) AND PAGE_MARKED \<noteq> 0" for x :: u32
    proof -
      have "bit (((x OR HANDED_OUT) AND 0xFFF) AND PAGE_MARKED) 10" by (simp only: bit_and_iff bit_or_iff) simp
      then show ?thesis by (metis bit_0_eq bot_apply bot_bool_def)
    qed
    ultimately show ?thesis
      using g by (simp add: page_free_def pt_get_page_permissions_def get_page_table_marked [OF d])
  qed
  then show ?thesis using r unfolding mark_slots_def by blast
qed

text \<open>C21: \<^verbatim>\<open>sys_sbrk\<close>, for every argument: a request that is not positive reports the break and
  changes nothing; a positive one is refused, without any effect, when the new break, computed modulo
  \<open>2^32\<close>, passes the hard limit or is zero; otherwise the break becomes this new break, exactly the pages from
  the old one up to it are handed out (none, when the sum has wrapped around below the old break), and the
  old break is returned. The page tables of the pages to hand out exist already.\<close>

theorem sys_sbrk_correct:
  assumes "in_process k" "cpu_proc (kcpu k) = e" "e \<noteq> NULL"
    and "brk = unat (USERH_BRK (envs k e))" "new = (brk + unat n * 4096) mod 2 ^ 32" "p = (new - brk) div 4096"
    and "0 < sint n \<Longrightarrow> new \<le> unat (USERH_HARD_LIMIT (envs k e)) \<Longrightarrow>
      \<forall>j < p. table_present k (env_page_directory (envs k e)) (nth_page (USERH_BRK (envs k e)) j)"
  shows "sys_sbrk n k = Some (let k1 = k\<lparr>kcpu := peeked (kcpu k)\<rparr> in
     if sint n \<le> 0 then (of_nat brk, k1)
     else if new = 0 \<or> unat (USERH_HARD_LIMIT (envs k e)) < new then (- 1, k1)
     else (of_nat brk, update_env e (\<lambda>x. x\<lparr>USERH_BRK := of_nat new\<rparr>)
             (mark_slots (page_slots k (env_page_directory (envs k e)) (of_nat brk) p) k1)))"
proof -
  let ?brk = "USERH_BRK (envs k e)" let ?dir = "env_page_directory (envs k e)" let ?k1 = "k\<lparr>kcpu := peeked (kcpu k)\<rparr>"
  let ?w = "?brk + n * PAGE_SIZE" let ?lim = "USERH_HARD_LIMIT (envs k e)"
  have c: "cur_proc k = Some (e, ?k1)" using cur_proc_process [OF assms(1)] assms(2) by simp
  have b: "of_nat brk = ?brk" by (simp add: assms(4))
  have w: "unat ?w = new" by (simp add: assms(4,5) unat_word_ariths mod_add_right_eq)
  then have nw: "of_nat new = ?w" by (simp flip: w)
  have last: "?lim \<le> ?w - 1 \<longleftrightarrow> new = 0 \<or> unat ?lim < new"
  proof (cases "new = 0")
    case True
    then have "?w - 1 = - 1" using w by (simp add: unat_eq_0)
    then show ?thesis using True by simp
  next
    case False
    then have "(1 :: u32) \<le> ?w" using w by (simp add: word_le_nat_alt)
    then have "unat (?w - 1) = new - 1" using w by (simp add: unat_sub)
    then show ?thesis using False by (auto simp: word_le_nat_alt)
  qed
  have m: "mark_up_to ?dir ?brk ?w ?k1 = Some (mark_slots (page_slots k ?dir ?brk p) ?k1)"
    if granted: "0 < sint n" "new \<le> unat ?lim"
  proof (cases "brk < new")
    case False
    then have "\<not> ?brk < ?w" using w by (simp add: word_less_nat_alt assms(4))
    moreover have "p = 0" using False assms(6) by simp
    ultimately show ?thesis by (simp add: mark_up_to.simps mark_slots_def page_slots_def)
  next
    case True
    have "new < 2 ^ 32" using unat_u32_bound [of ?w] w by simp
    have "(new - brk) mod 4096 = 0"
    proof -
      have "?w - ?brk = n * PAGE_SIZE" by simp
      then have "new - brk = unat n * 4096 mod 2 ^ 32"
        using True unat_sub [of ?brk ?w] w by (simp add: word_le_nat_alt assms(4) unat_word_ariths)
      then show ?thesis by (simp add: mod_mod_cancel)
    qed
    then have "p * 4096 = new - brk" unfolding assms(6) by (simp add: mod_eq_0_iff_dvd)
    then have p: "brk + p * 4096 = new" using True by simp
    then have end_page: "nth_page ?brk p = ?w" using nw b by (metis mult.commute of_nat_add of_nat_mult of_nat_numeral)
    have "mark_up_to ?dir ?brk (nth_page ?brk p) ?k1 = Some (mark_slots (page_slots ?k1 ?dir ?brk p) ?k1)"
      by (rule mark_up_to_present) (use assms(7) [OF granted] p \<open>new < 2 ^ 32\<close> in \<open>simp_all add: assms(4)\<close>)
    then show ?thesis by (simp add: end_page page_slots_def)
  qed
  show ?thesis using c assms(3) last m by (simp add: sys_sbrk_def Let_def mark_slots_def update_env_def b nw)
qed

text \<open>A request to hand out a number of bytes that is no multiple of the page size never returns: the
  size wraps around below zero and the loop goes on through the address space.\<close>

theorem allocate_user_mem_unaligned_diverges:
  assumes "\<not> 4096 dvd unat sz"
  shows "allocate_user_mem e va sz k = None"
  using allocate_user_mem_multiple [of e va sz k] assms by (cases "allocate_user_mem e va sz k") auto


section \<open>A small user heap\<close>

text \<open>The break of the running process is at \<^verbatim>\<open>0x9FFF0000\<close>; two pages lie above its hard limit. One table covers all.\<close>

definition boot_user :: kern where
  "boot_user = boot_kern
     \<lparr>kcpu := boot_cpu\<lparr>cpu_proc := 0xEEC00000\<rparr>,
      envs := (\<lambda>_. blank_env)(0xEEC00000 := blank_env\<lparr>env_page_directory := 0xF0400000, USERH_BRK := 0x9FFF0000, USERH_HARD_LIMIT := 0x9FFFD000\<rparr>),
      frames := boot_frames(0xF0504FE0 := zero_frame\<lparr>references := 1, base_va_page := 0xF027F000\<rparr>)\<rparr>"

lemma boot_user_env [simp]:
  "env_page_directory (envs boot_user 0xEEC00000) = 0xF0400000" "USERH_BRK (envs boot_user 0xEEC00000) = 0x9FFF0000"
  "USERH_HARD_LIMIT (envs boot_user 0xEEC00000) = 0x9FFFD000" "cpu_proc (kcpu boot_user) = 0xEEC00000"
  by (simp_all add: boot_user_def)

lemma boot_user_table: "PDX va = 0x27F \<Longrightarrow> va < USER_TOP \<Longrightarrow> get_page_table 0xF0400000 va boot_user = Some (TABLE_IN_MEMORY, 0xF027F000)"
  by (simp add: get_page_table_def boot_user_def boot_kern_def boot_words_def kheap_virtual_address_def to_frame_info_def
      frame_at_def to_frame_number_def zero_frame_def CHECK_IF_KERNEL_ADDRESS_def EXTRACT_ADDRESS_def PPN_def Let_def not_le)

lemma boot_user_present: "PDX va = 0x27F \<Longrightarrow> va < USER_TOP \<Longrightarrow> table_present boot_user 0xF0400000 va"
  by (simp add: table_present_def boot_user_table)

lemma boot_user_free: "PDX va = 0x27F \<Longrightarrow> va < USER_TOP \<Longrightarrow> page_free 0xF0400000 va boot_user = Some True"
  by (simp add: page_free_def pt_get_page_permissions_def boot_user_table) (simp add: boot_user_def boot_kern_def boot_words_def)

lemma all_less_two: "(\<forall>j < (2 :: nat). P j) \<longleftrightarrow> P 0 \<and> P 1"
  by (auto simp: numeral_2_eq_2 less_Suc_eq)

theorem getConsecutiveFreePages_first_fit_witness:
  "getConsecutiveFreePages 0xEEC00000 0x2000 boot_user = Some 0x9FFFE000 \<and> getConsecutiveFreePages 0xEEC00000 0x3000 boot_user = Some NULL"
proof -
  have f: "\<forall>j < 2. page_free 0xF0400000 (nth_page 0x9FFFE000 j) boot_user = Some True"
    unfolding all_less_two by (intro conjI boot_user_free) (simp_all add: PDX_def)
  have a: "(0x9FFFE000 :: u32) = USERH_HARD_LIMIT (envs boot_user 0xEEC00000) + PAGE_SIZE" "unat (0x9FFFE000 :: u32) + 2 * 4096 = 0xA0000000"
    by simp_all
  have p: "\<forall>j < 2. page_free (env_page_directory (envs boot_user 0xEEC00000)) (nth_page 0x9FFFE000 j) boot_user \<noteq> None"
    using f by simp
  let ?fr = "\<lambda>j. page_free (env_page_directory (envs boot_user 0xEEC00000)) (nth_page 0x9FFFE000 j) boot_user = Some True"
  have "first_run ?fr 2 2 = Some 0" by (rule first_run_SomeI) (use f in \<open>simp_all add: free_run_def\<close>)
  moreover have "first_run ?fr 2 3 = None" by (simp add: first_run_def)
  ultimately show ?thesis
    using getConsecutiveFreePages_first_fit [OF a p, of "0x2000"] getConsecutiveFreePages_first_fit [OF a p, of "0x3000"] by simp
qed

theorem allocate_user_mem_marks_witness:
  "\<exists>k'. allocate_user_mem 0xEEC00000 0x9FFFE000 0x2000 boot_user = Some k' \<and> page_free 0xF0400000 0x9FFFF000 k' = Some False"
proof -
  have t: "\<forall>j < 2. table_present boot_user (env_page_directory (envs boot_user 0xEEC00000)) (nth_page 0x9FFFE000 j)"
    unfolding all_less_two boot_user_env by (intro conjI boot_user_present) (simp_all add: PDX_def)
  have "unat (0x2000 :: u32) = 2 * 4096" by simp
  from allocate_user_mem_marks [OF t this] obtain k' where
    k': "allocate_user_mem 0xEEC00000 0x9FFFE000 0x2000 boot_user = Some k'"
      "\<forall>j < 2. page_free (env_page_directory (envs boot_user 0xEEC00000)) (nth_page 0x9FFFE000 j) k' = Some False" by blast
  from k'(2) [rule_format, of 1] k'(1) show ?thesis by simp
qed

theorem sys_sbrk_correct_witness:
  "(\<exists>k'. sys_sbrk 2 boot_user = Some (0x9FFF0000, k') \<and> USERH_BRK (envs k' 0xEEC00000) = 0x9FFF2000) \<and>
   (\<exists>k'. sys_sbrk 0xFFFFFFFF boot_user = Some (0x9FFF0000, k')) \<and> (\<exists>k'. sys_sbrk 14 boot_user = Some (- 1, k')) \<and>
   (\<exists>k'. sys_sbrk 0x60011 boot_user = Some (0x9FFF0000, k') \<and> USERH_BRK (envs k' 0xEEC00000) = 0x1000)"
proof -
  have i: "in_process boot_user"
    by (simp add: in_process_def boot_user_def boot_kern_def boot_cpu_def init_spinlock_def cpu_ok_def)
  have b: "unat (0x9FFF0000 :: u32) = unat (USERH_BRK (envs boot_user 0xEEC00000))" by simp
  have t: "\<forall>j < p. table_present boot_user (env_page_directory (envs boot_user 0xEEC00000)) (nth_page (USERH_BRK (envs boot_user 0xEEC00000)) j)"
    if "p \<le> 14" for p :: nat
  proof (intro allI impI)
    fix j assume "j < p"
    then have j: "j < 14" using that by simp
    have u: "unat (nth_page 0x9FFF0000 j) = 0x9FFF0000 + j * 4096"
      using j by (subst unat_word_ariths, subst unat_word_ariths) (simp add: unat_of_nat_u32)
    have "PDX (nth_page 0x9FFF0000 j) = 0x27F" using j by (simp only: word_unat_eq_iff unat_PDX u) (simp add: div_nat_eqI)
    moreover have "nth_page 0x9FFF0000 j < USER_TOP" using u j by (simp add: word_less_nat_alt)
    ultimately show "table_present boot_user (env_page_directory (envs boot_user 0xEEC00000)) (nth_page (USERH_BRK (envs boot_user 0xEEC00000)) j)"
      by (simp add: boot_user_present)
  qed
  note s = sys_sbrk_correct [OF i boot_user_env(4) _ b refl refl t]
  from s [of 2] s [of "0xFFFFFFFF"] s [of 14] s [of "0x60011"] show ?thesis by (simp add: Let_def update_env_def)
qed

theorem allocate_user_mem_unaligned_diverges_witness: "allocate_user_mem 0xEEC00000 0x9FFFE000 100 boot_user = None"
  by (rule allocate_user_mem_unaligned_diverges) simp

end
