(* ===== verification/FOS_KHeapProps.thy ===== *)
theory FOS_KHeapProps
  imports FOS_Translate FOS_BootState
begin

text \<open>
  The properties of the kernel heap: initialisation, growth by \<^verbatim>\<open>sbrk\<close>, the address
  translations of the pages it maps, and block-sized \<^verbatim>\<open>kmalloc\<close> and \<^verbatim>\<open>kfree\<close>.
\<close>

section \<open>A concrete heap\<close>

lemma boot_kernel_ok:
  assumes "KERNEL_HEAP_START \<le> brk" "unat brk + 4 * 4096 < 4294967296"
  shows "kernel_ok (boot_kern\<lparr>BRK := brk, HARD_LIMIT := lim\<rparr>)"
proof -
  let ?k = "boot_kern\<lparr>BRK := brk, HARD_LIMIT := lim\<rparr>"
  have t: "pte ?k va = pte boot_kern va" for va by (simp add: pte_def table_def)
  have f: "free_frames ?k boot_free" using boot_free_frames by (simp add: free_frames_def)
  show ?thesis
    unfolding kernel_ok_def t
  proof (intro conjI exI [of _ boot_free] allI impI)
    show "lock_free ?k" using boot_lock_free by (simp add: lock_free_def)
    show "kheap_tables ?k" using boot_tables by (simp add: kheap_tables_def)
    show "unat (BRK ?k) + length boot_free * 4096 < 4294967296" using assms(2) by (simp add: boot_free_def)
    show "pte boot_kern va AND PERM_PRESENT = 0" if "BRK ?k \<le> va" for va
    proof -
      have "KERNEL_HEAP_START \<le> va" using assms(1) that by simp
      then show ?thesis by (simp add: boot_pte)
    qed
  qed (use f assms(1) in simp_all)
qed

definition boot_heap :: kern where
  "boot_heap = the (initialize_kheap_dynamic_allocator 0xF6000000 4096 0xF6002000 boot_kern)"

lemma pages_4096: "pages 4096 = 1"
  by (simp add: pages_def)

lemma boot_heap_returns: "returns (initialize_kheap_dynamic_allocator 0xF6000000 4096 0xF6002000 boot_kern)
    (kheap_inv 0xF6000000 [(4088, False)])"
proof -
  have "returns (initialize_kheap_dynamic_allocator 0xF6000000 4096 0xF6002000 boot_kern)
      (\<lambda>k'. kheap_inv (unat (0xF6000000 :: u32)) [(pages (unat (4096 :: u32)) * 4096 - 8, False)] k')"
    by (rule returns_mono [OF initialize_kheap_spec [OF boot_kernel_ok boot_free_frames]])
      (simp_all add: boot_free_def pages_4096 boot_kern_def)
  then show ?thesis by (simp add: pages_4096)
qed

lemma boot_heap_inv: "kheap_inv 0xF6000000 [(4088, False)] boot_heap"
  using boot_heap_returns unfolding boot_heap_def by (auto simp: returns_iff)

section \<open>Initialisation\<close>

text \<open>Initialising the kernel heap maps the pages of the initial size, rounded up, onto the
  first free frames, moves the break behind them, and leaves one free block spanning them.\<close>

theorem initialize_kheap_correct:
  assumes "kernel_ok (k\<lparr>BRK := daStart, HARD_LIMIT := daLimit\<rparr>)"
    and "free_frames k fs" "unat daStart + length fs * 4096 < 4294967296"
    and "0 < unat n" "pages (unat n) \<le> length fs" "unat daStart + pages (unat n) * 4096 \<le> unat daLimit"
    and "KHeapPlacementStrategy k = KHP_PLACE_FIRSTFIT"
  shows "returns (initialize_kheap_dynamic_allocator daStart n daLimit k) (\<lambda>k'.
    kheap_inv (unat daStart) [(pages (unat n) * 4096 - 8, False)] k' \<and> HARD_LIMIT k' = daLimit \<and>
    unat (BRK k') = unat daStart + pages (unat n) * 4096 \<and> free_frames k' (drop (pages (unat n)) fs) \<and>
    (\<forall>j < pages (unat n). pte k' (page daStart j) =
       new_entry k (fs ! j) (page daStart j) (PERM_PRESENT OR PERM_WRITEABLE) \<and>
       references (frames k' (fs ! j)) = 1 \<and> base_va_page (frames k' (fs ! j)) = page daStart j))"
proof (rule returns_mono [OF initialize_kheap_spec [OF assms]], elim conjE exE)
  fix k' k2
  let ?k1 = "lock_taken (k\<lparr>START_KHEAP_BLOCK_ALLOCATOR := daStart, BRK := daStart + ROUNDUP n PAGE_SIZE, HARD_LIMIT := daLimit\<rparr>)"
  assume inv: "kheap_inv (unat daStart) [(pages (unat n) * 4096 - 8, False)] k'" and hl: "HARD_LIMIT k' = daLimit"
    and m: "mapped ?k1 fs (\<lambda>_. PERM_PRESENT OR PERM_WRITEABLE) daStart (pages (unat n)) k2"
    and e: "frames k' = frames k2" "words k' = words k2" "free_frame_list k' = free_frame_list k2"
      "ptr_page_directory k' = ptr_page_directory k"
  have d: "ptr_page_directory k2 = ptr_page_directory k" using mapped_same(8) [OF m] by simp
  have t: "pte k' va = pte k2 va" "pte ?k1 va = pte k va" for va by (simp_all add: pte_def table_def e d)
  have ne: "new_entry ?k1 f va p = new_entry k f va p" for f va p
    by (simp add: new_entry_def t to_physical_address_def to_frame_number_def) (simp add: pte_def table_def)
  have "free_frames k' (drop (pages (unat n)) fs)" using m by (simp add: mapped_def free_frames_def e)
  moreover have "unat (BRK k') = unat daStart + pages (unat n) * 4096"
    using inv assms(4) by (simp add: kheap_inv_def heap_state_def pages_def)
  ultimately show "kheap_inv (unat daStart) [(pages (unat n) * 4096 - 8, False)] k' \<and> HARD_LIMIT k' = daLimit \<and>
    unat (BRK k') = unat daStart + pages (unat n) * 4096 \<and> free_frames k' (drop (pages (unat n)) fs) \<and>
    (\<forall>j < pages (unat n). pte k' (page daStart j) =
       new_entry k (fs ! j) (page daStart j) (PERM_PRESENT OR PERM_WRITEABLE) \<and>
       references (frames k' (fs ! j)) = 1 \<and> base_va_page (frames k' (fs ! j)) = page daStart j)"
    using inv hl m by (simp add: mapped_def t ne e)
qed

theorem initialize_kheap_correct_witness:
  "returns (initialize_kheap_dynamic_allocator 0xF6000000 4096 0xF6002000 boot_kern) (\<lambda>k'.
    kheap_inv 0xF6000000 [(4088, False)] k' \<and> free_frames k' (tl boot_free) \<and>
    pte k' 0xF6000000 = new_entry boot_kern 0xF0510000 0xF6000000 (PERM_PRESENT OR PERM_WRITEABLE))"
proof -
  have "returns (initialize_kheap_dynamic_allocator 0xF6000000 4096 0xF6002000 boot_kern) (\<lambda>k'.
    kheap_inv (unat (0xF6000000 :: u32)) [(pages (unat (4096 :: u32)) * 4096 - 8, False)] k' \<and> HARD_LIMIT k' = 0xF6002000 \<and>
    unat (BRK k') = unat (0xF6000000 :: u32) + pages (unat (4096 :: u32)) * 4096 \<and> free_frames k' (drop (pages (unat (4096 :: u32))) boot_free) \<and>
    (\<forall>j < pages (unat (4096 :: u32)). pte k' (page 0xF6000000 j) =
       new_entry boot_kern (boot_free ! j) (page 0xF6000000 j) (PERM_PRESENT OR PERM_WRITEABLE) \<and>
       references (frames k' (boot_free ! j)) = 1 \<and> base_va_page (frames k' (boot_free ! j)) = page 0xF6000000 j))"
    by (rule initialize_kheap_correct [OF boot_kernel_ok boot_free_frames])
      (simp_all add: boot_free_def pages_4096 boot_kern_def)
  then show ?thesis by (rule returns_mono) (simp add: pages_4096 boot_free_def)
qed

section \<open>sbrk\<close>

text \<open>
  The outcome of \<^verbatim>\<open>sbrk\<close> for \<open>p\<close> pages on free frames \<open>fs\<close>: it fails and changes nothing when the
  hard limit or the free frames do not allow it; otherwise the old break is returned, the first
  \<open>p\<close> frames are used up, the break moves, every new address translates to its frame and back,
  and the entries of all other heap pages are kept.
\<close>

definition sbrk_outcome :: "kern \<Rightarrow> ptr list \<Rightarrow> nat \<Rightarrow> u32 \<Rightarrow> kern \<Rightarrow> bool" where
  "sbrk_outcome k fs p a k' \<longleftrightarrow>
    (if BRK k + of_nat (p * 4096) - 1 \<ge> HARD_LIMIT k \<or> length fs < p then a = - 1 \<and> k' = k
     else a = BRK k \<and> kernel_ok k' \<and> unat (BRK k') = unat (BRK k) + p * 4096 \<and> free_frames k' (drop p fs) \<and>
       kmem k' = kmem k \<and>
       (\<forall>va. unat (BRK k) \<le> unat va \<longrightarrow> unat va < unat (BRK k') \<longrightarrow>
          (let pa = to_physical_address (fs ! ((unat va - unat (BRK k)) div 4096)) k + PGOFF va
           in kheap_physical_address va k' = Some pa \<and> kheap_virtual_address pa k' = Some va)) \<and>
       (\<forall>va \<ge> KERNEL_HEAP_START. unat va < unat (BRK k) \<or> unat (BRK k') \<le> unat va \<longrightarrow> pte k' va = pte k va))"

lemma sbrk_outcomeI:
  assumes ok: "kernel_ok k" and fs: "free_frames k fs" "unat (BRK k) + length fs * 4096 < 4294967296"
    and al: "unat (BRK k) mod 4096 = 0" and vf: "\<forall>f \<in> set fs. \<exists>i. valid_frame k f i"
    and r: "a = - 1 \<and> k' = k \<and> (BRK k + of_nat (p * 4096) - 1 \<ge> HARD_LIMIT k \<or> length fs < p) \<or>
      a = BRK k \<and> p \<le> length fs \<and> BRK k + of_nat (p * 4096) - 1 < HARD_LIMIT k \<and> sbrk_done k fs p k'"
  shows "sbrk_outcome k fs p a k'"
  using r
proof (elim disjE)
  assume "a = - 1 \<and> k' = k \<and> (BRK k + of_nat (p * 4096) - 1 \<ge> HARD_LIMIT k \<or> length fs < p)"
  then show ?thesis unfolding sbrk_outcome_def by (simp only: if_True simp_thms)
next
  assume "a = BRK k \<and> p \<le> length fs \<and> BRK k + of_nat (p * 4096) - 1 < HARD_LIMIT k \<and> sbrk_done k fs p k'"
  then have c: "\<not> (BRK k + of_nat (p * 4096) - 1 \<ge> HARD_LIMIT k \<or> length fs < p)" and le: "p \<le> length fs"
    and d: "sbrk_done k fs p k'" and a: "a = BRK k" by (auto simp del: of_nat_mult)
  note o = sbrk_done_ok [OF ok fs le d]
  have "kheap_physical_address va k' = Some (to_physical_address (fs ! ((unat va - unat (BRK k)) div 4096)) k + PGOFF va)"
    "kheap_virtual_address (to_physical_address (fs ! ((unat va - unat (BRK k)) div 4096)) k + PGOFF va) k' = Some va"
    if "unat (BRK k) \<le> unat va" "unat va < unat (BRK k) + p * 4096" for va
    by (rule sbrk_done_translates [OF ok fs(1) al vf le d that])+
  then show ?thesis
    unfolding sbrk_outcome_def if_not_P [OF c] Let_def o(2)
    using a o(1,3) sbrk_done_maps [OF al d] by blast
qed

text \<open>C4: sbrk of a positive number of pages either fails and changes nothing, exactly when the
  hard limit or the free frames do not allow it, or returns the old break, maps the pages onto
  the first free frames and moves the break; every address of the new pages translates to its
  frame and back, and the pages outside keep their entries.\<close>

theorem sbrk_maps_pages:
  assumes "kernel_ok k" "free_frames k fs" "unat (BRK k) + length fs * 4096 < 4294967296"
    and "0 < p" "p < 1048576" "unat (BRK k) mod 4096 = 0" "\<forall>f \<in> set fs. \<exists>i. valid_frame k f i"
  shows "returns (sbrk (of_nat p) k) (\<lambda>(a, k'). sbrk_outcome k fs p a k')"
  by (rule returns_mono [OF sbrk_spec [OF assms(1-5)]])
    (use sbrk_outcomeI [OF assms(1-3,6,7)] in \<open>simp only: case_prod_unfold\<close>)

lemma boot_valid_frames: "\<forall>f \<in> set boot_free. \<exists>i. valid_frame (boot_kern\<lparr>BRK := b, HARD_LIMIT := h\<rparr>) f i"
proof -
  have "valid_frame (boot_kern\<lparr>BRK := b, HARD_LIMIT := h\<rparr>) (0xF0510000 + 32 * i) (0x800 + i)" if "i < 4" for i
  proof -
    have i: "i = 0 \<or> i = 1 \<or> i = 2 \<or> i = 3" using that by (simp add: word_less_nat_alt word_unat_eq_iff) linarith
    then show ?thesis by (auto simp: valid_frame_def frame_at_def boot_kern_def)
  qed
  from this [of 0] this [of 1] this [of 2] this [of 3] show ?thesis by (auto simp: boot_free_def)
qed

theorem sbrk_maps_pages_witness:
  "returns (sbrk 2 (boot_kern\<lparr>BRK := 0xF6000000, HARD_LIMIT := 0xF6008000\<rparr>)) (\<lambda>(a, k'). a = 0xF6000000 \<and>
     kheap_physical_address 0xF6001234 k' = Some 0x801234 \<and> kheap_virtual_address 0x801234 k' = Some 0xF6001234)"
proof -
  let ?k = "boot_kern\<lparr>BRK := 0xF6000000, HARD_LIMIT := 0xF6008000\<rparr>"
  have "free_frames ?k boot_free" using boot_free_frames by (simp add: free_frames_def)
  then have "returns (sbrk (of_nat 2) ?k) (\<lambda>(a, k'). sbrk_outcome ?k boot_free 2 a k')"
    using boot_valid_frames by (intro sbrk_maps_pages [OF boot_kernel_ok]) (simp_all add: boot_free_def)
  moreover have "sbrk_outcome ?k boot_free 2 a k' \<Longrightarrow> a = 0xF6000000 \<and>
     kheap_physical_address 0xF6001234 k' = Some 0x801234 \<and> kheap_virtual_address 0x801234 k' = Some 0xF6001234" for a k'
  proof -
    have pa: "to_physical_address 0xF0510020 ?k + PGOFF 0xF6001234 = 0x801234"
      by (simp add: to_physical_address_def to_frame_number_def PGOFF_def boot_kern_def)
    assume "sbrk_outcome ?k boot_free 2 a k'"
    then show ?thesis
      unfolding sbrk_outcome_def using pa
      by (auto simp: boot_free_def Let_def dest!: spec [of _ "0xF6001234"])
  qed
  ultimately show ?thesis by (auto simp: returns_iff)
qed

section \<open>kmalloc and kfree of block-sized requests\<close>

text \<open>
  The outcome of \<^verbatim>\<open>kmalloc\<close> for at most half a page on the blocks \<open>bs\<close>: the first block that fits is
  used; when none fits, the heap grows by one page (joined to a free last block) and the request
  is placed there; only when the page would pass the hard limit of the heap, or no frame is free, the
  allocation fails and the heap is as before.
\<close>

lemma kernel_refuses_one: "kernel_refuses k 1 \<longleftrightarrow> BRK k + 4095 \<ge> HARD_LIMIT k \<or> lh_size (free_frame_list k) = 0"
proof -
  have "BRK k + of_nat (1 * 4096) - 1 = BRK k + 4095" by simp
  moreover have "unat x < 1 \<longleftrightarrow> x = 0" for x :: u32 by (simp add: unat_eq_0)
  ultimately show ?thesis unfolding kernel_refuses_def by presburger
qed

definition kmalloc_outcome :: "nat \<Rightarrow> block list \<Rightarrow> nat \<Rightarrow> kern \<Rightarrow> ptr \<Rightarrow> kern \<Rightarrow> bool" where
  "kmalloc_outcome base bs sz k p k' \<longleftrightarrow>
    (case ff_alloc (request sz) bs of
       Some (off, bs') \<Rightarrow> p = of_nat (base + 4 + off + 4) \<and> kheap_inv base bs' k' \<and>
         same_on (kept base bs \<inter> kept base bs') (kmem k) (kmem k')
     | None \<Rightarrow>
         if BRK k + 4095 \<ge> HARD_LIMIT k \<or> lh_size (free_frame_list k) = 0
         then p = NULL \<and> kheap_inv base bs k' \<and> kmem k' = kmem k
         else (\<exists>off bs'. ff_alloc (request sz) (coalesce bs 4096 []) = Some (off, bs') \<and> p = of_nat (base + 4 + off + 4) \<and>
            kheap_inv base bs' k' \<and> same_on (kept base (bs @ [(4096, False)])) (kmem k) (kmem k')))"

text \<open>C5: kmalloc of at most half a page, with first fit: the request goes into the first free block
  that is large enough; when there is none the kernel's own sbrk grows the heap by one page and the
  request goes there. Null is returned, with the heap as before, exactly when that page would reach the
  hard limit or there is no free frame. The heap stays well-formed and no allocated payload changes.\<close>

theorem kmalloc_small_correct:
  assumes "kheap_inv base bs k" "sz \<noteq> 0" "unat sz \<le> 2048"
  shows "returns (kmalloc sz k) (\<lambda>(p, k'). kmalloc_outcome base bs (unat sz) k p k')"
proof (cases "ff_alloc (request (unat sz)) bs")
  case None
  from kmalloc_grows [OF assms None] show ?thesis
    by (rule returns_mono)
      (simp only: kmalloc_outcome_def None option.case case_prod_unfold kernel_refuses_one)
next
  case (Some r)
  then have "ff_alloc (request (unat sz)) bs = Some (fst r, snd r)" by simp
  from kmalloc_fits [OF assms this] show ?thesis
    by (rule returns_mono) (simp only: kmalloc_outcome_def Some option.case case_prod_unfold)
qed

lemma boot_heap_choice: "ff_alloc (request 100) [(4088, False)] = Some (0, [(108, True), (3980, False)])"
  by (simp add: request_def place_def fits_in_def)

theorem kmalloc_small_correct_witness:
  "returns (kmalloc 100 boot_heap) (\<lambda>(p, k'). p = 0xF6000008 \<and> kheap_inv 0xF6000000 [(108, True), (3980, False)] k')"
proof -
  have "returns (kmalloc 100 boot_heap) (\<lambda>(p, k'). kmalloc_outcome 0xF6000000 [(4088, False)] (unat (100 :: u32)) boot_heap p k')"
    by (rule kmalloc_small_correct [OF boot_heap_inv]) simp_all
  then show ?thesis
    by (rule returns_mono) (auto simp: kmalloc_outcome_def boot_heap_choice simp del: ff_alloc.simps)
qed

text \<open>C6: kfree of a block-sized allocation joins the block with the free blocks beside it, keeps the
  heap well-formed, and leaves the payloads of all blocks that stay allocated unchanged.\<close>

theorem kfree_small_correct:
  assumes "kheap_inv base (pre @ (n, True) # post) k"
  shows "returns (kfree (of_nat (base + 4 + heap_len pre + 4)) k) (\<lambda>k'. kheap_inv base (coalesce pre n post) k' \<and>
    same_on (kept base (pre @ (n, True) # post) \<inter> kept base (coalesce pre n post)) (kmem k) (kmem k'))"
  by (rule kfree_block_heap [OF assms])

definition boot_used_heap :: kern where
  "boot_used_heap = snd (the (kmalloc 100 boot_heap))"

lemma boot_used_heap_inv: "kheap_inv 0xF6000000 [(108, True), (3980, False)] boot_used_heap"
proof -
  have "ff_alloc (request (unat (100 :: u32))) [(4088, False)] = Some (0, [(108, True), (3980, False)])"
    using boot_heap_choice by simp
  from kmalloc_fits [OF boot_heap_inv _ _ this] show ?thesis
    unfolding boot_used_heap_def by (auto simp: returns_iff)
qed

theorem kfree_small_correct_witness:
  "returns (kfree (of_nat (0xF6000000 + 4 + heap_len [] + 4)) boot_used_heap) (\<lambda>k'.
    kheap_inv 0xF6000000 (coalesce [] 108 [(3980, False)]) k' \<and>
    same_on (kept 0xF6000000 ([] @ (108, True) # [(3980, False)]) \<inter> kept 0xF6000000 (coalesce [] 108 [(3980, False)]))
      (kmem boot_used_heap) (kmem k'))"
  by (rule kfree_small_correct) (use boot_used_heap_inv in simp)

end
