(* ===== verification/FOS_Clock.thy ===== *)
theory FOS_Clock
  imports FOS_Fault FOS_BootState FOS_Translate
begin

text \<open>
  The N-chance clock always finds a victim, and which one: counting for every page the visits of
  the hand it takes until it may be replaced, the victim is the first page, in the order in which
  the hand passes, that takes the fewest.
\<close>

section \<open>The first minimum\<close>

definition first_min :: "('a \<Rightarrow> nat) \<Rightarrow> 'a list \<Rightarrow> 'a \<Rightarrow> bool" where
  "first_min f xs w \<longleftrightarrow> (\<exists>as bs. xs = as @ w # bs \<and> (\<forall>x \<in> set as. f w < f x) \<and> (\<forall>x \<in> set bs. f w \<le> f x))"

lemma first_min_hd: "(\<And>y. y \<in> set ys \<Longrightarrow> f x \<le> f y) \<Longrightarrow> first_min f (x # ys) x"
  unfolding first_min_def by (intro exI [of _ "[]"] exI [of _ ys]) simp

lemma first_min_rotate:
  assumes m: "first_min f' (ys @ [x]) w" and d: "x \<notin> set ys" and f: "Suc (f' x) = f x" "\<And>y. y \<in> set ys \<Longrightarrow> f' y = f y"
  shows "first_min f (x # ys) w"
proof -
  from m obtain as bs where ab: "ys @ [x] = as @ w # bs" "\<forall>a \<in> set as. f' w < f' a" "\<forall>b \<in> set bs. f' w \<le> f' b"
    by (auto simp: first_min_def)
  show ?thesis
  proof (cases bs rule: rev_cases)
    case Nil
    then have "ys = as" "w = x" using ab(1) by simp_all
    then have "f x \<le> f y" if "y \<in> set ys" for y using ab(2) f(1) f(2) [OF that] that by (auto simp: Suc_le_eq simp flip: f(1))
    then show ?thesis using \<open>w = x\<close> first_min_hd by fast
  next
    case (snoc bs' b)
    then have ys: "ys = as @ w # bs'" "b = x" using ab(1) by simp_all
    then have "f w \<le> f' x" using ab(3) f(2) [of w] snoc by simp
    moreover have "\<forall>a \<in> set as. f w < f a" "\<forall>b \<in> set bs'. f w \<le> f b"
      using ab(2,3) f(2) snoc ys(1) by auto
    ultimately show ?thesis
      unfolding first_min_def using f(1) ys(1) by (intro exI [of _ "x # as"] exI [of _ bs']) auto
  qed
qed

section \<open>Pages under the clock\<close>

abbreviation page_perms :: "(ptr \<Rightarrow> ptr) \<Rightarrow> kern \<Rightarrow> ptr \<Rightarrow> u32" where
  "page_perms tb k w \<equiv> words k (tb w) (PTX (ws_virtual_address (ws_elements k w))) AND 0xFFF"

text \<open>How often the counter of a page must be raised, and how many visits of the hand that takes.\<close>

definition sweep_bound :: "u32 \<Rightarrow> u32 \<Rightarrow> nat" where
  "sweep_bound N p = (if 0 \<le> sint N then unat N else unat (- N) + (if p AND PERM_MODIFIED = 0 then 0 else 1))"

definition visits :: "(ptr \<Rightarrow> ptr) \<Rightarrow> kern \<Rightarrow> ptr \<Rightarrow> nat" where
  "visits tb k w =
    (let b = sweep_bound (page_WS_max_sweeps k) (page_perms tb k w) in
     if page_perms tb k w AND PERM_USED = PERM_USED then Suc (max 1 b) else max 1 (b - unat (sweeps_counter (ws_elements k w))))"

definition sweeps_ok :: "(ptr \<Rightarrow> ptr) \<Rightarrow> kern \<Rightarrow> ptr \<Rightarrow> bool" where
  "sweeps_ok tb k w \<longleftrightarrow>
    unat (sweeps_counter (ws_elements k w)) <
      (if 0 \<le> sint (page_WS_max_sweeps k) then 2 ^ 32 - 1 else sweep_bound (page_WS_max_sweeps k) (page_perms tb k w))"

text \<open>
  \<open>clock_ok k e tb ys\<close>: the working set of \<open>e\<close> is \<open>ys\<close>, from the hand on and around; the entry of
  each page is in the table \<open>tb\<close> of it, no two in the same place, none in the directory.
\<close>

definition clock_ok :: "kern \<Rightarrow> ptr \<Rightarrow> (ptr \<Rightarrow> ptr) \<Rightarrow> ptr list \<Rightarrow> bool" where
  "clock_ok k e tb ys \<longleftrightarrow>
    (\<exists>as bs. ys = bs @ as \<and> bs \<noteq> [] \<and> page_last_WS_element (envs k e) = hd bs \<and>
       dll ws_links (ws_elements k) (page_WS_list (envs k e)) (as @ bs)) \<and>
    (\<forall>w \<in> set ys. (\<exists>ret. get_page_table (env_page_directory (envs k e)) (ws_virtual_address (ws_elements k w)) k = Some (ret, tb w)) \<and>
       tb w \<noteq> NULL \<and> tb w \<noteq> env_page_directory (envs k e) \<and> sweeps_ok tb k w) \<and>
    inj_on (\<lambda>w. (tb w, PTX (ws_virtual_address (ws_elements k w)))) (set ys)"

text \<open>All the clock may do: move the hand, count sweeps, and clear used bits.\<close>

definition swept :: "ptr \<Rightarrow> kern \<Rightarrow> kern \<Rightarrow> bool" where
  "swept e k' k \<longleftrightarrow>
    (\<exists>wd el h. k' = k\<lparr>words := wd, ws_elements := el, envs := (envs k)(e := (envs k e)\<lparr>page_last_WS_element := h\<rparr>)\<rparr> \<and>
       (\<forall>w. (el w)\<lparr>sweeps_counter := 0\<rparr> = (ws_elements k w)\<lparr>sweeps_counter := 0\<rparr>) \<and>
       (\<forall>t i. wd t i AND NOT PERM_USED = words k t i AND NOT PERM_USED))"

lemma swept_refl: "swept e k k"
  unfolding swept_def
  by (intro exI [of _ "words k"] exI [of _ "ws_elements k"] exI [of _ "page_last_WS_element (envs k e)"]) simp

lemma swept_trans: "swept e k2 k1 \<Longrightarrow> swept e k1 k \<Longrightarrow> swept e k2 k"
  unfolding swept_def by (elim exE conjE, intro exI conjI) (assumption | simp)+


section \<open>Steps of the clock\<close>

lemma mask_0xFFF:
  "((x AND NOT PERM_USED) AND 0xFFF) AND PERM_MODIFIED = (x AND 0xFFF) AND (PERM_MODIFIED :: u32)"
  "((x AND NOT PERM_USED) AND 0xFFF) AND PERM_USED = (0 :: u32)"
proof -
  have "NOT PERM_USED AND (0xFFF AND PERM_MODIFIED) = 0xFFF AND (PERM_MODIFIED :: u32)" "NOT PERM_USED AND (0xFFF AND PERM_USED) = (0 :: u32)"
    by simp_all
  then show "((x AND NOT PERM_USED) AND 0xFFF) AND PERM_MODIFIED = (x AND 0xFFF) AND (PERM_MODIFIED :: u32)"
    "((x AND NOT PERM_USED) AND 0xFFF) AND PERM_USED = (0 :: u32)"
    by (simp_all only: and.assoc, simp)
qed

lemma modified_bit: "(x :: u32) AND PERM_MODIFIED = 0 \<or> x AND PERM_MODIFIED = PERM_MODIFIED"
proof -
  have b: "bit (64 :: u32) n \<longleftrightarrow> n = 6" for n
  proof -
    have "bit ((2 :: u32) ^ 6) n \<longleftrightarrow> n = 6" by (simp only: bit_exp_iff possible_bit_word) auto
    then show ?thesis by simp
  qed
  show ?thesis
  proof (cases "bit x 6")
    case True
    then have "x AND 64 = 64" by (intro bit_word_eqI) (simp only: bit_and_iff b, auto)
    then show ?thesis by simp
  next
    case False
    then have "x AND 64 = 0" by (intro bit_word_eqI) (simp only: bit_and_iff b bit_0_eq, auto)
    then show ?thesis by simp
  qed
qed

lemma pt_clear_permission:
  assumes "get_page_table dir va k = Some (ret, t)" "t \<noteq> NULL"
  shows "pt_set_page_permissions dir va 0 c k = Some (set_word t (PTX va) (words k t (PTX va) AND NOT c) k)"
  using assms by (simp add: pt_set_page_permissions_def set_word_def)

lemma get_page_table_swept:
  assumes "swept e k' k" "\<And>i. words k' dir i = words k dir i"
  shows "get_page_table dir va k' = get_page_table dir va k"
proof -
  from assms(1) have "number_of_frames k' = number_of_frames k" "frames_info k' = frames_info k" "frames k' = frames k"
    unfolding swept_def by (elim exE conjE, simp (no_asm_simp))+
  note n = this(1) and v = kheap_virtual_address_cong [OF this]
  show ?thesis by (simp add: get_page_table_def Let_def STATIC_KERNEL_VIRTUAL_ADDRESS_def assms(2) n v)
qed

lemma first_or_hd: "xs \<noteq> [] \<Longrightarrow> first_or q xs = hd xs"
  by (cases xs) simp_all

text \<open>The hand goes around.\<close>

lemma clock_advance_rotates:
  assumes d: "dll ws_links (ws_elements k) (page_WS_list (envs k e)) (as @ bs)" and b: "bs = w # bs'"
    and h: "page_last_WS_element (envs k e) = w"
  shows "\<exists>as2 bs2. bs' @ as @ [w] = bs2 @ as2 \<and> bs2 \<noteq> [] \<and> page_last_WS_element (envs (clock_advance e k) e) = hd bs2 \<and>
    dll ws_links (ws_elements (clock_advance e k)) (page_WS_list (envs (clock_advance e k) e)) (as2 @ bs2)"
proof -
  have same: "ws_elements (clock_advance e k) = ws_elements k" "page_WS_list (envs (clock_advance e k) e) = page_WS_list (envs k e)"
    by (simp_all add: clock_advance_def update_env_def)
  have l: "lh_last (page_WS_list (envs k e)) = last (as @ bs)" "lh_first (page_WS_list (envs k e)) = hd (as @ bs)" "distinct (as @ bs)"
    "ws_next (ws_elements k w) = first_or NULL bs'"
    using d b by (simp_all add: dll_def last_or_def) (cases as; simp)
  show ?thesis
  proof (cases bs')
    case Nil
    then have "page_last_WS_element (envs (clock_advance e k) e) = hd (as @ [w])"
      using h l(1,2) b by (simp add: clock_advance_def update_env_def)
    then show ?thesis unfolding same using d b Nil by (intro exI [of _ "[]"] exI [of _ "as @ [w]"]) simp
  next
    case (Cons x xs)
    then have "w \<noteq> last (as @ bs)" using l(3) b by auto
    then have "page_last_WS_element (envs (clock_advance e k) e) = x"
      using h l(1,4) Cons by (simp add: clock_advance_def update_env_def)
    then show ?thesis unfolding same using d b Cons by (intro exI [of _ "as @ [w]"] exI [of _ bs']) simp
  qed
qed


text \<open>One visit of the hand: the page in front of it is as if visited once, the others as before.\<close>

lemma visited:
  assumes ok: "clock_ok k e tb (w # zs)" and k1: "k1 = k\<lparr>words := wd, ws_elements := (ws_elements k)(w := (ws_elements k w)\<lparr>sweeps_counter := c\<rparr>)\<rparr>"
    and wd: "wd = words k \<or> wd = (words k)(tb w := (words k (tb w))(PTX (ws_virtual_address (ws_elements k w)) :=
        words k (tb w) (PTX (ws_virtual_address (ws_elements k w))) AND NOT PERM_USED))"
    and sw: "sweeps_ok tb (clock_advance e k1) w"
  shows "clock_ok (clock_advance e k1) e tb (zs @ [w])" "swept e (clock_advance e k1) k"
    "\<And>z. z \<in> set zs \<Longrightarrow> visits tb (clock_advance e k1) z = visits tb k z"
proof -
  let ?i = "\<lambda>z. PTX (ws_virtual_address (ws_elements k z))" and ?k = "clock_advance e k1"
  from ok obtain as bs where ab: "w # zs = bs @ as" "bs \<noteq> []" "page_last_WS_element (envs k e) = hd bs"
    "dll ws_links (ws_elements k) (page_WS_list (envs k e)) (as @ bs)" by (auto simp: clock_ok_def)
  then obtain bs' where b: "bs = w # bs'" "zs = bs' @ as" by (cases bs) auto
  have f: "\<exists>ret. get_page_table (env_page_directory (envs k e)) (ws_virtual_address (ws_elements k z)) k = Some (ret, tb z)"
    "tb z \<noteq> NULL" "tb z \<noteq> env_page_directory (envs k e)" "sweeps_ok tb k z" if "z \<in> set (w # zs)" for z
    using ok that by (auto simp: clock_ok_def)
  have inj: "inj_on (\<lambda>z. (tb z, ?i z)) (set (w # zs))" using ok by (simp add: clock_ok_def)
  have dist: "distinct (w # zs)" using ab(4) b by (auto simp: dll_def)
  have "dll ws_links (ws_elements k1) (page_WS_list (envs k1 e)) (as @ bs) = dll ws_links (ws_elements k) (page_WS_list (envs k e)) (as @ bs)"
    unfolding k1 by (simp, rule dll_cong) simp
  then have d1: "dll ws_links (ws_elements k1) (page_WS_list (envs k1 e)) (as @ bs)" using ab(4) by simp
  have h1: "page_last_WS_element (envs k1 e) = w" using ab(3) b unfolding k1 by simp
  have sw': "swept e ?k k"
  proof -
    let ?h = "page_last_WS_element (envs ?k e)"
    have "?k = k\<lparr>words := wd, ws_elements := (ws_elements k)(w := (ws_elements k w)\<lparr>sweeps_counter := c\<rparr>),
        envs := (envs k)(e := (envs k e)\<lparr>page_last_WS_element := ?h\<rparr>)\<rparr>"
      unfolding k1 clock_advance_def update_env_def by simp
    moreover have "wd t i AND NOT PERM_USED = words k t i AND NOT PERM_USED" for t i
      using wd by (auto simp: and.assoc)
    ultimately show ?thesis
      unfolding swept_def
      by (intro exI [of _ wd] exI [of _ "(ws_elements k)(w := (ws_elements k w)\<lparr>sweeps_counter := c\<rparr>)"] exI [of _ ?h] conjI) simp_all
  qed
  then show "swept e ?k k" .
  have s: "ws_virtual_address (ws_elements ?k z) = ws_virtual_address (ws_elements k z)"
    "env_page_directory (envs ?k e) = env_page_directory (envs k e)" "page_WS_max_sweeps ?k = page_WS_max_sweeps k"
    "z \<noteq> w \<Longrightarrow> ws_elements ?k z = ws_elements k z" "words ?k = wd" for z
    unfolding k1 clock_advance_def update_env_def by simp_all
  have dirw: "words ?k (env_page_directory (envs k e)) i = words k (env_page_directory (envs k e)) i" for i
    unfolding s(5) using wd f(3) [of w] by auto
  have pp: "page_perms tb ?k z = page_perms tb k z" if "z \<in> set zs" for z
  proof -
    have "(tb z, ?i z) \<noteq> (tb w, ?i w)" using inj that dist by (auto simp: inj_on_def)
    then show ?thesis unfolding s(1,5) using wd by auto
  qed
  show "visits tb ?k z = visits tb k z" if "z \<in> set zs" for z
  proof -
    have "z \<noteq> w" using that dist by auto
    note z = s(4) [OF this]
    show ?thesis by (simp only: visits_def z pp [OF that, unfolded z] s(3))
  qed
  have sok: "sweeps_ok tb ?k z" if "z \<in> set (zs @ [w])" for z
  proof (cases "z = w")
    case True
    then show ?thesis using sw by simp
  next
    case False
    then have z: "z \<in> set zs" using that by simp
    have "sweeps_ok tb k z" using f(4) [of z] z by simp
    then show ?thesis unfolding sweeps_ok_def s(3) s(4) [OF False] pp [OF z, unfolded s(4) [OF False]] .
  qed
  from clock_advance_rotates [OF d1 b(1) h1] show "clock_ok ?k e tb (zs @ [w])"
    unfolding clock_ok_def using f inj sok b(2)
    by (auto simp: s(1,2) get_page_table_swept [OF sw' dirw])
qed


lemma sweep_bound_cong: "p AND PERM_MODIFIED = q AND PERM_MODIFIED \<Longrightarrow> sweep_bound N p = sweep_bound N q"
  by (simp add: sweep_bound_def)

lemma unat_u32_suc: "unat (c :: u32) < 2 ^ 32 - 1 \<Longrightarrow> unat (c + 1) = unat c + 1"
  by (simp add: unat_word_ariths)

lemma negative_bound:
  assumes "\<not> 0 \<le> sint (N :: u32)"
  shows "1 \<le> unat (- N) \<and> unat (- N) \<le> 2 ^ 31 \<and> unat (- N + 1) = unat (- N) + 1"
proof -
  have "\<not> N \<le> 0x7FFFFFFF" using assms sint_small [of N] by auto
  then have n: "0x80000000 \<le> uint N" "uint N < 0x100000000" using uint_lt2p [of N] by (simp_all add: word_le_def)
  have "uint (- N) = (- uint N) mod 0x100000000" by (simp add: uint_word_ariths)
  also have "\<dots> = 0x100000000 - uint N" using n by (simp add: zmod_zminus1_eq_if)
  finally have "unat (- N) = nat (0x100000000 - uint N)" by (simp flip: nat_uint_eq)
  then have "1 \<le> unat (- N)" "unat (- N) \<le> 2 ^ 31" using n by simp_all
  then show ?thesis using unat_u32_suc [of "- N"] by simp
qed

text \<open>The test of the code, in terms of the number of visits left.\<close>

lemma victim_reached_iff:
  assumes "sweeps_ok tb k w" and nu: "page_perms tb k w AND PERM_USED \<noteq> PERM_USED"
  shows "victim_reached (page_WS_max_sweeps k) (page_perms tb k w) (sweeps_counter (ws_elements k w) + 1) \<longleftrightarrow> visits tb k w = 1"
proof -
  let ?N = "page_WS_max_sweeps k" let ?c = "sweeps_counter (ws_elements k w)" let ?p = "page_perms tb k w"
  have v: "visits tb k w = max 1 (sweep_bound ?N ?p - unat ?c)" using nu by (simp add: visits_def Let_def)
  show ?thesis
  proof (cases "0 \<le> sint ?N")
    case True
    then have "unat ?c < 2 ^ 32 - 1" using assms(1) by (simp add: sweeps_ok_def)
    then have "unat (?c + 1) = unat ?c + 1" by (rule unat_u32_suc)
    then show ?thesis using True unfolding v by (auto simp: victim_reached_def sweep_bound_def word_le_nat_alt)
  next
    case False
    note b = negative_bound [OF False]
    have c: "unat ?c < sweep_bound ?N ?p" using assms(1) False by (simp add: sweeps_ok_def)
    then have "unat ?c < 2 ^ 32 - 1" using b by (auto simp: sweep_bound_def False split: if_splits)
    then have u: "unat (?c + 1) = unat ?c + 1" by (rule unat_u32_suc)
    have "victim_reached ?N ?p (?c + 1) \<longleftrightarrow> unat ?c + 1 = sweep_bound ?N ?p"
      using False b u modified_bit [of ?p] by (auto simp: victim_reached_def sweep_bound_def word_unat_eq_iff)
    then show ?thesis using c unfolding v by auto
  qed
qed


text \<open>The number of visits goes down by one at each visit that does not end the loop.\<close>

lemma nchance_step:
  assumes ok: "clock_ok k e tb (w # zs)"
  shows "if visits tb k w = 1
     then nchance_loop e k = Some (page_perms tb k w, on_ws_element w (\<lambda>x. x\<lparr>sweeps_counter := sweeps_counter x + 1\<rparr>) k) \<and>
       page_last_WS_element (envs k e) = w
     else \<exists>k1. nchance_loop e k = nchance_loop e k1 \<and> clock_ok k1 e tb (zs @ [w]) \<and> swept e k1 k \<and>
       Suc (visits tb k1 w) = visits tb k w \<and> (\<forall>z \<in> set zs. visits tb k1 z = visits tb k z)"
proof -
  let ?va = "ws_virtual_address (ws_elements k w)" let ?p = "page_perms tb k w" let ?N = "page_WS_max_sweeps k"
  let ?t = "tb w" let ?dir = "env_page_directory (envs k e)"
  have h: "page_last_WS_element (envs k e) = w" "w \<noteq> NULL"
    using ok by (auto simp: clock_ok_def dll_def Cons_eq_append_conv)
  from ok obtain ret where g: "get_page_table ?dir ?va k = Some (ret, ?t)" "?t \<noteq> NULL" "?t \<noteq> ?dir" "sweeps_ok tb k w"
    by (auto simp: clock_ok_def)
  have p: "pt_get_page_permissions ?dir ?va k = Some ?p" using g by (simp add: pt_get_page_permissions_def)
  show ?thesis
  proof (cases "?p AND PERM_USED = PERM_USED")
    case True
    let ?k1 = "k\<lparr>words := (words k)(?t := (words k ?t)(PTX ?va := words k ?t (PTX ?va) AND NOT PERM_USED)),
       ws_elements := (ws_elements k)(w := (ws_elements k w)\<lparr>sweeps_counter := 0\<rparr>)\<rparr>"
    have u: "nchance_loop e k = nchance_loop e (clock_advance e ?k1)"
      by (subst nchance_loop.simps)
        (simp add: h p True pt_clear_permission [OF g(1,2)] on_ws_element_def set_word_def Let_def)
    have s: "page_WS_max_sweeps (clock_advance e ?k1) = ?N" "sweeps_counter (ws_elements (clock_advance e ?k1) w) = 0"
      "page_perms tb (clock_advance e ?k1) w = (words k ?t (PTX ?va) AND NOT PERM_USED) AND 0xFFF"
      by (simp_all add: clock_advance_def update_env_def)
    have b: "sweep_bound ?N ((words k ?t (PTX ?va) AND NOT PERM_USED) AND 0xFFF) = sweep_bound ?N ?p"
      by (rule sweep_bound_cong) (rule mask_0xFFF)
    have so: "sweeps_ok tb (clock_advance e ?k1) w"
      unfolding sweeps_ok_def s b using negative_bound [of ?N] by (auto simp: sweep_bound_def)
    have "visits tb (clock_advance e ?k1) w = max 1 (sweep_bound ?N ?p)"
      unfolding visits_def s b mask_0xFFF(2) by simp
    then have v: "Suc (visits tb (clock_advance e ?k1) w) = visits tb k w" using True by (simp add: visits_def)
    then have "visits tb k w \<noteq> 1" by (simp add: visits_def Let_def split: if_splits)
    then show ?thesis
      using u v visited [OF ok refl _ so] by (simp only: if_False) blast
  next
    case False
    let ?k1 = "k\<lparr>ws_elements := (ws_elements k)(w := (ws_elements k w)\<lparr>sweeps_counter := sweeps_counter (ws_elements k w) + 1\<rparr>)\<rparr>"
    let ?stop = "victim_reached ?N ?p (sweeps_counter (ws_elements k w) + 1)"
    have u: "nchance_loop e k = (if ?stop then Some (?p, ?k1) else nchance_loop e (clock_advance e ?k1))"
      by (subst nchance_loop.simps) (simp add: h p False on_ws_element_def Let_def)
    note st = victim_reached_iff [OF g(4) False]
    show ?thesis
    proof (cases "visits tb k w = 1")
      case True
      then show ?thesis using u st h(1) by (simp add: on_ws_element_def)
    next
      case F: False
      let ?b = "sweep_bound ?N ?p" let ?c = "sweeps_counter (ws_elements k w)"
      have vk: "visits tb k w = max 1 (?b - unat ?c)" using False by (simp add: visits_def Let_def)
      then have c: "unat ?c + 1 < ?b" using F by (simp add: max_def split: if_splits)
      have "?b \<le> 2 ^ 31 + 1"
      proof (cases "0 \<le> sint ?N")
        case True
        have "?N \<le> 0x7FFFFFFF"
        proof (rule ccontr)
          assume "\<not> ?N \<le> 0x7FFFFFFF"
          then have n: "2147483648 \<le> uint ?N" "uint ?N < 4294967296" using uint_lt2p [of ?N] by (simp_all add: word_le_def)
          then have "uint ?N div 2147483648 = 1" by linarith
          then have "bit (uint ?N) 31" by (simp add: bit_iff_odd)
          then show False using True n by (simp add: sint_uint)
        qed
        then show ?thesis using True by (simp add: sweep_bound_def word_le_nat_alt)
      next
        case False
        then show ?thesis using negative_bound [OF False] by (simp add: sweep_bound_def)
      qed
      then have cu: "unat (?c + 1) = unat ?c + 1" using c by (intro unat_u32_suc) simp
      have s: "page_WS_max_sweeps (clock_advance e ?k1) = ?N" "sweeps_counter (ws_elements (clock_advance e ?k1) w) = ?c + 1"
        "page_perms tb (clock_advance e ?k1) w = ?p"
        by (simp_all add: clock_advance_def update_env_def)
      have so: "sweeps_ok tb (clock_advance e ?k1) w"
        unfolding sweeps_ok_def s cu using c \<open>?b \<le> 2 ^ 31 + 1\<close> by simp
      have "visits tb (clock_advance e ?k1) w = max 1 (?b - (unat ?c + 1))"
        unfolding visits_def s cu using False by simp
      then have v: "Suc (visits tb (clock_advance e ?k1) w) = visits tb k w" using vk c by simp
      have n: "nchance_loop e k = nchance_loop e (clock_advance e ?k1)" using u st F by simp
      have k1: "?k1 = k\<lparr>words := words k, ws_elements := (ws_elements k)(w := (ws_elements k w)\<lparr>sweeps_counter := ?c + 1\<rparr>)\<rparr>" by simp
      from F show ?thesis
        using n v visited [OF ok k1 disjI1 [OF refl] so] by (simp only: if_False) blast
    qed
  qed
qed


lemma nchance_finds:
  assumes "clock_ok k e tb ys"
  shows "\<exists>k' w. nchance_loop e k = Some (page_perms tb k' w, k') \<and> swept e k' k \<and> page_last_WS_element (envs k' e) = w \<and>
    w \<in> set ys \<and> first_min (visits tb k) ys w"
  using assms
proof (induction "sum_list (map (visits tb k) ys)" arbitrary: k ys rule: less_induct)
  case less
  from less.prems obtain w zs where ys: "ys = w # zs" by (cases ys) (auto simp: clock_ok_def)
  have dist: "w \<notin> set zs"
    using less.prems unfolding ys by (auto simp: clock_ok_def dll_def Cons_eq_append_conv)
  note st = nchance_step [OF less.prems [unfolded ys]]
  show ?case
  proof (cases "visits tb k w = 1")
    case True
    let ?k = "on_ws_element w (\<lambda>x. x\<lparr>sweeps_counter := sweeps_counter x + 1\<rparr>) k"
    have "swept e ?k k"
      unfolding swept_def on_ws_element_def
      by (intro exI [of _ "words k"] exI [of _ "(ws_elements k)(w := (ws_elements k w)\<lparr>sweeps_counter := sweeps_counter (ws_elements k w) + 1\<rparr>)"]
          exI [of _ "page_last_WS_element (envs k e)"] conjI) simp_all
    moreover have "page_perms tb ?k w = page_perms tb k w" "page_last_WS_element (envs ?k e) = page_last_WS_element (envs k e)"
      by (simp_all add: on_ws_element_def)
    moreover have "1 \<le> visits tb k z" for z by (simp add: visits_def Let_def)
    then have "first_min (visits tb k) ys w" unfolding ys using True by (intro first_min_hd) simp
    ultimately show ?thesis using st True ys by (intro exI [of _ ?k] exI [of _ w]) simp
  next
    case False
    from st False obtain k1 where k1: "nchance_loop e k = nchance_loop e k1" "clock_ok k1 e tb (zs @ [w])" "swept e k1 k"
      "Suc (visits tb k1 w) = visits tb k w" "\<And>z. z \<in> set zs \<Longrightarrow> visits tb k1 z = visits tb k z" by auto
    have "map (visits tb k1) zs = map (visits tb k) zs" using k1(5) by simp
    then have "sum_list (map (visits tb k1) zs) = sum_list (map (visits tb k) zs)" by (rule arg_cong)
    then have "sum_list (map (visits tb k1) (zs @ [w])) < sum_list (map (visits tb k) ys)" using k1(4) ys by (simp del: map_eq_conv)
    from less.hyps [OF this k1(2)] obtain k' where k': "nchance_loop e k1 = Some (page_perms tb k' (page_last_WS_element (envs k' e)), k')"
      "swept e k' k1" "page_last_WS_element (envs k' e) \<in> set (zs @ [w])" "first_min (visits tb k1) (zs @ [w]) (page_last_WS_element (envs k' e))"
      by blast
    have "first_min (visits tb k) ys (page_last_WS_element (envs k' e))"
      unfolding ys using first_min_rotate [OF k'(4) dist] k1(4,5) by blast
    then show ?thesis using k1(1) k'(1,3) swept_trans [OF k'(2) k1(3)] ys by (intro exI conjI) auto
  qed
qed


section \<open>A full working set\<close>

text \<open>Three pages: one used, one modified, one neither; the hand is on the second.\<close>

definition boot_clock :: kern where
  "boot_clock = boot_kern
     \<lparr>envs := (\<lambda>_. blank_env)(0xEEC00000 := blank_env\<lparr>env_page_directory := 0xF0400000, page_WS_max_size := 3,
        page_WS_list := \<lparr>lh_first = 0xF6000100, lh_last = 0xF6000300, lh_size = 3\<rparr>, page_last_WS_element := 0xF6000200\<rparr>),
      ws_elements := (\<lambda>_. blank_ws_element)(
        0xF6000100 := blank_ws_element\<lparr>ws_virtual_address := 0x800000, ws_next := 0xF6000200\<rparr>,
        0xF6000200 := blank_ws_element\<lparr>ws_virtual_address := 0x801000, ws_next := 0xF6000300, ws_prev := 0xF6000100\<rparr>,
        0xF6000300 := blank_ws_element\<lparr>ws_virtual_address := 0x802000, ws_prev := 0xF6000200\<rparr>),
      words := boot_words(0xF0002000 := (\<lambda>_. 0)(0 := 0x200007, 1 := 0x201027, 2 := 0x202047)),
      frames := boot_frames(0xF0500040 := zero_frame\<lparr>references := 1, base_va_page := 0xF0002000\<rparr>),
      page_WS_max_sweeps := - 2\<rparr>"

lemma boot_clock_ok: "clock_ok boot_clock 0xEEC00000 (\<lambda>_. 0xF0002000) [0xF6000200, 0xF6000300, 0xF6000100]"
  unfolding clock_ok_def
proof (intro conjI)
  show "\<exists>as bs. [0xF6000200, 0xF6000300, 0xF6000100] = bs @ as \<and> bs \<noteq> [] \<and>
      page_last_WS_element (envs boot_clock 0xEEC00000) = hd bs \<and>
      dll ws_links (ws_elements boot_clock) (page_WS_list (envs boot_clock 0xEEC00000)) (as @ bs)"
    by (intro exI [of _ "[0xF6000100]"] exI [of _ "[0xF6000200, 0xF6000300]"])
      (simp add: boot_clock_def dll_def ws_links_def last_or_def blank_ws_element_def)
qed (simp_all add: boot_clock_def boot_kern_def boot_words_def get_page_table_def kheap_virtual_address_def to_frame_info_def
    frame_at_def to_frame_number_def zero_frame_def CHECK_IF_KERNEL_ADDRESS_def EXTRACT_ADDRESS_def PPN_def PDX_def PTX_def
    blank_ws_element_def sweeps_ok_def sweep_bound_def Let_def)

section \<open>The property\<close>

text \<open>C18: The search of the N-chance clock ends, for either sign of \<open>N\<close> and whatever the used bits: it
  stops on a page of the working set, the first in the order of the hand among those that take the
  fewest visits to run out of chances (a page used since the last visit is granted a full new
  round, and for negative \<open>N\<close> a modified page one chance more). Until then it only moves the hand,
  counts sweeps and clears used bits.\<close>

theorem nchance_victim:
  assumes "clock_ok k e tb ys"
  shows "\<exists>k' w. nchance_loop e k = Some (page_perms tb k' w, k') \<and> swept e k' k \<and> page_last_WS_element (envs k' e) = w \<and>
    w \<in> set ys \<and> first_min (visits tb k) ys w"
  by (rule nchance_finds [OF assms])

theorem nchance_victim_witness:
  "\<exists>k'. nchance_loop 0xEEC00000 boot_clock = Some (page_perms (\<lambda>_. 0xF0002000) k' 0xF6000100, k') \<and>
    page_last_WS_element (envs k' 0xEEC00000) = 0xF6000100"
proof -
  from nchance_victim [OF boot_clock_ok] obtain k' w where
    k': "nchance_loop 0xEEC00000 boot_clock = Some (page_perms (\<lambda>_. 0xF0002000) k' w, k')" "page_last_WS_element (envs k' 0xEEC00000) = w"
      "w \<in> set [0xF6000200, 0xF6000300, 0xF6000100]" "first_min (visits (\<lambda>_. 0xF0002000) boot_clock) [0xF6000200, 0xF6000300, 0xF6000100] w"
    by blast
  have v: "visits (\<lambda>_. 0xF0002000) boot_clock 0xF6000200 = 3" "visits (\<lambda>_. 0xF0002000) boot_clock 0xF6000300 = 3"
    "visits (\<lambda>_. 0xF0002000) boot_clock 0xF6000100 = 2"
    by (simp_all add: boot_clock_def boot_words_def blank_ws_element_def visits_def sweep_bound_def PTX_def)
  have "w = 0xF6000100"
    using k'(3,4) v by (auto simp: first_min_def Cons_eq_append_conv)
  then show ?thesis using k'(1,2) by blast
qed

end
