(* ===== verification/FOS_SchedProps.thy ===== *)
theory FOS_SchedProps
  imports FOS_Fairness
begin

text \<open>
  The process queues: a process is in at most one queue, its status says which, and processes
  move from NEW to READY in the order they arrived.
\<close>

section \<open>Statuses\<close>

text \<open>\<open>status_of q\<close> is the status of the processes in queue \<open>q\<close>.\<close>

primrec status_of :: "qname \<Rightarrow> u32" where
  "status_of New = ENV_NEW"
| "status_of Exited = ENV_EXIT"
| "status_of (Ready i) = ENV_READY"
| "status_of (Chan c) = ENV_BLOCKED"

definition statuses_ok :: "kern \<Rightarrow> qlists \<Rightarrow> bool" where
  "statuses_ok k qs \<longleftrightarrow> (\<forall>q xs. qs q = Some xs \<longrightarrow> (\<forall>x \<in> set xs. env_status (envs k x) = status_of q))"

definition processes_ok :: "kern \<Rightarrow> qlists \<Rightarrow> bool" where
  "processes_ok k qs \<longleftrightarrow> queues_ok k qs \<and> statuses_ok k qs"

lemma statuses_okD: "statuses_ok k qs \<Longrightarrow> qs q = Some xs \<Longrightarrow> x \<in> set xs \<Longrightarrow> env_status (envs k x) = status_of q"
  by (simp add: statuses_ok_def)

lemma statuses_ok_update:
  assumes "statuses_ok k qs" "set xs' \<subseteq> insert e (set xs)" "qs q = Some xs" "e \<notin> queued (qs(q := None))"
    and "env_status (envs k' e) = s" "e \<in> set xs' \<Longrightarrow> s = status_of q"
    and "\<And>x. x \<noteq> e \<Longrightarrow> env_status (envs k' x) = env_status (envs k x)"
  shows "statuses_ok k' (qs(q \<mapsto> xs'))"
  unfolding statuses_ok_def
proof (intro allI impI ballI)
  fix q1 ys x assume y: "(qs(q \<mapsto> xs')) q1 = Some ys" "x \<in> set ys"
  show "env_status (envs k' x) = status_of q1"
  proof (cases "q1 = q")
    case True
    then show ?thesis using y assms(2,3,5-7) statuses_okD [OF assms(1,3), of x] by (cases "x = e") auto
  next
    case False
    then have q1: "qs q1 = Some ys" using y(1) by simp
    then have "x \<noteq> e" using assms(4) False y(2) by (auto simp: queued_iff split: if_splits)
    then show ?thesis using assms(7) statuses_okD [OF assms(1) q1 y(2)] by simp
  qed
qed

lemma queued_remove: "queued (qs(q := None)) \<subseteq> queued qs"
proof
  fix x assume "x \<in> queued (qs(q := None))"
  then obtain p xs where "(qs(q := None)) p = Some xs" "x \<in> set xs" unfolding queued_def by blast
  then show "x \<in> queued qs" unfolding queued_def by (cases "p = q") auto
qed

lemma not_queued_elsewhere:
  assumes "queues_ok k qs" "qs q = Some xs" "e \<in> set xs"
  shows "e \<notin> queued (qs(q := None))"
proof
  assume "e \<in> queued (qs(q := None))"
  then obtain p ys where p: "(qs(q := None)) p = Some ys" "e \<in> set ys" unfolding queued_def by blast
  then have "qs p = Some ys" "p \<noteq> q" by (cases "p = q"; simp)+
  then have "set xs \<inter> set ys = {}" using assms(1,2) unfolding queues_ok_def by blast
  then show False using assms(3) p(2) by blast
qed

section \<open>Inserting and removing with the lock held\<close>

lemma insert_ok:
  assumes ok: "processes_ok k qs" and q: "qs q = Some xs" and e: "e \<noteq> NULL" "e \<notin> queued qs"
  shows "returns (on_queue q (\<lambda>h. enqueue (Some h) e) (set_env_status e (status_of q) k))
    (\<lambda>k'. processes_ok k' (qs(q \<mapsto> e # xs)) \<and> unqueued k' = unqueued (set_env_status e (status_of q) k))"
proof -
  have "queues_ok (set_env_status e (status_of q) k) qs" using ok by (simp add: processes_ok_def)
  from enqueue_ok [OF this q e] show ?thesis
  proof (rule returns_mono, elim conjE)
    fix k' assume k': "queues_ok k' (qs(q \<mapsto> e # xs))" "unqueued k' = unqueued (set_env_status e (status_of q) k)"
    have "statuses_ok k' (qs(q \<mapsto> e # xs))"
      by (rule statuses_ok_update [where e = e and s = "status_of q" and k = k and qs = qs and q = q and xs = xs])
        (use ok q e(2) queued_remove [of qs q] unqueued_envD(1) [OF k'(2)] in \<open>auto simp: processes_ok_def\<close>)
    with k' show "processes_ok k' (qs(q \<mapsto> e # xs)) \<and> unqueued k' = unqueued (set_env_status e (status_of q) k)"
      by (simp add: processes_ok_def)
  qed
qed

lemma take_ok:
  assumes ok: "processes_ok k qs" and q: "qs q = Some (xs @ e # ys)"
  shows "returns (on_queue q (LIST_REMOVE env_links e) k)
    (\<lambda>k'. processes_ok (set_env_status e s k') (qs(q \<mapsto> xs @ ys)) \<and> e \<notin> queued (qs(q \<mapsto> xs @ ys)) \<and> unqueued k' = unqueued k)"
proof -
  have qok: "queues_ok k qs" "statuses_ok k qs" using ok by (simp_all add: processes_ok_def)
  have "dll env_links (envs k) (head_of k q) (xs @ e # ys)" using qok(1) q by (simp add: queues_ok_def)
  then have d: "e \<notin> set (xs @ ys)" by (simp add: dll_def)
  have el: "e \<notin> queued (qs(q := None))" using not_queued_elsewhere [OF qok(1) q] by simp
  from remove_ok [OF qok(1) q] show ?thesis
  proof (rule returns_mono, elim conjE)
    fix k' assume k': "queues_ok k' (qs(q \<mapsto> xs @ ys))" "unqueued k' = unqueued k"
    have "statuses_ok (set_env_status e s k') (qs(q \<mapsto> xs @ ys))"
      by (rule statuses_ok_update [where e = e and s = s and k = k and qs = qs and q = q and xs = "xs @ e # ys"])
        (use d qok(2) q el unqueued_envD(1) [OF k'(2)] in auto)
    moreover have "e \<notin> queued (qs(q \<mapsto> xs @ ys))" using el d by (auto simp: queued_iff split: if_splits)
    ultimately show "processes_ok (set_env_status e s k') (qs(q \<mapsto> xs @ ys)) \<and> e \<notin> queued (qs(q \<mapsto> xs @ ys)) \<and> unqueued k' = unqueued k"
      using k' by (simp add: processes_ok_def)
  qed
qed

lemma sched_insert_new_ok:
  assumes "in_sched k" "processes_ok k qs" "qs New = Some xs" "e \<noteq> NULL" "e \<notin> queued qs"
  shows "returns (sched_insert_new e k)
    (\<lambda>k'. processes_ok k' (qs(New \<mapsto> e # xs)) \<and> unqueued k' = unqueued (set_env_status e ENV_NEW k))"
  using insert_ok [OF assms(2-5)] assms(1,4) by (simp add: sched_insert_new_def check_qlock_held on_queue_eqs)

lemma sched_insert_ready_ok:
  assumes "in_sched k" "processes_ok k qs" "qs (Ready (unat (priority (envs k e)))) = Some xs" "e \<noteq> NULL" "e \<notin> queued qs"
  shows "returns (sched_insert_ready e k) (\<lambda>k'. processes_ok k' (qs(Ready (unat (priority (envs k e))) \<mapsto> e # xs)) \<and>
    unqueued k' = unqueued (set_env_status e ENV_READY k))"
  using insert_ok [OF assms(2-5)] assms(1,4) by (simp add: sched_insert_ready_def check_qlock_held on_queue_eqs)

lemma sched_insert_ready0_ok:
  assumes "in_sched k" "processes_ok k qs" "qs (Ready 0) = Some xs" "e \<noteq> NULL" "e \<notin> queued qs"
  shows "returns (sched_insert_ready0 e k) (\<lambda>k'. processes_ok k' (qs(Ready 0 \<mapsto> e # xs)) \<and>
    unqueued k' = unqueued (set_env_status e ENV_READY k))"
  using insert_ok [OF assms(2-5)] assms(1,4) by (simp add: sched_insert_ready0_def check_qlock_held on_queue_eqs)

lemma sched_insert_exit_ok:
  assumes "in_sched k" "processes_ok k qs" "qs Exited = Some xs" "e \<noteq> NULL" "e \<notin> queued qs" "EnableBuffering k = 0"
  shows "returns (sched_insert_exit e k) (\<lambda>k'. processes_ok k' (qs(Exited \<mapsto> e # xs)) \<and>
    unqueued k' = unqueued (set_env_status e ENV_EXIT k))"
  using insert_ok [OF assms(2-5)] assms(1,4,6) by (simp add: sched_insert_exit_def check_qlock_held on_queue_eqs)

lemma sched_remove_new_ok:
  assumes "in_sched k" "processes_ok k qs" "qs New = Some (xs @ e # ys)" "e \<noteq> NULL"
  shows "returns (sched_remove_new e k) (\<lambda>k'. processes_ok k' (qs(New \<mapsto> xs @ ys)) \<and> e \<notin> queued (qs(New \<mapsto> xs @ ys)) \<and>
    (\<exists>k1. k' = set_env_status e ENV_UNKNOWN k1 \<and> unqueued k1 = unqueued k))"
proof -
  have "env_status (envs k e) = ENV_NEW" using assms(2,3) statuses_okD [of k qs New] by (simp add: processes_ok_def)
  then show ?thesis
    using take_ok [OF assms(2,3), of ENV_UNKNOWN] assms(1,4)
    by (auto simp: sched_remove_new_def check_qlock_held on_queue_eqs returns_iff)
qed

section \<open>With the lock taken and released\<close>

lemma statuses_ok_envs: "envs k' = envs k \<Longrightarrow> statuses_ok k' qs = statuses_ok k qs"
  by (simp add: statuses_ok_def)

lemma processes_ok_locks [simp]:
  "processes_ok (with_qlock_taken k) qs = processes_ok k qs" "processes_ok (unlocked k) qs = processes_ok k qs"
  using statuses_ok_envs [of "with_qlock_taken k" k] statuses_ok_envs [of "unlocked k" k]
  by (simp_all add: processes_ok_def)

lemma head_of_qlock_taken [simp]: "head_of (with_qlock_taken k) q = head_of k q"
  by (cases q) (simp_all add: with_qlock_taken_def)

lemma kern_of_qlock_taken [simp]:
  "env_new_queue (with_qlock_taken k) = env_new_queue k" "env_exit_queue (with_qlock_taken k) = env_exit_queue k"
  "env_ready_queues (with_qlock_taken k) = env_ready_queues k" "num_of_ready_queues (with_qlock_taken k) = num_of_ready_queues k"
  "scheduler_status (kcpu (with_qlock_taken k)) = scheduler_status (kcpu k)" "EnableBuffering (with_qlock_taken k) = EnableBuffering k"
  by (simp_all add: with_qlock_taken_def pushcli_def cli_def Let_def)

lemma unqueued_status_eqD:
  assumes "unqueued k' = unqueued (set_env_status e s k)"
  shows "in_sched k' = in_sched k" "kcpu k' = kcpu k" "env_status (envs k' x) = (if x = e then s else env_status (envs k x))"
    "env_id (envs k' x) = env_id (envs k x)" "priority (envs k' x) = priority (envs k x)"
    "num_of_ready_queues k' = num_of_ready_queues k" "EnableBuffering k' = EnableBuffering k"
  using in_sched_unqueued [OF assms] unqueued_eqD [OF assms] unqueued_envD [OF assms, of x] by simp_all

lemma sched_new_env_ok:
  assumes "in_process k" "processes_ok k qs" "qs New = Some xs" "e \<noteq> NULL" "e \<notin> queued qs"
  shows "returns (sched_new_env e k)
    (\<lambda>k'. in_process k' \<and> processes_ok k' (qs(New \<mapsto> e # xs)) \<and> env_status (envs k' e) = ENV_NEW)"
proof -
  note a = acquire_qlock_free [OF assms(1), folded with_qlock_taken_def]
  from sched_insert_new_ok [OF a(2), of qs xs e] assms obtain k1 where
    k1: "sched_insert_new e (with_qlock_taken k) = Some k1" "processes_ok k1 (qs(New \<mapsto> e # xs))"
      "unqueued k1 = unqueued (set_env_status e ENV_NEW (with_qlock_taken k))" by (auto simp: returns_iff)
  have "in_sched k1" using unqueued_status_eqD(1) [OF k1(3)] a(2) by simp
  from release_qlock_held [OF this] unqueued_status_eqD(3) [OF k1(3), of e] show ?thesis
    using k1 assms(4) by (simp add: sched_new_env_def a(1))
qed

section \<open>Starting one process\<close>

lemma dll_new: "processes_ok k qs \<Longrightarrow> qs q = Some xs \<Longrightarrow> dll env_links (envs k) (head_of k q) xs"
  by (simp add: processes_ok_def queues_ok_def)

lemma new_to_ready_ok:
  assumes s: "in_sched k" and ok: "processes_ok k qs" and q: "qs New = Some (xs @ e # ys)" "qs (Ready (unat (priority (envs k e)))) = Some zs"
  shows "returns (do { k1 \<leftarrow> sched_remove_new e k; sched_insert_ready e k1 }) (\<lambda>k'. in_sched k' \<and>
    processes_ok k' (qs(New \<mapsto> xs @ ys, Ready (unat (priority (envs k e))) \<mapsto> e # zs)) \<and> kcpu k' = kcpu k \<and>
    env_status (envs k' e) = ENV_READY \<and> (\<forall>x. priority (envs k' x) = priority (envs k x)))"
proof -
  have e: "e \<noteq> NULL" using dll_new [OF ok q(1)] by (auto simp: dll_def)
  from sched_remove_new_ok [OF s ok q(1) e] obtain k1 k2 where
    k1: "sched_remove_new e k = Some k1" "processes_ok k1 (qs(New \<mapsto> xs @ ys))" "e \<notin> queued (qs(New \<mapsto> xs @ ys))"
      "k1 = set_env_status e ENV_UNKNOWN k2" "unqueued k2 = unqueued k" by (auto simp: returns_iff)
  have s1: "in_sched k1" "kcpu k1 = kcpu k" using in_sched_unqueued [OF k1(5)] unqueued_eqD(1) [OF k1(5)] s k1(4) by simp_all
  have p1: "priority (envs k1 x) = priority (envs k x)" for x using unqueued_envD(3) [OF k1(5), of x] k1(4) by simp
  have "(qs(New \<mapsto> xs @ ys)) (Ready (unat (priority (envs k1 e)))) = Some zs" using q(2) p1 by simp
  from sched_insert_ready_ok [OF s1(1) k1(2) this e k1(3)] show ?thesis
    unfolding k1(1) bind.bind_lunit
  proof (rule returns_mono, elim conjE)
    fix k3 assume k3: "processes_ok k3 (qs(New \<mapsto> xs @ ys, Ready (unat (priority (envs k1 e))) \<mapsto> e # zs))"
      "unqueued k3 = unqueued (set_env_status e ENV_READY k1)"
    from k3(1) show "in_sched k3 \<and> processes_ok k3 (qs(New \<mapsto> xs @ ys, Ready (unat (priority (envs k e))) \<mapsto> e # zs)) \<and>
        kcpu k3 = kcpu k \<and> env_status (envs k3 e) = ENV_READY \<and> (\<forall>x. priority (envs k3 x) = priority (envs k x))"
      using unqueued_status_eqD(1-3,5) [OF k3(2)] s1 p1 by simp
  qed
qed

lemma sched_run_env_found:
  assumes "in_process k" "processes_ok k qs" and q: "qs New = Some (xs @ e # ys)" "qs (Ready (unat (priority (envs k e)))) = Some zs"
    and e: "env_id (envs k e) = i" "\<And>x. x \<in> set xs \<Longrightarrow> env_id (envs k x) \<noteq> i" and st: "scheduler_status (kcpu k) \<noteq> SCH_STOPPED"
  shows "\<exists>k'. sched_run_env i k = Some (Returns k') \<and> in_process k' \<and>
    processes_ok k' (qs(New \<mapsto> xs @ ys, Ready (unat (priority (envs k e))) \<mapsto> e # zs)) \<and> env_status (envs k' e) = ENV_READY"
proof -
  note a = acquire_qlock_free [OF assms(1), folded with_qlock_taken_def]
  let ?k = "with_qlock_taken k"
  from new_to_ready_ok [OF a(2), of qs xs e ys zs] assms(2) q obtain k1 k2 where
    k1: "sched_remove_new e ?k = Some k1" "sched_insert_ready e k1 = Some k2" "in_sched k2"
      "processes_ok k2 (qs(New \<mapsto> xs @ ys, Ready (unat (priority (envs k e))) \<mapsto> e # zs))" "kcpu k2 = kcpu ?k"
      "env_status (envs k2 e) = ENV_READY" by (auto simp: returns_iff bind_eq_Some_conv)
  have d: "dll env_links (envs ?k) (env_new_queue ?k) (xs @ e # ys)" using dll_new [OF assms(2) q(1)] by simp
  let ?body = "\<lambda>e (s, k). if env_id (envs k e) = i then do {
       k1 \<leftarrow> sched_remove_new e k; k2 \<leftarrow> sched_insert_ready e k1; Some (True, scheduler_status (kcpu k2) = SCH_STOPPED, k2) }
     else Some (False, s, k)"
  have "LIST_FOREACH (\<lambda>(s, k) x. env_next (envs k x)) ?body (first_or NULL (xs @ e # ys)) (False, ?k) = Some (e, False, k2)"
    using d e k1(1,2,5) st by (intro foreach_hit [where s = "envs ?k" and ops = env_links]) (auto simp: dll_def)
  moreover have "first_or NULL (xs @ e # ys) = lh_first (env_new_queue ?k)" using d by (simp add: dll_def)
  ultimately show ?thesis
    using release_qlock_held [OF k1(3)] k1(4,6) by (simp add: sched_run_env_def a(1))
qed

lemma sched_run_env_missing:
  assumes "in_process k" "processes_ok k qs" and q: "qs New = Some xs" and e: "\<And>x. x \<in> set xs \<Longrightarrow> env_id (envs k x) \<noteq> i"
  shows "\<exists>k'. sched_run_env i k = Some (Returns k') \<and> in_process k' \<and> processes_ok k' qs \<and> envs k' = envs k"
proof -
  note a = acquire_qlock_free [OF assms(1), folded with_qlock_taken_def]
  let ?k = "with_qlock_taken k"
  have d: "dll env_links (envs ?k) (env_new_queue ?k) xs" using dll_new [OF assms(2) q(1)] by simp
  let ?body = "\<lambda>e (s, k). if env_id (envs k e) = i then do {
       k1 \<leftarrow> sched_remove_new e k; k2 \<leftarrow> sched_insert_ready e k1; Some (True, scheduler_status (kcpu k2) = SCH_STOPPED, k2) }
     else Some (False, s, k)"
  have "LIST_FOREACH (\<lambda>(s, k) x. env_next (envs k x)) ?body (first_or NULL xs) (False, ?k) = Some (NULL, False, ?k)"
    using d e by (intro foreach_none [where s = "envs ?k" and ops = env_links]) (auto simp: dll_def)
  moreover have "first_or NULL xs = lh_first (env_new_queue ?k)" using d by (simp add: dll_def)
  ultimately show ?thesis
    using release_qlock_held [OF a(2)] assms(2) by (simp add: sched_run_env_def a(1))
qed

section \<open>Starting all processes\<close>

lemma run_all_loop_ok:
  assumes "in_sched k" "processes_ok k qs" "qs New = Some xs" "qs (Ready 0) = Some ys" "\<And>x. x \<in> set xs \<Longrightarrow> priority (envs k x) = 0"
  shows "returns (run_all_loop (length xs) k) (\<lambda>k'. in_sched k' \<and> processes_ok k' (qs(New \<mapsto> [], Ready 0 \<mapsto> xs @ ys)) \<and> kcpu k' = kcpu k)"
  using assms
proof (induction xs arbitrary: k qs ys rule: rev_induct)
  case Nil
  then show ?case by (simp add: fun_upd_idem)
next
  case (snoc e xs)
  have qok: "queues_ok k qs" "statuses_ok k qs" using snoc.prems(2) by (simp_all add: processes_ok_def)
  from dequeue_last [OF qok(1) snoc.prems(3)] obtain h t where
    h: "dequeue (Some (env_new_queue k)) (envs k) = Some (e, Some h, t)" "e \<noteq> NULL"
      "queues_ok (k\<lparr>env_new_queue := h, envs := t\<rparr>) (qs(New \<mapsto> xs))" "unqueued (k\<lparr>env_new_queue := h, envs := t\<rparr>) = unqueued k"
    by auto
  let ?k1 = "k\<lparr>env_new_queue := h, envs := t\<rparr>"
  have d: "e \<notin> set xs" using dll_new [OF snoc.prems(2,3)] by (simp add: dll_def)
  have el: "e \<notin> queued (qs(New := None))" using not_queued_elsewhere [OF qok(1) snoc.prems(3)] by simp
  have en: "e \<notin> queued (qs(New \<mapsto> xs))" using el d by (auto simp: queued_iff split: if_splits)
  have "statuses_ok ?k1 (qs(New \<mapsto> xs))"
    by (rule statuses_ok_update [where e = e and s = "env_status (envs ?k1 e)" and k = k and qs = qs and q = New and xs = "xs @ [e]"])
      (use qok(2) snoc.prems(3) el d unqueued_envD(1) [OF h(4)] in auto)
  with h(3) have ok1: "processes_ok ?k1 (qs(New \<mapsto> xs))" by (simp add: processes_ok_def)
  have s1: "in_sched ?k1" using in_sched_unqueued [OF h(4)] snoc.prems(1) by simp
  have p1: "priority (envs ?k1 x) = priority (envs k x)" for x using unqueued_envD(3) [OF h(4)] .
  have p0: "priority (envs ?k1 e) = 0" using p1 [of e] snoc.prems(5) by simp
  have r0: "(qs(New \<mapsto> xs)) (Ready (unat (priority (envs ?k1 e)))) = Some ys" using snoc.prems(4) unfolding p0 by simp
  from sched_insert_ready_ok [OF s1 ok1 r0 h(2) en] obtain k2 where
    k2: "sched_insert_ready e ?k1 = Some k2" "processes_ok k2 (qs(New \<mapsto> xs, Ready 0 \<mapsto> e # ys))"
      "unqueued k2 = unqueued (set_env_status e ENV_READY ?k1)"
    unfolding p0 by (auto simp: returns_iff)
  note u = unqueued_status_eqD [OF k2(3)]
  have p2: "priority (envs k2 x) = 0" if "x \<in> set xs" for x using u(5) [of x] p1 [of x] snoc.prems(5) [of x] that by simp
  have s2: "in_sched k2" "kcpu k2 = kcpu k" using u(1,2) s1 by simp_all
  have "(qs(New \<mapsto> xs, Ready 0 \<mapsto> e # ys)) New = Some xs" "(qs(New \<mapsto> xs, Ready 0 \<mapsto> e # ys)) (Ready 0) = Some (e # ys)" by simp_all
  note ih = snoc.IH [OF s2(1) k2(2) this p2]
  have eq: "qs(New \<mapsto> xs, Ready 0 \<mapsto> e # ys, New \<mapsto> [], Ready 0 \<mapsto> xs @ e # ys) = qs(New \<mapsto> [], Ready 0 \<mapsto> (xs @ [e]) @ ys)"
    by (auto simp: fun_eq_iff)
  show ?case using ih h(1) k2(1) unfolding eq s2(2) by (simp del: fun_upd_apply)
qed

lemma sched_run_all_ok:
  assumes "in_process k" "processes_ok k qs" "qs New = Some xs" "qs (Ready 0) = Some ys" "\<And>x. x \<in> set xs \<Longrightarrow> priority (envs k x) = 0"
    and st: "scheduler_status (kcpu k) = SCH_STOPPED" and n: "length xs < 2 ^ 32" and fl: "eflags (kcpu k) AND FL_IF = 0"
  shows "\<exists>k'. sched_run_all k = Some (Schedules k') \<and> processes_ok k' (qs(New \<mapsto> [], Ready 0 \<mapsto> xs @ ys)) \<and>
    cpu_proc (kcpu k') = NULL \<and> scheduler_status (kcpu k') = SCH_STARTED"
proof -
  note a = acquire_qlock_free [OF assms(1), folded with_qlock_taken_def]
  let ?k = "with_qlock_taken k"
  have d: "unat (lh_size (env_new_queue ?k)) = length xs" using dll_new [OF assms(2,3)] n by (simp add: dll_def unat_of_nat)
  from run_all_loop_ok [OF a(2), of qs xs ys] assms obtain k1 where
    k1: "run_all_loop (length xs) ?k = Some k1" "in_sched k1" "processes_ok k1 (qs(New \<mapsto> [], Ready 0 \<mapsto> xs @ ys))" "kcpu k1 = kcpu ?k"
    by (auto simp: returns_iff)
  have i0: "intena (kcpu ?k) = 0" using assms(1) fl by (simp add: in_process_def pushcli_def cli_def Let_def)
  then have "eflags (kcpu (unlocked k1)) AND FL_IF = 0" using k1(2,4) by (simp add: unlocked_def in_sched_def cpu_ok_def)
  moreover have "processes_ok (unlocked k1) (qs(New \<mapsto> [], Ready 0 \<mapsto> xs @ ys))" using k1(3) by simp
  moreover have "scheduler_status (kcpu (unlocked k1)) = SCH_STOPPED" using k1(4) st by simp
  ultimately show ?thesis
    using release_qlock_held [OF k1(2)] k1(1) d statuses_ok_envs
    by (simp add: sched_run_all_def a(1) fos_scheduler_start_def processes_ok_def statuses_ok_def)
qed

section \<open>Exiting\<close>

text \<open>
  The search of the NEW queue in \<^verbatim>\<open>sched_exit_env\<close> has no \<^verbatim>\<open>break\<close>: the loop
  variable is \<^verbatim>\<open>NULL\<close> after it, also when the process was found and taken off the queue.
\<close>

lemma foreach_keeps:
  assumes "LIST_FOREACH nxt body x st = Some (y, st')" "I st" "\<And>x st b st'. body x st = Some (b, st') \<Longrightarrow> I st \<Longrightarrow> I st' \<and> (brk \<or> \<not> b)"
  shows "I st' \<and> (brk \<or> y = NULL)"
proof -
  let ?P = "\<lambda>nxt body x st r. I st \<longrightarrow> (\<forall>x st b st'. body x st = Some (b, st') \<longrightarrow> I st \<longrightarrow> I st' \<and> (brk \<or> \<not> b)) \<longrightarrow>
    I (snd r) \<and> (brk \<or> fst r = NULL)"
  have "?P nxt body x st (y, st')"
  proof (rule LIST_FOREACH.raw_induct [OF _ assms(1)], intro impI)
    fix F :: "('a \<Rightarrow> ptr \<Rightarrow> ptr) \<Rightarrow> (ptr \<Rightarrow> 'a \<Rightarrow> (bool \<times> 'a) option) \<Rightarrow> ptr \<Rightarrow> 'a \<Rightarrow> (ptr \<times> 'a) option"
    fix nxt body var s r
    assume ih: "\<And>nxt body var s r. F nxt body var s = Some r \<Longrightarrow> ?P nxt body var s r"
      and r: "(if var = NULL then Some (NULL, s)
        else let ptr_next = nxt s var in do { (brk, s') \<leftarrow> body var s; if brk then Some (var, s') else F nxt body ptr_next s' }) = Some r"
      and i: "I s" and b: "\<forall>x st b st'. body x st = Some (b, st') \<longrightarrow> I st \<longrightarrow> I st' \<and> (brk \<or> \<not> b)"
    show "I (snd r) \<and> (brk \<or> fst r = NULL)"
    proof (cases "var = NULL")
      case True
      then show ?thesis using r i by auto
    next
      case False
      with r obtain c s' where c: "body var s = Some (c, s')" "(if c then Some (var, s') else F nxt body (nxt s var) s') = Some r"
        by (auto simp: Let_def bind_eq_Some_conv)
      have "I s' \<and> (brk \<or> \<not> c)" using b c(1) i by blast
      then show ?thesis using c(2) ih [of nxt body "nxt s var" s' r] b by (cases c) auto
    qed
  qed
  then show ?thesis using assms(2,3) by simp
qed

lemma foreach_skip:
  assumes "dseg ops s p (xs @ ys) q" "NULL \<notin> set xs"
    and "\<And>x. x \<in> set xs \<Longrightarrow> nxt st x = le_next ops s x \<and> body x st = Some (False, st)"
  shows "LIST_FOREACH nxt body (first_or q (xs @ ys)) st = LIST_FOREACH nxt body (first_or q ys) st"
  using assms
proof (induction xs arbitrary: p)
  case (Cons x xs)
  then have "LIST_FOREACH nxt body (first_or q (xs @ ys)) st = LIST_FOREACH nxt body (first_or q ys) st" by auto
  with Cons.prems show ?case by (subst LIST_FOREACH.simps) auto
qed simp

lemma take_from_new_loses:
  assumes d: "dll env_links (envs k) (env_new_queue k) xs" and e: "e \<in> set xs" "env_id (envs k e) = i"
    and r: "take_from_new False i k = Some (y, f, k')"
  shows "y = NULL \<and> f"
proof -
  define body where "body = (\<lambda>e (found, k). if env_id (envs k e) = i then do { k1 \<leftarrow> sched_remove_new e k; Some (False, True, k1) }
     else Some (False, found :: bool, k))"
  have r': "LIST_FOREACH (\<lambda>(found, k) x. env_next (envs k x)) body (lh_first (env_new_queue k)) (False, k) = Some (y, f, k')"
    using r by (simp add: take_from_new_def body_def)
  have bf: "\<not> b" if "body x st = Some (b, st')" for x st b st'
    using that by (cases st) (auto simp: body_def bind_eq_Some_conv split: if_splits)
  have "y = NULL" using foreach_keeps [OF r', of "\<lambda>_. True" False] bf by blast
  obtain us x vs where xs: "xs = us @ x # vs" "env_id (envs k x) = i" "\<forall>u \<in> set us. env_id (envs k u) \<noteq> i"
    using split_list_first_propE [of xs "\<lambda>x. env_id (envs k x) = i"] e by blast
  have "lh_first (env_new_queue k) = first_or NULL (us @ x # vs)" using d xs(1) by (simp add: dll_def)
  then have "LIST_FOREACH (\<lambda>(found, k) x. env_next (envs k x)) body (lh_first (env_new_queue k)) (False, k) =
      LIST_FOREACH (\<lambda>(found, k) x. env_next (envs k x)) body x (False, k)"
    using foreach_skip [of env_links "envs k" NULL us "x # vs" NULL "\<lambda>(found, k) x. env_next (envs k x)" "(False, k)" body] d xs
    by (auto simp: dll_def body_def)
  then have "LIST_FOREACH (\<lambda>(found, k) x. env_next (envs k x)) body x (False, k) = Some (y, f, k')" using r' by simp
  moreover have "x \<noteq> NULL" using d xs(1) by (auto simp: dll_def)
  ultimately obtain k1 where
    "LIST_FOREACH (\<lambda>(found, k) x. env_next (envs k x)) body (env_next (envs k x)) (True, k1) = Some (y, f, k')"
    using xs(2) by (subst (asm) LIST_FOREACH.simps) (auto simp: body_def bind_eq_Some_conv)
  moreover have "fst st' \<and> (True \<or> \<not> b)" if "body x st = Some (b, st')" "fst st" for x st b st'
    using that by (cases st) (auto simp: body_def bind_eq_Some_conv split: if_splits)
  ultimately have f using foreach_keeps [of "\<lambda>(found, k) x. env_next (envs k x)" body _ "(True, k1)" y "(f, k')" fst True] by auto
  with \<open>y = NULL\<close> show ?thesis by simp
qed

lemma sched_insert_exit_NULL: "sched_insert_exit NULL k = None"
  by (cases "check_qlock k") (simp_all add: sched_insert_exit_def)

lemma sched_exit_env_new_panics:
  assumes "in_process k" "processes_ok k qs" "qs New = Some xs" "e \<in> set xs" "env_id (envs k e) = i"
  shows "sched_exit_env i k = None"
proof -
  have "lk_locked (qlock k) = 0" "cpu_ok (kcpu k)" using assms(1) by (simp_all add: in_process_def)
  have h: "holding_qlock k = Some (False, k\<lparr>kcpu := peeked (kcpu k)\<rparr>)"
    using assms(1) by (simp add: holding_qlock_def with_cpu_def in_process_def holding_spinlock_eq)
  let ?k = "k\<lparr>kcpu := peeked (kcpu k)\<rparr>"
  have p: "in_process ?k" using assms(1) by simp
  note a = acquire_qlock_free [OF p, folded with_qlock_taken_def]
  have d: "dll env_links (envs (with_qlock_taken ?k)) (env_new_queue (with_qlock_taken ?k)) xs"
    using dll_new [OF assms(2,3)] by simp
  show ?thesis
  proof (cases "take_from_new False i (with_qlock_taken ?k)")
    case None
    then show ?thesis by (simp add: sched_exit_env_def h a(1))
  next
    case (Some r)
    obtain y f k3 where r: "r = (y, f, k3)" by (cases r)
    have "y = NULL" "f" using take_from_new_loses [OF d assms(4), of i y f k3] Some r assms(5) by auto
    then show ?thesis
      using Some r by (cases "cur_proc k3") (auto simp: sched_exit_env_def h a(1) sched_insert_exit_NULL Let_def)
  qed
qed

text \<open>A running process that exits joins the exited ones and gives up the CPU.\<close>

lemma take_from_ready_none:
  assumes "\<And>j. i \<le> j \<Longrightarrow> j < i + n \<Longrightarrow> \<exists>xs. dll env_links (envs k) (env_ready_queues k j) xs \<and> (\<forall>x \<in> set xs. env_id (envs k x) \<noteq> envId)"
  shows "\<exists>e'. take_from_ready i n envId e k = Some (e', False, k)"
  using assms
proof (induction n arbitrary: i e)
  case (Suc n)
  obtain xs where xs: "dll env_links (envs k) (env_ready_queues k i) xs" "\<forall>x \<in> set xs. env_id (envs k x) \<noteq> envId"
    using Suc.prems [of i] by auto
  define body where "body = (\<lambda>e (found, k). if env_id (envs k e) = envId then do { k1 \<leftarrow> on_ready_queue i (LIST_REMOVE env_links e) k;
      Some (True, True, k1) } else Some (False, found :: bool, k))"
  have l: "LIST_FOREACH (\<lambda>(found, k) x. env_next (envs k x)) body (first_or NULL xs) (False, k) = Some (NULL, False, k)"
    using xs by (intro foreach_none [where s = "envs k" and ops = env_links]) (auto simp: dll_def body_def)
  have "lh_first (env_ready_queues k i) = first_or NULL xs" using xs(1) by (simp add: dll_def)
  then have "take_from_ready i (Suc n) envId e k =
      take_from_ready (Suc i) n envId (if \<not> LIST_EMPTY (env_ready_queues k i) then NULL else e) k"
    using l by (simp add: body_def)
  moreover have "\<exists>xs. dll env_links (envs k) (env_ready_queues k j) xs \<and> (\<forall>x \<in> set xs. env_id (envs k x) \<noteq> envId)"
    if "Suc i \<le> j" "j < Suc i + n" for j
    using Suc.prems [of j] that by simp
  ultimately show ?case using Suc.IH [of "Suc i"] by metis
qed simp

lemma exit_running_ok:
  assumes "in_process k" "processes_ok k qs" and e: "cpu_proc (kcpu k) = e" "e \<noteq> NULL" "e \<notin> queued qs"
    and new: "qs New = Some ns" "\<And>x. x \<in> set ns \<Longrightarrow> env_id (envs k x) \<noteq> env_id (envs k e)"
    and rdy: "\<And>j. j < unat (num_of_ready_queues k) \<Longrightarrow> \<exists>xs. qs (Ready j) = Some xs \<and> (\<forall>x \<in> set xs. env_id (envs k x) \<noteq> env_id (envs k e))"
    and ex: "qs Exited = Some xs" and b: "EnableBuffering k = 0"
  shows "\<exists>saved k'. env_exit k = Some (Gives_up saved k') \<and> in_sched k' \<and> processes_ok k' (qs(Exited \<mapsto> e # xs)) \<and>
    env_status (envs k' e) = ENV_EXIT \<and> same_memory k' k"
proof -
  let ?i = "env_id (envs k e)" let ?peek = "k\<lparr>kcpu := peeked (kcpu k)\<rparr>" let ?k = "with_qlock_taken ?peek"
  have p: "in_process ?peek" using assms(1) by simp
  have h: "holding_qlock ?peek = Some (False, ?peek)"
    using p by (simp add: holding_qlock_def with_cpu_def in_process_def holding_spinlock_eq)
  note a = acquire_qlock_free [OF p, folded with_qlock_taken_def]
  have ok: "processes_ok ?k qs" using assms(2) statuses_ok_envs [of ?k k] by (simp add: processes_ok_def)
  have d: "dll env_links (envs ?k) (env_new_queue ?k) ns" using dll_new [OF ok new(1)] by simp
  have "LIST_FOREACH (\<lambda>(found, k) x. env_next (envs k x)) (\<lambda>e (found, k).
          if env_id (envs k e) = ?i then do { k1 \<leftarrow> sched_remove_new e k; Some (False, True, k1) }
          else Some (False, found, k)) (first_or NULL ns) (False, ?k) = Some (NULL, False, ?k)"
    using d new(2) by (intro foreach_none [where s = "envs ?k" and ops = env_links]) (auto simp: dll_def)
  moreover have "lh_first (env_new_queue ?k) = first_or NULL ns" using d by (simp add: dll_def)
  ultimately have n: "take_from_new False ?i ?k = Some (NULL, False, ?k)" by (simp add: take_from_new_def)
  have "\<exists>xs. dll env_links (envs ?k) (env_ready_queues ?k j) xs \<and> (\<forall>x \<in> set xs. env_id (envs ?k x) \<noteq> ?i)"
    if "j < unat (num_of_ready_queues k)" for j
    using rdy [OF that] dll_new [OF ok, of "Ready j"] by auto
  then obtain e' where r: "take_from_ready 0 (unat (num_of_ready_queues k)) ?i NULL ?k = Some (e', False, ?k)"
    using take_from_ready_none [of 0 "unat (num_of_ready_queues k)" ?k ?i NULL] by auto
  have c: "cur_proc ?k = Some (e, ?k)" using cur_proc_held [OF a(2)] e(1) by simp
  have x: "returns (sched_insert_exit e ?k) (\<lambda>k'. processes_ok k' (qs(Exited \<mapsto> e # xs)) \<and> unqueued k' = unqueued (set_env_status e ENV_EXIT ?k))"
    using sched_insert_exit_ok [OF a(2) ok ex e(2,3)] b by simp
  then obtain k6 where k6: "sched_insert_exit e ?k = Some k6" "processes_ok k6 (qs(Exited \<mapsto> e # xs))"
    "unqueued k6 = unqueued (set_env_status e ENV_EXIT ?k)" by (auto simp: returns_iff)
  note u = unqueued_status_eqD [OF k6(3)]
  have s: "in_sched k6" "cpu_proc (kcpu k6) = e" "env_status (envs k6 e) = ENV_EXIT" using u(1-3) a(2) e(1) by simp_all
  have "sched_enter k6 = Some (intena (kcpu k6), k6)" using sched_enter_held [OF s(1)] s(2,3) e(2) by simp
  then have "sched_exit_env ?i ?peek = Some (Gives_up (intena (kcpu k6)) k6)"
    using u(4) [of e] e(2) by (simp add: sched_exit_env_def h a(1) n r c k6(1) Let_def)
  moreover have "same_memory k6 k"
    using unqueued_memory [OF k6(3)] by (simp add: same_memory_def set_env_status_def update_env_def with_qlock_taken_def)
  ultimately show ?thesis using s k6(2) e(2) cur_proc_process [OF assms(1)] e(1) by (simp add: env_exit_def)
qed

section \<open>The properties\<close>

text \<open>A new process arrives at the head of the NEW queue: with the queue lock free and the process
  queues, links and statuses consistent, \<^verbatim>\<open>sched_new_env\<close> of a process in no queue does not
  panic, leaves the lock free and keeps the invariant of all queues.\<close>

theorem sched_new_env_correct:
  assumes "in_process k" "processes_ok k qs" "qs New = Some xs" "e \<noteq> NULL" "e \<notin> queued qs"
  shows "returns (sched_new_env e k)
    (\<lambda>k'. in_process k' \<and> processes_ok k' (qs(New \<mapsto> e # xs)) \<and> env_status (envs k' e) = ENV_NEW)"
  by (rule sched_new_env_ok [OF assms])

definition run_env_outcome :: "u32 \<Rightarrow> kern \<Rightarrow> qlists \<Rightarrow> kern \<Rightarrow> bool" where
  "run_env_outcome i k qs k' \<longleftrightarrow>
    (case dropWhile (\<lambda>x. env_id (envs k x) \<noteq> i) (the (qs New)) of
       [] \<Rightarrow> processes_ok k' qs \<and> envs k' = envs k
     | e # ys \<Rightarrow> env_status (envs k' e) = ENV_READY \<and>
        (let r = Ready (unat (priority (envs k e))) in
         processes_ok k' (qs(New \<mapsto> takeWhile (\<lambda>x. env_id (envs k x) \<noteq> i) (the (qs New)) @ ys, r \<mapsto> e # the (qs r)))))"

text \<open>C9: \<^verbatim>\<open>sched_run_env\<close> with the scheduler running: if a process of the NEW queue has the
  number, the first such process moves to the ready queue of its priority and becomes READY;
  otherwise no process changes. Either way it returns with the lock free and all queues consistent.\<close>

theorem sched_run_env_correct:
  assumes "in_process k" "processes_ok k qs" "qs New = Some xs" "scheduler_status (kcpu k) \<noteq> SCH_STOPPED"
    and r: "\<And>x. x \<in> set xs \<Longrightarrow> qs (Ready (unat (priority (envs k x)))) \<noteq> None"
  shows "\<exists>k'. sched_run_env i k = Some (Returns k') \<and> in_process k' \<and> run_env_outcome i k qs k'"
proof (cases "dropWhile (\<lambda>x. env_id (envs k x) \<noteq> i) xs")
  case Nil
  then have "env_id (envs k x) \<noteq> i" if "x \<in> set xs" for x using that unfolding dropWhile_eq_Nil_conv by blast
  from sched_run_env_missing [OF assms(1-3) this] obtain k' where
    k': "sched_run_env i k = Some (Returns k')" "in_process k'" "processes_ok k' qs" "envs k' = envs k" by blast
  then have "run_env_outcome i k qs k'" unfolding run_env_outcome_def assms(3) option.sel Nil list.case by blast
  then show ?thesis using k'(1,2) by blast
next
  case (Cons e ys)
  let ?us = "takeWhile (\<lambda>x. env_id (envs k x) \<noteq> i) xs"
  have xs: "xs = ?us @ e # ys" using Cons by (metis takeWhile_dropWhile_id)
  have q: "qs New = Some (?us @ e # ys)" using assms(3) xs by simp
  have "e \<in> set xs" by (subst xs) simp
  then obtain zs where z: "qs (Ready (unat (priority (envs k e)))) = Some zs" using r by blast
  have "env_id (envs k e) = i" using Cons hd_dropWhile [of "\<lambda>x. env_id (envs k x) \<noteq> i" xs] by simp
  moreover have "\<And>x. x \<in> set ?us \<Longrightarrow> env_id (envs k x) \<noteq> i" by (blast dest: set_takeWhileD)
  ultimately obtain k' where k': "sched_run_env i k = Some (Returns k')" "in_process k'"
      "processes_ok k' (qs(New \<mapsto> ?us @ ys, Ready (unat (priority (envs k e))) \<mapsto> e # zs))" "env_status (envs k' e) = ENV_READY"
    using sched_run_env_found [OF assms(1,2) q z _ _ assms(4)] by blast
  have "run_env_outcome i k qs k'"
    using k'(3,4) unfolding run_env_outcome_def assms(3) option.sel Cons list.case Let_def z by blast
  then show ?thesis using k'(1,2) by blast
qed

text \<open>Starting everything keeps the order of arrival: \<^verbatim>\<open>sched_run_all\<close> empties the NEW queue into
  the tail-first end of the first ready queue, oldest first, for any number of processes, then
  starts the scheduler with interrupts off and no current process.\<close>

theorem sched_run_all_in_order:
  assumes "in_process k" "processes_ok k qs" "qs New = Some xs" "qs (Ready 0) = Some ys" "\<forall>x \<in> set xs. priority (envs k x) = 0"
    and "scheduler_status (kcpu k) = SCH_STOPPED" "length xs < 2 ^ 32" "eflags (kcpu k) AND FL_IF = 0"
  shows "\<exists>k'. sched_run_all k = Some (Schedules k') \<and> processes_ok k' (qs(New \<mapsto> [], Ready 0 \<mapsto> xs @ ys)) \<and>
    cpu_proc (kcpu k') = NULL \<and> scheduler_status (kcpu k') = SCH_STARTED"
  using sched_run_all_ok [OF assms(1-4) _ assms(6-8)] assms(5) by blast

text \<open>C10: A process that exits leaves the CPU for good: \<^verbatim>\<open>env_exit\<close> of the running process, when no
  waiting process has its number, puts it on the EXIT queue with status EXIT and enters the
  scheduler with the queue lock held and every queue consistent.\<close>

theorem env_exit_correct:
  assumes "in_process k" "processes_ok k qs" "cpu_proc (kcpu k) = e" "e \<noteq> NULL" "e \<notin> queued qs"
    and "qs New = Some ns" "\<forall>x \<in> set ns. env_id (envs k x) \<noteq> env_id (envs k e)"
    and "\<forall>j < unat (num_of_ready_queues k). \<exists>xs. qs (Ready j) = Some xs \<and> (\<forall>x \<in> set xs. env_id (envs k x) \<noteq> env_id (envs k e))"
    and "qs Exited = Some xs" "EnableBuffering k = 0"
  shows "\<exists>saved k'. env_exit k = Some (Gives_up saved k') \<and> in_sched k' \<and> processes_ok k' (qs(Exited \<mapsto> e # xs)) \<and>
    env_status (envs k' e) = ENV_EXIT"
  using exit_running_ok [OF assms(1-6) _ _ assms(9,10)] assms(7,8) by blast

text \<open>A process that was never started cannot be made to exit: the search of the NEW queue in
  \<^verbatim>\<open>sched_exit_env\<close> does not stop at the process it finds, so its loop variable is
  \<^verbatim>\<open>NULL\<close> afterwards and the kernel panics.\<close>

theorem sched_exit_env_of_new_panics:
  assumes "in_process k" "processes_ok k qs" "qs New = Some xs" "e \<in> set xs"
  shows "sched_exit_env (env_id (envs k e)) k = None"
  by (rule sched_exit_env_new_panics [OF assms]) simp

section \<open>Two arrivals\<close>

definition arrival :: "u32 \<Rightarrow> ptr \<Rightarrow> ptr \<Rightarrow> env" where
  "arrival i n p = blank_env\<lparr>env_id := i, env_status := ENV_NEW, env_next := n, env_prev := p\<rparr>"

definition boot_arrivals :: "int \<Rightarrow> kern" where
  "boot_arrivals st = boot_kern\<lparr>kcpu := boot_cpu\<lparr>cpu_proc := 0xEEC00000, scheduler_status := st\<rparr>, num_of_ready_queues := 1,
     envs := (\<lambda>_. blank_env)(0xEEC00400 := arrival 2 0xEEC00800 NULL, 0xEEC00800 := arrival 1 NULL 0xEEC00400,
       0xEEC00000 := (arrival 7 NULL NULL)\<lparr>env_status := ENV_RUNNING\<rparr>),
     env_new_queue := \<lparr>lh_first = 0xEEC00400, lh_last = 0xEEC00800, lh_size = 2\<rparr>,
     env_ready_queues := (\<lambda>_. blank_head), env_exit_queue := blank_head, EnableBuffering := 0\<rparr>"

definition arrivals :: qlists where
  "arrivals = [New \<mapsto> [0xEEC00400, 0xEEC00800], Ready 0 \<mapsto> [], Exited \<mapsto> []]"

lemma arrivals_ok: "processes_ok (boot_arrivals st) arrivals"
proof -
  have "queues_ok (boot_arrivals st) arrivals"
    by (simp add: queues_ok_def dll_def boot_arrivals_def arrival_def blank_env_def last_or_def arrivals_def blank_head_def)
  moreover have "statuses_ok (boot_arrivals st) arrivals"
    by (simp add: statuses_ok_def boot_arrivals_def arrival_def blank_env_def arrivals_def)
  ultimately show ?thesis by (simp add: processes_ok_def)
qed

lemma arrivals_process: "in_process (boot_arrivals st)"
  by (simp add: in_process_def boot_arrivals_def boot_kern_def boot_cpu_def init_spinlock_def cpu_ok_def)

lemma arrivals_queues [simp]:
  "arrivals New = Some [0xEEC00400, 0xEEC00800]" "arrivals (Ready 0) = Some []" "arrivals Exited = Some []"
  "queued arrivals = {0xEEC00400, 0xEEC00800}"
proof -
  show a: "arrivals New = Some [0xEEC00400, 0xEEC00800]" "arrivals (Ready 0) = Some []" "arrivals Exited = Some []"
    by (simp_all add: arrivals_def)
  show "queued arrivals = {0xEEC00400, 0xEEC00800}"
    by (auto simp: queued_def arrivals_def split: if_splits intro: exI [of _ New])
qed

theorem sched_new_env_correct_witness:
  "returns (sched_new_env 0xEEC00C00 (boot_arrivals 1)) (\<lambda>k'. in_process k' \<and>
     processes_ok k' (arrivals(New \<mapsto> [0xEEC00C00, 0xEEC00400, 0xEEC00800])) \<and> env_status (envs k' 0xEEC00C00) = ENV_NEW)"
  by (rule sched_new_env_correct [OF arrivals_process arrivals_ok arrivals_queues(1)]) simp_all

theorem sched_run_env_correct_witness:
  "\<exists>k'. sched_run_env 1 (boot_arrivals 1) = Some (Returns k') \<and> in_process k' \<and> run_env_outcome 1 (boot_arrivals 1) arrivals k'"
  by (rule sched_run_env_correct [OF arrivals_process arrivals_ok arrivals_queues(1)])
    (auto simp: boot_arrivals_def arrival_def blank_env_def arrivals_def)

theorem sched_run_all_in_order_witness:
  "\<exists>k'. sched_run_all (boot_arrivals 0) = Some (Schedules k') \<and>
     processes_ok k' (arrivals(New \<mapsto> [], Ready 0 \<mapsto> [0xEEC00400, 0xEEC00800] @ [])) \<and>
     cpu_proc (kcpu k') = NULL \<and> scheduler_status (kcpu k') = SCH_STARTED"
  by (rule sched_run_all_in_order [OF arrivals_process arrivals_ok arrivals_queues(1,2)])
    (simp_all add: boot_arrivals_def arrival_def blank_env_def boot_cpu_def)

theorem env_exit_correct_witness:
  "\<exists>saved k'. env_exit (boot_arrivals 1) = Some (Gives_up saved k') \<and> in_sched k' \<and>
     processes_ok k' (arrivals(Exited \<mapsto> [0xEEC00000])) \<and> env_status (envs k' 0xEEC00000) = ENV_EXIT"
  by (rule env_exit_correct [OF arrivals_process arrivals_ok _ _ _ arrivals_queues(1) _ _ arrivals_queues(3)])
    (simp_all add: boot_arrivals_def arrival_def blank_env_def boot_cpu_def)

theorem sched_exit_env_of_new_panics_witness:
  "sched_exit_env (env_id (envs (boot_arrivals 1) 0xEEC00800)) (boot_arrivals 1) = None"
  by (rule sched_exit_env_of_new_panics [OF arrivals_process arrivals_ok arrivals_queues(1)]) simp_all

end
