(* ===== verification/FOS_FaultProps.thy ===== *)
theory FOS_FaultProps
  imports FOS_Clock FOS_SchedProps
begin

text \<open>
  What the fault handler does with an access that a user program must not make.
\<close>

lemma note_fault_returns:
  assumes "\<not> (last_fault_va k = va \<and> last_faulted_env k = e \<and> num_repeated_fault k = 2)"
  shows "\<exists>a b n. note_fault tf va e k = Some (k\<lparr>before_last_fault_va := a, before_last_eip := b, num_repeated_fault := n,
    last_eip := tf_eip tf, last_fault_va := va, last_faulted_env := e\<rparr>)"
proof (cases "last_fault_va k = va \<and> last_faulted_env k = e")
  case True
  have "num_repeated_fault k + 1 \<noteq> 3"
  proof
    assume "num_repeated_fault k + 1 = 3"
    then have "num_repeated_fault k = 3 - 1" by (simp only: eq_diff_eq)
    then show False using True assms by simp
  qed
  then show ?thesis using True
    by (intro exI [of _ "before_last_fault_va k"] exI [of _ "before_last_eip k"] exI [of _ "num_repeated_fault k + 1"])
      (simp add: note_fault_def Let_def)
next
  case False
  have "note_fault tf va e k = Some (k\<lparr>before_last_fault_va := last_fault_va k, before_last_eip := last_eip k, num_repeated_fault := 0,
    last_eip := tf_eip tf, last_fault_va := va, last_faulted_env := e\<rparr>)"
    unfolding note_fault_def if_not_P [OF False] by (simp (no_asm))
  then show ?thesis by blast
qed

lemma processes_ok_fields:
  assumes "processes_ok k qs" "envs k' = envs k" "env_new_queue k' = env_new_queue k" "env_exit_queue k' = env_exit_queue k"
    "env_ready_queues k' = env_ready_queues k" "channels k' = channels k"
  shows "processes_ok k' qs"
proof -
  have "head_of k' q = head_of k q" for q by (cases q) (simp_all add: assms)
  then have "queues_ok k' qs = queues_ok k qs" by (simp add: queues_ok_def assms)
  then show ?thesis using assms(1) statuses_ok_envs [of k' k] assms(2) by (simp add: processes_ok_def)
qed


section \<open>Properties\<close>

text \<open>Accesses a user program must not make, in terms of the address and of the bits of its page table entry:
  an address of the kernel; a page of the user heap whose entry has neither the bit of a page handed out (10)
  nor that of a page faulted in (11); a page that is present (0) and not writeable (1).\<close>

definition forbidden :: "u32 \<Rightarrow> u32 \<Rightarrow> bool" where
  "forbidden va entry \<longleftrightarrow> 0xEF800000 \<le> unat va \<or>
    0x80000000 \<le> unat va \<and> unat va < 0xA0000000 \<and> \<not> bit entry 10 \<and> \<not> bit entry 11 \<or>
    bit entry 0 \<and> \<not> bit entry 1"

lemma single_bit_zero_iff: "x AND 2 ^ n = (0 :: u32) \<longleftrightarrow> \<not> bit x n" if "n < 32"
  using that by (simp add: and_exp_eq_0_iff_not_bit)

lemma low_bits: "bit (x AND 0xFFF :: u32) n \<longleftrightarrow> bit x n" if "n < 12"
proof -
  have "bit (x AND mask 12) n \<longleftrightarrow> bit x n" using that by (simp add: bit_and_iff bit_mask_iff)
  then show ?thesis by (simp add: mask_eq_exp_minus_1)
qed

lemma invalid_access_iff: "invalid_access va (entry AND 0xFFF) \<longleftrightarrow> forbidden va entry"
proof -
  have b: "(entry AND 0xFFF) AND 0x400 = 0 \<longleftrightarrow> \<not> bit entry 10" "(entry AND 0xFFF) AND 0x800 = 0 \<longleftrightarrow> \<not> bit entry 11"
    "(entry AND 0xFFF) AND 1 = 0 \<longleftrightarrow> \<not> bit entry 0" "(entry AND 0xFFF) AND 2 = 0 \<longleftrightarrow> \<not> bit entry 1"
    using single_bit_zero_iff [of 10 "entry AND 0xFFF"] single_bit_zero_iff [of 11 "entry AND 0xFFF"]
      single_bit_zero_iff [of 0 "entry AND 0xFFF"] single_bit_zero_iff [of 1 "entry AND 0xFFF"] low_bits [of 10 entry] low_bits [of 11 entry]
      low_bits [of 0 entry] low_bits [of 1 entry] by simp_all
  show ?thesis unfolding invalid_access_def forbidden_def b by (simp add: word_le_nat_alt word_less_nat_alt)
qed

text \<open>C19: A user program cannot fault its way into memory that is not its own: an access to a kernel
  address, to a page of the user heap that was never handed out, or a write to a page mapped read-only
  makes the running process exit. No page table, frame, page of memory or page of the disk changes,
  and the process ends on the EXIT queue with every queue consistent. The page table of the address exists
  (the handler makes a missing one and returns, and the access faults again), and the fault is not the
  fourth in a row of the process at the address, where the kernel stops.\<close>

theorem fault_handler_rejects:
  assumes "in_process k" "processes_ok k qs" "cpu_proc (kcpu k) = e" "e \<noteq> NULL" "e \<notin> queued qs"
    and new: "qs New = Some ns" "\<forall>x \<in> set ns. env_id (envs k x) \<noteq> env_id (envs k e)"
    and rdy: "\<forall>j < unat (num_of_ready_queues k). \<exists>xs. qs (Ready j) = Some xs \<and> (\<forall>x \<in> set xs. env_id (envs k x) \<noteq> env_id (envs k e))"
    and ex: "qs Exited = Some xs" "EnableBuffering k = 0"
    and user: "tf_cs tf AND 3 = 3" "\<not> (USTACKTOP \<le> va \<and> va < USER_TOP)"
    and first: "\<not> (last_fault_va k = va \<and> last_faulted_env k = e \<and> num_repeated_fault k = 2)"
    and table: "get_page_table (env_page_directory (envs k e)) va k = Some (TABLE_IN_MEMORY, pt)" "pt \<noteq> NULL"
    and bad: "0xEF800000 \<le> unat va \<or>
      0x80000000 \<le> unat va \<and> unat va < 0xA0000000 \<and> \<not> bit (words k pt (PTX va)) 10 \<and> \<not> bit (words k pt (PTX va)) 11 \<or>
      bit (words k pt (PTX va)) 0 \<and> \<not> bit (words k pt (PTX va)) 1"
  shows "\<exists>saved k'. fault_handler tf va k = Some (Gives_up saved k') \<and> in_sched k' \<and> processes_ok k' (qs(Exited \<mapsto> e # xs)) \<and>
    env_status (envs k' e) = ENV_EXIT \<and> same_memory k' k"
proof -
  let ?k1 = "k\<lparr>kcpu := peeked (kcpu k)\<rparr>"
  have "\<not> (last_fault_va ?k1 = va \<and> last_faulted_env ?k1 = e \<and> num_repeated_fault ?k1 = 2)" using first by simp
  from note_fault_returns [OF this, of tf] obtain a b n where
    nf: "note_fault tf va e ?k1 = Some (?k1\<lparr>before_last_fault_va := a, before_last_eip := b, num_repeated_fault := n,
      last_eip := tf_eip tf, last_fault_va := va, last_faulted_env := e\<rparr>)" by blast
  define k2 where "k2 = ?k1\<lparr>before_last_fault_va := a, before_last_eip := b, num_repeated_fault := n,
      last_eip := tf_eip tf, last_fault_va := va, last_faulted_env := e\<rparr>"
  have s: "envs k2 = envs k" "words k2 = words k" "frames k2 = frames k" "number_of_frames k2 = number_of_frames k"
    "frames_info k2 = frames_info k" "EnableBuffering k2 = EnableBuffering k" "num_of_ready_queues k2 = num_of_ready_queues k"
    "cpu_proc (kcpu k2) = e"
    using assms(3) by (simp_all add: k2_def)
  have "in_process ?k1" using assms(1) by simp
  then have p2: "in_process k2" by (simp add: in_process_def k2_def)
  have q2: "processes_ok k2 qs" by (rule processes_ok_fields [OF assms(2)]) (simp_all add: k2_def)
  let ?p = "words k pt (PTX va) AND 0xFFF"
  have perm: "pt_get_page_permissions (env_page_directory (envs k2 e)) va k2 = Some ?p"
    using table by (simp add: pt_get_page_permissions_def get_page_table_cong [OF s(4,5,3,2)] s(1,2) cong: if_cong)
  have present: "words k (env_page_directory (envs k e)) (PDX va) AND PERM_PRESENT = PERM_PRESENT"
    using table by (auto simp: get_page_table_def Let_def split: if_splits)
  have inv: "invalid_access va ?p" using bad unfolding invalid_access_iff forbidden_def .
  have "fault_handler tf va k = env_exit k2"
    using cur_proc_process [OF assms(1)] nf [folded k2_def] present user inv perm assms(3,4) s(1,2)
    by (simp add: fault_handler_def page_fault_def stack_checks_def Let_def)
  moreover have "\<exists>saved k'. env_exit k2 = Some (Gives_up saved k') \<and> in_sched k' \<and> processes_ok k' (qs(Exited \<mapsto> e # xs)) \<and>
    env_status (envs k' e) = ENV_EXIT \<and> same_memory k' k2"
    by (rule exit_running_ok [OF p2 q2 s(8) assms(4,5) new(1) _ _ ex(1)]) (use new(2) rdy ex(2) s in auto)
  moreover have "same_memory k' k" if "same_memory k' k2" for k'
    using that by (simp add: same_memory_def k2_def)
  ultimately show ?thesis by metis
qed

section \<open>A wild pointer\<close>

definition boot_wild :: kern where
  "boot_wild = (boot_arrivals 1)\<lparr>
     envs := (envs (boot_arrivals 1))(0xEEC00000 := (envs (boot_arrivals 1) 0xEEC00000)\<lparr>env_page_directory := 0xF0400000\<rparr>)\<rparr>"

text \<open>A program reads an address of the kernel.\<close>

theorem fault_handler_rejects_witness:
  "\<exists>saved k'. fault_handler \<lparr>tf_eip = 0x800020, tf_cs = 0x1B\<rparr> 0xF0000000 boot_wild = Some (Gives_up saved k') \<and> in_sched k' \<and>
    processes_ok k' (arrivals(Exited \<mapsto> [0xEEC00000])) \<and> env_status (envs k' 0xEEC00000) = ENV_EXIT \<and> same_memory k' boot_wild"
proof (rule fault_handler_rejects [OF _ _ _ _ _ arrivals_queues(1) _ _ arrivals_queues(3)])
  show "in_process boot_wild" using arrivals_process [of 1] by (simp add: in_process_def boot_wild_def)
  show "processes_ok boot_wild arrivals"
  proof -
    have "queues_ok boot_wild arrivals"
      by (simp add: queues_ok_def dll_def boot_wild_def boot_arrivals_def arrival_def blank_env_def last_or_def arrivals_def blank_head_def)
    moreover have "statuses_ok boot_wild arrivals"
      by (simp add: statuses_ok_def boot_wild_def boot_arrivals_def arrival_def blank_env_def arrivals_def)
    ultimately show ?thesis by (simp add: processes_ok_def)
  qed
  show "get_page_table (env_page_directory (envs boot_wild 0xEEC00000)) 0xF0000000 boot_wild = Some (TABLE_IN_MEMORY, 0xF03C0000)"
    by (simp add: get_page_table_def boot_wild_def boot_arrivals_def boot_kern_def boot_words_def
        CHECK_IF_KERNEL_ADDRESS_def STATIC_KERNEL_VIRTUAL_ADDRESS_def EXTRACT_ADDRESS_def PPN_def PDX_def PTX_def)
qed (simp_all add: boot_wild_def boot_arrivals_def boot_kern_def arrival_def blank_env_def boot_cpu_def)

end
