(* ===== verification/FOS_UHeapProps.thy ===== *)
theory FOS_UHeapProps
  imports FOS_UHeap FOS_UserMemProps FOS_AllocSpec FOS_KHeapProps FOS_FaultProps
begin

text \<open>
  The heap of a program: \<^verbatim>\<open>malloc\<close> of blocks and pages over the system calls, in the library's
  interface of the block allocator to its provider of pages.
\<close>

section \<open>A system call of the running process\<close>

definition entered :: "kern \<Rightarrow> kern" where
  "entered k = k\<lparr>kcpu := peeked (kcpu k), syscall_env := cpu_proc (kcpu k)\<rparr>"

lemma entered_simps [simp]:
  "envs (entered k) = envs k" "kcpu (entered k) = peeked (kcpu k)" "syscall_env (entered k) = cpu_proc (kcpu k)"
  "UHeapPlacementStrategy (entered k) = UHeapPlacementStrategy k" "words (entered k) = words k"
  "isBufferingEnabled (entered k) = isBufferingEnabled k"
  "in_process k \<Longrightarrow> in_process (entered k)" "entered (entered k) = entered k"
  "(entered k)\<lparr>kcpu := peeked (kcpu k)\<rparr> = entered k"
  by (simp_all add: entered_def isBufferingEnabled_def in_process_def)

lemma entered_tables [simp]:
  "get_page_table dir va (entered k) = get_page_table dir va k" "table_present (entered k) dir va = table_present k dir va"
  "slot (entered k) dir va = slot k dir va" "page_slots (entered k) dir va n = page_slots k dir va n"
  "page_free dir va (entered k) = page_free dir va k"
  by (simp_all add: entered_def page_slots_def page_free_def pt_get_page_permissions_def cong: if_cong)

lemma syscall_entered:
  assumes "in_process k" "cpu_proc (kcpu k) \<noteq> NULL"
  shows "syscall w n a1 a2 a3 a4 a5 k = syscall_cases w n a1 a2 a3 a4 a5 (entered k)"
  using cur_proc_process [OF assms(1)] assms(2) by (simp add: syscall_def entered_def)

section \<open>The program's sbrk provides pages\<close>

text \<open>
  The process has the CPU and its break lies in its heap. Of the pages above the break, those of the block
  part, up to the hard limit, have their page tables, and the others may have none; no two pages with a
  table share an entry.
\<close>

abbreviation running_env :: "kern \<Rightarrow> env" where
  "running_env k \<equiv> envs k (cpu_proc (kcpu k))"

abbreviation ubrk :: "kern \<Rightarrow> nat" where
  "ubrk k \<equiv> unat (USERH_BRK (running_env k))"

definition table_absent :: "kern \<Rightarrow> ptr \<Rightarrow> u32 \<Rightarrow> bool" where
  "table_absent k dir va \<longleftrightarrow> get_page_table dir va k = Some (TABLE_NOT_EXIST, NULL)"

definition heap_tables :: "kern \<Rightarrow> ptr \<Rightarrow> u32 \<Rightarrow> u32 \<Rightarrow> bool" where
  "heap_tables k dir lo hi \<longleftrightarrow>
     (\<forall>va. lo \<le> va \<longrightarrow> va < USER_HEAP_MAX \<longrightarrow> table_present k dir va \<or> hi \<le> va \<and> table_absent k dir va) \<and>
     (\<forall>va va'. lo \<le> va \<longrightarrow> va < USER_HEAP_MAX \<longrightarrow> lo \<le> va' \<longrightarrow> va' < USER_HEAP_MAX \<longrightarrow>
        table_present k dir va \<longrightarrow> table_present k dir va' \<longrightarrow> slot k dir va = slot k dir va' \<longrightarrow> PPN va = PPN va')"

lemma table_absent_other [simp]:
  "table_absent (entered k) dir va = table_absent k dir va" "table_absent (k\<lparr>envs := es\<rparr>) dir va = table_absent k dir va"
  by (simp_all add: table_absent_def)

definition user_ok :: "u32 \<Rightarrow> ptr \<Rightarrow> kern \<Rightarrow> bool" where
  "user_ok st e k \<longleftrightarrow> in_process k \<and> e = cpu_proc (kcpu k) \<and> cpu_proc (kcpu k) \<noteq> NULL \<and> UHeapPlacementStrategy k = st \<and>
     USER_HEAP_START \<le> USERH_BRK (running_env k) \<and> USERH_BRK (running_env k) \<le> USERH_HARD_LIMIT (running_env k) \<and>
     USERH_HARD_LIMIT (running_env k) < USER_HEAP_MAX \<and> heap_tables k (env_page_directory (running_env k)) (USERH_BRK (running_env k)) (USERH_HARD_LIMIT (running_env k))"

lemma user_ok_D:
  assumes "user_ok st e k"
  shows "in_process k" "cpu_proc (kcpu k) \<noteq> NULL" "UHeapPlacementStrategy k = st" "e = cpu_proc (kcpu k)"
    and "heap_tables k (env_page_directory (running_env k)) (USERH_BRK (running_env k)) (USERH_HARD_LIMIT (running_env k))"
    and "0x80000000 \<le> ubrk k" "ubrk k \<le> unat (USERH_HARD_LIMIT (running_env k))" "unat (USERH_HARD_LIMIT (running_env k)) < 0xA0000000"
  using assms by (simp_all add: user_ok_def word_le_nat_alt word_less_nat_alt)

lemma heap_tables_entered [simp]: "heap_tables (entered k) dir lo hi = heap_tables k dir lo hi"
  by (simp add: heap_tables_def)

lemma user_ok_entered [simp]: "user_ok st e k \<Longrightarrow> user_ok st e (entered k)"
  by (simp add: user_ok_def)

text \<open>Marking pages of the heap keeps all tables.\<close>

lemma heap_slots_apart:
  assumes "\<forall>j < n. table_present k dir (nth_page va j)"
  shows "\<forall>(t, i) \<in> page_slots k dir va n. t \<noteq> dir" "\<forall>(t, i) \<in> page_slots k dir va n. t \<noteq> NULL"
proof -
  have "fst (slot k dir (nth_page va j)) \<noteq> dir \<and> fst (slot k dir (nth_page va j)) \<noteq> NULL" if "j < n" for j
    using assms that slot_present [of k dir "nth_page va j"] by (metis fst_conv)
  then show "\<forall>(t, i) \<in> page_slots k dir va n. t \<noteq> dir" "\<forall>(t, i) \<in> page_slots k dir va n. t \<noteq> NULL"
    by (auto simp: page_slots_def case_prod_unfold)
qed

lemma mark_slots_simps [simp]:
  "envs (mark_slots M k) = envs k" "kcpu (mark_slots M k) = kcpu k" "UHeapPlacementStrategy (mark_slots M k) = UHeapPlacementStrategy k"
  "syscall_env (mark_slots M k) = syscall_env k" "in_process (mark_slots M k) = in_process k"
  by (simp_all add: mark_slots_def in_process_def)

lemma nth_page_heap:
  assumes "unat va + n * 4096 < 0x100000000" "j < n"
  shows "unat (nth_page va j) = unat va + j * 4096"
  using assms by (subst unat_word_ariths, subst unat_word_ariths) (simp add: unat_of_nat_u32)

lemma heap_tables_known:
  assumes "heap_tables k dir lo hi" "unat lo \<le> unat va" "unat va + n * 4096 \<le> 0xA0000000" "j < n"
  shows "table_present k dir (nth_page va j) \<or> unat hi \<le> unat va + j * 4096 \<and> table_absent k dir (nth_page va j)"
proof -
  have u: "unat (nth_page va j) = unat va + j * 4096" by (rule nth_page_heap [of va n]) (use assms(3,4) in simp_all)
  then have "lo \<le> nth_page va j" "nth_page va j < USER_HEAP_MAX"
    using assms(2-4) by (simp_all add: word_le_nat_alt word_less_nat_alt)
  then have "table_present k dir (nth_page va j) \<or> hi \<le> nth_page va j \<and> table_absent k dir (nth_page va j)"
    using assms(1) unfolding heap_tables_def by blast
  then show ?thesis using u by (simp add: word_le_nat_alt)
qed

lemma heap_tables_pages:
  assumes "heap_tables k dir lo hi" "unat lo \<le> unat va" "unat va + n * 4096 \<le> unat hi" "unat hi \<le> 0xA0000000"
  shows "\<forall>j < n. table_present k dir (nth_page va j)"
proof (intro allI impI)
  fix j assume j: "j < n"
  have e: "unat va + n * 4096 \<le> 0xA0000000" "\<not> unat hi \<le> unat va + j * 4096" using assms(3,4) j by linarith+
  show "table_present k dir (nth_page va j)" using heap_tables_known [OF assms(1,2) e(1) j] e(2) by blast
qed

lemma heap_tables_higher: "heap_tables k dir lo hi \<Longrightarrow> lo \<le> lo' \<Longrightarrow> heap_tables k dir lo' hi"
  unfolding heap_tables_def by (meson order_trans)

lemma heap_tables_env [simp]: "heap_tables (k\<lparr>envs := es\<rparr>) dir lo hi = heap_tables k dir lo hi"
  by (simp add: heap_tables_def)

lemma user_sbrk_ok:
  assumes ok: "user_ok st e k" and n: "n < 0x60000"
  shows "user_sbrk w n m k = Some (let brk = USERH_BRK (running_env k) in
     if sint n \<le> 0 then (brk, m, entered k)
     else if unat (USERH_HARD_LIMIT (running_env k)) < unat brk + unat n * 4096 then (- 1, m, entered k)
     else (brk, m, update_env (cpu_proc (kcpu k)) (\<lambda>x. x\<lparr>USERH_BRK := brk + n * PAGE_SIZE\<rparr>)
             (mark_slots (page_slots k (env_page_directory (running_env k)) brk (unat n)) (entered k))))"
proof -
  note d = user_ok_D [OF ok]
  let ?e = "cpu_proc (kcpu k)"
  have un: "unat n < 0x60000" using n by (simp add: word_less_nat_alt)
  have pos: "0 < USERH_BRK (running_env k)" using d(6) by (simp add: word_less_nat_alt)
  have pages: "\<forall>j < unat n. table_present k (env_page_directory (running_env k)) (nth_page (USERH_BRK (running_env k)) j)"
    if "ubrk k + unat n * 4096 \<le> unat (USERH_HARD_LIMIT (running_env k))"
    by (rule heap_tables_pages [OF d(5)]) (use that d(8) in simp_all)
  have "sys_sbrk n (entered k) = Some (let brk = USERH_BRK (envs (entered k) ?e); k1 = (entered k)\<lparr>kcpu := peeked (kcpu (entered k))\<rparr> in
     if sint n \<le> 0 then (brk, k1)
     else if unat (USERH_HARD_LIMIT (envs (entered k) ?e)) < unat brk + unat n * 4096 then (- 1, k1)
     else (brk, update_env ?e (\<lambda>x. x\<lparr>USERH_BRK := brk + n * PAGE_SIZE\<rparr>)
             (mark_slots (page_slots (entered k) (env_page_directory (envs (entered k) ?e)) brk (unat n)) k1)))"
    by (rule sys_sbrk_ok) (use d un pos pages in simp_all)
  then have "sys_sbrk n (entered k) = Some (let brk = USERH_BRK (running_env k) in
     if sint n \<le> 0 then (brk, entered k)
     else if unat (USERH_HARD_LIMIT (running_env k)) < unat brk + unat n * 4096 then (- 1, entered k)
     else (brk, update_env ?e (\<lambda>x. x\<lparr>USERH_BRK := brk + n * PAGE_SIZE\<rparr>)
             (mark_slots (page_slots k (env_page_directory (running_env k)) brk (unat n)) (entered k))))"
    by (simp add: Let_def)
  then show ?thesis
    by (simp add: user_sbrk_def syscall_entered [OF d(1,2)] syscall_cases_def with_result_def Let_def)
qed


lemma nth_page_end:
  assumes "unat va + n * 4096 < 0x100000000"
  shows "unat (va + of_nat n * PAGE_SIZE) = unat va + n * 4096"
  using assms by (subst unat_word_ariths, subst unat_word_ariths) (simp add: unat_of_nat_u32)

lemma user_ok_marked:
  assumes "user_ok st e k" "M = page_slots k (env_page_directory (running_env k)) va n"
    and "\<forall>j < n. table_present k (env_page_directory (running_env k)) (nth_page va j)"
  shows "user_ok st e (mark_slots M k)"
proof -
  have ap: "\<forall>(t, i) \<in> M. t \<noteq> env_page_directory (running_env k)" using heap_slots_apart(1) [OF assms(3)] assms(2) by simp
  have "heap_tables (mark_slots M k) (env_page_directory (running_env k)) lo hi = heap_tables k (env_page_directory (running_env k)) lo hi" for lo hi
    by (simp only: heap_tables_def present_marked [OF ap] table_absent_def get_page_table_marked [OF ap])
  then show ?thesis using assms(1) by (simp add: user_ok_def)
qed

text \<open>The hard limit of the process does not allow \<open>p\<close> more pages.\<close>

definition user_refuses :: "kern \<Rightarrow> nat \<Rightarrow> bool" where
  "user_refuses k p \<longleftrightarrow> unat (USERH_HARD_LIMIT (running_env k)) < ubrk k + p * 4096"

lemma user_sbrk_pages:
  assumes ok: "user_ok st e k" and p: "0 < p" "p < 0x60000"
  shows "returns (user_sbrk w (of_nat p) m k) (\<lambda>(a, m', k'). user_ok st e k' \<and>
      (if user_refuses k p then a = - 1 \<and> m' = m \<and> ubrk k' = ubrk k
       else a = of_nat (ubrk k) \<and> ubrk k' = ubrk k + p * 4096 \<and> ubrk k' < 4294967296 \<and> same_on (- {ubrk k..<ubrk k'}) m m'))"
proof -
  note d = user_ok_D [OF ok]
  let ?e = "cpu_proc (kcpu k)" let ?brk = "USERH_BRK (running_env k)" let ?dir = "env_page_directory (running_env k)"
  have u: "unat (of_nat p :: u32) = p" using p by (simp add: unat_of_nat_u32)
  have n: "(of_nat p :: u32) < 0x60000" using p u by (simp add: word_less_nat_alt)
  have s: "\<not> sint (of_nat p :: u32) \<le> 0" using sint_positive p by simp
  note r = user_sbrk_ok [OF ok n, of w m, unfolded u Let_def if_not_P [OF s]]
  show ?thesis
  proof (cases "unat (USERH_HARD_LIMIT (running_env k)) < ubrk k + p * 4096")
    case True
    then show ?thesis using ok by (simp add: r user_refuses_def)
  next
    case False
    let ?k1 = "mark_slots (page_slots k ?dir ?brk p) (entered k)"
    let ?k' = "update_env ?e (\<lambda>x. x\<lparr>USERH_BRK := nth_page ?brk p\<rparr>) ?k1"
    have pages: "\<forall>j < p. table_present (entered k) (env_page_directory (running_env (entered k))) (nth_page ?brk j)"
      using heap_tables_pages [OF d(5), of ?brk p] False d(8) by simp
    have brk: "unat (nth_page ?brk p) = ubrk k + p * 4096" by (rule nth_page_end) (use False d(8) in linarith)
    have "user_ok st e ?k1" by (rule user_ok_marked [where va = ?brk and n = p]) (use ok pages in simp_all)
    note d1 = user_ok_D [OF this]
    have le: "?brk \<le> nth_page ?brk p" "nth_page ?brk p \<le> USERH_HARD_LIMIT (running_env k)"
      using brk False by (simp_all add: word_le_nat_alt)
    have st: "USER_HEAP_START \<le> nth_page ?brk p" using brk d(6) by (simp add: word_le_nat_alt)
    have "heap_tables ?k1 ?dir (nth_page ?brk p) (USERH_HARD_LIMIT (running_env k))" by (rule heap_tables_higher [OF _ le(1)]) (use d1(5) in simp)
    then have "user_ok st e ?k'"
      unfolding user_ok_def using d1(1-4) d(8) le(2) st by (simp add: update_env_def in_process_def word_less_nat_alt)
    moreover have "ubrk ?k' = ubrk k + p * 4096" using brk by (simp add: update_env_def)
    ultimately show ?thesis using False d(8) by (simp add: r user_refuses_def)
  qed
qed

lemma user_sbrk_zero:
  assumes "user_ok st e k"
  shows "returns (user_sbrk w 0 m k) (\<lambda>(a, m', k'). a = of_nat (ubrk k) \<and> m' = m \<and> user_ok st e k' \<and> ubrk k' = ubrk k)"
  using user_sbrk_ok [OF assms, of 0 w m] assms by (simp add: Let_def)

interpretation user: sbrk_provider "user_sbrk w" ubrk "user_ok st e" user_refuses "0x60000" for w st e
  by unfold_locales (simp, simp, rule user_sbrk_zero, assumption, rule user_sbrk_pages)

section \<open>Blocks of the program\<close>

text \<open>The heap of a program that chose first fit, with the blocks \<open>bs\<close> below its break.\<close>

definition user_heap :: "uheap_strategies \<Rightarrow> nat \<Rightarrow> block list \<Rightarrow> program \<Rightarrow> bool" where
  "user_heap uh base bs u \<longleftrightarrow> heap_state ubrk (user_ok (UHP_PLACE_FIRSTFIT uh) (myEnv u)) base bs (heap u)"

abbreviation heap_mem :: "program \<Rightarrow> memory" where
  "heap_mem u \<equiv> da_mem (heap u)"

definition malloc_outcome :: "uheap_strategies \<Rightarrow> nat \<Rightarrow> block list \<Rightarrow> nat \<Rightarrow> program \<Rightarrow> ptr \<Rightarrow> program \<Rightarrow> bool" where
  "malloc_outcome uh base bs sz u p u' \<longleftrightarrow>
    (case ff_alloc (request sz) bs of
       Some (off, bs') \<Rightarrow> p = of_nat (base + 4 + off + 4) \<and> user_heap uh base bs' u' \<and>
         same_on (kept base bs \<inter> kept base bs') (heap_mem u) (heap_mem u')
     | None \<Rightarrow>
         if unat (USERH_HARD_LIMIT (running_env (kernel_of u))) < ubrk (kernel_of u) + 4096
         then p = NULL \<and> user_heap uh base bs u' \<and> heap_mem u' = heap_mem u
         else (\<exists>off bs'. ff_alloc (request sz) (coalesce bs 4096 []) = Some (off, bs') \<and> p = of_nat (base + 4 + off + 4) \<and>
            user_heap uh base bs' u' \<and> same_on (kept base (bs @ [(4096, False)])) (heap_mem u) (heap_mem u')))"

lemma da_inv_world [simp]: "da_inv base bs (s\<lparr>da_world := w\<rparr>) = da_inv base bs s"
  by (simp add: da_inv_def)

lemma user_heap_entered:
  "user_heap uh base bs u \<Longrightarrow> user_heap uh base bs (with_kernel (entered (kernel_of u)) u)"
  by (simp add: user_heap_def heap_state_def with_kernel_def)

lemma user_heap_ok: "user_heap uh base bs u \<Longrightarrow> user_ok (UHP_PLACE_FIRSTFIT uh) (myEnv u) (kernel_of u)"
  by (simp add: user_heap_def heap_state_def)

lemma strategy_call:
  assumes "user_ok st e (kernel_of u)"
  shows "strategy_is w x u = Some (Value (if st = x then 1 else 0) (with_kernel (entered (kernel_of u)) u))"
  using user_ok_D [OF assms]
  by (simp add: strategy_is_def call_def syscall_entered syscall_cases_def sys_get_heap_strategy_def)

lemma malloc_small_code:
  assumes "user_heap uh base bs u" "sz \<noteq> 0" "unat sz \<le> 2048"
  shows "malloc w uh sz u = on_heap (alloc_block_FF (user_sbrk w) sz) (with_kernel (entered (kernel_of u)) u)"
proof -
  have "sz \<le> DYN_ALLOC_MAX_BLOCK_SIZE" using assms(3) by (simp add: word_le_nat_alt)
  then show ?thesis
    using assms(2) strategy_call [OF user_heap_ok [OF assms(1)]] by (simp add: malloc_def malloc_block_def)
qed

lemma malloc_small_ok:
  assumes h: "user_heap uh base bs u" and sz: "sz \<noteq> 0" "unat sz \<le> 2048"
  shows "\<exists>p u'. malloc w uh sz u = Some (Value p u') \<and> malloc_outcome uh base bs (unat sz) u p u'"
proof -
  let ?u = "with_kernel (entered (kernel_of u)) u" let ?ok = "user_ok (UHP_PLACE_FIRSTFIT uh) (myEnv u)"
  have hs: "heap_state ubrk ?ok base bs (heap ?u)"
    using user_heap_entered [OF h] by (simp add: user_heap_def with_kernel_def)
  have mem: "da_mem (heap ?u) = heap_mem u" by (simp add: with_kernel_def)
  have fin: "\<exists>p u'. malloc w uh sz u = Some (Value p u') \<and> malloc_outcome uh base bs (unat sz) u p u'"
    if "alloc_block_FF (user_sbrk w) sz (heap ?u) = Some (p, s')" "malloc_outcome uh base bs (unat sz) u p (?u\<lparr>heap := s'\<rparr>)" for p s'
    using that by (simp add: malloc_small_code [OF h sz] on_heap_def)
  have heap': "user_heap uh base bs' (?u\<lparr>heap := s'\<rparr>) = heap_state ubrk ?ok base bs' s'" for bs' s'
    by (simp add: user_heap_def with_kernel_def)
  have heap_mem': "heap_mem (?u\<lparr>heap := s'\<rparr>) = da_mem s'" for s' by simp
  have ref: "user_refuses (kernel_of ?u) 1 \<longleftrightarrow> unat (USERH_HARD_LIMIT (running_env (kernel_of u))) < ubrk (kernel_of u) + 4096"
    by (simp add: user_refuses_def with_kernel_def)
  show ?thesis
  proof (cases "ff_alloc (request (unat sz)) bs")
    case None
    from user.alloc_FF_extends [OF hs sz None] obtain x where
      x: "alloc_block_FF (user_sbrk w) sz (heap ?u) = Some x"
        "case x of (p, s') \<Rightarrow> if user_refuses (kernel_of ?u) 1
          then p = NULL \<and> heap_state ubrk ?ok base bs s' \<and> da_mem s' = heap_mem u
          else (\<exists>off bs'. ff_alloc (request (unat sz)) (coalesce bs 4096 []) = Some (off, bs') \<and> p = of_nat (base + 4 + off + 4) \<and>
            heap_state ubrk ?ok base bs' s' \<and> same_on (kept base (bs @ [(4096, False)])) (heap_mem u) (da_mem s'))"
      unfolding returns_iff mem by blast
    obtain p s' where p: "x = (p, s')" by (cases x)
    note r = x(1) [unfolded p] and c = x(2) [unfolded p case_prod_conv]
    show ?thesis by (rule fin [OF r]) (use c [unfolded ref] in \<open>simp only: malloc_outcome_def None heap' option.case heap_mem'\<close>)
  next
    case (Some x)
    obtain off bs' where x: "x = (off, bs')" by (cases x)
    from Some x have ff: "ff_alloc (request (unat sz)) bs = Some (off, bs')" by simp
    from ff obtain pre N post where c: "bs = pre @ (N, False) # post" "request (unat sz) + 8 \<le> N"
      "bs' = pre @ place (request (unat sz)) N @ post" by (auto simp: ff_alloc_Some)
    then have len: "heap_len bs' = heap_len bs" using heap_len_place [OF c(2)] by simp
    have "da_inv base bs (heap ?u)" using hs by (simp add: heap_state_def)
    from alloc_block_FF_refines [OF this sz(1) _ ff, of "user_sbrk w"] sz obtain s' where
      s': "alloc_block_FF (user_sbrk w) sz (heap ?u) = Some (of_nat (base + 4 + off + 4), s')" "moves_to base bs bs' (heap ?u) s'"
      by (auto simp: returns_iff)
    have "heap_state ubrk ?ok base bs' s'" by (rule heap_state_moves [OF hs s'(2) len])
    then show ?thesis using s' by (intro fin [OF s'(1)]) (simp add: malloc_outcome_def ff heap' moves_to_def mem)
  qed
qed

section \<open>Pages of the program\<close>

abbreviation program_dir :: "program \<Rightarrow> ptr" where
  "program_dir u \<equiv> env_page_directory (running_env (kernel_of u))"

abbreviation first_page :: "program \<Rightarrow> u32" where
  "first_page u \<equiv> USERH_HARD_LIMIT (running_env (kernel_of u)) + PAGE_SIZE"

text \<open>Page \<open>j\<close> above the block allocator is neither handed out nor faulted in.\<close>

definition page_is_free :: "program \<Rightarrow> nat \<Rightarrow> bool" where
  "page_is_free u j \<longleftrightarrow> page_free (program_dir u) (nth_page (first_page u) j) (kernel_of u) = Some True"

lemma page_free_known:
  "table_present k dir va \<or> table_absent k dir va \<Longrightarrow> page_free dir va k \<noteq> None"
  by (auto simp: table_present_def table_absent_def page_free_def pt_get_page_permissions_def)

text \<open>The pages above the block part: each has a page table or none. \<open>has_tables\<close> are those of a run.\<close>

definition has_tables :: "program \<Rightarrow> nat \<Rightarrow> nat \<Rightarrow> bool" where
  "has_tables u i n \<longleftrightarrow> (\<forall>j < n. table_present (kernel_of u) (program_dir u) (nth_page (first_page u) (i + j)))"

lemma first_page_unat:
  assumes "user_ok st e (kernel_of u)"
  shows "unat (first_page u) = unat (USERH_HARD_LIMIT (running_env (kernel_of u))) + 4096"
  using user_ok_D [OF assms] by (subst unat_word_ariths) simp

lemma pages_known:
  assumes ok: "user_ok st e (kernel_of u)" and m: "unat (first_page u) + m * 4096 = 0xA0000000" and j: "j < m"
  shows "table_present (kernel_of u) (program_dir u) (nth_page (first_page u) j) \<or> table_absent (kernel_of u) (program_dir u) (nth_page (first_page u) j)"
proof -
  note d = user_ok_D [OF ok]
  have a: "unat (USERH_BRK (running_env (kernel_of u))) \<le> unat (first_page u)" "unat (first_page u) + m * 4096 \<le> 0xA0000000"
    using first_page_unat [OF ok] d(7) m by linarith+
  show ?thesis using heap_tables_known [OF d(5) a j] by blast
qed

lemma search_call:
  assumes ok: "user_ok st (myEnv u) (kernel_of u)" and m: "unat (first_page u) + m * 4096 = 0xA0000000" and sz: "PAGE_SIZE \<le> sz"
  shows "call w SYS_get_consecutive_free_pages (myEnv u) sz 0 0 0 u =
    Some (Value (case first_run (page_is_free u) m (unat (sz div PAGE_SIZE)) of None \<Rightarrow> NULL | Some i \<Rightarrow> nth_page (first_page u) i)
      (with_kernel (entered (kernel_of u)) u))"
proof -
  let ?k = "entered (kernel_of u)"
  note d = user_ok_D [OF ok]
  have p: "page_free (env_page_directory (envs ?k (myEnv u))) (nth_page (first_page u) j) ?k \<noteq> None" if "j < m" for j
    using page_free_known [OF pages_known [OF ok m that]] d(4) by simp
  have "getConsecutiveFreePages (myEnv u) sz ?k =
    Some (case first_run (\<lambda>j. page_free (env_page_directory (envs ?k (myEnv u))) (nth_page (first_page u) j) ?k = Some True) m (unat (sz div PAGE_SIZE)) of
      None \<Rightarrow> NULL | Some i \<Rightarrow> nth_page (first_page u) i)"
    by (rule getConsecutiveFreePages_eq [OF _ m p sz]) (use d(4) in simp_all)
  then have g: "getConsecutiveFreePages (myEnv u) sz ?k = Some (case first_run (page_is_free u) m (unat (sz div PAGE_SIZE)) of
      None \<Rightarrow> NULL | Some i \<Rightarrow> nth_page (first_page u) i)"
    using d(4) by (simp add: page_is_free_def [abs_def])
  show ?thesis
    using d(3) by (simp add: call_def syscall_entered [OF d(1,2)] syscall_cases_def with_result_def sys_getConsecutiveFreePages_def g)
qed

text \<open>
  Which run \<^verbatim>\<open>malloc\<close> picks. A size that rounds up to \<open>2^32\<close> wraps around to no pages at all: the
  search then looks at the first page only.
\<close>

definition rounded_pages :: "u32 \<Rightarrow> nat" where
  "rounded_pages sz = pages (unat sz) mod 1048576"

definition chosen_run :: "(nat \<Rightarrow> bool) \<Rightarrow> nat \<Rightarrow> nat \<Rightarrow> nat option" where
  "chosen_run fr m n = (if n = 0 then (if 0 < m \<and> fr 0 then Some 0 else None) else first_run fr m n)"

lemma first_run_D:
  assumes "first_run fr m n = Some i"
  shows "i + n \<le> m" "free_run fr n i" "\<And>i'. i' < i \<Longrightarrow> \<not> free_run fr n i'"
  using assms by (auto simp: first_run_def find_Some_iff)

lemma rounded_size:
  assumes "2048 < unat sz" "unat sz \<le> 0xFFFFF000"
  shows "unat (ROUNDUP sz PAGE_SIZE) = pages (unat sz) * 4096" "unat (ROUNDUP sz PAGE_SIZE div PAGE_SIZE) = pages (unat sz)"
    "PAGE_SIZE \<le> ROUNDUP sz PAGE_SIZE" "0 < pages (unat sz)"
proof -
  show u: "unat (ROUNDUP sz PAGE_SIZE) = pages (unat sz) * 4096" using assms by (simp add: unat_ROUNDUP pages_def)
  show "unat (ROUNDUP sz PAGE_SIZE div PAGE_SIZE) = pages (unat sz)" by (simp add: unat_div u)
  show n: "0 < pages (unat sz)" using assms pages_bounds(2) by simp
  then show "PAGE_SIZE \<le> ROUNDUP sz PAGE_SIZE" by (simp add: word_le_nat_alt u)
qed

text \<open>Marking takes exactly the marked pages from the free ones.\<close>

lemma marked_not_free: "((x OR HANDED_OUT) AND 0xFFF) AND PAGE_MARKED \<noteq> (0 :: u32)"
proof -
  have "bit (((x OR HANDED_OUT) AND 0xFFF) AND PAGE_MARKED) 10" by (simp only: bit_and_iff bit_or_iff) simp
  then show ?thesis by (metis bit_0_eq bot_apply bot_bool_def)
qed

lemma page_free_mark:
  assumes "\<forall>(t, i) \<in> M. t \<noteq> dir" "\<forall>(t, i) \<in> M. t \<noteq> NULL" "table_present k dir va \<or> table_absent k dir va"
  shows "page_free dir va (mark_slots M k) = (if slot k dir va \<in> M then Some False else page_free dir va k)"
  using assms(3)
proof
  assume "table_absent k dir va"
  then have g: "get_page_table dir va k = Some (TABLE_NOT_EXIST, NULL)" by (simp add: table_absent_def)
  then have "slot k dir va \<notin> M" using assms(2) by (auto simp: slot_def)
  then show ?thesis using g by (simp add: page_free_def get_page_table_marked [OF assms(1)])
next
  assume "table_present k dir va"
  from slot_present [OF this] obtain ret t where
    g: "get_page_table dir va k = Some (ret, t)" "t \<noteq> NULL" "slot k dir va = (t, PTX va)" by metis
  have "words (mark_slots M k) t (PTX va) = (if slot k dir va \<in> M then words k t (PTX va) OR HANDED_OUT else words k t (PTX va))"
    by (simp add: mark_slots_def g(3))
  then show ?thesis
    using g(1,2) marked_not_free by (simp add: page_free_def pt_get_page_permissions_def get_page_table_marked [OF assms(1)])
qed

lemma nth_page_nth: "nth_page (nth_page a i) j = nth_page a (i + j)"
  by (simp add: algebra_simps)

lemma in_page_slots:
  assumes ht: "heap_tables k dir lo hi" and a: "unat lo \<le> unat a" "unat a + m * 4096 = 0xA0000000" and n: "i + n \<le> m" and j: "j < m"
    and run: "\<forall>x < n. table_present k dir (nth_page a (i + x))"
  shows "slot k dir (nth_page a j) \<in> page_slots k dir (nth_page a i) n \<longleftrightarrow> i \<le> j \<and> j < i + n"
proof -
  have u: "unat (nth_page a j') = unat a + j' * 4096" if "j' < m" for j'
    by (rule nth_page_heap [of a m]) (use a that in simp_all)
  have in_heap: "lo \<le> nth_page a j'" "nth_page a j' < USER_HEAP_MAX" if "j' < m" for j'
    using u [OF that] a that by (simp_all add: word_le_nat_alt word_less_nat_alt)
  have inj: "slot k dir (nth_page a j) = slot k dir (nth_page a j') \<longleftrightarrow> j = j'"
    if "j' < m" "table_present k dir (nth_page a j')" for j'
  proof
    assume s: "slot k dir (nth_page a j) = slot k dir (nth_page a j')"
    note t = that(2)
    have "\<not> table_absent k dir (nth_page a j)"
    proof
      assume "table_absent k dir (nth_page a j)"
      then have "slot k dir (nth_page a j) = (NULL, PTX (nth_page a j))" by (simp only: table_absent_def slot_def option.case prod.case)
      moreover obtain t where "t \<noteq> NULL" "slot k dir (nth_page a j') = (t, PTX (nth_page a j'))"
        using slot_present [OF t] by metis
      ultimately show False using s by simp
    qed
    then have "table_present k dir (nth_page a j)" using ht in_heap [OF j] unfolding heap_tables_def by blast
    then have "PPN (nth_page a j) = PPN (nth_page a j')"
      using ht in_heap [OF j] in_heap [OF that(1)] that(2) s unfolding heap_tables_def by blast
    then have "(unat a + j * 4096) div 4096 = (unat a + j' * 4096) div 4096" using u [OF j] u [OF that(1)] by (metis unat_PPN)
    then show "j = j'" by simp
  qed simp
  have "slot k dir (nth_page a j) \<in> page_slots k dir (nth_page a i) n \<longleftrightarrow> (\<exists>x < n. j = i + x)"
  proof -
    have "slot k dir (nth_page a j) = slot k dir (nth_page a (i + x)) \<longleftrightarrow> j = i + x" if "x < n" for x
      using inj [of "i + x"] n that run by simp
    then show ?thesis unfolding page_slots_def nth_page_nth by (auto simp del: of_nat_add)
  qed
  also have "\<dots> \<longleftrightarrow> i \<le> j \<and> j < i + n" by (auto intro: exI [of _ "j - i"])
  finally show ?thesis .
qed

text \<open>The program after handing out \<open>n\<close> pages from the \<open>i\<close>-th on.\<close>

definition handed_out :: "nat \<Rightarrow> nat \<Rightarrow> program \<Rightarrow> program" where
  "handed_out i n u = (with_kernel (mark_slots (page_slots (kernel_of u) (program_dir u) (nth_page (first_page u) i) n) (entered (kernel_of u))) u)
     \<lparr>marked_page_size := (marked_page_size u)(of_nat i := of_nat n)\<rparr>"

lemma run_slots_apart:
  assumes "has_tables u i n"
  shows "\<forall>j < n. table_present (kernel_of u) (program_dir u) (nth_page (nth_page (first_page u) i) j)"
    "\<forall>(t, x) \<in> page_slots (kernel_of u) (program_dir u) (nth_page (first_page u) i) n. t \<noteq> program_dir u"
    "\<forall>(t, x) \<in> page_slots (kernel_of u) (program_dir u) (nth_page (first_page u) i) n. t \<noteq> NULL"
proof -
  show t: "\<forall>j < n. table_present (kernel_of u) (program_dir u) (nth_page (nth_page (first_page u) i) j)"
    using assms unfolding has_tables_def nth_page_nth .
  show "\<forall>(t, x) \<in> page_slots (kernel_of u) (program_dir u) (nth_page (first_page u) i) n. t \<noteq> program_dir u"
    "\<forall>(t, x) \<in> page_slots (kernel_of u) (program_dir u) (nth_page (first_page u) i) n. t \<noteq> NULL"
    by (rule heap_slots_apart [OF t])+
qed

lemma handed_out_free:
  assumes ok: "user_ok st e (kernel_of u)" and m: "unat (first_page u) + m * 4096 = 0xA0000000" and n: "i + n \<le> m" and j: "j < m"
    and run: "has_tables u i n"
  shows "page_is_free (handed_out i n u) j \<longleftrightarrow> page_is_free u j \<and> \<not> (i \<le> j \<and> j < i + n)"
proof -
  note d = user_ok_D [OF ok]
  let ?k = "kernel_of u" let ?dir = "program_dir u" let ?a = "first_page u" let ?M = "page_slots ?k ?dir (nth_page ?a i) n"
  have lo: "unat (USERH_BRK (running_env ?k)) \<le> unat ?a" using first_page_unat [OF ok] d(7) by simp
  note ap = run_slots_apart(2,3) [OF run]
  have "page_free ?dir (nth_page ?a j) (mark_slots ?M (entered ?k)) =
      (if slot (entered ?k) ?dir (nth_page ?a j) \<in> ?M then Some False else page_free ?dir (nth_page ?a j) (entered ?k))"
    by (rule page_free_mark [OF ap]) (use pages_known [OF ok m j] in simp)
  then show ?thesis
    using in_page_slots [OF d(5) lo m n j run [unfolded has_tables_def]] by (simp add: page_is_free_def handed_out_def with_kernel_def)
qed

lemma handed_out_limit: "USERH_HARD_LIMIT (running_env (kernel_of (handed_out i n u))) = USERH_HARD_LIMIT (running_env (kernel_of u))"
  "da_mem (heap (handed_out i n u)) = da_mem (heap u)" "marked_page_size (handed_out i n u) = (marked_page_size u)(of_nat i := of_nat n)"
  by (simp_all add: handed_out_def with_kernel_def)

lemma user_page_index:
  assumes "e = myEnv u" "user_ok st e (kernel_of u)" "unat (first_page u) + m * 4096 = 0xA0000000" "i < m"
  shows "page_no_index (nth_page (first_page u) i) u = of_nat i" "(of_nat i :: u32) < 131072"
proof -
  note d = user_ok_D [OF assms(2)]
  have m: "m < 131072" using first_page_unat [OF assms(2)] assms(3) d(6,7) by simp
  have "unat (of_nat i * PAGE_SIZE :: u32) = i * 4096" using m assms(4) by (subst unat_word_ariths) (simp add: unat_of_nat_u32)
  then have "unat (of_nat i * PAGE_SIZE div PAGE_SIZE :: u32) = i" by (simp add: unat_div)
  moreover have "unat (of_nat i :: u32) = i" using m assms(4) by (simp add: unat_of_nat_u32)
  ultimately have "(of_nat i * PAGE_SIZE div PAGE_SIZE :: u32) = of_nat i" by (simp only: word_unat_eq_iff)
  then show "page_no_index (nth_page (first_page u) i) u = of_nat i"
    using d(4) assms(1) by (simp add: page_no_index_def)
  show "(of_nat i :: u32) < 131072" using m assms(4) by (simp add: word_less_nat_alt unat_of_nat_u32)
qed

section \<open>malloc of pages\<close>

lemma with_kernel_simps [simp]:
  "kernel_of (with_kernel k u) = k" "with_kernel k (with_kernel k' u) = with_kernel k u" "myEnv (with_kernel k u) = myEnv u"
  "marked_page_size (with_kernel k u) = marked_page_size u" "da_mem (heap (with_kernel k u)) = da_mem (heap u)"
  "with_kernel k (u\<lparr>marked_page_size := f\<rparr>) = (with_kernel k u)\<lparr>marked_page_size := f\<rparr>"
  by (simp_all add: with_kernel_def)

lemma page_no_index_entered [simp]: "page_no_index va (with_kernel (entered (kernel_of u)) u) = page_no_index va u"
  by (simp add: page_no_index_def)

lemma malloc_pages_start:
  assumes sz: "2048 < unat sz" "unat sz \<le> 0xFFFFF000"
    and ok: "user_ok st (myEnv u) (kernel_of u)" and m: "unat (first_page u) + m * 4096 = 0xA0000000"
    and r: "first_run (page_is_free u) m (pages (unat sz)) = r"
  shows "malloc w uh sz u = (let u1 = with_kernel (entered (kernel_of u)) u in
    case r of None \<Rightarrow> Some (Value NULL u1)
    | Some i \<Rightarrow> after (call w SYS_allocate_user_mem (nth_page (first_page u) i) (ROUNDUP sz PAGE_SIZE) 0 0 0
        (u1\<lparr>marked_page_size := (marked_page_size u)(of_nat i := of_nat (pages (unat sz)))\<rparr>))
        (\<lambda>_ u3. Some (Value (nth_page (first_page u) i) u3)))"
proof -
  note z = rounded_size [OF sz]
  have big: "sz \<noteq> 0" "\<not> sz \<le> DYN_ALLOC_MAX_BLOCK_SIZE" using sz by (auto simp: word_le_nat_alt)
  have n: "ROUNDUP sz PAGE_SIZE div PAGE_SIZE = of_nat (pages (unat sz))"
    by (simp only: word_unat_eq_iff z(2)) (use z(1) unat_u32_bound [of "ROUNDUP sz PAGE_SIZE"] in \<open>simp add: unat_of_nat_u32\<close>)
  note s = search_call [OF ok m z(3), of w, unfolded z(2) r]
  show ?thesis
  proof (cases r)
    case None
    then show ?thesis using big s by (simp add: malloc_def malloc_pages_def Let_def)
  next
    case (Some i)
    then have run: "first_run (page_is_free u) m (pages (unat sz)) = Some i" using r by simp
    have i: "i < m" using first_run_D(1) [OF run] z(4) by simp
    have "unat (nth_page (first_page u) i) = unat (first_page u) + i * 4096"
      by (rule nth_page_heap [of _ m]) (use m i in simp_all)
    then have "nth_page (first_page u) i \<noteq> NULL" using first_page_unat [OF ok] by (metis add_gr_0 less_irrefl unat_0 zero_less_numeral)
    then show ?thesis
      using big s Some user_page_index [OF refl ok m i] n
      by (simp add: malloc_def malloc_pages_def Let_def set_marked_def)
  qed
qed

lemma malloc_pages_ok:
  assumes sz: "2048 < unat sz" "unat sz \<le> 0xFFFFF000"
    and ok: "user_ok st (myEnv u) (kernel_of u)" and m: "unat (first_page u) + m * 4096 = 0xA0000000"
    and r: "first_run (page_is_free u) m (pages (unat sz)) = Some i" "i + pages (unat sz) < m"
    and run: "has_tables u i (pages (unat sz))"
  shows "malloc w uh sz u = Some (Value (nth_page (first_page u) i) (handed_out i (pages (unat sz)) u))"
proof -
  let ?n = "pages (unat sz)" let ?va = "nth_page (first_page u) i" let ?k = "kernel_of u"
  note z = rounded_size [OF sz] and d = user_ok_D [OF ok]
  have va: "unat ?va = unat (first_page u) + i * 4096" by (rule nth_page_heap [of _ m]) (use m r(2) in simp_all)
  have "unat (?va + ROUNDUP sz PAGE_SIZE) = unat ?va + unat (ROUNDUP sz PAGE_SIZE)"
    by (subst unat_word_ariths) (use va z(1) m r(2) in simp)
  then have "\<not> bad_user_range ?va (ROUNDUP sz PAGE_SIZE)"
    using va m r(2) first_page_unat [OF ok] d(6,7)
    by (auto simp: bad_user_range_def word_le_nat_alt word_less_nat_alt z(1))
  moreover have "allocate_user_mem (cpu_proc (kcpu ?k)) ?va (ROUNDUP sz PAGE_SIZE) (entered ?k) =
      Some (mark_slots (page_slots (entered ?k) (env_page_directory (envs (entered ?k) (cpu_proc (kcpu ?k)))) ?va ?n) (entered ?k))"
  proof (rule allocate_user_mem_present)
    show "table_present (entered ?k) (env_page_directory (envs (entered ?k) (cpu_proc (kcpu ?k)))) (nth_page ?va j)" if "j < ?n" for j
      using run_slots_apart(1) [OF run] that by simp
  qed (rule z(1))
  ultimately show ?thesis
    using d(1,2)
    by (simp add: malloc_pages_start [OF sz ok m r(1)] call_def syscall_entered syscall_cases_def sys_allocate_user_mem_def
        returning_def handed_out_def Let_def)
qed

text \<open>A size above \<open>0xFFFFF000\<close>.\<close>

lemma ROUNDUP_wraps: "0xFFFFF000 < unat (sz :: u32) \<Longrightarrow> ROUNDUP sz PAGE_SIZE = 0"
proof -
  assume sz: "0xFFFFF000 < unat sz"
  have "unat (sz + 4095) = (unat sz + 4095) mod 4294967296" by (simp add: unat_word_ariths)
  also have "\<dots> = unat sz + 4095 - 4294967296" using sz unat_u32_bound [of sz] by (simp add: mod_if)
  finally have "unat (sz + 4095) < 4096" using unat_u32_bound [of sz] by linarith
  then have "(sz + 4095) mod 4096 = sz + 4095" by (simp add: word_unat_eq_iff unat_mod)
  then show ?thesis by (simp add: ROUNDUP_def ROUNDDOWN_def add.commute)
qed

lemma rounded_pages_simps:
  "unat sz \<le> 0xFFFFF000 \<Longrightarrow> rounded_pages sz = pages (unat sz)" "0xFFFFF000 < unat sz \<Longrightarrow> rounded_pages sz = 0"
proof -
  show "rounded_pages sz = pages (unat sz)" if "unat sz \<le> 0xFFFFF000"
    using that by (simp add: rounded_pages_def pages_def div_less_iff_less_mult)
  show "rounded_pages sz = 0" if "0xFFFFF000 < unat sz"
  proof -
    have "(unat sz + 4095) div 4096 = 1048576" using that unat_u32_bound [of sz] by linarith
    then show ?thesis by (simp add: rounded_pages_def pages_def)
  qed
qed

lemma search_nothing:
  assumes ok: "user_ok st (myEnv u) (kernel_of u)" and m: "unat (first_page u) + m * 4096 = 0xA0000000"
  shows "call w SYS_get_consecutive_free_pages (myEnv u) 0 0 0 0 u =
    Some (Value (if 0 < m \<and> page_is_free u 0 then first_page u else NULL) (with_kernel (entered (kernel_of u)) u))"
proof -
  let ?k = "entered (kernel_of u)"
  note d = user_ok_D [OF ok]
  have lt: "first_page u < USER_HEAP_MAX \<longleftrightarrow> 0 < m"
  proof -
    have "unat (first_page u) < 0xA0000000 \<longleftrightarrow> 0 < m" using m by linarith
    then show ?thesis by (simp add: word_less_nat_alt)
  qed
  have p: "\<exists>b. page_free (program_dir u) (first_page u) (kernel_of u) = Some b" if "0 < m"
    using page_free_known [OF pages_known [OF ok m that]] by auto
  have "find_free_pages (program_dir u) 0 (first_page u) 0 NULL ?k =
      Some (if 0 < m \<and> page_is_free u 0 then first_page u else NULL)"
    unfolding find_free_pages.simps [where page = "first_page u"] lt using p by (auto simp: page_is_free_def)
  then have g: "getConsecutiveFreePages (myEnv u) 0 ?k = Some (if 0 < m \<and> page_is_free u 0 then first_page u else NULL)"
    using d(4) by (simp add: getConsecutiveFreePages_def)
  show ?thesis
    using d(3) by (simp add: call_def syscall_entered [OF d(1,2)] syscall_cases_def with_result_def sys_getConsecutiveFreePages_def g)
qed

lemma malloc_wraps:
  assumes sz: "0xFFFFF000 < unat sz"
    and ok: "user_ok st (myEnv u) (kernel_of u)" and m: "unat (first_page u) + m * 4096 = 0xA0000000"
  shows "malloc w uh sz u = Some (if 0 < m \<and> page_is_free u 0 then Value (first_page u) (handed_out 0 0 u)
    else Value NULL (with_kernel (entered (kernel_of u)) u))"
proof -
  note d = user_ok_D [OF ok] and s = search_nothing [OF ok m, of w]
  have big: "sz \<noteq> 0" "\<not> sz \<le> DYN_ALLOC_MAX_BLOCK_SIZE" using sz by (auto simp: word_le_nat_alt)
  have none: "mark_slots (page_slots k dir va 0) k' = k'" for k dir va k' by (simp add: mark_slots_def page_slots_def)
  show ?thesis
  proof (cases "0 < m \<and> page_is_free u 0")
    case False
    have s0: "call w SYS_get_consecutive_free_pages (myEnv u) 0 0 0 0 u = Some (Value NULL (with_kernel (entered (kernel_of u)) u))"
      using s unfolding if_not_P [OF False] .
    have "malloc w uh sz u = Some (Value NULL (with_kernel (entered (kernel_of u)) u))"
      using big s0 by (simp add: malloc_def malloc_pages_def Let_def ROUNDUP_wraps [OF sz])
    then show ?thesis unfolding if_not_P [OF False] .
  next
    case True
    have u: "unat (first_page u) = unat (USERH_HARD_LIMIT (running_env (kernel_of u))) + 4096" by (rule first_page_unat [OF ok])
    then have nz: "first_page u \<noteq> NULL" by (metis add_gr_0 less_irrefl unat_0 zero_less_numeral)
    have "\<not> bad_user_range (first_page u) 0"
      using u d(6,7) m True by (auto simp: bad_user_range_def word_le_nat_alt word_less_nat_alt)
    moreover have "allocate_user_mem e va 0 k = Some k" for e va k by (simp add: allocate_user_mem.simps)
    ultimately show ?thesis
      using big s True nz user_page_index [OF refl ok m, of 0] d(1,2)
      by (simp add: malloc_def malloc_pages_def Let_def ROUNDUP_wraps [OF sz] set_marked_def handed_out_def none call_def
          syscall_entered syscall_cases_def sys_allocate_user_mem_def returning_def)
  qed
qed

section \<open>Freeing pages that were never touched\<close>

definition unmark_slots :: "(ptr \<times> u32) set \<Rightarrow> kern \<Rightarrow> kern" where
  "unmark_slots M k = k\<lparr>words := (\<lambda>t i. if (t, i) \<in> M then words k t i AND NOT PAGE_MARKED else words k t i)\<rparr>"

definition untouched :: "kern \<Rightarrow> ptr \<Rightarrow> u32 \<Rightarrow> bool" where
  "untouched k dir va \<longleftrightarrow> table_present k dir va \<and> (case slot k dir va of (t, i) \<Rightarrow> (words k t i AND 0xFFF) AND PAGE_FAULTED = 0)"

lemma unmark_slots_simps [simp]:
  "envs (unmark_slots M k) = envs k" "kcpu (unmark_slots M k) = kcpu k" "syscall_env (unmark_slots M k) = syscall_env k"
  "unmark_slots M (unmark_slots N k) = unmark_slots (M \<union> N) k" "unmark_slots {} k = k"
  by (simp_all add: unmark_slots_def fun_eq_iff)

lemma tables_unmarked:
  assumes "\<forall>(t, i) \<in> M. t \<noteq> dir"
  shows "get_page_table dir va (unmark_slots M k) = get_page_table dir va k"
    "table_present (unmark_slots M k) dir va = table_present k dir va" "slot (unmark_slots M k) dir va = slot k dir va"
    "page_slots (unmark_slots M k) dir va n = page_slots k dir va n"
proof -
  have "words (unmark_slots M k) dir i = words k dir i" for i using assms by (auto simp: unmark_slots_def)
  moreover have "number_of_frames (unmark_slots M k) = number_of_frames k" "frames_info (unmark_slots M k) = frames_info k"
    "frames (unmark_slots M k) = frames k" by (simp_all add: unmark_slots_def)
  ultimately show g: "get_page_table dir va (unmark_slots M k) = get_page_table dir va k" for va
    by (simp add: get_page_table_def Let_def STATIC_KERNEL_VIRTUAL_ADDRESS_def kheap_virtual_address_def to_frame_info_def
        frame_at_def to_frame_number_def)
  show "table_present (unmark_slots M k) dir va = table_present k dir va" "slot (unmark_slots M k) dir va = slot k dir va"
    "page_slots (unmark_slots M k) dir va n = page_slots k dir va n"
    by (simp_all add: table_present_def slot_def page_slots_def g)
qed

lemma faulted_bit: "(x AND 0xFFF) AND PAGE_FAULTED = (0 :: u32) \<longleftrightarrow> \<not> bit x 11"
proof -
  have "(0xFFF :: u32) AND PAGE_FAULTED = 2 ^ 11" by simp
  then have "(x AND 0xFFF) AND PAGE_FAULTED = x AND 2 ^ 11" by (simp only: and.assoc)
  then show ?thesis by (simp only: and_exp_eq_0_iff_not_bit)
qed

lemma marked_bit: "(x AND 0xFFF) AND PAGE_MARKED = (0 :: u32) \<longleftrightarrow> \<not> bit x 10"
proof -
  have "(0xFFF :: u32) AND PAGE_MARKED = 2 ^ 10" by simp
  then have "(x AND 0xFFF) AND PAGE_MARKED = x AND 2 ^ 10" by (simp only: and.assoc)
  then show ?thesis by (simp only: and_exp_eq_0_iff_not_bit)
qed

lemma free_user_page_untouched:
  assumes "untouched k (env_page_directory (envs k e)) va"
  shows "free_user_page e va k = Some (unmark_slots {slot k (env_page_directory (envs k e)) va} k)"
proof -
  let ?dir = "env_page_directory (envs k e)"
  from assms slot_present obtain ret t where
    g: "get_page_table ?dir va k = Some (ret, t)" "t \<noteq> NULL" "slot k ?dir va = (t, PTX va)" unfolding untouched_def by metis
  have f: "(words k t (PTX va) AND 0xFFF) AND PAGE_FAULTED = 0" using assms g(3) by (simp add: untouched_def)
  have "unmark_slots {(t, PTX va)} k = set_word t (PTX va) (words k t (PTX va) AND NOT PAGE_MARKED) k"
    by (simp add: unmark_slots_def set_word_def fun_eq_iff)
  then show ?thesis
    using g f by (simp add: free_user_page_def pt_get_page_permissions_def pt_set_page_permissions_def set_word_def)
qed

lemma untouched_unmarked:
  assumes "\<forall>(t, i) \<in> M. t \<noteq> dir"
  shows "untouched k dir va \<Longrightarrow> untouched (unmark_slots M k) dir va"
proof -
  assume u: "untouched k dir va"
  obtain t i where s: "slot k dir va = (t, i)" by (cases "slot k dir va")
  have "\<not> bit (words k t i) 11" using u s by (simp add: untouched_def faulted_bit)
  then have "\<not> bit (words (unmark_slots M k) t i) 11" by (simp add: unmark_slots_def bit_and_iff)
  then show ?thesis using u s by (simp add: untouched_def tables_unmarked [OF assms] faulted_bit)
qed

lemma free_user_mem_untouched:
  assumes "\<And>j. j < n \<Longrightarrow> untouched k (env_page_directory (envs k e)) (nth_page va j)" "unat sz = n * 4096"
  shows "free_user_mem e va sz k = Some (unmark_slots (page_slots k (env_page_directory (envs k e)) va n) k)"
  using assms
proof (induction n arbitrary: k va sz)
  case 0
  then have "sz = 0" by (simp add: unat_eq_zero)
  then show ?case by (simp add: free_user_mem.simps page_slots_def)
next
  case (Suc n)
  let ?dir = "env_page_directory (envs k e)" let ?k = "unmark_slots {slot k ?dir va} k"
  have t: "untouched k ?dir va" using Suc.prems(1) [of 0] by simp
  have d: "\<forall>(t, i) \<in> {slot k ?dir va}. t \<noteq> ?dir" using t slot_present [of k ?dir va] unfolding untouched_def by force
  have "untouched ?k (env_page_directory (envs ?k e)) (nth_page (va + PAGE_SIZE) j)" if "j < n" for j
    using untouched_unmarked [OF d] Suc.prems(1) [of "Suc j"] that by (simp add: algebra_simps)
  moreover have "PAGE_SIZE \<le> sz" "0 < sz" using Suc.prems(2) by (simp_all add: word_le_nat_alt word_less_nat_alt)
  then have "unat (sz - PAGE_SIZE) = n * 4096" using Suc.prems(2) by (simp add: unat_sub)
  ultimately have "free_user_mem e (va + PAGE_SIZE) (sz - PAGE_SIZE) ?k = Some (unmark_slots (page_slots k ?dir (va + PAGE_SIZE) n) ?k)"
    using Suc.IH [of ?k "va + PAGE_SIZE" "sz - PAGE_SIZE"] by (simp add: tables_unmarked [OF d])
  then show ?case
    using free_user_page_untouched [OF t] \<open>0 < sz\<close>
    by (subst free_user_mem.simps) (simp add: page_slots_Suc)
qed

lemma page_free_unmark:
  assumes "\<forall>(t, i) \<in> M. t \<noteq> dir" "\<forall>(t, i) \<in> M. t \<noteq> NULL" "table_present k dir va \<or> table_absent k dir va"
    "slot k dir va \<in> M \<Longrightarrow> untouched k dir va"
  shows "page_free dir va (unmark_slots M k) = (if slot k dir va \<in> M then Some True else page_free dir va k)"
  using assms(3)
proof
  assume "table_absent k dir va"
  then have g: "get_page_table dir va k = Some (TABLE_NOT_EXIST, NULL)" by (simp add: table_absent_def)
  then have "slot k dir va \<notin> M" using assms(2) by (auto simp: slot_def)
  then show ?thesis using g by (simp add: page_free_def tables_unmarked [OF assms(1)])
next
  assume "table_present k dir va"
  from slot_present [OF this] obtain ret t where
    g: "get_page_table dir va k = Some (ret, t)" "t \<noteq> NULL" "slot k dir va = (t, PTX va)" by metis
  have w: "words (unmark_slots M k) t (PTX va) = (if slot k dir va \<in> M then words k t (PTX va) AND NOT PAGE_MARKED else words k t (PTX va))"
    by (simp add: unmark_slots_def g(3))
  have b: "bit (PAGE_MARKED :: u32) 10" by simp
  have "\<not> bit (words k t (PTX va) AND NOT PAGE_MARKED) 10" by (simp only: bit_and_iff bit_not_iff b) simp
  moreover have "\<not> bit (words k t (PTX va) AND NOT PAGE_MARKED) 11" if "slot k dir va \<in> M"
    using assms(4) [OF that] g(3) by (simp add: untouched_def faulted_bit bit_and_iff)
  ultimately show ?thesis
    using g(1,2) by (simp add: page_free_def pt_get_page_permissions_def tables_unmarked [OF assms(1)] w marked_bit faulted_bit)
qed

text \<open>The program after giving back \<open>n\<close> pages from the \<open>i\<close>-th on.\<close>

definition given_back :: "nat \<Rightarrow> nat \<Rightarrow> program \<Rightarrow> program" where
  "given_back i n u = (with_kernel (unmark_slots (page_slots (kernel_of u) (program_dir u) (nth_page (first_page u) i) n) (entered (kernel_of u))) u)
     \<lparr>marked_page_size := (marked_page_size u)(of_nat i := 0)\<rparr>"

definition page_untouched :: "program \<Rightarrow> nat \<Rightarrow> bool" where
  "page_untouched u j \<longleftrightarrow> untouched (kernel_of u) (program_dir u) (nth_page (first_page u) j)"

lemma untouched_entered [simp]: "untouched (entered k) dir va = untouched k dir va"
  by (simp add: untouched_def)

lemma free_pages_ok:
  assumes ok: "user_ok st (myEnv u) (kernel_of u)" and m: "unat (first_page u) + m * 4096 = 0xA0000000"
    and n: "marked_page_size u (of_nat i) = of_nat n" "i + n < m" and un: "\<And>j. j < n \<Longrightarrow> page_untouched u (i + j)"
    and buf: "isBufferingEnabled (kernel_of u) = 0"
  shows "free_mem w (nth_page (first_page u) i) u = Some (Value 0 (given_back i n u))"
proof -
  let ?va = "nth_page (first_page u) i" let ?k = "kernel_of u" let ?sz = "of_nat n * PAGE_SIZE :: u32"
  note d = user_ok_D [OF ok]
  have mb: "m < 131072" using first_page_unat [OF ok] m d(6,7) by simp
  have va: "unat ?va = unat (first_page u) + i * 4096" by (rule nth_page_heap [of _ m]) (use m n(2) in simp_all)
  have sz: "unat ?sz = n * 4096" using mb n(2) by (subst unat_word_ariths) (simp add: unat_of_nat_u32)
  have "unat (?va + ?sz) = unat ?va + unat ?sz" by (subst unat_word_ariths) (use va sz m n(2) in simp)
  then have good: "\<not> bad_user_range ?va ?sz"
    using va m n(2) first_page_unat [OF ok] d(6,7)
    by (auto simp: bad_user_range_def word_le_nat_alt word_less_nat_alt sz)
  have where_: "\<not> ?va < USERH_BRK (running_env ?k)" "first_page u \<le> ?va" "?va < USER_HEAP_MAX"
    using va m n(2) first_page_unat [OF ok] d(7) by (simp_all add: word_le_nat_alt word_less_nat_alt)
  have "free_user_mem (cpu_proc (kcpu ?k)) ?va ?sz (entered ?k) =
      Some (unmark_slots (page_slots (entered ?k) (env_page_directory (envs (entered ?k) (cpu_proc (kcpu ?k)))) ?va n) (entered ?k))"
  proof (rule free_user_mem_untouched)
    show "untouched (entered ?k) (env_page_directory (envs (entered ?k) (cpu_proc (kcpu ?k)))) (nth_page ?va j)" if "j < n" for j
      using un [OF that] unfolding nth_page_nth page_untouched_def by simp
  qed (rule sz)
  then have "free_pages w ?va u = Some (Value 0 (given_back i n u))"
    using d(1,2) user_page_index [OF refl ok m, of i] n good buf
    by (simp add: free_pages_def Let_def call_def syscall_entered syscall_cases_def sys_free_user_mem_def returning_def
        given_back_def set_marked_def)
  then show ?thesis
    using where_ d(4) by (simp add: free_mem_def Let_def)
qed

lemma given_back_free:
  assumes ok: "user_ok st e (kernel_of u)" and m: "unat (first_page u) + m * 4096 = 0xA0000000" and n: "i + n \<le> m" and j: "j < m"
    and un: "\<And>x. x < n \<Longrightarrow> page_untouched u (i + x)"
  shows "page_is_free (given_back i n u) j \<longleftrightarrow> page_is_free u j \<or> (i \<le> j \<and> j < i + n)"
proof -
  have run: "has_tables u i n" using un by (simp add: has_tables_def page_untouched_def untouched_def)
  note d = user_ok_D [OF ok] and r = run_slots_apart [OF run]
  let ?k = "kernel_of u" let ?dir = "program_dir u" let ?a = "first_page u" let ?M = "page_slots ?k ?dir (nth_page ?a i) n"
  have lo: "unat (USERH_BRK (running_env ?k)) \<le> unat ?a" using first_page_unat [OF ok] d(7) by simp
  note s = in_page_slots [OF d(5) lo m n j run [unfolded has_tables_def]]
  have "untouched (entered ?k) ?dir (nth_page ?a j)" if "slot (entered ?k) ?dir (nth_page ?a j) \<in> ?M"
  proof -
    have c: "i \<le> j" "j - i < n" using that s by auto
    then show ?thesis using un [OF c(2)] by (simp add: page_untouched_def)
  qed
  then have "page_free ?dir (nth_page ?a j) (unmark_slots ?M (entered ?k)) =
      (if slot (entered ?k) ?dir (nth_page ?a j) \<in> ?M then Some True else page_free ?dir (nth_page ?a j) (entered ?k))"
    using r pages_known [OF ok m j] by (intro page_free_unmark) simp_all
  then show ?thesis using s by (auto simp: page_is_free_def given_back_def)
qed

lemma handed_out_same [simp]:
  "myEnv (handed_out i n u) = myEnv u" "first_page (handed_out i n u) = first_page u" "program_dir (handed_out i n u) = program_dir u"
  "marked_page_size (handed_out i n u) = (marked_page_size u)(of_nat i := of_nat n)"
  "isBufferingEnabled (kernel_of (handed_out i n u)) = isBufferingEnabled (kernel_of u)" "heap_mem (handed_out i n u) = heap_mem u"
  by (simp_all add: handed_out_def entered_def mark_slots_def isBufferingEnabled_def with_kernel_def)

lemma handed_out_ok:
  assumes ok: "user_ok st e (kernel_of u)" and run: "has_tables u i n"
  shows "user_ok st e (kernel_of (handed_out i n u))"
proof -
  have "\<forall>j < n. table_present (entered (kernel_of u)) (program_dir u) (nth_page (nth_page (first_page u) i) j)"
    using run_slots_apart(1) [OF run] by simp
  then show ?thesis
    using user_ok_marked [OF user_ok_entered [OF ok], of _ "nth_page (first_page u) i" n]
    by (simp add: handed_out_def with_kernel_def)
qed

lemma handed_out_untouched:
  assumes run: "has_tables u i n" and x: "x < n" and fr: "page_is_free u (i + x)"
  shows "page_untouched (handed_out i n u) (i + x)"
proof -
  note r = run_slots_apart [OF run]
  let ?k = "kernel_of u" let ?dir = "program_dir u" let ?va = "nth_page (first_page u) (i + x)"
  let ?M = "page_slots ?k ?dir (nth_page (first_page u) i) n"
  have p: "table_present ?k ?dir ?va" using run x by (simp add: has_tables_def)
  from slot_present [OF p] obtain ret t where
    g: "get_page_table ?dir ?va ?k = Some (ret, t)" "t \<noteq> NULL" "slot ?k ?dir ?va = (t, PTX ?va)" by metis
  have "\<not> bit (words ?k t (PTX ?va)) 11"
    using fr g by (simp add: page_is_free_def page_free_def pt_get_page_permissions_def faulted_bit)
  then have "\<not> bit (words (mark_slots ?M (entered ?k)) t (PTX ?va)) 11" by (simp add: mark_slots_def bit_or_iff)
  moreover have "slot (mark_slots ?M (entered ?k)) ?dir ?va = (t, PTX ?va)" "table_present (mark_slots ?M (entered ?k)) ?dir ?va"
    using present_marked [OF r(2), of "entered ?k" ?va] p g(3) by simp_all
  ultimately have "untouched (mark_slots ?M (entered ?k)) ?dir ?va" by (simp add: untouched_def faulted_bit)
  then show ?thesis by (simp add: page_untouched_def handed_out_def with_kernel_def)
qed

section \<open>Properties\<close>

text \<open>C33: malloc of at most half a page, for a program with first fit: the request goes into the first
  free block that is large enough; when there is none the break of the process moves up by one page and
  the request goes there. Null is returned, with the heap as before, exactly when that page would pass the
  hard limit of the process. The heap stays well-formed and no allocated payload changes. The page tables
  of the block part of the heap, from the break to the hard limit, exist already.\<close>

theorem malloc_small_correct:
  assumes "user_heap uh base bs u" "sz \<noteq> 0" "unat sz \<le> 2048"
  shows "\<exists>p u'. malloc w uh sz u = Some (Value p u') \<and> malloc_outcome uh base bs (unat sz) u p u'"
  by (rule malloc_small_ok [OF assms])

text \<open>C34: malloc of more than half a page takes the first run of free pages above the block allocator
  that is long enough: null if there is none, and otherwise exactly these pages are no longer free, and
  their number is noted for free. A size that is more than \<open>0xFFFFF000\<close> wraps around to no pages: then malloc
  returns the first page, if it is free, without handing out anything. A page without
  a page table is free; the tables of the run taken exist, and it does not reach to the very end of the heap.\<close>

theorem malloc_pages_first_fit:
  assumes "user_ok st (myEnv u) (kernel_of u)" "unat (first_page u) + m * 4096 = 0xA0000000"
    and "2048 < unat sz" "n = rounded_pages sz"
    and "\<And>i. 0 < n \<Longrightarrow> chosen_run (page_is_free u) m n = Some i \<Longrightarrow> i + n < m \<and> has_tables u i n"
  shows "\<exists>u'. malloc w uh sz u = Some (Value (case chosen_run (page_is_free u) m n of None \<Rightarrow> NULL | Some i \<Rightarrow> nth_page (first_page u) i) u') \<and>
    user_ok st (myEnv u') (kernel_of u') \<and> first_page u' = first_page u \<and> heap_mem u' = heap_mem u \<and>
    (case chosen_run (page_is_free u) m n of
       None \<Rightarrow> marked_page_size u' = marked_page_size u \<and> (\<forall>j < m. page_is_free u' j = page_is_free u j)
     | Some i \<Rightarrow> marked_page_size u' = (marked_page_size u)(of_nat i := of_nat n) \<and>
         (\<forall>j < m. page_is_free u' j \<longleftrightarrow> page_is_free u j \<and> \<not> (i \<le> j \<and> j < i + n)))"
proof -
  have same: "page_is_free (with_kernel (entered (kernel_of u)) u) j = page_is_free u j" for j by (simp add: page_is_free_def)
  show ?thesis
  proof (cases "unat sz \<le> 0xFFFFF000")
    case big: False
    then have n: "n = 0" using assms(4) by (simp add: rounded_pages_simps)
    have none: "has_tables u 0 0" by (simp add: has_tables_def)
    show ?thesis
      using malloc_wraps [of sz st u m w uh] big assms(1,2) same handed_out_ok [OF assms(1) none]
        handed_out_free [OF assms(1,2) _ _ none] handed_out_limit [of 0 0 u]
      by (cases "0 < m \<and> page_is_free u 0") (auto simp: n chosen_run_def)
  next
    case True
    then have n: "n = pages (unat sz)" using assms(4) by (simp add: rounded_pages_simps)
    then have pos: "0 < n" using rounded_size(4) [OF assms(3) True] by simp
    then have c: "chosen_run (page_is_free u) m n = first_run (page_is_free u) m n" by (simp add: chosen_run_def)
    show ?thesis
    proof (cases "first_run (page_is_free u) m n")
      case None
      then have "malloc w uh sz u = Some (Value NULL (with_kernel (entered (kernel_of u)) u))"
        using malloc_pages_start [OF assms(3) True assms(1,2), of None w uh] n by (simp add: Let_def)
      then show ?thesis
        using assms(1) same unfolding c None option.case
        by (intro exI [of _ "with_kernel (entered (kernel_of u)) u"]) simp
    next
      case (Some i)
      then have i: "i + n < m" "has_tables u i n" using assms(5) [OF pos] by (simp_all add: c)
      show ?thesis
        using malloc_pages_ok [OF assms(3) True assms(1,2), folded n, OF Some i, of w uh] i
          handed_out_ok [OF assms(1) i(2)] handed_out_free [OF assms(1,2) _ _ i(2)] handed_out_limit [of i n u]
        unfolding c Some option.case by (intro exI [of _ "handed_out i n u"]) simp
    qed
  qed
qed

text \<open>C35: What malloc took in whole pages, and the program never touched, free gives back: afterwards
  exactly the pages are free that were free before. The page tables of the run exist already.\<close>

theorem malloc_free_pages_roundtrip:
  assumes "user_ok st (myEnv u) (kernel_of u)" "unat (first_page u) + m * 4096 = 0xA0000000"
    and "2048 < unat sz" "unat sz \<le> 0xFFFFF000" "n = pages (unat sz)"
    and "first_run (page_is_free u) m n = Some i" "i + n < m" "has_tables u i n" "isBufferingEnabled (kernel_of u) = 0"
  shows "\<exists>p u' u''. malloc w uh sz u = Some (Value p u') \<and> free_mem w p u' = Some (Value 0 u'') \<and>
    (\<forall>j < m. page_is_free u'' j = page_is_free u j) \<and> marked_page_size u'' = (marked_page_size u)(of_nat i := 0)"
proof -
  let ?u = "handed_out i n u"
  have n: "i + n \<le> m" using assms(7) by simp
  note ok = handed_out_ok [OF assms(1,8)]
  have run: "page_is_free u (i + j)" if "j < n" for j
    using first_run_D(2) [OF assms(6)] that by (simp add: free_run_def)
  have un: "page_untouched ?u (i + j)" if "j < n" for j
    by (rule handed_out_untouched [OF assms(8) that run [OF that]])
  have f: "free_mem w (nth_page (first_page u) i) ?u = Some (Value 0 (given_back i n ?u))"
    using free_pages_ok [of st ?u m i n w] ok assms(2,7,9) un by simp
  have "page_is_free (given_back i n ?u) j = page_is_free u j" if j: "j < m" for j
  proof -
    have "page_is_free (given_back i n ?u) j \<longleftrightarrow> page_is_free ?u j \<or> i \<le> j \<and> j < i + n"
      by (rule given_back_free [OF ok _ n j un]) (use assms(2) in simp_all)
    moreover have "page_is_free u j" if "i \<le> j" "j < i + n"
    proof -
      have "j - i < n" "i + (j - i) = j" using that by linarith+
      then show ?thesis using run by metis
    qed
    ultimately show ?thesis using handed_out_free [OF assms(1,2) n j assms(8)] by blast
  qed
  moreover have "marked_page_size (given_back i n ?u) = (marked_page_size u)(of_nat i := 0)" by (simp add: given_back_def)
  ultimately show ?thesis
    using malloc_pages_ok [OF assms(3,4,1,2), of i w uh] assms(5-8) f by (intro exI conjI) auto
qed

text \<open>C36: malloc of the pages that reach exactly to the end of the user heap, though all of them are free,
  ends the process: the system call that hands them out rejects an end that is the limit itself and
  makes the caller exit.\<close>

theorem malloc_to_the_end_exits:
  assumes "user_ok st e (kernel_of u)" "e = myEnv u" "unat (first_page u) + m * 4096 = 0xA0000000"
    and "2048 < unat sz" "unat sz \<le> 0xFFFFF000"
    and "first_run (page_is_free u) m (pages (unat sz)) = Some i" "i + pages (unat sz) = m"
    and "processes_ok (kernel_of u) qs" "e \<notin> queued qs" "qs New = Some ns" "qs Exited = Some xs" "EnableBuffering (kernel_of u) = 0"
    and "\<And>x. x \<in> set ns \<Longrightarrow> env_id (envs (kernel_of u) x) \<noteq> env_id (envs (kernel_of u) e)"
    and "\<And>j. j < unat (num_of_ready_queues (kernel_of u)) \<Longrightarrow>
      \<exists>xs. qs (Ready j) = Some xs \<and> (\<forall>x \<in> set xs. env_id (envs (kernel_of u) x) \<noteq> env_id (envs (kernel_of u) e))"
  shows "\<exists>saved k'. malloc w uh sz u = Some (Away (Suspends Exiting saved k')) \<and>
    processes_ok k' (qs(Exited \<mapsto> e # xs)) \<and> env_status (envs k' e) = ENV_EXIT"
proof -
  let ?va = "nth_page (first_page u) i" let ?k = "kernel_of u"
  note z = rounded_size [OF assms(4,5)] and d = user_ok_D [OF assms(1)]
  have va: "unat ?va = unat (first_page u) + i * 4096"
    by (rule nth_page_heap [of _ m]) (use assms(3,7) z(4) in simp_all)
  have "unat (?va + ROUNDUP sz PAGE_SIZE) = unat ?va + unat (ROUNDUP sz PAGE_SIZE)"
    by (subst unat_word_ariths) (use va z(1) assms(3,7) in simp)
  then have "bad_user_range ?va (ROUNDUP sz PAGE_SIZE)"
    using va z(1) assms(3,7) by (simp add: bad_user_range_def word_le_nat_alt)
  moreover have "\<exists>saved k'. env_exit (entered ?k) = Some (Gives_up saved k') \<and> in_sched k' \<and>
      processes_ok k' (qs(Exited \<mapsto> e # xs)) \<and> env_status (envs k' e) = ENV_EXIT \<and> same_memory k' (entered ?k)"
  proof (rule exit_running_ok)
    show "processes_ok (entered ?k) qs" by (rule processes_ok_fields [OF assms(8)]) (simp_all add: entered_def)
    show "EnableBuffering (entered ?k) = 0" using assms(12) by (simp add: entered_def)
    show "\<exists>xs. qs (Ready j) = Some xs \<and> (\<forall>x \<in> set xs. env_id (envs (entered ?k) x) \<noteq> env_id (envs (entered ?k) e))"
      if "j < unat (num_of_ready_queues (entered ?k))" for j
      using assms(14) [of j] that by (simp add: entered_def)
  qed (use d assms in simp_all)
  ultimately show ?thesis
    using malloc_pages_start [OF assms(4,5) _ assms(3,6), of st w uh] assms(1,2) d(1,2)
    by (auto simp: Let_def call_def syscall_entered syscall_cases_def sys_allocate_user_mem_def as_result_def)
qed

section \<open>A program with two free pages\<close>

text \<open>One page of blocks below the break at \<^verbatim>\<open>0x9FFF0000\<close>, two pages above the hard limit; two processes wait in NEW.\<close>

definition user_kern :: kern where
  "user_kern = (boot_arrivals 1)\<lparr>envs := (envs (boot_arrivals 1))
       (0xEEC00000 := (envs (boot_arrivals 1) 0xEEC00000)
          \<lparr>env_page_directory := 0xF0400000, USERH_BRK := 0x9FFF0000, USERH_HARD_LIMIT := 0x9FFFD000\<rparr>),
     frames := boot_frames(0xF0504FE0 := zero_frame\<lparr>references := 1, base_va_page := 0xF027F000\<rparr>)\<rparr>"

definition page_block :: "kern da" where
  "page_block = the (initialize_dynamic_allocator 0x9FFEF000 4096
     \<lparr>da_mem = (\<lambda>_. 0), freeBlocksList = blank_head, is_initialized = False, da_world = user_kern\<rparr>)"

definition user_program :: program where
  "user_program = \<lparr>heap = page_block, myEnv = 0xEEC00000, marked_page_size = (\<lambda>_. 0), va_page_id_share_object = (\<lambda>_. 0)\<rparr>"

definition first_fit :: uheap_strategies where
  "first_fit = \<lparr>UHP_PLACE_FIRSTFIT = 1, UHP_PLACE_BESTFIT = 2, UHP_PLACE_NEXTFIT = 3, UHP_PLACE_WORSTFIT = 4\<rparr>"

lemma user_kern_simps [simp]:
  "env_page_directory (envs user_kern 0xEEC00000) = 0xF0400000" "USERH_BRK (envs user_kern 0xEEC00000) = 0x9FFF0000"
  "USERH_HARD_LIMIT (envs user_kern 0xEEC00000) = 0x9FFFD000" "cpu_proc (kcpu user_kern) = 0xEEC00000"
  "UHeapPlacementStrategy user_kern = 1" "isBufferingEnabled user_kern = 0" "in_process user_kern"
  "EnableBuffering user_kern = 0" "num_of_ready_queues user_kern = 1"
  using arrivals_process [of 1]
  by (simp_all add: user_kern_def boot_arrivals_def boot_kern_def in_process_def)

lemma page_block: "da_inv 0x9FFEF000 [(4088, False)] page_block" "da_world page_block = user_kern"
proof -
  let ?s = "\<lparr>da_mem = (\<lambda>_. 0), freeBlocksList = blank_head, is_initialized = False, da_world = user_kern\<rparr>"
  have "returns (initialize_dynamic_allocator (of_nat 0x9FFEF000) (of_nat 4096) ?s)
    (\<lambda>s'. da_inv 0x9FFEF000 [(4096 - 8, False)] s' \<and> same_on (- {0x9FFEF000..<0x9FFEF000 + 4096}) (da_mem ?s) (da_mem s') \<and> da_world s' = da_world ?s)"
    by (rule initialize_refines) simp_all
  then show "da_inv 0x9FFEF000 [(4088, False)] page_block" "da_world page_block = user_kern"
    by (auto simp: page_block_def elim!: returnsE)
qed

lemma user_kern_table: "PDX va = 0x27F \<Longrightarrow> va < USER_TOP \<Longrightarrow> get_page_table 0xF0400000 va user_kern = Some (TABLE_IN_MEMORY, 0xF027F000)"
  by (simp add: get_page_table_def user_kern_def boot_arrivals_def boot_kern_def boot_words_def kheap_virtual_address_def to_frame_info_def
      frame_at_def to_frame_number_def zero_frame_def CHECK_IF_KERNEL_ADDRESS_def EXTRACT_ADDRESS_def PPN_def Let_def not_le)

lemma user_kern_high:
  assumes "0x9FFF0000 \<le> va" "va < USER_HEAP_MAX"
  shows "PDX va = 0x27F \<and> va < USER_TOP"
proof -
  have "0x9FFF0000 \<le> unat va" "unat va < 0xA0000000" using assms by (simp_all add: word_le_nat_alt word_less_nat_alt)
  then have "unat va div 4194304 = 0x27F" by (intro div_nat_eqI) simp_all
  then have "unat (PDX va) = unat (0x27F :: u32)" by (simp add: unat_PDX)
  moreover have "va < USER_TOP" by (rule less_trans [OF assms(2)]) simp
  ultimately show ?thesis by (simp only: word_unat_eq_iff)
qed

lemma user_kern_present: "0x9FFF0000 \<le> va \<Longrightarrow> va < USER_HEAP_MAX \<Longrightarrow> table_present user_kern 0xF0400000 va"
  using user_kern_table [of va] user_kern_high [of va] by (simp add: table_present_def)

lemma user_kern_tables: "heap_tables user_kern 0xF0400000 0x9FFF0000 hi"
proof -
  have s: "slot user_kern 0xF0400000 va = (0xF027F000, PTX va)" if "0x9FFF0000 \<le> va" "va < USER_HEAP_MAX" for va
    using user_kern_table user_kern_high [OF that] by (simp add: slot_def)
  show ?thesis
    unfolding heap_tables_def
  proof (intro conjI allI impI)
    fix va :: u32 assume "0x9FFF0000 \<le> va" "va < USER_HEAP_MAX"
    then show "table_present user_kern 0xF0400000 va \<or> hi \<le> va \<and> table_absent user_kern 0xF0400000 va"
      using user_kern_present by blast
  next
    fix va va' :: u32
    assume a: "0x9FFF0000 \<le> va" "va < USER_HEAP_MAX" "0x9FFF0000 \<le> va'" "va' < USER_HEAP_MAX"
      "slot user_kern 0xF0400000 va = slot user_kern 0xF0400000 va'"
    have "(0xF027F000 :: ptr, PTX va) = (0xF027F000, PTX va')" using s [OF a(1,2)] s [OF a(3,4)] a(5) by (simp only:)
    moreover have "PDX va = PDX va'" using user_kern_high [OF a(1,2)] user_kern_high [OF a(3,4)] by simp
    ultimately have "unat va div 4096 = unat va' div 4096" by (intro same_entry) simp_all
    then show "PPN va = PPN va'" by (simp only: word_unat_eq_iff unat_PPN)
  qed
qed

lemma user_kern_ok: "user_ok 1 0xEEC00000 user_kern"
  using user_kern_tables by (simp add: user_ok_def)

lemma user_program_simps [simp]:
  "da_world page_block = user_kern" "myEnv user_program = 0xEEC00000" "heap user_program = page_block"
  by (simp_all add: user_program_def page_block(2))

lemma user_program_heap: "user_heap first_fit 0x9FFEF000 [(4088, False)] user_program"
  using page_block user_kern_ok by (simp add: user_heap_def heap_state_def first_fit_def)

lemma user_program_free: "j < 2 \<Longrightarrow> page_is_free user_program j"
proof -
  assume "j < 2"
  then have "j = 0 \<or> j = 1" by linarith
  moreover have "page_free 0xF0400000 va user_kern = Some True" if "PDX va = 0x27F" "va < USER_TOP" for va
    using that by (simp add: page_free_def pt_get_page_permissions_def user_kern_table)
      (simp add: user_kern_def boot_arrivals_def boot_kern_def boot_words_def)
  from this [of "0x9FFFE000"] this [of "0x9FFFF000"]
  have "page_free 0xF0400000 0x9FFFE000 user_kern = Some True" "page_free 0xF0400000 0x9FFFF000 user_kern = Some True" by (simp_all add: PDX_def)
  ultimately show ?thesis by (auto simp: page_is_free_def)
qed

lemma user_program_runs: "first_run (page_is_free user_program) 2 (Suc 0) = Some 0" "first_run (page_is_free user_program) 2 2 = Some 0"
  by (rule first_run_SomeI; simp add: free_run_def user_program_free)+

lemma user_program_tables: "has_tables user_program 0 1" "has_tables user_program 0 0"
  using user_kern_present [of "0x9FFFE000"] by (simp_all add: has_tables_def)

theorem malloc_small_correct_witness:
  "\<forall>w. \<exists>p u'. malloc w first_fit 100 user_program = Some (Value p u') \<and> p = 0x9FFEF008 \<and>
     user_heap first_fit 0x9FFEF000 [(108, True), (3980, False)] u'"
proof
  fix w
  have "\<exists>p u'. malloc w first_fit 100 user_program = Some (Value p u') \<and>
      malloc_outcome first_fit 0x9FFEF000 [(4088, False)] (unat (100 :: u32)) user_program p u'"
    by (rule malloc_small_correct [OF user_program_heap]) simp_all
  then show "\<exists>p u'. malloc w first_fit 100 user_program = Some (Value p u') \<and> p = 0x9FFEF008 \<and>
     user_heap first_fit 0x9FFEF000 [(108, True), (3980, False)] u'" by (auto simp: malloc_outcome_def small_heap_choice simp del: ff_alloc.simps)
qed

lemma user_program_end: "unat (first_page user_program) + 2 * 4096 = 0xA0000000"
  by simp

lemma pages_3000: "pages 3000 = Suc 0" "pages 5000 = 2"
  by (simp_all add: pages_def)

theorem malloc_pages_first_fit_witness:
  "\<forall>w. (\<exists>u'. malloc w first_fit 3000 user_program = Some (Value 0x9FFFE000 u') \<and> \<not> page_is_free u' 0 \<and> page_is_free u' 1) \<and>
    (\<exists>u'. malloc w first_fit 0xFFFFFFFF user_program = Some (Value 0x9FFFE000 u') \<and> page_is_free u' 0)"
proof (intro allI conjI)
  fix w
  have ok: "user_ok 1 (myEnv user_program) (kernel_of user_program)" using user_kern_ok by simp
  have r: "rounded_pages 3000 = 1" "rounded_pages 0xFFFFFFFF = 0" by (simp_all add: rounded_pages_simps pages_3000)
  have c: "chosen_run (page_is_free user_program) 2 1 = Some 0" "chosen_run (page_is_free user_program) 2 0 = Some 0"
    using user_program_runs user_program_free [of 0] by (simp_all add: chosen_run_def)
  from malloc_pages_first_fit [where n = 1 and w = w and uh = first_fit and sz = 3000, OF ok user_program_end]
  obtain u' where "malloc w first_fit 3000 user_program = Some (Value 0x9FFFE000 u')"
      "\<forall>j < 2. page_is_free u' j \<longleftrightarrow> page_is_free user_program j \<and> 0 < j"
    using r c user_program_tables by auto
  then show "\<exists>u'. malloc w first_fit 3000 user_program = Some (Value 0x9FFFE000 u') \<and> \<not> page_is_free u' 0 \<and> page_is_free u' 1"
    using user_program_free [of 1] by (intro exI [of _ u']) simp
  from malloc_pages_first_fit [where n = 0 and w = w and uh = first_fit and sz = "0xFFFFFFFF", OF ok user_program_end]
  obtain u' where "malloc w first_fit 0xFFFFFFFF user_program = Some (Value 0x9FFFE000 u')"
      "\<forall>j < 2. page_is_free u' j \<longleftrightarrow> page_is_free user_program j"
    using r c user_program_tables by auto
  then show "\<exists>u'. malloc w first_fit 0xFFFFFFFF user_program = Some (Value 0x9FFFE000 u') \<and> page_is_free u' 0"
    using user_program_free [of 0] by (intro exI [of _ u']) simp
qed

theorem malloc_free_pages_roundtrip_witness:
  "\<forall>w. \<exists>p u' u''. malloc w first_fit 3000 user_program = Some (Value p u') \<and> free_mem w p u' = Some (Value 0 u'') \<and>
     page_is_free u'' 0 \<and> page_is_free u'' 1"
proof
  fix w
  have "\<exists>p u' u''. malloc w first_fit 3000 user_program = Some (Value p u') \<and> free_mem w p u' = Some (Value 0 u'') \<and>
      (\<forall>j < 2. page_is_free u'' j = page_is_free user_program j) \<and> marked_page_size u'' = (marked_page_size user_program)(of_nat 0 := 0)"
    by (rule malloc_free_pages_roundtrip [OF _ user_program_end, where st = 1 and n = 1])
      (use user_kern_ok user_program_tables in \<open>simp_all add: pages_3000 user_program_runs\<close>)
  then show "\<exists>p u' u''. malloc w first_fit 3000 user_program = Some (Value p u') \<and> free_mem w p u' = Some (Value 0 u'') \<and>
     page_is_free u'' 0 \<and> page_is_free u'' 1" using user_program_free [of 0] user_program_free [of 1] by (auto simp: all_less_two)
qed

theorem malloc_to_the_end_exits_witness:
  "\<forall>w. \<exists>saved k'. malloc w first_fit 5000 user_program = Some (Away (Suspends Exiting saved k')) \<and>
     env_status (envs k' 0xEEC00000) = ENV_EXIT"
proof
  fix w
  have ok: "processes_ok user_kern arrivals"
  proof -
    have "queues_ok user_kern arrivals"
      by (simp add: queues_ok_def dll_def user_kern_def boot_arrivals_def arrival_def blank_env_def last_or_def arrivals_def blank_head_def)
    moreover have "statuses_ok user_kern arrivals"
      by (simp add: statuses_ok_def user_kern_def boot_arrivals_def arrival_def blank_env_def arrivals_def)
    ultimately show ?thesis by (simp add: processes_ok_def)
  qed
  have ids: "env_id (envs user_kern 0xEEC00000) = 7" "env_id (envs user_kern 0xEEC00400) = 2" "env_id (envs user_kern 0xEEC00800) = 1"
    by (simp_all add: user_kern_def boot_arrivals_def arrival_def)
  have "\<exists>saved k'. malloc w first_fit 5000 user_program = Some (Away (Suspends Exiting saved k')) \<and>
      processes_ok k' (arrivals(Exited \<mapsto> 0xEEC00000 # [])) \<and> env_status (envs k' 0xEEC00000) = ENV_EXIT"
    by (rule malloc_to_the_end_exits [OF _ _ user_program_end, where st = 1 and i = 0 and ns = "[0xEEC00400, 0xEEC00800]"])
      (use user_kern_ok ok ids in \<open>auto simp: pages_3000 user_program_runs\<close>)
  then show "\<exists>saved k'. malloc w first_fit 5000 user_program = Some (Away (Suspends Exiting saved k')) \<and>
     env_status (envs k' 0xEEC00000) = ENV_EXIT" by blast
qed

end
