(* ===== verification/FOS_Prompt.thy ===== *)
theory FOS_Prompt
  imports FOS_Commands
begin

text \<open>
  The interpreter of the kernel prompt, \<^verbatim>\<open>kern/cmd/command_prompt.c\<close>: the table of commands, finding
  the command a line means, and running it. The commands lie in an array at \<open>command_base\<close>, 24 bytes
  each, and the ones found for a line are linked into the list \<^verbatim>\<open>foundCommands\<close>.
\<close>

section \<open>The table of commands\<close>

datatype command_function =
    command_help | command_kernel_info | command_meminfo' | command_print_sch_method | command_run_all
  | command_print_all | command_kill_all | command_set_page_rep_FIFO | command_set_page_rep_CLOCK
  | command_set_page_rep_ModifiedCLOCK | command_print_page_rep | command_set_uheap_plac_FIRSTFIT
  | command_set_uheap_plac_BESTFIT | command_set_uheap_plac_NEXTFIT | command_set_uheap_plac_WORSTFIT
  | command_print_uheap_plac | command_set_kheap_plac_CONTALLOC | command_set_kheap_plac_FIRSTFIT
  | command_set_kheap_plac_BESTFIT | command_set_kheap_plac_NEXTFIT | command_set_kheap_plac_WORSTFIT
  | command_print_kheap_plac | command_disable_buffering' | command_enable_buffering'
  | command_disable_modified_buffer' | command_enable_modified_buffer' | command_get_modified_buffer_length
  | command_kill_program' | command_readmem_k | command_sch_RR' | command_sch_test | command_set_page_rep_LRU'
  | command_set_modified_buffer_length' | command_set_starve_thresh | command_writemem_k' | command_sch_BSD
  | command_set_priority | command_set_page_rep_nthCLOCK' | command_readuserblock' | command_run_program'
  | command_writeusermem' | command_readusermem' | command_sch_MLFQ | commnad_load_env' | command_tst

definition ascii :: "string \<Rightarrow> u8 list" where
  "ascii = map of_char"

definition command_table :: "(u8 list \<times> command_function \<times> int) list" where
  "command_table = map (\<lambda>(name, f, n). (ascii name, f, n))
    [(''help'', command_help, 0), (''kernel_info'', command_kernel_info, 0), (''meminfo'', command_meminfo', 0),
     (''sched?'', command_print_sch_method, 0), (''runall'', command_run_all, 0), (''printall'', command_print_all, 0),
     (''killall'', command_kill_all, 0), (''fifo'', command_set_page_rep_FIFO, 0), (''clock'', command_set_page_rep_CLOCK, 0),
     (''modifiedclock'', command_set_page_rep_ModifiedCLOCK, 0), (''rep?'', command_print_page_rep, 0),
     (''uhfirstfit'', command_set_uheap_plac_FIRSTFIT, 0), (''uhbestfit'', command_set_uheap_plac_BESTFIT, 0),
     (''uhnextfit'', command_set_uheap_plac_NEXTFIT, 0), (''uhworstfit'', command_set_uheap_plac_WORSTFIT, 0),
     (''uheap?'', command_print_uheap_plac, 0), (''khcontalloc'', command_set_kheap_plac_CONTALLOC, 0),
     (''khfirstfit'', command_set_kheap_plac_FIRSTFIT, 0), (''khbestfit'', command_set_kheap_plac_BESTFIT, 0),
     (''khnextfit'', command_set_kheap_plac_NEXTFIT, 0), (''khworstfit'', command_set_kheap_plac_WORSTFIT, 0),
     (''kheap?'', command_print_kheap_plac, 0), (''nobuff'', command_disable_buffering', 0), (''buff'', command_enable_buffering', 0),
     (''nomodbuff'', command_disable_modified_buffer', 0), (''modbuff'', command_enable_modified_buffer', 0),
     (''modbufflength?'', command_get_modified_buffer_length, 0),
     (''kill'', command_kill_program', 1), (''rm'', command_readmem_k, 1), (''schedRR'', command_sch_RR', 1),
     (''schedTest'', command_sch_test, 1), (''lru'', command_set_page_rep_LRU', 1),
     (''modbufflength'', command_set_modified_buffer_length', 1), (''setStarvThr'', command_set_starve_thresh, 1),
     (''wm'', command_writemem_k', 2), (''schedBSD'', command_sch_BSD, 2), (''setPri'', command_set_priority, 2),
     (''nclock'', command_set_page_rep_nthCLOCK', 2),
     (''rub'', command_readuserblock', 3),
     (''run'', command_run_program', - 1), (''wum'', command_writeusermem', - 1), (''rum'', command_readusermem', - 1),
     (''schedMLFQ'', command_sch_MLFQ, - 1), (''load'', commnad_load_env', - 1), (''tst'', command_tst, - 1)]"

definition NUM_OF_COMMANDS :: nat where
  "NUM_OF_COMMANDS = length command_table"

record command =
  cmd_name :: "u8 list"
  function_to_execute :: command_function
  num_of_args :: int
  cmd_next :: ptr
  cmd_prev :: ptr

record shell =
  command_base :: ptr
  commands :: "ptr \<Rightarrow> command"
  foundCommands :: list_head

definition command_at :: "shell \<Rightarrow> nat \<Rightarrow> ptr" where
  "command_at sh i = command_base sh + of_nat (24 * i)"

definition command_links :: "(ptr \<Rightarrow> command) link_ops" where
  "command_links = \<lparr>le_next = (\<lambda>t x. cmd_next (t x)), set_le_next = (\<lambda>x v t. t(x := (t x)\<lparr>cmd_next := v\<rparr>)),
     le_prev = (\<lambda>t x. cmd_prev (t x)), set_le_prev = (\<lambda>x v t. t(x := (t x)\<lparr>cmd_prev := v\<rparr>))\<rparr>"

section \<open>Finding the command\<close>

abbreviation "CMD_INVALID \<equiv> - 3 :: int"
abbreviation "CMD_INV_NUM_ARGS \<equiv> - 2 :: int"
abbreviation "CMD_MATCHED \<equiv> - 1 :: int"

text \<open>The two pointers that look for a subsequence; the result is where the first one stops.\<close>

function two_pointers :: "u8 list \<Rightarrow> u8 list \<Rightarrow> nat \<Rightarrow> nat \<Rightarrow> nat" where
  "two_pointers arg name ptr1 ptr2 =
    (if ptr1 < length arg \<and> ptr2 < length name
     then two_pointers arg name (if arg ! ptr1 = name ! ptr2 then ptr1 + 1 else ptr1) (ptr2 + 1)
     else ptr1)"
  by pat_completeness auto
termination by (relation "measure (\<lambda>(_, name, _, ptr2). length name - ptr2)") auto

declare two_pointers.simps [simp del]

definition args_fit :: "u32 \<Rightarrow> command \<Rightarrow> bool" where
  "args_fit number_of_arguments c \<longleftrightarrow>
    sint number_of_arguments - 1 = num_of_args c \<or> num_of_args c = - 1 \<and> sint number_of_arguments - 1 \<ge> 1"

definition add_found :: "bool \<Rightarrow> nat \<Rightarrow> shell \<Rightarrow> shell option" where
  "add_found at_head i sh = do {
     (h, t) \<leftarrow> (if at_head then LIST_INSERT_HEAD else LIST_INSERT_TAIL) command_links (command_at sh i) (foundCommands sh) (commands sh);
     Some (sh\<lparr>foundCommands := h, commands := t\<rparr>)
   }"

primrec collect_matches :: "u8 list \<Rightarrow> nat list \<Rightarrow> bool \<Rightarrow> shell \<Rightarrow> (bool \<times> shell) option" where
  "collect_matches arg [] found_subs sh = Some (found_subs, sh)"
| "collect_matches arg (i # todo) found_subs sh =
    (if two_pointers arg (cmd_name (commands sh (command_at sh i))) 0 0 = length arg then do {
       sh1 \<leftarrow> add_found (lh_size (foundCommands sh) = 0) i sh;
       collect_matches arg todo True sh1
     }
     else collect_matches arg todo found_subs sh)"

text \<open>\<open>arg0\<close> is the first argument; both loops go through the table from its start.\<close>

definition process_command :: "u32 \<Rightarrow> u8 list \<Rightarrow> shell \<Rightarrow> (int \<times> shell) option" where
  "process_command number_of_arguments arg0 sh =
    (let sh1 = sh\<lparr>foundCommands := LIST_INIT (foundCommands sh)\<rparr> in
     case List.find (\<lambda>i. arg0 = cmd_name (commands sh1 (command_at sh1 i))) [0..<NUM_OF_COMMANDS] of
       Some i \<Rightarrow>
         (if args_fit number_of_arguments (commands sh1 (command_at sh1 i)) then Some (int i, sh1)
          else do { sh2 \<leftarrow> add_found True i sh1; Some (CMD_INV_NUM_ARGS, sh2) })
     | None \<Rightarrow> do {
         (found_subs, sh2) \<leftarrow> collect_matches arg0 [0..<NUM_OF_COMMANDS] False sh1;
         Some (if found_subs then CMD_MATCHED else CMD_INVALID, sh2)
       })"

section \<open>Running a command\<close>

text \<open>
  A command returns, or the CPU enters the scheduler, or the test handler, which is not modelled, takes
  over. The addresses are those of constants and local variables.
\<close>

datatype prompt_end = Ended outcome | Tests u32 ptr kern

record prompt_addresses =
  WHITESPACE :: ptr
  arguments_array :: ptr
  buff_question :: ptr
  buff_str :: ptr

definition returns_0 :: "kern option \<Rightarrow> prompt_end option" where
  "returns_0 r = map_option (\<lambda>k. Ended (Returns k)) r"

definition sched_print_all :: "kern \<Rightarrow> kern option" where
  "sched_print_all k = do { k1 \<leftarrow> acquire_qlock k; release_qlock k1 }"

text \<open>
  The commands for the BSD and MLFQ schedulers, priorities and the starvation threshold end in a
  panic; so does \<^verbatim>\<open>schedTest\<close> under BSD, where it asks for the load average.
\<close>

fun run_command :: "image \<Rightarrow> uheap_strategies \<Rightarrow> prompt_addresses \<Rightarrow> command_function \<Rightarrow> u32 \<Rightarrow> ptr \<Rightarrow> kern \<Rightarrow> prompt_end option" where
  "run_command img uh a command_meminfo' n argv k = returns_0 (command_meminfo k)"
| "run_command img uh a command_run_all n argv k = map_option Ended (sched_run_all k)"
| "run_command img uh a command_print_all n argv k = returns_0 (sched_print_all k)"
| "run_command img uh a command_kill_all n argv k = map_option Ended (sched_kill_all k)"
| "run_command img uh a command_set_page_rep_FIFO n argv k = returns_0 (Some (setPageReplacmentAlgorithmFIFO k))"
| "run_command img uh a command_set_page_rep_CLOCK n argv k = returns_0 (Some (setPageReplacmentAlgorithmCLOCK k))"
| "run_command img uh a command_set_page_rep_ModifiedCLOCK n argv k = returns_0 (Some (setPageReplacmentAlgorithmModifiedCLOCK k))"
| "run_command img uh a command_set_uheap_plac_FIRSTFIT n argv k = returns_0 (Some (setUHeapPlacementStrategy (UHP_PLACE_FIRSTFIT uh) k))"
| "run_command img uh a command_set_uheap_plac_BESTFIT n argv k = returns_0 (Some (setUHeapPlacementStrategy (UHP_PLACE_BESTFIT uh) k))"
| "run_command img uh a command_set_uheap_plac_NEXTFIT n argv k = returns_0 (Some (setUHeapPlacementStrategy (UHP_PLACE_NEXTFIT uh) k))"
| "run_command img uh a command_set_uheap_plac_WORSTFIT n argv k = returns_0 (Some (setUHeapPlacementStrategy (UHP_PLACE_WORSTFIT uh) k))"
| "run_command img uh a command_set_kheap_plac_CONTALLOC n argv k = returns_0 (Some (setKHeapPlacementStrategy KHP_PLACE_CONTALLOC k))"
| "run_command img uh a command_set_kheap_plac_FIRSTFIT n argv k = returns_0 (Some (setKHeapPlacementStrategy KHP_PLACE_FIRSTFIT k))"
| "run_command img uh a command_set_kheap_plac_BESTFIT n argv k = returns_0 (Some (setKHeapPlacementStrategy KHP_PLACE_BESTFIT k))"
| "run_command img uh a command_set_kheap_plac_NEXTFIT n argv k = returns_0 (Some (setKHeapPlacementStrategy KHP_PLACE_NEXTFIT k))"
| "run_command img uh a command_set_kheap_plac_WORSTFIT n argv k = returns_0 (Some (setKHeapPlacementStrategy KHP_PLACE_WORSTFIT k))"
| "run_command img uh a command_disable_buffering' n argv k = returns_0 (Some (command_disable_buffering k))"
| "run_command img uh a command_enable_buffering' n argv k = returns_0 (command_enable_buffering (buff_question a) (buff_str a) k)"
| "run_command img uh a command_disable_modified_buffer' n argv k = returns_0 (Some (command_disable_modified_buffer k))"
| "run_command img uh a command_enable_modified_buffer' n argv k = returns_0 (Some (command_enable_modified_buffer k))"
| "run_command img uh a command_kill_program' n argv k = map_option Ended (command_kill_program argv k)"
| "run_command img uh a command_sch_RR' n argv k = returns_0 (command_sch_RR argv k)"
| "run_command img uh a command_sch_test n argv k = returns_0 (if scheduler_method k = SCH_BSD then None else Some k)"
| "run_command img uh a command_set_page_rep_LRU' n argv k = returns_0 (command_set_page_rep_LRU n argv k)"
| "run_command img uh a command_set_modified_buffer_length' n argv k = returns_0 (command_set_modified_buffer_length argv k)"
| "run_command img uh a command_writemem_k' n argv k = returns_0 (command_writemem_k argv k)"
| "run_command img uh a command_set_page_rep_nthCLOCK' n argv k = returns_0 (command_set_page_rep_nthCLOCK argv k)"
| "run_command img uh a command_readuserblock' n argv k = returns_0 (command_readuserblock argv k)"
| "run_command img uh a command_run_program' n argv k = map_option Ended (command_run_program img n argv k)"
| "run_command img uh a command_writeusermem' n argv k = returns_0 (command_writeusermem n argv k)"
| "run_command img uh a command_readusermem' n argv k = returns_0 (command_readusermem n argv k)"
| "run_command img uh a commnad_load_env' n argv k = returns_0 (commnad_load_env img n argv k)"
| "run_command img uh a command_tst n argv k = Some (Tests n argv k)"
| "run_command img uh a command_set_starve_thresh n argv k = None"
| "run_command img uh a command_sch_BSD n argv k = None"
| "run_command img uh a command_set_priority n argv k = None"
| "run_command img uh a command_sch_MLFQ n argv k = None"
| "run_command img uh a _ n argv k = returns_0 (Some k)"

section \<open>Choosing among several commands\<close>

definition read_choice :: "kern \<Rightarrow> (u8 \<times> kern) option" where
  "read_choice k = do {
     (c, s) \<leftarrow> getchar (cons_dev k);
     let Chose = (ucast c :: u8);
     Some (Chose, k\<lparr>cons_dev := cputchar (scast Chose) s\<rparr>)
   }"

partial_function (option) selection_loop :: "int \<Rightarrow> u8 \<Rightarrow> int \<Rightarrow> kern \<Rightarrow> (int \<times> kern) option" where
  "selection_loop numOfFoundCmds Chose selection k =
    (if 48 \<le> sint Chose \<and> sint Chose \<le> 57 then
       let selection = selection * 10 + (sint Chose - 48) in
       if selection < 1 \<or> selection > numOfFoundCmds then Some (selection, k)
       else do {
         (Chose, k1) \<leftarrow> read_choice k;
         selection_loop numOfFoundCmds Chose selection k1
       }
     else Some (selection, k))"

text \<open>The loop variable when the loop returns in the round of the selection; \<open>NULL\<close> if it ends before.\<close>

definition selected_command :: "int \<Rightarrow> shell \<Rightarrow> (ptr \<times> int) option" where
  "selected_command selection sh =
     LIST_FOREACH (\<lambda>_ x. cmd_next (commands sh x)) (\<lambda>cmd c. Some (c = selection, c + 1)) (lh_first (foundCommands sh)) 1"

definition choose_command ::
  "image \<Rightarrow> uheap_strategies \<Rightarrow> prompt_addresses \<Rightarrow> u32 \<Rightarrow> shell \<Rightarrow> kern \<Rightarrow> prompt_end option" where
  "choose_command img uh a number_of_arguments sh k =
    (let numOfFoundCmds = lh_size (foundCommands sh) in
     if numOfFoundCmds = 0 then None
     else do {
       (Chose, k1) \<leftarrow> read_choice k;
       (selection, k2) \<leftarrow> selection_loop (sint numOfFoundCmds) Chose 0 k1;
       let k3 = put_char_at_console 10 k2;
       if selection \<ge> 1 \<and> selection \<le> sint numOfFoundCmds then do {
         (cmd, _) \<leftarrow> selected_command selection sh;
         if cmd = NULL \<or> num_of_args (commands sh cmd) \<noteq> 0 then returns_0 (Some k3)
         else run_command img uh a (function_to_execute (commands sh cmd)) number_of_arguments (arguments_array a) k3
       }
       else returns_0 (Some k3)
     })"

definition execute_command ::
  "image \<Rightarrow> uheap_strategies \<Rightarrow> prompt_addresses \<Rightarrow> ptr \<Rightarrow> shell \<Rightarrow> kern \<Rightarrow> (prompt_end \<times> shell) option" where
  "execute_command img uh a command_string sh k = do {
     (_, number_of_arguments, m) \<leftarrow> strsplit command_string (WHITESPACE a) (arguments_array a) (kmem k);
     let k1 = k\<lparr>kmem := m\<rparr>;
     if number_of_arguments = 0 then Some (Ended (Returns k1), sh)
     else do {
       arg0 \<leftarrow> c_string (kmem k1) (argument (arguments_array a) 0 k1);
       (ret, sh1) \<leftarrow> process_command number_of_arguments arg0 sh;
       r \<leftarrow> (if ret = CMD_INVALID then returns_0 (Some k1)
            else if ret = CMD_INV_NUM_ARGS then
              (if lh_size (foundCommands sh1) \<noteq> 1 then None else returns_0 (Some k1))
            else if ret = CMD_MATCHED then choose_command img uh a number_of_arguments sh1 k1
            else run_command img uh a (function_to_execute (commands sh1 (command_at sh1 (nat ret)))) number_of_arguments (arguments_array a) k1);
       Some (r, sh1)
     }
   }"

text \<open>
  What \<^verbatim>\<open>get_into_prompt\<close> resets before it starts the prompt on the emptied stack of the CPU: interrupts
  are off, no process is current and the scheduler is stopped.
\<close>

definition reset_cpu :: "kern \<Rightarrow> kern" where
  "reset_cpu k =
    (let c = (if eflags (kcpu k) AND FL_IF \<noteq> 0 then cli (kcpu k) else kcpu k)
     in k\<lparr>kcpu := c\<lparr>ncli := 0, intena := 0, scheduler_status := SCH_STOPPED, cpu_proc := NULL\<rparr>\<rparr>)"

end
