(* ===== verification/FOS_StringProps.thy ===== *)
theory FOS_StringProps
  imports FOS_String "HOL-Library.List_Lexorder"
begin

text \<open>
  Strings in memory as lists of bytes, and what the string routines do to the lists: lengths,
  comparison, bounded copy, and printing and reading back numbers.
\<close>

section \<open>Strings in memory\<close>

primrec chars_at :: "memory \<Rightarrow> ptr \<Rightarrow> u8 list \<Rightarrow> bool" where
  "chars_at m s [] = True"
| "chars_at m s (x # xs) \<longleftrightarrow> m s = x \<and> chars_at m (s + 1) xs"

definition cstr :: "memory \<Rightarrow> ptr \<Rightarrow> u8 list \<Rightarrow> bool" where
  "cstr m s xs \<longleftrightarrow> chars_at m s (xs @ [0]) \<and> 0 \<notin> set xs"

lemma chars_at_append [simp]:
  "chars_at m s (xs @ ys) \<longleftrightarrow> chars_at m s xs \<and> chars_at m (s + of_nat (length xs)) ys"
  by (induction xs arbitrary: s) (simp_all add: add.assoc conj_assoc)

lemma cstr_simps [simp]:
  "cstr m s [] \<longleftrightarrow> m s = 0" "cstr m s (x # xs) \<longleftrightarrow> m s = x \<and> x \<noteq> 0 \<and> cstr m (s + 1) xs"
  by (auto simp: cstr_def)

lemma chars_at_cong: "(\<And>i. i < length xs \<Longrightarrow> m' (s + of_nat i) = m (s + of_nat i)) \<Longrightarrow> chars_at m' s xs = chars_at m s xs"
proof (induction xs arbitrary: s)
  case (Cons x xs)
  have "m' (s + 1 + of_nat i) = m (s + 1 + of_nat i)" if "i < length xs" for i
    using Cons.prems [of "Suc i"] that by (simp add: add.assoc)
  then have "chars_at m' (s + 1) xs = chars_at m (s + 1) xs" by (rule Cons.IH)
  moreover have "m' s = m s" using Cons.prems [of 0] by simp
  ultimately show ?case by simp
qed simp

lemma chars_at_iff: "chars_at m s xs \<longleftrightarrow> (\<forall>i < length xs. m (s + of_nat i) = xs ! i)"
proof (induction xs arbitrary: s)
  case (Cons x xs)
  have "(\<forall>i < length (x # xs). m (s + of_nat i) = (x # xs) ! i) \<longleftrightarrow>
      m (s + of_nat 0) = x \<and> (\<forall>i < length xs. m (s + of_nat (Suc i)) = xs ! i)"
    by (simp only: All_less_Suc2 length_Cons nth_Cons_0 nth_Cons_Suc)
  then show ?case using Cons.IH [of "s + 1"] by (simp add: add.assoc)
qed simp

section \<open>Length and comparison\<close>

lemma strlen_loop_cstr: "cstr m s xs \<Longrightarrow> strlen_loop m s n = Some (n + of_nat (length xs))"
  by (induction xs arbitrary: s n; subst strlen_loop.simps) (simp_all add: add.assoc)

lemma strlen_cstr: "cstr m s xs \<Longrightarrow> strlen m s = Some (of_nat (length xs))"
  by (simp add: strlen_def strlen_loop_cstr)

lemma uint_pos: "x \<noteq> 0 \<Longrightarrow> 0 < uint (x :: u8)"
  by (metis uint_0_iff uint_ge_0 order_less_le)

lemma strcmp_cstr:
  "cstr m p xs \<Longrightarrow> cstr m q ys \<Longrightarrow>
   \<exists>d. strcmp m p q = Some d \<and> (d = 0 \<longleftrightarrow> xs = ys) \<and> (d < 0 \<longleftrightarrow> xs < ys)"
proof (induction xs arbitrary: p q ys)
  case Nil
  then show ?case by (cases ys; subst strcmp.simps) (auto simp: uint_0_iff uint_pos)
next
  case (Cons x xs)
  show ?case
  proof (cases ys)
    case Nil
    then show ?thesis using Cons.prems by (subst strcmp.simps) (auto simp: uint_0_iff less_le)
  next
    case (Cons y zs)
    show ?thesis
    proof (cases "x = y")
      case True
      then show ?thesis using Cons.prems Cons Cons.IH [of "p + 1" "q + 1" zs] by (subst strcmp.simps) auto
    next
      case False
      then show ?thesis using Cons.prems Cons by (subst strcmp.simps) (auto simp: word_less_def word_uint_eq_iff)
    qed
  qed
qed

section \<open>Printing and reading numbers\<close>

text \<open>The digits of a number, the least significant first.\<close>

fun digits_le :: "nat \<Rightarrow> u8 list" where
  "digits_le n = of_nat (n mod 10 + 48) # (if n div 10 = 0 then [] else digits_le (n div 10))"

declare digits_le.simps [simp del]

lemma digits_le_nonempty [simp]: "digits_le n \<noteq> []"
  by (subst digits_le.simps) simp

lemma length_digits_le: "n < 10 ^ Suc k \<Longrightarrow> length (digits_le n) \<le> Suc k"
proof (induction k arbitrary: n)
  case 0
  then show ?case by (subst digits_le.simps) simp
next
  case (Suc k)
  have "n div 10 < 10 ^ Suc k" using Suc.prems by (simp add: less_mult_imp_div_less)
  from Suc.IH [OF this] show ?case by (subst digits_le.simps) simp
qed

lemma digit_uint: "uint (of_nat (n mod 10 + 48) :: u8) = int (n mod 10) + 48"
proof -
  have "n mod 10 + 48 < 2 ^ LENGTH(8)" using mod_less_divisor [of 10 n] by simp
  then have "unat (of_nat (n mod 10 + 48) :: u8) = n mod 10 + 48" by (simp only: unat_of_nat mod_less)
  then show ?thesis by (simp only: uint_nat of_nat_add of_nat_numeral)
qed

lemma digits_le_range: "x \<in> set (digits_le n) \<Longrightarrow> 48 \<le> uint x \<and> uint x \<le> 57"
proof (induction n rule: digits_le.induct)
  case (1 n)
  consider "x = of_nat (n mod 10 + 48)" | "n div 10 \<noteq> 0" "x \<in> set (digits_le (n div 10))"
    using "1.prems" by (subst (asm) digits_le.simps) (auto split: if_splits)
  then show ?case
  proof cases
    case 1
    then show ?thesis by (simp only: digit_uint) auto
  next
    case 2
    then show ?thesis using "1.IH" by blast
  qed
qed

definition char_value :: "u8 \<Rightarrow> u32" where
  "char_value x = of_int (uint x - 48)"

lemma digits_le_value: "foldr (\<lambda>x v. v * 10 + char_value x) (digits_le n) 0 = of_nat n"
proof (induction n rule: digits_le.induct)
  case (1 n)
  have c: "char_value (of_nat (n mod 10 + 48)) = of_nat (n mod 10)" by (simp only: char_value_def digit_uint) simp
  have n: "of_nat n = (of_nat (n div 10) * 10 + of_nat (n mod 10) :: u32)"
    by (metis div_mult_mod_eq of_nat_add of_nat_mult of_nat_numeral)
  show ?case
  proof (cases "n div 10 = 0")
    case True
    then show ?thesis using c by (subst digits_le.simps) auto
  next
    case False
    then show ?thesis using c n 1 by (subst digits_le.simps) simp
  qed
qed

lemma region_Suc_disjoint: "x \<notin> region a (Suc k) \<Longrightarrow> x \<noteq> a \<and> x \<notin> region (a + 1) k"
proof
  assume x: "x \<notin> region a (Suc k)"
  show "x \<noteq> a" using x by (auto simp: region_def)
  then have "unat (x - a) \<noteq> 0" by (simp add: unat_eq_0)
  moreover have "x - (a + 1) = (x - a) - 1" by simp
  ultimately have "unat (x - (a + 1)) = unat (x - a) - 1" by (simp only: unat_sub_u32) simp
  then show "x \<notin> region (a + 1) k" using x by (auto simp: region_def)
qed

lemma region_not_start: "k < 4294967296 \<Longrightarrow> a \<notin> region (a + 1) k"
proof -
  have "a - (a + 1) = - 1" by simp
  also have "\<dots> = 4294967295" by simp
  finally have e: "a - (a + 1) = 4294967295" .
  have u: "unat (4294967295 :: u32) = 4294967295" by simp
  show "k < 4294967296 \<Longrightarrow> a \<notin> region (a + 1) k" unfolding region_def mem_Collect_eq e u by simp
qed

lemma ltostr_digits_writes:
  assumes "length (digits_le n) < 4294967296"
  shows "\<exists>m'. ltostr_digits (int n) str s m = (s + of_nat (length (digits_le n)), m') \<and>
    chars_at m' (str + s) (digits_le n) \<and> (\<forall>x. x \<notin> region (str + s) (length (digits_le n)) \<longrightarrow> m' x = m x)"
  using assms
proof (induction n arbitrary: s m rule: digits_le.induct)
  case (1 n)
  let ?m = "m(str + s := of_nat (n mod 10 + 48))"
  have q: "int n sdiv 10 = int (n div 10)" "(word_of_int (int n smod 10 + 48) :: u8) = of_nat (n mod 10 + 48)"
  proof -
    show s: "int n sdiv 10 = int (n div 10)" by (simp add: signed_divide_int_def zdiv_int sgn_if)
    have "int n smod 10 = int (n mod 10)" by (simp add: signed_modulo_int_def zmod_int sgn_if)
    then show "(word_of_int (int n smod 10 + 48) :: u8) = of_nat (n mod 10 + 48)" by simp
  qed
  show ?case
  proof (cases "n div 10 = 0")
    case True
    then have d: "digits_le n = [of_nat (n mod 10 + 48)]" by (subst digits_le.simps) simp
    have "ltostr_digits (int n) str s m = (s + 1, ?m)" using True q by (subst ltostr_digits.simps) (simp add: Let_def)
    then show ?thesis unfolding d by (auto simp: region_def)
  next
    case False
    let ?ds = "digits_le (n div 10)"
    have d: "digits_le n = of_nat (n mod 10 + 48) # ?ds" using False by (subst digits_le.simps) simp
    have l: "length ?ds < 4294967296" using "1.prems" unfolding d by simp
    from "1.IH" [OF False l, of "s + 1" ?m] obtain m' where
      m': "ltostr_digits (int (n div 10)) str (s + 1) ?m = (s + 1 + of_nat (length ?ds), m')"
        "chars_at m' (str + (s + 1)) ?ds" "\<forall>x. x \<notin> region (str + (s + 1)) (length ?ds) \<longrightarrow> m' x = ?m x" by blast
    have a: "str + (s + 1) = str + s + 1" by simp
    have "m' (str + s) = of_nat (n mod 10 + 48)"
      using m'(3) region_not_start [OF l, of "str + s"] unfolding a by simp
    then have c: "chars_at m' (str + s) (digits_le n)" using m'(2) unfolding d a by simp
    have f: "m' x = m x" if "x \<notin> region (str + s) (length (digits_le n))" for x
      using region_Suc_disjoint [of x "str + s" "length ?ds"] that m'(3) unfolding d a by simp
    have "ltostr_digits (int n) str s m = (s + of_nat (length (digits_le n)), m')"
      using False q m'(1) unfolding d by (subst ltostr_digits.simps) (simp add: Let_def)
    with c f show ?thesis by blast
  qed
qed

text \<open>Reversing in place.\<close>

definition at :: "ptr \<Rightarrow> int \<Rightarrow> ptr" where
  "at str i = str + of_int i"

lemma at_inj: "0 \<le> i \<Longrightarrow> i < 4294967296 \<Longrightarrow> 0 \<le> j \<Longrightarrow> j < 4294967296 \<Longrightarrow> at str i = at str j \<longleftrightarrow> i = j"
proof -
  assume r: "0 \<le> i" "i < 4294967296" "0 \<le> j" "j < 4294967296"
  have "(of_int i :: u32) = of_int j \<longleftrightarrow> i = j"
  proof
    assume "(of_int i :: u32) = of_int j"
    then have "uint (of_int i :: u32) = uint (of_int j :: u32)" by simp
    moreover have "uint (of_int x :: u32) = x mod 4294967296" for x
      using uint_word_of_int [of x, where 'a = 32] by (simp add: take_bit_eq_mod)
    ultimately show "i = j" using r by simp
  qed simp
  then show ?thesis by (simp add: at_def)
qed

lemma ltostr_reverse_reverses:
  assumes "0 \<le> a" "b < 2147483648"
  shows "(a \<le> i \<and> i \<le> b \<longrightarrow> ltostr_reverse str a b m (at str i) = m (at str (a + b - i))) \<and>
    ((\<forall>i. a \<le> i \<and> i \<le> b \<longrightarrow> x \<noteq> at str i) \<longrightarrow> ltostr_reverse str a b m x = m x)"
  using assms
proof (induction str a b m arbitrary: i x rule: ltostr_reverse.induct)
  case (1 str a b m)
  show ?case
  proof (cases "a < b")
    case False
    then have "ltostr_reverse str a b m = m" by (subst ltostr_reverse.simps) simp
    moreover have "a + b - i = i" if "a \<le> i \<and> i \<le> b" using that False by simp
    ultimately show ?thesis by simp
  next
    case True
    define m2 where "m2 = (m(at str a := m (at str b)))(at str b := m (at str a))"
    have e: "ltostr_reverse str a b m = ltostr_reverse str (a + 1) (b - 1) m2"
      using True by (subst ltostr_reverse.simps) (simp add: Let_def at_def m2_def)
    have ih: "(a + 1 \<le> i \<and> i \<le> b - 1 \<longrightarrow> ltostr_reverse str (a + 1) (b - 1) m2 (at str i) = m2 (at str (a + 1 + (b - 1) - i))) \<and>
      ((\<forall>i. a + 1 \<le> i \<and> i \<le> b - 1 \<longrightarrow> x \<noteq> at str i) \<longrightarrow> ltostr_reverse str (a + 1) (b - 1) m2 x = m2 x)" for i x
      using "1.IH" [OF True refl refl refl] "1.prems" True unfolding m2_def at_def by fastforce
    have inj: "at str j = at str k \<longleftrightarrow> j = k" if "a \<le> j" "j \<le> b" "a \<le> k" "k \<le> b" for j k
      using that "1.prems" by (intro at_inj) auto
    have m2: "m2 (at str j) = (if j = a then m (at str b) else if j = b then m (at str a) else m (at str j))" if "a \<le> j" "j \<le> b" for j
      using inj [OF that, of a] inj [OF that, of b] True by (simp add: m2_def)
    show ?thesis
    proof (intro conjI impI)
      assume i: "a \<le> i \<and> i \<le> b"
      show "ltostr_reverse str a b m (at str i) = m (at str (a + b - i))"
      proof (cases "i = a \<or> i = b")
        case True
        then have "\<forall>j. a + 1 \<le> j \<and> j \<le> b - 1 \<longrightarrow> at str i \<noteq> at str j" using inj i by auto
        then have "ltostr_reverse str a b m (at str i) = m2 (at str i)" using ih e by metis
        then show ?thesis using m2 [of i] i True by auto
      next
        case False
        then have "ltostr_reverse str a b m (at str i) = m2 (at str (a + b - i))" using ih [of i] e i by simp
        then show ?thesis using m2 [of "a + b - i"] i False by auto
      qed
    next
      assume x: "\<forall>i. a \<le> i \<and> i \<le> b \<longrightarrow> x \<noteq> at str i"
      then have "ltostr_reverse str a b m x = m2 x" using ih [of _ x] e by simp
      then show "ltostr_reverse str a b m x = m x" using x True by (simp add: m2_def)
    qed
  qed
qed

lemma chars_at_reverse:
  assumes c: "chars_at m (at str a) xs" and "xs \<noteq> []" "0 \<le> a" "a + int (length xs) \<le> 2147483648"
  shows "chars_at (ltostr_reverse str a (a + int (length xs) - 1) m) (at str a) (rev xs)"
  unfolding chars_at_iff
proof (intro allI impI)
  fix i assume i: "i < length (rev xs)"
  let ?b = "a + int (length xs) - 1"
  have at: "at str a + of_nat j = at str (a + int j)" for j by (simp add: at_def)
  have "ltostr_reverse str a ?b m (at str (a + int i)) = m (at str (a + ?b - (a + int i)))"
    using ltostr_reverse_reverses [of a ?b "a + int i" str m] assms i by auto
  also have "a + ?b - (a + int i) = a + int (length xs - Suc i)" using i by simp
  also have "m (at str (a + int (length xs - Suc i))) = xs ! (length xs - Suc i)"
    using c [unfolded chars_at_iff at, rule_format, of "length xs - Suc i"] i by (simp del: of_nat_diff)
  finally show "ltostr_reverse str a ?b m (at str a + of_nat i) = rev xs ! i" using i by (simp add: at rev_nth)
qed

text \<open>Reading digits.\<close>

lemma strtol_digits_reads:
  assumes "chars_at m s (xs @ [c])" "\<And>x. x \<in> set xs \<Longrightarrow> 48 \<le> uint x \<and> uint x \<le> 57" "digit_of c = None"
  shows "strtol_digits m 10 s v = Some (foldl (\<lambda>v x. v * 10 + char_value x) v xs, s + of_nat (length xs))"
  using assms
proof (induction xs arbitrary: s v)
  case Nil
  then show ?case by (subst strtol_digits.simps) simp
next
  case (Cons x xs)
  have "digit_of (m s) = Some (uint x - 48)" "\<not> 10 \<le> uint x - 48"
    using Cons.prems(1) Cons.prems(2) [of x] by (auto simp: digit_of_def Let_def)
  moreover have "strtol_digits m 10 (s + 1) (v * 10 + char_value x) =
      Some (foldl (\<lambda>v x. v * 10 + char_value x) (v * 10 + char_value x) xs, s + 1 + of_nat (length xs))"
    using Cons.prems by (intro Cons.IH) auto
  ultimately show ?case by (subst strtol_digits.simps) (simp add: char_value_def add.assoc)
qed

lemma strtol_reads:
  assumes "chars_at m s (x # xs @ [0])" "\<forall>y \<in> set (x # xs). 48 \<le> uint y \<and> uint y \<le> 57"
  shows "strtol_digits m 10 s 0 = Some (foldl (\<lambda>v x. v * 10 + char_value x) 0 (x # xs), s + of_nat (length (x # xs)))"
    "m s \<noteq> 32" "m s \<noteq> 9" "m s \<noteq> 43" "m s \<noteq> 45"
proof -
  show "strtol_digits m 10 s 0 = Some (foldl (\<lambda>v x. v * 10 + char_value x) 0 (x # xs), s + of_nat (length (x # xs)))"
    using assms by (intro strtol_digits_reads [where c = 0]) (simp, blast, simp add: digit_of_def)
  have "48 \<le> uint (m s)" using assms by simp
  then show "m s \<noteq> 32" "m s \<noteq> 9" "m s \<noteq> 43" "m s \<noteq> 45" by auto
qed

lemma skip_blanks_none: "m s \<noteq> 32 \<Longrightarrow> m s \<noteq> 9 \<Longrightarrow> skip_blanks m s = Some s"
  by (subst skip_blanks.simps) simp

lemma strtol_cases:
  assumes "chars_at m s (x # xs @ [0])" "\<forall>y \<in> set (x # xs). 48 \<le> uint y \<and> uint y \<le> 57"
  shows "strtol m s 10 = Some (foldl (\<lambda>v x. v * 10 + char_value x) 0 (x # xs), s + of_nat (length (x # xs)))"
    and "m p = 45 \<Longrightarrow> s = p + 1 \<Longrightarrow>
      strtol m p 10 = Some (- foldl (\<lambda>v x. v * 10 + char_value x) 0 (x # xs), s + of_nat (length (x # xs)))"
proof -
  note r = strtol_reads [OF assms]
  show "strtol m s 10 = Some (foldl (\<lambda>v x. v * 10 + char_value x) 0 (x # xs), s + of_nat (length (x # xs)))"
    using r(1) skip_blanks_none [of m s, OF r(2,3)] r(4,5) by (simp add: strtol_def Let_def del: foldl_Cons)
  show "strtol m p 10 = Some (- foldl (\<lambda>v x. v * 10 + char_value x) 0 (x # xs), s + of_nat (length (x # xs)))"
    if "m p = 45" "s = p + 1"
    using r(1) that skip_blanks_none [of m p] by (simp add: strtol_def Let_def del: foldl_Cons)
qed

lemma sint_of_int_small: "- 2147483648 \<le> x \<Longrightarrow> x < 2147483648 \<Longrightarrow> sint (of_int x :: u32) = x"
  by (simp add: int_word_sint)

text \<open>The digits of \<open>n\<close> printed from index \<open>a\<close> on.\<close>

lemma ltostr_digits_reversed:
  assumes "n < 10 ^ 10" "a = 0 \<or> a = 1"
  shows "\<exists>m2. ltostr_digits (int n) str (of_int a) m = (of_int a + of_nat (length (digits_le n)), m2) \<and>
    chars_at (ltostr_reverse str a (sint (of_int a + of_nat (length (digits_le n)) :: u32) - 1) m2) (at str a) (rev (digits_le n)) \<and>
    (a = 1 \<longrightarrow> ltostr_reverse str a (sint (of_int a + of_nat (length (digits_le n)) :: u32) - 1) m2 str = m str)"
proof -
  let ?l = "length (digits_le n)"
  have l: "?l \<le> 10" using length_digits_le [of n 9] assms(1) by simp
  then obtain m2 where m2: "ltostr_digits (int n) str (of_int a) m = (of_int a + of_nat ?l, m2)"
      "chars_at m2 (str + of_int a) (digits_le n)" "\<forall>x. x \<notin> region (str + of_int a) ?l \<longrightarrow> m2 x = m x"
    using ltostr_digits_writes [of n str "of_int a" m] by auto
  have "sint (of_int a + of_nat ?l :: u32) = sint (of_int (a + int ?l) :: u32)" by simp
  also have "\<dots> = a + int ?l" using l assms(2) by (intro sint_of_int_small) auto
  finally have s: "sint (of_int a + of_nat ?l :: u32) = a + int ?l" .
  have "chars_at (ltostr_reverse str a (a + int ?l - 1) m2) (at str a) (rev (digits_le n))"
    using m2(2) l assms(2) by (intro chars_at_reverse) (auto simp: at_def)
  moreover have "ltostr_reverse str a (a + int ?l - 1) m2 str = m str" if a: "a = 1"
  proof -
    have "str = at str 0" by (simp add: at_def)
    then have "str \<noteq> at str i" if "1 \<le> i" "i \<le> a + int ?l - 1" for i
      using at_inj [of 0 i str] that l a by auto
    then have "ltostr_reverse str a (a + int ?l - 1) m2 str = m2 str"
      using ltostr_reverse_reverses [of a "a + int ?l - 1" 0 str m2 str] a l by auto
    also have "m2 str = m str" using m2(3) region_not_start [of ?l str] l a by simp
    finally show ?thesis .
  qed
  ultimately show ?thesis using m2(1) unfolding s by blast
qed

lemma strtol_ltostr:
  assumes v: "- (2 ^ 31) < v" "v < 2 ^ 31"
  shows "\<exists>p. strtol (ltostr v str m) str 10 = Some (of_int v, p) \<and> ltostr v str m p = 0"
proof -
  define n where "n = nat \<bar>v\<bar>"
  define a where "a = (if v < 0 then 1 else 0 :: int)"
  define mm where "mm = (if v < 0 then m(str := 45) else m)"
  have n: "n < 10 ^ 10" using v by (simp add: n_def)
  let ?l = "length (digits_le n)"
  have l: "?l \<le> 10" using length_digits_le [of n 9] n by simp
  have a: "a = 0 \<or> a = 1" by (simp add: a_def)
  from ltostr_digits_reversed [OF n a, of str mm] obtain m2 m3 where
    m2: "ltostr_digits (int n) str (of_int a) mm = (of_int a + of_nat ?l, m2)"
    "ltostr_reverse str a (sint (of_int a + of_nat ?l :: u32) - 1) m2 = m3" "chars_at m3 (at str a) (rev (digits_le n))"
    "a = 1 \<Longrightarrow> m3 str = mm str" by blast
  have neg: "to_long (v * - 1) = int n" if "v < 0"
    using that v unfolding to_long_def n_def by (subst sint_of_int_small) auto
  let ?m4 = "m3(str + (of_int a + of_nat ?l) := 0)"
  have res: "ltostr v str m = ?m4"
    using m2(1,2) neg by (auto simp: ltostr_def Let_def a_def mm_def n_def)
  have e: "str + (of_int a + of_nat ?l) = at str (a + int ?l)" by (simp add: at_def)
  have "?m4 (at str a + of_nat i) = m3 (at str a + of_nat i)" if "i < ?l" for i
  proof -
    have i: "at str a + of_nat i = at str (a + int i)" by (simp add: at_def)
    show ?thesis unfolding e i using at_inj [of "a + int i" "a + int ?l" str] that l a by auto
  qed
  then have "chars_at ?m4 (at str a) (rev (digits_le n))"
    using m2(3) chars_at_cong [of "rev (digits_le n)" ?m4 "at str a" m3] by simp
  moreover have "?m4 (at str a + of_nat ?l) = 0" by (simp add: at_def)
  ultimately have c: "chars_at ?m4 (at str a) (rev (digits_le n) @ [0])" by simp
  obtain y ys where y: "rev (digits_le n) = y # ys" by (metis digits_le_nonempty neq_Nil_conv rev_is_Nil_conv)
  have r: "\<forall>x \<in> set (y # ys). 48 \<le> uint x \<and> uint x \<le> 57"
    using digits_le_range [of _ n] unfolding y [symmetric] by simp
  have val: "foldl (\<lambda>v x. v * 10 + char_value x) 0 (y # ys) = of_nat n"
    unfolding y [symmetric] by (simp add: foldl_conv_foldr digits_le_value)
  note st = strtol_cases [OF _ r, of ?m4 "at str a", unfolded val]
  have c': "chars_at ?m4 (at str a) (y # ys @ [0])" using c unfolding y by simp
  have z: "?m4 (at str a + of_nat (length (y # ys))) = 0" unfolding y [symmetric] by (simp add: at_def)
  show ?thesis
  proof (cases "v < 0")
    case False
    then have "at str a = str" "(of_nat n :: u32) = of_int v" by (simp_all add: at_def a_def n_def)
    then show ?thesis using st(1) [OF c'] z unfolding res by (intro exI conjI) (assumption | simp only:)+
  next
    case True
    have "str \<noteq> at str (a + int ?l)"
      using at_inj [of 0 "a + int ?l" str] l a by (auto simp: at_def)
    then have "?m4 str = 45" using m2(4) True unfolding e by (simp add: a_def mm_def)
    moreover have "at str a = str + 1" "- (of_nat n :: u32) = of_int v" using True by (simp_all add: at_def a_def n_def)
    ultimately show ?thesis using st(2) [OF c', of str] z unfolding res by (intro exI conjI) (assumption | simp only:)+
  qed
qed

section \<open>Bounded copy\<close>

lemma strlcpy_loop_copies:
  assumes "cstr m src xs" "n + 1 < 4294967296" "region dst (Suc n) \<inter> region src (Suc (length xs)) = {}" "length xs + 1 < 4294967296"
  shows "\<exists>m'. strlcpy_loop dst src n m = (dst + of_nat (min n (length xs)), m') \<and> cstr m' dst (take n xs) \<and>
    (\<forall>x. x \<notin> region dst (Suc n) \<longrightarrow> m' x = m x)"
  using assms
proof (induction n arbitrary: dst src m xs)
  case 0
  then show ?case by (auto simp: region_def)
next
  case (Suc n)
  show ?case
  proof (cases xs)
    case Nil
    then show ?thesis using Suc.prems(1) by (auto simp: region_def)
  next
    case (Cons x ys)
    let ?m = "m(dst := x)"
    have sub: "region (a + 1) k \<subseteq> region a (Suc k)" for a k using region_Suc_disjoint by blast
    have disj: "region (dst + 1) (Suc n) \<inter> region (src + 1) (Suc (length ys)) = {}"
      using Suc.prems(3) sub [of dst "Suc n"] sub [of src "Suc (length ys)"] unfolding Cons by auto
    have s: "m src = x" "x \<noteq> 0" "cstr m (src + 1) ys" using Suc.prems(1) unfolding Cons by simp_all
    have d: "src + 1 + of_nat i \<noteq> dst" if "i < Suc (length ys)" for i
    proof -
      have "unat (1 + of_nat i :: u32) = Suc i"
        using that Suc.prems(4) unat_of_nat [of "Suc i", where 'a = 32] unfolding Cons by simp
      then have "src + 1 + of_nat i \<in> region src (Suc (length xs))" using that unfolding Cons by (simp add: region_def add.assoc)
      moreover have "dst \<in> region dst (Suc (Suc n))" by (simp add: region_def)
      ultimately show ?thesis using Suc.prems(3) by auto
    qed
    have c: "cstr ?m (src + 1) ys"
      using s(3) d unfolding cstr_def by (subst chars_at_cong [of "ys @ [0]" ?m "src + 1" m]) auto
    have "n + 1 < 4294967296" "length ys + 1 < 4294967296" using Suc.prems(2,4) unfolding Cons by simp_all
    from Suc.IH [OF c this(1) disj this(2)] obtain m' where
      m': "strlcpy_loop (dst + 1) (src + 1) n ?m = (dst + 1 + of_nat (min n (length ys)), m')" "cstr m' (dst + 1) (take n ys)"
        "\<forall>x. x \<notin> region (dst + 1) (Suc n) \<longrightarrow> m' x = ?m x" by blast
    have "m' dst = x" using m'(3) region_not_start [of "Suc n" dst] Suc.prems(2) by simp
    moreover have "m' z = m z" if "z \<notin> region dst (Suc (Suc n))" for z
      using m'(3) region_Suc_disjoint [OF that] by simp
    ultimately show ?thesis using m' s(1,2) unfolding Cons by (auto simp: add.assoc)
  qed
qed

section \<open>The properties\<close>

text \<open>C11: A number printed by \<^verbatim>\<open>ltostr\<close> is read back by \<^verbatim>\<open>strtol\<close> in base 10, for every value
  of \<^verbatim>\<open>long\<close> but the smallest, wherever the string is put; the end pointer is at the terminator.\<close>

theorem strtol_ltostr_roundtrip:
  assumes "- (2 ^ 31) < v" "v < 2 ^ 31"
  shows "\<exists>p. strtol (ltostr v str m) str 10 = Some (of_int v, p) \<and> ltostr v str m p = 0"
  by (rule strtol_ltostr [OF assms])

theorem strtol_ltostr_roundtrip_witness:
  "\<exists>p. strtol (ltostr (- 2147483647) 0xFFFFFFFE (\<lambda>_. 7)) 0xFFFFFFFE 10 = Some (of_int (- 2147483647), p) \<and>
    ltostr (- 2147483647) 0xFFFFFFFE (\<lambda>_. 7) p = 0"
  by (rule strtol_ltostr_roundtrip) simp_all

text \<open>C12: \<^verbatim>\<open>strcmp\<close> decides the lexicographic order of two strings of unsigned characters: it
  returns, with 0 for equal strings and a negative number exactly when the first is smaller.\<close>

theorem strcmp_correct:
  assumes "cstr m p xs" "cstr m q ys"
  shows "\<exists>d. strcmp m p q = Some d \<and> (d = 0 \<longleftrightarrow> xs = ys) \<and> (d < 0 \<longleftrightarrow> xs < ys)"
  by (rule strcmp_cstr [OF assms])

definition two_strings :: memory where
  "two_strings = (\<lambda>_. 0)(100 := 97, 101 := 98, 200 := 97, 201 := 200)"

theorem strcmp_correct_witness:
  "\<exists>d. strcmp two_strings 100 200 = Some d \<and> (d = 0 \<longleftrightarrow> [97, 98] = [97 :: u8, 200]) \<and> (d < 0 \<longleftrightarrow> [97, 98] < [97 :: u8, 200])"
  by (rule strcmp_correct) (simp_all add: two_strings_def)

text \<open>C16: \<^verbatim>\<open>strlcpy\<close> never writes outside the \<^verbatim>\<open>size\<close> bytes of its destination, always
  terminates it, copies the longest prefix of the source that fits, and returns its length.\<close>

theorem strlcpy_correct:
  assumes "cstr m src xs" "0 < n" "region dst (unat n) \<inter> region src (Suc (length xs)) = {}" "length xs + 1 < 2 ^ 32"
  shows "\<exists>m'. strlcpy dst src n m = (of_nat (min (unat n - 1) (length xs)), m') \<and> cstr m' dst (take (unat n - 1) xs) \<and>
    (\<forall>x. x \<notin> region dst (unat n) \<longrightarrow> m' x = m x)"
proof -
  have n: "Suc (unat n - 1) = unat n" using assms(2) by (simp add: word_less_nat_alt)
  have "unat n - 1 + 1 < 4294967296" using unat_u32_bound [of n] n by simp
  from strlcpy_loop_copies [OF assms(1) this, of dst, unfolded n, OF assms(3)] assms(4) obtain m' where
    "strlcpy_loop dst src (unat n - 1) m = (dst + of_nat (min (unat n - 1) (length xs)), m')" "cstr m' dst (take (unat n - 1) xs)"
    "\<forall>x. x \<notin> region dst (unat n) \<longrightarrow> m' x = m x" by auto
  then show ?thesis using assms(2) by (simp add: strlcpy_def)
qed

theorem strlcpy_correct_witness:
  "\<exists>m'. strlcpy 300 100 2 two_strings = (1, m') \<and> cstr m' 300 [97] \<and> m' 302 = two_strings 302"
proof -
  have d: "region 300 (unat (2 :: u32)) \<inter> region 100 (Suc (length [97 :: u8, 98])) = {}"
    by (intro region_disjointI) simp_all
  have "cstr two_strings 100 [97, 98]" by (simp add: two_strings_def)
  from strlcpy_correct [OF this _ d] obtain m' where
    m: "strlcpy 300 100 2 two_strings = (1, m')" "cstr m' 300 [97]" "\<forall>x. x \<notin> region 300 (unat (2 :: u32)) \<longrightarrow> m' x = two_strings x"
    by auto
  have "(302 :: u32) \<notin> region 300 (unat (2 :: u32))" by (simp add: region_def)
  then show ?thesis using m by blast
qed

end
