(* ===== verification/FOS_PromptProps.thy ===== *)
theory FOS_PromptProps
  imports FOS_Prompt FOS_StringProps "HOL-Library.Sublist"
begin

text \<open>
  What the prompt takes a line for: the command whose name is the first word, or all commands of which
  the word is a subsequence, in the order of the table.
\<close>

section \<open>The two pointers\<close>

lemma two_pointers_subseq:
  "ptr1 \<le> length arg \<Longrightarrow> two_pointers arg name ptr1 ptr2 = length arg \<longleftrightarrow> subseq (drop ptr1 arg) (drop ptr2 name)"
proof (induction arg name ptr1 ptr2 rule: two_pointers.induct)
  case (1 arg name ptr1 ptr2)
  show ?case
  proof (cases "ptr1 < length arg \<and> ptr2 < length name")
    case True
    then have d: "drop ptr1 arg = arg ! ptr1 # drop (Suc ptr1) arg" "drop ptr2 name = name ! ptr2 # drop (Suc ptr2) name"
      by (simp_all add: Cons_nth_drop_Suc)
    have "(if arg ! ptr1 = name ! ptr2 then ptr1 + 1 else ptr1) \<le> length arg" using True by simp
    from 1(1) [OF True this] show ?thesis unfolding two_pointers.simps [of arg name ptr1 ptr2] using True d by simp
  next
    case False
    have "subseq (drop ptr1 arg) (drop ptr2 name) \<longleftrightarrow> ptr1 = length arg"
    proof (cases "ptr1 < length arg")
      case True
      then have "drop ptr2 name = []" using False by simp
      then show ?thesis using True by simp
    qed (use 1(2) in simp)
    moreover have "two_pointers arg name ptr1 ptr2 = ptr1" by (subst two_pointers.simps) (simp only: False if_False)
    ultimately show ?thesis by simp
  qed
qed

section \<open>The list of commands found\<close>

abbreviation no_command_links :: "command \<Rightarrow> command" where
  "no_command_links c \<equiv> c\<lparr>cmd_next := NULL, cmd_prev := NULL\<rparr>"

interpretation command_store: link_store command_links "(\<noteq>)" "\<lambda>t x. no_command_links (t x)" "\<lambda>x. {}"
  by unfold_locales (auto simp: command_links_def)

definition table_name :: "nat \<Rightarrow> u8 list" where
  "table_name i = fst (command_table ! i)"

definition entry_of :: "command \<Rightarrow> u8 list \<times> command_function \<times> int" where
  "entry_of c = (cmd_name c, function_to_execute c, num_of_args c)"

text \<open>The array holds the table and lies in memory without wrapping around.\<close>

definition shell_ok :: "shell \<Rightarrow> bool" where
  "shell_ok sh \<longleftrightarrow> command_base sh \<noteq> 0 \<and> unat (command_base sh) + 24 * NUM_OF_COMMANDS \<le> 2 ^ 32 \<and>
    (\<forall>i < NUM_OF_COMMANDS. entry_of (commands sh (command_at sh i)) = command_table ! i)"

definition found :: "shell \<Rightarrow> nat list \<Rightarrow> bool" where
  "found sh is \<longleftrightarrow> dll command_links (commands sh) (foundCommands sh) (map (command_at sh) is)"

lemma unat_add_of_nat: "unat (a :: u32) + n < 2 ^ 32 \<Longrightarrow> unat (a + of_nat n) = unat a + n"
proof -
  assume l: "unat a + n < 2 ^ 32"
  then have "unat (of_nat n :: u32) = n" by (simp add: unat_of_nat_u32)
  then show ?thesis using l by (simp add: unat_word_ariths)
qed

lemma command_at_unat:
  assumes "shell_ok sh" "i < NUM_OF_COMMANDS"
  shows "unat (command_at sh i) = unat (command_base sh) + 24 * i"
proof -
  have "unat (command_base sh) + 24 * i < 2 ^ 32" using assms by (auto simp: shell_ok_def)
  then show ?thesis unfolding command_at_def by (rule unat_add_of_nat)
qed

lemma command_at_eq:
  assumes "shell_ok sh" "i < NUM_OF_COMMANDS" "j < NUM_OF_COMMANDS"
  shows "command_at sh i = command_at sh j \<longleftrightarrow> i = j" "command_at sh i \<noteq> NULL"
proof -
  have "command_base sh \<noteq> 0" using assms(1) by (simp add: shell_ok_def)
  then have u: "unat (command_base sh) \<noteq> 0" by (simp add: unat_eq_0)
  show "command_at sh i \<noteq> NULL"
  proof
    assume "command_at sh i = NULL"
    then have "unat (NULL :: u32) = unat (command_base sh) + 24 * i" using command_at_unat [OF assms(1,2)] by (simp only:)
    then show False using u by simp
  qed
  show "command_at sh i = command_at sh j \<longleftrightarrow> i = j"
  proof
    assume "command_at sh i = command_at sh j"
    then have "unat (command_base sh) + 24 * i = unat (command_base sh) + 24 * j"
      using command_at_unat [OF assms(1,2)] command_at_unat [OF assms(1,3)] by (simp only:)
    then show "i = j" by simp
  qed (simp only:)
qed

lemma shell_ok_table:
  assumes "shell_ok sh" "i < NUM_OF_COMMANDS"
  shows "cmd_name (commands sh (command_at sh i)) = table_name i"
    "num_of_args (commands sh (command_at sh i)) = snd (snd (command_table ! i))"
proof -
  have e: "entry_of (commands sh (command_at sh i)) = command_table ! i" using assms by (simp add: shell_ok_def)
  show "cmd_name (commands sh (command_at sh i)) = table_name i"
    "num_of_args (commands sh (command_at sh i)) = snd (snd (command_table ! i))"
    unfolding table_name_def e [symmetric] by (simp_all add: entry_of_def)
qed

lemma command_at_base: "command_base sh' = command_base sh \<Longrightarrow> command_at sh' = command_at sh"
  by (simp add: command_at_def fun_eq_iff)

lemma shell_ok_cong:
  assumes "shell_ok sh" "command_base sh' = command_base sh" "\<And>c. no_command_links (commands sh' c) = no_command_links (commands sh c)"
  shows "shell_ok sh'"
proof -
  have "entry_of (commands sh' c) = entry_of (commands sh c)" for c
    using arg_cong [OF assms(3), of entry_of c] by (simp add: entry_of_def)
  then show ?thesis using assms(1) unfolding shell_ok_def command_at_base [OF assms(2)] assms(2) by simp
qed

lemma add_found_ok:
  assumes "shell_ok sh" "found sh is" "i < NUM_OF_COMMANDS" "set is \<subseteq> {..<NUM_OF_COMMANDS}" "i \<notin> set is" "at_head \<longrightarrow> is = []"
  shows "\<exists>sh'. add_found at_head i sh = Some sh' \<and> shell_ok sh' \<and> found sh' (is @ [i]) \<and> command_base sh' = command_base sh"
proof -
  have n: "command_at sh i \<noteq> NULL" using command_at_eq(2) [OF assms(1,3,3)] .
  have m: "command_at sh i \<notin> set (map (command_at sh) is)"
  proof
    assume "command_at sh i \<in> set (map (command_at sh) is)"
    then obtain j where j: "j \<in> set is" "command_at sh i = command_at sh j" by auto
    then have "j < NUM_OF_COMMANDS" using assms(4) by auto
    then show False using command_at_eq(1) [OF assms(1,3)] j assms(5) by auto
  qed
  have p: "pairwise (\<noteq>) (set (command_at sh i # map (command_at sh) is))" by (auto simp: pairwise_def)
  note d = assms(2) [unfolded found_def]
  let ?insert = "(if at_head then LIST_INSERT_HEAD else LIST_INSERT_TAIL) command_links (command_at sh i) (foundCommands sh) (commands sh)"
  have "\<exists>h' s'. ?insert = Some (h', s') \<and> dll command_links s' h' (map (command_at sh) is @ [command_at sh i]) \<and>
      (\<forall>c. no_command_links (s' c) = no_command_links (commands sh c))"
  proof (cases at_head)
    case True
    from command_store.insert_head [OF d n m p] show ?thesis using True assms(6) unfolding returns_iff by auto
  next
    case False
    from command_store.insert_tail [OF d n m p] show ?thesis using False unfolding returns_iff by auto
  qed
  then obtain h' s' where r: "?insert = Some (h', s')" "dll command_links s' h' (map (command_at sh) is @ [command_at sh i])"
      "\<And>c. no_command_links (s' c) = no_command_links (commands sh c)" by blast
  let ?sh = "sh\<lparr>foundCommands := h', commands := s'\<rparr>"
  have b: "command_at ?sh = command_at sh" by (rule command_at_base) simp
  have "shell_ok ?sh" by (rule shell_ok_cong [OF assms(1)]) (simp_all add: r(3))
  moreover have "found ?sh (is @ [i])" unfolding found_def b using r(2) by simp
  ultimately show ?thesis unfolding add_found_def r(1) by simp
qed

lemma found_size: "found sh is \<Longrightarrow> length is < 2 ^ 32 \<Longrightarrow> lh_size (foundCommands sh) = 0 \<longleftrightarrow> is = []"
proof -
  assume "found sh is" "length is < 2 ^ 32"
  then have "unat (lh_size (foundCommands sh)) = length is"
    by (simp add: found_def dll_def unat_of_nat_u32)
  then show ?thesis by (metis length_0_conv unat_eq_0)
qed

lemma collect_matches_ok:
  assumes "shell_ok sh" "found sh is" "distinct (is @ todo)" "set (is @ todo) \<subseteq> {..<NUM_OF_COMMANDS}" "fs \<longleftrightarrow> is \<noteq> []"
  shows "\<exists>sh'. collect_matches arg todo fs sh = Some (is @ filter (\<lambda>i. subseq arg (table_name i)) todo \<noteq> [], sh') \<and> shell_ok sh' \<and>
    found sh' (is @ filter (\<lambda>i. subseq arg (table_name i)) todo) \<and> command_base sh' = command_base sh"
  using assms
proof (induction todo arbitrary: "is" fs sh)
  case (Cons i todo)
  have i: "i < NUM_OF_COMMANDS" "i \<notin> set is" "set is \<subseteq> {..<NUM_OF_COMMANDS}" using Cons.prems(3,4) by auto
  have m: "two_pointers arg (cmd_name (commands sh (command_at sh i))) 0 0 = length arg \<longleftrightarrow> subseq arg (table_name i)"
    using two_pointers_subseq [of 0 arg "table_name i" 0] shell_ok_table(1) [OF Cons.prems(1) i(1)] by simp
  show ?case
  proof (cases "subseq arg (table_name i)")
    case True
    have "length is < 2 ^ 32"
    proof -
      have "length is = card (set is)" using Cons.prems(3) by (simp add: distinct_card)
      also have "\<dots> \<le> NUM_OF_COMMANDS" using card_mono [OF _ i(3)] by simp
      also have "\<dots> < 2 ^ 32" by (simp add: NUM_OF_COMMANDS_def command_table_def)
      finally show ?thesis .
    qed
    then have h: "lh_size (foundCommands sh) = 0 \<longrightarrow> is = []" using found_size [OF Cons.prems(2)] by simp
    from add_found_ok [OF Cons.prems(1,2) i(1,3,2) h] obtain sh1 where
      sh1: "add_found (lh_size (foundCommands sh) = 0) i sh = Some sh1" "shell_ok sh1" "found sh1 (is @ [i])"
        "command_base sh1 = command_base sh" by blast
    have "distinct ((is @ [i]) @ todo)" "set ((is @ [i]) @ todo) \<subseteq> {..<NUM_OF_COMMANDS}" "True \<longleftrightarrow> is @ [i] \<noteq> []"
      using Cons.prems(3,4) by auto
    from Cons.IH [OF sh1(2,3) this] show ?thesis using sh1(1,4) m True by auto
  next
    case False
    have "distinct (is @ todo)" "set (is @ todo) \<subseteq> {..<NUM_OF_COMMANDS}" using Cons.prems(3,4) by auto
    from Cons.IH [OF Cons.prems(1,2) this Cons.prems(5)] show ?thesis using m False by auto
  qed
qed simp

lemma table_names_distinct: "distinct (map fst command_table)"
  by (simp add: command_table_def ascii_def)

lemma table_name_eq: "i < NUM_OF_COMMANDS \<Longrightarrow> j < NUM_OF_COMMANDS \<Longrightarrow> table_name i = table_name j \<longleftrightarrow> i = j"
  using nth_eq_iff_index_eq [OF table_names_distinct, of i j] by (simp add: table_name_def NUM_OF_COMMANDS_def)

section \<open>Which command a line means\<close>

text \<open>The number of arguments a command of the table wants; - 1 stands for at least one.\<close>

definition wants :: "nat \<Rightarrow> u32 \<Rightarrow> bool" where
  "wants i n \<longleftrightarrow> (let w = snd (snd (command_table ! i)) in sint n - 1 = w \<or> w = - 1 \<and> sint n \<ge> 2)"

text \<open>C31: a line means the command whose name its first word is: the result is its index if the number
  of arguments fits, and otherwise the command is alone on the list of found commands. A word that is no
  name finds exactly the commands of which it is a subsequence, in the order of the table.\<close>

theorem process_command_correct:
  assumes "shell_ok sh"
  shows "\<exists>ret sh' is. process_command n arg0 sh = Some (ret, sh') \<and> shell_ok sh' \<and> found sh' is \<and>
    (if \<exists>i < NUM_OF_COMMANDS. table_name i = arg0
     then \<exists>i < NUM_OF_COMMANDS. table_name i = arg0 \<and> (if wants i n then ret = int i \<and> is = [] else ret = CMD_INV_NUM_ARGS \<and> is = [i])
     else is = filter (\<lambda>i. subseq arg0 (table_name i)) [0..<NUM_OF_COMMANDS] \<and> ret = (if is = [] then CMD_INVALID else CMD_MATCHED))"
proof -
  let ?sh = "sh\<lparr>foundCommands := LIST_INIT (foundCommands sh)\<rparr>"
  have ok: "shell_ok ?sh" by (rule shell_ok_cong [OF assms]) simp_all
  have empty: "found ?sh []" by (simp add: found_def dll_init)
  have names: "i < NUM_OF_COMMANDS \<Longrightarrow> cmd_name (commands ?sh (command_at ?sh i)) = table_name i" for i
    by (rule shell_ok_table(1) [OF ok])
  let ?find = "List.find (\<lambda>i. arg0 = cmd_name (commands ?sh (command_at ?sh i))) [0..<NUM_OF_COMMANDS]"
  show ?thesis
  proof (cases ?find)
    case None
    then have none: "\<not> (\<exists>i < NUM_OF_COMMANDS. table_name i = arg0)" using names by (auto simp: find_None_iff)
    have "distinct ([] @ [0..<NUM_OF_COMMANDS])" "set ([] @ [0..<NUM_OF_COMMANDS]) \<subseteq> {..<NUM_OF_COMMANDS}" "False \<longleftrightarrow> [] \<noteq> []" by auto
    from collect_matches_ok [OF ok empty this, of arg0] None none show ?thesis
      by (auto simp: process_command_def Let_def)
  next
    case (Some i)
    then have i: "i < NUM_OF_COMMANDS" "table_name i = arg0" using names by (auto simp: find_Some_iff)
    have fit: "args_fit n (commands ?sh (command_at ?sh i)) \<longleftrightarrow> wants i n"
      using shell_ok_table(2) [OF ok i(1)] by (auto simp: args_fit_def wants_def Let_def)
    show ?thesis
    proof (cases "wants i n")
      case True
      have "process_command n arg0 sh = Some (int i, ?sh)" using Some fit True by (simp add: process_command_def Let_def)
      then show ?thesis using ok empty i True by (intro exI [of _ "int i"] exI [of _ ?sh] exI [of _ "[]"]) auto
    next
      case False
      from add_found_ok [OF ok empty i(1), of True] obtain sh1 where
        sh1: "add_found True i ?sh = Some sh1" "shell_ok sh1" "found sh1 [i]" by auto
      have "process_command n arg0 sh = Some (CMD_INV_NUM_ARGS, sh1)"
        using Some fit False sh1(1) by (simp add: process_command_def Let_def)
      then show ?thesis using sh1(2,3) i False by (intro exI [of _ CMD_INV_NUM_ARGS] exI [of _ sh1] exI [of _ "[i]"]) auto
    qed
  qed
qed

section \<open>A table in memory\<close>

definition table_store :: "ptr \<Rightarrow> ptr \<Rightarrow> command" where
  "table_store b p =
    (let (name, f, n) = command_table ! ((unat p - unat b) div 24)
     in \<lparr>cmd_name = name, function_to_execute = f, num_of_args = n, cmd_next = NULL, cmd_prev = NULL\<rparr>)"

definition shell0 :: shell where
  "shell0 = \<lparr>command_base = 0xF0130000, commands = table_store 0xF0130000, foundCommands = \<lparr>lh_first = NULL, lh_last = NULL, lh_size = 0\<rparr>\<rparr>"

lemma NUM_OF_COMMANDS_eq: "NUM_OF_COMMANDS = 45"
  by (simp add: NUM_OF_COMMANDS_def command_table_def)

lemma shell0_ok: "shell_ok shell0"
proof -
  have "entry_of (commands shell0 (command_at shell0 i)) = command_table ! i" if "i < NUM_OF_COMMANDS" for i
  proof -
    have "unat (command_at shell0 i) = unat (0xF0130000 :: u32) + 24 * i"
      unfolding command_at_def by (subst unat_add_of_nat) (use that in \<open>simp_all add: shell0_def NUM_OF_COMMANDS_eq\<close>)
    moreover have "commands shell0 = table_store 0xF0130000" by (simp add: shell0_def)
    ultimately show ?thesis by (simp add: table_store_def entry_of_def Let_def case_prod_unfold)
  qed
  moreover have "command_base shell0 = 0xF0130000" by (simp add: shell0_def)
  ultimately show ?thesis by (simp add: shell_ok_def NUM_OF_COMMANDS_eq)
qed

text \<open>The word \<^verbatim>\<open>rnl\<close> could mean \<^verbatim>\<open>kernel_info\<close>, \<^verbatim>\<open>runall\<close> or \<^verbatim>\<open>printall\<close>.\<close>

lemma rnl_found:
  "\<not> (\<exists>i < NUM_OF_COMMANDS. table_name i = ascii ''rnl'')"
  "filter (\<lambda>i. subseq (ascii ''rnl'') (table_name i)) [0..<NUM_OF_COMMANDS] = [1, 4, 5]"
proof -
  have n: "map table_name [0..<NUM_OF_COMMANDS] = map fst command_table"
    unfolding NUM_OF_COMMANDS_def table_name_def by (rule nth_equalityI) simp_all
  have "ascii ''rnl'' \<notin> set (map fst command_table)" by (simp add: command_table_def ascii_def)
  then show "\<not> (\<exists>i < NUM_OF_COMMANDS. table_name i = ascii ''rnl'')" unfolding n [symmetric] by force
  show "filter (\<lambda>i. subseq (ascii ''rnl'') (table_name i)) [0..<NUM_OF_COMMANDS] = [1, 4, 5]"
    unfolding NUM_OF_COMMANDS_eq by (simp add: upt_rec table_name_def command_table_def ascii_def)
qed

theorem process_command_correct_witness:
  "\<exists>sh'. process_command 1 (ascii ''rnl'') shell0 = Some (CMD_MATCHED, sh') \<and> found sh' [1, 4, 5]"
  using process_command_correct [OF shell0_ok, of 1 "ascii ''rnl''"] rnl_found by auto

end
