(* ===== verification/FOS_PromptLine.thy ===== *)
theory FOS_PromptLine
  imports FOS_Prompt
begin

text \<open>
  The line editor of the kernel prompt, \<^verbatim>\<open>command_prompt_readline\<close> in \<^verbatim>\<open>kern/cmd/command_prompt.c\<close>: history on
  the up and down arrows, completion on the tabulator, moving, deleting and typing.
  The buffers lie in memory at the addresses of \<open>line_buffers\<close>; the names of programs and tests,
  string constants of the code, are lists. Lengths and indices are of type \<^verbatim>\<open>int\<close>.
\<close>

abbreviation "HISTORY_MAX \<equiv> 19 :: int"

record line_buffers =
  command_history :: ptr
  empty_line :: ptr
  PrefixList :: ptr
  temp_buf :: ptr
  tab_arguments :: ptr
  tab_whitespace :: ptr

record completions =
  user_programs :: "u8 list list"
  tests :: "u8 list list"

text \<open>The locals of the loop (\<open>last_c\<close> has no initial value) and the global \<^verbatim>\<open>last_command_idx\<close>.\<close>

record editor =
  ed_mem :: memory
  ed_cons :: console
  ed_i :: int
  lastIndex :: int
  commandidx :: int
  last_c :: u32
  prefix_list_idx :: int
  prefix_list_size :: int
  is_run_cmd :: bool
  is_tst_cmd :: bool
  last_command_idx :: int

section \<open>Showing another line\<close>

primrec erase_chars :: "nat \<Rightarrow> console \<Rightarrow> console" where
  "erase_chars 0 s = s"
| "erase_chars (Suc n) s = erase_chars n (cputchar 8 s)"

primrec show_and_copy :: "ptr \<Rightarrow> ptr \<Rightarrow> nat \<Rightarrow> memory \<times> console \<Rightarrow> memory \<times> console" where
  "show_and_copy src dst 0 ms = ms"
| "show_and_copy src dst (Suc n) ms =
    (let s1 = cputchar (scast (fst ms src)) (snd ms); m1 = (fst ms)(dst := fst ms src)
     in show_and_copy (src + 1) (dst + 1) n (m1, s1))"

text \<open>Both routines take back what is shown and show and copy a line; the result is \<^verbatim>\<open>*i\<close> and \<^verbatim>\<open>*last_index\<close>.\<close>

definition clearandwritecommand :: "line_buffers \<Rightarrow> ptr \<Rightarrow> editor \<Rightarrow> editor option" where
  "clearandwritecommand lb buf e = do {
     let line = command_history lb + of_int (1024 * commandidx e);
     let s1 = erase_chars (nat (ed_i e)) (ed_cons e);
     len \<leftarrow> strlen (ed_mem e) line;
     let m1 = memcpy buf (empty_line lb) 1024 (ed_mem e);
     let (m2, s2) = show_and_copy line buf (nat (sint len)) (m1, s1);
     Some (e\<lparr>ed_mem := m2, ed_cons := s2, ed_i := max 0 (sint len), lastIndex := sint len\<rparr>)
   }"

definition RoundAutoCompleteCommandWithTheSamePrefix :: "line_buffers \<Rightarrow> int \<Rightarrow> ptr \<Rightarrow> ptr \<Rightarrow> editor \<Rightarrow> editor option" where
  "RoundAutoCompleteCommandWithTheSamePrefix lb old_buf_len prefix_element buf e = do {
     let s1 = erase_chars (nat old_buf_len) (ed_cons e);
     len \<leftarrow> strlen (ed_mem e) prefix_element;
     let m1 = memcpy buf (empty_line lb) 1024 (ed_mem e);
     let (m2, s2) = show_and_copy prefix_element buf (nat (sint len)) (m1, s1);
     Some (e\<lparr>ed_mem := m2, ed_cons := s2, ed_i := max 0 (sint len), lastIndex := sint len\<rparr>)
   }"

section \<open>Completing a word\<close>

primrec clear_lines :: "nat \<Rightarrow> ptr \<Rightarrow> memory \<Rightarrow> memory" where
  "clear_lines 0 p m = m"
| "clear_lines (Suc n) p m = clear_lines n (p + 1024) (memset p 0 1024 m)"

definition clear_prefix_list :: "line_buffers \<Rightarrow> memory \<Rightarrow> memory" where
  "clear_prefix_list lb = clear_lines 100 (PrefixList lb)"

primrec write_bytes :: "ptr \<Rightarrow> u8 list \<Rightarrow> memory \<Rightarrow> memory" where
  "write_bytes p [] m = m"
| "write_bytes p (x # xs) m = write_bytes (p + 1) xs (m(p := x))"

text \<open>\<^verbatim>\<open>strncmp\<close> over the length of the word is 0.\<close>

definition has_prefix :: "u8 list \<Rightarrow> u8 list \<Rightarrow> bool" where
  "has_prefix word name \<longleftrightarrow> take (length word) name = word"

text \<open>The names that begin with the word become entries of the list, each behind the words before it.\<close>

primrec list_matches :: "line_buffers \<Rightarrow> u8 list \<Rightarrow> u8 list \<Rightarrow> u8 list list \<Rightarrow> int \<Rightarrow> memory \<Rightarrow> int \<times> memory" where
  "list_matches lb before word [] it m = (it, m)"
| "list_matches lb before word (name # names) it m =
    (if has_prefix word name then
       let p = PrefixList lb + of_int (1024 * it)
       in list_matches lb before word names (it + 1) (write_bytes p (before @ name) (memset p 0 1024 m))
     else list_matches lb before word names it m)"

definition show_completion :: "line_buffers \<Rightarrow> ptr \<Rightarrow> int \<Rightarrow> editor \<Rightarrow> editor option" where
  "show_completion lb buf bufLength e = do {
     n \<leftarrow> strlen (ed_mem e) (PrefixList lb);
     let m1 = copy_up buf (PrefixList lb) (unat n) (ed_mem e);
     let s1 = erase_chars (nat bufLength) (ed_cons e);
     len \<leftarrow> strlen m1 buf;
     let (_, s2) = show_and_copy buf buf (nat (sint len)) (m1, s1);
     Some (e\<lparr>ed_mem := m1, ed_cons := s2, ed_i := sint len, lastIndex := sint len, prefix_list_idx := 0\<rparr>)
   }"

text \<open>Several words: the buffer keeps all but the last one, which is looked for; \<open>None\<close> inside: \<^verbatim>\<open>continue\<close>.\<close>

definition split_last_word :: "line_buffers \<Rightarrow> ptr \<Rightarrow> u32 \<Rightarrow> u32 \<Rightarrow> editor \<Rightarrow> editor option option" where
  "split_last_word lb buf bufLength n e = do {
     let arg = (\<lambda>i. load32 (ed_mem e) (tab_arguments lb + 4 * i));
     first \<leftarrow> c_string (ed_mem e) (arg 0);
     if first \<noteq> ascii ''run'' \<and> first \<noteq> ascii ''load'' \<and> first \<noteq> ascii ''tst'' then Some None
     else do {
       let e1 = (if first = ascii ''tst'' then e\<lparr>is_tst_cmd := True\<rparr> else e\<lparr>is_run_cmd := True\<rparr>);
       l \<leftarrow> strlen (ed_mem e) (arg (n - 1));
       let m1 = (ed_mem e)(buf + of_nat (nat (sint (bufLength - l))) := 0);
       m2 \<leftarrow> strcpy (temp_buf lb) (arg (n - 1)) m1;
       Some (Some (e1\<lparr>ed_mem := m2\<rparr>))
     }
   }"

text \<open>The first tabulator; \<open>False\<close> stands for \<^verbatim>\<open>continue\<close>, which leaves \<^verbatim>\<open>last_c\<close> as it was.\<close>

definition complete_first :: "line_buffers \<Rightarrow> completions \<Rightarrow> ptr \<Rightarrow> editor \<Rightarrow> (bool \<times> editor) option" where
  "complete_first lb co buf e = do {
     let e = e\<lparr>ed_mem := clear_prefix_list lb (ed_mem e)\<rparr>;
     bufLength \<leftarrow> strlen (ed_mem e) buf;
     if bufLength = 0 \<or> last_c e = 255 then Some (False, e)
     else do {
       let e = e\<lparr>prefix_list_size := 0\<rparr>;
       m1 \<leftarrow> strcpy (temp_buf lb) buf (ed_mem e);
       if m1 (buf + bufLength - 1) = 32 then Some (False, e\<lparr>ed_mem := m1\<rparr>)
       else do {
         (_, n, m2) \<leftarrow> strsplit (temp_buf lb) (tab_whitespace lb) (tab_arguments lb) m1;
         let e = e\<lparr>ed_mem := m2\<rparr>;
         split \<leftarrow> (if n > 1 then split_last_word lb buf bufLength n e else Some (Some e));
         (case split of
            None \<Rightarrow> Some (False, e)
          | Some e \<Rightarrow> do {
              word \<leftarrow> c_string (ed_mem e) (temp_buf lb);
              line \<leftarrow> c_string (ed_mem e) buf;
              let before = (if n > 1 then line else []);
              let (it, m3) =
                (if n = 1 then list_matches lb [] word (map fst command_table) 0 (ed_mem e)
                 else if is_run_cmd e then list_matches lb before word (user_programs co) 0 (ed_mem e)
                 else if is_tst_cmd e then list_matches lb before word (tests co) 0 (ed_mem e)
                 else (0, ed_mem e));
              let e = e\<lparr>ed_mem := m3, prefix_list_size := it\<rparr>;
              e \<leftarrow> (if it \<noteq> 0 then show_completion lb buf (sint bufLength) e else Some e);
              Some (True, e)
            })
       }
     }
   }"

definition complete_next :: "line_buffers \<Rightarrow> ptr \<Rightarrow> editor \<Rightarrow> editor option" where
  "complete_next lb buf e =
    (if prefix_list_size e > 0 then do {
       let entry = (\<lambda>i. PrefixList lb + of_int (1024 * i));
       let prev = prefix_list_idx e;
       let e = e\<lparr>prefix_list_idx := (prev + 1) mod prefix_list_size e\<rparr>;
       old \<leftarrow> strlen (ed_mem e) (entry prev);
       RoundAutoCompleteCommandWithTheSamePrefix lb (sint old) (entry (prefix_list_idx e)) buf e
     }
     else Some e)"

section \<open>The editor\<close>

primrec delete_at :: "nat \<Rightarrow> ptr \<Rightarrow> memory \<Rightarrow> memory" where
  "delete_at 0 p m = m"
| "delete_at (Suc n) p m = delete_at n (p + 1) (m(p := m (p + 1)))"

primrec shift_history :: "nat \<Rightarrow> ptr \<Rightarrow> memory \<Rightarrow> memory" where
  "shift_history 0 p m = m"
| "shift_history (Suc n) p m = shift_history n (p + 1024) (memcpy p (p + 1024) 1024 m)"

text \<open>The end of the line: the terminator and the history.\<close>

definition finish_line :: "line_buffers \<Rightarrow> ptr \<Rightarrow> editor \<Rightarrow> editor option" where
  "finish_line lb buf e = do {
     let m = (ed_mem e)(buf + of_int (lastIndex e) := 0);
     let entry = (\<lambda>i. command_history lb + of_int (1024 * i));
     if last_command_idx e = HISTORY_MAX then
       Some (e\<lparr>ed_mem := memcpy (entry HISTORY_MAX) buf 1024 (shift_history 19 (command_history lb) m)\<rparr>)
     else do {
       d \<leftarrow> strcmp m (entry (last_command_idx e)) buf;
       if d \<noteq> 0 then
         Some (e\<lparr>ed_mem := memcpy (entry (last_command_idx e + 1)) buf 1024 m, last_command_idx := last_command_idx e + 1\<rparr>)
       else Some (e\<lparr>ed_mem := m\<rparr>)
     }
   }"

text \<open>
  One key; the first component is true at the end of the line. What is typed is always echoed, since
  \<^verbatim>\<open>iscons(0)\<close> is 1. A delete or backspace at the start of the line falls through to the later cases.
\<close>

definition edit_key :: "line_buffers \<Rightarrow> completions \<Rightarrow> ptr \<Rightarrow> u32 \<Rightarrow> editor \<Rightarrow> (bool \<times> editor) option" where
  "edit_key lb co buf c e =
    (let go_on = map_option (\<lambda>e. (False, e\<lparr>last_c := c\<rparr>));
         echo = (\<lambda>e. e\<lparr>ed_cons := cputchar c (ed_cons e)\<rparr>) in
     if c = 226 then
       go_on (clearandwritecommand lb buf (if commandidx e \<noteq> 0 then e\<lparr>commandidx := commandidx e - 1\<rparr> else e))
     else if c = 227 then
       (let e1 = (if commandidx e < last_command_idx e then e\<lparr>commandidx := commandidx e + 1\<rparr> else e)
        in go_on (if last_command_idx e1 \<ge> 0 then clearandwritecommand lb buf e1 else Some e1))
     else if c = 9 then
       (if last_c e \<noteq> 9 then do {
          (set_last, e1) \<leftarrow> complete_first lb co buf e;
          Some (False, if set_last then e1\<lparr>last_c := c\<rparr> else e1)
        }
        else go_on (complete_next lb buf e))
     else if c = 228 then go_on (Some (if ed_i e > 0 then echo (e\<lparr>ed_i := ed_i e - 1\<rparr>) else e))
     else if c = 229 then go_on (Some (if ed_i e < lastIndex e then echo (e\<lparr>ed_i := ed_i e + 1\<rparr>) else e))
     else if c = 0xE9 \<and> ed_i e > 0 then
       go_on (Some (e\<lparr>ed_mem := delete_at (nat (lastIndex e - ed_i e + 1)) (buf + of_int (ed_i e)) (ed_mem e),
         lastIndex := lastIndex e - 1\<rparr>))
     else if sint c \<ge> 32 \<and> ed_i e < BUFLEN - 1 then
       go_on (Some (echo (e\<lparr>ed_mem := (ed_mem e)(buf + of_int (ed_i e) := ucast c), ed_i := ed_i e + 1, lastIndex := lastIndex e + 1\<rparr>)))
     else if c = 8 \<and> ed_i e > 0 then
       go_on (Some (echo (e\<lparr>ed_mem := (ed_mem e)(buf + of_int (ed_i e - 1) := ed_mem e (buf + of_int (ed_i e))), ed_i := ed_i e - 1\<rparr>)))
     else if c = 10 \<or> c = 13 then do { e1 \<leftarrow> finish_line lb buf (echo e); Some (True, e1) }
     else go_on (Some e))"

partial_function (option) edit_loop :: "line_buffers \<Rightarrow> completions \<Rightarrow> ptr \<Rightarrow> editor \<Rightarrow> editor option" where
  "edit_loop lb co buf e = do {
     (c, s) \<leftarrow> getchar (ed_cons e);
     let e1 = e\<lparr>ed_cons := s, lastIndex := max (ed_i e) (lastIndex e)\<rparr>;
     if sint c < 0 then Some e1
     else do {
       (finished, e2) \<leftarrow> edit_key lb co buf c e1;
       if finished then Some e2 else edit_loop lb co buf e2
     }
   }"

text \<open>\<open>junk\<close> and \<open>junk_size\<close> are the first values of \<^verbatim>\<open>last_c\<close> and \<^verbatim>\<open>prefix_list_size\<close>; the result has the new \<^verbatim>\<open>last_command_idx\<close>.\<close>

definition command_prompt_readline ::
  "line_buffers \<Rightarrow> completions \<Rightarrow> u32 \<Rightarrow> int \<Rightarrow> ptr \<Rightarrow> ptr \<Rightarrow> int \<Rightarrow> memory \<times> console \<Rightarrow> (int \<times> memory \<times> console) option" where
  "command_prompt_readline lb co junk junk_size prompt buf last_idx ms = do {
     s \<leftarrow> (if prompt \<noteq> NULL then do {
         t \<leftarrow> put_padded console_printer no_spec prompt \<lparr>tm_console = snd ms, tm_mem = fst ms, tm_count = 0, tm_prog = 0\<rparr>;
         Some (tm_console t)
       }
       else Some (snd ms));
     e \<leftarrow> edit_loop lb co buf
       \<lparr>ed_mem = fst ms, ed_cons = s, ed_i = 0, lastIndex = 0, commandidx = last_idx + 1, last_c = junk,
        prefix_list_idx = 0, prefix_list_size = junk_size, is_run_cmd = False, is_tst_cmd = False, last_command_idx = last_idx\<rparr>;
     Some (last_command_idx e, ed_mem e, ed_cons e)
   }"

text \<open>One round of the prompt: the line is cleared, read and executed; the shell starts without found commands.\<close>

definition prompt_round ::
  "image \<Rightarrow> uheap_strategies \<Rightarrow> prompt_addresses \<Rightarrow> line_buffers \<Rightarrow> completions \<Rightarrow> u32 \<Rightarrow> int \<Rightarrow> ptr \<Rightarrow> ptr \<Rightarrow> int \<Rightarrow> shell \<Rightarrow> kern \<Rightarrow>
   (int \<times> prompt_end \<times> shell) option" where
  "prompt_round img uh a lb co junk junk_size prompt command_line last_idx sh k = do {
     (idx, m, s) \<leftarrow> command_prompt_readline lb co junk junk_size prompt command_line last_idx (memset command_line 0 1024 (kmem k), cons_dev k);
     (r, sh1) \<leftarrow> execute_command img uh a command_line sh (k\<lparr>kmem := m, cons_dev := s\<rparr>);
     Some (idx, r, sh1)
   }"

end
