(* ===== verification/FOS_ConsoleProps.thy ===== *)
theory FOS_ConsoleProps
  imports FOS_Console
begin

text \<open>
  The console as its clients see it: characters come out of the ring buffer in the order the devices
  delivered them, the cursor stays on the screen, and the keyboard keeps its flags in range.
\<close>

section \<open>The ring buffer as a queue\<close>

definition ring_ok :: "console \<Rightarrow> bool" where
  "ring_ok s \<longleftrightarrow> cons_rpos s < 512 \<and> cons_wpos s < 512"

definition after :: "nat \<Rightarrow> nat \<Rightarrow> nat" where
  "after p j = (if p + j < 512 then p + j else p + j - 512)"

definition between :: "nat \<Rightarrow> nat \<Rightarrow> nat" where
  "between r w = (if r \<le> w then w - r else w + 512 - r)"

definition ring :: "console \<Rightarrow> u8 list" where
  "ring s = map (\<lambda>j. cons_buf s (of_nat (after (unat (cons_rpos s)) j))) [0..<between (unat (cons_rpos s)) (unat (cons_wpos s))]"

lemma between_store: "r < 512 \<Longrightarrow> w < 512 \<Longrightarrow> between r w < 511 \<Longrightarrow> between r (after w 1) = Suc (between r w)"
  by (auto simp: between_def after_def split: if_splits)

lemma between_fetch: "r < 512 \<Longrightarrow> w < 512 \<Longrightarrow> r \<noteq> w \<Longrightarrow> between r w = Suc (between (after r 1) w)"
  by (auto simp: between_def after_def split: if_splits)

lemma after_between: "r < 512 \<Longrightarrow> w < 512 \<Longrightarrow> after r (between r w) = w"
  by (auto simp: between_def after_def split: if_splits)

lemma after_less: "r < 512 \<Longrightarrow> w < 512 \<Longrightarrow> j < between r w \<Longrightarrow> after r j \<noteq> w \<and> after r j < 512"
  by (auto simp: between_def after_def split: if_splits)

lemma after_after: "r < 512 \<Longrightarrow> j < 511 \<Longrightarrow> after (after r 1) j = after r (Suc j)"
  by (auto simp: after_def split: if_splits)

lemma after_0: "r < 512 \<Longrightarrow> after r 0 = r"
  by (simp add: after_def)

lemma between_less: "r < 512 \<Longrightarrow> w < 512 \<Longrightarrow> between r w < 512"
  by (auto simp: between_def)

lemma next_position:
  assumes "p < (512 :: u32)"
  shows "unat (if p + 1 = 512 then 0 else p + 1) = after (unat p) 1" "(if p + 1 = 512 then 0 else p + 1) < 512"
proof -
  have p: "unat p < 512" using assms by (simp add: word_less_nat_alt)
  have u: "unat (p + 1) = unat p + 1" using p by (subst unat_word_ariths) simp
  have "p + 1 = 512 \<longleftrightarrow> unat p + 1 = 512" using u by (simp add: word_unat_eq_iff)
  then show "unat (if p + 1 = 512 then 0 else p + 1) = after (unat p) 1" "(if p + 1 = 512 then 0 else p + 1) < 512"
    using p u by (auto simp: word_less_nat_alt after_def)
qed

lemma ring_ok_nat: "ring_ok s \<Longrightarrow> unat (cons_rpos s) < 512 \<and> unat (cons_wpos s) < 512"
  by (simp add: ring_ok_def word_less_nat_alt)

lemma ring_store:
  assumes "ring_ok s" "length (ring s) < 511"
  shows "ring_ok (cons_store c s)" "ring (cons_store c s) = ring s @ [word_of_int c]"
proof -
  let ?r = "unat (cons_rpos s)" let ?w = "unat (cons_wpos s)" let ?n = "between ?r ?w"
  have b: "?r < 512" "?w < 512" using ring_ok_nat [OF assms(1)] by simp_all
  have w: "cons_wpos s < 512" using assms(1) by (simp add: ring_ok_def)
  note n = next_position [OF w]
  show "ring_ok (cons_store c s)" using assms(1) n(2) by (simp add: ring_ok_def cons_store_def)
  have l: "?n < 511" using assms(2) by (simp add: ring_def)
  have k: "of_nat (after ?r j) \<noteq> cons_wpos s" if "j < ?n" for j
  proof -
    have "after ?r j \<noteq> ?w" "after ?r j < 512" using after_less [OF b that] by simp_all
    moreover from this(2) have "unat (of_nat (after ?r j) :: u32) = after ?r j" by (simp add: unat_of_nat)
    ultimately show ?thesis by metis
  qed
  have e: "of_nat (after ?r ?n) = cons_wpos s" by (simp add: after_between [OF b])
  have "ring (cons_store c s) = map (\<lambda>j. ((cons_buf s)(cons_wpos s := word_of_int c)) (of_nat (after ?r j))) [0..<Suc ?n]"
    using between_store [OF b l] n(1) by (simp add: ring_def cons_store_def del: upt_Suc)
  also have "\<dots> = ring s @ [word_of_int c]" using k e by (simp add: ring_def)
  finally show "ring (cons_store c s) = ring s @ [word_of_int c]" .
qed

lemma cons_getc2_ring:
  assumes "ring_ok s"
  shows "case ring s of [] \<Rightarrow> cons_getc2 s = (0, s)
    | x # xs \<Rightarrow> \<exists>p. cons_getc2 s = (ucast x, s\<lparr>cons_rpos := p\<rparr>) \<and> ring (s\<lparr>cons_rpos := p\<rparr>) = xs \<and> ring_ok (s\<lparr>cons_rpos := p\<rparr>)"
proof -
  let ?r = "unat (cons_rpos s)" let ?w = "unat (cons_wpos s)"
  have b: "?r < 512" "?w < 512" using ring_ok_nat [OF assms(1)] by simp_all
  show ?thesis
  proof (cases "cons_rpos s = cons_wpos s")
    case True
    then show ?thesis by (simp add: ring_def cons_getc2_def between_def)
  next
    case False
    then have ne: "?r \<noteq> ?w" by (simp add: word_unat_eq_iff)
    have r: "cons_rpos s < 512" using assms by (simp add: ring_ok_def)
    note n = next_position [OF r]
    let ?p = "if cons_rpos s + 1 = 512 then 0 else cons_rpos s + 1" let ?n = "between (after ?r 1) ?w"
    have m: "?n < 511" using between_fetch [OF b ne] between_less [OF b] by simp
    have L: "ring s = cons_buf s (cons_rpos s) # map (\<lambda>j. cons_buf s (of_nat (after ?r (Suc j)))) [0..<?n]"
      unfolding ring_def between_fetch [OF b ne] map_upt_Suc after_0 [OF b(1)] of_nat_unat ucast_id ..
    have R: "ring (s\<lparr>cons_rpos := ?p\<rparr>) = map (\<lambda>j. cons_buf s (of_nat (after ?r (Suc j)))) [0..<?n]"
      using n(1) after_after [OF b(1)] m by (simp add: ring_def)
    have O: "ring_ok (s\<lparr>cons_rpos := ?p\<rparr>)" using assms n(2) by (simp add: ring_ok_def)
    have G: "cons_getc2 s = (ucast (cons_buf s (cons_rpos s)), s\<lparr>cons_rpos := ?p\<rparr>)" using False by (simp add: cons_getc2_def)
    show ?thesis unfolding L list.case by (intro exI [of _ ?p] conjI G R O)
  qed
qed

section \<open>Reading a device\<close>

text \<open>The characters a device has to deliver: \<open>n\<close> more reads, of which those that give 0 count for nothing.\<close>

primrec device_chars :: "(console \<Rightarrow> int \<times> console) \<Rightarrow> nat \<Rightarrow> console \<Rightarrow> u8 list" where
  "device_chars proc 0 s = []"
| "device_chars proc (Suc n) s =
    (if fst (proc s) = 0 then [] else [word_of_int (fst (proc s))]) @ device_chars proc n (snd (proc s))"

text \<open>
  What \<^verbatim>\<open>cons_intr\<close> relies on: a device with \<open>waiting\<close> bytes left answers \<open>- 1\<close> exactly when none is
  left, takes one at each read, and has nothing to do with the ring buffer.
\<close>

locale input_device =
  fixes proc :: "console \<Rightarrow> int \<times> console" and waiting :: "console \<Rightarrow> nat"
  assumes idle: "waiting s = 0 \<Longrightarrow> proc s = (- 1, s)"
    and busy: "waiting s = Suc n \<Longrightarrow> fst (proc s) \<noteq> - 1 \<and> waiting (snd (proc s)) = n"
    and ring_kept: "ring (snd (proc s)) = ring s" "ring_ok (snd (proc s)) = ring_ok s"
    and store_waiting: "waiting (cons_store c s) = waiting s"
    and store_proc: "proc (cons_store c s) = (fst (proc s), cons_store c (snd (proc s)))"
begin

lemma chars_store: "device_chars proc n (cons_store c s) = device_chars proc n s"
  by (induction n arbitrary: s) (simp_all add: store_proc)

text \<open>Draining a device: the loop ends, with its characters behind those that were in the buffer.\<close>

lemma intr_drains:
  assumes "ring_ok s" "length (ring s) + length (device_chars proc (waiting s) s) < 512"
  shows "\<exists>s'. cons_intr proc s = Some s' \<and> ring s' = ring s @ device_chars proc (waiting s) s \<and> ring_ok s' \<and> waiting s' = 0"
  using assms
proof (induction "waiting s" arbitrary: s)
  case 0
  then show ?case using idle [of s] by (simp add: cons_intr.simps)
next
  case (Suc n)
  let ?c = "fst (proc s)" let ?s = "snd (proc s)"
  have w: "waiting s = Suc n" using Suc.hyps(2) by simp
  have p: "proc s = (?c, ?s)" "?c \<noteq> - 1" "waiting ?s = n" using busy [OF w] by simp_all
  show ?case
  proof (cases "?c = 0")
    case True
    have "cons_intr proc s = cons_intr proc ?s" using p(2) True by (subst cons_intr.simps) (simp add: case_prod_unfold)
    moreover have "length (ring ?s) + length (device_chars proc n ?s) < 512"
      using Suc.prems(2) True by (simp add: w ring_kept)
    then obtain s' where "cons_intr proc ?s = Some s'" "ring s' = ring ?s @ device_chars proc n ?s" "ring_ok s'" "waiting s' = 0"
      using Suc.hyps(1) [of ?s] p(3) Suc.prems(1) by (auto simp: ring_kept)
    ultimately show ?thesis using True by (simp add: w ring_kept)
  next
    case False
    let ?t = "cons_store ?c ?s"
    have l: "length (ring s) < 511" using Suc.prems(2) False by (simp add: w)
    have r: "ring_ok ?t" "ring ?t = ring s @ [word_of_int ?c]" using ring_store [of ?s ?c] Suc.prems(1) l by (simp_all add: ring_kept)
    have wt: "waiting ?t = n" by (simp add: store_waiting p(3))
    have "cons_intr proc s = cons_intr proc ?t" using p(2) False by (subst cons_intr.simps) (simp add: case_prod_unfold)
    moreover have "length (ring ?t) + length (device_chars proc n ?t) < 512" using Suc.prems(2) False by (simp add: w r(2) chars_store)
    then obtain s' where "cons_intr proc ?t = Some s'" "ring s' = ring ?t @ device_chars proc n ?t" "ring_ok s'" "waiting s' = 0"
      using Suc.hyps(1) [of ?t] wt r(1) by auto
    ultimately show ?thesis using False by (simp add: w r(2) chars_store)
  qed
qed

text \<open>What reading the device and storing a character keep is kept.\<close>

lemma intr_keeps:
  assumes "\<And>t. P t \<Longrightarrow> P (snd (proc t))" "\<And>t c. P t \<Longrightarrow> P (cons_store c t)" "P s"
  shows "\<exists>s'. cons_intr proc s = Some s' \<and> P s'"
  using assms(3)
proof (induction "waiting s" arbitrary: s)
  case 0
  then show ?case using idle [of s] by (simp add: cons_intr.simps)
next
  case (Suc n)
  let ?c = "fst (proc s)" let ?s = "snd (proc s)"
  have w: "waiting s = Suc n" using Suc.hyps(2) by simp
  have b: "?c \<noteq> - 1" "waiting ?s = n" "waiting (cons_store ?c ?s) = n" using busy [OF w] store_waiting by simp_all
  have "cons_intr proc s = cons_intr proc (if ?c = 0 then ?s else cons_store ?c ?s)"
    using b(1) by (subst cons_intr.simps) (simp add: case_prod_unfold)
  then show ?case using Suc.hyps(1) [of "if ?c = 0 then ?s else cons_store ?c ?s"] b Suc.prems assms(1,2) by simp
qed

end

interpretation serial: input_device serial_proc_data "\<lambda>s. length (serial_in s)"
proof
  show "fst (serial_proc_data s) \<noteq> - 1 \<and> length (serial_in (snd (serial_proc_data s))) = n" if l: "length (serial_in s) = Suc n" for s n
  proof -
    obtain d r where "serial_in s = d # r" using l by (auto simp: length_Suc_conv)
    moreover have "uint d \<noteq> - 1" using uint_ge_0 [of d] by linarith
    ultimately show ?thesis using l by (simp add: serial_proc_data_def)
  qed
qed (simp_all add: serial_proc_data_def ring_def ring_ok_def cons_store_def split: list.split)

text \<open>The keyboard changes its own part of the state and the screen.\<close>

lemma caps_range: "- 1 < c \<Longrightarrow> c < 256 \<Longrightarrow> - 1 < caps sh c \<and> caps sh c < 256"
  by (simp add: caps_def)

lemma key_pressed_range: "- 1 < fst (key_pressed d sh s) \<and> fst (key_pressed d sh s) < 256"
proof -
  have c: "- 1 < uint (charcode x d)" "uint (charcode x d) < 256" for x
    using uint_ge_0 [of "charcode x d"] uint_lt2p [of "charcode x d"] by (linarith, simp)
  show ?thesis using caps_range [OF c] by (auto simp: key_pressed_def delete_char_def Let_def)
qed

lemma kbd_input: "kbd_in (snd (key_pressed d sh s)) = kbd_in s"
  by (simp add: key_pressed_def delete_char_def Let_def)

lemma kbd_ring: "ring (snd (key_pressed d sh s)) = ring s" "ring_ok (snd (key_pressed d sh s)) = ring_ok s"
  by (simp_all add: key_pressed_def delete_char_def Let_def ring_def ring_ok_def)

lemma kbd_store: "key_pressed d sh (cons_store c s) = (fst (key_pressed d sh s), cons_store c (snd (key_pressed d sh s)))"
  by (auto simp: key_pressed_def delete_char_def Let_def cons_store_def)

interpretation kbd: input_device kbd_proc_data "\<lambda>s. length (kbd_in s)"
proof
  show "fst (kbd_proc_data s) \<noteq> - 1 \<and> length (kbd_in (snd (kbd_proc_data s))) = n" if l: "length (kbd_in s) = Suc n" for s n
  proof -
    obtain d r where i: "kbd_in s = d # r" using l by (auto simp: length_Suc_conv)
    have "fst (key_pressed x sh t) \<noteq> - 1" for x sh t using key_pressed_range [of x sh t] by simp
    then show ?thesis using l by (simp add: kbd_proc_data_def i Let_def kbd_input case_prod_unfold)
  qed
  show "ring (snd (kbd_proc_data s)) = ring s" "ring_ok (snd (kbd_proc_data s)) = ring_ok s" for s
    by (simp_all add: kbd_proc_data_def Let_def case_prod_unfold kbd_ring split: list.split) (simp_all add: ring_def ring_ok_def)
  show "kbd_proc_data (cons_store c s) = (fst (kbd_proc_data s), cons_store c (snd (kbd_proc_data s)))" for c s
  proof (cases "kbd_in s")
    case (Cons d r)
    have "(cons_store c s)\<lparr>kbd_in := r\<rparr> = cons_store c (s\<lparr>kbd_in := r\<rparr>)" "kbd_in (cons_store c s) = d # r"
      "kbd_shift (cons_store c t) = kbd_shift t" "(cons_store c s)\<lparr>kbd_in := r, kbd_shift := x\<rparr> = cons_store c (s\<lparr>kbd_in := r, kbd_shift := x\<rparr>)" for x t
      using Cons by (simp_all add: cons_store_def)
    then show ?thesis using Cons by (simp add: kbd_proc_data_def Let_def case_prod_unfold kbd_store)
  qed (simp add: kbd_proc_data_def cons_store_def)
qed (simp_all add: kbd_proc_data_def cons_store_def)

text \<open>The keyboard does not look at the serial port or the ring buffer.\<close>

definition kbd_view :: "console \<Rightarrow> console" where
  "kbd_view s = s\<lparr>serial_in := [], cons_buf := (\<lambda>_. 0), cons_wpos := 0, cons_rpos := 0\<rparr>"

lemma key_pressed_view: "key_pressed d sh (kbd_view s) = (fst (key_pressed d sh s), kbd_view (snd (key_pressed d sh s)))"
  by (auto simp: key_pressed_def delete_char_def Let_def kbd_view_def)

lemma kbd_proc_view: "kbd_proc_data (kbd_view s) = (fst (kbd_proc_data s), kbd_view (snd (kbd_proc_data s)))"
proof (cases "kbd_in s")
  case (Cons d r)
  have "(kbd_view s)\<lparr>kbd_in := r\<rparr> = kbd_view (s\<lparr>kbd_in := r\<rparr>)" "kbd_in (kbd_view s) = d # r"
    "kbd_shift (kbd_view t) = kbd_shift t" "(kbd_view s)\<lparr>kbd_in := r, kbd_shift := x\<rparr> = kbd_view (s\<lparr>kbd_in := r, kbd_shift := x\<rparr>)" for x t
    using Cons by (simp_all add: kbd_view_def)
  then show ?thesis using Cons by (simp add: kbd_proc_data_def Let_def case_prod_unfold key_pressed_view)
qed (simp add: kbd_proc_data_def kbd_view_def)

lemma kbd_chars_view: "device_chars kbd_proc_data n (kbd_view s) = device_chars kbd_proc_data n s"
  by (induction n arbitrary: s) (simp_all add: kbd_proc_view)

abbreviation serial_chars :: "console \<Rightarrow> u8 list" where
  "serial_chars s \<equiv> device_chars serial_proc_data (length (serial_in s)) s"

abbreviation kbd_chars :: "console \<Rightarrow> u8 list" where
  "kbd_chars s \<equiv> device_chars kbd_proc_data (length (kbd_in s)) s"

lemma serial_chars_filter: "serial_chars s = filter (\<lambda>d. d \<noteq> 0) (serial_in s)"
proof (induction "serial_in s" arbitrary: s)
  case (Cons d r)
  have "serial_chars (s\<lparr>serial_in := r\<rparr>) = filter (\<lambda>d. d \<noteq> 0) r" using Cons.hyps(1) [of "s\<lparr>serial_in := r\<rparr>"] by simp
  moreover have "uint d = 0 \<longleftrightarrow> d = 0" by (metis uint_0_iff)
  ultimately show ?case using Cons.hyps(2) [symmetric] by (simp add: serial_proc_data_def)
qed simp

lemma serial_intr_drains:
  assumes "ring_ok s" "serial_exists s" "length (ring s) + length (serial_chars s) < 512"
  shows "\<exists>s'. serial_intr s = Some s' \<and> ring s' = ring s @ serial_chars s \<and> ring_ok s' \<and> serial_in s' = [] \<and> kbd_view s' = kbd_view s"
proof -
  obtain s' where s': "cons_intr serial_proc_data s = Some s'" "ring s' = ring s @ serial_chars s" "ring_ok s'" "serial_in s' = []"
    using serial.intr_drains [OF assms(1,3)] by auto
  have "\<exists>s'. cons_intr serial_proc_data s = Some s' \<and> kbd_view s' = kbd_view s"
    by (rule serial.intr_keeps [where P = "\<lambda>t. kbd_view t = kbd_view s"])
      (simp_all add: kbd_view_def serial_proc_data_def cons_store_def split: list.split)
  then show ?thesis using s' assms(2) by (simp add: serial_intr_def)
qed

text \<open>C22: Reading the console delivers the characters in the order in which they came: what was in
  the ring buffer, then what the serial port and the keyboard have, as long as fewer than 512 are
  pending; without any the result is 0.\<close>

theorem cons_getc_fifo:
  assumes "ring_ok s" "serial_exists s" "length (ring s) + length (serial_chars s) + length (kbd_chars s) < 512"
  shows "\<exists>c s'. cons_getc s = Some (c, s') \<and> serial_in s' = [] \<and> kbd_in s' = [] \<and> ring_ok s' \<and>
    (case ring s @ filter (\<lambda>d. d \<noteq> 0) (serial_in s) @ kbd_chars s of
       [] \<Rightarrow> c = 0 \<and> ring s' = []
     | x # xs \<Rightarrow> c = ucast x \<and> ring s' = xs)"
proof -
  obtain s1 where s1: "serial_intr s = Some s1" "ring s1 = ring s @ serial_chars s" "ring_ok s1" "serial_in s1 = []"
      "kbd_view s1 = kbd_view s"
    using serial_intr_drains assms by fastforce
  have "kbd_in s1 = kbd_in s" using arg_cong [OF s1(5), of kbd_in] by (simp add: kbd_view_def)
  moreover have "device_chars kbd_proc_data n s1 = device_chars kbd_proc_data n s" for n
    using kbd_chars_view [of n s1] kbd_chars_view [of n s] s1(5) by simp
  ultimately have k: "kbd_chars s1 = kbd_chars s" by simp
  have l: "length (ring s1) + length (kbd_chars s1) < 512" unfolding k using assms(3) s1(2) by simp
  then obtain s2 where s2: "cons_intr kbd_proc_data s1 = Some s2" "ring s2 = ring s1 @ kbd_chars s1" "ring_ok s2" "kbd_in s2 = []"
    using kbd.intr_drains [OF s1(3)] by auto
  have "\<exists>s2. cons_intr kbd_proc_data s1 = Some s2 \<and> serial_in s2 = []"
    by (rule kbd.intr_keeps [where P = "\<lambda>t. serial_in t = []"])
      (use s1(4) in \<open>auto simp: kbd_proc_data_def key_pressed_def delete_char_def Let_def cons_store_def split: list.split prod.split\<close>)
  then have "serial_in s2 = []" using s2(1) by simp
  moreover have "ring s2 = ring s @ filter (\<lambda>d. d \<noteq> 0) (serial_in s) @ kbd_chars s"
    using s2(2) s1(2) by (simp add: k serial_chars_filter)
  moreover have "cons_getc s = Some (cons_getc2 s2)" using s1(1) s2(1) by (simp add: cons_getc_def kbd_intr_def)
  ultimately show ?thesis using cons_getc2_ring [OF s2(3)] s2(3,4) by (auto split: list.splits)
qed

section \<open>The screen\<close>

definition screen_ok :: "console \<Rightarrow> bool" where
  "screen_ok s \<longleftrightarrow> crt_pos s < CRT_SIZE \<and> 0 \<le> text_length s \<and> text_length s \<le> 80"

text \<open>Nothing was written outside the 2000 characters of the screen.\<close>

definition screen_only :: "console \<Rightarrow> console \<Rightarrow> bool" where
  "screen_only s s' \<longleftrightarrow> (\<forall>i. 2000 \<le> i \<longrightarrow> crt_buf s' i = crt_buf s i)"

lemma screen_only_trans: "screen_only s t \<Longrightarrow> screen_only t u \<Longrightarrow> screen_only s u"
  by (simp add: screen_only_def)

lemma cga_finish_ok:
  assumes "crt_pos s < CRT_SIZE + CRT_COLS" "0 \<le> text_length s" "text_length s \<le> 80"
  shows "screen_ok (cga_finish s)" "screen_only s (cga_finish s)" "cga_cursor (cga_finish s) = crt_pos (cga_finish s)"
proof -
  have "crt_pos s - CRT_COLS < CRT_SIZE" if "CRT_SIZE \<le> crt_pos s"
  proof -
    have "unat (crt_pos s) < 2080" "2000 \<le> unat (crt_pos s)" using assms(1) that by (simp_all add: word_less_nat_alt word_le_nat_alt)
    then have "unat (crt_pos s - CRT_COLS) = unat (crt_pos s) - 80" by (simp add: unat_sub word_le_nat_alt)
    then show ?thesis using \<open>unat (crt_pos s) < 2080\<close> \<open>2000 \<le> unat (crt_pos s)\<close> by (simp add: word_less_nat_alt)
  qed
  then show "screen_ok (cga_finish s)" using assms(2,3) by (auto simp: screen_ok_def cga_finish_def Let_def not_le)
  have "scroll_up b i = b i" if "2000 \<le> i" for b i
  proof -
    have "\<not> i < 2000" "\<not> i < 1920" using that by (simp_all add: word_le_nat_alt word_less_nat_alt)
    then show ?thesis by (simp add: scroll_up_def)
  qed
  then show "screen_only s (cga_finish s)" by (simp add: screen_only_def cga_finish_def Let_def)
  show "cga_cursor (cga_finish s) = crt_pos (cga_finish s)" by (simp add: cga_finish_def Let_def)
qed

lemma on_screen_cell: "unat (p :: u16) < 2000 \<Longrightarrow> 2000 \<le> i \<Longrightarrow> (ucast p :: u32) \<noteq> i"
proof -
  assume "unat p < 2000" "2000 \<le> i"
  moreover have "unat (ucast p :: u32) = unat p" using \<open>unat p < 2000\<close> by (simp add: unsigned_ucast_eq take_bit_nat_eq_self)
  ultimately show ?thesis by (auto simp: word_le_nat_alt)
qed

lemma next_cell:
  assumes "unat (p :: u16) < 2000"
  shows "unat (p + 1) = unat p + 1" "uint (p + 1) = int (unat p) + 1" "unat (p + 80) = unat p + 80"
proof -
  show u: "unat (p + 1) = unat p + 1" using assms by (subst unat_word_ariths) simp
  show "unat (p + 80) = unat p + 80" using assms by (subst unat_word_ariths) simp
  have "uint (p + 1) = int (unat (p + 1))" by (rule uint_nat)
  then show "uint (p + 1) = int (unat p) + 1" using u by simp
qed

lemma line_start: "unat (q - q mod CRT_COLS) \<le> unat q"
  using unat_sub [of "q mod CRT_COLS" q] by (simp add: word_le_nat_alt unat_mod)

lemma cga_switch_ok:
  assumes "screen_ok s"
  shows "crt_pos (cga_switch c s) < CRT_SIZE + CRT_COLS" "0 \<le> text_length (cga_switch c s)" "text_length (cga_switch c s) \<le> 80"
    "screen_only s (cga_switch c s)"
proof -
  have p: "unat (crt_pos s) < 2000" using assms by (simp add: screen_ok_def word_less_nat_alt)
  have t: "0 \<le> text_length s" "text_length s \<le> 80" using assms by (simp_all add: screen_ok_def)
  note n = next_cell [OF p]
  have prev_ok: "unat (crt_pos s - 1) < 2000" if "0 < crt_pos s" using that p by (simp add: unat_minus_one word_greater_zero_iff)
  have line: "unat (crt_pos s + CRT_COLS - (crt_pos s + CRT_COLS) mod CRT_COLS) < 2080"
    using line_start [of "crt_pos s + CRT_COLS"] n(3) p by linarith
  have start: "unat (crt_pos s - crt_pos s mod CRT_COLS) < 2080" using line_start [of "crt_pos s"] p by linarith
  have small: "q < CRT_SIZE + CRT_COLS \<longleftrightarrow> unat q < 2080" for q by (simp add: word_less_nat_alt)
  show "crt_pos (cga_switch c s) < CRT_SIZE + CRT_COLS"
    unfolding small using p n(1) prev_ok line start by (auto simp: cga_switch_def Let_def)
  show "0 \<le> text_length (cga_switch c s)" using t by (auto simp: cga_switch_def Let_def)
  have "text_length s + 1 \<le> 80" if "1920 + text_length s < uint (crt_pos s + 1)" using that n(2) p by linarith
  then show "text_length (cga_switch c s) \<le> 80" using t by (auto simp: cga_switch_def Let_def)
  show "screen_only s (cga_switch c s)"
    using on_screen_cell [OF p] on_screen_cell [OF prev_ok] by (auto simp: cga_switch_def Let_def screen_only_def)
qed

lemma cga_plain_ok:
  assumes "screen_ok s"
  shows "screen_ok (cga_plain c s)" "screen_only s (cga_plain c s)" "cga_cursor (cga_plain c s) = crt_pos (cga_plain c s)"
  using cga_finish_ok [OF cga_switch_ok(1-3) [OF assms]] cga_switch_ok(4) [OF assms] screen_only_trans
  unfolding cga_plain_def by blast+

lemma lpt_putc_screen: "screen_ok (lpt_putc c s) = screen_ok s" "crt_buf (lpt_putc c s) = crt_buf s"
  by (simp_all add: lpt_putc_def screen_ok_def)

lemma put_blank_ok: "screen_ok s \<Longrightarrow> screen_ok (put_blank s) \<and> screen_only s (put_blank s)"
  using cga_plain_ok [of "lpt_putc 0x20 s" "with_attribute 0x20"]
  by (simp add: put_blank_def lpt_putc_screen screen_only_def)

lemma put_blanks_ok: "screen_ok s \<Longrightarrow> screen_ok ((put_blank ^^ n) s) \<and> screen_only s ((put_blank ^^ n) s)"
proof (induction n)
  case (Suc n)
  then show ?case using put_blank_ok [of "(put_blank ^^ n) s"] screen_only_trans by auto
qed (simp add: screen_only_def)

lemma cons_putc_ok:
  assumes "screen_ok s"
  shows "screen_ok (cons_putc c s) \<and> cga_cursor (cons_putc c s) = crt_pos (cons_putc c s) \<and>
    (\<forall>i. 2000 \<le> i \<longrightarrow> crt_buf (cons_putc c s) i = crt_buf s i)"
proof -
  let ?t = "lpt_putc c s"
  have t: "screen_ok ?t" using assms by (simp add: lpt_putc_screen)
  let ?b = "(put_blank ^^ 5) ?t"
  have b: "screen_ok ?b" "screen_only ?t ?b" using put_blanks_ok [OF t] by simp_all
  have f: "crt_pos ?b < CRT_SIZE + CRT_COLS" "0 \<le> text_length ?b" "text_length ?b \<le> 80"
    using b(1) by (auto simp: screen_ok_def intro: order_less_trans)
  have "screen_ok (cons_putc c s) \<and> cga_cursor (cons_putc c s) = crt_pos (cons_putc c s) \<and> screen_only ?t (cons_putc c s)"
    using cga_finish_ok [OF f] cga_plain_ok [OF t] screen_only_trans [OF b(2)] by (simp add: cons_putc_def cga_putc_def Let_def)
  then show ?thesis by (simp add: screen_only_def lpt_putc_screen)
qed

text \<open>C23: Whatever is printed, the cursor stays on the 25 lines of the screen, where the display
  controller is told to show it, nothing outside the screen is written and the length of the text in the
  last line stays between 0 and 80.\<close>

theorem cons_putc_stays_on_screen:
  assumes "screen_ok s"
  shows "screen_ok (cons_putc c s) \<and> cga_cursor (cons_putc c s) = crt_pos (cons_putc c s) \<and>
    (\<forall>i. 2000 \<le> i \<longrightarrow> crt_buf (cons_putc c s) i = crt_buf s i)"
  by (rule cons_putc_ok [OF assms])

section \<open>The keyboard\<close>

text \<open>The shift state is a set of seven flags.\<close>

abbreviation "KBD_FLAGS \<equiv> 0x7F :: u32"

definition flags_only :: "u32 \<Rightarrow> bool" where
  "flags_only x \<longleftrightarrow> (\<forall>n \<ge> 7. \<not> bit x n)"

lemma flags_ops:
  "flags_only x \<Longrightarrow> flags_only y \<Longrightarrow> flags_only (x OR y)"
  "flags_only x \<Longrightarrow> flags_only y \<Longrightarrow> flags_only (x XOR y)"
  "flags_only x \<Longrightarrow> flags_only (x AND z)"
  by (simp_all add: flags_only_def bit_simps)

lemma flags_numeral: "flags_only 0" "flags_only 1" "flags_only 2" "flags_only 4" "flags_only 8" "flags_only 16" "flags_only 32" "flags_only 64"
proof -
  have "flags_only (2 ^ k)" if "k < 7" for k using that by (auto simp: flags_only_def bit_exp_iff)
  from this [of 0] this [of 1] this [of 2] this [of 3] this [of 4] this [of 5] this [of 6]
  show "flags_only 1" "flags_only 2" "flags_only 4" "flags_only 8" "flags_only 16" "flags_only 32" "flags_only 64" by simp_all
qed (simp add: flags_only_def)

lemma code_flags: "flags_only (shiftcode d)" "flags_only (togglecode d)"
  by (simp_all add: shiftcode_def togglecode_def flags_numeral)

lemma not_rebooted: "rebooted (snd (key_pressed d sh s)) = rebooted s"
proof -
  have k: "caps sh c = uint KEY_DEL \<longleftrightarrow> c = uint KEY_DEL" for c by (auto simp: caps_def)
  show ?thesis using k by (auto simp: key_pressed_def delete_char_def Let_def)
qed

lemma key_pressed_shift: "kbd_shift (snd (key_pressed d sh s)) = sh"
  by (simp add: key_pressed_def delete_char_def Let_def)

text \<open>C24: The keyboard routine keeps its shift state within the seven flags and returns \<open>- 1\<close> exactly
  when no scan code waits, and else a value of 0 to 255; and although it tests for Ctrl-Alt-Del, it
  never reboots: the delete key has left it before the test.\<close>

theorem kbd_proc_data_typed:
  assumes "flags_only (kbd_shift s)" "kbd_proc_data s = (c, s')"
  shows "flags_only (kbd_shift s') \<and> rebooted s' = rebooted s \<and>
    (if kbd_in s = [] then c = - 1 \<and> s' = s else 0 \<le> c \<and> c < 256 \<and> kbd_in s' = tl (kbd_in s))"
proof (cases "kbd_in s")
  case (Cons d r)
  have k: "- 1 < fst (key_pressed x sh t)" "fst (key_pressed x sh t) < 256" for x sh t using key_pressed_range by auto
  have "0 \<le> fst (key_pressed x sh t)" for x sh t using k(1) [of x sh t] by linarith
  note facts = this k(2) kbd_input not_rebooted key_pressed_shift code_flags flags_ops flags_numeral assms(1)
  have c: "c = fst (kbd_proc_data s)" "s' = snd (kbd_proc_data s)" using assms(2) by simp_all
  show ?thesis unfolding c by (simp add: kbd_proc_data_def Cons Let_def facts)
qed (use assms in \<open>simp add: kbd_proc_data_def\<close>)

section \<open>A console at work\<close>

definition console1 :: console where
  "console1 = \<lparr>serial_exists = True, serial_in = [0, 0x41], kbd_in = [0x2A, 0x10], kbd_shift = 0, lpt_out = [],
     crt_buf = (\<lambda>_. 0x0720), crt_pos = 1999, cga_cursor = 1999, text_length = 79, rebooted = False,
     cons_buf = (\<lambda>_. 0x42), cons_rpos = 511, cons_wpos = 0\<rparr>"

lemma console1_ring: "ring console1 = [0x42]" "ring_ok console1"
  by (simp_all add: ring_def ring_ok_def console1_def between_def)

lemma console1_serial: "serial_chars console1 = [0x41]"
  unfolding serial_chars_filter by (simp add: console1_def)

lemma key_q: "shiftmap 0x2A = 0" "shiftmap 0x10 = 0x51"
  by (simp_all add: shiftmap_def key_table_def special_keys_def ascii_def nth_append)

lemma key_codes: "shiftcode 0x2A = 1" "shiftcode 0x10 = 0" "togglecode 0x2A = 0" "togglecode 0x10 = 0"
  by (simp_all add: shiftcode_def togglecode_def)

lemma key_pressed_shifted: "shiftmap d = c \<Longrightarrow> c \<noteq> KEY_DEL \<Longrightarrow> c \<noteq> 0xFF \<Longrightarrow> key_pressed d 1 s = (uint c, s\<lparr>kbd_shift := 1\<rparr>)"
  by (simp add: key_pressed_def charcode_def caps_def word_uint_eq_iff)

lemma console1_keys: "kbd_chars console1 = [0x51]"
proof -
  have a: "kbd_proc_data console1 = (0, console1\<lparr>kbd_in := [0x10], kbd_shift := 1\<rparr>)"
    using key_pressed_shifted [OF key_q(1)] by (simp add: kbd_proc_data_def console1_def key_codes)
  have b: "kbd_proc_data (console1\<lparr>kbd_in := [0x10], kbd_shift := 1\<rparr>) = (0x51, console1\<lparr>kbd_in := [], kbd_shift := 1\<rparr>)"
    using key_pressed_shifted [OF key_q(2)] by (simp add: kbd_proc_data_def key_codes)
  have n: "length (kbd_in console1) = Suc (Suc 0)" by (simp add: console1_def)
  show ?thesis unfolding n by (simp add: a b)
qed

theorem cons_getc_fifo_witness:
  "\<exists>s'. cons_getc console1 = Some (0x42, s') \<and> ring s' = [0x41, 0x51]"
proof -
  have e: "serial_exists console1" by (simp add: console1_def)
  have l: "length (ring console1) + length (serial_chars console1) + length (kbd_chars console1) < 512"
    unfolding console1_ring console1_serial console1_keys by simp
  have f: "filter (\<lambda>d. d \<noteq> 0) (serial_in console1) = [0x41]" by (simp add: console1_def)
  from cons_getc_fifo [OF console1_ring(2) e l] show ?thesis unfolding console1_ring console1_keys f by auto
qed

theorem cons_putc_stays_on_screen_witness: "screen_ok (cons_putc 0x41 console1)"
proof -
  have "screen_ok console1" by (simp add: screen_ok_def console1_def)
  from cons_putc_stays_on_screen [OF this] show ?thesis by simp
qed

theorem kbd_proc_data_typed_witness: "flags_only (kbd_shift (snd (kbd_proc_data console1)))"
proof -
  have "flags_only (kbd_shift console1)" by (simp add: console1_def flags_numeral)
  moreover have "kbd_proc_data console1 = (fst (kbd_proc_data console1), snd (kbd_proc_data console1))" by simp
  ultimately show ?thesis using kbd_proc_data_typed [of console1] by blast
qed

end
