(* ===== verification/FOS_PrintfProps.thy ===== *)
theory FOS_PrintfProps
  imports FOS_Printers FOS_StringProps FOS_ConsoleProps FOS_Cpu
begin

text \<open>
  What is printed: the digits of numbers with their padding, a buffer that is never overrun whatever
  the format, numbers that are read back, and the line that \<^verbatim>\<open>readline\<close> leaves in its buffer.
\<close>

section \<open>Digits\<close>

fun digits_of :: "nat \<Rightarrow> nat \<Rightarrow> nat list" where
  "digits_of b n = (if n < b \<or> b < 2 then [n] else digits_of b (n div b) @ [n mod b])"

declare digits_of.simps [simp del]

lemma digits_of_value: "foldl (\<lambda>v d. v * b + d) 0 (digits_of b n) = n"
proof (induction b n rule: digits_of.induct)
  case (1 b n)
  then show ?case by (subst digits_of.simps) auto
qed

lemma digits_of_nonempty [simp]: "digits_of b n \<noteq> []"
  by (subst digits_of.simps) simp

lemma digits_of_less: "2 \<le> b \<Longrightarrow> d \<in> set (digits_of b n) \<Longrightarrow> d < b"
proof (induction b n rule: digits_of.induct)
  case (1 b n)
  then show ?case by (subst (asm) (2) digits_of.simps) (auto split: if_splits)
qed

lemma digits_of_lead: "2 \<le> b \<Longrightarrow> hd (digits_of b n) = 0 \<Longrightarrow> n = 0"
proof (induction b n rule: digits_of.induct)
  case (1 b n)
  show ?case
  proof (cases "n < b")
    case False
    then have "hd (digits_of b n) = hd (digits_of b (n div b))" using 1(2) by (subst digits_of.simps) (simp add: hd_append)
    then have "n div b = 0" using 1 False by simp
    then show ?thesis using False 1(2) by (simp add: div_eq_0_iff)
  next
    case True
    then have "digits_of b n = [n]" by (subst digits_of.simps) simp
    then show ?thesis using 1(3) by simp
  qed
qed

lemma put_times_fold: "put_times P c n s = fold (pr_put P) (replicate n c) s"
  by (induction n arbitrary: s) simp_all

lemma printnum_digits:
  assumes "2 \<le> b" "b < 2 ^ 64"
  shows "printnum P num (of_nat b) w p s =
    Some (fold (pr_put P) (replicate (nat (w - int (length (digits_of b (unat num))))) p @
      map (\<lambda>d. hex_digit (of_nat d)) (digits_of b (unat num))) s)"
proof (induction "unat num" arbitrary: num w rule: less_induct)
  case less
  have b: "unat (of_nat b :: u64) = b" using assms(2) by (simp add: unat_of_nat)
  let ?d = "\<lambda>n. map (\<lambda>d. hex_digit (of_nat d)) (digits_of b n)"
  have le: "of_nat b \<le> num \<longleftrightarrow> b \<le> unat num" by (simp add: word_le_nat_alt b)
  have "unat num mod b < b" using assms(1) by simp
  then have "unat num mod b < 18446744073709551616" using assms(2) by simp
  then have m: "num mod of_nat b = of_nat (unat num mod b)" using b by (simp add: word_unat_eq_iff unat_mod unat_of_nat)
  show ?case
  proof (cases "b \<le> unat num")
    case False
    then have "digits_of b (unat num) = [unat num]" by (subst digits_of.simps) simp
    moreover have "num mod of_nat b = num" using False by (simp add: word_unat_eq_iff unat_mod b)
    ultimately show ?thesis using False le by (subst printnum.simps) (simp add: put_times_fold)
  next
    case True
    have q: "unat (num div of_nat b) = unat num div b" by (simp add: unat_div b)
    have "unat num div b < unat num" using assms(1) True by simp
    from less [of "num div of_nat b" "w - 1"] this q have
      IH: "printnum P (num div of_nat b) (of_nat b) (w - 1) p s =
        Some (fold (pr_put P) (replicate (nat (w - 1 - int (length (digits_of b (unat num div b))))) p @ ?d (unat num div b)) s)" by simp
    have "digits_of b (unat num) = digits_of b (unat num div b) @ [unat num mod b]" using True assms(1) by (subst digits_of.simps) simp
    then show ?thesis using True le IH m by (subst printnum.simps) (simp add: algebra_simps)
  qed
qed

section \<open>A buffer\<close>

text \<open>
  The memory \<open>m\<close> after the characters \<open>out\<close> were printed into a buffer of \<open>n\<close> bytes: the first \<open>n - 1\<close> of
  them lie in the buffer, everything else is as it was.
\<close>

definition written :: "ptr \<Rightarrow> nat \<Rightarrow> memory \<Rightarrow> u32 list \<Rightarrow> memory" where
  "written buf n m out = (\<lambda>a. if unat (a - buf) < min (length out) (n - 1) then ucast (out ! unat (a - buf)) else m a)"

text \<open>The ideal printer: its state is the text, and it reads the format and the strings under the text.\<close>

definition line_printer :: "ptr \<Rightarrow> nat \<Rightarrow> memory \<Rightarrow> u32 list printer" where
  "line_printer buf n m = \<lparr>pr_put = (\<lambda>c out. out @ [c]), pr_mem = written buf n m, pr_prog = (\<lambda>_ out. out)\<rparr>"

definition buffer_holds :: "ptr \<Rightarrow> u32 \<Rightarrow> memory \<Rightarrow> u32 list \<Rightarrow> sprintbuf \<Rightarrow> bool" where
  "buffer_holds buf n m0 out b \<longleftrightarrow> sb_cnt b = of_nat (length out) \<and> sb_ebuf b = buf + n - 1 \<and>
     sb_buf b = buf + of_nat (min (length out) (unat n - 1)) \<and> sb_mem b = written buf (unat n) m0 out"

lemma sprintputch_holds:
  assumes h: "buffer_holds buf n m0 out b" and n: "0 < n" "unat buf + unat n \<le> 4294967296"
  shows "buffer_holds buf n m0 (out @ [c]) (sprintputch c b)"
proof -
  have n0: "0 < unat n" using n(1) by (simp add: word_less_nat_alt)
  define k where "k = min (length out) (unat n - 1)"
  have k: "k < unat n" using n0 by (simp add: k_def)
  have e: "unat (buf + n - 1) = unat buf + (unat n - 1)"
  proof -
    have "unat (n - 1) = unat n - 1" using n0 by (simp add: unat_sub word_le_nat_alt)
    then have "unat (buf + (n - 1)) = unat buf + (unat n - 1)" using n(2) n0 by (subst unat_word_ariths) simp
    then show ?thesis by (simp add: algebra_simps)
  qed
  have uk: "unat (of_nat k :: u32) = k" using k unat_u32_bound [of n] by (simp add: unat_of_nat)
  then have u: "unat (buf + of_nat k) = unat buf + k" using k n(2) by (subst unat_word_ariths) simp
  have lt: "sb_buf b < sb_ebuf b \<longleftrightarrow> length out < unat n - 1"
    using h e u by (auto simp: buffer_holds_def word_less_nat_alt k_def)
  show ?thesis
  proof (cases "length out < unat n - 1")
    case False
    have "written buf (unat n) m0 (out @ [c]) = written buf (unat n) m0 out"
      using False by (auto simp: written_def fun_eq_iff nth_append)
    moreover have "sprintputch c b = b\<lparr>sb_cnt := sb_cnt b + 1\<rparr>" using False lt by (simp add: sprintputch_def)
    ultimately show ?thesis using h False by (simp add: buffer_holds_def)
  next
    case True
    then have kk: "k = length out" by (simp add: k_def)
    have p: "sb_buf b = buf + of_nat k" using h by (simp add: buffer_holds_def k_def)
    have s: "sprintputch c b = b\<lparr>sb_cnt := sb_cnt b + 1, sb_mem := (sb_mem b)(buf + of_nat k := ucast c), sb_buf := buf + of_nat (Suc k)\<rparr>"
      using True lt by (simp add: sprintputch_def p add.assoc)
    have "(written buf (unat n) m0 out)(buf + of_nat k := ucast c) = written buf (unat n) m0 (out @ [c])"
    proof (rule ext)
      fix a
      have "a = buf + of_nat k \<longleftrightarrow> unat (a - buf) = k" using uk by (metis add_diff_cancel_left' diff_add_cancel add.commute word_unat_eq_iff)
      then show "((written buf (unat n) m0 out)(buf + of_nat k := ucast c)) a = written buf (unat n) m0 (out @ [c]) a"
        using True by (auto simp: written_def nth_append kk)
    qed
    then show ?thesis using h True by (simp add: s buffer_holds_def kk add.assoc)
  qed
qed

text \<open>What holds of the state and survives every character survives the whole printing.\<close>

locale printer_invariant =
  fixes P :: "'s printer" and I :: "'s \<Rightarrow> bool"
  assumes put: "I s \<Longrightarrow> I (pr_put P c s)" and prog: "I s \<Longrightarrow> I (pr_prog P v s)"
begin

lemma put_times: "I s \<Longrightarrow> I (put_times P c n s)"
  by (induction n arbitrary: s) (simp_all add: put)

lemma put_chars: "I s \<Longrightarrow> I (put_chars P cs s)"
  unfolding put_chars_def by (induction cs arbitrary: s) (simp_all add: put)

lemma printnum:
  assumes r: "printnum P num base w c s = Some s'" and "I s"
  shows "I s'"
proof -
  have "P = P \<longrightarrow> I s \<longrightarrow> I s'"
    by (rule printnum.raw_induct [where P = "\<lambda>q num base w c s s'. q = P \<longrightarrow> I s \<longrightarrow> I s'", OF _ r])
       (auto simp: bind_eq_Some_conv put put_times split: if_splits)
  then show ?thesis using assms(2) by blast
qed

lemma put_string:
  assumes r: "put_string P alt p prec w s = Some r'" and "I s"
  shows "I (snd r')"
proof -
  have "P = P \<longrightarrow> I s \<longrightarrow> I (snd r')"
    by (rule put_string.raw_induct [where P = "\<lambda>q alt p prec w s r. q = P \<longrightarrow> I s \<longrightarrow> I (snd r)", OF _ r])
       (auto simp: Let_def put_char_def put split: if_splits)
  then show ?thesis using assms(2) by blast
qed

lemma put_padded: "put_padded P c p s = Some s' \<Longrightarrow> I s \<Longrightarrow> I s'"
  unfolding put_padded_def Let_def
  by (auto simp: bind_eq_Some_conv put_times dest!: put_string split: if_splits)

lemma put_null: "I s \<Longrightarrow> I (put_null P c s)"
  by (simp add: put_null_def Let_def put_times put_chars)

lemma put_error: "put_error P a s = Some s' \<Longrightarrow> I s \<Longrightarrow> I s'"
  by (auto simp: put_error_def Let_def put_chars split: if_splits option.splits dest: printnum)

lemma convert: "convert P ch fmt c ap s = Some (fmt', ap', s') \<Longrightarrow> I s \<Longrightarrow> I s'"
  unfolding convert_def Let_def
  by (auto simp: bind_eq_Some_conv put prog put_times put_null split: if_splits dest: printnum put_padded put_error)

lemma directive:
  assumes r: "directive P fmt c ap s = Some r'" and "I s"
  shows "I (snd (snd r'))"
proof -
  have "P = P \<longrightarrow> I s \<longrightarrow> I (snd (snd r'))"
  proof (rule directive.raw_induct [where P = "\<lambda>q fmt c ap s r. q = P \<longrightarrow> I s \<longrightarrow> I (snd (snd r))", OF _ r], goal_cases)
    case (1 f q fmt c ap s r)
    show ?case
      using 1(2) convert [of "pr_mem P s fmt" "fmt + 1" c ap s "fst r" "fst (snd r)" "snd (snd r)"] unfolding Let_def
      by (auto simp: bind_eq_Some_conv split: if_splits dest!: 1(1) [rule_format])
  qed
  then show ?thesis using assms(2) by blast
qed

lemma vprintfmt:
  assumes r: "vprintfmt P fmt ap s = Some s'" and "I s"
  shows "I s'"
proof -
  have "P = P \<longrightarrow> I s \<longrightarrow> I s'"
  proof (rule vprintfmt.raw_induct [where P = "\<lambda>q fmt ap s s'. q = P \<longrightarrow> I s \<longrightarrow> I s'", OF _ r], goal_cases)
    case (1 f q fmt ap s s')
    show ?case
      using 1(2) unfolding Let_def by (auto simp: bind_eq_Some_conv put split: if_splits dest!: directive 1(1) [rule_format])
  qed
  then show ?thesis using assms(2) by blast
qed

end

text \<open>Formats that consist of one directive.\<close>

lemma vprintfmt_end: "pr_mem P s fmt = 0 \<Longrightarrow> vprintfmt P fmt ap s = Some s"
  by (subst vprintfmt.simps) simp

interpretation screen: printer_invariant console_printer "\<lambda>t. screen_ok (tm_console t)"
proof (unfold_locales, goal_cases)
  case (1 s c)
  then show ?case using cons_putc_ok by (simp add: console_printer_def putch_def cputchar_def)
qed (simp add: console_printer_def)

lemma vsnprintf_start:
  assumes "buf \<noteq> NULL" "1 \<le> sint n" "unat buf + unat n \<le> 4294967296"
  shows "buffer_holds buf n m [] \<lparr>sb_buf = buf, sb_ebuf = buf + n - 1, sb_cnt = 0, sb_mem = m, sb_prog = 0\<rparr>" "0 < n"
proof -
  show "buffer_holds buf n m [] \<lparr>sb_buf = buf, sb_ebuf = buf + n - 1, sb_cnt = 0, sb_mem = m, sb_prog = 0\<rparr>"
    by (simp add: buffer_holds_def written_def)
  show "0 < n" using assms(2) by (cases "n = 0") (auto simp: word_greater_zero_iff)
qed

text \<open>The ideal printer and the buffer print the same text.\<close>

definition in_buffer :: "ptr \<Rightarrow> u32 \<Rightarrow> memory \<Rightarrow> u32 list \<Rightarrow> sprintbuf \<Rightarrow> bool" where
  "in_buffer buf n m out b \<longleftrightarrow> 0 < n \<and> unat buf + unat n \<le> 4294967296 \<and> buffer_holds buf n m out b"

lemma in_buffer_put:
  "in_buffer buf n m out b \<Longrightarrow> in_buffer buf n m (pr_put (line_printer buf (unat n) m) c out) (pr_put buffer_printer c b)"
  "in_buffer buf n m out b \<Longrightarrow> in_buffer buf n m (pr_prog (line_printer buf (unat n) m) v out) (pr_prog buffer_printer v b)"
  "in_buffer buf n m out b \<Longrightarrow> pr_mem (line_printer buf (unat n) m) out = pr_mem buffer_printer b"
  using sprintputch_holds [of buf n m out b c]
  by (simp_all add: in_buffer_def line_printer_def buffer_printer_def) (simp_all add: buffer_holds_def)

interpretation buffer: printer_simulation "line_printer buf (unat n) m" buffer_printer "in_buffer buf n m"
  by unfold_locales (simp_all add: in_buffer_put)

interpretation ideal: printer_simulation buffer_printer "line_printer buf (unat n) m" "\<lambda>b out. in_buffer buf n m out b"
  by unfold_locales (simp_all add: in_buffer_put)

lemma buffer_holds_outside:
  assumes "buffer_holds buf n m0 out b" "x \<notin> region buf (unat n)"
  shows "sb_mem b x = m0 x"
proof -
  have "x = buf + of_nat (unat (x - buf))" by simp
  then have "\<not> unat (x - buf) < unat n" using assms(2) unfolding region_def by blast
  then have "\<not> unat (x - buf) < unat n - 1" by linarith
  then show ?thesis using assms(1) by (simp add: buffer_holds_def written_def)
qed

text \<open>The buffer with its end: as many characters as fit.\<close>

lemma buffer_holds_end:
  assumes h: "buffer_holds buf n m0 out b" and n: "0 < n" "unat buf + unat n \<le> 4294967296"
  shows "chars_at ((sb_mem b)(sb_buf b := 0)) buf (map ucast (take (unat n - 1) out) @ [0])"
    "\<forall>x. x \<notin> region buf (unat n) \<longrightarrow> ((sb_mem b)(sb_buf b := 0)) x = m0 x"
proof -
  define k where "k = min (length out) (unat n - 1)"
  have k: "k < unat n" using n(1) by (simp add: k_def word_less_nat_alt)
  have p: "sb_buf b = buf + of_nat k" using h by (simp add: buffer_holds_def k_def)
  have u: "unat (of_nat i :: u32) = i" if "i < unat n" for i using that unat_u32_bound [of n] by (simp add: unat_of_nat)
  have ne: "buf + of_nat i \<noteq> buf + of_nat k" if "i < k" for i
    using u [of i] u [of k] that k by (metis add_left_cancel less_irrefl less_trans)
  have at: "sb_mem b (buf + of_nat i) = ucast (out ! i)" if "i < k" for i
  proof -
    have "unat (of_nat i :: u32) = i" using that k by (intro u) simp
    then show ?thesis using h that by (simp add: buffer_holds_def written_def k_def)
  qed
  show "chars_at ((sb_mem b)(sb_buf b := 0)) buf (map ucast (take (unat n - 1) out) @ [0])"
    using h ne at p by (auto simp: chars_at_iff k_def less_Suc_eq nth_append)
  have "buf + of_nat k \<in> region buf (unat n)" using k u by (simp add: region_def)
  then show "\<forall>x. x \<notin> region buf (unat n) \<longrightarrow> ((sb_mem b)(sb_buf b := 0)) x = m0 x"
    using p buffer_holds_outside [OF h] by auto
qed

section \<open>Decimal numbers in a buffer\<close>

lemma buffer_fold:
  assumes "buffer_holds buf n m0 out b" "0 < n" "unat buf + unat n \<le> 4294967296"
  shows "buffer_holds buf n m0 (out @ cs) (fold sprintputch cs b)"
  using assms(1)
proof (induction cs arbitrary: out b)
  case (Cons c cs)
  from Cons.IH [OF sprintputch_holds [OF Cons.prems assms(2,3)]] show ?case by simp
qed simp

text \<open>The two descriptions of decimal digits agree.\<close>

lemma decimal_digits: "map (\<lambda>d. ucast (hex_digit (of_nat d))) (digits_of 10 n) = rev (digits_le n)"
proof (induction n rule: digits_le.induct)
  case (1 n)
  have "ucast (hex_digit (of_nat d)) = (of_nat (d + 48) :: u8)" if "d < 10" for d
  proof -
    have "d \<in> {0, 1, 2, 3, 4, 5, 6, 7, 8, 9}" using that by (simp only: insert_iff empty_iff) arith
    then show ?thesis by (elim insertE emptyE) (simp_all add: hex_digit_def)
  qed
  then have c: "ucast (hex_digit (of_nat (n mod 10))) = (of_nat (n mod 10 + 48) :: u8)" by simp
  show ?case
  proof (cases "n < 10")
    case True
    then show ?thesis using c by (subst digits_of.simps, subst digits_le.simps) simp
  next
    case False
    then show ?thesis using c 1 by (subst digits_of.simps, subst digits_le.simps) simp
  qed
qed

lemma sint_pos_int: "0 < sint (x :: u32) \<Longrightarrow> sint x = int (unat x)"
proof -
  assume p: "0 < sint x"
  have u: "uint x < 2 ^ 32" using uint_lt2p [of x] by simp
  then have "take_bit 32 (uint x) = uint x" by (simp add: take_bit_int_eq_self)
  then have s: "sint x = uint x - (if bit (uint x) 31 then 2 ^ 32 else 0)"
    by (simp add: sint_uint signed_take_bit_eq_take_bit_minus)
  have "uint x < 2 ^ 32" by (rule u)
  then have "sint x = uint x" using s p by (auto split: if_splits)
  then show ?thesis by (simp only: uint_nat)
qed

lemma abs_word64:
  fixes v :: u32
  assumes "num = (of_int \<bar>sint v\<bar> :: u64)"
  shows "unat num = nat \<bar>sint v\<bar>"
proof -
  have "- 2147483648 \<le> sint v" "sint v < 2147483648" using sint_greater_eq [of v] sint_less [of v] by simp_all
  then have k: "\<bar>sint v\<bar> < 18446744073709551616" by linarith
  define k where "k = \<bar>sint v\<bar>"
  have kk: "0 \<le> k" "k < 18446744073709551616" using k by (simp_all add: k_def)
  have "uint (of_int k :: u64) = take_bit 64 k" by (simp add: unsigned_of_int)
  also have "\<dots> = k" using kk by (simp add: take_bit_int_eq_self_iff)
  finally show ?thesis using assms unfolding k_def by (simp only: unat_eq_nat_uint)
qed

lemma vprintfmt_decimal:
  assumes "cstr (sb_mem b) fmt [37, 100]"
  shows "\<exists>cs. vprintfmt buffer_printer fmt [v] b = vprintfmt buffer_printer (fmt + 2) [] (fold sprintputch cs b) \<and>
    map ucast cs = (if sint v < 0 then [45] else []) @ rev (digits_le (nat \<bar>sint v\<bar>))"
proof -
  have m: "sb_mem b fmt = 37" "sb_mem b (fmt + 1) = 100" using assms by simp_all
  define b1 where "b1 = (if sint v < 0 then sprintputch 45 b else b)"
  define num where "num = (if sint v < 0 then - scast v else scast v :: u64)"
  have sv: "sint (scast v :: u64) = sint v" by (simp add: sint_up_scast is_up)
  have "num = of_int \<bar>sint v\<bar>"
  proof (cases "sint v < 0")
    case True
    then have "num = - scast v" by (simp only: num_def if_True)
    then show ?thesis using True by (simp only: scast_eq abs_of_neg of_int_minus)
  next
    case False
    then have "num = scast v" by (simp only: num_def if_False)
    moreover have "0 \<le> sint v" using False by linarith
    ultimately show ?thesis by (simp only: scast_eq abs_of_nonneg)
  qed
  then have num: "unat num = nat \<bar>sint v\<bar>" by (rule abs_word64)
  let ?ds = "map (\<lambda>d. hex_digit (of_nat d)) (digits_of 10 (nat \<bar>sint v\<bar>))"
  have pn: "printnum buffer_printer num 10 (- 1) 32 b1 = Some (fold sprintputch ?ds b1)"
    using printnum_digits [of 10 buffer_printer num "- 1" 32 b1] by (simp add: num buffer_printer_def)
  have "convert buffer_printer 100 (fmt + 1 + 1) no_spec [v] b = Some (fmt + 1 + 1, [], fold sprintputch ?ds b1)"
  proof (cases "sint v < 0")
    case True
    then show ?thesis using pn sv by (simp add: convert_def getint_def va_arg_def b1_def num_def Let_def) (simp add: no_spec_def buffer_printer_def)
  next
    case False
    then show ?thesis using pn sv by (simp add: convert_def getint_def va_arg_def b1_def num_def Let_def) (simp add: no_spec_def)
  qed
  then have "directive buffer_printer (fmt + 1) no_spec [v] b = Some (fmt + 1 + 1, [], fold sprintputch ?ds b1)"
    using m by (subst directive.simps) (simp add: buffer_printer_def)
  then have "vprintfmt buffer_printer fmt [v] b = vprintfmt buffer_printer (fmt + 1 + 1) [] (fold sprintputch ?ds b1)"
    using m by (subst vprintfmt.simps) (simp add: buffer_printer_def)
  moreover have "fold sprintputch ?ds b1 = fold sprintputch ((if sint v < 0 then [45] else []) @ ?ds) b" by (simp add: b1_def)
  moreover have "fmt + 1 + 1 = fmt + 2" by simp
  ultimately show ?thesis using decimal_digits by (intro exI [of _ "(if sint v < 0 then [45] else []) @ ?ds"]) (simp add: comp_def)
qed

lemma snprintf_decimal:
  assumes f: "cstr m fmt [37, 100]" "region buf (unat n) \<inter> region fmt 3 = {}"
    and n: "buf \<noteq> NULL" "12 \<le> sint n" "unat buf + unat n \<le> 4294967296"
  shows "\<exists>cnt m'. snprintf buf n fmt [v] m = Some (cnt, m') \<and> strtol m' buf 10 = Some (v, buf + cnt) \<and> m' (buf + cnt) = 0"
proof -
  define ds where "ds = digits_le (nat \<bar>sint v\<bar>)"
  define sg where "sg = (if sint v < 0 then [45] else [] :: u8 list)"
  have n1: "1 \<le> sint n" using n(2) by simp
  note st = vsnprintf_start(1) [OF n(1) n1 n(3), of m] vsnprintf_start(2) [OF n(1) n1 n(3)]
  let ?b = "\<lparr>sb_buf = buf, sb_ebuf = buf + n - 1, sb_cnt = 0, sb_mem = m, sb_prog = 0\<rparr>"
  obtain cs where cs: "vprintfmt buffer_printer fmt [v] ?b = vprintfmt buffer_printer (fmt + 2) [] (fold sprintputch cs ?b)"
    "map ucast cs = sg @ rev ds" using vprintfmt_decimal [of ?b fmt v] f(1) by (auto simp: sg_def ds_def)
  let ?c = "fold sprintputch cs ?b"
  have h: "buffer_holds buf n m cs ?c" using buffer_fold [OF st n(3), of cs] by simp
  have r2: "fmt + 2 \<notin> region buf (unat n)"
  proof -
    have "fmt + 2 \<in> region fmt 3" by (simp add: region_def)
    then show ?thesis using f(2) by blast
  qed
  then have "sb_mem ?c (fmt + 2) = 0"
    using buffer_holds_outside [OF h] f(1) by (simp add: add.assoc)
  then have "vprintfmt buffer_printer fmt [v] ?b = Some ?c" unfolding cs(1) by (intro vprintfmt_end) (simp add: buffer_printer_def)
  then have r: "snprintf buf n fmt [v] m = Some (of_nat (length cs), (sb_mem ?c)(sb_buf ?c := 0))"
    using n(1) n1 h by (simp add: snprintf_def vsnprintf_def buffer_holds_def)
  have "sint v \<ge> - 2147483648" "sint v < 2147483648" using sint_greater_eq [of v] sint_less [of v] by simp_all
  then have "nat \<bar>sint v\<bar> < 10 ^ Suc 9" by simp
  then have "length ds \<le> 10" unfolding ds_def using length_digits_le [of _ 9] by simp
  then have "length cs \<le> 11" using arg_cong [OF cs(2), of length] by (simp add: sg_def split: if_splits)
  moreover have "0 < sint n" using n(2) by linarith
  from sint_pos_int [OF this] n(2) have "12 \<le> int (unat n)" by (simp only:)
  then have "12 \<le> unat n" by linarith
  ultimately have l: "take (unat n - 1) cs = cs" "length cs < 2 ^ 32" by simp_all
  define m' where "m' = (sb_mem ?c)(sb_buf ?c := 0)"
  have ca: "chars_at m' buf (sg @ rev ds @ [0])"
  proof -
    have e: "map ucast (take (unat n - 1) cs) @ [0] = sg @ rev ds @ [0]" using l cs(2) by simp
    show ?thesis using buffer_holds_end(1) [OF h st(2) n(3)] unfolding m'_def e .
  qed
  obtain y ys where y: "rev ds = y # ys" unfolding ds_def by (metis digits_le_nonempty neq_Nil_conv rev_is_Nil_conv)
  have rg: "\<forall>x \<in> set (y # ys). 48 \<le> uint x \<and> uint x \<le> 57" using digits_le_range unfolding y [symmetric] ds_def by simp
  have val: "foldl (\<lambda>v x. v * 10 + char_value x) 0 (y # ys) = of_nat (nat \<bar>sint v\<bar>)"
    unfolding y [symmetric] ds_def by (simp add: foldl_conv_foldr digits_le_value)
  have len: "length cs = length sg + length (y # ys)" using arg_cong [OF cs(2), of length] y by simp
  have z: "m' (buf + of_nat (length cs)) = 0" using ca unfolding len y by (simp add: ac_simps)
  have "strtol m' buf 10 = Some (v, buf + of_nat (length cs))"
  proof (cases "sint v < 0")
    case True
    then have "chars_at m' (buf + 1) (y # ys @ [0])" "m' buf = 45" using ca y by (simp_all add: sg_def)
    then have "strtol m' buf 10 = Some (- of_nat (nat \<bar>sint v\<bar>), buf + 1 + of_nat (length (y # ys)))"
      using strtol_cases(2) [OF _ rg, of m' "buf + 1" buf] val by simp
    moreover have "- (of_nat (nat \<bar>sint v\<bar>) :: u32) = v" using True by (simp flip: of_int_minus)
    ultimately show ?thesis using True len by (simp add: sg_def add.assoc)
  next
    case False
    then have "chars_at m' buf (y # ys @ [0])" using ca y by (simp add: sg_def)
    then have "strtol m' buf 10 = Some (of_nat (nat \<bar>sint v\<bar>), buf + of_nat (length (y # ys)))"
      using strtol_cases(1) [OF _ rg, of m' buf] val by simp
    then show ?thesis using False len by (simp add: sg_def)
  qed
  then show ?thesis using r z unfolding m'_def by blast
qed

section \<open>Reading a line\<close>

text \<open>What of the console belongs to its input.\<close>

definition input_of :: "console \<Rightarrow> (u32 \<Rightarrow> u8) \<times> u32 \<times> u32 \<times> u8 list \<times> u8 list" where
  "input_of s = (cons_buf s, cons_rpos s, cons_wpos s, serial_in s, kbd_in s)"

lemma input_of_plain: "input_of (cga_plain c s) = input_of s" "input_of (lpt_putc c s) = input_of s" "input_of (cga_finish s) = input_of s"
  by (simp_all add: input_of_def cga_plain_def cga_finish_def cga_switch_def lpt_putc_def Let_def)

lemma input_of_cputchar: "input_of (cputchar c s) = input_of s"
proof -
  have "input_of ((put_blank ^^ n) s) = input_of s" for n s
    by (induction n) (simp_all add: put_blank_def input_of_plain)
  then show ?thesis by (simp add: cputchar_def cons_putc_def cga_putc_def Let_def input_of_plain)
qed

definition only_ring :: "u8 list \<Rightarrow> console \<Rightarrow> bool" where
  "only_ring xs s \<longleftrightarrow> ring_ok s \<and> ring s = xs \<and> serial_in s = [] \<and> kbd_in s = []"

lemma only_ring_cputchar: "only_ring xs (cputchar c s) = only_ring xs s"
  using input_of_cputchar [of c s] by (simp add: only_ring_def ring_ok_def ring_def input_of_def)

lemma unat_byte: "unat (x :: u8) < 256"
  using unsigned_less [of x, where 'a = nat] by simp

lemma byte_word: "unat (ucast (x :: u8) :: u32) = unat x" "sint (ucast x :: u32) = int (unat x)" "ucast (ucast x :: u32) = x"
proof -
  show u: "unat (ucast x :: u32) = unat x" 
  proof -
    have "unat x < 4294967296" using unat_byte [of x] by simp
    then show ?thesis by (simp add: unsigned_ucast_eq take_bit_nat_eq_self_iff)
  qed
  show "ucast (ucast x :: u32) = x" by (simp add: bit_eq_iff bit_simps)
  have "unat x < 256" using unat_byte [of x] by simp
  then have "sint (ucast x :: u32) = uint (ucast x :: u32)" using u by (intro sint_small) (simp add: word_le_nat_alt)
  moreover have "uint (ucast x :: u32) = int (unat (ucast x :: u32))" by (rule uint_nat)
  ultimately show "sint (ucast x :: u32) = int (unat x)" using u by simp
qed

lemma getchar_ring:
  assumes "only_ring (x # xs) s" "x \<noteq> 0"
  shows "\<exists>s'. getchar s = Some (ucast x, s') \<and> only_ring xs s'"
proof -
  have "cons_getc s = Some (cons_getc2 s)"
  proof -
    have "cons_intr serial_proc_data s = Some s" "cons_intr kbd_proc_data s = Some s"
      using assms(1) by (subst cons_intr.simps; simp add: only_ring_def serial_proc_data_def kbd_proc_data_def)+
    then show ?thesis by (simp add: cons_getc_def serial_intr_def kbd_intr_def)
  qed
  moreover obtain p where "cons_getc2 s = (ucast x, s\<lparr>cons_rpos := p\<rparr>)" "ring (s\<lparr>cons_rpos := p\<rparr>) = xs" "ring_ok (s\<lparr>cons_rpos := p\<rparr>)"
    using cons_getc2_ring [of s] assms(1) by (auto simp: only_ring_def)
  moreover have "(ucast x :: u32) \<noteq> 0" using assms(2) byte_word(1) [of x] by (auto simp: word_unat_eq_iff)
  ultimately show ?thesis using assms(1) by (subst getchar.simps) (simp add: only_ring_def)
qed

text \<open>The line after some keys: a character is appended while there is room, backspace takes the last one away.\<close>

fun edited :: "u8 list \<Rightarrow> u8 list \<Rightarrow> u8 list" where
  "edited xs [] = xs"
| "edited xs (c # cs) = edited (if 32 \<le> c \<and> length xs < 1023 then xs @ [c] else if c = 8 then butlast xs else xs) cs"

text \<open>What is echoed meanwhile: the characters that were appended and the backspaces that took one away.\<close>

fun echoed :: "u8 list \<Rightarrow> u8 list \<Rightarrow> u8 list" where
  "echoed xs [] = []"
| "echoed xs (c # cs) =
    (if 32 \<le> c \<and> length xs < 1023 then c # echoed (xs @ [c]) cs
     else if c = 8 \<and> xs \<noteq> [] then c # echoed (butlast xs) cs
     else echoed xs cs)"

text \<open>
  What \<^verbatim>\<open>readline\<close> relies on: \<open>at xs es s\<close> says that the characters \<open>xs\<close> come next and \<open>es\<close> were written
  so far; reading takes the first character, writing adds one.
\<close>

locale char_source =
  fixes tty :: "'s tty" and at :: "u8 list \<Rightarrow> u8 list \<Rightarrow> 's \<Rightarrow> bool"
  assumes getchar: "at (x # xs) es s \<Longrightarrow> x \<noteq> 0 \<Longrightarrow> \<exists>s'. tty_getchar tty s = Some (ucast x, s') \<and> at xs es s'"
    and cputchar: "at xs es s \<Longrightarrow> at xs (es @ [c]) (tty_cputchar tty (ucast c) s)"

lemma append_char:
  assumes "chars_at m buf xs" "length xs \<le> 1023"
  shows "chars_at (m(buf + of_nat (length xs) := c)) buf (xs @ [c])"
    "\<forall>x. x \<notin> region buf 1024 \<longrightarrow> (m(buf + of_nat (length xs) := c)) x = m x"
proof -
  have "(of_nat i :: u32) \<noteq> of_nat (length xs)" if "i < length xs" for i
  proof -
    have "unat (of_nat i :: u32) = i" "unat (of_nat (length xs) :: u32) = length xs" using that assms(2) by (simp_all add: unat_of_nat)
    then show ?thesis using that by (metis less_irrefl)
  qed
  then have "chars_at (m(buf + of_nat (length xs) := c)) buf xs"
    using chars_at_cong [of xs "m(buf + of_nat (length xs) := c)" buf m] assms(1) by simp
  then show "chars_at (m(buf + of_nat (length xs) := c)) buf (xs @ [c])" by simp
  show "\<forall>x. x \<notin> region buf 1024 \<longrightarrow> (m(buf + of_nat (length xs) := c)) x = m x"
    using assms(2) by (auto simp: region_def unat_of_nat)
qed

context char_source begin

lemma readline_loop_edits:
  assumes "at (cs @ nl # rest) es s" "nl = 10 \<or> nl = 13" "\<forall>c \<in> set cs. c \<noteq> 0 \<and> c \<noteq> 10 \<and> c \<noteq> 13"
    and "chars_at m buf xs" "\<forall>c \<in> set xs. 32 \<le> c" "length xs \<le> 1023"
  shows "\<exists>m' s'. readline_loop tty buf (int (length xs)) (m, s) = Some (m', s') \<and> cstr m' buf (edited xs cs) \<and>
    at rest (es @ echoed xs cs @ [nl]) s' \<and> (\<forall>x. x \<notin> region buf 1024 \<longrightarrow> m' x = m x)"
  using assms
proof (induction cs arbitrary: xs es m s)
  case Nil
  let ?m = "m(buf + of_nat (length xs) := 0)"
  from getchar [of nl rest es s] Nil.prems(1,2) obtain s1 where s1: "tty_getchar tty s = Some (ucast nl, s1)" "at rest es s1" by auto
  have "sint (ucast nl :: u32) < 32" "\<not> sint (ucast nl :: u32) < 0" "(ucast nl :: u32) \<noteq> 8" "(ucast nl :: u32) = 10 \<or> (ucast nl :: u32) = 13"
    using Nil.prems(2) by auto
  then have "readline_loop tty buf (int (length xs)) (m, s) = Some (?m, tty_cputchar tty (ucast nl) s1)"
    using s1(1) by (subst readline_loop.simps) simp
  moreover have "0 \<notin> set xs" using Nil.prems(5) by auto
  ultimately show ?case using append_char [OF Nil.prems(4,6), of 0] cputchar [OF s1(2), of nl] by (auto simp: cstr_def)
next
  case (Cons c cs)
  from getchar [of c "cs @ nl # rest" es s] Cons.prems(1,3) obtain s1 where
    s1: "tty_getchar tty s = Some (ucast c, s1)" "at (cs @ nl # rest) es s1" by auto
  have c: "(32 \<le> sint (ucast c :: u32)) = (32 \<le> c)" "\<not> sint (ucast c :: u32) < 0"
    "((ucast c :: u32) = 8) = (c = 8)" "(ucast c :: u32) \<noteq> 10" "(ucast c :: u32) \<noteq> 13"
    using Cons.prems(3) byte_word(1,2) [of c] by (auto simp: word_le_def word_unat_eq_iff)
  have cs: "\<forall>c \<in> set cs. c \<noteq> 0 \<and> c \<noteq> 10 \<and> c \<noteq> 13" using Cons.prems(3) by simp
  note e = cputchar [OF s1(2), of c]
  consider (put) "32 \<le> c" "length xs < 1023" | (erase) "\<not> 32 \<le> c" "c = 8" "xs \<noteq> []"
    | (skip) "\<not> (32 \<le> c \<and> length xs < 1023)" "\<not> (c = 8 \<and> xs \<noteq> [])"
    by fastforce
  then show ?case
  proof cases
    case put
    define mm where "mm = m(buf + of_nat (length xs) := c)"
    have st: "readline_loop tty buf (int (length xs)) (m, s) =
        readline_loop tty buf (int (length (xs @ [c]))) (mm, tty_cputchar tty (ucast c) s1)"
      using s1(1) c put byte_word(3) [of c] by (subst readline_loop.simps) (simp add: add.commute mm_def)
    have "\<forall>y \<in> set (xs @ [c]). 32 \<le> y" "length (xs @ [c]) \<le> 1023" using put Cons.prems(5) by simp_all
    from Cons.IH [OF e Cons.prems(2) cs append_char(1) [OF Cons.prems(4,6), of c, folded mm_def] this]
    obtain m' s' where r: "readline_loop tty buf (int (length (xs @ [c]))) (mm, tty_cputchar tty (ucast c) s1) = Some (m', s')"
      "cstr m' buf (edited (xs @ [c]) cs)" "at rest ((es @ [c]) @ echoed (xs @ [c]) cs @ [nl]) s'"
      "\<forall>x. x \<notin> region buf 1024 \<longrightarrow> m' x = mm x" by blast
    then have "\<forall>x. x \<notin> region buf 1024 \<longrightarrow> m' x = m x" using append_char(2) [OF Cons.prems(4,6), of c, folded mm_def] by metis
    moreover have "edited xs (c # cs) = edited (xs @ [c]) cs" "(es @ [c]) @ echoed (xs @ [c]) cs @ [nl] = es @ echoed xs (c # cs) @ [nl]"
      using put by simp_all
    ultimately show ?thesis using r(1-3) unfolding st by metis
  next
    case erase
    have l: "int (length xs) - 1 = int (length (butlast xs))" using erase(3) by (cases xs) simp_all
    have st: "readline_loop tty buf (int (length xs)) (m, s) =
        readline_loop tty buf (int (length (butlast xs))) (m, tty_cputchar tty (ucast c) s1)"
      using s1(1) c erase unfolding l [symmetric] by (subst readline_loop.simps) simp
    have "chars_at m buf (butlast xs)" using Cons.prems(4) erase(3) by (metis append_butlast_last_id chars_at_append)
    moreover have "\<forall>y \<in> set (butlast xs). 32 \<le> y" "length (butlast xs) \<le> 1023"
      using Cons.prems(5,6) by (auto dest: in_set_butlastD)
    ultimately show ?thesis using Cons.IH [OF e Cons.prems(2) cs, of m "butlast xs"] erase unfolding st by simp
  next
    case skip
    have st: "readline_loop tty buf (int (length xs)) (m, s) = readline_loop tty buf (int (length xs)) (m, s1)"
      using s1(1) c skip by (subst readline_loop.simps) auto
    have "edited xs (c # cs) = edited xs cs" "echoed xs (c # cs) = echoed xs cs" using skip by auto
    then show ?thesis using Cons.IH [OF s1(2) Cons.prems(2) cs Cons.prems(4-6)] unfolding st by simp
  qed
qed

end

text \<open>The kernel's terminal delivers what waits in the ring of the console.\<close>

interpretation console: char_source kernel_tty "\<lambda>xs es s. only_ring xs s"
  by unfold_locales (simp_all add: kernel_tty_def getchar_ring only_ring_cputchar)

section \<open>Properties of printing\<close>

text \<open>A number in base 10 or 16 is printed as its digits, most significant first and without leading
  zeros, padded on the left with \<open>c\<close> to the field width.\<close>

theorem printnum_correct:
  assumes "base = 10 \<or> base = 16"
  shows "\<exists>ds. printnum pr num base w c s =
      Some (fold (pr_put pr) (replicate (nat (w - int (length ds))) c @ map (\<lambda>d. hex_digit (of_nat d)) ds) s) \<and>
    foldl (\<lambda>v d. v * unat base + d) 0 ds = unat num \<and> (\<forall>d \<in> set ds. d < unat base) \<and> ds \<noteq> [] \<and> (hd ds = 0 \<longrightarrow> num = 0)"
proof -
  obtain b where b: "base = of_nat b" "2 \<le> b" "b < 2 ^ 64" "unat base = b" using assms by force
  have "unat num = 0 \<Longrightarrow> num = 0" by (simp add: unat_eq_0)
  then show ?thesis
    using printnum_digits [OF b(2,3)] digits_of_value [of b "unat num"] digits_of_less [OF b(2)] digits_of_lead [OF b(2)] b(1,4)
    by (intro exI [of _ "digits_of b (unat num)"]) auto
qed

text \<open>C27: Whatever the format and the arguments, printing into a buffer of \<open>n\<close> bytes is printing the ideal
  text: the result is the number of characters of the text, the buffer holds its first \<open>n - 1\<close> characters
  and a terminator behind them, no other byte changes, and it returns exactly if the text is finite. The
  format and the strings may overlap the buffer: they are read as the text printed so far leaves them.\<close>

theorem vsnprintf_correct:
  assumes "buf \<noteq> NULL" "1 \<le> sint n" "unat buf + unat n \<le> 2 ^ 32"
  shows "vsnprintf buf n fmt ap m = map_option (\<lambda>out. (of_nat (length out),
    (written buf (unat n) m out)(buf + of_nat (min (length out) (unat n - 1)) := 0)))
    (vprintfmt (line_printer buf (unat n) m) fmt ap [])"
proof -
  have n: "unat buf + unat n \<le> 4294967296" using assms(3) by simp
  note st = vsnprintf_start(1) [OF assms(1,2) n, of m] vsnprintf_start(2) [OF assms(1,2) n]
  let ?b = "\<lparr>sb_buf = buf, sb_ebuf = buf + n - 1, sb_cnt = 0, sb_mem = m, sb_prog = 0\<rparr>"
  have s: "in_buffer buf n m [] ?b" using st n by (simp add: in_buffer_def)
  have g: "\<not> (buf = NULL \<or> sint n < 1)" using assms(1,2) by simp
  show ?thesis
  proof (cases "vprintfmt (line_printer buf (unat n) m) fmt ap []")
    case (Some out)
    from buffer.vprintfmt [OF this s] obtain b where b: "vprintfmt buffer_printer fmt ap ?b = Some b" "in_buffer buf n m out b" by blast
    then have "sb_cnt b = of_nat (length out)" "sb_mem b = written buf (unat n) m out"
      "sb_buf b = buf + of_nat (min (length out) (unat n - 1))" by (simp_all add: in_buffer_def buffer_holds_def)
    then show ?thesis unfolding vsnprintf_def if_not_P [OF g] b(1) Some by simp
  next
    case None
    have "vprintfmt buffer_printer fmt ap ?b = None"
    proof (rule ccontr)
      assume "vprintfmt buffer_printer fmt ap ?b \<noteq> None"
      then obtain b where "vprintfmt buffer_printer fmt ap ?b = Some b" by blast
      from ideal.vprintfmt [OF this s] None show False by simp
    qed
    then show ?thesis unfolding vsnprintf_def if_not_P [OF g] None by simp
  qed
qed

text \<open>C28: Every \<^verbatim>\<open>int\<close> that is printed with \<^verbatim>\<open>%d\<close> into a buffer of at least 12 bytes is read back by
  \<^verbatim>\<open>strtol\<close> as the same number, the smallest included; the result is where the string ends.\<close>

theorem snprintf_strtol_roundtrip:
  assumes "cstr m fmt [37, 100]" "region buf (unat n) \<inter> region fmt 3 = {}" "buf \<noteq> NULL" "12 \<le> sint n" "unat buf + unat n \<le> 2 ^ 32"
  shows "\<exists>cnt m'. snprintf buf n fmt [v] m = Some (cnt, m') \<and> strtol m' buf 10 = Some (v, buf + cnt) \<and> m' (buf + cnt) = 0"
  using snprintf_decimal [OF assms(1-4)] assms(5) by simp

text \<open>C29: \<^verbatim>\<open>readline\<close>, on any terminal that delivers characters and however many it delivers, returns at the
  first end of line, and leaves in the buffer what remains of the characters before it after editing:
  they are appended up to 1023, backspace takes the last one away, other control characters do nothing.
  Exactly the characters that took effect are echoed, and the 1024 bytes of the buffer are never left.\<close>

theorem readline_edits:
  fixes tty :: "'s tty" and at :: "u8 list \<Rightarrow> u8 list \<Rightarrow> 's \<Rightarrow> bool"
  assumes "\<And>x xs es s. at (x # xs) es s \<Longrightarrow> x \<noteq> 0 \<Longrightarrow> \<exists>s'. tty_getchar tty s = Some (ucast x, s') \<and> at xs es s'"
    and "\<And>xs es s c. at xs es s \<Longrightarrow> at xs (es @ [c]) (tty_cputchar tty (ucast c) s)"
    and "at (cs @ nl # rest) es s" "nl = 10 \<or> nl = 13" "\<forall>c \<in> set cs. c \<noteq> 0 \<and> c \<noteq> 10 \<and> c \<noteq> 13"
  shows "\<exists>m' s'. readline tty NULL buf (m, s) = Some (m', s') \<and> cstr m' buf (edited [] cs) \<and>
    at rest (es @ echoed [] cs @ [nl]) s' \<and> (\<forall>x. x \<notin> region buf 1024 \<longrightarrow> m' x = m x)"
proof -
  have "char_source tty at" by unfold_locales (use assms(1,2) in blast)+
  from char_source.readline_loop_edits [OF this assms(3-5), of m buf "[]"] show ?thesis by (simp add: readline_def)
qed

section \<open>Concrete runs\<close>

definition format_d :: memory where
  "format_d = (\<lambda>_. 0)(200 := 37, 201 := 100)"

lemma format_d_ok: "cstr format_d 200 [37, 100]" "region 100 (unat (20 :: u32)) \<inter> region 200 3 = {}"
proof -
  show "cstr format_d 200 [37, 100]" by (simp add: format_d_def)
  show "region 100 (unat (20 :: u32)) \<inter> region 200 3 = {}" by (intro region_disjointI) simp_all
qed

definition terminal1 :: terminal where
  "terminal1 = \<lparr>tm_console = console1, tm_mem = format_d, tm_count = 0, tm_prog = 0\<rparr>"

theorem printnum_correct_witness:
  "\<exists>ds. printnum console_printer 255 16 4 48 terminal1 =
      Some (fold (pr_put console_printer) (replicate (nat (4 - int (length ds))) 48 @ map (\<lambda>d. hex_digit (of_nat d)) ds) terminal1) \<and>
    foldl (\<lambda>v d. v * 16 + d) 0 ds = 255"
  using printnum_correct [of 16 console_printer 255 4 48 terminal1] by auto

text \<open>Five bytes for a text of six characters.\<close>

theorem vsnprintf_correct_witness:
  "\<exists>m'. vsnprintf 100 5 200 [0x41, 0xFFFFFFF9]
      ((\<lambda>_. 0)(200 := 60, 201 := 37, 202 := 99, 203 := 61, 204 := 37, 205 := 100, 206 := 62)) = Some (6, m') \<and>
    chars_at m' 100 [60, 65, 61, 45, 0]"
proof -
  let ?m = "(\<lambda>_. 0)(200 := 60, 201 := 37, 202 := 99, 203 := 61, 204 := 37, 205 := 100, 206 := 62) :: memory"
  have at: "written 100 5 ?m out a = ?m a" if "200 \<le> a" "a \<le> 207" for out a
  proof -
    have "unat (a - 100) = unat a - 100" using that by (simp add: unat_sub word_le_nat_alt)
    then have "\<not> unat (a - 100) < 4" using that by (simp add: word_le_nat_alt)
    then show ?thesis by (simp add: written_def)
  qed
  let ?P = "line_printer 100 5 ?m"
  have e: "pr_mem ?P out 200 = 60" "pr_mem ?P out 201 = 37" "pr_mem ?P out 202 = 99" "pr_mem ?P out 203 = 61"
    "pr_mem ?P out 204 = 37" "pr_mem ?P out 205 = 100" "pr_mem ?P out 206 = 62" "pr_mem ?P out 207 = 0" for out
    by (simp_all add: line_printer_def at)
  have put: "pr_put ?P c out = out @ [c]" for c out by (simp add: line_printer_def)
  have d1: "directive ?P 202 no_spec [0x41, 0xFFFFFFF9] [60] = Some (203, [0xFFFFFFF9], [60, 65])"
    by (subst directive.simps) (simp add: e put convert_def va_arg_def)
  have seven: "printnum ?P 7 10 w c out = Some (put_times ?P c (nat (w - 1)) out @ [55])" for w c out
    by (subst printnum.simps) (simp add: put hex_digit_def)
  have d2: "directive ?P 205 no_spec [0xFFFFFFF9] [60, 65, 61] = Some (206, [], [60, 65, 61, 45, 55])"
    by (subst directive.simps) (simp add: e put convert_def va_arg_def getint_def seven no_spec_def)
  have "vprintfmt ?P 200 [0x41, 0xFFFFFFF9] [] = vprintfmt ?P 201 [0x41, 0xFFFFFFF9] [60]" by (subst vprintfmt.simps) (simp add: e put)
  also have "\<dots> = vprintfmt ?P 203 [0xFFFFFFF9] [60, 65]" by (subst vprintfmt.simps) (simp add: e d1)
  also have "\<dots> = vprintfmt ?P 204 [0xFFFFFFF9] [60, 65, 61]" by (subst vprintfmt.simps) (simp add: e put)
  also have "\<dots> = vprintfmt ?P 206 [] [60, 65, 61, 45, 55]" by (subst vprintfmt.simps) (simp add: e d2)
  also have "\<dots> = vprintfmt ?P 207 [] [60, 65, 61, 45, 55, 62]" by (subst vprintfmt.simps) (simp add: e put)
  also have "\<dots> = Some [60, 65, 61, 45, 55, 62]" by (subst vprintfmt.simps) (simp add: e)
  finally show ?thesis
    using vsnprintf_correct [of 100 5 200 "[0x41, 0xFFFFFFF9]" ?m] by (simp add: written_def chars_at_iff less_Suc_eq)
qed

theorem snprintf_strtol_roundtrip_witness:
  "\<exists>cnt m'. snprintf 100 20 200 [0x80000000] format_d = Some (cnt, m') \<and> strtol m' 100 10 = Some (0x80000000, 100 + cnt) \<and> m' (100 + cnt) = 0"
  by (rule snprintf_strtol_roundtrip [OF format_d_ok]) simp_all

text \<open>The keys a, b, backspace, c and return wait in the ring.\<close>

definition typed_console :: console where
  "typed_console = console1\<lparr>serial_in := [], kbd_in := [], cons_rpos := 0, cons_wpos := 5,
     cons_buf := (\<lambda>_. 0)(0 := 97, 1 := 98, 2 := 8, 3 := 99, 4 := 10)\<rparr>"

lemma typed_console_ring: "only_ring ([97, 98, 8, 99] @ 10 # []) typed_console"
proof -
  have "[0..<5] = [0, 1, 2, 3, 4 :: nat]" by (simp add: upt_rec)
  then show ?thesis by (simp add: only_ring_def typed_console_def ring_ok_def ring_def between_def after_def)
qed

text \<open>A terminal whose input is a list, for a line that is longer than the buffer.\<close>

definition list_tty :: "(u8 list \<times> u8 list) tty" where
  "list_tty = \<lparr>tty_getchar = (\<lambda>(xs, es). case xs of [] \<Rightarrow> None | x # xs \<Rightarrow> Some (ucast x, (xs, es))),
     tty_cputchar = (\<lambda>c (xs, es). (xs, es @ [ucast c])), tty_print = (\<lambda>_ _. Some)\<rparr>"

lemma edited_long: "length xs + n \<le> 1023 \<Longrightarrow> edited xs (replicate n 97) = xs @ replicate n 97"
  by (induction n arbitrary: xs) (simp_all add: replicate_append_same)

lemma edited_full: "length xs = 1023 \<Longrightarrow> edited xs (replicate n 97) = xs"
  by (induction n) simp_all

lemma edited_append: "edited xs (as @ bs) = edited (edited xs as) bs"
  by (induction as arbitrary: xs) simp_all

theorem readline_edits_witness:
  "(\<exists>m' s'. readline kernel_tty NULL 1000 (\<lambda>_. 0, typed_console) = Some (m', s') \<and> cstr m' 1000 [97, 99] \<and> only_ring [] s') \<and>
   (\<exists>m' s'. readline list_tty NULL 1000 (\<lambda>_. 0, (replicate 1100 97 @ [10], [])) = Some (m', s') \<and>
      cstr m' 1000 (replicate 1023 97) \<and> m' 2024 = 0)"
proof
  show "\<exists>m' s'. readline kernel_tty NULL 1000 (\<lambda>_. 0, typed_console) = Some (m', s') \<and> cstr m' 1000 [97, 99] \<and> only_ring [] s'"
    using readline_edits [where at = "\<lambda>xs es s. only_ring xs s" and tty = kernel_tty and buf = 1000 and m = "\<lambda>_. 0",
        OF console.getchar console.cputchar typed_console_ring] by auto
  have "\<exists>m' s'. readline list_tty NULL 1000 (\<lambda>_. 0, (replicate 1100 97 @ [10], [])) = Some (m', s') \<and>
      cstr m' 1000 (edited [] (replicate 1100 97)) \<and> s' = ([], [] @ echoed [] (replicate 1100 97) @ [10]) \<and>
      (\<forall>x. x \<notin> region 1000 1024 \<longrightarrow> m' x = 0)"
    by (rule readline_edits [where at = "\<lambda>xs es s. s = (xs, es)"]) (simp_all add: list_tty_def byte_word)
  moreover have "edited [] (replicate 1100 97) = replicate 1023 97"
  proof -
    have "(replicate 1100 97 :: u8 list) = replicate 1023 97 @ replicate 77 97" by (simp flip: replicate_add)
    then show ?thesis by (simp only: edited_append edited_long edited_full length_replicate list.size append_Nil)
  qed
  moreover have "(2024 :: u32) \<notin> region 1000 1024" by (simp add: region_def)
  ultimately show "\<exists>m' s'. readline list_tty NULL 1000 (\<lambda>_. 0, (replicate 1100 97 @ [10], [])) = Some (m', s') \<and>
      cstr m' 1000 (replicate 1023 97) \<and> m' 2024 = 0" by metis
qed

end
