(* ===== verification/FOS_LineProps.thy ===== *)
theory FOS_LineProps
  imports FOS_PromptLine FOS_PrintfProps
begin

text \<open>
  The line editor of the prompt counts every typed character as one more, also where it replaces one: the
  terminator is stored behind the line, and for a recalled line that fills the buffer, behind the buffer.
\<close>

section \<open>Copying and comparing\<close>

lemma copy_up_outside: "x \<notin> region d n \<Longrightarrow> copy_up d s n m x = m x"
proof (induction n arbitrary: d s m)
  case (Suc n)
  from region_Suc_disjoint [OF Suc.prems] show ?case using Suc.IH [of "d + 1"] by simp
qed simp

lemma show_and_copy_fst: "fst (show_and_copy src dst n (m, s)) = copy_up dst src n m"
  by (induction n arbitrary: src dst m s) (simp_all add: Let_def)

lemma show_and_copy_snd: "only_ring xs (snd (show_and_copy src dst n (m, s))) = only_ring xs s"
  by (induction n arbitrary: src dst m s) (simp_all add: Let_def only_ring_cputchar)

lemma strcmp_returns: "cstr m p xs \<Longrightarrow> \<exists>d. strcmp m p q = Some d"
proof (induction xs arbitrary: p q)
  case Nil
  then show ?case by (subst strcmp.simps) simp
next
  case (Cons x xs)
  then show ?case by (subst strcmp.simps) auto
qed

lemma cstr_cong:
  assumes "cstr m p xs" "\<And>x. x \<in> region p (length xs + 1) \<Longrightarrow> m' x = m x" "length xs < 4294967295"
  shows "cstr m' p xs"
proof -
  have "chars_at m' p (xs @ [0]) = chars_at m p (xs @ [0])"
  proof (rule chars_at_cong)
    fix i assume "i < length (xs @ [0])"
    then have "p + of_nat i \<in> region p (length xs + 1)" using assms(3) by (simp add: region_def unat_of_nat_u32)
    then show "m' (p + of_nat i) = m (p + of_nat i)" by (rule assms(2))
  qed
  then show ?thesis using assms(1) unfolding cstr_def by simp
qed

section \<open>One key after the other\<close>

lemma edit_loop_key:
  assumes "only_ring (x # xs) (ed_cons e)" "x \<noteq> 0"
  shows "\<exists>s. only_ring xs s \<and> edit_loop lb co buf e = do {
     (finished, e2) \<leftarrow> edit_key lb co buf (ucast x) (e\<lparr>ed_cons := s, lastIndex := max (ed_i e) (lastIndex e)\<rparr>);
     if finished then Some e2 else edit_loop lb co buf e2 }"
proof -
  from getchar_ring [OF assms] obtain s where s: "getchar (ed_cons e) = Some (ucast x, s)" "only_ring xs s" by blast
  have "\<not> sint (ucast x :: u32) < 0" using byte_word(2) [of x] by simp
  then show ?thesis using s by (subst edit_loop.simps) (auto simp: Let_def)
qed

text \<open>Up arrow with a line of the history: it is shown and copied.\<close>

lemma up_arrow:
  assumes "cstr (ed_mem e) line xs" "line = command_history lb + of_int (1024 * (commandidx e - 1))" "commandidx e \<noteq> 0"
    and "length xs < 2147483648" "ed_i e = 0"
  shows "\<exists>s. edit_key lb co buf 226 e =
     Some (False, e\<lparr>commandidx := commandidx e - 1, ed_mem := copy_up buf line (length xs) (memcpy buf (empty_line lb) 1024 (ed_mem e)),
       ed_cons := s, ed_i := int (length xs), lastIndex := int (length xs), last_c := 226\<rparr>) \<and>
     (\<forall>ys. only_ring ys s = only_ring ys (ed_cons e))"
proof -
  have l: "strlen (ed_mem e) line = Some (of_nat (length xs))" using strlen_cstr [OF assms(1)] .
  have n: "sint (of_nat (length xs) :: u32) = int (length xs)"
  proof -
    have u: "unat (of_nat (length xs) :: u32) = length xs" using assms(4) by (simp add: unat_of_nat_u32)
    then have "(of_nat (length xs) :: u32) \<le> 0x7FFFFFFF" using assms(4) by (simp add: word_le_nat_alt)
    then have "sint (of_nat (length xs) :: u32) = uint (of_nat (length xs) :: u32)" by (rule sint_small)
    also have "\<dots> = int (length xs)" using u by (simp add: uint_nat)
    finally show ?thesis .
  qed
  then show ?thesis
    using assms(2,3,5) l by (auto simp: edit_key_def clearandwritecommand_def Let_def show_and_copy_fst show_and_copy_snd case_prod_unfold)
qed


lemma left_arrow:
  "ed_i e > 0 \<Longrightarrow> edit_key lb co buf 228 e =
     Some (False, e\<lparr>ed_i := ed_i e - 1, ed_cons := cputchar 228 (ed_cons e), last_c := 228\<rparr>)"
  by (simp add: edit_key_def Let_def)

lemma plain_key:
  assumes "32 \<le> x" "x \<notin> {226, 227, 228, 229, 0xE9}" "ed_i e < 1023"
  shows "edit_key lb co buf (ucast x) e = Some (False, e\<lparr>ed_mem := (ed_mem e)(buf + of_int (ed_i e) := x), ed_i := ed_i e + 1,
     lastIndex := lastIndex e + 1, ed_cons := cputchar (ucast x) (ed_cons e), last_c := ucast x\<rparr>)"
proof -
  have n: "(ucast x :: u32) \<noteq> v" if "x \<noteq> ucast v" for v
    using byte_word(3) [of x] that by auto
  have "9 \<noteq> x" using assms(1) by auto
  then have "x \<noteq> ucast (226 :: u32)" "x \<noteq> ucast (227 :: u32)" "x \<noteq> ucast (9 :: u32)" "x \<noteq> ucast (228 :: u32)"
    "x \<noteq> ucast (229 :: u32)" "x \<noteq> ucast (0xE9 :: u32)" using assms(2) by auto
  from this [THEN n] have "(ucast x :: u32) \<noteq> 226" "(ucast x :: u32) \<noteq> 227" "(ucast x :: u32) \<noteq> 9" "(ucast x :: u32) \<noteq> 228"
    "(ucast x :: u32) \<noteq> 229" "(ucast x :: u32) \<noteq> 0xE9" .
  moreover have "sint (ucast x :: u32) \<ge> 32"
    using assms(1) unfolding byte_word(2) by (simp add: word_le_def)
  ultimately show ?thesis using assms(3) byte_word(3) [of x] by (simp add: edit_key_def Let_def)
qed

lemma enter_key: "edit_key lb co buf 10 e = do { e1 \<leftarrow> finish_line lb buf (e\<lparr>ed_cons := cputchar 10 (ed_cons e)\<rparr>); Some (True, e1) }"
  by (simp add: edit_key_def Let_def)

lemma finish_line_terminates:
  assumes "last_command_idx e \<noteq> 19" "cstr ((ed_mem e)(buf + of_int (lastIndex e) := 0)) (command_history lb + of_int (1024 * last_command_idx e)) xs"
    and "buf + of_int (lastIndex e) \<notin> region (command_history lb + of_int (1024 * (last_command_idx e + 1))) 1024"
  shows "\<exists>e1. finish_line lb buf e = Some e1 \<and> ed_mem e1 (buf + of_int (lastIndex e)) = 0"
proof -
  from strcmp_returns [OF assms(2), of buf] obtain d where
    d: "strcmp ((ed_mem e)(buf + of_int (lastIndex e) := 0)) (command_history lb + of_int (1024 * last_command_idx e)) buf = Some d" ..
  have "memcpy (command_history lb + of_int (1024 * (last_command_idx e + 1))) buf 1024 m (buf + of_int (lastIndex e)) = m (buf + of_int (lastIndex e))" for m
    unfolding memcpy_def by (rule copy_up_outside) (use assms(3) in simp)
  then show ?thesis using d assms(1) by (simp add: finish_line_def Let_def)
qed


section \<open>A recalled line\<close>

text \<open>The state after the up arrow, the left arrow and a character that replaces the last one.\<close>

lemma recalled_and_replaced:
  assumes "only_ring [226, 228, x, 10] (ed_cons e)" "32 \<le> x" "x \<notin> {226, 227, 228, 229, 0xE9}"
    and "cstr (ed_mem e) line xs" "line = command_history lb + of_int (1024 * (commandidx e - 1))" "commandidx e \<noteq> 0"
    and "0 < length xs" "length xs \<le> 1023" "ed_i e = 0" "lastIndex e = 0"
  shows "\<exists>e1. edit_loop lb co buf e = edit_loop lb co buf e1 \<and> only_ring [10] (ed_cons e1) \<and> ed_i e1 = int (length xs) \<and>
     lastIndex e1 = int (length xs) + 1 \<and> last_command_idx e1 = last_command_idx e \<and>
     (\<forall>a. a \<notin> region buf 1024 \<longrightarrow> ed_mem e1 a = ed_mem e a)"
proof -
  from edit_loop_key [OF assms(1), where lb = lb and co = co and buf = buf] obtain s1 where s1: "only_ring [228, x, 10] s1" "edit_loop lb co buf e = do {
     (finished, e2) \<leftarrow> edit_key lb co buf 226 (e\<lparr>ed_cons := s1, lastIndex := max (ed_i e) (lastIndex e)\<rparr>);
     if finished then Some e2 else edit_loop lb co buf e2 }" by auto
  let ?e = "e\<lparr>ed_cons := s1, lastIndex := max (ed_i e) (lastIndex e)\<rparr>"
  define m1 where "m1 = copy_up buf line (length xs) (memcpy buf (empty_line lb) 1024 (ed_mem e))"
  have out: "m1 a = ed_mem e a" if "a \<notin> region buf 1024" for a
    using that assms(8) region_mono [of "length xs" 1024 buf] unfolding m1_def memcpy_def
    by (subst copy_up_outside) (auto simp: copy_up_outside)
  have "length xs < 2147483648" using assms(8) by simp
  from up_arrow [where e = ?e and line = line and xs = xs and lb = lb and buf = buf and co = co] assms(4,5,6,9) this obtain t1 where
    t1: "edit_key lb co buf 226 ?e = Some (False, ?e\<lparr>commandidx := commandidx e - 1, ed_mem := m1, ed_cons := t1,
       ed_i := int (length xs), lastIndex := int (length xs), last_c := 226\<rparr>)" "only_ring [228, x, 10] t1"
    using s1(1) by (auto simp: m1_def)
  let ?e1 = "?e\<lparr>commandidx := commandidx e - 1, ed_mem := m1, ed_cons := t1, ed_i := int (length xs), lastIndex := int (length xs), last_c := 226\<rparr>"
  have l1: "edit_loop lb co buf e = edit_loop lb co buf ?e1" using s1(2) t1(1) by simp
  from edit_loop_key [of 228 "[x, 10]" ?e1, where lb = lb and co = co and buf = buf] t1(2) obtain s2 where s2: "only_ring [x, 10] s2" "edit_loop lb co buf ?e1 = do {
     (finished, e2) \<leftarrow> edit_key lb co buf 228 (?e1\<lparr>ed_cons := s2, lastIndex := int (length xs)\<rparr>);
     if finished then Some e2 else edit_loop lb co buf e2 }" by auto
  let ?e2 = "?e1\<lparr>lastIndex := int (length xs), ed_i := int (length xs) - 1, ed_cons := cputchar 228 s2, last_c := 228\<rparr>"
  have l2: "edit_loop lb co buf e = edit_loop lb co buf ?e2"
    unfolding l1 s2(2) by (subst left_arrow) (use assms(7) in simp_all)
  have x0: "x \<noteq> 0" using assms(2) by auto
  from edit_loop_key [of x "[10]" ?e2, OF _ x0, where lb = lb and co = co and buf = buf] s2(1) obtain s3 where s3: "only_ring [10] s3" "edit_loop lb co buf ?e2 = do {
     (finished, e2) \<leftarrow> edit_key lb co buf (ucast x) (?e2\<lparr>ed_cons := s3, lastIndex := int (length xs)\<rparr>);
     if finished then Some e2 else edit_loop lb co buf e2 }" by (auto simp: only_ring_cputchar)
  let ?m = "m1(buf + of_int (int (length xs) - 1) := x)"
  let ?e3 = "?e2\<lparr>ed_mem := ?m, ed_i := int (length xs), lastIndex := int (length xs) + 1, ed_cons := cputchar (ucast x) s3, last_c := ucast x\<rparr>"
  have l3: "edit_loop lb co buf e = edit_loop lb co buf ?e3"
    unfolding l2 s3(2) by (subst plain_key [OF assms(2,3)]) (use assms(8) in simp_all)
  have w: "buf + of_int (int (length xs) - 1) \<in> region buf 1024"
  proof -
    have "int (length xs) - 1 = int (length xs - 1)" using assms(7) by (simp add: of_nat_diff Suc_le_eq)
    then have "of_int (int (length xs) - 1) = (of_nat (length xs - 1) :: u32)" by (simp only: of_int_of_nat_eq)
    moreover have "unat (of_nat (length xs - 1) :: u32) < 1024" using assms(8) by (subst unat_of_nat_u32) simp_all
    ultimately show ?thesis unfolding region_def by (simp only: mem_Collect_eq add_diff_cancel_left')
  qed
  have "?m a = ed_mem e a" if "a \<notin> region buf 1024" for a using out [OF that] that w by auto
  then show ?thesis using l3 s3(1) by (intro exI [of _ ?e3]) (simp add: only_ring_cputchar)
qed

text \<open>C32: the up arrow recalls a line of 1023 characters, the longest the buffer of 1024 bytes holds; the
  left arrow and a character that replaces the last one make the editor count one character more than
  the line has, and at the end of the line it stores its terminator behind the buffer.\<close>

theorem recalled_line_overflows:
  assumes "only_ring [226, 228, x, 10] s" "32 \<le> x" "x \<notin> {226, 227, 228, 229, 0xE9}"
    and "0 \<le> idx" "idx < 19" "cstr m (command_history lb + of_int (1024 * idx)) xs" "length xs = 1023"
    and "region buf 1025 \<inter> region (command_history lb) (1024 * 20) = {}"
  shows "\<exists>idx' m' s'. command_prompt_readline lb co junk junk_size NULL buf idx (m, s) = Some (idx', m', s') \<and>
    m' (buf + 1024) = 0 \<and> buf + 1024 \<notin> region buf 1024"
proof -
  let ?line = "command_history lb + of_int (1024 * idx)"
  let ?e = "\<lparr>ed_mem = m, ed_cons = s, ed_i = 0, lastIndex = 0, commandidx = idx + 1, last_c = junk,
        prefix_list_idx = 0, prefix_list_size = junk_size, is_run_cmd = False, is_tst_cmd = False, last_command_idx = idx\<rparr>"
  have h: "region (command_history lb + of_int (1024 * j)) 1024 \<subseteq> region (command_history lb) (1024 * 20)" if "0 \<le> j" "j < 20" for j
  proof -
    obtain n where n: "1024 * j = int n" "n + 1024 \<le> 1024 * 20" by (rule that [of "nat (1024 * j)"]) (use \<open>0 \<le> j\<close> \<open>j < 20\<close> in simp_all)
    have "unat (of_nat n :: u32) = n" using n(2) by (simp add: unat_of_nat_u32)
    then show ?thesis unfolding n(1) of_int_of_nat_eq by (intro region_offset) (use n(2) in simp_all)
  qed
  have b: "region buf 1024 \<subseteq> region buf 1025" by (rule region_mono) simp
  have w: "buf + 1024 \<in> region buf 1025" "buf + 1024 \<notin> region buf 1024" by (simp_all add: region_def)
  have "\<exists>e1. edit_loop lb co buf ?e = edit_loop lb co buf e1 \<and> only_ring [10] (ed_cons e1) \<and> ed_i e1 = int (length xs) \<and>
     lastIndex e1 = int (length xs) + 1 \<and> last_command_idx e1 = last_command_idx ?e \<and>
     (\<forall>a. a \<notin> region buf 1024 \<longrightarrow> ed_mem e1 a = ed_mem ?e a)"
    by (rule recalled_and_replaced [of x ?e ?line]) (use assms(1-7) in simp_all)
  then obtain e1 where e1: "edit_loop lb co buf ?e = edit_loop lb co buf e1" "only_ring [10] (ed_cons e1)" "ed_i e1 = 1023"
     "lastIndex e1 = 1024" "last_command_idx e1 = idx" "\<And>a. a \<notin> region buf 1024 \<Longrightarrow> ed_mem e1 a = m a"
    using assms(7) by auto
  from edit_loop_key [OF e1(2), where lb = lb and co = co and buf = buf] obtain t where t: "edit_loop lb co buf e1 = do {
     (finished, e2) \<leftarrow> edit_key lb co buf 10 (e1\<lparr>ed_cons := t, lastIndex := 1024\<rparr>);
     if finished then Some e2 else edit_loop lb co buf e2 }" using e1(3,4) by auto
  let ?e2 = "e1\<lparr>lastIndex := 1024, ed_cons := cputchar 10 t\<rparr>"
  have away: "a \<notin> region buf 1025" if "a \<in> region ?line 1024" for a using h [of idx] that assms(4,5,8) by auto
  have "cstr ((ed_mem e1)(buf + 1024 := 0)) ?line xs"
  proof (rule cstr_cong [OF assms(6)])
    fix a assume "a \<in> region ?line (length xs + 1)"
    then have "a \<notin> region buf 1025" using away assms(7) by simp
    then show "((ed_mem e1)(buf + 1024 := 0)) a = m a" using e1(6) [of a] w(1) b by auto
  qed (use assms(7) in simp)
  then have "cstr ((ed_mem ?e2)(buf + of_int (lastIndex ?e2) := 0)) (command_history lb + of_int (1024 * last_command_idx ?e2)) xs"
    using e1(5) by simp
  moreover have "buf + of_int (lastIndex ?e2) \<notin> region (command_history lb + of_int (1024 * (last_command_idx ?e2 + 1))) 1024"
    using h [of "idx + 1"] assms(4,5,8) w(1) e1(5) by auto
  ultimately obtain e3 where e3: "finish_line lb buf ?e2 = Some e3" "ed_mem e3 (buf + 1024) = 0"
    using finish_line_terminates [of ?e2 buf lb xs] assms(5) e1(5) by auto
  have "edit_loop lb co buf ?e = Some e3" using e1(1) t e3(1) by (simp add: enter_key)
  then show ?thesis using e3(2) w(2) by (simp add: command_prompt_readline_def)
qed

section \<open>A full line in the history\<close>

definition full_history :: memory where
  "full_history a = (if unat (a - 0xF0200000) < 1023 then 97 else 0)"

definition buffers0 :: line_buffers where
  "buffers0 = \<lparr>command_history = 0xF0200000, empty_line = 0xF0210000, PrefixList = 0xF0220000, temp_buf = 0xF0240000,
     tab_arguments = 0xF0250000, tab_whitespace = 0xF0260000\<rparr>"

definition recalling_console :: console where
  "recalling_console = console1\<lparr>serial_in := [], kbd_in := [], cons_rpos := 0, cons_wpos := 4,
     cons_buf := (\<lambda>_. 0)(0 := 226, 1 := 228, 2 := 98, 3 := 10)\<rparr>"

lemma recalling_console_ring: "only_ring [226, 228, 98, 10] recalling_console"
proof -
  have "[0..<4] = [0, 1, 2, 3 :: nat]" by (simp add: upt_rec)
  then show ?thesis by (simp add: only_ring_def recalling_console_def ring_ok_def ring_def between_def after_def)
qed

lemma full_history_line: "cstr full_history (command_history buffers0 + of_int (1024 * 0)) (replicate 1023 97)"
proof -
  have "full_history (0xF0200000 + of_nat i) = (if i < 1023 then 97 else 0)" if "i < 1024" for i
    using that by (simp add: full_history_def unat_of_nat_u32)
  then have "chars_at full_history 0xF0200000 (replicate 1023 97 @ [0])"
    unfolding chars_at_iff by (auto simp: nth_append)
  then show ?thesis by (simp add: cstr_def buffers0_def)
qed

theorem recalled_line_overflows_witness:
  "\<exists>idx' m' s'. command_prompt_readline buffers0 \<lparr>user_programs = [], tests = []\<rparr> 0 0 NULL 0xF0300000 0 (full_history, recalling_console) =
     Some (idx', m', s') \<and> m' 0xF0300400 = 0 \<and> 0xF0300400 \<notin> region 0xF0300000 1024"
proof -
  have "region 0xF0300000 1025 \<inter> region (command_history buffers0) (1024 * 20) = {}"
    unfolding buffers0_def by (rule region_disjointI) simp_all
  from recalled_line_overflows [OF recalling_console_ring _ _ _ _ full_history_line _ this,
      where co = "\<lparr>user_programs = [], tests = []\<rparr>" and junk = 0 and junk_size = 0]
  show ?thesis by simp
qed

end
