(* ===== verification/FOS_Trap.thy ===== *)
theory FOS_Trap
  imports FOS_Syscall
begin

text \<open>
  Traps and interrupts: the masks of the interrupt controllers (\<^verbatim>\<open>kern/cpu/picirq.c\<close>), stopping and
  resuming the clock (\<^verbatim>\<open>kern/cpu/kclock.c\<close>), and the dispatch of a trap (\<^verbatim>\<open>kern/trap/trap.c\<close>). The counter of
  the timer chip and the end-of-interrupt commands have no state here; the trap frame lies in kernel
  memory. A trap whose process loses the CPU in the middle goes on with one of the two
  \<open>trap_resume\<close> definitions.
\<close>

section \<open>The interrupt controllers\<close>

definition irq_setmask_8259A :: "16 word \<Rightarrow> kern \<Rightarrow> kern" where
  "irq_setmask_8259A m k = (if \<not> didinit k then k else k\<lparr>irq_mask := m\<rparr>)"

text \<open>Line 2, which connects the second controller, starts enabled.\<close>

definition pic_init :: "kern \<Rightarrow> kern" where
  "pic_init k = irq_setmask_8259A 0xFFFB (k\<lparr>didinit := True\<rparr>)"

definition irq_clear_mask :: "u8 \<Rightarrow> kern \<Rightarrow> kern" where
  "irq_clear_mask IRQline k = (if \<not> didinit k then k else k\<lparr>irq_mask := irq_mask k AND NOT (push_bit (unat IRQline) 1)\<rparr>)"

text \<open>The bit is read from the register of one controller, so a line of the second is reported at its place there.\<close>

definition irq_get_mask :: "u8 \<Rightarrow> kern \<Rightarrow> int" where
  "irq_get_mask IRQline k =
    (if \<not> didinit k then - 1
     else uint ((if IRQline < 8 then irq_mask k else drop_bit 8 (irq_mask k)) AND
       push_bit (unat (if IRQline < 8 then IRQline else IRQline - 8)) 1 AND 0xFF))"

definition irq_install_handler :: "u32 \<Rightarrow> irq_handler \<Rightarrow> kern \<Rightarrow> kern" where
  "irq_install_handler irq h k = k\<lparr>irq_handlers := (irq_handlers k)(irq := h)\<rparr>"

definition irq_uninstall_handler :: "u32 \<Rightarrow> kern \<Rightarrow> kern" where
  "irq_uninstall_handler irq k = k\<lparr>irq_handlers := (irq_handlers k)(irq := No_handler)\<rparr>"

section \<open>The clock\<close>

definition kclock_init :: "kern \<Rightarrow> kern" where
  "kclock_init k = irq_install_handler 0 Clock_handler (k\<lparr>ticks := 0\<rparr>)"

definition kclock_resume :: "kern \<Rightarrow> kern option" where
  "kclock_resume k = do { k1 \<leftarrow> kclock_write_cnt0_LSB_first k; Some (irq_clear_mask 0 k1) }"

definition kclock_start_counter :: "kern \<Rightarrow> kern option" where
  "kclock_start_counter k = do { k1 \<leftarrow> kclock_write_cnt0_LSB_first k; Some (irq_clear_mask 0 k1) }"

section \<open>Trap frames\<close>

text \<open>The offsets of \<^verbatim>\<open>struct Trapframe\<close>.\<close>

definition reg_edi :: "ptr \<Rightarrow> kern \<Rightarrow> u32" where "reg_edi tf k = load32 (kmem k) tf"
definition reg_esi :: "ptr \<Rightarrow> kern \<Rightarrow> u32" where "reg_esi tf k = load32 (kmem k) (tf + 4)"
definition reg_ebx :: "ptr \<Rightarrow> kern \<Rightarrow> u32" where "reg_ebx tf k = load32 (kmem k) (tf + 16)"
definition reg_edx :: "ptr \<Rightarrow> kern \<Rightarrow> u32" where "reg_edx tf k = load32 (kmem k) (tf + 20)"
definition reg_ecx :: "ptr \<Rightarrow> kern \<Rightarrow> u32" where "reg_ecx tf k = load32 (kmem k) (tf + 24)"
definition reg_eax :: "ptr \<Rightarrow> kern \<Rightarrow> u32" where "reg_eax tf k = load32 (kmem k) (tf + 28)"
definition tf_trapno :: "ptr \<Rightarrow> kern \<Rightarrow> u32" where "tf_trapno tf k = load32 (kmem k) (tf + 40)"
definition frame_eip :: "ptr \<Rightarrow> kern \<Rightarrow> u32" where "frame_eip tf k = load32 (kmem k) (tf + 48)"
definition frame_cs :: "ptr \<Rightarrow> kern \<Rightarrow> u32" where "frame_cs tf k = load16 (kmem k) (tf + 52)"
definition tf_eflags :: "ptr \<Rightarrow> kern \<Rightarrow> u32" where "tf_eflags tf k = load32 (kmem k) (tf + 56)"

section \<open>Dispatch\<close>

text \<open>
  A trap goes back to the code it interrupted, or its process gives up the CPU: inside of a system
  call, or inside of a handler of an interrupt or a fault; or the CPU enters the scheduler for good.
\<close>

datatype trapret = Back kern | In_call waiting u32 kern | In_handler u32 kern | In_scheduler kern

text \<open>What the hardware says besides: the disk is ready, where the channel of the disk lies, and the rest.\<close>

record trap_surroundings = surroundings +
  disk_ready :: bool
  DISKchannel :: ptr

definition disk_interrupt_handler :: "trap_surroundings \<Rightarrow> kern \<Rightarrow> kern option" where
  "disk_interrupt_handler w k = (if \<not> disk_ready w then Some k else wakeup_one (DISKchannel w) k)"

definition run_handler :: "trap_surroundings \<Rightarrow> irq_handler \<Rightarrow> kern \<Rightarrow> outcome option" where
  "run_handler w h k =
    (case h of
       No_handler \<Rightarrow> Some (Returns k)
     | Clock_handler \<Rightarrow> clock_interrupt_handler k
     | Keyboard_handler \<Rightarrow> map_option Returns (keyboard_interrupt_handler k)
     | Serial_handler \<Rightarrow> map_option Returns (serial_interrupt_handler k)
     | Disk_handler \<Rightarrow> map_option Returns (disk_interrupt_handler w k))"

abbreviation "IRQ_OFFSET \<equiv> 32 :: u32"
abbreviation "MAX_IRQS \<equiv> 16 :: u32"
abbreviation "T_DBLFLT \<equiv> 8 :: u32"
abbreviation "T_PGFLT \<equiv> 14 :: u32"
abbreviation "T_SYSCALL \<equiv> 48 :: u32"

definition irq_dispatch :: "trap_surroundings \<Rightarrow> ptr \<Rightarrow> kern \<Rightarrow> outcome option" where
  "irq_dispatch w tf k = run_handler w (irq_handlers k (tf_trapno tf k - IRQ_OFFSET)) k"

text \<open>The end of \<^verbatim>\<open>trap\<close>.\<close>

definition trap_end :: "kern \<Rightarrow> trapret option" where
  "trap_end k = (if eflags (kcpu k) AND FL_IF \<noteq> 0 then None else map_option Back (kclock_resume k))"

definition after_handler :: "outcome \<Rightarrow> trapret option" where
  "after_handler r = (case r of Returns k \<Rightarrow> trap_end k | Gives_up saved k \<Rightarrow> Some (In_handler saved k) | Schedules k \<Rightarrow> Some (In_scheduler k))"

text \<open>What \<^verbatim>\<open>trap_dispatch\<close> does after the system call: the result goes to the frame, interrupts off again.\<close>

definition after_call :: "ptr \<Rightarrow> sysret \<Rightarrow> trapret option" where
  "after_call tf r =
    (case r of
       Result v k \<Rightarrow>
         let k1 = on_kmem (store32 (tf + 28) v) k;
             k2 = (if eflags (kcpu k1) AND FL_IF \<noteq> 0 then kclock_stop (k1\<lparr>kcpu := cli (kcpu k1)\<rparr>) else k1)
         in trap_end k2
     | Suspends wt saved k \<Rightarrow> Some (In_call wt saved k)
     | To_scheduler k \<Rightarrow> Some (In_scheduler k))"

definition trap_call :: "surroundings \<Rightarrow> ptr \<Rightarrow> kern \<Rightarrow> sysret option" where
  "trap_call w tf k = do {
     k1 \<leftarrow> (if tf_eflags tf k AND FL_IF \<noteq> 0 then kclock_resume (k\<lparr>kcpu := sti (kcpu k)\<rparr>) else Some k);
     syscall w (reg_eax tf k1) (reg_edx tf k1) (reg_ecx tf k1) (reg_ebx tf k1) (reg_edi tf k1) (reg_esi tf k1) k1
   }"

definition trap_page_fault :: "ptr \<Rightarrow> kern \<Rightarrow> outcome option" where
  "trap_page_fault tf k =
    (if bypassInstrLength k \<noteq> 0 then
       Some (Returns (on_kmem (store32 (tf + 48) (frame_eip tf k + ucast (bypassInstrLength k))) k))
     else do {
       k1 \<leftarrow> (if isPageReplacmentAlgorithmLRU PG_REP_LRU_TIME_APPROX k then update_WS_time_stamps k else Some k);
       fault_handler \<lparr>tf_eip = frame_eip tf k1, tf_cs = frame_cs tf k1\<rparr> (reg_cr2 k1) k1
     })"

text \<open>A double fault and all other traps panic.\<close>

definition trap_dispatch :: "surroundings \<Rightarrow> ptr \<Rightarrow> kern \<Rightarrow> trapret option" where
  "trap_dispatch w tf k =
    (if tf_trapno tf k = T_PGFLT then do { r \<leftarrow> trap_page_fault tf k; after_handler r }
     else if tf_trapno tf k = T_SYSCALL then do { r \<leftarrow> trap_call w tf k; after_call tf r }
     else None)"

definition trap :: "trap_surroundings \<Rightarrow> ptr \<Rightarrow> kern \<Rightarrow> trapret option" where
  "trap w tf k = do {
     let k1 = kclock_stop k;
     if eflags (kcpu k1) AND FL_IF \<noteq> 0 then None
     else do {
       (cur_env, k2) \<leftarrow> cur_proc k1;
       if frame_cs tf k2 AND 3 = 3 \<and>
          (cur_env = NULL \<or> env_status (envs k2 cur_env) \<noteq> ENV_RUNNING \<or> env_tf (envs k2 cur_env) \<noteq> tf) then None
       else if tf_trapno tf k2 \<ge> IRQ_OFFSET \<and> tf_trapno tf k2 < IRQ_OFFSET + MAX_IRQS then
         do { r \<leftarrow> irq_dispatch w tf k2; after_handler r }
       else trap_dispatch (surroundings.truncate w) tf k2
     }
   }"

text \<open>Going on when the process has the CPU back: in a system call, and in the clock interrupt.\<close>

definition trap_resume_call :: "ptr \<Rightarrow> waiting \<Rightarrow> u32 \<Rightarrow> kern \<Rightarrow> trapret option" where
  "trap_resume_call tf wt saved k = do { r \<leftarrow> syscall_return wt saved k; after_call tf r }"

definition trap_resume_handler :: "u32 \<Rightarrow> kern \<Rightarrow> trapret option" where
  "trap_resume_handler saved k = do { k1 \<leftarrow> yield_return saved k; trap_end k1 }"

end
