(* ===== verification/FOS_FrameProps.thy ===== *)
theory FOS_FrameProps
  imports FOS_Trap FOS_BootState
begin

text \<open>
  The system calls that take frames from the free list: how many they take, and what happens to a
  frame when the call fails.
\<close>

section \<open>Taking frames\<close>

lemma allocate_frame_empty: "lock_held k \<Longrightarrow> free_frames k [] \<Longrightarrow> allocate_frame k = None"
  by (simp add: allocate_frame_def with_mfllock_held free_frames_def dll_def)

text \<open>The state in which a number of frames were taken.\<close>

definition frames_taken :: "kern \<Rightarrow> ptr list \<Rightarrow> kern \<Rightarrow> bool" where
  "frames_taken k fs k' \<longleftrightarrow> (\<exists>t h. k' = k\<lparr>frames := t, free_frame_list := h\<rparr>) \<and> free_frames k' fs"

lemma frames_taken_held: "frames_taken k fs k' \<Longrightarrow> lock_held k \<Longrightarrow> lock_held k' \<and> mfllock k' = mfllock k \<and> kcpu k' = kcpu k"
  by (auto simp: frames_taken_def lock_held_def)

lemma frames_taken_step:
  assumes "lock_held k" "free_frames k (f # fs)"
  shows "\<exists>k1. allocate_frame k = Some (f, k1) \<and> frames_taken k fs k1"
  using allocate_frame_held [OF assms] by (auto simp: frames_taken_def)

lemma frames_taken_trans: "frames_taken k gs k1 \<Longrightarrow> frames_taken k1 fs k2 \<Longrightarrow> frames_taken k fs k2"
proof -
  assume a: "frames_taken k gs k1" "frames_taken k1 fs k2"
  then obtain t h t2 h2 where "k1 = k\<lparr>frames := t, free_frame_list := h\<rparr>" "k2 = k1\<lparr>frames := t2, free_frame_list := h2\<rparr>"
    by (auto simp: frames_taken_def)
  then have "k2 = k\<lparr>frames := t2, free_frame_list := h2\<rparr>" by simp
  then show ?thesis using a(2) unfolding frames_taken_def by blast
qed

lemma frames_taken_refl: "free_frames k fs \<Longrightarrow> frames_taken k fs k"
  unfolding frames_taken_def by (intro conjI exI [of _ "frames k"] exI [of _ "free_frame_list k"]) simp_all

lemma allocate_times_ok:
  assumes "lock_held k" "free_frames k fs" "n \<le> length fs"
  shows "\<exists>k'. allocate_times n k = Some k' \<and> frames_taken k (drop n fs) k'"
  using assms
proof (induction n arbitrary: k fs)
  case 0
  then show ?case by (simp add: frames_taken_refl)
next
  case (Suc n)
  then obtain f gs where fs: "fs = f # gs" by (cases fs) auto
  from frames_taken_step [OF Suc.prems(1)] Suc.prems(2) fs obtain k1 where
    k1: "allocate_frame k = Some (f, k1)" "frames_taken k gs k1" by blast
  have "lock_held k1" "free_frames k1 gs" using frames_taken_held [OF k1(2) Suc.prems(1)] k1(2) by (auto simp: frames_taken_def)
  from Suc.IH [OF this] Suc.prems(3) fs obtain k' where
    "allocate_times n k1 = Some k'" "frames_taken k1 (drop n gs) k'" by auto
  then show ?case using k1 fs frames_taken_trans [OF k1(2)] by auto
qed

lemma allocate_up_to_times:
  assumes "unat N < 4294967295" "i \<le> unat N + 1"
  shows "allocate_up_to (of_nat i) N k = allocate_times (unat N + 1 - i) k"
  using assms(2)
proof (induction "unat N + 1 - i" arbitrary: i k)
  case 0
  then have i: "i = unat N + 1" by simp
  then have "unat (of_nat i :: u32) = unat N + 1" using assms(1) by (subst unat_of_nat_u32) simp_all
  then have "\<not> (of_nat i :: u32) \<le> N" by (simp add: word_le_nat_alt)
  then show ?case using i by (simp add: allocate_up_to.simps)
next
  case (Suc d)
  then have i: "i \<le> unat N" "d = unat N + 1 - Suc i" "unat N + 1 - i = Suc d" by simp_all
  then have "unat (of_nat i :: u32) = i" using assms(1) by (intro unat_of_nat_u32) simp
  then have le: "(of_nat i :: u32) \<le> N" using i(1) by (simp add: word_le_nat_alt)
  have s: "(of_nat i :: u32) + 1 = of_nat (Suc i)" by simp
  show ?case
    unfolding i(3) using Suc.hyps(1) [OF i(2)] i(1,2) le
    by (subst allocate_up_to.simps) (simp add: s case_prod_unfold del: of_nat_Suc cong: Option.bind_cong)
qed

lemma allocate_up_to_none:
  assumes "lock_held k" "free_frames k fs" "unat i + length fs \<le> unat N"
  shows "allocate_up_to i N k = None"
  using assms
proof (induction fs arbitrary: i k)
  case Nil
  then show ?case using allocate_frame_empty [OF Nil(1,2)] by (subst allocate_up_to.simps) (simp add: word_le_nat_alt)
next
  case (Cons f fs)
  from frames_taken_step [OF Cons.prems(1,2)] obtain k1 where k1: "allocate_frame k = Some (f, k1)" "frames_taken k fs k1" by blast
  have h: "lock_held k1" "free_frames k1 fs" using frames_taken_held [OF k1(2) Cons.prems(1)] k1(2) by (auto simp: frames_taken_def)
  have "unat i + 1 < 4294967296" using Cons.prems(3) unat_u32_bound [of N] by simp
  then have "unat (i + 1) = unat i + 1" using unat_add_u32 [of i 1] by simp
  then have "allocate_up_to (i + 1) N k1 = None" using Cons.IH [OF h] Cons.prems(3) by simp
  then show ?case using Cons.prems(3) k1(1) by (subst allocate_up_to.simps) (simp add: word_le_nat_alt)
qed

text \<open>Around the loops: the lock is taken and dropped.\<close>

lemma frames_taken_locked:
  assumes "lock_free k" "frames_taken (lock_taken k) fs k1"
  shows "release_mfllock k1 = Some (lock_dropped k k1)" "free_frames (lock_dropped k k1) fs" "lock_free (lock_dropped k k1)"
    "words (lock_dropped k k1) = words k" "envs (lock_dropped k k1) = envs k"
proof -
  have h: "mfllock k1 = mfllock (lock_taken k)" "kcpu k1 = kcpu (lock_taken k)"
    using frames_taken_held [OF assms(2) lock_taken_eq(2) [OF assms(1)]] by simp_all
  show "release_mfllock k1 = Some (lock_dropped k k1)" by (rule lock_dropped_eq [OF assms(1) h])
  show "free_frames (lock_dropped k k1) fs" using assms(2) by (simp add: frames_taken_def)
  show "lock_free (lock_dropped k k1)" by (rule lock_free_dropped [OF assms(1)])
  show "words (lock_dropped k k1) = words k" "envs (lock_dropped k k1) = envs k"
    using assms(2) by (auto simp: frames_taken_def lock_dropped_def lock_taken_def)
qed

lemma with_mfllock_free:
  assumes "lock_free k" "f (lock_taken k) = Some (r, k1)" "mfllock k1 = mfllock (lock_taken k)" "kcpu k1 = kcpu (lock_taken k)"
  shows "with_mfllock f k = Some (r, lock_dropped k k1)"
proof -
  let ?k = "k\<lparr>kcpu := peeked (kcpu k)\<rparr>"
  have p: "holding_mfllock k = Some (False, ?k)"
    using assms(1) by (simp add: holding_mfllock_def with_cpu_def lock_free_def holding_spinlock_eq)
  have l: "lock_free ?k" "lock_taken ?k = lock_taken k" "lock_dropped ?k k1 = lock_dropped k k1"
    using assms(1) by (simp_all add: lock_free_def lock_taken_def lock_dropped_def)
  have "release_mfllock k1 = Some (lock_dropped ?k k1)" by (rule lock_dropped_eq [OF l(1)]) (simp_all add: l assms)
  then show ?thesis using p lock_taken_eq(1) [OF l(1)] assms(2) l by (simp add: with_mfllock_def)
qed

lemma foreach_count:
  assumes "dseg frame_links t p xs NULL" "NULL \<notin> set xs" "\<forall>x \<in> set xs. isBuffered (t x) = 0"
  shows "LIST_FOREACH (\<lambda>(b, u, t) p. fi_next (t p))
     (\<lambda>p (b, u, t). if isBuffered (t p) \<noteq> 0 then Some (False, b + 1, u, t) else Some (False, b, u + 1, t))
     (first_or NULL xs) (b :: u32, u :: u32, t) = Some (NULL, b, u + of_nat (length xs), t)"
  using assms
proof (induction xs arbitrary: p u)
  case Nil
  then show ?case by (simp add: LIST_FOREACH.simps)
next
  case (Cons x xs)
  from Cons.prems have n: "fi_next (t x) = first_or NULL xs" "dseg frame_links t x xs NULL" by simp_all
  from Cons.IH [OF n(2)] Cons.prems(2,3) show ?case
    by (subst LIST_FOREACH.simps) (simp add: n(1) add.assoc)
qed

lemma free_frames_counted:
  assumes "lock_free k" "free_frames k fs"
  shows "sys_calculate_free_frames k = Some (of_nat (length fs), lock_dropped k (lock_taken k))"
proof -
  have d: "dll frame_links (frames k) (free_frame_list k) fs" "\<forall>x \<in> set fs. isBuffered (frames k x) = 0"
    using assms(2) by (simp_all add: free_frames_def)
  have f: "lh_first (free_frame_list k) = first_or NULL fs" "dseg frame_links (frames k) NULL fs NULL" "NULL \<notin> set fs"
    using d(1) by (simp_all add: dll_def)
  note c = foreach_count [OF f(2,3) d(2), where b = 0 and u = 0]
  have "calculate_available_frames k =
    Some (\<lparr>freeBuffered = 0, freeNotBuffered = of_nat (length fs), modified = lh_size (modified_frame_list (lock_taken k))\<rparr>, lock_dropped k (lock_taken k))"
    unfolding calculate_available_frames_def by (rule with_mfllock_free [OF assms(1)]) (simp_all add: f(1) c)
  then show ?thesis by (simp add: sys_calculate_free_frames_def)
qed

lemma small_list_size:
  assumes "free_frames k fs" "length fs < 2147483648"
  shows "nat (sint (lh_size (free_frame_list k))) = length fs" "unat (lh_size (free_frame_list k)) = length fs"
proof -
  have s: "lh_size (free_frame_list k) = of_nat (length fs)" using assms(1) by (simp add: free_frames_def dll_def)
  have u: "unat (of_nat (length fs) :: u32) = length fs" using assms(2) by (intro unat_of_nat_u32) simp
  have "(of_nat (length fs) :: u32) \<le> 0x7FFFFFFF" using u assms(2) by (simp add: word_le_nat_alt)
  then have "sint (of_nat (length fs) :: u32) = int (length fs)" using u by (simp add: sint_small uint_nat)
  then show "nat (sint (lh_size (free_frame_list k))) = length fs" "unat (lh_size (free_frame_list k)) = length fs"
    using s u by simp_all
qed

text \<open>C36: \<^verbatim>\<open>sys_clearFFL\<close> takes every frame: afterwards none is free, the next allocation panics, and
  page tables and processes are as before.\<close>

theorem sys_clearFFL_empties:
  assumes "lock_free k" "free_frames k fs" "length fs < 2147483648"
  shows "\<exists>k'. sys_clearFFL k = Some k' \<and> lock_free k' \<and> free_frames k' [] \<and> fst (the (sys_calculate_free_frames k')) = 0 \<and>
    allocate_frame k' = None \<and> words k' = words k \<and> envs k' = envs k"
proof -
  note l = lock_taken_eq [OF assms(1)]
  have f: "free_frames (lock_taken k) fs" using assms(2) by simp
  from allocate_times_ok [OF l(2) f order_refl] obtain k1 where
    k1: "allocate_times (length fs) (lock_taken k) = Some k1" "frames_taken (lock_taken k) [] k1" by auto
  note r = frames_taken_locked [OF assms(1) k1(2)]
  let ?k = "lock_dropped k k1"
  have "sys_clearFFL k = Some ?k"
    using small_list_size(1) [OF assms(2,3)] by (simp add: sys_clearFFL_def l(1) k1(1) r(1))
  moreover have "fst (the (sys_calculate_free_frames ?k)) = 0" using free_frames_counted [OF r(3,2)] by simp
  moreover have "allocate_frame ?k = None"
  proof -
    let ?p = "?k\<lparr>kcpu := peeked (kcpu ?k)\<rparr>"
    have p: "holding_mfllock ?k = Some (False, ?p)"
      using r(3) by (simp add: holding_mfllock_def with_cpu_def lock_free_def holding_spinlock_eq)
    have "lock_free ?p" "lock_taken ?p = lock_taken ?k" using r(3) by (simp_all add: lock_free_def lock_taken_def)
    then have "acquire_mfllock ?p = Some (lock_taken ?k)" using lock_taken_eq(1) by metis
    moreover have "lh_first (free_frame_list (lock_taken ?k)) = NULL" using r(2) by (simp add: free_frames_def dll_def)
    ultimately show ?thesis by (simp add: allocate_frame_def with_mfllock_def p)
  qed
  ultimately show ?thesis using r by blast
qed

section \<open>Making memory scarce\<close>

lemma unat_share:
  assumes "unat (T :: u32) \<le> 4294967195"
  shows "unat (T div 100 + (if T mod 100 > 0 then 1 else 0)) = (unat T + 99) div 100"
proof -
  have d: "unat (T div 100) = unat T div 100" "unat (T mod 100) = unat T mod 100" by (simp_all add: unat_div unat_mod)
  have m: "T mod 100 > 0 \<longleftrightarrow> unat T mod 100 > 0" using d(2) by (simp add: word_less_nat_alt)
  have "unat T div 100 + 1 < 4294967296" using assms by simp
  then have "unat (T div 100 + 1) = unat T div 100 + 1" using unat_add_u32 [of "T div 100" 1] d(1) by simp
  moreover have "(unat T + 99) div 100 = unat T div 100 + (if unat T mod 100 > 0 then 1 else 0)"
  proof (rule div_nat_eqI)
    note e = div_mult_mod_eq [of "unat T" 100] mod_less_divisor [of 100 "unat T"]
    show "100 * (unat T div 100 + (if unat T mod 100 > 0 then 1 else 0)) \<le> unat T + 99"
      and "unat T + 99 < 100 * Suc (unat T div 100 + (if unat T mod 100 > 0 then 1 else 0))"
      using e by (cases "unat T mod 100 = 0"; simp del: div_mult_mod_eq; linarith)+
  qed
  ultimately show ?thesis using d(1) m by (simp split: if_splits)
qed

definition frames_to_take :: "kern \<Rightarrow> nat" where
  "frames_to_take k = ((100 - unat (memory_scarce_threshold_percentage k)) * unat (number_of_frames k) + 99) div 100"

lemma scarce_memory_loop:
  assumes "lock_free k" "free_frames k fs" "unat (memory_scarce_threshold_percentage k) \<le> 100"
    and "100 * unat (number_of_frames k) \<le> 4294967195" "length fs \<le> unat (number_of_frames k)"
  shows "\<exists>N. scarce_memory k = do { k1 \<leftarrow> allocate_up_to 0 N (lock_taken k); release_mfllock k1 } \<and>
    unat N = (if unat (number_of_frames k) - length fs \<le> frames_to_take k
      then frames_to_take k - (unat (number_of_frames k) - length fs)
      else 4294967296 + frames_to_take k - (unat (number_of_frames k) - length fs))"
proof -
  let ?p = "memory_scarce_threshold_percentage k" let ?n = "number_of_frames k"
  let ?T = "(100 - ?p) * ?n"
  have "unat (100 - ?p) = 100 - unat ?p" using assms(3) by (simp add: unat_sub_u32)
  moreover have "(100 - unat ?p) * unat ?n \<le> 100 * unat ?n" by (rule mult_le_mono1) simp
  then have le: "(100 - unat ?p) * unat ?n \<le> 4294967195" using assms(4) by (rule le_trans)
  ultimately have T: "unat ?T = (100 - unat ?p) * unat ?n" by (simp add: unat_word_ariths)
  have t: "unat (?T div 100 + (if ?T mod 100 > 0 then 1 else 0)) = frames_to_take k"
    using unat_share [of ?T] T le by (simp add: frames_to_take_def)
  have "length fs < 2147483648" using assms(4,5) by simp
  note sz = small_list_size(2) [OF assms(2) this]
  have u: "unat (?n - lh_size (free_frame_list k)) = unat ?n - length fs" using assms(5) sz by (simp add: unat_sub_u32)
  have m: "memory_scarce_threshold_percentage (lock_taken k) = ?p" by (simp add: lock_taken_def)
  let ?N = "?T div 100 + (if ?T mod 100 > 0 then 1 else 0) - (?n - lh_size (free_frame_list k))"
  have "scarce_memory k = do { k1 \<leftarrow> allocate_up_to 0 ?N (lock_taken k); release_mfllock k1 }"
    by (simp add: scarce_memory_def Let_def lock_taken_eq(1) [OF assms(1)])
  moreover have "unat ?N = (if unat ?n - length fs \<le> frames_to_take k then frames_to_take k - (unat ?n - length fs)
      else 4294967296 + frames_to_take k - (unat ?n - length fs))"
    by (subst unat_sub_u32) (simp only: u t)
  ultimately show ?thesis by blast
qed

text \<open>C34: \<^verbatim>\<open>scarce_memory\<close> is to leave the given percentage of the frames free. When more are free it takes
  one frame more than that, because its loop includes its bound; when the memory is scarce already,
  or there is no frame for the last round, it panics.\<close>

theorem scarce_memory_one_too_many:
  assumes "lock_free k" "free_frames k fs" "unat (memory_scarce_threshold_percentage k) \<le> 100"
    and "100 * unat (number_of_frames k) \<le> 4294967195" "used + length fs = unat (number_of_frames k)"
  shows "(used \<le> frames_to_take k \<and> frames_to_take k < unat (number_of_frames k) \<longrightarrow>
      (\<exists>k'. scarce_memory k = Some k' \<and> free_frames k' (drop (frames_to_take k - used + 1) fs) \<and> words k' = words k \<and> envs k' = envs k)) \<and>
    (\<not> (used \<le> frames_to_take k \<and> frames_to_take k < unat (number_of_frames k)) \<longrightarrow> scarce_memory k = None)"
proof -
  have "length fs \<le> unat (number_of_frames k)" "unat (number_of_frames k) - length fs = used" using assms(5) by simp_all
  with scarce_memory_loop [OF assms(1-4)] obtain N where
    e: "scarce_memory k = do { k1 \<leftarrow> allocate_up_to 0 N (lock_taken k); release_mfllock k1 }" and
    N: "unat N = (if used \<le> frames_to_take k then frames_to_take k - used else 4294967296 + frames_to_take k - used)" by auto
  have l: "lock_held (lock_taken k)" "free_frames (lock_taken k) fs" using lock_taken_eq(2) assms(1,2) by simp_all
  show ?thesis
  proof (intro conjI impI)
    assume a: "used \<le> frames_to_take k \<and> frames_to_take k < unat (number_of_frames k)"
    then have n: "unat N = frames_to_take k - used" using N by simp
    have n2: "unat N + 1 \<le> length fs" using a n assms(5) by linarith
    have "unat N < 4294967295" using n2 assms(4,5) by linarith
    from allocate_up_to_times [OF this, of 0] have "allocate_up_to 0 N (lock_taken k) = allocate_times (unat N + 1) (lock_taken k)" by simp
    with allocate_times_ok [OF l n2] obtain k1 where
      k1: "allocate_up_to 0 N (lock_taken k) = Some k1" "frames_taken (lock_taken k) (drop (unat N + 1) fs) k1" by auto
    note r = frames_taken_locked [OF assms(1) k1(2)]
    show "\<exists>k'. scarce_memory k = Some k' \<and> free_frames k' (drop (frames_to_take k - used + 1) fs) \<and> words k' = words k \<and> envs k' = envs k"
      using e k1(1) r n by auto
  next
    assume a: "\<not> (used \<le> frames_to_take k \<and> frames_to_take k < unat (number_of_frames k))"
    have "length fs \<le> unat N" using a N assms(4,5) by (auto split: if_splits)
    then have "allocate_up_to 0 N (lock_taken k) = None" by (intro allocate_up_to_none [OF l]) simp
    then show "scarce_memory k = None" using e by simp
  qed
qed

section \<open>A frame that is lost\<close>

text \<open>C38: \<^verbatim>\<open>__sys_allocate_page\<close> takes a frame before it checks its arguments: a call with an address that is
  not in user space or not aligned, or with wrong permissions, fails with \<^verbatim>\<open>E_INVAL\<close>, maps nothing, and
  the frame it took is no longer free.\<close>

theorem sys_allocate_page_invalid_loses_frame:
  assumes "lock_free k" "free_frames k (f # fs)"
    and "va \<ge> USER_TOP \<or> va mod PAGE_SIZE \<noteq> 0 \<or> perm AND (NOT PERM_AVAILABLE AND NOT PERM_WRITEABLE) \<noteq> PERM_USER"
  shows "\<exists>k'. sys_allocate_page va perm k = Some (E_INVAL, k') \<and> free_frames k' fs \<and> references (frames k' f) = 0 \<and>
    words k' = words k \<and> envs k' = envs k \<and> lock_free k'"
proof -
  let ?p = "k\<lparr>kcpu := peeked (kcpu k)\<rparr>"
  have p: "holding_mfllock k = Some (False, ?p)"
    using assms(1) by (simp add: holding_mfllock_def with_cpu_def lock_free_def holding_spinlock_eq)
  have l: "lock_free ?p" "lock_taken ?p = lock_taken k" using assms(1) by (simp_all add: lock_free_def lock_taken_def)
  have h: "lock_held (lock_taken k)" "free_frames (lock_taken k) (f # fs)" using lock_taken_eq(2) assms(1,2) by simp_all
  from allocate_frame_held [OF h] obtain t g where
    a: "allocate_frame (lock_taken k) = Some (f, (lock_taken k)\<lparr>frames := t, free_frame_list := g\<rparr>)" "t f = zero_frame"
      "free_frames ((lock_taken k)\<lparr>frames := t, free_frame_list := g\<rparr>) fs" by blast
  let ?k1 = "(lock_taken k)\<lparr>frames := t, free_frame_list := g\<rparr>"
  have ft: "frames_taken (lock_taken ?p) fs ?k1" using a(3) l(2) by (auto simp: frames_taken_def)
  note r = frames_taken_locked [OF l(1) ft]
  have "allocate_frame k = Some (f, lock_dropped ?p ?k1)"
    using a(1) p lock_taken_eq(1) [OF l(1)] l(2) r(1) unfolding allocate_frame_def with_mfllock_held [OF h(1)]
    by (simp add: with_mfllock_def)
  then have "sys_allocate_page va perm k = Some (E_INVAL, lock_dropped ?p ?k1)"
    using assms(3) by (auto simp: sys_allocate_page_def)
  moreover have "references (frames (lock_dropped ?p ?k1) f) = 0" using a(2) by (simp add: zero_frame_def)
  ultimately show ?thesis using r by auto
qed

section \<open>With four free frames\<close>

theorem sys_clearFFL_empties_witness: "\<exists>k'. sys_clearFFL boot_kern = Some k' \<and> free_frames k' []"
  using sys_clearFFL_empties [OF boot_lock_free boot_free_frames] by (auto simp: boot_free_def)

text \<open>Half of six frames are to stay free, and two do.\<close>

definition boot_scarce :: kern where
  "boot_scarce = boot_kern\<lparr>number_of_frames := 6, memory_scarce_threshold_percentage := 50\<rparr>"

lemma boot_scarce_simps:
  "lock_free boot_scarce" "free_frames boot_scarce boot_free" "frames_to_take boot_scarce = 3" "number_of_frames boot_scarce = 6"
  "memory_scarce_threshold_percentage boot_scarce = 50"
  using boot_lock_free boot_free_frames by (simp_all add: boot_scarce_def lock_free_def free_frames_def frames_to_take_def)

theorem scarce_memory_one_too_many_witness:
  "\<exists>k'. scarce_memory boot_scarce = Some k' \<and> free_frames k' [0xF0510040, 0xF0510060]"
proof -
  note b = boot_scarce_simps
  have u: "2 + length boot_free = unat (number_of_frames boot_scarce)" by (simp add: b boot_free_def)
  have p: "unat (memory_scarce_threshold_percentage boot_scarce) \<le> 100" "100 * unat (number_of_frames boot_scarce) \<le> 4294967195"
    by (simp_all add: b)
  from scarce_memory_one_too_many [OF b(1,2) p u] show ?thesis by (auto simp: b boot_free_def)
qed

theorem sys_allocate_page_invalid_loses_frame_witness:
  "\<exists>k'. sys_allocate_page 1 PERM_USER boot_kern = Some (E_INVAL, k') \<and> free_frames k' [0xF0510020, 0xF0510040, 0xF0510060]"
proof -
  have "(1 :: u32) mod PAGE_SIZE \<noteq> 0" by simp
  with sys_allocate_page_invalid_loses_frame [OF boot_lock_free boot_free_frames [unfolded boot_free_def], of 1 PERM_USER]
  show ?thesis by blast
qed

end
