(* ===== verification/FOS_LockProps.thy ===== *)
theory FOS_LockProps
  imports FOS_Locks FOS_SchedProps
begin

text \<open>
  What each half of the sleep-lock routines does from the state it starts in: the guard held with
  interrupts off (\<open>guarded\<close>), a process running without locks (\<open>in_process\<close>), or the
  queue lock held on the way into the scheduler (\<open>in_sched\<close>).
\<close>

section \<open>Depths of interrupt disabling\<close>

lemma cpu_ok_depth: "cpu_ok c \<Longrightarrow> ncli c \<noteq> 0 \<Longrightarrow> n < 0x7FFFFFFF \<Longrightarrow> cpu_ok (c\<lparr>ncli := n\<rparr>)"
  by (simp add: cpu_ok_def)

lemma pushcli_first:
  assumes "cpu_ok c" "ncli c = 0"
  shows "cpu_ok (pushcli c)" "ncli (pushcli c) = 1" "cpu_proc (pushcli c) = cpu_proc c" "eflags (pushcli c) AND FL_IF = 0"
  using assms pushcli_inside [OF assms(1)]
  by (auto simp: cpu_ok_alt pushcli_def cli_def Let_def FL_IF_test FL_IF_update)

section \<open>The guard\<close>

definition guarded :: "ptr \<Rightarrow> kern \<Rightarrow> bool" where
  "guarded lk k \<longleftrightarrow> held (spinlocks k lk) \<and> lk_locked (qlock k) = 0 \<and> cpu_ok (kcpu k) \<and> ncli (kcpu k) = 1"

text \<open>What the lock routines never change.\<close>

definition same_world :: "kern \<Rightarrow> kern \<Rightarrow> bool" where
  "same_world k' k \<longleftrightarrow> scheduler_method k' = scheduler_method k \<and> quantums k' = quantums k \<and>
     PageRepAlgoType k' = PageRepAlgoType k \<and> cpu_proc (kcpu k') = cpu_proc (kcpu k) \<and>
     (\<forall>x. env_id (envs k' x) = env_id (envs k x) \<and> has_space k' x = has_space k x)"

lemma same_world_refl [simp]: "same_world k k"
  by (simp add: same_world_def)

lemma same_world_trans: "same_world k2 k1 \<Longrightarrow> same_world k1 k \<Longrightarrow> same_world k2 k"
  by (simp add: same_world_def)

lemma same_world_updates [simp]:
  "same_world (k\<lparr>spinlocks := ls\<rparr>) k" "same_world (k\<lparr>sleep_locked := sl\<rparr>) k" "same_world (k\<lparr>sleep_pid := sp\<rparr>) k"
  "same_world (k\<lparr>qlock := l\<rparr>) k" "cpu_proc c = cpu_proc (kcpu k) \<Longrightarrow> same_world (k\<lparr>kcpu := c\<rparr>) k"
  "same_world (set_env_status e s k) k"
  by (simp_all add: same_world_def has_space_def)

lemma same_world_unqueued: "unqueued k' = unqueued k \<Longrightarrow> same_world k' k"
  using unqueued_eqD [of k' k] unqueued_envD [of k' k] by (simp add: same_world_def has_space_def)

definition with_guard :: "ptr \<Rightarrow> kern \<Rightarrow> kern" where
  "with_guard lk k = k\<lparr>spinlocks := (spinlocks k)(lk := (spinlocks k lk)\<lparr>lk_locked := 1, lk_cpu := Some 0\<rparr>), kcpu := pushcli (kcpu k)\<rparr>"

lemma acquire_guard:
  assumes "in_process k" "lk_locked (spinlocks k lk) = 0"
  shows "acquire_lock lk k = Some (with_guard lk k)" "guarded lk (with_guard lk k)"
  using assms pushcli_first [of "kcpu k"]
  by (simp_all add: acquire_lock_def in_process_def acquire_spinlock_eq with_guard_def guarded_def)

lemma with_guard_simps [simp]:
  "envs (with_guard lk k) = envs k" "head_of (with_guard lk k) q = head_of k q" "sleep_locked (with_guard lk k) = sleep_locked k"
  "sleep_pid (with_guard lk k) = sleep_pid k" "cpu_proc (kcpu (with_guard lk k)) = cpu_proc (kcpu k)"
  "queues_ok (with_guard lk k) qs = queues_ok k qs" "same_world (with_guard lk k) k"
proof -
  show h: "head_of (with_guard lk k) q = head_of k q" for q by (cases q) (simp_all add: with_guard_def)
  show e: "envs (with_guard lk k) = envs k" "cpu_proc (kcpu (with_guard lk k)) = cpu_proc (kcpu k)"
    "sleep_locked (with_guard lk k) = sleep_locked k" "sleep_pid (with_guard lk k) = sleep_pid k"
    by (simp_all add: with_guard_def pushcli_def cli_def Let_def)
  show "queues_ok (with_guard lk k) qs = queues_ok k qs" by (simp add: queues_ok_def h e)
  show "same_world (with_guard lk k) k"
    by (simp add: same_world_def has_space_def with_guard_def pushcli_def cli_def Let_def)
qed

definition without_guard :: "ptr \<Rightarrow> kern \<Rightarrow> kern" where
  "without_guard lk k = k\<lparr>spinlocks := (spinlocks k)(lk := (spinlocks k lk)\<lparr>lk_cpu := None, lk_locked := 0\<rparr>),
     kcpu := (let c1 = (kcpu k)\<lparr>ncli := 0\<rparr> in if intena (kcpu k) \<noteq> 0 then sti c1 else c1)\<rparr>"

lemma release_guard:
  assumes "guarded lk k"
  shows "release_lock lk k = Some (without_guard lk k)" "in_process (without_guard lk k)"
proof -
  show "release_lock lk k = Some (without_guard lk k)"
    using assms
    by (simp add: release_lock_def release_spinlock_def guarded_def holding_spinlock_eq popcli_last Let_def without_guard_def)
  show "in_process (without_guard lk k)"
    using assms by (auto simp: in_process_def without_guard_def guarded_def Let_def cpu_ok_def sti_def)
qed

lemma without_guard_simps [simp]:
  "envs (without_guard lk k) = envs k" "head_of (without_guard lk k) q = head_of k q" "sleep_locked (without_guard lk k) = sleep_locked k"
  "sleep_pid (without_guard lk k) = sleep_pid k" "cpu_proc (kcpu (without_guard lk k)) = cpu_proc (kcpu k)"
  "queues_ok (without_guard lk k) qs = queues_ok k qs" "same_world (without_guard lk k) k"
  "lk_locked (spinlocks (without_guard lk k) lk) = 0"
proof -
  show h: "head_of (without_guard lk k) q = head_of k q" for q by (cases q) (simp_all add: without_guard_def)
  show e: "envs (without_guard lk k) = envs k" "cpu_proc (kcpu (without_guard lk k)) = cpu_proc (kcpu k)"
    "sleep_locked (without_guard lk k) = sleep_locked k" "sleep_pid (without_guard lk k) = sleep_pid k"
    "lk_locked (spinlocks (without_guard lk k) lk) = 0"
    by (simp_all add: without_guard_def sti_def Let_def)
  show "queues_ok (without_guard lk k) qs = queues_ok k qs" by (simp add: queues_ok_def h e)
  show "same_world (without_guard lk k) k"
    by (simp add: same_world_def has_space_def without_guard_def sti_def Let_def)
qed

lemma cur_proc_deep: "cpu_ok (kcpu k) \<Longrightarrow> ncli (kcpu k) \<noteq> 0 \<Longrightarrow> cur_proc k = Some (cpu_proc (kcpu k), k)"
  by (simp add: cur_proc_def with_cpu_def get_cpu_proc_eq)

lemma cur_proc_guarded: "guarded lk k \<Longrightarrow> cur_proc k = Some (cpu_proc (kcpu k), k)"
  by (intro cur_proc_deep) (simp_all add: guarded_def)

section \<open>Looking, taking, sleeping\<close>

lemma holding_sleeplock_ok:
  assumes "in_process k" "lk_locked (spinlocks k lk) = 0" "cpu_proc (kcpu k) \<noteq> NULL"
  shows "holding_sleeplock lk k =
      Some (sleep_locked k lk \<noteq> 0 \<and> sleep_pid k lk = env_id (envs k (cpu_proc (kcpu k))), without_guard lk (with_guard lk k))"
    "in_process (without_guard lk (with_guard lk k))"
proof -
  note a = acquire_guard [OF assms(1,2)]
  note r = release_guard [OF a(2)]
  show "holding_sleeplock lk k =
      Some (sleep_locked k lk \<noteq> 0 \<and> sleep_pid k lk = env_id (envs k (cpu_proc (kcpu k))), without_guard lk (with_guard lk k))"
    using assms(3) by (simp add: holding_sleeplock_def a(1) r(1) cur_proc_guarded [OF a(2)])
  show "in_process (without_guard lk (with_guard lk k))" by (rule r(2))
qed

definition taken :: "ptr \<Rightarrow> kern \<Rightarrow> kern" where
  "taken lk k = k\<lparr>sleep_locked := (sleep_locked k)(lk := 1), sleep_pid := (sleep_pid k)(lk := env_id (envs k (cpu_proc (kcpu k))))\<rparr>"

lemma taken_simps [simp]:
  "envs (taken lk k) = envs k" "head_of (taken lk k) q = head_of k q" "sleep_locked (taken lk k) = (sleep_locked k)(lk := 1)"
  "sleep_pid (taken lk k) lk = env_id (envs k (cpu_proc (kcpu k)))" "cpu_proc (kcpu (taken lk k)) = cpu_proc (kcpu k)"
  "queues_ok (taken lk k) qs = queues_ok k qs" "same_world (taken lk k) k" "guarded lk (taken lk k) = guarded lk k"
proof -
  show h: "head_of (taken lk k) q = head_of k q" for q by (cases q) (simp_all add: taken_def)
qed (simp_all add: taken_def same_world_def has_space_def guarded_def)

lemma take_sleeplock_ok:
  assumes "guarded lk k" "cpu_proc (kcpu k) \<noteq> NULL"
  shows "take_sleeplock lk k = Some (without_guard lk (taken lk k))" "in_process (without_guard lk (taken lk k))"
proof -
  have g: "guarded lk (taken lk k)" using assms(1) by simp
  have "guarded lk (k\<lparr>sleep_locked := (sleep_locked k)(lk := 1)\<rparr>)" using assms(1) by (simp add: guarded_def)
  from cur_proc_guarded [OF this] show "take_sleeplock lk k = Some (without_guard lk (taken lk k))"
    using release_guard(1) [OF g] assms(2) by (simp add: take_sleeplock_def taken_def Let_def)
  show "in_process (without_guard lk (taken lk k))" by (rule release_guard(2) [OF g])
qed

section \<open>The queue lock inside the guard\<close>

definition with_both :: "kern \<Rightarrow> kern" where
  "with_both k = k\<lparr>qlock := (qlock k)\<lparr>lk_locked := 1, lk_cpu := Some 0\<rparr>, kcpu := (kcpu k)\<lparr>ncli := 2\<rparr>\<rparr>"

definition both_held :: "ptr \<Rightarrow> kern \<Rightarrow> bool" where
  "both_held lk k \<longleftrightarrow> held (spinlocks k lk) \<and> held (qlock k) \<and> cpu_ok (kcpu k) \<and> ncli (kcpu k) = 2"

lemma acquire_qlock_guarded:
  assumes "guarded lk k"
  shows "acquire_qlock k = Some (with_both k)" "both_held lk (with_both k)"
  using assms pushcli_deeper [of "kcpu k"]
  by (simp_all add: acquire_qlock_def guarded_def acquire_spinlock_eq with_both_def both_held_def cpu_ok_depth)

lemma with_both_simps [simp]:
  "envs (with_both k) = envs k" "head_of (with_both k) q = head_of k q" "sleep_locked (with_both k) = sleep_locked k"
  "sleep_pid (with_both k) = sleep_pid k" "cpu_proc (kcpu (with_both k)) = cpu_proc (kcpu k)" "spinlocks (with_both k) = spinlocks k"
  "queues_ok (with_both k) qs = queues_ok k qs" "same_world (with_both k) k" "channels (with_both k) = channels k"
proof -
  show h: "head_of (with_both k) q = head_of k q" for q by (cases q) (simp_all add: with_both_def)
  show e: "envs (with_both k) = envs k" "cpu_proc (kcpu (with_both k)) = cpu_proc (kcpu k)" "channels (with_both k) = channels k"
    "sleep_locked (with_both k) = sleep_locked k" "sleep_pid (with_both k) = sleep_pid k" "spinlocks (with_both k) = spinlocks k"
    by (simp_all add: with_both_def)
  show "queues_ok (with_both k) qs = queues_ok k qs" by (simp add: queues_ok_def h e)
  show "same_world (with_both k) k" by (simp add: same_world_def has_space_def with_both_def)
qed

lemma both_held_unqueued: "unqueued k' = unqueued k \<Longrightarrow> both_held lk k' = both_held lk k"
  by (simp add: both_held_def unqueued_eqD [of k' k])

lemma both_held_status [simp]: "both_held lk (set_env_status e s k) = both_held lk k"
  by (simp add: both_held_def)

lemma both_held_look:
  assumes "both_held lk k"
  shows "cur_proc k = Some (cpu_proc (kcpu k), k)" "check_qlock k = Some k"
  using assms cur_proc_deep [of k]
  by (simp_all add: both_held_def check_qlock_def holding_qlock_def with_cpu_def holding_spinlock_eq)

text \<open>Giving up the guard first, or the queue lock first.\<close>

definition inner_guard_freed :: "ptr \<Rightarrow> kern \<Rightarrow> kern" where
  "inner_guard_freed lk k = k\<lparr>spinlocks := (spinlocks k)(lk := (spinlocks k lk)\<lparr>lk_cpu := None, lk_locked := 0\<rparr>), kcpu := (kcpu k)\<lparr>ncli := 1\<rparr>\<rparr>"

definition inner_qlock_freed :: "kern \<Rightarrow> kern" where
  "inner_qlock_freed k = k\<lparr>qlock := (qlock k)\<lparr>lk_cpu := None, lk_locked := 0\<rparr>, kcpu := (kcpu k)\<lparr>ncli := 1\<rparr>\<rparr>"

lemma release_inner:
  assumes "both_held lk k"
  shows "release_lock lk k = Some (inner_guard_freed lk k)" "in_sched (inner_guard_freed lk k)"
    "release_qlock k = Some (inner_qlock_freed k)" "guarded lk (inner_qlock_freed k)"
  using assms popcli_outer [of "kcpu k"]
  by (simp_all add: both_held_def release_lock_def release_qlock_def release_spinlock_def holding_spinlock_eq Let_def
      inner_guard_freed_def inner_qlock_freed_def in_sched_def guarded_def cpu_ok_depth)

lemma inner_freed_simps [simp]:
  "envs (inner_guard_freed lk k) = envs k" "envs (inner_qlock_freed k) = envs k"
  "queues_ok (inner_guard_freed lk k) qs = queues_ok k qs" "queues_ok (inner_qlock_freed k) qs = queues_ok k qs"
  "same_world (inner_guard_freed lk k) k" "same_world (inner_qlock_freed k) k"
  "sleep_locked (inner_guard_freed lk k) = sleep_locked k" "sleep_locked (inner_qlock_freed k) = sleep_locked k"
  "sleep_pid (inner_guard_freed lk k) = sleep_pid k" "sleep_pid (inner_qlock_freed k) = sleep_pid k"
  "cpu_proc (kcpu (inner_guard_freed lk k)) = cpu_proc (kcpu k)" "cpu_proc (kcpu (inner_qlock_freed k)) = cpu_proc (kcpu k)"
  "intena (kcpu (inner_guard_freed lk k)) = intena (kcpu k)" "lk_locked (spinlocks (inner_guard_freed lk k) lk) = 0"
proof -
  have h: "head_of (inner_guard_freed lk k) q = head_of k q" "head_of (inner_qlock_freed k) q = head_of k q" for q
    by (cases q; simp add: inner_guard_freed_def inner_qlock_freed_def)+
  show e: "envs (inner_guard_freed lk k) = envs k" "envs (inner_qlock_freed k) = envs k"
    by (simp_all add: inner_guard_freed_def inner_qlock_freed_def)
  show "queues_ok (inner_guard_freed lk k) qs = queues_ok k qs" "queues_ok (inner_qlock_freed k) qs = queues_ok k qs"
    by (simp_all add: queues_ok_def h e)
qed (simp_all add: same_world_def has_space_def inner_guard_freed_def inner_qlock_freed_def)

section \<open>Sleeping and waking\<close>

lemma on_channel_eq: "on_channel c f k = on_queue (Chan c) f k"
  by (simp add: on_channel_def on_queue_def)

lemma unqueued_sleep: "unqueued k' = unqueued k \<Longrightarrow> sleep_locked k' = sleep_locked k \<and> sleep_pid k' = sleep_pid k \<and> kcpu k' = kcpu k"
  by (simp add: unqueued_eqD [of k' k])

lemma sleep_ok:
  assumes g: "guarded lk k" and q: "queues_ok k qs" "qs (Chan chan) = Some ws" and p: "cpu_proc (kcpu k) = p" "p \<noteq> NULL" "p \<notin> queued qs"
  shows "\<exists>saved k'. sleep chan lk k = Some (saved, k') \<and> (saved = 0 \<or> saved = FL_IF) \<and> in_sched k' \<and> lk_locked (spinlocks k' lk) = 0 \<and>
    queues_ok k' (qs(Chan chan \<mapsto> p # ws)) \<and> same_world k' k \<and> sleep_locked k' = sleep_locked k \<and> sleep_pid k' = sleep_pid k \<and>
    (\<forall>x. env_status (envs k' x) = (if x = p then ENV_BLOCKED else env_status (envs k x)))"
proof -
  note a = acquire_qlock_guarded [OF g]
  have "queues_ok (with_both k) qs" using q(1) by simp
  from enqueue_ok [OF this q(2) p(2,3)] obtain k1 where
    k1: "on_queue (Chan chan) (\<lambda>h. enqueue (Some h) p) (with_both k) = Some k1" "queues_ok k1 (qs(Chan chan \<mapsto> p # ws))"
      "unqueued k1 = unqueued (with_both k)" by (auto simp: returns_iff)
  have b: "both_held lk k1" using both_held_unqueued [OF k1(3)] a(2) by simp
  note r = release_inner(1,2) [OF b]
  define k2 where "k2 = set_env_status p ENV_BLOCKED (inner_guard_freed lk k1)"
  have w: "same_world k2 k"
    unfolding k2_def
    by (rule same_world_trans [OF same_world_updates(6) same_world_trans [OF inner_freed_simps(5) same_world_trans [OF same_world_unqueued [OF k1(3)]]]]) simp
  have u: "sleep_locked k1 = sleep_locked k" "sleep_pid k1 = sleep_pid k" "kcpu k1 = kcpu (with_both k)"
    using unqueued_sleep [OF k1(3)] by simp_all
  have s: "in_sched k2" "cpu_proc (kcpu k2) = p" "env_status (envs k2 p) = ENV_BLOCKED"
    using r(2) u(3) p(1) by (simp_all add: k2_def)
  have st: "env_status (envs k2 x) = (if x = p then ENV_BLOCKED else env_status (envs k x))" for x
    using unqueued_envD(1) [OF k1(3), of x] by (simp add: k2_def)
  have "sched_enter k2 = Some (intena (kcpu k2), k2)" using sched_enter_held [OF s(1)] s(2,3) p(2) by simp
  then have "sleep chan lk k = Some (intena (kcpu k2), k2)"
    using a(1) k1(1) r(1) p(1) both_held_look(1) [OF a(2)] by (simp add: sleep_def on_channel_eq k2_def)
  moreover have "intena (kcpu k2) = 0 \<or> intena (kcpu k2) = FL_IF" using s(1) by (auto simp: in_sched_def cpu_ok_def)
  moreover have "lk_locked (spinlocks k2 lk) = 0" "sleep_locked k2 = sleep_locked k" "sleep_pid k2 = sleep_pid k"
    "queues_ok k2 (qs(Chan chan \<mapsto> p # ws))"
    using u k1(2) by (simp_all add: k2_def)
  ultimately show ?thesis using s(1) w st by blast
qed

lemma dll_length: "dll ops s h xs \<Longrightarrow> length xs < 4294967296"
proof -
  assume "dll ops s h xs"
  then have d: "distinct xs" "NULL \<notin> set xs" by (simp_all add: dll_def)
  have "length xs = card (set xs)" using d(1) by (simp add: distinct_card)
  also have "\<dots> < card (UNIV :: ptr set)" using d(2) by (intro psubset_card_mono) auto
  also have "\<dots> = 4294967296" by (simp add: card_word)
  finally show ?thesis .
qed

lemma queue_size_zero: "queues_ok k qs \<Longrightarrow> qs q = Some xs \<Longrightarrow> queue_size (Some (head_of k q)) = 0 \<longleftrightarrow> xs = []"
proof -
  assume "queues_ok k qs" "qs q = Some xs"
  then have d: "dll env_links (envs k) (head_of k q) xs" unfolding queues_ok_def by blast
  then have "lh_size (head_of k q) = of_nat (length xs)" by (simp add: dll_def)
  moreover have "(of_nat (length xs) :: u32) = 0 \<longleftrightarrow> xs = []"
    using dll_length [OF d] by (simp add: word_unat_eq_iff unat_of_nat)
  ultimately show ?thesis by (simp add: queue_size_def)
qed

lemma wakeup_all_loop_ok:
  assumes "both_held lk k" "queues_ok k qs" "qs (Chan lk) = Some ws" "qs (Ready 0) = Some rs"
  shows "returns (wakeup_all_loop lk k) (\<lambda>k'. both_held lk k' \<and> queues_ok k' (qs(Chan lk \<mapsto> [], Ready 0 \<mapsto> ws @ rs)) \<and>
    same_world k' k \<and> sleep_locked k' = sleep_locked k \<and> sleep_pid k' = sleep_pid k \<and>
    (\<forall>x. env_status (envs k' x) = (if x \<in> set ws then ENV_READY else env_status (envs k x))))"
  using assms
proof (induction ws arbitrary: k qs rs rule: rev_induct)
  case Nil
  then have "queue_size (Some (channels k lk)) = 0" using queue_size_zero [of k qs "Chan lk" "[]"] by simp
  then show ?case using Nil by (subst wakeup_all_loop.simps) (simp add: fun_upd_idem)
next
  case (snoc e ws)
  have n: "queue_size (Some (channels k lk)) \<noteq> 0" using queue_size_zero [OF snoc.prems(2,3)] by simp
  from dequeue_last [OF snoc.prems(2,3)] obtain h t where
    h: "dequeue (Some (channels k lk)) (envs k) = Some (e, Some h, t)" "e \<noteq> NULL"
      "queues_ok (k\<lparr>channels := (channels k)(lk := h), envs := t\<rparr>) (qs(Chan lk \<mapsto> ws))"
      "unqueued (k\<lparr>channels := (channels k)(lk := h), envs := t\<rparr>) = unqueued k"
    by auto
  define k1 where "k1 = k\<lparr>channels := (channels k)(lk := h), envs := t\<rparr>"
  note h = h [folded k1_def]
  define k2 where "k2 = set_env_status e ENV_READY (set_env_status e ENV_READY k1)"
  have "dll env_links (envs k) (head_of k (Chan lk)) (ws @ [e])" using snoc.prems(2,3) unfolding queues_ok_def by blast
  then have d: "e \<notin> set ws" by (simp add: dll_def)
  have el: "e \<notin> queued (qs(Chan lk := None))" using not_queued_elsewhere [OF snoc.prems(2,3)] by simp
  have en: "e \<notin> queued (qs(Chan lk \<mapsto> ws))" using el d by (auto simp: queued_iff split: if_splits)
  have b1: "both_held lk k1" using both_held_unqueued [OF h(4)] snoc.prems(1) by simp
  have q2: "queues_ok k2 (qs(Chan lk \<mapsto> ws))" using h(3) by (simp add: k2_def)
  have r0: "(qs(Chan lk \<mapsto> ws)) (Ready 0) = Some rs" using snoc.prems(4) by simp
  from enqueue_ok [OF q2 r0 h(2) en] obtain k3 where
    k3: "on_queue (Ready 0) (\<lambda>h. enqueue (Some h) e) k2 = Some k3" "queues_ok k3 (qs(Chan lk \<mapsto> ws, Ready 0 \<mapsto> e # rs))"
      "unqueued k3 = unqueued k2" by (auto simp: returns_iff)
  have ins: "sched_insert_ready0 e (set_env_status e ENV_READY k1) = Some k3"
    using k3(1) h(2) both_held_look(2) [of lk "set_env_status e ENV_READY k1"] b1
    by (simp add: sched_insert_ready0_def on_queue_eqs k2_def)
  have b3: "both_held lk k3" using both_held_unqueued [OF k3(3)] b1 by (simp add: k2_def)
  have w3: "same_world k3 k"
    by (rule same_world_trans [OF same_world_unqueued [OF k3(3)]], unfold k2_def,
        rule same_world_trans [OF same_world_updates(6)], rule same_world_trans [OF same_world_updates(6)],
        rule same_world_unqueued [OF h(4)])
  have u3: "sleep_locked k3 = sleep_locked k" "sleep_pid k3 = sleep_pid k"
    using unqueued_sleep [OF k3(3)] unqueued_sleep [OF h(4)] by (simp_all add: k2_def)
  have st3: "env_status (envs k3 x) = (if x = e then ENV_READY else env_status (envs k x))" for x
    using unqueued_envD(1) [OF k3(3), of x] unqueued_envD(1) [OF h(4), of x] by (simp add: k2_def)
  have q3: "(qs(Chan lk \<mapsto> ws, Ready 0 \<mapsto> e # rs)) (Chan lk) = Some ws" "(qs(Chan lk \<mapsto> ws, Ready 0 \<mapsto> e # rs)) (Ready 0) = Some (e # rs)"
    by simp_all
  have eq: "qs(Chan lk \<mapsto> ws, Ready 0 \<mapsto> e # rs, Chan lk \<mapsto> [], Ready 0 \<mapsto> ws @ e # rs) = qs(Chan lk \<mapsto> [], Ready 0 \<mapsto> (ws @ [e]) @ rs)"
    by (auto simp: fun_eq_iff)
  have step: "wakeup_all_loop lk k = wakeup_all_loop lk k3"
    using n h(1) ins by (subst wakeup_all_loop.simps) (simp add: k1_def)
  show ?case
    unfolding step using snoc.IH [OF b3 k3(2) q3] unfolding eq
    by (rule returns_mono) (use w3 u3 st3 same_world_trans in \<open>auto simp del: fun_upd_apply\<close>)
qed

lemma wakeup_all_ok:
  assumes "guarded lk k" "queues_ok k qs" "qs (Chan lk) = Some ws" "qs (Ready 0) = Some rs"
  shows "returns (wakeup_all lk k) (\<lambda>k'. guarded lk k' \<and> queues_ok k' (qs(Chan lk \<mapsto> [], Ready 0 \<mapsto> ws @ rs)) \<and>
    same_world k' k \<and> sleep_locked k' = sleep_locked k \<and> sleep_pid k' = sleep_pid k \<and>
    (\<forall>x. env_status (envs k' x) = (if x \<in> set ws then ENV_READY else env_status (envs k x))))"
proof -
  note a = acquire_qlock_guarded [OF assms(1)]
  have "queues_ok (with_both k) qs" using assms(2) by simp
  from wakeup_all_loop_ok [OF a(2) this assms(3,4)] obtain k1 where
    k1: "wakeup_all_loop lk (with_both k) = Some k1" "both_held lk k1" "queues_ok k1 (qs(Chan lk \<mapsto> [], Ready 0 \<mapsto> ws @ rs))"
      "same_world k1 (with_both k)" "sleep_locked k1 = sleep_locked k" "sleep_pid k1 = sleep_pid k"
      "\<And>x. env_status (envs k1 x) = (if x \<in> set ws then ENV_READY else env_status (envs k x))"
    by (auto simp: returns_iff)
  have "same_world (inner_qlock_freed k1) k"
    by (rule same_world_trans [OF inner_freed_simps(6) same_world_trans [OF k1(4)]]) simp
  then show ?thesis using k1 release_inner(3,4) [OF k1(2)] by (simp add: wakeup_all_def a(1))
qed

lemma unqueued_unlocked: "unqueued (unlocked k) = unlocked (unqueued k)"
  by (simp add: unqueued_def unlocked_def)

lemma unqueued_status: "unqueued (set_env_status e s k) = set_env_status e s (unqueued k)"
  by (simp add: unqueued_def set_env_status_def update_env_def fun_eq_iff)

lemma unlocked_status:
  "unlocked (set_env_status e s k) = set_env_status e s (unlocked k)" "set_env_status e s (set_env_status e s k) = set_env_status e s k"
  by (simp_all add: unlocked_def set_env_status_def update_env_def)

text \<open>With only the queue lock: the longest sleeper goes to the ready queue.\<close>

lemma wakeup_one_ok:
  assumes p: "in_process k" and q: "queues_ok k qs" "qs (Chan chan) = Some (ws @ [e])" "qs (Ready 0) = Some rs"
  shows "\<exists>k'. wakeup_one chan k = Some k' \<and> in_process k' \<and> queues_ok k' (qs(Chan chan \<mapsto> ws, Ready 0 \<mapsto> e # rs)) \<and>
    unqueued k' = unqueued (set_env_status e ENV_READY (unlocked (with_qlock_taken k)))"
proof -
  note a = acquire_qlock_free [OF p, folded with_qlock_taken_def]
  let ?k = "with_qlock_taken k"
  have q0: "queues_ok ?k qs" using q(1) by simp
  have n: "queue_size (Some (channels ?k chan)) \<noteq> 0" using queue_size_zero [OF q0 q(2)] by simp
  from dequeue_last [OF q0 q(2)] obtain h t where
    h: "dequeue (Some (channels ?k chan)) (envs ?k) = Some (e, Some h, t)" "e \<noteq> NULL"
      "queues_ok (?k\<lparr>channels := (channels ?k)(chan := h), envs := t\<rparr>) (qs(Chan chan \<mapsto> ws))"
      "unqueued (?k\<lparr>channels := (channels ?k)(chan := h), envs := t\<rparr>) = unqueued ?k"
    by auto
  define k1 where "k1 = ?k\<lparr>channels := (channels ?k)(chan := h), envs := t\<rparr>"
  note h = h [folded k1_def]
  define k2 where "k2 = set_env_status e ENV_READY (set_env_status e ENV_READY k1)"
  have "dll env_links (envs ?k) (head_of ?k (Chan chan)) (ws @ [e])" using q0 q(2) unfolding queues_ok_def by blast
  then have d: "e \<notin> set ws" by (simp add: dll_def)
  have el: "e \<notin> queued (qs(Chan chan := None))" using not_queued_elsewhere [OF q0 q(2)] by simp
  have en: "e \<notin> queued (qs(Chan chan \<mapsto> ws))" using el d by (auto simp: queued_iff split: if_splits)
  have q2: "queues_ok k2 (qs(Chan chan \<mapsto> ws))" using h(3) by (simp add: k2_def)
  have r0: "(qs(Chan chan \<mapsto> ws)) (Ready 0) = Some rs" using q(3) by simp
  from enqueue_ok [OF q2 r0 h(2) en] obtain k3 where
    k3: "on_queue (Ready 0) (\<lambda>h. enqueue (Some h) e) k2 = Some k3" "queues_ok k3 (qs(Chan chan \<mapsto> ws, Ready 0 \<mapsto> e # rs))"
      "unqueued k3 = unqueued k2" by (auto simp: returns_iff)
  have b1: "in_sched (set_env_status e ENV_READY k1)" using unqueued_eqD [OF h(4)] a(2) by (simp add: in_sched_def)
  have b3: "in_sched k3" using unqueued_eqD [OF k3(3)] b1 by (simp add: in_sched_def k2_def)
  have ins: "sched_insert_ready0 e (set_env_status e ENV_READY k1) = Some k3"
    using k3(1) h(2) check_qlock_held [OF b1] by (simp add: sched_insert_ready0_def on_queue_eqs k2_def)
  note r = release_qlock_held [OF b3]
  have "wakeup_one chan k = Some (unlocked k3)" using n h(1) ins r(1) by (simp add: wakeup_one_def a(1) k1_def)
  moreover have "unqueued (unlocked k3) = unqueued (set_env_status e ENV_READY (unlocked ?k))"
    using h(4) by (simp add: unqueued_unlocked k3(3) k2_def unqueued_status unlocked_status)
  ultimately show ?thesis using r(2) k3(2) by simp
qed

section \<open>The halves of acquiring and releasing\<close>

text \<open>\<open>calm lk k\<close>: a process is running and holds no spin lock.\<close>

definition calm :: "ptr \<Rightarrow> kern \<Rightarrow> bool" where
  "calm lk k \<longleftrightarrow> in_process k \<and> lk_locked (spinlocks k lk) = 0 \<and> cpu_proc (kcpu k) \<noteq> NULL"

text \<open>How a state differs from an earlier one in the lock word, the owner and the statuses.\<close>

definition lock_view :: "ptr \<Rightarrow> kern \<Rightarrow> bool \<times> u32 \<times> (ptr \<Rightarrow> u32)" where
  "lock_view lk k = (sleep_locked k lk \<noteq> 0, sleep_pid k lk, \<lambda>x. env_status (envs k x))"

lemma acquire_guarded_free:
  assumes "calm lk k" "sleep_locked k lk = 0" "queues_ok k qs"
  shows "\<exists>k'. acquire_guarded lk k = Some (Returns k') \<and> calm lk k' \<and> queues_ok k' qs \<and> same_world k' k \<and>
    lock_view lk k' = (True, env_id (envs k (cpu_proc (kcpu k))), \<lambda>x. env_status (envs k x))"
proof -
  from assms(1) have a: "in_process k" "lk_locked (spinlocks k lk) = 0" "cpu_proc (kcpu k) \<noteq> NULL" by (simp_all add: calm_def)
  note g = acquire_guard [OF a(1,2)]
  have c: "cpu_proc (kcpu (with_guard lk k)) \<noteq> NULL" using a(3) by simp
  note t = take_sleeplock_ok [OF g(2) c]
  let ?k = "without_guard lk (taken lk (with_guard lk k))"
  have "same_world ?k k"
    by (rule same_world_trans [OF without_guard_simps(7) same_world_trans [OF taken_simps(7) with_guard_simps(7)]])
  moreover have "acquire_guarded lk k = Some (Returns ?k)"
    using assms(2) by (simp add: acquire_guarded_def g(1) acquire_loop_def t(1))
  ultimately show ?thesis using t(2) a(3) assms(3) by (simp add: calm_def lock_view_def)
qed

text \<open>After going to sleep the guard is free and the scheduler runs with the queue lock.\<close>

definition asleep :: "ptr \<Rightarrow> kern \<Rightarrow> bool" where
  "asleep lk k \<longleftrightarrow> in_sched k \<and> lk_locked (spinlocks k lk) = 0 \<and> cpu_proc (kcpu k) \<noteq> NULL"

lemma acquire_guarded_busy:
  assumes "calm lk k" "sleep_locked k lk \<noteq> 0" "queues_ok k qs" "qs (Chan lk) = Some ws" "p = cpu_proc (kcpu k)" "p \<notin> queued qs"
  shows "\<exists>saved k'. acquire_guarded lk k = Some (Gives_up saved k') \<and> (saved = 0 \<or> saved = FL_IF) \<and> asleep lk k' \<and>
    queues_ok k' (qs(Chan lk \<mapsto> p # ws)) \<and> same_world k' k \<and>
    lock_view lk k' = (True, sleep_pid k lk, \<lambda>x. if x = p then ENV_BLOCKED else env_status (envs k x))"
proof -
  from assms(1) have a: "in_process k" "lk_locked (spinlocks k lk) = 0" "cpu_proc (kcpu k) \<noteq> NULL" by (simp_all add: calm_def)
  note g = acquire_guard [OF a(1,2)]
  have q: "queues_ok (with_guard lk k) qs" "cpu_proc (kcpu (with_guard lk k)) = p" "p \<noteq> NULL" using assms(3,5) a(3) by simp_all
  from sleep_ok [OF g(2) q(1) assms(4) q(2,3) assms(6)] obtain saved k' where
    s: "sleep lk lk (with_guard lk k) = Some (saved, k')" "saved = 0 \<or> saved = FL_IF" "in_sched k'" "lk_locked (spinlocks k' lk) = 0"
      "queues_ok k' (qs(Chan lk \<mapsto> p # ws))" "same_world k' (with_guard lk k)" "sleep_locked k' = sleep_locked (with_guard lk k)"
      "sleep_pid k' = sleep_pid (with_guard lk k)"
      "\<forall>x. env_status (envs k' x) = (if x = p then ENV_BLOCKED else env_status (envs (with_guard lk k) x))"
    by blast
  have w: "same_world k' k" by (rule same_world_trans [OF s(6) with_guard_simps(7)])
  then have "cpu_proc (kcpu k') \<noteq> NULL" using a(3) by (simp add: same_world_def)
  moreover have "acquire_guarded lk k = Some (Gives_up saved k')"
    using assms(2) s(1) by (simp add: acquire_guarded_def g(1) acquire_loop_def)
  moreover have "lock_view lk k' = (True, sleep_pid k lk, \<lambda>x. if x = p then ENV_BLOCKED else env_status (envs k x))"
    using s(7-9) assms(2) by (simp add: lock_view_def cong: if_cong)
  ultimately show ?thesis using s(2-5) w unfolding asleep_def by blast
qed

definition resumed :: "u32 \<Rightarrow> kern \<Rightarrow> kern" where
  "resumed saved k = unlocked (sched_return saved k)"

lemma resumed_ok:
  assumes "asleep lk k" "saved = 0 \<or> saved = FL_IF"
  shows "yield_return saved k = Some (resumed saved k)" "calm lk (resumed saved k)"
proof -
  have a: "in_sched k" "lk_locked (spinlocks k lk) = 0" "cpu_proc (kcpu k) \<noteq> NULL" using assms(1) by (simp_all add: asleep_def)
  from yield_return_held [OF a(1) assms(2)] a(2,3) show "yield_return saved k = Some (resumed saved k)" "calm lk (resumed saved k)"
    by (simp_all add: resumed_def calm_def) (simp add: unlocked_def sched_return_def)
qed

lemma resumed_simps [simp]:
  "envs (resumed saved k) = envs k" "queues_ok (resumed saved k) qs = queues_ok k qs" "same_world (resumed saved k) k"
  "cpu_proc (kcpu (resumed saved k)) = cpu_proc (kcpu k)" "lock_view lk (resumed saved k) = lock_view lk k"
  by (simp_all add: resumed_def same_world_def has_space_def) (simp_all add: lock_view_def unlocked_def sched_return_def)

lemma sleep_woken_yield: "sleep_woken saved k = yield_return saved k"
  by (simp add: sleep_woken_def yield_return_def)

lemma acquire_return_eq:
  assumes "asleep lk k" "saved = 0 \<or> saved = FL_IF"
  shows "acquire_return lk saved k = acquire_guarded lk (resumed saved k)"
  using resumed_ok(1) [OF assms]
  by (simp add: acquire_return_def acquire_guarded_def sleep_return_def sleep_woken_def yield_return_def)

lemma release_guarded_ok:
  assumes "calm lk k" "queues_ok k qs" "qs (Chan lk) = Some ws" "qs (Ready 0) = Some rs"
  shows "\<exists>k'. release_guarded lk k = Some k' \<and> calm lk k' \<and> queues_ok k' (qs(Chan lk \<mapsto> [], Ready 0 \<mapsto> ws @ rs)) \<and> same_world k' k \<and>
    lock_view lk k' = (False, 0, \<lambda>x. if x \<in> set ws then ENV_READY else env_status (envs k x))"
proof -
  from assms(1) have a: "in_process k" "lk_locked (spinlocks k lk) = 0" "cpu_proc (kcpu k) \<noteq> NULL" by (simp_all add: calm_def)
  note g = acquire_guard [OF a(1,2)]
  have "queues_ok (with_guard lk k) qs" using assms(2) by simp
  from wakeup_all_ok [OF g(2) this assms(3,4)] obtain k1 where
    k1: "wakeup_all lk (with_guard lk k) = Some k1" "guarded lk k1" "queues_ok k1 (qs(Chan lk \<mapsto> [], Ready 0 \<mapsto> ws @ rs))"
      "same_world k1 (with_guard lk k)" "\<forall>x. env_status (envs k1 x) = (if x \<in> set ws then ENV_READY else env_status (envs (with_guard lk k) x))"
    by (auto simp: returns_iff)
  define k2 where "k2 = k1\<lparr>sleep_locked := (sleep_locked k1)(lk := 0), sleep_pid := (sleep_pid k1)(lk := 0)\<rparr>"
  have g2: "guarded lk k2" using k1(2) by (simp add: guarded_def k2_def)
  note r = release_guard [OF g2]
  have q2: "queues_ok k2 (qs(Chan lk \<mapsto> [], Ready 0 \<mapsto> ws @ rs))" using k1(3) unfolding k2_def by simp
  have w: "same_world (without_guard lk k2) k"
    by (rule same_world_trans [OF without_guard_simps(7)], unfold k2_def, rule same_world_trans [OF same_world_updates(3)],
        rule same_world_trans [OF same_world_updates(2)], rule same_world_trans [OF k1(4) with_guard_simps(7)])
  have "calm lk (without_guard lk k2)" using r(2) a(3) w by (simp add: calm_def same_world_def)
  moreover have "release_guarded lk k = Some (without_guard lk k2)" using r(1) k1(1) by (simp add: release_guarded_def g(1) k2_def)
  moreover have "lock_view lk (without_guard lk k2) = (False, 0, \<lambda>x. if x \<in> set ws then ENV_READY else env_status (envs k x))"
    using k1(5) by (simp add: lock_view_def k2_def cong: if_cong)
  ultimately show ?thesis using w q2 by simp
qed

lemma holding_ok:
  assumes "calm lk k" "queues_ok k qs"
  shows "\<exists>k'. holding_sleeplock lk k = Some (sleep_locked k lk \<noteq> 0 \<and> sleep_pid k lk = env_id (envs k (cpu_proc (kcpu k))), k') \<and>
    calm lk k' \<and> queues_ok k' qs \<and> same_world k' k \<and> lock_view lk k' = lock_view lk k"
proof -
  from assms(1) have a: "in_process k" "lk_locked (spinlocks k lk) = 0" "cpu_proc (kcpu k) \<noteq> NULL" by (simp_all add: calm_def)
  have "same_world (without_guard lk (with_guard lk k)) k"
    by (rule same_world_trans [OF without_guard_simps(7) with_guard_simps(7)])
  then show ?thesis using holding_sleeplock_ok [OF a] a assms(2) by (simp add: calm_def lock_view_def)
qed

end
