(* ===== verification/FOS_SyscallProps.thy ===== *)
theory FOS_SyscallProps
  imports FOS_Trap FOS_LockProps FOS_ConsoleProps FOS_PrintfProps FOS_BootState
begin

text \<open>
  System calls and traps: reading the keyboard with sleeping and waking, what the checks of the
  arguments let through, calls that take frames, results stored in user memory, and the discipline of
  interrupts around a system call.
\<close>

section \<open>Reading a character\<close>

lemma console_kept [simp]:
  "cons_dev (with_guard lk k) = cons_dev k" "cons_dev (without_guard lk k) = cons_dev k" "cons_dev (resumed saved k) = cons_dev k"
  "KBDlock (with_guard lk k) = KBDlock k" "KBDlock (without_guard lk k) = KBDlock k" "KBDlock (resumed saved k) = KBDlock k"
  "KBDchannel (with_guard lk k) = KBDchannel k"
  by (simp_all add: with_guard_def without_guard_def resumed_def unlocked_def sched_return_def)

lemma calm_console [simp]: "calm lk (k\<lparr>cons_dev := s\<rparr>) = calm lk k"
  by (simp add: calm_def in_process_def)

lemma queues_console [simp]: "queues_ok (k\<lparr>cons_dev := s\<rparr>) qs = queues_ok k qs"
proof -
  have "head_of (k\<lparr>cons_dev := s\<rparr>) q = head_of k q" for q by (cases q) simp_all
  then show ?thesis by (simp add: queues_ok_def)
qed

lemma cgetc_loop_reads:
  assumes "ring_ok (cons_dev k)" "ring (cons_dev k) = c # cs" "c \<noteq> 0"
  shows "\<exists>s. cgetc_loop k = Some (Result (ucast c) (k\<lparr>cons_dev := s\<rparr>)) \<and> ring s = cs \<and> ring_ok s"
proof -
  from cons_getc2_ring [OF assms(1)] obtain p where
    p: "cons_getc2 (cons_dev k) = (ucast c, (cons_dev k)\<lparr>cons_rpos := p\<rparr>)" "ring ((cons_dev k)\<lparr>cons_rpos := p\<rparr>) = cs"
      "ring_ok ((cons_dev k)\<lparr>cons_rpos := p\<rparr>)" unfolding assms(2) by auto
  have "(ucast c :: u32) \<noteq> 0" using assms(3) byte_word(1) [of c] by (metis unat_eq_zero unat_0)
  then show ?thesis using p by (auto simp: cgetc_loop_def)
qed

lemma cgetc_loop_sleeps:
  assumes calm: "calm (KBDlock k) k" and ring: "ring_ok (cons_dev k)" "ring (cons_dev k) = []"
    and q: "queues_ok k qs" "qs (Chan (KBDchannel k)) = Some ws" "cpu_proc (kcpu k) = p" "p \<notin> queued qs"
  shows "\<exists>saved k1. cgetc_loop k = Some (Suspends In_cgetc saved k1) \<and> (saved = 0 \<or> saved = FL_IF) \<and> asleep (KBDlock k) k1 \<and>
    queues_ok k1 (qs(Chan (KBDchannel k) \<mapsto> p # ws)) \<and> env_status (envs k1 p) = ENV_BLOCKED"
proof -
  let ?lk = "KBDlock k"
  from calm have a: "in_process k" "lk_locked (spinlocks k ?lk) = 0" "p \<noteq> NULL" using q(3) by (simp_all add: calm_def)
  note g = acquire_guard [OF a(1,2)]
  have q': "queues_ok (with_guard ?lk k) qs" "cpu_proc (kcpu (with_guard ?lk k)) = p" using q(1,3) by simp_all
  from sleep_ok [OF g(2) q'(1) q(2) q'(2) a(3) q(4)] obtain saved k1 where
    s: "sleep (KBDchannel k) ?lk (with_guard ?lk k) = Some (saved, k1)" "saved = 0 \<or> saved = FL_IF" "in_sched k1"
      "lk_locked (spinlocks k1 ?lk) = 0" "queues_ok k1 (qs(Chan (KBDchannel k) \<mapsto> p # ws))" "same_world k1 (with_guard ?lk k)"
      "env_status (envs k1 p) = ENV_BLOCKED"
    by auto
  have "cons_getc2 (cons_dev k) = (0, cons_dev k)" using cons_getc2_ring [OF ring(1)] ring(2) by simp
  then have "cgetc_loop k = Some (Suspends In_cgetc saved k1)" using g(1) s(1) by (simp add: cgetc_loop_def)
  moreover have "cpu_proc (kcpu k1) = p" using s(6) q'(2) by (simp add: same_world_def)
  ultimately show ?thesis using s(2-5,7) a(3) by (simp add: asleep_def)
qed

text \<open>With interrupts enabled, \<^verbatim>\<open>sys_cgetc\<close> returns the oldest character of the ring buffer and takes only it
  out; when there is none, its process goes to sleep on the channel of the keyboard, with both locks
  in order.\<close>

theorem sys_cgetc_correct:
  assumes "calm (KBDlock k) k" "eflags (kcpu k) AND FL_IF \<noteq> 0" "ring_ok (cons_dev k)" "0 \<notin> set (ring (cons_dev k))"
    "queues_ok k qs" "qs (Chan (KBDchannel k)) = Some ws" "cpu_proc (kcpu k) = p" "p \<notin> queued qs"
  shows "case ring (cons_dev k) of
     c # cs \<Rightarrow> \<exists>s. sys_cgetc k = Some (Result (ucast c) (k\<lparr>cons_dev := s\<rparr>)) \<and> ring s = cs \<and> ring_ok s
   | [] \<Rightarrow> \<exists>saved k1. sys_cgetc k = Some (Suspends In_cgetc saved k1) \<and> (saved = 0 \<or> saved = FL_IF) \<and> asleep (KBDlock k) k1 \<and>
       queues_ok k1 (qs(Chan (KBDchannel k) \<mapsto> p # ws)) \<and> env_status (envs k1 p) = ENV_BLOCKED"
  using cgetc_loop_reads [OF assms(3)] cgetc_loop_sleeps [OF assms(1,3) _ assms(5-8)] assms(2,4)
  by (auto simp: sys_cgetc_def split: list.split)

text \<open>The continuation of a reader that was woken.\<close>

lemma cgetc_return_reads:
  assumes a: "asleep (KBDlock k) k" "saved = 0 \<or> saved = FL_IF" and r: "ring_ok (cons_dev k)" "ring (cons_dev k) = c # cs" "c \<noteq> 0"
  shows "\<exists>k1. cgetc_return saved k = Some (Result (ucast c) k1) \<and> ring (cons_dev k1) = cs \<and> calm (KBDlock k) k1"
proof -
  let ?lk = "KBDlock k" let ?k = "resumed saved k"
  note y = resumed_ok [OF a]
  from y(2) have c: "in_process ?k" "lk_locked (spinlocks ?k ?lk) = 0" "cpu_proc (kcpu ?k) \<noteq> NULL" by (simp_all add: calm_def)
  note g = acquire_guard [OF c(1,2)]
  note rl = release_guard [OF g(2)]
  let ?k2 = "without_guard ?lk (with_guard ?lk ?k)"
  have e: "cgetc_return saved k = cgetc_loop ?k2"
    using y(1) g(1) rl(1) by (simp add: cgetc_return_def sleep_return_def sleep_woken_def yield_return_def)
  have "calm ?lk ?k2" using rl(2) c(3) by (simp add: calm_def)
  moreover from cgetc_loop_reads [of ?k2] r obtain s where
    "cgetc_loop ?k2 = Some (Result (ucast c) (?k2\<lparr>cons_dev := s\<rparr>))" "ring s = cs" by auto
  ultimately show ?thesis using e by auto
qed

text \<open>C30: a key press wakes the reader that sleeps longest: the interrupt handler puts the typed characters
  into the ring buffer, moves this process from the channel to the ready queue, and when the
  scheduler gives it the CPU, its system call returns the first of these characters.\<close>

theorem keyboard_wakes_reader:
  assumes "in_process k" "queues_ok k qs" "qs (Chan (KBDchannel k)) = Some (ws @ [p])" "qs (Ready 0) = Some rs"
    and "ring_ok (cons_dev k)" "ring (cons_dev k) = []" "kbd_chars (cons_dev k) = c # cs" "length cs < 511" "c \<noteq> 0"
  shows "\<exists>k'. keyboard_interrupt_handler k = Some k' \<and> in_process k' \<and> ring (cons_dev k') = c # cs \<and>
    queues_ok k' (qs(Chan (KBDchannel k) \<mapsto> ws, Ready 0 \<mapsto> p # rs)) \<and> env_status (envs k' p) = ENV_READY \<and>
    (\<forall>k2 saved. asleep (KBDlock k2) k2 \<and> (saved = 0 \<or> saved = FL_IF) \<and> cpu_proc (kcpu k2) = p \<and> cons_dev k2 = cons_dev k' \<longrightarrow>
       (\<exists>k3. syscall_return In_cgetc saved k2 = Some (Result (ucast c) k3) \<and> ring (cons_dev k3) = cs))"
proof -
  have l: "length (ring (cons_dev k)) + length (kbd_chars (cons_dev k)) < 512" using assms(6-8) by simp
  from kbd.intr_drains [OF assms(5) l] obtain s where
    s: "kbd_intr (cons_dev k) = Some s" "ring s = c # cs" "ring_ok s" using assms(6,7) by (auto simp: kbd_intr_def)
  have ne: "cons_rpos s \<noteq> cons_wpos s" using s(2) by (auto simp: ring_def between_def)
  let ?k = "k\<lparr>cons_dev := s\<rparr>"
  have p: "in_process ?k" "queues_ok ?k qs" using assms(1,2) by (simp_all add: in_process_def)
  from wakeup_one_ok [OF p assms(3,4)] obtain k' where
    k': "wakeup_one (KBDchannel k) ?k = Some k'" "in_process k'" "queues_ok k' (qs(Chan (KBDchannel k) \<mapsto> ws, Ready 0 \<mapsto> p # rs))"
      "unqueued k' = unqueued (set_env_status p ENV_READY (unlocked (with_qlock_taken ?k)))" by blast
  have c: "cons_dev k' = s"
    using arg_cong [OF k'(4), of cons_dev]
    by (simp add: unqueued_def set_env_status_def update_env_def unlocked_def with_qlock_taken_def)
  have st: "env_status (envs k' p) = ENV_READY" using unqueued_envD(1) [OF k'(4), of p] by simp
  have "\<exists>k3. syscall_return In_cgetc saved k2 = Some (Result (ucast c) k3) \<and> ring (cons_dev k3) = cs"
    if "asleep (KBDlock k2) k2" "saved = 0 \<or> saved = FL_IF" "cons_dev k2 = cons_dev k'" for k2 saved
    using cgetc_return_reads [OF that(1,2)] that(3) s(2,3) c assms(9) by (auto simp: syscall_return_def)
  then show ?thesis using k' s(1,2) ne c st by (auto simp: keyboard_interrupt_handler_def)
qed

section \<open>A reader at the console\<close>

definition boot_reader :: kern where
  "boot_reader = boot_sched\<lparr>kcpu := boot_cpu\<lparr>cpu_proc := 0xEEC00000, eflags := FL_IF\<rparr>, cons_dev := console1\<rparr>"

theorem sys_cgetc_correct_witness:
  "\<exists>s. sys_cgetc boot_reader = Some (Result 0x42 (boot_reader\<lparr>cons_dev := s\<rparr>)) \<and> ring s = []"
proof -
  let ?qs = "[Ready 0 \<mapsto> [0xEEC00400, 0xEEC00800], Chan 0xF0200000 \<mapsto> []] :: qlists"
  have q: "queues_ok boot_reader ?qs"
    by (simp add: queues_ok_def dll_def boot_reader_def boot_sched_def boot_kern_def boot_proc_def blank_env_def blank_head_def last_or_def)
  have c: "calm (KBDlock boot_reader) boot_reader"
    by (simp add: calm_def in_process_def boot_reader_def boot_sched_def boot_kern_def boot_cpu_def init_spinlock_def cpu_ok_def)
  have f: "eflags (kcpu boot_reader) AND FL_IF \<noteq> 0" "cons_dev boot_reader = console1" "KBDchannel boot_reader = 0xF0200000"
    "cpu_proc (kcpu boot_reader) = 0xEEC00000" "0xEEC00000 \<notin> queued ?qs"
    by (simp_all add: boot_reader_def boot_sched_def boot_kern_def queued_iff)
  have r: "ring_ok (cons_dev boot_reader)" "0 \<notin> set (ring (cons_dev boot_reader))" unfolding f console1_ring by (simp_all add: console1_ring)
  have ch: "?qs (Chan (KBDchannel boot_reader)) = Some []" by (simp add: f)
  from sys_cgetc_correct [OF c f(1) r q ch f(4,5)] show ?thesis unfolding f(2) console1_ring by auto
qed

definition console2 :: console where
  "console2 = console1\<lparr>cons_rpos := 0, cons_wpos := 0\<rparr>"

lemma console2_ring: "ring console2 = []" "ring_ok console2"
  by (simp_all add: ring_def ring_ok_def console2_def between_def)

lemma console2_keys: "kbd_chars console2 = [0x51]"
proof -
  have a: "kbd_proc_data console2 = (0, console2\<lparr>kbd_in := [0x10], kbd_shift := 1\<rparr>)"
    using key_pressed_shifted [OF key_q(1)] by (simp add: kbd_proc_data_def console2_def console1_def key_codes)
  have b: "kbd_proc_data (console2\<lparr>kbd_in := [0x10], kbd_shift := 1\<rparr>) = (0x51, console2\<lparr>kbd_in := [], kbd_shift := 1\<rparr>)"
    using key_pressed_shifted [OF key_q(2)] by (simp add: kbd_proc_data_def key_codes)
  have n: "length (kbd_in console2) = Suc (Suc 0)" by (simp add: console2_def console1_def)
  show ?thesis unfolding n by (simp add: a b)
qed

text \<open>One process sleeps on the keyboard, no other runs, and the user has pressed shift and Q.\<close>

definition boot_keys :: kern where
  "boot_keys = boot_kern\<lparr>envs := (\<lambda>_. blank_env)(0xEEC00800 := boot_proc ENV_BLOCKED NULL NULL),
     channels := (\<lambda>_. blank_head)(0xF0200000 := \<lparr>lh_first = 0xEEC00800, lh_last = 0xEEC00800, lh_size = 1\<rparr>), cons_dev := console2\<rparr>"

theorem keyboard_wakes_reader_witness:
  "\<exists>k'. keyboard_interrupt_handler boot_keys = Some k' \<and> env_status (envs k' 0xEEC00800) = ENV_READY \<and> ring (cons_dev k') = [0x51]"
proof -
  let ?qs = "[Ready 0 \<mapsto> [], Chan 0xF0200000 \<mapsto> [] @ [0xEEC00800]] :: qlists"
  have q: "queues_ok boot_keys ?qs"
    by (simp add: queues_ok_def dll_def boot_keys_def boot_kern_def boot_proc_def blank_env_def blank_head_def last_or_def)
  have p: "in_process boot_keys" by (simp add: in_process_def boot_keys_def boot_kern_def boot_cpu_def init_spinlock_def cpu_ok_def)
  have d: "cons_dev boot_keys = console2" "KBDchannel boot_keys = 0xF0200000" by (simp_all add: boot_keys_def boot_kern_def)
  have qs: "?qs (Chan (KBDchannel boot_keys)) = Some ([] @ [0xEEC00800])" "?qs (Ready 0) = Some []" by (simp_all add: d)
  have r: "ring_ok (cons_dev boot_keys)" "ring (cons_dev boot_keys) = []" "kbd_chars (cons_dev boot_keys) = 0x51 # []"
    unfolding d by (simp_all add: console2_ring console2_keys)
  from keyboard_wakes_reader [OF p q qs r] show ?thesis by auto
qed

end
