(* ===== verification/FOS_EnvProps.thy ===== *)
theory FOS_EnvProps
  imports FOS_Loader FOS_BootState
begin

text \<open>
  The number a process gets is that of its slot, again and again; and the loop over the segments of a program visits the loadable ones.
\<close>

section \<open>Powers of two\<close>

lemma half: "unat (drop_bit 1 (x :: u32)) = unat x div 2"
  by (simp add: drop_bit_eq_div unat_div)

text \<open>Both loops go round once for each binary digit of \<open>x\<close> after the first.\<close>

lemma loops_count:
  assumes "x \<noteq> 0"
  shows "\<exists>n. 2 ^ n \<le> unat x \<and> unat x < 2 ^ Suc n \<and> pow2_loop x p = push_bit n p \<and> log2_loop x b = b + of_nat n"
  using assms
proof (induction "unat x" arbitrary: x p b rule: less_induct)
  case less
  let ?y = "drop_bit 1 x"
  have x: "0 < unat x" using less.prems by (simp add: unat_gt_0)
  show ?case
  proof (cases "?y = 0")
    case True
    then have "unat x div 2 = 0" by (metis half unat_0)
    then have "unat x = 1" using x by simp
    then show ?thesis using True by (intro exI [of _ 0]) (simp add: pow2_loop.simps log2_loop.simps)
  next
    case False
    have "unat ?y < unat x" unfolding half using x by simp
    then obtain n where n: "2 ^ n \<le> unat ?y" "unat ?y < 2 ^ Suc n" "pow2_loop ?y (push_bit 1 p) = push_bit n (push_bit 1 p)"
        "log2_loop ?y (b + 1) = b + 1 + of_nat n"
      using less.hyps [of ?y "push_bit 1 p" "b + 1"] False by auto
    have "2 ^ Suc n \<le> unat x" "unat x < 2 ^ Suc (Suc n)" using n(1,2) unfolding half by simp_all
    moreover have "pow2_loop x p = push_bit (Suc n) p" using n(3) False by (subst pow2_loop.simps) (simp add: Let_def)
    moreover have "log2_loop x b = b + of_nat (Suc n)" using n(4) False by (subst log2_loop.simps) (simp add: Let_def)
    ultimately show ?thesis by blast
  qed
qed

lemma powers_ok:
  assumes "1 < x" "unat x \<le> 2 ^ 31"
  shows "\<exists>m. m \<le> 31 \<and> nearest_pow2_ceil x = 2 ^ m \<and> unat x \<le> 2 ^ m \<and> 2 ^ m < 2 * unat x \<and> log2_ceil x = of_nat (m + 1) \<and> 0 < m"
proof -
  have x: "1 < unat x" using assms(1) by (simp add: word_less_nat_alt)
  have m1: "unat (x - 1) = unat x - 1" using x by (simp add: unat_sub word_le_nat_alt)
  then have "x - 1 \<noteq> 0" using x by (metis unat_0 less_numeral_extra(3) zero_less_diff)
  from loops_count [OF this, of 2 2] obtain n where
    n: "2 ^ n \<le> unat (x - 1)" "unat (x - 1) < 2 ^ Suc n" "pow2_loop (x - 1) 2 = push_bit n 2" "log2_loop (x - 1) 2 = 2 + of_nat n" by blast
  have "2 ^ n < (2 :: nat) ^ 31" using n(1) m1 x assms(2) by linarith
  then have "n < 31" using power_strict_increasing_iff [of "2 :: nat" n 31] by simp
  moreover have big: "\<not> x \<le> 1" using assms(1) by simp
  then have "nearest_pow2_ceil x = 2 ^ Suc n" using n(3) unfolding nearest_pow2_ceil_def by (simp add: push_bit_eq_mult)
  moreover have "log2_ceil x = of_nat (Suc n + 1)" using big n(4) unfolding log2_ceil_def by simp
  moreover have "unat x \<le> 2 ^ Suc n" "2 ^ Suc n < 2 * unat x" using n(1,2) m1 x by simp_all
  ultimately show ?thesis by (intro exI [of _ "Suc n"]) simp
qed

section \<open>Fresh numbers\<close>

lemma unat_and_not_mask:
  assumes "m \<le> 32"
  shows "unat (x AND NOT (mask m)) = (unat (x :: u32) div 2 ^ m) * 2 ^ m"
proof -
  have "x AND NOT (mask m) = push_bit m (drop_bit m x)" by (rule bit_word_eqI) (auto simp: bit_simps)
  moreover have "take_bit 32 (unat x) = unat x" using unat_u32_bound [of x] by (simp add: take_bit_nat_eq_self)
  then have "unat (push_bit m (drop_bit m x)) = push_bit m (drop_bit m (unat x))"
    by (simp add: unsigned_push_bit_eq unsigned_drop_bit_eq take_bit_push_bit push_bit_take_bit take_bit_drop_bit assms)
  ultimately show ?thesis by (simp add: push_bit_eq_mult drop_bit_eq_div)
qed

text \<open>Generations are multiples of \<open>2 ^ m\<close>; the next one is two further, or \<open>2 ^ (m + 1)\<close> when that is negative.\<close>

lemma sint_pos_unat: "0 < sint (x :: u32) \<Longrightarrow> 0 < unat x \<and> unat x < 2147483648"
proof -
  assume p: "0 < sint x"
  have u: "uint x < 2 ^ 32" using uint_lt2p [of x] by simp
  then have "take_bit 32 (uint x) = uint x" by (simp add: take_bit_int_eq_self)
  then have s: "sint x = uint x - (if bit (uint x) 31 then 2 ^ 32 else 0)"
    by (simp add: sint_uint signed_take_bit_eq_take_bit_minus)
  have "uint x < 2 ^ 32" by (rule u)
  then have "sint x = uint x" using s p by (auto split: if_splits)
  moreover have "sint x < 2147483648" using sint_lt [of x] by simp
  moreover have "uint x = int (unat x)" by (rule uint_nat)
  ultimately show ?thesis using p by (intro conjI; linarith)
qed

lemma sint_pos_small: "x \<noteq> 0 \<Longrightarrow> unat (x :: u32) < 2147483648 \<Longrightarrow> 0 < sint x"
proof -
  assume x: "x \<noteq> 0" "unat x < 2147483648"
  then have "sint x = uint x" by (intro sint_small) (simp add: word_le_nat_alt)
  moreover have "uint x = int (unat x)" by (rule uint_nat)
  moreover have "0 < unat x" using x(1) by (simp add: unat_gt_0)
  ultimately show ?thesis by linarith
qed

lemma and_not_mask_neg: "NOT ((2 :: u32) ^ m - 1) = NOT (mask m)" "(2 :: u32) ^ m - 1 = mask m"
  by (simp_all only: mask_eq_exp_minus_1)

lemma unat_power: "m < 32 \<Longrightarrow> unat ((2 :: u32) ^ m) = 2 ^ m"
proof -
  assume "m < 32"
  then have "(2 :: nat) ^ m < 2 ^ 32" by (intro power_strict_increasing) simp_all
  moreover have "(2 :: u32) ^ m = of_nat (2 ^ m)" by simp
  ultimately show ?thesis by (simp only: unat_of_nat) simp
qed

lemma or_index:
  assumes "g AND mask m = 0" "unat i < 2 ^ m" "m < 32"
  shows "(g OR i) AND mask m = (i :: u32)" "(g OR i) AND NOT (mask m) = g"
proof -
  have "i < 2 ^ m" using assms(2,3) by (simp add: word_less_nat_alt unat_power)
  then have i: "i AND mask m = i" using less_mask_eq [of i m] by simp
  have b: "n < m" if "bit i n" for n using arg_cong [OF i, of "\<lambda>x. bit x n"] that by (simp add: bit_and_iff bit_mask_iff)
  have c: "\<not> bit g n" if "n < m" "n < 32" for n using arg_cong [OF assms(1), of "\<lambda>x. bit x n"] that by (simp add: bit_and_iff bit_mask_iff)
  have "bit ((g OR i) AND mask m) n = bit i n" "bit ((g OR i) AND NOT (mask m)) n = bit g n" if "n < LENGTH(32)" for n
    using b [of n] c [of n] that by (auto simp: bit_and_iff bit_or_iff bit_not_iff bit_mask_iff)
  then show "(g OR i) AND mask m = i" "(g OR i) AND NOT (mask m) = g" by (intro bit_word_eqI; simp)+
qed

lemma next_env_id_cases:
  assumes n: "NEARPOW2NENV k = 2 ^ m" "ENVGENSHIFT k = m + 1" "m < 29" and i: "unat i < 2 ^ m"
  shows "next_env_id old i k AND (NEARPOW2NENV k - 1) = i" "0 < sint (next_env_id old i k)" "next_env_id old i k \<noteq> old"
proof -
  define S where "S = (push_bit (m + 1) 1 :: u32)"
  define g0 where "g0 = (old + S) AND NOT (mask m)"
  define g where "g = (if sint g0 \<le> 0 then S else g0)"
  have e: "next_env_id old i k = g OR i" by (simp add: next_env_id_def n Let_def and_not_mask_neg g_def g0_def S_def)
  have m: "m + 1 < 32" "m \<le> 32" "m < 32" using n(3) by simp_all
  have s: "unat S = 2 ^ (m + 1)" using unat_power [OF m(1)] by (simp add: S_def)
  have small: "(2 :: nat) ^ (m + 1) < 2 ^ 30" using n(3) by (intro power_strict_increasing) simp_all
  have gM: "g AND mask m = 0"
  proof -
    have "S AND mask m = 0" unfolding S_def by (rule bit_word_eqI) (auto simp: bit_simps)
    moreover have "g0 AND mask m = 0" unfolding g0_def by (rule bit_word_eqI) (auto simp: bit_simps)
    ultimately show ?thesis by (simp add: g_def)
  qed
  have gs: "0 < sint g"
  proof -
    have "S \<noteq> 0" using s by (metis unat_0 power_not_zero zero_neq_numeral)
    then have "0 < sint S" using s small by (intro sint_pos_small) auto
    then show ?thesis by (simp add: g_def)
  qed
  note o = or_index [OF gM i m(3)]
  show "next_env_id old i k AND (NEARPOW2NENV k - 1) = i" using o(1) by (simp only: e n(1) and_not_mask_neg)
  have gq: "unat (g OR i) div 2 ^ m * 2 ^ m = unat g" using unat_and_not_mask [OF m(2), of "g OR i"] o(2) by simp
  have gb: "unat g < 2 ^ 31" using sint_pos_unat [OF gs] by simp
  have p: "(2 :: nat) ^ 31 = 2 ^ (31 - m) * 2 ^ m" using n(3) by (simp flip: power_add)
  have "unat (g OR i) div 2 ^ m < 2 ^ (31 - m)" using gb unfolding gq [symmetric] p by simp
  then have id: "unat (g OR i) < 2 ^ 31" unfolding p by (simp add: div_less_iff_less_mult)
  moreover have "g OR i \<noteq> 0" using o(2) gs by (metis bit.conj_zero_left less_irrefl signed_0)
  ultimately show "0 < sint (next_env_id old i k)" unfolding e by (intro sint_pos_small) simp_all
  show "next_env_id old i k \<noteq> old"
  proof
    assume "next_env_id old i k = old"
    then have d: "g OR i = old" by (simp only: e)
    have "unat old + 2 ^ (m + 1) < 2 ^ 32" using id small unfolding d by simp
    then have u: "unat (old + S) = unat old + 2 * 2 ^ m" using s by (subst unat_word_ariths) simp
    have g0: "unat g0 = unat g + 2 * 2 ^ m"
      unfolding g0_def unat_and_not_mask [OF m(2)] u gq [unfolded d, symmetric] by (simp add: algebra_simps)
    show False
    proof (cases "sint g0 \<le> 0")
      case True
      then have "unat g0 = 2 ^ (m + 1) + 2 ^ (m + 1)" using g0 s by (simp add: g_def)
      then have "unat g0 < 2 ^ 31" "g0 \<noteq> 0" using small by auto
      then show False using True sint_pos_small [of g0] by simp
    next
      case False
      then show False using g0 by (simp add: g_def)
    qed
  qed
qed

section \<open>The number of a new process\<close>

text \<open>
  Slot \<open>i\<close> of the table is \<open>e\<close> and no other slot is; the two sizes are those of the table; the free list
  is what it should be and has \<open>e\<close> on it.
\<close>

definition slot_of :: "ptr \<Rightarrow> nat \<Rightarrow> kern \<Rightarrow> bool" where
  "slot_of e i k \<longleftrightarrow> i < unat (NENV k) \<and> (\<forall>j < unat (NENV k). env_slot k (of_nat j) = e \<longleftrightarrow> j = i)"

definition table_sized :: "kern \<Rightarrow> bool" where
  "table_sized k \<longleftrightarrow> 1 < NENV k \<and> unat (NENV k) \<le> 2 ^ 28 \<and> NEARPOW2NENV k = nearest_pow2_ceil (NENV k)"

lemma env_index_slot:
  assumes "slot_of e i k"
  shows "env_index e k = of_nat i"
proof -
  have "List.find (\<lambda>i. env_slot k (of_nat i) = e) [0..<unat (NENV k)] = Some i"
    unfolding find_Some_iff by (rule exI [of _ i]) (use assms in \<open>simp add: slot_of_def\<close>)
  then show ?thesis by (simp add: env_index_def)
qed

lemma new_id_ok:
  assumes "table_sized k" "i < unat (NENV k)"
  shows "next_env_id old (of_nat i) k AND (NEARPOW2NENV k - 1) = of_nat i" "0 < sint (next_env_id old (of_nat i) k)"
    "next_env_id old (of_nat i) k \<noteq> old"
proof -
  have "1 < NENV k" "unat (NENV k) \<le> 2 ^ 31" using assms(1) by (simp_all add: table_sized_def)
  from powers_ok [OF this] obtain m where m: "nearest_pow2_ceil (NENV k) = 2 ^ m" "unat (NENV k) \<le> 2 ^ m"
      "2 ^ m < 2 * unat (NENV k)" "log2_ceil (NENV k) = of_nat (m + 1)" "m \<le> 31" by blast
  have "(2 :: nat) ^ m < 2 ^ 29" using m(3) assms(1) by (simp add: table_sized_def)
  then have m29: "m < 29" by (metis power_strict_increasing_iff one_less_numeral_iff semiring_norm(76))
  have "ENVGENSHIFT k = m + 1" using m29 unfolding ENVGENSHIFT_def m(4) unat_of_nat by simp
  moreover have "unat (of_nat i :: u32) = i" using assms(2) unat_u32_bound [of "NENV k"] by (simp add: unat_of_nat)
  then have "unat (of_nat i :: u32) < 2 ^ m" using assms(2) m(2) by simp
  moreover have "NEARPOW2NENV k = 2 ^ m" using assms(1) m(1) by (simp add: table_sized_def)
  ultimately show "next_env_id old (of_nat i) k AND (NEARPOW2NENV k - 1) = of_nat i" "0 < sint (next_env_id old (of_nat i) k)"
    "next_env_id old (of_nat i) k \<noteq> old" using next_env_id_cases [of k m "of_nat i" old] m29 by blast+
qed

text \<open>The number of slot \<open>i\<close> when the process there had number 0, as every slot on the free list has.\<close>

definition slot_number :: "nat \<Rightarrow> kern \<Rightarrow> u32" where
  "slot_number i k = push_bit (ENVGENSHIFT k) 1 OR of_nat i"

lemma next_env_id_first:
  assumes "table_sized k"
  shows "next_env_id 0 (of_nat i) k = slot_number i k"
proof -
  have "1 < NENV k" "unat (NENV k) \<le> 2 ^ 31" using assms by (simp_all add: table_sized_def)
  from powers_ok [OF this] obtain m where m: "nearest_pow2_ceil (NENV k) = 2 ^ m" "unat (NENV k) \<le> 2 ^ m"
      "2 ^ m < 2 * unat (NENV k)" "log2_ceil (NENV k) = of_nat (m + 1)" "m \<le> 31" by blast
  have "ENVGENSHIFT k = m + 1" using m(5) unfolding ENVGENSHIFT_def m(4) unat_of_nat by simp
  moreover have "(push_bit (m + 1) 1 :: u32) AND NOT (mask m) = push_bit (m + 1) 1" by (rule bit_word_eqI) (auto simp: bit_simps)
  moreover have "NEARPOW2NENV k - 1 = mask m" using assms m(1) by (simp add: table_sized_def and_not_mask_neg)
  ultimately show ?thesis by (simp add: next_env_id_def slot_number_def Let_def)
qed

text \<open>Completing a process that is on the free list.\<close>

lemma completion_ok:
  assumes "table_sized k" "slot_of e i k" "cpu_ok (kcpu k)" "dll env_links (envs k) (env_free_list k) (es @ e # es')"
  obtains k' where "complete_environment_initialization e k = Some k'" "dll env_links (envs k') (env_free_list k') (es @ es')"
    "env_status (envs k' e) = ENV_NEW" "env_id (envs k' e) = next_env_id (env_id (envs k e)) (of_nat i) k"
    "env_slot k' = env_slot k" "NENV k' = NENV k" "NEARPOW2NENV k' = NEARPOW2NENV k" "cpu_ok (kcpu k')"
    "envid2env (env_id (envs k' e)) False k' = Some (0, e, k')"
proof -
  let ?new = "next_env_id (env_id (envs k e)) (of_nat i) k"
  have i: "i < unat (NENV k)" using assms(2) by (simp add: slot_of_def)
  note new = new_id_ok [OF assms(1) i, of "env_id (envs k e)"]
  define x where "x = (envs k e)\<lparr>disk_env_pgdir := NULL, disk_env_pgdir_PA := 0, disk_env_tabledir := NULL, disk_env_tabledir_PA := 0,
    env_id := ?new, env_parent_id := (if cpu_proc (kcpu k) = NULL then 0 else if cpu_proc (kcpu k) = e then ?new
      else env_id (envs k (cpu_proc (kcpu k)))), env_status := ENV_NEW, env_runs := 0\<rparr>"
  let ?t = "(envs k)(e := x)"
  have links: "env_next (?t y) = env_next (envs k y)" "env_prev (?t y) = env_prev (envs k y)" for y by (simp_all add: x_def)
  have "dll env_links ?t (env_free_list k) (es @ e # es')"
    using assms(4) by (rule dll_cong [THEN iffD1, rotated]) (simp_all only: env_links_next links)
  from env_store.remove [OF this pairwise_neq] obtain h t where r: "LIST_REMOVE env_links e (env_free_list k) ?t = Some (h, t)"
    "dll env_links t h (es @ es')" "\<And>y. no_env_links (t y) = no_env_links (?t y)"
    by (auto simp: returns_def split: option.splits)
  have te: "env_id (t e) = ?new" "env_status (t e) = ENV_NEW" using no_env_links_eqD [OF r(3) [of e]] by (simp_all add: x_def)
  let ?dir = "env_page_directory (envs k e)"
  let ?k1 = "set_word ?dir (PDX VPT) (env_cr3 (envs k e) OR PERM_PRESENT OR PERM_WRITEABLE) k"
  let ?k2 = "set_word ?dir (PDX UVPT) (env_cr3 (envs k e) OR PERM_PRESENT OR PERM_USER) ?k1"
  define k' where "k' = ?k2\<lparr>kcpu := peeked (kcpu k), kmem := user_registers (env_tf (envs k e)) (kmem k), env_free_list := h, envs := t\<rparr>"
  have k2: "env_index e ?k2 = of_nat i" "next_env_id o' j ?k2 = next_env_id o' j k" for o' j
    using env_index_slot [OF assms(2)] by (simp_all add: env_index_def next_env_id_def ENVGENSHIFT_def set_word_def cong: if_cong)
  have c: "complete_environment_initialization e k = Some k'"
    using r(1) assms(3) unfolding complete_environment_initialization_def Let_def k2
    by (cases "cpu_proc (kcpu k) = NULL"; cases "cpu_proc (kcpu k) = e")
      (simp_all add: cur_proc_def with_cpu_def get_cpu_proc_eq update_env_def set_word_def on_kmem_def k'_def x_def fun_upd_def
        cong: if_cong)
  have f: "envs k' = t" "env_free_list k' = h" "kcpu k' = peeked (kcpu k)" "env_slot k' = env_slot k" "NEARPOW2NENV k' = NEARPOW2NENV k"
    "NENV k' = NENV k" by (simp_all add: k'_def set_word_def)
  have cp: "cur_proc k' = Some (cpu_proc (kcpu k), k')" using assms(3) by (simp add: cur_proc_def with_cpu_def f get_cpu_proc_eq) 
  have "env_slot k (of_nat i) = e" using assms(2) i by (simp add: slot_of_def)
  from this have "envid2env ?new False k' = Some (0, e, k')"
    using new te cp by (auto simp: envid2env_def ENVX_def f)
  moreover have "cpu_ok (kcpu k')" using assms(3) by (simp add: f)
  ultimately show thesis using that [of k'] c r(2) te f by simp
qed

lemma table_sized_cong: "NENV k' = NENV k \<Longrightarrow> NEARPOW2NENV k' = NEARPOW2NENV k \<Longrightarrow> table_sized k' = table_sized k"
  by (simp add: table_sized_def)

lemma slot_of_cong: "NENV k' = NENV k \<Longrightarrow> env_slot k' = env_slot k \<Longrightarrow> slot_of e i k' = slot_of e i k"
  by (simp add: slot_of_def)

lemma slot_number_cong: "NENV k' = NENV k \<Longrightarrow> slot_number i k' = slot_number i k"
  by (simp add: slot_number_def ENVGENSHIFT_def)

lemma slot_number_ok:
  assumes "table_sized k" "slot_of e i k"
  shows "0 < sint (slot_number i k)" "ENVX (slot_number i k) k = of_nat i" "slot_number i k \<noteq> 0" "env_slot k (of_nat i) = e"
proof -
  have "i < unat (NENV k)" using assms(2) by (simp add: slot_of_def)
  note n = new_id_ok [OF assms(1) this, of 0, unfolded next_env_id_first [OF assms(1)]]
  show "0 < sint (slot_number i k)" "ENVX (slot_number i k) k = of_nat i" "slot_number i k \<noteq> 0"
    using n by (simp_all add: ENVX_def)
  show "env_slot k (of_nat i) = e" using assms(2) \<open>i < unat (NENV k)\<close> by (simp add: slot_of_def)
qed

text \<open>Giving a process back: its slot is all zero, its number with it, and first on the free list.\<close>

lemma free_environment_ok:
  assumes "dll env_links (envs k) (env_free_list k) xs" "e \<noteq> NULL" "e \<notin> set xs"
  obtains k' where "free_environment e k = Some k'" "dll env_links (envs k') (env_free_list k') (e # xs)"
    "no_env_links (envs k' e) = no_env_links zero_env" "env_slot k' = env_slot k" "NENV k' = NENV k"
    "NEARPOW2NENV k' = NEARPOW2NENV k" "kcpu k' = kcpu k"
proof -
  let ?z = "zero_env\<lparr>env_status := ENV_FREE\<rparr>"
  let ?t = "(envs k)(e := ?z)"
  have "dll env_links ?t (env_free_list k) xs"
    using assms(1) by (rule dll_cong [THEN iffD1, rotated]) (use assms(3) in \<open>auto simp: env_links_next\<close>)
  from env_store.insert_head [OF this assms(2,3) pairwise_neq] obtain h t where r:
    "LIST_INSERT_HEAD env_links e (env_free_list k) ?t = Some (h, t)" "dll env_links t h (e # xs)"
    "no_env_links (t e) = no_env_links (?t e)"
    by (auto simp: returns_iff)
  have "free_environment e k = Some (k\<lparr>envs := t, env_free_list := h\<rparr>)"
    using r(1) by (simp add: free_environment_def set_env_status_def update_env_def Let_def)
  from that [OF this] show thesis using r(2,3) by (simp add: zero_env_def)
qed

text \<open>C25: The number a new process gets is that of its slot in the table, with one bit set above: it is
  positive and finds the process. When the process is given back (its slot is cleared and goes first on the
  free list), the number is rejected; but the next process completed in that slot, whatever directory and
  registers it has got, is given the very same number, and is what a stale copy of the number finds.\<close>

theorem process_number_reissued:
  assumes "table_sized k" "slot_of e i k" "cpu_ok (kcpu k)" "dll env_links (envs k) (env_free_list k) (es @ e # es')"
    "env_id (envs k e) = 0"
  shows "\<exists>N k1 k2. N = push_bit (ENVGENSHIFT k) 1 OR of_nat i \<and> 0 < sint N \<and> ENVX N k = of_nat i \<and>
    complete_environment_initialization e k = Some k1 \<and> env_id (envs k1 e) = N \<and> env_status (envs k1 e) = ENV_NEW \<and>
    dll env_links (envs k1) (env_free_list k1) (es @ es') \<and> envid2env N False k1 = Some (0, e, k1) \<and>
    free_environment e k1 = Some k2 \<and> dll env_links (envs k2) (env_free_list k2) (e # es @ es') \<and>
    envid2env N False k2 = Some (E_BAD_ENV, NULL, k2) \<and>
    (\<forall>dir cr3 tf. \<exists>k3. complete_environment_initialization e
         (update_env e (\<lambda>x. x\<lparr>env_page_directory := dir, env_cr3 := cr3, env_tf := tf\<rparr>) k2) = Some k3 \<and>
       dll env_links (envs k3) (env_free_list k3) (es @ es') \<and> env_id (envs k3 e) = N \<and> envid2env N False k3 = Some (0, e, k3))"
proof -
  let ?N = "slot_number i k"
  note n = slot_number_ok [OF assms(1,2)]
  obtain k1 where k1: "complete_environment_initialization e k = Some k1" "dll env_links (envs k1) (env_free_list k1) (es @ es')"
    "env_status (envs k1 e) = ENV_NEW" "env_id (envs k1 e) = ?N"
    "env_slot k1 = env_slot k" "NENV k1 = NENV k" "NEARPOW2NENV k1 = NEARPOW2NENV k" "cpu_ok (kcpu k1)"
    "envid2env ?N False k1 = Some (0, e, k1)"
    by (rule completion_ok [OF assms(1-4)]) (simp add: assms(5) next_env_id_first [OF assms(1)])
  have e: "e \<noteq> NULL" "e \<notin> set (es @ es')" using assms(4) by (auto simp: dll_def)
  obtain k2 where k2: "free_environment e k1 = Some k2" "dll env_links (envs k2) (env_free_list k2) (e # es @ es')"
    "no_env_links (envs k2 e) = no_env_links zero_env" "env_slot k2 = env_slot k1" "NENV k2 = NENV k1"
    "NEARPOW2NENV k2 = NEARPOW2NENV k1" "kcpu k2 = kcpu k1"
    by (rule free_environment_ok [OF k1(2) e]) blast
  have z: "env_id (envs k2 e) = 0" "env_status (envs k2 e) = ENV_FREE"
    using no_env_links_eqD [OF k2(3)] by (simp_all add: zero_env_def)
  have bad: "envid2env ?N False k2 = Some (E_BAD_ENV, NULL, k2)"
    using n z k1(5,7) k2(4,6) by (simp add: envid2env_def ENVX_def)
  have again: "\<exists>k3. complete_environment_initialization e (update_env e g k2) = Some k3 \<and>
      dll env_links (envs k3) (env_free_list k3) (es @ es') \<and> env_id (envs k3 e) = ?N \<and> envid2env ?N False k3 = Some (0, e, k3)"
    if g: "\<And>x. env_id (g x) = env_id x \<and> env_next (g x) = env_next x \<and> env_prev (g x) = env_prev x" for g
  proof -
    let ?k = "update_env e g k2"
    have f: "envs ?k = (envs k2)(e := g (envs k2 e))" "env_free_list ?k = env_free_list k2" "kcpu ?k = kcpu k1" "NENV ?k = NENV k"
      "NEARPOW2NENV ?k = NEARPOW2NENV k" "env_slot ?k = env_slot k"
      using k1 k2 by (simp_all add: update_env_def)
    have links: "env_next (envs ?k y) = env_next (envs k2 y)" "env_prev (envs ?k y) = env_prev (envs k2 y)" for y
      using g by (simp_all add: f)
    have t: "table_sized ?k" "slot_of e i ?k"
      using assms(1,2) table_sized_cong [OF f(4,5)] slot_of_cong [OF f(4,6)] by simp_all
    have "dll env_links (envs ?k) (env_free_list ?k) ([] @ e # es @ es')"
      unfolding f(2) append_Nil using k2(2)
      by (rule dll_cong [THEN iffD1, rotated]) (simp_all only: env_links_next links)
    from completion_ok [OF t _ this] obtain k3 where k3: "complete_environment_initialization e ?k = Some k3"
      "dll env_links (envs k3) (env_free_list k3) ([] @ es @ es')" "env_id (envs k3 e) = next_env_id (env_id (envs ?k e)) (of_nat i) ?k"
      "envid2env (env_id (envs k3 e)) False k3 = Some (0, e, k3)"
      using k1(8) f(3) by metis
    moreover have "env_id (envs ?k e) = 0" using g z by (simp add: f)
    ultimately show ?thesis using next_env_id_first [OF t(1)] slot_number_cong [OF f(4)] by auto
  qed
  show ?thesis
    using n(1,2) k1 k2(1,2) bad again unfolding slot_number_def [symmetric]
    by (intro exI [of _ "?N"] exI [of _ k1] exI [of _ k2]) simp
qed

section \<open>The segments of a program\<close>

definition loadable :: "memory \<Rightarrow> ptr \<Rightarrow> nat \<Rightarrow> bool" where
  "loadable m p i \<longleftrightarrow> p_type m p (of_nat i) = ELF_PROG_LOAD"

definition segments_from :: "memory \<Rightarrow> ptr \<Rightarrow> nat \<Rightarrow> program_segment list" where
  "segments_from m p i = map (\<lambda>i. segment_at m p (of_nat i)) (filter (loadable m p) [i..<unat (e_phnum m p)])"

lemma e_phnum_bound: "unat (e_phnum m p) < 65536"
proof -
  have "\<not> bit (e_phnum m p) n" if "16 \<le> n" for n
    using that by (auto simp: e_phnum_def load16_def bit_simps dest: bit_imp_le_length)
  then have "bit (take_bit 16 (e_phnum m p)) n = bit (e_phnum m p) n" for n by (cases "n < 16") (simp_all add: bit_take_bit_iff)
  then have "take_bit 16 (e_phnum m p) = e_phnum m p" by (simp add: bit_eq_iff)
  then have "unat (e_phnum m p) = unat (take_bit 16 (e_phnum m p))" by simp
  also have "\<dots> = take_bit 16 (unat (e_phnum m p))" by (simp add: unsigned_take_bit_eq)
  also have "\<dots> < 2 ^ 16" by (rule take_bit_nat_less_exp)
  finally show ?thesis by simp
qed

lemma segment_from_next:
  assumes "load32 m p = ELF_MAGIC" "i \<le> unat (e_phnum m p)"
  shows "case segments_from m p i of
      [] \<Rightarrow> segment_from m p (of_nat i) = Some None
    | g # gs \<Rightarrow> segment_from m p (of_nat i) = Some (Some g) \<and>
        (\<exists>j. g = segment_at m p (of_nat j) \<and> i \<le> j \<and> j < unat (e_phnum m p) \<and> segments_from m p (Suc j) = gs)"
  using assms(2)
proof (induction "unat (e_phnum m p) - i" arbitrary: i)
  case 0
  then have i: "i = unat (e_phnum m p)" by simp
  have "\<not> (of_nat i :: u32) < e_phnum m p" by (simp add: i)
  then show ?case using assms(1) by (subst segment_from_def) (subst scan_load.simps, simp add: segments_from_def i)
next
  case (Suc d)
  then have i: "i < unat (e_phnum m p)" by simp
  have u: "unat (of_nat i :: u32) = i" using i e_phnum_bound [of m p] by (simp add: unat_of_nat)
  have lt: "(of_nat i :: u32) < e_phnum m p" using i u by (simp add: word_less_nat_alt)
  have upt: "[i..<unat (e_phnum m p)] = i # [Suc i..<unat (e_phnum m p)]" using i by (rule upt_conv_Cons)
  show ?case
  proof (cases "loadable m p i")
    case True
    have "scan_load (\<lambda>i. p_type m p i = ELF_PROG_LOAD) (e_phnum m p) (of_nat i) = of_nat i"
      using True by (subst scan_load.simps) (simp add: loadable_def)
    then have "segment_from m p (of_nat i) = Some (Some (segment_at m p (of_nat i)))"
      using assms(1) lt by (simp add: segment_from_def)
    then show ?thesis using True i by (auto simp: segments_from_def upt)
  next
    case False
    have s: "scan_load (\<lambda>i. p_type m p i = ELF_PROG_LOAD) (e_phnum m p) (of_nat i) =
      scan_load (\<lambda>i. p_type m p i = ELF_PROG_LOAD) (e_phnum m p) (of_nat (Suc i))"
      using False lt by (subst scan_load.simps) (simp add: loadable_def add.commute)
    have "segment_from m p (of_nat i) = segment_from m p (of_nat (Suc i))" unfolding segment_from_def s ..
    moreover have "segments_from m p i = segments_from m p (Suc i)" using False by (simp add: segments_from_def upt)
    moreover have "d = unat (e_phnum m p) - Suc i" "Suc i \<le> unat (e_phnum m p)" using Suc.hyps(2) i by simp_all
    note Suc.hyps(1) [OF this]
    ultimately show ?thesis by (auto split: list.splits intro: Suc_leD)
  qed
qed

text \<open>Running \<open>f\<close> over a list.\<close>

primrec run_all :: "('a \<Rightarrow> 's \<Rightarrow> 's option) \<Rightarrow> 'a list \<Rightarrow> 's \<Rightarrow> 's option" where
  "run_all f [] s = Some s"
| "run_all f (x # xs) s = do { s1 \<leftarrow> f x s; run_all f xs s1 }"

text \<open>The headers of a program: what the loop reads of the memory.\<close>

definition same_program :: "ptr \<Rightarrow> memory \<Rightarrow> memory \<Rightarrow> bool" where
  "same_program p m m' \<longleftrightarrow> load32 m' p = load32 m p \<and> e_phnum m' p = e_phnum m p \<and>
    (\<forall>i. p_type m' p i = p_type m p i \<and> segment_at m' p i = segment_at m p i)"

lemma segment_from_same: "same_program p m m' \<Longrightarrow> segment_from m' p i = segment_from m p i"
  by (simp add: same_program_def segment_from_def Let_def)

lemma foreach_segment_runs:
  assumes "load32 m p = ELF_MAGIC" and keeps: "\<And>g s s'. body g s = Some s' \<Longrightarrow> same_program p (mem s) (mem s')"
    and "i \<le> unat (e_phnum m p)" "same_program p m (mem s)"
  shows "do { g \<leftarrow> segment_from (mem s) p (of_nat i); foreach_segment mem p body g s } = run_all body (segments_from m p i) s"
  using assms(3,4)
proof (induction "segments_from m p i" arbitrary: i s)
  case Nil
  then show ?case using segment_from_next [OF assms(1) Nil(2)] segment_from_same [OF Nil(3)]
    by (simp add: foreach_segment.simps)
next
  case (Cons g gs)
  have "segment_from m p (of_nat i) = Some (Some g)" and
    "\<exists>j. g = segment_at m p (of_nat j) \<and> i \<le> j \<and> j < unat (e_phnum m p) \<and> segments_from m p (Suc j) = gs"
    using segment_from_next [OF assms(1) Cons.prems(1)] Cons.hyps(2) by (simp_all split: list.splits)
  then obtain j where j: "segment_from m p (of_nat i) = Some (Some g)" "g = segment_at m p (of_nat j)" "j < unat (e_phnum m p)"
    "segments_from m p (Suc j) = gs" by blast
  have f: "segment_from (mem s) p (of_nat i) = Some (Some g)" using j(1) segment_from_same [OF Cons.prems(2)] by simp
  have id: "segment_id g + 1 = of_nat (Suc j)" by (simp add: j(2) segment_at_def Let_def)
  show ?case
  proof (cases "body g s")
    case None
    then show ?thesis by (simp add: f foreach_segment.simps Cons.hyps(2) [symmetric])
  next
    case (Some s1)
    have "same_program p m (mem s1)" using keeps [OF Some] Cons.prems(2) by (simp add: same_program_def)
    then have "do { g \<leftarrow> segment_from (mem s1) p (of_nat (Suc j)); foreach_segment mem p body g s1 } = run_all body gs s1"
      using Cons.hyps(1) [of "Suc j" s1] j(3,4) by simp
    then show ?thesis using Some
      by (simp add: f Cons.hyps(2) [symmetric]) (simp add: foreach_segment.simps [of mem p body "Some g"] PROGRAM_SEGMENT_NEXT_def id)
  qed
qed

text \<open>The loop over the segments of a program ends, after running its body once for each program
  header that is to be loaded, in their order; the body must leave the headers alone.\<close>

theorem program_segments_in_order:
  assumes "load32 (mem s) p = ELF_MAGIC" and "\<forall>g s s'. body g s = Some s' \<longrightarrow> same_program p (mem s) (mem s')"
  shows "do { g \<leftarrow> PROGRAM_SEGMENT_FIRST (mem s) p; foreach_segment mem p body g s } =
    run_all body (map (\<lambda>i. segment_at (mem s) p (of_nat i)) (filter (\<lambda>i. p_type (mem s) p (of_nat i) = 1) [0..<unat (e_phnum (mem s) p)])) s"
proof -
  have "same_program p (mem s) (mem s)" by (simp add: same_program_def)
  then show ?thesis
    using foreach_segment_runs [where m = "mem s" and mem = mem and s = s and body = body and i = 0 and p = p] assms
    by (simp add: PROGRAM_SEGMENT_FIRST_def segments_from_def loadable_def [abs_def])
qed

section \<open>A process and a program\<close>

definition boot_slot :: ptr where
  "boot_slot = 0xEEC00C00"

definition boot_env_kern :: kern where
  "boot_env_kern = boot_kern\<lparr>env_free_list := \<lparr>lh_first = boot_slot, lh_last = boot_slot, lh_size = 1\<rparr>,
     envs := (\<lambda>_. blank_env)\<rparr>"

theorem process_number_reissued_witness:
  "\<exists>k1 k2 k3. complete_environment_initialization boot_slot boot_env_kern = Some k1 \<and>
     envid2env 0x23 False k1 = Some (0, boot_slot, k1) \<and> free_environment boot_slot k1 = Some k2 \<and>
     envid2env 0x23 False k2 = Some (E_BAD_ENV, NULL, k2) \<and>
     complete_environment_initialization boot_slot
       (update_env boot_slot (\<lambda>x. x\<lparr>env_page_directory := 0xF0500000, env_cr3 := 0x00500000, env_tf := 0xEF000FB4\<rparr>) k2) = Some k3 \<and>
     envid2env 0x23 False k3 = Some (0, boot_slot, k3)"
proof -
  have p: "nearest_pow2_ceil 16 = 16" by (simp add: nearest_pow2_ceil_def pow2_loop.simps drop_bit_eq_div word_le_nat_alt)
  have t: "table_sized boot_env_kern" by (simp add: table_sized_def boot_env_kern_def boot_kern_def p)
  have s: "slot_of boot_slot 3 boot_env_kern"
  proof -
    have "(of_nat j * 0x400 :: u32) = 0xC00 \<longleftrightarrow> j = 3" if "j < 16" for j
      using that by (simp add: word_unat_eq_iff unat_word_ariths unat_of_nat)
    then show ?thesis by (simp add: slot_of_def boot_env_kern_def boot_kern_def boot_slot_def)
  qed
  have c: "cpu_ok (kcpu boot_env_kern)" by (simp add: boot_env_kern_def boot_kern_def boot_cpu_def cpu_ok_def)
  have d: "dll env_links (envs boot_env_kern) (env_free_list boot_env_kern) ([] @ boot_slot # [])"
    by (simp add: dll_def boot_env_kern_def boot_slot_def blank_env_def)
  have i: "env_id (envs boot_env_kern boot_slot) = 0" by (simp add: boot_env_kern_def blank_env_def)
  have "ENVGENSHIFT boot_env_kern = 5"
    by (simp add: ENVGENSHIFT_def boot_env_kern_def boot_kern_def log2_ceil_def log2_loop.simps drop_bit_eq_div word_le_nat_alt)
  then have N: "push_bit (ENVGENSHIFT boot_env_kern) 1 OR of_nat 3 = (0x23 :: u32)" by (simp add: push_bit_eq_mult)
  from process_number_reissued [OF t s c d i, unfolded N] show ?thesis by blast
qed

definition tiny_program :: memory where
  "tiny_program = store32 0x1000 ELF_MAGIC (store32 0x101C 52 (store16 0x102C 2 (store32 0x1054 1 (\<lambda>_. 0))))"

theorem program_segments_in_order_witness:
  "do { g \<leftarrow> PROGRAM_SEGMENT_FIRST tiny_program 0x1000;
        foreach_segment fst 0x1000 (\<lambda>g (m, ids). Some (m, ids @ [segment_id g])) g (tiny_program, []) } = Some (tiny_program, [1])"
proof -
  have m: "load32 tiny_program 0x1000 = ELF_MAGIC" "e_phnum tiny_program 0x1000 = 2" "program_headers tiny_program 0x1000 = 0x1034"
    "load32 tiny_program 0x1034 = 0" "load32 tiny_program 0x1054 = 1"
    by (simp_all add: tiny_program_def e_phnum_def program_headers_def load32_def load16_def store32_def store16_def drop_bit_eq_div push_bit_eq_mult)
  have b: "\<forall>g s s'. (case s of (m, ids) \<Rightarrow> Some (m, ids @ [segment_id g])) = Some s' \<longrightarrow> same_program 0x1000 (fst s) (fst s')"
    by (auto simp: same_program_def)
  have "[0..<2] = [0, 1 :: nat]" by (simp add: numeral_2_eq_2)
  then show ?thesis
    using program_segments_in_order [of fst "(tiny_program, [])" "0x1000" "\<lambda>g (m, ids). Some (m, ids @ [segment_id g])"] m b
    by (simp add: p_type_def segment_at_def Let_def)
qed

end
