(* ===== verification/FOS_PageFileProps.thy ===== *)
theory FOS_PageFileProps
  imports FOS_PageFile FOS_BootState FOS_Translate
begin

text \<open>
  The page file as a map from places (a table of disk frames and an index) to page contents:
  adding a page updates the map at one place, removing deletes it, reading looks it up.
\<close>

section \<open>The disk lock\<close>

definition cpu_free :: "cpu \<Rightarrow> bool" where
  "cpu_free c \<longleftrightarrow> cpu_ok c \<and> ncli c < 0x7FFFFFFE"

lemma cpu_free_peeked [simp]: "cpu_free c \<Longrightarrow> cpu_free (peeked c)"
  by (simp add: cpu_free_def)

lemma spin_session:
  assumes "cpu_free c" "lk_locked l = 0"
  shows "acquire_spinlock l c = Some (l\<lparr>lk_locked := 1, lk_cpu := Some 0\<rparr>, pushcli c)"
    "release_spinlock (l\<lparr>lk_locked := 1, lk_cpu := Some 0\<rparr>) (pushcli c) = Some (l\<lparr>lk_locked := 0, lk_cpu := None\<rparr>, peeked c)"
proof -
  have c: "cpu_ok c" "cpu_ok (pushcli c)" using assms(1) cpu_ok_pushcli [of c] by (simp_all add: cpu_free_def)
  show "acquire_spinlock l c = Some (l\<lparr>lk_locked := 1, lk_cpu := Some 0\<rparr>, pushcli c)"
    using c assms(2) by (simp add: acquire_spinlock_eq)
  show "release_spinlock (l\<lparr>lk_locked := 1, lk_cpu := Some 0\<rparr>) (pushcli c) = Some (l\<lparr>lk_locked := 0, lk_cpu := None\<rparr>, peeked c)"
    using release_spinlock_eq [OF nested_pushcli [OF c(1)] c(2)] peeked_alt [OF c(1)] by simp
qed

definition disk_idle :: "kern \<Rightarrow> bool" where
  "disk_idle k \<longleftrightarrow> cpu_free (kcpu k) \<and> lk_locked (dfllock k) = 0"

section \<open>Free disk frames\<close>

definition disk_number :: "u32 \<Rightarrow> bool" where
  "disk_number d \<longleftrightarrow> 0 < d \<and> unat d < PAGES_PER_FILE"

definition disk_free :: "kern \<Rightarrow> u32 list \<Rightarrow> bool" where
  "disk_free k ds \<longleftrightarrow> dll frame_links (frames k) (disk_free_frame_list k) (map (disk_frame_at k) ds) \<and> (\<forall>d \<in> set ds. disk_number d)"

text \<open>The descriptors of disk frames are not those of memory frames, and none is \<^verbatim>\<open>NULL\<close>.\<close>

definition arrays_apart :: "kern \<Rightarrow> bool" where
  "arrays_apart k \<longleftrightarrow> (\<forall>d. disk_number d \<longrightarrow> disk_frame_at k d \<noteq> NULL \<and> (\<forall>n < number_of_frames k. frame_at k n \<noteq> disk_frame_at k d))"

lemma disk_frame_number: "disk_number d \<Longrightarrow> to_disk_frame_number (disk_frame_at k d) k = d"
proof -
  assume d: "disk_number d"
  then have m: "unat (32 * d) = 32 * unat d" by (simp add: disk_number_def PAGES_PER_FILE_def unat_word_ariths)
  have "to_disk_frame_number (disk_frame_at k d) k = 32 * d div 32" by (simp add: to_disk_frame_number_def disk_frame_at_def)
  also have "\<dots> = d" by (rule word_unat_eq_iff [THEN iffD2]) (simp add: unat_div m)
  finally show ?thesis .
qed

lemma disk_frame_inj: "disk_number d \<Longrightarrow> disk_number d' \<Longrightarrow> disk_frame_at k d = disk_frame_at k d' \<Longrightarrow> d = d'"
  using disk_frame_number by metis

text \<open>What the disk routines leave alone.\<close>

definition disk_only :: "kern \<Rightarrow> kern \<Rightarrow> bool" where
  "disk_only k' k \<longleftrightarrow> envs k' = envs k \<and> number_of_frames k' = number_of_frames k \<and> frames_info k' = frames_info k \<and>
     disk_frames_info k' = disk_frames_info k \<and> disk_bad k' = disk_bad k \<and> frame_data k' = frame_data k \<and>
     cpu_proc (kcpu k') = cpu_proc (kcpu k) \<and> kmem k' = kmem k \<and>
     ptr_zero_page k' = ptr_zero_page k \<and> ptr_temp_page k' = ptr_temp_page k \<and> (\<forall>n < number_of_frames k. frames k' (frame_at k n) = frames k (frame_at k n))"

lemma disk_only_refl [simp]: "disk_only k k"
  by (simp add: disk_only_def)

lemma disk_only_trans: "disk_only k2 k1 \<Longrightarrow> disk_only k1 k \<Longrightarrow> disk_only k2 k"
  by (auto simp: disk_only_def frame_at_def)

lemma disk_only_updates [simp]:
  "disk_only (set_word t i v k) k" "disk_only (k\<lparr>disk_data := dd\<rparr>) k"
  by (simp_all add: disk_only_def set_word_def)

lemma disk_only_D:
  assumes "disk_only k' k"
  shows "arrays_apart k' = arrays_apart k" "disk_frame_at k' = disk_frame_at k" "disk_table_address va en k' = disk_table_address va en k"
    "envs k' = envs k" "disk_bad k' = disk_bad k" "kheap_virtual_address pa k' = kheap_virtual_address pa k"
proof -
  have a: "number_of_frames k' = number_of_frames k" "frames_info k' = frames_info k" "disk_frames_info k' = disk_frames_info k"
    "\<And>n. n < number_of_frames k \<Longrightarrow> frames k' (frame_at k n) = frames k (frame_at k n)"
    using assms by (auto simp: disk_only_def)
  show d: "disk_frame_at k' = disk_frame_at k" by (simp add: disk_frame_at_def a fun_eq_iff)
  show "arrays_apart k' = arrays_apart k" by (simp add: arrays_apart_def d a frame_at_def)
  have v: "kheap_virtual_address pa k' = kheap_virtual_address pa k" for pa
    using a(4) [of "PPN pa"] by (auto simp: kheap_virtual_address_def to_frame_info_def frame_at_def to_frame_number_def a(1,2) not_le split: if_splits)
  then show "kheap_virtual_address pa k' = kheap_virtual_address pa k" .
  show "disk_table_address va en k' = disk_table_address va en k"
    by (simp add: disk_table_address_def STATIC_KERNEL_VIRTUAL_ADDRESS_def a(1) v)
  show "envs k' = envs k" "disk_bad k' = disk_bad k" using assms by (simp_all add: disk_only_def)
qed

lemma allocate_disk_frame_empty:
  assumes "disk_idle k" "disk_free k []"
  shows "\<exists>k'. allocate_disk_frame dfn k = Some (E_NO_PAGE_FILE_SPACE, dfn, k') \<and> disk_idle k' \<and> disk_free k' [] \<and>
    words k' = words k \<and> disk_data k' = disk_data k \<and> disk_only k' k"
proof -
  have "lh_first (disk_free_frame_list k) = NULL" using assms(2) by (simp add: disk_free_def dll_def)
  then show ?thesis
    using assms spin_session [of "kcpu k" "dfllock k"]
    by (simp add: disk_idle_def allocate_disk_frame_def acquire_dfllock_def release_dfllock_def disk_free_def disk_only_def frame_at_def Let_def)
qed

lemma allocate_disk_frame_ok:
  assumes i: "disk_idle k" and f: "disk_free k (d # ds)" and a: "arrays_apart k"
  shows "\<exists>k'. allocate_disk_frame dfn k = Some (0, d, k') \<and> disk_idle k' \<and> disk_free k' ds \<and> words k' = words k \<and>
    disk_data k' = disk_data k \<and> disk_only k' k"
proof -
  let ?f = "disk_frame_at k d" let ?fs = "map (disk_frame_at k) ds"
  have dn: "disk_number d" "\<forall>x \<in> set ds. disk_number x" using f by (simp_all add: disk_free_def)
  have dl: "dll frame_links (frames k) (disk_free_frame_list k) ([] @ ?f # ?fs)" using f by (simp add: disk_free_def)
  then have nf: "?f \<notin> set ?fs" "lh_first (disk_free_frame_list k) = ?f" "?f \<noteq> NULL" by (auto simp: dll_def)
  from frame_store.remove [OF dl] obtain h t where
    r: "LIST_REMOVE frame_links ?f (disk_free_frame_list k) (frames k) = Some (h, t)" and
    dt: "dll frame_links t h ?fs" "\<forall>c. no_frame_links (t c) = no_frame_links (frames k c)"
      "\<forall>z. (\<forall>y \<in> set (?f # ?fs). z \<noteq> y) \<longrightarrow> fi_next (t z) = fi_next (frames k z) \<and> fi_prev (t z) = fi_prev (frames k z)"
    by (auto simp: returns_iff)
  let ?t = "t(?f := zero_frame)"
  have d': "dll frame_links ?t h ?fs"
  proof -
    have "?t z = t z" if "z \<in> set ?fs" for z using nf(1) that by (metis fun_upd_other)
    then have "dll frame_links ?t h ?fs = dll frame_links t h ?fs" by (intro dll_cong) simp
    then show ?thesis using dt(1) by simp
  qed
  have same: "?t z = frames k z" if z: "z \<notin> set (?f # ?fs)" for z
  proof -
    have "no_frame_links (t z) = no_frame_links (frames k z)" "fi_next (t z) = fi_next (frames k z)" "fi_prev (t z) = fi_prev (frames k z)"
      using dt(2,3) z by auto
    then have "t z = frames k z" by (cases "t z"; cases "frames k z") simp
    then show ?thesis using z by simp
  qed
  have apart: "frame_at k n \<notin> set (?f # ?fs)" if "n < number_of_frames k" for n
    using a that dn by (auto simp: arrays_apart_def)
  let ?k = "k\<lparr>dfllock := (dfllock k)\<lparr>lk_locked := 0, lk_cpu := None\<rparr>, kcpu := peeked (kcpu k), disk_free_frame_list := h, frames := ?t\<rparr>"
  have num: "(?f - disk_frames_info k) div 32 = d" using disk_frame_number [OF dn(1), of k] by (simp add: to_disk_frame_number_def)
  have "allocate_disk_frame dfn k = Some (0, d, ?k)"
    using i nf(2,3) spin_session [of "kcpu k" "dfllock k"] r num
    by (simp add: disk_idle_def allocate_disk_frame_def acquire_dfllock_def release_dfllock_def on_disk_frames_def
        initialize_frame_info_def to_disk_frame_number_def Let_def)
  moreover have "disk_frame_at ?k = disk_frame_at k" by (simp add: disk_frame_at_def fun_eq_iff)
  then have "disk_free ?k ds" using d' dn(2) by (simp add: disk_free_def)
  moreover have "disk_only ?k k" using same apart by (simp add: disk_only_def frame_at_def)
  moreover have "disk_idle ?k" using i by (simp add: disk_idle_def)
  ultimately show ?thesis by (intro exI [of _ ?k]) simp
qed

lemma free_disk_frame_ok:
  assumes i: "disk_idle k" and f: "disk_free k ds" and a: "arrays_apart k" and d: "disk_number d" "d \<notin> set ds"
  shows "\<exists>k'. free_disk_frame d k = Some k' \<and> disk_idle k' \<and> disk_free k' (d # ds) \<and> words k' = words k \<and>
    disk_data k' = disk_data k \<and> disk_only k' k"
proof -
  let ?f = "disk_frame_at k d" let ?fs = "map (disk_frame_at k) ds"
  have dn: "\<forall>x \<in> set ds. disk_number x" using f by (simp add: disk_free_def)
  have dl: "dll frame_links (frames k) (disk_free_frame_list k) ?fs" using f by (simp add: disk_free_def)
  have nf: "?f \<notin> set ?fs" "?f \<noteq> NULL" using disk_frame_inj [OF d(1), of _ k] dn d a by (auto simp: arrays_apart_def)
  from frame_store.insert_head [OF dl nf(2,1)] obtain h t where
    r: "LIST_INSERT_HEAD frame_links ?f (disk_free_frame_list k) (frames k) = Some (h, t)" and
    dt: "dll frame_links t h (?f # ?fs)" "\<forall>c. no_frame_links (t c) = no_frame_links (frames k c)"
      "\<forall>z. (\<forall>y \<in> set (?f # ?fs). z \<noteq> y) \<longrightarrow> fi_next (t z) = fi_next (frames k z) \<and> fi_prev (t z) = fi_prev (frames k z)"
    by (auto simp: returns_iff)
  have same: "t z = frames k z" if z: "z \<notin> set (?f # ?fs)" for z
  proof -
    have "no_frame_links (t z) = no_frame_links (frames k z)" "fi_next (t z) = fi_next (frames k z)" "fi_prev (t z) = fi_prev (frames k z)"
      using dt(2,3) z by auto
    then show ?thesis by (cases "t z"; cases "frames k z") simp
  qed
  have apart: "frame_at k n \<notin> set (?f # ?fs)" if "n < number_of_frames k" for n
    using a that dn d(1) by (auto simp: arrays_apart_def)
  let ?k = "k\<lparr>dfllock := (dfllock k)\<lparr>lk_locked := 0, lk_cpu := None\<rparr>, kcpu := peeked (kcpu k), disk_free_frame_list := h, frames := t\<rparr>"
  have "d \<noteq> 0" using d(1) by (auto simp: disk_number_def)
  then have "free_disk_frame d k = Some ?k"
    using i spin_session [of "kcpu k" "dfllock k"] r
    by (simp add: disk_idle_def free_disk_frame_def acquire_dfllock_def release_dfllock_def on_disk_frames_def disk_frame_at_def Let_def)
  moreover have "disk_frame_at ?k = disk_frame_at k" by (simp add: disk_frame_at_def fun_eq_iff)
  then have "disk_free ?k (d # ds)" using dt(1) dn d(1) by (simp add: disk_free_def)
  moreover have "disk_only ?k k" using same apart by (simp add: disk_only_def frame_at_def)
  moreover have "disk_idle ?k" using i by (simp add: disk_idle_def)
  ultimately show ?thesis by (intro exI [of _ ?k]) simp
qed

section \<open>The page file as a map\<close>

text \<open>
  \<open>page_place k e va\<close>: the table and the index where the disk frame of a page of process \<open>e\<close> is
  recorded, when the tables exist. \<open>stored k p\<close>: the page kept for a place.
\<close>

definition page_place :: "kern \<Rightarrow> ptr \<Rightarrow> u32 \<Rightarrow> (ptr \<times> u32) option" where
  "page_place k e va =
    (let dir = disk_env_pgdir (envs k e); entry = words k dir (PDX va) in
     if dir = NULL \<or> entry = 0 then None
     else case disk_table_address va entry k of
       None \<Rightarrow> None
     | Some t \<Rightarrow> if t = NULL \<or> t = dir then None else Some (t, PTX va))"

definition stored :: "kern \<Rightarrow> ptr \<times> u32 \<rightharpoonup> page_bytes" where
  "stored k p = (if words k (fst p) (snd p) = 0 then None else Some (disk_data k (words k (fst p) (snd p))))"

text \<open>\<open>S\<close> are the places in use by all processes, \<open>ds\<close> the free disk frames.\<close>

definition pf_ok :: "(ptr \<times> u32) set \<Rightarrow> kern \<Rightarrow> u32 list \<Rightarrow> bool" where
  "pf_ok S k ds \<longleftrightarrow> disk_idle k \<and> disk_free k ds \<and> arrays_apart k \<and> (\<forall>d. \<not> disk_bad k d) \<and>
     (\<forall>p \<in> S. words k (fst p) (snd p) \<noteq> 0 \<longrightarrow> disk_number (words k (fst p) (snd p)) \<and> words k (fst p) (snd p) \<notin> set ds) \<and>
     (\<forall>p \<in> S. \<forall>q \<in> S. words k (fst p) (snd p) = words k (fst q) (snd q) \<longrightarrow> words k (fst p) (snd p) \<noteq> 0 \<longrightarrow> p = q)"

lemma page_place_D:
  assumes "page_place k e va = Some (t, i)"
  shows "disk_env_pgdir (envs k e) \<noteq> NULL" "t \<noteq> NULL" "i = PTX va" "t \<noteq> disk_env_pgdir (envs k e)"
    "get_disk_page_directory e k = Some (0, k)" "get_disk_page_table (disk_env_pgdir (envs k e)) va c k = Some (0, t, k)"
  using assms
  by (auto simp: page_place_def Let_def get_disk_page_directory_def get_disk_page_table_def split: if_splits option.splits)

lemma page_place_kept:
  assumes "page_place k e va = Some (t, i)" "disk_only k' k" "\<And>x. words k' (disk_env_pgdir (envs k e)) x = words k (disk_env_pgdir (envs k e)) x"
  shows "page_place k' e va = Some (t, i)"
  using assms(1) by (simp add: page_place_def Let_def disk_only_D(3,4) [OF assms(2)] assms(3) split: if_splits)

lemma user_frame_kept:
  assumes u: "user_frame va k = Some f" and g: "get_frame_info (env_page_directory (envs k (cpu_proc (kcpu k)))) va k = Some (f, pt)"
    and d: "disk_only k' k" and w: "words k' (env_page_directory (envs k (cpu_proc (kcpu k)))) = words k (env_page_directory (envs k (cpu_proc (kcpu k))))"
      "words k' pt = words k pt"
  shows "user_frame va k' = Some f"
proof -
  let ?dir = "env_page_directory (envs k (cpu_proc (kcpu k)))"
  have a: "number_of_frames k' = number_of_frames k" "frames_info k' = frames_info k" "cpu_proc (kcpu k') = cpu_proc (kcpu k)" "envs k' = envs k"
    using d by (simp_all add: disk_only_def)
  have p: "get_page_table ?dir va k' = get_page_table ?dir va k"
    by (simp add: get_page_table_def Let_def STATIC_KERNEL_VIRTUAL_ADDRESS_def w(1) a(1) disk_only_D(6) [OF d])
  from g obtain ret where r: "get_page_table ?dir va k = Some (ret, pt)"
    by (auto simp: get_frame_info_def bind_eq_Some_conv Let_def split: if_splits)
  have "get_frame_info ?dir va k' = Some (f, pt)"
    using g by (simp add: get_frame_info_def p r w(2) Let_def to_frame_info_def frame_at_def a(1,2) split: if_splits)
  then show ?thesis using u g by (simp add: user_frame_def a(3,4) w(2) split: if_splits)
qed

lemma disk_free_distinct: "disk_free k ds \<Longrightarrow> distinct ds"
  by (auto simp: disk_free_def dll_def distinct_map)

lemma disk_free_fields: "disk_free (set_word t i v k) ds = disk_free k ds" "disk_free (k\<lparr>disk_data := dd\<rparr>) ds = disk_free k ds"
  "disk_idle (set_word t i v k) = disk_idle k" "disk_idle (k\<lparr>disk_data := dd\<rparr>) = disk_idle k"
proof -
  have "disk_frame_at (set_word t i v k) = disk_frame_at k" "disk_frame_at (k\<lparr>disk_data := dd\<rparr>) = disk_frame_at k"
    by (simp_all add: disk_frame_at_def set_word_def fun_eq_iff)
  then show "disk_free (set_word t i v k) ds = disk_free k ds" "disk_free (k\<lparr>disk_data := dd\<rparr>) ds = disk_free k ds"
    by (simp_all add: disk_free_def set_word_def)
qed (simp_all add: disk_idle_def set_word_def)

lemma words_set_word: "words (set_word t i v k) a b = (if a = t \<and> b = i then v else words k a b)"
  by (simp add: set_word_def)

text \<open>Finding the disk frame of a page, or giving it one.\<close>

lemma find_disk_frame_ok:
  assumes ok: "pf_ok S k ds" and pl: "page_place k e va = Some p" "p \<in> S" and va: "va < KERNEL_BASE"
    and full: "words k (fst p) (snd p) = 0 \<Longrightarrow> ds \<noteq> []"
  shows "\<exists>k' d ds'. find_disk_frame e va k = Some (Inr d, k') \<and> pf_ok S k' ds' \<and> disk_only k' k \<and> disk_data k' = disk_data k \<and>
    words k' (fst p) (snd p) = d \<and> d \<noteq> 0 \<and> (\<forall>q. q \<noteq> p \<longrightarrow> words k' (fst q) (snd q) = words k (fst q) (snd q)) \<and>
    (\<forall>q \<in> S. q \<noteq> p \<longrightarrow> words k (fst q) (snd q) \<noteq> d) \<and> ds' = (if words k (fst p) (snd p) = 0 then tl ds else ds)"
proof -
  obtain t i where p: "p = (t, i)" by (cases p)
  note pp = page_place_D [OF pl(1) [unfolded p]]
  from ok have o: "disk_idle k" "disk_free k ds" "arrays_apart k" "\<And>d. \<not> disk_bad k d"
    "\<And>q. q \<in> S \<Longrightarrow> words k (fst q) (snd q) \<noteq> 0 \<Longrightarrow> disk_number (words k (fst q) (snd q)) \<and> words k (fst q) (snd q) \<notin> set ds"
    "\<And>q r. q \<in> S \<Longrightarrow> r \<in> S \<Longrightarrow> words k (fst q) (snd q) = words k (fst r) (snd r) \<Longrightarrow> words k (fst q) (snd q) \<noteq> 0 \<Longrightarrow> q = r"
    by (simp_all add: pf_ok_def)
  have va': "\<not> KERNEL_BASE \<le> va" using va by simp
  show ?thesis
  proof (cases "words k t i = 0")
    case False
    have "find_disk_frame e va k = Some (Inr (words k t i), k)"
      using False pp va' by (simp add: find_disk_frame_def)
    moreover have "\<forall>q \<in> S. q \<noteq> p \<longrightarrow> words k (fst q) (snd q) \<noteq> words k t i"
      using o(6) [OF _ pl(2)] False unfolding p by auto
    ultimately show ?thesis using ok False unfolding p by (intro exI [of _ k] exI [of _ "words k t i"] exI [of _ ds]) simp
  next
    case True
    then obtain d ds' where ds: "ds = d # ds'" using full unfolding p by (cases ds) auto
    from allocate_disk_frame_ok [OF o(1) o(2) [unfolded ds] o(3)] obtain k1 where
      k1: "allocate_disk_frame 0 k = Some (0, d, k1)" "disk_idle k1" "disk_free k1 ds'" "words k1 = words k" "disk_data k1 = disk_data k" "disk_only k1 k"
      by blast
    have dn: "disk_number d" "d \<notin> set ds'" using o(2) disk_free_distinct [OF o(2)] unfolding ds by (simp_all add: disk_free_def)
    then have d0: "d \<noteq> 0" by (auto simp: disk_number_def)
    let ?k = "set_word t i d k1"
    have w: "words ?k (fst q) (snd q) = (if q = p then d else words k (fst q) (snd q))" for q
      unfolding p by (cases q) (auto simp: words_set_word k1(4))
    have nd: "words k (fst q) (snd q) \<noteq> d" if "q \<in> S" for q
      using o(5) [OF that] d0 unfolding ds by auto
    have "pf_ok S ?k ds'"
      unfolding pf_ok_def
    proof (intro conjI ballI impI allI)
      show "disk_idle ?k" "disk_free ?k ds'" using k1(2,3) by (simp_all add: disk_free_fields)
      show "arrays_apart ?k" using o(3) disk_only_D(1) [OF disk_only_trans [OF disk_only_updates(1) k1(6)]] by simp
      show "\<not> disk_bad ?k x" for x using o(4) disk_only_D(5) [OF disk_only_trans [OF disk_only_updates(1) k1(6)]] by simp
      show "disk_number (words ?k (fst q) (snd q))" "words ?k (fst q) (snd q) \<notin> set ds'"
        if "q \<in> S" "words ?k (fst q) (snd q) \<noteq> 0" for q
        using that o(5) [OF that(1)] dn unfolding w ds by (auto split: if_splits)
      show "q = r" if "q \<in> S" "r \<in> S" "words ?k (fst q) (snd q) = words ?k (fst r) (snd r)" "words ?k (fst q) (snd q) \<noteq> 0" for q r
        using that o(6) [OF that(1,2)] nd [OF that(1)] nd [OF that(2)] unfolding w by (auto split: if_splits)
    qed
    moreover have "find_disk_frame e va k = Some (Inr d, ?k)"
      using True pp va' k1(1) by (simp add: find_disk_frame_def)
    ultimately show ?thesis
      using w d0 nd k1(5) disk_only_trans [OF disk_only_updates(1) k1(6)]
      by (intro exI [of _ ?k] exI [of _ d] exI [of _ ds']) (simp add: set_word_def ds True p)
  qed
qed

section \<open>Adding, removing and reading as map operations\<close>

lemma pf_ok_disk_data: "pf_ok S (k\<lparr>disk_data := dd\<rparr>) ds = pf_ok S k ds"
  using disk_only_D(1) [OF disk_only_updates(2) [of dd k]] by (simp add: pf_ok_def disk_free_fields)

lemma pf_add_ok:
  assumes ok: "pf_ok S k ds" and pl: "page_place k e va = Some p" "p \<in> S" and va: "va < KERNEL_BASE"
    and full: "stored k p = None \<Longrightarrow> ds \<noteq> []"
  shows "\<exists>k' ds'. pf_add_env_page e va b k = Some (0, k') \<and> pf_ok S k' ds' \<and> disk_only k' k \<and>
    (\<forall>q \<in> S. stored k' q = ((stored k)(p \<mapsto> b)) q) \<and> page_place k' e va = Some p \<and>
    (\<forall>q. q \<noteq> p \<longrightarrow> words k' (fst q) (snd q) = words k (fst q) (snd q)) \<and> ds' = (if stored k p = None then tl ds else ds)"
proof -
  have "words k (fst p) (snd p) = 0 \<Longrightarrow> ds \<noteq> []" using full by (simp add: stored_def)
  from find_disk_frame_ok [OF ok pl va this] obtain k1 d ds' where
    k1: "find_disk_frame e va k = Some (Inr d, k1)" "pf_ok S k1 ds'" "disk_only k1 k" "disk_data k1 = disk_data k"
      "words k1 (fst p) (snd p) = d" "d \<noteq> 0" "\<And>q. q \<noteq> p \<Longrightarrow> words k1 (fst q) (snd q) = words k (fst q) (snd q)"
      "\<And>q. q \<in> S \<Longrightarrow> q \<noteq> p \<Longrightarrow> words k (fst q) (snd q) \<noteq> d" "ds' = (if words k (fst p) (snd p) = 0 then tl ds else ds)" by blast
  let ?k = "k1\<lparr>disk_data := (disk_data k1)(d := b)\<rparr>"
  have "\<not> disk_bad k1 d" using k1(2) by (simp add: pf_ok_def)
  then have "pf_add_env_page e va b k = Some (0, ?k)" using k1(1) by (simp add: pf_add_env_page_def write_disk_page_def)
  moreover have "pf_ok S ?k ds'" using k1(2) by (simp only: pf_ok_disk_data)
  moreover have "disk_only ?k k" by (rule disk_only_trans [OF disk_only_updates(2) k1(3)])
  moreover have "stored ?k q = ((stored k)(p \<mapsto> b)) q" if "q \<in> S" for q
    using k1(4-6) k1(7) [of q] k1(8) [OF that] by (cases "q = p") (simp_all add: stored_def)
  moreover have "page_place ?k e va = Some p"
  proof -
    obtain t i where p: "p = (t, i)" by (cases p)
    have n: "t \<noteq> disk_env_pgdir (envs k e)" using page_place_D(4) [OF pl(1) [unfolded p]] .
    have "words ?k (disk_env_pgdir (envs k e)) x = words k (disk_env_pgdir (envs k e)) x" for x
      using k1(7) [of "(disk_env_pgdir (envs k e), x)"] n unfolding p by simp
    then show ?thesis using page_place_kept [OF pl(1) [unfolded p] disk_only_trans [OF disk_only_updates(2) k1(3)]] unfolding p by simp
  qed
  moreover have "\<forall>q. q \<noteq> p \<longrightarrow> words ?k (fst q) (snd q) = words k (fst q) (snd q)" using k1(7) by simp
  moreover have "ds' = (if stored k p = None then tl ds else ds)" using k1(9) by (simp add: stored_def)
  ultimately show ?thesis by blast
qed

lemma pf_add_full:
  assumes ok: "pf_ok S k []" and pl: "page_place k e va = Some p" and va: "va < KERNEL_BASE" and full: "stored k p = None"
  shows "\<exists>k'. pf_add_env_page e va b k = Some (E_NO_PAGE_FILE_SPACE, k') \<and> pf_ok S k' [] \<and> disk_only k' k \<and> stored k' = stored k \<and>
    page_place k' e va = Some p"
proof -
  obtain t i where p: "p = (t, i)" by (cases p)
  note pp = page_place_D [OF pl [unfolded p]]
  have o: "disk_idle k" "disk_free k []" "\<not> KERNEL_BASE \<le> va" "words k t i = 0"
    using ok va full unfolding p by (simp_all add: pf_ok_def stored_def split: if_splits)
  from allocate_disk_frame_empty [OF o(1,2), of 0] obtain k1 where
    k1: "allocate_disk_frame 0 k = Some (E_NO_PAGE_FILE_SPACE, 0, k1)" "disk_idle k1" "disk_free k1 []" "words k1 = words k"
      "disk_data k1 = disk_data k" "disk_only k1 k" by blast
  have "pf_add_env_page e va b k = Some (E_NO_PAGE_FILE_SPACE, k1)"
    using o(3,4) pp k1(1) by (simp add: pf_add_env_page_def find_disk_frame_def)
  moreover have "pf_ok S k1 []" using ok k1 disk_only_D(1,5) [OF k1(6)] by (simp add: pf_ok_def)
  moreover have "stored k1 = stored k" using k1(4,5) by (simp add: stored_def fun_eq_iff)
  moreover have "page_place k1 e va = Some p" using page_place_kept [OF pl [unfolded p] k1(6)] k1(4) unfolding p by simp
  ultimately show ?thesis using k1(6) by blast
qed

lemma pf_remove_ok:
  assumes ok: "pf_ok S k ds" and pl: "page_place k e va = Some p" "p \<in> S"
  shows "\<exists>k' ds'. pf_remove_env_page e va k = Some k' \<and> pf_ok S k' ds' \<and> disk_only k' k \<and> (\<forall>q \<in> S. stored k' q = ((stored k)(p := None)) q) \<and>
    page_place k' e va = Some p"
proof -
  obtain t i where p: "p = (t, i)" by (cases p)
  note pp = page_place_D [OF pl(1) [unfolded p]]
  from ok have o: "disk_idle k" "disk_free k ds" "arrays_apart k" "\<And>d. \<not> disk_bad k d"
    "\<And>q. q \<in> S \<Longrightarrow> words k (fst q) (snd q) \<noteq> 0 \<Longrightarrow> disk_number (words k (fst q) (snd q)) \<and> words k (fst q) (snd q) \<notin> set ds"
    "\<And>q r. q \<in> S \<Longrightarrow> r \<in> S \<Longrightarrow> words k (fst q) (snd q) = words k (fst r) (snd r) \<Longrightarrow> words k (fst q) (snd q) \<noteq> 0 \<Longrightarrow> q = r"
    by (simp_all add: pf_ok_def)
  let ?d = "words k t i" let ?k = "set_word t i 0 k"
  have w: "words ?k (fst q) (snd q) = (if q = p then 0 else words k (fst q) (snd q))" for q
    unfolding p by (cases q) (auto simp: words_set_word)
  have r: "pf_remove_env_page e va k = free_disk_frame ?d ?k" using pp by (simp add: pf_remove_env_page_def)
  have d1: "disk_only ?k k" by simp
  have "\<exists>k' ds'. free_disk_frame ?d ?k = Some k' \<and> disk_idle k' \<and> disk_free k' ds' \<and> words k' = words ?k \<and> disk_data k' = disk_data k \<and>
      disk_only k' ?k \<and> set ds' = set ds \<union> (if ?d = 0 then {} else {?d})"
  proof (cases "?d = 0")
    case True
    then have "free_disk_frame ?d ?k = Some ?k \<and> disk_idle ?k \<and> disk_free ?k ds \<and> disk_data ?k = disk_data k \<and> set ds = set ds \<union> (if ?d = 0 then {} else {?d})"
      using o(1,2) by (simp add: free_disk_frame_def disk_free_fields) (simp add: set_word_def)
    then show ?thesis by (intro exI [of _ ?k] exI [of _ ds]) simp
  next
    case False
    have dn: "disk_number ?d" "?d \<notin> set ds" using o(5) [OF pl(2)] False unfolding p by simp_all
    have f: "disk_idle ?k" "disk_free ?k ds" "arrays_apart ?k"
      using o(1-3) disk_only_D(1) [OF d1] by (simp_all add: disk_free_fields)
    from free_disk_frame_ok [OF f dn] obtain k' where
      "free_disk_frame ?d ?k = Some k'" "disk_idle k'" "disk_free k' (?d # ds)" "words k' = words ?k" "disk_data k' = disk_data ?k" "disk_only k' ?k"
      by blast
    moreover have "disk_data ?k = disk_data k" by (simp add: set_word_def)
    ultimately show ?thesis using False by (intro exI [of _ k'] exI [of _ "?d # ds"]) simp
  qed
  then obtain k' ds' where k': "free_disk_frame ?d ?k = Some k'" "disk_idle k'" "disk_free k' ds'" "words k' = words ?k"
    "disk_data k' = disk_data k" "disk_only k' ?k" "set ds' = set ds \<union> (if ?d = 0 then {} else {?d})" by blast
  note d2 = disk_only_trans [OF k'(6) d1]
  have "pf_ok S k' ds'"
    unfolding pf_ok_def
  proof (intro conjI ballI impI allI)
    show "disk_idle k'" "disk_free k' ds'" by (rule k')+
    show "arrays_apart k'" using o(3) disk_only_D(1) [OF d2] by simp
    show "\<not> disk_bad k' x" for x using o(4) disk_only_D(5) [OF d2] by simp
    show "disk_number (words k' (fst q) (snd q))" "words k' (fst q) (snd q) \<notin> set ds'"
      if q: "q \<in> S" "words k' (fst q) (snd q) \<noteq> 0" for q
    proof -
      have n: "q \<noteq> p" "words k (fst q) (snd q) \<noteq> 0" using q(2) unfolding k'(4) w by (simp_all split: if_splits)
      have "words k (fst q) (snd q) \<noteq> ?d" using o(6) [OF q(1) pl(2)] n unfolding p by auto
      then show "disk_number (words k' (fst q) (snd q))" "words k' (fst q) (snd q) \<notin> set ds'"
        using o(5) [OF q(1) n(2)] n(1) unfolding k'(4) k'(7) w by (simp_all split: if_split)
    qed
    show "q = r" if q: "q \<in> S" "r \<in> S" "words k' (fst q) (snd q) = words k' (fst r) (snd r)" "words k' (fst q) (snd q) \<noteq> 0" for q r
      using q(3,4) o(6) [OF q(1,2)] unfolding k'(4) w by (simp split: if_splits)
  qed
  moreover have "stored k' q = ((stored k)(p := None)) q" for q
    by (simp add: stored_def k'(4,5) w)
  moreover have "page_place k' e va = Some p"
  proof -
    have "words k' (disk_env_pgdir (envs k e)) x = words k (disk_env_pgdir (envs k e)) x" for x
      using pp(4) by (simp add: k'(4) words_set_word)
    then show ?thesis using page_place_kept [OF pl(1) [unfolded p] d2] unfolding p by simp
  qed
  ultimately show ?thesis using k'(1) d2 unfolding r by blast
qed

lemma pf_read_stored:
  assumes pl: "page_place k e va = Some p" and st: "stored k p = Some b" and u: "user_frame va k = Some f" "cpu_proc (kcpu k) = e"
    and al: "ROUNDDOWN va PAGE_SIZE = va" and good: "\<And>d. \<not> disk_bad k d"
  shows "\<exists>k'. pf_read_env_page e va k = Some (0, k') \<and> frame_data k' = (frame_data k)(f := b) \<and> disk_data k' = disk_data k"
proof -
  obtain t i where p: "p = (t, i)" by (cases p)
  note pp = page_place_D [OF pl [unfolded p]]
  have d: "words k t (PTX va) \<noteq> 0" "b = disk_data k (words k t (PTX va))"
    using st pp(3) unfolding p by (simp_all add: stored_def split: if_splits)
  let ?k = "k\<lparr>frame_data := (frame_data k)(f := disk_data k (words k t (PTX va)))\<rparr>"
  from u obtain g pt where g: "get_frame_info (env_page_directory (envs k e)) va k = Some (g, pt)" "pt \<noteq> NULL"
    by (auto simp: user_frame_def bind_eq_Some_conv split: if_splits)
  then obtain ret where "get_page_table (env_page_directory (envs k e)) va k = Some (ret, pt)"
    by (auto simp: get_frame_info_def bind_eq_Some_conv Let_def split: if_splits)
  moreover have "get_page_table (env_page_directory (envs k e)) va ?k = get_page_table (env_page_directory (envs k e)) va k"
    by (rule get_page_table_cong) simp_all
  ultimately have pt: "get_page_table (env_page_directory (envs ?k e)) va ?k = Some (ret, pt)" by simp
  have r: "read_disk_page (words k t (PTX va)) va k = Some (0, ?k)" using good u(1) by (simp add: read_disk_page_def)
  show ?thesis
    using al pp d pt g(2) r
    by (simp add: pf_read_env_page_def Let_def pt_set_page_permissions_def update_env_def set_word_def)
qed

lemma pf_read_missing:
  assumes pl: "page_place k e va = Some p" and st: "stored k p = None" and al: "ROUNDDOWN va PAGE_SIZE = va"
  shows "pf_read_env_page e va k = Some (E_PAGE_NOT_EXIST_IN_PF, k)"
proof -
  obtain t i where p: "p = (t, i)" by (cases p)
  note pp = page_place_D [OF pl [unfolded p]]
  have "words k t (PTX va) = 0" using st pp(3) unfolding p by (simp add: stored_def split: if_splits)
  then show ?thesis using al pp by (simp add: pf_read_env_page_def Let_def)
qed


section \<open>Start-up\<close>

lemma free_disk_frames_from_ok:
  assumes "disk_free k ds" "\<And>d. disk_number d \<Longrightarrow> disk_frame_at k d \<noteq> NULL" "0 < i" "i + n \<le> PAGES_PER_FILE"
    "\<forall>d \<in> set ds. unat d < i"
  shows "\<exists>k'. free_disk_frames_from (of_nat i) n k = Some k' \<and> disk_free k' (rev (map of_nat [i..<i + n]) @ ds) \<and>
    words k' = words k \<and> disk_data k' = disk_data k \<and> envs k' = envs k"
  using assms
proof (induction n arbitrary: i k ds)
  case 0
  then show ?case by simp
next
  case (Suc n)
  let ?d = "of_nat i :: u32" let ?f = "disk_frame_at k ?d" let ?fs = "map (disk_frame_at k) ds"
  have u: "unat ?d = i" using Suc.prems(4) by (simp add: PAGES_PER_FILE_def take_bit_nat_eq_self unsigned_of_nat)
  have dn: "disk_number ?d" using Suc.prems(3,4) u by (simp add: disk_number_def word_gt_0_no word_less_nat_alt)
  have dl: "dll frame_links (frames k) (disk_free_frame_list k) ?fs" "\<forall>d \<in> set ds. disk_number d"
    using Suc.prems(1) by (simp_all add: disk_free_def)
  have nf: "?f \<notin> set ?fs" "?f \<noteq> NULL"
  proof -
    show "?f \<noteq> NULL" by (rule Suc.prems(2) [OF dn])
    show "?f \<notin> set ?fs"
    proof
      assume "?f \<in> set ?fs"
      then obtain d where d: "d \<in> set ds" "?f = disk_frame_at k d" by auto
      then have "?d = d" using disk_frame_inj [OF dn, of d k] dl(2) by blast
      then show False using Suc.prems(5) d(1) u by auto
    qed
  qed
  let ?k = "initialize_frame_info ?f k"
  have "dll frame_links (frames ?k) (disk_free_frame_list k) ?fs"
  proof -
    have "(frames ?k) z = frames k z" if "z \<in> set ?fs" for z
      proof -
      have "z \<noteq> ?f" using nf(1) that by blast
      then show ?thesis by (simp add: initialize_frame_info_def)
    qed
    then have "dll frame_links (frames ?k) (disk_free_frame_list k) ?fs = dll frame_links (frames k) (disk_free_frame_list k) ?fs"
      by (intro dll_cong) simp
    then show ?thesis using dl(1) by simp
  qed
  from frame_store.insert_head [OF this nf(2,1)] obtain h t where
    r: "LIST_INSERT_HEAD frame_links ?f (disk_free_frame_list k) (frames ?k) = Some (h, t)" and dt: "dll frame_links t h (?f # ?fs)"
    by (auto simp: returns_iff)
  let ?k' = "?k\<lparr>disk_free_frame_list := h, frames := t\<rparr>"
  have same: "disk_frame_at ?k' = disk_frame_at k" by (simp add: disk_frame_at_def initialize_frame_info_def fun_eq_iff)
  have "disk_free ?k' (?d # ds)" unfolding disk_free_def same using dt dl(2) dn by simp
  moreover have "\<forall>d \<in> set (?d # ds). unat d < Suc i" using Suc.prems(5) u by auto
  ultimately obtain k'' where "free_disk_frames_from (of_nat (Suc i)) n ?k' = Some k''"
    "disk_free k'' (rev (map of_nat [Suc i..<Suc i + n]) @ ?d # ds)"
    "words k'' = words ?k'" "disk_data k'' = disk_data ?k'" "envs k'' = envs ?k'"
    using Suc.IH [of ?k' "?d # ds" "Suc i"] Suc.prems(2,4) unfolding same by auto
  moreover have "on_disk_frames (LIST_INSERT_HEAD frame_links ?f) ?k = Some ?k'"
    using r by (simp add: on_disk_frames_def initialize_frame_info_def)
  moreover have "rev (map of_nat [i..<i + Suc n]) @ ds = rev (map of_nat [Suc i..<Suc i + n]) @ ?d # ds"
    by (simp add: upt_conv_Cons del: upt_Suc)
  ultimately show ?case by (simp add: initialize_frame_info_def add.commute)
qed

section \<open>A small page file\<close>

text \<open>
  The running process \<^verbatim>\<open>0xEEC00000\<close> has a directory whose entries all lead to the table at
  \<^verbatim>\<open>0xF6001000\<close>; its page at \<^verbatim>\<open>0x800000\<close> is mapped. Disk frames 1 and 2 are free.
\<close>

definition boot_disk :: kern where
  "boot_disk = boot_kern
     \<lparr>kcpu := boot_cpu\<lparr>cpu_proc := 0xEEC00000\<rparr>,
      envs := (\<lambda>_. blank_env)(0xEEC00000 := blank_env\<lparr>env_page_directory := 0xF0400000, disk_env_pgdir := 0xF6000000\<rparr>),
      words := boot_words(0xF0002000 := (\<lambda>i. if i = 0 then 0x200001 else 0), 0xF6000000 := (\<lambda>i. 0x101001)),
      frames := boot_frames(0xF0500040 := zero_frame\<lparr>references := 1, base_va_page := 0xF0002000\<rparr>,
        0xF0502020 := zero_frame\<lparr>references := 1, base_va_page := 0xF6001000\<rparr>,
        0xF0700040 := frame_with_links 0xF0700020 NULL, 0xF0700020 := frame_with_links NULL 0xF0700040),
      disk_free_frame_list := \<lparr>lh_first = 0xF0700040, lh_last = 0xF0700020, lh_size = 2\<rparr>\<rparr>"

lemma boot_disk_place: "page_place boot_disk 0xEEC00000 0x800000 = Some (0xF6001000, 0)"
  by (simp add: page_place_def boot_disk_def boot_kern_def disk_table_address_def kheap_virtual_address_def to_frame_info_def
      frame_at_def to_frame_number_def boot_frames_def zero_frame_def EXTRACT_ADDRESS_def CHECK_IF_KERNEL_ADDRESS_def PPN_def PDX_def PTX_def Let_def)

lemma boot_disk_apart: "arrays_apart boot_disk"
proof -
  have f: "frames_info boot_disk = 0xF0500000" "disk_frames_info boot_disk = 0xF0700000" "number_of_frames boot_disk = 0x10000"
    by (simp_all add: boot_disk_def boot_kern_def)
  show ?thesis
    unfolding arrays_apart_def disk_frame_at_def frame_at_def f
  proof (intro allI impI conjI)
    fix d assume "disk_number d"
    then have d: "0 < unat d" "unat d < 133120" by (simp_all add: disk_number_def PAGES_PER_FILE_def word_less_nat_alt)
    have ud: "unat (0xF0700000 + 32 * d) = 0xF0700000 + 32 * unat d" using d by (simp add: unat_word_ariths)
    show "0xF0700000 + 32 * d \<noteq> NULL" using ud by (auto simp: word_unat_eq_iff)
    fix n :: u32 assume "n < 0x10000"
    then have n: "unat n < 0x10000" by (simp add: word_less_nat_alt)
    then have "unat (0xF0500000 + 32 * n) = 0xF0500000 + 32 * unat n" by (simp add: unat_word_ariths)
    then show "0xF0500000 + 32 * n \<noteq> 0xF0700000 + 32 * d" using ud d n by (simp add: word_unat_eq_iff)
  qed
qed

lemma boot_disk_ok: "pf_ok {(0xF6001000, 0)} boot_disk [2, 1]"
proof -
  have w: "words boot_disk 0xF6001000 0 = 0" by (simp add: boot_disk_def boot_words_def)
  have "disk_idle boot_disk"
    by (simp add: disk_idle_def boot_disk_def boot_kern_def boot_cpu_def cpu_free_def cpu_ok_def init_spinlock_def)
  moreover have "disk_free boot_disk [2, 1]"
    by (simp add: disk_free_def dll_def boot_disk_def boot_kern_def boot_frames_def frame_with_links_def zero_frame_def
        frame_links_def last_or_def disk_frame_at_def disk_number_def PAGES_PER_FILE_def)
  moreover have "\<not> disk_bad boot_disk d" for d by (simp add: boot_disk_def boot_kern_def)
  ultimately show ?thesis using boot_disk_apart w by (simp add: pf_ok_def)
qed

lemma boot_disk_stored: "stored boot_disk (0xF6001000, 0) = None"
  by (simp add: stored_def boot_disk_def boot_words_def)

lemma boot_disk_frame: "user_frame 0x800000 boot_disk = Some 0xF0504000" "get_frame_info (env_page_directory (envs boot_disk 0xEEC00000)) 0x800000 boot_disk = Some (0xF0504000, 0xF0002000)"
  by (simp_all add: user_frame_def get_frame_info_def get_page_table_def boot_disk_def boot_kern_def boot_words_def boot_cpu_def to_frame_info_def
      kheap_virtual_address_def to_frame_number_def zero_frame_def CHECK_IF_KERNEL_ADDRESS_def
      frame_at_def STATIC_KERNEL_VIRTUAL_ADDRESS_def EXTRACT_ADDRESS_def PPN_def PDX_def PTX_def Let_def)

section \<open>Properties\<close>

text \<open>C16: adding a page to the page file, whose tables for it exist, is a map update. If the page has a disk frame, or a free one is
  left, the page is stored at its place, every other page kept for any process is still there, and
  the invariant of the page file (distinct disk frames, none of them free) holds again; if it has
  none and the disk is full, the call returns \<^verbatim>\<open>E_NO_PAGE_FILE_SPACE\<close> and nothing stored changes.
\<close>
theorem pf_add_env_page_correct:
  assumes "pf_ok S k ds" "page_place k e va = Some p" "p \<in> S" "va < KERNEL_BASE"
  shows "if stored k p = None \<and> ds = []
     then \<exists>k'. pf_add_env_page e va b k = Some (E_NO_PAGE_FILE_SPACE, k') \<and> pf_ok S k' [] \<and> stored k' = stored k
     else \<exists>k' ds'. pf_add_env_page e va b k = Some (0, k') \<and> pf_ok S k' ds' \<and> (\<forall>q \<in> S. stored k' q = ((stored k)(p \<mapsto> b)) q)"
proof (cases "stored k p = None \<and> ds = []")
  case True
  then show ?thesis using pf_add_full [of S k e va p b] assms by auto
next
  case False
  then have "stored k p = None \<Longrightarrow> ds \<noteq> []" by blast
  from pf_add_ok [OF assms this, of b] False show ?thesis by (simp only: if_False simp_thms) blast
qed

text \<open>Removing a page from the page file deletes it and nothing else: its disk frame is free again
  if it had one, and the invariant of the page file is kept.
\<close>
theorem pf_remove_env_page_correct:
  assumes "pf_ok S k ds" "page_place k e va = Some p" "p \<in> S"
  shows "\<exists>k' ds'. pf_remove_env_page e va k = Some k' \<and> pf_ok S k' ds' \<and> (\<forall>q \<in> S. stored k' q = ((stored k)(p := None)) q)"
  using pf_remove_ok [OF assms] by blast

text \<open>C17: what \<^verbatim>\<open>pf_add_env_page\<close> stored, \<^verbatim>\<open>pf_read_env_page\<close> brings back into the frame mapped at the
  address (which the tables of the page file do not overlap); once the page is removed, reading it
  reports \<^verbatim>\<open>E_PAGE_NOT_EXIST_IN_PF\<close>.
\<close>
theorem pf_page_roundtrip:
  assumes ok: "pf_ok S k (d # ds)" and pl: "page_place k e va = Some p" "p \<in> S" and va: "va < KERNEL_BASE"
    and al: "ROUNDDOWN va PAGE_SIZE = va" and e: "cpu_proc (kcpu k) = e"
    and f: "user_frame va k = Some f" "get_frame_info (env_page_directory (envs k e)) va k = Some (f, pt)"
      "pt \<noteq> fst p" "env_page_directory (envs k e) \<noteq> fst p"
  shows "\<exists>k1 k2 k3. pf_add_env_page e va b k = Some (0, k1) \<and>
    pf_read_env_page e va k1 = Some (0, k2) \<and> frame_data k2 = (frame_data k)(f := b) \<and>
    pf_remove_env_page e va k1 = Some k3 \<and> pf_read_env_page e va k3 = Some (E_PAGE_NOT_EXIST_IN_PF, k3)"
proof -
  from pf_add_ok [OF ok pl va, of b] obtain k1 ds1 where
    k1: "pf_add_env_page e va b k = Some (0, k1)" "pf_ok S k1 ds1" "disk_only k1 k" "stored k1 p = Some b" "page_place k1 e va = Some p"
      and w: "\<And>q. q \<noteq> p \<Longrightarrow> words k1 (fst q) (snd q) = words k (fst q) (snd q)"
    using pl(2) by auto
  have e1: "cpu_proc (kcpu k1) = e" "\<not> disk_bad k1 x" "frame_data k1 = frame_data k" for x
    using k1(2,3) e by (simp_all add: disk_only_def pf_ok_def)
  have w': "words k1 a = words k a" if "a \<noteq> fst p" for a using w [of "(a, x)" for x] that by (cases p) (simp add: fun_eq_iff)
  have "user_frame va k1 = Some f"
    by (rule user_frame_kept [OF f(1) _ k1(3), where pt = pt]) (use f e in \<open>simp_all add: w'\<close>)
  from pf_read_stored [OF k1(5,4) this e1(1) al e1(2)] obtain k2 where
    "pf_read_env_page e va k1 = Some (0, k2)" "frame_data k2 = (frame_data k)(f := b)" unfolding e1(3) by blast
  moreover from pf_remove_ok [OF k1(2,5) pl(2)] obtain k3 where
    k3: "pf_remove_env_page e va k1 = Some k3" "stored k3 p = None" "page_place k3 e va = Some p" using pl(2) by auto
  moreover have "pf_read_env_page e va k3 = Some (E_PAGE_NOT_EXIST_IN_PF, k3)" by (rule pf_read_missing [OF k3(3,2) al])
  ultimately show ?thesis using k1(1) by blast
qed

text \<open>Setting up the page file puts every disk frame but number 0 on the free list, each once, for
  all 133120 frames of the file.
\<close>
theorem initialize_disk_page_file_correct:
  assumes "\<And>d. disk_number d \<Longrightarrow> disk_frame_at k d \<noteq> NULL"
  shows "\<exists>k'. initialize_disk_page_file k = Some k' \<and> disk_free k' (rev (map of_nat [1..<PAGES_PER_FILE]))"
proof -
  let ?k = "k\<lparr>disk_free_frame_list := LIST_INIT (disk_free_frame_list k)\<rparr>"
  have f: "disk_frame_at ?k = disk_frame_at k" by (simp add: disk_frame_at_def fun_eq_iff)
  have "disk_free ?k []" by (simp add: disk_free_def dll_init)
  from free_disk_frames_from_ok [OF this, of 1 "PAGES_PER_FILE - 1"] show ?thesis
    using assms unfolding f by (auto simp: initialize_disk_page_file_def PAGES_PER_FILE_def)
qed

section \<open>Witnesses\<close>

theorem pf_add_env_page_correct_witness:
  "\<exists>k' ds'. pf_add_env_page 0xEEC00000 0x800000 (\<lambda>_. 7) boot_disk = Some (0, k') \<and> pf_ok {(0xF6001000, 0)} k' ds' \<and>
     stored k' (0xF6001000, 0) = Some (\<lambda>_. 7)"
  using pf_add_env_page_correct [OF boot_disk_ok boot_disk_place, of "\<lambda>_. 7"] by simp

theorem pf_remove_env_page_correct_witness:
  "\<exists>k' ds'. pf_remove_env_page 0xEEC00000 0x800000 boot_disk = Some k' \<and> pf_ok {(0xF6001000, 0)} k' ds'"
  using pf_remove_env_page_correct [OF boot_disk_ok boot_disk_place] by auto

theorem pf_page_roundtrip_witness:
  "\<exists>k1 k2 k3. pf_add_env_page 0xEEC00000 0x800000 (\<lambda>_. 7) boot_disk = Some (0, k1) \<and>
     pf_read_env_page 0xEEC00000 0x800000 k1 = Some (0, k2) \<and> frame_data k2 = (frame_data boot_disk)(0xF0504000 := (\<lambda>_. 7)) \<and>
     pf_remove_env_page 0xEEC00000 0x800000 k1 = Some k3 \<and>
     pf_read_env_page 0xEEC00000 0x800000 k3 = Some (E_PAGE_NOT_EXIST_IN_PF, k3)"
  by (rule pf_page_roundtrip [OF boot_disk_ok boot_disk_place _ _ _ _ boot_disk_frame]) (simp_all add: ROUNDDOWN_def boot_disk_def)

theorem initialize_disk_page_file_correct_witness:
  "\<exists>k'. initialize_disk_page_file boot_disk = Some k' \<and> disk_free k' (rev (map of_nat [1..<PAGES_PER_FILE]))"
  using initialize_disk_page_file_correct [of boot_disk] boot_disk_apart by (auto simp: arrays_apart_def)

end
