(* ===== verification/FOS_LoaderProps.thy ===== *)
theory FOS_LoaderProps
  imports FOS_EnvProps FOS_PageFileProps FOS_UserMemProps
begin

text \<open>
  What loading a segment leaves in the page file: for a segment that starts at a page boundary, its bytes
  from the program and zeros after them.
\<close>

section \<open>Pages of one process in the page file\<close>

text \<open>The first \<open>n\<close> pages from \<open>A\<close> on have a place in the tables of the page file, page \<open>j\<close> the place \<open>pl j\<close>.\<close>

definition in_file :: "(ptr \<times> u32) set \<Rightarrow> ptr \<Rightarrow> u32 \<Rightarrow> nat \<Rightarrow> (nat \<Rightarrow> ptr \<times> u32) \<Rightarrow> kern \<Rightarrow> bool" where
  "in_file S e A n pl k \<longleftrightarrow> (\<forall>j < n. page_place k e (nth_page A j) = Some (pl j) \<and> pl j \<in> S) \<and> inj_on pl {..<n}"

lemma nth_page_unat:
  assumes "unat A + n * 4096 \<le> 2147483648" "j \<le> n"
  shows "unat (nth_page A j) = unat A + j * 4096"
proof -
  have "unat (of_nat j * PAGE_SIZE :: u32) = j * 4096" using assms by (simp add: unat_word_ariths unat_of_nat)
  then show ?thesis using assms by (subst unat_word_ariths) simp
qed

text \<open>One page added: \<open>step S e A n pl k k' upd\<close> says what it changes.\<close>

definition file_step :: "(ptr \<times> u32) set \<Rightarrow> ptr \<Rightarrow> u32 \<Rightarrow> nat \<Rightarrow> (nat \<Rightarrow> ptr \<times> u32) \<Rightarrow> kern \<Rightarrow> kern \<Rightarrow> bool" where
  "file_step S e A n pl k k' \<longleftrightarrow> in_file S e A n pl k' \<and> envs k' = envs k \<and> kmem k' = kmem k \<and>
     ptr_zero_page k' = ptr_zero_page k \<and> ptr_temp_page k' = ptr_temp_page k"

lemma file_step_trans: "file_step S e A n pl k k1 \<Longrightarrow> file_step S e A n pl k1 k2 \<Longrightarrow> file_step S e A n pl k k2"
  by (simp add: file_step_def)

lemma add_page_ok:
  assumes ok: "pf_ok S k ds" "in_file S e A n pl k" and j: "j < n" and ds: "stored k (pl j) = None \<Longrightarrow> ds \<noteq> []" and A: "unat A + n * 4096 \<le> 2147483648"
  shows "\<exists>k'. \<exists>ds'. pf_add_env_page e (nth_page A j) b k = Some (0, k') \<and> pf_ok S k' ds' \<and> file_step S e A n pl k k' \<and>
    ds' = (if stored k (pl j) = None then tl ds else ds) \<and> (\<forall>q \<in> S. stored k' q = ((stored k)(pl j \<mapsto> b)) q)"
proof -
  have pl: "page_place k e (nth_page A j) = Some (pl j)" "pl j \<in> S" using ok(2) j by (simp_all add: in_file_def)
  have va: "nth_page A j < KERNEL_BASE" using nth_page_unat [OF A, of j] j A by (simp add: word_less_nat_alt)
  from pf_add_ok [OF ok(1) pl va ds] obtain k' ds' where k': "pf_add_env_page e (nth_page A j) b k = Some (0, k')" "pf_ok S k' ds'" "disk_only k' k"
    "\<forall>q \<in> S. stored k' q = ((stored k)(pl j \<mapsto> b)) q" "\<And>q. q \<noteq> pl j \<Longrightarrow> words k' (fst q) (snd q) = words k (fst q) (snd q)"
    "ds' = (if stored k (pl j) = None then tl ds else ds)" by blast
  have "fst (pl j) \<noteq> disk_env_pgdir (envs k e)" using page_place_D(4) [of k e "nth_page A j" "fst (pl j)" "snd (pl j)"] pl(1) by simp
  then have "(disk_env_pgdir (envs k e), x) \<noteq> pl j" for x by (cases "pl j") auto
  then have dir: "words k' (disk_env_pgdir (envs k e)) x = words k (disk_env_pgdir (envs k e)) x" for x
    using k'(5) [of "(disk_env_pgdir (envs k e), x)"] by simp
  then have "page_place k' e (nth_page A i) = Some (pl i)" if "i < n" for i
    using page_place_kept [of k e "nth_page A i" "fst (pl i)" "snd (pl i)", OF _ k'(3) dir] ok(2) that by (simp add: in_file_def)
  then have "in_file S e A n pl k'" using ok(2) by (simp add: in_file_def)
  then show ?thesis using k'(1-4,6) by (intro exI [of _ k'] exI [of _ ds']) (simp add: file_step_def disk_only_def)
qed

lemma stored_mem [simp]: "stored (on_kmem f k) = stored k"
  by (simp add: stored_def on_kmem_def fun_eq_iff)

lemma pf_ok_mem [simp]: "pf_ok S (on_kmem f k) ds = pf_ok S k ds"
proof -
  have "disk_frame_at (on_kmem f k) = disk_frame_at k" by (simp add: disk_frame_at_def on_kmem_def fun_eq_iff)
  then show ?thesis by (simp add: pf_ok_def disk_idle_def disk_free_def arrays_apart_def on_kmem_def frame_at_def)
qed

lemma in_file_mem [simp]: "in_file S e A n pl (on_kmem f k) = in_file S e A n pl k"
  by (simp add: in_file_def page_place_def on_kmem_def disk_table_address_def STATIC_KERNEL_VIRTUAL_ADDRESS_def
      kheap_virtual_address_def to_frame_info_def frame_at_def to_frame_number_def Let_def cong: option.case_cong)

section \<open>The bytes of a segment\<close>

lemma zero_bytes_at: "zero_bytes p n m x = (if unat (x - p) < n then 0 else m x)"
  by (simp add: zero_bytes_def)

lemma copy_bytes_at:
  assumes "\<And>i. i < n \<Longrightarrow> 4096 \<le> unat (src + of_nat i - p)" "unat d + n \<le> 4096"
  shows "copy_bytes (p + d) src n m x = (if unat d \<le> unat (x - p) \<and> unat (x - p) < unat d + n then m (src + (x - p - d)) else m x)"
  using assms
proof (induction n arbitrary: x)
  case 0
  then show ?case by auto
next
  case (Suc n)
  have IH: "copy_bytes (p + d) src n m x = (if unat d \<le> unat (x - p) \<and> unat (x - p) < unat d + n then m (src + (x - p - d)) else m x)" for x
    using Suc by simp
  have at: "copy_bytes (p + d) src n m (src + of_nat n) = m (src + of_nat n)"
    using Suc.prems(1) [of n] Suc.prems(2) by (simp add: IH)
  have u: "unat (d + of_nat n) = unat d + n" using Suc.prems(2) by (simp add: unat_word_ariths unat_of_nat)
  have "x = p + d + of_nat n \<longleftrightarrow> x - p = d + of_nat n" by (auto simp: algebra_simps)
  also have "\<dots> \<longleftrightarrow> unat (x - p) = unat d + n" using u by (metis unsigned_word_eqI)
  finally have xx: "x = p + d + of_nat n \<longleftrightarrow> unat (x - p) = unat d + n" .
  show ?case
  proof (cases "x = p + d + of_nat n")
    case True
    then show ?thesis using xx at by (simp add: Let_def)
  next
    case False
    then have "unat (x - p) < unat d + Suc n \<longleftrightarrow> unat (x - p) < unat d + n" using xx by auto
    then show ?thesis using False by (simp add: Let_def IH)
  qed
qed

text \<open>The byte a program expects at the address \<open>i\<close> of a segment at \<open>va\<close> with \<open>fs\<close> bytes in the file.\<close>

definition seg_byte :: "nat \<Rightarrow> nat \<Rightarrow> ptr \<Rightarrow> memory \<Rightarrow> nat \<Rightarrow> u8" where
  "seg_byte va fs src m i = (if va \<le> i \<and> i < va + fs then m (src + of_nat (i - va)) else 0)"

definition page_right :: "(nat \<Rightarrow> u8) \<Rightarrow> nat \<Rightarrow> page_bytes \<Rightarrow> bool" where
  "page_right f a b \<longleftrightarrow> (\<forall>x. unat x < 4096 \<longrightarrow> b x = f (a + unat x))"

definition seg_mem :: "nat \<Rightarrow> ptr \<Rightarrow> memory \<Rightarrow> ptr \<Rightarrow> ptr \<Rightarrow> kern \<Rightarrow> bool" where
  "seg_mem fs src m zp tmp k \<longleftrightarrow> ptr_zero_page k = zp \<and> ptr_temp_page k = tmp \<and> (\<forall>i < fs. kmem k (src + of_nat i) = m (src + of_nat i)) \<and>
     (\<forall>x. unat x < 4096 \<longrightarrow> kmem k (zp + x) = 0 \<and> 4096 \<le> unat (zp + x - tmp)) \<and> (\<forall>i < fs. 4096 \<le> unat (src + of_nat i - tmp))"

text \<open>The first \<open>c\<close> of the \<open>n\<close> pages from \<open>A\<close> on are in the page file with the bytes \<open>f\<close>.\<close>

definition pages_loaded :: "(ptr \<times> u32) set \<Rightarrow> ptr \<Rightarrow> u32 \<Rightarrow> nat \<Rightarrow> (nat \<Rightarrow> ptr \<times> u32) \<Rightarrow> (ptr \<times> u32 \<rightharpoonup> page_bytes) \<Rightarrow>
    (nat \<Rightarrow> u8) \<Rightarrow> nat \<Rightarrow> kern \<Rightarrow> bool" where
  "pages_loaded S e A n pl st f c k \<longleftrightarrow> (\<exists>ds. pf_ok S k ds \<and> n \<le> c + length ds) \<and> in_file S e A n pl k \<and>
     (\<forall>q \<in> S. q \<notin> pl ` {..<n} \<longrightarrow> stored k q = st q) \<and>
     (\<forall>j < c. \<exists>b. stored k (pl j) = Some b \<and> page_right f (unat A + j * 4096) b)"

lemma pages_loaded_step:
  assumes l: "pages_loaded S e A n pl st f c k" and j: "j \<le> c" "j < n" "c \<le> n" and A: "unat A + n * 4096 \<le> 2147483648"
    and b: "page_right f (unat A + j * 4096) b"
  shows "\<exists>k'. pf_add_env_page e (nth_page A j) b k = Some (0, k') \<and> pages_loaded S e A n pl st f (max c (Suc j)) k' \<and>
    kmem k' = kmem k \<and> ptr_zero_page k' = ptr_zero_page k \<and> ptr_temp_page k' = ptr_temp_page k"
proof -
  from l obtain ds where ds: "pf_ok S k ds" "n \<le> c + length ds" and i: "in_file S e A n pl k" by (auto simp: pages_loaded_def)
  have old: "\<exists>b. stored k (pl j) = Some b" if "j < c" using l that by (auto simp: pages_loaded_def)
  have ne: "ds \<noteq> []" if "stored k (pl j) = None"
  proof -
    have "\<not> j < c" using old that by force
    then show ?thesis using ds(2) j by auto
  qed
  from add_page_ok [OF ds(1) i j(2) ne A] obtain k' ds' where k': "pf_add_env_page e (nth_page A j) b k = Some (0, k')" "pf_ok S k' ds'"
    "file_step S e A n pl k k'" "ds' = (if stored k (pl j) = None then tl ds else ds)" "\<forall>q \<in> S. stored k' q = ((stored k)(pl j \<mapsto> b)) q" by blast
  have len: "n \<le> max c (Suc j) + length ds'"
  proof (cases "j < c")
    case True
    have "ds' = ds" using old [OF True] k'(4) by force
    then show ?thesis using ds(2) by simp
  next
    case False
    have "length ds \<le> Suc (length ds')" using k'(4) by auto
    then show ?thesis using False ds(2) j by simp
  qed
  have "\<exists>b'. stored k' (pl i) = Some b' \<and> page_right f (unat A + i * 4096) b'" if "i < max c (Suc j)" for i
  proof (cases "i = j")
    case True
    then show ?thesis using k'(5) b i j by (simp add: in_file_def)
  next
    case False
    then have "i < c" using that j by (auto simp: max_def split: if_splits)
    moreover have "pl i \<noteq> pl j" "pl i \<in> S" using i False j \<open>i < c\<close> by (auto simp: in_file_def dest: inj_onD)
    ultimately show ?thesis using k'(5) l by (auto simp: pages_loaded_def)
  qed
  moreover have "\<forall>q \<in> S. q \<notin> pl ` {..<n} \<longrightarrow> stored k' q = st q" using k'(5) l j by (auto simp: pages_loaded_def)
  ultimately show ?thesis using k' len by (intro exI [of _ k']) (auto simp: pages_loaded_def file_step_def)
qed

lemma pages_loaded_mem [simp]: "pages_loaded S e A n pl st f c (on_kmem g k) = pages_loaded S e A n pl st f c k"
  by (simp add: pages_loaded_def)

section \<open>The three kinds of pages\<close>

lemma full_page_right:
  assumes "seg_mem fs src m zp tmp k" "va \<le> a" "a + 4096 \<le> va + fs"
  shows "page_right (seg_byte va fs src m) a (kernel_page (src + of_nat (a - va)) k)"
proof -
  have "kmem k (src + of_nat (a - va) + x) = m (src + of_nat (a + unat x - va))" if "unat x < 4096" for x :: u32
  proof -
    have "a + unat x - va = (a - va) + unat x" using assms(2) by simp
    then have e: "src + of_nat (a - va) + x = src + of_nat (a + unat x - va)" by simp
    have "a + unat x - va < fs" using assms(2,3) that by linarith
    then show ?thesis using assms(1) unfolding e by (simp add: seg_mem_def)
  qed
  then show ?thesis using assms(2,3) by (auto simp: page_right_def kernel_page_def seg_byte_def)
qed

lemma empty_page_right:
  assumes "seg_mem fs src m zp tmp k" "va + fs \<le> a"
  shows "page_right (seg_byte va fs src m) a (kernel_page (ptr_zero_page k) k)"
  using assms by (auto simp: page_right_def kernel_page_def seg_byte_def seg_mem_def)

text \<open>The page put together in the temporary page: it has the bytes from \<open>a + off\<close> on that come from the file.\<close>

lemma partial_page_right:
  assumes s: "seg_mem fs src m zp tmp k" and r: "a + unat off = va + d" "d + n \<le> fs" "unat off + n \<le> 4096"
    and ends: "off = 0 \<or> d = 0" "unat off + n = 4096 \<or> d + n = fs"
    and k1: "k1 = on_kmem (\<lambda>m. copy_bytes (tmp + off) (src + of_nat d) n (zero_bytes tmp 4096 m)) k"
  shows "page_right (seg_byte va fs src m) a (kernel_page tmp k1)" "seg_mem fs src m zp tmp k1"
proof -
  have apart: "4096 \<le> unat (src + of_nat d + of_nat i - tmp)" if "i < n" for i
  proof -
    have e: "src + of_nat d + of_nat i = src + of_nat (d + i)" by simp
    have "d + i < fs" using that r(2) by simp
    then have "4096 \<le> unat (src + of_nat (d + i) - tmp)" using s unfolding seg_mem_def by blast
    then show ?thesis unfolding e .
  qed
  have at: "kmem k1 x = (if unat off \<le> unat (x - tmp) \<and> unat (x - tmp) < unat off + n then m (src + of_nat d + (x - tmp - off))
      else if unat (x - tmp) < 4096 then 0 else kmem k x)" for x
  proof -
    have "kmem k1 x = (if unat off \<le> unat (x - tmp) \<and> unat (x - tmp) < unat off + n then zero_bytes tmp 4096 (kmem k) (src + of_nat d + (x - tmp - off))
      else zero_bytes tmp 4096 (kmem k) x)" by (simp add: k1 on_kmem_def copy_bytes_at [OF apart r(3)])
    moreover have "zero_bytes tmp 4096 (kmem k) (src + of_nat d + (x - tmp - off)) = m (src + of_nat d + (x - tmp - off))"
      if c: "unat off \<le> unat (x - tmp)" "unat (x - tmp) < unat off + n"
    proof -
      define i where "i = unat (x - tmp) - unat off"
      have "x - tmp - off = of_nat i" using c(1) by (simp add: i_def of_nat_diff)
      moreover have "d + i < fs" using c r(2) by (simp add: i_def)
      ultimately have e: "src + of_nat d + (x - tmp - off) = src + of_nat (d + i)" "d + i < fs" by simp_all
      have "4096 \<le> unat (src + of_nat (d + i) - tmp)" "kmem k (src + of_nat (d + i)) = m (src + of_nat (d + i))"
        using s e(2) unfolding seg_mem_def by blast+
      then show ?thesis unfolding e(1) zero_bytes_at by simp
    qed
    ultimately show ?thesis by (simp add: zero_bytes_at)
  qed
  show "seg_mem fs src m zp tmp k1"
    using s r(3) by (auto simp: seg_mem_def at) (auto simp: k1 on_kmem_def)
  show "page_right (seg_byte va fs src m) a (kernel_page tmp k1)"
    unfolding page_right_def kernel_page_def
  proof (intro allI impI)
    fix x :: u32 assume x: "unat x < 4096"
    have e: "src + of_nat d + (x - off) = src + of_nat (a + unat x - va)" if "unat off \<le> unat x"
    proof -
      have "a + unat x - va = d + (unat x - unat off)" using that r(1) by linarith
      then show ?thesis using that by (simp add: of_nat_diff)
    qed
    have "(unat off \<le> unat x \<and> unat x < unat off + n) = (va \<le> a + unat x \<and> a + unat x < va + fs)"
      using r ends x by auto
    then have "kmem k1 (tmp + x) = (if va \<le> a + unat x \<and> a + unat x < va + fs then m (src + of_nat d + (x - off)) else 0)"
      using x by (simp add: at)
    moreover have "m (src + of_nat d + (x - off)) = m (src + of_nat (a + unat x - va))" if "va \<le> a + unat x \<and> a + unat x < va + fs"
      using e \<open>(unat off \<le> unat x \<and> unat x < unat off + n) = _\<close> that by metis
    ultimately show "kmem k1 (tmp + x) = seg_byte va fs src m (a + unat x)" unfolding seg_byte_def by metis
  qed
qed

section \<open>Runs of pages\<close>

lemma nth_page_add: "nth_page (nth_page a i) j = nth_page a (i + j)"
  by (simp add: algebra_simps)

lemma seg_mem_other: "kmem k' = kmem k \<Longrightarrow> ptr_zero_page k' = ptr_zero_page k \<Longrightarrow> ptr_temp_page k' = ptr_temp_page k \<Longrightarrow>
    seg_mem fs src m zp tmp k' = seg_mem fs src m zp tmp k"
  by (simp add: seg_mem_def)

lemma add_full_pages_loaded:
  assumes "pages_loaded S e A n pl st (seg_byte va fs src m) i k" "seg_mem fs src m zp tmp k" "i + d \<le> n"
    and A: "unat A + n * 4096 \<le> 2147483648" and r: "va \<le> unat A + i * 4096" "d \<noteq> 0 \<Longrightarrow> unat A + (i + d) * 4096 \<le> va + fs"
    and s: "s = src + of_nat (unat A + i * 4096 - va)"
  shows "\<exists>k'. add_full_pages e (nth_page A i) (nth_page A (i + d)) s k = Some (nth_page s d, k') \<and>
    pages_loaded S e A n pl st (seg_byte va fs src m) (i + d) k' \<and> seg_mem fs src m zp tmp k'"
  using assms(1-3) r s
proof (induction d arbitrary: i k s)
  case 0
  then show ?case by (simp add: add_full_pages.simps)
next
  case (Suc d)
  have lt: "nth_page A i < nth_page A (i + Suc d)"
    using nth_page_unat [OF A, of i] nth_page_unat [OF A, of "i + Suc d"] Suc.prems(3) by (simp add: word_less_nat_alt)
  have right: "page_right (seg_byte va fs src m) (unat A + i * 4096) (kernel_page s k)"
    using full_page_right [OF Suc.prems(2,4)] Suc.prems(5,6) by simp
  from pages_loaded_step [OF Suc.prems(1) order.refl _ _ A right] Suc.prems(3) obtain k1 where
    k1: "pf_add_env_page e (nth_page A i) (kernel_page s k) k = Some (0, k1)" "pages_loaded S e A n pl st (seg_byte va fs src m) (Suc i) k1"
      "kmem k1 = kmem k" "ptr_zero_page k1 = ptr_zero_page k" "ptr_temp_page k1 = ptr_temp_page k" by auto
  have m1: "seg_mem fs src m zp tmp k1" using Suc.prems(2) seg_mem_other [OF k1(3-5)] by blast
  have "unat A + Suc i * 4096 - va = (unat A + i * 4096 - va) + 4096" using Suc.prems(4) by simp
  then have s1: "nth_page s 1 = src + of_nat (unat A + Suc i * 4096 - va)" using Suc.prems(6) by simp
  have pre: "Suc i + d \<le> n" "va \<le> unat A + Suc i * 4096" "d \<noteq> 0 \<Longrightarrow> unat A + (Suc i + d) * 4096 \<le> va + fs"
    using Suc.prems(3-5) by simp_all
  from Suc.IH [OF k1(2) m1 pre s1] obtain k2 where k2: "add_full_pages e (nth_page A (Suc i)) (nth_page A (Suc i + d)) (nth_page s 1) k1 = Some (nth_page (nth_page s 1) d, k2)"
    "pages_loaded S e A n pl st (seg_byte va fs src m) (Suc i + d) k2" "seg_mem fs src m zp tmp k2" by blast
  have one: "add_page e (nth_page A i) s k = Some k1" using k1(1) by (simp add: add_page_def)
  have nx: "nth_page A i + PAGE_SIZE = nth_page A (Suc i)" "s + PAGE_SIZE = nth_page s 1" "nth_page (nth_page s 1) d = nth_page s (Suc d)"
    by (simp_all add: algebra_simps)
  have k2': "add_full_pages e (nth_page A (Suc i)) (nth_page A (i + Suc d)) (nth_page s 1) k1 = Some (nth_page s (Suc d), k2)"
    using k2(1) nx(3) by (simp del: of_nat_Suc)
  have "add_full_pages e (nth_page A i) (nth_page A (i + Suc d)) s k =
      add_full_pages e (nth_page A i + PAGE_SIZE) (nth_page A (i + Suc d)) (s + PAGE_SIZE) k1"
    by (subst add_full_pages.simps) (simp only: lt one if_True Option.bind.bind_lunit)
  then have "add_full_pages e (nth_page A i) (nth_page A (i + Suc d)) s k = Some (nth_page s (Suc d), k2)"
    unfolding nx(1,2) k2' .
  then show ?case using k2(2,3) by (intro exI [of _ k2]) simp
qed

lemma add_empty_pages_loaded:
  assumes "pages_loaded S e A n pl st (seg_byte va fs src m) c k" "seg_mem fs src m zp tmp k" "j \<le> c" "c \<le> n" "j + d \<le> n"
    and A: "unat A + n * 4096 \<le> 2147483648" and r: "va + fs \<le> unat A + j * 4096" "(t + d) * 4096 \<le> 2147483648"
  shows "\<exists>k'. add_empty_pages e (nth_page A j) (nth_page 0 t) (nth_page 0 (t + d)) k = Some k' \<and>
    pages_loaded S e A n pl st (seg_byte va fs src m) (max c (j + d)) k'"
  using assms(1-5) r
proof (induction d arbitrary: j c t k)
  case 0
  then show ?case by (simp add: add_empty_pages.simps max_absorb1)
next
  case (Suc d)
  have u: "unat (nth_page 0 t :: u32) = t * 4096" "unat (nth_page 0 (t + Suc d) :: u32) = (t + Suc d) * 4096"
    using Suc.prems(7) nth_page_unat [of 0 "t + Suc d" t] nth_page_unat [of 0 "t + Suc d" "t + Suc d"] by simp_all
  then have lt: "(nth_page 0 t :: u32) < nth_page 0 (t + Suc d)" unfolding word_less_nat_alt u by simp
  have right: "page_right (seg_byte va fs src m) (unat A + j * 4096) (kernel_page (ptr_zero_page k) k)"
    by (rule empty_page_right [OF Suc.prems(2,6)])
  from pages_loaded_step [OF Suc.prems(1,3) _ Suc.prems(4) A right] Suc.prems(5) obtain k1 where
    k1: "pf_add_env_page e (nth_page A j) (kernel_page (ptr_zero_page k) k) k = Some (0, k1)"
      "pages_loaded S e A n pl st (seg_byte va fs src m) (max c (Suc j)) k1"
      "kmem k1 = kmem k" "ptr_zero_page k1 = ptr_zero_page k" "ptr_temp_page k1 = ptr_temp_page k" by auto
  have m1: "seg_mem fs src m zp tmp k1" using Suc.prems(2) seg_mem_other [OF k1(3-5)] by blast
  have pre: "Suc j \<le> max c (Suc j)" "max c (Suc j) \<le> n" "Suc j + d \<le> n" "va + fs \<le> unat A + Suc j * 4096" "(Suc t + d) * 4096 \<le> 2147483648"
    using Suc.prems(3-7) by simp_all
  from Suc.IH [OF k1(2) m1 pre] obtain k2 where k2: "add_empty_pages e (nth_page A (Suc j)) (nth_page 0 (Suc t)) (nth_page 0 (Suc t + d)) k1 = Some k2"
    "pages_loaded S e A n pl st (seg_byte va fs src m) (max (max c (Suc j)) (Suc j + d)) k2" by blast
  have "unat (nth_page A j) < 0x80000000" using nth_page_unat [OF A, of j] Suc.prems(5) A by simp
  moreover have "unat USTACKBOTTOM = 0xA0062000" by (simp add: USTACKBOTTOM_def ROUNDUP_def ROUNDDOWN_def)
  ultimately have "\<not> nth_page A j > USTACKBOTTOM" unfolding word_less_nat_alt by linarith
  then have one: "pf_add_empty_env_page e (nth_page A j) True k = Some (0, k1)" using k1(1) by (simp add: pf_add_empty_env_page_def Let_def)
  have nx: "nth_page A j + PAGE_SIZE = nth_page A (Suc j)" "nth_page 0 t + PAGE_SIZE = (nth_page 0 (Suc t) :: u32)" "Suc t + d = t + Suc d"
    by (simp_all add: algebra_simps)
  have "add_empty_pages e (nth_page A j) (nth_page 0 t) (nth_page 0 (t + Suc d)) k =
      add_empty_pages e (nth_page A j + PAGE_SIZE) (nth_page 0 t + PAGE_SIZE) (nth_page 0 (t + Suc d)) k1"
    by (subst add_empty_pages.simps) (simp only: lt one if_True Option.bind.bind_lunit prod.case, simp)
  then have "add_empty_pages e (nth_page A j) (nth_page 0 t) (nth_page 0 (t + Suc d)) k = Some k2"
    unfolding nx(1,2) k2(1) [unfolded nx(3)] .
  moreover have "max (max c (Suc j)) (Suc j + d) = max c (j + Suc d)" by simp
  ultimately show ?case using k2(2) by (intro exI [of _ k2]) simp
qed

section \<open>The whole segment\<close>

lemma segment_pages:
  fixes va fs ms :: u32
  defines "P \<equiv> ROUNDDOWN va PAGE_SIZE" and "off \<equiv> unat va mod 4096"
  assumes n: "unat P + n * 4096 \<le> 2147483648" "off + unat ms \<le> n * 4096" "off + unat fs < n * 4096" and ms: "fs \<le> ms"
  shows "unat P + off = unat va" "unat (va - P) = off" "ROUNDUP va PAGE_SIZE = nth_page P (if off = 0 then 0 else 1)"
    "ROUNDDOWN (va + fs) PAGE_SIZE = nth_page P ((off + unat fs) div 4096)" "unat (va + fs) = unat va + unat fs"
    "ROUNDUP (va + fs) PAGE_SIZE = nth_page P ((off + unat fs + 4095) div 4096)"
    "ROUNDUP (va + ms - ROUNDUP (va + fs) PAGE_SIZE) PAGE_SIZE = nth_page 0 ((off + unat ms + 4095) div 4096 - (off + unat fs + 4095) div 4096)"
proof -
  have le: "off \<le> unat va" by (simp add: off_def)
  have P: "unat P = unat va - off" by (simp add: P_def off_def unat_ROUNDDOWN)
  show Pva: "unat P + off = unat va" using P le by simp
  define q where "q = unat va div 4096"
  have va: "unat va = q * 4096 + off" unfolding q_def off_def by simp
  then have Pq: "unat P = q * 4096" using Pva by simp
  have round: "(q * 4096 + x + 4095) div 4096 = q + (x + 4095) div 4096" "(q * 4096 + x) div 4096 = q + x div 4096" for x :: nat
    by (simp_all add: add.assoc)
  have off1: "(off + 4095) div 4096 = (if off = 0 then 0 else 1)" by (cases "off = 0") (auto simp: off_def intro!: div_nat_eqI)
  show "unat (va - P) = off" using P le by (subst unat_sub) (simp_all add: word_le_nat_alt)
  have at: "x = nth_page P j" if "unat x = unat P + j * 4096" "j \<le> n" for x :: u32 and j
    using nth_page_unat [OF n(1) that(2)] that(1) by (metis unsigned_word_eqI)
  have n0: "0 < n" using n(3) by (cases n) auto
  have up: "(unat va + 4095) div 4096 * 4096 = unat P + (if off = 0 then 0 else 1) * 4096"
    unfolding va round off1 Pq by simp
  have small: "unat va < 2147483648" using n Pva by linarith
  show "ROUNDUP va PAGE_SIZE = nth_page P (if off = 0 then 0 else 1)"
    using n0 small by (intro at) (use up in \<open>simp_all add: unat_ROUNDUP add.commute [of _ 4095]\<close>)
  show vf: "unat (va + fs) = unat va + unat fs" using n Pva by (subst unat_word_ariths) simp
  have vm: "unat (va + ms) = unat va + unat ms" using n Pva by (subst unat_word_ariths) simp
  have L: "unat va + unat fs - (unat va + unat fs) mod 4096 = unat P + (off + unat fs) div 4096 * 4096"
    unfolding minus_mod_eq_div_mult va Pq add.assoc round by simp
  show "ROUNDDOWN (va + fs) PAGE_SIZE = nth_page P ((off + unat fs) div 4096)"
    using n(3) by (intro at) (simp_all add: unat_ROUNDDOWN vf L)
  define R where "R = (off + unat fs + 4095) div 4096"
  have R: "(unat va + unat fs + 4095) div 4096 * 4096 = unat P + R * 4096"
    unfolding R_def va Pq add.assoc [of "q * 4096" off] round by simp
  have "R \<le> n" using n(3) by (simp add: R_def)
  have uR: "unat (ROUNDUP (va + fs) PAGE_SIZE) = unat P + R * 4096" using n Pva R by (simp add: unat_ROUNDUP vf add.commute [of _ 4095] add.assoc)
  show rR: "ROUNDUP (va + fs) PAGE_SIZE = nth_page P ((off + unat fs + 4095) div 4096)"
    using \<open>R \<le> n\<close> uR by (intro at) (simp_all add: R_def)
  define D where "D = (off + unat ms + 4095) div 4096 - R"
  have D: "D \<le> n" using n(2) unfolding D_def by simp
  have u0: "unat (nth_page 0 D :: u32) = D * 4096" using nth_page_unat [of 0 n D] D n(1) by simp
  have msl: "unat fs \<le> unat ms" using ms by (simp add: word_le_nat_alt)
  have "unat (ROUNDUP (va + ms - ROUNDUP (va + fs) PAGE_SIZE) PAGE_SIZE) = D * 4096"
  proof (cases "unat P + R * 4096 \<le> unat va + unat ms")
    case True
    then have r: "unat (va + ms - ROUNDUP (va + fs) PAGE_SIZE) = off + unat ms - R * 4096"
      using uR vm Pva by (subst unat_sub) (auto simp: word_le_nat_alt)
    have ge: "R * 4096 \<le> off + unat ms" using True Pva by linarith
    have "(off + unat ms - R * 4096 + 4095) div 4096 = D" 
    proof -
      have "off + unat ms + 4095 = R * 4096 + (off + unat ms - R * 4096 + 4095)" using ge by simp
      then have "(off + unat ms + 4095) div 4096 = R + (off + unat ms - R * 4096 + 4095) div 4096" by simp
      then show ?thesis by (simp add: D_def)
    qed
    then show ?thesis using r n by (simp add: unat_ROUNDUP)
  next
    case False
    define x where "x = unat P + R * 4096 - (unat va + unat ms)"
    have x: "0 < x" "x \<le> 4095" using False msl Pva unfolding x_def R_def by linarith+
    have ux: "unat (of_nat x :: u32) = x" using x by (simp add: unat_of_nat)
    have "unat (va + ms + of_nat x) = unat va + unat ms + x"
      using x n Pva by (subst unat_word_ariths) (simp add: vm ux)
    moreover have "unat va + unat ms + x = unat P + R * 4096" using False unfolding x_def by simp
    ultimately have "ROUNDUP (va + fs) PAGE_SIZE = (va + ms) + of_nat x" using uR by (simp only: word_unat_eq_iff)
    then have "va + ms - ROUNDUP (va + fs) PAGE_SIZE + PAGE_SIZE - 1 = of_nat (4095 - x)" using x by (simp add: of_nat_diff)
    moreover have "unat (of_nat (4095 - x) :: u32) = 4095 - x" by (simp add: unat_of_nat)
    ultimately have "unat (ROUNDUP (va + ms - ROUNDUP (va + fs) PAGE_SIZE) PAGE_SIZE) = 0"
      using x by (simp add: ROUNDUP_def unat_ROUNDDOWN)
    moreover have "off + unat ms + 4095 < Suc R * 4096" using False Pva by simp
    then have "(off + unat ms + 4095) div 4096 < Suc R" by (simp only: less_mult_imp_div_less)
    then have "D = 0" by (simp add: D_def)
    ultimately show ?thesis by simp
  qed
  then show "ROUNDUP (va + ms - ROUNDUP (va + fs) PAGE_SIZE) PAGE_SIZE = nth_page 0 ((off + unat ms + 4095) div 4096 - (off + unat fs + 4095) div 4096)"
    using u0 unfolding D_def R_def by (metis unsigned_word_eqI)
qed

lemma write_segment_ok:
  fixes seg :: program_segment
  defines "va \<equiv> seg_virtual_address seg" and "src \<equiv> seg_ptr_start seg" and "fs \<equiv> size_in_file seg" and "ms \<equiv> size_in_memory seg"
  defines "P \<equiv> ROUNDDOWN va PAGE_SIZE" and "off \<equiv> unat va mod 4096"
  assumes pages: "in_file S e P n pl k" "pf_ok S k ds" "n \<le> length ds"
    and mem: "seg_mem (unat fs) src (kmem k) zp tmp k"
    and n: "unat P + n * 4096 \<le> 2147483648" "off + unat ms \<le> n * 4096" "off + unat fs < n * 4096" and ms: "fs \<le> ms"
    and first: "off = 0 \<or> 4096 \<le> off + unat fs"
  shows "\<exists>k'. write_segment e seg k = Some k' \<and>
    pages_loaded S e P n pl (stored k) (seg_byte (unat va) (unat fs) src (kmem k)) (max (Suc ((off + unat fs) div 4096)) ((off + unat ms + 4095) div 4096)) k'"
proof -
  note w = segment_pages [OF n(1,2,3) [unfolded P_def off_def] ms, folded P_def off_def]
  let ?f = "seg_byte (unat va) (unat fs) src (kmem k)"
  define b0 where "b0 = (if off = 0 then 0 else 1 :: nat)"
  define L where "L = (off + unat fs) div 4096"
  define R where "R = (off + unat fs + 4095) div 4096"
  define D where "D = (off + unat ms + 4095) div 4096 - R"
  define s1 where "s1 = src + of_nat (unat P + b0 * 4096 - unat va)"
  have off: "off < 4096" by (simp add: off_def)
  have bL: "b0 \<le> L" using first by (auto simp: b0_def L_def)
  have Ln: "L < n" "unat va + unat fs < unat P + Suc L * 4096" using n(3) w(1) unfolding L_def by (simp_all add: less_mult_imp_div_less) 
  have p0: "pages_loaded S e P n pl (stored k) ?f 0 k" using pages by (auto simp: pages_loaded_def)
  have offw: "va - P = of_nat off" using w(2) using off by (simp add: word_unat_eq_iff unat_of_nat)
  have uR: "unat (ROUNDUP va PAGE_SIZE) = unat P + b0 * 4096" using w(3) nth_page_unat [OF n(1), of b0] bL Ln by (simp add: b0_def)
  obtain k1 where k1: "(if va - P \<noteq> 0 then add_partial_page e P (va - P) src (unat (ROUNDUP va PAGE_SIZE) - unat va) k else Some k) = Some k1"
    "pages_loaded S e P n pl (stored k) ?f b0 k1" "seg_mem (unat fs) src (kmem k) zp tmp k1"
  proof (cases "off = 0")
    case True
    then show ?thesis using that [of k] p0 mem offw by (simp add: b0_def)
  next
    case False
    define N where "N = 4096 - off"
    have un: "unat (of_nat off :: u32) = off" using off by (simp add: unat_of_nat)
    have nz: "va - P \<noteq> 0" using False off w(2) by auto
    let ?k = "on_kmem (\<lambda>m. copy_bytes (tmp + (va - P)) (src + of_nat 0) N (zero_bytes tmp 4096 m)) k"
    have r: "unat P + unat (va - P) = unat va + 0" "0 + N \<le> unat fs" "unat (va - P) + N \<le> 4096" "va - P = 0 \<or> (0::nat) = 0" "unat (va - P) + N = 4096 \<or> 0 + N = unat fs"
      using w(1,2) off False first by (auto simp: N_def)
    from partial_page_right [OF mem r refl] have pr: "page_right ?f (unat P + 0 * 4096) (kernel_page tmp ?k)" "seg_mem (unat fs) src (kmem k) zp tmp ?k" by simp_all
    have "pages_loaded S e P n pl (stored k) ?f 0 ?k" using p0 by simp
    from pages_loaded_step [OF this _ _ _ n(1) pr(1)] Ln(1) obtain k1 where
      k1: "pf_add_env_page e P (kernel_page tmp ?k) ?k = Some (0, k1)" "pages_loaded S e P n pl (stored k) ?f 1 k1"
        "kmem k1 = kmem ?k" "ptr_zero_page k1 = ptr_zero_page ?k" "ptr_temp_page k1 = ptr_temp_page ?k" by auto
    have "unat (ROUNDUP va PAGE_SIZE) - unat va = N" using uR w(1) False off by (simp add: b0_def N_def)
    moreover have "ptr_temp_page k = tmp" using mem by (simp add: seg_mem_def)
    ultimately have "add_partial_page e P (va - P) src (unat (ROUNDUP va PAGE_SIZE) - unat va) k = Some k1"
      using k1(1) by (simp add: add_partial_page_def add_page_def)
    then show ?thesis using that [of k1] k1(2) seg_mem_other [OF k1(3-5)] pr(2) nz False by (simp add: b0_def)
  qed
  have s1: "(if va - P \<noteq> 0 then src + of_nat (unat (ROUNDUP va PAGE_SIZE) - unat va) else src) = s1"
    using w(1,2) uR off by (auto simp: s1_def b0_def)
  have "\<exists>k2. add_full_pages e (nth_page P b0) (nth_page P (b0 + (L - b0))) s1 k1 = Some (nth_page s1 (L - b0), k2) \<and>
      pages_loaded S e P n pl (stored k) ?f (b0 + (L - b0)) k2 \<and> seg_mem (unat fs) src (kmem k) zp tmp k2"
    by (rule add_full_pages_loaded [OF k1(2,3) _ n(1) _ _ s1_def]) (use bL Ln w(1) off in \<open>auto simp: b0_def L_def\<close>)
  then obtain k2 where k2: "add_full_pages e (nth_page P b0) (nth_page P L) s1 k1 = Some (nth_page s1 (L - b0), k2)"
      "pages_loaded S e P n pl (stored k) ?f L k2" "seg_mem (unat fs) src (kmem k) zp tmp k2" using bL by auto
  obtain k3 where k3: "add_partial_page e (nth_page P L) 0 (nth_page s1 (L - b0)) (unat (va + fs) - unat (nth_page P L)) k2 = Some k3"
    "pages_loaded S e P n pl (stored k) ?f (Suc L) k3" "seg_mem (unat fs) src (kmem k) zp tmp k3"
  proof -
    define d where "d = unat P + L * 4096 - unat va"
    define N where "N = unat fs - d"
    have ge: "unat va \<le> unat P + b0 * 4096" using w(1) off by (simp add: b0_def)
    have mono: "b0 * 4096 \<le> L * 4096" using bL by simp
    have Lf: "L * 4096 \<le> off + unat fs" by (simp add: L_def)
    have "unat P + L * 4096 - unat va = (unat P + b0 * 4096 - unat va) + (L - b0) * 4096" using ge mono bL by (simp add: diff_mult_distrib)
    then have s3: "nth_page s1 (L - b0) = src + of_nat d" unfolding s1_def d_def by simp
    have uL: "unat (nth_page P L) = unat P + L * 4096" using nth_page_unat [OF n(1), of L] Ln by simp
    have N: "unat (va + fs) - unat (nth_page P L) = N" using uL w(1,5) ge mono by (simp add: N_def d_def)
    let ?k = "on_kmem (\<lambda>m. copy_bytes (tmp + 0) (src + of_nat d) N (zero_bytes tmp 4096 m)) k2"
    have r: "unat P + L * 4096 + unat (0::u32) = unat va + d" "d + N \<le> unat fs" "unat (0::u32) + N \<le> 4096" "(0::u32) = 0 \<or> d = 0" "unat (0::u32) + N = 4096 \<or> d + N = unat fs"
      using w(1) ge mono Lf Ln(2) by (auto simp: N_def d_def)
    from partial_page_right [OF k2(3) r refl] have pr: "page_right ?f (unat P + L * 4096) (kernel_page tmp ?k)" "seg_mem (unat fs) src (kmem k) zp tmp ?k" by simp_all
    have "pages_loaded S e P n pl (stored k) ?f L ?k" using k2(2) by simp
    from pages_loaded_step [OF this order.refl Ln(1) _ n(1) pr(1)] Ln(1) obtain k3 where
      k3: "pf_add_env_page e (nth_page P L) (kernel_page tmp ?k) ?k = Some (0, k3)" "pages_loaded S e P n pl (stored k) ?f (Suc L) k3"
        "kmem k3 = kmem ?k" "ptr_zero_page k3 = ptr_zero_page ?k" "ptr_temp_page k3 = ptr_temp_page ?k" by auto
    moreover have "ptr_temp_page k2 = tmp" using k2(3) by (simp add: seg_mem_def)
    ultimately have "add_partial_page e (nth_page P L) 0 (nth_page s1 (L - b0)) (unat (va + fs) - unat (nth_page P L)) k2 = Some k3"
      unfolding N s3 add_partial_page_def add_page_def by simp
    then show ?thesis using that [of k3] k3(2) seg_mem_other [OF k3(3-5)] pr(2) by simp
  qed
  have "\<exists>k4. add_empty_pages e (nth_page P R) (nth_page 0 0) (nth_page 0 (0 + D)) k3 = Some k4 \<and> pages_loaded S e P n pl (stored k) ?f (max (Suc L) (R + D)) k4"
  proof (rule add_empty_pages_loaded [OF k3(2,3) _ _ _ n(1)])
    have "(off + unat ms + 4095) div 4096 \<le> n" using n(2) by simp
    then have "D \<le> n" by (simp add: D_def)
    then show "(0 + D) * 4096 \<le> 2147483648" using n(1) by simp
  qed (use Ln n w(1) in \<open>auto simp: R_def L_def D_def\<close>)
  then obtain k4 where k4: "add_empty_pages e (nth_page P R) 0 (nth_page 0 D) k3 = Some k4" "pages_loaded S e P n pl (stored k) ?f (max (Suc L) (R + D)) k4" by auto
  have "R + D = (off + unat ms + 4095) div 4096" using ms unfolding D_def R_def word_le_nat_alt by (simp add: div_le_mono)
  then show ?thesis
    using k1(1) k2(1) k3(1) k4 w(3,4,6,7) s1
    unfolding write_segment_def va_def [symmetric] src_def [symmetric] fs_def [symmetric] ms_def [symmetric] Let_def P_def [symmetric]
    by (simp add: b0_def L_def R_def D_def)
qed

text \<open>
  A segment that starts inside a page and ends in the same page: the loop over the last page writes the
  first page a second time, with bytes from beyond the end of the first page, moved to its start.
\<close>

lemma write_segment_inside_one_page:
  fixes seg :: program_segment
  defines "va \<equiv> seg_virtual_address seg" and "src \<equiv> seg_ptr_start seg" and "fs \<equiv> size_in_file seg" and "ms \<equiv> size_in_memory seg"
  defines "P \<equiv> ROUNDDOWN va PAGE_SIZE" and "off \<equiv> unat va mod 4096"
  assumes pages: "in_file S e P 1 pl k" "pf_ok S k ds" "ds \<noteq> []"
    and apart: "\<And>i. i < 4096 + unat fs \<Longrightarrow> 4096 \<le> unat (src + of_nat i - ptr_temp_page k)"
    and r: "off \<noteq> 0" "off + unat fs < 4096" "off + unat ms \<le> 4096" "fs \<le> ms" "unat P + 4096 \<le> 2147483648"
  shows "\<exists>k' b. write_segment e seg k = Some k' \<and> stored k' (pl 0) = Some b \<and>
    (\<forall>x. unat x < 4096 \<longrightarrow> b x = (if unat x < off + unat fs then kmem k (src + of_nat (4096 - off) + x) else 0))"
proof -
  have n: "unat P + 1 * 4096 \<le> 2147483648" "off + unat ms \<le> 1 * 4096" "off + unat fs < 1 * 4096" using r by simp_all
  note w = segment_pages [OF n(1,2,3) [unfolded P_def off_def] r(4), folded P_def off_def]
  define N where "N = 4096 - off"
  have off: "off < 4096" by (simp add: off_def)
  have Z: "(off + unat fs) div 4096 = 0" "(off + unat fs + 4095) div 4096 = 1" "(off + unat ms + 4095) div 4096 \<le> 1"
    using r by (auto intro!: div_nat_eqI)
  have nz: "va - P \<noteq> 0" using r(1) w(2) by auto
  have uP: "unat (nth_page P 1) = unat P + 4096" using nth_page_unat [OF n(1), of 1] by simp
  have N: "unat (ROUNDUP va PAGE_SIZE) - unat va = N" using w(1,3) uP r(1) by (simp add: N_def)
  define tmp where "tmp = ptr_temp_page k"
  define k0 where "k0 = on_kmem (\<lambda>m. copy_bytes (tmp + (va - P)) src N (zero_bytes tmp 4096 m)) k"
  have "in_file S e P 1 pl k0" "pf_ok S k0 ds" using pages by (simp_all add: k0_def)
  from add_page_ok [where j = 0 and b = "kernel_page tmp k0", OF this(2,1) _ pages(3) n(1)] obtain k1 ds1 where k1: "pf_add_env_page e P (kernel_page tmp k0) k0 = Some (0, k1)"
    "pf_ok S k1 ds1" "file_step S e P 1 pl k0 k1" "ds1 = (if stored k0 (pl 0) = None then tl ds else ds)"
    "\<forall>q \<in> S. stored k1 q = ((stored k0)(pl 0 \<mapsto> kernel_page tmp k0)) q" by auto
  have inS: "pl 0 \<in> S" using pages(1) by (simp add: in_file_def)
  have f1: "in_file S e P 1 pl k1" "ptr_temp_page k1 = tmp" "kmem k1 = kmem k0"
    using k1(3) by (simp_all add: file_step_def k0_def on_kmem_def tmp_def)
  define k2 where "k2 = on_kmem (\<lambda>m. copy_bytes (tmp + 0) (src + of_nat N) (off + unat fs) (zero_bytes tmp 4096 m)) k1"
  have "in_file S e P 1 pl k2" "pf_ok S k2 ds1" "stored k2 (pl 0) \<noteq> None" using f1 k1(2,5) inS by (simp_all add: k2_def)
  from add_page_ok [where j = 0 and b = "kernel_page tmp k2", OF this(2,1) _ _ n(1)] this(3) obtain k3 where k3: "pf_add_env_page e P (kernel_page tmp k2) k2 = Some (0, k3)"
    "\<forall>q \<in> S. stored k3 q = ((stored k2)(pl 0 \<mapsto> kernel_page tmp k2)) q" by auto
  have ap: "4096 \<le> unat (src + of_nat N + of_nat i - tmp)" if "i < off + unat fs" for i
  proof -
    have "4096 \<le> unat (src + of_nat (N + i) - tmp)" using apart [of "N + i"] that off unfolding N_def tmp_def by linarith
    then show ?thesis by (simp add: add.assoc)
  qed
  have far: "kmem k0 x = kmem k x" if "4096 \<le> unat (x - tmp)" for x
    using that w(2) off copy_bytes_at [OF apart [folded tmp_def], of N "va - P" "zero_bytes tmp 4096 (kmem k)" x]
    by (simp add: k0_def on_kmem_def N_def zero_bytes_at)
  have page: "kernel_page tmp k2 x = (if unat x < off + unat fs then kmem k (src + of_nat N + x) else 0)" if x: "unat x < 4096" for x
  proof -
    have "unat (0::u32) + (off + unat fs) \<le> 4096" using r by simp
    from copy_bytes_at [OF ap this] have "kernel_page tmp k2 x = (if unat x < off + unat fs then zero_bytes tmp 4096 (kmem k0) (src + of_nat N + x) else 0)"
      using x by (simp add: kernel_page_def k2_def on_kmem_def f1(3) zero_bytes_at)
    moreover have "4096 \<le> unat (src + of_nat N + x - tmp)" if "unat x < off + unat fs" using ap [OF that] by simp
    ultimately show ?thesis using far by (cases "unat x < off + unat fs") (simp_all add: zero_bytes_at not_less [symmetric])
  qed
  have one: "add_partial_page e P (va - P) src N k = Some k1"
    using k1(1) by (simp add: add_partial_page_def add_page_def k0_def tmp_def)
  have two: "add_partial_page e P 0 (src + of_nat N) (off + unat fs) k1 = Some k3"
    using k3(1) f1(2) by (simp add: add_partial_page_def add_page_def k2_def)
  have none: "\<not> nth_page P 1 < P" using uP by (simp add: word_less_nat_alt)
  have len: "unat (va + fs) - unat P = off + unat fs" using w(1,5) by simp
  have w4: "ROUNDDOWN (va + fs) PAGE_SIZE = P" "ROUNDUP va PAGE_SIZE = nth_page P 1"
    "ROUNDUP (va + ms - ROUNDUP (va + fs) PAGE_SIZE) PAGE_SIZE = 0" using w(3,4,7) Z r(1) by simp_all
  have "write_segment e seg k = Some k3"
    using one two none nz N len w4
    unfolding write_segment_def va_def [symmetric] src_def [symmetric] fs_def [symmetric] ms_def [symmetric] Let_def P_def [symmetric]
    by (simp add: add_full_pages.simps add_empty_pages.simps)
  then show ?thesis using k3(2) inS page by (intro exI [of _ k3] exI [of _ "kernel_page tmp k2"]) (simp add: N_def)
qed

section \<open>A concrete program\<close>

definition disk_program :: kern where
  "disk_program = boot_disk\<lparr>ptr_zero_page := 0xF0301000, ptr_temp_page := 0xF0300000, kmem := (\<lambda>_. 0)(0xF0200000 := 7, 0xF0200001 := 8)\<rparr>"

definition two_byte_segment :: program_segment where
  "two_byte_segment = \<lparr>seg_ptr_start = 0xF0200000, size_in_file = 2, size_in_memory = 5, seg_virtual_address = 0x800000, segment_id = 0\<rparr>"

lemma disk_program_ok: "pf_ok {(0xF6001000, 0)} disk_program [2, 1]"
proof -
  have "disk_frame_at disk_program = disk_frame_at boot_disk" by (simp add: disk_frame_at_def disk_program_def fun_eq_iff)
  then show ?thesis using boot_disk_ok by (simp add: pf_ok_def disk_idle_def disk_free_def arrays_apart_def disk_program_def frame_at_def)
qed

lemma disk_program_file: "in_file {(0xF6001000, 0)} 0xEEC00000 0x800000 1 (\<lambda>_. (0xF6001000, 0)) disk_program"
proof -
  have "page_place disk_program = page_place boot_disk"
    by (simp add: fun_eq_iff disk_program_def page_place_def disk_table_address_def STATIC_KERNEL_VIRTUAL_ADDRESS_def
        kheap_virtual_address_def to_frame_info_def frame_at_def to_frame_number_def Let_def cong: option.case_cong)
  then show ?thesis using boot_disk_place by (simp add: in_file_def inj_on_def)
qed

lemma disk_program_mem: "seg_mem 2 0xF0200000 (kmem disk_program) 0xF0301000 0xF0300000 disk_program"
proof -
  have "(0xF0301000::u32) + x \<noteq> 0xF0200000 \<and> (0xF0301000::u32) + x \<noteq> 0xF0200001 \<and> 4096 \<le> unat ((0xF0301000::u32) + x - 0xF0300000)"
    if "unat x < 4096" for x :: u32
  proof -
    have "unat (0xF0301000 + x) = 0xF0301000 + unat x" "unat (0x1000 + x) = 0x1000 + unat x" using that by (simp_all add: unat_word_ariths)
    then have "0xF0301000 + x > 0xF0200001" "0xF0301000 + x > 0xF0200000" "4096 \<le> unat (0x1000 + x)" by (simp_all add: word_less_nat_alt)
    then have "0xF0301000 + x \<noteq> 0xF0200001" "0xF0301000 + x \<noteq> 0xF0200000" by (metis less_irrefl)+
    with \<open>4096 \<le> unat (0x1000 + x)\<close> show ?thesis by (simp add: add.commute)
  qed
  moreover have "4096 \<le> unat (of_nat i - 1048576 :: u32)" if "i < 2" for i
  proof -
    have "i = 0 \<or> i = 1" using that by linarith
    then show ?thesis by (elim disjE) simp_all
  qed
  ultimately show ?thesis by (auto simp: seg_mem_def disk_program_def)
qed

section \<open>Properties\<close>

text \<open>The pages of a segment that are written: those of its part in memory, and the page that holds the byte
  behind its part in the file, also where that is a page the segment does not reach.\<close>

definition file_end :: "program_segment \<Rightarrow> nat" where
  "file_end seg = unat (seg_virtual_address seg) mod 4096 + unat (size_in_file seg)"

definition memory_end :: "program_segment \<Rightarrow> nat" where
  "memory_end seg = unat (seg_virtual_address seg) mod 4096 + unat (size_in_memory seg)"

definition pages_written :: "program_segment \<Rightarrow> nat" where
  "pages_written seg = max (file_end seg div 4096 + 1) ((memory_end seg + 4095) div 4096)"

lemma pages_written_enough: "memory_end seg \<le> pages_written seg * 4096" "file_end seg < pages_written seg * 4096"
proof -
  have "memory_end seg \<le> (memory_end seg + 4095) div 4096 * 4096"
    using dividend_less_div_times [of 4096 "memory_end seg + 4095"] by simp
  moreover have "file_end seg < (file_end seg div 4096 + 1) * 4096"
    using dividend_less_div_times [of 4096 "file_end seg"] by (simp add: add_mult_distrib)
  moreover have "(memory_end seg + 4095) div 4096 * 4096 \<le> pages_written seg * 4096"
    "(file_end seg div 4096 + 1) * 4096 \<le> pages_written seg * 4096"
    unfolding pages_written_def by (rule mult_le_mono1, simp)+
  ultimately show "memory_end seg \<le> pages_written seg * 4096" "file_end seg < pages_written seg * 4096" by linarith+
qed

text \<open>C26: writing a segment to the page file succeeds when there are disk frames for its pages, and every page
  written has the right bytes: at each address, the byte of the program if the address lies in the part of
  the segment that is in the file, and zero elsewhere. The pages written are those the segment touches, and
  when its part in the file ends at a page boundary the page from there on too: if the segment ends there as
  well, the page behind it is overwritten with zeros. All other pages of all processes keep what is stored.
  It holds for a segment that starts at a page boundary or reaches the end of the page it starts in, and
  whose page-file tables exist; the temporary page must not overlap the program.\<close>

theorem write_segment_correct:
  assumes "in_file S e (ROUNDDOWN (seg_virtual_address seg) PAGE_SIZE) (pages_written seg) pl k" "pf_ok S k ds"
    and "pages_written seg \<le> length ds"
    and "seg_mem (unat (size_in_file seg)) (seg_ptr_start seg) (kmem k) (ptr_zero_page k) (ptr_temp_page k) k"
    and "unat (ROUNDDOWN (seg_virtual_address seg) PAGE_SIZE) + pages_written seg * 4096 \<le> 2147483648"
    and "size_in_file seg \<le> size_in_memory seg"
    and "unat (seg_virtual_address seg) mod 4096 = 0 \<or> 4096 \<le> file_end seg"
  shows "\<exists>k'. write_segment e seg k = Some k' \<and>
    (\<forall>j < pages_written seg. \<exists>b. stored k' (pl j) = Some b \<and> (\<forall>x. unat x < 4096 \<longrightarrow>
        b x = seg_byte (unat (seg_virtual_address seg)) (unat (size_in_file seg)) (seg_ptr_start seg) (kmem k)
                (unat (ROUNDDOWN (seg_virtual_address seg) PAGE_SIZE) + j * 4096 + unat x))) \<and>
    (file_end seg = memory_end seg \<and> file_end seg mod 4096 = 0 \<longrightarrow> (\<exists>b. stored k' (pl (memory_end seg div 4096)) = Some b \<and>
        (\<forall>x. unat x < 4096 \<longrightarrow> b x = 0))) \<and>
    (\<forall>q \<in> S. q \<notin> pl ` {..<pages_written seg} \<longrightarrow> stored k' q = stored k q)"
proof -
  let ?P = "ROUNDDOWN (seg_virtual_address seg) PAGE_SIZE" and ?va = "unat (seg_virtual_address seg)"
  let ?f = "seg_byte ?va (unat (size_in_file seg)) (seg_ptr_start seg) (kmem k)"
  note m = pages_written_enough [of seg, unfolded memory_end_def file_end_def]
  from write_segment_ok [OF assms(1-5) m assms(6) assms(7) [unfolded file_end_def]] obtain k' where
    k': "write_segment e seg k = Some k'" "pages_loaded S e ?P (pages_written seg) pl (stored k) ?f (pages_written seg) k'"
    unfolding pages_written_def file_end_def memory_end_def by auto
  then have right: "\<exists>b. stored k' (pl j) = Some b \<and> page_right ?f (unat ?P + j * 4096) b" if "j < pages_written seg" for j
    using that unfolding pages_loaded_def by blast
  have behind: "\<exists>b. stored k' (pl (memory_end seg div 4096)) = Some b \<and> (\<forall>x. unat x < 4096 \<longrightarrow> b x = 0)"
    if "file_end seg = memory_end seg" "file_end seg mod 4096 = 0"
  proof -
    have "memory_end seg div 4096 < pages_written seg" using that(1) by (simp add: pages_written_def)
    from right [OF this] obtain b where b: "stored k' (pl (memory_end seg div 4096)) = Some b"
      "page_right ?f (unat ?P + memory_end seg div 4096 * 4096) b" by blast
    have "unat ?P + memory_end seg div 4096 * 4096 = ?va + unat (size_in_file seg)"
    proof -
      have "file_end seg div 4096 * 4096 = file_end seg" using that(2) by (metis add.right_neutral div_mult_mod_eq)
      moreover have "unat ?P + ?va mod 4096 = ?va" by (simp add: unat_ROUNDDOWN)
      ultimately show ?thesis using that(1) by (simp add: file_end_def)
    qed
    then have "b x = 0" if "unat x < 4096" for x using b(2) that by (simp add: page_right_def seg_byte_def)
    then show ?thesis using b(1) by blast
  qed
  show ?thesis
    using k' right behind by (intro exI [of _ k']) (auto simp: pages_loaded_def page_right_def)
qed

theorem write_segment_correct_witness:
  "\<exists>k' b. write_segment 0xEEC00000 two_byte_segment disk_program = Some k' \<and> stored k' (0xF6001000, 0) = Some b \<and>
     b 0 = 7 \<and> b 2 = 0"
proof -
  let ?s = two_byte_segment
  have e: "file_end ?s = 2" "memory_end ?s = 5" "pages_written ?s = 1"
    by (simp_all add: pages_written_def file_end_def memory_end_def two_byte_segment_def)
  have f: "in_file {(0xF6001000, 0)} 0xEEC00000 (ROUNDDOWN (seg_virtual_address ?s) PAGE_SIZE) (pages_written ?s) (\<lambda>_. (0xF6001000, 0)) disk_program"
    using disk_program_file unfolding e by (simp add: two_byte_segment_def ROUNDDOWN_def)
  have m: "seg_mem (unat (size_in_file ?s)) (seg_ptr_start ?s) (kmem disk_program) (ptr_zero_page disk_program) (ptr_temp_page disk_program) disk_program"
    using disk_program_mem by (simp add: two_byte_segment_def disk_program_def)
  have l: "pages_written ?s \<le> length [2, 1 :: u32]" "unat (ROUNDDOWN (seg_virtual_address ?s) PAGE_SIZE) + pages_written ?s * 4096 \<le> 2147483648"
    "size_in_file ?s \<le> size_in_memory ?s" "unat (seg_virtual_address ?s) mod 4096 = 0 \<or> 4096 \<le> file_end ?s"
    unfolding e by (simp_all add: two_byte_segment_def ROUNDDOWN_def)
  obtain k' where k': "write_segment 0xEEC00000 ?s disk_program = Some k'"
    "\<exists>b. stored k' (0xF6001000, 0) = Some b \<and> (\<forall>x. unat x < 4096 \<longrightarrow>
        b x = seg_byte (unat (seg_virtual_address ?s)) (unat (size_in_file ?s)) (seg_ptr_start ?s) (kmem disk_program)
                (unat (ROUNDDOWN (seg_virtual_address ?s) PAGE_SIZE) + 0 * 4096 + unat x))"
    using write_segment_correct [OF f disk_program_ok l(1) m l(2-4)] unfolding e by blast
  then obtain b where b: "stored k' (0xF6001000, 0) = Some b" "unat x < 4096 \<Longrightarrow>
        b x = seg_byte (unat (seg_virtual_address ?s)) (unat (size_in_file ?s)) (seg_ptr_start ?s) (kmem disk_program)
                (unat (ROUNDDOWN (seg_virtual_address ?s) PAGE_SIZE) + 0 * 4096 + unat x)" for x by blast
  have "b 0 = 7" "b 2 = 0" by (simp_all add: b(2) two_byte_segment_def ROUNDDOWN_def seg_byte_def disk_program_def)
  then show ?thesis using k'(1) b(1) by blast
qed

end
