(* ===== verification/FOS_KRealloc.thy ===== *)
theory FOS_KRealloc
  imports FOS_KHeap
begin

text \<open>
  \<^verbatim>\<open>krealloc\<close> of \<^verbatim>\<open>kern/mem/kheap.c\<close>: resizing within the block allocator, within the
  page allocator, and moves between the two.
\<close>

definition kmemcpy :: "u32 \<Rightarrow> u32 \<Rightarrow> u32 \<Rightarrow> kern \<Rightarrow> kern" where
  "kmemcpy dst src n k = k\<lparr>kmem := memcpy dst src n (kmem k)\<rparr>"

definition krealloc_block_FF :: "ptr \<Rightarrow> u32 \<Rightarrow> kern \<Rightarrow> (ptr \<times> kern) option" where
  "krealloc_block_FF va new_size k = do {
     (p, s) \<leftarrow> realloc_block_FF kernel_sbrk va new_size (to_da k);
     Some (p, of_da s)
   }"

text \<open>Allocate, copy \<open>n\<close> bytes, free the old space; a failed allocation leaves it alone.\<close>

definition krealloc_move :: "ptr \<Rightarrow> u32 \<Rightarrow> u32 \<Rightarrow> kern \<Rightarrow> (ptr \<times> kern) option" where
  "krealloc_move va new_size n k = do {
     (p, k1) \<leftarrow> kmalloc new_size k;
     if p = NULL then Some (NULL, k1)
     else do {
       k2 \<leftarrow> kfree va (kmemcpy p va n k1);
       Some (p, k2)
     }
   }"

definition krealloc_from_block :: "ptr \<Rightarrow> u32 \<Rightarrow> kern \<Rightarrow> (ptr \<times> kern) option" where
  "krealloc_from_block va new_size k =
    (let old_size = load32 (kmem k) (va - 4) - 9 in
     if old_size > new_size then krealloc_block_FF va new_size k
     else if old_size < new_size then
       (if new_size \<le> DYN_ALLOC_MAX_BLOCK_SIZE then krealloc_block_FF va new_size k
        else krealloc_move va new_size old_size k)
     else Some (va, k))"

text \<open>
  The loop that counts the pages of a run. It tests the mark of the page it starts from, which is
  set, before it moves on.
\<close>

partial_function (option) count_run :: "u32 \<Rightarrow> u32 \<Rightarrow> u32 \<Rightarrow> kern \<Rightarrow> u32 option" where
  "count_run virtualAddress permissions no_pages k = do {
     let END_FLAG = (permissions AND 0x200 = 512);
     let no_pages = no_pages + 1;
     if END_FLAG then Some no_pages
     else do {
       let virtualAddress = virtualAddress + PAGE_SIZE;
       permissions \<leftarrow> pt_get_page_permissions (ptr_page_directory k) virtualAddress k;
       count_run virtualAddress permissions no_pages k
     }
   }"

definition krealloc_shrink_pages :: "ptr \<Rightarrow> u32 \<Rightarrow> u32 \<Rightarrow> u32 \<Rightarrow> kern \<Rightarrow> (ptr \<times> kern) option" where
  "krealloc_shrink_pages va new_size no_pages old_size k =
    (if new_size \<le> DYN_ALLOC_MAX_BLOCK_SIZE then krealloc_move va new_size new_size k
     else do {
       let begin_free = va + new_size;
       let no_free_pages = (old_size - new_size) div PAGE_SIZE;
       let no_allocated_pages = no_pages - no_free_pages;
       k1 \<leftarrow> (if no_free_pages > 1 then pt_set_page_permissions (ptr_page_directory k) begin_free 512 0 k
              else pt_set_page_permissions (ptr_page_directory k) begin_free 0 512 k);
       k2 \<leftarrow> kfree begin_free k1;
       k3 \<leftarrow> (if no_allocated_pages > 1
              then pt_set_page_permissions (ptr_page_directory k2) (begin_free - PAGE_SIZE) 512 0 k2
              else pt_set_page_permissions (ptr_page_directory k2) (begin_free - PAGE_SIZE) 0 512 k2);
       Some (va, k3)
     })"

text \<open>The scan for a free run right behind the allocation; an exact fit is taken off the list.\<close>

definition pages_after_step ::
  "u32 \<Rightarrow> u32 \<Rightarrow> u32 \<Rightarrow> ptr \<Rightarrow> u32 \<times> kern \<Rightarrow> (bool \<times> u32 \<times> kern) option" where
  "pages_after_step addr_of_page_after difference_pages new_pages element st =
    (let (bp, k) = st in
     if pages_va k element = addr_of_page_after then
       (if no_consecutive_pages k element = difference_pages then do {
          let Begin_Page_Ptr = pages_va k element;
          k1 \<leftarrow> kfree_block element k;
          k2 \<leftarrow> on_free_pages (LIST_REMOVE page_links element) k1;
          Some (True, Begin_Page_Ptr, k2)
        }
        else if no_consecutive_pages k element > new_pages then do {
          let Begin_Page_Ptr = pages_va k element;
          let k1 = set_pages_va element (pages_va k element + difference_pages * PAGE_SIZE) k;
          let k2 = set_no_consecutive_pages element (no_consecutive_pages k1 element - difference_pages) k1;
          Some (True, Begin_Page_Ptr, k2)
        }
        else Some (False, bp, k))
     else Some (False, bp, k))"

definition extend_permissions :: "u32 \<Rightarrow> u32 \<Rightarrow> u32" where
  "extend_permissions difference_pages page_no =
    (if page_no = difference_pages then 0x200 OR PERM_PRESENT OR PERM_WRITEABLE
     else PERM_PRESENT OR PERM_WRITEABLE)"

definition krealloc_extend_pages :: "ptr \<Rightarrow> u32 \<Rightarrow> u32 \<Rightarrow> u32 \<Rightarrow> kern \<Rightarrow> (ptr \<times> kern) option" where
  "krealloc_extend_pages va new_size no_pages old_size k = do {
     let addr_of_page_after = va + no_pages * PAGE_SIZE;
     let difference_pages = new_size div PAGE_SIZE - no_pages;
     (element, Begin_Page_Ptr, k1) \<leftarrow> LIST_FOREACH (\<lambda>(bp, k) p. load32 (kmem k) (p + 8))
        (pages_after_step addr_of_page_after difference_pages (new_size div PAGE_SIZE))
        (lh_first (freePagesList_KH k)) (NULL, k);
     if element = NULL then krealloc_move va new_size old_size k1
     else if lh_size (free_frame_list k1) < difference_pages then Some (NULL, k1)
     else do {
       k2 \<leftarrow> (if no_pages = 1 then Some k1
              else pt_set_page_permissions (ptr_page_directory k1) (va + old_size) 0 512 k1);
       k3 \<leftarrow> map_new_frames_locked (extend_permissions difference_pages) Begin_Page_Ptr difference_pages k2;
       Some (Begin_Page_Ptr, k3)
     }
   }"

definition krealloc_from_pages :: "ptr \<Rightarrow> u32 \<Rightarrow> kern \<Rightarrow> (ptr \<times> kern) option" where
  "krealloc_from_pages va new_size k = do {
     permissions \<leftarrow> pt_get_page_permissions (ptr_page_directory k) va k;
     no_pages \<leftarrow> (if permissions AND 0x200 = 512 then count_run va permissions 0 k else Some 1);
     let old_size = no_pages * PAGE_SIZE;
     if old_size > new_size then krealloc_shrink_pages va new_size no_pages old_size k
     else if old_size < new_size then krealloc_extend_pages va new_size no_pages old_size k
     else Some (va, k)
   }"

definition krealloc :: "ptr \<Rightarrow> u32 \<Rightarrow> kern \<Rightarrow> (ptr \<times> kern) option" where
  "krealloc va new_size k =
    (if new_size = 0 then do { k1 \<leftarrow> kfree va k; Some (NULL, k1) }
     else if va = NULL then kmalloc new_size k
     else if va \<ge> KERNEL_HEAP_START \<and> va < BRK k then krealloc_from_block va new_size k
     else if va \<ge> HARD_LIMIT k + PAGE_SIZE \<and> va < KERNEL_HEAP_MAX then krealloc_from_pages va new_size k
     else Some (NULL, k))"

end
