(* ===== verification/FOS_SleepLock.thy ===== *)
theory FOS_SleepLock
  imports FOS_LockProps
begin

text \<open>
  Processes that take and give back one sleep lock under a preemptive round-robin scheduler, as a
  step relation whose steps run the kernel's own routines. A spin lock keeps interrupts off. A process can
  lose the CPU wherever it holds none: outside of the routines, between \<^verbatim>\<open>holding_sleeplock\<close> and
  the acquisition of the guard, when it sleeps, and, once woken, between the release of the queue lock at
  the end of \<^verbatim>\<open>sleep\<close> and its acquisition of the guard. Each of these points is a program counter, and a
  clock interrupt can come at each.
\<close>

section \<open>The machine\<close>

text \<open>
  Where a process is: outside the lock; in \<^verbatim>\<open>acquire_sleeplock\<close> after
  \<^verbatim>\<open>holding_sleeplock\<close> said no; sleeping in it; woken, with the queue lock released and the guard not
  yet taken back; between acquiring and releasing; in
  \<^verbatim>\<open>release_sleeplock\<close> after \<^verbatim>\<open>holding_sleeplock\<close> said yes.
\<close>

datatype thread = Outside | Wants | Waits | Woken | Inside | Leaves

text \<open>\<open>saved s p\<close> is the local variable \<^verbatim>\<open>intena\<close> of \<^verbatim>\<open>sched()\<close> on the kernel stack of a process \<open>p\<close> without the CPU.\<close>

record machine =
  mkern :: kern
  pc :: "ptr \<Rightarrow> thread"
  saved :: "ptr \<Rightarrow> u32"
  scheduling :: bool

abbreviation running :: "machine \<Rightarrow> ptr" where
  "running s \<equiv> cpu_proc (kcpu (mkern s))"

text \<open>The scheduler's loop between two processes.\<close>

definition dispatch :: "kern \<Rightarrow> (ptr \<times> kern) option" where
  "dispatch k = do { k1 \<leftarrow> scheduler_back k; scheduler_pick k1 }"

definition moved :: "machine \<Rightarrow> kern \<Rightarrow> thread \<Rightarrow> machine" where
  "moved s k t = s\<lparr>mkern := k, pc := (pc s)(running s := t), scheduling := False\<rparr>"

definition left :: "machine \<Rightarrow> kern \<Rightarrow> u32 \<Rightarrow> thread \<Rightarrow> ptr \<Rightarrow> machine" where
  "left s k fl t p = s\<lparr>mkern := k, pc := (pc s)(p := t), saved := (saved s)(p := fl), scheduling := True\<rparr>"

inductive lock_step :: "ptr \<Rightarrow> machine \<Rightarrow> machine \<Rightarrow> bool" for lk where
  Try: "\<lbrakk>\<not> scheduling s; pc s (running s) \<in> {Outside, Inside}; holding_sleeplock lk (mkern s) = Some (h, k)\<rbrakk>
    \<Longrightarrow> lock_step lk s (moved s k (if h then Inside else Wants))"
| Grab: "\<lbrakk>\<not> scheduling s; pc s (running s) \<in> {Wants, Woken}; acquire_guarded lk (mkern s) = Some (Returns k)\<rbrakk>
    \<Longrightarrow> lock_step lk s (moved s k Inside)"
| Block: "\<lbrakk>\<not> scheduling s; pc s (running s) \<in> {Wants, Woken}; acquire_guarded lk (mkern s) = Some (Gives_up fl k)\<rbrakk>
    \<Longrightarrow> lock_step lk s (left s k fl Waits (running s))"
| Try_leave: "\<lbrakk>\<not> scheduling s; pc s (running s) \<in> {Outside, Inside}; holding_sleeplock lk (mkern s) = Some (h, k)\<rbrakk>
    \<Longrightarrow> lock_step lk s (moved s k (if h then Leaves else Outside))"
| Leave: "\<lbrakk>\<not> scheduling s; pc s (running s) = Leaves; release_guarded lk (mkern s) = Some k\<rbrakk>
    \<Longrightarrow> lock_step lk s (moved s k Outside)"
| Tick: "\<lbrakk>\<not> scheduling s; clock_interrupt_handler (mkern s) = Some (Gives_up fl k)\<rbrakk>
    \<Longrightarrow> lock_step lk s (left s k fl (pc s (running s)) (running s))"
| Resume: "\<lbrakk>scheduling s; dispatch (mkern s) = Some (e, k); e \<noteq> NULL; pc s e \<noteq> Waits; yield_return (saved s e) k = Some k'\<rbrakk>
    \<Longrightarrow> lock_step lk s (s\<lparr>mkern := k', scheduling := False\<rparr>)"
| Wake: "\<lbrakk>scheduling s; dispatch (mkern s) = Some (e, k); e \<noteq> NULL; pc s e = Waits; sleep_woken (saved s e) k = Some k'\<rbrakk>
    \<Longrightarrow> lock_step lk s (s\<lparr>mkern := k', pc := (pc s)(e := Woken), scheduling := False\<rparr>)"

section \<open>The invariant\<close>

definition lock_queues :: "ptr \<Rightarrow> ptr list \<Rightarrow> ptr list \<Rightarrow> qlists" where
  "lock_queues lk rs ws = [Ready 0 \<mapsto> rs, Chan lk \<mapsto> ws]"

lemma lock_queues_simps [simp]:
  "lock_queues lk rs ws (Ready 0) = Some rs" "lock_queues lk rs ws (Chan lk) = Some ws"
  "(lock_queues lk rs ws)(Ready 0 \<mapsto> rs') = lock_queues lk rs' ws" "(lock_queues lk rs ws)(Chan lk \<mapsto> ws') = lock_queues lk rs ws'"
  "queued (lock_queues lk rs ws) = set rs \<union> set ws"
  by (auto simp: lock_queues_def queued_def fun_eq_iff)

definition setting :: "ptr set \<Rightarrow> kern \<Rightarrow> bool" where
  "setting P k \<longleftrightarrow> rr_setup k \<and> PageRepAlgoType k \<noteq> PG_REP_LRU_TIME_APPROX \<and>
     (\<forall>x \<in> P. x \<noteq> NULL \<and> has_space k x) \<and> inj_on (\<lambda>x. env_id (envs k x)) P"

lemma setting_world: "same_world k' k \<Longrightarrow> setting P k \<Longrightarrow> setting P k'"
  by (auto simp: setting_def same_world_def rr_setup_def inj_on_def)

primrec owns :: "thread \<Rightarrow> bool" where
  "owns Outside = False"
| "owns Wants = False"
| "owns Waits = False"
| "owns Woken = False"
| "owns Inside = True"
| "owns Leaves = True"

text \<open>The lock word against the program counters and the queue of sleepers.\<close>

definition lock_word_ok :: "ptr \<Rightarrow> ptr set \<Rightarrow> kern \<Rightarrow> (ptr \<Rightarrow> thread) \<Rightarrow> ptr list \<Rightarrow> bool" where
  "lock_word_ok lk P k t ws \<longleftrightarrow>
    (if sleep_locked k lk \<noteq> 0 then \<exists>q \<in> P. owns (t q) \<and> sleep_pid k lk = env_id (envs k q) \<and> (\<forall>r \<in> P. owns (t r) \<longrightarrow> r = q)
     else ws = [] \<and> (\<forall>q \<in> P. \<not> owns (t q)))"

definition members :: "ptr set \<Rightarrow> ptr \<Rightarrow> ptr list \<Rightarrow> ptr list \<Rightarrow> bool" where
  "members P p rs ws \<longleftrightarrow> P = insert p (set rs \<union> set ws)"

definition waiting_ok :: "kern \<Rightarrow> (ptr \<Rightarrow> thread) \<Rightarrow> ptr list \<Rightarrow> ptr list \<Rightarrow> bool" where
  "waiting_ok k t rs ws \<longleftrightarrow> (\<forall>x \<in> set rs. env_status (envs k x) = ENV_READY) \<and>
     (\<forall>x \<in> set ws. env_status (envs k x) = ENV_BLOCKED \<and> t x = Waits)"

definition on_cpu :: "ptr \<Rightarrow> machine \<Rightarrow> ptr list \<Rightarrow> ptr list \<Rightarrow> bool" where
  "on_cpu lk s rs ws \<longleftrightarrow>
    (if scheduling s then asleep lk (mkern s) \<and>
       (env_status (envs (mkern s) (running s)) = ENV_READY \<and> running s \<notin> set rs \<union> set ws \<or>
        env_status (envs (mkern s) (running s)) = ENV_BLOCKED \<and> running s \<in> set ws)
     else calm lk (mkern s) \<and> env_status (envs (mkern s) (running s)) = ENV_RUNNING \<and>
       running s \<notin> set rs \<union> set ws \<and> pc s (running s) \<noteq> Waits)"

definition machine_ok :: "ptr \<Rightarrow> ptr set \<Rightarrow> machine \<Rightarrow> ptr list \<Rightarrow> ptr list \<Rightarrow> bool" where
  "machine_ok lk P s rs ws \<longleftrightarrow> setting P (mkern s) \<and> queues_ok (mkern s) (lock_queues lk rs ws) \<and> members P (running s) rs ws \<and>
     (\<forall>x \<in> P. saved s x = 0 \<or> saved s x = FL_IF) \<and> waiting_ok (mkern s) (pc s) rs ws \<and>
     lock_word_ok lk P (mkern s) (pc s) ws \<and> on_cpu lk s rs ws"

lemma lock_word_free: "lock_word_ok lk P k t ws \<Longrightarrow> sleep_locked k lk = 0 \<Longrightarrow> ws = [] \<and> (\<forall>q \<in> P. \<not> owns (t q))"
  unfolding lock_word_ok_def by (simp only: if_False not_True_eq_False simp_thms) blast

lemma lock_word_taken:
  "lock_word_ok lk P k t ws \<Longrightarrow> sleep_locked k lk \<noteq> 0 \<Longrightarrow>
   \<exists>q \<in> P. owns (t q) \<and> sleep_pid k lk = env_id (envs k q) \<and> (\<forall>r \<in> P. owns (t r) \<longrightarrow> r = q)"
  unfolding lock_word_ok_def by (simp only: if_True not_False_eq_True)

lemma lock_word_owner:
  assumes "lock_word_ok lk P k t ws" "p \<in> P" "inj_on (\<lambda>x. env_id (envs k x)) P"
  shows "sleep_locked k lk \<noteq> 0 \<and> sleep_pid k lk = env_id (envs k p) \<longleftrightarrow> owns (t p)"
proof (cases "sleep_locked k lk = 0")
  case True
  then have "\<not> owns (t p)" using lock_word_free [OF assms(1)] assms(2) by blast
  then show ?thesis using True by simp
next
  case False
  from lock_word_taken [OF assms(1) this] obtain q where q: "q \<in> P" "owns (t q)" "sleep_pid k lk = env_id (envs k q)" "\<And>r. r \<in> P \<Longrightarrow> owns (t r) \<Longrightarrow> r = q"
    by blast
  have i: "env_id (envs k q) = env_id (envs k p) \<longleftrightarrow> q = p" using inj_on_eq_iff [OF assms(3) q(1) assms(2)] .
  have "owns (t p) \<longleftrightarrow> q = p" using q(2) q(4) [OF assms(2)] by blast
  then show ?thesis unfolding q(3) i using False by blast
qed

lemma lock_word_ok_cong:
  assumes "lock_word_ok lk P k t ws" "\<And>x. owns (t' x) = owns (t x)" "(sleep_locked k' lk \<noteq> 0) = (sleep_locked k lk \<noteq> 0)"
    and "sleep_pid k' lk = sleep_pid k lk" "\<And>x. env_id (envs k' x) = env_id (envs k x)"
  shows "lock_word_ok lk P k' t' ws"
  using assms(1) unfolding lock_word_ok_def assms(2-5) .

lemma lock_view_eqD:
  assumes "lock_view lk k' = (l, i, st)"
  shows "sleep_locked k' lk \<noteq> 0 \<longleftrightarrow> l" "sleep_pid k' lk = i" "env_status (envs k' x) = st x"
  using assms by (auto simp: lock_view_def)

lemma same_world_D:
  assumes "same_world k' k"
  shows "cpu_proc (kcpu k') = cpu_proc (kcpu k)" "env_id (envs k' x) = env_id (envs k x)"
  using assms by (simp_all add: same_world_def)

section \<open>The steps of the running process keep it\<close>

lemma try_keeps:
  assumes ok: "machine_ok lk P s rs ws" and n: "\<not> scheduling s" and h: "holding_sleeplock lk (mkern s) = Some (h, k)"
    and t: "pc s (running s) \<in> {Outside, Inside}" "t = (if h then a else b)" "owns a" "\<not> owns b" "b \<noteq> Waits"
  shows "machine_ok lk P (moved s k t) rs ws"
proof -
  let ?p = "running s"
  from ok n have o: "setting P (mkern s)" "queues_ok (mkern s) (lock_queues lk rs ws)" "members P ?p rs ws"
    "\<forall>x \<in> P. saved s x = 0 \<or> saved s x = FL_IF" "waiting_ok (mkern s) (pc s) rs ws" "lock_word_ok lk P (mkern s) (pc s) ws"
    "calm lk (mkern s)" "env_status (envs (mkern s) ?p) = ENV_RUNNING" "?p \<notin> set rs \<union> set ws"
    by (simp_all add: machine_ok_def on_cpu_def)
  from holding_ok [OF o(7,2)] h have k: "h \<longleftrightarrow> sleep_locked (mkern s) lk \<noteq> 0 \<and> sleep_pid (mkern s) lk = env_id (envs (mkern s) ?p)"
    "calm lk k" "queues_ok k (lock_queues lk rs ws)" "same_world k (mkern s)" "lock_view lk k = lock_view lk (mkern s)" by auto
  note w = same_world_D [OF k(4)] note v = lock_view_eqD [OF trans [OF k(5) lock_view_def]]
  have pP: "?p \<in> P" using o(3) by (simp add: members_def)
  have hown: "h \<longleftrightarrow> owns (pc s ?p)"
    unfolding k(1) by (rule lock_word_owner [OF o(6) pP]) (use o(1) in \<open>simp add: setting_def\<close>)
  have ow: "owns (((pc s)(?p := t)) x) = owns (pc s x)" for x
  proof (cases "x = ?p")
    case True
    then show ?thesis using hown t(2-4) by (cases h) simp_all
  qed simp
  have "lock_word_ok lk P k ((pc s)(?p := t)) ws"
    by (rule lock_word_ok_cong [OF o(6) ow v(1,2) w(2)])
  moreover have "waiting_ok k ((pc s)(?p := t)) rs ws" using o(5,9) unfolding waiting_ok_def v by auto
  moreover have "on_cpu lk (moved s k t) rs ws" using k(2) o(8,9) t v(3) w(1) by (auto simp: on_cpu_def moved_def)
  ultimately show ?thesis
    using setting_world [OF k(4) o(1)] k(3) o(3,4) w(1) by (simp add: machine_ok_def moved_def)
qed

text \<open>The kernel's part of the invariant, when a process runs and when the scheduler does.\<close>

definition common_ok :: "ptr \<Rightarrow> ptr set \<Rightarrow> kern \<Rightarrow> (ptr \<Rightarrow> thread) \<Rightarrow> ptr list \<Rightarrow> ptr list \<Rightarrow> bool" where
  "common_ok lk P k t rs ws \<longleftrightarrow> setting P k \<and> queues_ok k (lock_queues lk rs ws) \<and> members P (cpu_proc (kcpu k)) rs ws \<and>
     waiting_ok k t rs ws \<and> lock_word_ok lk P k t ws"

definition run_ok :: "ptr \<Rightarrow> ptr set \<Rightarrow> kern \<Rightarrow> (ptr \<Rightarrow> thread) \<Rightarrow> ptr list \<Rightarrow> ptr list \<Rightarrow> bool" where
  "run_ok lk P k t rs ws \<longleftrightarrow> common_ok lk P k t rs ws \<and> calm lk k \<and>
     env_status (envs k (cpu_proc (kcpu k))) = ENV_RUNNING \<and> cpu_proc (kcpu k) \<notin> set rs \<union> set ws"

definition off_ok :: "ptr \<Rightarrow> ptr set \<Rightarrow> kern \<Rightarrow> (ptr \<Rightarrow> thread) \<Rightarrow> ptr list \<Rightarrow> ptr list \<Rightarrow> bool" where
  "off_ok lk P k t rs ws \<longleftrightarrow> common_ok lk P k t rs ws \<and> asleep lk k \<and>
     (env_status (envs k (cpu_proc (kcpu k))) = ENV_READY \<and> cpu_proc (kcpu k) \<notin> set rs \<union> set ws \<or>
      env_status (envs k (cpu_proc (kcpu k))) = ENV_BLOCKED \<and> cpu_proc (kcpu k) \<in> set ws)"

abbreviation saved_ok :: "ptr set \<Rightarrow> machine \<Rightarrow> bool" where
  "saved_ok P s \<equiv> \<forall>x \<in> P. saved s x = 0 \<or> saved s x = FL_IF"

lemma machine_ok_iff:
  "machine_ok lk P s rs ws \<longleftrightarrow> saved_ok P s \<and>
    (if scheduling s then off_ok lk P (mkern s) (pc s) rs ws
     else run_ok lk P (mkern s) (pc s) rs ws \<and> pc s (running s) \<noteq> Waits)"
  by (auto simp: machine_ok_def on_cpu_def off_ok_def run_ok_def common_ok_def)

lemma grab_free:
  assumes ok: "run_ok lk P k t rs ws" and n: "\<not> owns (t (cpu_proc (kcpu k)))" and g: "acquire_guarded lk k = Some (Returns k')"
  shows "run_ok lk P k' (t(cpu_proc (kcpu k) := Inside)) rs ws \<and> cpu_proc (kcpu k') = cpu_proc (kcpu k)"
proof -
  let ?p = "cpu_proc (kcpu k)"
  from ok have o: "setting P k" "queues_ok k (lock_queues lk rs ws)" "members P ?p rs ws"
    "waiting_ok k t rs ws" "lock_word_ok lk P k t ws" "calm lk k" "env_status (envs k ?p) = ENV_RUNNING" "?p \<notin> set rs \<union> set ws"
    by (simp_all add: run_ok_def common_ok_def)
  have l: "sleep_locked k lk = 0"
  proof (rule ccontr)
    assume "sleep_locked k lk \<noteq> 0"
    from acquire_guarded_busy [OF o(6) this o(2) lock_queues_simps(2) refl] o(8) g show False by auto
  qed
  from acquire_guarded_free [OF o(6) l o(2)] g have k: "calm lk k'" "queues_ok k' (lock_queues lk rs ws)" "same_world k' k"
    "lock_view lk k' = (True, env_id (envs k ?p), \<lambda>x. env_status (envs k x))" by auto
  note w = same_world_D [OF k(3)] note v = lock_view_eqD [OF k(4)]
  have pP: "?p \<in> P" using o(3) by (simp add: members_def)
  have no: "\<not> owns (t q)" if "q \<in> P" for q using lock_word_free [OF o(5) l] that by blast
  have own: "r = ?p" if "r \<in> P" "owns ((t(?p := Inside)) r)" for r using no [OF that(1)] that(2) by (cases "r = ?p") simp_all
  have "\<exists>q \<in> P. owns ((t(?p := Inside)) q) \<and> sleep_pid k' lk = env_id (envs k' q) \<and> (\<forall>r \<in> P. owns ((t(?p := Inside)) r) \<longrightarrow> r = q)"
  proof (rule bexI [OF _ pP], intro conjI ballI impI)
    show "sleep_pid k' lk = env_id (envs k' ?p)" unfolding v(2) w(2) by (rule refl)
  qed (simp, rule own)
  then have "lock_word_ok lk P k' (t(?p := Inside)) ws" unfolding lock_word_ok_def v(1) by (simp only: if_True)
  moreover have "waiting_ok k' (t(?p := Inside)) rs ws" using o(4,8) unfolding waiting_ok_def v(3) by auto
  ultimately show ?thesis
    using setting_world [OF k(3) o(1)] k(1,2) o(3,7,8) w(1) v(3) by (simp add: run_ok_def common_ok_def)
qed

lemma grab_busy:
  assumes ok: "run_ok lk P k t rs ws" and n: "\<not> owns (t (cpu_proc (kcpu k)))" and g: "acquire_guarded lk k = Some (Gives_up fl k')"
  shows "off_ok lk P k' (t(cpu_proc (kcpu k) := Waits)) rs (cpu_proc (kcpu k) # ws) \<and> (fl = 0 \<or> fl = FL_IF)"
proof -
  let ?p = "cpu_proc (kcpu k)"
  from ok have o: "setting P k" "queues_ok k (lock_queues lk rs ws)" "members P ?p rs ws"
    "waiting_ok k t rs ws" "lock_word_ok lk P k t ws" "calm lk k" "?p \<notin> set rs \<union> set ws"
    by (simp_all add: run_ok_def common_ok_def)
  have l: "sleep_locked k lk \<noteq> 0"
  proof
    assume "sleep_locked k lk = 0"
    from acquire_guarded_free [OF o(6) this o(2)] g show False by auto
  qed
  from acquire_guarded_busy [OF o(6) l o(2) lock_queues_simps(2) refl] o(7) g have
    k: "fl = 0 \<or> fl = FL_IF" "asleep lk k'" "queues_ok k' (lock_queues lk rs (?p # ws))" "same_world k' k"
    "lock_view lk k' = (True, sleep_pid k lk, \<lambda>x. if x = ?p then ENV_BLOCKED else env_status (envs k x))" by auto
  note w = same_world_D [OF k(4)] note v = lock_view_eqD [OF k(5)]
  have ow: "owns ((t(?p := Waits)) x) = owns (t x)" for x using n by (cases "x = ?p") simp_all
  have "lock_word_ok lk P k' (t(?p := Waits)) ws"
    using l v(1) by (intro lock_word_ok_cong [OF o(5) ow _ v(2) w(2)]) simp
  then have "lock_word_ok lk P k' (t(?p := Waits)) (?p # ws)" unfolding lock_word_ok_def v(1) by (simp only: if_True)
  moreover have "waiting_ok k' (t(?p := Waits)) rs (?p # ws)" using o(4,7) unfolding waiting_ok_def v(3) by auto
  moreover have "members P ?p rs (?p # ws)" using o(3) by (auto simp: members_def)
  ultimately show ?thesis
    using setting_world [OF k(4) o(1)] k(1-3) w(1) v(3) by (simp add: off_ok_def common_ok_def)
qed

lemma leave_keeps:
  assumes ok: "run_ok lk P k t rs ws" and n: "owns (t (cpu_proc (kcpu k)))" and g: "release_guarded lk k = Some k'"
  shows "run_ok lk P k' (t(cpu_proc (kcpu k) := Outside)) (ws @ rs) [] \<and> cpu_proc (kcpu k') = cpu_proc (kcpu k)"
proof -
  let ?p = "cpu_proc (kcpu k)"
  from ok have o: "setting P k" "queues_ok k (lock_queues lk rs ws)" "members P ?p rs ws"
    "waiting_ok k t rs ws" "lock_word_ok lk P k t ws" "calm lk k" "env_status (envs k ?p) = ENV_RUNNING" "?p \<notin> set rs \<union> set ws"
    by (simp_all add: run_ok_def common_ok_def)
  from release_guarded_ok [OF o(6,2)] g have
    k: "calm lk k'" "queues_ok k' (lock_queues lk (ws @ rs) [])" "same_world k' k"
    "lock_view lk k' = (False, 0, \<lambda>x. if x \<in> set ws then ENV_READY else env_status (envs k x))" by auto
  note w = same_world_D [OF k(3)] note v = lock_view_eqD [OF k(4)]
  have pP: "?p \<in> P" using o(3) by (simp add: members_def)
  have no: "\<not> owns ((t(?p := Outside)) q)" if q: "q \<in> P" for q
  proof (cases "q = ?p")
    case False
    have "sleep_locked k lk \<noteq> 0" using lock_word_free [OF o(5)] n pP by blast
    from lock_word_taken [OF o(5) this] obtain z where "\<forall>r \<in> P. owns (t r) \<longrightarrow> r = z" by blast
    then have "\<not> owns (t q)" using False n pP q by blast
    then show ?thesis using False by simp
  qed simp
  then have "lock_word_ok lk P k' (t(?p := Outside)) []" unfolding lock_word_ok_def v(1) by (simp only: if_False) blast
  moreover have "waiting_ok k' (t(?p := Outside)) (ws @ rs) []" using o(4) unfolding waiting_ok_def v(3) by auto
  moreover have "members P ?p (ws @ rs) []" using o(3) by (auto simp: members_def)
  ultimately show ?thesis
    using setting_world [OF k(3) o(1)] k(1,2) o(7,8) w(1) v(3) by (simp add: run_ok_def common_ok_def)
qed

section \<open>Losing and getting the CPU keep it\<close>

lemma calm_process: "calm lk k \<Longrightarrow> in_process k \<and> cpu_proc (kcpu k) \<noteq> NULL"
  by (simp add: calm_def)

lemma ticked_more [simp]:
  "spinlocks (ticked k) = spinlocks k" "same_world (ticked k) k" "lock_view lk (ticked k) = lock_view lk k"
  "spinlocks (with_qlock_taken k) = spinlocks k" "same_world (with_qlock_taken k) k" "lock_view lk (with_qlock_taken k) = lock_view lk k"
  "spinlocks (set_env_status e s k) = spinlocks k"
  by (simp_all add: ticked_def update_env_def same_world_def has_space_def lock_view_def with_qlock_taken_def pushcli_def cli_def Let_def fun_eq_iff)

lemma tick_keeps:
  assumes ok: "run_ok lk P k t rs ws" and g: "clock_interrupt_handler k = Some (Gives_up fl k')"
  shows "off_ok lk P k' t rs ws \<and> (fl = 0 \<or> fl = FL_IF) \<and> cpu_proc (kcpu k') = cpu_proc (kcpu k)"
proof -
  let ?p = "cpu_proc (kcpu k)"
  from ok have o: "setting P k" "queues_ok k (lock_queues lk rs ws)" "members P ?p rs ws"
    "waiting_ok k t rs ws" "lock_word_ok lk P k t ws" "calm lk k" "?p \<notin> set rs \<union> set ws"
    by (simp_all add: run_ok_def common_ok_def)
  have a: "in_process k" "rr_setup k" "PageRepAlgoType k \<noteq> PG_REP_LRU_TIME_APPROX" "?p \<noteq> NULL" "lk_locked (spinlocks k lk) = 0"
    using o(1,6) by (simp_all add: setting_def calm_def)
  have p: "in_process (ticked k)" "cpu_proc (kcpu (ticked k)) = ?p" using a(1) by (simp_all add: in_process_def)
  note y = yield_gives_up [OF p a(4)]
  have k': "k' = set_env_status ?p ENV_READY (with_qlock_taken (ticked k))" and fl: "fl = intena (pushcli (kcpu (ticked k)))"
    using g clock_interrupt_yields [OF a(1-4)] y(1) by simp_all
  have s: "in_sched k'" using y(2) unfolding k' .
  have w: "same_world k' k" unfolding k'
    by (rule same_world_trans [OF same_world_updates(6) same_world_trans [OF ticked_more(5) ticked_more(2)]])
  note w2 = same_world_D [OF w]
  have st: "env_status (envs k' x) = (if x = ?p then ENV_READY else env_status (envs k x))" for x unfolding k' by simp
  have lv: "(sleep_locked k' lk \<noteq> 0) = (sleep_locked k lk \<noteq> 0)" "sleep_pid k' lk = sleep_pid k lk"
    unfolding k' by (simp_all add: with_qlock_taken_def ticked_def update_env_def)
  have "lock_word_ok lk P k' t ws" by (rule lock_word_ok_cong [OF o(5) refl lv w2(2)])
  moreover have "waiting_ok k' t rs ws" using o(4,7) unfolding waiting_ok_def st by auto
  moreover have "queues_ok k' (lock_queues lk rs ws)" using queues_ok_ticked [OF o(2)] unfolding k' by simp
  moreover have "lk_locked (spinlocks k' lk) = 0" unfolding k' using a(5) by simp
  moreover have "intena (kcpu k') = fl" unfolding k' fl by simp
  then have "fl = 0 \<or> fl = FL_IF" using s by (auto simp: in_sched_def cpu_ok_def)
  ultimately show ?thesis
    using setting_world [OF w o(1)] s o(3,7) w2(1) st a(4) by (simp add: off_ok_def common_ok_def asleep_def)
qed

text \<open>What the scheduler picks from: the process that lost the CPU, unless it sleeps, and the ready ones.\<close>

definition choices :: "kern \<Rightarrow> ptr list \<Rightarrow> ptr list \<Rightarrow> ptr list" where
  "choices k rs ws = (if cpu_proc (kcpu k) \<in> set ws then rs else cpu_proc (kcpu k) # rs)"

definition picked_ok :: "ptr \<Rightarrow> ptr set \<Rightarrow> ptr \<Rightarrow> kern \<Rightarrow> (ptr \<Rightarrow> thread) \<Rightarrow> ptr list \<Rightarrow> ptr list \<Rightarrow> bool" where
  "picked_ok lk P e k t rs ws \<longleftrightarrow> common_ok lk P k t rs ws \<and> asleep lk k \<and> cpu_proc (kcpu k) = e \<and>
     env_status (envs k e) = ENV_RUNNING \<and> e \<notin> set rs \<union> set ws"

lemma pick_keeps:
  assumes st: "setting P k" "queues_ok k (lock_queues lk rs ws)" "in_sched k" "lk_locked (spinlocks k lk) = 0"
    and w: "waiting_ok k t rs ws" "lock_word_ok lk P k t ws" and cur: "cpu_proc (kcpu k) \<notin> set rs \<union> set ws"
    and cs: "candidates (cpu_proc (kcpu k)) rs = cs" "cs \<noteq> []" "P = set cs \<union> set ws" "\<forall>x \<in> set cs. env_status (envs k x) = ENV_READY" "set cs \<inter> set ws = {}"
  shows "\<exists>e k'. scheduler_pick k = Some (e, k') \<and> e = last cs \<and> e \<noteq> NULL \<and> e \<in> P \<and> picked_ok lk P e k' t (butlast cs) ws"
proof -
  have sp: "\<forall>p \<in> set (candidates (cpu_proc (kcpu k)) rs). has_space k p" using st(1) cs by (auto simp: setting_def)
  have rr: "rr_setup k" "cpu_proc (kcpu k) \<notin> queued (lock_queues lk rs ws)" using st(1) cur by (simp_all add: setting_def)
  obtain y ys where y: "cs = y # ys" using cs(2) by (cases cs) auto
  from scheduler_pick_RR [OF st(2) lock_queues_simps(1) st(3) rr sp] obtain e k' where
    k: "scheduler_pick k = Some (e, k')" "in_sched k'" "rr_setup k'" "PageRepAlgoType k' = PageRepAlgoType k" "same_locks k' k"
      "\<And>p. has_space k' p = has_space k p" "\<And>p. p \<noteq> e \<Longrightarrow> env_status (envs k' p) = env_status (envs k p)"
      "\<And>p. env_id (envs k' p) = env_id (envs k p)" "e = last (y # ys)" "e \<noteq> NULL"
      "queues_ok k' ((lock_queues lk rs ws)(Ready 0 \<mapsto> butlast (y # ys)))" "cpu_proc (kcpu k') = e" "env_status (envs k' e) = ENV_RUNNING"
    unfolding cs(1) y returns_iff by auto
  have e: "cs = butlast cs @ [e]" using k(9) cs(2) unfolding y by simp
  have d: "distinct cs"
  proof -
    have "dll env_links (envs k) (head_of k (Ready 0)) rs" using st(2) lock_queues_simps(1) unfolding queues_ok_def by blast
    then show ?thesis using cur unfolding cs(1) [symmetric] candidates_def by (auto simp: dll_def)
  qed
  then have nin: "e \<notin> set (butlast cs)" by (subst (asm) e) simp
  have ecs: "e \<in> set cs" by (subst e) simp
  then have ew: "e \<notin> set ws" "e \<in> P" using cs(3,5) by auto
  have sub: "set cs = insert e (set (butlast cs))" by (subst e) simp
  have "setting P k'" using st(1) k(3,4,6,8) by (simp add: setting_def)
  moreover have "queues_ok k' (lock_queues lk (butlast cs) ws)" using k(11) unfolding y by simp
  moreover have "members P e (butlast cs) ws" using cs(3) sub by (simp add: members_def)
  moreover have "waiting_ok k' t (butlast cs) ws"
    unfolding waiting_ok_def
  proof (intro conjI ballI)
    show "env_status (envs k' x) = ENV_READY" if "x \<in> set (butlast cs)" for x
      using that nin k(7) [of x] cs(4) sub by auto
    show "env_status (envs k' x) = ENV_BLOCKED" "t x = Waits" if "x \<in> set ws" for x
      using that ew(1) k(7) [of x] w(1) by (auto simp: waiting_ok_def)
  qed
  moreover have "lock_word_ok lk P k' t ws"
    using k(5) by (intro lock_word_ok_cong [OF w(2) refl _ _ k(8)]) (simp_all add: same_locks_def)
  ultimately have "common_ok lk P k' t (butlast cs) ws" using k(12) by (simp add: common_ok_def)
  moreover have "asleep lk k'" using k(2,5,10,12) st(4) by (simp add: asleep_def same_locks_def)
  ultimately show ?thesis using k(1,9,10,12,13) nin ew unfolding y by (auto simp: picked_ok_def)
qed

lemma stopped:
  assumes "setting P k" "waiting_ok k t rs ws" "lock_word_ok lk P k t ws"
  shows "setting P (kclock_stop k)" "waiting_ok (kclock_stop k) t rs ws" "lock_word_ok lk P (kclock_stop k) t ws"
  using assms lock_word_ok_cong [OF assms(3) refl, of "kclock_stop k"]
  by (simp_all add: setting_def rr_setup_def has_space_def waiting_ok_def)

lemma dispatch_keeps:
  assumes ok: "off_ok lk P k t rs ws" and c: "choices k rs ws \<noteq> []"
  shows "\<exists>e k'. dispatch k = Some (e, k') \<and> e = last (choices k rs ws) \<and> e \<noteq> NULL \<and> e \<in> P \<and> picked_ok lk P e k' t (butlast (choices k rs ws)) ws"
proof -
  let ?p = "cpu_proc (kcpu k)"
  from ok have o: "setting P k" "queues_ok k (lock_queues lk rs ws)" "members P ?p rs ws"
    "waiting_ok k t rs ws" "lock_word_ok lk P k t ws" "in_sched k" "lk_locked (spinlocks k lk) = 0"
    by (simp_all add: off_ok_def common_ok_def asleep_def)
  have dis: "set rs \<inter> set ws = {}"
  proof -
    have "Ready 0 \<noteq> Chan lk" by simp
    then show ?thesis using o(2) lock_queues_simps(1,2) [of lk rs ws] unfolding queues_ok_def by blast
  qed
  consider (ready) "env_status (envs k ?p) = ENV_READY" "?p \<notin> set rs \<union> set ws"
    | (blocked) "env_status (envs k ?p) = ENV_BLOCKED" "?p \<in> set ws"
    using ok by (auto simp: off_ok_def)
  then show ?thesis
  proof cases
    case ready
    have p: "?p \<noteq> NULL" using o(1,3) by (auto simp: setting_def members_def)
    have ch: "choices k rs ws = ?p # rs" using ready by (simp add: choices_def)
    have d: "dispatch k = scheduler_pick (kclock_stop k)"
      using scheduler_back_ready [OF o(6) ready(1)] by (simp add: dispatch_def)
    note s = stopped [OF o(1,4,5)]
    show ?thesis
      unfolding d ch using ready dis o(2,3,4,6,7) p
      by (intro pick_keeps [OF s(1) _ _ _ s(2,3)])
        (auto simp: candidates_def members_def waiting_ok_def)
  next
    case blocked
    let ?k = "(kclock_stop k)\<lparr>kcpu := (kcpu k)\<lparr>cpu_proc := NULL\<rparr>\<rparr>"
    have ch: "choices k rs ws = rs" using blocked by (simp add: choices_def)
    have "eflags (kcpu k) AND FL_IF = 0" using o(6) by (simp add: in_sched_def cpu_ok_def)
    then have "scheduler_back k = Some ?k"
      using blocked o(6) set_proc_held [of "kclock_stop k" NULL]
      by (simp add: scheduler_back_def cur_proc_held Let_def)
    then have d: "dispatch k = scheduler_pick ?k" by (simp add: dispatch_def)
    have "NULL \<notin> P" using o(1) by (auto simp: setting_def)
    then have n: "NULL \<notin> set rs \<union> set ws" using o(3) by (auto simp: members_def)
    have "in_sched ?k" using o(6) by (simp add: in_sched_def)
    moreover have "setting P ?k" using o(1) by (simp add: setting_def rr_setup_def has_space_def)
    moreover have "waiting_ok ?k t rs ws" using o(4) by (simp add: waiting_ok_def)
    moreover have "lock_word_ok lk P ?k t ws" by (rule lock_word_ok_cong [OF o(5)]) simp_all
    ultimately show ?thesis
      unfolding d ch using o(2,6,7) n dis c [unfolded ch] o(3,4) blocked(2)
      by (intro pick_keeps) (auto simp: candidates_def members_def waiting_ok_def)
  qed
qed

lemma resumed_run_ok:
  assumes "picked_ok lk P e k t rs ws" "fl = 0 \<or> fl = FL_IF"
  shows "run_ok lk P (resumed fl k) t rs ws" "yield_return fl k = Some (resumed fl k)"
    "sleep_woken fl k = Some (resumed fl k)" "cpu_proc (kcpu (resumed fl k)) = e"
proof -
  have a: "asleep lk k" using assms(1) by (simp add: picked_ok_def)
  note r = resumed_ok [OF a assms(2)]
  from assms(1) have c: "setting P k" "queues_ok k (lock_queues lk rs ws)" "members P e rs ws" "waiting_ok k t rs ws" "lock_word_ok lk P k t ws"
    by (auto simp: picked_ok_def common_ok_def)
  have lw: "lock_word_ok lk P (resumed fl k) t ws"
    by (rule lock_word_ok_cong [OF c(5)]) (simp_all add: resumed_def unlocked_def sched_return_def)
  have "waiting_ok (resumed fl k) t rs ws" using c(4) by (simp add: waiting_ok_def)
  then show "run_ok lk P (resumed fl k) t rs ws"
    using assms(1) r(2) setting_world [OF resumed_simps(3) c(1)] c(2,3) lw by (simp add: picked_ok_def run_ok_def common_ok_def)
  show "yield_return fl k = Some (resumed fl k)" "sleep_woken fl k = Some (resumed fl k)"
    by (simp_all add: r(1) sleep_woken_yield)
  show "cpu_proc (kcpu (resumed fl k)) = e" using assms(1) by (simp add: picked_ok_def)
qed

text \<open>A woken process owns nothing yet.\<close>

lemma woken_run_ok:
  assumes "run_ok lk P k t rs ws" "t e = Waits" "e = cpu_proc (kcpu k)"
  shows "run_ok lk P k (t(e := Woken)) rs ws"
proof -
  from assms(1) have o: "waiting_ok k t rs ws" "lock_word_ok lk P k t ws" "e \<notin> set rs \<union> set ws"
    by (simp_all add: run_ok_def common_ok_def assms(3))
  have "owns ((t(e := Woken)) x) = owns (t x)" for x using assms(2) by simp
  then have "lock_word_ok lk P k (t(e := Woken)) ws" by (rule lock_word_ok_cong [OF o(2)]) simp_all
  moreover have "waiting_ok k (t(e := Woken)) rs ws" using o(1,3) by (auto simp: waiting_ok_def)
  ultimately show ?thesis using assms(1) by (simp add: run_ok_def common_ok_def)
qed

section \<open>Every step keeps the invariant\<close>

lemma machine_running:
  assumes "machine_ok lk P s rs ws" "\<not> scheduling s"
  shows "run_ok lk P (mkern s) (pc s) rs ws" "saved_ok P s" "pc s (running s) \<noteq> Waits" "running s \<in> P"
  using assms by (auto simp: machine_ok_iff run_ok_def common_ok_def members_def)

lemma machine_scheduling:
  assumes "machine_ok lk P s rs ws" "scheduling s"
  shows "off_ok lk P (mkern s) (pc s) rs ws" "saved_ok P s"
  using assms by (simp_all add: machine_ok_iff)

text \<open>If somebody sleeps, somebody else owns the lock and is ready: the scheduler finds a process.\<close>

lemma choices_nonempty:
  assumes "off_ok lk P k t rs ws"
  shows "choices k rs ws \<noteq> []"
proof (cases "cpu_proc (kcpu k) \<in> set ws")
  case True
  from assms have o: "members P (cpu_proc (kcpu k)) rs ws" "waiting_ok k t rs ws" "lock_word_ok lk P k t ws"
    by (simp_all add: off_ok_def common_ok_def)
  have "ws \<noteq> []" using True by auto
  then have "sleep_locked k lk \<noteq> 0" using lock_word_free [OF o(3)] by blast
  from lock_word_taken [OF o(3) this] obtain q where q: "q \<in> P" "owns (t q)" by blast
  have "q \<notin> set ws" using o(2) q(2) by (auto simp: waiting_ok_def)
  then have "rs \<noteq> []" using q(1) o(1) True by (auto simp: members_def)
  then show ?thesis by (simp add: choices_def)
qed (simp add: choices_def)

lemma choices_ready: "off_ok lk P k t rs ws \<Longrightarrow> e \<in> set (choices k rs ws) \<Longrightarrow> env_status (envs k e) = ENV_READY"
  by (auto simp: off_ok_def common_ok_def choices_def waiting_ok_def split: if_splits)

lemma machine_dispatch:
  assumes ok: "machine_ok lk P s rs ws" and n: "scheduling s"
  obtains e k rs' where "dispatch (mkern s) = Some (e, k)" "e \<noteq> NULL" "e \<in> P" "run_ok lk P (resumed (saved s e) k) (pc s) rs' ws"
    "yield_return (saved s e) k = Some (resumed (saved s e) k)" "sleep_woken (saved s e) k = Some (resumed (saved s e) k)"
    "cpu_proc (kcpu (resumed (saved s e) k)) = e" "env_status (envs (mkern s) e) = ENV_READY"
proof -
  note o = machine_scheduling [OF ok n]
  from dispatch_keeps [OF o(1) choices_nonempty [OF o(1)]] obtain e k where
    k: "dispatch (mkern s) = Some (e, k)" "e \<noteq> NULL" "e \<in> P"
      "picked_ok lk P e k (pc s) (butlast (choices (mkern s) rs ws)) ws" "e = last (choices (mkern s) rs ws)" by blast
  have "saved s e = 0 \<or> saved s e = FL_IF" using o(2) k(3) by blast
  note r = resumed_run_ok [OF k(4) this]
  have "e \<in> set (choices (mkern s) rs ws)" unfolding k(5) by (rule last_in_set [OF choices_nonempty [OF o(1)]])
  then have "env_status (envs (mkern s) e) = ENV_READY" by (rule choices_ready [OF o(1)])
  with r k(1-3) show ?thesis by (intro that)
qed

lemma lock_step_keeps:
  assumes ok: "machine_ok lk P s rs ws" and st: "lock_step lk s s'"
  shows "\<exists>rs' ws'. machine_ok lk P s' rs' ws'"
  using st
proof cases
  case (Try h k)
  have "machine_ok lk P (moved s k (if h then Inside else Wants)) rs ws"
    by (rule try_keeps [OF ok Try(2,4,3) refl]) simp_all
  then show ?thesis unfolding Try(1) by blast
next
  case (Try_leave h k)
  have "machine_ok lk P (moved s k (if h then Leaves else Outside)) rs ws"
    by (rule try_keeps [OF ok Try_leave(2,4,3) refl]) simp_all
  then show ?thesis unfolding Try_leave(1) by blast
next
  case (Grab k)
  note m = machine_running [OF ok Grab(2)]
  have "\<not> owns (pc s (running s))" using Grab(3) by auto
  from grab_free [OF m(1) this Grab(4)] m(2) have "machine_ok lk P (moved s k Inside) rs ws"
    by (simp add: machine_ok_iff moved_def)
  then show ?thesis unfolding Grab(1) by blast
next
  case (Block fl k)
  note m = machine_running [OF ok Block(2)]
  have "\<not> owns (pc s (running s))" using Block(3) by auto
  from grab_busy [OF m(1) this Block(4)] m(2) have "machine_ok lk P (left s k fl Waits (running s)) rs (running s # ws)"
    by (auto simp: machine_ok_iff left_def)
  then show ?thesis unfolding Block(1) by blast
next
  case (Leave k)
  note m = machine_running [OF ok Leave(2)]
  have "owns (pc s (running s))" using Leave(3) by simp
  from leave_keeps [OF m(1) this Leave(4)] m(2) have "machine_ok lk P (moved s k Outside) (ws @ rs) []"
    by (simp add: machine_ok_iff moved_def)
  then show ?thesis unfolding Leave(1) by blast
next
  case (Tick fl k)
  note m = machine_running [OF ok Tick(2)]
  from tick_keeps [OF m(1) Tick(3)] m(2) have "machine_ok lk P (left s k fl (pc s (running s)) (running s)) rs ws"
    by (auto simp: machine_ok_iff left_def)
  then show ?thesis unfolding Tick(1) by blast
next
  case (Resume e k k')
  from machine_dispatch [OF ok Resume(2)] Resume(3) obtain rs' where
    r: "run_ok lk P (resumed (saved s e) k) (pc s) rs' ws" "yield_return (saved s e) k = Some (resumed (saved s e) k)"
      "cpu_proc (kcpu (resumed (saved s e) k)) = e" by (metis option.inject prod.inject)
  have "k' = resumed (saved s e) k" using r(2) Resume(6) by simp
  then have "machine_ok lk P s' rs' ws"
    using r(1,3) Resume(5) machine_scheduling(2) [OF ok Resume(2)] by (simp add: machine_ok_iff Resume(1))
  then show ?thesis by blast
next
  case (Wake e k k')
  from machine_dispatch [OF ok Wake(2)] Wake(3) obtain rs' where
    r: "run_ok lk P (resumed (saved s e) k) (pc s) rs' ws" "sleep_woken (saved s e) k = Some (resumed (saved s e) k)"
      "cpu_proc (kcpu (resumed (saved s e) k)) = e" by (metis option.inject prod.inject)
  have "k' = resumed (saved s e) k" using r(2) Wake(6) by simp
  moreover from woken_run_ok [OF r(1) Wake(5) r(3) [symmetric]]
  have "run_ok lk P (resumed (saved s e) k) ((pc s)(e := Woken)) rs' ws" .
  ultimately have "machine_ok lk P s' rs' ws"
    using r(3) machine_scheduling(2) [OF ok Wake(2)] by (simp add: machine_ok_iff Wake(1))
  then show ?thesis by blast
qed

lemma lock_steps_keep: "(lock_step lk)\<^sup>*\<^sup>* s s' \<Longrightarrow> machine_ok lk P s rs ws \<Longrightarrow> \<exists>rs' ws'. machine_ok lk P s' rs' ws'"
  by (induction rule: rtranclp_induct) (auto dest: lock_step_keeps)

text \<open>What the running process does next, and the clock, never panic.\<close>

lemma machine_routines:
  assumes ok: "machine_ok lk P s rs ws" and n: "\<not> scheduling s"
  shows "pc s (running s) \<in> {Outside, Inside} \<Longrightarrow> \<exists>k. holding_sleeplock lk (mkern s) = Some (pc s (running s) = Inside, k)"
    and "pc s (running s) \<in> {Wants, Woken} \<Longrightarrow> \<forall>q \<in> P. \<not> owns (pc s q) \<Longrightarrow> \<exists>k. acquire_guarded lk (mkern s) = Some (Returns k)"
    and "pc s (running s) \<in> {Wants, Woken} \<Longrightarrow> q \<in> P \<Longrightarrow> owns (pc s q) \<Longrightarrow>
      \<exists>fl k. acquire_guarded lk (mkern s) = Some (Gives_up fl k)"
    and "\<exists>k. release_guarded lk (mkern s) = Some k"
    and "\<exists>fl k. clock_interrupt_handler (mkern s) = Some (Gives_up fl k)"
proof -
  note m = machine_running [OF ok n]
  have c: "calm lk (mkern s)" "queues_ok (mkern s) (lock_queues lk rs ws)" "running s \<notin> queued (lock_queues lk rs ws)"
    "lock_word_ok lk P (mkern s) (pc s) ws" "setting P (mkern s)"
    using m(1) by (simp_all add: run_ok_def common_ok_def)
  have i: "inj_on (\<lambda>x. env_id (envs (mkern s) x)) P" using c(5) by (simp add: setting_def)
  show "\<exists>k. holding_sleeplock lk (mkern s) = Some (pc s (running s) = Inside, k)" if "pc s (running s) \<in> {Outside, Inside}"
  proof -
    have "owns (pc s (running s)) = (pc s (running s) = Inside)" using that by auto
    then show ?thesis using holding_ok [OF c(1,2)] lock_word_owner [OF c(4) m(4) i] by auto
  qed
  show "\<exists>k. acquire_guarded lk (mkern s) = Some (Returns k)" if "\<forall>q \<in> P. \<not> owns (pc s q)"
  proof -
    have "sleep_locked (mkern s) lk = 0" using lock_word_taken [OF c(4)] that by blast
    from acquire_guarded_free [OF c(1) this c(2)] show ?thesis by blast
  qed
  show "\<exists>fl k. acquire_guarded lk (mkern s) = Some (Gives_up fl k)" if "q \<in> P" "owns (pc s q)"
  proof -
    have "sleep_locked (mkern s) lk \<noteq> 0" using lock_word_free [OF c(4)] that by blast
    from acquire_guarded_busy [OF c(1) this c(2) lock_queues_simps(2) refl c(3)] show ?thesis by blast
  qed
  show "\<exists>k. release_guarded lk (mkern s) = Some k"
    using release_guarded_ok [OF c(1,2) lock_queues_simps(2,1)] by blast
  show "\<exists>fl k. clock_interrupt_handler (mkern s) = Some (Gives_up fl k)"
  proof -
    have a: "in_process (mkern s)" "rr_setup (mkern s)" "PageRepAlgoType (mkern s) \<noteq> PG_REP_LRU_TIME_APPROX" "running s \<noteq> NULL"
      using c(1,5) by (simp_all add: setting_def calm_def)
    have p: "in_process (ticked (mkern s))" "cpu_proc (kcpu (ticked (mkern s))) = running s" using a(1) by (simp_all add: in_process_def)
    from clock_interrupt_yields [OF a] yield_gives_up(1) [OF p a(4)] show ?thesis by auto
  qed
qed

section \<open>The properties\<close>

text \<open>A start: the lock is free, nobody sleeps, one process runs and the others are ready.\<close>

definition lock_start :: "ptr \<Rightarrow> ptr set \<Rightarrow> machine \<Rightarrow> bool" where
  "lock_start lk P s \<longleftrightarrow> \<not> scheduling s \<and> calm lk (mkern s) \<and> setting P (mkern s) \<and> sleep_locked (mkern s) lk = 0 \<and>
     (\<exists>rs. queues_ok (mkern s) (lock_queues lk rs []) \<and> P = insert (running s) (set rs) \<and> running s \<notin> set rs \<and>
        (\<forall>p \<in> set rs. env_status (envs (mkern s) p) = ENV_READY)) \<and> env_status (envs (mkern s) (running s)) = ENV_RUNNING \<and>
     (\<forall>p \<in> P. pc s p = Outside \<and> (saved s p = 0 \<or> saved s p = FL_IF))"

lemma lock_start_ok:
  assumes "lock_start lk P s"
  shows "\<exists>rs. machine_ok lk P s rs []"
proof -
  from assms obtain rs where s: "\<not> scheduling s" "calm lk (mkern s)" "setting P (mkern s)" "sleep_locked (mkern s) lk = 0"
    "queues_ok (mkern s) (lock_queues lk rs [])" "P = insert (running s) (set rs)" "running s \<notin> set rs"
    "\<forall>p \<in> set rs. env_status (envs (mkern s) p) = ENV_READY" "env_status (envs (mkern s) (running s)) = ENV_RUNNING"
    "\<forall>p \<in> P. pc s p = Outside \<and> (saved s p = 0 \<or> saved s p = FL_IF)"
    unfolding lock_start_def by blast
  have o: "\<not> owns (pc s q)" if "q \<in> P" for q using s(10) that by simp
  then have "lock_word_ok lk P (mkern s) (pc s) []" unfolding lock_word_ok_def s(4) by simp
  then have "machine_ok lk P s rs []"
    using s by (simp add: machine_ok_iff run_ok_def common_ok_def members_def waiting_ok_def)
  then show ?thesis by blast
qed

lemma lock_reachable_ok: "lock_start lk P s \<Longrightarrow> (lock_step lk)\<^sup>*\<^sup>* s s' \<Longrightarrow> \<exists>rs ws. machine_ok lk P s' rs ws"
  using lock_start_ok lock_steps_keep by blast

lemma machine_lock_word: "machine_ok lk P s rs ws \<Longrightarrow> lock_word_ok lk P (mkern s) (pc s) ws"
  by (simp add: machine_ok_def)

text \<open>C13: Mutual exclusion: in every state the processes can reach through the sleep lock, under any
  interleaving of clock interrupts, at most one of them is between acquiring and releasing it.\<close>

theorem sleeplock_mutual_exclusion:
  assumes "lock_start lk P s" "(lock_step lk)\<^sup>*\<^sup>* s s'" "p \<in> P" "q \<in> P" "pc s' p \<in> {Inside, Leaves}" "pc s' q \<in> {Inside, Leaves}"
  shows "p = q"
proof -
  from lock_reachable_ok [OF assms(1,2)] obtain ws where w: "lock_word_ok lk P (mkern s') (pc s') ws"
    using machine_lock_word by blast
  have o: "owns (pc s' p)" "owns (pc s' q)" using assms(5,6) by auto
  then have "sleep_locked (mkern s') lk \<noteq> 0" using lock_word_free [OF w] assms(3) by blast
  from lock_word_taken [OF w this] o assms(3,4) show ?thesis by blast
qed

text \<open>C14: No lost wake-up: in every reachable state, a process that sleeps on the channel of the lock is
  waited for by an owner that is not asleep, and that will wake it when it releases.\<close>

theorem sleeplock_no_lost_wakeup:
  assumes "lock_start lk P s" "(lock_step lk)\<^sup>*\<^sup>* s s'" "p \<in> P" "env_status (envs (mkern s') p) = ENV_BLOCKED"
  shows "\<exists>q \<in> P. q \<noteq> p \<and> pc s' q \<in> {Inside, Leaves} \<and> env_status (envs (mkern s') q) \<in> {ENV_READY, ENV_RUNNING} \<and>
    sleep_pid (mkern s') lk = env_id (envs (mkern s') q)"
proof -
  from lock_reachable_ok [OF assms(1,2)] obtain rs ws where m: "machine_ok lk P s' rs ws" by blast
  then have mm: "members P (running s') rs ws" "waiting_ok (mkern s') (pc s') rs ws" "lock_word_ok lk P (mkern s') (pc s') ws"
    "on_cpu lk s' rs ws" by (simp_all add: machine_ok_def)
  have pw: "p \<in> set ws"
    using mm(1,2,4) assms(3,4) by (auto simp: members_def waiting_ok_def on_cpu_def split: if_splits)
  then have "sleep_locked (mkern s') lk \<noteq> 0" using lock_word_free [OF mm(3)] by auto
  from lock_word_taken [OF mm(3) this] obtain q where
    q: "q \<in> P" "owns (pc s' q)" "sleep_pid (mkern s') lk = env_id (envs (mkern s') q)" by blast
  have t: "pc s' q \<in> {Inside, Leaves}" using q(2) by (cases "pc s' q") simp_all
  have nw: "q \<notin> set ws" using mm(2) t by (auto simp: waiting_ok_def)
  then have "env_status (envs (mkern s') q) \<in> {ENV_READY, ENV_RUNNING}"
    using mm(1,2,4) q(1) by (auto simp: members_def waiting_ok_def on_cpu_def split: if_splits)
  moreover have "q \<noteq> p" using nw pw by auto
  ultimately show ?thesis using q(1,3) t by blast
qed

lemma owns_iff: "owns t \<longleftrightarrow> t \<in> {Inside, Leaves}"
  by (cases t) simp_all

lemma acquire_settles:
  assumes ok: "machine_ok lk P s rs ws" and n: "\<not> scheduling s" and w: "pc s (running s) \<in> {Wants, Woken}"
  shows "if \<exists>q. q \<in> P \<and> pc s q \<in> {Inside, Leaves} then \<exists>fl k. acquire_guarded lk (mkern s) = Some (Gives_up fl k)
    else \<exists>k. acquire_guarded lk (mkern s) = Some (Returns k)"
proof (cases "\<exists>q. q \<in> P \<and> pc s q \<in> {Inside, Leaves}")
  case True
  then obtain q where "q \<in> P" "owns (pc s q)" unfolding owns_iff by blast
  from machine_routines(3) [OF ok n w this] show ?thesis unfolding if_P [OF True] .
next
  case False
  then have "\<forall>q \<in> P. \<not> owns (pc s q)" unfolding owns_iff by blast
  from machine_routines(2) [OF ok n w this] show ?thesis unfolding if_not_P [OF False] .
qed

text \<open>C15: No routine of the lock panics and the machine never stops, in any reachable state: the test
  \<^verbatim>\<open>holding_sleeplock\<close> returns, with the right answer; a process that wants the lock, or was woken up for
  it, gets it if nobody owns it and goes to sleep if somebody does; releasing finishes; a clock interrupt
  gives up the CPU; and the scheduler finds a ready process of the set and gives it the CPU back.\<close>

theorem sleeplock_progress:
  assumes "lock_start lk P s" "(lock_step lk)\<^sup>*\<^sup>* s s'"
  shows "if scheduling s'
    then \<exists>e k k'. dispatch (mkern s') = Some (e, k) \<and> e \<in> P \<and> e \<noteq> NULL \<and> env_status (envs (mkern s') e) = ENV_READY \<and>
      (if pc s' e = Waits then sleep_woken (saved s' e) k else yield_return (saved s' e) k) = Some k' \<and> cpu_proc (kcpu k') = e
    else (\<exists>fl k. clock_interrupt_handler (mkern s') = Some (Gives_up fl k)) \<and>
      (case pc s' (running s') of
         Outside \<Rightarrow> \<exists>k. holding_sleeplock lk (mkern s') = Some (False, k)
       | Inside \<Rightarrow> \<exists>k. holding_sleeplock lk (mkern s') = Some (True, k)
       | Leaves \<Rightarrow> \<exists>k. release_guarded lk (mkern s') = Some k
       | Waits \<Rightarrow> False
       | _ \<Rightarrow> if \<exists>q. q \<in> P \<and> pc s' q \<in> {Inside, Leaves} then \<exists>fl k. acquire_guarded lk (mkern s') = Some (Gives_up fl k)
           else \<exists>k. acquire_guarded lk (mkern s') = Some (Returns k))"
proof -
  from lock_reachable_ok [OF assms] obtain rs ws where ok: "machine_ok lk P s' rs ws" by blast
  show ?thesis
  proof (cases "scheduling s'")
    case True
    from machine_dispatch [OF ok True] obtain e k where
      k: "dispatch (mkern s') = Some (e, k)" "e \<noteq> NULL" "e \<in> P" "yield_return (saved s' e) k = Some (resumed (saved s' e) k)"
        "sleep_woken (saved s' e) k = Some (resumed (saved s' e) k)" "cpu_proc (kcpu (resumed (saved s' e) k)) = e"
        "env_status (envs (mkern s') e) = ENV_READY" by blast
    show ?thesis
      unfolding if_P [OF True] by (rule exI [of _ e], rule exI [of _ k], rule exI [of _ "resumed (saved s' e) k"]) (use k(6) in \<open>simp add: k(1-5,7)\<close>)
  next
    case False
    note r = machine_routines [OF ok False]
    note g = acquire_settles [OF ok False]
    have h: "\<exists>k. holding_sleeplock lk (mkern s') = Some (pc s' (running s') = Inside, k)"
      if "pc s' (running s') \<in> {Outside, Inside}" using that by (rule r(1))
    show ?thesis
      unfolding if_not_P [OF False]
    proof (rule conjI [OF r(5)])
      show "case pc s' (running s') of Outside \<Rightarrow> \<exists>k. holding_sleeplock lk (mkern s') = Some (False, k)
         | Inside \<Rightarrow> \<exists>k. holding_sleeplock lk (mkern s') = Some (True, k)
         | Leaves \<Rightarrow> \<exists>k. release_guarded lk (mkern s') = Some k | Waits \<Rightarrow> False
         | _ \<Rightarrow> if \<exists>q. q \<in> P \<and> pc s' q \<in> {Inside, Leaves} then \<exists>fl k. acquire_guarded lk (mkern s') = Some (Gives_up fl k)
             else \<exists>k. acquire_guarded lk (mkern s') = Some (Returns k)"
      proof (cases "pc s' (running s')")
        case Waits
        then show ?thesis using machine_running(3) [OF ok False] by blast
      next
        case Wants
        show ?thesis unfolding Wants thread.case by (rule g) (simp add: Wants)
      next
        case Woken
        show ?thesis unfolding Woken thread.case by (rule g) (simp add: Woken)
      next
        case Outside
        then show ?thesis using h by simp
      next
        case Inside
        then show ?thesis using h by simp
      next
        case Leaves
        then show ?thesis using r(4) by simp
      qed
    qed
  qed
qed

section \<open>Three threads\<close>

definition boot_threads :: machine where
  "boot_threads = \<lparr>mkern = boot_sched\<lparr>envs := (\<lambda>_. blank_env)(0xEEC00000 := (boot_proc ENV_RUNNING NULL NULL)\<lparr>env_id := 1\<rparr>,
       0xEEC00400 := (boot_proc ENV_READY 0xEEC00800 NULL)\<lparr>env_id := 2\<rparr>, 0xEEC00800 := (boot_proc ENV_READY NULL 0xEEC00400)\<lparr>env_id := 3\<rparr>),
       channels := (\<lambda>_. blank_head), spinlocks := (\<lambda>_. init_spinlock ''guard''), sleep_locked := (\<lambda>_. 0)\<rparr>,
     pc = (\<lambda>_. Outside), saved = (\<lambda>_. FL_IF), scheduling = False\<rparr>"

abbreviation boot_lock :: ptr where
  "boot_lock \<equiv> 0xF0600000"

text \<open>
  A run with contention: the first thread takes the lock and is preempted, the second finds it
  taken and goes to sleep.
\<close>

lemma can_try:
  assumes ok: "machine_ok lk P s rs ws" "\<not> scheduling s" "pc s (running s) = Outside"
  shows "\<exists>s'. lock_step lk s s' \<and> machine_ok lk P s' rs ws \<and> \<not> scheduling s' \<and> pc s' = (pc s)(running s := Wants) \<and> running s' = running s"
proof -
  note m = machine_running [OF ok(1,2)]
  have c: "calm lk (mkern s)" "queues_ok (mkern s) (lock_queues lk rs ws)" "lock_word_ok lk P (mkern s) (pc s) ws"
    "inj_on (\<lambda>x. env_id (envs (mkern s) x)) P"
    using m(1) by (simp_all add: run_ok_def common_ok_def setting_def)
  from holding_ok [OF c(1,2)] lock_word_owner [OF c(3) m(4) c(4)] ok(3) obtain k' where
    k: "holding_sleeplock lk (mkern s) = Some (False, k')" "same_world k' (mkern s)" by auto
  have t: "pc s (running s) \<in> {Outside, Inside}" using ok(3) by simp
  have "lock_step lk s (moved s k' Wants)" using Try [OF ok(2) t k(1)] by simp
  moreover have "machine_ok lk P (moved s k' Wants) rs ws"
    by (rule try_keeps [OF ok(1,2) k(1) t, of Wants Inside Wants]) simp_all
  ultimately show ?thesis using same_world_D(1) [OF k(2)] by (auto simp: moved_def)
qed

lemma can_grab:
  assumes ok: "machine_ok lk P s rs ws" "\<not> scheduling s" "pc s (running s) = Wants" "\<And>q. q \<in> P \<Longrightarrow> \<not> owns (pc s q)"
  shows "\<exists>s'. lock_step lk s s' \<and> machine_ok lk P s' rs ws \<and> \<not> scheduling s' \<and> pc s' = (pc s)(running s := Inside) \<and> running s' = running s"
proof -
  note m = machine_running [OF ok(1,2)]
  have c: "calm lk (mkern s)" "queues_ok (mkern s) (lock_queues lk rs ws)" "lock_word_ok lk P (mkern s) (pc s) ws"
    using m(1) by (simp_all add: run_ok_def common_ok_def)
  have "sleep_locked (mkern s) lk = 0" using lock_word_taken [OF c(3)] ok(4) by blast
  from acquire_guarded_free [OF c(1) this c(2)] obtain k' where
    k: "acquire_guarded lk (mkern s) = Some (Returns k')" "same_world k' (mkern s)" by blast
  have "\<not> owns (pc s (running s))" using ok(3) by simp
  from grab_free [OF m(1) this k(1)] m(2) have "machine_ok lk P (moved s k' Inside) rs ws"
    by (simp add: machine_ok_iff moved_def)
  moreover have "lock_step lk s (moved s k' Inside)" by (rule Grab [OF ok(2) _ k(1)]) (simp add: ok(3))
  ultimately show ?thesis using same_world_D(1) [OF k(2)] by (auto simp: moved_def)
qed

lemma can_block:
  assumes ok: "machine_ok lk P s rs ws" "\<not> scheduling s" "pc s (running s) = Wants" "q \<in> P" "owns (pc s q)"
  shows "\<exists>s'. lock_step lk s s' \<and> machine_ok lk P s' rs (running s # ws) \<and> pc s' = (pc s)(running s := Waits)"
proof -
  note m = machine_running [OF ok(1,2)]
  have c: "calm lk (mkern s)" "queues_ok (mkern s) (lock_queues lk rs ws)" "lock_word_ok lk P (mkern s) (pc s) ws"
    "running s \<notin> queued (lock_queues lk rs ws)"
    using m(1) by (simp_all add: run_ok_def common_ok_def)
  have "sleep_locked (mkern s) lk \<noteq> 0" using lock_word_free [OF c(3)] ok(4,5) by blast
  from acquire_guarded_busy [OF c(1) this c(2) lock_queues_simps(2) refl c(4)] obtain fl k' where
    k: "acquire_guarded lk (mkern s) = Some (Gives_up fl k')" by blast
  have "\<not> owns (pc s (running s))" using ok(3) by simp
  from grab_busy [OF m(1) this k] m(2) have "machine_ok lk P (left s k' fl Waits (running s)) rs (running s # ws)"
    by (auto simp: machine_ok_iff left_def)
  moreover have "lock_step lk s (left s k' fl Waits (running s))" by (rule Block [OF ok(2) _ k]) (simp add: ok(3))
  ultimately show ?thesis by (auto simp: left_def)
qed

lemma can_switch:
  assumes ok: "machine_ok lk P s (rs @ [e]) ws" "\<not> scheduling s" "pc s e \<noteq> Waits"
  shows "\<exists>s'. (lock_step lk)\<^sup>*\<^sup>* s s' \<and> machine_ok lk P s' (running s # rs) ws \<and> \<not> scheduling s' \<and> pc s' = pc s \<and> running s' = e"
proof -
  note m = machine_running [OF ok(1,2)]
  have c: "calm lk (mkern s)" "setting P (mkern s)" "running s \<notin> set ws" using m(1) by (simp_all add: run_ok_def common_ok_def)
  have a: "in_process (mkern s)" "rr_setup (mkern s)" "PageRepAlgoType (mkern s) \<noteq> PG_REP_LRU_TIME_APPROX" "running s \<noteq> NULL"
    using c(1,2) by (simp_all add: setting_def calm_def)
  have p: "in_process (ticked (mkern s))" "cpu_proc (kcpu (ticked (mkern s))) = running s" using a(1) by (simp_all add: in_process_def)
  from clock_interrupt_yields [OF a] yield_gives_up(1) [OF p a(4)] obtain fl k1 where
    k1: "clock_interrupt_handler (mkern s) = Some (Gives_up fl k1)" by auto
  let ?s1 = "left s k1 fl (pc s (running s)) (running s)"
  have pc1: "pc ?s1 = pc s" "scheduling ?s1" "mkern ?s1 = k1" by (simp_all add: left_def)
  note t = tick_keeps [OF m(1) k1]
  have ok1: "machine_ok lk P ?s1 (rs @ [e]) ws" using t m(2) by (auto simp: machine_ok_iff left_def)
  have st1: "lock_step lk s ?s1" by (rule Tick [OF ok(2) k1])
  note o = machine_scheduling [OF ok1 pc1(2)]
  have ch: "choices k1 (rs @ [e]) ws = (running s # rs) @ [e]" using t c(3) by (simp add: choices_def)
  from dispatch_keeps [OF o(1)] ch obtain k2 where
    k2: "dispatch k1 = Some (e, k2)" "e \<noteq> NULL" "e \<in> P" "picked_ok lk P e k2 (pc s) (running s # rs) ws"
    unfolding pc1 by auto
  have "saved ?s1 e = 0 \<or> saved ?s1 e = FL_IF" using o(2) k2(3) by blast
  note r = resumed_run_ok [OF k2(4) this]
  let ?s2 = "?s1\<lparr>mkern := resumed (saved ?s1 e) k2, scheduling := False\<rparr>"
  have "lock_step lk ?s1 ?s2" by (rule Resume [OF pc1(2) _ k2(2) _ r(2)]) (use k2(1) ok(3) pc1 in simp_all)
  then have "(lock_step lk)\<^sup>*\<^sup>* s ?s2" using st1 by (meson converse_rtranclp_into_rtranclp r_into_rtranclp)
  moreover have "machine_ok lk P ?s2 (running s # rs) ws" using r(1,4) o(2) ok(3) pc1(1) by (simp add: machine_ok_iff)
  ultimately show ?thesis using r(4) pc1(1) by (intro exI [of _ ?s2]) simp
qed

abbreviation boot_set :: "ptr set" where
  "boot_set \<equiv> {0xEEC00000, 0xEEC00400, 0xEEC00800}"

lemma boot_threads_ok: "machine_ok boot_lock boot_set boot_threads [0xEEC00400, 0xEEC00800] []"
proof -
  let ?k = "mkern boot_threads"
  have "queues_ok ?k (lock_queues boot_lock [0xEEC00400, 0xEEC00800] [])"
    by (simp add: queues_ok_def lock_queues_def dll_def boot_threads_def boot_sched_def boot_proc_def blank_env_def blank_head_def last_or_def)
  moreover have "calm boot_lock ?k"
    by (simp add: calm_def in_process_def boot_threads_def boot_sched_def boot_kern_def boot_cpu_def init_spinlock_def cpu_ok_def)
  moreover have "setting boot_set ?k"
    by (simp add: setting_def rr_setup_def has_space_def boot_threads_def boot_sched_def boot_kern_def boot_proc_def blank_env_def)
  moreover have "running boot_threads = 0xEEC00000" "sleep_locked ?k boot_lock = 0" "\<not> scheduling boot_threads"
    "\<forall>p. pc boot_threads p = Outside \<and> saved boot_threads p = FL_IF" "env_status (envs ?k 0xEEC00000) = ENV_RUNNING"
    "\<forall>p \<in> set [0xEEC00400, 0xEEC00800]. env_status (envs ?k p) = ENV_READY"
    by (simp_all add: boot_threads_def boot_sched_def boot_proc_def)
  ultimately show ?thesis
    by (simp add: machine_ok_iff run_ok_def common_ok_def members_def waiting_ok_def lock_word_ok_def)
qed

lemma boot_threads_start: "lock_start boot_lock boot_set boot_threads"
proof -
  have "running boot_threads = 0xEEC00000" "sleep_locked (mkern boot_threads) boot_lock = 0" "\<not> scheduling boot_threads"
    "\<forall>p. pc boot_threads p = Outside \<and> saved boot_threads p = FL_IF"
    by (simp_all add: boot_threads_def boot_sched_def boot_kern_def)
  moreover from machine_running(1) [OF boot_threads_ok this(3)]
  have "setting boot_set (mkern boot_threads)" "queues_ok (mkern boot_threads) (lock_queues boot_lock [0xEEC00400, 0xEEC00800] [])"
    "calm boot_lock (mkern boot_threads)" "env_status (envs (mkern boot_threads) (running boot_threads)) = ENV_RUNNING"
    "\<forall>p \<in> set [0xEEC00400, 0xEEC00800]. env_status (envs (mkern boot_threads) p) = ENV_READY"
    by (simp_all add: run_ok_def common_ok_def waiting_ok_def)
  ultimately show ?thesis unfolding lock_start_def by (intro conjI exI [of _ "[0xEEC00400, 0xEEC00800]"]) auto
qed

lemma boot_contention:
  "\<exists>s'. (lock_step boot_lock)\<^sup>*\<^sup>* boot_threads s' \<and> pc s' 0xEEC00000 = Inside \<and> env_status (envs (mkern s') 0xEEC00800) = ENV_BLOCKED"
proof -
  have b: "running boot_threads = 0xEEC00000" "\<not> scheduling boot_threads" "pc boot_threads = (\<lambda>_. Outside)"
    by (simp_all add: boot_threads_def boot_sched_def)
  from can_try [OF boot_threads_ok b(2)] b obtain s1 where
    s1: "lock_step boot_lock boot_threads s1" "machine_ok boot_lock boot_set s1 [0xEEC00400, 0xEEC00800] []" "\<not> scheduling s1"
      "pc s1 = (\<lambda>_. Outside)(0xEEC00000 := Wants)" "running s1 = 0xEEC00000" by auto
  have "\<not> owns (pc s1 q)" for q using s1(4) by simp
  from can_grab [OF s1(2,3) _ this] s1(4,5) obtain s2 where
    s2: "lock_step boot_lock s1 s2" "machine_ok boot_lock boot_set s2 ([0xEEC00400] @ [0xEEC00800]) []" "\<not> scheduling s2"
      "pc s2 = (\<lambda>_. Outside)(0xEEC00000 := Inside)" "running s2 = 0xEEC00000" by auto
  from can_switch [OF s2(2,3)] s2(4,5) obtain s3 where
    s3: "(lock_step boot_lock)\<^sup>*\<^sup>* s2 s3" "machine_ok boot_lock boot_set s3 [0xEEC00000, 0xEEC00400] []" "\<not> scheduling s3"
      "pc s3 = (\<lambda>_. Outside)(0xEEC00000 := Inside)" "running s3 = 0xEEC00800" by auto
  from can_try [OF s3(2,3)] s3(4,5) obtain s4 where
    s4: "lock_step boot_lock s3 s4" "machine_ok boot_lock boot_set s4 [0xEEC00000, 0xEEC00400] []" "\<not> scheduling s4"
      "pc s4 = (\<lambda>_. Outside)(0xEEC00000 := Inside, 0xEEC00800 := Wants)" "running s4 = 0xEEC00800" by auto
  from can_block [OF s4(2,3), of "0xEEC00000"] s4(4,5) obtain s5 where
    s5: "lock_step boot_lock s4 s5" "machine_ok boot_lock boot_set s5 [0xEEC00000, 0xEEC00400] [0xEEC00800]"
      "pc s5 = (\<lambda>_. Outside)(0xEEC00000 := Inside, 0xEEC00800 := Waits)" by auto
  have "(lock_step boot_lock)\<^sup>*\<^sup>* boot_threads s5"
    using s1(1) s2(1) s3(1) s4(1) s5(1) by (meson converse_rtranclp_into_rtranclp rtranclp.rtrancl_into_rtrancl rtranclp_trans)
  moreover have "env_status (envs (mkern s5) 0xEEC00800) = ENV_BLOCKED"
    using s5(2) by (auto simp: machine_ok_def waiting_ok_def)
  ultimately show ?thesis using s5(3) by auto
qed

theorem sleeplock_mutual_exclusion_witness:
  "\<exists>s'. (lock_step boot_lock)\<^sup>*\<^sup>* boot_threads s' \<and> {q \<in> boot_set. pc s' q \<in> {Inside, Leaves}} = {0xEEC00000}"
proof -
  from boot_contention obtain s' where s: "(lock_step boot_lock)\<^sup>*\<^sup>* boot_threads s'" "pc s' 0xEEC00000 = Inside" by blast
  have "q = 0xEEC00000" if "q \<in> boot_set" "pc s' q \<in> {Inside, Leaves}" for q
    by (rule sleeplock_mutual_exclusion [OF boot_threads_start s(1) that(1) _ that(2)]) (simp_all add: s(2))
  then have "{q \<in> boot_set. pc s' q \<in> {Inside, Leaves}} = {0xEEC00000}" using s(2) by blast
  then show ?thesis using s(1) by blast
qed

theorem sleeplock_no_lost_wakeup_witness:
  "\<exists>s'. (lock_step boot_lock)\<^sup>*\<^sup>* boot_threads s' \<and> (\<exists>q \<in> boot_set. q \<noteq> 0xEEC00800 \<and> pc s' q \<in> {Inside, Leaves} \<and>
    env_status (envs (mkern s') q) \<in> {ENV_READY, ENV_RUNNING} \<and> sleep_pid (mkern s') boot_lock = env_id (envs (mkern s') q))"
proof -
  from boot_contention obtain s' where
    s: "(lock_step boot_lock)\<^sup>*\<^sup>* boot_threads s'" "env_status (envs (mkern s') 0xEEC00800) = ENV_BLOCKED" by blast
  from sleeplock_no_lost_wakeup [OF boot_threads_start s(1) _ s(2)] s(1) show ?thesis by blast
qed

theorem sleeplock_progress_witness:
  "\<exists>s1 k1. lock_step boot_lock boot_threads s1 \<and> pc s1 0xEEC00000 = Wants \<and> acquire_guarded boot_lock (mkern s1) = Some (Returns k1)"
proof -
  have b: "running boot_threads = 0xEEC00000" "\<not> scheduling boot_threads" "pc boot_threads = (\<lambda>_. Outside)"
    by (simp_all add: boot_threads_def boot_sched_def)
  from can_try [OF boot_threads_ok b(2)] b obtain s1 where
    s1: "lock_step boot_lock boot_threads s1" "\<not> scheduling s1" "pc s1 = (\<lambda>_. Outside)(0xEEC00000 := Wants)" "running s1 = 0xEEC00000" by auto
  have "pc s1 q \<notin> {Inside, Leaves}" for q unfolding s1(3) by simp
  with sleeplock_progress [OF boot_threads_start r_into_rtranclp [where r = "lock_step boot_lock", OF s1(1)]] s1(2-4)
  show ?thesis using s1(1) by auto
qed

end
