(* ===== verification/FOS_FixedPoint.thy ===== *)
theory FOS_FixedPoint
  imports FOS_Prelude "HOL-Library.Signed_Division"
begin

text \<open>
  The fixed-point numbers of \<^verbatim>\<open>inc/fixed_point.h\<close>, meant for the load averages of the BSD
  scheduler. A number is the C \<^verbatim>\<open>int\<close> inside the struct; sums and products leave the 32-bit range by
  wrapping, \<^verbatim>\<open>long long\<close> products do not overflow before the division, and a failed
  assertion is \<open>None\<close>.
\<close>

section \<open>The operations\<close>

abbreviation "FIX_P \<equiv> 17 :: nat"
abbreviation "FIX_Q \<equiv> 14 :: nat"
abbreviation "FIX_F \<equiv> 16384 :: int"
abbreviation "FIX_MAX_INT \<equiv> 131071 :: int"
abbreviation "FIX_MIN_INT \<equiv> - 131071 :: int"

definition mk_fix :: "int \<Rightarrow> int" where
  "mk_fix f = sint (word_of_int f :: u32)"

definition fix_int :: "int \<Rightarrow> int option" where
  "fix_int n = (if FIX_MIN_INT \<le> n \<and> n \<le> FIX_MAX_INT then Some (mk_fix (n * FIX_F)) else None)"

definition fix_frac :: "int \<Rightarrow> int \<Rightarrow> int option" where
  "fix_frac n d =
    (if d \<noteq> 0 \<and> FIX_MIN_INT \<le> n sdiv d \<and> n sdiv d \<le> FIX_MAX_INT then Some (mk_fix (n * FIX_F sdiv d)) else None)"

definition fix_round :: "int \<Rightarrow> int" where
  "fix_round x = (if 0 \<le> x then mk_fix (x + FIX_F sdiv 2) sdiv FIX_F else mk_fix (x - FIX_F sdiv 2) sdiv FIX_F)"

definition fix_trunc :: "int \<Rightarrow> int" where
  "fix_trunc x = x sdiv FIX_F"

definition fix_add :: "int \<Rightarrow> int \<Rightarrow> int" where
  "fix_add x y = mk_fix (x + y)"

definition fix_sub :: "int \<Rightarrow> int \<Rightarrow> int" where
  "fix_sub x y = mk_fix (x - y)"

definition fix_mul :: "int \<Rightarrow> int \<Rightarrow> int" where
  "fix_mul x y = mk_fix (x * y sdiv FIX_F)"

definition fix_scale :: "int \<Rightarrow> int \<Rightarrow> int option" where
  "fix_scale x n = (if 0 \<le> n then Some (mk_fix (x * n)) else None)"

text \<open>Division by zero traps.\<close>

definition fix_div :: "int \<Rightarrow> int \<Rightarrow> int option" where
  "fix_div x y = (if y = 0 then None else Some (mk_fix (x * FIX_F sdiv y)))"

definition fix_unscale :: "int \<Rightarrow> int \<Rightarrow> int option" where
  "fix_unscale x n = (if 0 < n then Some (mk_fix (x sdiv n)) else None)"

definition fix_inv :: "int \<Rightarrow> int option" where
  "fix_inv x = do { one \<leftarrow> fix_int 1; fix_div one x }"

definition fix_compare :: "int \<Rightarrow> int \<Rightarrow> int" where
  "fix_compare x y = (if x < y then - 1 else if y < x then 1 else 0)"

section \<open>Range and rounding\<close>

definition in_int :: "int \<Rightarrow> bool" where
  "in_int x \<longleftrightarrow> - (2 ^ 31) \<le> x \<and> x < 2 ^ 31"

lemma mk_fix_id: "in_int x \<Longrightarrow> mk_fix x = x"
  by (simp add: mk_fix_def in_int_def int_word_sint)

lemma in_int_mk_fix: "in_int (mk_fix x)"
  by (simp add: mk_fix_def in_int_def int_word_sint pos_mod_bound [THEN less_imp_le] del: sint_sbintrunc)

lemma sdiv_bound: "0 < d \<Longrightarrow> \<bar>(x sdiv d) * d - x\<bar> < (d :: int)"
proof -
  assume d: "0 < d"
  have "(x sdiv d) * d - x = - (sgn x * (\<bar>x\<bar> mod d))"
    using d by (simp add: signed_divide_int_def sgn_if minus_div_mult_eq_mod [symmetric] algebra_simps)
  then have "\<bar>(x sdiv d) * d - x\<bar> \<le> \<bar>x\<bar> mod d" using d by (simp add: abs_mult sgn_if)
  then show ?thesis using d pos_mod_bound [of d "\<bar>x\<bar>"] by linarith
qed

lemma sdiv_exact: "0 < d \<Longrightarrow> (x * d) sdiv d = (x :: int)"
  by (simp add: signed_divide_int_def abs_mult sgn_mult) (simp add: sgn_if)

lemma sdiv_pos: "0 \<le> x \<Longrightarrow> 0 < d \<Longrightarrow> x sdiv d = x div (d :: int)"
  by (simp add: signed_divide_int_def sgn_if)

lemma sdiv_neg: "x \<le> 0 \<Longrightarrow> 0 < d \<Longrightarrow> x sdiv d = - ((- x) div (d :: int))"
  by (simp add: signed_divide_int_def sgn_if)

lemma fix_round_pos: "0 \<le> x \<Longrightarrow> x < 2 ^ 31 - 8192 \<Longrightarrow> fix_round x = (x + 8192) div FIX_F"
  by (simp add: fix_round_def mk_fix_id in_int_def sdiv_pos)

lemma fix_round_neg: "x < 0 \<Longrightarrow> - (2 ^ 31) + 8192 \<le> x \<Longrightarrow> fix_round x = - ((8192 - x) div FIX_F)"
  by (simp add: fix_round_def mk_fix_id in_int_def sdiv_neg sdiv_pos)

text \<open>An integer in the representable range becomes a fixed-point number without overflow, and
  both truncation and rounding give it back.\<close>

theorem fix_int_roundtrip:
  assumes "\<bar>n\<bar> \<le> 131071"
  shows "\<exists>x. fix_int n = Some x \<and> in_int x \<and> fix_trunc x = n \<and> fix_round x = n"
proof -
  have i: "in_int (n * FIX_F)" using assms by (auto simp: in_int_def abs_le_iff)
  have "fix_int n = Some (n * FIX_F)" using assms mk_fix_id [OF i] by (simp add: fix_int_def abs_le_iff)
  moreover have "fix_trunc (n * FIX_F) = n" by (simp add: fix_trunc_def sdiv_exact)
  moreover have "fix_round (n * FIX_F) = n"
  proof (cases "0 \<le> n")
    case True
    then show ?thesis using assms by (simp add: fix_round_pos)
  next
    case False
    then show ?thesis using assms by (simp add: fix_round_neg)
  qed
  ultimately show ?thesis using i by blast
qed

theorem fix_int_roundtrip_witness:
  "\<exists>x. fix_int (- 131071) = Some x \<and> in_int x \<and> fix_trunc x = - 131071 \<and> fix_round x = - 131071"
  by (rule fix_int_roundtrip) simp

text \<open>C12: Rounding gives a nearest integer, and a product is exact up to less than one unit of the
  last place, whenever the result fits in an \<^verbatim>\<open>int\<close>; the sum with the half of \<^verbatim>\<open>FIX_F\<close> must fit too.\<close>

theorem fixed_point_error_bounds:
  assumes "- (2 ^ 31) + 8192 \<le> x" "x < 2 ^ 31 - 8192" "in_int (x * y sdiv FIX_F)"
  shows "\<bar>fix_round x * FIX_F - x\<bar> \<le> 8192 \<and> \<bar>fix_mul x y * FIX_F - x * y\<bar> < FIX_F"
proof -
  have "\<bar>fix_round x * FIX_F - x\<bar> \<le> 8192"
  proof (cases "0 \<le> x")
    case True
    have "(x + 8192) div FIX_F * FIX_F + (x + 8192) mod FIX_F = x + 8192" by simp
    moreover have "0 \<le> (x + 8192) mod FIX_F" "(x + 8192) mod FIX_F < FIX_F" by simp_all
    ultimately show ?thesis using fix_round_pos [OF True assms(2)] by linarith
  next
    case False
    then have "x < 0" by simp
    have "(8192 - x) div FIX_F * FIX_F + (8192 - x) mod FIX_F = 8192 - x" by simp
    moreover have "0 \<le> (8192 - x) mod FIX_F" "(8192 - x) mod FIX_F < FIX_F" by simp_all
    ultimately show ?thesis using fix_round_neg [OF \<open>x < 0\<close> assms(1)] by linarith
  qed
  moreover have "\<bar>fix_mul x y * FIX_F - x * y\<bar> < FIX_F"
    using sdiv_bound [of FIX_F "x * y"] mk_fix_id [OF assms(3)] by (simp add: fix_mul_def)
  ultimately show ?thesis by blast
qed

theorem fixed_point_error_bounds_witness:
  "\<bar>fix_round (- 24577) * FIX_F - (- 24577)\<bar> \<le> 8192 \<and> \<bar>fix_mul (- 24577) 3 * FIX_F - (- 24577) * 3\<bar> < FIX_F"
  by (rule fixed_point_error_bounds) (simp_all add: in_int_def signed_divide_int_def)

end
