(* ===== verification/Spec2Isabelle.thy ===== *)
theory Spec2Isabelle
  imports FOS_Disk FOS_KDebugProps FOS_UserPrint FOS_Stats FOS_BootProps FOS_UHeapProps FOS_PromptProps FOS_LineProps
    FOS_FrameProps FOS_SyscallProps FOS_Trap FOS_PrintfProps FOS_ConsoleProps FOS_EnvProps FOS_LoaderProps FOS_UserMemProps FOS_Shared FOS_AllocSpec FOS_KRealloc FOS_KHeapProps FOS_SleepLock FOS_StringProps FOS_FixedPoint FOS_PageFileProps FOS_FaultProps
begin

text \<open>
  FOS, a teaching operating system for one 32-bit x86 processor, as far as its own code decides what
  happens: memory, processes, locks, devices, system calls, the kernel prompt and the library of its
  programs. The code is translated routine by routine; the names are those of the source.

  \<^bold>\<open>How the parts work together.\<close> At boot time the kernel measures memory and builds its page tables; then
  a list of free frames hands out frames, and the kernel heap maps them under the addresses that \<^verbatim>\<open>kmalloc\<close>
  and \<^verbatim>\<open>sbrk\<close> return. A process owns a directory of page tables, a page file on the disk and a working set of
  pages in memory; a page fault brings a page in and may move another one out. Programs enter the kernel by
  system calls, devices by interrupts; both may give up the processor, to the scheduler, which runs the first
  process of the ready queue. Sleep locks and channels put processes to sleep and wake them. Programs grow
  their heap with the same block allocator that the kernel uses, over their own \<^verbatim>\<open>sbrk\<close>.

  \<^bold>\<open>What models what.\<close> A theory whose name ends in Props, Spec or Inv proves about the theory it is named after.
  \<^item> \<^verbatim>\<open>FOS_Prelude\<close>: machine types, rounding macros, word arithmetic. \<^verbatim>\<open>FOS_Queue\<close>: the lists of \<^verbatim>\<open>inc/queue.h\<close>
    over any store of links (locale \<^verbatim>\<open>link_store\<close>). \<^verbatim>\<open>FOS_Mem\<close>, \<^verbatim>\<open>FOS_String\<close>: byte memory and \<^verbatim>\<open>lib/string.c\<close>.
    \<^verbatim>\<open>FOS_FixedPoint\<close>: \<^verbatim>\<open>inc/fixed_point.h\<close>.
  \<^item> \<^verbatim>\<open>FOS_DynAlloc\<close> and the \<^verbatim>\<open>FOS_Alloc\<close> theories with \<^verbatim>\<open>FOS_Layout\<close>: \<^verbatim>\<open>lib/dynamic_allocator.c\<close>, whose invariant
    is a list of blocks; what it needs of \<^verbatim>\<open>sbrk\<close>, with the pages it may refuse, is the locale \<^verbatim>\<open>sbrk_provider\<close>.
  \<^item> \<^verbatim>\<open>FOS_Cpu\<close>, \<^verbatim>\<open>FOS_Kernel\<close>: the processor (\<^verbatim>\<open>kern/cpu/cpu.c\<close>, spin locks) and the record of the kernel's state.
    \<^verbatim>\<open>FOS_Paging\<close>, \<^verbatim>\<open>FOS_PageMaps\<close>, \<^verbatim>\<open>FOS_Translate\<close>: frames, page tables (\<^verbatim>\<open>kern/mem/memory_manager.c\<close>,
    \<^verbatim>\<open>paging_helpers.c\<close>) and the map from pages to entries they represent. \<^verbatim>\<open>FOS_Boot\<close>: \<^verbatim>\<open>boot_memory_manager.c\<close>.
  \<^item> \<^verbatim>\<open>FOS_KHeap\<close>, \<^verbatim>\<open>FOS_KRealloc\<close>, \<^verbatim>\<open>FOS_KernelHeap\<close>, \<^verbatim>\<open>FOS_KHeapSpec\<close>: \<^verbatim>\<open>kern/mem/kheap.c\<close>; its \<^verbatim>\<open>sbrk\<close> is a provider
    for the allocator.
  \<^item> \<^verbatim>\<open>FOS_Sched\<close>, \<^verbatim>\<open>FOS_RoundRobin\<close>, \<^verbatim>\<open>FOS_Fairness\<close>: process queues, scheduler and clock interrupt (\<^verbatim>\<open>kern/cpu\<close>).
    \<^verbatim>\<open>FOS_Locks\<close>, \<^verbatim>\<open>FOS_LockProps\<close>, \<^verbatim>\<open>FOS_SleepLock\<close>: \<^verbatim>\<open>kern/conc\<close>, with all interleavings of processes that use
    a lock as a step relation: the clock may interrupt wherever interrupts are on, also between waking up and
    taking the guard of the lock again.
  \<^item> \<^verbatim>\<open>FOS_PageFile\<close>, \<^verbatim>\<open>FOS_Fault\<close>, \<^verbatim>\<open>FOS_Clock\<close>: \<^verbatim>\<open>kern/disk/pagefile_manager.c\<close>, \<^verbatim>\<open>working_set_manager.c\<close> and
    \<^verbatim>\<open>kern/trap/fault_handler.c\<close> with the N-chance clock. \<^verbatim>\<open>FOS_Disk\<close>: the disk driver \<^verbatim>\<open>lib/disk.c\<close> over
    the ports of any device, and a disk for its theorem.
    \<^verbatim>\<open>FOS_EnvLoad\<close>, \<^verbatim>\<open>FOS_Loader\<close>: creating processes and loading programs (\<^verbatim>\<open>kern/proc/user_environment.c\<close>).
  \<^item> \<^verbatim>\<open>FOS_UserMem\<close>, \<^verbatim>\<open>FOS_Shared\<close>: the kernel side of user heaps and shared objects (\<^verbatim>\<open>chunk_operations.c\<close>,
    \<^verbatim>\<open>shared_memory_manager.c\<close>). \<^verbatim>\<open>FOS_Console\<close>, \<^verbatim>\<open>FOS_Printf\<close>: \<^verbatim>\<open>kern/cons\<close> and \<^verbatim>\<open>lib/printfmt.c\<close>, \<^verbatim>\<open>lib/readline.c\<close> (over any
    terminal). \<^verbatim>\<open>FOS_Printers\<close>: the contract of printers that print the same text (locale \<^verbatim>\<open>printer_simulation\<close>).
  \<^item> \<^verbatim>\<open>FOS_UserArgs\<close>, \<^verbatim>\<open>FOS_TestCalls\<close>, \<^verbatim>\<open>FOS_Syscall\<close>, \<^verbatim>\<open>FOS_FrameProps\<close>, \<^verbatim>\<open>FOS_Trap\<close>: \<^verbatim>\<open>kern/trap/syscall.c\<close>,
    \<^verbatim>\<open>trap.c\<close>, the interrupt controller, and the calls of user tests. \<^verbatim>\<open>FOS_KDebug\<close>: \<^verbatim>\<open>kern/trap/kdebug.c\<close>.
  \<^item> \<^verbatim>\<open>FOS_Commands\<close>, \<^verbatim>\<open>FOS_Prompt\<close>, \<^verbatim>\<open>FOS_PromptLine\<close>: the kernel prompt, \<^verbatim>\<open>kern/cmd\<close>.
  \<^item> \<^verbatim>\<open>FOS_UHeap\<close>, \<^verbatim>\<open>FOS_UserPrint\<close>, \<^verbatim>\<open>FOS_Sorting\<close>, \<^verbatim>\<open>FOS_Stats\<close>: the program's side, \<^verbatim>\<open>lib/uheap.c\<close>, \<^verbatim>\<open>lib/printf.c\<close>,
    and programs of \<^verbatim>\<open>user/\<close>.
  \<^item> \<^verbatim>\<open>FOS_BootState\<close>: a small concrete kernel on which the witnesses of many theorems are evaluated.

  \<^bold>\<open>What is shown.\<close> Of each data structure an invariant and what the operations do to the abstract value it
  represents (lists of blocks, maps from pages to entries, maps from places to pages, queues, texts); of the
  scheduler, fairness; of the sleep lock, exclusion and progress; of the searches, that they end with the first
  fit or the right victim; of formatted output, that a buffer gets the text as far as it fits and numbers are read back; of the
  error paths, what the code does there, also where it is not what it should do.

  \<^bold>\<open>Conventions.\<close> \<^verbatim>\<open>None\<close> means that the routine does not return: a panic, a failed assertion, an access that
  C leaves undefined, or a loop that does not end. Loops that may not end are partial functions, so a theorem that
  has \<^verbatim>\<open>Some\<close> on its right proves that they end; no fuel is used. Fixed numbers of rounds (the 64 tables at boot
  time) are recursion on a number. Words wrap; where C leaves overflow of \<^verbatim>\<open>int\<close> undefined, integers are checked
  or the range is stated. A routine that blocks is cut where the processor changes hands: the first part ends in
  a value that says so, and another definition goes on from there.

  \<^bold>\<open>Abstractions.\<close> Kernel memory, page tables and frame descriptors are three kinds of storage that do not
  overlap. Messages on the console are left out except where printing is the subject, and so is flushing the
  TLB. Pages of user memory that a system call reads are taken to be in memory. The pages of the disk are one
  store, and the driver is modelled apart from it, over ports that are a parameter. The theorems about a
  program's heap are about pages whose page tables exist already; making them is modelled, not verified. Parameters stand for what is not in the repository or not
  fixed by it: the program images, the contents of uninitialised memory, clock readings, the bytes that devices
  deliver, the symbols of the linker, and constants of a missing header.

  \<^bold>\<open>Not modelled.\<close> Routines whose body is a panic (the schedulers other than round robin, semaphores, buffered
  replacement, resizing of working sets), assembly code and descriptor tables of the processor, the order of
  calls in \<^verbatim>\<open>kern/init.c\<close>, start and exit of programs, printing of queues and trap frames, the test drivers of
  the kernel and of \<^verbatim>\<open>user/\<close>, and example programs that only talk to the user. The directories \<^verbatim>\<open>cmd\<close>, \<^verbatim>\<open>conc\<close>
  and \<^verbatim>\<open>cons\<close> are copies of those under \<^verbatim>\<open>kern\<close>.
\<close>

end
